(* ===== verification/Prelude.thy ===== *)
theory Prelude
  imports Main
begin

text \<open>
  What every component of the development shares: the types of identifiers and of time, the
  JavaScript idioms the services are written in (truthiness of optional strings, \<open>a ?? b\<close>,
  \<open>a || b\<close>), the errors that leave a service, and the operations on database tables.

  A Prisma table is the list of its rows in insertion order.  \<open>findFirst\<close> and \<open>findUnique\<close> are
  \<^const>\<open>List.find\<close>, \<open>count\<close> is \<open>tbl_count\<close>, \<open>updateMany\<close> is \<open>tbl_update\<close>, \<open>deleteMany\<close> is
  \<open>tbl_delete\<close> and \<open>create\<close> appends.  An \<open>orderBy\<close> clause sorts stably, so rows with equal keys keep
  their insertion order (the database leaves that order open).  Instants are integers, the
  milliseconds of \<open>Date.getTime()\<close>; each operation reads the clock once and receives the reading
  as its \<open>now\<close> argument.
\<close>

named_theorems table_simps \<open>rewrite rules for the table operations\<close>
named_theorems frame_simps \<open>which tables an operation leaves unchanged\<close>

type_synonym millis = int
type_synonym ident = string

subsection \<open>JavaScript values the services test\<close>

definition falsy :: "string option \<Rightarrow> bool" where
  "falsy x = (case x of None \<Rightarrow> True | Some s \<Rightarrow> s = [])"

definition nullish_else :: "'a option \<Rightarrow> 'a \<Rightarrow> 'a" where
  "nullish_else x d = (case x of None \<Rightarrow> d | Some v \<Rightarrow> v)"

lemma falsy_simps [simp]: "falsy None" "falsy (Some s) \<longleftrightarrow> s = []"
  by (simp_all add: falsy_def)

lemma not_falsyE: "\<not> falsy x \<Longrightarrow> (\<And>s. x = Some s \<Longrightarrow> s \<noteq> [] \<Longrightarrow> P) \<Longrightarrow> P"
  by (cases x) auto

lemma nullish_else_simps [simp]: "nullish_else None d = d" "nullish_else (Some v) d = v"
  by (simp_all add: nullish_else_def)

text \<open>
  Strings are lists of 8-bit characters.  \<open>js_trim\<close> is \<open>trim()\<close>, \<open>strip_spaces\<close> is
  \<open>replace(/\s/g, '')\<close>, \<open>to_lower\<close> and \<open>to_upper\<close> are \<open>toLowerCase()\<close> and \<open>toUpperCase()\<close> on the ASCII
  letters, \<open>starts_with\<close> and \<open>ends_with\<close> are \<open>startsWith\<close> and \<open>endsWith\<close>, \<open>show_nat\<close> prints a natural
  number in decimal.
\<close>

definition js_space :: "char \<Rightarrow> bool" where
  "js_space c \<longleftrightarrow> (of_char c :: nat) \<in> {9, 10, 11, 12, 13, 32, 160}"

definition js_trim :: "string \<Rightarrow> string" where
  "js_trim s = rev (dropWhile js_space (rev (dropWhile js_space s)))"

definition strip_spaces :: "string \<Rightarrow> string" where
  "strip_spaces s = filter (\<lambda>c. \<not> js_space c) s"

definition to_lower :: "string \<Rightarrow> string" where
  "to_lower s = map (\<lambda>c. if (65 :: nat) \<le> of_char c \<and> of_char c \<le> (90 :: nat)
                         then char_of (of_char c + 32 :: nat) else c) s"

definition to_upper :: "string \<Rightarrow> string" where
  "to_upper s = map (\<lambda>c. if (97 :: nat) \<le> of_char c \<and> of_char c \<le> (122 :: nat)
                         then char_of (of_char c - 32 :: nat) else c) s"

definition starts_with :: "string \<Rightarrow> string \<Rightarrow> bool" where
  "starts_with p s \<longleftrightarrow> take (length p) s = p"

definition ends_with :: "string \<Rightarrow> string \<Rightarrow> bool" where
  "ends_with p s \<longleftrightarrow> starts_with (rev p) (rev s)"

fun show_nat :: "nat \<Rightarrow> string" where
  "show_nat n = (if n < 10 then [char_of (48 + n)] else show_nat (n div 10) @ [char_of (48 + n mod 10)])"

declare show_nat.simps [simp del]

subsection \<open>Errors\<close>

text \<open>
  The exceptions that leave a service: an OAuth token error (code, HTTP status), the
  \<open>mfa_required\<close> answer of the password grant with its challenge token, Nest's HTTP exceptions,
  a plain \<open>Error\<close>, JavaScript's \<open>TypeError\<close>, and Prisma's own errors (P2025 record not found, P2002 unique index, P2003 foreign
  key).
  Messages that only explain an error code are left out.
\<close>

datatype app_error =
    OAuthTokenError string nat
  | MfaRequired string "string list"
  | NotFoundException
  | BadRequestException
  | ConflictException
  | ForbiddenException
  | UnauthorizedException
  | UnprocessableEntityException
  | TooManyRequests
  | PlainError
  | TypeError
  | PrismaNotFound
  | PrismaUnique
  | PrismaForeignKey

type_synonym 'a result = "app_error + 'a"

definition is_ok :: "'a result \<Rightarrow> bool" where
  "is_ok r = (case r of Inl _ \<Rightarrow> False | Inr _ \<Rightarrow> True)"

lemma is_ok_simps [simp]: "\<not> is_ok (Inl e)" "is_ok (Inr x)"
  by (simp_all add: is_ok_def)

text \<open>
  A step that may throw returns its result with the state at that moment; \<open>and_then\<close> goes on with the
  next step unless the first one threw.
\<close>

definition and_then :: "'a result \<times> 's \<Rightarrow> ('a \<Rightarrow> 's \<Rightarrow> 'b result \<times> 's) \<Rightarrow> 'b result \<times> 's" where
  "and_then m k = (case m of (Inl err, s) \<Rightarrow> (Inl err, s) | (Inr x, s) \<Rightarrow> k x s)"

lemma and_then_simps [simp]:
  "and_then (Inl err, s) k = (Inl err, s)" "and_then (Inr x, s) k = k x s"
  by (simp_all add: and_then_def)

lemma and_then_okE:
  assumes "and_then m k = (Inr y, s')"
  obtains x s1 where "m = (Inr x, s1)" "k x s1 = (Inr y, s')"
  using assms by (auto simp: and_then_def split: prod.splits sum.splits)

subsection \<open>Tables\<close>

definition tbl_count :: "('r \<Rightarrow> bool) \<Rightarrow> 'r list \<Rightarrow> int" where
  "tbl_count p t = int (length (filter p t))"

definition tbl_update :: "('r \<Rightarrow> bool) \<Rightarrow> ('r \<Rightarrow> 'r) \<Rightarrow> 'r list \<Rightarrow> 'r list" where
  "tbl_update p f t = map (\<lambda>r. if p r then f r else r) t"

definition tbl_delete :: "('r \<Rightarrow> bool) \<Rightarrow> 'r list \<Rightarrow> 'r list" where
  "tbl_delete p t = filter (\<lambda>r. \<not> p r) t"

definition order_asc :: "('r \<Rightarrow> millis) \<Rightarrow> 'r list \<Rightarrow> 'r list" where
  "order_asc k t = sort_key k t"

definition order_desc :: "('r \<Rightarrow> millis) \<Rightarrow> 'r list \<Rightarrow> 'r list" where
  "order_desc k t = sort_key (\<lambda>r. - k r) t"

lemma tbl_count_Nil [simp, table_simps]: "tbl_count p [] = 0"
  by (simp add: tbl_count_def)

lemma tbl_count_Cons [simp, table_simps]:
  "tbl_count p (r # t) = (if p r then 1 else 0) + tbl_count p t"
  by (simp add: tbl_count_def)

lemma tbl_count_append [simp, table_simps]:
  "tbl_count p (t @ u) = tbl_count p t + tbl_count p u"
  by (simp add: tbl_count_def)

lemma tbl_count_nonneg [simp]: "0 \<le> tbl_count p t"
  by (simp add: tbl_count_def)

lemma tbl_count_mono: "(\<And>r. r \<in> set t \<Longrightarrow> p r \<Longrightarrow> q r) \<Longrightarrow> tbl_count p t \<le> tbl_count q t"
  by (induction t) auto

lemma tbl_count_zero_iff: "tbl_count p t = 0 \<longleftrightarrow> (\<forall>r \<in> set t. \<not> p r)"
  by (auto simp: tbl_count_def filter_empty_conv)

lemma tbl_count_delete_le: "tbl_count p (tbl_delete q t) \<le> tbl_count p t"
  by (induction t) (auto simp: tbl_delete_def)

lemma set_tbl_delete [simp, table_simps]: "set (tbl_delete p t) = {r \<in> set t. \<not> p r}"
  by (auto simp: tbl_delete_def)

lemma tbl_delete_Nil [simp, table_simps]: "tbl_delete p [] = []"
  by (simp add: tbl_delete_def)

lemma tbl_delete_Cons [simp, table_simps]:
  "tbl_delete p (r # t) = (if p r then tbl_delete p t else r # tbl_delete p t)"
  by (simp add: tbl_delete_def)

lemma tbl_update_Nil [simp, table_simps]: "tbl_update p f [] = []"
  by (simp add: tbl_update_def)

lemma tbl_update_Cons [simp, table_simps]:
  "tbl_update p f (r # t) = (if p r then f r else r) # tbl_update p f t"
  by (simp add: tbl_update_def)

lemma length_tbl_update [simp, table_simps]: "length (tbl_update p f t) = length t"
  by (simp add: tbl_update_def)

lemma set_tbl_update:
  "set (tbl_update p f t) = (\<lambda>r. if p r then f r else r) ` set t"
  by (simp add: tbl_update_def)

lemma map_tbl_update [table_simps]:
  "(\<And>r. p r \<Longrightarrow> g (f r) = g r) \<Longrightarrow> map g (tbl_update p f t) = map g t"
  by (induction t) auto

lemma tbl_count_update_eq:
  "(\<And>r. p r \<Longrightarrow> q (f r) = q r) \<Longrightarrow> tbl_count q (tbl_update p f t) = tbl_count q t"
  by (induction t) auto

lemma list_ex_tbl_update_none:
  "(\<And>x. q x \<Longrightarrow> \<not> p (f x)) \<Longrightarrow> (\<And>x. p x \<Longrightarrow> q x) \<Longrightarrow> \<not> list_ex p (tbl_update q f xs)"
  by (induction xs) auto

lemma list_ex_count: "list_ex p t \<longleftrightarrow> 0 < tbl_count p t"
  by (simp add: tbl_count_def list_ex_iff filter_empty_conv)

lemma find_None_iff_count: "List.find p t = None \<longleftrightarrow> tbl_count p t = 0"
  by (auto simp: find_None_iff tbl_count_zero_iff)

lemma find_SomeD: "List.find p t = Some r \<Longrightarrow> r \<in> set t \<and> p r"
  by (auto simp: find_Some_iff)

lemma find_tbl_update_key:
  assumes "\<And>r. k (f r) = k r"
  shows "List.find (\<lambda>r. k r = x) (tbl_update p f t)
       = map_option (\<lambda>r. if p r then f r else r) (List.find (\<lambda>r. k r = x) t)"
  using assms by (induction t) auto

lemma find_tbl_update_hit:
  assumes "\<And>r. k (f r) = k r"
  shows "List.find (\<lambda>r. k r = x) (tbl_update (\<lambda>r. k r = x) f t)
       = map_option f (List.find (\<lambda>r. k r = x) t)"
proof (cases "List.find (\<lambda>r. k r = x) t")
  case None
  then show ?thesis using find_tbl_update_key [of k f x "\<lambda>r. k r = x" t] assms by simp
next
  case (Some r)
  then have "k r = x" by (auto simp: find_Some_iff)
  with Some show ?thesis using find_tbl_update_key [of k f x "\<lambda>r. k r = x" t] assms by simp
qed

lemma find_unique:
  "distinct (map k t) \<Longrightarrow> x \<in> set t \<Longrightarrow> List.find (\<lambda>r. k r = k x) t = Some x"
  by (induction t) auto

lemma find_refine_unique:
  assumes "distinct (map k t)" and "List.find (\<lambda>r. k r = x \<and> q r) t = Some v"
  shows "List.find (\<lambda>r. k r = x) t = Some v"
  using find_unique [OF assms(1), of v] find_SomeD [OF assms(2)] by auto

lemma find_append_None: "List.find p t = None \<Longrightarrow> List.find p (t @ u) = List.find p u"
  by (induction t) (auto split: if_splits)

lemma find_append_Some: "List.find p t = Some r \<Longrightarrow> List.find p (t @ u) = Some r"
  by (induction t) (auto split: if_splits)

lemma set_order_asc [simp, table_simps]: "set (order_asc k t) = set t"
  by (simp add: order_asc_def)

lemma length_order_asc [simp, table_simps]: "length (order_asc k t) = length t"
  by (simp add: order_asc_def)

lemma sorted_order_asc: "sorted (map k (order_asc k t))"
  by (simp add: order_asc_def)

lemma set_order_desc [simp, table_simps]: "set (order_desc k t) = set t"
  by (simp add: order_desc_def)

lemma length_order_desc [simp, table_simps]: "length (order_desc k t) = length t"
  by (simp add: order_desc_def)

lemma distinct_map_filter: "distinct (map f t) \<Longrightarrow> distinct (map f (filter p t))"
  by (induction t) auto

lemma distinct_map_tbl_delete: "distinct (map f t) \<Longrightarrow> distinct (map f (tbl_delete p t))"
  by (simp add: tbl_delete_def distinct_map_filter)

lemma sum_list_update_le:
  assumes "\<And>x. p x \<Longrightarrow> w (f x) \<le> (w x :: nat)"
  shows "sum_list (map w (tbl_update p f xs)) \<le> sum_list (map w xs)"
  using assms by (induction xs) (auto intro: add_mono)

lemma sum_list_update_less:
  assumes "\<And>x. p x \<Longrightarrow> w (f x) < (w x :: nat)" and "list_ex p xs"
  shows "sum_list (map w (tbl_update p f xs)) < sum_list (map w xs)"
  using assms(2)
proof (induction xs)
  case (Cons x xs)
  have "sum_list (map w (tbl_update p f xs)) \<le> sum_list (map w xs)"
    using assms(1) by (intro sum_list_update_le) (auto intro: less_imp_le)
  with Cons assms(1) [of x] show ?case by (auto intro: add_less_le_mono)
qed simp

lemma sum_list_delete_le: "sum_list (map w (tbl_delete p xs)) \<le> (sum_list (map w xs) :: nat)"
  by (induction xs) auto

lemma filter_length_update:
  "k < length xs \<Longrightarrow> length (filter P (xs[k := x])) + (if P (xs ! k) then 1 else 0)
     = length (filter P xs) + (if P x then 1 else 0)"
proof (induction xs arbitrary: k)
  case (Cons y ys)
  then show ?case
  proof (cases k)
    case (Suc j)
    with Cons.prems Cons.IH [of j] show ?thesis by simp
  qed simp
qed simp

lemma length_filter_delete_le:
  "length (filter q (tbl_delete p xs)) \<le> length (filter q xs)"
  by (induction xs) auto

lemma length_filter_update_eq:
  "(\<And>x. q (f x) = q x) \<Longrightarrow> length (filter q (tbl_update p f xs)) = length (filter q xs)"
  by (induction xs) auto

lemma find_tbl_update_inv:
  "(\<And>x. p (f x) = p x) \<Longrightarrow>
     List.find p (tbl_update q f xs) = map_option (\<lambda>x. if q x then f x else x) (List.find p xs)"
  by (induction xs) auto

lemma distinct_id_eq:
  "distinct (map k xs) \<Longrightarrow> x \<in> set xs \<Longrightarrow> y \<in> set xs \<Longrightarrow> k x = k y \<Longrightarrow> x = y"
  by (induction xs) (auto simp: image_iff)

lemma tbl_count_unique:
  assumes "distinct (map k xs)" and "x \<in> set xs" and "q x"
  shows "tbl_count (\<lambda>y. k y = k x \<and> q y) xs = 1"
  using assms
proof (induction xs)
  case (Cons y ys)
  show ?case
  proof (cases "x = y")
    case True
    with Cons.prems have "tbl_count (\<lambda>y. k y = k x \<and> q y) ys = 0"
      by (auto simp: tbl_count_zero_iff image_iff)
    with True Cons.prems show ?thesis by simp
  next
    case False
    with Cons.prems have "k y \<noteq> k x" by (auto simp: image_iff)
    with False Cons show ?thesis by simp
  qed
qed simp

subsection \<open>Strings: split and join\<close>

text \<open>\<open>s.split(c)\<close> and \<open>xs.join(c)\<close> for a separator of one character.\<close>

fun split_on :: "char \<Rightarrow> string \<Rightarrow> string list" where
  "split_on c [] = [[]]"
| "split_on c (x # xs) =
     (if x = c then [] # split_on c xs
      else case split_on c xs of [] \<Rightarrow> [[x]] | y # ys \<Rightarrow> (x # y) # ys)"

fun join_with :: "char \<Rightarrow> string list \<Rightarrow> string" where
  "join_with c [] = []"
| "join_with c [x] = x"
| "join_with c (x # y # ys) = x @ c # join_with c (y # ys)"

lemma split_on_nonempty [simp]: "split_on c s \<noteq> []"
  by (induction s) (auto split: list.split)

lemma split_on_free: "c \<notin> set s \<Longrightarrow> split_on c s = [s]"
  by (induction s) auto

lemma split_on_append:
  "c \<notin> set x \<Longrightarrow> split_on c (x @ c # s) = x # split_on c s"
  by (induction x) auto

lemma split_on_join:
  "xs \<noteq> [] \<Longrightarrow> (\<And>x. x \<in> set xs \<Longrightarrow> c \<notin> set x) \<Longrightarrow> split_on c (join_with c xs) = xs"
  by (induction c xs rule: join_with.induct) (auto simp: split_on_free split_on_append)

lemma join_with_Cons: "xs \<noteq> [] \<Longrightarrow> join_with c (x # xs) = x @ c # join_with c xs"
  by (cases xs) auto

lemma join_split_on: "join_with c (split_on c s) = s"
proof (induction s)
  case (Cons x s)
  then show ?case
    by (cases "split_on c s"; cases "tl (split_on c s)") (auto simp: join_with_Cons)
qed simp

lemma split_on_parts_free: "y \<in> set (split_on c s) \<Longrightarrow> c \<notin> set y"
proof (induction s arbitrary: y)
  case (Cons x s)
  then show ?case by (cases "split_on c s") (auto split: if_splits)
qed simp

end
