(* ===== verification/Store.thy ===== *)
theory Store
  imports Prelude
begin

text \<open>
  The state the services share: one record per Prisma model (the columns the modelled code reads or
  writes, named after the model's fields), the database as the record of its tables, and the
  environment a request runs in.  Nullable columns are options, \<open>DateTime\<close> columns are
  milliseconds, and the defaults of \<open>prisma/schema.prisma\<close> are those of \<open>default_realm\<close>.
\<close>

subsection \<open>Rows\<close>

record realm_row =
  realm_id :: ident
  realm_name :: string
  realm_bruteForceEnabled :: bool
  realm_maxLoginFailures :: int
  realm_lockoutDuration :: int
  realm_failureResetTime :: int
  realm_permanentLockoutAfter :: int
  realm_passwordMinLength :: int
  realm_passwordRequireUppercase :: bool
  realm_passwordRequireLowercase :: bool
  realm_passwordRequireDigits :: bool
  realm_passwordRequireSpecialChars :: bool
  realm_passwordHistoryCount :: int
  realm_passwordMaxAgeDays :: int
  realm_mfaRequired :: bool
  realm_accessTokenLifespan :: int
  realm_refreshTokenLifespan :: int
  realm_offlineTokenLifespan :: int
  realm_maxSessionsPerUser :: int
  realm_eventsEnabled :: bool
  realm_displayName :: "string option"
  realm_smsMfaEnabled :: bool
  realm_smsProvider :: string
  realm_otpLength :: int
  realm_otpExpirySeconds :: int
  realm_smsMaxRequestsPerUser :: int
  realm_smsRateLimitWindow :: int
  realm_requireEmailVerification :: bool
  realm_adaptiveAuthEnabled :: bool
  realm_rateLimitEnabled :: bool
  realm_clientRateLimitPerMinute :: int
  realm_clientRateLimitPerHour :: int
  realm_userRateLimitPerMinute :: int
  realm_userRateLimitPerHour :: int
  realm_ipRateLimitPerMinute :: int
  realm_ipRateLimitPerHour :: int
  realm_magicLinkEnabled :: bool
  realm_magicLinkExpirySeconds :: int
  realm_magicLinkRateLimitPerEmail :: int
  realm_webAuthnEnabled :: bool
  realm_webAuthnRpName :: "string option"
  realm_webAuthnRpId :: "string option"
  realm_webAuthnUserVerificationRequired :: bool
  realm_registrationAllowed :: bool
  realm_registrationApprovalRequired :: bool
  realm_allowedEmailDomains :: "string list"
  realm_termsOfServiceUrl :: "string option"
  realm_impersonationEnabled :: bool
  realm_impersonationMaxDuration :: int

definition default_realm :: "ident \<Rightarrow> string \<Rightarrow> realm_row" where
  "default_realm i n =
     \<lparr> realm_id = i, realm_name = n, realm_bruteForceEnabled = False,
       realm_maxLoginFailures = 5, realm_lockoutDuration = 900, realm_failureResetTime = 600,
       realm_permanentLockoutAfter = 0, realm_passwordMinLength = 8,
       realm_passwordRequireUppercase = False, realm_passwordRequireLowercase = False,
       realm_passwordRequireDigits = False, realm_passwordRequireSpecialChars = False,
       realm_passwordHistoryCount = 0, realm_passwordMaxAgeDays = 0, realm_mfaRequired = False,
       realm_accessTokenLifespan = 300, realm_refreshTokenLifespan = 1800,
       realm_offlineTokenLifespan = 2592000, realm_maxSessionsPerUser = 10,
       realm_eventsEnabled = False, realm_displayName = None, realm_smsMfaEnabled = False,
       realm_smsProvider = ''none'', realm_otpLength = 6, realm_otpExpirySeconds = 300,
       realm_smsMaxRequestsPerUser = 3, realm_smsRateLimitWindow = 900,
       realm_requireEmailVerification = False, realm_adaptiveAuthEnabled = False,
       realm_rateLimitEnabled = False, realm_clientRateLimitPerMinute = 60,
       realm_clientRateLimitPerHour = 1000, realm_userRateLimitPerMinute = 30,
       realm_userRateLimitPerHour = 500, realm_ipRateLimitPerMinute = 20, realm_ipRateLimitPerHour = 200,
       realm_magicLinkEnabled = False, realm_magicLinkExpirySeconds = 300,
       realm_magicLinkRateLimitPerEmail = 5, realm_webAuthnEnabled = False,
       realm_webAuthnRpName = None, realm_webAuthnRpId = None, realm_webAuthnUserVerificationRequired = False,
       realm_registrationAllowed = True, realm_registrationApprovalRequired = False,
       realm_allowedEmailDomains = [], realm_termsOfServiceUrl = None, realm_impersonationEnabled = False,
       realm_impersonationMaxDuration = 1800 \<rparr>"

record user_row =
  user_id :: ident
  user_realmId :: ident
  user_username :: string
  user_email :: "string option"
  user_emailVerified :: bool
  user_firstName :: "string option"
  user_lastName :: "string option"
  user_enabled :: bool
  user_passwordHash :: "string option"
  user_federationLink :: "ident option"
  user_passwordChangedAt :: "millis option"
  user_lockedUntil :: "millis option"
  user_passwordAlgorithm :: string
  user_createdAt :: millis

definition new_user :: "ident \<Rightarrow> ident \<Rightarrow> string \<Rightarrow> user_row" where
  "new_user i rid n =
     \<lparr> user_id = i, user_realmId = rid, user_username = n, user_email = None,
       user_emailVerified = False, user_firstName = None, user_lastName = None,
       user_enabled = True, user_passwordHash = None, user_federationLink = None,
       user_passwordChangedAt = None, user_lockedUntil = None,
       user_passwordAlgorithm = ''argon2'', user_createdAt = 0 \<rparr>"

datatype client_type = CONFIDENTIAL | PUBLIC

record client_row =
  client_id :: ident
  client_realmId :: ident
  client_clientId :: string
  client_name :: "string option"
  client_clientSecret :: "string option"
  client_clientType :: client_type
  client_enabled :: bool
  client_requireConsent :: bool
  client_redirectUris :: "string list"
  client_grantTypes :: "string list"
  client_requiredAcr :: "string option"
  client_serviceAccountUserId :: "ident option"
  client_postLogoutRedirectUris :: "string list"
  client_backchannelLogoutUri :: "string option"
  client_backchannelLogoutSessionRequired :: bool
  client_authFlowId :: "ident option"

record session_row =
  sess_id :: ident
  sess_userId :: ident
  sess_ipAddress :: "string option"
  sess_userAgent :: "string option"
  sess_satisfiedAcr :: "string option"
  sess_amr :: "string list"
  sess_createdAt :: millis
  sess_expiresAt :: millis

record refresh_token_row =
  rt_id :: ident
  rt_sessionId :: ident
  rt_tokenHash :: string
  rt_scope :: "string option"
  rt_revoked :: bool
  rt_isOffline :: bool
  rt_clientId :: "string option"
  rt_createdAt :: millis
  rt_expiresAt :: millis

record auth_code_row =
  ac_id :: ident
  ac_code :: string
  ac_clientId :: ident
  ac_userId :: ident
  ac_redirectUri :: string
  ac_scope :: "string option"
  ac_codeChallenge :: "string option"
  ac_codeChallengeMethod :: "string option"
  ac_nonce :: "string option"
  ac_acrValues :: "string option"
  ac_satisfiedAcr :: "string option"
  ac_amr :: "string list"
  ac_used :: bool
  ac_expiresAt :: millis

record device_code_row =
  dc_id :: ident
  dc_deviceCode :: string
  dc_userCode :: string
  dc_clientId :: ident
  dc_realmId :: ident
  dc_scope :: "string option"
  dc_userId :: "ident option"
  dc_approved :: bool
  dc_denied :: bool
  dc_interval :: int
  dc_lastPolledAt :: "millis option"
  dc_expiresAt :: millis

record signing_key_row =
  sk_realmId :: ident
  sk_kid :: string
  sk_publicKey :: string
  sk_privateKey :: string
  sk_active :: bool
  sk_createdAt :: millis

record login_failure_row =
  lf_realmId :: ident
  lf_userId :: "ident option"
  lf_ipAddress :: "string option"
  lf_failedAt :: millis

record totp_failure_row =
  tf_userId :: ident
  tf_ipAddress :: "string option"
  tf_failedAt :: millis

record webauthn_failure_row =
  wf_realmId :: ident
  wf_userId :: ident
  wf_ipAddress :: "string option"
  wf_failedAt :: millis

record password_history_row =
  ph_id :: ident
  ph_userId :: ident
  ph_realmId :: ident
  ph_passwordHash :: string
  ph_createdAt :: millis

record user_credential_row =
  uc_id :: ident
  uc_userId :: ident
  uc_type :: string
  uc_secretKey :: string
  uc_phoneNumber :: "string option"
  uc_digits :: int
  uc_period :: int
  uc_verified :: bool

record recovery_code_row =
  rc_userId :: ident
  rc_codeHash :: string
  rc_used :: bool

record used_totp_row =
  ut_userId :: ident
  ut_codeHash :: string
  ut_expiresAt :: millis

text \<open>
  \<open>PendingAction.data\<close> is a JSON object whose shape depends on the row's type: the
  \<open>MfaChallengeData\<close> and \<open>MfaEnrollmentData\<close> interfaces of \<open>mfa.service.ts\<close>,
  \<open>SmsEnrollmentData\<close> of \<open>sms-otp.service.ts\<close>, \<open>ConsentRequest\<close> of \<open>consent.service.ts\<close>, the
  challenge of \<open>webauthn.service.ts\<close>, or the data of another component.  A masked
  phone number keeps a prefix and a suffix around a number of bullets, a character outside the
  8-bit range of \<^typ>\<open>char\<close>.
\<close>

datatype masked_phone = Masked string nat string

datatype pending_data =
    MfaChallengeData
      (pd_userId: ident) (pd_realmId: ident) (pd_clientId: "string option")
      (pd_oauthParams: "(string \<times> string) list option") (pd_primaryAmr: "string list option")
  | MfaEnrollmentData
      (pd_userId: ident) (pd_realmId: ident)
      (pd_oauthParams: "(string \<times> string) list option") (pd_rememberMe: "bool option")
      (pd_primaryAmr: "string list option") (pd_verified: bool) (pd_factor: "string option")
  | SmsEnrollmentData
      (pd_userId: ident) (pd_realmId: ident) (pd_maskedPhone: "masked_phone option")
      (pd_phoneEncrypted: "string option")
  | ConsentRequest
      (pd_userId: ident) (pd_consentClientId: ident) (pd_clientName: string) (pd_realmName: string)
      (pd_scopes: "string list") (pd_requestParams: "(string \<times> string) list")
      (pd_satisfiedAcr: "string option") (pd_amr: "string list option")
  | WebAuthnChallengeData (pd_key: string) (pd_realmId: ident) (pd_challenge: string)
  | OtherPendingData string

record pending_action_row =
  pa_id :: ident
  pa_tokenHash :: string
  pa_type :: string
  pa_data :: pending_data
  pa_attempts :: int
  pa_expiresAt :: millis
  pa_createdAt :: millis

record step_up_row =
  su_sessionId :: ident
  su_acrLevel :: string
  su_completedAt :: millis
  su_expiresAt :: millis

record otp_attempt_row =
  oa_id :: ident
  oa_realmId :: ident
  oa_userId :: ident
  oa_purpose :: string
  oa_bindingHash :: string
  oa_phoneHash :: string
  oa_phoneEncrypted :: "string option"
  oa_codeHash :: string
  oa_attempts :: int
  oa_sendCount :: int
  oa_lastSentAt :: millis
  oa_expiresAt :: millis

record sms_log_row =
  sl_id :: ident
  sl_realmId :: ident
  sl_userId :: ident
  sl_phoneHash :: string
  sl_ipHash :: "string option"
  sl_status :: string
  sl_createdAt :: millis

record role_row =
  role_id :: ident
  role_realmId :: ident
  role_name :: string
  role_clientId :: "ident option"

record group_row =
  group_id :: ident
  group_realmId :: ident
  group_name :: string
  group_description :: "string option"
  group_parentId :: "ident option"

record federation_row =
  fed_id :: ident
  fed_realmId :: ident
  fed_enabled :: bool
  fed_priority :: int
  fed_importEnabled :: bool

record login_event_row =
  le_realmId :: ident
  le_type :: string
  le_userId :: "ident option"
  le_sessionId :: "ident option"
  le_clientId :: "string option"
  le_ipAddress :: "string option"
  le_error :: "string option"

record protocol_mapper_row =
  pm_mapperType :: string
  pm_config :: "(string \<times> string) list"

record client_scope_row =
  cs_id :: ident
  cs_realmId :: ident
  cs_name :: string
  cs_protocolMappers :: "protocol_mapper_row list"

record login_session_row =
  ls_id :: ident
  ls_userId :: ident
  ls_realmId :: ident
  ls_tokenHash :: string
  ls_ipAddress :: "string option"
  ls_userAgent :: "string option"
  ls_satisfiedAcr :: "string option"
  ls_amr :: "string list"
  ls_createdAt :: millis
  ls_expiresAt :: millis

record revoked_token_row =
  rv_jti :: string
  rv_expiresAt :: millis

record user_consent_row =
  uco_userId :: ident
  uco_clientId :: ident
  uco_scopes :: "string list"

record consent_policy_row =
  cp_version :: string
  cp_isActive :: bool
  cp_publishedAt :: "millis option"

record consent_category_row =
  cc_realmId :: ident
  cc_key :: string
  cc_enabled :: bool
  cc_scopes :: "string list"
  cc_policies :: "consent_policy_row list"

record consent_history_row =
  ch_userId :: ident
  ch_clientId :: ident
  ch_action :: string
  ch_scopes :: "string list"
  ch_policyVersion :: "string option"
  ch_ipAddress :: "string option"
  ch_userAgent :: "string option"
  ch_metadata :: "(string \<times> string list) list option"
  ch_createdAt :: millis

record verification_token_row =
  vt_id :: ident
  vt_tokenHash :: string
  vt_userId :: ident
  vt_type :: string
  vt_expiresAt :: millis

record rate_limit_row =
  rl_key :: string
  rl_minuteCount :: int
  rl_minuteWindowStart :: millis
  rl_hourCount :: int
  rl_hourWindowStart :: millis

datatype magic_link_status = PENDING | COMPLETED | CANCELLED | EXPIRED

record magic_link_row =
  ml_id :: ident
  ml_realmId :: ident
  ml_userId :: ident
  ml_email :: string
  ml_tokenHash :: string
  ml_status :: magic_link_status
  ml_expiresAt :: millis
  ml_completedAt :: "millis option"
  ml_ipAddress :: "string option"
  ml_userAgent :: "string option"
  ml_createdAt :: millis

record custom_attribute_row =
  ca_id :: ident
  ca_realmId :: ident
  ca_name :: string
  ca_displayName :: string
  ca_type :: string
  ca_required :: bool
  ca_showOnRegistration :: bool
  ca_showOnProfile :: bool
  ca_options :: "string list option"
  ca_mapToOidcClaim :: "string option"
  ca_sortOrder :: int
  ca_createdAt :: millis

record user_attribute_row =
  ua_userId :: ident
  ua_attributeId :: ident
  ua_value :: string

record webauthn_credential_row =
  wc_id :: ident
  wc_userId :: ident
  wc_realmId :: ident
  wc_credentialId :: string
  wc_publicKey :: string
  wc_counter :: int
  wc_transports :: "string list"
  wc_deviceType :: string
  wc_backedUp :: bool
  wc_friendlyName :: "string option"
  wc_createdAt :: millis
  wc_lastUsedAt :: "millis option"

record impersonation_session_row =
  is_id :: ident
  is_realmId :: ident
  is_adminUserId :: ident
  is_targetUserId :: ident
  is_sessionId :: ident
  is_active :: bool
  is_expiresAt :: millis
  is_endedAt :: "millis option"

subsection \<open>The database\<close>

text \<open>
  \<open>userRoles\<close>, \<open>userGroups\<close>, \<open>groupRoles\<close>, \<open>clientDefaultScopes\<close> and \<open>clientOptionalScopes\<close> are the
  join tables, as pairs of identifiers;
  \<open>outbox\<close> lists the e-mails handed to the mailer as pairs of recipient and subject, and
  \<open>backchannelOutbox\<close> the logout tokens handed to clients (address, audience, subject, session).
  Four stores are not tables: \<open>redisKeys\<close> holds the keys set in Redis with the instant their TTL ends,
  \<open>redisCounters\<close> the counters of Redis with theirs (none for a counter without a TTL), and
  \<open>memTotpCodes\<close> and \<open>memBlacklist\<close> are the in-process maps \<open>usedTotpCodes\<close> of the MFA service and
  \<open>memoryFallback\<close> of the token blacklist.
\<close>

record db =
  realms :: "realm_row list"
  users :: "user_row list"
  clients :: "client_row list"
  sessions :: "session_row list"
  refreshTokens :: "refresh_token_row list"
  authorizationCodes :: "auth_code_row list"
  deviceCodes :: "device_code_row list"
  signingKeys :: "signing_key_row list"
  loginFailures :: "login_failure_row list"
  totpFailures :: "totp_failure_row list"
  webAuthnFailures :: "webauthn_failure_row list"
  passwordHistories :: "password_history_row list"
  userCredentials :: "user_credential_row list"
  recoveryCodes :: "recovery_code_row list"
  usedTotpCodes :: "used_totp_row list"
  pendingActions :: "pending_action_row list"
  stepUpRecords :: "step_up_row list"
  roles :: "role_row list"
  userRoles :: "(ident \<times> ident) list"
  groups :: "group_row list"
  userGroups :: "(ident \<times> ident) list"
  groupRoles :: "(ident \<times> ident) list"
  federations :: "federation_row list"
  loginEvents :: "login_event_row list"
  clientScopes :: "client_scope_row list"
  clientDefaultScopes :: "(ident \<times> ident) list"
  clientOptionalScopes :: "(ident \<times> ident) list"
  loginSessions :: "login_session_row list"
  revokedTokens :: "revoked_token_row list"
  customAttributes :: "custom_attribute_row list"
  userAttributes :: "user_attribute_row list"
  webAuthnCredentials :: "webauthn_credential_row list"
  impersonationSessions :: "impersonation_session_row list"
  userConsents :: "user_consent_row list"
  consentCategories :: "consent_category_row list"
  consentHistory :: "consent_history_row list"
  verificationTokens :: "verification_token_row list"
  rateLimitEntries :: "rate_limit_row list"
  magicLinkRequests :: "magic_link_row list"
  otpAttempts :: "otp_attempt_row list"
  smsDeliveryLogs :: "sms_log_row list"
  outbox :: "(string \<times> string) list"
  redisKeys :: "(string \<times> millis) list"
  redisCounters :: "(string \<times> int \<times> millis option) list"
  memTotpCodes :: "(string \<times> millis) list"
  memBlacklist :: "(string \<times> int) list"
  backchannelOutbox :: "(string \<times> string \<times> ident \<times> ident option) list"

definition empty_db :: db where
  "empty_db =
     \<lparr> realms = [], users = [], clients = [], sessions = [], refreshTokens = [],
       authorizationCodes = [], deviceCodes = [], signingKeys = [], loginFailures = [],
       totpFailures = [], webAuthnFailures = [], passwordHistories = [], userCredentials = [],
       recoveryCodes = [], usedTotpCodes = [], pendingActions = [], stepUpRecords = [],
       roles = [], userRoles = [], groups = [], userGroups = [], groupRoles = [],
       federations = [], loginEvents = [], clientScopes = [], clientDefaultScopes = [],
       clientOptionalScopes = [], loginSessions = [], revokedTokens = [],
       customAttributes = [], userAttributes = [], webAuthnCredentials = [], impersonationSessions = [],
       userConsents = [], consentCategories = [], consentHistory = [], verificationTokens = [],
       rateLimitEntries = [], magicLinkRequests = [], otpAttempts = [], smsDeliveryLogs = [], outbox = [], redisKeys = [],
       redisCounters = [], memTotpCodes = [],
       memBlacklist = [], backchannelOutbox = [] \<rparr>"

subsection \<open>Queries several services share\<close>

definition user_by_id :: "ident \<Rightarrow> db \<Rightarrow> user_row option" where
  "user_by_id i s = List.find (\<lambda>u. user_id u = i) (users s)"

definition user_by_username :: "ident \<Rightarrow> string \<Rightarrow> db \<Rightarrow> user_row option" where
  "user_by_username rid n s = List.find (\<lambda>u. user_realmId u = rid \<and> user_username u = n) (users s)"

definition update_user :: "ident \<Rightarrow> (user_row \<Rightarrow> user_row) \<Rightarrow> db \<Rightarrow> db" where
  "update_user i f s = s\<lparr>users := tbl_update (\<lambda>u. user_id u = i) f (users s)\<rparr>"

text \<open>
  \<open>RefreshToken.session\<close> is declared with \<open>onDelete: Cascade\<close> in the schema: deleting a session
  deletes its refresh tokens.
\<close>

definition delete_sessions :: "ident list \<Rightarrow> db \<Rightarrow> db" where
  "delete_sessions is s =
     s\<lparr> sessions := tbl_delete (\<lambda>x. sess_id x \<in> set is) (sessions s),
        refreshTokens := tbl_delete (\<lambda>t. rt_sessionId t \<in> set is) (refreshTokens s) \<rparr>"

lemma user_by_id_update_user:
  assumes "\<And>u. user_id (f u) = user_id u"
  shows "user_by_id i (update_user j f s)
       = (if i = j then map_option f (user_by_id i s) else user_by_id i s)"
proof (cases "i = j")
  case True
  then show ?thesis
    using find_tbl_update_hit [of user_id f i "users s"] assms
    by (simp add: user_by_id_def update_user_def)
next
  case False
  have "List.find (\<lambda>u. user_id u = i) (tbl_update (\<lambda>u. user_id u = j) f us)
      = List.find (\<lambda>u. user_id u = i) us" for us
    using assms False by (induction us) auto
  with False show ?thesis by (simp add: user_by_id_def update_user_def)
qed

lemma user_by_id_in: "user_by_id i s = Some u \<Longrightarrow> u \<in> set (users s) \<and> user_id u = i"
  by (auto simp: user_by_id_def dest: find_SomeD)

subsection \<open>The environment of a request\<close>

text \<open>
  What a request obtains from outside the program: the clock, the cryptographic library (SHA-256,
  Argon2 verification, the comparison of a password with a bcrypt hash and with a PBKDF2 hash of given iterations
  and salt, HMAC, the authenticated encryption whose \<open>decrypt\<close> throws on a foreign
  ciphertext, the validation of a TOTP code by the \<open>otpauth\<close> package), the LDAP servers, the text
  message gateway (whether it accepts a message), whether the optional mailer and the optional SMS
  service are configured, and the condition of Redis: connected, connected but failing every
  command, or not available; and which texts the URL constructor accepts.  Random values and database-generated identifiers are arguments of
  the operations that draw them.
\<close>

datatype redis_mode = RedisUp | RedisFailing | RedisDown

record env =
  now :: millis
  sha256 :: "string \<Rightarrow> string"
  argon2_verify :: "string \<Rightarrow> string \<Rightarrow> bool"
  bcrypt_compare :: "string \<Rightarrow> string \<Rightarrow> bool"
  pbkdf2_matches :: "string \<Rightarrow> int \<Rightarrow> string \<Rightarrow> string \<Rightarrow> bool"
  base64url_of_hex :: "string \<Rightarrow> string"
  totp_validate :: "user_credential_row \<Rightarrow> string \<Rightarrow> millis \<Rightarrow> bool"
  ldap_authenticate :: "ident \<Rightarrow> string \<Rightarrow> string \<Rightarrow> bool"
  ldap_search :: "ident \<Rightarrow> string \<Rightarrow> (string \<times> string option \<times> string option \<times> string option) option"
  emailService :: bool
  smsOtpService :: bool
  hmac :: "string \<Rightarrow> string \<Rightarrow> string"
  encrypt :: "string \<Rightarrow> string"
  decrypt :: "string \<Rightarrow> string option"
  sms_gateway :: "string \<Rightarrow> string \<Rightarrow> string \<Rightarrow> bool"
  SMS_REALM_HOURLY_LIMIT :: "int option"
  redis :: redis_mode
  base_url :: string
  valid_url :: "string \<Rightarrow> bool"

text \<open>
  A concrete environment, in which hashing is the identity and a password matches its own hash.  The
  witnesses use it.
\<close>

definition sample_env :: env where
  "sample_env =
     \<lparr> now = 1000000, sha256 = (\<lambda>x. x), argon2_verify = (\<lambda>h p. h = p),
       bcrypt_compare = (\<lambda>p h. h = CHR ''$'' # p), pbkdf2_matches = (\<lambda>p i x h. h = p @ x),
       base64url_of_hex = (\<lambda>x. x), totp_validate = (\<lambda>c k t. k = uc_secretKey c),
       ldap_authenticate = (\<lambda>f u p. False), ldap_search = (\<lambda>f u. None),
       emailService = True, smsOtpService = True, hmac = (\<lambda>p x. p @ x), encrypt = (\<lambda>x. x),
       decrypt = Some, sms_gateway = (\<lambda>p t m. True), SMS_REALM_HOURLY_LIMIT = None,
       redis = RedisUp, base_url = ''http://localhost:3000'', valid_url = (\<lambda>_. True) \<rparr>"

definition sample_realm :: realm_row where
  "sample_realm = (default_realm ''r1'' ''acme'')\<lparr> realm_bruteForceEnabled := True,
     realm_maxLoginFailures := 2 \<rparr>"

definition sample_user :: user_row where
  "sample_user = (new_user ''u1'' ''r1'' ''alice'')\<lparr> user_email := Some ''alice@example.org'',
     user_passwordHash := Some ''pw'' \<rparr>"

definition sample_db :: db where
  "sample_db = empty_db\<lparr> realms := [sample_realm], users := [sample_user] \<rparr>"

lemmas sample_defs = sample_env_def sample_realm_def sample_user_def sample_db_def
  default_realm_def new_user_def empty_db_def

end
