(* ===== verification/Contracts.thy ===== *)
theory Contracts
  imports Prelude
begin

text \<open>
  The interfaces that several components implement, as locales.  A locale fixes the operations a
  client calls and assumes the laws the provider promises; what follows from the laws is proved
  here once.  The components interpret the locales on their own definitions.
\<close>

subsection \<open>Credentials with a bounded number of uses\<close>

text \<open>
  Authorization codes, MFA challenges, recovery codes, magic links and refresh tokens are all
  redeemed by a conditional write: a request that is accepted changes the row so that fewer, or no,
  later requests are accepted.  A run of the system is a sequence of events: an attempt to use the
  credential, with the circumstances of the request (its time and other arguments), or any other
  operation.  \<open>grants\<close> counts how many attempts of a run are accepted.
\<close>

datatype ('a, 's) event = Attempt 'a | Other "'s \<Rightarrow> 's"

fun grants :: "('a \<Rightarrow> 's \<Rightarrow> bool \<times> 's) \<Rightarrow> ('a, 's) event list \<Rightarrow> 's \<Rightarrow> nat" where
  "grants c [] s = 0"
| "grants c (Attempt a # es) s = (if fst (c a s) then 1 else 0) + grants c es (snd (c a s))"
| "grants c (Other f # es) s = grants c es (f s)"

definition others_in :: "('s \<Rightarrow> 's) set \<Rightarrow> ('a, 's) event list \<Rightarrow> bool" where
  "others_in F es \<longleftrightarrow> (\<forall>f. Other f \<in> set es \<longrightarrow> f \<in> F)"

lemma others_in_Cons:
  "others_in F (ev # es) \<longleftrightarrow> (case ev of Attempt a \<Rightarrow> True | Other f \<Rightarrow> f \<in> F) \<and> others_in F es"
  by (cases ev) (auto simp: others_in_def)

lemma grants_cong:
  "(\<And>a s. Attempt a \<in> set es \<Longrightarrow> c a s = c' a s) \<Longrightarrow> grants c es s = grants c' es s"
proof (induction es arbitrary: s)
  case (Cons ev es)
  then show ?case by (cases ev) auto
qed simp

text \<open>
  The contract: \<open>budget s\<close> bounds the uses left; an accepted attempt spends one, and neither a refused
  attempt nor any of the other operations \<open>ops\<close> gives uses back.
\<close>

locale bounded_use =
  fixes claim :: "'a \<Rightarrow> 's \<Rightarrow> bool \<times> 's"
    and budget :: "'s \<Rightarrow> nat"
    and ops :: "('s \<Rightarrow> 's) set"
  assumes claim_spends: "fst (claim a s) \<Longrightarrow> budget (snd (claim a s)) < budget s"
    and claim_refused: "\<not> fst (claim a s) \<Longrightarrow> budget (snd (claim a s)) \<le> budget s"
    and ops_budget: "f \<in> ops \<Longrightarrow> budget (f s) \<le> budget s"
begin

theorem grants_le_budget: "others_in ops es \<Longrightarrow> grants claim es s \<le> budget s"
proof (induction es arbitrary: s)
  case Nil
  then show ?case by simp
next
  case (Cons ev es)
  then have IH: "\<And>s. grants claim es s \<le> budget s" by (simp add: others_in_Cons)
  show ?case
  proof (cases ev)
    case (Attempt a)
    then show ?thesis
      using IH [of "snd (claim a s)"] claim_spends [of a s] claim_refused [of a s] by auto
  next
    case (Other f)
    with Cons.prems have "budget (f s) \<le> budget s" by (simp add: others_in_Cons ops_budget)
    with IH [of "f s"] Other show ?thesis by simp
  qed
qed

end

text \<open>A single-use credential is either live or dead, and dead for good once it was accepted.\<close>

locale single_use =
  fixes claim :: "'a \<Rightarrow> 's \<Rightarrow> bool \<times> 's"
    and live :: "'s \<Rightarrow> bool"
    and ops :: "('s \<Rightarrow> 's) set"
  assumes claim_live: "fst (claim a s) \<Longrightarrow> live s"
    and claim_kills: "fst (claim a s) \<Longrightarrow> \<not> live (snd (claim a s))"
    and claim_dead: "\<not> live s \<Longrightarrow> \<not> live (snd (claim a s))"
    and ops_dead: "f \<in> ops \<Longrightarrow> \<not> live s \<Longrightarrow> \<not> live (f s)"

sublocale single_use < bounded: bounded_use claim "\<lambda>s. if live s then 1 else 0" ops
  by unfold_locales (auto simp: claim_live claim_kills claim_dead ops_dead)

context single_use
begin

theorem granted_at_most_once: "others_in ops es \<Longrightarrow> grants claim es s \<le> 1"
  using bounded.grants_le_budget [of es s] by (auto split: if_splits)

theorem dead_never_granted: "others_in ops es \<Longrightarrow> \<not> live s \<Longrightarrow> grants claim es s = 0"
  using bounded.grants_le_budget [of es s] by simp

end

subsection \<open>Single use under an invariant\<close>

text \<open>
  The same contract for a provider whose laws need an invariant of the tables (unique keys, say), which every
  operation keeps.
\<close>

locale guarded_use =
  fixes claim :: "'a \<Rightarrow> 's \<Rightarrow> bool \<times> 's"
    and live :: "'s \<Rightarrow> bool"
    and ops :: "('s \<Rightarrow> 's) set"
    and inv :: "'s \<Rightarrow> bool"
  assumes claim_inv: "inv s \<Longrightarrow> inv (snd (claim a s))"
    and ops_inv: "f \<in> ops \<Longrightarrow> inv s \<Longrightarrow> inv (f s)"
    and claim_live: "inv s \<Longrightarrow> fst (claim a s) \<Longrightarrow> live s"
    and claim_kills: "inv s \<Longrightarrow> fst (claim a s) \<Longrightarrow> \<not> live (snd (claim a s))"
    and claim_dead: "inv s \<Longrightarrow> \<not> live s \<Longrightarrow> \<not> live (snd (claim a s))"
    and ops_dead: "f \<in> ops \<Longrightarrow> inv s \<Longrightarrow> \<not> live s \<Longrightarrow> \<not> live (f s)"
begin

theorem grants_le_live: "others_in ops es \<Longrightarrow> inv s \<Longrightarrow> grants claim es s \<le> (if live s then 1 else 0)"
proof (induction es arbitrary: s)
  case (Cons ev es)
  then have IH: "\<And>s. inv s \<Longrightarrow> grants claim es s \<le> (if live s then 1 else 0)" by (simp add: others_in_Cons)
  show ?case
  proof (cases ev)
    case (Attempt a)
    then show ?thesis
      using Cons.prems(2) IH [of "snd (claim a s)"] claim_inv [of s a] claim_live [of s a] claim_kills [of s a] claim_dead [of s a]
      by (auto split: if_splits)
  next
    case (Other f)
    with Cons.prems have "f \<in> ops" by (simp add: others_in_Cons)
    with Cons.prems(2) Other IH [of "f s"] show ?thesis using ops_inv [of f s] ops_dead [of f s] by (auto split: if_splits)
  qed
qed simp

theorem granted_once: "others_in ops es \<Longrightarrow> inv s \<Longrightarrow> grants claim es s \<le> 1"
  using grants_le_live [of es s] by (auto split: if_splits)

end

subsection \<open>Failure counting and lockout\<close>

text \<open>
  A failure tracker records one row per failure and locks the account when the failures inside
  the sliding window reach the limit.  \<open>recf t s\<close> is the state after a failure at time \<open>t\<close>,
  \<open>cnt w s\<close> the number of recorded failures that are not older than \<open>w\<close>, \<open>locked_until s\<close> the
  account's lock.
\<close>

locale failure_tracker =
  fixes recf :: "millis \<Rightarrow> 's \<Rightarrow> 's"
    and cnt :: "millis \<Rightarrow> 's \<Rightarrow> int"
    and locked_until :: "'s \<Rightarrow> millis option"
    and limit :: int
    and window :: millis
    and lock_ok :: "millis \<Rightarrow> millis option \<Rightarrow> bool"
    and ok :: "'s \<Rightarrow> bool"
  assumes recf_cnt: "ok s \<Longrightarrow> cnt w (recf t s) = cnt w s + (if w \<le> t then 1 else 0)"
    and recf_ok: "ok s \<Longrightarrow> ok (recf t s)"
    and recf_locks: "ok s \<Longrightarrow> limit \<le> cnt (t - window) (recf t s) \<Longrightarrow>
           lock_ok t (locked_until (recf t s))"
    and recf_keeps: "ok s \<Longrightarrow> cnt (t - window) (recf t s) < limit \<Longrightarrow>
           locked_until (recf t s) = locked_until s"
    and cnt_nonneg: "0 \<le> cnt w s"
begin

lemma ok_fold: "ok s \<Longrightarrow> ok (fold recf ts s)"
  by (induction ts arbitrary: s) (auto simp: recf_ok)

lemma cnt_fold:
  "ok s \<Longrightarrow> cnt w (fold recf ts s) = cnt w s + int (length (filter (\<lambda>t. w \<le> t) ts))"
  by (induction ts arbitrary: s) (auto simp: recf_cnt recf_ok)

theorem burst_locks:
  assumes "ok s" and "\<And>t. t \<in> set ts \<Longrightarrow> last_t - window \<le> t" and "0 \<le> window"
    and "limit \<le> int (length ts) + 1"
  shows "lock_ok last_t (locked_until (recf last_t (fold recf ts s)))"
proof (rule recf_locks)
  show "ok (fold recf ts s)" using assms(1) by (rule ok_fold)
  then have "cnt (last_t - window) (recf last_t (fold recf ts s))
           = cnt (last_t - window) s + int (length (filter (\<lambda>t. last_t - window \<le> t) ts)) + 1"
    using assms(1,3) by (simp add: recf_cnt cnt_fold)
  moreover have "filter (\<lambda>t. last_t - window \<le> t) ts = ts"
    using assms(2) by (simp add: filter_id_conv)
  ultimately show "limit \<le> cnt (last_t - window) (recf last_t (fold recf ts s))"
    using assms(4) cnt_nonneg [of "last_t - window" s] by simp
qed

theorem few_failures_never_lock:
  assumes "ok s" and "int (length ts) < limit" and "\<And>w. cnt w s = 0"
  shows "locked_until (fold recf ts s) = locked_until s"
  using assms(2)
proof (induction ts rule: rev_induct)
  case Nil
  then show ?case by simp
next
  case (snoc t ts)
  have ok': "ok (fold recf ts s)" using assms(1) by (rule ok_fold)
  have few: "int (length (filter (\<lambda>u. t - window \<le> u) ts)) \<le> int (length ts)"
    by simp
  have "(if t - window \<le> t then 1 else 0) \<le> (1 :: int)"
    by simp
  with few have "cnt (t - window) (recf t (fold recf ts s)) \<le> int (length ts) + 1"
    unfolding recf_cnt [OF ok'] cnt_fold [OF assms(1)] assms(3) by linarith
  with snoc.prems have "locked_until (recf t (fold recf ts s)) = locked_until (fold recf ts s)"
    using ok' by (intro recf_keeps) auto
  with snoc show ?case by simp
qed

end

end
