(* ===== verification/Brute_Force.thy ===== *)
theory Brute_Force
  imports Store Contracts
begin

text \<open>
  \<open>src/src/brute-force/brute-force.service.ts\<close>: the lock check, the three failure trackers (password,
  TOTP, WebAuthn), the TOTP rate limit, unlocking and the periodic clean-up.

  \<open>recordFailure\<close> runs in one serializable transaction, so an error leaves the database as it was.
  The user a failure is recorded for must exist: the failure tables reference it, and the update of
  its lock raises Prisma's P2025 otherwise.
\<close>

subsection \<open>Definitions\<close>

record lock_status =
  locked :: bool
  lockedUntil :: "millis option"

definition checkLocked :: "env \<Rightarrow> realm_row \<Rightarrow> user_row \<Rightarrow> lock_status" where
  "checkLocked e r u =
     (if \<not> realm_bruteForceEnabled r then \<lparr> locked = False, lockedUntil = None \<rparr>
      else case user_lockedUntil u of
        None \<Rightarrow> \<lparr> locked = False, lockedUntil = None \<rparr>
      | Some t \<Rightarrow>
          if t > now e then \<lparr> locked = True, lockedUntil = Some t \<rparr>
          else \<lparr> locked = False, lockedUntil = None \<rparr>)"

definition maxFailures :: "realm_row \<Rightarrow> int" where
  "maxFailures r = max (realm_maxLoginFailures r) 1"

definition resetTime :: "realm_row \<Rightarrow> int" where
  "resetTime r = max (realm_failureResetTime r) 1"

text \<open>\<open>new Date('2099-12-31T23:59:59Z')\<close>.\<close>

definition permanentLock :: millis where
  "permanentLock = 4102444799000"

definition sendLockoutNotification :: "env \<Rightarrow> ident \<Rightarrow> bool \<Rightarrow> db \<Rightarrow> db" where
  "sendLockoutNotification e uid permanent s =
     (if \<not> emailService e then s
      else case user_by_id uid s of
        None \<Rightarrow> s
      | Some u \<Rightarrow>
          if falsy (user_email u) then s
          else s\<lparr> outbox := outbox s @
                 [(the (user_email u),
                   if permanent then ''Account Permanently Locked''
                   else ''Account Temporarily Locked'')] \<rparr>)"

definition failureCount :: "ident \<Rightarrow> ident \<Rightarrow> millis \<Rightarrow> db \<Rightarrow> int" where
  "failureCount rid uid windowStart s =
     tbl_count (\<lambda>f. lf_realmId f = rid \<and> lf_userId f = Some uid \<and> windowStart \<le> lf_failedAt f)
       (loginFailures s)"

definition totalFailures :: "ident \<Rightarrow> ident \<Rightarrow> db \<Rightarrow> int" where
  "totalFailures rid uid s =
     tbl_count (\<lambda>f. lf_realmId f = rid \<and> lf_userId f = Some uid) (loginFailures s)"

definition recordFailure ::
  "env \<Rightarrow> realm_row \<Rightarrow> ident \<Rightarrow> string option \<Rightarrow> db \<Rightarrow> unit result \<times> db" where
  "recordFailure e r uid ip s =
     (if \<not> realm_bruteForceEnabled r then (Inr (), s)
      else if user_by_id uid s = None then (Inl PrismaForeignKey, s)
      else
        let s1 = s\<lparr> loginFailures := loginFailures s @
                     [\<lparr> lf_realmId = realm_id r, lf_userId = Some uid, lf_ipAddress = ip,
                        lf_failedAt = now e \<rparr>] \<rparr>;
            windowStart = now e - resetTime r * 1000
        in
          if failureCount (realm_id r) uid windowStart s1 < maxFailures r then (Inr (), s1)
          else if realm_permanentLockoutAfter r > 0 \<and>
                  totalFailures (realm_id r) uid s1 div maxFailures r
                    \<ge> realm_permanentLockoutAfter r
          then (Inr (), sendLockoutNotification e uid True
                  (update_user uid
                     (\<lambda>u. u\<lparr> user_lockedUntil := Some permanentLock, user_enabled := False \<rparr>) s1))
          else (Inr (), sendLockoutNotification e uid False
                  (update_user uid
                     (\<lambda>u. u\<lparr> user_lockedUntil := Some (now e + realm_lockoutDuration r * 1000) \<rparr>)
                     s1)))"

definition resetFailures :: "ident \<Rightarrow> ident \<Rightarrow> db \<Rightarrow> unit result \<times> db" where
  "resetFailures rid uid s =
     (let s1 = s\<lparr> loginFailures :=
                   tbl_delete (\<lambda>f. lf_realmId f = rid \<and> lf_userId f = Some uid) (loginFailures s) \<rparr>
      in if user_by_id uid s1 = None then (Inl PrismaNotFound, s1)
         else (Inr (), update_user uid (\<lambda>u. u\<lparr> user_lockedUntil := None \<rparr>) s1))"

definition resetTotpFailures :: "ident \<Rightarrow> ident \<Rightarrow> db \<Rightarrow> db" where
  "resetTotpFailures rid uid s =
     s\<lparr> totpFailures := tbl_delete (\<lambda>f. tf_userId f = uid) (totpFailures s) \<rparr>"

definition webAuthnFailureCount :: "ident \<Rightarrow> ident \<Rightarrow> millis \<Rightarrow> db \<Rightarrow> int" where
  "webAuthnFailureCount rid uid windowStart s =
     tbl_count (\<lambda>f. wf_realmId f = rid \<and> wf_userId f = uid \<and> windowStart \<le> wf_failedAt f)
       (webAuthnFailures s)"

definition recordWebAuthnFailure ::
  "env \<Rightarrow> realm_row \<Rightarrow> ident \<Rightarrow> string option \<Rightarrow> db \<Rightarrow> unit result \<times> db" where
  "recordWebAuthnFailure e r uid ip s =
     (if \<not> realm_bruteForceEnabled r then (Inr (), s)
      else if user_by_id uid s = None then (Inl PrismaForeignKey, s)
      else
        let s1 = s\<lparr> webAuthnFailures := webAuthnFailures s @
                     [\<lparr> wf_realmId = realm_id r, wf_userId = uid, wf_ipAddress = ip,
                        wf_failedAt = now e \<rparr>] \<rparr>;
            windowStart = now e - resetTime r * 1000
        in
          if webAuthnFailureCount (realm_id r) uid windowStart s1 \<ge> maxFailures r
          then (Inr (), update_user uid
                  (\<lambda>u. u\<lparr> user_lockedUntil := Some (now e + realm_lockoutDuration r * 1000) \<rparr>) s1)
          else (Inr (), s1))"

definition resetWebAuthnFailures :: "ident \<Rightarrow> ident \<Rightarrow> db \<Rightarrow> db" where
  "resetWebAuthnFailures rid uid s =
     s\<lparr> webAuthnFailures :=
          tbl_delete (\<lambda>f. wf_realmId f = rid \<and> wf_userId f = uid) (webAuthnFailures s) \<rparr>"

definition totpFailureCount :: "ident \<Rightarrow> millis \<Rightarrow> db \<Rightarrow> int" where
  "totpFailureCount uid windowStart s =
     tbl_count (\<lambda>f. tf_userId f = uid \<and> windowStart \<le> tf_failedAt f) (totpFailures s)"

definition recordTotpFailure ::
  "env \<Rightarrow> realm_row \<Rightarrow> ident \<Rightarrow> string option \<Rightarrow> db \<Rightarrow> unit result \<times> db" where
  "recordTotpFailure e r uid ip s =
     (if \<not> realm_bruteForceEnabled r then (Inr (), s)
      else if user_by_id uid s = None then (Inl PrismaForeignKey, s)
      else
        let s1 = s\<lparr> totpFailures := totpFailures s @
                     [\<lparr> tf_userId = uid, tf_ipAddress = ip, tf_failedAt = now e \<rparr>] \<rparr>;
            windowStart = now e - resetTime r * 1000
        in
          if totpFailureCount uid windowStart s1 \<ge> maxFailures r
          then (Inr (), sendLockoutNotification e uid False
                  (update_user uid
                     (\<lambda>u. u\<lparr> user_lockedUntil := Some (now e + realm_lockoutDuration r * 1000) \<rparr>)
                     s1))
          else (Inr (), s1))"

record totp_limit =
  blocked :: bool
  remainingAttempts :: int
  retryAfterSeconds :: "int option"

text \<open>\<open>Math.ceil(x / 1000)\<close> on an integer number of milliseconds.\<close>

definition ceil_seconds :: "millis \<Rightarrow> int" where
  "ceil_seconds x = - ((- x) div 1000)"

definition checkTotpRateLimit :: "env \<Rightarrow> realm_row \<Rightarrow> ident \<Rightarrow> db \<Rightarrow> totp_limit" where
  "checkTotpRateLimit e r uid s =
     (if \<not> realm_bruteForceEnabled r
      then \<lparr> blocked = False, remainingAttempts = -1, retryAfterSeconds = None \<rparr>
      else
        let windowStart = now e - resetTime r * 1000;
            n = totpFailureCount uid windowStart s
        in
          if n \<ge> maxFailures r
          then \<lparr> blocked = True, remainingAttempts = 0,
                 retryAfterSeconds =
                   (case order_asc tf_failedAt
                           (filter (\<lambda>f. tf_userId f = uid \<and> windowStart \<le> tf_failedAt f)
                              (totpFailures s)) of
                      [] \<Rightarrow> None
                    | f # _ \<Rightarrow>
                        Some (max 1 (ceil_seconds (tf_failedAt f + resetTime r * 1000 - now e)))) \<rparr>
          else \<lparr> blocked = False, remainingAttempts = maxFailures r - n,
                 retryAfterSeconds = None \<rparr>)"

definition unlockUser :: "ident \<Rightarrow> ident \<Rightarrow> db \<Rightarrow> unit result \<times> db" where
  "unlockUser rid uid s =
     (case List.find (\<lambda>u. user_id u = uid \<and> user_realmId u = rid) (users s) of
        None \<Rightarrow> (Inl NotFoundException, s)
      | Some _ \<Rightarrow>
          (Inr (),
           s\<lparr> users := tbl_update (\<lambda>u. user_id u = uid \<and> user_realmId u = rid)
                          (\<lambda>u. u\<lparr> user_lockedUntil := None, user_enabled := True \<rparr>) (users s),
              loginFailures :=
                tbl_delete (\<lambda>f. lf_realmId f = rid \<and> lf_userId f = Some uid) (loginFailures s) \<rparr>))"

definition getLockedUsers :: "env \<Rightarrow> ident \<Rightarrow> db \<Rightarrow> user_row list" where
  "getLockedUsers e rid s =
     filter (\<lambda>u. user_realmId u = rid \<and>
                 (case user_lockedUntil u of None \<Rightarrow> False | Some t \<Rightarrow> t > now e)) (users s)"

definition cleanupOldFailures :: "env \<Rightarrow> db \<Rightarrow> db" where
  "cleanupOldFailures e s =
     (let cutoff = now e - 24 * 60 * 60 * 1000
      in s\<lparr> loginFailures := tbl_delete (\<lambda>f. lf_failedAt f < cutoff) (loginFailures s),
            totpFailures := tbl_delete (\<lambda>f. tf_failedAt f < cutoff) (totpFailures s),
            webAuthnFailures := tbl_delete (\<lambda>f. wf_failedAt f < cutoff) (webAuthnFailures s) \<rparr>)"

subsection \<open>What the operations leave alone\<close>

lemma sendLockoutNotification_frame [simp, frame_simps]:
  "users (sendLockoutNotification e uid p s) = users s"
  "loginFailures (sendLockoutNotification e uid p s) = loginFailures s"
  "totpFailures (sendLockoutNotification e uid p s) = totpFailures s"
  "webAuthnFailures (sendLockoutNotification e uid p s) = webAuthnFailures s"
  by (auto simp: sendLockoutNotification_def split: option.split)

lemma update_user_frame [simp, frame_simps]:
  "loginFailures (update_user uid f s) = loginFailures s"
  "totpFailures (update_user uid f s) = totpFailures s"
  "webAuthnFailures (update_user uid f s) = webAuthnFailures s"
  by (simp_all add: update_user_def)

lemma user_by_id_frame [simp, frame_simps]:
  "user_by_id i (sendLockoutNotification e uid p s) = user_by_id i s"
  "user_by_id i (s\<lparr>loginFailures := l\<rparr>) = user_by_id i s"
  "user_by_id i (s\<lparr>totpFailures := tfs\<rparr>) = user_by_id i s"
  "user_by_id i (s\<lparr>webAuthnFailures := wfs\<rparr>) = user_by_id i s"
  by (simp_all add: user_by_id_def)

lemmas user_lock_simps =
  user_by_id_update_user [of "\<lambda>u. u\<lparr>user_lockedUntil := t\<rparr>"]
  user_by_id_update_user [of "\<lambda>u. u\<lparr>user_lockedUntil := t, user_enabled := b\<rparr>"]
  for t b

definition lock_of :: "ident \<Rightarrow> db \<Rightarrow> millis option" where
  "lock_of uid s = Option.bind (user_by_id uid s) user_lockedUntil"

lemma checkLocked_iff:
  "locked (checkLocked e r u) \<longleftrightarrow>
     realm_bruteForceEnabled r \<and> (\<exists>t. user_lockedUntil u = Some t \<and> now e < t)"
  by (auto simp: checkLocked_def split: option.split)

subsection \<open>The three trackers implement the failure-tracker contract\<close>

definition tracked :: "realm_row \<Rightarrow> ident \<Rightarrow> db \<Rightarrow> bool" where
  "tracked r uid s \<longleftrightarrow> realm_bruteForceEnabled r \<and> user_by_id uid s \<noteq> None"

definition lock_set :: "realm_row \<Rightarrow> millis \<Rightarrow> millis option \<Rightarrow> bool" where
  "lock_set r t l \<longleftrightarrow>
     l = Some (t + realm_lockoutDuration r * 1000) \<or> l = Some permanentLock"

definition fail_login ::
  "env \<Rightarrow> realm_row \<Rightarrow> ident \<Rightarrow> string option \<Rightarrow> millis \<Rightarrow> db \<Rightarrow> db" where
  "fail_login e r uid ip t s = snd (recordFailure (e\<lparr>now := t\<rparr>) r uid ip s)"

definition fail_totp ::
  "env \<Rightarrow> realm_row \<Rightarrow> ident \<Rightarrow> string option \<Rightarrow> millis \<Rightarrow> db \<Rightarrow> db" where
  "fail_totp e r uid ip t s = snd (recordTotpFailure (e\<lparr>now := t\<rparr>) r uid ip s)"

definition fail_webauthn ::
  "env \<Rightarrow> realm_row \<Rightarrow> ident \<Rightarrow> string option \<Rightarrow> millis \<Rightarrow> db \<Rightarrow> db" where
  "fail_webauthn e r uid ip t s = snd (recordWebAuthnFailure (e\<lparr>now := t\<rparr>) r uid ip s)"

lemma fail_login_count:
  "tracked r uid s \<Longrightarrow> failureCount (realm_id r) uid w (fail_login e r uid ip t s)
     = failureCount (realm_id r) uid w s + (if w \<le> t then 1 else 0)"
  by (auto simp: tracked_def fail_login_def recordFailure_def failureCount_def Let_def)

lemma fail_login_lock:
  assumes "tracked r uid s"
  shows "tracked r uid (fail_login e r uid ip t s)"
    and "failureCount (realm_id r) uid (t - resetTime r * 1000) (fail_login e r uid ip t s)
           < maxFailures r
       \<Longrightarrow> lock_of uid (fail_login e r uid ip t s) = lock_of uid s"
    and "maxFailures r \<le> failureCount (realm_id r) uid (t - resetTime r * 1000)
           (fail_login e r uid ip t s)
       \<Longrightarrow> lock_set r t (lock_of uid (fail_login e r uid ip t s))"
  using assms
  by (auto simp: tracked_def fail_login_def recordFailure_def failureCount_def lock_of_def
      lock_set_def Let_def user_lock_simps)

lemma failure_counts_nonneg [simp]:
  "0 \<le> failureCount rid uid w s" "0 \<le> totpFailureCount uid w s"
  "0 \<le> webAuthnFailureCount rid uid w s"
  by (simp_all add: failureCount_def totpFailureCount_def webAuthnFailureCount_def)

interpretation login_tracker: failure_tracker
  "fail_login e r uid ip" "failureCount (realm_id r) uid" "lock_of uid" "maxFailures r"
  "resetTime r * 1000" "lock_set r" "tracked r uid" for e r uid ip
  by unfold_locales (auto simp only: fail_login_count fail_login_lock failure_counts_nonneg)

lemma fail_totp_count:
  "tracked r uid s \<Longrightarrow> totpFailureCount uid w (fail_totp e r uid ip t s)
     = totpFailureCount uid w s + (if w \<le> t then 1 else 0)"
  by (auto simp: tracked_def fail_totp_def recordTotpFailure_def totpFailureCount_def Let_def)

lemma fail_totp_lock:
  assumes "tracked r uid s"
  shows "tracked r uid (fail_totp e r uid ip t s)"
    and "totpFailureCount uid (t - resetTime r * 1000) (fail_totp e r uid ip t s) < maxFailures r
       \<Longrightarrow> lock_of uid (fail_totp e r uid ip t s) = lock_of uid s"
    and "maxFailures r \<le> totpFailureCount uid (t - resetTime r * 1000) (fail_totp e r uid ip t s)
       \<Longrightarrow> lock_of uid (fail_totp e r uid ip t s) = Some (t + realm_lockoutDuration r * 1000)"
  using assms
  by (auto simp: tracked_def fail_totp_def recordTotpFailure_def totpFailureCount_def lock_of_def
      Let_def user_lock_simps)

interpretation totp_tracker: failure_tracker
  "fail_totp e r uid ip" "totpFailureCount uid" "lock_of uid" "maxFailures r"
  "resetTime r * 1000" "lock_set r" "tracked r uid" for e r uid ip
  by unfold_locales
    (auto simp only: fail_totp_count fail_totp_lock lock_set_def failure_counts_nonneg)

lemma fail_webauthn_count:
  "tracked r uid s \<Longrightarrow> webAuthnFailureCount (realm_id r) uid w (fail_webauthn e r uid ip t s)
     = webAuthnFailureCount (realm_id r) uid w s + (if w \<le> t then 1 else 0)"
  by (auto simp: tracked_def fail_webauthn_def recordWebAuthnFailure_def webAuthnFailureCount_def
      Let_def)

lemma fail_webauthn_lock:
  assumes "tracked r uid s"
  shows "tracked r uid (fail_webauthn e r uid ip t s)"
    and "webAuthnFailureCount (realm_id r) uid (t - resetTime r * 1000)
           (fail_webauthn e r uid ip t s) < maxFailures r
       \<Longrightarrow> lock_of uid (fail_webauthn e r uid ip t s) = lock_of uid s"
    and "maxFailures r \<le> webAuthnFailureCount (realm_id r) uid (t - resetTime r * 1000)
           (fail_webauthn e r uid ip t s)
       \<Longrightarrow> lock_of uid (fail_webauthn e r uid ip t s) = Some (t + realm_lockoutDuration r * 1000)"
  using assms
  by (auto simp: tracked_def fail_webauthn_def recordWebAuthnFailure_def webAuthnFailureCount_def
      lock_of_def Let_def user_lock_simps)

interpretation webauthn_tracker: failure_tracker
  "fail_webauthn e r uid ip" "webAuthnFailureCount (realm_id r) uid" "lock_of uid" "maxFailures r"
  "resetTime r * 1000" "lock_set r" "tracked r uid" for e r uid ip
  by unfold_locales
    (auto simp only: fail_webauthn_count fail_webauthn_lock lock_set_def failure_counts_nonneg)

subsection \<open>Properties\<close>

lemma lock_set_locks:
  assumes "lock_set r t (lock_of uid s)" and "realm_bruteForceEnabled r"
    and "0 < realm_lockoutDuration r" and "t < permanentLock"
  shows "\<exists>u. user_by_id uid s = Some u \<and> locked (checkLocked (e\<lparr>now := t\<rparr>) r u)"
  using assms by (cases "user_by_id uid s") (auto simp: lock_set_def lock_of_def checkLocked_iff)

text \<open>
  C25. A burst of failures locks the account.  If the realm has brute-force protection and the user
  exists, and at least \<open>max(maxLoginFailures, 1)\<close> failures of one kind (password, TOTP or WebAuthn)
  are recorded within the failure window, then right after the last one the lock check refuses the
  user.  The earlier failures may come at any times of the window and in any order.
\<close>

theorem burst_of_failures_locks:
  assumes "realm_bruteForceEnabled r" and "user_by_id uid s \<noteq> None"
    and "\<forall>t \<in> set ts. t1 - resetTime r * 1000 \<le> t"
    and "maxFailures r \<le> int (length ts) + 1"
    and "0 < realm_lockoutDuration r" and "t1 < permanentLock"
  shows "(\<exists>u. user_by_id uid (fail_login e r uid ip t1 (fold (fail_login e r uid ip) ts s)) = Some u
              \<and> locked (checkLocked (e\<lparr>now := t1\<rparr>) r u)) \<and>
         (\<exists>u. user_by_id uid (fail_totp e r uid ip t1 (fold (fail_totp e r uid ip) ts s)) = Some u
              \<and> locked (checkLocked (e\<lparr>now := t1\<rparr>) r u)) \<and>
         (\<exists>u. user_by_id uid (fail_webauthn e r uid ip t1 (fold (fail_webauthn e r uid ip) ts s))
                = Some u
              \<and> locked (checkLocked (e\<lparr>now := t1\<rparr>) r u))"
proof -
  have tr: "tracked r uid s" and win: "0 \<le> resetTime r * 1000"
    using assms by (simp_all add: tracked_def resetTime_def)
  have lock: "\<exists>u. user_by_id uid s' = Some u \<and> locked (checkLocked (e\<lparr>now := t1\<rparr>) r u)"
    if "lock_set r t1 (lock_of uid s')" for s'
    using that assms(1,5,6) by (rule lock_set_locks)
  show ?thesis
    using tr win assms(3,4)
    by (intro conjI lock login_tracker.burst_locks totp_tracker.burst_locks
        webauthn_tracker.burst_locks) auto
qed

theorem burst_of_failures_locks_witness:
  "\<exists>u. user_by_id ''u1''
         (fail_login sample_env sample_realm ''u1'' None 5000
            (fold (fail_login sample_env sample_realm ''u1'' None) [4000] sample_db)) = Some u
       \<and> locked (checkLocked (sample_env\<lparr>now := 5000\<rparr>) sample_realm u)"
  by (rule burst_of_failures_locks [THEN conjunct1])
    (simp_all add: sample_defs user_by_id_def maxFailures_def resetTime_def permanentLock_def)

text \<open>
  Fewer failures than the limit never lock: starting with no failure of that kind on record,
  any sequence of fewer than \<open>max(maxLoginFailures, 1)\<close> failures leaves the lock of the user as it
  was, whatever the times of the failures.
\<close>

theorem few_failures_keep_unlocked:
  assumes "realm_bruteForceEnabled r" and "user_by_id uid s \<noteq> None"
    and "int (length ts) < maxFailures r"
    and "\<And>w. failureCount (realm_id r) uid w s = 0" and "\<And>w. totpFailureCount uid w s = 0"
    and "\<And>w. webAuthnFailureCount (realm_id r) uid w s = 0"
  shows "lock_of uid (fold (fail_login e r uid ip) ts s) = lock_of uid s \<and>
         lock_of uid (fold (fail_totp e r uid ip) ts s) = lock_of uid s \<and>
         lock_of uid (fold (fail_webauthn e r uid ip) ts s) = lock_of uid s"
proof (intro conjI)
  have tr: "tracked r uid s" using assms(1,2) by (simp add: tracked_def)
  show "lock_of uid (fold (fail_login e r uid ip) ts s) = lock_of uid s"
    by (rule login_tracker.few_failures_never_lock) (rule tr assms)+
  show "lock_of uid (fold (fail_totp e r uid ip) ts s) = lock_of uid s"
    by (rule totp_tracker.few_failures_never_lock) (rule tr assms)+
  show "lock_of uid (fold (fail_webauthn e r uid ip) ts s) = lock_of uid s"
    by (rule webauthn_tracker.few_failures_never_lock) (rule tr assms)+
qed

theorem few_failures_keep_unlocked_witness:
  "lock_of ''u1'' (fold (fail_login sample_env sample_realm ''u1'' None) [7] sample_db)
     = lock_of ''u1'' sample_db"
  by (rule few_failures_keep_unlocked [THEN conjunct1])
    (simp_all add: sample_defs user_by_id_def maxFailures_def failureCount_def
      totpFailureCount_def webAuthnFailureCount_def)

lemma ceil_seconds_ge: "x \<le> ceil_seconds x * 1000"
  using pos_mod_sign [of 1000 "- x"] div_mult_mod_eq [of "- x" 1000]
  unfolding ceil_seconds_def by linarith

lemma oldest_in_window:
  assumes "order_asc tf_failedAt (filter p t) = f # fs"
  shows "f \<in> set t \<and> p f \<and> (\<forall>g \<in> set t. p g \<longrightarrow> tf_failedAt f \<le> tf_failedAt g)"
proof -
  have eq: "set (f # fs) = {g \<in> set t. p g}"
    using set_order_asc [of tf_failedAt "filter p t"] assms by auto
  have "sorted (map tf_failedAt (f # fs))"
    using sorted_order_asc [of tf_failedAt "filter p t"] assms by simp
  then have "\<forall>g \<in> set (f # fs). tf_failedAt f \<le> tf_failedAt g" by auto
  with eq show ?thesis by auto
qed

lemma tbl_count_strict:
  assumes "x \<in> set t" and "q x" and "\<not> p x" and "\<And>r. r \<in> set t \<Longrightarrow> p r \<Longrightarrow> q r"
  shows "tbl_count p t < tbl_count q t"
proof -
  obtain a b where t: "t = a @ x # b" using split_list [OF assms(1)] by blast
  have "tbl_count p a \<le> tbl_count q a" "tbl_count p b \<le> tbl_count q b"
    using assms(4) by (auto simp: t intro!: tbl_count_mono)
  with assms(2,3) show ?thesis by (simp add: t)
qed

text \<open>
  The TOTP rate limit tells a blocked client when to come back.  A blocked answer carries a
  \<open>retryAfterSeconds\<close> of at least one second; strictly after that many seconds, with no further
  failure recorded, fewer failures count than before, and a user with exactly the permitted number
  of failures on record is admitted again.
\<close>

theorem totp_retry_after_suffices:
  assumes "blocked (checkTotpRateLimit e r uid s)"
    and "t' > now e + the (retryAfterSeconds (checkTotpRateLimit e r uid s)) * 1000"
  shows "(\<exists>n. retryAfterSeconds (checkTotpRateLimit e r uid s) = Some n \<and> 1 \<le> n) \<and>
         totpFailureCount uid (t' - resetTime r * 1000) s
           < totpFailureCount uid (now e - resetTime r * 1000) s \<and>
         (totpFailureCount uid (now e - resetTime r * 1000) s = maxFailures r \<longrightarrow>
           \<not> blocked (checkTotpRateLimit (e\<lparr>now := t'\<rparr>) r uid s))"
proof -
  let ?w = "now e - resetTime r * 1000"
  let ?p = "\<lambda>f. tf_userId f = uid \<and> ?w \<le> tf_failedAt f"
  let ?old = "order_asc tf_failedAt (filter ?p (totpFailures s))"
  have en: "realm_bruteForceEnabled r" and n: "totpFailureCount uid ?w s \<ge> maxFailures r"
    using assms(1) by (auto simp: checkTotpRateLimit_def Let_def split: if_splits)
  have "0 < maxFailures r" by (simp add: maxFailures_def)
  with n have "filter ?p (totpFailures s) \<noteq> []"
    by (auto simp: totpFailureCount_def tbl_count_def)
  then have "?old \<noteq> []" by (metis length_0_conv length_order_asc)
  then obtain f fs where old: "?old = f # fs" by (cases ?old) auto
  have ra: "retryAfterSeconds (checkTotpRateLimit e r uid s)
          = Some (max 1 (ceil_seconds (tf_failedAt f + resetTime r * 1000 - now e)))"
    using en n old by (simp add: checkTotpRateLimit_def Let_def)
  note f = oldest_in_window [OF old]
  have "tf_failedAt f + resetTime r * 1000 < t'"
    using assms(2) ra ceil_seconds_ge [of "tf_failedAt f + resetTime r * 1000 - now e"]
    by (simp add: max_def split: if_splits)
  then have gone: "tf_failedAt f < t' - resetTime r * 1000" by simp
  have less: "totpFailureCount uid (t' - resetTime r * 1000) s < totpFailureCount uid ?w s"
    unfolding totpFailureCount_def
    by (rule tbl_count_strict [of f]) (use f gone in auto)
  then have "totpFailureCount uid ?w s = maxFailures r \<longrightarrow>
      \<not> blocked (checkTotpRateLimit (e\<lparr>now := t'\<rparr>) r uid s)"
    by (simp add: checkTotpRateLimit_def Let_def)
  with ra less show ?thesis by simp
qed

theorem totp_retry_after_suffices_witness:
  "\<not> blocked (checkTotpRateLimit (sample_env\<lparr>now := 1700001\<rparr>) sample_realm ''u1''
      (fold (fail_totp sample_env sample_realm ''u1'' None) [1000000, 1000000] sample_db))"
proof -
  let ?s = "fold (fail_totp sample_env sample_realm ''u1'' None) [1000000, 1000000] sample_db"
  have "\<not> blocked (checkTotpRateLimit ((sample_env\<lparr>now := 1050000\<rparr>)\<lparr>now := 1700001\<rparr>)
           sample_realm ''u1'' ?s)"
    by (rule totp_retry_after_suffices [THEN conjunct2, THEN conjunct2, rule_format])
      (simp_all add: sample_defs fail_totp_def recordTotpFailure_def checkTotpRateLimit_def
        totpFailureCount_def user_by_id_def update_user_def maxFailures_def resetTime_def
        sendLockoutNotification_def order_asc_def ceil_seconds_def Let_def)
  then show ?thesis by simp
qed

lemma unlock_user_row:
  assumes "fst (unlockUser rid uid s) = Inr ()" and "distinct (map user_id (users s))"
  shows "\<exists>u. user_by_id uid (snd (unlockUser rid uid s)) = Some u \<and> user_realmId u = rid
           \<and> user_lockedUntil u = None \<and> user_enabled u"
proof -
  obtain v where v: "List.find (\<lambda>u. user_id u = uid \<and> user_realmId u = rid) (users s) = Some v"
    using assms(1) by (auto simp: unlockUser_def split: option.splits)
  then have "user_by_id uid s = Some v"
    using assms(2) by (simp add: user_by_id_def find_refine_unique)
  with v find_SomeD [OF v] show ?thesis
    by (simp add: unlockUser_def user_by_id_def find_tbl_update_key [where k = user_id])
qed

text \<open>
  Unlocking works and is confined to the realm.  An unlock for a user of another realm is
  refused and changes nothing.  A successful unlock leaves the user unlocked and enabled, and the
  next failed password attempt does not lock the account again when the realm permits more than one
  failure, however many failures were on record before.
\<close>

theorem unlock_then_failure_stays_unlocked:
  assumes "distinct (map user_id (users s))" and "2 \<le> realm_maxLoginFailures r"
  shows "((\<forall>u. user_by_id uid s = Some u \<longrightarrow> user_realmId u \<noteq> realm_id r) \<longrightarrow>
            unlockUser (realm_id r) uid s = (Inl NotFoundException, s)) \<and>
         (fst (unlockUser (realm_id r) uid s) = Inr () \<longrightarrow>
           (\<exists>u. user_by_id uid (snd (recordFailure e r uid ip (snd (unlockUser (realm_id r) uid s))))
                 = Some u \<and> user_lockedUntil u = None \<and> user_enabled u))"
proof (intro conjI impI)
  assume other: "\<forall>u. user_by_id uid s = Some u \<longrightarrow> user_realmId u \<noteq> realm_id r"
  have "List.find (\<lambda>u. user_id u = uid \<and> user_realmId u = realm_id r) (users s) = None"
  proof (rule ccontr)
    assume "\<not> ?thesis"
    then obtain v
      where v: "List.find (\<lambda>u. user_id u = uid \<and> user_realmId u = realm_id r) (users s) = Some v"
      by auto
    with assms(1) have "user_by_id uid s = Some v"
      by (simp add: user_by_id_def find_refine_unique)
    with other find_SomeD [OF v] show False by simp
  qed
  then show "unlockUser (realm_id r) uid s = (Inl NotFoundException, s)"
    by (simp add: unlockUser_def)
next
  assume ok: "fst (unlockUser (realm_id r) uid s) = Inr ()"
  let ?s = "snd (unlockUser (realm_id r) uid s)"
  have "failureCount (realm_id r) uid w ?s = 0" for w
    using ok by (auto simp: unlockUser_def failureCount_def tbl_count_zero_iff split: option.splits)
  then have "failureCount (realm_id r) uid w
      (?s\<lparr>loginFailures := loginFailures ?s @ [f]\<rparr>) < maxFailures r" for w f
    using assms(2) by (auto simp: failureCount_def maxFailures_def)
  then have "users (snd (recordFailure e r uid ip ?s)) = users ?s"
    by (simp add: recordFailure_def Let_def)
  then show "\<exists>u. user_by_id uid (snd (recordFailure e r uid ip ?s)) = Some u
                \<and> user_lockedUntil u = None \<and> user_enabled u"
    using unlock_user_row [OF ok assms(1)] by (auto simp: user_by_id_def)
qed

theorem unlock_then_failure_stays_unlocked_witness:
  "\<exists>u. user_by_id ''u1'' (snd (recordFailure sample_env sample_realm ''u1'' None
           (snd (unlockUser ''r1'' ''u1''
              (sample_db\<lparr> users := [sample_user\<lparr> user_lockedUntil := Some 5000000 \<rparr>] \<rparr>))))) = Some u
       \<and> user_lockedUntil u = None \<and> user_enabled u"
proof -
  let ?s = "sample_db\<lparr> users := [sample_user\<lparr> user_lockedUntil := Some 5000000 \<rparr>] \<rparr>"
  have r: "realm_id sample_realm = ''r1''" by (simp add: sample_defs)
  have "distinct (map user_id (users ?s))" "2 \<le> realm_maxLoginFailures sample_realm"
    "fst (unlockUser (realm_id sample_realm) ''u1'' ?s) = Inr ()"
    by (simp_all add: sample_defs unlockUser_def)
  then show ?thesis
    using unlock_then_failure_stays_unlocked [of ?s sample_realm "''u1''" sample_env None]
    unfolding r by blast
qed

end
