(* ===== verification/Password_Policy.thy ===== *)
theory Password_Policy
  imports Store
begin

text \<open>
  \<open>src/src/password-policy/password-policy.service.ts\<close> with the password check of
  \<open>src/src/crypto/crypto.service.ts\<close>: the complexity rules, the password history and password
  expiry.  Strings are sequences of 8-bit characters.
\<close>

subsection \<open>Definitions\<close>

definition MAX_PASSWORD_LENGTH :: nat where
  "MAX_PASSWORD_LENGTH = 1024"

definition verifyPassword :: "env \<Rightarrow> string \<Rightarrow> string \<Rightarrow> bool" where
  "verifyPassword e hash password =
     (if length password > MAX_PASSWORD_LENGTH then False else argon2_verify e hash password)"

datatype policy_error =
    TooShort int | NoUppercase | NoLowercase | NoDigit | NoSpecialChar

definition is_upper :: "char \<Rightarrow> bool" where
  "is_upper c \<longleftrightarrow> of_char c \<in> {65 .. 90 :: nat}"

definition is_lower :: "char \<Rightarrow> bool" where
  "is_lower c \<longleftrightarrow> of_char c \<in> {97 .. 122 :: nat}"

definition is_digit :: "char \<Rightarrow> bool" where
  "is_digit c \<longleftrightarrow> of_char c \<in> {48 .. 57 :: nat}"

definition is_special :: "char \<Rightarrow> bool" where
  "is_special c \<longleftrightarrow> \<not> is_upper c \<and> \<not> is_lower c \<and> \<not> is_digit c"

record validation_result =
  valid :: bool
  errors :: "policy_error list"

definition validate :: "realm_row \<Rightarrow> string \<Rightarrow> validation_result" where
  "validate r password =
     (let es =
        (if int (length password) < realm_passwordMinLength r
         then [TooShort (realm_passwordMinLength r)] else []) @
        (if realm_passwordRequireUppercase r \<and> \<not> list_ex is_upper password
         then [NoUppercase] else []) @
        (if realm_passwordRequireLowercase r \<and> \<not> list_ex is_lower password
         then [NoLowercase] else []) @
        (if realm_passwordRequireDigits r \<and> \<not> list_ex is_digit password
         then [NoDigit] else []) @
        (if realm_passwordRequireSpecialChars r \<and> \<not> list_ex is_special password
         then [NoSpecialChar] else [])
      in \<lparr> valid = (es = []), errors = es \<rparr>)"

definition history_of :: "ident \<Rightarrow> ident \<Rightarrow> db \<Rightarrow> password_history_row list" where
  "history_of uid rid s =
     order_desc ph_createdAt
       (filter (\<lambda>h. ph_userId h = uid \<and> ph_realmId h = rid) (passwordHistories s))"

definition checkHistory :: "env \<Rightarrow> ident \<Rightarrow> ident \<Rightarrow> string \<Rightarrow> int \<Rightarrow> db \<Rightarrow> bool" where
  "checkHistory e uid rid password historyCount s =
     (if historyCount \<le> 0 then False
      else list_ex (\<lambda>h. verifyPassword e (ph_passwordHash h) password)
             (take (nat historyCount) (history_of uid rid s)))"

text \<open>\<open>hid\<close> is the identifier the database generates for the new row.\<close>

definition recordHistory ::
  "env \<Rightarrow> ident \<Rightarrow> ident \<Rightarrow> ident \<Rightarrow> string \<Rightarrow> int \<Rightarrow> db \<Rightarrow> db" where
  "recordHistory e hid uid rid hash historyCount s =
     (if historyCount \<le> 0 then s
      else
        let s1 = s\<lparr> passwordHistories := passwordHistories s @
                     [\<lparr> ph_id = hid, ph_userId = uid, ph_realmId = rid, ph_passwordHash = hash,
                        ph_createdAt = now e \<rparr>] \<rparr>;
            old = map ph_id (drop (nat historyCount) (history_of uid rid s1))
        in s1\<lparr> passwordHistories :=
                 tbl_delete (\<lambda>h. ph_id h \<in> set old) (passwordHistories s1) \<rparr>)"

definition isExpired :: "env \<Rightarrow> user_row \<Rightarrow> realm_row \<Rightarrow> bool" where
  "isExpired e u r =
     (if realm_passwordMaxAgeDays r \<le> 0 then False
      else case user_passwordChangedAt u of
        None \<Rightarrow> True
      | Some t \<Rightarrow> now e - t > realm_passwordMaxAgeDays r * 24 * 60 * 60 * 1000)"

subsection \<open>The history is a bounded queue\<close>

text \<open>
  The history of a user, most recent entry first, is the abstract state; \<open>recordHistory\<close> pushes a
  new entry in front and cuts the queue to the configured length.
\<close>

lemma sort_key_snoc_least:
  "(\<And>y. y \<in> set xs \<Longrightarrow> f x < f y) \<Longrightarrow> sort_key f (xs @ [x]) = x # sort_key f xs"
  for f :: "'a \<Rightarrow> 'b :: linorder"
proof (induction xs)
  case Nil
  then show ?case by simp
next
  case (Cons a xs)
  then have "sort_key f ((a # xs) @ [x]) = insort_key f a (x # sort_key f xs)" by simp
  also have "\<dots> = x # insort_key f a (sort_key f xs)" using Cons.prems [of a] by auto
  finally show ?case by simp
qed

lemma filter_not_in_drop:
  "distinct (map k L) \<Longrightarrow> filter (\<lambda>x. k x \<notin> set (map k (drop n L))) L = take n L"
proof (induction L arbitrary: n)
  case Nil
  then show ?case by simp
next
  case (Cons a L)
  show ?case
  proof (cases n)
    case 0
    then show ?thesis by (auto simp: filter_empty_conv)
  next
    case (Suc m)
    have "k a \<notin> k ` set (drop m L)"
      using Cons.prems in_set_dropD [of _ m L] by force
    then show ?thesis using Cons Suc by simp
  qed
qed

lemma distinct_map_order_desc: "distinct (map f (order_desc k t)) = distinct (map f t)"
  by (simp add: order_desc_def distinct_map)

lemma history_of_delete:
  "history_of uid rid (s\<lparr>passwordHistories := tbl_delete q t\<rparr>)
     = filter (\<lambda>h. \<not> q h) (history_of uid rid (s\<lparr>passwordHistories := t\<rparr>))"
proof -
  have "filter p (tbl_delete q t) = filter (\<lambda>h. \<not> q h) (filter p t)" for p
    by (induction t) auto
  then show ?thesis by (simp add: history_of_def order_desc_def filter_sort)
qed

definition history_wf :: "env \<Rightarrow> ident \<Rightarrow> db \<Rightarrow> bool" where
  "history_wf e hid s \<longleftrightarrow>
     distinct (map ph_id (passwordHistories s)) \<and>
     (\<forall>h \<in> set (passwordHistories s). ph_createdAt h < now e \<and> ph_id h \<noteq> hid)"

lemma recordHistory_queue:
  assumes "history_wf e hid s" and "0 < n"
  shows "history_of uid rid (recordHistory e hid uid rid hash n s) =
    take (nat n)
      (\<lparr> ph_id = hid, ph_userId = uid, ph_realmId = rid, ph_passwordHash = hash,
         ph_createdAt = now e \<rparr> # history_of uid rid s)"
proof -
  let ?new = "\<lparr> ph_id = hid, ph_userId = uid, ph_realmId = rid, ph_passwordHash = hash,
         ph_createdAt = now e \<rparr>"
  let ?p = "\<lambda>h. ph_userId h = uid \<and> ph_realmId h = rid"
  let ?s1 = "s\<lparr> passwordHistories := passwordHistories s @ [?new] \<rparr>"
  let ?q = "history_of uid rid ?s1"
  have q: "?q = ?new # history_of uid rid s"
    unfolding history_of_def order_desc_def
    using assms(1) by (auto simp: history_wf_def intro!: sort_key_snoc_least)
  have dist: "distinct (map ph_id (passwordHistories ?s1))"
    using assms(1) by (auto simp: history_wf_def)
  then have dq: "distinct (map ph_id ?q)"
    unfolding history_of_def distinct_map_order_desc by (rule distinct_map_filter)
  have "recordHistory e hid uid rid hash n s
      = ?s1\<lparr> passwordHistories := tbl_delete (\<lambda>h. ph_id h \<in> set (map ph_id (drop (nat n) ?q)))
                                   (passwordHistories ?s1) \<rparr>"
    using assms(2) by (simp add: recordHistory_def Let_def)
  then have "history_of uid rid (recordHistory e hid uid rid hash n s)
      = filter (\<lambda>h. ph_id h \<notin> set (map ph_id (drop (nat n) ?q))) ?q"
    by (simp only: history_of_delete) simp
  also have "\<dots> = take (nat n) ?q" by (rule filter_not_in_drop [OF dq])
  finally show ?thesis using q by simp
qed


subsection \<open>Properties\<close>

text \<open>
  A password passes the policy exactly when it satisfies every rule the realm switches on: the
  minimum length and, where required, an upper-case letter, a lower-case letter, a digit and a
  special character.  The error list is empty exactly for the accepted passwords.
\<close>

theorem validate_exact:
  "valid (validate r p) = (errors (validate r p) = []) \<and>
   valid (validate r p) =
     (realm_passwordMinLength r \<le> int (length p) \<and>
      (realm_passwordRequireUppercase r \<longrightarrow> (\<exists>c \<in> set p. is_upper c)) \<and>
      (realm_passwordRequireLowercase r \<longrightarrow> (\<exists>c \<in> set p. is_lower c)) \<and>
      (realm_passwordRequireDigits r \<longrightarrow> (\<exists>c \<in> set p. is_digit c)) \<and>
      (realm_passwordRequireSpecialChars r \<longrightarrow>
         (\<exists>c \<in> set p. \<not> is_upper c \<and> \<not> is_lower c \<and> \<not> is_digit c)))"
  by (auto simp: validate_def Let_def list_ex_iff is_special_def)

theorem validate_exact_witness:
  "valid (validate ((default_realm ''r1'' ''acme'')\<lparr> realm_passwordRequireDigits := True \<rparr>)
      ''correct1horse'')"
  by (rule validate_exact [THEN conjunct2, THEN iffD2])
    (simp add: default_realm_def is_digit_def)

fun record_all ::
  "env \<Rightarrow> ident \<Rightarrow> ident \<Rightarrow> int \<Rightarrow> (ident \<times> millis \<times> string) list \<Rightarrow> db \<Rightarrow> db" where
  "record_all e uid rid n [] s = s"
| "record_all e uid rid n ((hid, t, h) # hs) s =
     record_all e uid rid n hs (recordHistory (e\<lparr>now := t\<rparr>) hid uid rid h n s)"

text \<open>The identifiers generated are fresh and the clock moves forward.\<close>

fun fresh_run :: "env \<Rightarrow> ident \<Rightarrow> ident \<Rightarrow> int \<Rightarrow> (ident \<times> millis \<times> string) list \<Rightarrow> db \<Rightarrow> bool" where
  "fresh_run e uid rid n [] s = True"
| "fresh_run e uid rid n ((hid, t, h) # hs) s =
     (history_wf (e\<lparr>now := t\<rparr>) hid s \<and>
      fresh_run e uid rid n hs (recordHistory (e\<lparr>now := t\<rparr>) hid uid rid h n s))"

lemma record_all_hashes:
  assumes "fresh_run e uid rid n hs s" and "0 < n"
  shows "take (nat n) (map ph_passwordHash (history_of uid rid (record_all e uid rid n hs s)))
       = take (nat n) (rev (map (snd \<circ> snd) hs) @ map ph_passwordHash (history_of uid rid s))"
  using assms(1)
proof (induction hs arbitrary: s)
  case Nil
  then show ?case by simp
next
  case (Cons x hs)
  obtain hid t h where x: "x = (hid, t, h)" by (cases x) auto
  let ?s = "recordHistory (e\<lparr>now := t\<rparr>) hid uid rid h n s"
  have wf: "history_wf (e\<lparr>now := t\<rparr>) hid s" and run: "fresh_run e uid rid n hs ?s"
    using Cons.prems by (simp_all add: x)
  have q: "map ph_passwordHash (history_of uid rid ?s)
      = take (nat n) (h # map ph_passwordHash (history_of uid rid s))"
    using recordHistory_queue [OF wf assms(2), of uid rid h] by (simp add: take_map [symmetric])
  show ?case
    using Cons.IH [OF run] by (simp add: x q take_append min_def)
qed

text \<open>
  C40. The last \<open>historyCount\<close> passwords cannot be reused.  After any run of password changes, a
  password whose hash is among the last \<open>historyCount\<close> recorded ones is reported by
  \<open>checkHistory\<close>, and a password that matches none of the retained hashes is not.  The retained
  hashes are exactly the most recent ones of the run followed by what was there before.
\<close>

theorem password_history_enforced:
  assumes "fresh_run e uid rid n hs s" and "0 < n" and "length p \<le> 1024"
  shows "checkHistory e uid rid p n (record_all e uid rid n hs s) =
    (\<exists>h \<in> set (take (nat n)
         (rev (map (snd \<circ> snd) hs) @ map ph_passwordHash (history_of uid rid s))).
       argon2_verify e h p)"
proof -
  let ?H = "history_of uid rid (record_all e uid rid n hs s)"
  have "checkHistory e uid rid p n (record_all e uid rid n hs s) =
    (\<exists>h \<in> set (take (nat n) (map ph_passwordHash ?H)). argon2_verify e h p)"
    using assms(2,3)
    by (auto simp: checkHistory_def list_ex_iff verifyPassword_def MAX_PASSWORD_LENGTH_def take_map)
  then show ?thesis by (simp only: record_all_hashes [OF assms(1,2)])
qed

theorem password_history_enforced_witness:
  "checkHistory sample_env ''u1'' ''r1'' ''old'' 2
     (record_all sample_env ''u1'' ''r1'' 2
        [(''h1'', 1, ''older''), (''h2'', 2, ''old''), (''h3'', 3, ''new'')] empty_db)
   \<and> \<not> checkHistory sample_env ''u1'' ''r1'' ''older'' 2
     (record_all sample_env ''u1'' ''r1'' 2
        [(''h1'', 1, ''older''), (''h2'', 2, ''old''), (''h3'', 3, ''new'')] empty_db)"
proof -
  let ?run = "[(''h1'', 1, ''older''), (''h2'', 2, ''old''), (''h3'', 3, ''new'')]"
  have "fresh_run sample_env ''u1'' ''r1'' 2 ?run empty_db"
    by (simp add: history_wf_def recordHistory_def history_of_def order_desc_def sample_env_def
        empty_db_def Let_def)
  then show ?thesis
    using password_history_enforced [of sample_env "''u1''" "''r1''" 2 ?run empty_db "''old''"]
      password_history_enforced [of sample_env "''u1''" "''r1''" 2 ?run empty_db "''older''"]
    by (simp add: sample_env_def)
qed

end
