(* ===== verification/Step_Up.thy ===== *)
theory Step_Up
  imports Store
begin

text \<open>
  \<open>src/src/step-up/step-up.service.ts\<close>: the authentication context classes (ACR), their strength, the
  records of completed step-ups and the requirement a client can make.
\<close>

subsection \<open>Definitions\<close>

definition ACR_PASSWORD :: string where "ACR_PASSWORD = ''urn:idenplane:acr:password''"
definition ACR_MFA :: string where "ACR_MFA = ''urn:idenplane:acr:mfa''"
definition ACR_WEBAUTHN :: string where "ACR_WEBAUTHN = ''urn:idenplane:acr:webauthn''"

definition acrStrength :: "string option \<Rightarrow> nat" where
  "acrStrength acr =
     (if falsy acr then 0
      else if acr = Some ACR_PASSWORD then 1
      else if acr = Some ACR_MFA then 2
      else if acr = Some ACR_WEBAUTHN then 3
      else 0)"

fun strongest_from :: "string \<Rightarrow> string option list \<Rightarrow> string" where
  "strongest_from best [] = best"
| "strongest_from best (acr # rest) =
     (if \<not> falsy acr \<and> acrStrength acr > acrStrength (Some best)
      then strongest_from (the acr) rest
      else strongest_from best rest)"

definition strongestAcr :: "string option list \<Rightarrow> string" where
  "strongestAcr candidates = strongest_from ACR_PASSWORD candidates"

definition satisfiesAcr :: "string \<Rightarrow> string \<Rightarrow> bool" where
  "satisfiesAcr candidate required \<longleftrightarrow> acrStrength (Some candidate) \<ge> acrStrength (Some required)"

fun best_record :: "string \<Rightarrow> step_up_row list \<Rightarrow> string" where
  "best_record best [] = best"
| "best_record best (rec # recs) =
     (if acrStrength (Some (su_acrLevel rec)) > acrStrength (Some best)
      then best_record (su_acrLevel rec) recs
      else best_record best recs)"

definition getSessionAcr :: "env \<Rightarrow> ident \<Rightarrow> db \<Rightarrow> string" where
  "getSessionAcr e sid s =
     (let records = order_desc su_completedAt
                      (filter (\<lambda>x. su_sessionId x = sid \<and> su_expiresAt x > now e) (stepUpRecords s))
      in if records = [] then ACR_PASSWORD else best_record ACR_PASSWORD records)"

definition getLoginSessionAcr :: "env \<Rightarrow> ident \<Rightarrow> string option \<Rightarrow> db \<Rightarrow> string" where
  "getLoginSessionAcr e sid satisfiedAcr s =
     strongestAcr [satisfiedAcr, Some (getSessionAcr e sid s)]"

definition getClientRequiredAcr :: "ident \<Rightarrow> db \<Rightarrow> string option" where
  "getClientRequiredAcr cid s =
     Option.bind (List.find (\<lambda>c. client_id c = cid) (clients s)) client_requiredAcr"

definition requiresStepUp :: "ident \<Rightarrow> string \<Rightarrow> db \<Rightarrow> bool" where
  "requiresStepUp cid currentAcr s =
     (let required = getClientRequiredAcr cid s
      in if falsy required then False else \<not> satisfiesAcr currentAcr (the required))"

definition recordStepUp :: "env \<Rightarrow> ident \<Rightarrow> string \<Rightarrow> int \<Rightarrow> db \<Rightarrow> db" where
  "recordStepUp e sid acr cacheDuration s =
     s\<lparr> stepUpRecords := stepUpRecords s @
          [\<lparr> su_sessionId = sid, su_acrLevel = acr, su_completedAt = now e,
             su_expiresAt = now e + cacheDuration * 1000 \<rparr>] \<rparr>"

definition isStepUpCached :: "env \<Rightarrow> ident \<Rightarrow> string \<Rightarrow> db \<Rightarrow> bool" where
  "isStepUpCached e sid required s = satisfiesAcr (getSessionAcr e sid s) required"

definition cleanupExpiredRecords :: "env \<Rightarrow> db \<Rightarrow> db" where
  "cleanupExpiredRecords e s =
     s\<lparr> stepUpRecords := tbl_delete (\<lambda>x. su_expiresAt x < now e) (stepUpRecords s) \<rparr>"

subsection \<open>Strength\<close>

lemmas acr_defs = ACR_PASSWORD_def ACR_MFA_def ACR_WEBAUTHN_def

lemma acrStrength_values [simp]:
  "acrStrength None = 0" "acrStrength (Some ACR_PASSWORD) = 1" "acrStrength (Some ACR_MFA) = 2"
  "acrStrength (Some ACR_WEBAUTHN) = 3"
  by (simp_all add: acrStrength_def acr_defs)

lemma acrStrength_falsy: "falsy a \<Longrightarrow> acrStrength a = 0"
  by (simp add: acrStrength_def)

lemma strongest_from_ge:
  "acrStrength (Some b) \<le> acrStrength (Some (strongest_from b as)) \<and>
   (\<forall>a \<in> set as. acrStrength a \<le> acrStrength (Some (strongest_from b as)))"
  by (induction b as rule: strongest_from.induct)
    (auto simp: acrStrength_falsy elim!: not_falsyE split: if_splits)

lemma strongest_from_mem: "strongest_from b as \<in> insert b (the ` {a \<in> set as. \<not> falsy a})"
  by (induction b as rule: strongest_from.induct) auto

lemma best_record_ge:
  "acrStrength (Some b) \<le> acrStrength (Some (best_record b rs)) \<and>
   (\<forall>x \<in> set rs. acrStrength (Some (su_acrLevel x)) \<le> acrStrength (Some (best_record b rs)))"
  by (induction b rs rule: best_record.induct) (auto split: if_splits)

lemma best_record_mem: "best_record b rs \<in> insert b (su_acrLevel ` set rs)"
  by (induction b rs rule: best_record.induct) auto

definition live_records :: "env \<Rightarrow> ident \<Rightarrow> db \<Rightarrow> step_up_row set" where
  "live_records e sid s =
     {x \<in> set (stepUpRecords s). su_sessionId x = sid \<and> now e < su_expiresAt x}"

lemma getSessionAcr_ge:
  "x \<in> live_records e sid s \<Longrightarrow>
     acrStrength (Some (su_acrLevel x)) \<le> acrStrength (Some (getSessionAcr e sid s))"
  using best_record_ge [of ACR_PASSWORD
      "order_desc su_completedAt
         (filter (\<lambda>x. su_sessionId x = sid \<and> su_expiresAt x > now e) (stepUpRecords s))"]
  by (auto simp: getSessionAcr_def live_records_def Let_def order_desc_def)

lemma getSessionAcr_mem:
  "getSessionAcr e sid s \<in> insert ACR_PASSWORD (su_acrLevel ` live_records e sid s)"
  using best_record_mem [of ACR_PASSWORD
      "order_desc su_completedAt
         (filter (\<lambda>x. su_sessionId x = sid \<and> su_expiresAt x > now e) (stepUpRecords s))"]
  by (auto simp: getSessionAcr_def live_records_def Let_def)

subsection \<open>Properties\<close>

text \<open>
  The ACR a login session carries is exactly the strongest context it has earned: it is at
  least as strong as the context of the login and as every unexpired step-up of the session, and it
  is itself one of these or the password context, so an assurance level is never invented.
\<close>

theorem login_session_acr_exact:
  "(\<forall>a. satisfied = Some a \<longrightarrow> satisfiesAcr (getLoginSessionAcr e sid satisfied s) a) \<and>
   (\<forall>x \<in> live_records e sid s. satisfiesAcr (getLoginSessionAcr e sid satisfied s) (su_acrLevel x)) \<and>
   getLoginSessionAcr e sid satisfied s
     \<in> {ACR_PASSWORD} \<union> set_option satisfied \<union> su_acrLevel ` live_records e sid s"
proof -
  let ?g = "getSessionAcr e sid s"
  let ?b = "strongest_from ACR_PASSWORD [satisfied, Some ?g]"
  have b: "getLoginSessionAcr e sid satisfied s = ?b"
    by (simp add: getLoginSessionAcr_def strongestAcr_def)
  have ge: "acrStrength satisfied \<le> acrStrength (Some ?b)" "acrStrength (Some ?g) \<le> acrStrength (Some ?b)"
    using strongest_from_ge [of ACR_PASSWORD "[satisfied, Some ?g]"] by (auto simp del: strongest_from.simps)
  have 1: "\<forall>a. satisfied = Some a \<longrightarrow> satisfiesAcr ?b a"
    using ge(1) by (auto simp: satisfiesAcr_def simp del: strongest_from.simps)
  have 2: "satisfiesAcr ?b (su_acrLevel x)" if "x \<in> live_records e sid s" for x
    using getSessionAcr_ge [OF that] ge(2) unfolding satisfiesAcr_def by (rule order_trans)
  have "?b \<in> {ACR_PASSWORD} \<union> set_option satisfied \<union> {?g}"
    using strongest_from_mem [of ACR_PASSWORD "[satisfied, Some ?g]"]
    by (auto simp del: strongest_from.simps elim!: not_falsyE)
  with getSessionAcr_mem [of e sid s]
  have 3: "?b \<in> {ACR_PASSWORD} \<union> set_option satisfied \<union> su_acrLevel ` live_records e sid s"
    by (auto simp del: strongest_from.simps)
  show ?thesis unfolding b using 1 2 3 by blast
qed

theorem login_session_acr_exact_witness:
  "satisfiesAcr (getLoginSessionAcr sample_env ''s1'' (Some ACR_MFA) empty_db) ACR_MFA"
  using login_session_acr_exact [of "Some ACR_MFA" sample_env "''s1''" empty_db] by simp

text \<open>
  A recorded step-up counts for its cache duration and not longer.  After a step-up the session
  satisfies the level at every instant before the record expires; once every record of the session
  has expired, the session is back at the password level, so a client that requires more asks for a
  new step-up.  The periodic clean-up of expired records never changes the answer.
\<close>

theorem step_up_cached_until_expiry:
  "(t < now e + d * 1000 \<longrightarrow>
      isStepUpCached (e\<lparr>now := t\<rparr>) sid acr (recordStepUp e sid acr d s)) \<and>
   ((\<forall>x \<in> set (stepUpRecords s). su_sessionId x = sid \<longrightarrow> su_expiresAt x \<le> t) \<longrightarrow>
      getSessionAcr (e\<lparr>now := t\<rparr>) sid s = ACR_PASSWORD) \<and>
   getSessionAcr e sid (cleanupExpiredRecords e s) = getSessionAcr e sid s"
proof (intro conjI impI)
  assume "t < now e + d * 1000"
  then have "\<lparr> su_sessionId = sid, su_acrLevel = acr, su_completedAt = now e,
      su_expiresAt = now e + d * 1000 \<rparr>
      \<in> live_records (e\<lparr>now := t\<rparr>) sid (recordStepUp e sid acr d s)"
    by (simp add: live_records_def recordStepUp_def)
  from getSessionAcr_ge [OF this]
  show "isStepUpCached (e\<lparr>now := t\<rparr>) sid acr (recordStepUp e sid acr d s)"
    by (simp add: isStepUpCached_def satisfiesAcr_def)
next
  assume "\<forall>x \<in> set (stepUpRecords s). su_sessionId x = sid \<longrightarrow> su_expiresAt x \<le> t"
  then have "live_records (e\<lparr>now := t\<rparr>) sid s = {}" by (auto simp: live_records_def)
  with getSessionAcr_mem [of "e\<lparr>now := t\<rparr>" sid s]
  show "getSessionAcr (e\<lparr>now := t\<rparr>) sid s = ACR_PASSWORD" by simp
next
  have "filter (\<lambda>x. su_sessionId x = sid \<and> su_expiresAt x > now e)
          (tbl_delete (\<lambda>x. su_expiresAt x < now e) t)
      = filter (\<lambda>x. su_sessionId x = sid \<and> su_expiresAt x > now e) t" for t :: "step_up_row list"
    by (induction t) auto
  then show "getSessionAcr e sid (cleanupExpiredRecords e s) = getSessionAcr e sid s"
    by (simp add: getSessionAcr_def cleanupExpiredRecords_def)
qed

theorem step_up_cached_until_expiry_witness:
  "isStepUpCached (sample_env\<lparr>now := 1000001\<rparr>) ''s1'' ACR_MFA
     (recordStepUp sample_env ''s1'' ACR_MFA 900 empty_db)"
  using step_up_cached_until_expiry [of 1000001 sample_env 900 "''s1''" ACR_MFA empty_db]
  by (simp add: sample_env_def)

end
