(* ===== verification/Scopes.thy ===== *)
theory Scopes
  imports Store
begin

text \<open>
  \<open>src/src/scopes\<close>: the recognised OIDC scopes (\<open>scopes.constants.ts\<close>), parsing and printing of scope
  strings and the claims a scope grants (\<open>scopes.service.ts\<close>), the claims of a user
  (\<open>claims.resolver.ts\<close>), the protocol mappers (\<open>protocol-mapper.executor.ts\<close>), and the claims mapped
  from custom attributes (\<open>custom-attributes.service.ts\<close>).  A claims object is a partial function
  from claim names to values.
\<close>

subsection \<open>Definitions\<close>

definition OIDC_SCOPES :: "(string \<times> string list) list" where
  "OIDC_SCOPES =
     [(''openid'', [''sub'']),
      (''profile'', [''name'', ''family_name'', ''given_name'', ''preferred_username'', ''updated_at'']),
      (''email'', [''email'', ''email_verified'']),
      (''roles'', [''realm_access'', ''resource_access''])]"

definition SUPPORTED_SCOPES :: "string list" where
  "SUPPORTED_SCOPES = map fst OIDC_SCOPES"

definition parseAndValidate :: "string option \<Rightarrow> string list" where
  "parseAndValidate scopeString =
     (if falsy scopeString then []
      else filter (\<lambda>x. x \<in> set SUPPORTED_SCOPES)
             (filter (\<lambda>x. x \<noteq> []) (split_on (CHR '' '') (the scopeString))))"

definition getClaimsForScopes :: "string list \<Rightarrow> string set" where
  "getClaimsForScopes scopes =
     \<Union> (set (map (\<lambda>sc. case map_of OIDC_SCOPES sc of None \<Rightarrow> {} | Some cs \<Rightarrow> set cs) scopes))"

definition hasOpenidScope :: "string list \<Rightarrow> bool" where
  "hasOpenidScope scopes \<longleftrightarrow> ''openid'' \<in> set scopes"

definition scopes_toString :: "string list \<Rightarrow> string" where
  "scopes_toString scopes = join_with (CHR '' '') scopes"

datatype claim_value =
    VStr string
  | VBool bool
  | VInt int
  | VStrs "string list"
  | VRoles "string list"
  | VResource "(string \<times> string list) list"
  | VEvents "string list"

type_synonym claims = "string \<rightharpoonup> claim_value"

definition full_name :: "string option \<Rightarrow> string option \<Rightarrow> string option" where
  "full_name firstName lastName =
     (if \<not> falsy firstName \<and> \<not> falsy lastName
      then Some (the firstName @ '' '' @ the lastName)
      else case firstName of Some f \<Rightarrow> Some f | None \<Rightarrow> lastName)"

definition allClaims :: "user_row \<Rightarrow> claims" where
  "allClaims u =
     [''sub'' \<mapsto> VStr (user_id u), ''preferred_username'' \<mapsto> VStr (user_username u)](
       ''given_name'' := map_option VStr (user_firstName u),
       ''family_name'' := map_option VStr (user_lastName u),
       ''name'' := map_option VStr (full_name (user_firstName u) (user_lastName u)),
       ''email'' := map_option VStr (user_email u),
       ''email_verified'' := Some (VBool (user_emailVerified u)))"

definition resolveUserClaims :: "user_row \<Rightarrow> string set \<Rightarrow> (string \<rightharpoonup> string) \<Rightarrow> claims" where
  "resolveUserClaims u allowedClaims customAttributeClaims =
     (let filtered = (\<lambda>k. if k = ''sub'' then Some (VStr (user_id u))
                          else if k \<in> allowedClaims then allClaims u k else None)
      in (\<lambda>k. case customAttributeClaims k of
                None \<Rightarrow> filtered k
              | Some v \<Rightarrow> if v \<noteq> [] then Some (VStr v) else filtered k))"

definition getOidcClaimsForUser :: "ident \<Rightarrow> db \<Rightarrow> (string \<rightharpoonup> string)" where
  "getOidcClaimsForUser uid s =
     fold (\<lambda>v m. case List.find (\<lambda>a. ca_id a = ua_attributeId v) (customAttributes s) of
                   None \<Rightarrow> m
                 | Some a \<Rightarrow> if falsy (ca_mapToOidcClaim a) then m else m(the (ca_mapToOidcClaim a) \<mapsto> ua_value v))
       (filter (\<lambda>v. ua_userId v = uid) (userAttributes s)) Map.empty"

definition getScopeMappers :: "string list \<Rightarrow> ident \<Rightarrow> db \<Rightarrow> protocol_mapper_row list" where
  "getScopeMappers scopeNames rid s =
     (if scopeNames = [] then []
      else concat (map cs_protocolMappers
             (filter (\<lambda>c. cs_realmId c = rid \<and> cs_name c \<in> set scopeNames) (clientScopes s))))"

record mapper_context =
  mc_user :: user_row
  mc_realmRoles :: "string list"
  mc_resourceAccess :: "(string \<times> string list) list"

definition user_model_attribute :: "user_row \<Rightarrow> string \<Rightarrow> claim_value option" where
  "user_model_attribute u a =
     (if a = ''username'' then Some (VStr (user_username u))
      else if a = ''email'' then map_option VStr (user_email u)
      else if a = ''emailVerified'' then Some (VBool (user_emailVerified u))
      else if a = ''firstName'' then map_option VStr (user_firstName u)
      else if a = ''lastName'' then map_option VStr (user_lastName u)
      else None)"

definition executeUserModelAttributeMapper ::
  "(string \<rightharpoonup> string) \<Rightarrow> mapper_context \<Rightarrow> claims \<Rightarrow> claims" where
  "executeUserModelAttributeMapper config ctx payload =
     (if falsy (config ''user.attribute'') \<or> falsy (config ''claim.name'') then payload
      else case user_model_attribute (mc_user ctx) (the (config ''user.attribute'')) of
        None \<Rightarrow> payload
      | Some v \<Rightarrow> payload(the (config ''claim.name'') \<mapsto> v))"

definition executeHardcodedClaimMapper :: "(string \<rightharpoonup> string) \<Rightarrow> claims \<Rightarrow> claims" where
  "executeHardcodedClaimMapper config payload =
     (if falsy (config ''claim.name'') then payload
      else case config ''claim.value'' of
        None \<Rightarrow> payload
      | Some v \<Rightarrow> payload(the (config ''claim.name'') \<mapsto> VStr v))"

definition executeRoleListMapper ::
  "(string \<rightharpoonup> string) \<Rightarrow> mapper_context \<Rightarrow> claims \<Rightarrow> claims" where
  "executeRoleListMapper config ctx payload =
     (if nullish_else (config ''claim.name'') ''realm_access'' = ''realm_access''
      then payload(''realm_access'' \<mapsto> VRoles (mc_realmRoles ctx),
                   ''resource_access'' \<mapsto> VResource (mc_resourceAccess ctx))
      else payload)"

definition executeAudienceMapper :: "(string \<rightharpoonup> string) \<Rightarrow> claims \<Rightarrow> claims" where
  "executeAudienceMapper config payload =
     (if falsy (config ''included.client.audience'') then payload
      else let audience = the (config ''included.client.audience'') in
        case payload ''aud'' of
          Some (VStrs existing) \<Rightarrow> payload(''aud'' \<mapsto> VStrs (existing @ [audience]))
        | Some (VStr existing) \<Rightarrow> payload(''aud'' \<mapsto> VStrs [existing, audience])
        | _ \<Rightarrow> payload(''aud'' \<mapsto> VStr audience))"

definition executeFullNameMapper :: "mapper_context \<Rightarrow> claims \<Rightarrow> claims" where
  "executeFullNameMapper ctx payload =
     (let name = full_name (user_firstName (mc_user ctx)) (user_lastName (mc_user ctx))
      in if falsy name then payload else payload(''name'' \<mapsto> VStr (the name)))"

definition executeMapper :: "mapper_context \<Rightarrow> protocol_mapper_row \<Rightarrow> claims \<Rightarrow> claims" where
  "executeMapper ctx m payload =
     (let config = map_of (pm_config m) in
      if pm_mapperType m = ''oidc-usermodel-attribute-mapper''
      then executeUserModelAttributeMapper config ctx payload
      else if pm_mapperType m = ''oidc-hardcoded-claim-mapper''
      then executeHardcodedClaimMapper config payload
      else if pm_mapperType m = ''oidc-role-list-mapper''
      then executeRoleListMapper config ctx payload
      else if pm_mapperType m = ''oidc-audience-mapper''
      then executeAudienceMapper config payload
      else if pm_mapperType m = ''oidc-full-name-mapper''
      then executeFullNameMapper ctx payload
      else payload)"

definition executeMappers ::
  "protocol_mapper_row list \<Rightarrow> mapper_context \<Rightarrow> claims \<Rightarrow> claims" where
  "executeMappers mappers ctx payload = fold (executeMapper ctx) mappers payload"

subsection \<open>Scope strings\<close>

lemma parseAndValidate_supported: "set (parseAndValidate x) \<subseteq> set SUPPORTED_SCOPES"
  by (auto simp: parseAndValidate_def)

lemma supported_scope_chars:
  "x \<in> set SUPPORTED_SCOPES \<Longrightarrow> x \<noteq> [] \<and> CHR '' '' \<notin> set x"
  by (auto simp: SUPPORTED_SCOPES_def OIDC_SCOPES_def)

lemma parse_toString:
  assumes "set xs \<subseteq> set SUPPORTED_SCOPES"
  shows "parseAndValidate (Some (scopes_toString xs)) = xs"
proof (cases "xs = []")
  case True
  then show ?thesis by (simp add: parseAndValidate_def scopes_toString_def)
next
  case False
  have free: "x \<in> set xs \<Longrightarrow> x \<noteq> [] \<and> CHR '' '' \<notin> set x" for x
    using assms supported_scope_chars by blast
  then have "split_on (CHR '' '') (scopes_toString xs) = xs"
    using False unfolding scopes_toString_def by (intro split_on_join) auto
  moreover have "scopes_toString xs \<noteq> []"
    using False free by (cases xs; cases "tl xs") (auto simp: scopes_toString_def)
  moreover have "filter (\<lambda>x. x \<in> set SUPPORTED_SCOPES) (filter (\<lambda>x. x \<noteq> []) xs) = xs"
    using assms free by (auto simp: filter_id_conv)
  ultimately show ?thesis by (simp add: parseAndValidate_def)
qed

subsection \<open>Properties\<close>

text \<open>
  Scope strings round-trip: printing the validated scopes and parsing the result gives the same
  scopes again, so the scope stored with a refresh token grants on refresh exactly what was granted
  at issue; and no scope outside the recognised ones ever passes validation.
\<close>

theorem scope_roundtrip:
  "parseAndValidate (Some (scopes_toString (parseAndValidate x))) = parseAndValidate x \<and>
   set (parseAndValidate x) \<subseteq> {''openid'', ''profile'', ''email'', ''roles''}"
  using parse_toString [OF parseAndValidate_supported [of x]] parseAndValidate_supported [of x]
  by (auto simp: SUPPORTED_SCOPES_def OIDC_SCOPES_def)

text \<open>
  A user's claims are limited by the granted scopes: besides the mandatory subject and the
  claims an administrator mapped from custom attributes, a claim is disclosed only when one of the
  granted scopes lists it; and unless an attribute is mapped to \<open>sub\<close>, the subject is the user.
\<close>

theorem claims_limited_by_scopes:
  assumes "k \<in> dom (resolveUserClaims u (getClaimsForScopes scopes) custom)"
    and "k \<noteq> ''sub''" and "k \<notin> dom custom"
  shows "(\<exists>sc cs. sc \<in> set scopes \<and> map_of OIDC_SCOPES sc = Some cs \<and> k \<in> set cs) \<and>
         resolveUserClaims u (getClaimsForScopes scopes) custom k = allClaims u k \<and>
         (''sub'' \<notin> dom custom \<longrightarrow>
            resolveUserClaims u (getClaimsForScopes scopes) custom ''sub'' = Some (VStr (user_id u)))"
proof -
  from assms(3) have none: "custom k = None" by (simp add: domIff)
  with assms have k: "k \<in> getClaimsForScopes scopes"
    by (auto simp: resolveUserClaims_def Let_def split: if_splits)
  then have "\<exists>sc cs. sc \<in> set scopes \<and> map_of OIDC_SCOPES sc = Some cs \<and> k \<in> set cs"
    by (auto simp: getClaimsForScopes_def split: option.splits)
  with k none assms(2) show ?thesis
    by (auto simp: resolveUserClaims_def Let_def domIff)
qed

theorem claims_limited_by_scopes_witness:
  "resolveUserClaims sample_user (getClaimsForScopes [''openid'', ''email'']) Map.empty ''email''
     = allClaims sample_user ''email''"
  by (rule claims_limited_by_scopes [THEN conjunct2, THEN conjunct1])
    (simp_all add: resolveUserClaims_def getClaimsForScopes_def OIDC_SCOPES_def allClaims_def
      sample_user_def new_user_def Let_def domIff)

end
