(* ===== verification/Sms_Otp.thy ===== *)
theory Sms_Otp
  imports Brute_Force
begin

text \<open>
  \<open>src/src/sms/sms-otp.service.ts\<close> and the sending half of \<open>sms.service.ts\<close>: one-time codes sent by
  text message.  A code belongs to a challenge (purpose, binding); sending is limited per
  challenge, user, phone, address and realm, and every guess is counted before it is compared.

  The database statements of \<open>verifyCode\<close> are definitions of their own (\<open>find_otp\<close>, \<open>reserve_guess\<close>,
  \<open>claim_code\<close>): \<open>verifyCode\<close> composes them for one request, and the step relation \<open>verify_step\<close>
  interleaves them for any number of concurrent requests, resends and clean-up runs.
\<close>

subsection \<open>Constants and helpers\<close>

definition SMS_OTP_MAX_ATTEMPTS :: int where "SMS_OTP_MAX_ATTEMPTS = 5"
definition SMS_OTP_MAX_SENDS :: int where "SMS_OTP_MAX_SENDS = 5"
definition SMS_OTP_RESEND_COOLDOWN_SECONDS :: int where "SMS_OTP_RESEND_COOLDOWN_SECONDS = 30"
definition SMS_OTP_MAX_SENDS_PER_IP :: int where "SMS_OTP_MAX_SENDS_PER_IP = 10"
definition DEFAULT_REALM_HOURLY_LIMIT :: int where "DEFAULT_REALM_HOURLY_LIMIT = 1000"
definition OTP_ROW_RETENTION_MS :: int where "OTP_ROW_RETENTION_MS = 30 * 60 * 1000"
definition SMS_ENROLLMENT_TTL_SECONDS :: int where "SMS_ENROLLMENT_TTL_SECONDS = 10 * 60"
definition DELIVERY_LOG_RETENTION_DAYS :: int where "DELIVERY_LOG_RETENTION_DAYS = 90"
definition MIN_CODE_LENGTH :: int where "MIN_CODE_LENGTH = 6"
definition MAX_CODE_LENGTH :: int where "MAX_CODE_LENGTH = 10"
definition MIN_EXPIRY_SECONDS :: int where "MIN_EXPIRY_SECONDS = 60"
definition MAX_EXPIRY_SECONDS :: int where "MAX_EXPIRY_SECONDS = 15 * 60"

datatype sms_error =
    Unavailable | InvalidPhone | Cooldown int | RateLimited | TooManySends | Locked | SendFailed

record send_result =
  sr_maskedPhone :: masked_phone
  sr_expiresAt :: millis
  sr_resendAvailableAt :: millis

datatype verify_result =
    VerifyOk string
  | VerifyInvalid int
  | VerifyExpired
  | VerifyLocked
  | VerifyNotFound

definition ascii_digit :: "char \<Rightarrow> bool" where
  "ascii_digit c \<longleftrightarrow> (48 :: nat) \<le> of_char c \<and> of_char c \<le> (57 :: nat)"

definition E164 :: "string \<Rightarrow> bool" where
  "E164 p = (case p of
       p0 # c # ds \<Rightarrow> p0 = CHR ''+'' \<and> ascii_digit c \<and> c \<noteq> CHR ''0'' \<and>
          list_all ascii_digit ds \<and> 7 \<le> length ds \<and> length ds \<le> 14
     | _ \<Rightarrow> False)"

definition normalizePhone :: "string option \<Rightarrow> string option" where
  "normalizePhone input =
     (case input of None \<Rightarrow> None
      | Some i \<Rightarrow>
        (let p = filter (\<lambda>c. \<not> js_space c \<and> c \<notin> set ''().-'') (js_trim i);
             phone = (if take 2 p = ''00'' then CHR ''+'' # drop 2 p else p)
         in if E164 phone then Some phone else None))"

definition maskPhone :: "string \<Rightarrow> masked_phone" where
  "maskPhone phone =
     (if length phone \<le> 7 then Masked [] 4 []
      else Masked (take 3 phone) (length phone - 7) (drop (length phone - 4) phone))"

definition canDeliver :: "realm_row \<Rightarrow> bool" where
  "canDeliver r \<longleftrightarrow> realm_smsProvider r \<noteq> [] \<and> realm_smsProvider r \<noteq> ''none''"

definition canEnroll :: "realm_row \<Rightarrow> bool" where
  "canEnroll r \<longleftrightarrow> realm_smsMfaEnabled r \<and> canDeliver r"

definition otp_bindingHash :: "env \<Rightarrow> string \<Rightarrow> string \<Rightarrow> string" where
  "otp_bindingHash e purpose binding = hmac e ''sms-otp-binding'' (purpose @ '':'' @ binding)"

definition otp_codeHash :: "env \<Rightarrow> string \<Rightarrow> string \<Rightarrow> string" where
  "otp_codeHash e bh code = hmac e ''sms-otp-code'' (bh @ '':'' @ code)"

definition phoneHash :: "env \<Rightarrow> string \<Rightarrow> string" where
  "phoneHash e phone = hmac e ''sms-phone'' phone"

text \<open>\<open>generateCode\<close> receives the value \<open>n\<close> that \<open>randomInt(0, 10 ** length)\<close> drew.\<close>

definition generateCode :: "nat \<Rightarrow> nat \<Rightarrow> string" where
  "generateCode len n = replicate (len - length (show_nat n)) (CHR ''0'') @ show_nat n"

definition clamp :: "int option \<Rightarrow> int \<Rightarrow> int \<Rightarrow> int \<Rightarrow> int" where
  "clamp v lo hi fallback =
     (case v of None \<Rightarrow> fallback
      | Some x \<Rightarrow> if x = 0 then fallback else min hi (max lo x))"

subsection \<open>The enrolled phone\<close>

definition getEnrolledPhone :: "env \<Rightarrow> ident \<Rightarrow> db \<Rightarrow> string option" where
  "getEnrolledPhone e uid s =
     (case List.find (\<lambda>c. uc_userId c = uid \<and> uc_type c = ''sms'') (userCredentials s) of
        None \<Rightarrow> None
      | Some c \<Rightarrow>
          if \<not> uc_verified c \<or> falsy (uc_phoneNumber c) then None
          else normalizePhone (decrypt e (the (uc_phoneNumber c))))"

definition saveEnrolledPhone :: "env \<Rightarrow> ident \<Rightarrow> ident \<Rightarrow> string \<Rightarrow> db \<Rightarrow> db" where
  "saveEnrolledPhone e newId uid phone s =
     (let phoneNumber = encrypt e phone;
          hit = (\<lambda>c. uc_userId c = uid \<and> uc_type c = ''sms'')
      in if list_ex hit (userCredentials s)
         then s\<lparr> userCredentials := tbl_update hit
                (\<lambda>c. c\<lparr> uc_phoneNumber := Some phoneNumber, uc_verified := True \<rparr>) (userCredentials s) \<rparr>
         else s\<lparr> userCredentials := userCredentials s @
                [\<lparr> uc_id = newId, uc_userId = uid, uc_type = ''sms'', uc_secretKey = [],
                   uc_phoneNumber = Some phoneNumber, uc_digits = 6, uc_period = 30,
                   uc_verified = True \<rparr>] \<rparr>)"

definition removeEnrolledPhone :: "ident \<Rightarrow> db \<Rightarrow> db" where
  "removeEnrolledPhone uid s =
     s\<lparr> userCredentials := tbl_delete (\<lambda>c. uc_userId c = uid \<and> uc_type c = ''sms'') (userCredentials s),
        otpAttempts := tbl_delete (\<lambda>a. oa_userId a = uid) (otpAttempts s) \<rparr>"

subsection \<open>The enrolment session\<close>

definition pending_by_hash :: "string \<Rightarrow> db \<Rightarrow> pending_action_row option" where
  "pending_by_hash h s = List.find (\<lambda>a. pa_tokenHash a = h) (pendingActions s)"

definition startEnrollment :: "env \<Rightarrow> ident \<Rightarrow> string \<Rightarrow> ident \<Rightarrow> ident \<Rightarrow> db \<Rightarrow> string \<times> db" where
  "startEnrollment e newId token uid rid s =
     (token, s\<lparr> pendingActions := pendingActions s @
        [\<lparr> pa_id = newId, pa_tokenHash = sha256 e token, pa_type = ''sms_enrollment'',
           pa_data = SmsEnrollmentData uid rid None None, pa_attempts = 0,
           pa_expiresAt = now e + SMS_ENROLLMENT_TTL_SECONDS * 1000, pa_createdAt = now e \<rparr>] \<rparr>)"

definition getEnrollment :: "env \<Rightarrow> string \<Rightarrow> db \<Rightarrow> pending_data option" where
  "getEnrollment e token s =
     (case pending_by_hash (sha256 e token) s of
        None \<Rightarrow> None
      | Some a \<Rightarrow>
          if pa_type a \<noteq> ''sms_enrollment'' then None
          else if pa_expiresAt a < now e then None
          else Some (pa_data a))"

definition setEnrollmentPhone :: "env \<Rightarrow> string \<Rightarrow> string \<Rightarrow> db \<Rightarrow> db" where
  "setEnrollmentPhone e token phone s =
     (case getEnrollment e token s of
        None \<Rightarrow> s
      | Some d \<Rightarrow>
          s\<lparr> pendingActions := tbl_update (\<lambda>a. pa_tokenHash a = sha256 e token)
               (\<lambda>a. a\<lparr> pa_data := SmsEnrollmentData (pd_userId d) (pd_realmId d)
                         (Some (maskPhone phone)) (Some (encrypt e phone)) \<rparr>) (pendingActions s) \<rparr>)"

definition enrollmentPhone :: "env \<Rightarrow> pending_data \<Rightarrow> string option" where
  "enrollmentPhone e d =
     (if falsy (pd_phoneEncrypted d) then None else decrypt e (the (pd_phoneEncrypted d)))"

definition endEnrollment :: "env \<Rightarrow> string \<Rightarrow> db \<Rightarrow> db" where
  "endEnrollment e token s =
     s\<lparr> pendingActions := tbl_delete
          (\<lambda>a. pa_tokenHash a = sha256 e token \<and> pa_type a = ''sms_enrollment'') (pendingActions s) \<rparr>"

subsection \<open>Sending\<close>

definition known_providers :: "string list" where
  "known_providers = [''twilio'', ''vonage'', ''aws-sns'', ''webhook'']"

definition sendSms :: "env \<Rightarrow> string \<Rightarrow> string \<Rightarrow> string \<Rightarrow> db \<Rightarrow> bool" where
  "sendSms e realmName to message s =
     (case List.find (\<lambda>r. realm_name r = realmName) (realms s) of
        None \<Rightarrow> False
      | Some r \<Rightarrow>
          canDeliver r \<and> realm_smsProvider r \<in> set known_providers \<and>
          sms_gateway e (realm_smsProvider r) to message)"

definition checkSendLimits ::
  "env \<Rightarrow> realm_row \<Rightarrow> ident \<Rightarrow> string \<Rightarrow> string option \<Rightarrow> db \<Rightarrow> sms_error option" where
  "checkSendLimits e r uid ph ipHash s =
     (let maxPerWindow = clamp (Some (realm_smsMaxRequestsPerUser r)) 1 100 3;
          windowSeconds = clamp (Some (realm_smsRateLimitWindow r)) 60 86400 900;
          windowStart = now e - windowSeconds * 1000;
          hourStart = now e - 3600000;
          realmHourlyLimit = clamp (SMS_REALM_HOURLY_LIMIT e) 1 1000000 DEFAULT_REALM_HOURLY_LIMIT;
          cnt = (\<lambda>from p. tbl_count (\<lambda>l. sl_realmId l = realm_id r \<and> p l \<and> from \<le> sl_createdAt l)
                           (smsDeliveryLogs s));
          byUser = cnt windowStart (\<lambda>l. sl_userId l = uid);
          byPhone = cnt windowStart (\<lambda>l. sl_phoneHash l = ph);
          byIp = (if falsy ipHash then 0 else cnt windowStart (\<lambda>l. sl_ipHash l = ipHash));
          byRealm = cnt hourStart (\<lambda>_. True)
      in if byUser > maxPerWindow \<or> byPhone > maxPerWindow \<or> byIp > SMS_OTP_MAX_SENDS_PER_IP \<or>
            byRealm > realmHourlyLimit
         then Some RateLimited else None)"

definition set_log_status :: "ident \<Rightarrow> string \<Rightarrow> db \<Rightarrow> db" where
  "set_log_status lid st s =
     s\<lparr> smsDeliveryLogs := tbl_update (\<lambda>l. sl_id l = lid) (\<lambda>l. l\<lparr> sl_status := st \<rparr>) (smsDeliveryLogs s) \<rparr>"

definition find_otp :: "string \<Rightarrow> string \<Rightarrow> db \<Rightarrow> otp_attempt_row option" where
  "find_otp purpose bh s =
     List.find (\<lambda>a. oa_purpose a = purpose \<and> oa_bindingHash a = bh) (otpAttempts s)"

text \<open>The number a code goes to, by purpose, or why there is none.\<close>

definition send_destination ::
  "env \<Rightarrow> realm_row \<Rightarrow> ident \<Rightarrow> string \<Rightarrow> string option \<Rightarrow> db \<Rightarrow> sms_error + string" where
  "send_destination e r uid purpose phone s =
     (if purpose = ''enroll'' then
        if \<not> canEnroll r then Inl Unavailable
        else (case normalizePhone phone of None \<Rightarrow> Inl InvalidPhone
              | Some p \<Rightarrow> if p = [] then Inl InvalidPhone else Inr p)
      else if \<not> canDeliver r then Inl Unavailable
      else (case getEnrolledPhone e uid s of None \<Rightarrow> Inl Unavailable
            | Some p \<Rightarrow> if p = [] then Inl Unavailable else Inr p))"

text \<open>The checks on an earlier code of the same challenge.\<close>

definition resend_refused ::
  "env \<Rightarrow> realm_row \<Rightarrow> ident \<Rightarrow> otp_attempt_row option \<Rightarrow> sms_error option" where
  "resend_refused e r uid existing =
     (case existing of None \<Rightarrow> None
      | Some a \<Rightarrow>
          if oa_userId a \<noteq> uid \<or> oa_realmId a \<noteq> realm_id r then Some Unavailable
          else if oa_attempts a \<ge> SMS_OTP_MAX_ATTEMPTS then Some Locked
          else if oa_sendCount a \<ge> SMS_OTP_MAX_SENDS then Some TooManySends
          else let wait = ceil_seconds (oa_lastSentAt a + SMS_OTP_RESEND_COOLDOWN_SECONDS * 1000 - now e)
               in if wait > 0 then Some (Cooldown wait) else None)"

text \<open>
  The statement that stores the new code: a conditional \<open>updateMany\<close> for a resend, a \<open>create\<close> that the
  unique index on (purpose, bindingHash) refuses when a concurrent first send was faster.  The
  boolean says whether a row was written.
\<close>

definition store_code ::
  "env \<Rightarrow> otp_attempt_row option \<Rightarrow> otp_attempt_row \<Rightarrow> db \<Rightarrow> bool \<times> db" where
  "store_code e existing new s =
     (case existing of
        Some a \<Rightarrow>
          (let hit = (\<lambda>x. oa_id x = oa_id a \<and>
                          oa_lastSentAt x \<le> now e - SMS_OTP_RESEND_COOLDOWN_SECONDS * 1000 \<and>
                          oa_sendCount x < SMS_OTP_MAX_SENDS \<and> oa_attempts x < SMS_OTP_MAX_ATTEMPTS)
           in (list_ex hit (otpAttempts s),
               s\<lparr> otpAttempts := tbl_update hit
                    (\<lambda>x. x\<lparr> oa_codeHash := oa_codeHash new, oa_phoneHash := oa_phoneHash new,
                            oa_phoneEncrypted := oa_phoneEncrypted new,
                            oa_expiresAt := oa_expiresAt new, oa_lastSentAt := oa_lastSentAt new,
                            oa_sendCount := oa_sendCount x + 1 \<rparr>) (otpAttempts s) \<rparr>))
      | None \<Rightarrow>
          if find_otp (oa_purpose new) (oa_bindingHash new) s \<noteq> None then (False, s)
          else (True, s\<lparr> otpAttempts := otpAttempts s @ [new] \<rparr>))"

definition sms_message :: "realm_row \<Rightarrow> string \<Rightarrow> int \<Rightarrow> string" where
  "sms_message r code expirySeconds =
     (let minutes = max 1 ((expirySeconds + 30) div 60);
          appName = (if falsy (realm_displayName r) then realm_name r else the (realm_displayName r))
      in code @ '' is your '' @ appName @ '' verification code. It expires in '' @
         show_nat (nat minutes) @ '' minute'' @ (if minutes = 1 then [] else ''s'') @
         ''. Never share it with anyone.'')"

text \<open>From the limit checks on: draw the code, store it, text it.\<close>

definition new_code_row ::
  "env \<Rightarrow> ident \<Rightarrow> nat \<Rightarrow> realm_row \<Rightarrow> ident \<Rightarrow> string \<Rightarrow> string \<Rightarrow> string \<Rightarrow> otp_attempt_row" where
  "new_code_row e rowId n r uid purpose bh phone =
     (let len = clamp (Some (realm_otpLength r)) MIN_CODE_LENGTH MAX_CODE_LENGTH MIN_CODE_LENGTH;
          expirySeconds = clamp (Some (realm_otpExpirySeconds r)) MIN_EXPIRY_SECONDS MAX_EXPIRY_SECONDS 300
      in \<lparr> oa_id = rowId, oa_realmId = realm_id r, oa_userId = uid, oa_purpose = purpose,
           oa_bindingHash = bh, oa_phoneHash = phoneHash e phone,
           oa_phoneEncrypted = (if purpose = ''enroll'' then Some (encrypt e phone) else None),
           oa_codeHash = otp_codeHash e bh (generateCode (nat len) n), oa_attempts = 0,
           oa_sendCount = 1, oa_lastSentAt = now e, oa_expiresAt = now e + expirySeconds * 1000 \<rparr>)"

definition deliver_code ::
  "env \<Rightarrow> ident \<Rightarrow> nat \<Rightarrow> realm_row \<Rightarrow> string \<Rightarrow> otp_attempt_row option \<Rightarrow> otp_attempt_row \<Rightarrow> db \<Rightarrow>
   (sms_error + send_result) \<times> db" where
  "deliver_code e logId n r phone existing new s1 =
     (let len = clamp (Some (realm_otpLength r)) MIN_CODE_LENGTH MAX_CODE_LENGTH MIN_CODE_LENGTH;
          expirySeconds = clamp (Some (realm_otpExpirySeconds r)) MIN_EXPIRY_SECONDS MAX_EXPIRY_SECONDS 300;
          code = generateCode (nat len) n
      in case store_code e existing new s1 of (written, s2) \<Rightarrow>
         if \<not> written
         then (Inl (Cooldown SMS_OTP_RESEND_COOLDOWN_SECONDS), set_log_status logId ''REJECTED'' s2)
         else if \<not> sendSms e (realm_name r) phone (sms_message r code expirySeconds) s2
         then (Inl SendFailed, set_log_status logId ''FAILED'' s2)
         else (Inr \<lparr> sr_maskedPhone = maskPhone phone, sr_expiresAt = oa_expiresAt new,
                     sr_resendAvailableAt = now e + SMS_OTP_RESEND_COOLDOWN_SECONDS * 1000 \<rparr>,
               set_log_status logId ''SENT'' s2))"

definition ip_hash :: "env \<Rightarrow> string option \<Rightarrow> string option" where
  "ip_hash e ip = (if falsy ip then None else Some (hmac e ''sms-ip'' (the ip)))"

definition log_send :: "env \<Rightarrow> ident \<Rightarrow> realm_row \<Rightarrow> ident \<Rightarrow> string \<Rightarrow> string option \<Rightarrow> db \<Rightarrow> db" where
  "log_send e logId r uid ph ipHash s =
     s\<lparr> smsDeliveryLogs := smsDeliveryLogs s @
          [\<lparr> sl_id = logId, sl_realmId = realm_id r, sl_userId = uid, sl_phoneHash = ph,
             sl_ipHash = ipHash, sl_status = ''PENDING'', sl_createdAt = now e \<rparr>] \<rparr>"

definition sendCode ::
  "env \<Rightarrow> ident \<Rightarrow> ident \<Rightarrow> nat \<Rightarrow> realm_row \<Rightarrow> ident \<Rightarrow> string \<Rightarrow> string \<Rightarrow> string option \<Rightarrow>
   string option \<Rightarrow> db \<Rightarrow> (sms_error + send_result) \<times> db" where
  "sendCode e logId rowId n r uid purpose binding phoneParam ip s =
     (case send_destination e r uid purpose phoneParam s of
        Inl err \<Rightarrow> (Inl err, s)
      | Inr phone \<Rightarrow>
        let bh = otp_bindingHash e purpose binding;
            existing = find_otp purpose bh s
        in case resend_refused e r uid existing of
             Some err \<Rightarrow> (Inl err, s)
           | None \<Rightarrow>
             let s1 = log_send e logId r uid (phoneHash e phone) (ip_hash e ip) s
             in case checkSendLimits e r uid (phoneHash e phone) (ip_hash e ip) s1 of
                  Some err \<Rightarrow> (Inl err, set_log_status logId ''REJECTED'' s1)
                | None \<Rightarrow> deliver_code e logId n r phone existing
                            (new_code_row e rowId n r uid purpose bh phone) s1)"

subsection \<open>Verifying\<close>

definition reserve_guess :: "ident \<Rightarrow> millis \<Rightarrow> db \<Rightarrow> bool \<times> db" where
  "reserve_guess i t s =
     (let hit = (\<lambda>a. oa_id a = i \<and> oa_attempts a < SMS_OTP_MAX_ATTEMPTS \<and> oa_expiresAt a > t)
      in (list_ex hit (otpAttempts s),
          s\<lparr> otpAttempts := tbl_update hit (\<lambda>a. a\<lparr> oa_attempts := oa_attempts a + 1 \<rparr>) (otpAttempts s) \<rparr>))"

definition claim_code :: "ident \<Rightarrow> string \<Rightarrow> db \<Rightarrow> bool \<times> db" where
  "claim_code i h s =
     (let hit = (\<lambda>a. oa_id a = i \<and> oa_codeHash a = h)
      in (tbl_count hit (otpAttempts s) = 1, s\<lparr> otpAttempts := tbl_delete hit (otpAttempts s) \<rparr>))"

definition code_matches :: "env \<Rightarrow> string \<Rightarrow> otp_attempt_row \<Rightarrow> bool" where
  "code_matches e code row \<longleftrightarrow>
     oa_codeHash row = otp_codeHash e (oa_bindingHash row) (strip_spaces code)"

definition row_applies :: "ident \<Rightarrow> ident \<Rightarrow> otp_attempt_row option \<Rightarrow> bool" where
  "row_applies uid rid row =
     (case row of None \<Rightarrow> False | Some a \<Rightarrow> oa_userId a = uid \<and> oa_realmId a = rid)"

definition verified_phone :: "env \<Rightarrow> ident \<Rightarrow> string \<Rightarrow> otp_attempt_row \<Rightarrow> db \<Rightarrow> verify_result result" where
  "verified_phone e uid purpose row s =
     (if purpose = ''enroll'' then
        if falsy (oa_phoneEncrypted row) then Inr VerifyNotFound
        else (case decrypt e (the (oa_phoneEncrypted row)) of
                None \<Rightarrow> Inl PlainError
              | Some p \<Rightarrow> Inr (if p = [] then VerifyNotFound else VerifyOk p))
      else (case getEnrolledPhone e uid s of
              None \<Rightarrow> Inr VerifyNotFound
            | Some p \<Rightarrow> Inr (if p = [] then VerifyNotFound else VerifyOk p)))"

definition verifyCode ::
  "env \<Rightarrow> ident \<Rightarrow> ident \<Rightarrow> string \<Rightarrow> string \<Rightarrow> string \<Rightarrow> db \<Rightarrow> verify_result result \<times> db" where
  "verifyCode e rid uid purpose binding code s =
     (let found = find_otp purpose (otp_bindingHash e purpose binding) s
      in if \<not> row_applies uid rid found then (Inr VerifyNotFound, s)
         else let row = the found;
                  (reserved, s1) = reserve_guess (oa_id row) (now e) s
              in if \<not> reserved
                 then (Inr (if oa_expiresAt row \<le> now e then VerifyExpired else VerifyLocked), s1)
                 else if \<not> code_matches e code row
                 then (let remaining = max 0 (SMS_OTP_MAX_ATTEMPTS - (oa_attempts row + 1))
                       in (Inr (if remaining = 0 then VerifyLocked else VerifyInvalid remaining), s1))
                 else let (claimed, s2) = claim_code (oa_id row) (oa_codeHash row) s1
                      in if \<not> claimed then (Inr VerifyNotFound, s2)
                         else (verified_phone e uid purpose row s2, s2))"

definition sms_cleanup :: "env \<Rightarrow> db \<Rightarrow> db" where
  "sms_cleanup e s =
     s\<lparr> otpAttempts := tbl_delete (\<lambda>a. oa_expiresAt a < now e - OTP_ROW_RETENTION_MS) (otpAttempts s),
        smsDeliveryLogs := tbl_delete
          (\<lambda>l. sl_createdAt l < now e - DELIVERY_LOG_RETENTION_DAYS * 86400000) (smsDeliveryLogs s) \<rparr>"

subsection \<open>Concurrent requests\<close>

text \<open>
  A request to \<open>verifyCode\<close> runs between its database statements interleaved with everything else.
  Its phase records where it stands: the row it read, whether its guess was reserved, compared or
  claimed.  A configuration is the list of requests that arrived with their phases, and the
  database.  \<open>verify_step i\<close> is one atomic step seen by the challenge row \<open>i\<close>; each step has its own
  clock reading and environment.  Row identifiers are generated by the database, so a later send never
  creates another row \<open>i\<close>.
\<close>

record guess_request =
  gr_realmId :: ident
  gr_userId :: ident
  gr_purpose :: string
  gr_binding :: string
  gr_code :: string

datatype phase =
    Pending
  | Found otp_attempt_row
  | Reserved otp_attempt_row
  | Wrong otp_attempt_row
  | Claimed otp_attempt_row
  | Lost otp_attempt_row
  | Refused

fun guessed :: "ident \<Rightarrow> phase \<Rightarrow> bool" where
  "guessed i (Reserved a) \<longleftrightarrow> oa_id a = i"
| "guessed i (Wrong a) \<longleftrightarrow> oa_id a = i"
| "guessed i (Claimed a) \<longleftrightarrow> oa_id a = i"
| "guessed i (Lost a) \<longleftrightarrow> oa_id a = i"
| "guessed i _ \<longleftrightarrow> False"

fun claimed :: "ident \<Rightarrow> phase \<Rightarrow> bool" where
  "claimed i (Claimed a) \<longleftrightarrow> oa_id a = i"
| "claimed i _ \<longleftrightarrow> False"

type_synonym conf = "(guess_request \<times> phase) list \<times> db"

inductive verify_step :: "ident \<Rightarrow> conf \<Rightarrow> conf \<Rightarrow> bool" for i :: ident where
  arrive: "verify_step i (ps, s) (ps @ [(q, Pending)], s)"
| find: "k < length ps \<Longrightarrow> ps ! k = (q, Pending) \<Longrightarrow>
    found = find_otp (gr_purpose q) (otp_bindingHash e (gr_purpose q) (gr_binding q)) s \<Longrightarrow>
    p = (if row_applies (gr_userId q) (gr_realmId q) found then Found (the found) else Refused) \<Longrightarrow>
    verify_step i (ps, s) (ps[k := (q, p)], s)"
| reserve: "k < length ps \<Longrightarrow> ps ! k = (q, Found a) \<Longrightarrow> reserve_guess (oa_id a) t s = (ok, s') \<Longrightarrow>
    verify_step i (ps, s) (ps[k := (q, if ok then Reserved a else Refused)], s')"
| wrong: "k < length ps \<Longrightarrow> ps ! k = (q, Reserved a) \<Longrightarrow> \<not> code_matches e (gr_code q) a \<Longrightarrow>
    verify_step i (ps, s) (ps[k := (q, Wrong a)], s)"
| claim: "k < length ps \<Longrightarrow> ps ! k = (q, Reserved a) \<Longrightarrow> code_matches e (gr_code q) a \<Longrightarrow>
    claim_code (oa_id a) (oa_codeHash a) s = (ok, s') \<Longrightarrow>
    verify_step i (ps, s) (ps[k := (q, if ok then Claimed a else Lost a)], s')"
| send: "rowId \<noteq> i \<Longrightarrow>
    verify_step i (ps, s) (ps, snd (sendCode e logId rowId n r uid purpose binding ph ip s))"
| remove: "verify_step i (ps, s) (ps, removeEnrolledPhone uid s)"
| cleanup: "verify_step i (ps, s) (ps, sms_cleanup e s)"

definition guess_budget :: "ident \<Rightarrow> db \<Rightarrow> nat" where
  "guess_budget i s =
     sum_list (map (\<lambda>a. if oa_id a = i then nat (SMS_OTP_MAX_ATTEMPTS - oa_attempts a) else 0)
                (otpAttempts s))"

definition rows_of :: "ident \<Rightarrow> db \<Rightarrow> nat" where
  "rows_of i s = length (filter (\<lambda>a. oa_id a = i) (otpAttempts s))"

subsection \<open>What each statement does to the budgets\<close>

lemma reserve_spends:
  assumes "reserve_guess i t s = (True, s')"
  shows "guess_budget i s' < guess_budget i s"
  using assms unfolding reserve_guess_def Let_def guess_budget_def
  by (clarsimp, intro sum_list_update_less) (auto simp: SMS_OTP_MAX_ATTEMPTS_def)

lemma reserve_never_gives:
  assumes "reserve_guess j t s = (ok, s')"
  shows "guess_budget i s' \<le> guess_budget i s" "rows_of i s' = rows_of i s"
proof -
  from assms obtain p where s': "s' = s\<lparr> otpAttempts :=
      tbl_update p (\<lambda>a. a\<lparr> oa_attempts := oa_attempts a + 1 \<rparr>) (otpAttempts s) \<rparr>"
    by (auto simp: reserve_guess_def Let_def)
  show "guess_budget i s' \<le> guess_budget i s"
    unfolding s' guess_budget_def by (simp, intro sum_list_update_le) auto
  show "rows_of i s' = rows_of i s"
    unfolding s' rows_of_def by (simp add: length_filter_update_eq)
qed

lemma claim_removes:
  assumes "claim_code j h s = (ok, s')"
  shows "guess_budget i s' \<le> guess_budget i s" "rows_of i s' \<le> rows_of i s"
  using assms unfolding claim_code_def Let_def guess_budget_def rows_of_def
  by (auto intro: sum_list_delete_le length_filter_delete_le)

lemma claim_takes_row:
  assumes "claim_code i h s = (True, s')"
  shows "rows_of i s' < rows_of i s"
proof -
  have "tbl_count (\<lambda>a. oa_id a = i \<and> oa_codeHash a = h) xs \<noteq> 0 \<Longrightarrow>
        length (filter (\<lambda>a. oa_id a = i) (tbl_delete (\<lambda>a. oa_id a = i \<and> oa_codeHash a = h) xs))
        < length (filter (\<lambda>a. oa_id a = i) xs)" for xs :: "otp_attempt_row list"
  proof (induction xs)
    case (Cons a xs)
    show ?case
    proof (cases "oa_id a = i \<and> oa_codeHash a = h")
      case True
      then show ?thesis
        using length_filter_delete_le [of "\<lambda>a. oa_id a = i" "\<lambda>a. oa_id a = i \<and> oa_codeHash a = h" xs]
        by (simp add: less_Suc_eq_le)
    next
      case False
      with Cons show ?thesis by (auto split: if_splits)
    qed
  qed simp
  with assms show ?thesis by (auto simp: claim_code_def Let_def rows_of_def)
qed

lemma remove_never_gives:
  "guess_budget i (removeEnrolledPhone uid s) \<le> guess_budget i s"
  "rows_of i (removeEnrolledPhone uid s) \<le> rows_of i s"
  by (simp_all add: removeEnrolledPhone_def guess_budget_def rows_of_def
      sum_list_delete_le length_filter_delete_le)

lemma cleanup_never_gives:
  "guess_budget i (sms_cleanup e s) \<le> guess_budget i s" "rows_of i (sms_cleanup e s) \<le> rows_of i s"
  by (simp_all add: sms_cleanup_def guess_budget_def rows_of_def
      sum_list_delete_le length_filter_delete_le)

lemma set_log_status_otp [simp]: "otpAttempts (set_log_status l st s) = otpAttempts s"
  by (simp add: set_log_status_def)

lemma store_code_never_gives:
  assumes "store_code e existing new s = (b, s')" and "oa_id new \<noteq> i"
  shows "guess_budget i s' \<le> guess_budget i s" "rows_of i s' \<le> rows_of i s"
proof -
  show "guess_budget i s' \<le> guess_budget i s"
    using assms unfolding store_code_def guess_budget_def Let_def
    by (auto split: option.splits if_splits intro!: sum_list_update_le)
  show "rows_of i s' \<le> rows_of i s"
    using assms unfolding store_code_def rows_of_def Let_def
    by (auto split: option.splits if_splits simp: length_filter_update_eq)
qed

lemma log_send_otp [simp]: "otpAttempts (log_send e l r uid ph ip s) = otpAttempts s"
  by (simp add: log_send_def)

lemma new_code_row_id [simp]: "oa_id (new_code_row e rowId n r uid purpose bh phone) = rowId"
  by (simp add: new_code_row_def Let_def)

lemma deliver_code_never_gives:
  assumes "oa_id new \<noteq> i"
  shows "guess_budget i (snd (deliver_code e logId n r phone existing new s)) \<le> guess_budget i s"
    "rows_of i (snd (deliver_code e logId n r phone existing new s)) \<le> rows_of i s"
proof -
  obtain b s2 where st: "store_code e existing new s = (b, s2)" by (cases "store_code e existing new s")
  then have "otpAttempts (snd (deliver_code e logId n r phone existing new s)) = otpAttempts s2"
    by (simp add: deliver_code_def)
  then show "guess_budget i (snd (deliver_code e logId n r phone existing new s)) \<le> guess_budget i s"
    "rows_of i (snd (deliver_code e logId n r phone existing new s)) \<le> rows_of i s"
    using store_code_never_gives [OF st assms] by (simp_all add: guess_budget_def rows_of_def)
qed

lemma budgets_cong:
  "otpAttempts s = otpAttempts s' \<Longrightarrow> guess_budget i s = guess_budget i s' \<and> rows_of i s = rows_of i s'"
  by (simp add: guess_budget_def rows_of_def)

lemma sendCode_never_gives:
  assumes "rowId \<noteq> i"
  shows "guess_budget i (snd (sendCode e logId rowId n r uid purpose binding ph ip s)) \<le> guess_budget i s"
    "rows_of i (snd (sendCode e logId rowId n r uid purpose binding ph ip s)) \<le> rows_of i s"
proof -
  let ?new = "\<lambda>phone. new_code_row e rowId n r uid purpose (otp_bindingHash e purpose binding) phone"
  have d: "guess_budget i (snd (deliver_code e logId n r phone ex (?new phone) (log_send e l r uid p a s)))
           \<le> guess_budget i s"
    "rows_of i (snd (deliver_code e logId n r phone ex (?new phone) (log_send e l r uid p a s)))
           \<le> rows_of i s" for phone ex l p a
    using deliver_code_never_gives [of "?new phone" i e logId n r phone ex "log_send e l r uid p a s"]
      budgets_cong [of "log_send e l r uid p a s" s i] assms by simp_all
  show "guess_budget i (snd (sendCode e logId rowId n r uid purpose binding ph ip s)) \<le> guess_budget i s"
    by (simp add: sendCode_def Let_def d guess_budget_def split: sum.split option.split)
       (simp add: d [unfolded guess_budget_def])
  show "rows_of i (snd (sendCode e logId rowId n r uid purpose binding ph ip s)) \<le> rows_of i s"
    by (simp add: sendCode_def Let_def d rows_of_def split: sum.split option.split)
       (simp add: d [unfolded rows_of_def])
qed

subsection \<open>The invariant of the concurrent runs\<close>

definition guesses_made :: "ident \<Rightarrow> conf \<Rightarrow> nat" where
  "guesses_made i c = length (filter (\<lambda>qp. guessed i (snd qp)) (fst c))"

definition codes_accepted :: "ident \<Rightarrow> conf \<Rightarrow> nat" where
  "codes_accepted i c = length (filter (\<lambda>qp. claimed i (snd qp)) (fst c))"

lemma phase_update_counts:
  assumes "k < length ps" and "ps ! k = (q, p)"
  shows "guesses_made i (ps[k := (q, p')], s') + (if guessed i p then 1 else 0)
       = guesses_made i (ps, s) + (if guessed i p' then 1 else 0)"
    "codes_accepted i (ps[k := (q, p')], s') + (if claimed i p then 1 else 0)
       = codes_accepted i (ps, s) + (if claimed i p' then 1 else 0)"
  using filter_length_update [OF assms(1), of "\<lambda>qp. guessed i (snd qp)" "(q, p')"]
    filter_length_update [OF assms(1), of "\<lambda>qp. claimed i (snd qp)" "(q, p')"] assms(2)
  by (simp_all add: guesses_made_def codes_accepted_def)

lemma verify_step_budget:
  assumes "verify_step i c c'"
  shows "guesses_made i c' + guess_budget i (snd c') \<le> guesses_made i c + guess_budget i (snd c)"
    "codes_accepted i c' + rows_of i (snd c') \<le> codes_accepted i c + rows_of i (snd c)"
  using assms
proof (atomize (full), induction rule: verify_step.induct)
  case (arrive ps s q)
  then show ?case by (simp add: guesses_made_def codes_accepted_def)
next
  case (find k ps q found e s p)
  then show ?case using phase_update_counts [OF find(1,2), of i p s s]
    by (auto split: if_splits)
next
  case (reserve k ps q a t s ok s')
  then show ?case
    using phase_update_counts [OF reserve(1,2), of i "if ok then Reserved a else Refused" s' s]
      reserve_never_gives [OF reserve(3), of i] reserve_spends [of "oa_id a" t s s']
    by (cases ok; cases "oa_id a = i") auto
next
  case (wrong k ps q a e s)
  then show ?case using phase_update_counts [OF wrong(1,2), of i "Wrong a" s s] by auto
next
  case (claim k ps q a e s ok s')
  then show ?case
    using phase_update_counts [OF claim(1,2), of i "if ok then Claimed a else Lost a" s' s]
      claim_removes [OF claim(4), of i] claim_takes_row [of "oa_id a" "oa_codeHash a" s s']
    by (cases ok; cases "oa_id a = i") auto
next
  case (send rowId ps s e logId n r uid purpose binding ph ip)
  then show ?case
    using sendCode_never_gives [OF send, of e logId n r uid purpose binding ph ip s]
    by (simp add: guesses_made_def codes_accepted_def)
next
  case (remove ps s uid)
  then show ?case using remove_never_gives [of i uid s]
    by (simp add: guesses_made_def codes_accepted_def)
next
  case (cleanup ps s e)
  then show ?case using cleanup_never_gives [of i e s]
    by (simp add: guesses_made_def codes_accepted_def)
qed

lemma verify_steps_budget:
  assumes "(verify_step i)\<^sup>*\<^sup>* c c'"
  shows "guesses_made i c' + guess_budget i (snd c') \<le> guesses_made i c + guess_budget i (snd c) \<and>
         codes_accepted i c' + rows_of i (snd c') \<le> codes_accepted i c + rows_of i (snd c)"
  using assms
proof (induction rule: rtranclp_induct)
  case (step y z)
  then show ?case using verify_step_budget [OF step(2)] by linarith
qed simp

lemma guess_budget_le:
  "\<forall>a \<in> set (otpAttempts s). 0 \<le> oa_attempts a \<Longrightarrow> guess_budget i s \<le> 5 * rows_of i s"
proof -
  have "\<forall>a \<in> set xs. 0 \<le> oa_attempts a \<Longrightarrow>
    sum_list (map (\<lambda>a. if oa_id a = i then nat (SMS_OTP_MAX_ATTEMPTS - oa_attempts a) else 0) xs)
      \<le> 5 * length (filter (\<lambda>a. oa_id a = i) xs)" for xs :: "otp_attempt_row list"
    by (induction xs) (auto simp: SMS_OTP_MAX_ATTEMPTS_def)
  then show "\<forall>a \<in> set (otpAttempts s). 0 \<le> oa_attempts a \<Longrightarrow> guess_budget i s \<le> 5 * rows_of i s"
    by (simp add: guess_budget_def rows_of_def)
qed

text \<open>A single request is one of the interleavings: its statements one after the other.\<close>

lemma verifyCode_run:
  fixes q :: guess_request and e :: env and s :: db
  defines "v \<equiv> verifyCode e (gr_realmId q) (gr_userId q) (gr_purpose q) (gr_binding q) (gr_code q) s"
  shows "\<exists>ph. (verify_step i)\<^sup>*\<^sup>* ([(q, Pending)], s) ([(q, ph)], snd v) \<and>
           ((\<exists>p. fst v = Inr (VerifyOk p)) \<longrightarrow> (\<exists>a. ph = Claimed a))"
proof -
  define found where "found = find_otp (gr_purpose q) (otp_bindingHash e (gr_purpose q) (gr_binding q)) s"
  define row where "row = the found"
  have f: "verify_step i ([(q, Pending)], s)
     ([(q, if row_applies (gr_userId q) (gr_realmId q) found then Found row else Refused)], s)"
    using verify_step.find [OF _ _ refl refl, of 0 "[(q, Pending)]" q i s e]
    unfolding found_def row_def by (simp split del: if_split)
  show ?thesis
  proof (cases "row_applies (gr_userId q) (gr_realmId q) found")
    case False
    with f show ?thesis by (auto simp: v_def verifyCode_def found_def Let_def intro!: exI [of _ Refused])
  next
    case ap: True
    obtain ok s1 where rs: "reserve_guess (oa_id row) (now e) s = (ok, s1)" by fastforce
    have r: "verify_step i ([(q, Found row)], s) ([(q, if ok then Reserved row else Refused)], s1)"
      using verify_step.reserve [of 0 "[(q, Found row)]" q row "now e" s ok s1] rs by simp
    have fr: "(verify_step i)\<^sup>*\<^sup>* ([(q, Pending)], s) ([(q, if ok then Reserved row else Refused)], s1)"
      using f r ap by auto
    show ?thesis
    proof (cases "ok \<and> code_matches e (gr_code q) row")
      case False
      then show ?thesis
      proof (cases ok)
        case True
        with False have "verify_step i ([(q, Reserved row)], s1) ([(q, Wrong row)], s1)"
          using verify_step.wrong [of 0 "[(q, Reserved row)]" q row e i s1] by simp
        with fr True have "(verify_step i)\<^sup>*\<^sup>* ([(q, Pending)], s) ([(q, Wrong row)], s1)" by auto
        with True False ap rs show ?thesis
          by (auto simp: v_def verifyCode_def found_def [symmetric] row_def [symmetric] Let_def
              intro!: exI [of _ "Wrong row"])
      next
        case False
        with fr ap rs show ?thesis
          by (auto simp: v_def verifyCode_def found_def [symmetric] row_def [symmetric] Let_def
              intro!: exI [of _ Refused])
      qed
    next
      case True
      obtain cl s2 where cs: "claim_code (oa_id row) (oa_codeHash row) s1 = (cl, s2)" by fastforce
      have "verify_step i ([(q, Reserved row)], s1) ([(q, if cl then Claimed row else Lost row)], s2)"
        using verify_step.claim [of 0 "[(q, Reserved row)]" q row e s1 cl s2] cs True by simp
      with fr True have "(verify_step i)\<^sup>*\<^sup>* ([(q, Pending)], s)
          ([(q, if cl then Claimed row else Lost row)], s2)" by auto
      with True ap rs cs show ?thesis
        by (auto simp: v_def verifyCode_def found_def [symmetric] row_def [symmetric] Let_def
            intro!: exI [of _ "if cl then Claimed row else Lost row"])
    qed
  qed
qed

subsection \<open>Sending, then verifying\<close>

lemma generateCode_no_spaces: "strip_spaces (generateCode len n) = generateCode len n"
proof -
  have "\<not> js_space c" if "c \<in> set (show_nat m)" for c m
    using that
  proof (induction m rule: show_nat.induct)
    case (1 m)
    show ?case
    proof (cases "m < 10")
      case True
      with 1(2) have "c = char_of (48 + m)" by (simp add: show_nat.simps [of m])
      with True show ?thesis by (simp add: js_space_def)
    next
      case False
      with 1 show ?thesis by (auto simp: show_nat.simps [of m] js_space_def)
    qed
  qed
  then show ?thesis
    by (auto simp: strip_spaces_def generateCode_def filter_id_conv js_space_def)
qed

definition otp_key :: "otp_attempt_row \<Rightarrow> string \<times> string" where
  "otp_key a = (oa_purpose a, oa_bindingHash a)"

text \<open>The two unique indexes of the table.\<close>

definition otp_table_ok :: "db \<Rightarrow> bool" where
  "otp_table_ok s \<longleftrightarrow> distinct (map oa_id (otpAttempts s)) \<and> distinct (map otp_key (otpAttempts s))"

lemma find_otp_key: "find_otp purpose bh s = List.find (\<lambda>a. otp_key a = (purpose, bh)) (otpAttempts s)"
  by (simp add: find_otp_def otp_key_def)

lemma store_code_finds:
  assumes st: "store_code e (find_otp (oa_purpose new) (oa_bindingHash new) s) new s = (True, s')"
    and ok: "otp_table_ok s" and fresh: "oa_id new \<notin> oa_id ` set (otpAttempts s)"
  shows "otp_table_ok s' \<and> (\<exists>row. find_otp (oa_purpose new) (oa_bindingHash new) s' = Some row \<and>
           oa_codeHash row = oa_codeHash new \<and> oa_expiresAt row = oa_expiresAt new \<and>
           oa_phoneEncrypted row = oa_phoneEncrypted new \<and>
           (oa_attempts row < SMS_OTP_MAX_ATTEMPTS \<or> oa_attempts row = oa_attempts new) \<and>
           (case find_otp (oa_purpose new) (oa_bindingHash new) s of
              None \<Rightarrow> row = new
            | Some a \<Rightarrow> oa_userId row = oa_userId a \<and> oa_realmId row = oa_realmId a))"
proof (cases "find_otp (oa_purpose new) (oa_bindingHash new) s")
  case None
  with st have s': "s' = s\<lparr> otpAttempts := otpAttempts s @ [new] \<rparr>" by (simp add: store_code_def)
  have "find_otp (oa_purpose new) (oa_bindingHash new) s' = Some new"
    using None by (simp add: s' find_otp_key find_append_None) (simp add: otp_key_def)
  moreover have "otp_key new \<notin> otp_key ` set (otpAttempts s)"
    using None by (auto simp: find_otp_key find_None_iff otp_key_def)
  ultimately show ?thesis using ok fresh None by (auto simp: s' otp_table_ok_def)
next
  case (Some a)
  define hit where "hit = (\<lambda>x :: otp_attempt_row. oa_id x = oa_id a \<and>
      oa_lastSentAt x \<le> now e - SMS_OTP_RESEND_COOLDOWN_SECONDS * 1000 \<and>
      oa_sendCount x < SMS_OTP_MAX_SENDS \<and> oa_attempts x < SMS_OTP_MAX_ATTEMPTS)"
  define f where "f = (\<lambda>x :: otp_attempt_row. x\<lparr> oa_codeHash := oa_codeHash new, oa_phoneHash := oa_phoneHash new,
      oa_phoneEncrypted := oa_phoneEncrypted new, oa_expiresAt := oa_expiresAt new,
      oa_lastSentAt := oa_lastSentAt new, oa_sendCount := oa_sendCount x + 1 \<rparr>)"
  from Some st have ex: "list_ex hit (otpAttempts s)"
    and s': "s' = s\<lparr> otpAttempts := tbl_update hit f (otpAttempts s) \<rparr>"
    by (simp_all add: store_code_def Let_def hit_def f_def)
  have a: "a \<in> set (otpAttempts s)" using Some by (auto simp: find_otp_def dest: find_SomeD)
  from ex obtain x where "x \<in> set (otpAttempts s)" "hit x" by (auto simp: list_ex_iff)
  with a ok have hita: "hit a"
    using distinct_id_eq [of oa_id "otpAttempts s" x a] by (auto simp: otp_table_ok_def hit_def)
  have inv: "otp_key (f x) = otp_key x" "oa_id (f x) = oa_id x" for x
    by (simp_all add: f_def otp_key_def)
  then have "find_otp (oa_purpose new) (oa_bindingHash new) s' = Some (f a)"
    using Some hita
    find_tbl_update_inv [of "\<lambda>a. otp_key a = (oa_purpose new, oa_bindingHash new)" f hit "otpAttempts s"]
    by (simp add: s' find_otp_key)
  moreover have "otp_table_ok s'"
    using ok inv by (simp add: otp_table_ok_def s' map_tbl_update)
  ultimately show ?thesis using Some hita by (auto simp: f_def hit_def)
qed

lemma verifyCode_accepts:
  assumes ok: "otp_table_ok s"
    and row: "find_otp purpose (otp_bindingHash e purpose binding) s = Some row"
      "oa_userId row = uid" "oa_realmId row = rid"
    and live: "oa_attempts row < SMS_OTP_MAX_ATTEMPTS" "now e < oa_expiresAt row"
    and code: "code_matches e code row"
  shows "\<exists>s'. verifyCode e rid uid purpose binding code s = (verified_phone e uid purpose row s', s') \<and>
           userCredentials s' = userCredentials s \<and>
           find_otp purpose (otp_bindingHash e purpose binding) s' = None"
proof -
  define hit where "hit = (\<lambda>a :: otp_attempt_row. oa_id a = oa_id row \<and>
      oa_attempts a < SMS_OTP_MAX_ATTEMPTS \<and> oa_expiresAt a > now e)"
  define f where "f = (\<lambda>a :: otp_attempt_row. a\<lparr> oa_attempts := oa_attempts a + 1 \<rparr>)"
  define s1 where "s1 = s\<lparr> otpAttempts := tbl_update hit f (otpAttempts s) \<rparr>"
  define s2 where "s2 = s1\<lparr> otpAttempts := tbl_delete
      (\<lambda>a. oa_id a = oa_id row \<and> oa_codeHash a = oa_codeHash row) (otpAttempts s1) \<rparr>"
  have mem: "row \<in> set (otpAttempts s)" "otp_key row = (purpose, otp_bindingHash e purpose binding)"
    using row(1) by (auto simp: find_otp_key dest: find_SomeD)
  have inv: "oa_id (f x) = oa_id x" "otp_key (f x) = otp_key x" "oa_codeHash (f x) = oa_codeHash x" for x
    by (simp_all add: f_def otp_key_def)
  from mem live have hitrow: "hit row" by (simp add: hit_def)
  then have reserved: "reserve_guess (oa_id row) (now e) s = (True, s1)"
    using mem by (auto simp: reserve_guess_def Let_def s1_def hit_def f_def list_ex_iff)
  have ok1: "distinct (map oa_id (otpAttempts s1))" "distinct (map otp_key (otpAttempts s1))"
    using ok inv by (simp_all add: s1_def otp_table_ok_def map_tbl_update)
  have mem1: "f row \<in> set (otpAttempts s1)" using mem hitrow by (auto simp: s1_def set_tbl_update)
  have claimed: "claim_code (oa_id row) (oa_codeHash row) s1 = (True, s2)"
    using tbl_count_unique [OF ok1(1) mem1, of "\<lambda>a. oa_codeHash a = oa_codeHash row"] inv
    by (simp add: claim_code_def Let_def s2_def)
  have "find_otp purpose (otp_bindingHash e purpose binding) s2 = None"
  proof -
    have "a = f row" if "a \<in> set (otpAttempts s1)" "otp_key a = otp_key (f row)" for a
      using distinct_id_eq [OF ok1(2) that(1) mem1 that(2)] .
    then show ?thesis using mem(2) inv by (fastforce simp: find_otp_key find_None_iff s2_def)
  qed
  moreover have "verifyCode e rid uid purpose binding code s = (verified_phone e uid purpose row s2, s2)"
    using row code reserved claimed by (simp add: verifyCode_def row_applies_def Let_def)
  moreover have "userCredentials s2 = userCredentials s" by (simp add: s1_def s2_def)
  ultimately show ?thesis by blast
qed

definition code_length :: "realm_row \<Rightarrow> nat" where
  "code_length r =
     nat (clamp (Some (realm_otpLength r)) MIN_CODE_LENGTH MAX_CODE_LENGTH MIN_CODE_LENGTH)"

lemma sendCode_stores:
  assumes snd: "sendCode e logId rowId n r uid purpose binding ph ip s = (Inr res, s')"
    and ok: "otp_table_ok s" and fresh: "rowId \<notin> oa_id ` set (otpAttempts s)"
  shows "otp_table_ok s' \<and> userCredentials s' = userCredentials s \<and>
         (\<exists>phone row. send_destination e r uid purpose ph s = Inr phone \<and>
            find_otp purpose (otp_bindingHash e purpose binding) s' = Some row \<and>
            oa_userId row = uid \<and> oa_realmId row = realm_id r \<and> oa_attempts row < SMS_OTP_MAX_ATTEMPTS \<and>
            oa_expiresAt row = sr_expiresAt res \<and>
            oa_codeHash row = otp_codeHash e (otp_bindingHash e purpose binding) (generateCode (code_length r) n) \<and>
            oa_phoneEncrypted row = (if purpose = ''enroll'' then Some (encrypt e phone) else None))"
proof -
  let ?bh = "otp_bindingHash e purpose binding"
  from snd obtain phone where dest: "send_destination e r uid purpose ph s = Inr phone"
    by (auto simp: sendCode_def split: sum.splits)
  define new where "new = new_code_row e rowId n r uid purpose ?bh phone"
  define s1 where "s1 = log_send e logId r uid (phoneHash e phone) (ip_hash e ip) s"
  have new: "oa_purpose new = purpose" "oa_bindingHash new = ?bh" "oa_id new = rowId"
    "oa_attempts new = 0" "oa_userId new = uid" "oa_realmId new = realm_id r"
    "oa_codeHash new = otp_codeHash e ?bh (generateCode (code_length r) n)"
    "oa_phoneEncrypted new = (if purpose = ''enroll'' then Some (encrypt e phone) else None)"
    by (simp_all add: new_def new_code_row_def Let_def code_length_def)
  from snd dest have ref: "resend_refused e r uid (find_otp purpose ?bh s) = None"
    by (auto simp: sendCode_def Let_def split: option.splits)
  from snd dest ref have del: "deliver_code e logId n r phone (find_otp purpose ?bh s) new s1 = (Inr res, s')"
    by (auto simp: sendCode_def Let_def new_def s1_def split: option.splits)
  obtain b s2 where st: "store_code e (find_otp purpose ?bh s) new s1 = (b, s2)" by fastforce
  with del have b: "b" and s': "s' = set_log_status logId ''SENT'' s2"
    and exp: "sr_expiresAt res = oa_expiresAt new"
    by (auto simp: deliver_code_def Let_def split: if_splits)
  have fs: "find_otp purpose ?bh s1 = find_otp purpose ?bh s" "otp_table_ok s1 = otp_table_ok s"
    by (simp_all add: find_otp_def s1_def otp_table_ok_def)
  have cr: "userCredentials s2 = userCredentials s"
    using st by (auto simp: store_code_def Let_def s1_def log_send_def split: option.splits if_splits)
  have fin: "find_otp purpose ?bh s' = find_otp purpose ?bh s2" "otp_table_ok s' = otp_table_ok s2"
    "userCredentials s' = userCredentials s"
    using cr by (simp_all add: s' find_otp_def otp_table_ok_def set_log_status_def)
  have own: "find_otp purpose ?bh s = Some a \<Longrightarrow> oa_userId a = uid \<and> oa_realmId a = realm_id r" for a
    using ref by (auto simp: resend_refused_def Let_def split: if_splits)
  have fresh1: "oa_id new \<notin> oa_id ` set (otpAttempts s1)" using fresh by (simp add: new s1_def)
  have "store_code e (find_otp (oa_purpose new) (oa_bindingHash new) s1) new s1 = (True, s2)"
    using st b fs new by simp
  from store_code_finds [OF this _ fresh1] ok fs new
  obtain row where "otp_table_ok s2" "find_otp purpose ?bh s2 = Some row"
    "oa_codeHash row = oa_codeHash new" "oa_expiresAt row = oa_expiresAt new"
    "oa_phoneEncrypted row = oa_phoneEncrypted new"
    "oa_attempts row < SMS_OTP_MAX_ATTEMPTS \<or> oa_attempts row = 0"
    "case find_otp purpose ?bh s of None \<Rightarrow> row = new
     | Some a \<Rightarrow> oa_userId row = oa_userId a \<and> oa_realmId row = oa_realmId a" by auto
  moreover from this(7) have "oa_userId row = uid \<and> oa_realmId row = realm_id r"
    using own new by (auto split: option.splits)
  ultimately show ?thesis
    using dest fin exp new by (auto simp: SMS_OTP_MAX_ATTEMPTS_def)
qed

subsection \<open>Properties\<close>


definition sample_otp :: otp_attempt_row where
  "sample_otp = \<lparr> oa_id = ''o1'', oa_realmId = ''r1'', oa_userId = ''u1'', oa_purpose = ''login'',
     oa_bindingHash = ''sms-otp-bindinglogin:tok'', oa_phoneHash = ''p'', oa_phoneEncrypted = None,
     oa_codeHash = ''sms-otp-codesms-otp-bindinglogin:tok:000042'', oa_attempts = 0,
     oa_sendCount = 1, oa_lastSentAt = 0, oa_expiresAt = 2000000 \<rparr>"

definition sample_guess :: guess_request where
  "sample_guess = \<lparr> gr_realmId = ''r1'', gr_userId = ''u1'', gr_purpose = ''login'',
     gr_binding = ''tok'', gr_code = ''000042'' \<rparr>"


text \<open>
  A code that was sent is accepted: while it has not expired, the user who was sent the code
  can answer the challenge with it, on a first send and on a resend, for every purpose, and the
  answer yields the number the code went to; used again, the same code is refused.
\<close>

theorem sms_code_roundtrip:
  assumes "sendCode e logId rowId n r uid purpose binding ph ip s = (Inr res, s')"
    and "otp_table_ok s" and "rowId \<notin> oa_id ` set (otpAttempts s)"
    and "now e' < sr_expiresAt res" and "hmac e' = hmac e" and "decrypt e' = decrypt e"
    and "\<And>x. decrypt e (encrypt e x) = Some x" and "\<And>x. x \<noteq> [] \<Longrightarrow> encrypt e x \<noteq> []"
  shows "\<exists>phone s''. send_destination e r uid purpose ph s = Inr phone \<and>
     verifyCode e' (realm_id r) uid purpose binding (generateCode (code_length r) n) s'
       = (Inr (VerifyOk phone), s'') \<and>
     fst (verifyCode e' (realm_id r) uid purpose binding (generateCode (code_length r) n) s'')
       = Inr VerifyNotFound"
proof -
  have bh: "otp_bindingHash e' = otp_bindingHash e" "otp_codeHash e' = otp_codeHash e"
    using assms(5) by (simp_all add: otp_bindingHash_def otp_codeHash_def fun_eq_iff)
  from sendCode_stores [OF assms(1-3)] obtain phone row where
    st: "otp_table_ok s'" "userCredentials s' = userCredentials s"
      "send_destination e r uid purpose ph s = Inr phone"
      "find_otp purpose (otp_bindingHash e purpose binding) s' = Some row"
      "oa_userId row = uid" "oa_realmId row = realm_id r" "oa_attempts row < SMS_OTP_MAX_ATTEMPTS"
      "oa_expiresAt row = sr_expiresAt res"
      "oa_codeHash row = otp_codeHash e (otp_bindingHash e purpose binding) (generateCode (code_length r) n)"
      "oa_phoneEncrypted row = (if purpose = ''enroll'' then Some (encrypt e phone) else None)"
    by blast
  have "oa_bindingHash row = otp_bindingHash e purpose binding"
    using st(4) by (auto simp: find_otp_def dest: find_SomeD)
  then have match: "code_matches e' (generateCode (code_length r) n) row"
    using st(9) by (simp add: code_matches_def generateCode_no_spaces bh)
  have "find_otp purpose (otp_bindingHash e' purpose binding) s' = Some row" "now e' < oa_expiresAt row"
    using st(4,8) assms(4) by (simp_all add: bh)
  from verifyCode_accepts [OF st(1) this(1) st(5,6,7) this(2) match]
  obtain s'' where v: "verifyCode e' (realm_id r) uid purpose binding (generateCode (code_length r) n) s'
      = (verified_phone e' uid purpose row s'', s'')" "userCredentials s'' = userCredentials s'"
    "find_otp purpose (otp_bindingHash e' purpose binding) s'' = None" by blast
  have "getEnrolledPhone e' uid s'' = getEnrolledPhone e uid s"
    using v(2) st(2) assms(6) by (simp add: getEnrolledPhone_def split: option.split)
  then have "verified_phone e' uid purpose row s'' = Inr (VerifyOk phone)"
    using st(3,10) assms(6,7,8)
    by (auto simp: verified_phone_def send_destination_def falsy_def split: option.splits if_splits)
  moreover have "fst (verifyCode e' (realm_id r) uid purpose binding (generateCode (code_length r) n) s'')
       = Inr VerifyNotFound"
    using v(3) by (simp add: verifyCode_def row_applies_def)
  ultimately show ?thesis using st(3) v(1) by auto
qed

definition sms_realm :: realm_row where
  "sms_realm = (default_realm ''r1'' ''acme'')\<lparr> realm_smsMfaEnabled := True,
     realm_smsProvider := ''webhook'' \<rparr>"

definition sms_db :: db where
  "sms_db = sample_db\<lparr> realms := [sms_realm] \<rparr>"

theorem sms_code_roundtrip_witness:
  "\<exists>phone s''. send_destination sample_env sms_realm ''u1'' ''enroll'' (Some ''+201012345678'') sms_db = Inr phone \<and>
     verifyCode sample_env ''r1'' ''u1'' ''enroll'' ''tok'' (generateCode (code_length sms_realm) 42)
       (snd (sendCode sample_env ''l1'' ''o1'' 42 sms_realm ''u1'' ''enroll'' ''tok''
               (Some ''+201012345678'') None sms_db))
       = (Inr (VerifyOk phone), s'') \<and>
     fst (verifyCode sample_env ''r1'' ''u1'' ''enroll'' ''tok'' (generateCode (code_length sms_realm) 42) s'')
       = Inr VerifyNotFound"
proof -
  let ?r = "sendCode sample_env ''l1'' ''o1'' 42 sms_realm ''u1'' ''enroll'' ''tok''
              (Some ''+201012345678'') None sms_db"
  have "case fst ?r of Inl _ \<Rightarrow> False | Inr res \<Rightarrow> sr_expiresAt res = 1300000" by code_simp
  then obtain res where "?r = (Inr res, snd ?r)" "sr_expiresAt res = 1300000"
    by (cases ?r) (auto split: sum.splits)
  from sms_code_roundtrip [OF this(1), of sample_env] this(2) show ?thesis
    by (simp add: otp_table_ok_def sms_db_def sms_realm_def sample_defs)
qed

subsection \<open>Limits on sending\<close>

lemma sendCode_limits_ok:
  assumes "sendCode e logId rowId n r uid purpose binding ph ip s = (Inr res, s')"
  shows "\<exists>phone. send_destination e r uid purpose ph s = Inr phone \<and>
     checkSendLimits e r uid (phoneHash e phone) (ip_hash e ip)
       (log_send e logId r uid (phoneHash e phone) (ip_hash e ip) s) = None \<and>
     smsDeliveryLogs s' = smsDeliveryLogs (set_log_status logId ''SENT''
       (log_send e logId r uid (phoneHash e phone) (ip_hash e ip) s))"
proof -
  have store: "store_code e ex new s1 = (b, s2) \<Longrightarrow> smsDeliveryLogs s2 = smsDeliveryLogs s1" for ex new s1 b s2
    by (auto simp: store_code_def Let_def split: option.splits if_splits)
  have "deliver_code e logId n r p ex new s1 = (Inr res, s') \<Longrightarrow>
     smsDeliveryLogs s' = smsDeliveryLogs (set_log_status logId ''SENT'' s1)" for p ex new s1
    using store by (auto simp: deliver_code_def Let_def set_log_status_def split: prod.splits if_splits)
  with assms show ?thesis
    by (auto simp: sendCode_def Let_def split: sum.splits option.splits)
qed

lemma count_set_log_status:
  assumes "\<And>l. p (l\<lparr> sl_status := st \<rparr>) = p l"
  shows "tbl_count p (smsDeliveryLogs (set_log_status i st s)) = tbl_count p (smsDeliveryLogs s)"
  using assms by (simp add: set_log_status_def tbl_count_update_eq)

text \<open>
  Sending is limited: after a text message went out, the messages requested in the realm's window
  by this user, for this number, and from this address, and those of the realm in the last
  hour, are all within their limits, refused requests included.
\<close>

theorem sms_send_limits:
  assumes "sendCode e logId rowId n r uid purpose binding ph ip s = (Inr res, s')"
  shows "\<exists>phone. send_destination e r uid purpose ph s = Inr phone \<and>
    (let since = now e - clamp (Some (realm_smsRateLimitWindow r)) 60 86400 900 * 1000;
         sends = (\<lambda>from p. tbl_count (\<lambda>l. sl_realmId l = realm_id r \<and> p l \<and> from \<le> sl_createdAt l)
                    (smsDeliveryLogs s'));
         limit = clamp (Some (realm_smsMaxRequestsPerUser r)) 1 100 3
     in sends since (\<lambda>l. sl_userId l = uid) \<le> limit \<and>
        sends since (\<lambda>l. sl_phoneHash l = phoneHash e phone) \<le> limit \<and>
        (\<not> falsy (ip_hash e ip) \<longrightarrow> sends since (\<lambda>l. sl_ipHash l = ip_hash e ip) \<le> 10) \<and>
        sends (now e - 3600000) (\<lambda>_. True) \<le> clamp (SMS_REALM_HOURLY_LIMIT e) 1 1000000 1000)"
proof -
  from sendCode_limits_ok [OF assms] obtain phone where
    "send_destination e r uid purpose ph s = Inr phone"
    and lim: "checkSendLimits e r uid (phoneHash e phone) (ip_hash e ip)
       (log_send e logId r uid (phoneHash e phone) (ip_hash e ip) s) = None"
    and logs: "smsDeliveryLogs s' = smsDeliveryLogs (set_log_status logId ''SENT''
       (log_send e logId r uid (phoneHash e phone) (ip_hash e ip) s))" by blast
  then show ?thesis
    by (auto simp: checkSendLimits_def Let_def logs count_set_log_status SMS_OTP_MAX_SENDS_PER_IP_def
        DEFAULT_REALM_HOURLY_LIMIT_def not_less intro!: exI [of _ phone] split: if_splits)
qed

theorem sms_send_limits_witness:
  "tbl_count (\<lambda>l. sl_realmId l = ''r1'' \<and> sl_userId l = ''u1'' \<and> 100000 \<le> sl_createdAt l)
     (smsDeliveryLogs (snd (sendCode sample_env ''l1'' ''o1'' 42 sms_realm ''u1'' ''enroll'' ''tok''
        (Some ''+201012345678'') None sms_db))) \<le> 3"
proof -
  let ?r = "sendCode sample_env ''l1'' ''o1'' 42 sms_realm ''u1'' ''enroll'' ''tok''
              (Some ''+201012345678'') None sms_db"
  have "case fst ?r of Inl _ \<Rightarrow> False | Inr res \<Rightarrow> True" by code_simp
  then obtain res where "?r = (Inr res, snd ?r)" by (cases ?r) (auto split: sum.splits)
  from sms_send_limits [OF this] show ?thesis
    by (auto simp: Let_def clamp_def sms_realm_def sample_env_def default_realm_def)
qed

end
