(* ===== verification/Redis.thy ===== *)
theory Redis
  imports Store
begin

text \<open>
  The commands of \<open>src/src/redis/redis.service.ts\<close> that the services use to remember a key for a time.
\<close>

text \<open>
  \<open>isAvailable\<close> is false when Redis is down, and a command then does nothing; when Redis is failing
  every command throws (\<^const>\<open>None\<close>).
\<close>

definition redis_isAvailable :: "env \<Rightarrow> bool" where
  "redis_isAvailable e \<longleftrightarrow> redis e \<noteq> RedisDown"

definition redis_set :: "env \<Rightarrow> string \<Rightarrow> int \<Rightarrow> db \<Rightarrow> db option" where
  "redis_set e key ttlSeconds s =
     (case redis e of
        RedisUp \<Rightarrow> Some (s\<lparr> redisKeys := (key, now e + ttlSeconds * 1000) #
                              filter (\<lambda>k. fst k \<noteq> key) (redisKeys s) \<rparr>)
      | RedisFailing \<Rightarrow> None
      | RedisDown \<Rightarrow> Some s)"

definition redis_exists :: "env \<Rightarrow> string \<Rightarrow> db \<Rightarrow> bool option" where
  "redis_exists e key s =
     (case redis e of
        RedisUp \<Rightarrow> Some (list_ex (\<lambda>k. fst k = key \<and> now e < snd k) (redisKeys s))
      | RedisFailing \<Rightarrow> None
      | RedisDown \<Rightarrow> Some False)"

end
