(* ===== verification/Mfa.thy ===== *)
theory Mfa
  imports Sms_Otp Redis Contracts
begin

text \<open>
  \<open>src/src/mfa/mfa.service.ts\<close>: authenticator codes with replay protection (kept in the database, in
  Redis when it is reachable and in a process-local map otherwise), recovery codes, the check of a
  second factor, MFA challenges with their attempt budget, and the enrolment of a factor during
  sign-in.
\<close>

subsection \<open>Authenticator codes\<close>

definition SECOND_FACTOR_TYPES :: "string list" where
  "SECOND_FACTOR_TYPES = [''totp'', ''sms'']"

definition TOTP_USED_CODE_TTL_SECONDS :: int where "TOTP_USED_CODE_TTL_SECONDS = 90"
definition MFA_ENROLLMENT_TTL_SECONDS :: int where "MFA_ENROLLMENT_TTL_SECONDS = 15 * 60"
definition MFA_CHALLENGE_RATE_LIMIT_MAX_REQUESTS :: int where "MFA_CHALLENGE_RATE_LIMIT_MAX_REQUESTS = 5"
definition MFA_CHALLENGE_RATE_LIMIT_WINDOW_SECONDS :: int where "MFA_CHALLENGE_RATE_LIMIT_WINDOW_SECONDS = 300"
definition MAX_MFA_ATTEMPTS :: int where "MAX_MFA_ATTEMPTS = 5"

definition totp_key :: "ident \<Rightarrow> string \<Rightarrow> string" where
  "totp_key uid code = ''totp:used:'' @ uid @ '':'' @ code"

definition mem_get :: "string \<Rightarrow> db \<Rightarrow> millis option" where
  "mem_get key s = map_of (memTotpCodes s) key"

definition mem_delete :: "string \<Rightarrow> db \<Rightarrow> db" where
  "mem_delete key s = s\<lparr> memTotpCodes := filter (\<lambda>k. fst k \<noteq> key) (memTotpCodes s) \<rparr>"

definition mem_set :: "string \<Rightarrow> millis \<Rightarrow> db \<Rightarrow> db" where
  "mem_set key t s = s\<lparr> memTotpCodes := (key, t) # filter (\<lambda>k. fst k \<noteq> key) (memTotpCodes s) \<rparr>"

definition markTotpCodeUsed :: "env \<Rightarrow> ident \<Rightarrow> string \<Rightarrow> db \<Rightarrow> db" where
  "markTotpCodeUsed e uid code s =
     (let key = totp_key uid code;
          expiresAt = now e + TOTP_USED_CODE_TTL_SECONDS * 1000;
          s1 = s\<lparr> usedTotpCodes := usedTotpCodes s @
                 [\<lparr> ut_userId = uid, ut_codeHash = sha256 e code, ut_expiresAt = expiresAt \<rparr>] \<rparr>
      in if redis_isAvailable e
         then (case redis_set e key TOTP_USED_CODE_TTL_SECONDS s1 of
                 Some s2 \<Rightarrow> s2
               | None \<Rightarrow> mem_set key expiresAt s1)
         else mem_set key expiresAt s1)"

definition isTotpCodeUsed :: "env \<Rightarrow> ident \<Rightarrow> string \<Rightarrow> db \<Rightarrow> bool \<times> db" where
  "isTotpCodeUsed e uid code s =
     (let key = totp_key uid code
      in if redis_isAvailable e \<and> redis_exists e key s = Some True then (True, s)
         else case mem_get key s of
                Some memExpiry \<Rightarrow>
                  if now e > memExpiry then (False, mem_delete key s) else (True, s)
              | None \<Rightarrow>
                  if list_ex (\<lambda>r. ut_userId r = uid \<and> ut_codeHash r = sha256 e code \<and> ut_expiresAt r > now e)
                       (usedTotpCodes s)
                  then (True, if redis_isAvailable e
                              then nullish_else (redis_set e key TOTP_USED_CODE_TTL_SECONDS s) s else s)
                  else (False, s))"

definition totp_credential :: "ident \<Rightarrow> db \<Rightarrow> user_credential_row option" where
  "totp_credential uid s =
     List.find (\<lambda>c. uc_userId c = uid \<and> uc_type c = ''totp'') (userCredentials s)"

text \<open>
  \<open>setupTotp\<close> receives the new row's identifier and the drawn secret; of its result the secret is kept
  (the QR code and the otpauth URL are renderings of it).  The unique index on (userId, type) refuses
  a second authenticator.
\<close>

definition setupTotp :: "ident \<Rightarrow> string \<Rightarrow> ident \<Rightarrow> db \<Rightarrow> string result \<times> db" where
  "setupTotp newId secret uid s =
     (let s1 = s\<lparr> userCredentials := tbl_delete
                 (\<lambda>c. uc_userId c = uid \<and> uc_type c = ''totp'' \<and> \<not> uc_verified c) (userCredentials s) \<rparr>
      in if totp_credential uid s1 \<noteq> None then (Inl PrismaUnique, s1)
         else (Inr secret, s1\<lparr> userCredentials := userCredentials s1 @
            [\<lparr> uc_id = newId, uc_userId = uid, uc_type = ''totp'', uc_secretKey = secret,
               uc_phoneNumber = None, uc_digits = 6, uc_period = 30, uc_verified = False \<rparr>] \<rparr>))"

definition generateRecoveryCodes ::
  "env \<Rightarrow> (nat \<Rightarrow> string) \<Rightarrow> ident \<Rightarrow> db \<Rightarrow> string list \<times> db" where
  "generateRecoveryCodes e secret uid s =
     (let s1 = s\<lparr> recoveryCodes := tbl_delete (\<lambda>c. rc_userId c = uid) (recoveryCodes s) \<rparr>;
          codes = map (\<lambda>i. to_upper (secret i)) [0 ..< 10]
      in (codes, s1\<lparr> recoveryCodes := recoveryCodes s1 @
            map (\<lambda>code. \<lparr> rc_userId = uid, rc_codeHash = sha256 e (to_lower code), rc_used = False \<rparr>) codes \<rparr>))"

definition ensureRecoveryCodes ::
  "env \<Rightarrow> (nat \<Rightarrow> string) \<Rightarrow> ident \<Rightarrow> db \<Rightarrow> string list option \<times> db" where
  "ensureRecoveryCodes e secret uid s =
     (if tbl_count (\<lambda>c. rc_userId c = uid \<and> \<not> rc_used c) (recoveryCodes s) > 0 then (None, s)
      else let (codes, s1) = generateRecoveryCodes e secret uid s in (Some codes, s1))"

definition verifyAndActivateTotp ::
  "env \<Rightarrow> (nat \<Rightarrow> string) \<Rightarrow> ident \<Rightarrow> string \<Rightarrow> db \<Rightarrow> string list option \<times> db" where
  "verifyAndActivateTotp e secret uid code s =
     (case totp_credential uid s of
        None \<Rightarrow> (None, s)
      | Some c \<Rightarrow>
          if uc_verified c then (None, s)
          else if \<not> totp_validate e c code (now e) then (None, s)
          else let s1 = s\<lparr> userCredentials := tbl_update (\<lambda>x. uc_id x = uc_id c)
                          (\<lambda>x. x\<lparr> uc_verified := True \<rparr>) (userCredentials s) \<rparr>;
                   (codes, s2) = ensureRecoveryCodes e secret uid s1
               in (Some (nullish_else codes []), s2))"

definition verifyTotp :: "env \<Rightarrow> ident \<Rightarrow> string \<Rightarrow> db \<Rightarrow> bool \<times> db" where
  "verifyTotp e uid code s =
     (case totp_credential uid s of
        None \<Rightarrow> (False, s)
      | Some c \<Rightarrow>
          if \<not> uc_verified c then (False, s)
          else let (used, s1) = isTotpCodeUsed e uid code s
               in if used then (False, s1)
                  else if \<not> totp_validate e c code (now e) then (False, s1)
                  else (True, markTotpCodeUsed e uid code s1))"

subsection \<open>Recovery codes and factors\<close>

definition recovery_hash :: "env \<Rightarrow> string \<Rightarrow> string" where
  "recovery_hash e code = sha256 e (strip_spaces (to_lower code))"

definition verifyRecoveryCode :: "env \<Rightarrow> ident \<Rightarrow> string \<Rightarrow> db \<Rightarrow> bool \<times> db" where
  "verifyRecoveryCode e uid code s =
     (let hit = (\<lambda>c. rc_userId c = uid \<and> rc_codeHash c = recovery_hash e code \<and> \<not> rc_used c)
      in (tbl_count hit (recoveryCodes s) > 0,
          s\<lparr> recoveryCodes := tbl_update hit (\<lambda>c. c\<lparr> rc_used := True \<rparr>) (recoveryCodes s) \<rparr>))"

definition getEnrolledFactors :: "ident \<Rightarrow> db \<Rightarrow> string list" where
  "getEnrolledFactors uid s =
     filter (\<lambda>t. list_ex (\<lambda>c. uc_userId c = uid \<and> uc_verified c \<and> uc_type c = t) (userCredentials s))
       SECOND_FACTOR_TYPES"

definition deleteRecoveryCodesIfNoFactorLeft :: "ident \<Rightarrow> db \<Rightarrow> db" where
  "deleteRecoveryCodesIfNoFactorLeft uid s =
     (if getEnrolledFactors uid s = []
      then s\<lparr> recoveryCodes := tbl_delete (\<lambda>c. rc_userId c = uid) (recoveryCodes s) \<rparr> else s)"

definition disableTotp :: "ident \<Rightarrow> db \<Rightarrow> db" where
  "disableTotp uid s =
     deleteRecoveryCodesIfNoFactorLeft uid
       (s\<lparr> userCredentials := tbl_delete (\<lambda>c. uc_userId c = uid \<and> uc_type c = ''totp'') (userCredentials s) \<rparr>)"

definition disableSms :: "ident \<Rightarrow> db \<Rightarrow> db" where
  "disableSms uid s =
     deleteRecoveryCodesIfNoFactorLeft uid
       (s\<lparr> userCredentials := tbl_delete (\<lambda>c. uc_userId c = uid \<and> uc_type c = ''sms'') (userCredentials s),
          otpAttempts := tbl_delete (\<lambda>a. oa_userId a = uid) (otpAttempts s) \<rparr>)"

definition disableAllFactors :: "ident \<Rightarrow> db \<Rightarrow> db" where
  "disableAllFactors uid s =
     s\<lparr> userCredentials := tbl_delete
          (\<lambda>c. uc_userId c = uid \<and> uc_type c \<in> set SECOND_FACTOR_TYPES) (userCredentials s),
        otpAttempts := tbl_delete (\<lambda>a. oa_userId a = uid) (otpAttempts s),
        recoveryCodes := tbl_delete (\<lambda>c. rc_userId c = uid) (recoveryCodes s) \<rparr>"

definition isTotpEnabled :: "ident \<Rightarrow> db \<Rightarrow> bool" where
  "isTotpEnabled uid s =
     (case totp_credential uid s of None \<Rightarrow> False | Some c \<Rightarrow> uc_verified c)"

definition isMfaEnabled :: "ident \<Rightarrow> db \<Rightarrow> bool" where
  "isMfaEnabled uid s \<longleftrightarrow> getEnrolledFactors uid s \<noteq> []"

definition isMfaRequired :: "realm_row \<Rightarrow> ident \<Rightarrow> db \<Rightarrow> bool" where
  "isMfaRequired r uid s \<longleftrightarrow> realm_mfaRequired r \<or> isMfaEnabled uid s"

datatype second_factor_input =
    TotpInput string
  | RecoveryInput string
  | OtpInput string
  | SmsInput (sms_code: string) (sms_realmId: ident) (sms_purpose: string) (sms_binding: string)

fun input_code :: "second_factor_input \<Rightarrow> string" where
  "input_code (TotpInput c) = c"
| "input_code (RecoveryInput c) = c"
| "input_code (OtpInput c) = c"
| "input_code (SmsInput c _ _ _) = c"

text \<open>The result is the factor that was verified, or \<^const>\<open>None\<close> when the answer was refused.\<close>

definition verifySecondFactor ::
  "env \<Rightarrow> ident \<Rightarrow> second_factor_input \<Rightarrow> db \<Rightarrow> string option result \<times> db" where
  "verifySecondFactor e uid input s =
     (let code = js_trim (input_code input) in
      if code = [] then (Inr None, s)
      else case input of
        TotpInput _ \<Rightarrow>
          (let (ok, s1) = verifyTotp e uid code s in (Inr (if ok then Some ''totp'' else None), s1))
      | RecoveryInput _ \<Rightarrow>
          (let (ok, s1) = verifyRecoveryCode e uid code s
           in (Inr (if ok then Some ''recovery'' else None), s1))
      | OtpInput _ \<Rightarrow>
          (let (ok, s1) = verifyTotp e uid code s
           in if ok then (Inr (Some ''totp''), s1)
              else let (ok', s2) = verifyRecoveryCode e uid code s1
                   in (Inr (if ok' then Some ''recovery'' else None), s2))
      | SmsInput _ rid purpose binding \<Rightarrow>
          if \<not> smsOtpService e then (Inr None, s)
          else (case verifyCode e rid uid purpose binding code s of
                  (Inl err, s1) \<Rightarrow> (Inl err, s1)
                | (Inr (VerifyOk _), s1) \<Rightarrow> (Inr (Some ''sms''), s1)
                | (Inr _, s1) \<Rightarrow> (Inr None, s1)))"

subsection \<open>Challenges\<close>

definition is_challenge :: "string \<Rightarrow> pending_action_row \<Rightarrow> bool" where
  "is_challenge h a \<longleftrightarrow> pa_tokenHash a = h \<and> pa_type a = ''mfa_challenge''"

fun json_userId :: "pending_data \<Rightarrow> ident option" where
  "json_userId (OtherPendingData _) = None"
| "json_userId (WebAuthnChallengeData _ _ _) = None"
| "json_userId d = Some (pd_userId d)"

definition createMfaChallenge ::
  "env \<Rightarrow> ident \<Rightarrow> string \<Rightarrow> ident \<Rightarrow> ident \<Rightarrow> (string \<times> string) list option \<Rightarrow> string option \<Rightarrow>
   string list option \<Rightarrow> db \<Rightarrow> string result \<times> db" where
  "createMfaChallenge e newId token uid rid oauthParams clientId primaryAmr s =
     (let windowStart = now e - MFA_CHALLENGE_RATE_LIMIT_WINDOW_SECONDS * 1000;
          recentChallenges = tbl_count (\<lambda>a. pa_type a = ''mfa_challenge'' \<and>
             json_userId (pa_data a) = Some uid \<and> pa_createdAt a \<ge> windowStart) (pendingActions s)
      in if recentChallenges \<ge> MFA_CHALLENGE_RATE_LIMIT_MAX_REQUESTS then (Inl PlainError, s)
         else (Inr token, s\<lparr> pendingActions := pendingActions s @
                [\<lparr> pa_id = newId, pa_tokenHash = sha256 e token, pa_type = ''mfa_challenge'',
                   pa_data = MfaChallengeData uid rid clientId oauthParams primaryAmr, pa_attempts = 0,
                   pa_expiresAt = now e + 5 * 60 * 1000, pa_createdAt = now e \<rparr>] \<rparr>))"

definition delete_pending :: "ident \<Rightarrow> db \<Rightarrow> db" where
  "delete_pending i s = s\<lparr> pendingActions := tbl_delete (\<lambda>a. pa_id a = i) (pendingActions s) \<rparr>"

definition validateMfaChallenge :: "env \<Rightarrow> string \<Rightarrow> db \<Rightarrow> pending_data option \<times> db" where
  "validateMfaChallenge e token s =
     (case pending_by_hash (sha256 e token) s of
        None \<Rightarrow> (None, s)
      | Some a \<Rightarrow>
          if pa_type a \<noteq> ''mfa_challenge'' then (None, s)
          else if pa_expiresAt a < now e then (None, delete_pending (pa_id a) s)
          else (Some (pa_data a), delete_pending (pa_id a) s))"

definition getMfaChallenge :: "env \<Rightarrow> string \<Rightarrow> db \<Rightarrow> pending_data option" where
  "getMfaChallenge e token s =
     (case pending_by_hash (sha256 e token) s of
        None \<Rightarrow> None
      | Some a \<Rightarrow>
          if pa_type a \<noteq> ''mfa_challenge'' then None
          else if pa_expiresAt a < now e then None
          else if pa_attempts a \<ge> MAX_MFA_ATTEMPTS then None
          else Some (pa_data a))"

definition validateMfaChallengeWithAttemptCheck ::
  "env \<Rightarrow> string \<Rightarrow> db \<Rightarrow> pending_data option \<times> db" where
  "validateMfaChallengeWithAttemptCheck e token s =
     (let h = sha256 e token;
          hit = (\<lambda>a. is_challenge h a \<and> pa_expiresAt a > now e \<and> pa_attempts a < MAX_MFA_ATTEMPTS);
          s1 = s\<lparr> pendingActions := tbl_update hit (\<lambda>a. a\<lparr> pa_attempts := pa_attempts a + 1 \<rparr>)
                                     (pendingActions s) \<rparr>
      in if \<not> list_ex hit (pendingActions s)
         then (None, s1\<lparr> pendingActions := tbl_delete (is_challenge h) (pendingActions s1) \<rparr>)
         else (map_option pa_data (pending_by_hash h s1), s1))"

definition consumeMfaChallenge :: "env \<Rightarrow> string \<Rightarrow> db \<Rightarrow> bool \<times> db" where
  "consumeMfaChallenge e token s =
     (tbl_count (is_challenge (sha256 e token)) (pendingActions s) = 1,
      s\<lparr> pendingActions := tbl_delete (is_challenge (sha256 e token)) (pendingActions s) \<rparr>)"

subsection \<open>Enrolment during sign-in\<close>

definition createMfaEnrollment ::
  "env \<Rightarrow> ident \<Rightarrow> string \<Rightarrow> ident \<Rightarrow> ident \<Rightarrow> (string \<times> string) list option \<Rightarrow> bool option \<Rightarrow>
   string list option \<Rightarrow> string option \<Rightarrow> db \<Rightarrow> string \<times> db" where
  "createMfaEnrollment e newId token uid rid oauthParams rememberMe primaryAmr factor s =
     (token, s\<lparr> pendingActions := pendingActions s @
        [\<lparr> pa_id = newId, pa_tokenHash = sha256 e token, pa_type = ''mfa_enrollment'',
           pa_data = MfaEnrollmentData uid rid oauthParams rememberMe primaryAmr False factor,
           pa_attempts = 0, pa_expiresAt = now e + MFA_ENROLLMENT_TTL_SECONDS * 1000,
           pa_createdAt = now e \<rparr>] \<rparr>)"

definition getMfaEnrollment :: "env \<Rightarrow> string \<Rightarrow> db \<Rightarrow> pending_data option" where
  "getMfaEnrollment e token s =
     (case pending_by_hash (sha256 e token) s of
        None \<Rightarrow> None
      | Some a \<Rightarrow>
          if pa_type a \<noteq> ''mfa_enrollment'' then None
          else if pa_expiresAt a < now e then None
          else Some (pa_data a))"

fun set_enrollment_verified :: "string \<Rightarrow> pending_data \<Rightarrow> pending_data" where
  "set_enrollment_verified f (MfaEnrollmentData u r op rm am v f') =
     MfaEnrollmentData u r op rm am True (Some f)"
| "set_enrollment_verified f d = d"

definition markMfaEnrollmentVerified :: "env \<Rightarrow> string \<Rightarrow> string \<Rightarrow> db \<Rightarrow> db" where
  "markMfaEnrollmentVerified e token factor s =
     (case pending_by_hash (sha256 e token) s of
        None \<Rightarrow> s
      | Some a \<Rightarrow>
          if pa_type a \<noteq> ''mfa_enrollment'' then s
          else s\<lparr> pendingActions := tbl_update (\<lambda>x. pa_id x = pa_id a)
                   (\<lambda>x. x\<lparr> pa_data := set_enrollment_verified factor (pa_data a) \<rparr>) (pendingActions s) \<rparr>)"

fun enrollment_verified :: "pending_data \<Rightarrow> bool" where
  "enrollment_verified (MfaEnrollmentData _ _ _ _ _ v _) = v"
| "enrollment_verified _ = False"

definition consumeVerifiedMfaEnrollment :: "env \<Rightarrow> string \<Rightarrow> db \<Rightarrow> pending_data option \<times> db" where
  "consumeVerifiedMfaEnrollment e token s =
     (let h = sha256 e token;
          s1 = s\<lparr> pendingActions := tbl_delete (\<lambda>a. pa_tokenHash a = h) (pendingActions s) \<rparr>
      in case pending_by_hash h s of
           None \<Rightarrow> (None, s)
         | Some a \<Rightarrow>
             if pa_type a \<noteq> ''mfa_enrollment'' then (None, s1)
             else if pa_expiresAt a < now e then (None, s1)
             else if enrollment_verified (pa_data a) then (Some (pa_data a), s1)
             else (None, s1))"

definition cleanupExpiredActions :: "env \<Rightarrow> db \<Rightarrow> db" where
  "cleanupExpiredActions e s =
     s\<lparr> pendingActions := tbl_delete
          (\<lambda>a. pa_type a \<in> set [''mfa_challenge'', ''mfa_enrollment'', ''sms_enrollment''] \<and>
               pa_expiresAt a < now e) (pendingActions s),
        usedTotpCodes := tbl_delete (\<lambda>r. ut_expiresAt r < now e) (usedTotpCodes s) \<rparr>"

subsection \<open>Replay protection of authenticator codes\<close>

text \<open>
  A code is burned until \<open>X\<close> when the database holds a use of it that lasts until \<open>X\<close> and the process-local
  map, which is consulted first, does not say otherwise.  Burned codes are refused whatever Redis
  does, and stay burned under every operation before \<open>X\<close>.
\<close>

definition burned :: "(string \<Rightarrow> string) \<Rightarrow> millis \<Rightarrow> ident \<Rightarrow> string \<Rightarrow> db \<Rightarrow> bool" where
  "burned h X uid code s \<longleftrightarrow>
     (\<exists>r \<in> set (usedTotpCodes s). ut_userId r = uid \<and> ut_codeHash r = h code \<and> X \<le> ut_expiresAt r) \<and>
     (\<forall>t. mem_get (totp_key uid code) s = Some t \<longrightarrow> X \<le> t)"

lemma mem_get_simps [simp]:
  "mem_get k (mem_set k' t s) = (if k = k' then Some t else mem_get k s)"
  "mem_get k (mem_delete k' s) = (if k = k' then None else mem_get k s)"
  "usedTotpCodes (mem_set k' t s) = usedTotpCodes s" "usedTotpCodes (mem_delete k' s) = usedTotpCodes s"
proof -
  have "map_of (filter (\<lambda>k. fst k \<noteq> k') xs) k = (if k = k' then None else map_of xs k)"
    for xs :: "(string \<times> millis) list"
    by (induction xs) auto
  then show "mem_get k (mem_set k' t s) = (if k = k' then Some t else mem_get k s)"
    "mem_get k (mem_delete k' s) = (if k = k' then None else mem_get k s)"
    by (auto simp: mem_get_def mem_set_def mem_delete_def)
qed (simp_all add: mem_set_def mem_delete_def)

lemma redis_set_frame:
  "redis_set e k t s = Some s' \<Longrightarrow> usedTotpCodes s' = usedTotpCodes s \<and> mem_get k' s' = mem_get k' s"
  by (auto simp: redis_set_def mem_get_def split: redis_mode.splits)

lemma redis_set_else_frame [simp]:
  "usedTotpCodes (nullish_else (redis_set e k t s) s) = usedTotpCodes s"
  "mem_get k' (nullish_else (redis_set e k t s) s) = mem_get k' s"
  by (auto simp: redis_set_def mem_get_def split: redis_mode.split)

lemma mem_get_usedTotpCodes_update [simp]: "mem_get k (s\<lparr> usedTotpCodes := u \<rparr>) = mem_get k s"
  by (simp add: mem_get_def)

lemma mark_frame:
  "usedTotpCodes (markTotpCodeUsed e uid code s) = usedTotpCodes s @
     [\<lparr> ut_userId = uid, ut_codeHash = sha256 e code, ut_expiresAt = now e + 90000 \<rparr>]"
  "mem_get k (markTotpCodeUsed e uid code s) = mem_get k s \<or>
   (k = totp_key uid code \<and> mem_get k (markTotpCodeUsed e uid code s) = Some (now e + 90000))"
  using redis_set_frame
  by (auto simp: markTotpCodeUsed_def Let_def TOTP_USED_CODE_TTL_SECONDS_def split: option.split)

lemma isTotpCodeUsed_frame:
  assumes "isTotpCodeUsed e uid code s = (used, s1)"
  shows "usedTotpCodes s1 = usedTotpCodes s"
    and "mem_get k s1 = mem_get k s \<or>
         (k = totp_key uid code \<and> mem_get k s1 = None \<and> (\<exists>t. mem_get k s = Some t \<and> t < now e))"
proof -
  show "usedTotpCodes s1 = usedTotpCodes s"
    using assms by (auto simp: isTotpCodeUsed_def Let_def split: if_splits option.splits)
  show "mem_get k s1 = mem_get k s \<or>
         (k = totp_key uid code \<and> mem_get k s1 = None \<and> (\<exists>t. mem_get k s = Some t \<and> t < now e))"
    using assms by (auto simp: isTotpCodeUsed_def Let_def split: if_splits option.splits)
qed

lemma burned_is_used:
  assumes "burned (sha256 e) X uid code s" and "now e < X"
  shows "fst (isTotpCodeUsed e uid code s)"
  using assms by (fastforce simp: burned_def isTotpCodeUsed_def Let_def list_ex_iff split: option.split)

lemma burned_refused:
  assumes "burned (sha256 e) X uid code s" and "now e < X"
  shows "\<not> fst (verifyTotp e uid code s)"
  using burned_is_used [OF assms]
  by (auto simp: verifyTotp_def split: option.split prod.split)

lemma not_used_mem:
  assumes "isTotpCodeUsed e uid code s = (False, s1)"
  shows "mem_get (totp_key uid code) s1 = None"
  using assms by (auto simp: isTotpCodeUsed_def Let_def split: if_splits option.splits)

lemma accepted_burns:
  assumes "fst (verifyTotp e uid code s)" and "X \<le> now e + 90000"
  shows "burned (sha256 e) X uid code (snd (verifyTotp e uid code s))"
proof -
  from assms(1) obtain s1 where u: "isTotpCodeUsed e uid code s = (False, s1)"
    and v: "snd (verifyTotp e uid code s) = markTotpCodeUsed e uid code s1"
    by (cases "isTotpCodeUsed e uid code s")
       (auto simp: verifyTotp_def split: option.splits if_splits)
  show ?thesis
    unfolding v burned_def mark_frame
    using assms(2) mark_frame(2) [of "totp_key uid code" e uid code s1] not_used_mem [OF u] by auto
qed

lemma burned_verifyTotp:
  assumes "burned h X uid code s" and "now e < X" and "X \<le> now e + 90000"
  shows "burned h X uid code (snd (verifyTotp e uid' code' s))"
proof -
  obtain used s1 where u: "isTotpCodeUsed e uid' code' s = (used, s1)" by fastforce
  have b1: "burned h X uid code s1"
    using assms(1,2) isTotpCodeUsed_frame(1) [OF u]
      isTotpCodeUsed_frame(2) [OF u, of "totp_key uid code"] by (auto simp: burned_def)
  have "burned h X uid code (markTotpCodeUsed e uid' code' s1)"
    using b1 assms(3) mark_frame(2) [of "totp_key uid code" e uid' code' s1]
    unfolding burned_def mark_frame(1) by auto
  with b1 u assms(1) show ?thesis by (auto simp: verifyTotp_def split: option.split)
qed

lemma burned_cleanup:
  assumes "burned h X uid code s" and "now e < X"
  shows "burned h X uid code (cleanupExpiredActions e s)"
  using assms by (fastforce simp: burned_def cleanupExpiredActions_def mem_get_def)

text \<open>
  The operations that may run between two uses of a code: checks of any user's codes and the clean-up,
  inside the 90 seconds before \<open>X\<close>.
\<close>

definition in_window :: "millis \<Rightarrow> env \<Rightarrow> bool" where
  "in_window X e \<longleftrightarrow> X - 90000 \<le> now e \<and> now e < X"

definition totp_ops :: "millis \<Rightarrow> (db \<Rightarrow> db) set" where
  "totp_ops X = {f. \<exists>e uid code. in_window X e \<and> f = (\<lambda>s. snd (verifyTotp e uid code s))} \<union>
                {f. \<exists>e. in_window X e \<and> f = cleanupExpiredActions e}"

definition totp_claim ::
  "(string \<Rightarrow> string) \<Rightarrow> millis \<Rightarrow> ident \<Rightarrow> string \<Rightarrow> env \<Rightarrow> db \<Rightarrow> bool \<times> db" where
  "totp_claim h X uid code e s =
     (if in_window X e \<and> sha256 e = h then verifyTotp e uid code s else (False, s))"

interpretation totp_replay: single_use "totp_claim h X uid code" "\<lambda>s. \<not> burned h X uid code s" "totp_ops X"
  for h X uid code
proof unfold_locales
  fix e s f
  show "fst (totp_claim h X uid code e s) \<Longrightarrow> \<not> burned h X uid code s"
    using burned_refused [of e X uid code s] by (auto simp: totp_claim_def in_window_def split: if_splits)
  show "fst (totp_claim h X uid code e s) \<Longrightarrow> \<not> \<not> burned h X uid code (snd (totp_claim h X uid code e s))"
    using accepted_burns [of e uid code s X]
    by (auto simp: totp_claim_def in_window_def split: if_splits)
  show "\<not> \<not> burned h X uid code s \<Longrightarrow> \<not> \<not> burned h X uid code (snd (totp_claim h X uid code e s))"
    using burned_verifyTotp [of h X uid code s e uid code]
    by (auto simp: totp_claim_def in_window_def)
  show "f \<in> totp_ops X \<Longrightarrow> \<not> \<not> burned h X uid code s \<Longrightarrow> \<not> \<not> burned h X uid code (f s)"
    using burned_verifyTotp [of h X uid code s] burned_cleanup [of h X uid code s]
    by (auto simp: totp_ops_def in_window_def)
qed

subsection \<open>Budgets of a challenge\<close>

definition challenge_budget :: "string \<Rightarrow> db \<Rightarrow> nat" where
  "challenge_budget h s =
     sum_list (map (\<lambda>a. if is_challenge h a then nat (MAX_MFA_ATTEMPTS - pa_attempts a) else 0)
                (pendingActions s))"

definition challenge_live :: "string \<Rightarrow> db \<Rightarrow> bool" where
  "challenge_live h s \<longleftrightarrow> list_ex (is_challenge h) (pendingActions s)"

text \<open>Every other operation on pending actions; a new challenge has a token of its own.\<close>

definition challenge_ops :: "string \<Rightarrow> (db \<Rightarrow> db) set" where
  "challenge_ops h =
     {cleanupExpiredActions e | e. True} \<union>
     {(\<lambda>s. snd (createMfaChallenge e i t u r op c am s)) | e i t u r op c am. sha256 e t \<noteq> h} \<union>
     {(\<lambda>s. snd (validateMfaChallengeWithAttemptCheck e t s)) | e t. True} \<union>
     {(\<lambda>s. snd (consumeMfaChallenge e t s)) | e t. True} \<union>
     {(\<lambda>s. snd (validateMfaChallenge e t s)) | e t. True} \<union>
     {(\<lambda>s. snd (createMfaEnrollment e i t u r op rm am f s)) | e i t u r op rm am f. True} \<union>
     {markMfaEnrollmentVerified e t f | e t f. True} \<union>
     {(\<lambda>s. snd (consumeVerifiedMfaEnrollment e t s)) | e t. True}"

lemma challenge_data_update [simp]:
  "is_challenge h (a\<lparr> pa_data := d \<rparr>) = is_challenge h a"
  "is_challenge h (a\<lparr> pa_attempts := n \<rparr>) = is_challenge h a"
  by (simp_all add: is_challenge_def)

text \<open>
  An operation that only deletes pending actions, changes data or counts attempts up, or appends a
  row that is no challenge for \<open>h\<close>, gives no attempts back and revives nothing.
\<close>

definition weakens :: "string \<Rightarrow> db \<Rightarrow> db \<Rightarrow> bool" where
  "weakens h s s' \<longleftrightarrow> challenge_budget h s' \<le> challenge_budget h s \<and>
     (\<not> challenge_live h s \<longrightarrow> \<not> challenge_live h s')"

lemma weakens_refl [intro, simp]: "weakens h s s"
  by (simp add: weakens_def)

lemma weakens_trans: "weakens h s s' \<Longrightarrow> weakens h s' s'' \<Longrightarrow> weakens h s s''"
  by (auto simp: weakens_def)

lemma weakens_delete [intro]: "weakens h s (s\<lparr> pendingActions := tbl_delete p (pendingActions s) \<rparr>)"
  by (simp add: weakens_def challenge_budget_def challenge_live_def sum_list_delete_le list_ex_iff)

lemma weakens_update:
  assumes "\<And>a. is_challenge h (f a) = is_challenge h a" and "\<And>a. pa_attempts a \<le> pa_attempts (f a)"
  shows "weakens h s (s\<lparr> pendingActions := tbl_update p f (pendingActions s) \<rparr>)"
proof -
  have "challenge_budget h (s\<lparr> pendingActions := tbl_update p f (pendingActions s) \<rparr>) \<le> challenge_budget h s"
    unfolding challenge_budget_def using assms
    by (simp, intro sum_list_update_le) (auto intro: nat_mono)
  moreover have "\<not> challenge_live h s \<Longrightarrow>
      \<not> challenge_live h (s\<lparr> pendingActions := tbl_update p f (pendingActions s) \<rparr>)"
    using assms(1) by (auto simp: challenge_live_def list_ex_iff set_tbl_update)
  ultimately show ?thesis by (simp add: weakens_def)
qed

lemma weakens_append:
  "\<not> is_challenge h a \<Longrightarrow> weakens h s (s\<lparr> pendingActions := pendingActions s @ [a] \<rparr>)"
  by (simp add: weakens_def challenge_budget_def challenge_live_def)

lemma weakens_cleanup: "weakens h s (cleanupExpiredActions e s)"
  by (simp add: weakens_def cleanupExpiredActions_def challenge_budget_def challenge_live_def
      sum_list_delete_le list_ex_iff)

lemma weakens_attempt: "weakens h s (snd (validateMfaChallengeWithAttemptCheck e t s))"
proof -
  let ?hit = "\<lambda>a. is_challenge (sha256 e t) a \<and> pa_expiresAt a > now e \<and> pa_attempts a < MAX_MFA_ATTEMPTS"
  let ?s1 = "s\<lparr> pendingActions := tbl_update ?hit (\<lambda>a. a\<lparr> pa_attempts := pa_attempts a + 1 \<rparr>)
                  (pendingActions s) \<rparr>"
  have "weakens h s ?s1" by (rule weakens_update) simp_all
  moreover have "weakens h ?s1 (snd (validateMfaChallengeWithAttemptCheck e t s))"
    using weakens_delete [of h ?s1 "is_challenge (sha256 e t)"]
    by (simp add: validateMfaChallengeWithAttemptCheck_def Let_def)
  ultimately show ?thesis by (rule weakens_trans)
qed

lemma weakens_create:
  "sha256 e t \<noteq> h \<Longrightarrow> weakens h s (snd (createMfaChallenge e i t u r op c am s))"
  by (simp add: createMfaChallenge_def Let_def is_challenge_def weakens_append)

lemma weakens_others:
  "weakens h s (snd (createMfaEnrollment e i t u r op rm am f s))"
  "weakens h s (snd (consumeMfaChallenge e t s))"
  "weakens h s (snd (validateMfaChallenge e t s))"
  "weakens h s (snd (consumeVerifiedMfaEnrollment e t s))"
  by (auto simp: createMfaEnrollment_def consumeMfaChallenge_def validateMfaChallenge_def
      delete_pending_def consumeVerifiedMfaEnrollment_def Let_def is_challenge_def
      intro: weakens_append split: option.split)

lemma weakens_mark: "weakens h s (markMfaEnrollmentVerified e t f s)"
  by (auto simp: markMfaEnrollmentVerified_def intro: weakens_update split: option.split)

lemma challenge_ops_weaken: "f \<in> challenge_ops h \<Longrightarrow> weakens h s (f s)"
  unfolding challenge_ops_def
  by (elim UnE CollectE exE conjE; hypsubst)
     (rule weakens_cleanup weakens_attempt weakens_create weakens_others weakens_mark | assumption)+

definition attempt_accepted :: "string \<Rightarrow> env \<Rightarrow> db \<Rightarrow> bool \<times> db" where
  "attempt_accepted token e s =
     (let (r, s') = validateMfaChallengeWithAttemptCheck e token s in (r \<noteq> None, s'))"

lemma attempt_spends:
  assumes "fst (attempt_accepted token e s)"
  shows "challenge_budget (sha256 e token) (snd (attempt_accepted token e s))
       < challenge_budget (sha256 e token) s"
proof -
  let ?h = "sha256 e token"
  let ?hit = "\<lambda>a. is_challenge ?h a \<and> pa_expiresAt a > now e \<and> pa_attempts a < MAX_MFA_ATTEMPTS"
  let ?s1 = "s\<lparr> pendingActions := tbl_update ?hit (\<lambda>a. a\<lparr> pa_attempts := pa_attempts a + 1 \<rparr>)
                  (pendingActions s) \<rparr>"
  have ex: "list_ex ?hit (pendingActions s)"
    using assms by (rule contrapos_pp)
      (simp add: attempt_accepted_def validateMfaChallengeWithAttemptCheck_def Let_def)
  then have s': "snd (attempt_accepted token e s) = ?s1"
    by (simp add: attempt_accepted_def validateMfaChallengeWithAttemptCheck_def Let_def)
  have pa: "pendingActions ?s1 = tbl_update ?hit (\<lambda>a. a\<lparr> pa_attempts := pa_attempts a + 1 \<rparr>)
      (pendingActions s)" by simp
  show ?thesis
    unfolding s' challenge_budget_def pa
  proof (rule sum_list_update_less [OF _ ex])
    fix x :: pending_action_row
    assume "?hit x"
    then show "(if is_challenge ?h (x\<lparr> pa_attempts := pa_attempts x + 1 \<rparr>)
          then nat (MAX_MFA_ATTEMPTS - pa_attempts (x\<lparr> pa_attempts := pa_attempts x + 1 \<rparr>)) else 0)
        < (if is_challenge ?h x then nat (MAX_MFA_ATTEMPTS - pa_attempts x) else 0)"
      by simp
  qed
qed

definition guarded :: "string \<Rightarrow> string \<Rightarrow> (env \<Rightarrow> db \<Rightarrow> bool \<times> db) \<Rightarrow> env \<Rightarrow> db \<Rightarrow> bool \<times> db" where
  "guarded h token c e s = (if sha256 e token = h then c e s else (False, s))"

interpretation challenge_attempts:
  bounded_use "guarded h token (attempt_accepted token)" "challenge_budget h" "challenge_ops h"
  for h token
proof unfold_locales
  fix e s f
  show "fst (guarded h token (attempt_accepted token) e s) \<Longrightarrow>
      challenge_budget h (snd (guarded h token (attempt_accepted token) e s)) < challenge_budget h s"
    using attempt_spends [of token e s] by (auto simp: guarded_def split: if_splits)
  show "\<not> fst (guarded h token (attempt_accepted token) e s) \<Longrightarrow>
      challenge_budget h (snd (guarded h token (attempt_accepted token) e s)) \<le> challenge_budget h s"
    using weakens_attempt [of h s e token]
    by (auto simp: guarded_def attempt_accepted_def weakens_def split: prod.splits)
  show "f \<in> challenge_ops h \<Longrightarrow> challenge_budget h (f s) \<le> challenge_budget h s"
    using challenge_ops_weaken by (simp add: weakens_def)
qed

lemma consume_kills: "\<not> challenge_live (sha256 e token) (snd (consumeMfaChallenge e token s))"
  by (auto simp: consumeMfaChallenge_def challenge_live_def list_ex_iff)

interpretation challenge_consumption:
  single_use "guarded h token (\<lambda>e. consumeMfaChallenge e token)" "challenge_live h" "challenge_ops h"
  for h token
proof unfold_locales
  fix e s f
  have one: "tbl_count p xs = 1 \<Longrightarrow> list_ex p xs" for p and xs :: "pending_action_row list"
    by (auto simp: list_ex_iff tbl_count_def filter_empty_conv dest!: arg_cong [where f = "\<lambda>x. x = 0"])
  show "fst (guarded h token (\<lambda>e. consumeMfaChallenge e token) e s) \<Longrightarrow> challenge_live h s"
    using one by (auto simp: guarded_def consumeMfaChallenge_def challenge_live_def split: if_splits)
  show "fst (guarded h token (\<lambda>e. consumeMfaChallenge e token) e s) \<Longrightarrow>
      \<not> challenge_live h (snd (guarded h token (\<lambda>e. consumeMfaChallenge e token) e s))"
    using consume_kills [of e token s] by (auto simp: guarded_def split: if_splits)
  show "\<not> challenge_live h s \<Longrightarrow>
      \<not> challenge_live h (snd (guarded h token (\<lambda>e. consumeMfaChallenge e token) e s))"
    using consume_kills [of e token s] by (auto simp: guarded_def)
  show "f \<in> challenge_ops h \<Longrightarrow> \<not> challenge_live h s \<Longrightarrow> \<not> challenge_live h (f s)"
    using challenge_ops_weaken by (simp add: weakens_def)
qed

lemma challenge_budget_le:
  assumes "tbl_count (is_challenge h) (pendingActions s) \<le> 1"
    and "\<forall>a \<in> set (pendingActions s). 0 \<le> pa_attempts a"
  shows "challenge_budget h s \<le> 5"
proof -
  have "\<forall>a \<in> set xs. 0 \<le> pa_attempts a \<Longrightarrow>
    int (sum_list (map (\<lambda>a. if is_challenge h a then nat (MAX_MFA_ATTEMPTS - pa_attempts a) else 0) xs))
      \<le> 5 * tbl_count (is_challenge h) xs" for xs :: "pending_action_row list"
    by (induction xs) (auto simp: MAX_MFA_ATTEMPTS_def)
  from this [of "pendingActions s"] assms show ?thesis by (simp add: challenge_budget_def)
qed

subsection \<open>Recovery codes are spent\<close>

definition recovery_live :: "ident \<Rightarrow> string \<Rightarrow> db \<Rightarrow> bool" where
  "recovery_live uid h s \<longleftrightarrow>
     list_ex (\<lambda>c. rc_userId c = uid \<and> rc_codeHash c = h \<and> \<not> rc_used c) (recoveryCodes s)"

text \<open>
  The other operations on recovery codes: answers with any code, the removal of factors, and new codes for
  any user as long as none of them hashes to \<open>h\<close>.
\<close>

definition recovery_ops :: "string \<Rightarrow> (db \<Rightarrow> db) set" where
  "recovery_ops h =
     {(\<lambda>s. snd (verifyRecoveryCode e u c s)) | e u c. True} \<union>
     {(\<lambda>s. snd (generateRecoveryCodes e sec u s)) | e sec u.
        \<forall>i. sha256 e (to_lower (to_upper (sec i))) \<noteq> h} \<union>
     {disableTotp u | u. True} \<union> {disableSms u | u. True} \<union> {disableAllFactors u | u. True}"

lemma recovery_delete_dead:
  "\<not> recovery_live uid h s \<Longrightarrow> \<not> recovery_live uid h (s\<lparr> recoveryCodes := tbl_delete p (recoveryCodes s) \<rparr>)"
  by (auto simp: recovery_live_def list_ex_iff)

lemma recovery_live_cong:
  "recoveryCodes s = recoveryCodes s' \<Longrightarrow> recovery_live uid h s = recovery_live uid h s'"
  by (simp add: recovery_live_def)

lemma recovery_use_dead:
  "\<not> recovery_live uid h s \<Longrightarrow> \<not> recovery_live uid h (snd (verifyRecoveryCode e u c s))"
  by (auto simp: recovery_live_def verifyRecoveryCode_def Let_def list_ex_iff set_tbl_update)

lemma recovery_use_kills:
  "\<not> recovery_live uid (recovery_hash e c) (snd (verifyRecoveryCode e uid c s))"
  by (simp add: recovery_live_def verifyRecoveryCode_def Let_def list_ex_tbl_update_none)

lemma recovery_generate_dead:
  assumes "\<And>i. sha256 e (to_lower (to_upper (sec i))) \<noteq> h" and "\<not> recovery_live uid h s"
  shows "\<not> recovery_live uid h (snd (generateRecoveryCodes e sec u s))"
  using assms(2)
  by (auto simp: recovery_live_def generateRecoveryCodes_def Let_def list_ex_iff) (use assms(1) in blast)

lemma recovery_disable_dead:
  assumes "\<not> recovery_live uid h s"
  shows "\<not> recovery_live uid h (disableTotp u s)" "\<not> recovery_live uid h (disableSms u s)"
    "\<not> recovery_live uid h (disableAllFactors u s)"
  using assms by (auto simp: recovery_live_def disableTotp_def disableSms_def disableAllFactors_def
      deleteRecoveryCodesIfNoFactorLeft_def list_ex_iff)

lemma recovery_ops_dead: "f \<in> recovery_ops h \<Longrightarrow> \<not> recovery_live uid h s \<Longrightarrow> \<not> recovery_live uid h (f s)"
  unfolding recovery_ops_def
  by (elim UnE CollectE exE conjE; hypsubst)
     (rule recovery_use_dead recovery_generate_dead recovery_disable_dead; simp)+

text \<open>An answer is a request environment with the code as the user typed it.\<close>

definition recovery_claim :: "ident \<Rightarrow> string \<Rightarrow> env \<times> string \<Rightarrow> db \<Rightarrow> bool \<times> db" where
  "recovery_claim uid h a s =
     (if recovery_hash (fst a) (snd a) = h then verifyRecoveryCode (fst a) uid (snd a) s else (False, s))"

interpretation recovery_use: single_use "recovery_claim uid h" "recovery_live uid h" "recovery_ops h"
  for uid h
proof unfold_locales
  fix a s f
  show "fst (recovery_claim uid h a s) \<Longrightarrow> recovery_live uid h s"
    by (auto simp: recovery_claim_def verifyRecoveryCode_def Let_def recovery_live_def list_ex_count
        split: if_splits)
  show "fst (recovery_claim uid h a s) \<Longrightarrow> \<not> recovery_live uid h (snd (recovery_claim uid h a s))"
    using recovery_use_kills [of uid "fst a" "snd a" s] by (auto simp: recovery_claim_def split: if_splits)
  show "\<not> recovery_live uid h s \<Longrightarrow> \<not> recovery_live uid h (snd (recovery_claim uid h a s))"
    using recovery_use_dead by (simp add: recovery_claim_def)
  show "f \<in> recovery_ops h \<Longrightarrow> \<not> recovery_live uid h s \<Longrightarrow> \<not> recovery_live uid h (f s)"
    by (rule recovery_ops_dead)
qed

subsection \<open>What an accepted answer proves\<close>

lemma verifyTotp_sound:
  assumes "verifyTotp e uid code s = (True, s')"
  shows "\<exists>c. totp_credential uid s = Some c \<and> uc_verified c \<and> totp_validate e c code (now e)"
  using assms by (auto simp: verifyTotp_def split: option.splits if_splits prod.splits)

lemma verifyTotp_recovery_frame: "recoveryCodes (snd (verifyTotp e uid code s)) = recoveryCodes s"
proof -
  have rs: "redis_set e k n x = Some y \<Longrightarrow> recoveryCodes y = recoveryCodes x" for k n x y
    by (auto simp: redis_set_def split: redis_mode.splits)
  have mark: "recoveryCodes (markTotpCodeUsed e uid code x) = recoveryCodes x" for x
    by (auto simp: markTotpCodeUsed_def Let_def mem_set_def split: option.split dest: rs)
  have "isTotpCodeUsed e uid code s = (used, s1) \<Longrightarrow> recoveryCodes s1 = recoveryCodes s" for used s1
    by (auto simp: isTotpCodeUsed_def Let_def mem_delete_def nullish_else_def
        split: if_splits option.splits dest: rs)
  with mark show ?thesis by (auto simp: verifyTotp_def split: option.split prod.split)
qed

lemma verifyRecoveryCode_sound:
  "fst (verifyRecoveryCode e uid code s) \<Longrightarrow> recovery_live uid (recovery_hash e code) s"
  by (simp add: verifyRecoveryCode_def Let_def recovery_live_def list_ex_count)

lemma reserve_guess_row:
  assumes "reserve_guess (oa_id row) t s = (True, s')" and "distinct (map oa_id (otpAttempts s))"
    and "row \<in> set (otpAttempts s)"
  shows "oa_attempts row < SMS_OTP_MAX_ATTEMPTS \<and> t < oa_expiresAt row"
proof -
  from assms(1) obtain x where "x \<in> set (otpAttempts s)" "oa_id x = oa_id row"
    "oa_attempts x < SMS_OTP_MAX_ATTEMPTS" "t < oa_expiresAt x"
    by (auto simp: reserve_guess_def Let_def list_ex_iff)
  with distinct_id_eq [OF assms(2) _ assms(3)] show ?thesis by auto
qed

lemma verifyCode_sound:
  assumes "verifyCode e rid uid purpose binding code s = (Inr (VerifyOk p), s')" and "otp_table_ok s"
  shows "\<exists>row. find_otp purpose (otp_bindingHash e purpose binding) s = Some row \<and>
    oa_userId row = uid \<and> oa_realmId row = rid \<and> oa_attempts row < SMS_OTP_MAX_ATTEMPTS \<and>
    now e < oa_expiresAt row \<and> code_matches e code row"
proof -
  let ?found = "find_otp purpose (otp_bindingHash e purpose binding) s"
  from assms(1) obtain row where row: "?found = Some row" "oa_userId row = uid" "oa_realmId row = rid"
    by (cases ?found) (auto simp: verifyCode_def row_applies_def split: if_splits)
  obtain ok s1 where rg: "reserve_guess (oa_id row) (now e) s = (ok, s1)" by fastforce
  with assms(1) row have "ok \<and> code_matches e code row"
    by (auto simp: verifyCode_def row_applies_def Let_def split: if_splits)
  with row rg reserve_guess_row [of row "now e" s s1] assms(2) show ?thesis
    by (auto simp: otp_table_ok_def find_otp_def dest: find_SomeD)
qed

subsection \<open>Properties\<close>

text \<open>
  C2. However many requests answer an MFA challenge, and whatever else happens to the pending actions in
  between, at most five answers to one challenge are admitted to verification, and at most one
  of them can claim the challenge.
\<close>

theorem mfa_challenge_bounded:
  assumes "others_in (challenge_ops h) es" and "\<And>e. Attempt e \<in> set es \<Longrightarrow> sha256 e token = h"
    and "tbl_count (is_challenge h) (pendingActions s) \<le> 1"
    and "\<forall>a \<in> set (pendingActions s). 0 \<le> pa_attempts a"
  shows "grants (attempt_accepted token) es s \<le> 5 \<and>
         grants (\<lambda>e. consumeMfaChallenge e token) es s \<le> 1"
proof -
  have g: "grants c es s = grants (guarded h token c) es s" for c
    using assms(2) by (intro grants_cong) (simp add: guarded_def)
  show ?thesis
    unfolding g [of "attempt_accepted token"] g [of "\<lambda>e. consumeMfaChallenge e token"]
    using challenge_attempts.grants_le_budget [OF assms(1), of token s] challenge_budget_le [OF assms(3,4)]
      challenge_consumption.granted_at_most_once [OF assms(1), of token s] by linarith
qed

definition mfa_db :: db where
  "mfa_db = snd (createMfaChallenge sample_env ''pa1'' ''tok'' ''u1'' ''r1'' None (Some ''app'') None sample_db)"

theorem mfa_challenge_bounded_witness:
  "grants (attempt_accepted ''tok'')
     [Attempt sample_env, Attempt sample_env, Other (cleanupExpiredActions sample_env), Attempt sample_env] mfa_db \<le> 5 \<and>
   grants (\<lambda>e. consumeMfaChallenge e ''tok'')
     [Attempt sample_env, Attempt sample_env, Other (cleanupExpiredActions sample_env), Attempt sample_env] mfa_db \<le> 1"
  by (rule mfa_challenge_bounded [of "''tok''"])
    (auto simp: others_in_def challenge_ops_def sample_defs mfa_db_def createMfaChallenge_def Let_def
      MFA_CHALLENGE_RATE_LIMIT_MAX_REQUESTS_def is_challenge_def)


definition totp_db :: db where
  "totp_db = sample_db\<lparr> userCredentials := [\<lparr> uc_id = ''c1'', uc_userId = ''u1'', uc_type = ''totp'',
     uc_secretKey = ''123456'', uc_phoneNumber = None, uc_digits = 6, uc_period = 30,
     uc_verified = True \<rparr>] \<rparr>"


text \<open>
  A recovery code works once: a code that was just generated is accepted however the user types it
  (upper or lower case, with spaces), and of all the answers with that code in any later run at
  most one is accepted.
\<close>

theorem recovery_code_single_use:
  assumes "generateRecoveryCodes e sec uid s = (codes, s')" and "code \<in> set codes"
    and "strip_spaces (to_lower typed) = to_lower code"
    and "others_in (recovery_ops (sha256 e (to_lower code))) es"
    and "\<And>a. Attempt a \<in> set es \<Longrightarrow> recovery_hash (fst a) (snd a) = sha256 e (to_lower code)"
  shows "fst (verifyRecoveryCode e uid typed s') \<and>
         grants (\<lambda>a. verifyRecoveryCode (fst a) uid (snd a)) es s' \<le> 1"
proof
  have "recovery_live uid (sha256 e (to_lower code)) s'"
    using assms(1,2) by (force simp: generateRecoveryCodes_def Let_def recovery_live_def list_ex_iff)
  then show "fst (verifyRecoveryCode e uid typed s')"
    using assms(3) by (simp add: verifyRecoveryCode_def Let_def recovery_hash_def recovery_live_def list_ex_count)
  have "grants (\<lambda>a. verifyRecoveryCode (fst a) uid (snd a)) es s'
      = grants (recovery_claim uid (sha256 e (to_lower code))) es s'"
    using assms(5) by (intro grants_cong) (simp add: recovery_claim_def)
  then show "grants (\<lambda>a. verifyRecoveryCode (fst a) uid (snd a)) es s' \<le> 1"
    using recovery_use.granted_at_most_once [OF assms(4)] by simp
qed

theorem recovery_code_single_use_witness:
  "fst (verifyRecoveryCode sample_env ''u1'' ''ab 0c''
          (snd (generateRecoveryCodes sample_env (\<lambda>i. ''ab0c'') ''u1'' sample_db))) \<and>
   grants (\<lambda>a. verifyRecoveryCode (fst a) ''u1'' (snd a))
     [Attempt (sample_env, ''ab0c''), Attempt (sample_env, ''AB0C'')]
     (snd (generateRecoveryCodes sample_env (\<lambda>i. ''ab0c'') ''u1'' sample_db)) \<le> 1"
proof (rule recovery_code_single_use [where code = "''AB0C''" and s = sample_db])
  show "generateRecoveryCodes sample_env (\<lambda>i. ''ab0c'') ''u1'' sample_db
      = (fst (generateRecoveryCodes sample_env (\<lambda>i. ''ab0c'') ''u1'' sample_db),
         snd (generateRecoveryCodes sample_env (\<lambda>i. ''ab0c'') ''u1'' sample_db))" by simp
  show "''AB0C'' \<in> set (fst (generateRecoveryCodes sample_env (\<lambda>i. ''ab0c'') ''u1'' sample_db))" by code_simp
  show "strip_spaces (to_lower ''ab 0c'') = to_lower ''AB0C''" by code_simp
  have "recovery_hash sample_env ''ab0c'' = sha256 sample_env (to_lower ''AB0C'')"
    "recovery_hash sample_env ''AB0C'' = sha256 sample_env (to_lower ''AB0C'')" by code_simp+
  then show "recovery_hash (fst a) (snd a) = sha256 sample_env (to_lower ''AB0C'')"
    if "Attempt a \<in> set [Attempt (sample_env, ''ab0c''), Attempt (sample_env, ''AB0C'')]"
    for a :: "env \<times> string" using that by auto
qed (simp add: others_in_def)

text \<open>
  An answer is accepted as a second factor only on evidence that belongs to the user: a verified
  authenticator whose current code it is, an unused recovery code of the user, or a text-message
  code sent to this user for this very flow that has neither expired nor run out of guesses.
\<close>

theorem second_factor_sound:
  assumes "verifySecondFactor e uid input s = (Inr (Some f), s')" and "otp_table_ok s"
  shows "let code = js_trim (input_code input) in
    (f = ''totp'' \<and> (\<exists>c. totp_credential uid s = Some c \<and> uc_verified c \<and> totp_validate e c code (now e))) \<or>
    (f = ''recovery'' \<and> recovery_live uid (recovery_hash e code) s) \<or>
    (f = ''sms'' \<and> (\<exists>row. find_otp (sms_purpose input)
         (otp_bindingHash e (sms_purpose input) (sms_binding input)) s = Some row \<and>
       oa_userId row = uid \<and> oa_realmId row = sms_realmId input \<and>
       oa_attempts row < SMS_OTP_MAX_ATTEMPTS \<and> now e < oa_expiresAt row \<and> code_matches e code row))"
proof -
  let ?code = "js_trim (input_code input)"
  have ne: "?code \<noteq> []" using assms(1) by (auto simp: verifySecondFactor_def Let_def)
  show ?thesis
  proof (cases input)
    case (TotpInput c)
    with assms(1) ne show ?thesis using verifyTotp_sound [of e uid ?code s s']
      by (auto simp: verifySecondFactor_def Let_def split: prod.splits if_splits)
  next
    case (RecoveryInput c)
    with assms(1) ne show ?thesis using verifyRecoveryCode_sound [of e uid ?code s]
      by (auto simp: verifySecondFactor_def Let_def split: prod.splits if_splits)
  next
    case (OtpInput c)
    show ?thesis
    proof (cases "fst (verifyTotp e uid ?code s)")
      case True
      with assms(1) ne OtpInput show ?thesis using verifyTotp_sound [of e uid ?code s s']
        by (auto simp: verifySecondFactor_def Let_def split: prod.splits if_splits)
    next
      case False
      with assms(1) ne OtpInput show ?thesis
        using verifyRecoveryCode_sound [of e uid ?code "snd (verifyTotp e uid ?code s)"]
          recovery_live_cong [OF verifyTotp_recovery_frame [of e uid ?code s]]
        by (auto simp: verifySecondFactor_def Let_def split: prod.splits if_splits)
    qed
  next
    case (SmsInput c rid purpose binding)
    with assms ne show ?thesis using verifyCode_sound [of e rid uid purpose binding ?code s]
      by (auto simp: verifySecondFactor_def Let_def
          split: prod.splits if_splits sum.splits verify_result.splits)
  qed
qed

theorem second_factor_sound_witness:
  "\<exists>c. totp_credential ''u1'' totp_db = Some c \<and> uc_verified c \<and> totp_validate sample_env c ''123456'' 1000000"
proof -
  have "fst (verifySecondFactor sample_env ''u1'' (OtpInput '' 123456'') totp_db) = Inr (Some ''totp'')"
    by code_simp
  then have "verifySecondFactor sample_env ''u1'' (OtpInput '' 123456'') totp_db
      = (Inr (Some ''totp''), snd (verifySecondFactor sample_env ''u1'' (OtpInput '' 123456'') totp_db))"
    by (metis prod.collapse)
  from second_factor_sound [OF this] show ?thesis
    by (simp add: otp_table_ok_def totp_db_def sample_defs js_trim_def js_space_def)
qed

end
