(* ===== verification/Group_Roles.thy ===== *)
theory Group_Roles
  imports Store
begin

text \<open>
  \<open>resolveGroupRoles\<close> of \<open>src/src/auth/auth.service.ts\<close>: the roles a user inherits from the groups it is a member
  of and from their ancestors.  The walk marks the groups it has visited, so it ends even when the
  parent links of the database form a cycle.
\<close>

subsection \<open>The walk\<close>

definition group_by_id :: "ident \<Rightarrow> db \<Rightarrow> group_row option" where
  "group_by_id g s = List.find (\<lambda>x. group_id x = g) (groups s)"

definition roles_of_group :: "ident \<Rightarrow> db \<Rightarrow> role_row list" where
  "roles_of_group g s =
     concat (map (\<lambda>gr. if fst gr = g then filter (\<lambda>r. role_id r = snd gr) (roles s) else []) (groupRoles s))"

lemma unvisited_decreases:
  assumes "g \<notin> set visited" and "group_by_id g s = Some row"
  shows "card (group_id ` set (groups s) - set (g # visited)) < card (group_id ` set (groups s) - set visited)"
proof -
  have "g \<in> group_id ` set (groups s)"
    using assms(2) by (auto simp: group_by_id_def dest!: find_SomeD)
  with assms(1) have "group_id ` set (groups s) - set (g # visited) \<subset> group_id ` set (groups s) - set visited"
    by auto
  then show ?thesis by (intro psubset_card_mono) auto
qed

function walkGroup :: "db \<Rightarrow> ident \<Rightarrow> ident list \<times> role_row list \<Rightarrow> ident list \<times> role_row list" where
  "walkGroup s g (visited, allRoles) =
     (if g \<in> set visited then (visited, allRoles)
      else case group_by_id g s of
             None \<Rightarrow> (g # visited, allRoles)
           | Some row \<Rightarrow>
               (let st = (g # visited, allRoles @ roles_of_group g s)
                in if falsy (group_parentId row) then st
                   else walkGroup s (the (group_parentId row)) st))"
  by pat_completeness auto

termination
  by (relation "measure (\<lambda>(s, g, visited, _). card (group_id ` set (groups s) - set visited))")
    (simp_all add: unvisited_decreases [simplified])

declare walkGroup.simps [simp del]

definition resolveGroupRoles :: "ident \<Rightarrow> db \<Rightarrow> role_row list" where
  "resolveGroupRoles uid s =
     (let memberships = map snd (filter (\<lambda>ug. fst ug = uid) (userGroups s))
      in if memberships = [] then [] else snd (fold (walkGroup s) memberships ([], [])))"

subsection \<open>The groups a walk visits\<close>

definition parent_of :: "db \<Rightarrow> (ident \<times> ident) set" where
  "parent_of s = {(g, p). \<exists>row. group_by_id g s = Some row \<and> group_parentId row = Some p \<and> p \<noteq> []}"

definition parents_closed :: "db \<Rightarrow> ident set \<Rightarrow> ident set \<Rightarrow> bool" where
  "parents_closed s V D \<longleftrightarrow> (\<forall>g p. (g, p) \<in> parent_of s \<longrightarrow> g \<in> V \<longrightarrow> p \<in> V \<union> D)"

definition roles_in :: "db \<Rightarrow> ident set \<Rightarrow> role_row set" where
  "roles_in s V = {r. \<exists>g \<in> V. group_by_id g s \<noteq> None \<and> r \<in> set (roles_of_group g s)}"

lemma roles_in_Un: "roles_in s (V \<union> W) = roles_in s V \<union> roles_in s W"
  by (auto simp: roles_in_def)

lemma walkGroup_visits:
  assumes "walkGroup s g (v, rs) = (v', rs')" and "parents_closed s (set v) {g}"
    and "set rs = roles_in s (set v)"
  shows "g \<in> set v' \<and> set v \<subseteq> set v' \<and> set v' \<subseteq> set v \<union> {x. (g, x) \<in> (parent_of s)\<^sup>*} \<and>
         parents_closed s (set v') {} \<and> set rs' = roles_in s (set v')"
  using assms
proof (induction s g "(v, rs)" arbitrary: v rs rule: walkGroup.induct)
  case (1 s g v rs)
  show ?case
  proof (cases "g \<in> set v")
    case True
    with 1(2,3,4) show ?thesis by (auto simp: walkGroup.simps parents_closed_def)
  next
    case new: False
    show ?thesis
    proof (cases "group_by_id g s")
      case None
      with new 1(2) have "v' = g # v" "rs' = rs" by (auto simp: walkGroup.simps)
      with 1(3,4) None show ?thesis
        by (auto simp: parents_closed_def parent_of_def roles_in_def)
    next
      case (Some row)
      have here: "roles_in s (set (g # v)) = set (roles_of_group g s) \<union> roles_in s (set v)"
        using Some by (auto simp: roles_in_def)
      show ?thesis
      proof (cases "falsy (group_parentId row)")
        case True
        with new Some 1(2) have "v' = g # v" "rs' = rs @ roles_of_group g s"
          by (auto simp: walkGroup.simps)
        with 1(3,4) Some True here show ?thesis
          by (auto simp: parents_closed_def parent_of_def)
      next
        case False
        then obtain p where p: "group_parentId row = Some p" "p \<noteq> []" by (rule not_falsyE)
        then have edge: "(g, p) \<in> parent_of s" using Some by (simp add: parent_of_def)
        have uniq: "(g, q) \<in> parent_of s \<Longrightarrow> q = p" for q
          using Some p by (auto simp: parent_of_def)
        have w: "walkGroup s p (g # v, rs @ roles_of_group g s) = (v', rs')"
          using 1(2) new Some p by (simp add: walkGroup.simps [of s g])
        have "parents_closed s (set (g # v)) {p}"
          using 1(3) uniq by (auto simp: parents_closed_def)
        moreover have "set (rs @ roles_of_group g s) = roles_in s (set (g # v))"
          using 1(4) here by auto
        ultimately have ih:
          "p \<in> set v'" "set (g # v) \<subseteq> set v'" "set v' \<subseteq> set (g # v) \<union> {x. (p, x) \<in> (parent_of s)\<^sup>*}"
          "parents_closed s (set v') {}" "set rs' = roles_in s (set v')"
          using 1(1) [OF new Some refl False, unfolded p option.sel, OF w] by auto
        from ih(3) edge have "set v' \<subseteq> set v \<union> {x. (g, x) \<in> (parent_of s)\<^sup>*}"
          by (auto intro: converse_rtrancl_into_rtrancl)
        with ih show ?thesis by auto
      qed
    qed
  qed
qed

lemma fold_walkGroup:
  assumes "fold (walkGroup s) ms (v, rs) = (v', rs')" and "parents_closed s (set v) {}"
    and "set rs = roles_in s (set v)"
  shows "set ms \<union> set v \<subseteq> set v' \<and> set v' \<subseteq> set v \<union> {x. \<exists>m \<in> set ms. (m, x) \<in> (parent_of s)\<^sup>*} \<and>
         parents_closed s (set v') {} \<and> set rs' = roles_in s (set v')"
  using assms
proof (induction ms arbitrary: v rs)
  case (Cons m ms)
  obtain v1 rs1 where w: "walkGroup s m (v, rs) = (v1, rs1)" by fastforce
  have "parents_closed s (set v) {m}" using Cons.prems(2) by (auto simp: parents_closed_def)
  from walkGroup_visits [OF w this Cons.prems(3)]
  have 1: "m \<in> set v1" "set v \<subseteq> set v1" "set v1 \<subseteq> set v \<union> {x. (m, x) \<in> (parent_of s)\<^sup>*}"
    "parents_closed s (set v1) {}" "set rs1 = roles_in s (set v1)" by blast+
  have "fold (walkGroup s) ms (v1, rs1) = (v', rs')" using Cons.prems(1) w by simp
  from Cons.IH [OF this 1(4,5)] 1(1-3) show ?case by (simp add: subset_iff) blast
qed simp

lemma closed_contains_ancestors:
  assumes "(m, x) \<in> (parent_of s)\<^sup>*" and "m \<in> V" and "parents_closed s V {}"
  shows "x \<in> V"
  using assms by (induction rule: rtrancl_induct) (auto simp: parents_closed_def)

lemma resolveGroupRoles_set:
  "set (resolveGroupRoles uid s) =
     {r. \<exists>m g. (uid, m) \<in> set (userGroups s) \<and> (m, g) \<in> (parent_of s)\<^sup>* \<and>
           group_by_id g s \<noteq> None \<and> r \<in> set (roles_of_group g s)}"
proof -
  define ms where "ms = map snd (filter (\<lambda>ug. fst ug = uid) (userGroups s))"
  have mem: "m \<in> set ms \<longleftrightarrow> (uid, m) \<in> set (userGroups s)" for m
    by (force simp: ms_def)
  obtain v rs where f: "fold (walkGroup s) ms ([], []) = (v, rs)" by fastforce
  have "parents_closed s (set []) {}" "set [] = roles_in s (set [])"
    by (simp_all add: parents_closed_def roles_in_def)
  from fold_walkGroup [OF f this]
  have v: "set ms \<subseteq> set v" "set v \<subseteq> {x. \<exists>m \<in> set ms. (m, x) \<in> (parent_of s)\<^sup>*}"
    "parents_closed s (set v) {}" "set rs = roles_in s (set v)" by auto
  then have "set v = {x. \<exists>m \<in> set ms. (m, x) \<in> (parent_of s)\<^sup>*}"
    using closed_contains_ancestors by blast
  moreover have "resolveGroupRoles uid s = rs"
    using f by (auto simp: resolveGroupRoles_def ms_def [symmetric])
  ultimately have "set (resolveGroupRoles uid s) = roles_in s {x. \<exists>m \<in> set ms. (m, x) \<in> (parent_of s)\<^sup>*}"
    using v(4) by simp
  then show ?thesis unfolding roles_in_def Bex_def mem by blast
qed

end
