(* ===== verification/Token_Issue.thy ===== *)
theory Token_Issue
  imports Scopes Group_Roles Step_Up Brute_Force Password_Policy
begin

text \<open>
  The parts of \<open>src/src/auth/auth.service.ts\<close> that the grants share: client authentication
  (\<open>validateClient\<close>), the session limit, the signing key, roles, the access, refresh and ID tokens
  (\<open>issueTokens\<close>, \<open>buildIdToken\<close>), with \<open>signJwt\<close> of \<open>crypto/jwk.service.ts\<close>, \<open>enrichToken\<close> of
  \<open>plugins/plugin-manager.service.ts\<close> and \<open>recordLoginEvent\<close> of \<open>events/events.service.ts\<close>.

  A signed token is its header and payload: signatures are not modelled, and the hashes that an ID
  token takes of an access token or a code are parameters.  \<open>token_draws\<close> collects what one request
  draws at random or lets the database generate, and the enabled enrichment plugins, each of
  which may throw (\<^const>\<open>None\<close>).
\<close>

subsection \<open>Events\<close>

definition recordLoginEvent :: "login_event_row \<Rightarrow> db \<Rightarrow> db" where
  "recordLoginEvent ev s =
     (case List.find (\<lambda>r. realm_id r = le_realmId ev) (realms s) of
        None \<Rightarrow> s
      | Some r \<Rightarrow> if realm_eventsEnabled r then s\<lparr> loginEvents := loginEvents s @ [ev] \<rparr> else s)"

definition login_event ::
  "ident \<Rightarrow> string \<Rightarrow> ident option \<Rightarrow> ident option \<Rightarrow> string option \<Rightarrow> string option \<Rightarrow> string option \<Rightarrow>
   login_event_row" where
  "login_event rid ty uid sid cid ip err =
     \<lparr> le_realmId = rid, le_type = ty, le_userId = uid, le_sessionId = sid, le_clientId = cid,
       le_ipAddress = ip, le_error = err \<rparr>"

subsection \<open>Tokens\<close>

record jwt =
  jwt_kid :: string
  jwt_payload :: claims

record token_draws =
  td_sessionId :: ident
  td_refreshId :: ident
  td_refreshToken :: string
  td_userId :: ident
  td_challengeId :: ident
  td_mfaToken :: string
  td_jti :: string
  td_idJti :: string
  td_enrichers :: "(claims \<Rightarrow> claims option) list"
  td_atHash :: "jwt \<Rightarrow> string"
  td_cHash :: "string \<Rightarrow> string"

record token_response =
  tr_access_token :: jwt
  tr_expires_in :: int
  tr_refresh_token :: "string option"
  tr_scope :: "string option"
  tr_id_token :: "jwt option"
  tr_session_state :: "string option"

definition signJwt :: "env \<Rightarrow> string \<Rightarrow> claims \<Rightarrow> string \<Rightarrow> int \<Rightarrow> jwt" where
  "signJwt e jti payload kid expiresInSeconds =
     \<lparr> jwt_kid = kid,
       jwt_payload = payload(''iat'' \<mapsto> VInt (now e div 1000),
                             ''exp'' \<mapsto> VInt (now e div 1000 + expiresInSeconds),
                             ''jti'' \<mapsto> VStr jti) \<rparr>"

definition enrichToken :: "(claims \<Rightarrow> claims option) list \<Rightarrow> claims \<Rightarrow> claims" where
  "enrichToken enrichers payload = fold (\<lambda>f p. nullish_else (f p) p) enrichers payload"

definition getIssuer :: "env \<Rightarrow> realm_row \<Rightarrow> string" where
  "getIssuer e r = base_url e @ ''/realms/'' @ realm_name r"

definition getActiveSigningKey :: "ident \<Rightarrow> db \<Rightarrow> signing_key_row result" where
  "getActiveSigningKey rid s =
     (case order_desc sk_createdAt (filter (\<lambda>k. sk_realmId k = rid \<and> sk_active k) (signingKeys s)) of
        [] \<Rightarrow> Inl PlainError
      | k # _ \<Rightarrow> Inr k)"

definition opt_claim :: "bool \<Rightarrow> string \<Rightarrow> claim_value \<Rightarrow> claims" where
  "opt_claim b k v = (if b then [k \<mapsto> v] else Map.empty)"

definition amr_claim :: "string list option \<Rightarrow> claims" where
  "amr_claim amr = (case amr of None \<Rightarrow> Map.empty | Some ms \<Rightarrow> opt_claim (ms \<noteq> []) ''amr'' (VStrs ms))"

definition buildIdToken ::
  "env \<Rightarrow> token_draws \<Rightarrow> realm_row \<Rightarrow> user_row \<Rightarrow> string \<Rightarrow> ident \<Rightarrow> string list \<Rightarrow> jwt \<Rightarrow> string option \<Rightarrow>
   millis option \<Rightarrow> signing_key_row \<Rightarrow> string option \<Rightarrow> string list option \<Rightarrow> string option \<Rightarrow> db \<Rightarrow> jwt" where
  "buildIdToken e d r u clientId sessionId scopes accessToken nonce authTime key acr amr code s =
     (let allowedClaims = getClaimsForScopes scopes;
          userClaims = resolveUserClaims u allowedClaims (getOidcClaimsForUser (user_id u) s);
          base = [''iss'' \<mapsto> VStr (getIssuer e r), ''sub'' \<mapsto> VStr (user_id u), ''aud'' \<mapsto> VStr clientId,
                  ''azp'' \<mapsto> VStr clientId, ''typ'' \<mapsto> VStr ''ID'', ''sid'' \<mapsto> VStr sessionId,
                  ''at_hash'' \<mapsto> VStr (td_atHash d accessToken),
                  ''auth_time'' \<mapsto> VInt (nullish_else authTime (now e) div 1000),
                  ''acr'' \<mapsto> VStr (nullish_else acr ACR_PASSWORD)];
          payload = base ++ amr_claim amr ++
                    opt_claim (\<not> falsy code) ''c_hash'' (VStr (td_cHash d (the code))) ++ userClaims ++
                    opt_claim (\<not> falsy nonce) ''nonce'' (VStr (the nonce))
      in signJwt e (td_idJti d) payload (sk_kid key) (realm_accessTokenLifespan r))"

subsection \<open>Roles\<close>

definition direct_roles :: "ident \<Rightarrow> db \<Rightarrow> role_row list" where
  "direct_roles uid s =
     concat (map (\<lambda>ur. if fst ur = uid then filter (\<lambda>r. role_id r = snd ur) (roles s) else []) (userRoles s))"

fun dedup_roles :: "ident list \<Rightarrow> role_row list \<Rightarrow> role_row list" where
  "dedup_roles seen [] = []"
| "dedup_roles seen (r # rs) =
     (if role_id r \<in> set seen then dedup_roles seen rs else r # dedup_roles (role_id r # seen) rs)"

definition add_resource_role ::
  "string \<Rightarrow> string \<Rightarrow> (string \<times> string list) list \<Rightarrow> (string \<times> string list) list" where
  "add_resource_role cId name acc =
     (if cId \<in> set (map fst acc)
      then map (\<lambda>(c, ns). (c, if c = cId then ns @ [name] else ns)) acc
      else acc @ [(cId, [name])])"

definition role_client :: "role_row \<Rightarrow> db \<Rightarrow> client_row option" where
  "role_client r s =
     (case role_clientId r of None \<Rightarrow> None | Some i \<Rightarrow> List.find (\<lambda>c. client_id c = i) (clients s))"

definition resource_access :: "role_row list \<Rightarrow> db \<Rightarrow> (string \<times> string list) list" where
  "resource_access rs s =
     fold (\<lambda>r acc. case role_client r s of None \<Rightarrow> acc
                   | Some c \<Rightarrow> add_resource_role (client_clientId c) (role_name r) acc) rs []"

definition user_role_list :: "ident \<Rightarrow> db \<Rightarrow> role_row list" where
  "user_role_list uid s = dedup_roles [] (direct_roles uid s @ resolveGroupRoles uid s)"

definition realm_role_names :: "role_row list \<Rightarrow> string list" where
  "realm_role_names rs = map role_name (filter (\<lambda>r. falsy (role_clientId r)) rs)"

subsection \<open>Issuing tokens\<close>

definition effective_scopes :: "string option \<Rightarrow> string list" where
  "effective_scopes scope =
     (let scopes = parseAndValidate scope in if scopes \<noteq> [] then scopes else [''openid''])"

definition access_token_payload ::
  "env \<Rightarrow> realm_row \<Rightarrow> user_row \<Rightarrow> string \<Rightarrow> ident \<Rightarrow> string option \<Rightarrow> string option \<Rightarrow> string list option \<Rightarrow>
   db \<Rightarrow> claims" where
  "access_token_payload e r u clientId sessionId scope acr amr s =
     (let effectiveScopes = effective_scopes scope;
          allowedClaims = getClaimsForScopes effectiveScopes;
          userClaims = resolveUserClaims u allowedClaims (getOidcClaimsForUser (user_id u) s);
          dedupedRoles = user_role_list (user_id u) s;
          realmRoles = realm_role_names dedupedRoles;
          resourceAccess = resource_access dedupedRoles s;
          includeRoles = falsy scope \<or> ''realm_access'' \<in> allowedClaims;
          mappers = getScopeMappers effectiveScopes (realm_id r) s;
          mapperClaims = (if mappers \<noteq> []
                          then executeMappers mappers
                                 \<lparr> mc_user = u, mc_realmRoles = realmRoles, mc_resourceAccess = resourceAccess \<rparr>
                                 Map.empty
                          else Map.empty)
      in [''iss'' \<mapsto> VStr (getIssuer e r), ''sub'' \<mapsto> VStr (user_id u), ''aud'' \<mapsto> VStr clientId,
          ''scope'' \<mapsto> VStr (scopes_toString effectiveScopes), ''typ'' \<mapsto> VStr ''Bearer'',
          ''azp'' \<mapsto> VStr clientId, ''sid'' \<mapsto> VStr sessionId,
          ''acr'' \<mapsto> VStr (nullish_else acr ACR_PASSWORD)]
         ++ amr_claim amr ++ userClaims
         ++ (if includeRoles then [''realm_access'' \<mapsto> VRoles realmRoles,
                                   ''resource_access'' \<mapsto> VResource resourceAccess] else Map.empty)
         ++ mapperClaims)"

definition issueTokens ::
  "env \<Rightarrow> token_draws \<Rightarrow> realm_row \<Rightarrow> user_row \<Rightarrow> string \<Rightarrow> ident \<Rightarrow> string option \<Rightarrow> string option \<Rightarrow>
   millis option \<Rightarrow> string option \<Rightarrow> string list option \<Rightarrow> string option \<Rightarrow> db \<Rightarrow> token_response result \<times> db" where
  "issueTokens e d r u clientId sessionId scope nonce authTime acr amr code s =
     (case getActiveSigningKey (realm_id r) s of
        Inl err \<Rightarrow> (Inl err, s)
      | Inr key \<Rightarrow>
        let effectiveScopes = effective_scopes scope;
            validatedScope = scopes_toString effectiveScopes;
            accessToken = signJwt e (td_jti d)
              (enrichToken (td_enrichers d) (access_token_payload e r u clientId sessionId scope acr amr s))
              (sk_kid key) (realm_accessTokenLifespan r);
            isOffline = (''offline_access'' \<in> set effectiveScopes);
            refreshLifespan = (if isOffline then realm_offlineTokenLifespan r else realm_refreshTokenLifespan r);
            s1 = s\<lparr> refreshTokens := refreshTokens s @
                   [\<lparr> rt_id = td_refreshId d, rt_sessionId = sessionId,
                      rt_tokenHash = sha256 e (td_refreshToken d), rt_scope = Some validatedScope,
                      rt_revoked = False, rt_isOffline = isOffline, rt_clientId = Some clientId,
                      rt_createdAt = now e,
                      rt_expiresAt = now e + refreshLifespan * 1000 \<rparr>] \<rparr>;
            idToken = (if hasOpenidScope effectiveScopes
                       then Some (buildIdToken e d r u clientId sessionId effectiveScopes accessToken nonce
                                    authTime key acr amr code s1)
                       else None)
        in (Inr \<lparr> tr_access_token = accessToken, tr_expires_in = realm_accessTokenLifespan r,
                  tr_refresh_token = Some (td_refreshToken d), tr_scope = Some validatedScope,
                  tr_id_token = idToken, tr_session_state = Some sessionId \<rparr>, s1))"

subsection \<open>Client authentication\<close>

definition DEVICE_URN :: string where "DEVICE_URN = ''urn:ietf:params:oauth:grant-type:device_code''"
definition MFA_OTP_URN :: string where "MFA_OTP_URN = ''urn:ietf:params:oauth:grant-type:mfa-otp''"

definition grant_allowed :: "client_row \<Rightarrow> string \<Rightarrow> bool" where
  "grant_allowed c grantType =
     (let isDeviceGrant = (grantType = DEVICE_URN \<or> grantType = ''device_code'');
          clientAllowsDevice = (DEVICE_URN \<in> set (client_grantTypes c) \<or> ''device_code'' \<in> set (client_grantTypes c));
          isMfaOtpGrant = (grantType = MFA_OTP_URN \<or> grantType = ''mfa_otp'');
          clientAllowsMfaOtp = (MFA_OTP_URN \<in> set (client_grantTypes c) \<or> ''password'' \<in> set (client_grantTypes c))
      in if isDeviceGrant then clientAllowsDevice
         else if isMfaOtpGrant then clientAllowsMfaOtp
         else grantType \<in> set (client_grantTypes c))"

definition client_by_clientId :: "ident \<Rightarrow> string \<Rightarrow> db \<Rightarrow> client_row option" where
  "client_by_clientId rid cid s =
     List.find (\<lambda>c. client_realmId c = rid \<and> client_clientId c = cid) (clients s)"

definition validateClient ::
  "env \<Rightarrow> realm_row \<Rightarrow> string option \<Rightarrow> string option \<Rightarrow> string \<Rightarrow> db \<Rightarrow> client_row result" where
  "validateClient e r clientId clientSecret grantType s =
     (if falsy clientId then Inl (OAuthTokenError ''invalid_client'' 401)
      else case client_by_clientId (realm_id r) (the clientId) s of
        None \<Rightarrow> Inl (OAuthTokenError ''invalid_client'' 401)
      | Some c \<Rightarrow>
          if \<not> client_enabled c then Inl (OAuthTokenError ''invalid_client'' 401)
          else if grantType \<noteq> [] \<and> \<not> grant_allowed c grantType
          then Inl (OAuthTokenError ''unauthorized_client'' 400)
          else if client_clientType c = CONFIDENTIAL then
            if falsy clientSecret then Inl (OAuthTokenError ''invalid_client'' 401)
            else if falsy (client_clientSecret c) then Inl (OAuthTokenError ''invalid_client'' 401)
            else if \<not> verifyPassword e (the (client_clientSecret c)) (the clientSecret)
            then Inl (OAuthTokenError ''invalid_client'' 401)
            else Inr c
          else Inr c)"

subsection \<open>Sessions\<close>

definition active_sessions :: "env \<Rightarrow> realm_row \<Rightarrow> ident \<Rightarrow> db \<Rightarrow> session_row list" where
  "active_sessions e r uid s =
     order_asc sess_createdAt
       (filter (\<lambda>x. sess_userId x = uid \<and>
                    (case user_by_id uid s of None \<Rightarrow> False | Some u \<Rightarrow> user_realmId u = realm_id r) \<and>
                    sess_expiresAt x > now e) (sessions s))"

definition revoke_tokens_of :: "ident list \<Rightarrow> db \<Rightarrow> db" where
  "revoke_tokens_of is s =
     s\<lparr> refreshTokens := tbl_update (\<lambda>t. rt_sessionId t \<in> set is \<and> \<not> rt_isOffline t)
          (\<lambda>t. t\<lparr> rt_revoked := True \<rparr>) (refreshTokens s) \<rparr>"

definition enforceSessionLimit :: "env \<Rightarrow> realm_row \<Rightarrow> ident \<Rightarrow> db \<Rightarrow> db" where
  "enforceSessionLimit e r uid s =
     (let maxSessions = realm_maxSessionsPerUser r in
      if maxSessions \<le> 0 then s
      else let active = active_sessions e r uid s in
           if int (length active) \<ge> maxSessions
           then let evictIds = map sess_id (take (nat (int (length active) - maxSessions + 1)) active)
                in delete_sessions evictIds (revoke_tokens_of evictIds s)
           else s)"

definition create_session ::
  "env \<Rightarrow> token_draws \<Rightarrow> realm_row \<Rightarrow> ident \<Rightarrow> string option \<Rightarrow> string option \<Rightarrow> string option \<Rightarrow> string list \<Rightarrow>
   db \<Rightarrow> db" where
  "create_session e d r uid ip userAgent acr amr s =
     s\<lparr> sessions := sessions s @
          [\<lparr> sess_id = td_sessionId d, sess_userId = uid, sess_ipAddress = ip, sess_userAgent = userAgent,
             sess_satisfiedAcr = acr, sess_amr = amr, sess_createdAt = now e,
             sess_expiresAt = now e + realm_refreshTokenLifespan r * 1000 \<rparr>] \<rparr>"

end
