(* ===== verification/Auth.thy ===== *)
theory Auth
  imports Token_Issue Mfa
begin

text \<open>
  \<open>src/src/auth/auth.service.ts\<close>: the token endpoint.  Each grant is one definition with the checks in the
  order of the source; a thrown error is a result of its own and leaves the state that the
  statements before it produced.  Metrics and log output are left out.  The request body is a
  partial function from parameter names to values.

  \<open>authenticateViaFederation\<close> is the one operation of \<open>user-federation.service.ts\<close> the endpoint calls; the LDAP
  servers are parameters of the environment.
\<close>

type_synonym body = "string \<rightharpoonup> string"

subsection \<open>Federation\<close>

definition import_user ::
  "ident \<Rightarrow> ident \<Rightarrow> ident \<Rightarrow> string \<times> string option \<times> string option \<times> string option \<Rightarrow> user_row" where
  "import_user newId rid fid lu =
     (case lu of (uid, email, firstName, lastName) \<Rightarrow>
        (new_user newId rid uid)\<lparr> user_email := email, user_firstName := firstName,
           user_lastName := lastName, user_emailVerified := \<not> falsy email,
           user_federationLink := Some fid \<rparr>)"

definition user_unique :: "user_row \<Rightarrow> db \<Rightarrow> bool" where
  "user_unique u s \<longleftrightarrow> list_all (\<lambda>x. \<not> (user_realmId x = user_realmId u \<and>
     (user_username x = user_username u \<or> (user_email u \<noteq> None \<and> user_email x = user_email u)))) (users s)"

fun try_federations ::
  "env \<Rightarrow> ident \<Rightarrow> ident \<Rightarrow> string \<Rightarrow> string \<Rightarrow> federation_row list \<Rightarrow> db \<Rightarrow> ident option result \<times> db" where
  "try_federations e newId rid username password [] s = (Inr None, s)"
| "try_federations e newId rid username password (f # fs) s =
     (if ldap_authenticate e (fed_id f) username password then
        case user_by_username rid username s of
          Some u \<Rightarrow> (Inr (Some (user_id u)), s)
        | None \<Rightarrow>
            if fed_importEnabled f then
              (case ldap_search e (fed_id f) username of
                 None \<Rightarrow> try_federations e newId rid username password fs s
               | Some lu \<Rightarrow>
                   let u = import_user newId rid (fed_id f) lu
                   in if user_unique u s then (Inr (Some newId), s\<lparr> users := users s @ [u] \<rparr>)
                      else (Inl PrismaUnique, s))
            else try_federations e newId rid username password fs s
      else try_federations e newId rid username password fs s)"

text \<open>The result is the authenticated user's id, or \<^const>\<open>None\<close> for \<open>authenticated: false\<close>.\<close>

definition authenticateViaFederation ::
  "env \<Rightarrow> ident \<Rightarrow> ident \<Rightarrow> string \<Rightarrow> string \<Rightarrow> db \<Rightarrow> ident option result \<times> db" where
  "authenticateViaFederation e newId rid username password s =
     try_federations e newId rid username password
       (order_asc fed_priority (filter (\<lambda>f. fed_realmId f = rid \<and> fed_enabled f) (federations s))) s"

subsection \<open>The password grant\<close>

definition oauth_error :: "string \<Rightarrow> app_error" where
  "oauth_error code = OAuthTokenError code 400"

text \<open>
  The two federation steps: an enabled user without a password hash but with a federation link must
  authenticate against LDAP; a user unknown locally, or with neither hash nor link, may.
\<close>

definition lookup_federated ::
  "env \<Rightarrow> token_draws \<Rightarrow> realm_row \<Rightarrow> string \<Rightarrow> string \<Rightarrow> db \<Rightarrow> user_row option result \<times> db" where
  "lookup_federated e d r username password s =
     (case user_by_username (realm_id r) username s of
        None \<Rightarrow> (Inr None, s)
      | Some u \<Rightarrow>
          if user_enabled u \<and> falsy (user_passwordHash u) \<and> \<not> falsy (user_federationLink u)
          then and_then (authenticateViaFederation e (td_userId d) (realm_id r) username password s)
                 (\<lambda>res s1. case res of
                    None \<Rightarrow> (Inl (oauth_error ''invalid_grant''), s1)
                  | Some i \<Rightarrow> (Inr (user_by_id i s1), s1))
          else (Inr (Some u), s))"

definition resolve_login_user ::
  "env \<Rightarrow> token_draws \<Rightarrow> realm_row \<Rightarrow> string \<Rightarrow> string \<Rightarrow> db \<Rightarrow> user_row result \<times> db" where
  "resolve_login_user e d r username password s =
     and_then (lookup_federated e d r username password s)
       (\<lambda>user s1.
          let incomplete = (case user of None \<Rightarrow> True
                | Some u \<Rightarrow> \<not> user_enabled u \<or> falsy (user_passwordHash u));
              unlinked = (case user of None \<Rightarrow> True
                | Some u \<Rightarrow> falsy (user_passwordHash u) \<and> falsy (user_federationLink u));
              accept = (\<lambda>user' s2. case user' of None \<Rightarrow> (Inl (oauth_error ''invalid_grant''), s2)
                | Some u \<Rightarrow> if user_enabled u then (Inr u, s2) else (Inl (oauth_error ''invalid_grant''), s2))
          in if \<not> incomplete then (Inr (the user), s1)
             else if unlinked
             then and_then (authenticateViaFederation e (td_userId d) (realm_id r) username password s1)
                    (\<lambda>res s2. case res of
                       None \<Rightarrow> accept user s2
                     | Some i \<Rightarrow> if i = [] then accept user s2 else accept (user_by_id i s2) s2)
             else accept user s1)"

definition availableMfaMethods :: "realm_row \<Rightarrow> ident \<Rightarrow> db \<Rightarrow> string list" where
  "availableMfaMethods r uid s =
     (let factors = getEnrolledFactors uid s
      in (if ''totp'' \<in> set factors then [''totp''] else []) @
         (if ''sms'' \<in> set factors \<and> canDeliver r then [''sms''] else []) @ [''recovery''])"

definition password_valid :: "env \<Rightarrow> user_row \<Rightarrow> string \<Rightarrow> bool" where
  "password_valid e u password \<longleftrightarrow>
     (falsy (user_passwordHash u) \<and> \<not> falsy (user_federationLink u)) \<or>
     (\<not> falsy (user_passwordHash u) \<and> verifyPassword e (the (user_passwordHash u)) password)"

definition login_failed ::
  "env \<Rightarrow> realm_row \<Rightarrow> user_row \<Rightarrow> string option \<Rightarrow> string option \<Rightarrow> db \<Rightarrow> 'a result \<times> db" where
  "login_failed e r u clientId ip s =
     and_then (recordFailure e r (user_id u) ip s)
       (\<lambda>_ s1. (Inl (oauth_error ''invalid_grant''),
          recordLoginEvent (login_event (realm_id r) ''LOGIN_ERROR'' (Some (user_id u)) None clientId ip
            (Some ''Invalid credentials'')) s1))"

definition finish_password_login ::
  "env \<Rightarrow> token_draws \<Rightarrow> realm_row \<Rightarrow> body \<Rightarrow> string option \<Rightarrow> string option \<Rightarrow> user_row \<Rightarrow> db \<Rightarrow>
   token_response result \<times> db" where
  "finish_password_login e d r body ip userAgent u s =
     (let s1 = create_session e d r (user_id u) ip userAgent (Some ACR_PASSWORD) [''pwd'']
                 (enforceSessionLimit e r (user_id u) s);
          s2 = recordLoginEvent (login_event (realm_id r) ''LOGIN'' (Some (user_id u)) (Some (td_sessionId d))
                 (body ''client_id'') ip None) s1
      in issueTokens e d r u (the (body ''client_id'')) (td_sessionId d) (body ''scope'') None (Some (now e))
           (Some ACR_PASSWORD) (Some [''pwd'']) None s2)"

text \<open>From the reset of the failure records on: password expiry and the second factor.\<close>

definition after_password_check ::
  "env \<Rightarrow> token_draws \<Rightarrow> realm_row \<Rightarrow> body \<Rightarrow> string option \<Rightarrow> string option \<Rightarrow> user_row \<Rightarrow> db \<Rightarrow>
   token_response result \<times> db" where
  "after_password_check e d r body ip userAgent u s2 =
     (if isExpired e u r then (Inl (oauth_error ''invalid_grant''), s2)
      else let mfaRequired = isMfaRequired r (user_id u) s2;
               mfaEnabled = isMfaEnabled (user_id u) s2
           in if mfaRequired \<and> mfaEnabled
              then and_then (createMfaChallenge e (td_challengeId d) (td_mfaToken d) (user_id u) (realm_id r)
                               None (body ''client_id'') None s2)
                     (\<lambda>token s3. (Inl (MfaRequired token (availableMfaMethods r (user_id u) s3)), s3))
              else if mfaRequired then (Inl (oauth_error ''invalid_grant''), s2)
              else finish_password_login e d r body ip userAgent u s2)"

definition handlePasswordGrant ::
  "env \<Rightarrow> token_draws \<Rightarrow> realm_row \<Rightarrow> body \<Rightarrow> string option \<Rightarrow> string option \<Rightarrow> db \<Rightarrow>
   token_response result \<times> db" where
  "handlePasswordGrant e d r body ip userAgent s =
     and_then (validateClient e r (body ''client_id'') (body ''client_secret'') ''password'' s, s)
     (\<lambda>_ _. if falsy (body ''username'') \<or> falsy (body ''password'')
        then (Inl (oauth_error ''invalid_request''), s)
        else and_then (resolve_login_user e d r (the (body ''username'')) (the (body ''password'')) s)
     (\<lambda>u s1. if locked (checkLocked e r u) then (Inl (oauth_error ''invalid_grant''), s1)
        else if \<not> password_valid e u (the (body ''password''))
        then login_failed e r u (body ''client_id'') ip s1
        else and_then (resetFailures (realm_id r) (user_id u) s1)
     (\<lambda>_ s2. after_password_check e d r body ip userAgent u s2)))"

subsection \<open>Completing a challenge\<close>

definition challenge_accepted :: "realm_row \<Rightarrow> string option \<Rightarrow> pending_data \<Rightarrow> bool" where
  "challenge_accepted r clientId ch \<longleftrightarrow>
     pd_realmId ch = realm_id r \<and>
     (falsy (pd_clientId ch) \<or> pd_clientId ch = clientId)"

definition finish_mfa_login ::
  "env \<Rightarrow> token_draws \<Rightarrow> realm_row \<Rightarrow> body \<Rightarrow> string option \<Rightarrow> string option \<Rightarrow> string \<Rightarrow> user_row \<Rightarrow> db \<Rightarrow>
   token_response result \<times> db" where
  "finish_mfa_login e d r body ip userAgent factor u s =
     (let s1 = create_session e d r (user_id u) ip userAgent (Some ACR_MFA)
                 [''pwd'', if factor = ''sms'' then ''sms'' else ''otp''] (enforceSessionLimit e r (user_id u) s);
          s2 = recordLoginEvent (login_event (realm_id r) ''MFA_VERIFY'' (Some (user_id u)) (Some (td_sessionId d))
                 (body ''client_id'') ip None) s1
      in issueTokens e d r u (the (body ''client_id'')) (td_sessionId d) (body ''scope'') None (Some (now e))
           (Some ACR_MFA) (Some [''pwd'', ''otp'']) None s2)"

definition claim_challenge ::
  "env \<Rightarrow> token_draws \<Rightarrow> realm_row \<Rightarrow> body \<Rightarrow> string option \<Rightarrow> string option \<Rightarrow> ident \<Rightarrow> string \<Rightarrow>
   string option \<Rightarrow> db \<Rightarrow> token_response result \<times> db" where
  "claim_challenge e d r body ip userAgent uid mfa_token factor s2 =
     (case factor of
        None \<Rightarrow> (Inl (oauth_error ''invalid_grant''),
                 recordLoginEvent (login_event (realm_id r) ''MFA_VERIFY_ERROR'' (Some uid) None None
                   ip (Some ''Invalid OTP code'')) s2)
      | Some f \<Rightarrow>
          let (claimed, s3) = consumeMfaChallenge e mfa_token s2
          in if \<not> claimed then (Inl (oauth_error ''invalid_grant''), s3)
             else case user_by_id uid s3 of
                    None \<Rightarrow> (Inl (oauth_error ''invalid_grant''), s3)
                  | Some u \<Rightarrow> finish_mfa_login e d r body ip userAgent f u s3)"

definition handleMfaOtpGrant ::
  "env \<Rightarrow> token_draws \<Rightarrow> realm_row \<Rightarrow> body \<Rightarrow> string option \<Rightarrow> string option \<Rightarrow> db \<Rightarrow>
   token_response result \<times> db" where
  "handleMfaOtpGrant e d r body ip userAgent s =
     and_then (validateClient e r (body ''client_id'') (body ''client_secret'') MFA_OTP_URN s, s)
     (\<lambda>_ _. if falsy (body ''mfa_token'') \<or> falsy (body ''otp'')
        then (Inl (oauth_error ''invalid_request''), s)
        else let mfa_token = the (body ''mfa_token''); otp = the (body ''otp'');
                 (challenge, s1) = validateMfaChallengeWithAttemptCheck e mfa_token s
             in case challenge of
                  None \<Rightarrow> (Inl (oauth_error ''invalid_grant''), s1)
                | Some ch \<Rightarrow>
                    if \<not> challenge_accepted r (body ''client_id'') ch
                    then (Inl (oauth_error ''invalid_grant''), s1)
                    else and_then (verifySecondFactor e (pd_userId ch)
                           (if body ''mfa_method'' = Some ''sms''
                            then SmsInput otp (realm_id r) ''login'' mfa_token else OtpInput otp) s1)
     (\<lambda>factor s2. claim_challenge e d r body ip userAgent (pd_userId ch) mfa_token factor s2))"

definition sendMfaSms ::
  "env \<Rightarrow> ident \<Rightarrow> ident \<Rightarrow> nat \<Rightarrow> realm_row \<Rightarrow> body \<Rightarrow> string option \<Rightarrow> db \<Rightarrow>
   (masked_phone \<times> int \<times> int) result \<times> db" where
  "sendMfaSms e logId rowId n r body ip s =
     and_then (validateClient e r (body ''client_id'') (body ''client_secret'') MFA_OTP_URN s, s)
     (\<lambda>_ _. if falsy (body ''mfa_token'') then (Inl (oauth_error ''invalid_request''), s)
        else case getMfaChallenge e (the (body ''mfa_token'')) s of
               None \<Rightarrow> (Inl (oauth_error ''invalid_grant''), s)
             | Some ch \<Rightarrow>
                 if \<not> challenge_accepted r (body ''client_id'') ch then (Inl (oauth_error ''invalid_grant''), s)
                 else if \<not> smsOtpService e then (Inl (oauth_error ''invalid_request''), s)
                 else case sendCode e logId rowId n r (pd_userId ch) ''login'' (the (body ''mfa_token'')) None ip s of
                   (Inr sent, s1) \<Rightarrow>
                     (Inr (sr_maskedPhone sent, (sr_expiresAt sent - now e + 500) div 1000,
                           max 0 ((sr_resendAvailableAt sent - now e + 500) div 1000)), s1)
                 | (Inl err, s1) \<Rightarrow>
                     (Inl (case err of
                        Cooldown _ \<Rightarrow> OAuthTokenError ''slow_down'' 429
                      | RateLimited \<Rightarrow> OAuthTokenError ''slow_down'' 429
                      | SendFailed \<Rightarrow> OAuthTokenError ''invalid_request'' 503
                      | _ \<Rightarrow> OAuthTokenError ''invalid_request'' 400), s1))"

subsection \<open>Client credentials\<close>

definition SERVICE_ACCOUNT_SESSION_LIMIT :: nat where "SERVICE_ACCOUNT_SESSION_LIMIT = 100"

definition trim_service_sessions :: "ident \<Rightarrow> db \<Rightarrow> db" where
  "trim_service_sessions uid s =
     (let oldIds = map sess_id (drop SERVICE_ACCOUNT_SESSION_LIMIT
                     (order_desc sess_createdAt (filter (\<lambda>x. sess_userId x = uid) (sessions s))))
      in if oldIds \<noteq> [] then delete_sessions oldIds (revoke_tokens_of oldIds s) else s)"

definition handleClientCredentialsGrant ::
  "env \<Rightarrow> token_draws \<Rightarrow> realm_row \<Rightarrow> body \<Rightarrow> string option \<Rightarrow> db \<Rightarrow> token_response result \<times> db" where
  "handleClientCredentialsGrant e d r body ip s =
     and_then (validateClient e r (body ''client_id'') (body ''client_secret'') ''client_credentials'' s, s)
     (\<lambda>client _.
        let client_id' = the (body ''client_id'');
            serviceUser = (if falsy (client_serviceAccountUserId client) then None
                           else user_by_id (the (client_serviceAccountUserId client)) s)
        in case serviceUser of
             Some u \<Rightarrow>
               issueTokens e d r u client_id' (td_sessionId d) (body ''scope'') None (Some (now e)) None None None
                 (trim_service_sessions (user_id u) (create_session e d r (user_id u) None None None [] s))
           | None \<Rightarrow>
               case getActiveSigningKey (realm_id r) s of
                 Inl err \<Rightarrow> (Inl err, s)
               | Inr key \<Rightarrow>
                   (Inr \<lparr> tr_access_token = signJwt e (td_jti d)
                            [''iss'' \<mapsto> VStr (getIssuer e r), ''sub'' \<mapsto> VStr (client_id client),
                             ''aud'' \<mapsto> VStr client_id', ''scope'' \<mapsto> VStr (nullish_else (body ''scope'') ''openid''),
                             ''typ'' \<mapsto> VStr ''Bearer'', ''azp'' \<mapsto> VStr client_id'] (sk_kid key)
                            (realm_accessTokenLifespan r),
                          tr_expires_in = realm_accessTokenLifespan r, tr_refresh_token = None,
                          tr_scope = Some (nullish_else (body ''scope'') ''openid''), tr_id_token = None,
                          tr_session_state = None \<rparr>,
                    recordLoginEvent (login_event (realm_id r) ''CLIENT_LOGIN'' None None (body ''client_id'') ip None) s))"

subsection \<open>Refresh\<close>

definition session_by_id :: "ident \<Rightarrow> db \<Rightarrow> session_row option" where
  "session_by_id i s = List.find (\<lambda>x. sess_id x = i) (sessions s)"

definition token_by_hash :: "string \<Rightarrow> db \<Rightarrow> refresh_token_row option" where
  "token_by_hash h s = List.find (\<lambda>t. rt_tokenHash t = h) (refreshTokens s)"

definition revoke_session_tokens :: "ident \<Rightarrow> db \<Rightarrow> db" where
  "revoke_session_tokens sid s =
     s\<lparr> refreshTokens := tbl_update (\<lambda>t. rt_sessionId t = sid) (\<lambda>t. t\<lparr> rt_revoked := True \<rparr>) (refreshTokens s) \<rparr>"

definition revoke_token :: "ident \<Rightarrow> db \<Rightarrow> db" where
  "revoke_token i s =
     s\<lparr> refreshTokens := tbl_update (\<lambda>t. rt_id t = i) (\<lambda>t. t\<lparr> rt_revoked := True \<rparr>) (refreshTokens s) \<rparr>"

definition or_else :: "string option \<Rightarrow> string option \<Rightarrow> string option" where
  "or_else a b = (if falsy a then (if falsy b then None else b) else a)"

text \<open>
  A refresh token always has its session and the session its user (foreign keys of the schema); the
  branches where one is missing raise the error that reading it would raise.
\<close>

definition handleRefreshTokenGrant ::
  "env \<Rightarrow> token_draws \<Rightarrow> realm_row \<Rightarrow> body \<Rightarrow> string option \<Rightarrow> db \<Rightarrow> token_response result \<times> db" where
  "handleRefreshTokenGrant e d r body ip s =
     (if falsy (body ''refresh_token'') then (Inl (oauth_error ''invalid_request''), s)
      else and_then (validateClient e r (body ''client_id'') (body ''client_secret'') ''refresh_token'' s, s)
     (\<lambda>_ _.
        let stored = token_by_hash (sha256 e (the (body ''refresh_token''))) s;
            refuse = (\<lambda>s1. (Inl (oauth_error ''invalid_grant''),
              recordLoginEvent (login_event (realm_id r) ''TOKEN_REFRESH_ERROR'' None None (body ''client_id'') ip
                (Some ''Invalid or expired refresh token'')) s1))
        in case stored of
             None \<Rightarrow> refuse s
           | Some t \<Rightarrow>
               if rt_revoked t then refuse (revoke_session_tokens (rt_sessionId t) s)
               else if rt_expiresAt t < now e then refuse s
               else if falsy (rt_clientId t) then (Inl (oauth_error ''invalid_grant''), s)
               else if rt_clientId t \<noteq> body ''client_id'' then (Inl (oauth_error ''invalid_grant''), s)
               else let s1 = revoke_token (rt_id t) s
                    in case session_by_id (rt_sessionId t) s of
                         None \<Rightarrow> (Inl PlainError, s1)
                       | Some sess \<Rightarrow>
                           case user_by_id (sess_userId sess) s of
                             None \<Rightarrow> (Inl PlainError, s1)
                           | Some u \<Rightarrow>
                               issueTokens e d r u (the (body ''client_id'')) (rt_sessionId t)
                                 (or_else (body ''scope'') (rt_scope t)) None None
                                 (Some (nullish_else (sess_satisfiedAcr sess) ACR_PASSWORD))
                                 (Some (if sess_amr sess \<noteq> [] then sess_amr sess else [''pwd''])) None
                                 (recordLoginEvent (login_event (realm_id r) ''TOKEN_REFRESH'' (Some (user_id u))
                                    (Some (rt_sessionId t)) (body ''client_id'') ip None) s1)))"

subsection \<open>Authorization codes\<close>

definition code_live :: "string \<Rightarrow> millis \<Rightarrow> auth_code_row \<Rightarrow> bool" where
  "code_live code t a \<longleftrightarrow> ac_code a = code \<and> \<not> ac_used a \<and> ac_expiresAt a > t"

definition use_code :: "string \<Rightarrow> millis \<Rightarrow> db \<Rightarrow> auth_code_row option \<times> db" where
  "use_code code t s =
     (case List.find (code_live code t) (authorizationCodes s) of
        None \<Rightarrow> (None, s)
      | Some a \<Rightarrow> (Some (a\<lparr> ac_used := True \<rparr>),
                   s\<lparr> authorizationCodes := tbl_update (code_live code t) (\<lambda>a. a\<lparr> ac_used := True \<rparr>)
                        (authorizationCodes s) \<rparr>))"

definition pkce_error :: "env \<Rightarrow> client_row \<Rightarrow> auth_code_row \<Rightarrow> string option \<Rightarrow> app_error option" where
  "pkce_error e client a verifier =
     (if client_clientType client = PUBLIC \<and> falsy (ac_codeChallenge a)
      then Some (oauth_error ''invalid_request'')
      else if \<not> falsy (ac_codeChallenge a) then
        if falsy verifier then Some (oauth_error ''invalid_request'')
        else if Some (base64url_of_hex e (sha256 e (the verifier))) \<noteq> ac_codeChallenge a
        then Some (oauth_error ''invalid_grant'')
        else None
      else None)"

definition handleAuthorizationCodeGrant ::
  "env \<Rightarrow> token_draws \<Rightarrow> realm_row \<Rightarrow> body \<Rightarrow> string option \<Rightarrow> string option \<Rightarrow> db \<Rightarrow>
   token_response result \<times> db" where
  "handleAuthorizationCodeGrant e d r body ip userAgent s =
     (if falsy (body ''code'') then (Inl (oauth_error ''invalid_request''), s)
      else and_then (validateClient e r (body ''client_id'') (body ''client_secret'') ''authorization_code'' s, s)
     (\<lambda>client _. case use_code (the (body ''code'')) (now e) s of
          (None, s1) \<Rightarrow> (Inl (oauth_error ''invalid_grant''), s1)
        | (Some a, s1) \<Rightarrow>
            if ac_clientId a \<noteq> client_id client then (Inl (oauth_error ''invalid_grant''), s1)
            else if body ''redirect_uri'' \<noteq> Some (ac_redirectUri a) then (Inl (oauth_error ''invalid_grant''), s1)
            else case pkce_error e client a (body ''code_verifier'') of
                   Some err \<Rightarrow> (Inl err, s1)
                 | None \<Rightarrow>
                     case user_by_id (ac_userId a) s1 of
                       None \<Rightarrow> (Inl (oauth_error ''invalid_grant''), s1)
                     | Some u \<Rightarrow>
                         if locked (checkLocked e r u) then (Inl (oauth_error ''invalid_grant''), s1)
                         else let acr = nullish_else (ac_satisfiedAcr a) ACR_PASSWORD;
                                  amr = (if ac_amr a \<noteq> [] then ac_amr a else [''pwd'']);
                                  s2 = create_session e d r (user_id u) ip userAgent (Some acr) amr
                                         (enforceSessionLimit e r (user_id u) s1);
                                  s3 = recordLoginEvent (login_event (realm_id r) ''CODE_TO_TOKEN'' (Some (user_id u))
                                         (Some (td_sessionId d)) (body ''client_id'') ip None) s2
                              in issueTokens e d r u (the (body ''client_id'')) (td_sessionId d) (ac_scope a)
                                   (ac_nonce a) (Some (now e)) (Some acr) (Some amr) (Some (ac_code a)) s3))"

subsection \<open>Device codes\<close>

definition update_device :: "ident \<Rightarrow> (device_code_row \<Rightarrow> device_code_row) \<Rightarrow> db \<Rightarrow> db" where
  "update_device i f s = s\<lparr> deviceCodes := tbl_update (\<lambda>x. dc_id x = i) f (deviceCodes s) \<rparr>"

definition polled_too_soon :: "env \<Rightarrow> device_code_row \<Rightarrow> bool" where
  "polled_too_soon e dc =
     (case dc_lastPolledAt dc of None \<Rightarrow> False | Some t \<Rightarrow> now e - t < dc_interval dc * 1000)"

definition handleDeviceCodeGrant ::
  "env \<Rightarrow> token_draws \<Rightarrow> realm_row \<Rightarrow> body \<Rightarrow> string option \<Rightarrow> string option \<Rightarrow> db \<Rightarrow>
   token_response result \<times> db" where
  "handleDeviceCodeGrant e d r body ip userAgent s =
     (if falsy (body ''device_code'') then (Inl (oauth_error ''invalid_request''), s)
      else and_then (validateClient e r (body ''client_id'') (body ''client_secret'') DEVICE_URN s, s)
     (\<lambda>_ _. case List.find (\<lambda>x. dc_deviceCode x = the (body ''device_code'')) (deviceCodes s) of
          None \<Rightarrow> (Inl (oauth_error ''authorization_pending''), s)
        | Some dc \<Rightarrow>
            if dc_realmId dc \<noteq> realm_id r then (Inl (oauth_error ''authorization_pending''), s)
            else if dc_expiresAt dc < now e then (Inl (oauth_error ''expired_token''), s)
            else if dc_denied dc then (Inl (oauth_error ''access_denied''), s)
            else if \<not> dc_approved dc \<or> falsy (dc_userId dc) then (Inl (oauth_error ''authorization_pending''), s)
            else if polled_too_soon e dc
            then (Inl (oauth_error ''slow_down''),
                  update_device (dc_id dc)
                    (\<lambda>x. x\<lparr> dc_lastPolledAt := Some (now e), dc_interval := dc_interval dc + 5 \<rparr>) s)
            else let s1 = update_device (dc_id dc) (\<lambda>x. x\<lparr> dc_lastPolledAt := Some (now e) \<rparr>) s
                 in if \<not> dc_approved dc \<or> falsy (dc_userId dc)
                    then (Inl (oauth_error ''authorization_pending''), s1)
                    else case user_by_id (the (dc_userId dc)) s1 of
                      None \<Rightarrow> (Inl (oauth_error ''invalid_grant''), s1)
                    | Some u \<Rightarrow>
                        if isMfaEnabled (user_id u) s1 then (Inl (oauth_error ''invalid_grant''), s1)
                        else if isMfaRequired r (user_id u) s1 then (Inl (oauth_error ''invalid_grant''), s1)
                        else let s2 = s1\<lparr> deviceCodes := tbl_delete (\<lambda>x. dc_id x = dc_id dc) (deviceCodes s1) \<rparr>;
                                 s3 = create_session e d r (user_id u) ip userAgent None []
                                        (enforceSessionLimit e r (user_id u) s2);
                                 s4 = recordLoginEvent (login_event (realm_id r) ''DEVICE_CODE_TO_TOKEN''
                                        (Some (user_id u)) (Some (td_sessionId d)) (body ''client_id'') ip None) s3
                             in issueTokens e d r u (the (body ''client_id'')) (td_sessionId d) (dc_scope dc) None
                                  (Some (now e)) None None None s4))"

subsection \<open>The endpoint\<close>

definition handleTokenRequest ::
  "env \<Rightarrow> token_draws \<Rightarrow> realm_row \<Rightarrow> body \<Rightarrow> string option \<Rightarrow> string option \<Rightarrow> db \<Rightarrow>
   token_response result \<times> db" where
  "handleTokenRequest e d r body ip userAgent s =
     (if falsy (body ''grant_type'') then (Inl (oauth_error ''invalid_request''), s)
      else let grantType = the (body ''grant_type'') in
        if grantType = ''password'' then handlePasswordGrant e d r body ip userAgent s
        else if grantType = ''client_credentials'' then handleClientCredentialsGrant e d r body ip s
        else if grantType = ''refresh_token'' then handleRefreshTokenGrant e d r body ip s
        else if grantType = ''authorization_code'' then handleAuthorizationCodeGrant e d r body ip userAgent s
        else if grantType = ''mfa_otp'' then handleMfaOtpGrant e d r body ip userAgent s
        else if grantType = DEVICE_URN then handleDeviceCodeGrant e d r body ip userAgent s
        else (Inl (oauth_error ''unsupported_grant_type''), s))"

end
