(* ===== verification/Auth_Frames.thy ===== *)
theory Auth_Frames
  imports Auth
begin

text \<open>
  What the steps of the token endpoint leave alone.  \<open>same_grants s s'\<close> says that the tables of issued
  grants (authorization codes, device codes, sessions, refresh tokens, browser sessions) and the clients are those of \<open>s\<close>;
  the checks of a request satisfy it, so that only the steps that redeem or issue something have to
  be considered in the properties of the endpoint.
\<close>

definition same_grants :: "db \<Rightarrow> db \<Rightarrow> bool" where
  "same_grants s s' \<longleftrightarrow> authorizationCodes s' = authorizationCodes s \<and> deviceCodes s' = deviceCodes s \<and>
     sessions s' = sessions s \<and> refreshTokens s' = refreshTokens s \<and> loginSessions s' = loginSessions s \<and>
     clients s' = clients s"

lemma same_grants_refl [simp, intro]: "same_grants s s"
  by (simp add: same_grants_def)

lemma same_grants_trans: "same_grants s s' \<Longrightarrow> same_grants s' s'' \<Longrightarrow> same_grants s s''"
  by (simp add: same_grants_def)

lemma same_grants_tables:
  "same_grants s (s\<lparr> users := u \<rparr>)" "same_grants s (s\<lparr> loginEvents := le \<rparr>)"
  "same_grants s (s\<lparr> loginFailures := lf \<rparr>)" "same_grants s (s\<lparr> outbox := ob \<rparr>)"
  "same_grants s (s\<lparr> pendingActions := pa \<rparr>)" "same_grants s (s\<lparr> recoveryCodes := rc \<rparr>)"
  "same_grants s (s\<lparr> otpAttempts := oa \<rparr>)" "same_grants s (s\<lparr> usedTotpCodes := ut \<rparr>)"
  "same_grants s (s\<lparr> redisKeys := rk \<rparr>)" "same_grants s (s\<lparr> memTotpCodes := mt \<rparr>)"
  "same_grants s (s\<lparr> smsDeliveryLogs := sl \<rparr>)" "same_grants s (s\<lparr> userCredentials := uc \<rparr>)"
  by (simp_all add: same_grants_def)

lemma same_grants_event [simp]: "same_grants s (recordLoginEvent ev s)"
  by (auto simp: recordLoginEvent_def same_grants_def split: option.split)

lemma same_grants_recordFailure: "same_grants s (snd (recordFailure e r uid ip s))"
  by (auto simp: recordFailure_def Let_def update_user_def sendLockoutNotification_def same_grants_def
      split: option.split)

lemma same_grants_resetFailures: "same_grants s (snd (resetFailures rid uid s))"
  by (simp add: resetFailures_def Let_def update_user_def same_grants_def)

lemma same_grants_createMfaChallenge:
  "same_grants s (snd (createMfaChallenge e i t uid rid op cid am s))"
  by (simp add: createMfaChallenge_def Let_def same_grants_def)

lemma same_grants_attempt: "same_grants s (snd (validateMfaChallengeWithAttemptCheck e t s))"
  by (simp add: validateMfaChallengeWithAttemptCheck_def Let_def same_grants_def)

lemma same_grants_consume: "same_grants s (snd (consumeMfaChallenge e t s))"
  by (simp add: consumeMfaChallenge_def same_grants_def)

lemma same_grants_federation: "same_grants s (snd (authenticateViaFederation e i rid un pw s))"
proof -
  have "same_grants s (snd (try_federations e i rid un pw fs s))" for fs
    by (induction fs) (auto simp: Let_def same_grants_tables split: option.split)
  then show ?thesis by (simp add: authenticateViaFederation_def)
qed

lemma same_grants_redis: "redis_set e k n s = Some s' \<Longrightarrow> same_grants s s'"
  by (auto simp: redis_set_def same_grants_def split: redis_mode.splits)

lemma same_grants_verifyTotp: "same_grants s (snd (verifyTotp e uid code s))"
proof -
  have mem: "same_grants x (mem_set k t x)" "same_grants x (mem_delete k x)" for k t x
    by (simp_all add: mem_set_def mem_delete_def same_grants_def)
  have mark: "same_grants x (markTotpCodeUsed e uid code x)" for x
  proof -
    let ?x1 = "x\<lparr> usedTotpCodes := usedTotpCodes x @
        [\<lparr> ut_userId = uid, ut_codeHash = sha256 e code,
           ut_expiresAt = now e + TOTP_USED_CODE_TTL_SECONDS * 1000 \<rparr>] \<rparr>"
    have "same_grants ?x1 (markTotpCodeUsed e uid code x)"
      by (auto simp: markTotpCodeUsed_def Let_def mem dest: same_grants_redis split: option.split)
    with same_grants_tables(8) show ?thesis by (rule same_grants_trans)
  qed
  have used: "isTotpCodeUsed e uid code s = (u, s1) \<Longrightarrow> same_grants s s1" for u s1
    by (auto simp: isTotpCodeUsed_def Let_def mem nullish_else_def dest: same_grants_redis
        split: if_splits option.splits)
  show ?thesis
    by (auto simp: verifyTotp_def dest: used intro: same_grants_trans [OF used mark]
        split: option.split prod.split)
qed

lemma same_grants_verifyRecoveryCode: "same_grants s (snd (verifyRecoveryCode e uid code s))"
  by (simp add: verifyRecoveryCode_def Let_def same_grants_def)

lemma same_grants_verifyCode: "same_grants s (snd (verifyCode e rid uid p b c s))"
proof -
  have res: "reserve_guess i t x = (ok, x') \<Longrightarrow> same_grants x x'" for i t x ok x'
    by (auto simp: reserve_guess_def Let_def same_grants_def)
  have cl: "claim_code i h x = (ok, x') \<Longrightarrow> same_grants x x'" for i h x ok x'
    by (auto simp: claim_code_def Let_def same_grants_def)
  show ?thesis
    by (auto simp: verifyCode_def Let_def dest: res intro: same_grants_trans [OF res cl] split: prod.split)
qed

lemma same_grants_secondFactor: "same_grants s (snd (verifySecondFactor e uid input s))"
proof (cases input)
  case (TotpInput c)
  then show ?thesis using same_grants_verifyTotp [of s e uid "js_trim c"]
    by (auto simp: verifySecondFactor_def Let_def split: prod.split)
next
  case (RecoveryInput c)
  then show ?thesis using same_grants_verifyRecoveryCode [of s e uid "js_trim c"]
    by (auto simp: verifySecondFactor_def Let_def split: prod.split)
next
  case (OtpInput c)
  show ?thesis
    using OtpInput same_grants_verifyTotp [of s e uid "js_trim c"]
      same_grants_trans [OF same_grants_verifyTotp [of s e uid "js_trim c"]
        same_grants_verifyRecoveryCode [of _ e uid "js_trim c"]]
    by (auto simp: verifySecondFactor_def Let_def split: prod.split)
next
  case (SmsInput c rid p b)
  then show ?thesis using same_grants_verifyCode [of s e rid uid p b "js_trim c"]
    by (auto simp: verifySecondFactor_def Let_def split: prod.split sum.split verify_result.split)
qed

lemma same_grants_and_then:
  assumes "same_grants s (snd m)" and "\<And>x. m = (Inr x, snd m) \<Longrightarrow> same_grants (snd m) (snd (k x (snd m)))"
  shows "same_grants s (snd (and_then m k))"
  using assms by (cases m; cases "fst m") (auto intro: same_grants_trans)

lemma same_grants_lookup: "same_grants s (snd (lookup_federated e d r un pw s))"
  by (auto simp: lookup_federated_def split: option.split intro!: same_grants_and_then same_grants_federation)

lemma same_grants_resolve: "same_grants s (snd (resolve_login_user e d r un pw s))"
  unfolding resolve_login_user_def
  by (rule same_grants_and_then [OF same_grants_lookup])
     (auto simp: Let_def split: option.split intro!: same_grants_and_then same_grants_federation)

lemma same_grants_login_failed: "same_grants s (snd (login_failed e r u cid ip s))"
  unfolding login_failed_def by (rule same_grants_and_then [OF same_grants_recordFailure]) simp

end
