(* ===== verification/Device_Flow.thy ===== *)
theory Device_Flow
  imports Auth_Frames
begin

text \<open>
  \<open>src/src/device/device.service.ts\<close>: the device authorization flow of RFC 8628 up to the token
  request, which is \<open>handleDeviceCodeGrant\<close> of the endpoint.  The device code and the random numbers behind
  the user code are drawn by the caller's environment.
\<close>

definition user_code_chars :: string where
  "user_code_chars = ''ABCDEFGHJKLMNPQRSTUVWXYZ23456789''"

text \<open>\<open>draw i\<close> is the value of the \<open>i\<close>th \<open>randomInt(chars.length)\<close>.\<close>

definition generateUserCode :: "(nat \<Rightarrow> nat) \<Rightarrow> string" where
  "generateUserCode draw =
     concat (map (\<lambda>i. (user_code_chars ! draw i) # (if i = 3 then ''-'' else [])) [0 ..< 8])"

record device_auth_response =
  da_device_code :: string
  da_user_code :: string
  da_verification_uri :: string
  da_verification_uri_complete :: string
  da_expires_in :: int
  da_interval :: int

definition initiateDeviceAuth ::
  "env \<Rightarrow> ident \<Rightarrow> string \<Rightarrow> (nat \<Rightarrow> nat) \<Rightarrow> realm_row \<Rightarrow> string \<Rightarrow> string option \<Rightarrow> db \<Rightarrow>
   device_auth_response result \<times> db" where
  "initiateDeviceAuth e newId deviceCode draw r clientId scope s =
     (case client_by_clientId (realm_id r) clientId s of
        None \<Rightarrow> (Inl NotFoundException, s)
      | Some c \<Rightarrow>
          if \<not> client_enabled c then (Inl NotFoundException, s)
          else if \<not> (DEVICE_URN \<in> set (client_grantTypes c) \<or> ''device_code'' \<in> set (client_grantTypes c))
          then (Inl BadRequestException, s)
          else let userCode = generateUserCode draw;
                   uri = base_url e @ ''/realms/'' @ realm_name r @ ''/device''
               in if list_ex (\<lambda>x. dc_userCode x = userCode \<or> dc_deviceCode x = deviceCode) (deviceCodes s)
                  then (Inl PrismaUnique, s)
                  else (Inr \<lparr> da_device_code = deviceCode, da_user_code = userCode, da_verification_uri = uri,
                         da_verification_uri_complete = uri @ ''?user_code='' @ userCode,
                         da_expires_in = 600, da_interval = 5 \<rparr>,
                   s\<lparr> deviceCodes := deviceCodes s @
                        [\<lparr> dc_id = newId, dc_deviceCode = deviceCode, dc_userCode = userCode,
                           dc_clientId = client_id c, dc_realmId = realm_id r, dc_scope = scope,
                           dc_userId = None, dc_approved = False, dc_denied = False, dc_interval = 5,
                           dc_lastPolledAt = None, dc_expiresAt = now e + 600000 \<rparr>] \<rparr>))"

definition device_by_userCode :: "string \<Rightarrow> db \<Rightarrow> device_code_row option" where
  "device_by_userCode userCode s = List.find (\<lambda>x. dc_userCode x = userCode) (deviceCodes s)"

definition approveDevice :: "env \<Rightarrow> realm_row \<Rightarrow> string \<Rightarrow> ident \<Rightarrow> db \<Rightarrow> unit result \<times> db" where
  "approveDevice e r userCode uid s =
     (case device_by_userCode userCode s of
        None \<Rightarrow> (Inl NotFoundException, s)
      | Some dc \<Rightarrow>
          if dc_realmId dc \<noteq> realm_id r then (Inl NotFoundException, s)
          else if dc_expiresAt dc < now e then (Inl BadRequestException, s)
          else (Inr (), update_device (dc_id dc) (\<lambda>x. x\<lparr> dc_approved := True, dc_userId := Some uid \<rparr>) s))"

definition denyDevice :: "realm_row \<Rightarrow> string \<Rightarrow> db \<Rightarrow> unit result \<times> db" where
  "denyDevice r userCode s =
     (case device_by_userCode userCode s of
        None \<Rightarrow> (Inl NotFoundException, s)
      | Some dc \<Rightarrow>
          if dc_realmId dc \<noteq> realm_id r then (Inl NotFoundException, s)
          else (Inr (), update_device (dc_id dc) (\<lambda>x. x\<lparr> dc_denied := True \<rparr>) s))"

definition cleanupExpiredDeviceCodes :: "env \<Rightarrow> db \<Rightarrow> db" where
  "cleanupExpiredDeviceCodes e s =
     s\<lparr> deviceCodes := tbl_delete (\<lambda>x. dc_expiresAt x < now e) (deviceCodes s) \<rparr>"

subsection \<open>The codes a request can spend\<close>

definition live_codes :: "string \<Rightarrow> db \<Rightarrow> nat" where
  "live_codes c s = length (filter (\<lambda>a. ac_code a = c \<and> \<not> ac_used a) (authorizationCodes s))"

definition live_tokens :: "string \<Rightarrow> db \<Rightarrow> nat" where
  "live_tokens h s = length (filter (\<lambda>t. rt_tokenHash t = h \<and> \<not> rt_revoked t) (refreshTokens s))"

definition live_devices :: "string \<Rightarrow> db \<Rightarrow> nat" where
  "live_devices dv s = length (filter (\<lambda>x. dc_deviceCode x = dv) (deviceCodes s))"

text \<open>
  \<open>spends c h dv s s'\<close>: going from \<open>s\<close> to \<open>s'\<close> no use of the authorization code \<open>c\<close>, of the refresh token with
  hash \<open>h\<close> or of the device code \<open>dv\<close> is won back.
\<close>

definition spends :: "string \<Rightarrow> string \<Rightarrow> string \<Rightarrow> db \<Rightarrow> db \<Rightarrow> bool" where
  "spends c h dv s s' \<longleftrightarrow> live_codes c s' \<le> live_codes c s \<and> live_tokens h s' \<le> live_tokens h s \<and>
     live_devices dv s' \<le> live_devices dv s"

lemma spends_refl [simp, intro]: "spends c h dv s s"
  by (simp add: spends_def)

lemma spends_trans: "spends c h dv s s' \<Longrightarrow> spends c h dv s' s'' \<Longrightarrow> spends c h dv s s''"
  by (simp add: spends_def)

lemma same_grants_spends: "same_grants s s' \<Longrightarrow> spends c h dv s s'"
  by (simp add: same_grants_def spends_def live_codes_def live_tokens_def live_devices_def)

lemma length_filter_update_le:
  "(\<And>x. q (f x) \<Longrightarrow> q x) \<Longrightarrow> length (filter q (tbl_update p f xs)) \<le> length (filter q xs)"
  by (induction xs) auto

lemma length_filter_update_less:
  assumes "\<And>x. q (f x) \<Longrightarrow> q x" and "x \<in> set xs" and "p x" and "q x" and "\<not> q (f x)"
  shows "length (filter q (tbl_update p f xs)) < length (filter q xs)"
  using assms(2)
proof (induction xs)
  case (Cons y ys)
  show ?case
  proof (cases "y = x")
    case True
    with assms show ?thesis using length_filter_update_le [of q f p ys] by (simp add: less_Suc_eq_le)
  next
    case False
    with Cons assms(1) [of y] show ?thesis by auto
  qed
qed simp

lemma length_filter_delete_less:
  assumes "x \<in> set xs" and "p x" and "q x"
  shows "length (filter q (tbl_delete p xs)) < length (filter q xs)"
  using assms(1)
proof (induction xs)
  case (Cons y ys)
  show ?case
  proof (cases "y = x")
    case True
    with assms show ?thesis using length_filter_delete_le [of q p ys] by (simp add: less_Suc_eq_le)
  next
    case False
    with Cons show ?thesis by auto
  qed
qed simp

lemma spends_device_update:
  "(\<And>x. dc_deviceCode (f x) = dc_deviceCode x) \<Longrightarrow> spends c h dv s (update_device i f s)"
  by (auto simp: spends_def live_codes_def live_tokens_def live_devices_def update_device_def
      intro!: length_filter_update_le)

lemma spends_device_delete: "spends c h dv s (s\<lparr> deviceCodes := tbl_delete p (deviceCodes s) \<rparr>)"
  by (simp add: spends_def live_codes_def live_tokens_def live_devices_def length_filter_delete_le)

lemma spends_revoke:
  "spends c h dv s (s\<lparr> refreshTokens := tbl_update p (\<lambda>t. t\<lparr> rt_revoked := True \<rparr>) (refreshTokens s) \<rparr>)"
  by (auto simp: spends_def live_codes_def live_tokens_def live_devices_def intro!: length_filter_update_le)

lemma spends_delete_sessions: "spends c h dv s (delete_sessions is s)"
  by (simp add: spends_def live_codes_def live_tokens_def live_devices_def delete_sessions_def
      length_filter_delete_le)

lemma spends_evict: "spends c h dv s (delete_sessions is (revoke_tokens_of is s))"
  unfolding revoke_tokens_of_def by (rule spends_trans [OF spends_revoke spends_delete_sessions])

lemma spends_enforce: "spends c h dv s (enforceSessionLimit e r uid s)"
  by (simp add: enforceSessionLimit_def Let_def spends_evict)

lemma spends_trim: "spends c h dv s (trim_service_sessions uid s)"
  by (simp add: trim_service_sessions_def Let_def spends_evict)

lemma spends_create_session: "spends c h dv s (create_session e d r uid ip ua acr amr s)"
  by (simp add: create_session_def spends_def live_codes_def live_tokens_def live_devices_def)

lemma spends_use_code: "use_code code t s = (x, s') \<Longrightarrow> spends c h dv s s'"
  by (auto simp: use_code_def spends_def live_codes_def live_tokens_def live_devices_def
      intro!: length_filter_update_le split: option.splits)

lemma spends_issue:
  "sha256 e (td_refreshToken d) \<noteq> h \<Longrightarrow>
   spends c h dv s (snd (issueTokens e d r u cid sid scope nonce at acr amr code s))"
  by (auto simp: issueTokens_def Let_def spends_def live_codes_def live_tokens_def live_devices_def
      split: sum.split)

lemma spends_and_then:
  assumes "spends c h dv s (snd m)" and "\<And>x. m = (Inr x, snd m) \<Longrightarrow> spends c h dv (snd m) (snd (k x (snd m)))"
  shows "spends c h dv s (snd (and_then m k))"
  using assms by (cases m; cases "fst m") (auto intro: spends_trans)

text \<open>A new session with its event and its tokens: the common end of the interactive grants.\<close>

lemma spends_login:
  assumes "sha256 e (td_refreshToken d) \<noteq> h"
  shows "spends c h dv s (snd (issueTokens e d r u cid sid scope nonce at acr amr code
           (recordLoginEvent ev (create_session e d r uid ip ua acr' amr' (enforceSessionLimit e r uid s)))))"
  by (rule spends_trans [OF spends_trans [OF spends_trans [OF spends_enforce spends_create_session]
        same_grants_spends [OF same_grants_event]] spends_issue [OF assms]])

end
