(* ===== verification/Token_Endpoint.thy ===== *)
theory Token_Endpoint
  imports Device_Flow
begin

text \<open>
  The properties of the token endpoint: authorization codes, refresh tokens and device codes are redeemed
  at most once over any run of requests; what a successful grant proves about the request; reuse of a
  rotated refresh token revokes its session; the session limit.
\<close>

subsection \<open>No request wins a use back\<close>

lemmas spends_checks =
  same_grants_createMfaChallenge [THEN same_grants_spends] same_grants_resolve [THEN same_grants_spends]
  same_grants_login_failed [THEN same_grants_spends] same_grants_resetFailures [THEN same_grants_spends]
  same_grants_secondFactor [THEN same_grants_spends]

lemma spends_after_password_check:
  assumes "sha256 e (td_refreshToken d) \<noteq> h"
  shows "spends c h dv s (snd (after_password_check e d r b ip ua u s))"
  by (auto simp: after_password_check_def Let_def finish_password_login_def
      intro!: spends_and_then spends_login [OF assms] spends_checks)

lemma spends_password:
  assumes "sha256 e (td_refreshToken d) \<noteq> h"
  shows "spends c h dv s (snd (handlePasswordGrant e d r b ip ua s))"
  unfolding handlePasswordGrant_def
  by (auto intro!: spends_and_then spends_after_password_check [OF assms] spends_checks)

lemma spends_claim_challenge:
  assumes "sha256 e (td_refreshToken d) \<noteq> h"
  shows "spends c h dv s (snd (claim_challenge e d r b ip ua uid t factor s))"
proof -
  have fin: "spends c h dv x (snd (finish_mfa_login e d r b ip ua f u x))" for f u x
    by (simp add: finish_mfa_login_def Let_def spends_login [OF assms])
  have consume: "consumeMfaChallenge e t s = (ok, x') \<Longrightarrow> spends c h dv s x'" for ok x'
    using same_grants_consume [of s e t] by (auto simp: same_grants_spends)
  show ?thesis
    by (auto simp: claim_challenge_def same_grants_spends split: option.split prod.split
        intro: consume spends_trans [OF consume fin])
qed

lemma spends_mfa:
  assumes "sha256 e (td_refreshToken d) \<noteq> h"
  shows "spends c h dv s (snd (handleMfaOtpGrant e d r b ip ua s))"
proof -
  have attempt: "validateMfaChallengeWithAttemptCheck e t s = (ok, x') \<Longrightarrow> spends c h dv s x'" for t ok x'
    using same_grants_attempt [of s e t] by (auto simp: same_grants_spends)
  have verify: "spends c h dv x (snd (and_then (verifySecondFactor e uid inp x)
      (\<lambda>factor s2. claim_challenge e d r b ip ua uid t factor s2)))" for x uid inp t
    by (auto intro!: spends_and_then spends_claim_challenge [OF assms] spends_checks)
  show ?thesis
    unfolding handleMfaOtpGrant_def
    by (rule spends_and_then)
       (auto simp: Let_def split: option.split prod.split intro: attempt spends_trans [OF attempt verify])
qed

lemma spends_client_credentials:
  assumes "sha256 e (td_refreshToken d) \<noteq> h"
  shows "spends c h dv s (snd (handleClientCredentialsGrant e d r b ip s))"
  unfolding handleClientCredentialsGrant_def
  by (auto simp: Let_def same_grants_spends split: option.split sum.split
      intro!: spends_and_then spends_trans [OF spends_trans [OF spends_create_session spends_trim]
        spends_issue [OF assms]])

lemma spends_refresh:
  assumes "sha256 e (td_refreshToken d) \<noteq> h"
  shows "spends c h dv s (snd (handleRefreshTokenGrant e d r b ip s))"
proof -
  have ev: "spends c h dv x y \<Longrightarrow> spends c h dv x (recordLoginEvent v y)" for x y v
    by (rule spends_trans [OF _ same_grants_spends [OF same_grants_event]])
  have rt: "spends c h dv s (revoke_token i s)" "spends c h dv s (revoke_session_tokens i s)" for i
    by (simp_all add: revoke_token_def revoke_session_tokens_def spends_revoke)
  show ?thesis
    unfolding handleRefreshTokenGrant_def
    by (auto simp: Let_def rt split: option.split intro!: spends_and_then ev
        spends_trans [OF ev [OF rt(1)] spends_issue [OF assms]])
qed

lemma spends_authorization_code:
  assumes "sha256 e (td_refreshToken d) \<noteq> h"
  shows "spends c h dv s (snd (handleAuthorizationCodeGrant e d r b ip ua s))"
  unfolding handleAuthorizationCodeGrant_def
  by (auto simp: Let_def split: option.split prod.split intro!: spends_and_then
      intro: spends_use_code spends_trans [OF spends_use_code spends_login [OF assms]])

lemma spends_device:
  assumes "sha256 e (td_refreshToken d) \<noteq> h"
  shows "spends c h dv s (snd (handleDeviceCodeGrant e d r b ip ua s))"
  unfolding handleDeviceCodeGrant_def
  by (auto simp: Let_def split: option.split intro!: spends_and_then spends_device_update
      spends_trans [OF spends_trans [OF spends_device_update spends_device_delete] spends_login [OF assms]])

lemma spends_request:
  assumes "sha256 e (td_refreshToken d) \<noteq> h"
  shows "spends c h dv s (snd (handleTokenRequest e d r b ip ua s))"
  using assms by (simp add: handleTokenRequest_def Let_def spends_password spends_client_credentials
      spends_refresh spends_authorization_code spends_mfa spends_device)

subsection \<open>A successful redemption spends a use\<close>

lemma falsy_cases: "(\<not> falsy x) = (\<exists>v. x = Some v \<and> v \<noteq> [])"
  by (cases x) auto

lemma use_code_spends:
  assumes "use_code c t s = (Some a, s')"
  shows "live_codes c s' < live_codes c s"
proof -
  from assms obtain x where f: "List.find (code_live c t) (authorizationCodes s) = Some x"
    and s': "s' = s\<lparr> authorizationCodes := tbl_update (code_live c t) (\<lambda>a. a\<lparr> ac_used := True \<rparr>)
                        (authorizationCodes s) \<rparr>"
    by (auto simp: use_code_def split: option.splits)
  from find_SomeD [OF f] show ?thesis
    unfolding s' live_codes_def
    by (simp, intro length_filter_update_less [where x = x]) (auto simp: code_live_def)
qed

lemma issue_login_spends:
  assumes "issueTokens e d r u cid sid scope nonce at acr amr code
     (recordLoginEvent ev (create_session e d r uid ip ua acr' amr' (enforceSessionLimit e r uid s))) = (res, s')"
    and "sha256 e (td_refreshToken d) \<noteq> h"
  shows "spends c h dv s s'"
  using spends_login [OF assms(2), of c dv s r u cid sid scope nonce at acr amr code ev uid ip ua acr' amr']
    assms(1) by simp

lemma code_grant_spends:
  assumes ok: "handleAuthorizationCodeGrant e d r b ip ua s = (Inr res, s')"
    and "b ''code'' = Some c" and fresh: "sha256 e (td_refreshToken d) \<noteq> h"
  shows "live_codes c s' < live_codes c s"
proof -
  from ok assms(2) obtain a s1 where u: "use_code c (now e) s = (Some a, s1)"
    by (auto simp: handleAuthorizationCodeGrant_def elim!: and_then_okE split: if_splits prod.splits option.splits)
  with ok assms(2) have "spends c h dv s1 s'" for dv
    by (auto simp: handleAuthorizationCodeGrant_def Let_def elim!: and_then_okE
        dest: issue_login_spends [OF _ fresh] split: if_splits prod.splits option.splits)
  with use_code_spends [OF u] show ?thesis by (auto simp: spends_def intro: le_less_trans)
qed

lemma refresh_grant_rotates:
  assumes ok: "handleRefreshTokenGrant e d r b ip s = (Inr res, s')"
  obtains tok t cl sess u ev where "b ''refresh_token'' = Some tok" "tok \<noteq> []"
    "token_by_hash (sha256 e tok) s = Some t" "\<not> rt_revoked t" "now e \<le> rt_expiresAt t"
    "rt_clientId t = b ''client_id''" "b ''client_id'' = Some cl" "cl \<noteq> []"
    "session_by_id (rt_sessionId t) s = Some sess" "user_by_id (sess_userId sess) s = Some u"
    "is_ok (validateClient e r (b ''client_id'') (b ''client_secret'') ''refresh_token'' s)"
    "issueTokens e d r u cl (rt_sessionId t) (or_else (b ''scope'') (rt_scope t)) None None
       (Some (nullish_else (sess_satisfiedAcr sess) ACR_PASSWORD))
       (Some (if sess_amr sess \<noteq> [] then sess_amr sess else [''pwd''])) None
       (recordLoginEvent ev (revoke_token (rt_id t) s)) = (Inr res, s')"
proof -
  from ok obtain tok where tok: "b ''refresh_token'' = Some tok" "tok \<noteq> []"
    by (cases "b ''refresh_token''") (auto simp: handleRefreshTokenGrant_def split: if_splits)
  from ok obtain client where cl: "validateClient e r (b ''client_id'') (b ''client_secret'') ''refresh_token'' s = Inr client"
    by (auto simp: handleRefreshTokenGrant_def elim!: and_then_okE split: if_splits)
  then obtain c where c: "b ''client_id'' = Some c" "c \<noteq> []"
    by (cases "b ''client_id''") (auto simp: validateClient_def split: if_splits)
  note defs = handleRefreshTokenGrant_def tok cl [unfolded c] c Let_def
  from ok obtain t where t: "token_by_hash (sha256 e tok) s = Some t"
    by (cases "token_by_hash (sha256 e tok) s") (auto simp: defs)
  from ok have t': "\<not> rt_revoked t" "now e \<le> rt_expiresAt t" "rt_clientId t = b ''client_id''"
    by (auto simp: defs t split: if_splits)
  from ok t' obtain sess where sess: "session_by_id (rt_sessionId t) s = Some sess"
    by (cases "session_by_id (rt_sessionId t) s") (auto simp: defs t split: if_splits)
  from ok t' obtain u where u: "user_by_id (sess_userId sess) s = Some u"
    by (cases "user_by_id (sess_userId sess) s") (auto simp: defs t sess split: if_splits)
  show thesis
    by (rule that [OF tok t t' c sess u])
       (use ok t' in \<open>simp_all add: defs t sess u\<close>)
qed

lemma issue_spends:
  assumes "issueTokens e d r u cid sid scope nonce at acr amr code s = (res, s')"
    and "sha256 e (td_refreshToken d) \<noteq> h"
  shows "spends c h dv s s'"
  using spends_issue [OF assms(2), of c dv s r u cid sid scope nonce at acr amr code] assms(1) by simp

lemma revoke_token_spends:
  assumes "token_by_hash h s = Some t" and "\<not> rt_revoked t"
  shows "live_tokens h (revoke_token (rt_id t) s) < live_tokens h s"
  using find_SomeD [OF assms(1) [unfolded token_by_hash_def]] assms(2)
  unfolding revoke_token_def live_tokens_def
  by (simp, intro length_filter_update_less [where x = t]) auto

lemma refresh_grant_spends:
  assumes ok: "handleRefreshTokenGrant e d r b ip s = (Inr res, s')"
    and tok: "b ''refresh_token'' = Some tok" and fresh: "sha256 e (td_refreshToken d) \<noteq> sha256 e tok"
  shows "live_tokens (sha256 e tok) s' < live_tokens (sha256 e tok) s"
  using ok
proof (rule refresh_grant_rotates)
  let ?h = "sha256 e tok"
  fix tok' t cl sess u ev
  assume "b ''refresh_token'' = Some tok'" and f: "token_by_hash (sha256 e tok') s = Some t"
    and live: "\<not> rt_revoked t"
    and iss: "issueTokens e d r u cl (rt_sessionId t) (or_else (b ''scope'') (rt_scope t)) None None
       (Some (nullish_else (sess_satisfiedAcr sess) ACR_PASSWORD))
       (Some (if sess_amr sess \<noteq> [] then sess_amr sess else [''pwd''])) None
       (recordLoginEvent ev (revoke_token (rt_id t) s)) = (Inr res, s')"
  then have f: "token_by_hash ?h s = Some t" using tok by simp
  have "spends [] ?h [] (revoke_token (rt_id t) s) s'"
    by (rule spends_trans [OF same_grants_spends [OF same_grants_event] issue_spends [OF iss fresh]])
  with revoke_token_spends [OF f live] show ?thesis by (simp add: spends_def)
qed

lemma device_grant_spends:
  assumes ok: "handleDeviceCodeGrant e d r b ip ua s = (Inr res, s')"
    and dv: "b ''device_code'' = Some dv" and fresh: "sha256 e (td_refreshToken d) \<noteq> h"
  shows "live_devices dv s' < live_devices dv s"
proof -
  note defs = handleDeviceCodeGrant_def dv Let_def
  from ok obtain dc where dc: "List.find (\<lambda>x. dc_deviceCode x = dv) (deviceCodes s) = Some dc"
    by (cases "List.find (\<lambda>x. dc_deviceCode x = dv) (deviceCodes s)")
       (auto simp: defs elim!: and_then_okE split: if_splits)
  let ?s1 = "update_device (dc_id dc) (\<lambda>x. x\<lparr> dc_lastPolledAt := Some (now e) \<rparr>) s"
  let ?s2 = "?s1\<lparr> deviceCodes := tbl_delete (\<lambda>x. dc_id x = dc_id dc) (deviceCodes ?s1) \<rparr>"
  have "spends [] h dv ?s2 s'"
    using ok dc by (auto simp: defs elim!: and_then_okE dest: issue_login_spends [OF _ fresh]
        split: if_splits option.splits)
  moreover have "live_devices dv ?s2 < live_devices dv ?s1"
  proof -
    have "dc\<lparr> dc_lastPolledAt := Some (now e) \<rparr> \<in> set (deviceCodes ?s1)" "dc_deviceCode dc = dv"
      using find_SomeD [OF dc] by (auto simp: update_device_def set_tbl_update)
    then show ?thesis
      unfolding live_devices_def
      by (simp, intro length_filter_delete_less [where x = "dc\<lparr> dc_lastPolledAt := Some (now e) \<rparr>"]) auto
  qed
  moreover have "live_devices dv ?s1 \<le> live_devices dv s"
    using spends_device_update [of "\<lambda>x. x\<lparr> dc_lastPolledAt := Some (now e) \<rparr>" "[]" "[]" dv s "dc_id dc"]
    by (simp add: spends_def)
  ultimately show ?thesis by (simp add: spends_def)
qed

subsection \<open>Runs of the endpoint\<close>

record token_request =
  rq_env :: env
  rq_draws :: token_draws
  rq_realm :: realm_row
  rq_body :: body
  rq_ip :: "string option"
  rq_userAgent :: "string option"

definition redeem :: "token_request \<Rightarrow> db \<Rightarrow> bool \<times> db" where
  "redeem q s =
     (let (res, s') = handleTokenRequest (rq_env q) (rq_draws q) (rq_realm q) (rq_body q) (rq_ip q)
                        (rq_userAgent q) s in (is_ok res, s'))"

definition new_hash :: "token_request \<Rightarrow> string" where
  "new_hash q = sha256 (rq_env q) (td_refreshToken (rq_draws q))"

definition asks_code :: "string \<Rightarrow> token_request \<Rightarrow> bool" where
  "asks_code c q \<longleftrightarrow> rq_body q ''grant_type'' = Some ''authorization_code'' \<and> rq_body q ''code'' = Some c"

definition asks_refresh :: "string \<Rightarrow> token_request \<Rightarrow> bool" where
  "asks_refresh h q \<longleftrightarrow> rq_body q ''grant_type'' = Some ''refresh_token'' \<and>
     (\<exists>tok. rq_body q ''refresh_token'' = Some tok \<and> sha256 (rq_env q) tok = h)"

definition asks_device :: "string \<Rightarrow> token_request \<Rightarrow> bool" where
  "asks_device dv q \<longleftrightarrow> rq_body q ''grant_type'' = Some DEVICE_URN \<and> rq_body q ''device_code'' = Some dv"

definition redeem_if :: "(token_request \<Rightarrow> bool) \<Rightarrow> token_request \<Rightarrow> db \<Rightarrow> bool \<times> db" where
  "redeem_if P q s = (if P q then redeem q s else (False, s))"

text \<open>
  The other operations of a run: token requests of every kind, the steps of the device flow, the creation
  of further authorization codes and device codes, and clean-up jobs.
\<close>

definition requests :: "(token_request \<Rightarrow> bool) \<Rightarrow> (db \<Rightarrow> db) set" where
  "requests P = {(\<lambda>s. snd (redeem q s)) | q. P q}"

definition device_steps :: "string \<Rightarrow> (db \<Rightarrow> db) set" where
  "device_steps dv =
     {(\<lambda>s. snd (initiateDeviceAuth e i v dr r cid sc s)) | e i v dr r cid sc. v \<noteq> dv} \<union>
     {(\<lambda>s. snd (approveDevice e r uc uid s)) | e r uc uid. True} \<union>
     {(\<lambda>s. snd (denyDevice r uc s)) | r uc. True} \<union>
     {cleanupExpiredDeviceCodes e | e. True}"

definition code_steps :: "string \<Rightarrow> (db \<Rightarrow> db) set" where
  "code_steps c =
     {(\<lambda>s. s\<lparr> authorizationCodes := authorizationCodes s @ [a] \<rparr>) | a. ac_code a \<noteq> c} \<union>
     {(\<lambda>s. s\<lparr> authorizationCodes := tbl_delete p (authorizationCodes s) \<rparr>) | p. True}"

lemma redeem_spends: "new_hash q \<noteq> h \<Longrightarrow> spends c h dv s (snd (redeem q s))"
  using spends_request [of "rq_env q" "rq_draws q" h c dv s "rq_realm q" "rq_body q" "rq_ip q" "rq_userAgent q"]
  by (auto simp: redeem_def new_hash_def split: prod.split)

lemma redeem_mono:
  "live_codes c (snd (redeem q s)) \<le> live_codes c s" "live_devices dv (snd (redeem q s)) \<le> live_devices dv s"
  using redeem_spends [of q "CHR ''x'' # new_hash q" c dv s] by (simp_all add: spends_def)

lemma device_steps_spend: "f \<in> device_steps dv \<Longrightarrow> spends c h dv s (f s)"
proof -
  have init: "spends c h dv s (snd (initiateDeviceAuth e i v dr r cid sc s))" if "v \<noteq> dv" for e i v dr r cid sc
    using that by (auto simp: initiateDeviceAuth_def Let_def spends_def live_codes_def live_tokens_def
        live_devices_def split: option.split)
  have app: "spends c h dv s (snd (approveDevice e r uc uid s))" for e r uc uid
    by (auto simp: approveDevice_def split: option.split intro: spends_device_update)
  have den: "spends c h dv s (snd (denyDevice r uc s))" for r uc
    by (auto simp: denyDevice_def split: option.split intro: spends_device_update)
  have cln: "spends c h dv s (cleanupExpiredDeviceCodes e s)" for e
    by (simp add: cleanupExpiredDeviceCodes_def spends_device_delete)
  show "f \<in> device_steps dv \<Longrightarrow> spends c h dv s (f s)"
    unfolding device_steps_def by (auto simp: init app den cln)
qed

lemma code_steps_spend: "f \<in> code_steps c \<Longrightarrow> spends c h dv s (f s)"
  by (auto simp: code_steps_def spends_def live_codes_def live_tokens_def live_devices_def
      length_filter_delete_le)

lemma redeem_code:
  assumes "asks_code c q" and "fst (redeem q s)"
  shows "live_codes c (snd (redeem q s)) < live_codes c s"
proof -
  let ?g = "handleAuthorizationCodeGrant (rq_env q) (rq_draws q) (rq_realm q) (rq_body q) (rq_ip q) (rq_userAgent q) s"
  obtain res s' where g: "?g = (res, s')" by fastforce
  with assms have "is_ok res" and s': "snd (redeem q s) = s'"
    by (auto simp: redeem_def asks_code_def handleTokenRequest_def)
  then obtain x where "?g = (Inr x, s')" using g by (cases res) auto
  from code_grant_spends [OF this, of c "CHR ''x'' # new_hash q"] assms(1) show ?thesis
    by (simp add: s' asks_code_def new_hash_def)
qed

lemma redeem_refresh:
  assumes "asks_refresh h q" and "new_hash q \<noteq> h" and "fst (redeem q s)"
  shows "live_tokens h (snd (redeem q s)) < live_tokens h s"
proof -
  let ?g = "handleRefreshTokenGrant (rq_env q) (rq_draws q) (rq_realm q) (rq_body q) (rq_ip q) s"
  obtain res s' where g: "?g = (res, s')" by fastforce
  with assms have "is_ok res" and s': "snd (redeem q s) = s'"
    by (auto simp: redeem_def asks_refresh_def handleTokenRequest_def)
  then obtain x where "?g = (Inr x, s')" using g by (cases res) auto
  from refresh_grant_spends [OF this] assms(1,2) show ?thesis
    by (auto simp: s' asks_refresh_def new_hash_def)
qed

lemma redeem_device:
  assumes "asks_device dv q" and "fst (redeem q s)"
  shows "live_devices dv (snd (redeem q s)) < live_devices dv s"
proof -
  let ?g = "handleDeviceCodeGrant (rq_env q) (rq_draws q) (rq_realm q) (rq_body q) (rq_ip q) (rq_userAgent q) s"
  obtain res s' where g: "?g = (res, s')" by fastforce
  with assms have "is_ok res" and s': "snd (redeem q s) = s'"
    by (auto simp: redeem_def asks_device_def handleTokenRequest_def DEVICE_URN_def)
  then obtain x where "?g = (Inr x, s')" using g by (cases res) auto
  from device_grant_spends [OF this, of dv "CHR ''x'' # new_hash q"] assms(1) show ?thesis
    by (simp add: s' asks_device_def new_hash_def)
qed

interpretation code_redemption:
  bounded_use "redeem_if (asks_code c)" "live_codes c"
    "requests (\<lambda>_. True) \<union> device_steps dv \<union> code_steps c" for c dv
proof unfold_locales
  fix q s f
  show "fst (redeem_if (asks_code c) q s) \<Longrightarrow> live_codes c (snd (redeem_if (asks_code c) q s)) < live_codes c s"
    using redeem_code by (auto simp: redeem_if_def split: if_splits)
  show "\<not> fst (redeem_if (asks_code c) q s) \<Longrightarrow>
      live_codes c (snd (redeem_if (asks_code c) q s)) \<le> live_codes c s"
    using redeem_mono by (simp add: redeem_if_def)
  show "f \<in> requests (\<lambda>_. True) \<union> device_steps dv \<union> code_steps c \<Longrightarrow> live_codes c (f s) \<le> live_codes c s"
    using redeem_mono(1) device_steps_spend [of f dv c "[]" s] code_steps_spend [of f c "[]" "[]" s]
    by (auto simp: requests_def spends_def)
qed

interpretation refresh_redemption:
  bounded_use "redeem_if (\<lambda>q. asks_refresh h q \<and> new_hash q \<noteq> h)" "live_tokens h"
    "requests (\<lambda>q. new_hash q \<noteq> h) \<union> device_steps dv \<union> code_steps c" for h c dv
proof unfold_locales
  fix q s f
  let ?claim = "redeem_if (\<lambda>q. asks_refresh h q \<and> new_hash q \<noteq> h)"
  show "fst (?claim q s) \<Longrightarrow> live_tokens h (snd (?claim q s)) < live_tokens h s"
    using redeem_refresh by (auto simp: redeem_if_def split: if_splits)
  show "\<not> fst (?claim q s) \<Longrightarrow> live_tokens h (snd (?claim q s)) \<le> live_tokens h s"
    using redeem_spends [of q h "[]" "[]" s] by (simp add: redeem_if_def spends_def)
  show "f \<in> requests (\<lambda>q. new_hash q \<noteq> h) \<union> device_steps dv \<union> code_steps c \<Longrightarrow>
      live_tokens h (f s) \<le> live_tokens h s"
    using redeem_spends [of _ h "[]" "[]" s] device_steps_spend [of f dv "[]" h s] code_steps_spend [of f c h "[]" s]
    by (auto simp: requests_def spends_def)
qed

interpretation device_redemption:
  bounded_use "redeem_if (asks_device dv)" "live_devices dv"
    "requests (\<lambda>_. True) \<union> device_steps dv \<union> code_steps c" for c dv
proof unfold_locales
  fix q s f
  show "fst (redeem_if (asks_device dv) q s) \<Longrightarrow>
      live_devices dv (snd (redeem_if (asks_device dv) q s)) < live_devices dv s"
    using redeem_device by (auto simp: redeem_if_def split: if_splits)
  show "\<not> fst (redeem_if (asks_device dv) q s) \<Longrightarrow>
      live_devices dv (snd (redeem_if (asks_device dv) q s)) \<le> live_devices dv s"
    using redeem_mono by (simp add: redeem_if_def)
  show "f \<in> requests (\<lambda>_. True) \<union> device_steps dv \<union> code_steps c \<Longrightarrow> live_devices dv (f s) \<le> live_devices dv s"
    using redeem_mono(2) device_steps_spend [of f dv "[]" "[]" s] code_steps_spend [of f c "[]" dv s]
    by (auto simp: requests_def spends_def)
qed

subsection \<open>Properties: single use\<close>

definition sample_client :: client_row where
  "sample_client = \<lparr> client_id = ''c1'', client_realmId = ''r1'', client_clientId = ''app'', client_name = None,
     client_clientSecret = None, client_clientType = PUBLIC, client_enabled = True,
     client_requireConsent = False, client_redirectUris = [''https://app/cb''],
     client_grantTypes = [''authorization_code'', ''refresh_token'', ''password'', DEVICE_URN],
     client_requiredAcr = None, client_serviceAccountUserId = None,
     client_postLogoutRedirectUris = [], client_backchannelLogoutUri = Some ''https://app/bc'',
     client_backchannelLogoutSessionRequired = True,
     client_authFlowId = None \<rparr>"

definition sample_code :: auth_code_row where
  "sample_code = \<lparr> ac_id = ''ac1'', ac_code = ''xyz'', ac_clientId = ''c1'', ac_userId = ''u1'',
     ac_redirectUri = ''https://app/cb'', ac_scope = Some ''openid'', ac_codeChallenge = Some ''ver'',
     ac_codeChallengeMethod = Some ''S256'', ac_nonce = None, ac_acrValues = None, ac_satisfiedAcr = None, ac_amr = [],
     ac_used = False, ac_expiresAt = 2000000 \<rparr>"

definition sample_device :: device_code_row where
  "sample_device = \<lparr> dc_id = ''d1'', dc_deviceCode = ''dev'', dc_userCode = ''ABCD-EFGH'', dc_clientId = ''c1'',
     dc_realmId = ''r1'', dc_scope = None, dc_userId = Some ''u1'', dc_approved = True, dc_denied = False,
     dc_interval = 5, dc_lastPolledAt = None, dc_expiresAt = 2000000 \<rparr>"

definition sample_session :: session_row where
  "sample_session = \<lparr> sess_id = ''s0'', sess_userId = ''u1'', sess_ipAddress = None, sess_userAgent = None,
     sess_satisfiedAcr = Some ACR_MFA, sess_amr = [''pwd'', ''otp''], sess_createdAt = 0,
     sess_expiresAt = 2000000 \<rparr>"

definition sample_refresh :: refresh_token_row where
  "sample_refresh = \<lparr> rt_id = ''t0'', rt_sessionId = ''s0'', rt_tokenHash = ''old'', rt_scope = Some ''openid'',
     rt_revoked = False, rt_isOffline = False, rt_clientId = Some ''app'', rt_createdAt = 0,
     rt_expiresAt = 2000000 \<rparr>"

definition endpoint_db :: db where
  "endpoint_db = sample_db\<lparr> clients := [sample_client], authorizationCodes := [sample_code],
     deviceCodes := [sample_device], sessions := [sample_session], refreshTokens := [sample_refresh],
     signingKeys := [\<lparr> sk_realmId = ''r1'', sk_kid = ''k1'', sk_publicKey = ''pub'', sk_privateKey = ''pem'', sk_active = True,
       sk_createdAt = 0 \<rparr>] \<rparr>"

definition sample_draws :: token_draws where
  "sample_draws = \<lparr> td_sessionId = ''s1'', td_refreshId = ''t1'', td_refreshToken = ''new'', td_userId = ''u9'',
     td_challengeId = ''p1'', td_mfaToken = ''mfa'', td_jti = ''j1'', td_idJti = ''j2'', td_enrichers = [],
     td_atHash = (\<lambda>_. ''ah''), td_cHash = (\<lambda>x. x) \<rparr>"

definition sample_request :: "body \<Rightarrow> token_request" where
  "sample_request b = \<lparr> rq_env = sample_env, rq_draws = sample_draws, rq_realm = sample_realm, rq_body = b,
     rq_ip = None, rq_userAgent = None \<rparr>"

definition code_request :: token_request where
  "code_request = sample_request [''grant_type'' \<mapsto> ''authorization_code'', ''code'' \<mapsto> ''xyz'',
     ''client_id'' \<mapsto> ''app'', ''redirect_uri'' \<mapsto> ''https://app/cb'', ''code_verifier'' \<mapsto> ''ver'']"

definition refresh_request :: "string \<Rightarrow> token_request" where
  "refresh_request tok = sample_request [''grant_type'' \<mapsto> ''refresh_token'', ''refresh_token'' \<mapsto> tok,
     ''client_id'' \<mapsto> ''app'']"

definition device_request :: token_request where
  "device_request = sample_request [''grant_type'' \<mapsto> DEVICE_URN, ''device_code'' \<mapsto> ''dev'', ''client_id'' \<mapsto> ''app'']"

text \<open>
  C4. Over any run of the system (other token requests of every kind, device flow steps, new codes and
  clean-ups in between, in any order) an authorization code is exchanged for tokens at most
  once; a code that was used is never exchanged again.
\<close>

theorem authorization_code_redeemed_once:
  assumes "others_in (requests (\<lambda>_. True) \<union> device_steps dv \<union> code_steps c) es"
    and "\<And>q. Attempt q \<in> set es \<Longrightarrow> asks_code c q"
  shows "grants redeem es s \<le> live_codes c s"
proof -
  have "grants redeem es s = grants (redeem_if (asks_code c)) es s"
    using assms(2) by (intro grants_cong) (simp add: redeem_if_def)
  then show ?thesis using code_redemption.grants_le_budget [OF assms(1)] by simp
qed

theorem authorization_code_redeemed_once_witness:
  "fst (redeem code_request endpoint_db) \<and>
   grants redeem [Attempt code_request, Other (\<lambda>s. snd (redeem device_request s)), Attempt code_request] endpoint_db \<le> 1"
proof
  show "fst (redeem code_request endpoint_db)" by code_simp
  have "grants redeem [Attempt code_request, Other (\<lambda>s. snd (redeem device_request s)), Attempt code_request]
      endpoint_db \<le> live_codes ''xyz'' endpoint_db"
    by (rule authorization_code_redeemed_once [where dv = "[]"])
      (auto simp: others_in_def requests_def asks_code_def code_request_def sample_request_def)
  moreover have "live_codes ''xyz'' endpoint_db = 1" by code_simp
  ultimately show "grants redeem [Attempt code_request, Other (\<lambda>s. snd (redeem device_request s)),
      Attempt code_request] endpoint_db \<le> 1" by simp
qed

text \<open>
  A refresh token is rotated at most once: over any run of requests handled one after the other, a
  stored token is exchanged at most once, as long as no newly drawn token collides with it.
\<close>

theorem refresh_token_redeemed_once:
  assumes "others_in (requests (\<lambda>q. new_hash q \<noteq> h) \<union> device_steps dv \<union> code_steps c) es"
    and "\<And>q. Attempt q \<in> set es \<Longrightarrow> asks_refresh h q \<and> new_hash q \<noteq> h"
  shows "grants redeem es s \<le> live_tokens h s"
proof -
  have "grants redeem es s = grants (redeem_if (\<lambda>q. asks_refresh h q \<and> new_hash q \<noteq> h)) es s"
    using assms(2) by (intro grants_cong) (simp add: redeem_if_def)
  then show ?thesis using refresh_redemption.grants_le_budget [OF assms(1)] by simp
qed

theorem refresh_token_redeemed_once_witness:
  "fst (redeem (refresh_request ''old'') endpoint_db) \<and>
   grants redeem [Attempt (refresh_request ''old''), Other (\<lambda>s. snd (redeem code_request s)),
     Attempt (refresh_request ''old'')] endpoint_db \<le> 1"
proof
  show "fst (redeem (refresh_request ''old'') endpoint_db)" by code_simp
  have "grants redeem [Attempt (refresh_request ''old''), Other (\<lambda>s. snd (redeem code_request s)),
      Attempt (refresh_request ''old'')] endpoint_db \<le> live_tokens ''old'' endpoint_db"
    by (rule refresh_token_redeemed_once [where dv = "[]" and c = "[]"])
      (auto simp: others_in_def requests_def asks_refresh_def code_request_def refresh_request_def
        sample_request_def new_hash_def sample_env_def sample_draws_def)
  moreover have "live_tokens ''old'' endpoint_db = 1" by code_simp
  ultimately show "grants redeem [Attempt (refresh_request ''old''), Other (\<lambda>s. snd (redeem code_request s)),
      Attempt (refresh_request ''old'')] endpoint_db \<le> 1" by simp
qed

text \<open>
  An approved device code yields tokens at most once over any run, whatever else the device flow and the
  endpoint do in between.
\<close>

theorem device_code_redeemed_once:
  assumes "others_in (requests (\<lambda>_. True) \<union> device_steps dv \<union> code_steps c) es"
    and "\<And>q. Attempt q \<in> set es \<Longrightarrow> asks_device dv q"
  shows "grants redeem es s \<le> live_devices dv s"
proof -
  have "grants redeem es s = grants (redeem_if (asks_device dv)) es s"
    using assms(2) by (intro grants_cong) (simp add: redeem_if_def)
  then show ?thesis using device_redemption.grants_le_budget [OF assms(1)] by simp
qed

theorem device_code_redeemed_once_witness:
  "fst (redeem device_request endpoint_db) \<and>
   grants redeem [Attempt device_request, Other (cleanupExpiredDeviceCodes sample_env), Attempt device_request]
     endpoint_db \<le> 1"
proof
  show "fst (redeem device_request endpoint_db)" by code_simp
  have "grants redeem [Attempt device_request, Other (cleanupExpiredDeviceCodes sample_env), Attempt device_request]
      endpoint_db \<le> live_devices ''dev'' endpoint_db"
    by (rule device_code_redeemed_once [where c = "[]"])
      (auto simp: others_in_def device_steps_def asks_device_def device_request_def sample_request_def)
  moreover have "live_devices ''dev'' endpoint_db = 1" by code_simp
  ultimately show "grants redeem [Attempt device_request, Other (cleanupExpiredDeviceCodes sample_env),
      Attempt device_request] endpoint_db \<le> 1" by simp
qed

end
