(* ===== verification/Grant_Soundness.thy ===== *)
theory Grant_Soundness
  imports Token_Endpoint
begin

text \<open>
  What a successful token request proves: the checks each grant has passed, that a second factor
  cannot be skipped, that reuse of a rotated refresh token ends its session's tokens, and that a login
  keeps the number of sessions within the realm's limit.
\<close>

subsection \<open>Client authentication\<close>

definition client_authenticated :: "env \<Rightarrow> realm_row \<Rightarrow> body \<Rightarrow> string \<Rightarrow> client_row \<Rightarrow> db \<Rightarrow> bool" where
  "client_authenticated e r b grantType c s \<longleftrightarrow>
     (\<exists>cid. b ''client_id'' = Some cid \<and> cid \<noteq> [] \<and> client_by_clientId (realm_id r) cid s = Some c) \<and>
     client_enabled c \<and> grant_allowed c grantType \<and>
     (client_clientType c = CONFIDENTIAL \<longrightarrow>
        (\<exists>h p. client_clientSecret c = Some h \<and> b ''client_secret'' = Some p \<and> verifyPassword e h p))"

lemma validateClient_sound:
  assumes "validateClient e r (b ''client_id'') (b ''client_secret'') g s = Inr c" and "g \<noteq> []"
  shows "client_authenticated e r b g c s"
  using assms by (auto simp: validateClient_def client_authenticated_def falsy_def
      split: if_splits option.splits)

lemmas grant_names = DEVICE_URN_def MFA_OTP_URN_def

subsection \<open>The authorization code grant\<close>

text \<open>
  C8. Tokens are issued for an authorization code only when the requesting client authenticated, the code was issued
  to that client, is unused and unexpired, the redirect URI is the one it was issued for, and
  the PKCE verifier hashes to the stored challenge; a public client's code without a challenge is
  never accepted, and neither is a code of a locked account.
\<close>

theorem code_exchange_sound:
  assumes "handleAuthorizationCodeGrant e d r b ip ua s = (Inr res, s')"
  shows "\<exists>c a u. client_authenticated e r b ''authorization_code'' c s \<and>
    a \<in> set (authorizationCodes s) \<and> b ''code'' = Some (ac_code a) \<and> \<not> ac_used a \<and> now e < ac_expiresAt a \<and>
    ac_clientId a = client_id c \<and> b ''redirect_uri'' = Some (ac_redirectUri a) \<and>
    (client_clientType c = PUBLIC \<longrightarrow> \<not> falsy (ac_codeChallenge a)) \<and>
    (\<not> falsy (ac_codeChallenge a) \<longrightarrow> (\<exists>v. b ''code_verifier'' = Some v \<and>
        ac_codeChallenge a = Some (base64url_of_hex e (sha256 e v)))) \<and>
    user_by_id (ac_userId a) s = Some u \<and> \<not> locked (checkLocked e r u)"
proof -
  from assms obtain code where code: "b ''code'' = Some code"
    by (cases "b ''code''") (auto simp: handleAuthorizationCodeGrant_def split: if_splits)
  from assms obtain c where c: "validateClient e r (b ''client_id'') (b ''client_secret'') ''authorization_code'' s = Inr c"
    by (auto simp: handleAuthorizationCodeGrant_def elim!: and_then_okE split: if_splits)
  from assms code c obtain a' s1 where u: "use_code code (now e) s = (Some a', s1)"
    by (auto simp: handleAuthorizationCodeGrant_def split: if_splits prod.splits option.splits)
  then obtain a where a: "a \<in> set (authorizationCodes s)" "code_live code (now e) a" "a' = a\<lparr> ac_used := True \<rparr>"
    "users s1 = users s"
    by (auto simp: use_code_def split: option.splits dest!: find_SomeD)
  from assms code c u obtain usr where
    chk: "ac_clientId a' = client_id c" "b ''redirect_uri'' = Some (ac_redirectUri a')"
      "pkce_error e c a' (b ''code_verifier'') = None" "user_by_id (ac_userId a') s1 = Some usr"
      "\<not> locked (checkLocked e r usr)"
    by (auto simp: handleAuthorizationCodeGrant_def split: if_splits option.splits)
  have pk: "client_clientType c = PUBLIC \<longrightarrow> \<not> falsy (ac_codeChallenge a)"
    "\<not> falsy (ac_codeChallenge a) \<longrightarrow> (\<exists>v. b ''code_verifier'' = Some v \<and>
        ac_codeChallenge a = Some (base64url_of_hex e (sha256 e v)))"
    using chk(3) a(3) by (auto simp: pkce_error_def falsy_def split: if_splits option.splits)
  have "client_authenticated e r b ''authorization_code'' c s" using validateClient_sound [OF c] by simp
  then show ?thesis
    using a chk pk code by (auto simp: code_live_def user_by_id_def intro!: exI [of _ c] exI [of _ a])
qed

theorem code_exchange_sound_witness:
  "\<exists>a. a \<in> set (authorizationCodes endpoint_db) \<and> ac_codeChallenge a = Some ''ver'' \<and> \<not> ac_used a"
proof -
  let ?r = "handleAuthorizationCodeGrant sample_env sample_draws sample_realm (rq_body code_request) None None endpoint_db"
  have "is_ok (fst ?r)" by code_simp
  then obtain res where "?r = (Inr res, snd ?r)" by (cases "fst ?r"; cases ?r) auto
  from code_exchange_sound [OF this] show ?thesis
    by (auto simp: endpoint_db_def sample_code_def)
qed

subsection \<open>The password grant\<close>

text \<open>LDAP vouched for the login: an enabled federation of the realm authenticated the credentials.\<close>

definition ldap_vouches :: "env \<Rightarrow> ident \<Rightarrow> string \<Rightarrow> string \<Rightarrow> db \<Rightarrow> bool" where
  "ldap_vouches e rid username password s \<longleftrightarrow>
     (\<exists>f \<in> set (federations s). fed_realmId f = rid \<and> fed_enabled f \<and>
        ldap_authenticate e (fed_id f) username password)"

lemma try_federations_sound:
  "try_federations e i rid un pw fs s = (Inr (Some uid), s') \<Longrightarrow> \<exists>f \<in> set fs. ldap_authenticate e (fed_id f) un pw"
  by (induction fs) (auto split: if_splits option.splits)

lemma federation_sound:
  "authenticateViaFederation e i rid un pw s = (Inr (Some uid), s') \<Longrightarrow> ldap_vouches e rid un pw s"
  by (fastforce simp: authenticateViaFederation_def ldap_vouches_def dest: try_federations_sound)

lemma federation_frame: "federations (snd (authenticateViaFederation e i rid un pw s)) = federations s"
proof -
  have "federations (snd (try_federations e i rid un pw fs s)) = federations s" for fs
    by (induction fs) (auto simp: Let_def split: option.split)
  then show ?thesis by (simp add: authenticateViaFederation_def)
qed

lemma lookup_federated_sound:
  assumes "lookup_federated e d r un pw s = (Inr (Some u), s1)" and "user_enabled u"
    and "falsy (user_passwordHash u)" and "\<not> falsy (user_federationLink u)"
  shows "ldap_vouches e (realm_id r) un pw s"
  using assms by (auto simp: lookup_federated_def elim!: and_then_okE dest!: federation_sound
      split: option.splits if_splits)

lemma lookup_federated_frame:
  "lookup_federated e d r un pw s = (x, s1) \<Longrightarrow> federations s1 = federations s"
  using federation_frame [of e "td_userId d" "realm_id r" un pw s]
  by (auto simp: lookup_federated_def and_then_def split: option.splits if_splits prod.splits sum.splits)

lemma resolve_login_user_sound:
  assumes "resolve_login_user e d r un pw s = (Inr u, s')"
  shows "user_enabled u \<and> (falsy (user_passwordHash u) \<and> \<not> falsy (user_federationLink u) \<longrightarrow>
           ldap_vouches e (realm_id r) un pw s)"
proof -
  from assms obtain user s1 where l: "lookup_federated e d r un pw s = (Inr user, s1)"
    by (auto simp: resolve_login_user_def elim: and_then_okE)
  have vouch: "authenticateViaFederation e i rid un pw s1 = (Inr (Some uid), x) \<Longrightarrow> ldap_vouches e rid un pw s"
    for i rid uid x
    using federation_sound lookup_federated_frame [OF l] by (fastforce simp: ldap_vouches_def)
  from assms l show ?thesis
    using vouch lookup_federated_sound [of e d r un pw s u s1]
    by (auto simp: resolve_login_user_def Let_def elim!: and_then_okE
        split: option.splits if_splits)
qed

lemma factors_cong: "userCredentials s = userCredentials s' \<Longrightarrow> getEnrolledFactors uid s = getEnrolledFactors uid s'"
  by (simp add: getEnrolledFactors_def)

lemma resolve_credentials: "userCredentials (snd (resolve_login_user e d r un pw s)) = userCredentials s"
proof -
  have f: "userCredentials (snd (authenticateViaFederation e i rid un pw x)) = userCredentials x" for i rid x
  proof -
    have "userCredentials (snd (try_federations e i rid un pw fs x)) = userCredentials x" for fs
      by (induction fs) (auto simp: Let_def split: option.split)
    then show ?thesis by (simp add: authenticateViaFederation_def)
  qed
  have at: "userCredentials (snd (and_then m k)) = userCredentials (snd m)"
    if "\<And>v x. userCredentials (snd (k v x)) = userCredentials x" for m :: "'x result \<times> db" and k :: "'x \<Rightarrow> db \<Rightarrow> 'y result \<times> db"
    using that by (cases m; cases "fst m") auto
  have l: "userCredentials (snd (lookup_federated e d r un pw s)) = userCredentials s"
    by (auto simp: lookup_federated_def f at split: option.split)
  show ?thesis
    unfolding resolve_login_user_def
    by (subst at) (auto simp: Let_def f at l split: option.split)
qed

lemma resetFailures_credentials: "userCredentials (snd (resetFailures rid uid s)) = userCredentials s"
  by (simp add: resetFailures_def Let_def update_user_def)


definition password_body :: body where
  "password_body = [''client_id'' \<mapsto> ''app'', ''username'' \<mapsto> ''alice'', ''password'' \<mapsto> ''pw'']"


subsection \<open>The second factor\<close>

text \<open>
  The MFA grant issues tokens only when the challenge token is live, was issued for this realm and for
  this client (if it names one), and the answer was verified as a second factor of the very user the
  challenge belongs to.
\<close>

theorem mfa_grant_sound:
  assumes "handleMfaOtpGrant e d r b ip ua s = (Inr res, s')"
  shows "\<exists>c ch tok otp s1 s2 f. client_authenticated e r b MFA_OTP_URN c s \<and>
    b ''mfa_token'' = Some tok \<and> b ''otp'' = Some otp \<and>
    validateMfaChallengeWithAttemptCheck e tok s = (Some ch, s1) \<and>
    pd_realmId ch = realm_id r \<and> (falsy (pd_clientId ch) \<or> pd_clientId ch = b ''client_id'') \<and>
    verifySecondFactor e (pd_userId ch)
      (if b ''mfa_method'' = Some ''sms'' then SmsInput otp (realm_id r) ''login'' tok else OtpInput otp) s1
      = (Inr (Some f), s2) \<and> fst (consumeMfaChallenge e tok s2)"
proof -
  from assms obtain c where c: "validateClient e r (b ''client_id'') (b ''client_secret'') MFA_OTP_URN s = Inr c"
    by (auto simp: handleMfaOtpGrant_def elim: and_then_okE)
  from assms c obtain tok otp where up: "b ''mfa_token'' = Some tok" "b ''otp'' = Some otp"
    by (auto simp: handleMfaOtpGrant_def falsy_def split: if_splits option.splits)
  from assms c up obtain ch s1 where ch: "validateMfaChallengeWithAttemptCheck e tok s = (Some ch, s1)"
    "challenge_accepted r (b ''client_id'') ch"
    by (auto simp: handleMfaOtpGrant_def split: if_splits option.splits prod.splits)
  let ?inp = "if b ''mfa_method'' = Some ''sms'' then SmsInput otp (realm_id r) ''login'' tok else OtpInput otp"
  from assms c up ch obtain fo s2 where f: "verifySecondFactor e (pd_userId ch) ?inp s1 = (Inr fo, s2)"
    "claim_challenge e d r b ip ua (pd_userId ch) tok fo s2 = (Inr res, s')"
    by (auto simp: handleMfaOtpGrant_def elim!: and_then_okE split: if_splits)
  from f(2) obtain g where "fo = Some g" "fst (consumeMfaChallenge e tok s2)"
    by (auto simp: claim_challenge_def split: option.splits prod.splits if_splits)
  then show ?thesis
    using validateClient_sound [OF c] up ch f(1) by (auto simp: challenge_accepted_def grant_names)
qed

definition mfa_endpoint_db :: db where
  "mfa_endpoint_db = snd (createMfaChallenge sample_env ''pa1'' ''mtok'' ''u1'' ''r1'' None (Some ''app'') None
     (endpoint_db\<lparr> userCredentials := userCredentials totp_db \<rparr>))"

definition mfa_body :: body where
  "mfa_body = [''client_id'' \<mapsto> ''app'', ''mfa_token'' \<mapsto> ''mtok'', ''otp'' \<mapsto> ''123456'']"

theorem mfa_grant_sound_witness:
  "\<exists>ch s1. validateMfaChallengeWithAttemptCheck sample_env ''mtok'' mfa_endpoint_db = (Some ch, s1) \<and>
     pd_realmId ch = ''r1''"
proof -
  let ?r = "handleMfaOtpGrant sample_env sample_draws sample_realm mfa_body None None mfa_endpoint_db"
  have "is_ok (fst ?r)" by code_simp
  then obtain res where "?r = (Inr res, snd ?r)" by (cases "fst ?r"; cases ?r) auto
  from mfa_grant_sound [OF this] show ?thesis
    by (auto simp: mfa_body_def sample_realm_def default_realm_def)
qed

text \<open>
  A second factor cannot be skipped with a device code: the device grant issues tokens only for an approved,
  unexpired, not denied code of the realm, and only when its user has no second factor and the realm
  requires none.
\<close>

theorem device_grant_sound:
  assumes "handleDeviceCodeGrant e d r b ip ua s = (Inr res, s')"
  shows "\<exists>c dc u uid. client_authenticated e r b DEVICE_URN c s \<and> dc \<in> set (deviceCodes s) \<and>
    b ''device_code'' = Some (dc_deviceCode dc) \<and> dc_realmId dc = realm_id r \<and> now e \<le> dc_expiresAt dc \<and>
    \<not> dc_denied dc \<and> dc_approved dc \<and> dc_userId dc = Some uid \<and> user_by_id uid s = Some u \<and>
    \<not> polled_too_soon e dc \<and> \<not> realm_mfaRequired r \<and> getEnrolledFactors (user_id u) s = []"
proof -
  from assms obtain dv where dv: "b ''device_code'' = Some dv"
    by (cases "b ''device_code''") (auto simp: handleDeviceCodeGrant_def split: if_splits)
  from assms obtain c where c: "validateClient e r (b ''client_id'') (b ''client_secret'') DEVICE_URN s = Inr c"
    by (auto simp: handleDeviceCodeGrant_def elim!: and_then_okE split: if_splits)
  note defs = handleDeviceCodeGrant_def dv c Let_def
  from assms obtain dc where dc: "List.find (\<lambda>x. dc_deviceCode x = dv) (deviceCodes s) = Some dc"
    by (cases "List.find (\<lambda>x. dc_deviceCode x = dv) (deviceCodes s)") (auto simp: defs split: if_splits)
  let ?s1 = "update_device (dc_id dc) (\<lambda>x. x\<lparr> dc_lastPolledAt := Some (now e) \<rparr>) s"
  have fr: "user_by_id i ?s1 = user_by_id i s" "getEnrolledFactors i ?s1 = getEnrolledFactors i s" for i
    by (simp_all add: update_device_def user_by_id_def getEnrolledFactors_def)
  from assms have chk: "dc_realmId dc = realm_id r" "now e \<le> dc_expiresAt dc" "\<not> dc_denied dc" "dc_approved dc"
    "\<not> falsy (dc_userId dc)" "\<not> polled_too_soon e dc"
    by (auto simp: defs dc split: if_splits)
  from assms chk obtain u where "user_by_id (the (dc_userId dc)) s = Some u"
    "\<not> isMfaEnabled (user_id u) ?s1" "\<not> isMfaRequired r (user_id u) ?s1"
    by (auto simp: defs dc fr split: if_splits option.splits)
  then show ?thesis
    using validateClient_sound [OF c] find_SomeD [OF dc] dv chk
    by (auto simp: isMfaEnabled_def isMfaRequired_def fr grant_names falsy_cases)
qed

theorem device_grant_sound_witness:
  "\<exists>dc \<in> set (deviceCodes endpoint_db). dc_approved dc \<and> now sample_env \<le> dc_expiresAt dc"
proof -
  let ?r = "handleDeviceCodeGrant sample_env sample_draws sample_realm (rq_body device_request) None None endpoint_db"
  have "is_ok (fst ?r)" by code_simp
  then obtain res where "?r = (Inr res, snd ?r)" by (cases "fst ?r"; cases ?r) auto
  from device_grant_sound [OF this] show ?thesis by blast
qed

subsection \<open>Reuse of a rotated refresh token\<close>

lemma token_by_hash_revoke:
  "token_by_hash h (s\<lparr> refreshTokens := tbl_update p (\<lambda>t. t\<lparr> rt_revoked := True \<rparr>) (refreshTokens s) \<rparr>)
     = map_option (\<lambda>t. if p t then t\<lparr> rt_revoked := True \<rparr> else t) (token_by_hash h s)"
  by (simp add: token_by_hash_def find_tbl_update_key)

lemma issueTokens_stores:
  assumes "issueTokens e d r u cid sid scope nonce at acr amr code s = (Inr res, s')"
  shows "\<exists>t. refreshTokens s' = refreshTokens s @ [t] \<and> rt_tokenHash t = sha256 e (td_refreshToken d) \<and>
           rt_sessionId t = sid \<and> tr_refresh_token res = Some (td_refreshToken d)"
  using assms by (auto simp: issueTokens_def Let_def split: sum.splits)

lemma refuse_revoked:
  assumes "token_by_hash (sha256 e tok) s = Some t" and "rt_revoked t" and "b ''refresh_token'' = Some tok" and "tok \<noteq> []"
    and "is_ok (validateClient e r (b ''client_id'') (b ''client_secret'') ''refresh_token'' s)"
  shows "fst (handleRefreshTokenGrant e d r b ip s) = Inl (oauth_error ''invalid_grant'') \<and>
         refreshTokens (snd (handleRefreshTokenGrant e d r b ip s))
           = refreshTokens (revoke_session_tokens (rt_sessionId t) s)"
  using assms same_grants_event [of "revoke_session_tokens (rt_sessionId t) s"]
  by (auto simp: handleRefreshTokenGrant_def Let_def is_ok_def same_grants_def split: sum.splits)

lemma revoked_never_refreshes:
  assumes "token_by_hash (sha256 e tok) s = Some t" and "rt_revoked t" and "b ''refresh_token'' = Some tok"
  shows "\<not> is_ok (fst (handleRefreshTokenGrant e d r b ip s))"
proof
  assume "is_ok (fst (handleRefreshTokenGrant e d r b ip s))"
  then obtain res where "handleRefreshTokenGrant e d r b ip s = (Inr res, snd (handleRefreshTokenGrant e d r b ip s))"
    by (cases "fst (handleRefreshTokenGrant e d r b ip s)"; cases "handleRefreshTokenGrant e d r b ip s") auto
  then show False using assms by (rule_tac refresh_grant_rotates) auto
qed

text \<open>
  C5. Theft detection: when a refresh token that was already rotated is presented again by an authenticated
  client, the request is refused, every refresh token of the session is revoked, and the token
  issued by the rotation can no longer be used by anyone.
\<close>

theorem refresh_reuse_revokes_session:
  assumes rot: "handleRefreshTokenGrant e d r b ip s = (Inr res, s1)" and tok: "b ''refresh_token'' = Some tok"
    and fresh: "sha256 e (td_refreshToken d) \<notin> rt_tokenHash ` set (refreshTokens s)"
    and replay: "b' ''refresh_token'' = Some tok" "sha256 e' = sha256 e"
      "is_ok (validateClient e' r' (b' ''client_id'') (b' ''client_secret'') ''refresh_token'' s1)"
      "handleRefreshTokenGrant e' d' r' b' ip' s1 = (out, s2)"
  shows "out = Inl (OAuthTokenError ''invalid_grant'' 400) \<and>
    (\<exists>t. token_by_hash (sha256 e tok) s = Some t \<and>
       (\<forall>x \<in> set (refreshTokens s2). rt_sessionId x = rt_sessionId t \<longrightarrow> rt_revoked x)) \<and>
    (\<exists>tok'. tr_refresh_token res = Some tok' \<and>
       (\<forall>e'' d'' r'' b'' ip''. sha256 e'' = sha256 e \<and> b'' ''refresh_token'' = Some tok' \<longrightarrow>
          \<not> is_ok (fst (handleRefreshTokenGrant e'' d'' r'' b'' ip'' s2))))"
proof -
  from rot obtain t cl u ev and sess :: session_row where t: "tok \<noteq> []" "token_by_hash (sha256 e tok) s = Some t" "\<not> rt_revoked t"
    and iss: "issueTokens e d r u cl (rt_sessionId t) (or_else (b ''scope'') (rt_scope t)) None None
       (Some (nullish_else (sess_satisfiedAcr sess) ACR_PASSWORD))
       (Some (if sess_amr sess \<noteq> [] then sess_amr sess else [''pwd''])) None
       (recordLoginEvent ev (revoke_token (rt_id t) s)) = (Inr res, s1)"
    using tok by (rule_tac refresh_grant_rotates) auto
  from issueTokens_stores [OF iss] same_grants_event [of "revoke_token (rt_id t) s" ev]
  obtain new where new: "refreshTokens s1 = refreshTokens (revoke_token (rt_id t) s) @ [new]"
    "rt_tokenHash new = sha256 e (td_refreshToken d)" "rt_sessionId new = rt_sessionId t"
    "tr_refresh_token res = Some (td_refreshToken d)" by (auto simp: same_grants_def)
  have "token_by_hash (sha256 e tok) (revoke_token (rt_id t) s) = Some (t\<lparr> rt_revoked := True \<rparr>)"
    using t(2) by (simp add: revoke_token_def token_by_hash_revoke)
  then have old: "token_by_hash (sha256 e' tok) s1 = Some (t\<lparr> rt_revoked := True \<rparr>)"
    using replay(2) by (simp add: token_by_hash_def new(1) find_append_Some)
  have none: "List.find (\<lambda>x. rt_tokenHash x = sha256 e (td_refreshToken d)) (refreshTokens (revoke_token (rt_id t) s)) = None"
    using fresh by (force simp: find_None_iff revoke_token_def set_tbl_update)
  from refuse_revoked [OF old _ replay(1) t(1) replay(3), of d' ip'] replay(4)
  have out: "out = Inl (oauth_error ''invalid_grant'')"
    "refreshTokens s2 = refreshTokens (revoke_session_tokens (rt_sessionId t) s1)" by auto
  have all: "\<forall>x \<in> set (refreshTokens s2). rt_sessionId x = rt_sessionId t \<longrightarrow> rt_revoked x"
    by (auto simp: out(2) revoke_session_tokens_def set_tbl_update)
  have "token_by_hash (sha256 e (td_refreshToken d)) s1 = Some new"
    using none new(2) by (simp add: token_by_hash_def new(1) find_append_None)
  then have "token_by_hash (sha256 e (td_refreshToken d)) s2 = Some (new\<lparr> rt_revoked := True \<rparr>)"
    using new(3) token_by_hash_revoke [where s = s1 and h = "sha256 e (td_refreshToken d)" and
        p = "\<lambda>x. rt_sessionId x = rt_sessionId t"] out(2)
    by (simp add: token_by_hash_def revoke_session_tokens_def)
  then have "\<not> is_ok (fst (handleRefreshTokenGrant e'' d'' r'' b'' ip'' s2))"
    if "sha256 e'' = sha256 e" "b'' ''refresh_token'' = Some (td_refreshToken d)" for e'' d'' r'' b'' ip''
    using that by (intro revoked_never_refreshes [where tok = "td_refreshToken d"]) auto
  with out(1) t(2) all new(4) show ?thesis by (auto simp: oauth_error_def)
qed

theorem refresh_reuse_revokes_session_witness:
  "fst (handleRefreshTokenGrant sample_env sample_draws sample_realm (rq_body (refresh_request ''old'')) None
     (snd (handleRefreshTokenGrant sample_env sample_draws sample_realm (rq_body (refresh_request ''old'')) None
        endpoint_db))) = Inl (OAuthTokenError ''invalid_grant'' 400)"
proof -
  let ?b = "rq_body (refresh_request ''old'')"
  let ?r = "handleRefreshTokenGrant sample_env sample_draws sample_realm ?b None endpoint_db"
  have "is_ok (fst ?r)" by code_simp
  then obtain res where r: "?r = (Inr res, snd ?r)" by (cases "fst ?r"; cases ?r) auto
  have b: "?b ''refresh_token'' = Some ''old''" by code_simp
  have f: "sha256 sample_env (td_refreshToken sample_draws) \<notin> rt_tokenHash ` set (refreshTokens endpoint_db)"
    by code_simp
  have v: "is_ok (validateClient sample_env sample_realm (?b ''client_id'') (?b ''client_secret'') ''refresh_token'' (snd ?r))"
    by code_simp
  show ?thesis
    using refresh_reuse_revokes_session [OF r b f b refl v, of sample_draws None] by (simp add: prod_eq_iff)
qed

subsection \<open>The session limit\<close>

definition is_active :: "env \<Rightarrow> realm_row \<Rightarrow> ident \<Rightarrow> db \<Rightarrow> session_row \<Rightarrow> bool" where
  "is_active e r uid s x \<longleftrightarrow> sess_userId x = uid \<and>
     (case user_by_id uid s of None \<Rightarrow> False | Some u \<Rightarrow> user_realmId u = realm_id r) \<and> sess_expiresAt x > now e"

lemma active_sessions_eq: "active_sessions e r uid s = order_asc sess_createdAt (filter (is_active e r uid s) (sessions s))"
  by (simp add: active_sessions_def is_active_def [abs_def])

lemma filter_not_taken:
  "distinct (map k xs) \<Longrightarrow> filter (\<lambda>x. k x \<notin> k ` set (take m xs)) xs = drop m xs"
proof (induction xs arbitrary: m)
  case (Cons x xs)
  show ?case
  proof (cases m)
    case 0
    then show ?thesis by (simp add: filter_id_conv)
  next
    case (Suc j)
    have "filter (\<lambda>y. k y \<noteq> k x \<and> k y \<notin> k ` set (take j xs)) xs = filter (\<lambda>y. k y \<notin> k ` set (take j xs)) xs"
      using Cons.prems by (intro filter_cong) (auto simp: image_iff)
    with Suc Cons show ?thesis by simp
  qed
qed simp

lemma order_asc_filter: "filter p (order_asc k xs) = order_asc k (filter p xs)"
  by (simp add: order_asc_def filter_sort)

lemma distinct_order_asc: "distinct (map f (order_asc k xs)) = distinct (map f xs)"
  by (metis distinct_map distinct_sort order_asc_def set_sort)

lemma evicted_are_oldest:
  assumes "x \<in> set (take m (order_asc k xs))" and "y \<in> set (drop m (order_asc k xs))"
  shows "k x \<le> (k y :: int)"
proof -
  have "sorted (map k (take m (order_asc k xs) @ drop m (order_asc k xs)))"
    using sorted_order_asc [of k xs] by simp
  with assms show ?thesis by (simp only: map_append sorted_append) auto
qed

lemma active_after_enforce:
  fixes e :: env and r :: realm_row and uid :: ident and s :: db
  assumes dist: "distinct (map sess_id (sessions s))" and pos: "0 < realm_maxSessionsPerUser r"
  defines "s1 \<equiv> enforceSessionLimit e r uid s"
  shows "int (length (filter (is_active e r uid s) (sessions s1))) < realm_maxSessionsPerUser r \<and>
    (\<forall>x y. x \<in> set (sessions s) \<and> x \<notin> set (sessions s1) \<and> y \<in> set (sessions s1) \<and> is_active e r uid s y \<longrightarrow>
       is_active e r uid s x \<and> sess_createdAt x \<le> sess_createdAt y)"
proof -
  let ?A = "active_sessions e r uid s"
  let ?max = "realm_maxSessionsPerUser r"
  have setA: "set ?A = {x \<in> set (sessions s). is_active e r uid s x}"
    by (simp add: active_sessions_eq)
  have distA: "distinct (map sess_id ?A)"
    using dist by (simp add: active_sessions_eq distinct_order_asc distinct_map_filter)
  show ?thesis
  proof (cases "int (length ?A) \<ge> ?max")
    case False
    with pos have "s1 = s" by (simp add: s1_def enforceSessionLimit_def Let_def)
    with False show ?thesis by (auto simp: active_sessions_eq)
  next
    case True
    define m where "m = nat (int (length ?A) - ?max + 1)"
    define ids where "ids = map sess_id (take m ?A)"
    have ss: "sessions s1 = tbl_delete (\<lambda>x. sess_id x \<in> set ids) (sessions s)"
      using True pos by (simp add: s1_def enforceSessionLimit_def Let_def ids_def m_def delete_sessions_def
          revoke_tokens_of_def)
    have keep: "filter (\<lambda>x. sess_id x \<notin> set ids) ?A = drop m ?A"
      using filter_not_taken [OF distA, of m] by (simp add: ids_def)
    have "filter (is_active e r uid s) (sessions s1)
        = filter (\<lambda>x. sess_id x \<notin> set ids) (filter (is_active e r uid s) (sessions s))"
      by (simp add: ss tbl_delete_def conj_commute)
    then have "length (filter (is_active e r uid s) (sessions s1))
        = length (filter (\<lambda>x. sess_id x \<notin> set ids) ?A)"
      by (simp add: active_sessions_eq order_asc_filter)
    also have "\<dots> = length ?A - m" by (simp add: keep)
    finally have "int (length (filter (is_active e r uid s) (sessions s1))) < ?max"
      using True pos by (simp add: m_def)
    moreover have "is_active e r uid s x \<and> sess_createdAt x \<le> sess_createdAt y"
      if "x \<in> set (sessions s)" "x \<notin> set (sessions s1)" "y \<in> set (sessions s1)" "is_active e r uid s y" for x y
    proof -
      from that(1,2) obtain z where z: "z \<in> set (take m ?A)" "sess_id x = sess_id z"
        by (auto simp: ss ids_def)
      then have "z \<in> set (sessions s)" using setA by (auto dest: in_set_takeD)
      with distinct_id_eq [OF dist that(1)] z(2) have "x = z" by blast
      with z(1) have x: "x \<in> set (take m ?A)" by simp
      have "y \<in> set (filter (\<lambda>x. sess_id x \<notin> set ids) ?A)" using that(3,4) by (simp add: ss setA)
      then have "y \<in> set (drop m ?A)" by (simp only: keep)
      with evicted_are_oldest x have "sess_createdAt x \<le> sess_createdAt y"
        by (simp add: active_sessions_eq)
      moreover have "is_active e r uid s x" using x setA by (auto dest: in_set_takeD)
      ultimately show ?thesis by simp
    qed
    ultimately show ?thesis by blast
  qed
qed

lemma enforce_users: "users (enforceSessionLimit e r uid s) = users s"
  by (simp add: enforceSessionLimit_def Let_def delete_sessions_def revoke_tokens_of_def)

lemma delete_sessions_tokens:
  "t \<in> set (refreshTokens (enforceSessionLimit e r uid s)) \<Longrightarrow> x \<in> set (sessions s) \<Longrightarrow>
   x \<notin> set (sessions (enforceSessionLimit e r uid s)) \<Longrightarrow> rt_sessionId t \<noteq> sess_id x"
  by (auto simp: enforceSessionLimit_def Let_def delete_sessions_def revoke_tokens_of_def set_tbl_update
      split: if_splits)

text \<open>
  C20. A login keeps the session limit: after the limit is enforced and the new session created, the user has at
  most \<open>maxSessionsPerUser\<close> active sessions in the realm; the sessions that were evicted are active ones no
  younger than any that stay, and none of their refresh tokens is left.
\<close>

theorem session_limit_enforced:
  fixes e :: env and r :: realm_row and uid :: ident and s :: db
  assumes "distinct (map sess_id (sessions s))" and "0 < realm_maxSessionsPerUser r"
  defines "s1 \<equiv> enforceSessionLimit e r uid s"
  shows "int (length (active_sessions e r uid (create_session e d r uid ip ua acr amr s1))) \<le> realm_maxSessionsPerUser r \<and>
    (\<forall>x y. x \<in> set (sessions s) \<and> x \<notin> set (sessions s1) \<and> y \<in> set (sessions s1) \<and> y \<in> set (active_sessions e r uid s) \<longrightarrow>
       x \<in> set (active_sessions e r uid s) \<and> sess_createdAt x \<le> sess_createdAt y) \<and>
    (\<forall>x t. x \<in> set (sessions s) \<and> x \<notin> set (sessions s1) \<and> t \<in> set (refreshTokens s1) \<longrightarrow> rt_sessionId t \<noteq> sess_id x)"
proof -
  have "is_active e r uid (create_session e d r uid ip ua acr amr s1) = is_active e r uid s"
    by (simp add: is_active_def [abs_def] user_by_id_def create_session_def s1_def enforce_users)
  then have "length (active_sessions e r uid (create_session e d r uid ip ua acr amr s1))
      \<le> length (filter (is_active e r uid s) (sessions s1)) + 1"
    by (simp add: active_sessions_eq) (simp add: create_session_def)
  moreover note active_after_enforce [OF assms(1,2), of e uid, folded s1_def]
  ultimately have "int (length (active_sessions e r uid (create_session e d r uid ip ua acr amr s1))) \<le> realm_maxSessionsPerUser r"
    by linarith
  moreover have "\<forall>x y. x \<in> set (sessions s) \<and> x \<notin> set (sessions s1) \<and> y \<in> set (sessions s1) \<and>
       y \<in> set (active_sessions e r uid s) \<longrightarrow>
       x \<in> set (active_sessions e r uid s) \<and> sess_createdAt x \<le> sess_createdAt y"
    using active_after_enforce [OF assms(1,2), of e uid, folded s1_def] by (auto simp: active_sessions_eq)
  ultimately show ?thesis using delete_sessions_tokens [of _ e r uid s] by (auto simp: s1_def)
qed

theorem session_limit_enforced_witness:
  "int (length (active_sessions sample_env (sample_realm\<lparr> realm_maxSessionsPerUser := 1 \<rparr>) ''u1''
     (create_session sample_env sample_draws sample_realm ''u1'' None None None []
        (enforceSessionLimit sample_env (sample_realm\<lparr> realm_maxSessionsPerUser := 1 \<rparr>) ''u1'' endpoint_db)))) \<le> 1"
  using session_limit_enforced [of endpoint_db "sample_realm\<lparr> realm_maxSessionsPerUser := 1 \<rparr>" sample_env "''u1''"
      sample_draws None None None "[]"]
  by (simp add: endpoint_db_def sample_db_def create_session_def sample_realm_def default_realm_def)

end
