(* ===== verification/Js_Value.thy ===== *)
theory Js_Value
  imports Complex_Main Prelude
begin

text \<open>
  JavaScript values as the code receives them from JSON (request bodies and \<open>Json\<close> columns), and
  the conversions the policy engine applies to them: property access, \<open>String(v)\<close>, \<open>Number(v)\<close>,
  \<open>===\<close>, \<open>Array.prototype.includes\<close>, \<open>parseInt(s, 10)\<close> and the truth of a value.

  A number is a rational (\<open>Fin\<close>), an infinity or \<open>NaN\<close>.  What a conforming engine leaves to its
  implementation or what is too large to restate is a field of \<open>js_engine\<close>: the rounding of a decimal
  literal to a double, the printing of a double, regular expressions (\<open>None\<close> when the
  pattern does not compile), the properties inherited from the built-in prototypes, and the text of
  a built-in function.  \<open>String\<close> and \<open>Number\<close> of an object that has an own property \<open>toString\<close>
  (which JSON can only make a non-function) throw a \<open>TypeError\<close>: the result is \<open>None\<close>.
\<close>

subsection \<open>Values\<close>

datatype jsnum = NaN | Infinity bool | Fin rat

datatype jsv =
    Undefined
  | Null
  | Bool bool
  | Num jsnum
  | Str string
  | Arr "jsv list"
  | Obj "(string \<times> jsv) list"
  | Builtin string

record js_engine =
  to_double :: "rat \<Rightarrow> jsnum"
  double_string :: "rat \<Rightarrow> string"
  regexp_test :: "string \<Rightarrow> (string \<Rightarrow> bool) option"
  proto_prop :: "jsv \<Rightarrow> string \<Rightarrow> jsv"
  builtin_string :: "string \<Rightarrow> string"

text \<open>
  \<open>Infinity True\<close> is the positive infinity.  The engine of the witnesses keeps rationals
  exact, prints integers, knows the regular expressions that are plain substrings, and has no inherited
  properties.
\<close>

fun is_infix :: "string \<Rightarrow> string \<Rightarrow> bool" where
  "is_infix p [] = (p = [])"
| "is_infix p (c # s) = (take (length p) (c # s) = p \<or> is_infix p s)"

definition show_int :: "int \<Rightarrow> string" where
  "show_int i = (if i < 0 then CHR ''-'' # show_nat (nat (- i)) else show_nat (nat i))"

definition sample_engine :: js_engine where
  "sample_engine =
     \<lparr> to_double = Fin, double_string = (\<lambda>q. show_int \<lfloor>q\<rfloor>),
       regexp_test = (\<lambda>p. if p = ''('' then None else Some (is_infix p)),
       proto_prop = (\<lambda>v k. Undefined), builtin_string = (\<lambda>f. f) \<rparr>"

subsection \<open>Truth, equality and property access\<close>

fun truthy :: "jsv \<Rightarrow> bool" where
  "truthy Undefined = False"
| "truthy Null = False"
| "truthy (Bool b) = b"
| "truthy (Num n) = (n \<noteq> NaN \<and> n \<noteq> Fin 0)"
| "truthy (Str s) = (s \<noteq> [])"
| "truthy _ = True"

text \<open>
  Arrays and objects are compared by reference, and no value of a request is the same reference
  as a value of a stored policy.
\<close>

fun strict_eq :: "jsv \<Rightarrow> jsv \<Rightarrow> bool" where
  "strict_eq Undefined Undefined = True"
| "strict_eq Null Null = True"
| "strict_eq (Bool a) (Bool b) = (a = b)"
| "strict_eq (Num a) (Num b) = (a = b \<and> a \<noteq> NaN)"
| "strict_eq (Str a) (Str b) = (a = b)"
| "strict_eq (Builtin a) (Builtin b) = (a = b)"
| "strict_eq _ _ = False"

definition same_value_zero :: "jsv \<Rightarrow> jsv \<Rightarrow> bool" where
  "same_value_zero a b \<longleftrightarrow> strict_eq a b \<or> a = Num NaN \<and> b = Num NaN"

definition js_includes :: "jsv list \<Rightarrow> jsv \<Rightarrow> bool" where
  "js_includes xs v = list_ex (\<lambda>x. same_value_zero x v) xs"

definition index_key :: "string \<Rightarrow> nat \<Rightarrow> nat option" where
  "index_key k n = List.find (\<lambda>i. show_nat i = k) [0..<n]"

fun get_prop :: "js_engine \<Rightarrow> jsv \<Rightarrow> string \<Rightarrow> jsv" where
  "get_prop e (Obj kvs) k = (case map_of kvs k of Some v \<Rightarrow> v | None \<Rightarrow> proto_prop e (Obj kvs) k)"
| "get_prop e (Arr xs) k =
     (if k = ''length'' then Num (Fin (of_nat (length xs)))
      else case index_key k (length xs) of
             Some i \<Rightarrow> xs ! i
           | None \<Rightarrow> proto_prop e (Arr xs) k)"
| "get_prop e (Str s) k =
     (if k = ''length'' then Num (Fin (of_nat (length s)))
      else case index_key k (length s) of
             Some i \<Rightarrow> Str [s ! i]
           | None \<Rightarrow> proto_prop e (Str s) k)"
| "get_prop e v k = proto_prop e v k"

definition nullish :: "jsv \<Rightarrow> bool" where
  "nullish v \<longleftrightarrow> v = Undefined \<or> v = Null"

subsection \<open>String(v)\<close>

fun num_string :: "js_engine \<Rightarrow> jsnum \<Rightarrow> string" where
  "num_string e NaN = ''NaN''"
| "num_string e (Infinity b) = (if b then ''Infinity'' else ''-Infinity'')"
| "num_string e (Fin q) = double_string e q"

fun join_sep :: "string \<Rightarrow> string list \<Rightarrow> string" where
  "join_sep sep [] = []"
| "join_sep sep [x] = x"
| "join_sep sep (x # y # ys) = x @ sep @ join_sep sep (y # ys)"

fun js_String :: "js_engine \<Rightarrow> jsv \<Rightarrow> string option" where
  "js_String e Undefined = Some ''undefined''"
| "js_String e Null = Some ''null''"
| "js_String e (Bool b) = Some (if b then ''true'' else ''false'')"
| "js_String e (Num n) = Some (num_string e n)"
| "js_String e (Str s) = Some s"
| "js_String e (Arr xs) =
     map_option (join_sep '','')
       (those (map (\<lambda>x. if nullish x then Some [] else js_String e x) xs))"
| "js_String e (Obj kvs) =
     (if ''toString'' \<in> set (map fst kvs) then None else Some ''[object Object]'')"
| "js_String e (Builtin f) = Some (builtin_string e f)"

definition js_join :: "js_engine \<Rightarrow> string \<Rightarrow> jsv list \<Rightarrow> string option" where
  "js_join e sep xs =
     map_option (join_sep sep)
       (those (map (\<lambda>x. if nullish x then Some [] else js_String e x) xs))"

subsection \<open>Number(v) and parseInt\<close>

definition digit_in :: "nat \<Rightarrow> char \<Rightarrow> nat option" where
  "digit_in base c =
     (let n = of_char c :: nat;
          d = (if 48 \<le> n \<and> n \<le> 57 then n - 48
               else if 97 \<le> n \<and> n \<le> 122 then n - 87
               else if 65 \<le> n \<and> n \<le> 90 then n - 55 else base)
      in if d < base then Some d else None)"

definition is_js_digit :: "char \<Rightarrow> bool" where
  "is_js_digit c \<longleftrightarrow> digit_in 10 c \<noteq> None"

definition digits_value :: "nat \<Rightarrow> string \<Rightarrow> nat" where
  "digits_value base s = foldl (\<lambda>a c. a * base + the (digit_in base c)) 0 s"

definition all_digits :: "nat \<Rightarrow> string \<Rightarrow> bool" where
  "all_digits base s \<longleftrightarrow> s \<noteq> [] \<and> list_all (\<lambda>c. digit_in base c \<noteq> None) s"

text \<open>
  The decimal part of the StringNumericLiteral grammar: digits, an optional fraction, an optional
  exponent; the rational value, or \<open>None\<close> when the text is not of that form.
\<close>

definition sign_split :: "string \<Rightarrow> bool \<times> string" where
  "sign_split s =
     (case s of [] \<Rightarrow> (False, [])
      | c # r \<Rightarrow> if c = CHR ''-'' then (True, r) else if c = CHR ''+'' then (False, r) else (False, s))"

definition exponent_part :: "string \<Rightarrow> int option" where
  "exponent_part s =
     (case s of [] \<Rightarrow> Some 0
      | c # r \<Rightarrow>
          if c = CHR ''e'' \<or> c = CHR ''E'' then
            (let (neg, ds) = sign_split r
             in if all_digits 10 ds
                then Some (if neg then - int (digits_value 10 ds) else int (digits_value 10 ds))
                else None)
          else None)"

definition pow10 :: "int \<Rightarrow> rat" where
  "pow10 k = (if 0 \<le> k then 10 ^ nat k else 1 / 10 ^ nat (- k))"

definition decimal_literal :: "string \<Rightarrow> rat option" where
  "decimal_literal s =
     (let whole = takeWhile is_js_digit s;
          r1 = dropWhile is_js_digit s;
          dot = (r1 \<noteq> [] \<and> hd r1 = CHR ''.'');
          frac = (if dot then takeWhile is_js_digit (tl r1) else []);
          r2 = (if dot then dropWhile is_js_digit (tl r1) else r1)
      in if whole = [] \<and> frac = [] then None
         else map_option (\<lambda>k. of_nat (digits_value 10 (whole @ frac)) * pow10 (k - int (length frac)))
                (exponent_part r2))"

definition radix_prefix :: "string \<Rightarrow> nat option" where
  "radix_prefix s =
     (let p = to_lower (take 2 s)
      in if p = ''0x'' then Some 16 else if p = ''0o'' then Some 8 else if p = ''0b'' then Some 2
         else None)"

definition number_of_string :: "js_engine \<Rightarrow> string \<Rightarrow> jsnum" where
  "number_of_string e s0 =
     (let s = js_trim s0
      in if s = [] then Fin 0
         else case radix_prefix s of
                Some b \<Rightarrow> (if all_digits b (drop 2 s)
                           then to_double e (of_nat (digits_value b (drop 2 s))) else NaN)
              | None \<Rightarrow>
                  (let (neg, r) = sign_split s
                   in if r = ''Infinity'' then Infinity (\<not> neg)
                      else case decimal_literal r of
                             None \<Rightarrow> NaN
                           | Some q \<Rightarrow> to_double e (if neg then - q else q)))"

fun js_Number :: "js_engine \<Rightarrow> jsv \<Rightarrow> jsnum option" where
  "js_Number e Undefined = Some NaN"
| "js_Number e Null = Some (Fin 0)"
| "js_Number e (Bool b) = Some (Fin (if b then 1 else 0))"
| "js_Number e (Num n) = Some n"
| "js_Number e (Str s) = Some (number_of_string e s)"
| "js_Number e v = map_option (number_of_string e) (js_String e v)"

fun num_less :: "jsnum \<Rightarrow> jsnum \<Rightarrow> bool" where
  "num_less (Fin p) (Fin q) = (p < q)"
| "num_less (Fin p) (Infinity b) = b"
| "num_less (Infinity b) (Fin q) = (\<not> b)"
| "num_less (Infinity a) (Infinity b) = (\<not> a \<and> b)"
| "num_less _ _ = False"

definition parseInt :: "string \<Rightarrow> int option" where
  "parseInt s =
     (let (neg, r) = sign_split (dropWhile js_space s);
          ds = takeWhile is_js_digit r
      in if ds = [] then None
         else Some (if neg then - int (digits_value 10 ds) else int (digits_value 10 ds)))"

subsection \<open>Decimal numerals\<close>

lemma digit_in_char_of: "n < 10 \<Longrightarrow> digit_in 10 (char_of (48 + n)) = Some n"
  by (simp add: digit_in_def)

lemma show_nat_digits: "c \<in> set (show_nat n) \<Longrightarrow> \<exists>d < 10. c = char_of (48 + d :: nat)"
proof (induction n rule: show_nat.induct)
  case (1 n)
  show ?case
  proof (cases "n < 10")
    case True
    with 1(2) show ?thesis by (auto simp: show_nat.simps [of n])
  next
    case False
    with 1 show ?thesis by (auto simp: show_nat.simps [of n] intro: exI [of _ "n mod 10"])
  qed
qed

lemma show_nat_nonempty [simp]: "show_nat n \<noteq> []"
  by (simp add: show_nat.simps [of n])

lemma show_nat_is_digit: "c \<in> set (show_nat n) \<Longrightarrow> is_js_digit c"
  using show_nat_digits [of c n] by (auto simp: is_js_digit_def digit_in_char_of)

lemma digits_value_show_nat: "digits_value 10 (show_nat n) = n"
proof (induction n rule: show_nat.induct)
  case (1 n)
  show ?case
  proof (cases "n < 10")
    case True
    then show ?thesis by (simp add: show_nat.simps [of n] digits_value_def digit_in_char_of)
  next
    case False
    with 1 show ?thesis
      by (simp add: show_nat.simps [of n] digits_value_def digit_in_char_of)
  qed
qed

lemma is_digit_not:
  assumes "is_js_digit c"
  shows "\<not> js_space c" "c \<noteq> CHR ''-''" "c \<noteq> CHR ''+''" "c \<noteq> CHR ''.''" "c \<noteq> CHR ''/''"
    "c \<noteq> CHR ''x''" "c \<noteq> CHR ''I''" "c \<noteq> CHR '':''"
    "c \<notin> {CHR ''X'', CHR ''o'', CHR ''O'', CHR ''b'', CHR ''B''}"
  using assms by (auto simp: is_js_digit_def digit_in_def js_space_def Let_def split: if_splits)

lemma js_trim_no_space: "(\<And>c. c \<in> set s \<Longrightarrow> \<not> js_space c) \<Longrightarrow> js_trim s = s"
proof -
  assume a: "\<And>c. c \<in> set s \<Longrightarrow> \<not> js_space c"
  have "dropWhile js_space t = t" if "set t \<subseteq> set s" for t
    using that a by (cases t) auto
  then show "js_trim s = s" by (simp add: js_trim_def)
qed

lemma to_lower_nth_digit: "to_lower (take 2 s) = [CHR ''0'', c] \<Longrightarrow> list_all is_js_digit s \<Longrightarrow>
  c \<noteq> CHR ''x'' \<and> c \<noteq> CHR ''o'' \<and> c \<noteq> CHR ''b''"
proof -
  assume a: "to_lower (take 2 s) = [CHR ''0'', c]" "list_all is_js_digit s"
  then obtain x y r where s: "s = x # y # r"
    by (cases s; cases "tl s") (auto simp: to_lower_def)
  with a have "is_js_digit y" by simp
  then have "48 \<le> (of_char y :: nat) \<and> (of_char y :: nat) \<le> 57"
    by (auto simp: is_js_digit_def digit_in_def Let_def split: if_splits)
  with a s have "c = y" by (auto simp: to_lower_def split: if_splits)
  with \<open>is_js_digit y\<close> is_digit_not [of y] show ?thesis by auto
qed

lemma radix_prefix_digits: "list_all is_js_digit s \<Longrightarrow> radix_prefix s = None"
  using to_lower_nth_digit [of s "CHR ''x''"] to_lower_nth_digit [of s "CHR ''o''"]
    to_lower_nth_digit [of s "CHR ''b''"]
  by (simp add: radix_prefix_def Let_def) blast

lemma sign_split_digits: "s \<noteq> [] \<Longrightarrow> list_all is_js_digit s \<Longrightarrow> sign_split s = (False, s)"
  by (cases s) (simp_all add: sign_split_def is_digit_not)

lemma takeWhile_digits: "list_all is_js_digit s \<Longrightarrow> takeWhile is_js_digit s = s"
  by (simp add: list_all_iff)

lemma dropWhile_digits: "list_all is_js_digit s \<Longrightarrow> dropWhile is_js_digit s = []"
  by (simp add: list_all_iff)

lemma number_of_digits:
  assumes "s \<noteq> []" and d: "list_all is_js_digit s"
  shows "number_of_string e s = to_double e (of_nat (digits_value 10 s))"
proof -
  have "js_trim s = s" using d by (intro js_trim_no_space) (auto simp: list_all_iff dest: is_digit_not)
  moreover have "\<not> is_js_digit CHR ''I''" by (simp add: is_js_digit_def digit_in_def)
  then have "s \<noteq> ''Infinity''" using d by auto
  ultimately show ?thesis
    using assms by (simp add: number_of_string_def radix_prefix_digits sign_split_digits
        decimal_literal_def takeWhile_digits dropWhile_digits exponent_part_def pow10_def)
qed

lemma show_nat_all_digits: "list_all is_js_digit (show_nat n)"
  by (auto simp: list_all_iff intro: show_nat_is_digit)

lemma number_of_show_nat: "number_of_string e (show_nat n) = to_double e (of_nat n)"
  by (simp add: number_of_digits show_nat_all_digits digits_value_show_nat)

lemma parseInt_show_nat: "parseInt (show_nat n) = Some (int n)"
proof -
  have "dropWhile js_space (show_nat n) = show_nat n"
    using show_nat_is_digit [of _ n] is_digit_not(1) by (cases "show_nat n") auto
  then show ?thesis
    by (simp add: parseInt_def sign_split_digits show_nat_all_digits takeWhile_digits digits_value_show_nat)
qed

end
