(* ===== verification/Ipv4_Text.thy ===== *)
theory Ipv4_Text
  imports Js_Value "HOL-Library.Word"
begin

text \<open>
  IPv4 addresses as text and as numbers: the dotted form of four octets, the number they denote, and
  what the shifts and masks of 32-bit integers compute on them.  The policy engine and the
  outbound-request guard share these facts.
\<close>

unbundle bit_operations_syntax

subsection \<open>Dotted form\<close>

definition dotted :: "nat list \<Rightarrow> string" where
  "dotted os = join_with (CHR ''.'') (map show_nat os)"

definition octets :: "nat list \<Rightarrow> bool" where
  "octets os \<longleftrightarrow> length os = 4 \<and> (\<forall>n \<in> set os. n < 256)"

definition address :: "nat list \<Rightarrow> nat" where
  "address os = foldl (\<lambda>a n. a * 256 + n) 0 os"

lemma octetsE:
  assumes "octets os"
  obtains a b c d where "os = [a, b, c, d]" "a < 256" "b < 256" "c < 256" "d < 256"
proof -
  from assms have l: "length os = 4" and s: "\<forall>n \<in> set os. n < 256" by (auto simp: octets_def)
  from l obtain a b c d where "os = [a, b, c, d]"
    by (auto simp: eval_nat_numeral length_Suc_conv)
  with s that show thesis by auto
qed

lemma push_or: "0 \<le> b \<Longrightarrow> b < 2 ^ n \<Longrightarrow> push_bit n a OR b = a * 2 ^ n + (b :: int)"
  using concat_bit_eq [of n b a] concat_bit_def [of n b a]
  by (simp add: take_bit_int_eq_self push_bit_eq_mult ac_simps)

lemma split_dotted:
  "os \<noteq> [] \<Longrightarrow> split_on (CHR ''.'') (dotted os) = map show_nat os"
  unfolding dotted_def
  by (intro split_on_join) (auto dest: show_nat_is_digit is_digit_not(4))

lemma quad_word:
  assumes "a < 256" "b < 256" "c < 256" "d < (256 :: int)" "0 \<le> a" "0 \<le> b" "0 \<le> c" "0 \<le> d"
  shows "push_bit 24 (word_of_int a) OR push_bit 16 (word_of_int b) OR push_bit 8 (word_of_int c)
      OR word_of_int d = (word_of_int (((a * 256 + b) * 256 + c) * 256 + d) :: 32 word)"
proof -
  have "push_bit 24 a OR (push_bit 16 b OR (push_bit 8 c OR d)) = ((a * 256 + b) * 256 + c) * 256 + d"
    using assms by (simp add: push_or)
  then show ?thesis
    by (simp only: push_bit_of_int of_int_or_eq [symmetric])
qed

subsection \<open>Masks\<close>

lemma mask_eq_iff:
  fixes x y :: "32 word"
  assumes "k < 32"
  shows "x AND push_bit k (NOT 0) = y AND push_bit k (NOT 0) \<longleftrightarrow> unat x div 2 ^ k = unat y div 2 ^ k"
proof -
  have m: "z AND push_bit k (NOT 0) = push_bit k (drop_bit k z)" for z :: "32 word"
    by (rule bit_eqI) (auto simp: bit_simps)
  have d: "drop_bit k (push_bit k (drop_bit k z)) = drop_bit k z" for z :: "32 word"
    by (rule bit_eqI) (auto simp: bit_simps dest: bit_imp_le_length)
  have "x AND push_bit k (NOT 0) = y AND push_bit k (NOT 0) \<longleftrightarrow> drop_bit k x = drop_bit k y"
    unfolding m by (metis d)
  also have "\<dots> \<longleftrightarrow> unat (drop_bit k x) = unat (drop_bit k y)" by (simp add: word_unat_eq_iff)
  finally show ?thesis by (simp only: unat_drop_bit_eq drop_bit_eq_div [where 'a = nat])
qed

lemma address_less: "octets os \<Longrightarrow> address os < 2 ^ 32"
  by (erule octetsE) (simp add: address_def)

end
