(* ===== verification/Policy_Engine.thy ===== *)
theory Policy_Engine
  imports Ipv4_Text "HOL-Library.Multiset"
begin

text \<open>
  The attribute-based policy engine (\<open>src/authorization/policy-engine.ts\<close>): conditions over a
  request, policies as groups of conditions, and the decision over all the policies of a realm.  The
  evaluation of a condition throws a \<open>TypeError\<close> when the stored condition is not an object with a
  string field, or when a value it has to print cannot be converted; the exception leaves
  \<open>evaluatePolicies\<close>.  Word operations are those of the 32-bit integers \<open>ipInCidr\<close> computes on.
\<close>

unbundle bit_operations_syntax

subsection \<open>Policies, requests and results\<close>

record policy_row =
  pol_id :: ident
  pol_realmId :: ident
  pol_name :: string
  pol_description :: "string option"
  pol_enabled :: bool
  pol_effect :: string
  pol_priority :: int
  pol_logic :: string
  pol_clientId :: "string option"
  pol_subjectConditions :: jsv
  pol_resourceConditions :: jsv
  pol_actionConditions :: jsv
  pol_environmentConditions :: jsv
  pol_createdAt :: millis

record policy_request =
  req_subject :: jsv
  req_resource :: jsv
  req_action :: jsv
  req_environment :: jsv
  req_clientId :: "string option"

datatype effect = ALLOW | DENY

record condition_result =
  cr_conditionType :: string
  cr_passed :: bool
  cr_reason :: string

record policy_match =
  pm_policyId :: ident
  pm_policyName :: string
  pm_effect :: effect
  pm_matched :: bool
  pm_conditionResults :: "condition_result list"

datatype decision_reason = ExplicitDeny string | PermittedBy string | DefaultDeny

record policy_result =
  pr_decision :: effect
  pr_reason :: decision_reason
  pr_matchedPolicies :: "policy_match list"
  pr_evaluatedCount :: nat

subsection \<open>Fields and address ranges\<close>

fun resolve_parts :: "js_engine \<Rightarrow> jsv \<Rightarrow> string list \<Rightarrow> jsv" where
  "resolve_parts e current [] = current"
| "resolve_parts e current (part # parts) =
     (if nullish current then Undefined else resolve_parts e (get_prop e current part) parts)"

definition resolveField :: "js_engine \<Rightarrow> jsv \<Rightarrow> string \<Rightarrow> jsv" where
  "resolveField e context field = resolve_parts e context (split_on (CHR ''.'') field)"

text \<open>
  \<open>part32\<close> is the conversion \<open>ToInt32\<close> of a part that has passed the range check \<open>0..255\<close>.
\<close>

definition octet_ok :: "jsnum \<Rightarrow> bool" where
  "octet_ok p = (case p of Fin q \<Rightarrow> 0 \<le> q \<and> q \<le> 255 | _ \<Rightarrow> False)"

definition part32 :: "jsnum \<Rightarrow> 32 word" where
  "part32 p = (case p of Fin q \<Rightarrow> word_of_int \<lfloor>q\<rfloor> | _ \<Rightarrow> 0)"

definition ipToInt :: "js_engine \<Rightarrow> string \<Rightarrow> 32 word option" where
  "ipToInt e addr =
     (let parts = map (number_of_string e) (split_on (CHR ''.'') addr)
      in if length parts \<noteq> 4 \<or> list_ex (\<lambda>p. \<not> octet_ok p) parts then None
         else Some (push_bit 24 (part32 (parts ! 0)) OR push_bit 16 (part32 (parts ! 1))
                    OR push_bit 8 (part32 (parts ! 2)) OR part32 (parts ! 3)))"

definition ipInCidr :: "js_engine \<Rightarrow> string \<Rightarrow> string \<Rightarrow> bool" where
  "ipInCidr e ip cidr =
     (case split_on (CHR ''/'') cidr of
        rangeStr # bitsStr # _ \<Rightarrow>
          (if rangeStr = [] \<or> bitsStr = [] then False
           else case parseInt bitsStr of
                  None \<Rightarrow> False
                | Some bits \<Rightarrow>
                    (if bits < 0 \<or> 32 < bits then False
                     else case (ipToInt e ip, ipToInt e rangeStr) of
                            (Some ipInt, Some rangeInt) \<Rightarrow>
                              (let mask = (if bits = 0 then 0
                                           else push_bit (nat (32 - bits)) (NOT 0)) :: 32 word
                               in ipInt AND mask = rangeInt AND mask)
                          | _ \<Rightarrow> False))
      | _ \<Rightarrow> False)"

subsection \<open>Conditions\<close>

text \<open>
  \<open>answer p parts\<close> is the result object \<open>{ passed, reason }\<close>: the template literal of the
  reason is the concatenation of its parts, and throws when the conversion of one of them throws.
\<close>

definition quoted :: "string \<Rightarrow> string" where
  "quoted s = CHR 0x22 # s @ [CHR 0x22]"

definition answer :: "bool \<Rightarrow> string option list \<Rightarrow> (bool \<times> string) result" where
  "answer p parts = (case those parts of None \<Rightarrow> Inl TypeError | Some ss \<Rightarrow> Inr (p, concat ss))"

definition op_equals :: "js_engine \<Rightarrow> string \<Rightarrow> jsv \<Rightarrow> jsv \<Rightarrow> (bool \<times> string) result" where
  "op_equals e field actual expected =
     (let passed = strict_eq actual expected
      in if passed
         then answer passed [Some (quoted field @ '' equals ''), map_option quoted (js_String e expected)]
         else answer passed [Some (quoted field @ '' is ''), map_option quoted (js_String e actual),
                Some '', expected '', map_option quoted (js_String e expected)])"

definition op_notEquals :: "js_engine \<Rightarrow> string \<Rightarrow> jsv \<Rightarrow> jsv \<Rightarrow> (bool \<times> string) result" where
  "op_notEquals e field actual expected =
     (let passed = (\<not> strict_eq actual expected)
      in if passed
         then answer passed [Some (quoted field @ '' is not ''), map_option quoted (js_String e expected)]
         else answer passed [Some (quoted field @ '' equals ''), map_option quoted (js_String e expected),
                Some '' but should not''])"

definition op_contains :: "js_engine \<Rightarrow> string \<Rightarrow> jsv \<Rightarrow> jsv \<Rightarrow> (bool \<times> string) result" where
  "op_contains e field actual expected =
     (let ans = (\<lambda>passed. answer passed [Some (quoted field),
                   Some (if passed then '' contains '' else '' does not contain ''),
                   map_option quoted (js_String e expected)])
      in case actual of
           Str s \<Rightarrow> (case js_String e expected of
                       None \<Rightarrow> Inl TypeError
                     | Some t \<Rightarrow> ans (is_infix t s))
         | Arr xs \<Rightarrow> ans (js_includes xs expected)
         | _ \<Rightarrow> ans False)"

definition op_in :: "js_engine \<Rightarrow> string \<Rightarrow> jsv \<Rightarrow> jsv \<Rightarrow> (bool \<times> string) result" where
  "op_in e field actual expected =
     (case expected of
        Arr xs \<Rightarrow>
          (let passed = js_includes xs actual
           in if passed
              then answer passed [Some (quoted field @ '' is in [''), js_join e '', '' xs, Some '']'']
              else answer passed [Some (quoted field @ '' (''), map_option quoted (js_String e actual),
                     Some '') is not in ['', js_join e '', '' xs, Some '']''])
      | _ \<Rightarrow> answer False [Some (''operator '' @ quoted ''in'' @ '' requires an array value'')])"

definition op_notIn :: "js_engine \<Rightarrow> string \<Rightarrow> jsv \<Rightarrow> jsv \<Rightarrow> (bool \<times> string) result" where
  "op_notIn e field actual expected =
     (case expected of
        Arr xs \<Rightarrow>
          (let passed = (\<not> js_includes xs actual)
           in if passed
              then answer passed [Some (quoted field @ '' is not in [''), js_join e '', '' xs, Some '']'']
              else answer passed [Some (quoted field @ '' (''), map_option quoted (js_String e actual),
                     Some '') is in ['', js_join e '', '' xs, Some '']''])
      | _ \<Rightarrow> answer False [Some (''operator '' @ quoted ''notIn'' @ '' requires an array value'')])"

text \<open>
  \<open>greaterThan\<close> and \<open>lessThan\<close> are the same code with \<open>>\<close> and \<open><\<close>.
\<close>

definition op_compare ::
  "(jsnum \<Rightarrow> jsnum \<Rightarrow> bool) \<Rightarrow> string \<Rightarrow> js_engine \<Rightarrow> string \<Rightarrow> jsv \<Rightarrow> jsv \<Rightarrow> (bool \<times> string) result" where
  "op_compare rel sgn_txt e field actual expected =
     (case (js_Number e actual, js_Number e expected) of
        (Some numActual, Some numExpected) \<Rightarrow>
          (if numActual = NaN \<or> numExpected = NaN
           then answer False [Some (quoted field @ '' or value is not numeric'')]
           else let passed = rel numActual numExpected
                in answer passed [Some (quoted field @ '' ('' @ num_string e numActual @ '') '' @
                     (if passed then sgn_txt else ''is not '' @ sgn_txt) @ '' '' @ num_string e numExpected)])
      | _ \<Rightarrow> Inl TypeError)"

definition op_greaterThan :: "js_engine \<Rightarrow> string \<Rightarrow> jsv \<Rightarrow> jsv \<Rightarrow> (bool \<times> string) result" where
  "op_greaterThan = op_compare (\<lambda>a b. num_less b a) ''>''"

definition op_lessThan :: "js_engine \<Rightarrow> string \<Rightarrow> jsv \<Rightarrow> jsv \<Rightarrow> (bool \<times> string) result" where
  "op_lessThan = op_compare num_less ''<''"

text \<open>
  \<open>new RegExp(String(expected))\<close> stands inside a \<open>try\<close>; when \<open>String(expected)\<close> throws there, the
  reason of the \<open>catch\<close> branch converts the value again and throws.
\<close>

definition op_matches :: "js_engine \<Rightarrow> string \<Rightarrow> jsv \<Rightarrow> jsv \<Rightarrow> (bool \<times> string) result" where
  "op_matches e field actual expected =
     (case actual of
        Str s \<Rightarrow>
          (case js_String e expected of
             None \<Rightarrow> Inl TypeError
           | Some pat \<Rightarrow>
               (case regexp_test e pat of
                  None \<Rightarrow> answer False [Some (''invalid regex: '' @ quoted pat)]
                | Some test \<Rightarrow>
                    (if test s then answer True [Some (quoted field @ '' matches /'' @ pat @ ''/'')]
                     else answer False [Some (quoted field @ '' ('' @ quoted s @ '') does not match /'' @
                            pat @ ''/'')])))
      | _ \<Rightarrow> answer False [Some (quoted field @ '' is not a string'')])"

definition op_ipInRange :: "js_engine \<Rightarrow> string \<Rightarrow> jsv \<Rightarrow> jsv \<Rightarrow> (bool \<times> string) result" where
  "op_ipInRange e field actual expected =
     (case actual of
        Str s \<Rightarrow>
          (case js_String e expected of
             None \<Rightarrow> Inl TypeError
           | Some cidr \<Rightarrow>
               (let passed = ipInCidr e s cidr
                in answer passed [Some (''IP '' @ quoted s @
                     (if passed then '' is in range '' else '' is not in range '') @ quoted cidr)]))
      | _ \<Rightarrow> answer False [Some (quoted field @ '' is not a string IP'')])"

definition evaluateCondition :: "js_engine \<Rightarrow> jsv \<Rightarrow> jsv \<Rightarrow> (bool \<times> string) result" where
  "evaluateCondition e condition context =
     (if nullish condition then Inl TypeError
      else case get_prop e condition ''field'' of
             Str field \<Rightarrow>
               (let actual = resolveField e context field;
                    expected = get_prop e condition ''value'';
                    operator = get_prop e condition ''operator''
                in if operator = Str ''equals'' then op_equals e field actual expected
                   else if operator = Str ''notEquals'' then op_notEquals e field actual expected
                   else if operator = Str ''contains'' then op_contains e field actual expected
                   else if operator = Str ''in'' then op_in e field actual expected
                   else if operator = Str ''notIn'' then op_notIn e field actual expected
                   else if operator = Str ''greaterThan'' then op_greaterThan e field actual expected
                   else if operator = Str ''lessThan'' then op_lessThan e field actual expected
                   else if operator = Str ''matches'' then op_matches e field actual expected
                   else if operator = Str ''ipInRange'' then op_ipInRange e field actual expected
                   else answer False [Some ''unknown operator '', map_option quoted (js_String e operator)])
           | _ \<Rightarrow> Inl TypeError)"

subsection \<open>Condition groups\<close>

definition parseConditions :: "jsv \<Rightarrow> jsv list" where
  "parseConditions raw =
     (if \<not> truthy raw \<or> raw = Arr [] then []
      else case raw of Arr xs \<Rightarrow> xs | _ \<Rightarrow> [raw])"

fun map_result :: "('a \<Rightarrow> 'b result) \<Rightarrow> 'a list \<Rightarrow> 'b list result" where
  "map_result f [] = Inr []"
| "map_result f (x # xs) =
     (case f x of
        Inl err \<Rightarrow> Inl err
      | Inr y \<Rightarrow> (case map_result f xs of Inl err \<Rightarrow> Inl err | Inr ys \<Rightarrow> Inr (y # ys)))"

datatype combine = Logic_AND | Logic_OR

definition evaluateConditions ::
  "js_engine \<Rightarrow> jsv list \<Rightarrow> jsv \<Rightarrow> combine \<Rightarrow> (bool \<times> (bool \<times> string) list) result" where
  "evaluateConditions e conditions context logic =
     (if conditions = [] then Inr (True, [])
      else case map_result (\<lambda>c. evaluateCondition e c context) conditions of
             Inl err \<Rightarrow> Inl err
           | Inr results \<Rightarrow>
               Inr (if logic = Logic_AND then list_all fst results else list_ex fst results, results))"

subsection \<open>One policy\<close>

definition buildContext :: "policy_request \<Rightarrow> jsv" where
  "buildContext req =
     Obj [(''subject'', req_subject req), (''resource'', req_resource req),
          (''action'', req_action req),
          (''environment'', if nullish (req_environment req) then Obj [] else req_environment req)]"

fun evaluate_types ::
  "js_engine \<Rightarrow> jsv \<Rightarrow> combine \<Rightarrow> (string \<times> jsv) list \<Rightarrow> (bool \<times> condition_result list) result" where
  "evaluate_types e context logic [] = Inr (True, [])"
| "evaluate_types e context logic ((type, raw) # rest) =
     (let conditions = parseConditions raw
      in if conditions = [] then evaluate_types e context logic rest
         else case evaluateConditions e conditions context logic of
                Inl err \<Rightarrow> Inl err
              | Inr (passed, results) \<Rightarrow>
                  (case evaluate_types e context logic rest of
                     Inl err \<Rightarrow> Inl err
                   | Inr (policyPassed, conditionResults) \<Rightarrow>
                       Inr (passed \<and> policyPassed,
                            map (\<lambda>r. \<lparr> cr_conditionType = type, cr_passed = fst r, cr_reason = snd r \<rparr>)
                              results @ conditionResults)))"

definition policy_effect :: "policy_row \<Rightarrow> effect" where
  "policy_effect policy = (if pol_effect policy = ''DENY'' then DENY else ALLOW)"

definition policy_logic :: "policy_row \<Rightarrow> combine" where
  "policy_logic policy = (if pol_logic policy = ''OR'' then Logic_OR else Logic_AND)"

definition condition_types :: "policy_row \<Rightarrow> (string \<times> jsv) list" where
  "condition_types policy =
     [(''subject'', pol_subjectConditions policy), (''resource'', pol_resourceConditions policy),
      (''action'', pol_actionConditions policy), (''environment'', pol_environmentConditions policy)]"

definition evaluatePolicy :: "js_engine \<Rightarrow> policy_row \<Rightarrow> policy_request \<Rightarrow> policy_match result" where
  "evaluatePolicy e policy req =
     (case evaluate_types e (buildContext req) (policy_logic policy) (condition_types policy) of
        Inl err \<Rightarrow> Inl err
      | Inr (policyPassed, conditionResults) \<Rightarrow>
          Inr \<lparr> pm_policyId = pol_id policy, pm_policyName = pol_name policy,
                pm_effect = policy_effect policy, pm_matched = policyPassed,
                pm_conditionResults = conditionResults \<rparr>)"

subsection \<open>All policies\<close>

definition evaluatePolicies ::
  "js_engine \<Rightarrow> policy_row list \<Rightarrow> policy_request \<Rightarrow> policy_result result" where
  "evaluatePolicies e policies req =
     (let applicable = sort_key (\<lambda>p. - pol_priority p) (filter pol_enabled policies)
      in case map_result (\<lambda>p. evaluatePolicy e p req) applicable of
           Inl err \<Rightarrow> Inl err
         | Inr matchDetails \<Rightarrow>
             (let matched = filter pm_matched matchDetails;
                  result = (\<lambda>d r. Inr \<lparr> pr_decision = d, pr_reason = r,
                              pr_matchedPolicies = matchDetails, pr_evaluatedCount = length applicable \<rparr>)
              in case List.find (\<lambda>d. pm_effect d = DENY) matched of
                   Some denyMatch \<Rightarrow> result DENY (ExplicitDeny (pm_policyName denyMatch))
                 | None \<Rightarrow>
                     (case List.find (\<lambda>d. pm_effect d = ALLOW) matched of
                        Some allowMatch \<Rightarrow> result ALLOW (PermittedBy (pm_policyName allowMatch))
                      | None \<Rightarrow> result DENY DefaultDeny)))"

subsection \<open>What the evaluation computes\<close>

lemma map_result_Inr: "map_result f xs = Inr ys \<longleftrightarrow> list_all2 (\<lambda>x y. f x = Inr y) xs ys"
proof (induction xs arbitrary: ys)
  case (Cons x xs)
  have "map_result f (x # xs) = Inr ys \<longleftrightarrow> (\<exists>y ys'. f x = Inr y \<and> ys = y # ys' \<and> map_result f xs = Inr ys')"
    by (auto split: sum.splits)
  then show ?case by (auto simp: list_all2_Cons1 Cons.IH)
qed auto

lemma map_result_map:
  assumes "map_result f xs = Inr ys" and "\<And>x y. f x = Inr y \<Longrightarrow> h y = g x"
  shows "map h ys = map g xs"
  using assms(1) unfolding map_result_Inr by (induction rule: list_all2_induct) (auto simp: assms(2))

lemma map_result_ok: "is_ok (map_result f xs) \<longleftrightarrow> (\<forall>x \<in> set xs. is_ok (f x))"
  by (induction xs) (auto split: sum.split)

lemma map_result_Inl: "map_result f xs = Inl err \<Longrightarrow> \<exists>x \<in> set xs. f x = Inl err"
  by (induction xs) (auto split: sum.splits)

definition condition_passes :: "js_engine \<Rightarrow> jsv \<Rightarrow> jsv \<Rightarrow> bool" where
  "condition_passes e context c =
     (case evaluateCondition e c context of Inl _ \<Rightarrow> False | Inr (p, _) \<Rightarrow> p)"

definition group_holds :: "js_engine \<Rightarrow> jsv \<Rightarrow> combine \<Rightarrow> jsv \<Rightarrow> bool" where
  "group_holds e context logic raw \<longleftrightarrow>
     parseConditions raw = [] \<or>
     (if logic = Logic_AND then (\<forall>c \<in> set (parseConditions raw). condition_passes e context c)
      else (\<exists>c \<in> set (parseConditions raw). condition_passes e context c))"

text \<open>
  When a policy applies to a request: every category of conditions holds, where a category without
  conditions holds, and the logic of the policy combines the conditions of one category.
\<close>

definition policy_applies :: "js_engine \<Rightarrow> policy_request \<Rightarrow> policy_row \<Rightarrow> bool" where
  "policy_applies e req p \<longleftrightarrow>
     (\<forall>raw \<in> {pol_subjectConditions p, pol_resourceConditions p, pol_actionConditions p,
              pol_environmentConditions p}. group_holds e (buildContext req) (policy_logic p) raw)"

lemma evaluateConditions_group:
  assumes "evaluateConditions e (parseConditions raw) ctx logic = Inr (passed, rs)"
  shows "passed = group_holds e ctx logic raw"
proof (cases "parseConditions raw = []")
  case True
  with assms show ?thesis by (simp add: evaluateConditions_def group_holds_def)
next
  case False
  with assms have m: "map_result (\<lambda>c. evaluateCondition e c ctx) (parseConditions raw) = Inr rs"
    and p: "passed = (if logic = Logic_AND then list_all fst rs else list_ex fst rs)"
    by (auto simp: evaluateConditions_def split: sum.splits)
  have "map fst rs = map (condition_passes e ctx) (parseConditions raw)"
    using m by (rule map_result_map) (auto simp: condition_passes_def)
  then have "list_all (\<lambda>b. b) (map fst rs) = list_all (condition_passes e ctx) (parseConditions raw)"
    and "list_ex (\<lambda>b. b) (map fst rs) = list_ex (condition_passes e ctx) (parseConditions raw)"
    by (simp_all add: list_all_iff list_ex_iff)
  with p False show ?thesis
    by (auto simp: group_holds_def list_all_iff list_ex_iff)
qed

lemma evaluate_types_holds:
  "evaluate_types e ctx logic ts = Inr (passed, rs) \<Longrightarrow>
     passed = (\<forall>raw \<in> snd ` set ts. group_holds e ctx logic raw)"
proof (induction ts arbitrary: passed rs)
  case (Cons t ts)
  obtain type raw where t: "t = (type, raw)" by (cases t)
  show ?case
  proof (cases "parseConditions raw = []")
    case True
    with Cons t show ?thesis by (simp add: group_holds_def)
  next
    case False
    obtain x where x: "evaluateConditions e (parseConditions raw) ctx logic = Inr x"
      using Cons.prems t False by (auto simp: Let_def split: sum.splits)
    obtain y where y: "evaluate_types e ctx logic ts = Inr y"
      using Cons.prems t False x by (auto simp: Let_def split: sum.splits prod.splits)
    have "passed = (fst x \<and> fst y)"
      using Cons.prems t False x y by (simp add: Let_def split: prod.splits)
    moreover have "fst x = group_holds e ctx logic raw"
      using evaluateConditions_group [of e raw ctx logic "fst x" "snd x"] x by simp
    moreover have "fst y = (\<forall>raw \<in> snd ` set ts. group_holds e ctx logic raw)"
      using Cons.IH [of "fst y" "snd y"] y by simp
    ultimately show ?thesis using t by simp
  qed
qed simp

lemma evaluatePolicy_ok:
  assumes "evaluatePolicy e p req = Inr d"
  shows "pm_matched d = policy_applies e req p" and "pm_effect d = policy_effect p"
    and "pm_policyName d = pol_name p" and "pm_policyId d = pol_id p"
proof -
  obtain passed rs where
    ev: "evaluate_types e (buildContext req) (policy_logic p) (condition_types p) = Inr (passed, rs)"
    using assms by (auto simp: evaluatePolicy_def split: sum.splits)
  have "passed = policy_applies e req p"
    using evaluate_types_holds [OF ev] by (simp add: policy_applies_def condition_types_def)
  with assms ev show "pm_matched d = policy_applies e req p" by (auto simp: evaluatePolicy_def)
  show "pm_effect d = policy_effect p" "pm_policyName d = pol_name p" "pm_policyId d = pol_id p"
    using assms ev by (auto simp: evaluatePolicy_def)
qed

lemma find_map_result:
  assumes "map_result f xs = Inr ys" and "\<And>x y. f x = Inr y \<Longrightarrow> q y = p x" and "\<And>x y. f x = Inr y \<Longrightarrow> h y = g x"
  shows "map_option h (List.find q ys) = map_option g (List.find p xs)"
  using assms(1)
proof (induction xs arbitrary: ys)
  case (Cons x xs)
  then obtain y ys' where "f x = Inr y" "map_result f xs = Inr ys'" "ys = y # ys'"
    by (auto split: sum.splits)
  with Cons.IH assms(2,3) show ?case by auto
qed simp

lemma find_filter: "List.find p (filter q xs) = List.find (\<lambda>x. q x \<and> p x) xs"
  by (induction xs) auto

text \<open>The decision as a function of the applicable policies, highest priority first.\<close>

definition decide :: "js_engine \<Rightarrow> policy_request \<Rightarrow> policy_row list \<Rightarrow> effect \<times> decision_reason" where
  "decide e req ps =
     (case List.find (\<lambda>p. policy_applies e req p \<and> policy_effect p = DENY) ps of
        Some p \<Rightarrow> (DENY, ExplicitDeny (pol_name p))
      | None \<Rightarrow> (case List.find (\<lambda>p. policy_applies e req p \<and> policy_effect p = ALLOW) ps of
                   Some p \<Rightarrow> (ALLOW, PermittedBy (pol_name p))
                 | None \<Rightarrow> (DENY, DefaultDeny)))"

definition by_priority :: "policy_row list \<Rightarrow> policy_row list" where
  "by_priority ps = sort_key (\<lambda>p. - pol_priority p) (filter pol_enabled ps)"

lemma set_by_priority [simp]: "set (by_priority ps) = {p \<in> set ps. pol_enabled p}"
  by (auto simp: by_priority_def)

lemma evaluatePolicies_decide:
  assumes "evaluatePolicies e ps req = Inr res"
  shows "(pr_decision res, pr_reason res) = decide e req (by_priority ps)"
    and "pr_evaluatedCount res = length (filter pol_enabled ps)"
    and "map pm_policyId (pr_matchedPolicies res) = map pol_id (by_priority ps)"
    and "map pm_matched (pr_matchedPolicies res) = map (policy_applies e req) (by_priority ps)"
proof -
  obtain ds where ds: "map_result (\<lambda>p. evaluatePolicy e p req) (by_priority ps) = Inr ds"
    using assms by (auto simp: evaluatePolicies_def by_priority_def Let_def split: sum.splits)
  have f: "map_option pm_policyName (List.find (\<lambda>d. pm_matched d \<and> pm_effect d = k) ds)
         = map_option pol_name (List.find (\<lambda>p. policy_applies e req p \<and> policy_effect p = k) (by_priority ps))"
    for k
    using ds by (rule find_map_result) (auto simp: evaluatePolicy_ok)
  have res: "pr_matchedPolicies res = ds" "pr_evaluatedCount res = length (by_priority ps)"
    "(pr_decision res, pr_reason res) =
      (case List.find (\<lambda>d. pm_matched d \<and> pm_effect d = DENY) ds of
         Some d \<Rightarrow> (DENY, ExplicitDeny (pm_policyName d))
       | None \<Rightarrow> (case List.find (\<lambda>d. pm_matched d \<and> pm_effect d = ALLOW) ds of
                    Some d \<Rightarrow> (ALLOW, PermittedBy (pm_policyName d))
                  | None \<Rightarrow> (DENY, DefaultDeny)))"
    using assms ds
    by (auto simp: evaluatePolicies_def by_priority_def [symmetric] Let_def find_filter split: option.splits)
  show "(pr_decision res, pr_reason res) = decide e req (by_priority ps)"
    unfolding res(3) decide_def using f [of DENY] f [of ALLOW]
    by (auto simp: map_option_case split: option.splits)
  show "pr_evaluatedCount res = length (filter pol_enabled ps)"
    using res(2) by (simp add: by_priority_def)
  show "map pm_policyId (pr_matchedPolicies res) = map pol_id (by_priority ps)"
    unfolding res(1) using ds by (rule map_result_map) (auto simp: evaluatePolicy_ok)
  show "map pm_matched (pr_matchedPolicies res) = map (policy_applies e req) (by_priority ps)"
    unfolding res(1) using ds by (rule map_result_map) (auto simp: evaluatePolicy_ok)
qed

lemma find_first_max:
  fixes k :: "'a \<Rightarrow> int"
  assumes "sorted (map (\<lambda>p. - k p) xs)" and "List.find q xs = Some p"
  shows "p \<in> set xs \<and> q p \<and> (\<forall>x \<in> set xs. q x \<longrightarrow> k x \<le> k p)"
  using assms by (induction xs) (auto split: if_splits)

lemma sorted_by_priority: "sorted (map (\<lambda>p. - pol_priority p) (by_priority ps))"
  by (simp add: by_priority_def)

lemma decide_allow_iff:
  "fst (decide e req (by_priority ps)) = ALLOW \<longleftrightarrow>
     (\<exists>p \<in> set ps. pol_enabled p \<and> policy_applies e req p \<and> policy_effect p = ALLOW) \<and>
     \<not> (\<exists>p \<in> set ps. pol_enabled p \<and> policy_applies e req p \<and> policy_effect p = DENY)"
proof (cases "List.find (\<lambda>p. policy_applies e req p \<and> policy_effect p = DENY) (by_priority ps)")
  case None
  then have no_deny: "\<not> (\<exists>p \<in> set ps. pol_enabled p \<and> policy_applies e req p \<and> policy_effect p = DENY)"
    by (auto simp: find_None_iff)
  show ?thesis
  proof (cases "List.find (\<lambda>p. policy_applies e req p \<and> policy_effect p = ALLOW) (by_priority ps)")
    case None': None
    then have "\<not> (\<exists>p \<in> set ps. pol_enabled p \<and> policy_applies e req p \<and> policy_effect p = ALLOW)"
      by (auto simp: find_None_iff)
    with None None' no_deny show ?thesis by (simp add: decide_def)
  next
    case (Some p)
    with None no_deny find_SomeD [OF Some] show ?thesis by (auto simp: decide_def)
  qed
next
  case (Some p)
  with find_SomeD [OF Some] show ?thesis by (auto simp: decide_def)
qed

subsection \<open>When an evaluation throws\<close>

text \<open>
  \<open>plain v\<close>: no object inside \<open>v\<close> has an own property \<open>toString\<close>.
\<close>

fun plain :: "jsv \<Rightarrow> bool" where
  "plain (Arr xs) = list_all plain xs"
| "plain (Obj kvs) = (''toString'' \<notin> set (map fst kvs) \<and> list_all (\<lambda>kv. plain (snd kv)) kvs)"
| "plain _ = True"

lemma those_Some: "(\<And>x. x \<in> set xs \<Longrightarrow> x \<noteq> None) \<Longrightarrow> \<exists>ys. those xs = Some ys"
  by (induction xs) (auto split: option.split)

lemma plain_String: "plain v \<Longrightarrow> \<exists>s. js_String e v = Some s"
proof (induction e v rule: js_String.induct)
  case (6 e xs)
  have "\<exists>ys. those (map (\<lambda>x. if nullish x then Some [] else js_String e x) xs) = Some ys"
    using 6 by (intro those_Some) (fastforce simp: list_all_iff)
  then show ?case by auto
qed auto

lemma plain_join: "list_all plain xs \<Longrightarrow> \<exists>s. js_join e sep xs = Some s"
proof -
  assume a: "list_all plain xs"
  have "\<exists>ys. those (map (\<lambda>x. if nullish x then Some [] else js_String e x) xs) = Some ys"
    using a plain_String [of _ e] by (intro those_Some) (fastforce simp: list_all_iff)
  then show ?thesis by (auto simp: js_join_def)
qed

lemma plain_Number: "plain v \<Longrightarrow> \<exists>n. js_Number e v = Some n"
  using plain_String [of v e] by (cases v) auto

lemma plain_get_prop:
  assumes "\<And>v k. plain (proto_prop e v k)" and "plain v"
  shows "plain (get_prop e v k)"
proof (cases v)
  case (Arr xs)
  have "i < length xs" if "index_key k (length xs) = Some i" for i
    using that by (auto simp: index_key_def find_Some_iff)
  with Arr assms show ?thesis by (auto simp: list_all_length split: option.split)
next
  case (Obj kvs)
  with assms show ?thesis by (auto simp: list_all_iff dest!: map_of_SomeD split: option.split)
qed (use assms in \<open>auto split: option.split\<close>)

lemma plain_resolve:
  assumes "\<And>v k. plain (proto_prop e v k)"
  shows "plain v \<Longrightarrow> plain (resolve_parts e v parts)"
  by (induction parts arbitrary: v) (auto simp: plain_get_prop [OF assms])

text \<open>
  A condition object as the administration interface documents it: a string field, a string
  operator and a plain value.
\<close>

definition wf_condition :: "js_engine \<Rightarrow> jsv \<Rightarrow> bool" where
  "wf_condition e c \<longleftrightarrow> \<not> nullish c
     \<and> (\<exists>f. get_prop e c ''field'' = Str f) \<and> (\<exists>m. get_prop e c ''operator'' = Str m)
     \<and> plain (get_prop e c ''value'')"

lemma answer_ok: "(\<And>x. x \<in> set parts \<Longrightarrow> x \<noteq> None) \<Longrightarrow> is_ok (answer p parts)"
  using those_Some [of parts] by (auto simp: answer_def)

lemma operators_ok:
  assumes "plain a" and "plain x"
  shows "is_ok (op_equals e f a x)" "is_ok (op_notEquals e f a x)" "is_ok (op_contains e f a x)"
    "is_ok (op_in e f a x)" "is_ok (op_notIn e f a x)" "is_ok (op_compare rel sg e f a x)"
    "is_ok (op_matches e f a x)" "is_ok (op_ipInRange e f a x)"
proof -
  obtain sa sx na nx where s: "js_String e a = Some sa" "js_String e x = Some sx"
    "js_Number e a = Some na" "js_Number e x = Some nx"
    using assms plain_String plain_Number by metis
  show "is_ok (op_equals e f a x)" "is_ok (op_notEquals e f a x)"
    by (auto simp: op_equals_def op_notEquals_def s Let_def intro!: answer_ok)
  show "is_ok (op_contains e f a x)"
    by (auto simp: op_contains_def s Let_def intro!: answer_ok split: jsv.split)
  show "is_ok (op_in e f a x)" "is_ok (op_notIn e f a x)"
    using assms(2) plain_join [of _ e "'', ''"]
    by (auto simp: op_in_def op_notIn_def s Let_def intro!: answer_ok split: jsv.split)
  show "is_ok (op_compare rel sg e f a x)"
    by (auto simp: op_compare_def s Let_def intro!: answer_ok)
  show "is_ok (op_matches e f a x)" "is_ok (op_ipInRange e f a x)"
    by (auto simp: op_matches_def op_ipInRange_def s Let_def intro!: answer_ok split: jsv.split option.split)
qed

lemma wf_condition_ok:
  assumes "\<And>v k. plain (proto_prop e v k)" and "plain ctx" and "wf_condition e c"
  shows "is_ok (evaluateCondition e c ctx)"
proof -
  obtain f m where c: "\<not> nullish c" "get_prop e c ''field'' = Str f" "get_prop e c ''operator'' = Str m"
    and v: "plain (get_prop e c ''value'')"
    using assms(3) by (auto simp: wf_condition_def)
  have a: "plain (resolveField e ctx f)"
    unfolding resolveField_def using assms(1,2) by (rule plain_resolve)
  show ?thesis
    using c operators_ok [OF a v, where e = e and f = f]
    by (simp add: evaluateCondition_def Let_def op_greaterThan_def op_lessThan_def answer_def)
qed

lemma evaluate_types_ok:
  "is_ok (evaluate_types e ctx logic ts) \<longleftrightarrow>
     (\<forall>raw \<in> snd ` set ts. \<forall>c \<in> set (parseConditions raw). is_ok (evaluateCondition e c ctx))"
proof (induction ts)
  case (Cons t ts)
  obtain type raw where t: "t = (type, raw)" by (cases t)
  have "is_ok (evaluateConditions e (parseConditions raw) ctx logic) \<longleftrightarrow>
      (\<forall>c \<in> set (parseConditions raw). is_ok (evaluateCondition e c ctx))"
    using map_result_ok [of "\<lambda>c. evaluateCondition e c ctx" "parseConditions raw"]
    by (auto simp: evaluateConditions_def split: sum.splits)
  with Cons.IH t show ?case
    by (cases "evaluateConditions e (parseConditions raw) ctx logic"; cases "evaluate_types e ctx logic ts")
       (auto simp: Let_def evaluateConditions_def)
qed simp

definition policy_conditions :: "policy_row \<Rightarrow> jsv list" where
  "policy_conditions p = concat (map (\<lambda>t. parseConditions (snd t)) (condition_types p))"

lemma evaluatePolicies_ok:
  "is_ok (evaluatePolicies e ps req) \<longleftrightarrow>
     (\<forall>p \<in> set ps. pol_enabled p \<longrightarrow>
        (\<forall>c \<in> set (policy_conditions p). is_ok (evaluateCondition e c (buildContext req))))"
proof -
  have "is_ok (evaluatePolicy e p req) \<longleftrightarrow>
      (\<forall>c \<in> set (policy_conditions p). is_ok (evaluateCondition e c (buildContext req)))" for p
    using evaluate_types_ok [of e "buildContext req" "policy_logic p" "condition_types p"]
    by (auto simp: evaluatePolicy_def policy_conditions_def split: sum.splits)
  moreover have "is_ok (evaluatePolicies e ps req) \<longleftrightarrow> (\<forall>p \<in> set (by_priority ps). is_ok (evaluatePolicy e p req))"
    unfolding map_result_ok [of "\<lambda>p. evaluatePolicy e p req" "by_priority ps", symmetric]
    by (auto simp: evaluatePolicies_def by_priority_def Let_def split: sum.splits option.splits)
  ultimately show ?thesis by auto
qed

subsection \<open>Address ranges\<close>

text \<open>
  The engine law the range test needs: doubles represent the integers up to 255 exactly.
\<close>

definition exact_octets :: "js_engine \<Rightarrow> bool" where
  "exact_octets e \<longleftrightarrow> (\<forall>n < 256. to_double e (of_nat n) = Fin (of_nat n))"

lemma ipToInt_dotted:
  assumes "exact_octets e" and "octets os"
  shows "ipToInt e (dotted os) = Some (word_of_nat (address os))"
proof -
  obtain a b c d where os: "os = [a, b, c, d]" and lt: "a < 256" "b < 256" "c < 256" "d < 256"
    using assms(2) by (rule octetsE)
  have "map (number_of_string e) (split_on (CHR ''.'') (dotted os)) = map (\<lambda>n. Fin (of_nat n)) os"
    using assms(1) lt by (simp add: split_dotted os number_of_show_nat exact_octets_def)
  then show ?thesis
    using lt quad_word [of "int a" "int b" "int c" "int d"]
    by (simp add: ipToInt_def Let_def os octet_ok_def part32_def address_def)
qed

lemma ipInCidr_exact:
  assumes "exact_octets e" and "octets ip" and "octets rng"
  shows "ipInCidr e (dotted ip) (dotted rng @ CHR ''/'' # show_nat n) \<longleftrightarrow>
     n \<le> 32 \<and> address ip div 2 ^ (32 - n) = address rng div 2 ^ (32 - n)"
proof -
  have no_slash: "CHR ''/'' \<notin> set (join_with (CHR ''.'') xs)" if "\<forall>x \<in> set xs. CHR ''/'' \<notin> set x" for xs
    using that by (induction "CHR ''.''" xs rule: join_with.induct) auto
  have ns: "CHR ''/'' \<notin> set (show_nat n)" for n using is_digit_not(5) show_nat_is_digit by blast
  have nd: "CHR ''/'' \<notin> set (dotted rng)"
    unfolding dotted_def by (rule no_slash) (simp add: ns)
  have ne: "dotted rng \<noteq> []"
    using assms(3) by (elim octetsE) (simp add: dotted_def)
  have sp: "split_on (CHR ''/'') (dotted rng @ CHR ''/'' # show_nat n) = [dotted rng, show_nat n]"
    using nd ns by (simp add: split_on_append split_on_free)
  have u: "unat (word_of_nat (address os) :: 32 word) = address os" if "octets os" for os
    using address_less [OF that] by (simp add: unat_of_nat)
  show ?thesis
  proof (cases "n = 0 \<or> 32 < n")
    case True
    then show ?thesis
      using ne sp assms address_less
      by (auto simp: ipInCidr_def parseInt_show_nat ipToInt_dotted Let_def)
  next
    case False
    moreover from False have "nat (32 - int n) = 32 - n" by simp
    ultimately show ?thesis
      using ne sp assms mask_eq_iff [of "32 - n" "word_of_nat (address ip)" "word_of_nat (address rng)"]
      by (simp add: ipInCidr_def parseInt_show_nat ipToInt_dotted Let_def u)
  qed
qed

subsection \<open>The decision\<close>

lemma answer_error: "answer p parts = Inl err \<Longrightarrow> err = TypeError"
  by (auto simp: answer_def split: option.splits)

lemma evaluateCondition_error: "evaluateCondition e c ctx = Inl err \<Longrightarrow> err = TypeError"
  by (auto simp: evaluateCondition_def Let_def op_equals_def op_notEquals_def op_contains_def
      op_in_def op_notIn_def op_greaterThan_def op_lessThan_def op_compare_def op_matches_def
      op_ipInRange_def dest: answer_error split: if_splits jsv.splits option.splits)

lemma evaluate_types_error: "evaluate_types e ctx logic ts = Inl err \<Longrightarrow> err = TypeError"
  by (induction ts)
     (auto simp: Let_def evaluateConditions_def dest!: map_result_Inl dest: evaluateCondition_error
        split: if_splits sum.splits)

lemma evaluatePolicies_error: "evaluatePolicies e ps req = Inl err \<Longrightarrow> err = TypeError"
  by (auto simp: evaluatePolicies_def evaluatePolicy_def Let_def dest!: map_result_Inl
      dest: evaluate_types_error split: sum.splits option.splits)

lemma decide_mset: "mset ps = mset qs \<Longrightarrow>
  fst (decide e req (by_priority ps)) = fst (decide e req (by_priority qs))"
proof -
  assume "mset ps = mset qs"
  then have "set ps = set qs" by (rule mset_eq_setD)
  then have "fst (decide e req (by_priority ps)) = ALLOW \<longleftrightarrow> fst (decide e req (by_priority qs)) = ALLOW"
    by (simp add: decide_allow_iff)
  then show ?thesis by (metis effect.exhaust)
qed

lemma decide_default_iff:
  "snd (decide e req (by_priority ps)) = DefaultDeny \<longleftrightarrow>
     \<not> (\<exists>p \<in> set ps. pol_enabled p \<and> policy_applies e req p)"
proof (cases "snd (decide e req (by_priority ps)) = DefaultDeny")
  case True
  then have "List.find (\<lambda>p. policy_applies e req p \<and> policy_effect p = k) (by_priority ps) = None" for k
    by (cases k) (auto simp: decide_def split: option.splits)
  then have "\<not> (pol_enabled p \<and> policy_applies e req p \<and> policy_effect p = k)" if "p \<in> set ps" for p k
    using that by (auto simp: find_None_iff)
  with True show ?thesis by blast
next
  case False
  then obtain p k where
    "List.find (\<lambda>p. policy_applies e req p \<and> policy_effect p = k) (by_priority ps) = Some p"
    by (auto simp: decide_def split: option.splits)
  from find_SomeD [OF this] False show ?thesis by auto
qed

lemma decide_explicit:
  assumes "snd (decide e req (by_priority ps)) = ExplicitDeny n"
  shows "\<exists>p \<in> set ps. pol_enabled p \<and> policy_applies e req p \<and> policy_effect p = DENY \<and> pol_name p = n \<and>
      (\<forall>q \<in> set ps. pol_enabled q \<and> policy_applies e req q \<and> policy_effect q = DENY \<longrightarrow>
         pol_priority q \<le> pol_priority p)"
proof -
  obtain p where "List.find (\<lambda>p. policy_applies e req p \<and> policy_effect p = DENY) (by_priority ps) = Some p"
    and "pol_name p = n"
    using assms by (auto simp: decide_def split: option.splits)
  with find_first_max [OF sorted_by_priority this(1)] show ?thesis by auto
qed

lemma map_pair_eq:
  assumes "map f xs = map f' ys" and "map g xs = map g' ys"
  shows "map (\<lambda>x. (f x, g x)) xs = map (\<lambda>y. (f' y, g' y)) ys"
  using assms
proof (induction xs arbitrary: ys)
  case (Cons x xs)
  then show ?case by (cases ys) auto
qed simp

definition sample_condition :: "string \<Rightarrow> string \<Rightarrow> jsv \<Rightarrow> jsv" where
  "sample_condition f m v = Obj [(''field'', Str f), (''operator'', Str m), (''value'', v)]"

definition sample_allow :: policy_row where
  "sample_allow =
     \<lparr> pol_id = ''p1'', pol_realmId = ''r1'', pol_name = ''admins'',
       pol_description = None, pol_enabled = True,
       pol_effect = ''ALLOW'', pol_priority = 1, pol_logic = ''AND'', pol_clientId = None,
       pol_subjectConditions = Arr [sample_condition ''subject.roles'' ''contains'' (Str ''admin'')],
       pol_resourceConditions = Null,
       pol_actionConditions = Arr [sample_condition ''action'' ''in'' (Arr [Str ''read'', Str ''list''])],
       pol_environmentConditions = Null, pol_createdAt = 0 \<rparr>"

definition sample_deny :: policy_row where
  "sample_deny = sample_allow\<lparr> pol_id := ''p2'', pol_name := ''outside'', pol_effect := ''DENY'',
     pol_priority := 0, pol_subjectConditions := Null, pol_actionConditions := Null,
     pol_environmentConditions :=
       Arr [sample_condition ''environment.ip'' ''ipInRange'' (Str ''203.0.113.0/24'')] \<rparr>"

definition sample_policy_request :: "string \<Rightarrow> policy_request" where
  "sample_policy_request ip =
     \<lparr> req_subject = Obj [(''roles'', Arr [Str ''admin''])], req_resource = Obj [],
       req_action = Str ''read'', req_environment = Obj [(''ip'', Str ip)], req_clientId = None \<rparr>"

text \<open>
  C36.  The decision of \<open>evaluatePolicies\<close>, when it returns one: access is allowed exactly when some
  enabled ALLOW policy applies to the request and no enabled DENY policy does, whatever the
  priorities; otherwise it is denied, by default when nothing applies.  An explicit DENY is
  attributed to a policy of the highest priority among the DENY policies that apply.  Every enabled
  policy is evaluated and reported once, in the order of descending priority, with its own
  verdict.
\<close>

theorem policy_decision_exact:
  assumes "evaluatePolicies e ps req = Inr res"
  shows "(pr_decision res = ALLOW \<longleftrightarrow>
            (\<exists>p \<in> set ps. pol_enabled p \<and> policy_applies e req p \<and> policy_effect p = ALLOW) \<and>
            \<not> (\<exists>p \<in> set ps. pol_enabled p \<and> policy_applies e req p \<and> policy_effect p = DENY))
       \<and> (pr_reason res = DefaultDeny \<longleftrightarrow> \<not> (\<exists>p \<in> set ps. pol_enabled p \<and> policy_applies e req p))
       \<and> (\<forall>n. pr_reason res = ExplicitDeny n \<longrightarrow>
            (\<exists>p \<in> set ps. pol_enabled p \<and> policy_applies e req p \<and> policy_effect p = DENY \<and> pol_name p = n \<and>
               (\<forall>q \<in> set ps. pol_enabled q \<and> policy_applies e req q \<and> policy_effect q = DENY \<longrightarrow>
                  pol_priority q \<le> pol_priority p)))
       \<and> map (\<lambda>d. (pm_policyId d, pm_matched d)) (pr_matchedPolicies res) =
           map (\<lambda>p. (pol_id p, policy_applies e req p)) (by_priority ps)
       \<and> sorted (map (\<lambda>p. - pol_priority p) (by_priority ps))
       \<and> mset (by_priority ps) = filter_mset pol_enabled (mset ps)"
proof (intro conjI allI impI)
  note d = evaluatePolicies_decide [OF assms]
  from d(1) have dec: "pr_decision res = fst (decide e req (by_priority ps))"
    and rsn: "pr_reason res = snd (decide e req (by_priority ps))"
    by (metis fst_conv, metis snd_conv)
  show "pr_decision res = ALLOW \<longleftrightarrow>
      (\<exists>p \<in> set ps. pol_enabled p \<and> policy_applies e req p \<and> policy_effect p = ALLOW) \<and>
      \<not> (\<exists>p \<in> set ps. pol_enabled p \<and> policy_applies e req p \<and> policy_effect p = DENY)"
    unfolding dec by (rule decide_allow_iff)
  show "pr_reason res = DefaultDeny \<longleftrightarrow> \<not> (\<exists>p \<in> set ps. pol_enabled p \<and> policy_applies e req p)"
    unfolding rsn by (rule decide_default_iff)
  show "\<exists>p \<in> set ps. pol_enabled p \<and> policy_applies e req p \<and> policy_effect p = DENY \<and> pol_name p = n \<and>
      (\<forall>q \<in> set ps. pol_enabled q \<and> policy_applies e req q \<and> policy_effect q = DENY \<longrightarrow>
         pol_priority q \<le> pol_priority p)" if "pr_reason res = ExplicitDeny n" for n
    using that unfolding rsn by (rule decide_explicit)
  show "map (\<lambda>d. (pm_policyId d, pm_matched d)) (pr_matchedPolicies res) =
      map (\<lambda>p. (pol_id p, policy_applies e req p)) (by_priority ps)"
    using d(3,4) by (rule map_pair_eq)
qed (simp_all add: sorted_by_priority by_priority_def)

theorem policy_decision_exact_witness:
  "(case evaluatePolicies sample_engine [sample_deny, sample_allow] (sample_policy_request ''10.0.0.7'') of
      Inr res \<Rightarrow> pr_decision res = ALLOW \<and> pr_reason res \<noteq> DefaultDeny
    | Inl _ \<Rightarrow> False)
   \<and> policy_applies sample_engine (sample_policy_request ''10.0.0.7'') sample_allow
   \<and> \<not> policy_applies sample_engine (sample_policy_request ''10.0.0.7'') sample_deny
   \<and> (case evaluatePolicies sample_engine [sample_deny, sample_allow] (sample_policy_request ''203.0.113.9'') of
        Inr res \<Rightarrow> pr_decision res = DENY \<and> pr_reason res = ExplicitDeny ''outside''
      | Inl _ \<Rightarrow> False)"
proof -
  let ?r = "sample_policy_request ''10.0.0.7''"
  have ok: "case evaluatePolicies sample_engine [sample_deny, sample_allow] ?r of
      Inr res \<Rightarrow> pr_decision res = ALLOW | Inl _ \<Rightarrow> False" by code_simp
  have a: "pol_effect sample_allow = ''ALLOW''" "pol_effect sample_deny = ''DENY''"
    "pol_enabled sample_allow" "pol_enabled sample_deny"
    by (simp_all add: sample_allow_def sample_deny_def)
  obtain res where r: "evaluatePolicies sample_engine [sample_deny, sample_allow] ?r = Inr res"
    and d: "pr_decision res = ALLOW"
    using ok by (auto split: sum.splits)
  have "policy_applies sample_engine ?r sample_allow \<and> \<not> policy_applies sample_engine ?r sample_deny
      \<and> pr_reason res \<noteq> DefaultDeny"
    using policy_decision_exact [OF r] d a by (auto simp: policy_effect_def)
  moreover have "case evaluatePolicies sample_engine [sample_deny, sample_allow]
      (sample_policy_request ''203.0.113.9'') of
        Inr res \<Rightarrow> pr_decision res = DENY \<and> pr_reason res = ExplicitDeny ''outside''
      | Inl _ \<Rightarrow> False" by code_simp
  ultimately show ?thesis using r d by simp
qed

text \<open>
  The order in which the policies are stored, and so the order among policies of equal
  priority, never changes a decision: two lists with the same policies give the same decision or
  both throw.
\<close>

theorem policy_order_irrelevant:
  assumes "mset ps = mset qs"
  shows "map_sum id pr_decision (evaluatePolicies e ps req) = map_sum id pr_decision (evaluatePolicies e qs req)"
proof (cases "is_ok (evaluatePolicies e ps req)")
  case True
  with mset_eq_setD [OF assms] have "is_ok (evaluatePolicies e qs req)" by (simp add: evaluatePolicies_ok)
  with True obtain r r' where r: "evaluatePolicies e ps req = Inr r" "evaluatePolicies e qs req = Inr r'"
    by (auto simp: is_ok_def split: sum.splits)
  then have "pr_decision r = pr_decision r'"
    using evaluatePolicies_decide(1) [OF r(1)] evaluatePolicies_decide(1) [OF r(2)] decide_mset [OF assms]
    by (metis fst_conv)
  with r show ?thesis by simp
next
  case False
  with mset_eq_setD [OF assms] have "\<not> is_ok (evaluatePolicies e qs req)" by (simp add: evaluatePolicies_ok)
  with False show ?thesis
    by (auto simp: is_ok_def dest: evaluatePolicies_error split: sum.splits)
qed

theorem policy_order_irrelevant_witness:
  "mset [sample_deny, sample_allow] = mset [sample_allow, sample_deny] \<and>
   map_sum id pr_decision (evaluatePolicies sample_engine [sample_deny, sample_allow] (sample_policy_request ''10.0.0.7''))
   = map_sum id pr_decision (evaluatePolicies sample_engine [sample_allow, sample_deny] (sample_policy_request ''10.0.0.7''))"
  using policy_order_irrelevant [of "[sample_deny, sample_allow]" "[sample_allow, sample_deny]"] by simp

text \<open>
  Evaluation is total on well-formed input: when the request is plain JSON and every condition of
  every enabled policy has a string field, a string operator (even an unknown one) and a plain value,
  \<open>evaluatePolicies\<close> returns a decision.  Conversely an evaluation throws exactly when a condition of
  an enabled policy throws, always a \<open>TypeError\<close>, and then no access is granted.
\<close>

theorem policy_evaluation_total:
  assumes "\<And>v k. plain (proto_prop e v k)"
    and "plain (req_subject req)" "plain (req_resource req)" "plain (req_action req)" "plain (req_environment req)"
    and "\<And>p c. p \<in> set ps \<Longrightarrow> pol_enabled p \<Longrightarrow> c \<in> set (policy_conditions p) \<Longrightarrow> wf_condition e c"
  shows "(\<exists>res. evaluatePolicies e ps req = Inr res)
       \<and> (\<forall>qs. (\<exists>err. evaluatePolicies e qs req = Inl err) \<longleftrightarrow>
            (\<exists>q \<in> set qs. pol_enabled q \<and>
               (\<exists>c \<in> set (policy_conditions q). evaluateCondition e c (buildContext req) = Inl TypeError)))"
proof
  have ctx: "plain (buildContext req)" using assms(2-5) by (simp add: buildContext_def)
  have "is_ok (evaluatePolicies e ps req)"
    unfolding evaluatePolicies_ok using assms(6) wf_condition_ok [OF assms(1) ctx] by blast
  then show "\<exists>res. evaluatePolicies e ps req = Inr res" by (auto simp: is_ok_def split: sum.splits)
  have neg: "(\<exists>err. x = Inl err) \<longleftrightarrow> \<not> is_ok x" for x :: "'x result"
    by (cases x) auto
  have te: "\<not> is_ok (evaluateCondition e c ctx) \<longleftrightarrow> evaluateCondition e c ctx = Inl TypeError" for c ctx
    using evaluateCondition_error [of e c ctx] by (cases "evaluateCondition e c ctx") auto
  show "\<forall>qs. (\<exists>err. evaluatePolicies e qs req = Inl err) \<longleftrightarrow>
            (\<exists>q \<in> set qs. pol_enabled q \<and>
               (\<exists>c \<in> set (policy_conditions q). evaluateCondition e c (buildContext req) = Inl TypeError))"
    unfolding neg evaluatePolicies_ok te [symmetric] by blast
qed

theorem policy_evaluation_total_witness:
  "\<exists>res. evaluatePolicies sample_engine [sample_allow, sample_deny] (sample_policy_request ''10.0.0.7'') = Inr res"
proof (rule policy_evaluation_total [THEN conjunct1])
  show "wf_condition sample_engine c"
    if "p \<in> set [sample_allow, sample_deny]" "pol_enabled p" "c \<in> set (policy_conditions p)" for p c
    using that
    by (auto simp: sample_allow_def sample_deny_def policy_conditions_def condition_types_def
        parseConditions_def wf_condition_def nullish_def sample_condition_def)
qed (simp_all add: sample_engine_def sample_policy_request_def)

text \<open>
  \<open>ipInCidr\<close> is exact on dotted addresses: the address \<open>a.b.c.d\<close> lies in the range
  \<open>w.x.y.z/n\<close> exactly when \<open>n\<close> is at most 32 and the two addresses agree in their first
  \<open>n\<close> bits, computed with wrap-around 32-bit shifts and masks; \<open>/0\<close> contains every address.
\<close>

theorem ip_range_exact:
  assumes "exact_octets e" and "octets ip" and "octets rng"
  shows "ipInCidr e (dotted ip) (dotted rng @ CHR ''/'' # show_nat n) \<longleftrightarrow>
     n \<le> 32 \<and> address ip div 2 ^ (32 - n) = address rng div 2 ^ (32 - n)"
  using assms by (rule ipInCidr_exact)

theorem ip_range_exact_witness:
  "dotted [203, 0, 113, 9] = ''203.0.113.9''
   \<and> ipInCidr sample_engine (dotted [203, 0, 113, 9]) (dotted [203, 0, 113, 0] @ CHR ''/'' # show_nat 24)
   \<and> \<not> ipInCidr sample_engine (dotted [203, 0, 114, 9]) (dotted [203, 0, 113, 0] @ CHR ''/'' # show_nat 24)"
proof (intro conjI)
  have e: "exact_octets sample_engine" by (simp add: exact_octets_def sample_engine_def)
  show "dotted [203, 0, 113, 9] = ''203.0.113.9''" by code_simp
  show "ipInCidr sample_engine (dotted [203, 0, 113, 9]) (dotted [203, 0, 113, 0] @ CHR ''/'' # show_nat 24)"
    using ip_range_exact [OF e, of "[203, 0, 113, 9]" "[203, 0, 113, 0]" 24]
    by (simp add: octets_def address_def)
  show "\<not> ipInCidr sample_engine (dotted [203, 0, 114, 9]) (dotted [203, 0, 113, 0] @ CHR ''/'' # show_nat 24)"
    using ip_range_exact [OF e, of "[203, 0, 114, 9]" "[203, 0, 113, 0]" 24]
    by (simp add: octets_def address_def)
qed

end
