(* ===== verification/Authorization.thy ===== *)
theory Authorization
  imports Policy_Engine Store
begin

text \<open>
  The authorization service (\<open>src/authorization/authorization.service.ts\<close>): the management of a
  realm's policies and their evaluation, with the per-realm policy cache that \<open>cache.service.ts\<close>
  keeps in Redis.  The state is the policy table and the cache entries with the instant their TTL ends.
  A cache entry is the JSON text of the policies; parsing it gives back the columns the engine reads.
\<close>

definition POLICY_CACHE_TTL :: int where
  "POLICY_CACHE_TTL = 60"

record authz =
  policies :: "policy_row list"
  policyCache :: "(string \<times> policy_row list \<times> millis) list"

type_synonym 'a authz_op = "authz \<Rightarrow> 'a result \<times> authz"

subsection \<open>The cache\<close>

text \<open>
  \<open>KEY.realm\<close> applied to the key of \<open>policyListCacheKey\<close>.  A command on a failing connection throws;
  without a connection nothing is read or written.
\<close>

definition policyListCacheKey :: "ident \<Rightarrow> string" where
  "policyListCacheKey realmId = ''policies:'' @ realmId"

definition realm_key :: "string \<Rightarrow> string" where
  "realm_key realmId = ''realm:config:'' @ realmId"

definition cacheRealmConfig :: "env \<Rightarrow> string \<Rightarrow> policy_row list \<Rightarrow> int \<Rightarrow> unit authz_op" where
  "cacheRealmConfig e realmId config ttl s =
     (case redis e of
        RedisDown \<Rightarrow> (Inr (), s)
      | RedisFailing \<Rightarrow> (Inl PlainError, s)
      | RedisUp \<Rightarrow>
          (Inr (), s\<lparr> policyCache := (realm_key realmId, config, now e + ttl * 1000) #
                       filter (\<lambda>c. fst c \<noteq> realm_key realmId) (policyCache s) \<rparr>))"

definition getCachedRealmConfig :: "env \<Rightarrow> string \<Rightarrow> authz \<Rightarrow> policy_row list option result" where
  "getCachedRealmConfig e realmId s =
     (case redis e of
        RedisDown \<Rightarrow> Inr None
      | RedisFailing \<Rightarrow> Inl PlainError
      | RedisUp \<Rightarrow>
          Inr (map_option (fst \<circ> snd)
                 (List.find (\<lambda>c. fst c = realm_key realmId \<and> now e < snd (snd c)) (policyCache s))))"

definition invalidateRealmCache :: "env \<Rightarrow> string \<Rightarrow> unit authz_op" where
  "invalidateRealmCache e realmId s =
     (case redis e of
        RedisDown \<Rightarrow> (Inr (), s)
      | RedisFailing \<Rightarrow> (Inl PlainError, s)
      | RedisUp \<Rightarrow>
          (Inr (), s\<lparr> policyCache := filter (\<lambda>c. fst c \<noteq> realm_key realmId) (policyCache s) \<rparr>))"

definition invalidatePolicyCache :: "env \<Rightarrow> ident \<Rightarrow> unit authz_op" where
  "invalidatePolicyCache e realmId s = invalidateRealmCache e (policyListCacheKey realmId) s"

subsection \<open>Policies of a realm\<close>

definition findAllPolicies :: "ident \<Rightarrow> authz \<Rightarrow> policy_row list" where
  "findAllPolicies rid s =
     sort_key (\<lambda>p. - pol_priority p) (sort_key pol_createdAt
       (filter (\<lambda>p. pol_realmId p = rid) (policies s)))"

definition findPolicyById :: "ident \<Rightarrow> ident \<Rightarrow> authz \<Rightarrow> policy_row result" where
  "findPolicyById rid i s =
     (case List.find (\<lambda>p. pol_id p = i \<and> pol_realmId p = rid) (policies s) of
        None \<Rightarrow> Inl NotFoundException
      | Some p \<Rightarrow> Inr p)"

text \<open>
  The data-transfer objects: an absent field is \<open>None\<close>; \<open>description\<close> and \<open>clientId\<close> of an
  update may be \<open>null\<close> explicitly.  Conditions are arrays.
\<close>

record create_policy_dto =
  cp_name :: string
  cp_description :: "string option"
  cp_enabled :: "bool option"
  cp_effect :: "string option"
  cp_priority :: "int option"
  cp_logic :: "string option"
  cp_clientId :: "string option"
  cp_subjectConditions :: "jsv list option"
  cp_resourceConditions :: "jsv list option"
  cp_actionConditions :: "jsv list option"
  cp_environmentConditions :: "jsv list option"

record update_policy_dto =
  up_name :: "string option"
  up_description :: "string option option"
  up_enabled :: "bool option"
  up_effect :: "string option"
  up_priority :: "int option"
  up_logic :: "string option"
  up_clientId :: "string option option"
  up_subjectConditions :: "jsv list option"
  up_resourceConditions :: "jsv list option"
  up_actionConditions :: "jsv list option"
  up_environmentConditions :: "jsv list option"

definition json_column :: "jsv list option \<Rightarrow> jsv" where
  "json_column c = (case c of None \<Rightarrow> Null | Some xs \<Rightarrow> Arr xs)"

definition createPolicy ::
  "env \<Rightarrow> ident \<Rightarrow> create_policy_dto \<Rightarrow> ident \<Rightarrow> policy_row authz_op" where
  "createPolicy e rid dto newId s =
     (if List.find (\<lambda>p. pol_realmId p = rid \<and> pol_name p = cp_name dto) (policies s) \<noteq> None
      then (Inl ConflictException, s)
      else if newId \<in> set (map pol_id (policies s)) then (Inl PrismaUnique, s)
      else let policy =
                 \<lparr> pol_id = newId, pol_realmId = rid, pol_name = cp_name dto,
                   pol_description = cp_description dto,
                   pol_enabled = nullish_else (cp_enabled dto) True,
                   pol_effect = nullish_else (cp_effect dto) ''ALLOW'',
                   pol_priority = nullish_else (cp_priority dto) 0,
                   pol_logic = nullish_else (cp_logic dto) ''AND'',
                   pol_clientId = cp_clientId dto,
                   pol_subjectConditions = json_column (cp_subjectConditions dto),
                   pol_resourceConditions = json_column (cp_resourceConditions dto),
                   pol_actionConditions = json_column (cp_actionConditions dto),
                   pol_environmentConditions = json_column (cp_environmentConditions dto),
                   pol_createdAt = now e \<rparr>
           in and_then (invalidatePolicyCache e rid (s\<lparr> policies := policies s @ [policy] \<rparr>))
                (\<lambda>_ s'. (Inr policy, s')))"

definition policy_data :: "update_policy_dto \<Rightarrow> policy_row \<Rightarrow> policy_row" where
  "policy_data dto p =
     p\<lparr> pol_name := nullish_else (up_name dto) (pol_name p),
        pol_description := nullish_else (up_description dto) (pol_description p),
        pol_enabled := nullish_else (up_enabled dto) (pol_enabled p),
        pol_effect := nullish_else (up_effect dto) (pol_effect p),
        pol_priority := nullish_else (up_priority dto) (pol_priority p),
        pol_logic := nullish_else (up_logic dto) (pol_logic p),
        pol_clientId := nullish_else (up_clientId dto) (pol_clientId p),
        pol_subjectConditions :=
          (case up_subjectConditions dto of None \<Rightarrow> pol_subjectConditions p | Some xs \<Rightarrow> Arr xs),
        pol_resourceConditions :=
          (case up_resourceConditions dto of None \<Rightarrow> pol_resourceConditions p | Some xs \<Rightarrow> Arr xs),
        pol_actionConditions :=
          (case up_actionConditions dto of None \<Rightarrow> pol_actionConditions p | Some xs \<Rightarrow> Arr xs),
        pol_environmentConditions :=
          (case up_environmentConditions dto of None \<Rightarrow> pol_environmentConditions p | Some xs \<Rightarrow> Arr xs) \<rparr>"

definition updatePolicy ::
  "env \<Rightarrow> ident \<Rightarrow> ident \<Rightarrow> update_policy_dto \<Rightarrow> policy_row authz_op" where
  "updatePolicy e rid i dto s =
     (case findPolicyById rid i s of
        Inl err \<Rightarrow> (Inl err, s)
      | Inr p \<Rightarrow>
          and_then (invalidatePolicyCache e rid
                      (s\<lparr> policies := tbl_update (\<lambda>q. pol_id q = i) (policy_data dto) (policies s) \<rparr>))
            (\<lambda>_ s'. (Inr (policy_data dto p), s')))"

definition deletePolicy :: "env \<Rightarrow> ident \<Rightarrow> ident \<Rightarrow> unit authz_op" where
  "deletePolicy e rid i s =
     (case findPolicyById rid i s of
        Inl err \<Rightarrow> (Inl err, s)
      | Inr p \<Rightarrow>
          invalidatePolicyCache e rid (s\<lparr> policies := tbl_delete (\<lambda>q. pol_id q = i) (policies s) \<rparr>))"

subsection \<open>Evaluation\<close>

definition getCachedPolicies :: "env \<Rightarrow> ident \<Rightarrow> policy_row list authz_op" where
  "getCachedPolicies e realmId s =
     (let cacheKey = policyListCacheKey realmId
      in case getCachedRealmConfig e cacheKey s of
           Inl err \<Rightarrow> (Inl err, s)
         | Inr (Some cached) \<Rightarrow> (Inr cached, s)
         | Inr None \<Rightarrow>
             (let ps = findAllPolicies realmId s
              in and_then (cacheRealmConfig e cacheKey ps POLICY_CACHE_TTL s)
                   (\<lambda>_ s'. (Inr ps, s'))))"

definition client_scoped :: "string option \<Rightarrow> policy_row list \<Rightarrow> policy_row list" where
  "client_scoped clientId ps =
     (if falsy clientId then ps
      else filter (\<lambda>p. pol_clientId p = None \<or> pol_clientId p = clientId) ps)"

definition evaluate :: "js_engine \<Rightarrow> env \<Rightarrow> ident \<Rightarrow> policy_request \<Rightarrow> policy_result authz_op" where
  "evaluate g e rid dto s =
     and_then (getCachedPolicies e rid s)
       (\<lambda>ps s'. (evaluatePolicies g (client_scoped (req_clientId dto) ps) dto, s'))"

definition testPolicy ::
  "js_engine \<Rightarrow> ident \<Rightarrow> ident \<Rightarrow> policy_request \<Rightarrow> authz \<Rightarrow> (bool \<times> effect \<times> policy_match) result" where
  "testPolicy g rid i dto s =
     (case findPolicyById rid i s of
        Inl err \<Rightarrow> Inl err
      | Inr policy \<Rightarrow>
          (case evaluatePolicy g policy (dto\<lparr> req_clientId := None \<rparr>) of
             Inl err \<Rightarrow> Inl err
           | Inr detail \<Rightarrow> Inr (pm_matched detail, pm_effect detail, detail)))"

subsection \<open>Runs of the service\<close>

text \<open>
  The requests the service handles, each with the environment it runs in.  A run applies them one
  after the other; a request that throws keeps the state it has reached.
\<close>

datatype authz_event =
    EvCreate env ident create_policy_dto ident
  | EvUpdate env ident ident update_policy_dto
  | EvDelete env ident ident
  | EvEvaluate env ident policy_request

fun ev_env :: "authz_event \<Rightarrow> env" where
  "ev_env (EvCreate e rid dto i) = e"
| "ev_env (EvUpdate e rid i dto) = e"
| "ev_env (EvDelete e rid i) = e"
| "ev_env (EvEvaluate e rid dto) = e"

fun ev_apply :: "js_engine \<Rightarrow> authz_event \<Rightarrow> authz \<Rightarrow> authz" where
  "ev_apply g (EvCreate e rid dto i) s = snd (createPolicy e rid dto i s)"
| "ev_apply g (EvUpdate e rid i dto) s = snd (updatePolicy e rid i dto s)"
| "ev_apply g (EvDelete e rid i) s = snd (deletePolicy e rid i s)"
| "ev_apply g (EvEvaluate e rid dto) s = snd (evaluate g e rid dto s)"

definition authz_run :: "js_engine \<Rightarrow> authz_event list \<Rightarrow> authz \<Rightarrow> authz" where
  "authz_run g evs s = fold (ev_apply g) evs s"

lemma authz_run_snoc: "authz_run g (evs @ [ev]) s = ev_apply g ev (authz_run g evs s)"
  by (simp add: authz_run_def)

definition cache_key :: "ident \<Rightarrow> string" where
  "cache_key rid = realm_key (policyListCacheKey rid)"

lemma cache_key_inj [simp]: "cache_key a = cache_key b \<longleftrightarrow> a = b"
  by (simp add: cache_key_def realm_key_def policyListCacheKey_def)

lemmas cache_defs = cacheRealmConfig_def getCachedRealmConfig_def invalidateRealmCache_def
  invalidatePolicyCache_def cache_key_def [symmetric] POLICY_CACHE_TTL_def

lemma snd_and_then_const: "snd (and_then m (\<lambda>x s. (f x, s))) = snd m"
  by (cases m; cases "fst m") auto

lemma snd_getCachedPolicies:
  "snd (getCachedPolicies e rid s) = s \<or>
   redis e = RedisUp \<and> snd (getCachedPolicies e rid s) =
     s\<lparr> policyCache := (cache_key rid, findAllPolicies rid s, now e + 60000) #
          filter (\<lambda>c. fst c \<noteq> cache_key rid) (policyCache s) \<rparr>"
  by (auto simp: getCachedPolicies_def cache_defs Let_def
      split: redis_mode.splits option.splits sum.splits)

lemma snd_invalidate:
  "snd (invalidatePolicyCache e rid s) =
     (if redis e = RedisUp then s\<lparr> policyCache := filter (\<lambda>c. fst c \<noteq> cache_key rid) (policyCache s) \<rparr> else s)"
  by (auto simp: cache_defs split: redis_mode.splits)

lemma ev_apply_entries:
  assumes "c \<in> set (policyCache (ev_apply g ev s))"
  shows "c \<in> set (policyCache s) \<or>
    (\<exists>rid. c = (cache_key rid, findAllPolicies rid s, now (ev_env ev) + 60000))"
proof (cases ev)
  case (EvEvaluate e rid dto)
  with assms snd_getCachedPolicies [of e rid s] show ?thesis
    by (auto simp: evaluate_def snd_and_then_const)
qed (use assms in \<open>auto simp: createPolicy_def updatePolicy_def deletePolicy_def Let_def
        snd_and_then_const snd_invalidate split: if_splits sum.splits\<close>)

lemma cached_from_run:
  assumes "policyCache s0 = []" and "c \<in> set (policyCache (authz_run g evs s0))"
  shows "\<exists>k < length evs. \<exists>rid. c = (cache_key rid, findAllPolicies rid (authz_run g (take k evs) s0),
           now (ev_env (evs ! k)) + 60000)"
  using assms(2)
proof (induction evs rule: rev_induct)
  case Nil
  with assms(1) show ?case by (simp add: authz_run_def)
next
  case (snoc ev evs)
  from ev_apply_entries [of c g ev] snoc.prems
  consider "c \<in> set (policyCache (authz_run g evs s0))"
    | rid where "c = (cache_key rid, findAllPolicies rid (authz_run g evs s0), now (ev_env ev) + 60000)"
    unfolding authz_run_snoc by blast
  then show ?case
  proof cases
    case 1
    from snoc.IH [OF this] obtain k rid where "k < length evs"
      and "c = (cache_key rid, findAllPolicies rid (authz_run g (take k evs) s0), now (ev_env (evs ! k)) + 60000)"
      by blast
    then show ?thesis by (intro exI [of _ k]) (auto simp: nth_append)
  next
    case 2
    then show ?thesis by (intro exI [of _ "length evs"]) auto
  qed
qed

lemma evaluate_source:
  assumes "evaluate g e rid dto s = (Inr res, s')"
  shows "(\<exists>ps exp. (cache_key rid, ps, exp) \<in> set (policyCache s) \<and> now e < exp \<and> redis e = RedisUp \<and>
            evaluatePolicies g (client_scoped (req_clientId dto) ps) dto = Inr res)
       \<or> evaluatePolicies g (client_scoped (req_clientId dto) (findAllPolicies rid s)) dto = Inr res"
  using assms
  by (auto simp: evaluate_def getCachedPolicies_def cache_defs Let_def elim!: and_then_okE
      split: redis_mode.splits option.splits sum.splits dest!: find_SomeD) blast

text \<open>
  Coherence while Redis answers: every entry of the cache holds the policies the database has for its
  realm.
\<close>

definition coherent :: "authz \<Rightarrow> bool" where
  "coherent s \<longleftrightarrow> distinct (map pol_id (policies s)) \<and>
     (\<forall>rid ps t. (cache_key rid, ps, t) \<in> set (policyCache s) \<longrightarrow> ps = findAllPolicies rid s)"

lemma findAllPolicies_cache [simp]: "findAllPolicies rid (s\<lparr> policyCache := c \<rparr>) = findAllPolicies rid s"
  by (simp add: findAllPolicies_def)

lemma policy_data_ids [simp]: "pol_id (policy_data dto p) = pol_id p" "pol_realmId (policy_data dto p) = pol_realmId p"
  by (simp_all add: policy_data_def)

lemma coherent_write:
  assumes "coherent s" and "distinct (map pol_id ps)"
    and "\<And>r. r \<noteq> rid \<Longrightarrow> filter (\<lambda>p. pol_realmId p = r) ps = filter (\<lambda>p. pol_realmId p = r) (policies s)"
    and "redis e = RedisUp"
  shows "coherent (snd (invalidatePolicyCache e rid (s\<lparr> policies := ps \<rparr>)))"
  using assms by (auto simp: coherent_def snd_invalidate findAllPolicies_def)

lemma findPolicyById_realm:
  assumes "findPolicyById rid i s = Inr p" and "distinct (map pol_id (policies s))"
    and "q \<in> set (policies s)" and "pol_id q = i"
  shows "pol_realmId q = rid"
proof -
  from assms(1) have "p \<in> set (policies s)" "pol_id p = i" "pol_realmId p = rid"
    by (auto simp: findPolicyById_def dest!: find_SomeD split: option.splits)
  with assms(2-4) distinct_id_eq [of pol_id "policies s" p q] show ?thesis by auto
qed

lemma filter_tbl_update_other:
  "(\<And>x. x \<in> set xs \<Longrightarrow> q x \<Longrightarrow> \<not> p x \<and> \<not> p (f x)) \<Longrightarrow> filter p (tbl_update q f xs) = filter p xs"
  by (induction xs) auto

lemma filter_tbl_delete_other:
  "(\<And>x. x \<in> set xs \<Longrightarrow> q x \<Longrightarrow> \<not> p x) \<Longrightarrow> filter p (tbl_delete q xs) = filter p xs"
  by (induction xs) auto

lemma ev_apply_coherent:
  assumes "coherent s" and "redis (ev_env ev) = RedisUp"
  shows "coherent (ev_apply g ev s)"
proof (cases ev)
  case (EvCreate e rid dto i)
  moreover have "distinct (map pol_id (policies s))" using assms(1) by (simp add: coherent_def)
  ultimately show ?thesis
    using assms by (auto simp: createPolicy_def Let_def snd_and_then_const intro!: coherent_write)
next
  case (EvUpdate e rid i dto)
  show ?thesis
  proof (cases "findPolicyById rid i s")
    case (Inr p)
    have d: "distinct (map pol_id (policies s))" using assms(1) by (simp add: coherent_def)
    have "coherent (snd (invalidatePolicyCache e rid
        (s\<lparr> policies := tbl_update (\<lambda>q. pol_id q = i) (policy_data dto) (policies s) \<rparr>)))"
    proof (rule coherent_write [OF assms(1)])
      show "distinct (map pol_id (tbl_update (\<lambda>q. pol_id q = i) (policy_data dto) (policies s)))"
        using d by (subst map_tbl_update) auto
      show "filter (\<lambda>p. pol_realmId p = r) (tbl_update (\<lambda>q. pol_id q = i) (policy_data dto) (policies s))
          = filter (\<lambda>p. pol_realmId p = r) (policies s)" if "r \<noteq> rid" for r
        using that findPolicyById_realm [OF Inr d] by (intro filter_tbl_update_other) auto
    qed (use assms(2) EvUpdate in simp)
    with EvUpdate Inr show ?thesis by (simp add: updatePolicy_def snd_and_then_const)
  qed (use EvUpdate assms in \<open>simp add: updatePolicy_def\<close>)
next
  case (EvDelete e rid i)
  show ?thesis
  proof (cases "findPolicyById rid i s")
    case (Inr p)
    have d: "distinct (map pol_id (policies s))" using assms(1) by (simp add: coherent_def)
    have "coherent (snd (invalidatePolicyCache e rid
        (s\<lparr> policies := tbl_delete (\<lambda>q. pol_id q = i) (policies s) \<rparr>)))"
    proof (rule coherent_write [OF assms(1)])
      show "filter (\<lambda>p. pol_realmId p = r) (tbl_delete (\<lambda>q. pol_id q = i) (policies s))
          = filter (\<lambda>p. pol_realmId p = r) (policies s)" if "r \<noteq> rid" for r
        using that findPolicyById_realm [OF Inr d] by (intro filter_tbl_delete_other) auto
    qed (use assms(2) EvDelete d in \<open>simp_all add: distinct_map_tbl_delete\<close>)
    with EvDelete Inr show ?thesis by (simp add: deletePolicy_def)
  qed (use EvDelete assms in \<open>simp add: deletePolicy_def\<close>)
next
  case (EvEvaluate e rid dto)
  with assms(1) snd_getCachedPolicies [of e rid s] show ?thesis
    by (auto simp: evaluate_def snd_and_then_const coherent_def) blast+
qed

lemma authz_run_coherent:
  "coherent s \<Longrightarrow> (\<forall>ev \<in> set evs. redis (ev_env ev) = RedisUp) \<Longrightarrow> coherent (authz_run g evs s)"
  by (induction evs rule: rev_induct) (simp_all add: authz_run_def ev_apply_coherent)

text \<open>
  C37.  Bounded staleness of the policy cache.  In any run that starts with an empty cache, whatever
  Redis does in between (losing the connection, failing), a decision returned by \<open>evaluate\<close> is the
  decision of the engine on the client-scoped policies that the realm had at some point of the run:
  either now, or at an evaluation less than 60 seconds ago.  While Redis answers throughout, every
  change of a policy takes effect at once: the decision is that on the current policies.
\<close>

theorem policy_cache_staleness:
  assumes "policyCache s0 = []" and "distinct (map pol_id (policies s0))"
    and "evaluate g e rid dto (authz_run g evs s0) = (Inr res, s')"
  shows "(\<exists>k \<le> length evs.
            evaluatePolicies g (client_scoped (req_clientId dto)
              (findAllPolicies rid (authz_run g (take k evs) s0))) dto = Inr res
            \<and> (k < length evs \<longrightarrow> now e < now (ev_env (evs ! k)) + 60000))
       \<and> ((\<forall>ev \<in> set evs. redis (ev_env ev) = RedisUp) \<longrightarrow>
            evaluatePolicies g (client_scoped (req_clientId dto)
              (findAllPolicies rid (authz_run g evs s0))) dto = Inr res)"
proof (intro conjI impI)
  let ?P = "\<lambda>ps. evaluatePolicies g (client_scoped (req_clientId dto) ps) dto = Inr res"
  from evaluate_source [OF assms(3)]
  consider ps t where "(cache_key rid, ps, t) \<in> set (policyCache (authz_run g evs s0))" "now e < t" "?P ps"
    | "?P (findAllPolicies rid (authz_run g evs s0))"
    by blast
  then show "\<exists>k \<le> length evs. ?P (findAllPolicies rid (authz_run g (take k evs) s0))
      \<and> (k < length evs \<longrightarrow> now e < now (ev_env (evs ! k)) + 60000)"
  proof cases
    case 1
    from cached_from_run [OF assms(1) this(1)] this(2,3) show ?thesis
      by (auto intro: less_imp_le)
  next
    case 2
    then show ?thesis by (intro exI [of _ "length evs"]) simp
  qed
next
  assume "\<forall>ev \<in> set evs. redis (ev_env ev) = RedisUp"
  then have "coherent (authz_run g evs s0)"
    using assms(1,2) by (intro authz_run_coherent) (auto simp: coherent_def)
  with evaluate_source [OF assms(3)] show "evaluatePolicies g (client_scoped (req_clientId dto)
      (findAllPolicies rid (authz_run g evs s0))) dto = Inr res"
    by (fastforce simp: coherent_def)
qed

definition sample_authz :: authz where
  "sample_authz = \<lparr> policies = [sample_allow], policyCache = [] \<rparr>"

definition sample_authz_run :: "authz_event list" where
  "sample_authz_run =
     [EvEvaluate sample_env ''r1'' (sample_policy_request ''10.0.0.7''),
      EvDelete (sample_env\<lparr> now := 1001000 \<rparr>) ''r1'' ''p1'']"

theorem policy_cache_staleness_witness:
  "(case fst (evaluate sample_engine (sample_env\<lparr> now := 1002000 \<rparr>) ''r1'' (sample_policy_request ''10.0.0.7'')
       (authz_run sample_engine sample_authz_run sample_authz)) of
      Inr res \<Rightarrow>
        pr_decision res = DENY \<and>
        evaluatePolicies sample_engine (client_scoped None
          (findAllPolicies ''r1'' (authz_run sample_engine sample_authz_run sample_authz)))
          (sample_policy_request ''10.0.0.7'') = Inr res
    | Inl _ \<Rightarrow> False)"
proof -
  let ?e = "sample_env\<lparr> now := 1002000 \<rparr>"
  let ?q = "sample_policy_request ''10.0.0.7''"
  let ?s = "authz_run sample_engine sample_authz_run sample_authz"
  have "case fst (evaluate sample_engine ?e ''r1'' ?q ?s) of Inr res \<Rightarrow> pr_decision res = DENY | Inl _ \<Rightarrow> False"
    by code_simp
  then obtain res where r: "fst (evaluate sample_engine ?e ''r1'' ?q ?s) = Inr res" "pr_decision res = DENY"
    by (auto split: sum.splits)
  have c: "req_clientId ?q = None" by (simp add: sample_policy_request_def)
  have "evaluate sample_engine ?e ''r1'' ?q ?s = (Inr res, snd (evaluate sample_engine ?e ''r1'' ?q ?s))"
    using r by (simp add: prod_eq_iff)
  from policy_cache_staleness [OF _ _ this]
  have "evaluatePolicies sample_engine (client_scoped None (findAllPolicies ''r1'' ?s)) ?q = Inr res"
    unfolding c by (simp add: sample_authz_def sample_authz_run_def sample_env_def)
  with r show ?thesis by simp
qed

end
