(* ===== verification/Ip_Guard.thy ===== *)
theory Ip_Guard
  imports Ipv4_Text
begin

text \<open>
  The guard against server-side request forgery (\<open>src/common/security/ip-range-guard.ts\<close>): which IP
  addresses and which host name literals may never be the target of an outbound request.  IPv4
  addresses are 32-bit words; the 128-bit integers of IPv6 are JavaScript \<open>bigint\<close>s, natural numbers
  here.  The function \<open>isIP\<close> of \<open>node:net\<close> is a parameter: it gives 4 or 6 for a literal of that family
  and 0 for any other text.
\<close>

subsection \<open>Text searches\<close>

fun index_of :: "string \<Rightarrow> string \<Rightarrow> nat option" where
  "index_of p [] = (if p = [] then Some 0 else None)"
| "index_of p (c # s) = (if take (length p) (c # s) = p then Some 0 else map_option Suc (index_of p s))"

definition after_last :: "char \<Rightarrow> string \<Rightarrow> string" where
  "after_last c s = rev (takeWhile (\<lambda>x. x \<noteq> c) (rev s))"

definition upto_last :: "char \<Rightarrow> string \<Rightarrow> string" where
  "upto_last c s = take (length s - length (after_last c s)) s"

definition hex_digit :: "nat \<Rightarrow> char" where
  "hex_digit n = (if n < 10 then char_of (48 + n) else char_of (87 + n))"

fun show_hex :: "nat \<Rightarrow> string" where
  "show_hex n = (if n < 16 then [hex_digit n] else show_hex (n div 16) @ [hex_digit (n mod 16)])"

declare show_hex.simps [simp del]

subsection \<open>IPv4\<close>

definition IPV4_BLOCKED_RANGES :: "(string \<times> nat) list" where
  "IPV4_BLOCKED_RANGES =
     [(''0.0.0.0'', 8), (''10.0.0.0'', 8), (''100.64.0.0'', 10), (''127.0.0.0'', 8),
      (''169.254.0.0'', 16), (''172.16.0.0'', 12), (''192.0.0.0'', 24), (''192.0.2.0'', 24),
      (''192.168.0.0'', 16), (''198.18.0.0'', 15), (''198.51.100.0'', 24), (''203.0.113.0'', 24),
      (''224.0.0.0'', 4), (''240.0.0.0'', 4), (''255.255.255.255'', 32)]"

fun ipv4_fold :: "string list \<Rightarrow> 32 word \<Rightarrow> 32 word option" where
  "ipv4_fold [] value = Some value"
| "ipv4_fold (part # parts) value =
     (if \<not> (1 \<le> length part \<and> length part \<le> 3 \<and> list_all is_js_digit part) then None
      else let octet = digits_value 10 part
           in if 255 < octet then None
              else ipv4_fold parts (push_bit 8 value OR word_of_nat octet))"

definition ipv4ToInt :: "string \<Rightarrow> 32 word option" where
  "ipv4ToInt ip =
     (let parts = split_on (CHR ''.'') ip
      in if length parts \<noteq> 4 then None else ipv4_fold parts 0)"

definition ipv4IntInCidr :: "32 word \<Rightarrow> string \<Rightarrow> nat \<Rightarrow> bool" where
  "ipv4IntInCidr value network prefixLength =
     (case ipv4ToInt network of
        None \<Rightarrow> False
      | Some base \<Rightarrow>
          (let mask = (if prefixLength = 0 then 0 else push_bit (32 - prefixLength) (NOT 0)) :: 32 word
           in value AND mask = base AND mask))"

definition isBlockedIpv4 :: "string \<Rightarrow> bool" where
  "isBlockedIpv4 ip =
     (case ipv4ToInt ip of
        None \<Rightarrow> True
      | Some value \<Rightarrow>
          list_ex (\<lambda>(network, prefixLength). ipv4IntInCidr value network prefixLength) IPV4_BLOCKED_RANGES)"

subsection \<open>IPv6\<close>

definition IPV6_BLOCKED_RANGES :: "(string \<times> nat) list" where
  "IPV6_BLOCKED_RANGES =
     [(''::1'', 128), (''::'', 128), (''fc00::'', 7), (''fe80::'', 10), (''ff00::'', 8),
      (''2001:db8::'', 32), (''64:ff9b::'', 96)]"

definition FULL_128_MASK :: nat where
  "FULL_128_MASK = push_bit 128 1 - 1"

definition ipv6PrefixMask :: "nat \<Rightarrow> nat" where
  "ipv6PrefixMask prefixLength =
     (if prefixLength = 0 then 0
      else if 128 \<le> prefixLength then FULL_128_MASK
      else push_bit (128 - prefixLength) FULL_128_MASK AND FULL_128_MASK)"

definition expand_tail :: "string \<Rightarrow> string option" where
  "expand_tail addr =
     (let tailCandidate = after_last (CHR '':'') addr
      in if CHR ''.'' \<in> set tailCandidate
         then (case ipv4ToInt tailCandidate of
                 None \<Rightarrow> None
               | Some v4 \<Rightarrow>
                   (let hi = show_hex (unat (drop_bit 16 v4 AND 0xffff));
                        lo = show_hex (unat (v4 AND 0xffff))
                    in Some (upto_last (CHR '':'') addr @ hi @ '':'' @ lo)))
         else Some addr)"

definition hextet :: "string \<Rightarrow> bool" where
  "hextet grp \<longleftrightarrow> 1 \<le> length grp \<and> length grp \<le> 4 \<and> list_all (\<lambda>c. digit_in 16 c \<noteq> None) grp"

definition expand_groups :: "string \<Rightarrow> string list option" where
  "expand_groups addr =
     (case index_of ''::'' addr of
        None \<Rightarrow>
          (let groups = split_on (CHR '':'') addr
           in if length groups \<noteq> 8 then None else Some groups)
      | Some firstDoubleColon \<Rightarrow>
          (if index_of ''::'' (drop (firstDoubleColon + 1) addr) \<noteq> None then None
           else let left = take firstDoubleColon addr;
                    right = drop (firstDoubleColon + 2) addr;
                    leftParts = (if 0 < length left then split_on (CHR '':'') left else []);
                    rightParts = (if 0 < length right then split_on (CHR '':'') right else [])
                in if 8 < length leftParts + length rightParts then None
                   else Some (leftParts @ replicate (8 - (length leftParts + length rightParts)) ''0''
                              @ rightParts)))"

definition expandIpv6Groups :: "string \<Rightarrow> string list option" where
  "expandIpv6Groups ip =
     (case expand_tail (takeWhile (\<lambda>c. c \<noteq> CHR ''%'') ip) of
        None \<Rightarrow> None
      | Some addr \<Rightarrow>
          (case expand_groups addr of
             None \<Rightarrow> None
           | Some groups \<Rightarrow> if length groups \<noteq> 8 \<or> \<not> list_all hextet groups then None else Some groups))"

definition ipv6ToBigInt :: "string \<Rightarrow> nat option" where
  "ipv6ToBigInt ip =
     map_option (foldl (\<lambda>value grp. push_bit 16 value OR digits_value 16 grp) 0) (expandIpv6Groups ip)"

definition ipv6InCidr :: "nat \<Rightarrow> string \<Rightarrow> nat \<Rightarrow> bool" where
  "ipv6InCidr value network prefixLength =
     (case ipv6ToBigInt network of
        None \<Rightarrow> False
      | Some base \<Rightarrow>
          (let mask = ipv6PrefixMask prefixLength in value AND mask = base AND mask))"

definition quad_string :: "32 word \<Rightarrow> string" where
  "quad_string v =
     join_with (CHR ''.'')
       (map (\<lambda>w. show_nat (unat w))
          [drop_bit 24 v AND 0xff, drop_bit 16 v AND 0xff, drop_bit 8 v AND 0xff, v AND 0xff])"

definition bigIntToIpv4 :: "nat \<Rightarrow> string" where
  "bigIntToIpv4 value = quad_string (word_of_nat (value AND 0xffffffff))"

definition isBlockedIpv6 :: "string \<Rightarrow> bool" where
  "isBlockedIpv6 ip =
     (case ipv6ToBigInt ip of
        None \<Rightarrow> True
      | Some value \<Rightarrow>
          (if list_ex (\<lambda>(network, prefixLength). ipv6InCidr value network prefixLength) IPV6_BLOCKED_RANGES
           then True
           else let mask96 = ipv6PrefixMask 96; mask16 = ipv6PrefixMask 16
                in if (case ipv6ToBigInt ''::ffff:0:0'' of
                         None \<Rightarrow> False
                       | Some mappedBase \<Rightarrow> value AND mask96 = mappedBase AND mask96)
                   then isBlockedIpv4 (bigIntToIpv4 (value AND 0xffffffff))
                   else if value AND mask96 = 0
                   then isBlockedIpv4 (bigIntToIpv4 (value AND 0xffffffff))
                   else if (case ipv6ToBigInt ''2002::'' of
                              None \<Rightarrow> False
                            | Some sixToFourBase \<Rightarrow> value AND mask16 = sixToFourBase AND mask16)
                   then isBlockedIpv4 (bigIntToIpv4 (drop_bit 80 value AND 0xffffffff))
                   else False))"

definition isBlockedIp :: "(string \<Rightarrow> nat) \<Rightarrow> string \<Rightarrow> bool" where
  "isBlockedIp isIP ip =
     (if isIP ip = 4 then isBlockedIpv4 ip else if isIP ip = 6 then isBlockedIpv6 ip else True)"

subsection \<open>Host name literals\<close>

definition BLOCKED_HOSTNAME_LITERALS :: "string list" where
  "BLOCKED_HOSTNAME_LITERALS = [''localhost'', ''localhost.localdomain'']"

text \<open>
  \<open>parseInt\<close> on a very long numeral rounds to a double or to \<open>Infinity\<close>; every such value exceeds the
  bounds the caller checks, as the exact number does.
\<close>

definition parseNumericIpv4Segment :: "string \<Rightarrow> nat option" where
  "parseNumericIpv4Segment segment =
     (if segment = [] then None
      else if to_lower (take 2 segment) = ''0x'' \<and> all_digits 16 (drop 2 segment)
      then Some (digits_value 16 (drop 2 segment))
      else if hd segment = CHR ''0'' \<and> all_digits 8 (tl segment)
      then Some (digits_value 8 segment)
      else if segment = ''0'' \<or> (all_digits 10 segment \<and> hd segment \<noteq> CHR ''0'')
      then Some (digits_value 10 segment)
      else None)"

fun parse_segments :: "string list \<Rightarrow> nat list option" where
  "parse_segments [] = Some []"
| "parse_segments (segment # segments) =
     (case parseNumericIpv4Segment segment of
        None \<Rightarrow> None
      | Some value \<Rightarrow> map_option (Cons value) (parse_segments segments))"

fun combine_segments :: "nat list \<Rightarrow> 32 word option" where
  "combine_segments [a] = (if 0xffffffff < a then None else Some (word_of_nat a))"
| "combine_segments [a, b] =
     (if 0xff < a \<or> 0xffffff < b then None
      else Some (push_bit 24 (word_of_nat a) OR word_of_nat b))"
| "combine_segments [a, b, c] =
     (if 0xff < a \<or> 0xff < b \<or> 0xffff < c then None
      else Some (push_bit 24 (word_of_nat a) OR push_bit 16 (word_of_nat b) OR word_of_nat c))"
| "combine_segments [a, b, c, d] =
     (if 0xff < a \<or> 0xff < b \<or> 0xff < c \<or> 0xff < d then None
      else Some (push_bit 24 (word_of_nat a) OR push_bit 16 (word_of_nat b) OR push_bit 8 (word_of_nat c)
                 OR word_of_nat d))"
| "combine_segments _ = None"

definition normalizeNumericIpv4Literal :: "string \<Rightarrow> string option" where
  "normalizeNumericIpv4Literal hostname =
     (let segments = split_on (CHR ''.'') hostname
      in if length segments < 1 \<or> 4 < length segments then None
         else case parse_segments segments of
                None \<Rightarrow> None
              | Some values \<Rightarrow> map_option quad_string (combine_segments values))"

definition host_of_literal :: "string \<Rightarrow> string" where
  "host_of_literal hostname =
     (let h0 = to_lower (js_trim hostname);
          h1 = (if starts_with ''['' h0 \<and> ends_with '']'' h0 then drop 1 (take (length h0 - 1) h0) else h0)
      in if ends_with ''.'' h1 \<and> 1 < length h1 then butlast h1 else h1)"

definition isBlockedHostnameLiteral :: "(string \<Rightarrow> nat) \<Rightarrow> string \<Rightarrow> bool" where
  "isBlockedHostnameLiteral isIP hostname =
     (let host = host_of_literal hostname
      in if host = [] then True
         else if host \<in> set BLOCKED_HOSTNAME_LITERALS \<or> ends_with ''.localhost'' host then True
         else if isIP host \<noteq> 0 then isBlockedIp isIP host
         else case normalizeNumericIpv4Literal host of
                Some normalized \<Rightarrow> isBlockedIpv4 normalized
              | None \<Rightarrow> False)"

subsection \<open>What the numbers are\<close>

lemma push_or_nat: "b < 2 ^ n \<Longrightarrow> push_bit n a OR b = a * 2 ^ n + (b :: nat)"
proof -
  assume "b < 2 ^ n"
  then have "push_bit n (int a) OR int b = int a * 2 ^ n + int b"
    by (intro push_or) (simp_all flip: of_nat_power of_nat_less_iff)
  then have "int (push_bit n a OR b) = int (a * 2 ^ n + b)"
    by (simp add: of_nat_or_eq flip: push_bit_of_nat)
  then show ?thesis by (simp only: of_nat_eq_iff)
qed

lemma digits_value_less:
  "list_all (\<lambda>c. digit_in base c \<noteq> None) s \<Longrightarrow> digits_value base s < base ^ length s"
proof (induction s rule: rev_induct)
  case (snoc c s)
  then obtain d where d: "digit_in base c = Some d" by auto
  then have "d < base" by (auto simp: digit_in_def Let_def split: if_splits)
  moreover have "digits_value base s < base ^ length s" using snoc by simp
  then have "digits_value base s * base + base \<le> base * base ^ length s"
    by (metis Suc_leI add.commute mult.commute mult_Suc mult_le_mono1)
  ultimately show ?case using d by (simp add: digits_value_def)
qed (simp add: digits_value_def)

lemma hextet_less: "hextet g \<Longrightarrow> digits_value 16 g < 65536"
proof -
  assume h: "hextet g"
  then have "digits_value 16 g < 16 ^ length g" by (auto simp: hextet_def intro: digits_value_less)
  also have "\<dots> \<le> 16 ^ 4" using h by (intro power_increasing) (auto simp: hextet_def)
  finally show ?thesis by simp
qed

definition number_of_groups :: "nat list \<Rightarrow> nat" where
  "number_of_groups ns = foldl (\<lambda>a n. a * 65536 + n) 0 ns"

lemma foldl_groups:
  "list_all hextet gs \<Longrightarrow>
     foldl (\<lambda>value grp. push_bit 16 value OR digits_value 16 grp) v gs
     = foldl (\<lambda>a n. a * 65536 + n) v (map (digits_value 16) gs)"
  by (induction gs arbitrary: v) (auto simp: push_or_nat hextet_less)

lemma ipv6ToBigInt_groups:
  "expandIpv6Groups ip = Some gs \<Longrightarrow> ipv6ToBigInt ip = Some (number_of_groups (map (digits_value 16) gs))"
  by (auto simp: ipv6ToBigInt_def number_of_groups_def expandIpv6Groups_def foldl_groups
      split: option.splits if_splits)

lemma foldl_groups_less:
  "list_all (\<lambda>n. n < 65536) ns \<Longrightarrow> foldl (\<lambda>a n. a * 65536 + n) v ns < (v + 1) * (65536 :: nat) ^ length ns"
proof (induction ns arbitrary: v)
  case (Cons n ns)
  then have "foldl (\<lambda>a n. a * 65536 + n) (v * 65536 + n) ns < (v * 65536 + n + 1) * 65536 ^ length ns"
    by simp
  also have "\<dots> \<le> ((v + 1) * 65536) * 65536 ^ length ns"
    using Cons.prems by (intro mult_right_mono) simp_all
  finally show ?case by (simp add: algebra_simps)
qed simp

lemma ipv6ToBigInt_less: "ipv6ToBigInt ip = Some v \<Longrightarrow> v < 2 ^ 128"
proof -
  assume a: "ipv6ToBigInt ip = Some v"
  then obtain gs where gs: "expandIpv6Groups ip = Some gs"
    by (auto simp: ipv6ToBigInt_def)
  then have h: "length gs = 8" "list_all hextet gs"
    by (auto simp: expandIpv6Groups_def split: option.splits if_splits)
  then have "list_all (\<lambda>n. n < 65536) (map (digits_value 16) gs)"
    by (auto simp: list_all_iff hextet_less)
  from foldl_groups_less [OF this, of 0] h ipv6ToBigInt_groups [OF gs] a
  show ?thesis by (simp add: number_of_groups_def)
qed

lemma div_eq_interval:
  assumes "0 < (d :: nat)"
  shows "n div d = c \<longleftrightarrow> c * d \<le> n \<and> n \<le> c * d + (d - 1)"
proof
  assume "n div d = c"
  then show "c * d \<le> n \<and> n \<le> c * d + (d - 1)"
    using div_mult_mod_eq [of n d] mod_less_divisor [OF assms, of n] by auto
next
  assume "c * d \<le> n \<and> n \<le> c * d + (d - 1)"
  with assms have "c * d \<le> n" "n < Suc c * d" by (auto simp: algebra_simps)
  then show "n div d = c" by (metis div_nat_eqI mult.commute)
qed

subsection \<open>IPv4: dotted text and blocked intervals\<close>

lemma length_show_nat_less: "n < 1000 \<Longrightarrow> length (show_nat n) \<le> 3"
  by (simp add: show_nat.simps [of n] show_nat.simps [of "n div 10"] show_nat.simps [of "n div 10 div 10"])

lemma octet_step: "v < 2 ^ 24 \<Longrightarrow> n < 256 \<Longrightarrow>
  push_bit 8 (word_of_nat v) OR word_of_nat n = (word_of_nat (v * 256 + n) :: 32 word)"
  using push_or_nat [of n 8 v]
  by (simp add: push_bit_of_nat flip: of_nat_or_eq)

lemma ipv4ToInt_dotted:
  assumes "octets os"
  shows "ipv4ToInt (dotted os) = Some (word_of_nat (address os))"
proof -
  obtain a b c d where os: "os = [a, b, c, d]" and lt: "a < 256" "b < 256" "c < 256" "d < 256"
    using assms by (rule octetsE)
  have one: "ipv4_fold (show_nat n # ps) (word_of_nat v) = ipv4_fold ps (word_of_nat (v * 256 + n))"
    if "n < 256" "v < 2 ^ 24" for n v ps
    using that length_show_nat_less [of n]
    by (simp add: show_nat_all_digits digits_value_show_nat octet_step Suc_le_eq)
  have "ipv4_fold (map show_nat os) (word_of_nat 0) = Some (word_of_nat (address os))"
    using lt one [of a 0] one [of b a] one [of c "a * 256 + b"] one [of d "(a * 256 + b) * 256 + c"]
    by (simp add: os address_def del: of_nat_add of_nat_mult ipv4_fold.simps(2))
  then show ?thesis by (simp add: ipv4ToInt_def split_dotted os)
qed

text \<open>The blocked IPv4 addresses, as intervals of numbers.\<close>

definition blocked_intervals :: "(nat \<times> nat) list" where
  "blocked_intervals =
     [(address [0, 0, 0, 0], address [0, 255, 255, 255]),
      (address [10, 0, 0, 0], address [10, 255, 255, 255]),
      (address [100, 64, 0, 0], address [100, 127, 255, 255]),
      (address [127, 0, 0, 0], address [127, 255, 255, 255]),
      (address [169, 254, 0, 0], address [169, 254, 255, 255]),
      (address [172, 16, 0, 0], address [172, 31, 255, 255]),
      (address [192, 0, 0, 0], address [192, 0, 0, 255]),
      (address [192, 0, 2, 0], address [192, 0, 2, 255]),
      (address [192, 168, 0, 0], address [192, 168, 255, 255]),
      (address [198, 18, 0, 0], address [198, 19, 255, 255]),
      (address [198, 51, 100, 0], address [198, 51, 100, 255]),
      (address [203, 0, 113, 0], address [203, 0, 113, 255]),
      (address [224, 0, 0, 0], address [239, 255, 255, 255]),
      (address [240, 0, 0, 0], address [255, 255, 255, 255]),
      (address [255, 255, 255, 255], address [255, 255, 255, 255])]"

definition blocked_v4 :: "nat \<Rightarrow> bool" where
  "blocked_v4 n \<longleftrightarrow> (\<exists>(lo, hi) \<in> set blocked_intervals. lo \<le> n \<and> n \<le> hi)"

lemma ipv4IntInCidr_dotted:
  assumes "octets os" and "0 < l" and "l \<le> 32"
  shows "ipv4IntInCidr w (dotted os) l \<longleftrightarrow> unat w div 2 ^ (32 - l) = address os div 2 ^ (32 - l)"
proof -
  have "unat (word_of_nat (address os) :: 32 word) = address os"
    using address_less [OF assms(1)] by (simp add: unat_of_nat)
  with assms mask_eq_iff [of "32 - l" w "word_of_nat (address os)"] show ?thesis
    by (simp add: ipv4IntInCidr_def ipv4ToInt_dotted Let_def)
qed

definition blocked_prefixes :: "(nat list \<times> nat) list" where
  "blocked_prefixes =
     [([0, 0, 0, 0], 8), ([10, 0, 0, 0], 8), ([100, 64, 0, 0], 10), ([127, 0, 0, 0], 8),
      ([169, 254, 0, 0], 16), ([172, 16, 0, 0], 12), ([192, 0, 0, 0], 24), ([192, 0, 2, 0], 24),
      ([192, 168, 0, 0], 16), ([198, 18, 0, 0], 15), ([198, 51, 100, 0], 24), ([203, 0, 113, 0], 24),
      ([224, 0, 0, 0], 4), ([240, 0, 0, 0], 4), ([255, 255, 255, 255], 32)]"

lemma blocked_range_texts: "IPV4_BLOCKED_RANGES = map (\<lambda>(os, l). (dotted os, l)) blocked_prefixes"
  by code_simp

lemma blocked_interval_prefixes:
  "blocked_intervals = map (\<lambda>(os, l). (address os, address os + (2 ^ (32 - l) - 1))) blocked_prefixes"
  by (simp add: blocked_intervals_def blocked_prefixes_def address_def)

lemma blocked_prefixes_ok:
  "(os, l) \<in> set blocked_prefixes \<Longrightarrow> octets os \<and> 0 < l \<and> l \<le> 32 \<and> address os mod 2 ^ (32 - l) = 0"
  by (auto simp: blocked_prefixes_def octets_def address_def)

lemma in_blocked_ranges_iff:
  "list_ex (\<lambda>(network, l). ipv4IntInCidr w network l) IPV4_BLOCKED_RANGES \<longleftrightarrow> blocked_v4 (unat w)"
proof -
  have "ipv4IntInCidr w (dotted os) l \<longleftrightarrow>
      address os \<le> unat w \<and> unat w \<le> address os + (2 ^ (32 - l) - 1)"
    if "(os, l) \<in> set blocked_prefixes" for os l
    using blocked_prefixes_ok [OF that] div_mult_mod_eq [of "address os" "2 ^ (32 - l)"]
    by (simp add: ipv4IntInCidr_dotted div_eq_interval)
  then have "(\<exists>p \<in> set blocked_prefixes. ipv4IntInCidr w (dotted (fst p)) (snd p)) \<longleftrightarrow>
      (\<exists>p \<in> set blocked_prefixes. address (fst p) \<le> unat w \<and> unat w \<le> address (fst p) + (2 ^ (32 - snd p) - 1))"
    by (intro bex_cong) auto
  then show ?thesis
    by (simp add: blocked_range_texts blocked_v4_def blocked_interval_prefixes list_ex_iff split_beta)
qed

lemma isBlockedIpv4_iff:
  "isBlockedIpv4 ip \<longleftrightarrow> (case ipv4ToInt ip of None \<Rightarrow> True | Some w \<Rightarrow> blocked_v4 (unat w))"
  by (simp add: isBlockedIpv4_def in_blocked_ranges_iff split: option.split)

lemma isBlockedIpv4_dotted: "octets os \<Longrightarrow> isBlockedIpv4 (dotted os) \<longleftrightarrow> blocked_v4 (address os)"
  using address_less [of os] by (simp add: isBlockedIpv4_iff ipv4ToInt_dotted unat_of_nat)

subsection \<open>Four octets of a number\<close>

definition quad :: "nat \<Rightarrow> nat list" where
  "quad n = [n div 2 ^ 24 mod 256, n div 2 ^ 16 mod 256, n div 2 ^ 8 mod 256, n mod 256]"

lemma octets_quad [simp]: "octets (quad n)"
  by (simp add: octets_def quad_def)

lemma address_quad: "n < 2 ^ 32 \<Longrightarrow> address (quad n) = n"
proof -
  assume "n < 2 ^ 32"
  then have "n div 2 ^ 24 mod 256 = n div 2 ^ 24" by (simp add: less_mult_imp_div_less)
  moreover have "n div 2 ^ 24 = n div 2 ^ 8 div 2 ^ 8 div 2 ^ 8" "n div 2 ^ 16 = n div 2 ^ 8 div 2 ^ 8"
    by (simp_all add: div_mult2_eq [symmetric])
  ultimately show ?thesis
    using div_mult_mod_eq [of n 256] div_mult_mod_eq [of "n div 256" 256]
      div_mult_mod_eq [of "n div 256 div 256" 256]
    by (simp add: address_def quad_def)
qed

lemma byte_of_word: "unat (drop_bit k w AND 0xff) = unat w div 2 ^ k mod 256" for w :: "32 word"
proof -
  have "(0xff :: 32 word) = mask 8" by (simp add: mask_eq_exp_minus_1)
  then have "unat (drop_bit k w AND 0xff) = take_bit 8 (drop_bit k (unat w))"
    by (simp only: take_bit_eq_mask [symmetric] unsigned_take_bit_eq unat_drop_bit_eq)
  then show ?thesis by (simp add: take_bit_eq_mod drop_bit_eq_div)
qed

lemma quad_string_dotted: "quad_string w = dotted (quad (unat w))"
  using byte_of_word [of 24 w] byte_of_word [of 16 w] byte_of_word [of 8 w] byte_of_word [of 0 w]
  by (simp add: quad_string_def dotted_def quad_def)

lemma isBlockedIpv4_quad: "isBlockedIpv4 (quad_string w) \<longleftrightarrow> blocked_v4 (unat w)"
proof -
  have "unat w < 2 ^ 32" by (rule order_less_le_trans [OF unsigned_less]) simp
  then show ?thesis by (simp add: quad_string_dotted isBlockedIpv4_dotted address_quad)
qed

lemma low32: "v AND 0xffffffff = v mod 2 ^ 32" for v :: nat
proof -
  have "(0xffffffff :: nat) = mask 32" by (simp add: mask_eq_exp_minus_1)
  then show ?thesis by (simp only: take_bit_eq_mask [symmetric] take_bit_eq_mod)
qed

lemma isBlockedIpv4_bigint: "isBlockedIpv4 (bigIntToIpv4 (v AND 0xffffffff)) \<longleftrightarrow> blocked_v4 (v mod 2 ^ 32)"
proof -
  have "unat (word_of_nat (v mod 2 ^ 32) :: 32 word) = v mod 2 ^ 32"
    by (simp add: unat_of_nat)
  then show ?thesis by (simp add: bigIntToIpv4_def isBlockedIpv4_quad low32)
qed

subsection \<open>IPv6 prefixes\<close>

lemma bit_less: "v < 2 ^ n \<Longrightarrow> bit v i \<Longrightarrow> i < n" for v :: nat
  by (metis bit_take_bit_iff take_bit_nat_eq_self)

lemma FULL_mask: "FULL_128_MASK = mask 128"
  by (simp add: FULL_128_MASK_def mask_eq_exp_minus_1 push_bit_eq_mult)

lemma prefix_mask_and:
  assumes "v < 2 ^ 128" and "0 < l" and "l \<le> 128"
  shows "v AND ipv6PrefixMask l = push_bit (128 - l) (drop_bit (128 - l) v)"
proof (cases "l = 128")
  case True
  with assms show ?thesis
    by (simp add: ipv6PrefixMask_def FULL_mask flip: take_bit_eq_mask)
       (simp add: take_bit_nat_eq_self)
next
  case False
  have "i < 128" "i + l - 128 < 128" if "bit v i" for i
    using bit_less [OF assms(1) that] assms(3) by simp_all
  with False assms(2,3) show ?thesis
    by (intro bit_eqI) (auto simp: ipv6PrefixMask_def FULL_mask bit_simps)
qed

lemma prefix_mask_eq_iff:
  assumes "v < 2 ^ 128" "b < 2 ^ 128" "0 < l" "l \<le> 128"
  shows "v AND ipv6PrefixMask l = b AND ipv6PrefixMask l \<longleftrightarrow> v div 2 ^ (128 - l) = b div 2 ^ (128 - l)"
  using assms by (simp add: prefix_mask_and push_bit_eq_mult drop_bit_eq_div)

lemmas digits_eval = digits_value_def digit_in_def number_of_groups_def

lemma ipv6_network_groups:
  "expandIpv6Groups ''::1'' = Some [''0'', ''0'', ''0'', ''0'', ''0'', ''0'', ''0'', ''1'']"
  "expandIpv6Groups ''::'' = Some [''0'', ''0'', ''0'', ''0'', ''0'', ''0'', ''0'', ''0'']"
  "expandIpv6Groups ''fc00::'' = Some [''fc00'', ''0'', ''0'', ''0'', ''0'', ''0'', ''0'', ''0'']"
  "expandIpv6Groups ''fe80::'' = Some [''fe80'', ''0'', ''0'', ''0'', ''0'', ''0'', ''0'', ''0'']"
  "expandIpv6Groups ''ff00::'' = Some [''ff00'', ''0'', ''0'', ''0'', ''0'', ''0'', ''0'', ''0'']"
  "expandIpv6Groups ''2001:db8::'' = Some [''2001'', ''db8'', ''0'', ''0'', ''0'', ''0'', ''0'', ''0'']"
  "expandIpv6Groups ''64:ff9b::'' = Some [''64'', ''ff9b'', ''0'', ''0'', ''0'', ''0'', ''0'', ''0'']"
  "expandIpv6Groups ''::ffff:0:0'' = Some [''0'', ''0'', ''0'', ''0'', ''0'', ''ffff'', ''0'', ''0'']"
  "expandIpv6Groups ''2002::'' = Some [''2002'', ''0'', ''0'', ''0'', ''0'', ''0'', ''0'', ''0'']"
  by code_simp+

lemma ipv6_networks:
  "ipv6ToBigInt ''::1'' = Some 1"
  "ipv6ToBigInt ''::'' = Some 0"
  "ipv6ToBigInt ''fc00::'' = Some (0xfc00 * 2 ^ 112)"
  "ipv6ToBigInt ''fe80::'' = Some (0xfe80 * 2 ^ 112)"
  "ipv6ToBigInt ''ff00::'' = Some (0xff00 * 2 ^ 112)"
  "ipv6ToBigInt ''2001:db8::'' = Some (0x20010db8 * 2 ^ 96)"
  "ipv6ToBigInt ''64:ff9b::'' = Some (0x64ff9b * 2 ^ 96)"
  "ipv6ToBigInt ''::ffff:0:0'' = Some (0xffff * 2 ^ 32)"
  "ipv6ToBigInt ''2002::'' = Some (0x2002 * 2 ^ 112)"
  using ipv6_network_groups [THEN ipv6ToBigInt_groups] by (simp_all add: digits_eval)

text \<open>The blocked IPv6 addresses, as conditions on the 128-bit number.\<close>

definition blocked_v6 :: "nat \<Rightarrow> bool" where
  "blocked_v6 v \<longleftrightarrow>
     v = 0 \<or> v = 1 \<or> v div 2 ^ 121 = 0x7e \<or> v div 2 ^ 118 = 0x3fa \<or> v div 2 ^ 120 = 0xff
     \<or> v div 2 ^ 96 = 0x20010db8 \<or> v div 2 ^ 32 = 0x64ff9b * 2 ^ 64
     \<or> (v div 2 ^ 32 = 0xffff \<or> v div 2 ^ 32 = 0) \<and> blocked_v4 (v mod 2 ^ 32)
     \<or> v div 2 ^ 112 = 0x2002 \<and> blocked_v4 (v div 2 ^ 80 mod 2 ^ 32)"

lemma in_v6_ranges_iff:
  assumes "v < 2 ^ 128"
  shows "list_ex (\<lambda>(network, l). ipv6InCidr v network l) IPV6_BLOCKED_RANGES \<longleftrightarrow>
     v = 1 \<or> v = 0 \<or> v div 2 ^ 121 = 0x7e \<or> v div 2 ^ 118 = 0x3fa \<or> v div 2 ^ 120 = 0xff
     \<or> v div 2 ^ 96 = 0x20010db8 \<or> v div 2 ^ 32 = 0x64ff9b * 2 ^ 64"
proof -
  have "ipv6InCidr v n l \<longleftrightarrow> v div 2 ^ (128 - l) = b div 2 ^ (128 - l)"
    if "ipv6ToBigInt n = Some b" "0 < l" "l \<le> 128" for n b l
    using that assms ipv6ToBigInt_less [OF that(1)] by (simp add: ipv6InCidr_def Let_def prefix_mask_eq_iff)
  then show ?thesis
    unfolding IPV6_BLOCKED_RANGES_def
    by (simp add: ipv6_networks)
qed

lemma isBlockedIpv6_iff:
  assumes "ipv6ToBigInt ip = Some v"
  shows "isBlockedIpv6 ip \<longleftrightarrow> blocked_v6 v"
proof -
  have lt: "v < 2 ^ 128" using assms by (rule ipv6ToBigInt_less)
  have m: "v AND ipv6PrefixMask 96 = (0xffff * 2 ^ 32) AND ipv6PrefixMask 96 \<longleftrightarrow> v div 2 ^ 32 = 0xffff"
    "v AND ipv6PrefixMask 96 = 0 \<longleftrightarrow> v div 2 ^ 32 = 0"
    "v AND ipv6PrefixMask 16 = (0x2002 * 2 ^ 112) AND ipv6PrefixMask 16 \<longleftrightarrow> v div 2 ^ 112 = 0x2002"
    using prefix_mask_eq_iff [OF lt, of "0xffff * 2 ^ 32" 96] prefix_mask_eq_iff [OF lt, of 0 96]
      prefix_mask_eq_iff [OF lt, of "0x2002 * 2 ^ 112" 16] by simp_all
  have "v div 2 ^ 112 = v div 2 ^ 32 div 2 ^ 80"
    by (simp add: div_mult2_eq [symmetric])
  then have dis: "v div 2 ^ 112 = 0x2002 \<Longrightarrow> v div 2 ^ 32 \<noteq> 0 \<and> v div 2 ^ 32 \<noteq> 0xffff"
    by auto
  have "isBlockedIpv6 ip \<longleftrightarrow>
     list_ex (\<lambda>(network, l). ipv6InCidr v network l) IPV6_BLOCKED_RANGES \<or>
     (if v div 2 ^ 32 = 0xffff then blocked_v4 (v mod 2 ^ 32)
      else if v div 2 ^ 32 = 0 then blocked_v4 (v mod 2 ^ 32)
      else v div 2 ^ 112 = 0x2002 \<and> blocked_v4 (v div 2 ^ 80 mod 2 ^ 32))"
    unfolding isBlockedIpv6_def assms ipv6_networks option.case Let_def m isBlockedIpv4_bigint
    by (simp add: drop_bit_eq_div)
  then show ?thesis
    unfolding in_v6_ranges_iff [OF lt] blocked_v6_def using dis by auto
qed

subsection \<open>Hexadecimal numerals\<close>

lemma digit_in_hex_digit: "d < 16 \<Longrightarrow> digit_in 16 (hex_digit d) = Some d"
  by (auto simp: digit_in_def hex_digit_def)

lemma show_hex_digits: "c \<in> set (show_hex n) \<Longrightarrow> \<exists>d < 16. c = hex_digit d"
proof (induction n rule: show_hex.induct)
  case (1 n)
  show ?case
  proof (cases "n < 16")
    case True
    with 1(2) show ?thesis by (auto simp: show_hex.simps [of n])
  next
    case False
    with 1 show ?thesis by (auto simp: show_hex.simps [of n] intro: exI [of _ "n mod 16"])
  qed
qed

lemma digits_value_show_hex: "digits_value 16 (show_hex n) = n"
proof (induction n rule: show_hex.induct)
  case (1 n)
  then show ?case
    by (cases "n < 16") (simp_all add: show_hex.simps [of n] digits_value_def digit_in_hex_digit)
qed

lemma show_hex_nonempty [simp]: "show_hex n \<noteq> []"
  by (simp add: show_hex.simps [of n])

lemma length_show_hex_less: "n < 65536 \<Longrightarrow> length (show_hex n) \<le> 4"
  by (simp add: show_hex.simps [of n] show_hex.simps [of "n div 16"] show_hex.simps [of "n div 16 div 16"]
      show_hex.simps [of "n div 16 div 16 div 16"])

lemma show_hex_all_digits: "list_all (\<lambda>c. digit_in 16 c \<noteq> None) (show_hex n)"
  using show_hex_digits [of _ n] digit_in_hex_digit by (fastforce simp: list_all_iff)

lemma hextet_show_hex: "n < 65536 \<Longrightarrow> hextet (show_hex n)"
  using length_show_hex_less [of n] show_hex_all_digits [of n] by (simp add: hextet_def Suc_le_eq)

lemma hex_char_not:
  "digit_in 16 c \<noteq> None \<Longrightarrow> c \<notin> {CHR '':'', CHR ''.'', CHR ''%'', CHR ''['', CHR ''t'', CHR ''x''}"
  by (auto simp: digit_in_def Let_def split: if_splits)

lemma hextet_free: "hextet g \<Longrightarrow> c \<in> {CHR '':'', CHR ''.'', CHR ''%''} \<Longrightarrow> c \<notin> set g"
  using hex_char_not by (fastforce simp: hextet_def list_all_iff)

lemma hextet_ne: "hextet g \<Longrightarrow> g \<noteq> []"
  by (auto simp: hextet_def)

subsection \<open>Compressed IPv6 text\<close>

lemma index_of_dc_Cons:
  "index_of ''::'' (c # s) = (if c = CHR '':'' \<and> s \<noteq> [] \<and> hd s = CHR '':'' then Some 0
     else map_option Suc (index_of ''::'' s))"
  by (cases s) auto

lemma index_of_dc_append:
  "index_of ''::'' s = None \<Longrightarrow> s \<noteq> [] \<Longrightarrow> last s \<noteq> CHR '':'' \<Longrightarrow>
     index_of ''::'' (s @ CHR '':'' # CHR '':'' # t) = Some (length s)"
proof (induction s)
  case (Cons c s)
  show ?case
  proof (cases "s = []")
    case True
    with Cons.prems show ?thesis by (simp add: index_of_dc_Cons del: index_of.simps)
  next
    case False
    with Cons.prems have "\<not> (c = CHR '':'' \<and> hd s = CHR '':'')" "index_of ''::'' s = None"
      by (auto simp: index_of_dc_Cons simp del: index_of.simps split: if_splits)
    with Cons False show ?thesis by (simp add: index_of_dc_Cons del: index_of.simps)
  qed
qed simp

lemma hd_join: "gs \<noteq> [] \<Longrightarrow> hd gs \<noteq> [] \<Longrightarrow> hd (join_with c gs) = hd (hd gs) \<and> join_with c gs \<noteq> []"
  by (induction c gs rule: join_with.induct) auto

lemma index_of_dc_free: "CHR '':'' \<notin> set s \<Longrightarrow> index_of ''::'' s = None"
  by (induction s) (auto simp: index_of_dc_Cons simp del: index_of.simps(2))

lemma index_of_dc_colon:
  "CHR '':'' \<notin> set g \<Longrightarrow> index_of ''::'' t = None \<Longrightarrow> t \<noteq> [] \<Longrightarrow> hd t \<noteq> CHR '':'' \<Longrightarrow>
     index_of ''::'' (g @ CHR '':'' # t) = None"
  by (induction g) (auto simp: index_of_dc_Cons simp del: index_of.simps)

lemma index_of_join:
  "list_all hextet gs \<Longrightarrow> index_of ''::'' (join_with (CHR '':'') gs) = None"
proof (induction "CHR '':''" gs rule: join_with.induct)
  case (2 x)
  then show ?case by (simp add: index_of_dc_free hextet_free)
next
  case (3 x y ys)
  have "hd (join_with (CHR '':'') (y # ys)) = hd y \<and> join_with (CHR '':'') (y # ys) \<noteq> []"
    using 3(2) hd_join [of "y # ys" "CHR '':''"] by (simp add: hextet_ne)
  moreover have "hd y \<noteq> CHR '':''"
    using 3(2) hextet_free [of y "CHR '':''"] hextet_ne [of y] by (cases y) auto
  ultimately show ?case
    using 3 hextet_free [of x "CHR '':''"] by (simp add: index_of_dc_colon)
qed simp

lemma split_join_hextets:
  "gs \<noteq> [] \<Longrightarrow> list_all hextet gs \<Longrightarrow> split_on (CHR '':'') (join_with (CHR '':'') gs) = gs"
  by (intro split_on_join) (auto simp: list_all_iff hextet_free)

lemma hd_join_hextets:
  "gs \<noteq> [] \<Longrightarrow> list_all hextet gs \<Longrightarrow>
     join_with (CHR '':'') gs \<noteq> [] \<and> hd (join_with (CHR '':'') gs) \<noteq> CHR '':''"
proof -
  assume a: "gs \<noteq> []" "list_all hextet gs"
  then have h: "hextet (hd gs)" by (cases gs) auto
  with hextet_free [of "hd gs" "CHR '':''"] have "hd (hd gs) \<noteq> CHR '':''"
    by (metis hd_in_set hextet_ne insertI1)
  with hd_join [OF a(1) hextet_ne [OF h]] show ?thesis by simp
qed

lemma last_join_hextets:
  "gs \<noteq> [] \<Longrightarrow> list_all hextet gs \<Longrightarrow> last (join_with (CHR '':'') gs) \<noteq> CHR '':''"
proof (induction "CHR '':''" gs rule: join_with.induct)
  case (2 x)
  then show ?case using hextet_free [of x "CHR '':''"] hextet_ne [of x] by (metis insertI1 join_with.simps(2) last_in_set list.pred_inject(2))
next
  case (3 x y ys)
  then show ?case using hd_join_hextets [of "y # ys"] by simp
qed simp

lemma expand_groups_right:
  assumes "gs \<noteq> []" and "list_all hextet gs" and "length gs \<le> 8"
  shows "expand_groups (''::'' @ join_with (CHR '':'') gs) = Some (replicate (8 - length gs) ''0'' @ gs)"
proof -
  let ?j = "join_with (CHR '':'') gs"
  have j: "index_of ''::'' ?j = None" "?j \<noteq> []" "hd ?j \<noteq> CHR '':''"
    using assms index_of_join hd_join_hextets by auto
  then have "index_of ''::'' (''::'' @ ?j) = Some 0" "index_of ''::'' (drop 1 (''::'' @ ?j)) = None"
    by (simp_all add: index_of_dc_Cons del: index_of.simps)
  with j assms show ?thesis by (simp add: expand_groups_def split_join_hextets)
qed

lemma expand_groups_left:
  assumes "gs \<noteq> []" and "list_all hextet gs" and "length gs \<le> 8"
  shows "expand_groups (join_with (CHR '':'') gs @ ''::'') = Some (gs @ replicate (8 - length gs) ''0'')"
proof -
  let ?j = "join_with (CHR '':'') gs"
  have j: "index_of ''::'' ?j = None" "?j \<noteq> []" "last ?j \<noteq> CHR '':''"
    using assms index_of_join hd_join_hextets last_join_hextets by auto
  have "index_of ''::'' (?j @ ''::'') = Some (length ?j)"
    using index_of_dc_append [OF j, of "[]"] by simp
  moreover have "index_of ''::'' (drop (length ?j + 1) (?j @ ''::'')) = None" by simp
  ultimately show ?thesis using j assms by (simp add: expand_groups_def split_join_hextets)
qed

lemma join_with_chars:
  "x \<in> set (join_with c gs) \<Longrightarrow> x = c \<or> (\<exists>g \<in> set gs. x \<in> set g)"
  by (induction c gs rule: join_with.induct) auto

lemma dotted_chars: "c \<in> set (dotted os) \<Longrightarrow> is_js_digit c \<or> c = CHR ''.''"
  unfolding dotted_def using join_with_chars [of c "CHR ''.''" "map show_nat os"] show_nat_is_digit by auto

lemma has_dot: "octets os \<Longrightarrow> CHR ''.'' \<in> set (dotted os)"
  by (erule octetsE) (simp add: dotted_def)

lemma after_last_append:
  assumes "CHR '':'' \<notin> set t"
  shows "after_last (CHR '':'') (p @ CHR '':'' # t) = t" and "upto_last (CHR '':'') (p @ CHR '':'' # t) = p @ '':''"
proof -
  have "takeWhile (\<lambda>x. x \<noteq> CHR '':'') (rev t @ CHR '':'' # rev p) = rev t"
    using assms by (subst takeWhile_append2) auto
  then show a: "after_last (CHR '':'') (p @ CHR '':'' # t) = t" by (simp add: after_last_def)
  show "upto_last (CHR '':'') (p @ CHR '':'' # t) = p @ '':''" by (simp add: upto_last_def a)
qed

definition hi_group :: "nat \<Rightarrow> string" where "hi_group n = show_hex (n div 2 ^ 16)"
definition lo_group :: "nat \<Rightarrow> string" where "lo_group n = show_hex (n mod 2 ^ 16)"

lemma hextet_groups: "n < 2 ^ 32 \<Longrightarrow> hextet (hi_group n) \<and> hextet (lo_group n)"
  by (simp add: hi_group_def lo_group_def hextet_show_hex less_mult_imp_div_less)

lemma expand_tail_dotted:
  assumes "octets os"
  shows "expand_tail (p @ '':'' @ dotted os) = Some (p @ '':'' @ hi_group (address os) @ '':'' @ lo_group (address os))"
proof -
  have free: "CHR '':'' \<notin> set (dotted os)"
    using dotted_chars [of "CHR '':''" os] is_digit_not(8) by auto
  let ?w = "word_of_nat (address os) :: 32 word"
  have u: "unat ?w = address os" using address_less [OF assms] by (simp add: unat_of_nat)
  have m: "(0xffff :: 32 word) = mask 16" by (simp add: mask_eq_exp_minus_1)
  have "unat (drop_bit 16 ?w AND 0xffff) = take_bit 16 (drop_bit 16 (unat ?w))"
    "unat (?w AND 0xffff) = take_bit 16 (unat ?w)"
    unfolding m by (simp_all only: take_bit_eq_mask [symmetric] unsigned_take_bit_eq unat_drop_bit_eq)
  moreover have "address os div 2 ^ 16 < 2 ^ 16"
    using address_less [OF assms] by (simp add: less_mult_imp_div_less)
  ultimately have "unat (drop_bit 16 ?w AND 0xffff) = address os div 2 ^ 16"
    "unat (?w AND 0xffff) = address os mod 2 ^ 16"
    by (simp_all add: u take_bit_eq_mod drop_bit_eq_div)
  then show ?thesis
    using after_last_append [OF free, of p] has_dot [OF assms]
    by (simp add: expand_tail_def Let_def ipv4ToInt_dotted [OF assms] hi_group_def lo_group_def)
qed

lemma takeWhile_no_percent: "CHR ''%'' \<notin> set s \<Longrightarrow> takeWhile (\<lambda>c. c \<noteq> CHR ''%'') s = s"
  by (induction s) auto

lemma replicate_5_6: "replicate 5 x = [x, x, x, x, x]" "replicate 6 x = [x, x, x, x, x, x]"
  by (simp_all add: eval_nat_numeral)

lemma hextet_consts: "hextet ''0''" "hextet ''ffff''" "hextet ''2002''"
  by (simp_all add: hextet_def digit_in_def)

lemma digits_hi_lo: "digits_value 16 (hi_group n) = n div 2 ^ 16" "digits_value 16 (lo_group n) = n mod 2 ^ 16"
  by (simp_all add: hi_group_def lo_group_def digits_value_show_hex)

lemma hi_lo: "n div 65536 * 65536 + n mod 65536 = (n :: nat)"
  by (rule div_mult_mod_eq)

lemma dotted_free: "CHR ''%'' \<notin> set (dotted os)"
  using dotted_chars [of "CHR ''%''" os] by (auto simp: is_js_digit_def digit_in_def)

lemma expand_embedded:
  assumes "octets os" and "list_all hextet gs" and "length gs \<le> 6" and "CHR ''%'' \<notin> set p"
    and "p @ '':'' = ''::'' @ concat (map (\<lambda>g. g @ '':'') gs)"
  shows "expandIpv6Groups (p @ '':'' @ dotted os) =
     Some (replicate (6 - length gs) ''0'' @ gs @ [hi_group (address os), lo_group (address os)])"
proof -
  let ?h = "hi_group (address os)" and ?l = "lo_group (address os)"
  have hl: "hextet ?h" "hextet ?l" using hextet_groups [OF address_less [OF assms(1)]] by auto
  have j: "concat (map (\<lambda>g. g @ '':'') gs) @ ?h @ '':'' @ ?l = join_with (CHR '':'') (gs @ [?h, ?l])"
    by (induction gs) (auto simp: join_with_Cons)
  have "p @ '':'' @ ?h @ '':'' @ ?l = ''::'' @ join_with (CHR '':'') (gs @ [?h, ?l])"
    using assms(5) j by (metis append.assoc)
  then have eg: "expand_groups (p @ '':'' @ ?h @ '':'' @ ?l)
      = Some (replicate (6 - length gs) ''0'' @ gs @ [?h, ?l])"
    using assms(2,3) hl expand_groups_right [of "gs @ [?h, ?l]"] by (simp only:) simp
  have tw: "takeWhile (\<lambda>c. c \<noteq> CHR ''%'') (p @ '':'' @ dotted os) = p @ '':'' @ dotted os"
    using assms(4) dotted_free by (intro takeWhile_no_percent) auto
  have "list_all hextet (replicate (6 - length gs) ''0'' @ gs @ [?h, ?l])"
    using assms(2) hl hextet_consts(1) by (induction "6 - length gs") (auto simp: list_all_iff)
  moreover have "length (replicate (6 - length gs) ''0'' @ gs @ [?h, ?l]) = 8" using assms(3) by simp
  ultimately show ?thesis
    unfolding expandIpv6Groups_def tw expand_tail_dotted [OF assms(1)] option.case eg
    by (simp only: simp_thms if_False)
qed

lemma ipv6_mapped: "octets os \<Longrightarrow> ipv6ToBigInt (''::ffff:'' @ dotted os) = Some (0xffff * 2 ^ 32 + address os)"
proof -
  assume o4: "octets os"
  have "expandIpv6Groups (''::ffff'' @ '':'' @ dotted os) =
      Some (replicate 5 ''0'' @ [''ffff''] @ [hi_group (address os), lo_group (address os)])"
    using expand_embedded [OF o4, of "[''ffff'']" "''::ffff''"] hextet_consts by simp
  from ipv6ToBigInt_groups [OF this] hi_lo [of "address os"] show ?thesis
    by (simp add: digits_hi_lo replicate_5_6) (simp add: digits_eval)
qed

lemma ipv6_compatible: "octets os \<Longrightarrow> ipv6ToBigInt (''::'' @ dotted os) = Some (address os)"
proof -
  assume o4: "octets os"
  have "expandIpv6Groups ('':'' @ '':'' @ dotted os) =
      Some (replicate 6 ''0'' @ [] @ [hi_group (address os), lo_group (address os)])"
    using expand_embedded [OF o4, of "[]" "'':''"] by simp
  from ipv6ToBigInt_groups [OF this] hi_lo [of "address os"] show ?thesis
    by (simp add: digits_hi_lo replicate_5_6) (simp add: digits_eval)
qed

lemma ipv6_6to4:
  assumes "n < 2 ^ 32"
  shows "ipv6ToBigInt (''2002:'' @ hi_group n @ '':'' @ lo_group n @ ''::'') = Some (0x2002 * 2 ^ 112 + n * 2 ^ 80)"
proof -
  let ?gs = "[''2002'', hi_group n, lo_group n]"
  have h: "list_all hextet ?gs" using hextet_groups [OF assms] hextet_consts by simp
  have s: "''2002:'' @ hi_group n @ '':'' @ lo_group n @ ''::'' = join_with (CHR '':'') ?gs @ ''::''" by simp
  have "CHR ''%'' \<notin> set (join_with (CHR '':'') ?gs @ ''::'')"
    using h hextet_free [of _ "CHR ''%''"] join_with_chars [of "CHR ''%''" "CHR '':''" ?gs] by auto
  moreover have "expand_tail (join_with (CHR '':'') ?gs @ ''::'') = Some (join_with (CHR '':'') ?gs @ ''::'')"
    by (simp add: expand_tail_def Let_def after_last_def)
  ultimately have "expandIpv6Groups (join_with (CHR '':'') ?gs @ ''::'') = Some (?gs @ replicate 5 ''0'')"
    using expand_groups_left [OF _ h] h hextet_consts(1)
    by (simp add: expandIpv6Groups_def takeWhile_no_percent list_all_iff)
  from ipv6ToBigInt_groups [OF this] hi_lo [of n] show ?thesis
    unfolding s by (simp add: digits_hi_lo replicate_5_6) (simp add: digits_eval)
qed

subsection \<open>Numeric host literals\<close>

lemma hd_show_nat: "n \<noteq> 0 \<Longrightarrow> hd (show_nat n) \<noteq> CHR ''0''"
proof (induction n rule: show_nat.induct)
  case (1 n)
  show ?case
  proof (cases "n < 10")
    case True
    have "digit_in 10 (CHR ''0'') = Some 0" by (simp add: digit_in_def)
    with True 1(2) show ?thesis
      using digit_in_char_of [of n] by (auto simp: show_nat.simps [of n])
  next
    case False
    with 1 show ?thesis by (simp add: show_nat.simps [of n])
  qed
qed

lemma show_nat_zero [simp]: "show_nat 0 = ''0''"
  by code_simp

lemma not_0x_digits: "list_all is_js_digit s \<Longrightarrow> to_lower (take 2 s) \<noteq> ''0x''"
  using to_lower_nth_digit [of s "CHR ''x''"] by auto

lemma parse_segment_show_nat: "parseNumericIpv4Segment (show_nat n) = Some n"
proof (cases "n = 0")
  case True
  then show ?thesis by (simp add: parseNumericIpv4Segment_def all_digits_def digits_value_def digit_in_def to_lower_def)
next
  case False
  have d: "list_all is_js_digit (show_nat n)" by (rule show_nat_all_digits)
  then have "all_digits 10 (show_nat n)" by (simp add: all_digits_def is_js_digit_def list_all_iff)
  with False d show ?thesis
    by (simp add: parseNumericIpv4Segment_def not_0x_digits hd_show_nat digits_value_show_nat)
qed

lemma parse_segment_hex: "parseNumericIpv4Segment (''0x'' @ show_hex n) = Some n"
  using show_hex_all_digits [of n]
  by (simp add: parseNumericIpv4Segment_def to_lower_def all_digits_def digits_value_show_hex numeral_2_eq_2)

lemma normalize_single:
  assumes "CHR ''.'' \<notin> set s" and "parseNumericIpv4Segment s = Some n"
  shows "normalizeNumericIpv4Literal s = (if n < 2 ^ 32 then Some (dotted (quad n)) else None)"
  using assms by (auto simp: normalizeNumericIpv4Literal_def split_on_free quad_string_dotted unat_of_nat)

lemma normalize_dotted:
  assumes "octets os"
  shows "normalizeNumericIpv4Literal (dotted os) = Some (dotted (quad (address os)))"
proof -
  obtain a b c d where os: "os = [a, b, c, d]" and lt: "a < 256" "b < 256" "c < 256" "d < 256"
    using assms by (rule octetsE)
  have "parse_segments (map show_nat os) = Some os"
    by (simp add: os parse_segment_show_nat)
  moreover have "combine_segments os = Some (word_of_nat (address os))"
    using lt quad_word [of "int a" "int b" "int c" "int d"] by (simp add: os address_def)
  moreover have "os \<noteq> []" "length os = 4" by (simp_all add: os)
  ultimately show ?thesis
    using address_less [OF assms]
    by (simp add: normalizeNumericIpv4Literal_def split_dotted quad_string_dotted unat_of_nat)
qed

lemma quad_address: "octets os \<Longrightarrow> quad (address os) = os"
proof -
  have q: "quad n = [n div 256 div 256 div 256 mod 256, n div 256 div 256 mod 256, n div 256 mod 256, n mod 256]" for n
    by (simp add: quad_def div_mult2_eq [symmetric])
  have e: "(x * 256 + y) div 256 = x" "(x * 256 + y) mod 256 = y" if "y < 256" for x y :: nat
    using that by auto
  assume "octets os"
  then show ?thesis
    by (rule octetsE) (simp only: q address_def foldl.simps e mult_0 add_0 mod_less)
qed

text \<open>
  What \<open>node:net\<close> documents of \<open>isIP\<close>: 4 for an IPv4 address in dotted decimal notation without
  leading zeros, 6 for an IPv6 address (which contains a colon), 0 otherwise.
\<close>

definition isIP_laws :: "(string \<Rightarrow> nat) \<Rightarrow> bool" where
  "isIP_laws isIP \<longleftrightarrow>
     (\<forall>h. isIP h = 4 \<longleftrightarrow> (\<exists>os. octets os \<and> h = dotted os)) \<and>
     (\<forall>h. isIP h = 6 \<longrightarrow> CHR '':'' \<in> set h) \<and> (\<forall>h. isIP h = 0 \<or> isIP h = 4 \<or> isIP h = 6)"

definition sample_isIP :: "string \<Rightarrow> nat" where
  "sample_isIP h =
     (if (case ipv4ToInt h of None \<Rightarrow> False | Some w \<Rightarrow> quad_string w = h) then 4
      else if CHR '':'' \<in> set h \<and> ipv6ToBigInt h \<noteq> None then 6 else 0)"

lemma sample_isIP_laws: "isIP_laws sample_isIP"
proof -
  have "(case ipv4ToInt h of None \<Rightarrow> False | Some w \<Rightarrow> quad_string w = h) \<longleftrightarrow> (\<exists>os. octets os \<and> h = dotted os)" for h
  proof
    assume "case ipv4ToInt h of None \<Rightarrow> False | Some w \<Rightarrow> quad_string w = h"
    then show "\<exists>os. octets os \<and> h = dotted os"
      by (cases "ipv4ToInt h") (auto simp: quad_string_dotted intro!: exI [of _ "quad n" for n])
  next
    assume "\<exists>os. octets os \<and> h = dotted os"
    then obtain os where "octets os" "h = dotted os" by blast
    then show "case ipv4ToInt h of None \<Rightarrow> False | Some w \<Rightarrow> quad_string w = h"
      using address_less [of os]
      by (simp add: ipv4ToInt_dotted quad_string_dotted unat_of_nat quad_address)
  qed
  then show ?thesis by (simp add: isIP_laws_def sample_isIP_def)
qed

definition plain_host :: "string \<Rightarrow> bool" where
  "plain_host h \<longleftrightarrow> h \<noteq> [] \<and> last h \<noteq> CHR ''.'' \<and>
     (\<forall>c \<in> set h. digit_in 16 c \<noteq> None \<and> \<not> (65 \<le> (of_char c :: nat) \<and> of_char c \<le> (90 :: nat))
                   \<or> c = CHR ''x'' \<or> c = CHR ''.'')"

lemma hex_not_space: "digit_in 16 c \<noteq> None \<Longrightarrow> \<not> js_space c"
  by (auto simp: js_space_def digit_in_def Let_def split: if_splits)

lemma plain_host_char:
  assumes "plain_host h" and "c \<in> set h"
  shows "\<not> js_space c" "c \<noteq> CHR ''[''" "c \<noteq> CHR ''t''" "\<not> (65 \<le> (of_char c :: nat) \<and> of_char c \<le> (90 :: nat))"
proof -
  consider "digit_in 16 c \<noteq> None" "\<not> (65 \<le> (of_char c :: nat) \<and> of_char c \<le> (90 :: nat))"
    | "c = CHR ''x''" | "c = CHR ''.''"
    using assms unfolding plain_host_def by blast
  then have "\<not> js_space c \<and> c \<noteq> CHR ''['' \<and> c \<noteq> CHR ''t'' \<and> \<not> (65 \<le> (of_char c :: nat) \<and> of_char c \<le> (90 :: nat))"
    by cases (use hex_not_space hex_char_not in \<open>auto simp: js_space_def\<close>)
  then show "\<not> js_space c" "c \<noteq> CHR ''[''" "c \<noteq> CHR ''t''" "\<not> (65 \<le> (of_char c :: nat) \<and> of_char c \<le> (90 :: nat))"
    by auto
qed

lemma host_of_plain: "plain_host h \<Longrightarrow> host_of_literal h = h"
proof -
  assume p: "plain_host h"
  have "js_trim h = h" using plain_host_char(1) [OF p] by (intro js_trim_no_space)
  moreover have "to_lower h = h" unfolding to_lower_def
    by (intro map_idI) (use plain_host_char(4) [OF p] in auto)
  moreover have "\<not> starts_with ''['' h"
    using plain_host_char(2) [OF p] by (cases h) (auto simp: starts_with_def)
  moreover have "\<not> ends_with ''.'' h"
    using p by (cases h rule: rev_cases) (auto simp: ends_with_def starts_with_def plain_host_def)
  ultimately show ?thesis by (simp add: host_of_literal_def)
qed

lemma no_localhost: "CHR ''t'' \<notin> set h \<Longrightarrow> h \<notin> set BLOCKED_HOSTNAME_LITERALS \<and> \<not> ends_with ''.localhost'' h"
proof -
  assume t: "CHR ''t'' \<notin> set h"
  have "CHR ''t'' \<in> set h" if "ends_with ''.localhost'' h"
  proof -
    have "CHR ''t'' \<in> set (rev ''.localhost'')" by simp
    with that have "CHR ''t'' \<in> set (take (length (rev ''.localhost'')) (rev h))"
      unfolding ends_with_def starts_with_def by (simp only:)
    then show ?thesis using in_set_takeD by fastforce
  qed
  with t show ?thesis by (auto simp: BLOCKED_HOSTNAME_LITERALS_def)
qed

lemma isBlockedHostnameLiteral_plain:
  assumes "plain_host h"
  shows "isBlockedHostnameLiteral isIP h =
     (if isIP h \<noteq> 0 then isBlockedIp isIP h
      else case normalizeNumericIpv4Literal h of Some n \<Rightarrow> isBlockedIpv4 n | None \<Rightarrow> False)"
  using assms no_localhost [of h] plain_host_char(3) [OF assms]
  by (auto simp: isBlockedHostnameLiteral_def host_of_plain plain_host_def)

lemma is_digit_hex: "is_js_digit c \<Longrightarrow> digit_in 16 c \<noteq> None \<and> \<not> (65 \<le> (of_char c :: nat) \<and> of_char c \<le> (90 :: nat))"
  by (auto simp: is_js_digit_def digit_in_def Let_def split: if_splits)

lemma hex_digit_lower: "d < 16 \<Longrightarrow> \<not> (65 \<le> (of_char (hex_digit d) :: nat) \<and> of_char (hex_digit d) \<le> (90 :: nat))"
  by (auto simp: hex_digit_def)

lemma plain_hosts:
  "plain_host (show_nat n)" "plain_host (''0x'' @ show_hex n)" "octets os \<Longrightarrow> plain_host (dotted os)"
proof -
  have l: "last (show_nat m) \<noteq> CHR ''.''" for m
    using show_nat_is_digit [of "last (show_nat m)" m] is_digit_not(4) by auto
  then show "plain_host (show_nat n)"
    using show_nat_is_digit [of _ n] is_digit_hex by (auto simp: plain_host_def)
  have "last (show_hex n) \<noteq> CHR ''.''"
    using show_hex_all_digits [of n] hex_char_not [of "last (show_hex n)"] by (auto simp: list_all_iff)
  moreover have "digit_in 16 c \<noteq> None \<and> \<not> (65 \<le> (of_char c :: nat) \<and> of_char c \<le> (90 :: nat))"
    if "c \<in> set (show_hex n)" for c
    using show_hex_digits [OF that] digit_in_hex_digit hex_digit_lower by fastforce
  ultimately show "plain_host (''0x'' @ show_hex n)"
    by (auto simp: plain_host_def list_all_iff digit_in_def)
  assume "octets os"
  then obtain a b c d where os: "os = [a, b, c, d]" by (rule octetsE)
  have "last (dotted os) \<noteq> CHR ''.''" using l by (simp add: os dotted_def)
  moreover have "dotted os \<noteq> []" by (simp add: os dotted_def)
  ultimately show "plain_host (dotted os)"
    using dotted_chars [of _ os] is_digit_hex by (auto simp: plain_host_def)
qed

lemma host_of_bracketed:
  assumes "h \<noteq> []" and "last h \<noteq> CHR ''.''"
    and "\<And>c. c \<in> set h \<Longrightarrow> \<not> js_space c \<and> \<not> (65 \<le> (of_char c :: nat) \<and> of_char c \<le> (90 :: nat))"
  shows "host_of_literal (''['' @ h @ '']'') = h"
proof -
  have "\<not> js_space (CHR ''['') \<and> \<not> js_space (CHR '']'')" by (simp add: js_space_def)
  then have t: "js_trim (''['' @ h @ '']'') = ''['' @ h @ '']''"
    using assms(3) by (intro js_trim_no_space) auto
  have l: "to_lower (''['' @ h @ '']'') = ''['' @ h @ '']''"
    unfolding to_lower_def by (intro map_idI) (use assms(3) in auto)
  have "\<not> ends_with ''.'' h"
    using assms(1,2) by (cases h rule: rev_cases) (auto simp: ends_with_def starts_with_def)
  then show ?thesis
    by (simp add: host_of_literal_def t [simplified] l [simplified] starts_with_def ends_with_def)
qed

lemma base_div_mod: "a < k \<Longrightarrow> (c * k + a) div k = c \<and> (c * k + a) mod k = (a :: nat)"
  by simp

lemma blocked_v6_6to4:
  assumes "a < 2 ^ 32"
  shows "blocked_v6 (0x2002 * 2 ^ 112 + a * 2 ^ 80) \<longleftrightarrow> blocked_v4 a"
proof -
  define v where "v = (0x2002 * 2 ^ 112 + a * 2 ^ 80 :: nat)"
  have shift: "v div 2 ^ (m + n) = v div 2 ^ m div 2 ^ n" for m n
    by (simp add: power_add div_mult2_eq)
  have v80: "v div 2 ^ 80 = 0x2002 * 2 ^ 32 + a"
    by (simp add: v_def)
  have k: "v div 2 ^ 112 = 0x2002"
    using shift [of 80 32] base_div_mod [OF assms, of 8194] unfolding v80 by simp
  have m: "v div 2 ^ 80 mod 2 ^ 32 = a"
    unfolding v80 using base_div_mod [OF assms, of 8194] by simp
  have "v div 2 ^ 121 = 16" "v div 2 ^ 118 = 128" "v div 2 ^ 120 = 32"
    using shift [of 112 9] shift [of 112 6] shift [of 112 8] k by simp_all
  moreover have "v div 2 ^ 96 \<noteq> 0x20010db8" "v div 2 ^ 32 \<noteq> 0x64ff9b * 2 ^ 64" "v div 2 ^ 32 \<noteq> 0xffff"
    "v div 2 ^ 32 \<noteq> 0" "v \<noteq> 0" "v \<noteq> 1"
    using shift [of 96 16] shift [of 32 80] k by auto
  ultimately have "blocked_v6 v \<longleftrightarrow> blocked_v4 a"
    unfolding blocked_v6_def m using k by simp
  then show ?thesis by (simp add: v_def)
qed

lemma embedded_v4_iff: "octets os \<Longrightarrow> isBlockedIpv6 (''::ffff:'' @ dotted os) \<longleftrightarrow> blocked_v4 (address os)"
  "octets os \<Longrightarrow> isBlockedIpv6 (''::'' @ dotted os) \<longleftrightarrow> blocked_v4 (address os)"
  "octets os \<Longrightarrow> isBlockedIpv6 (''2002:'' @ hi_group (address os) @ '':'' @ lo_group (address os) @ ''::'')
     \<longleftrightarrow> blocked_v4 (address os)"
proof -
  assume o4: "octets os"
  then have lt: "address os < 4294967296" using address_less by simp
  have small: "blocked_v4 0" "blocked_v4 (Suc 0)"
    by (simp_all add: blocked_v4_def blocked_intervals_def address_def)
  have z: "address os div k = 0" if "4294967296 \<le> k" for k
    using lt that by simp
  show "isBlockedIpv6 (''::ffff:'' @ dotted os) \<longleftrightarrow> blocked_v4 (address os)"
    unfolding isBlockedIpv6_iff [OF ipv6_mapped [OF o4]] blocked_v6_def using lt base_div_mod [OF lt, of 65535] by simp
  show "isBlockedIpv6 (''::'' @ dotted os) \<longleftrightarrow> blocked_v4 (address os)"
    unfolding isBlockedIpv6_iff [OF ipv6_compatible [OF o4]] blocked_v6_def using lt z small by auto
  show "isBlockedIpv6 (''2002:'' @ hi_group (address os) @ '':'' @ lo_group (address os) @ ''::'')
     \<longleftrightarrow> blocked_v4 (address os)"
    unfolding isBlockedIpv6_iff [OF ipv6_6to4 [OF address_less [OF o4]]]
    using address_less [OF o4] by (rule blocked_v6_6to4)
qed

lemma show_hex_free: "CHR ''.'' \<notin> set (show_hex n)" "CHR '':'' \<notin> set (show_hex n)"
proof -
  have "c \<noteq> CHR ''.'' \<and> c \<noteq> CHR '':''" if "c \<in> set (show_hex n)" for c
    using that show_hex_all_digits [of n] hex_char_not [of c] by (auto simp only: list_all_iff insert_iff)
  then show "CHR ''.'' \<notin> set (show_hex n)" "CHR '':'' \<notin> set (show_hex n)" by blast+
qed

lemma numeric_host_iff:
  assumes "isIP_laws isIP" and "plain_host h" and "CHR ''.'' \<notin> set h" and "CHR '':'' \<notin> set h"
    and "parseNumericIpv4Segment h = Some (address os)" and "octets os"
  shows "isBlockedHostnameLiteral isIP h \<longleftrightarrow> blocked_v4 (address os)"
proof -
  have "isIP h \<noteq> 4" using assms(1,3) has_dot by (auto simp: isIP_laws_def)
  with assms(1,4) have "isIP h = 0" unfolding isIP_laws_def by blast
  moreover have "normalizeNumericIpv4Literal h = Some (dotted os)"
    using normalize_single [OF assms(3,5)] address_less [OF assms(6)] quad_address [OF assms(6)] by simp
  ultimately show ?thesis
    using assms(2,6) by (simp add: isBlockedHostnameLiteral_plain isBlockedIpv4_dotted)
qed

text \<open>
  C38.  The guard blocks exactly the documented ranges.  An IPv4 literal is blocked when its number
  lies in one of the blocked intervals (so 169.254.169.254 is), an IPv6 literal when its 128-bit number has
  a blocked prefix or embeds a blocked IPv4 address; a text that cannot be parsed, or that is no IP
  literal at all, is always blocked.  The dotted form of four octets parses to the number they denote.
\<close>

theorem ip_guard_exact:
  "(\<forall>ip. isBlockedIpv4 ip \<longleftrightarrow> (\<forall>w. ipv4ToInt ip = Some w \<longrightarrow> blocked_v4 (unat w)))
   \<and> (\<forall>os. octets os \<longrightarrow> ipv4ToInt (dotted os) = Some (word_of_nat (address os)) \<and> address os < 2 ^ 32)
   \<and> (\<forall>ip. isBlockedIpv6 ip \<longleftrightarrow> (\<forall>v. ipv6ToBigInt ip = Some v \<longrightarrow> blocked_v6 v))
   \<and> (\<forall>isIP ip. isIP ip \<noteq> 4 \<and> isIP ip \<noteq> 6 \<longrightarrow> isBlockedIp isIP ip)"
proof (intro conjI allI)
  show "isBlockedIpv4 ip \<longleftrightarrow> (\<forall>w. ipv4ToInt ip = Some w \<longrightarrow> blocked_v4 (unat w))" for ip
    by (simp add: isBlockedIpv4_iff split: option.split)
  show "octets os \<longrightarrow> ipv4ToInt (dotted os) = Some (word_of_nat (address os)) \<and> address os < 2 ^ 32" for os
    using ipv4ToInt_dotted address_less by auto
  show "isBlockedIpv6 ip \<longleftrightarrow> (\<forall>v. ipv6ToBigInt ip = Some v \<longrightarrow> blocked_v6 v)" for ip
    by (cases "ipv6ToBigInt ip") (simp_all add: isBlockedIpv6_iff, simp add: isBlockedIpv6_def)
  show "isIP ip \<noteq> 4 \<and> isIP ip \<noteq> 6 \<longrightarrow> isBlockedIp isIP ip" for isIP ip
    by (simp add: isBlockedIp_def)
qed

theorem ip_guard_exact_witness:
  "isBlockedIpv4 (dotted [169, 254, 169, 254]) \<and> \<not> isBlockedIpv4 (dotted [8, 8, 8, 8])
   \<and> isBlockedIp sample_isIP ''not an address''"
proof -
  have "octets [169, 254, 169, 254]" "octets [8, 8, 8, 8]" by (simp_all add: octets_def)
  then have "ipv4ToInt (dotted [169, 254, 169, 254]) = Some (word_of_nat (address [169, 254, 169, 254]))"
    "ipv4ToInt (dotted [8, 8, 8, 8]) = Some (word_of_nat (address [8, 8, 8, 8]))"
    using ip_guard_exact by blast+
  moreover have "sample_isIP ''not an address'' = 0" by code_simp
  ultimately show ?thesis
    using ip_guard_exact
    by (simp add: blocked_v4_def blocked_intervals_def address_def)
qed

text \<open>
  No encoding of an IPv4 address escapes the guard.  With the documented behaviour of \<open>isIP\<close>,
  the host literals for the same address in dotted decimal, as one decimal number, as one
  hexadecimal number, and the IPv6 literals that embed it (IPv4-mapped, bare or in
  brackets, IPv4-compatible, 6to4) are all blocked exactly when the address is.
\<close>

theorem ip_encodings_agree:
  assumes "isIP_laws isIP" and "octets os"
  shows "(isBlockedHostnameLiteral isIP (dotted os) \<longleftrightarrow> blocked_v4 (address os))
       \<and> (isBlockedHostnameLiteral isIP (show_nat (address os)) \<longleftrightarrow> blocked_v4 (address os))
       \<and> (isBlockedHostnameLiteral isIP (''0x'' @ show_hex (address os)) \<longleftrightarrow> blocked_v4 (address os))
       \<and> (isBlockedIpv6 (''::ffff:'' @ dotted os) \<longleftrightarrow> blocked_v4 (address os))
       \<and> (isIP (''::ffff:'' @ dotted os) = 6 \<longrightarrow>
            (isBlockedHostnameLiteral isIP (''[::ffff:'' @ dotted os @ '']'') \<longleftrightarrow> blocked_v4 (address os)))
       \<and> (isBlockedIpv6 (''::'' @ dotted os) \<longleftrightarrow> blocked_v4 (address os))
       \<and> (isBlockedIpv6 (''2002:'' @ hi_group (address os) @ '':'' @ lo_group (address os) @ ''::'')
            \<longleftrightarrow> blocked_v4 (address os))"
proof (intro conjI impI)
  have "isIP (dotted os) = 4" using assms by (auto simp: isIP_laws_def)
  then show "isBlockedHostnameLiteral isIP (dotted os) \<longleftrightarrow> blocked_v4 (address os)"
    using assms(2) by (simp add: isBlockedHostnameLiteral_plain plain_hosts isBlockedIp_def isBlockedIpv4_dotted)
  show "isBlockedHostnameLiteral isIP (show_nat (address os)) \<longleftrightarrow> blocked_v4 (address os)"
    by (rule numeric_host_iff [OF assms(1) plain_hosts(1) _ _ parse_segment_show_nat assms(2)])
       (use show_nat_is_digit is_digit_not(4,8) in blast)+
  show "isBlockedHostnameLiteral isIP (''0x'' @ show_hex (address os)) \<longleftrightarrow> blocked_v4 (address os)"
    by (rule numeric_host_iff [OF assms(1) plain_hosts(2) _ _ parse_segment_hex assms(2)])
       (simp_all add: show_hex_free)
  show "isBlockedIpv6 (''::ffff:'' @ dotted os) \<longleftrightarrow> blocked_v4 (address os)"
    "isBlockedIpv6 (''::'' @ dotted os) \<longleftrightarrow> blocked_v4 (address os)"
    "isBlockedIpv6 (''2002:'' @ hi_group (address os) @ '':'' @ lo_group (address os) @ ''::'')
       \<longleftrightarrow> blocked_v4 (address os)"
    using assms(2) by (rule embedded_v4_iff)+
  assume six: "isIP (''::ffff:'' @ dotted os) = 6"
  let ?h = "''::ffff:'' @ dotted os"
  have ph: "plain_host (dotted os)" using assms(2) by (rule plain_hosts(3))
  have "host_of_literal (''['' @ ?h @ '']'') = ?h"
  proof (rule host_of_bracketed)
    show "last ?h \<noteq> CHR ''.''" using ph by (simp add: plain_host_def)
    show "\<not> js_space c \<and> \<not> (65 \<le> (of_char c :: nat) \<and> of_char c \<le> (90 :: nat))" if "c \<in> set ?h" for c
    proof (cases "c \<in> set (dotted os)")
      case True
      with plain_host_char [OF ph, of c] show ?thesis by blast
    next
      case False
      with that have "c = CHR '':'' \<or> c = CHR ''f''" by auto
      then show ?thesis by (elim disjE) (simp_all add: js_space_def)
    qed
  qed simp
  moreover have "CHR ''t'' \<notin> set ?h" using plain_host_char(3) [OF ph] by auto
  ultimately show "isBlockedHostnameLiteral isIP (''[::ffff:'' @ dotted os @ '']'') \<longleftrightarrow> blocked_v4 (address os)"
    using six no_localhost [of ?h] embedded_v4_iff(1) [OF assms(2)]
    by (simp add: isBlockedHostnameLiteral_def isBlockedIp_def)
qed

theorem ip_encodings_agree_witness:
  "isBlockedHostnameLiteral sample_isIP (''0x'' @ show_hex (address [127, 0, 0, 1]))
   \<and> isBlockedIpv6 (''::ffff:'' @ dotted [127, 0, 0, 1]) \<and> dotted [127, 0, 0, 1] = ''127.0.0.1''"
proof -
  have "octets [127, 0, 0, 1]" by (simp add: octets_def)
  note agree = ip_encodings_agree [OF sample_isIP_laws this]
  have "blocked_v4 (address [127, 0, 0, 1])"
    by (simp add: blocked_v4_def blocked_intervals_def address_def)
  moreover have "dotted [127, 0, 0, 1] = ''127.0.0.1''" by code_simp
  ultimately show ?thesis using agree by blast
qed

end
