(* ===== verification/Safe_Http.thy ===== *)
theory Safe_Http
  imports Ip_Guard
begin

text \<open>
  The HTTP client for outbound webhooks (\<open>src/common/security/safe-http-client.ts\<close>) and the validator
  of webhook URLs (\<open>is-safe-webhook-url.validator.ts\<close>).  The URL parser, \<open>isIP\<close> and the environment
  variable are the fields of \<open>net_platform\<close>; DNS and the remote servers answer differently at
  every request, so a delivery takes the answers per hop.  \<open>safePost\<close> returns, beside its result, the
  targets it has opened a connection to, in order.
\<close>

record url =
  url_protocol :: string
  url_hostname :: string
  url_href :: string

record net_platform =
  isIP :: "string \<Rightarrow> nat"
  parse_url :: "string \<Rightarrow> url option"
  resolve_url :: "string \<Rightarrow> url \<Rightarrow> url option"
  WEBHOOK_ALLOW_PRIVATE_TARGETS :: "string option"

datatype delivery_error = SsrfBlockedError string | DnsError string | NetworkError

definition SSRF_BLOCKED_MESSAGE :: string where
  "SSRF_BLOCKED_MESSAGE = ''Delivery blocked: target address is not publicly routable''"

record safe_target =
  st_url :: url
  st_pinnedAddress :: string
  st_family :: nat

definition privateTargetsAllowed :: "net_platform \<Rightarrow> bool" where
  "privateTargetsAllowed p \<longleftrightarrow> WEBHOOK_ALLOW_PRIVATE_TARGETS p = Some ''true''"

type_synonym dns = "string \<Rightarrow> (string \<times> nat) list option"

definition resolveSafeTarget :: "net_platform \<Rightarrow> dns \<Rightarrow> string \<Rightarrow> delivery_error + safe_target" where
  "resolveSafeTarget p dns rawUrl =
     (case parse_url p rawUrl of
        None \<Rightarrow> Inl (SsrfBlockedError SSRF_BLOCKED_MESSAGE)
      | Some url \<Rightarrow>
          (if url_protocol url \<noteq> ''http:'' \<and> url_protocol url \<noteq> ''https:''
           then Inl (SsrfBlockedError SSRF_BLOCKED_MESSAGE)
           else let hostname = url_hostname url; allowPrivate = privateTargetsAllowed p
                in if \<not> allowPrivate \<and> isBlockedHostnameLiteral (isIP p) hostname
                   then Inl (SsrfBlockedError SSRF_BLOCKED_MESSAGE)
                   else if isIP p hostname = 4 \<or> isIP p hostname = 6
                   then Inr \<lparr> st_url = url, st_pinnedAddress = hostname, st_family = isIP p hostname \<rparr>
                   else case dns hostname of
                          None \<Rightarrow> Inl (DnsError ''Delivery blocked: DNS resolution failed'')
                        | Some records \<Rightarrow>
                            (if records = []
                             then Inl (DnsError ''Delivery blocked: DNS resolution returned no addresses'')
                             else case (if allowPrivate then Some (hd records)
                                        else List.find (\<lambda>r. \<not> isBlockedIp (isIP p) (fst r)) records) of
                                    None \<Rightarrow> Inl (SsrfBlockedError SSRF_BLOCKED_MESSAGE)
                                  | Some safeRecord \<Rightarrow>
                                      Inr \<lparr> st_url = url, st_pinnedAddress = fst safeRecord,
                                            st_family = (if snd safeRecord = 6 then 6 else 4) \<rparr>)))"

definition MAX_REDIRECT_HOPS :: nat where
  "MAX_REDIRECT_HOPS = 3"

definition REDIRECT_STATUS_CODES :: "nat list" where
  "REDIRECT_STATUS_CODES = [301, 302, 303, 307, 308]"

text \<open>
  The answer of the remote server to one pinned request: \<open>None\<close> when the request fails or times
  out, otherwise the status code, the body and the first \<open>Location\<close> header.  A missing status code
  counts as 0.
\<close>

record http_answer =
  ans_statusCode :: nat
  ans_body :: string
  ans_location :: "string option"

type_synonym servers = "nat \<Rightarrow> safe_target \<Rightarrow> string \<Rightarrow> http_answer option"

function safePost_loop ::
  "net_platform \<Rightarrow> (nat \<Rightarrow> dns) \<Rightarrow> servers \<Rightarrow> string \<Rightarrow> nat \<Rightarrow> safe_target \<Rightarrow>
   (delivery_error + nat \<times> string) \<times> safe_target list" where
  "safePost_loop p dns http body hop target =
     (case http hop target body of
        None \<Rightarrow> (Inl NetworkError, [target])
      | Some result \<Rightarrow>
          (if ans_statusCode result \<notin> set REDIRECT_STATUS_CODES
           then (Inr (ans_statusCode result, ans_body result), [target])
           else if falsy (ans_location result)
           then (Inr (ans_statusCode result, ans_body result), [target])
           else if MAX_REDIRECT_HOPS \<le> hop
           then (Inl (SsrfBlockedError ''Delivery blocked: too many redirects''), [target])
           else case resolve_url p (the (ans_location result)) (st_url target) of
                  None \<Rightarrow> (Inl (SsrfBlockedError ''Delivery blocked: invalid redirect location''), [target])
                | Some nextUrl \<Rightarrow>
                    (case resolveSafeTarget p (dns (hop + 1)) (url_href nextUrl) of
                       Inl err \<Rightarrow> (Inl err, [target])
                     | Inr target' \<Rightarrow>
                         (let (r, ts) = safePost_loop p dns http body (hop + 1) target'
                          in (r, target # ts)))))"
  by pat_completeness auto

termination
  by (relation "measure (\<lambda>(p, dns, http, body, hop, target). MAX_REDIRECT_HOPS - hop)") auto

declare safePost_loop.simps [simp del]

definition safePost ::
  "net_platform \<Rightarrow> (nat \<Rightarrow> dns) \<Rightarrow> servers \<Rightarrow> string \<Rightarrow> string \<Rightarrow>
   (delivery_error + nat \<times> string) \<times> safe_target list" where
  "safePost p dns http rawUrl body =
     (case resolveSafeTarget p (dns 0) rawUrl of
        Inl err \<Rightarrow> (Inl err, [])
      | Inr target \<Rightarrow> safePost_loop p dns http body 0 target)"

definition isSafeWebhookUrl :: "net_platform \<Rightarrow> jsv \<Rightarrow> bool" where
  "isSafeWebhookUrl p value =
     (case value of
        Str s \<Rightarrow>
          (case parse_url p s of
             None \<Rightarrow> False
           | Some url \<Rightarrow>
               (if url_protocol url \<noteq> ''http:'' \<and> url_protocol url \<noteq> ''https:'' then False
                else if privateTargetsAllowed p then True
                else \<not> isBlockedHostnameLiteral (isIP p) (url_hostname url)))
      | _ \<Rightarrow> False)"

subsection \<open>Every connection is checked\<close>

text \<open>
  What the platform documents: the laws of \<open>isIP\<close>, and that the \<open>hostname\<close> of a parsed URL writes
  an IPv6 address in brackets, so that it is never itself an IPv6 literal.
\<close>

definition platform_laws :: "net_platform \<Rightarrow> bool" where
  "platform_laws p \<longleftrightarrow> isIP_laws (isIP p) \<and>
     (\<forall>raw u. parse_url p raw = Some u \<longrightarrow> isIP p (url_hostname u) \<noteq> 6)"

definition target_safe :: "net_platform \<Rightarrow> safe_target \<Rightarrow> bool" where
  "target_safe p t \<longleftrightarrow> url_protocol (st_url t) \<in> {''http:'', ''https:''} \<and>
     (\<not> privateTargetsAllowed p \<longrightarrow> \<not> isBlockedIp (isIP p) (st_pinnedAddress t))"

lemma literal_checked:
  assumes "isIP_laws f" and "f h = 4" and "\<not> isBlockedHostnameLiteral f h"
  shows "\<not> isBlockedIp f h"
proof -
  obtain os where "octets os" "h = dotted os" using assms(1,2) by (auto simp: isIP_laws_def)
  with assms(2,3) show ?thesis by (simp add: isBlockedHostnameLiteral_plain plain_hosts)
qed

lemma resolveSafeTarget_safe:
  assumes "platform_laws p" and "resolveSafeTarget p dns raw = Inr t"
  shows "target_safe p t"
proof -
  obtain u where u: "parse_url p raw = Some u" "url_protocol u = ''http:'' \<or> url_protocol u = ''https:''"
    using assms(2) by (auto simp: resolveSafeTarget_def split: option.splits if_splits)
  then have "isIP p (url_hostname u) \<noteq> 6" using assms(1) by (auto simp: platform_laws_def)
  moreover have "isIP_laws (isIP p)" using assms(1) by (simp add: platform_laws_def)
  ultimately show ?thesis
    using assms(2) u literal_checked [of "isIP p" "url_hostname u"]
    by (auto simp: resolveSafeTarget_def target_safe_def Let_def dest!: find_SomeD split: option.splits if_splits)
qed

lemma safePost_loop_safe:
  "platform_laws p \<Longrightarrow> target_safe p target \<Longrightarrow> hop \<le> MAX_REDIRECT_HOPS \<Longrightarrow>
     list_all (target_safe p) (snd (safePost_loop p dns http body hop target)) \<and>
     length (snd (safePost_loop p dns http body hop target)) \<le> MAX_REDIRECT_HOPS + 1 - hop"
proof (induction p dns http body hop target rule: safePost_loop.induct)
  case (1 p dns http body hop target)
  show ?case
    using 1 resolveSafeTarget_safe [OF 1(2)]
    by (subst (1 2) safePost_loop.simps)
       (fastforce split: option.splits sum.splits if_splits prod.splits)
qed

text \<open>
  C22.  Server-side request forgery is prevented at delivery time.  Whatever DNS answers at each hop and
  wherever the servers redirect to, every connection \<open>safePost\<close> opens uses http or https and, unless
  the deployment allows private targets, is pinned to an address outside the blocked ranges; a
  delivery opens at most four connections and always ends.  A URL the configuration-time validator
  rejects is refused at delivery too, before any lookup.
\<close>

theorem webhook_targets_safe:
  assumes "platform_laws p"
  shows "list_all (target_safe p) (snd (safePost p dns http raw body))
       \<and> length (snd (safePost p dns http raw body)) \<le> 4
       \<and> (\<not> isSafeWebhookUrl p (Str raw) \<longrightarrow>
            safePost p dns http raw body = (Inl (SsrfBlockedError SSRF_BLOCKED_MESSAGE), []))"
proof (intro conjI impI)
  show "list_all (target_safe p) (snd (safePost p dns http raw body))"
    and "length (snd (safePost p dns http raw body)) \<le> 4"
    using safePost_loop_safe [OF assms resolveSafeTarget_safe [OF assms], of "dns 0" raw _ 0 dns http body]
    by (auto simp: safePost_def MAX_REDIRECT_HOPS_def split: sum.split)
  show "safePost p dns http raw body = (Inl (SsrfBlockedError SSRF_BLOCKED_MESSAGE), [])"
    if "\<not> isSafeWebhookUrl p (Str raw)"
    using that by (auto simp: isSafeWebhookUrl_def safePost_def resolveSafeTarget_def Let_def split: option.splits if_splits)
qed

definition sample_parse_url :: "string \<Rightarrow> url option" where
  "sample_parse_url raw =
     (let host = takeWhile (\<lambda>c. c \<noteq> CHR ''/'') (drop 7 raw)
      in if starts_with ''http://'' raw \<and> sample_isIP host \<noteq> 6
         then Some \<lparr> url_protocol = ''http:'', url_hostname = host, url_href = raw \<rparr> else None)"

definition sample_platform :: net_platform where
  "sample_platform =
     \<lparr> isIP = sample_isIP, parse_url = sample_parse_url, resolve_url = (\<lambda>l u. sample_parse_url l),
       WEBHOOK_ALLOW_PRIVATE_TARGETS = None \<rparr>"

definition sample_redirect :: servers where
  "sample_redirect hop target body =
     Some \<lparr> ans_statusCode = 302, ans_body = [], ans_location = Some ''http://169.254.169.254/'' \<rparr>"

lemma sample_platform_laws: "platform_laws sample_platform"
  by (auto simp: platform_laws_def sample_platform_def sample_parse_url_def sample_isIP_laws Let_def split: if_splits)

theorem webhook_targets_safe_witness:
  "list_all (target_safe sample_platform)
     (snd (safePost sample_platform (\<lambda>k h. Some [(''127.0.0.1'', 4), (''93.184.216.34'', 4)]) sample_redirect
        ''http://example.org/hook'' []))
   \<and> safePost sample_platform (\<lambda>k h. Some [(''127.0.0.1'', 4), (''93.184.216.34'', 4)]) sample_redirect
        ''http://example.org/hook'' []
     = (Inl (SsrfBlockedError SSRF_BLOCKED_MESSAGE),
        [\<lparr> st_url = \<lparr> url_protocol = ''http:'', url_hostname = ''example.org'', url_href = ''http://example.org/hook'' \<rparr>,
           st_pinnedAddress = ''93.184.216.34'', st_family = 4 \<rparr>])"
proof
  show "list_all (target_safe sample_platform)
     (snd (safePost sample_platform (\<lambda>k h. Some [(''127.0.0.1'', 4), (''93.184.216.34'', 4)]) sample_redirect
        ''http://example.org/hook'' []))"
    using webhook_targets_safe [OF sample_platform_laws] by blast
qed code_simp

end
