(* ===== verification/Token_Blacklist.thy ===== *)
theory Token_Blacklist
  imports Redis
begin

text \<open>
  The revocation list of access tokens (\<open>src/src/tokens/token-blacklist.service.ts\<close>): a row per revoked
  token in the database, a Redis key for fast lookups, and a process-local map when Redis cannot be
  used.  The argument \<open>dbUp\<close> says whether the database answers; the service logs and goes on when it
  does not.
\<close>

definition BLACKLIST_PREFIX :: string where
  "BLACKLIST_PREFIX = ''token:blacklist:''"

definition persist_revoked :: "bool \<Rightarrow> string \<Rightarrow> int \<Rightarrow> db \<Rightarrow> db" where
  "persist_revoked dbUp jti expiry s =
     (if dbUp \<and> List.find (\<lambda>r. rv_jti r = jti) (revokedTokens s) = None
      then s\<lparr> revokedTokens := revokedTokens s @ [\<lparr> rv_jti = jti, rv_expiresAt = expiry * 1000 \<rparr>] \<rparr>
      else s)"

definition memoryFallback_set :: "string \<Rightarrow> int \<Rightarrow> db \<Rightarrow> db" where
  "memoryFallback_set jti expiry s =
     s\<lparr> memBlacklist := (jti, expiry) # filter (\<lambda>k. fst k \<noteq> jti) (memBlacklist s) \<rparr>"

definition blacklistToken :: "env \<Rightarrow> bool \<Rightarrow> string \<Rightarrow> int \<Rightarrow> db \<Rightarrow> db" where
  "blacklistToken e dbUp jti expiry s =
     (let ttl = expiry - now e div 1000
      in if ttl \<le> 0 then s
         else let s1 = persist_revoked dbUp jti expiry s
              in if redis_isAvailable e
                 then (case redis_set e (BLACKLIST_PREFIX @ jti) ttl s1 of
                         Some s2 \<Rightarrow> s2
                       | None \<Rightarrow> memoryFallback_set jti expiry s1)
                 else memoryFallback_set jti expiry s1)"

definition remember_revoked :: "env \<Rightarrow> revoked_token_row \<Rightarrow> db \<Rightarrow> db" where
  "remember_revoked e r s =
     (let ttl = rv_expiresAt r div 1000 - now e div 1000
      in if 0 < ttl \<and> redis_isAvailable e
         then nullish_else (redis_set e (BLACKLIST_PREFIX @ rv_jti r) ttl s) s
         else s)"

definition isBlacklisted :: "env \<Rightarrow> bool \<Rightarrow> string \<Rightarrow> db \<Rightarrow> bool \<times> db" where
  "isBlacklisted e dbUp jti s =
     (if redis_isAvailable e \<and> redis_exists e (BLACKLIST_PREFIX @ jti) s = Some True then (True, s)
      else if jti \<in> set (map fst (memBlacklist s)) then (True, s)
      else if dbUp
      then (case List.find (\<lambda>r. rv_jti r = jti) (revokedTokens s) of
              Some r \<Rightarrow> (True, remember_revoked e r s)
            | None \<Rightarrow> (False, s))
      else (False, s))"

definition rehydrateFromDatabase :: "env \<Rightarrow> bool \<Rightarrow> db \<Rightarrow> db" where
  "rehydrateFromDatabase e dbUp s =
     (if \<not> redis_isAvailable e \<or> \<not> dbUp then s
      else fold (remember_revoked e) (filter (\<lambda>r. now e < rv_expiresAt r) (revokedTokens s)) s)"

definition blacklist_cleanup :: "env \<Rightarrow> bool \<Rightarrow> db \<Rightarrow> db" where
  "blacklist_cleanup e dbUp s =
     (let s1 = s\<lparr> memBlacklist := filter (\<lambda>k. \<not> snd k < now e div 1000) (memBlacklist s) \<rparr>
      in if dbUp
         then s1\<lparr> revokedTokens := tbl_delete (\<lambda>r. rv_expiresAt r < now e) (revokedTokens s1) \<rparr>
         else s1)"

subsection \<open>Runs\<close>

text \<open>
  What can happen to the revocation list: the operations of the service, a restart of the process
  (which empties the map and rehydrates), and Redis losing its keys.
\<close>

datatype bl_event =
    BlBlacklist env bool string int
  | BlCheck env bool string
  | BlCleanup env bool
  | BlRestart env bool
  | BlRedisLoss env

fun bl_env :: "bl_event \<Rightarrow> env" where
  "bl_env (BlBlacklist e dbUp jti expiry) = e"
| "bl_env (BlCheck e dbUp jti) = e"
| "bl_env (BlCleanup e dbUp) = e"
| "bl_env (BlRestart e dbUp) = e"
| "bl_env (BlRedisLoss e) = e"

fun bl_apply :: "bl_event \<Rightarrow> db \<Rightarrow> db" where
  "bl_apply (BlBlacklist e dbUp jti expiry) s = blacklistToken e dbUp jti expiry s"
| "bl_apply (BlCheck e dbUp jti) s = snd (isBlacklisted e dbUp jti s)"
| "bl_apply (BlCleanup e dbUp) s = blacklist_cleanup e dbUp s"
| "bl_apply (BlRestart e dbUp) s = rehydrateFromDatabase e dbUp (s\<lparr> memBlacklist := [] \<rparr>)"
| "bl_apply (BlRedisLoss e) s = s\<lparr> redisKeys := [] \<rparr>"

definition bl_run :: "bl_event list \<Rightarrow> db \<Rightarrow> db" where
  "bl_run evs s = fold bl_apply evs s"

fun blacklists :: "string \<Rightarrow> bl_event \<Rightarrow> bool" where
  "blacklists jti (BlBlacklist e dbUp j expiry) = (j = jti)"
| "blacklists jti _ = False"

subsection \<open>A revoked token stays revoked\<close>

definition revoked_row :: "string \<Rightarrow> int \<Rightarrow> db \<Rightarrow> bool" where
  "revoked_row jti expiry s \<longleftrightarrow> (\<exists>r \<in> set (revokedTokens s). rv_jti r = jti \<and> expiry * 1000 \<le> rv_expiresAt r)"

lemma redis_set_tables:
  "redis_set e k t s = Some s' \<Longrightarrow> revokedTokens s' = revokedTokens s \<and> memBlacklist s' = memBlacklist s"
  by (auto simp: redis_set_def split: redis_mode.splits)

lemma remember_revoked_tables [simp]:
  "revokedTokens (remember_revoked e r s) = revokedTokens s" "memBlacklist (remember_revoked e r s) = memBlacklist s"
  by (auto simp: remember_revoked_def Let_def nullish_else_def dest: redis_set_tables split: option.split)

lemma fold_remember_tables [simp]:
  "revokedTokens (fold (remember_revoked e) rs s) = revokedTokens s"
  "memBlacklist (fold (remember_revoked e) rs s) = memBlacklist s"
  by (induction rs arbitrary: s) auto

lemma blacklistToken_tables:
  "revokedTokens (blacklistToken e dbUp jti expiry s) =
     (if 0 < expiry - now e div 1000 then revokedTokens (persist_revoked dbUp jti expiry s) else revokedTokens s)"
  by (auto simp: blacklistToken_def Let_def memoryFallback_set_def dest: redis_set_tables split: option.split)

lemma isBlacklisted_tables [simp]: "revokedTokens (snd (isBlacklisted e dbUp jti s)) = revokedTokens s"
  by (simp add: isBlacklisted_def split: option.split)

lemma bl_apply_revoked:
  assumes "revoked_row jti expiry s" and "now (bl_env ev) \<le> expiry * 1000"
  shows "revoked_row jti expiry (bl_apply ev s)"
  using assms
  by (cases ev)
     (auto simp: revoked_row_def blacklistToken_tables persist_revoked_def blacklist_cleanup_def Let_def
        rehydrateFromDatabase_def)

lemma bl_run_revoked:
  "revoked_row jti expiry s \<Longrightarrow> (\<forall>ev \<in> set evs. now (bl_env ev) \<le> expiry * 1000) \<Longrightarrow>
     revoked_row jti expiry (bl_run evs s)"
  by (induction evs arbitrary: s) (auto simp: bl_run_def bl_apply_revoked)

lemma revoked_row_found:
  "revoked_row jti expiry s \<Longrightarrow> fst (isBlacklisted e True jti s)"
  by (auto simp: revoked_row_def isBlacklisted_def find_None_iff split: option.split)

lemma blacklistToken_revokes:
  assumes "0 < expiry - now e div 1000"
    and "\<And>r. r \<in> set (revokedTokens s) \<Longrightarrow> rv_jti r = jti \<Longrightarrow> expiry * 1000 \<le> rv_expiresAt r"
  shows "revoked_row jti expiry (blacklistToken e True jti expiry s)"
proof (cases "List.find (\<lambda>r. rv_jti r = jti) (revokedTokens s)")
  case None
  with assms(1) show ?thesis by (simp add: revoked_row_def blacklistToken_tables persist_revoked_def)
next
  case (Some r)
  with find_SomeD [OF Some] assms show ?thesis
    by (auto simp: revoked_row_def blacklistToken_tables persist_revoked_def)
qed

subsection \<open>No other token is affected\<close>

definition unknown_jti :: "string \<Rightarrow> db \<Rightarrow> bool" where
  "unknown_jti jti s \<longleftrightarrow> (\<forall>r \<in> set (revokedTokens s). rv_jti r \<noteq> jti) \<and> (\<forall>k \<in> set (memBlacklist s). fst k \<noteq> jti)
     \<and> (\<forall>k \<in> set (redisKeys s). fst k \<noteq> BLACKLIST_PREFIX @ jti)"

lemma redis_set_unknown:
  "redis_set e (BLACKLIST_PREFIX @ j) t s = Some s' \<Longrightarrow> j \<noteq> jti \<Longrightarrow> unknown_jti jti s \<Longrightarrow> unknown_jti jti s'"
  by (auto simp: redis_set_def unknown_jti_def split: redis_mode.splits)

lemma remember_revoked_unknown:
  "unknown_jti jti s \<Longrightarrow> rv_jti r \<noteq> jti \<Longrightarrow> unknown_jti jti (remember_revoked e r s)"
  by (auto simp: remember_revoked_def Let_def nullish_else_def dest: redis_set_unknown split: option.split)

lemma fold_remember_unknown:
  "unknown_jti jti s \<Longrightarrow> (\<forall>r \<in> set rs. rv_jti r \<noteq> jti) \<Longrightarrow> unknown_jti jti (fold (remember_revoked e) rs s)"
  by (induction rs arbitrary: s) (auto simp: remember_revoked_unknown)

lemma unknown_memory: "unknown_jti jti s \<Longrightarrow> unknown_jti jti (s\<lparr> memBlacklist := filter p (memBlacklist s) \<rparr>)"
  "unknown_jti jti s \<Longrightarrow> unknown_jti jti (s\<lparr> memBlacklist := [] \<rparr>)"
  by (auto simp: unknown_jti_def)

lemma persist_unknown: "unknown_jti jti s \<Longrightarrow> j \<noteq> jti \<Longrightarrow> unknown_jti jti (persist_revoked dbUp j expiry s)"
  by (auto simp: unknown_jti_def persist_revoked_def)

lemma blacklistToken_unknown:
  assumes "unknown_jti jti s" and "j \<noteq> jti"
  shows "unknown_jti jti (blacklistToken e dbUp j expiry s)"
proof -
  have m: "unknown_jti jti (memoryFallback_set j expiry x)" if "unknown_jti jti x" for x
    using that assms(2) by (auto simp: unknown_jti_def memoryFallback_set_def)
  have r: "unknown_jti jti y" if "redis_set e (BLACKLIST_PREFIX @ j) t x = Some y" "unknown_jti jti x" for t x y
    using that assms(2) by (auto dest: redis_set_unknown)
  show ?thesis
    using persist_unknown [OF assms, of dbUp expiry] assms(1)
    by (auto simp: blacklistToken_def Let_def m r split: option.split)
qed

lemma bl_apply_unknown:
  assumes "unknown_jti jti s" and "\<not> blacklists jti ev"
  shows "unknown_jti jti (bl_apply ev s)"
proof (cases ev)
  case (BlBlacklist e dbUp j expiry)
  with assms show ?thesis by (simp add: blacklistToken_unknown)
next
  case (BlCheck e dbUp j)
  have "unknown_jti jti (remember_revoked e r s)" if "List.find (\<lambda>r. rv_jti r = j) (revokedTokens s) = Some r" for r
    using assms(1) find_SomeD [OF that] by (intro remember_revoked_unknown) (auto simp: unknown_jti_def)
  with BlCheck assms(1) show ?thesis by (simp add: isBlacklisted_def split: option.split)
next
  case (BlCleanup e dbUp)
  with assms(1) show ?thesis by (auto simp: blacklist_cleanup_def Let_def unknown_jti_def)
next
  case (BlRestart e dbUp)
  have "unknown_jti jti (fold (remember_revoked e) (filter (\<lambda>r. now e < rv_expiresAt r) (revokedTokens s))
      (s\<lparr> memBlacklist := [] \<rparr>))"
    using unknown_memory(2) [OF assms(1)] assms(1) by (intro fold_remember_unknown) (auto simp: unknown_jti_def)
  with BlRestart unknown_memory(2) [OF assms(1)] show ?thesis by (simp add: rehydrateFromDatabase_def)
next
  case (BlRedisLoss e)
  with assms(1) show ?thesis by (auto simp: unknown_jti_def)
qed

lemma bl_run_unknown:
  "unknown_jti jti s \<Longrightarrow> (\<forall>ev \<in> set evs. \<not> blacklists jti ev) \<Longrightarrow> unknown_jti jti (bl_run evs s)"
  by (induction evs arbitrary: s) (auto simp: bl_run_def bl_apply_unknown)

lemma unknown_not_found: "unknown_jti jti s \<Longrightarrow> \<not> fst (isBlacklisted e dbUp jti s)"
  by (auto simp: unknown_jti_def isBlacklisted_def redis_exists_def list_ex_iff dest: find_SomeD
      split: option.splits redis_mode.splits)

text \<open>
  The revocation list is exact.  Once a token is blacklisted with the database reachable, it is
  reported as revoked at every later check that reaches the database, whatever happens until its
  expiry: Redis failing, losing its keys or going away, restarts that lose the process-local map,
  periodic cleanups, revocations of other tokens, and the database being unreachable in between.  A token
  that nobody blacklisted is never reported.
\<close>

theorem token_revocation_exact:
  assumes "0 < expiry - now e0 div 1000"
    and "\<And>r. r \<in> set (revokedTokens s) \<Longrightarrow> rv_jti r = jti \<Longrightarrow> expiry * 1000 \<le> rv_expiresAt r"
    and "\<And>ev. ev \<in> set evs \<Longrightarrow> now (bl_env ev) \<le> expiry * 1000"
  shows "fst (isBlacklisted e True jti (bl_run evs (blacklistToken e0 True jti expiry s)))
       \<and> (unknown_jti j s \<and> (\<forall>ev \<in> set evs. \<not> blacklists j ev) \<longrightarrow> \<not> fst (isBlacklisted e dbUp j (bl_run evs s)))"
proof (intro conjI impI)
  show "fst (isBlacklisted e True jti (bl_run evs (blacklistToken e0 True jti expiry s)))"
    using bl_run_revoked [OF blacklistToken_revokes [OF assms(1,2)]] assms(3) revoked_row_found by blast
  show "\<not> fst (isBlacklisted e dbUp j (bl_run evs s))"
    if "unknown_jti j s \<and> (\<forall>ev \<in> set evs. \<not> blacklists j ev)"
    using that by (intro unknown_not_found bl_run_unknown) auto
qed

definition sample_bl_run :: "bl_event list" where
  "sample_bl_run =
     [BlRedisLoss (sample_env\<lparr> now := 1100000 \<rparr>),
      BlRestart (sample_env\<lparr> now := 1200000, redis := RedisDown \<rparr>) False,
      BlCleanup (sample_env\<lparr> now := 1260000 \<rparr>) True]"

theorem token_revocation_exact_witness:
  "fst (isBlacklisted (sample_env\<lparr> now := 1290000 \<rparr>) True ''j1''
     (bl_run sample_bl_run (blacklistToken sample_env True ''j1'' 1300 sample_db)))
   \<and> \<not> fst (isBlacklisted (sample_env\<lparr> now := 1290000 \<rparr>) True ''j2'' (bl_run sample_bl_run sample_db))"
proof -
  have "revokedTokens sample_db = []" "unknown_jti ''j2'' sample_db"
    by (simp_all add: sample_defs unknown_jti_def)
  moreover have "now (bl_env ev) \<le> 1300 * 1000" "\<not> blacklists ''j2'' ev" if "ev \<in> set sample_bl_run" for ev
    using that by (auto simp: sample_bl_run_def)
  moreover have "0 < 1300 - now sample_env div 1000" by (simp add: sample_env_def)
  ultimately show ?thesis
    using token_revocation_exact [of 1300 sample_env sample_db "''j1''" sample_bl_run
        "sample_env\<lparr> now := 1290000 \<rparr>" "''j2''" True] by simp
qed

end
