(* ===== verification/Redirect_Uri.thy ===== *)
theory Redirect_Uri
  imports Prelude
begin

text \<open>
  The comparison of a redirect URI with the registered patterns (\<open>src/src/common/redirect-uri.utils.ts\<close>),
  which the authorization request and the logout request share.
\<close>

definition matches_pattern :: "string \<Rightarrow> string \<Rightarrow> bool" where
  "matches_pattern redirectUri pattern =
     (if ends_with ''/*'' pattern
      then let base = butlast pattern
           in redirectUri = butlast base \<or> starts_with base redirectUri
      else pattern = redirectUri)"

definition matchesRedirectUri :: "string \<Rightarrow> string list \<Rightarrow> bool" where
  "matchesRedirectUri redirectUri registeredUris = list_ex (matches_pattern redirectUri) registeredUris"

lemma ends_with_append: "ends_with p (s @ p)"
  by (simp add: ends_with_def starts_with_def)

lemma ends_with_iff: "ends_with p s \<longleftrightarrow> (\<exists>q. s = q @ p)"
proof
  assume "ends_with p s"
  then have "rev s = rev p @ drop (length p) (rev s)"
    by (metis append_take_drop_id ends_with_def length_rev starts_with_def)
  then show "\<exists>q. s = q @ p" by (metis rev_append rev_rev_ident)
qed (auto simp: ends_with_append)

lemma starts_with_iff: "starts_with p s \<longleftrightarrow> (\<exists>q. s = p @ q)"
  unfolding starts_with_def by (metis append_take_drop_id append_eq_conv_conj)

text \<open>
  A registered URI matches itself only, unless it ends in \<open>/*\<close>: then it matches its base and
  everything below the base, and never another path segment that merely starts with the same
  letters.
\<close>

lemma matchesRedirectUri_iff:
  "matchesRedirectUri u ps \<longleftrightarrow>
     (\<exists>p \<in> set ps. (\<exists>b. p = b @ ''/*'' \<and> (u = b \<or> (\<exists>rest. u = b @ ''/'' @ rest)))
                   \<or> (\<nexists>b. p = b @ ''/*'') \<and> u = p)"
proof -
  have "matches_pattern u p \<longleftrightarrow>
      (\<exists>b. p = b @ ''/*'' \<and> (u = b \<or> (\<exists>rest. u = b @ ''/'' @ rest))) \<or> (\<nexists>b. p = b @ ''/*'') \<and> u = p" for p
  proof (cases "ends_with ''/*'' p")
    case True
    then obtain b where "p = b @ ''/*''" by (auto simp: ends_with_iff)
    with True show ?thesis
      by (auto simp: matches_pattern_def starts_with_iff butlast_append Let_def)
  next
    case False
    then show ?thesis by (auto simp: matches_pattern_def ends_with_iff)
  qed
  then show ?thesis by (simp add: matchesRedirectUri_def list_ex_iff)
qed

end
