(* ===== verification/Tokens.thy ===== *)
theory Tokens
  imports Token_Issue Token_Blacklist Redirect_Uri
begin

text \<open>
  Introspection, revocation, logout and user info: \<open>src/src/tokens/tokens.service.ts\<close> with
  \<open>backchannel-logout.service.ts\<close>, and the endpoints of \<open>tokens.controller.ts\<close> that authenticate the
  calling client.  \<open>verifyJwt\<close> of \<open>crypto/jwk.service.ts\<close> (the \<open>jose\<close> package) is the parameter \<open>v\<close>: the
  payload of a token that is signed by the key and not expired at the time of the request, \<open>None\<close>
  when the call throws.  \<open>dbUp\<close> is the database as the revocation list sees it.
\<close>

type_synonym verifier = "string \<Rightarrow> string \<Rightarrow> claims option"

definition str_claim :: "claims \<Rightarrow> string \<Rightarrow> string option" where
  "str_claim p k = (case p k of Some (VStr x) \<Rightarrow> Some x | _ \<Rightarrow> None)"

definition active_key :: "ident \<Rightarrow> db \<Rightarrow> signing_key_row option" where
  "active_key rid s = (case getActiveSigningKey rid s of Inr k \<Rightarrow> Some k | Inl _ \<Rightarrow> None)"

definition audiences :: "claims \<Rightarrow> string list" where
  "audiences p =
     (case str_claim p ''azp'' of
        Some azp \<Rightarrow> if azp \<noteq> [] then [azp] else
          (case p ''aud'' of Some (VStrs xs) \<Rightarrow> xs | Some (VStr x) \<Rightarrow> if x \<noteq> [] then [x] else [] | _ \<Rightarrow> [])
      | None \<Rightarrow>
          (case p ''aud'' of Some (VStrs xs) \<Rightarrow> xs | Some (VStr x) \<Rightarrow> if x \<noteq> [] then [x] else [] | _ \<Rightarrow> []))"

subsection \<open>Introspection\<close>

text \<open>
  The active answer; \<open>client_id\<close> repeats \<open>azp\<close>.  A refresh token has no \<open>iss\<close>, \<open>aud\<close> and profile claims.
\<close>

record introspection =
  in_token_type :: "string option"
  in_sub :: "string option"
  in_azp :: "string option"
  in_claims :: claims
  in_username :: "string option"
  in_scope :: "claim_value option"
  in_exp :: "claim_value option"
  in_iat :: "claim_value option"

definition profile_claims :: "claims \<Rightarrow> claims" where
  "profile_claims p =
     (\<lambda>k. if k \<in> {''iss'', ''aud'', ''preferred_username'', ''email'', ''realm_access'', ''resource_access''}
          then p k else None)"

definition introspectRefreshToken :: "env \<Rightarrow> realm_row \<Rightarrow> string \<Rightarrow> db \<Rightarrow> introspection option" where
  "introspectRefreshToken e r token s =
     (case List.find (\<lambda>t. rt_tokenHash t = sha256 e token) (refreshTokens s) of
        None \<Rightarrow> None
      | Some stored \<Rightarrow>
          (if rt_revoked stored \<or> rt_expiresAt stored < now e then None
           else case List.find (\<lambda>x. sess_id x = rt_sessionId stored) (sessions s) of
                  None \<Rightarrow> None
                | Some session \<Rightarrow>
                    (case user_by_id (sess_userId session) s of
                       None \<Rightarrow> None
                     | Some user \<Rightarrow>
                         (if \<not> user_enabled user \<or> user_realmId user \<noteq> realm_id r then None
                          else Some \<lparr> in_token_type = Some ''refresh_token'', in_sub = Some (user_id user),
                                 in_azp = rt_clientId stored,
                                 in_claims = [''preferred_username'' \<mapsto> VStr (user_username user)],
                                 in_username = Some (user_username user),
                                 in_scope = map_option VStr (rt_scope stored),
                                 in_exp = Some (VInt (rt_expiresAt stored div 1000)),
                                 in_iat = Some (VInt (rt_createdAt stored div 1000)) \<rparr>))))"

text \<open>\<open>None\<close> is the answer \<open>{ active: false }\<close>.\<close>

definition introspect ::
  "verifier \<Rightarrow> env \<Rightarrow> bool \<Rightarrow> realm_row \<Rightarrow> string \<Rightarrow> db \<Rightarrow> introspection option \<times> db" where
  "introspect v e dbUp r token s =
     (case active_key (realm_id r) s of
        None \<Rightarrow> (None, s)
      | Some signingKey \<Rightarrow>
          (case v token (sk_publicKey signingKey) of
             None \<Rightarrow> (introspectRefreshToken e r token s, s)
           | Some payload \<Rightarrow>
               (let jti = str_claim payload ''jti'';
                    (revoked, s1) = (if falsy jti then (False, s) else isBlacklisted e dbUp (the jti) s);
                    sid = str_claim payload ''sid''; sub = str_claim payload ''sub''
                in if revoked then (None, s1)
                   else if \<not> falsy sid \<and> List.find (\<lambda>x. sess_id x = the sid) (sessions s1) = None then (None, s1)
                   else let answer = (\<lambda>username. Some
                          \<lparr> in_token_type = None, in_sub = sub, in_azp = str_claim payload ''azp'',
                            in_claims = profile_claims payload, in_username = username,
                            in_scope = payload ''scope'', in_exp = payload ''exp'', in_iat = payload ''iat'' \<rparr>)
                   in if falsy sub then (answer None, s1)
                      else case user_by_id (the sub) s1 of
                             None \<Rightarrow> (None, s1)
                           | Some user \<Rightarrow>
                               (if \<not> user_enabled user then (None, s1)
                                else (answer (Some (user_username user)), s1)))))"

subsection \<open>Ownership and revocation\<close>

definition hint_allows :: "string option \<Rightarrow> string \<Rightarrow> bool" where
  "hint_allows hint kind \<longleftrightarrow> hint = Some kind \<or> falsy hint"

definition assertTokenBelongsToClient ::
  "verifier \<Rightarrow> env \<Rightarrow> realm_row \<Rightarrow> string \<Rightarrow> string \<Rightarrow> string option \<Rightarrow> db \<Rightarrow> unit result" where
  "assertTokenBelongsToClient v e r token callerClientId hint s =
     (let jwtCheck =
            (if hint_allows hint ''access_token'' then
               (case active_key (realm_id r) s of
                  None \<Rightarrow> Inr ()
                | Some signingKey \<Rightarrow>
                    (case v token (sk_publicKey signingKey) of
                       None \<Rightarrow> Inr ()
                     | Some payload \<Rightarrow>
                         (if audiences payload \<noteq> [] \<and> callerClientId \<notin> set (audiences payload)
                          then Inl ForbiddenException else Inr ())))
             else Inr ())
      in if hint_allows hint ''refresh_token'' then
           (case List.find (\<lambda>t. rt_tokenHash t = sha256 e token) (refreshTokens s) of
              Some stored \<Rightarrow>
                (if \<not> falsy (rt_clientId stored) \<and> rt_clientId stored \<noteq> Some callerClientId
                 then Inl ForbiddenException else Inr ())
            | None \<Rightarrow> jwtCheck)
         else jwtCheck)"

definition revoke_access :: "verifier \<Rightarrow> env \<Rightarrow> bool \<Rightarrow> realm_row \<Rightarrow> string \<Rightarrow> db \<Rightarrow> db" where
  "revoke_access v e dbUp r token s =
     (case active_key (realm_id r) s of
        None \<Rightarrow> s
      | Some signingKey \<Rightarrow>
          (case v token (sk_publicKey signingKey) of
             None \<Rightarrow> s
           | Some payload \<Rightarrow>
               (case (str_claim payload ''jti'', payload ''exp'') of
                  (Some jti, Some (VInt expiry)) \<Rightarrow>
                    if jti \<noteq> [] \<and> expiry \<noteq> 0 then blacklistToken e dbUp jti expiry s else s
                | _ \<Rightarrow> s)))"

definition revoke ::
  "verifier \<Rightarrow> env \<Rightarrow> bool \<Rightarrow> realm_row \<Rightarrow> string \<Rightarrow> string option \<Rightarrow> db \<Rightarrow> db" where
  "revoke v e dbUp r token hint s =
     (let stored = (if hint_allows hint ''refresh_token''
                    then List.find (\<lambda>t. rt_tokenHash t = sha256 e token) (refreshTokens s) else None)
      in case stored of
           Some t \<Rightarrow> s\<lparr> refreshTokens := tbl_update (\<lambda>x. rt_id x = rt_id t) (\<lambda>x. x\<lparr> rt_revoked := True \<rparr>)
                                           (refreshTokens s) \<rparr>
         | None \<Rightarrow> if hint_allows hint ''access_token'' then revoke_access v e dbUp r token s else s)"

subsection \<open>Logout\<close>

definition dispatchLogoutTokens :: "realm_row \<Rightarrow> ident \<Rightarrow> ident \<Rightarrow> db \<Rightarrow> db" where
  "dispatchLogoutTokens r userId sessionId s =
     (let cs = filter (\<lambda>c. client_realmId c = realm_id r \<and> client_backchannelLogoutUri c \<noteq> None) (clients s)
      in if cs = [] then s
         else case active_key (realm_id r) s of
                None \<Rightarrow> s
              | Some signingKey \<Rightarrow>
                  s\<lparr> backchannelOutbox := backchannelOutbox s @
                       map (\<lambda>c. (the (client_backchannelLogoutUri c), client_clientId c, userId,
                                 if client_backchannelLogoutSessionRequired c then Some sessionId else None))
                         (filter (\<lambda>c. \<not> falsy (client_backchannelLogoutUri c)) cs) \<rparr>)"

definition endSession :: "realm_row \<Rightarrow> ident \<Rightarrow> ident option \<Rightarrow> string option \<Rightarrow> db \<Rightarrow> db" where
  "endSession r sessionId userId ip s =
     (let s1 = s\<lparr> refreshTokens := tbl_update (\<lambda>t. rt_sessionId t = sessionId \<and> \<not> rt_isOffline t)
                    (\<lambda>t. t\<lparr> rt_revoked := True \<rparr>) (refreshTokens s) \<rparr>;
          s2 = (if falsy userId then s1 else dispatchLogoutTokens r (the userId) sessionId s1);
          s3 = recordLoginEvent (login_event (realm_id r) ''LOGOUT'' userId (Some sessionId) None ip None) s2
      in if List.find (\<lambda>x. sess_id x = sessionId) (sessions s3) = None then s3
         else delete_sessions [sessionId] s3)"

definition logout :: "env \<Rightarrow> realm_row \<Rightarrow> string option \<Rightarrow> string option \<Rightarrow> db \<Rightarrow> unit result \<times> db" where
  "logout e r ip refreshToken s =
     (if falsy refreshToken then (Inr (), s)
      else case List.find (\<lambda>t. rt_tokenHash t = sha256 e (the refreshToken)) (refreshTokens s) of
             None \<Rightarrow> (Inl UnauthorizedException, s)
           | Some stored \<Rightarrow>
               (case List.find (\<lambda>x. sess_id x = rt_sessionId stored) (sessions s) of
                  None \<Rightarrow> (Inl TypeError, s)
                | Some session \<Rightarrow>
                    (Inr (), endSession r (rt_sessionId stored) (Some (sess_userId session)) ip s)))"

definition end_user_sessions :: "realm_row \<Rightarrow> ident \<Rightarrow> string option \<Rightarrow> db \<Rightarrow> db" where
  "end_user_sessions r sub ip s =
     fold (\<lambda>x. endSession r (sess_id x) (Some sub) ip) (filter (\<lambda>x. sess_userId x = sub) (sessions s)) s"

definition logoutByIdToken :: "verifier \<Rightarrow> realm_row \<Rightarrow> string option \<Rightarrow> string option \<Rightarrow> db \<Rightarrow> db" where
  "logoutByIdToken v r ip idTokenHint s =
     (if falsy idTokenHint then s
      else case active_key (realm_id r) s of
             None \<Rightarrow> s
           | Some signingKey \<Rightarrow>
               (case v (the idTokenHint) (sk_publicKey signingKey) of
                  None \<Rightarrow> s
                | Some payload \<Rightarrow>
                    (let sid = str_claim payload ''sid''; sub = str_claim payload ''sub''
                     in if \<not> falsy sid then endSession r (the sid) sub ip s
                        else if \<not> falsy sub then end_user_sessions r (the sub) ip s
                        else s)))"

definition validatePostLogoutRedirectUri ::
  "verifier \<Rightarrow> realm_row \<Rightarrow> string \<Rightarrow> string option \<Rightarrow> db \<Rightarrow> unit result" where
  "validatePostLogoutRedirectUri v r uri idTokenHint s =
     (if falsy idTokenHint then Inl BadRequestException
      else let clientId =
             (case active_key (realm_id r) s of
                None \<Rightarrow> None
              | Some signingKey \<Rightarrow>
                  (case v (the idTokenHint) (sk_publicKey signingKey) of
                     None \<Rightarrow> None
                   | Some p \<Rightarrow>
                       (case str_claim p ''azp'' of
                          Some azp \<Rightarrow> Some azp
                        | None \<Rightarrow> (case p ''aud'' of
                                     Some (VStrs (x # _)) \<Rightarrow> Some x
                                   | Some (VStr x) \<Rightarrow> Some x
                                   | _ \<Rightarrow> None))))
           in if falsy clientId then Inl BadRequestException
              else case client_by_clientId (realm_id r) (the clientId) s of
                     None \<Rightarrow> Inl BadRequestException
                   | Some client \<Rightarrow>
                       (let allowed = (if client_postLogoutRedirectUris client \<noteq> []
                                       then client_postLogoutRedirectUris client else client_redirectUris client)
                        in if matchesRedirectUri uri allowed then Inr () else Inl BadRequestException))"

definition invalidateLoginSession :: "env \<Rightarrow> string \<Rightarrow> db \<Rightarrow> db" where
  "invalidateLoginSession e sessionToken s =
     s\<lparr> loginSessions := tbl_delete (\<lambda>l. ls_tokenHash l = sha256 e sessionToken) (loginSessions s) \<rparr>"

definition BACKCHANNEL_EVENT :: string where
  "BACKCHANNEL_EVENT = ''http://schemas.openid.net/event/backchannel-logout''"

definition handleBackchannelLogout :: "verifier \<Rightarrow> realm_row \<Rightarrow> string \<Rightarrow> db \<Rightarrow> unit result \<times> db" where
  "handleBackchannelLogout v r logoutToken s =
     (case active_key (realm_id r) s of
        None \<Rightarrow> (Inl UnauthorizedException, s)
      | Some signingKey \<Rightarrow>
          (case v logoutToken (sk_publicKey signingKey) of
             None \<Rightarrow> (Inl PlainError, s)
           | Some p \<Rightarrow>
               (if (case p ''events'' of Some (VEvents evs) \<Rightarrow> BACKCHANNEL_EVENT \<notin> set evs | _ \<Rightarrow> True)
                then (Inl BadRequestException, s)
                else let sub = str_claim p ''sub''; sid = str_claim p ''sid''
                     in if falsy sub \<and> falsy sid then (Inl BadRequestException, s)
                        else if \<not> falsy sid then (Inr (), endSession r (the sid) sub None s)
                        else (Inr (), end_user_sessions r (the sub) None s))))"

subsection \<open>User info\<close>

definition userinfo ::
  "verifier \<Rightarrow> env \<Rightarrow> bool \<Rightarrow> realm_row \<Rightarrow> string \<Rightarrow> db \<Rightarrow> claims result \<times> db" where
  "userinfo v e dbUp r accessToken s =
     (case active_key (realm_id r) s of
        None \<Rightarrow> (Inl UnauthorizedException, s)
      | Some signingKey \<Rightarrow>
          (case v accessToken (sk_publicKey signingKey) of
             None \<Rightarrow> (Inl UnauthorizedException, s)
           | Some payload \<Rightarrow>
               (let jti = str_claim payload ''jti'';
                    (revoked, s1) = (if falsy jti then (False, s) else isBlacklisted e dbUp (the jti) s);
                    sid = str_claim payload ''sid''
                in if revoked then (Inl UnauthorizedException, s1)
                   else if \<not> falsy sid \<and> List.find (\<lambda>x. sess_id x = the sid) (sessions s1) = None
                   then (Inl UnauthorizedException, s1)
                   else case str_claim payload ''sub'' of
                          None \<Rightarrow> (Inl PlainError, s1)
                        | Some sub \<Rightarrow>
                            (case user_by_id sub s1 of
                               None \<Rightarrow> (Inl UnauthorizedException, s1)
                             | Some user \<Rightarrow>
                                 (Inr (resolveUserClaims user
                                         (getClaimsForScopes (effective_scopes (str_claim payload ''scope'')))
                                         (getOidcClaimsForUser (user_id user) s1)), s1)))))"

subsection \<open>The endpoints\<close>

text \<open>
  \<open>basic\<close> is the pair of client identifier and secret decoded from a Basic authorization header, \<open>None\<close>
  when there is none or it is malformed.
\<close>

definition authenticateClient ::
  "env \<Rightarrow> realm_row \<Rightarrow> string option \<Rightarrow> string option \<Rightarrow> (string \<times> string) option \<Rightarrow> db \<Rightarrow> string result" where
  "authenticateClient e r clientId clientSecret basic s =
     (let (cId, cSecret) = (if falsy clientId
                            then (case basic of Some (i, x) \<Rightarrow> (Some i, Some x) | None \<Rightarrow> (clientId, clientSecret))
                            else (clientId, clientSecret))
      in if falsy cId then Inl UnauthorizedException
         else case client_by_clientId (realm_id r) (the cId) s of
                None \<Rightarrow> Inl UnauthorizedException
              | Some client \<Rightarrow>
                  (if \<not> client_enabled client then Inl UnauthorizedException
                   else if client_clientType client = CONFIDENTIAL \<and>
                           (falsy cSecret \<or> falsy (client_clientSecret client) \<or>
                            \<not> verifyPassword e (the (client_clientSecret client)) (the cSecret))
                   then Inl UnauthorizedException
                   else Inr (the cId)))"

definition introspect_endpoint ::
  "verifier \<Rightarrow> env \<Rightarrow> bool \<Rightarrow> realm_row \<Rightarrow> string \<Rightarrow> string option \<Rightarrow> string option \<Rightarrow>
   (string \<times> string) option \<Rightarrow> db \<Rightarrow> introspection option result \<times> db" where
  "introspect_endpoint v e dbUp r token clientId clientSecret basic s =
     (case authenticateClient e r clientId clientSecret basic s of
        Inl err \<Rightarrow> (Inl err, s)
      | Inr callerClientId \<Rightarrow>
          (let (result, s1) = introspect v e dbUp r token s
           in case result of
                None \<Rightarrow> (Inr None, s1)
              | Some info \<Rightarrow>
                  (let auds = audiences ((in_claims info)(''azp'' := map_option VStr (in_azp info)))
                   in if auds \<noteq> [] \<and> callerClientId \<notin> set auds then (Inr None, s1)
                      else (Inr (Some info), s1))))"

definition revoke_endpoint ::
  "verifier \<Rightarrow> env \<Rightarrow> bool \<Rightarrow> realm_row \<Rightarrow> string option \<Rightarrow> string option \<Rightarrow> string option \<Rightarrow> string option \<Rightarrow>
   (string \<times> string) option \<Rightarrow> db \<Rightarrow> unit result \<times> db" where
  "revoke_endpoint v e dbUp r token hint clientId clientSecret basic s =
     (if falsy token \<or> js_trim (the token) = [] then (Inl BadRequestException, s)
      else case authenticateClient e r clientId clientSecret basic s of
             Inl err \<Rightarrow> (Inl err, s)
           | Inr callerClientId \<Rightarrow>
               (case assertTokenBelongsToClient v e r (the token) callerClientId hint s of
                  Inl err \<Rightarrow> (Inl err, s)
                | Inr _ \<Rightarrow> (Inr (), revoke v e dbUp r (the token) hint s)))"


subsection \<open>Frames\<close>

text \<open>What the revocation list leaves alone.\<close>

definition same_core :: "db \<Rightarrow> db \<Rightarrow> bool" where
  "same_core s s' \<longleftrightarrow> signingKeys s' = signingKeys s \<and> refreshTokens s' = refreshTokens s \<and>
     sessions s' = sessions s \<and> users s' = users s \<and> clients s' = clients s"

lemma same_core_refl [simp]: "same_core s s"
  by (simp add: same_core_def)

lemma same_core_trans: "same_core s s' \<Longrightarrow> same_core s' s'' \<Longrightarrow> same_core s s''"
  by (simp add: same_core_def)

lemma same_core_redis: "redis_set e k t s = Some s' \<Longrightarrow> same_core s s'"
  by (auto simp: redis_set_def same_core_def split: redis_mode.splits)

lemma same_core_remember: "same_core s (remember_revoked e r s)"
  by (auto simp: remember_revoked_def Let_def nullish_else_def dest: same_core_redis split: option.split)

lemma same_core_fold_remember: "same_core s (fold (remember_revoked e) rs s)"
  by (induction rs arbitrary: s) (auto intro: same_core_trans same_core_remember)

lemma same_core_isBlacklisted: "same_core s (snd (isBlacklisted e dbUp jti s))"
  by (simp add: isBlacklisted_def same_core_remember split: option.split)

lemma same_core_updates:
  "same_core s (s\<lparr> memBlacklist := m \<rparr>)" "same_core s (s\<lparr> revokedTokens := t \<rparr>)" "same_core s (s\<lparr> redisKeys := k \<rparr>)"
  "same_core s (s\<lparr> memBlacklist := m, revokedTokens := t \<rparr>)"
  by (simp_all add: same_core_def)

lemma same_core_blacklistToken: "same_core s (blacklistToken e dbUp jti expiry s)"
proof -
  have "same_core s (persist_revoked dbUp jti expiry s)" by (simp add: persist_revoked_def same_core_updates)
  moreover have "same_core x (memoryFallback_set jti expiry x)" for x
    by (simp add: memoryFallback_set_def same_core_updates)
  ultimately show ?thesis
    by (auto simp: blacklistToken_def Let_def dest: same_core_redis intro: same_core_trans split: option.split)
qed

lemma same_core_bl_apply: "same_core s (bl_apply ev s)"
proof (cases ev)
  case (BlRestart e dbUp)
  then show ?thesis
    using same_core_trans [OF same_core_updates(1) same_core_fold_remember]
    by (simp add: rehydrateFromDatabase_def same_core_updates)
qed (simp_all add: same_core_blacklistToken same_core_isBlacklisted blacklist_cleanup_def Let_def same_core_updates)

lemma same_core_bl_run: "same_core s (bl_run evs s)"
  unfolding bl_run_def by (induction evs arbitrary: s) (auto intro: same_core_trans same_core_bl_apply)

lemma same_core_active_key: "same_core s s' \<Longrightarrow> active_key rid s' = active_key rid s"
  by (simp add: same_core_def active_key_def getActiveSigningKey_def)

lemma same_core_hash: "same_core s s' \<Longrightarrow> refreshTokens s' = refreshTokens s"
  by (simp add: same_core_def)

subsection \<open>Revocation takes effect\<close>

lemma introspect_revoked:
  assumes "active_key (realm_id r) s = Some k" and "v token (sk_publicKey k) = Some p"
    and "str_claim p ''jti'' = Some jti" and "jti \<noteq> []" and "fst (isBlacklisted e dbUp jti s)"
  shows "fst (introspect v e dbUp r token s) = None" and "fst (userinfo v e dbUp r token s) = Inl UnauthorizedException"
  using assms by (auto simp: introspect_def userinfo_def Let_def split_beta)

lemma unverified_refused:
  assumes "active_key (realm_id r) s = Some k" and "v token (sk_publicKey k) = None"
    and "List.find (\<lambda>t. rt_tokenHash t = sha256 e token) (refreshTokens s) = None"
  shows "fst (introspect v e dbUp r token s) = None" and "fst (userinfo v e dbUp r token s) = Inl UnauthorizedException"
  using assms by (simp_all add: introspect_def userinfo_def introspectRefreshToken_def)

lemma revoke_endpoint_ok:
  assumes "revoke_endpoint v e dbUp r (Some token) hint cid csec basic s = (Inr (), s')"
  shows "s' = revoke v e dbUp r token hint s"
  using assms by (auto simp: revoke_endpoint_def split: if_splits sum.splits)

text \<open>A verifier for the witnesses: the text \<open>at\<close> is an access token, \<open>other\<close> one of another client.\<close>

definition sample_payload :: "string \<Rightarrow> claims" where
  "sample_payload cid =
     [''jti'' \<mapsto> VStr ''j1'', ''exp'' \<mapsto> VInt 1300, ''sub'' \<mapsto> VStr ''u1'', ''sid'' \<mapsto> VStr ''s0'',
      ''azp'' \<mapsto> VStr cid, ''scope'' \<mapsto> VStr ''openid'']"

definition sample_verifier :: verifier where
  "sample_verifier token key =
     (if key \<noteq> ''pub'' then None
      else if token = ''at'' then Some (sample_payload ''app'')
      else if token = ''other'' then Some (sample_payload ''another-app'') else None)"

definition tokens_client :: client_row where
  "tokens_client = \<lparr> client_id = ''c1'', client_realmId = ''r1'', client_clientId = ''app'', client_name = None,
     client_clientSecret = None, client_clientType = PUBLIC, client_enabled = True,
     client_requireConsent = False, client_redirectUris = [''https://app/*''], client_grantTypes = [],
     client_requiredAcr = None, client_serviceAccountUserId = None, client_postLogoutRedirectUris = [],
     client_backchannelLogoutUri = Some ''https://app/bc'', client_backchannelLogoutSessionRequired = True,
     client_authFlowId = None \<rparr>"

definition tokens_db :: db where
  "tokens_db = sample_db\<lparr> clients := [tokens_client],
     sessions := [\<lparr> sess_id = ''s0'', sess_userId = ''u1'', sess_ipAddress = None, sess_userAgent = None,
       sess_satisfiedAcr = None, sess_amr = [''pwd''], sess_createdAt = 0, sess_expiresAt = 2000000 \<rparr>],
     refreshTokens := [\<lparr> rt_id = ''t0'', rt_sessionId = ''s0'', rt_tokenHash = ''refresh'', rt_scope = Some ''openid'',
       rt_revoked = False, rt_isOffline = False, rt_clientId = Some ''app'', rt_createdAt = 0,
       rt_expiresAt = 2000000 \<rparr>],
     signingKeys := [\<lparr> sk_realmId = ''r1'', sk_kid = ''k1'', sk_publicKey = ''pub'', sk_privateKey = ''pem'',
       sk_active = True, sk_createdAt = 0 \<rparr>] \<rparr>"



subsection \<open>Logout ends a session\<close>

lemma dispatch_tables [simp]:
  "sessions (dispatchLogoutTokens r u i s) = sessions s" "refreshTokens (dispatchLogoutTokens r u i s) = refreshTokens s"
  "signingKeys (dispatchLogoutTokens r u i s) = signingKeys s" "clients (dispatchLogoutTokens r u i s) = clients s"
  by (simp_all add: dispatchLogoutTokens_def Let_def split: option.split)

lemma recordLoginEvent_tables [simp]:
  "sessions (recordLoginEvent ev s) = sessions s" "refreshTokens (recordLoginEvent ev s) = refreshTokens s"
  "backchannelOutbox (recordLoginEvent ev s) = backchannelOutbox s"
  by (simp_all add: recordLoginEvent_def split: option.split)

lemma filter_update_absent:
  "(\<And>x. q x \<Longrightarrow> \<not> p x \<and> \<not> p (f x)) \<Longrightarrow> filter p (tbl_update q f xs) = filter p xs"
  by (induction xs) auto

lemma endSession_tables:
  assumes "List.find (\<lambda>x. sess_id x = sid) (sessions s) \<noteq> None"
  shows "sessions (endSession r sid u ip s) = filter (\<lambda>x. sess_id x \<noteq> sid) (sessions s)"
    and "refreshTokens (endSession r sid u ip s) = filter (\<lambda>t. rt_sessionId t \<noteq> sid) (refreshTokens s)"
proof -
  have "filter (\<lambda>t. rt_sessionId t \<noteq> sid) (tbl_update (\<lambda>t. rt_sessionId t = sid \<and> \<not> rt_isOffline t)
      (\<lambda>t. t\<lparr> rt_revoked := True \<rparr>) (refreshTokens s)) = filter (\<lambda>t. rt_sessionId t \<noteq> sid) (refreshTokens s)"
    by (rule filter_update_absent) simp
  with assms show "sessions (endSession r sid u ip s) = filter (\<lambda>x. sess_id x \<noteq> sid) (sessions s)"
    and "refreshTokens (endSession r sid u ip s) = filter (\<lambda>t. rt_sessionId t \<noteq> sid) (refreshTokens s)"
    by (auto simp: endSession_def Let_def delete_sessions_def tbl_delete_def)
qed

lemma endSession_outbox:
  assumes "u \<noteq> []" and "active_key (realm_id r) s \<noteq> None"
    and "c \<in> set (clients s)" "client_realmId c = realm_id r" "client_backchannelLogoutUri c = Some uri" "uri \<noteq> []"
  shows "(uri, client_clientId c, u, if client_backchannelLogoutSessionRequired c then Some sid else None)
     \<in> set (backchannelOutbox (endSession r sid (Some u) ip s))"
proof -
  have "active_key (realm_id r) (s\<lparr> refreshTokens := t \<rparr>) = active_key (realm_id r) s" for t
    by (simp add: active_key_def getActiveSigningKey_def)
  moreover have "filter (\<lambda>c. client_realmId c = realm_id r \<and> (\<exists>y. client_backchannelLogoutUri c = Some y)) (clients s) \<noteq> []"
    using assms(3-5) by (auto simp: filter_empty_conv)
  ultimately show ?thesis
    using assms by (force simp: endSession_def Let_def delete_sessions_def dispatchLogoutTokens_def)
qed

lemma session_gone_refused:
  assumes "active_key (realm_id r) s = Some k" and "v token (sk_publicKey k) = Some p"
    and "str_claim p ''sid'' = Some sid" and "sid \<noteq> []"
    and "List.find (\<lambda>x. sess_id x = sid) (sessions s) = None"
  shows "fst (introspect v e dbUp r token s) = None" and "fst (userinfo v e dbUp r token s) = Inl UnauthorizedException"
proof -
  have "sessions (snd (isBlacklisted e dbUp jti s)) = sessions s" for jti
    using same_core_isBlacklisted [of s e dbUp jti] by (simp add: same_core_def)
  with assms show "fst (introspect v e dbUp r token s) = None"
    and "fst (userinfo v e dbUp r token s) = Inl UnauthorizedException"
    by (auto simp: introspect_def userinfo_def Let_def split_beta)
qed

text \<open>
  C15.  Logout with a refresh token ends its session for good.  Exactly that session and its refresh
  tokens are removed, the presented token is inactive afterwards, and so is every access token that
  carries the session: introspection answers inactive and the user-info endpoint 401, for any verifier and
  at any later time while the session is not recreated.  Every client of the realm with a
  back-channel logout address is sent a logout token for the user.
\<close>

theorem logout_ends_session:
  assumes "logout e r ip (Some t) s = (Inr (), s')" and "t \<noteq> []"
    and "List.find (\<lambda>x. rt_tokenHash x = sha256 e t) (refreshTokens s) = Some stored"
    and "distinct (map rt_tokenHash (refreshTokens s))" and "rt_sessionId stored \<noteq> []"
  shows "sessions s' = filter (\<lambda>x. sess_id x \<noteq> rt_sessionId stored) (sessions s)
       \<and> refreshTokens s' = filter (\<lambda>x. rt_sessionId x \<noteq> rt_sessionId stored) (refreshTokens s)
       \<and> introspectRefreshToken e r t s' = None
       \<and> (\<forall>v e' dbUp token k p. active_key (realm_id r) s' = Some k \<and> v token (sk_publicKey k) = Some p
            \<and> str_claim p ''sid'' = Some (rt_sessionId stored) \<longrightarrow>
            fst (introspect v e' dbUp r token s') = None
            \<and> fst (userinfo v e' dbUp r token s') = Inl UnauthorizedException)
       \<and> (\<forall>c uri u. active_key (realm_id r) s \<noteq> None \<and> c \<in> set (clients s) \<and> client_realmId c = realm_id r
            \<and> client_backchannelLogoutUri c = Some uri \<and> uri \<noteq> [] \<and> u \<noteq> []
            \<and> map_option sess_userId (List.find (\<lambda>x. sess_id x = rt_sessionId stored) (sessions s)) = Some u \<longrightarrow>
            (uri, client_clientId c, u,
             if client_backchannelLogoutSessionRequired c then Some (rt_sessionId stored) else None)
            \<in> set (backchannelOutbox s'))"
proof -
  let ?sid = "rt_sessionId stored"
  obtain session where session: "List.find (\<lambda>x. sess_id x = ?sid) (sessions s) = Some session"
    and s': "s' = endSession r ?sid (Some (sess_userId session)) ip s"
    using assms(1-3) by (auto simp: logout_def split: option.splits)
  then have tbl: "sessions s' = filter (\<lambda>x. sess_id x \<noteq> ?sid) (sessions s)"
    "refreshTokens s' = filter (\<lambda>x. rt_sessionId x \<noteq> ?sid) (refreshTokens s)"
    by (auto simp: endSession_tables)
  have "x = stored" if "x \<in> set (refreshTokens s)" "rt_tokenHash x = sha256 e t" for x
    using distinct_id_eq [OF assms(4) that(1), of stored] find_SomeD [OF assms(3)] that by auto
  then have "List.find (\<lambda>x. rt_tokenHash x = sha256 e t) (refreshTokens s') = None"
    unfolding tbl by (auto simp: find_None_iff)
  then have r: "introspectRefreshToken e r t s' = None" by (simp add: introspectRefreshToken_def)
  have gone: "List.find (\<lambda>x. sess_id x = ?sid) (sessions s') = None"
    unfolding tbl by (auto simp: find_None_iff)
  show ?thesis
    using tbl r session_gone_refused [OF _ _ _ assms(5) gone] endSession_outbox session s' by (auto simp del: if_split_mem2)
qed

theorem logout_ends_session_witness:
  "fst (logout sample_env sample_realm None (Some ''refresh'') tokens_db) = Inr ()
   \<and> sessions (snd (logout sample_env sample_realm None (Some ''refresh'') tokens_db)) = []
   \<and> introspectRefreshToken sample_env sample_realm ''refresh''
       (snd (logout sample_env sample_realm None (Some ''refresh'') tokens_db)) = None
   \<and> introspectRefreshToken sample_env sample_realm ''refresh'' tokens_db \<noteq> None"
proof (intro conjI)
  let ?L = "logout sample_env sample_realm None (Some ''refresh'') tokens_db"
  show ok: "fst ?L = Inr ()" by code_simp
  have "List.find (\<lambda>x. rt_tokenHash x = sha256 sample_env ''refresh'') (refreshTokens tokens_db)
      = Some (hd (refreshTokens tokens_db))" by code_simp
  moreover have "distinct (map rt_tokenHash (refreshTokens tokens_db))" by (simp add: tokens_db_def)
  moreover have "?L = (Inr (), snd ?L)" using ok by (simp add: prod_eq_iff)
  ultimately show "sessions (snd ?L) = []" "introspectRefreshToken sample_env sample_realm ''refresh'' (snd ?L) = None"
    using logout_ends_session [of sample_env sample_realm None "''refresh''" tokens_db "snd ?L" "hd (refreshTokens tokens_db)"]
    by (simp_all add: tokens_db_def)
  show "introspectRefreshToken sample_env sample_realm ''refresh'' tokens_db \<noteq> None" by code_simp
qed

subsection \<open>Only the owner of a token\<close>

definition authenticated_client :: "env \<Rightarrow> realm_row \<Rightarrow> string \<Rightarrow> db \<Rightarrow> bool" where
  "authenticated_client e r c s \<longleftrightarrow>
     (\<exists>client. client_by_clientId (realm_id r) c s = Some client \<and> client_enabled client \<and>
        (client_clientType client = CONFIDENTIAL \<longrightarrow>
           (\<exists>hash secret. client_clientSecret client = Some hash \<and> verifyPassword e hash secret)))"

lemma authenticateClient_sound:
  "authenticateClient e r cid csec basic s = Inr c \<Longrightarrow> authenticated_client e r c s"
  by (auto simp: authenticateClient_def authenticated_client_def Let_def split_beta falsy_def
      split: if_splits option.splits)

text \<open>
  A token that names another client: an opaque refresh token stored for it, or a JWT whose authorized
  party (or, without one, whose audience) is not the caller.
\<close>

definition foreign_token :: "verifier \<Rightarrow> env \<Rightarrow> realm_row \<Rightarrow> string \<Rightarrow> string \<Rightarrow> db \<Rightarrow> bool" where
  "foreign_token v e r token c s \<longleftrightarrow>
     (let jwt = Option.bind (active_key (realm_id r) s) (\<lambda>k. v token (sk_publicKey k))
      in case List.find (\<lambda>t. rt_tokenHash t = sha256 e token) (refreshTokens s) of
           Some t \<Rightarrow> jwt = None \<and> \<not> falsy (rt_clientId t) \<and> rt_clientId t \<noteq> Some c
         | None \<Rightarrow> (case jwt of Some p \<Rightarrow> audiences p \<noteq> [] \<and> c \<notin> set (audiences p) | None \<Rightarrow> False))"

lemma audiences_answer [simp]:
  "audiences ((profile_claims p)(''azp'' := map_option VStr (str_claim p ''azp''))) = audiences p"
  by (simp add: audiences_def profile_claims_def str_claim_def split: option.split)

lemma audiences_azp: "c' \<noteq> [] \<Longrightarrow> audiences (m(''azp'' \<mapsto> VStr c')) = [c']"
  by (simp add: audiences_def str_claim_def)

lemma introspect_foreign:
  assumes "foreign_token v e r token c s" and "fst (introspect v e dbUp r token s) = Some info"
  shows "audiences ((in_claims info)(''azp'' := map_option VStr (in_azp info))) \<noteq> []
       \<and> c \<notin> set (audiences ((in_claims info)(''azp'' := map_option VStr (in_azp info))))"
proof -
  obtain k where k: "active_key (realm_id r) s = Some k"
    using assms(2) by (auto simp: introspect_def split: option.splits)
  show ?thesis
  proof (cases "v token (sk_publicKey k)")
    case None
    then have "introspectRefreshToken e r token s = Some info"
      using assms(2) k by (simp add: introspect_def)
    with assms(1) k None show ?thesis
      by (auto simp: foreign_token_def introspectRefreshToken_def falsy_def audiences_azp Let_def
          split: option.splits if_splits)
  next
    case (Some p)
    then have "in_claims info = profile_claims p \<and> in_azp info = str_claim p ''azp''"
      using assms(2) k by (auto simp: introspect_def Let_def split_beta split: if_splits option.splits)
    moreover have "audiences p \<noteq> [] \<and> c \<notin> set (audiences p)"
      using assms(1) k Some by (auto simp: foreign_token_def Let_def split: option.splits)
    ultimately show ?thesis by simp
  qed
qed

lemma revoke_foreign:
  assumes "foreign_token v e r token c s"
  shows "assertTokenBelongsToClient v e r token c hint s = Inl ForbiddenException
       \<or> revoke v e dbUp r token hint s = s"
    and "falsy hint \<Longrightarrow> assertTokenBelongsToClient v e r token c hint s = Inl ForbiddenException"
  using assms
  by (auto simp: foreign_token_def assertTokenBelongsToClient_def revoke_def revoke_access_def Let_def
      hint_allows_def bind_eq_Some_conv split: option.splits)

text \<open>
  C18.  Only the owner learns about or revokes a token.  Whoever does not authenticate as an enabled client
  of the realm (a confidential one with its secret) gets the client error and changes nothing.  An
  authenticated client that presents a token of another client is told that it is inactive, by an
  introspection that changes none of the tables the token lives in, and cannot revoke it under any type
  hint: the state is unchanged, and without a hint the answer is 403.
\<close>

theorem token_ownership:
  "(\<forall>err. authenticateClient e r cid csec basic s = Inl err \<longrightarrow>
      introspect_endpoint v e dbUp r token cid csec basic s = (Inl err, s)
      \<and> snd (revoke_endpoint v e dbUp r (Some token) hint cid csec basic s) = s)
   \<and> (\<forall>c. authenticateClient e r cid csec basic s = Inr c \<longrightarrow>
        authenticated_client e r c s
        \<and> (foreign_token v e r token c s \<longrightarrow>
             fst (introspect_endpoint v e dbUp r token cid csec basic s) = Inr None
             \<and> snd (revoke_endpoint v e dbUp r (Some token) hint cid csec basic s) = s
             \<and> (falsy hint \<and> js_trim token \<noteq> [] \<longrightarrow>
                  fst (revoke_endpoint v e dbUp r (Some token) hint cid csec basic s) = Inl ForbiddenException)))"
proof (intro conjI allI impI)
  fix err assume err: "authenticateClient e r cid csec basic s = Inl err"
  then show "introspect_endpoint v e dbUp r token cid csec basic s = (Inl err, s)"
    by (simp add: introspect_endpoint_def)
  from err show "snd (revoke_endpoint v e dbUp r (Some token) hint cid csec basic s) = s"
    by (simp add: revoke_endpoint_def)
next
  fix c assume c: "authenticateClient e r cid csec basic s = Inr c"
  then show "authenticated_client e r c s" by (rule authenticateClient_sound)
  assume f: "foreign_token v e r token c s"
  show "fst (introspect_endpoint v e dbUp r token cid csec basic s) = Inr None"
    using introspect_foreign [OF f, of dbUp] c
    by (auto simp: introspect_endpoint_def Let_def split_beta split: option.splits)
  show "snd (revoke_endpoint v e dbUp r (Some token) hint cid csec basic s) = s"
    using revoke_foreign(1) [OF f, of hint dbUp] c by (auto simp: revoke_endpoint_def split: sum.splits)
  assume "falsy hint \<and> js_trim token \<noteq> []"
  then show "fst (revoke_endpoint v e dbUp r (Some token) hint cid csec basic s) = Inl ForbiddenException"
    using revoke_foreign(2) [OF f, of hint] c by (cases token) (auto simp: revoke_endpoint_def falsy_def js_trim_def)
qed

theorem token_ownership_witness:
  "authenticateClient sample_env sample_realm (Some ''app'') None None tokens_db = Inr ''app''
   \<and> foreign_token sample_verifier sample_env sample_realm ''other'' ''app'' tokens_db
   \<and> fst (introspect sample_verifier sample_env True sample_realm ''other'' tokens_db) \<noteq> None
   \<and> fst (introspect_endpoint sample_verifier sample_env True sample_realm ''other'' (Some ''app'') None None tokens_db)
      = Inr None
   \<and> fst (revoke_endpoint sample_verifier sample_env True sample_realm (Some ''other'') None (Some ''app'') None None
       tokens_db) = Inl ForbiddenException"
proof -
  have auth: "authenticateClient sample_env sample_realm (Some ''app'') None None tokens_db = Inr ''app''" by code_simp
  have f: "foreign_token sample_verifier sample_env sample_realm ''other'' ''app'' tokens_db" by code_simp
  have i: "fst (introspect sample_verifier sample_env True sample_realm ''other'' tokens_db) \<noteq> None" by code_simp
  have "falsy None \<and> js_trim ''other'' \<noteq> []" by code_simp
  then show ?thesis
    using token_ownership [of sample_env sample_realm "Some ''app''" None None tokens_db sample_verifier True
        "''other''" None] auth f i by auto
qed

end
