(* ===== verification/Consent.thy ===== *)
theory Consent
  imports Mfa "HOL-Library.Char_ord" "HOL-Library.List_Lexorder"
begin

text \<open>
  \<open>src/src/consent/consent.service.ts\<close>: the consents users have given to clients, the pending consent
  requests behind the consent page, the history of consent actions with the categories of the scopes,
  and the check whether a policy changed since the last consent.  A request's identifier and token
  are arguments.  The metadata of a history entry is an object whose values are lists of strings;
  no caller passes metadata of its own.
\<close>

subsection \<open>Consents\<close>

definition consent_of :: "ident \<Rightarrow> ident \<Rightarrow> db \<Rightarrow> user_consent_row option" where
  "consent_of userId clientId s =
     List.find (\<lambda>c. uco_userId c = userId \<and> uco_clientId c = clientId) (userConsents s)"

definition hasConsent :: "ident \<Rightarrow> ident \<Rightarrow> string list \<Rightarrow> db \<Rightarrow> bool" where
  "hasConsent userId clientId requestedScopes s =
     (case consent_of userId clientId s of
        None \<Rightarrow> False
      | Some consent \<Rightarrow> list_all (\<lambda>scope. scope \<in> set (uco_scopes consent)) requestedScopes)"

subsection \<open>Pending requests\<close>

definition storeConsentRequest ::
  "env \<Rightarrow> ident \<Rightarrow> string \<Rightarrow> pending_data \<Rightarrow> db \<Rightarrow> string \<times> db" where
  "storeConsentRequest e newId token data s =
     (token, s\<lparr> pendingActions := pendingActions s @
        [\<lparr> pa_id = newId, pa_tokenHash = sha256 e token, pa_type = ''consent_request'', pa_data = data,
           pa_attempts = 0, pa_expiresAt = now e + 10 * 60 * 1000, pa_createdAt = now e \<rparr>] \<rparr>)"

definition getConsentRequest :: "env \<Rightarrow> string \<Rightarrow> db \<Rightarrow> pending_data option \<times> db" where
  "getConsentRequest e token s =
     (case pending_by_hash (sha256 e token) s of
        None \<Rightarrow> (None, s)
      | Some action \<Rightarrow>
          if pa_type action \<noteq> ''consent_request'' then (None, s)
          else if pa_expiresAt action < now e then (None, delete_pending (pa_id action) s)
          else (Some (pa_data action), delete_pending (pa_id action) s))"

definition cleanupExpiredConsentRequests :: "env \<Rightarrow> db \<Rightarrow> db" where
  "cleanupExpiredConsentRequests e s =
     s\<lparr> pendingActions := tbl_delete (\<lambda>a. pa_type a = ''consent_request'' \<and> pa_expiresAt a < now e)
          (pendingActions s) \<rparr>"

subsection \<open>History\<close>

definition governs :: "ident \<Rightarrow> string list \<Rightarrow> consent_category_row \<Rightarrow> bool" where
  "governs realmId scopes c \<longleftrightarrow> cc_realmId c = realmId \<and> cc_enabled c \<and>
     (list_ex (\<lambda>x. x \<in> set scopes) (cc_scopes c) \<or> (cc_scopes c = [] \<and> cc_key c \<in> set scopes))"

text \<open>The keys come back in ascending order; which order it is does not matter to any caller.\<close>

definition resolveCategoryKeys :: "ident \<Rightarrow> string list \<Rightarrow> db \<Rightarrow> string list" where
  "resolveCategoryKeys realmId scopes s =
     (if scopes = [] then []
      else sort (map cc_key (filter (governs realmId scopes) (consentCategories s))))"

record consent_context =
  cx_ipAddress :: "string option"
  cx_userAgent :: "string option"

definition recordConsentHistory ::
  "env \<Rightarrow> ident \<Rightarrow> ident \<Rightarrow> ident \<Rightarrow> string \<Rightarrow> string list \<Rightarrow> string option \<Rightarrow> consent_context option \<Rightarrow> db \<Rightarrow> db" where
  "recordConsentHistory e realmId userId clientId action scopes policyVersion context s =
     (let categoryKeys = resolveCategoryKeys realmId scopes s
      in s\<lparr> consentHistory := consentHistory s @
           [\<lparr> ch_userId = userId, ch_clientId = clientId, ch_action = action, ch_scopes = scopes,
              ch_policyVersion = policyVersion, ch_ipAddress = Option.bind context cx_ipAddress,
              ch_userAgent = Option.bind context cx_userAgent,
              ch_metadata = (if categoryKeys \<noteq> [] then Some [(''categoryKeys'', categoryKeys)] else None),
              ch_createdAt = now e \<rparr>] \<rparr>)"

definition grantConsent ::
  "env \<Rightarrow> ident \<Rightarrow> ident \<Rightarrow> ident \<Rightarrow> string list \<Rightarrow> string option \<Rightarrow> consent_context option \<Rightarrow> db \<Rightarrow> db" where
  "grantConsent e realmId userId clientId scopes policyVersion context s =
     (let existing = consent_of userId clientId s;
          s1 = (case existing of
                  None \<Rightarrow> s\<lparr> userConsents := userConsents s @
                            [\<lparr> uco_userId = userId, uco_clientId = clientId, uco_scopes = scopes \<rparr>] \<rparr>
                | Some _ \<Rightarrow> s\<lparr> userConsents :=
                              tbl_update (\<lambda>c. uco_userId c = userId \<and> uco_clientId c = clientId)
                                (\<lambda>c. c\<lparr> uco_scopes := scopes \<rparr>) (userConsents s) \<rparr>)
      in recordConsentHistory e realmId userId clientId
           (if existing = None then ''granted'' else ''updated'') scopes policyVersion context s1)"

definition revokeConsent ::
  "env \<Rightarrow> ident \<Rightarrow> ident \<Rightarrow> ident \<Rightarrow> consent_context option \<Rightarrow> db \<Rightarrow> db" where
  "revokeConsent e realmId userId clientId context s =
     (let s1 = s\<lparr> userConsents := tbl_delete (\<lambda>c. uco_userId c = userId \<and> uco_clientId c = clientId) (userConsents s) \<rparr>
      in case consent_of userId clientId s of
           None \<Rightarrow> s1
         | Some c \<Rightarrow> recordConsentHistory e realmId userId clientId ''revoked'' (uco_scopes c) None context s1)"

definition getConsentHistory :: "ident \<Rightarrow> ident \<Rightarrow> nat \<Rightarrow> nat \<Rightarrow> db \<Rightarrow> consent_history_row list" where
  "getConsentHistory userId clientId offset limit s =
     take limit (drop offset (order_desc ch_createdAt
       (filter (\<lambda>h. ch_userId h = userId \<and> ch_clientId h = clientId) (consentHistory s))))"

subsection \<open>Consent again\<close>

text \<open>
  The active policy of a category: the most recently published one.  In PostgreSQL a missing date sorts
  first in descending order.
\<close>

definition published :: "consent_policy_row \<Rightarrow> millis \<times> millis" where
  "published p = (case cp_publishedAt p of None \<Rightarrow> (0, 0) | Some t \<Rightarrow> (1, - t))"

definition activePolicy :: "consent_category_row \<Rightarrow> consent_policy_row option" where
  "activePolicy c =
     (case sort_key (\<lambda>p. fst (published p)) (sort_key (\<lambda>p. snd (published p)) (filter cp_isActive (cc_policies c))) of
        [] \<Rightarrow> None | p # _ \<Rightarrow> Some p)"

definition getLatestPolicyVersion :: "string \<Rightarrow> db \<Rightarrow> string option" where
  "getLatestPolicyVersion categoryKey s =
     Option.bind (List.find (\<lambda>c. cc_key c = categoryKey) (consentCategories s))
       (\<lambda>c. map_option cp_version (activePolicy c))"

definition entry_keys :: "consent_history_row \<Rightarrow> string list" where
  "entry_keys h = (case ch_metadata h of None \<Rightarrow> [] | Some m \<Rightarrow> nullish_else (map_of m ''categoryKeys'') [])"

definition lastAccepted :: "ident \<Rightarrow> ident \<Rightarrow> string \<Rightarrow> db \<Rightarrow> string option" where
  "lastAccepted userId clientId key s =
     Option.bind (List.find (\<lambda>h. key \<in> set (entry_keys h))
       (order_desc ch_createdAt (filter (\<lambda>h. ch_userId h = userId \<and> ch_clientId h = clientId \<and>
          ch_policyVersion h \<noteq> None) (consentHistory s)))) ch_policyVersion"

definition requiresReConsent :: "ident \<Rightarrow> ident \<Rightarrow> ident \<Rightarrow> db \<Rightarrow> bool" where
  "requiresReConsent userId clientId realmId s =
     (if consent_of userId clientId s = None then False
      else list_ex (\<lambda>c. case activePolicy c of
                     None \<Rightarrow> False
                   | Some p \<Rightarrow>
                       \<not> falsy (lastAccepted userId clientId (cc_key c) s) \<and>
                       lastAccepted userId clientId (cc_key c) s \<noteq> Some (cp_version p))
             (filter (\<lambda>c. cc_realmId c = realmId \<and> cc_enabled c) (consentCategories s)))"

subsection \<open>Laws\<close>

lemma hasConsent_grant:
  "hasConsent u c scopes (grantConsent e r u c scopes pv cx s)"
proof -
  have "List.find (\<lambda>x. uco_userId x = u \<and> uco_clientId x = c)
      (tbl_update (\<lambda>x. uco_userId x = u \<and> uco_clientId x = c) (\<lambda>x. x\<lparr> uco_scopes := scopes \<rparr>) xs)
    = map_option (\<lambda>x. x\<lparr> uco_scopes := scopes \<rparr>) (List.find (\<lambda>x. uco_userId x = u \<and> uco_clientId x = c) xs)" for xs :: "user_consent_row list"
    by (induction xs) auto
  moreover have "List.find P xs = None \<Longrightarrow> P y \<Longrightarrow> List.find P (xs @ [y]) = Some y" for P :: "user_consent_row \<Rightarrow> bool" and xs y
    by (induction xs) (auto split: if_splits)
  ultimately show ?thesis
    by (auto simp: hasConsent_def grantConsent_def consent_of_def recordConsentHistory_def Let_def list_all_iff
        split: option.splits)
qed

lemma hasConsent_revoke: "\<not> hasConsent u c scopes (revokeConsent e r u c cx s)"
proof -
  have "List.find (\<lambda>x. uco_userId x = u \<and> uco_clientId x = c)
      (tbl_delete (\<lambda>x. uco_userId x = u \<and> uco_clientId x = c) xs) = None" for xs :: "user_consent_row list"
    by (induction xs) (auto simp: tbl_delete_def)
  then show ?thesis
    by (simp add: hasConsent_def revokeConsent_def consent_of_def recordConsentHistory_def Let_def split: option.split)
qed

lemma getConsentRequest_once:
  assumes "getConsentRequest e token s = (Some d, s')" and "distinct (map pa_tokenHash (pendingActions s))"
    and "sha256 e' token = sha256 e token"
  shows "fst (getConsentRequest e' token s') = None"
proof -
  obtain a where a: "pending_by_hash (sha256 e token) s = Some a" and s': "s' = delete_pending (pa_id a) s"
    using assms(1) by (auto simp: getConsentRequest_def split: option.splits if_splits)
  have mem: "a \<in> set (pendingActions s)" "pa_tokenHash a = sha256 e token"
    using find_SomeD [of _ _ a] a by (auto simp: pending_by_hash_def)
  have "x = a" if "x \<in> set (pendingActions s)" "pa_tokenHash x = sha256 e token" for x
    using distinct_id_eq [OF assms(2) that(1) mem(1)] that(2) mem(2) by simp
  then have "pending_by_hash (sha256 e token) s' = None"
    by (auto simp: s' pending_by_hash_def delete_pending_def tbl_delete_def find_None_iff)
  then show ?thesis using assms(3) by (simp add: getConsentRequest_def)
qed

end
