(* ===== verification/Login.thy ===== *)
theory Login
  imports Auth Js_Value
begin

text \<open>
  \<open>src/src/login/login.service.ts\<close>: the check of a username and password at the login page, the browser
  (single sign-on) sessions, and \<open>src/src/migration/password-migration.service.ts\<close>, which verifies and
  upgrades the hashes of imported users.  \<open>src/src/verification/verification.service.ts\<close> keeps the one-time
  tokens of e-mail links and of the forced password change.  \<open>login_draws\<close> collects the random
  values and generated identifiers of one browser request.
\<close>

record login_draws =
  ld_userId :: ident
  ld_newHash :: string
  ld_sessionId :: ident
  ld_sessionToken :: string
  ld_challengeId :: ident
  ld_challengeToken :: string
  ld_enrollmentId :: ident
  ld_enrollmentToken :: string
  ld_consentId :: ident
  ld_consentToken :: string
  ld_codeId :: ident
  ld_code :: string
  ld_changeId :: ident
  ld_changeToken :: string

subsection \<open>Migrated passwords\<close>

definition verifyPbkdf2 :: "env \<Rightarrow> string \<Rightarrow> string \<Rightarrow> bool" where
  "verifyPbkdf2 e plaintext storedHash =
     (case split_on (CHR ''$'') storedHash of
        [iterations, salt, hash] \<Rightarrow>
          (case parseInt iterations of None \<Rightarrow> False | Some n \<Rightarrow> pbkdf2_matches e plaintext n salt hash)
      | _ \<Rightarrow>
          (case split_on (CHR '':'') storedHash of
             [salt, hash] \<Rightarrow> pbkdf2_matches e plaintext 27500 salt hash
           | _ \<Rightarrow> False))"

definition verifyMigratedPassword :: "env \<Rightarrow> string \<Rightarrow> string \<Rightarrow> string \<Rightarrow> bool" where
  "verifyMigratedPassword e plaintext storedHash algorithm =
     (if algorithm = ''argon2'' then verifyPassword e storedHash plaintext
      else if algorithm = ''bcrypt'' then bcrypt_compare e plaintext storedHash
      else if algorithm = ''pbkdf2-sha256'' then verifyPbkdf2 e plaintext storedHash
      else False)"

text \<open>\<open>newHash\<close> is the salted hash that \<open>hashPassword\<close> draws; a password over the limit is refused.\<close>

definition rehashToArgon2 :: "ident \<Rightarrow> string \<Rightarrow> string \<Rightarrow> db \<Rightarrow> unit result \<times> db" where
  "rehashToArgon2 userId newHash plaintext s =
     (if length plaintext > MAX_PASSWORD_LENGTH then (Inl UnprocessableEntityException, s)
      else if user_by_id userId s = None then (Inl PrismaNotFound, s)
      else (Inr (), update_user userId (\<lambda>u. u\<lparr> user_passwordHash := Some newHash,
                                              user_passwordAlgorithm := ''argon2'' \<rparr>) s))"

subsection \<open>Credentials\<close>

definition needs_migration :: "env \<Rightarrow> user_row \<Rightarrow> string \<Rightarrow> bool" where
  "needs_migration e u password \<longleftrightarrow>
     \<not> verifyPassword e (the (user_passwordHash u)) password \<and>
     user_passwordAlgorithm u \<noteq> [] \<and> user_passwordAlgorithm u \<noteq> ''argon2'' \<and>
     verifyMigratedPassword e password (the (user_passwordHash u)) (user_passwordAlgorithm u)"

definition refuse_credentials ::
  "env \<Rightarrow> realm_row \<Rightarrow> user_row \<Rightarrow> string option \<Rightarrow> db \<Rightarrow> user_row result \<times> db" where
  "refuse_credentials e r u ip s =
     and_then (recordFailure e r (user_id u) ip s) (\<lambda>_ s1. (Inl UnauthorizedException, s1))"

definition accept_credentials :: "realm_row \<Rightarrow> user_row \<Rightarrow> db \<Rightarrow> user_row result \<times> db" where
  "accept_credentials r u s = and_then (resetFailures (realm_id r) (user_id u) s) (\<lambda>_ s1. (Inr u, s1))"

definition validateCredentials ::
  "env \<Rightarrow> login_draws \<Rightarrow> realm_row \<Rightarrow> string \<Rightarrow> string \<Rightarrow> string option \<Rightarrow> db \<Rightarrow> user_row result \<times> db" where
  "validateCredentials e d r username password ip s =
     (case user_by_username (realm_id r) username s of
        Some u \<Rightarrow>
          if \<not> falsy (user_federationLink u) then
            if \<not> user_enabled u then (Inl UnauthorizedException, s)
            else if locked (checkLocked e r u) then (Inl UnauthorizedException, s)
            else and_then (authenticateViaFederation e (ld_userId d) (realm_id r) username password s)
                   (\<lambda>res s1. if res \<noteq> None then accept_credentials r u s1 else refuse_credentials e r u ip s1)
          else if user_enabled u \<and> \<not> falsy (user_passwordHash u) then
            if locked (checkLocked e r u) then (Inl UnauthorizedException, s)
            else if verifyPassword e (the (user_passwordHash u)) password then accept_credentials r u s
            else if needs_migration e u password
            then and_then (rehashToArgon2 (user_id u) (ld_newHash d) password s)
                   (\<lambda>_ s1. accept_credentials r u s1)
            else refuse_credentials e r u ip s
          else (Inl UnauthorizedException, s)
      | None \<Rightarrow>
          and_then (authenticateViaFederation e (ld_userId d) (realm_id r) username password s)
            (\<lambda>res s1. if falsy res then (Inl UnauthorizedException, s1)
                      else case user_by_id (the res) s1 of
                             Some importedUser \<Rightarrow> (Inr importedUser, s1)
                           | None \<Rightarrow> (Inl UnauthorizedException, s1)))"

subsection \<open>Browser sessions\<close>

definition active_login_sessions :: "env \<Rightarrow> realm_row \<Rightarrow> ident \<Rightarrow> db \<Rightarrow> login_session_row list" where
  "active_login_sessions e r uid s =
     order_asc ls_createdAt
       (filter (\<lambda>l. ls_userId l = uid \<and> ls_realmId l = realm_id r \<and> ls_expiresAt l > now e) (loginSessions s))"

definition evict_login_sessions :: "env \<Rightarrow> realm_row \<Rightarrow> ident \<Rightarrow> db \<Rightarrow> db" where
  "evict_login_sessions e r uid s =
     (let maxSessions = realm_maxSessionsPerUser r; active = active_login_sessions e r uid s
      in if maxSessions > 0 \<and> int (length active) \<ge> maxSessions
         then let toDelete = map ls_id (take (nat (int (length active) - maxSessions + 1)) active)
              in s\<lparr> loginSessions := tbl_delete (\<lambda>l. ls_id l \<in> set toDelete) (loginSessions s) \<rparr>
         else s)"

definition createLoginSession ::
  "env \<Rightarrow> login_draws \<Rightarrow> realm_row \<Rightarrow> user_row \<Rightarrow> string option \<Rightarrow> string option \<Rightarrow> string option \<Rightarrow>
   string option \<Rightarrow> string list option \<Rightarrow> db \<Rightarrow> string \<times> db" where
  "createLoginSession e d r u ip userAgent existingSessionToken acr amr s =
     (let s1 = (if falsy existingSessionToken then s
                else s\<lparr> loginSessions := tbl_delete (\<lambda>l. ls_tokenHash l = sha256 e (the existingSessionToken))
                                           (loginSessions s) \<rparr>);
          s2 = evict_login_sessions e r (user_id u) s1
      in (ld_sessionToken d,
          s2\<lparr> loginSessions := loginSessions s2 @
               [\<lparr> ls_id = ld_sessionId d, ls_userId = user_id u, ls_realmId = realm_id r,
                  ls_tokenHash = sha256 e (ld_sessionToken d), ls_ipAddress = ip, ls_userAgent = userAgent,
                  ls_satisfiedAcr = acr, ls_amr = nullish_else amr [], ls_createdAt = now e,
                  ls_expiresAt = now e + realm_refreshTokenLifespan r * 1000 \<rparr>] \<rparr>))"

definition login_session_by_token :: "env \<Rightarrow> string \<Rightarrow> db \<Rightarrow> login_session_row option" where
  "login_session_by_token e sessionToken s =
     List.find (\<lambda>l. ls_tokenHash l = sha256 e sessionToken) (loginSessions s)"

definition sessionSatisfiesMfa :: "env \<Rightarrow> login_session_row \<Rightarrow> db \<Rightarrow> bool" where
  "sessionSatisfiesMfa e l s \<longleftrightarrow>
     (if acrStrength (ls_satisfiedAcr l) \<ge> acrStrength (Some ACR_MFA) then True
      else let stepUps = filter (\<lambda>x. su_sessionId x = ls_id l \<and> su_expiresAt x > now e) (stepUpRecords s);
               acr = strongestAcr (ls_satisfiedAcr l # map (\<lambda>x. Some (su_acrLevel x)) stepUps)
           in acrStrength (Some acr) \<ge> acrStrength (Some ACR_MFA))"

text \<open>A session's user exists: deleting a user deletes the sessions (a foreign key of the schema).\<close>

definition validateLoginSession :: "env \<Rightarrow> realm_row \<Rightarrow> string \<Rightarrow> db \<Rightarrow> user_row option" where
  "validateLoginSession e r sessionToken s =
     (case login_session_by_token e sessionToken s of
        None \<Rightarrow> None
      | Some session \<Rightarrow>
          if ls_realmId session \<noteq> realm_id r \<or> ls_expiresAt session < now e then None
          else case user_by_id (ls_userId session) s of
                 None \<Rightarrow> None
               | Some user \<Rightarrow>
                   if \<not> user_enabled user then None
                   else if realm_mfaRequired r \<and> \<not> sessionSatisfiesMfa e session s then None
                   else Some user)"

subsection \<open>One-time tokens\<close>

definition createTokenWithHash :: "env \<Rightarrow> ident \<Rightarrow> ident \<Rightarrow> string \<Rightarrow> int \<Rightarrow> string \<Rightarrow> db \<Rightarrow> db" where
  "createTokenWithHash e newId userId tokenType expiresInSeconds tokenHash s =
     s\<lparr> verificationTokens := tbl_delete (\<lambda>t. vt_userId t = userId \<and> vt_type t = tokenType) (verificationTokens s) @
          [\<lparr> vt_id = newId, vt_tokenHash = tokenHash, vt_userId = userId, vt_type = tokenType,
             vt_expiresAt = now e + expiresInSeconds * 1000 \<rparr>] \<rparr>"

definition createToken :: "env \<Rightarrow> ident \<Rightarrow> string \<Rightarrow> ident \<Rightarrow> string \<Rightarrow> int \<Rightarrow> db \<Rightarrow> string \<times> db" where
  "createToken e newId rawToken userId tokenType expiresInSeconds s =
     (rawToken, createTokenWithHash e newId userId tokenType expiresInSeconds (sha256 e rawToken) s)"

definition token_row :: "string \<Rightarrow> db \<Rightarrow> verification_token_row option" where
  "token_row h s = List.find (\<lambda>t. vt_tokenHash t = h) (verificationTokens s)"

definition delete_token :: "ident \<Rightarrow> db \<Rightarrow> db" where
  "delete_token i s = s\<lparr> verificationTokens := tbl_delete (\<lambda>t. vt_id t = i) (verificationTokens s) \<rparr>"

definition validateToken :: "env \<Rightarrow> string \<Rightarrow> string \<Rightarrow> db \<Rightarrow> ident option \<times> db" where
  "validateToken e rawToken tokenType s =
     (case token_row (sha256 e rawToken) s of
        None \<Rightarrow> (None, s)
      | Some t \<Rightarrow>
          if vt_type t \<noteq> tokenType \<or> vt_expiresAt t < now e then (None, delete_token (vt_id t) s)
          else (Some (vt_userId t), delete_token (vt_id t) s))"

end
