(* ===== verification/OAuth.thy ===== *)
theory OAuth
  imports Consent Login Redirect_Uri
begin

text \<open>
  The authorization endpoint: \<open>src/src/oauth/oauth.service.ts\<close> (validation of a request, issue of an
  authorization code, clean-up) and \<open>src/src/oauth/oauth.controller.ts\<close> (single sign-on from the session
  cookie, prompt, step-up, consent, the way to the login page).  A query is a list of names and values
  without repeated names.  A response is the page the browser is sent to; for a client it is the
  redirect URI with the parameters set on it.
\<close>

type_synonym params = "(string \<times> string) list"

datatype browser_page =
    LoginPage params
  | ClientRedirect string params
  | StepUpPage string string params
  | ConsentPage string
  | AccountPage
  | TotpPage params
  | EnrolmentPage
  | ChangePasswordPage params
  | ErrorPage app_error

subsection \<open>Requests\<close>

definition validateAuthRequest :: "realm_row \<Rightarrow> params \<Rightarrow> db \<Rightarrow> client_row result" where
  "validateAuthRequest r params s =
     (let p = map_of params in
      if p ''response_type'' \<noteq> Some ''code'' then Inl BadRequestException
      else if falsy (p ''client_id'') \<or> falsy (p ''redirect_uri'') then Inl BadRequestException
      else case client_by_clientId (realm_id r) (the (p ''client_id'')) s of
             None \<Rightarrow> Inl NotFoundException
           | Some client \<Rightarrow>
               if \<not> client_enabled client then Inl NotFoundException
               else if \<not> matchesRedirectUri (the (p ''redirect_uri'')) (client_redirectUris client)
               then Inl BadRequestException
               else if ''authorization_code'' \<notin> set (client_grantTypes client) then Inl BadRequestException
               else if \<not> falsy (p ''code_challenge_method'') \<and> p ''code_challenge_method'' \<noteq> Some ''S256''
               then Inl BadRequestException
               else if client_clientType client = PUBLIC \<and> falsy (p ''code_challenge'')
               then Inl BadRequestException
               else Inr client)"

text \<open>A JavaScript \<open>Set\<close> as the list of its members in insertion order.\<close>

definition set_add :: "string \<Rightarrow> string list \<Rightarrow> string list" where
  "set_add x xs = (if x \<in> set xs then xs else xs @ [x])"

definition scope_names :: "(ident \<times> ident) list \<Rightarrow> ident \<Rightarrow> db \<Rightarrow> string list" where
  "scope_names links clientDbId s =
     map cs_name (concat (map (\<lambda>(c, i). if c = clientDbId then filter (\<lambda>x. cs_id x = i) (clientScopes s) else []) links))"

definition getClientEffectiveScopes :: "ident \<Rightarrow> string list \<Rightarrow> db \<Rightarrow> string list" where
  "getClientEffectiveScopes clientDbId requestedScopes s =
     (let defaultNames = scope_names (clientDefaultScopes s) clientDbId s;
          optionalNames = scope_names (clientOptionalScopes s) clientDbId s
      in fold (\<lambda>x eff. if x \<in> set optionalNames then set_add x eff else eff) requestedScopes
           (fold set_add defaultNames []))"

definition issued_scope :: "client_row \<Rightarrow> string option \<Rightarrow> db \<Rightarrow> string option" where
  "issued_scope client scope s =
     (let effectiveScopes = getClientEffectiveScopes (client_id client) (parseAndValidate scope) s
      in if effectiveScopes \<noteq> [] then Some (scopes_toString effectiveScopes) else scope)"

text \<open>The context that authentication delivered: \<open>SatisfiedAuthContext\<close>.\<close>

record auth_context =
  ctx_acr :: "string option"
  ctx_amr :: "string list option"

definition code_row ::
  "env \<Rightarrow> login_draws \<Rightarrow> client_row \<Rightarrow> user_row \<Rightarrow> params \<Rightarrow> auth_context \<Rightarrow> db \<Rightarrow> auth_code_row" where
  "code_row e d client u params ctx s =
     (let p = map_of params in
      \<lparr> ac_id = ld_codeId d, ac_code = ld_code d, ac_clientId = client_id client, ac_userId = user_id u,
        ac_redirectUri = the (p ''redirect_uri''), ac_scope = issued_scope client (p ''scope'') s,
        ac_codeChallenge = p ''code_challenge'', ac_codeChallengeMethod = p ''code_challenge_method'',
        ac_nonce = p ''nonce'', ac_acrValues = p ''acr_values'', ac_satisfiedAcr = ctx_acr ctx,
        ac_amr = nullish_else (ctx_amr ctx) [], ac_used = False, ac_expiresAt = now e + 60 * 1000 \<rparr>)"

definition with_state :: "params \<Rightarrow> params \<Rightarrow> params" where
  "with_state params extra =
     (if falsy (map_of params ''state'') then extra else extra @ [(''state'', the (map_of params ''state''))])"

definition authorizeWithUser ::
  "env \<Rightarrow> login_draws \<Rightarrow> realm_row \<Rightarrow> user_row \<Rightarrow> params \<Rightarrow> auth_context \<Rightarrow> db \<Rightarrow> browser_page result \<times> db" where
  "authorizeWithUser e d r u params ctx s =
     and_then (validateAuthRequest r params s, s)
       (\<lambda>client s.
          let redirectUri = the (map_of params ''redirect_uri'');
              s1 = s\<lparr> authorizationCodes := authorizationCodes s @ [code_row e d client u params ctx s] \<rparr>
          in if valid_url e redirectUri
             then (Inr (ClientRedirect redirectUri (with_state params [(''code'', ld_code d)])), s1)
             else (Inl TypeError, s1))"

definition cleanupExpiredCodes :: "env \<Rightarrow> db \<Rightarrow> db" where
  "cleanupExpiredCodes e s =
     s\<lparr> authorizationCodes := tbl_delete (\<lambda>a. ac_expiresAt a < now e) (authorizationCodes s) \<rparr>"

subsection \<open>The endpoint\<close>

definition OAUTH_PARAM_ALLOWLIST :: "string list" where
  "OAUTH_PARAM_ALLOWLIST =
     [''client_id'', ''redirect_uri'', ''response_type'', ''scope'', ''state'', ''nonce'', ''code_challenge'',
      ''code_challenge_method'', ''prompt'', ''acr_values'', ''login_hint'']"

definition login_page :: "params \<Rightarrow> browser_page" where
  "login_page query = LoginPage (filter (\<lambda>(k, v). v \<noteq> [] \<and> k \<in> set OAUTH_PARAM_ALLOWLIST) query)"

definition resolveRequiredAcr :: "string option \<Rightarrow> string option \<Rightarrow> string option" where
  "resolveRequiredAcr requestedAcr clientAcr =
     (if falsy requestedAcr \<and> falsy clientAcr then None
      else if falsy requestedAcr then clientAcr
      else if falsy clientAcr then requestedAcr
      else if acrStrength requestedAcr \<ge> acrStrength clientAcr then requestedAcr else clientAcr)"

definition requested_acr :: "params \<Rightarrow> string option" where
  "requested_acr query =
     (if falsy (map_of query ''acr_values'') then None
      else Some (hd (split_on (CHR '' '') (the (map_of query ''acr_values'')))))"

definition amrForSessionAcr :: "string \<Rightarrow> string list" where
  "amrForSessionAcr sessionAcr =
     (if satisfiesAcr sessionAcr ACR_WEBAUTHN then [''hwk'']
      else if satisfiesAcr sessionAcr ACR_MFA then [''pwd'', ''otp'']
      else [''pwd''])"

definition session_acr :: "env \<Rightarrow> login_session_row option \<Rightarrow> db \<Rightarrow> string" where
  "session_acr e loginSession s =
     (case loginSession of
        Some l \<Rightarrow> getLoginSessionAcr e (ls_id l) (ls_satisfiedAcr l) s
      | None \<Rightarrow> ACR_PASSWORD)"

definition sso_context :: "login_session_row option \<Rightarrow> string \<Rightarrow> auth_context" where
  "sso_context loginSession sessionAcr =
     \<lparr> ctx_acr = Some sessionAcr,
       ctx_amr = Some (case loginSession of
                         Some l \<Rightarrow> if ls_amr l \<noteq> [] \<and> ls_satisfiedAcr l = Some sessionAcr then ls_amr l
                                   else amrForSessionAcr sessionAcr
                       | None \<Rightarrow> amrForSessionAcr sessionAcr) \<rparr>"

definition requested_scopes :: "params \<Rightarrow> string list" where
  "requested_scopes query =
     filter (\<lambda>x. x \<noteq> []) (split_on (CHR '' '') (nullish_else (map_of query ''scope'') ''openid''))"

text \<open>The consent step and the issue of the code; the login flow takes the same two steps.\<close>

definition consent_or_code ::
  "env \<Rightarrow> login_draws \<Rightarrow> realm_row \<Rightarrow> client_row \<Rightarrow> user_row \<Rightarrow> params \<Rightarrow> auth_context \<Rightarrow> db \<Rightarrow>
   browser_page result \<times> db" where
  "consent_or_code e d r client u query ctx s =
     (let scopes = requested_scopes query in
      if client_requireConsent client \<and> \<not> hasConsent (user_id u) (client_id client) scopes s
      then let (reqId, s1) = storeConsentRequest e (ld_consentId d) (ld_consentToken d)
                 (ConsentRequest (user_id u) (client_id client)
                    (nullish_else (client_name client) (client_clientId client)) (realm_name r) scopes query
                    (ctx_acr ctx) (ctx_amr ctx)) s
           in (Inr (ConsentPage reqId), s1)
      else authorizeWithUser e d r u query ctx s)"

definition redirectWithError :: "env \<Rightarrow> string \<Rightarrow> params \<Rightarrow> params \<Rightarrow> db \<Rightarrow> browser_page result \<times> db" where
  "redirectWithError e redirectUri query err s =
     (if valid_url e redirectUri then (Inr (ClientRedirect redirectUri (with_state query err)), s)
      else (Inl TypeError, s))"

definition authorizeInternal ::
  "env \<Rightarrow> login_draws \<Rightarrow> realm_row \<Rightarrow> params \<Rightarrow> string option \<Rightarrow> db \<Rightarrow> browser_page result \<times> db" where
  "authorizeInternal e d r query cookie s =
     and_then (validateAuthRequest r query s, s)
       (\<lambda>client s.
          case (if falsy cookie then None else validateLoginSession e r (the cookie) s) of
            None \<Rightarrow> (Inr (login_page query), s)
          | Some user \<Rightarrow>
              if map_of query ''prompt'' = Some ''none''
              then redirectWithError e (hd (client_redirectUris client)) query
                     [(''error'', ''login_required''), (''error_description'', ''User is not authenticated'')] s
              else if map_of query ''prompt'' = Some ''login'' then (Inr (login_page query), s)
              else
                let loginSession = login_session_by_token e (the cookie) s;
                    sessionAcr = session_acr e loginSession s;
                    requiredAcr = resolveRequiredAcr (requested_acr query) (client_requiredAcr client)
                in if \<not> falsy requiredAcr \<and> loginSession \<noteq> None \<and> \<not> satisfiesAcr sessionAcr (the requiredAcr)
                   then (Inr (StepUpPage (the requiredAcr) (client_clientId client) query), s)
                   else consent_or_code e d r client user query (sso_context loginSession sessionAcr) s)"

definition authorize ::
  "env \<Rightarrow> login_draws \<Rightarrow> realm_row \<Rightarrow> params \<Rightarrow> string option \<Rightarrow> db \<Rightarrow> browser_page \<times> db" where
  "authorize e d r query cookie s =
     (case authorizeInternal e d r query cookie s of
        (Inl err, s1) \<Rightarrow> (ErrorPage err, s1)
      | (Inr page, s1) \<Rightarrow> (page, s1))"

subsection \<open>Validated requests\<close>

definition request_of_client :: "realm_row \<Rightarrow> params \<Rightarrow> client_row \<Rightarrow> db \<Rightarrow> bool" where
  "request_of_client r query c s \<longleftrightarrow>
     (\<exists>cid uri. map_of query ''client_id'' = Some cid \<and> client_by_clientId (realm_id r) cid s = Some c \<and>
        client_enabled c \<and> ''authorization_code'' \<in> set (client_grantTypes c) \<and>
        map_of query ''redirect_uri'' = Some uri \<and> matchesRedirectUri uri (client_redirectUris c) \<and>
        (client_clientType c = PUBLIC \<longrightarrow> \<not> falsy (map_of query ''code_challenge'')))"

lemma validateAuthRequest_sound: "validateAuthRequest r query s = Inr c \<Longrightarrow> request_of_client r query c s"
  by (auto simp: validateAuthRequest_def request_of_client_def Let_def falsy_def split: if_splits option.splits)

lemma validateAuthRequest_cong:
  "clients s = clients s' \<Longrightarrow> validateAuthRequest r query s = validateAuthRequest r query s'"
  by (simp add: validateAuthRequest_def client_by_clientId_def Let_def)

lemma authorizeWithUser_cases:
  assumes "authorizeWithUser e d r u query ctx s = (res, s')"
  obtains (refused) err where "res = Inl err" "s' = s"
  | (issued) c where "validateAuthRequest r query s = Inr c"
      "s' = s\<lparr> authorizationCodes := authorizationCodes s @ [code_row e d c u query ctx s] \<rparr>"
      "res = (if valid_url e (the (map_of query ''redirect_uri''))
              then Inr (ClientRedirect (the (map_of query ''redirect_uri'')) (with_state query [(''code'', ld_code d)]))
              else Inl TypeError)"
proof (cases "validateAuthRequest r query s")
  case (Inl err)
  with assms refused show thesis by (auto simp: authorizeWithUser_def)
next
  case (Inr c)
  with assms issued show thesis by (auto simp: authorizeWithUser_def Let_def split: if_splits)
qed

lemma consent_or_code_cases:
  assumes "consent_or_code e d r c u query ctx s = (res, s')"
  obtains (consent) reqId a where "res = Inr (ConsentPage reqId)" "s' = s\<lparr> pendingActions := pendingActions s @ [a] \<rparr>"
      "client_requireConsent c"
  | (code) "authorizeWithUser e d r u query ctx s = (res, s')"
      "client_requireConsent c \<longrightarrow> hasConsent (user_id u) (client_id c) (requested_scopes query) s"
  using assms by (auto simp: consent_or_code_def Let_def storeConsentRequest_def split: if_splits)

subsection \<open>Assurance\<close>

lemma strongest_from_iff:
  "k \<le> acrStrength (Some (strongest_from b as)) \<longleftrightarrow> k \<le> acrStrength (Some b) \<or> (\<exists>a \<in> set as. k \<le> acrStrength a)"
proof
  assume "k \<le> acrStrength (Some (strongest_from b as))"
  moreover have "strongest_from b as = b \<or> (\<exists>a \<in> set as. \<not> falsy a \<and> strongest_from b as = the a)"
    using strongest_from_mem [of b as] by auto
  ultimately show "k \<le> acrStrength (Some b) \<or> (\<exists>a \<in> set as. k \<le> acrStrength a)"
    by (auto elim!: not_falsyE)
next
  assume "k \<le> acrStrength (Some b) \<or> (\<exists>a \<in> set as. k \<le> acrStrength a)"
  then show "k \<le> acrStrength (Some (strongest_from b as))"
    using strongest_from_ge [of b as] by (auto intro: order_trans)
qed

lemma best_record_iff:
  "k \<le> acrStrength (Some (best_record b rs)) \<longleftrightarrow>
     k \<le> acrStrength (Some b) \<or> (\<exists>x \<in> set rs. k \<le> acrStrength (Some (su_acrLevel x)))"
  using best_record_ge [of b rs] best_record_mem [of b rs] by (auto intro: order_trans)

text \<open>
  The login page's check that a session has a second factor behind it and the step-up service's level of the
  session are two computations of the same thing.
\<close>

lemma sessionSatisfiesMfa_iff:
  "sessionSatisfiesMfa e l s \<longleftrightarrow> satisfiesAcr (getLoginSessionAcr e (ls_id l) (ls_satisfiedAcr l) s) ACR_MFA"
proof -
  have "2 \<le> acrStrength (Some (getSessionAcr e (ls_id l) s)) \<longleftrightarrow>
      (\<exists>x \<in> live_records e (ls_id l) s. 2 \<le> acrStrength (Some (su_acrLevel x)))"
    by (auto simp: getSessionAcr_def Let_def best_record_iff live_records_def order_desc_def
        dest: arg_cong [of "sort_key _ _" "[]" set])
  then show ?thesis
    by (auto simp: sessionSatisfiesMfa_def satisfiesAcr_def getLoginSessionAcr_def strongestAcr_def strongest_from_iff
        live_records_def Let_def simp del: strongest_from.simps)
qed

lemma resolveRequiredAcr_strongest:
  assumes "falsy (resolveRequiredAcr a b) \<or> acrStrength (resolveRequiredAcr a b) \<le> n"
  shows "acrStrength a \<le> n" and "acrStrength b \<le> n"
  using assms by (auto simp: resolveRequiredAcr_def acrStrength_falsy split: if_splits)

lemma validateLoginSession_sound:
  assumes "validateLoginSession e r tok s = Some u"
  obtains l where "login_session_by_token e tok s = Some l" "ls_realmId l = realm_id r" "now e \<le> ls_expiresAt l"
    "user_by_id (ls_userId l) s = Some u" "user_enabled u"
    "realm_mfaRequired r \<longrightarrow> satisfiesAcr (getLoginSessionAcr e (ls_id l) (ls_satisfiedAcr l) s) ACR_MFA"
  using assms by (auto simp: validateLoginSession_def sessionSatisfiesMfa_iff not_less
      split: option.splits if_splits)

subsection \<open>Single sign-on\<close>

text \<open>What the authorization endpoint may assume of the browser session behind a code.\<close>

definition sso_authenticated :: "env \<Rightarrow> realm_row \<Rightarrow> string option \<Rightarrow> login_session_row \<Rightarrow> user_row \<Rightarrow> db \<Rightarrow> bool" where
  "sso_authenticated e r cookie l u s \<longleftrightarrow>
     (\<exists>tok. cookie = Some tok \<and> login_session_by_token e tok s = Some l) \<and>
     ls_realmId l = realm_id r \<and> now e \<le> ls_expiresAt l \<and>
     user_by_id (ls_userId l) s = Some u \<and> user_enabled u"

text \<open>What a new code is tied to.\<close>

definition code_bound :: "env \<Rightarrow> params \<Rightarrow> client_row \<Rightarrow> user_row \<Rightarrow> string \<Rightarrow> auth_code_row \<Rightarrow> bool" where
  "code_bound e query c u acr a \<longleftrightarrow>
     ac_clientId a = client_id c \<and> ac_userId a = user_id u \<and>
     Some (ac_redirectUri a) = map_of query ''redirect_uri'' \<and>
     ac_codeChallenge a = map_of query ''code_challenge'' \<and> ac_nonce a = map_of query ''nonce'' \<and>
     ac_satisfiedAcr a = Some acr \<and> \<not> ac_used a \<and> ac_expiresAt a = now e + 60000"

lemma code_row_bound:
  "request_of_client r query c s \<Longrightarrow> ctx_acr ctx = Some acr \<Longrightarrow> code_bound e query c u acr (code_row e d c u query ctx s)"
  by (auto simp: code_bound_def code_row_def request_of_client_def Let_def)

lemma authorizeInternal_cases:
  assumes "authorizeInternal e d r query cookie s = (res, s')"
  obtains (error) err where "res = Inl err" "s' = s"
  | (page) q where "res = Inr (LoginPage q)" "s' = s"
  | (step) a b q where "res = Inr (StepUpPage a b q)" "s' = s"
  | (prompt) c ps where "request_of_client r query c s" "res = Inr (ClientRedirect (hd (client_redirectUris c)) ps)" "s' = s"
  | (sso) c u l where "request_of_client r query c s" "validateAuthRequest r query s = Inr c"
      "sso_authenticated e r cookie l u s"
      "realm_mfaRequired r \<longrightarrow> satisfiesAcr (getLoginSessionAcr e (ls_id l) (ls_satisfiedAcr l) s) ACR_MFA"
      "acrStrength (client_requiredAcr c) \<le> acrStrength (Some (getLoginSessionAcr e (ls_id l) (ls_satisfiedAcr l) s))"
      "acrStrength (requested_acr query) \<le> acrStrength (Some (getLoginSessionAcr e (ls_id l) (ls_satisfiedAcr l) s))"
      "consent_or_code e d r c u query (sso_context (Some l) (getLoginSessionAcr e (ls_id l) (ls_satisfiedAcr l) s)) s
         = (res, s')"
proof (cases "validateAuthRequest r query s")
  case (Inl err)
  with assms error show thesis by (auto simp: authorizeInternal_def)
next
  case (Inr c)
  note c = validateAuthRequest_sound [OF this]
  show thesis
  proof (cases "if falsy cookie then None else validateLoginSession e r (the cookie) s")
    case None
    with assms Inr page show thesis by (auto simp: authorizeInternal_def login_page_def)
  next
    case (Some u)
    then obtain tok where tok: "cookie = Some tok" "validateLoginSession e r tok s = Some u" "tok \<noteq> []"
      by (cases cookie) (auto split: if_splits)
    from tok(2) obtain l where l: "login_session_by_token e tok s = Some l" "ls_realmId l = realm_id r"
      "now e \<le> ls_expiresAt l" "user_by_id (ls_userId l) s = Some u" "user_enabled u"
      "realm_mfaRequired r \<longrightarrow> satisfiesAcr (getLoginSessionAcr e (ls_id l) (ls_satisfiedAcr l) s) ACR_MFA"
      by (rule validateLoginSession_sound)
    let ?acr = "getLoginSessionAcr e (ls_id l) (ls_satisfiedAcr l) s"
    let ?q = "resolveRequiredAcr (requested_acr query) (client_requiredAcr c)"
    have auth: "sso_authenticated e r cookie l u s" using tok l by (auto simp: sso_authenticated_def)
    have q: "falsy ?q \<or> acrStrength ?q \<le> acrStrength (Some ?acr)" if "falsy ?q \<or> satisfiesAcr ?acr (the ?q)"
      using that by (cases ?q) (auto simp: satisfiesAcr_def)
    show thesis
    proof (cases "map_of query ''prompt'' = Some ''none'' \<or> map_of query ''prompt'' = Some ''login''")
      case True
      with assms Inr Some c show thesis
        by (auto simp: authorizeInternal_def redirectWithError_def login_page_def split: if_splits
            intro: error page prompt)
    next
      case False
      show thesis
      proof (cases "falsy ?q \<or> satisfiesAcr ?acr (the ?q)")
        case True
        then have "consent_or_code e d r c u query (sso_context (Some l) ?acr) s = (res, s')"
          using assms Inr tok l(1) False by (auto simp: authorizeInternal_def session_acr_def Let_def)
        then show thesis using sso [OF c Inr auth l(6)] resolveRequiredAcr_strongest [OF q [OF True]] by blast
      next
        case unsatisfied: False
        with assms Inr tok l(1) False have "(Inr (StepUpPage (the ?q) (client_clientId c) query), s) = (res, s')"
          by (auto simp: authorizeInternal_def session_acr_def Let_def)
        then show thesis using step by auto
      qed
    qed
  qed
qed

text \<open>
  C10.  A code from single sign-on.  The authorization endpoint issues a code without a login page only to an
  enabled client of the realm that may use the code flow, for a registered redirect URI and, for a
  public client, with a PKCE challenge; on behalf of the enabled user of an unexpired browser session of
  this realm, which has a second factor behind it when the realm requires one and reaches both
  the level the request asks for and the level the client requires; and only with the user's consent to
  every requested scope when the client requires consent.  The code is bound to that client,
  user, redirect URI, challenge and session level and lives sixty seconds.  At most one code is
  issued, no other table than the codes and the pending consent requests changes, and the browser is
  never sent to a client address that is not registered.
\<close>

theorem sso_authorization_sound:
  assumes "authorize e d r query cookie s = (page, s')"
  shows "(authorizationCodes s' = authorizationCodes s \<or>
          (\<exists>c u l a. authorizationCodes s' = authorizationCodes s @ [a] \<and>
             request_of_client r query c s \<and> sso_authenticated e r cookie l u s \<and>
             (let acr = getLoginSessionAcr e (ls_id l) (ls_satisfiedAcr l) s in
                (realm_mfaRequired r \<longrightarrow> satisfiesAcr acr ACR_MFA) \<and>
                acrStrength (client_requiredAcr c) \<le> acrStrength (Some acr) \<and>
                acrStrength (requested_acr query) \<le> acrStrength (Some acr) \<and>
                (client_requireConsent c \<longrightarrow> hasConsent (user_id u) (client_id c) (requested_scopes query) s) \<and>
                code_bound e query c u acr a)))
       \<and> s' = s\<lparr> authorizationCodes := authorizationCodes s', pendingActions := pendingActions s' \<rparr>
       \<and> (\<forall>uri ps. page = ClientRedirect uri ps \<longrightarrow>
            (\<exists>c. request_of_client r query c s \<and>
               (matchesRedirectUri uri (client_redirectUris c) \<or> uri \<in> set (client_redirectUris c))))"
proof -
  obtain res where i: "authorizeInternal e d r query cookie s = (res, s')"
    and page: "page = (case res of Inl err \<Rightarrow> ErrorPage err | Inr p \<Rightarrow> p)"
    using assms by (auto simp: authorize_def split: prod.splits sum.splits)
  from i show ?thesis
  proof (cases rule: authorizeInternal_cases)
    case (prompt c ps)
    then have "client_redirectUris c \<noteq> []" by (auto simp: request_of_client_def matchesRedirectUri_def)
    with prompt page show ?thesis by auto
  next
    case (sso c u l)
    from sso(7) show ?thesis
    proof (cases rule: consent_or_code_cases)
      case (consent reqId a)
      then show ?thesis using page by auto
    next
      case code
      from code(1) show ?thesis
      proof (cases rule: authorizeWithUser_cases)
        case (refused err)
        then show ?thesis using page by auto
      next
        case (issued c')
        with sso(2) have [simp]: "c' = c" by simp
        have "ctx_acr (sso_context (Some l) (getLoginSessionAcr e (ls_id l) (ls_satisfiedAcr l) s))
            = Some (getLoginSessionAcr e (ls_id l) (ls_satisfiedAcr l) s)" by (simp add: sso_context_def)
        note bound = code_row_bound [OF sso(1) this]
        from sso(1) issued page have "\<forall>uri ps. page = ClientRedirect uri ps \<longrightarrow> matchesRedirectUri uri (client_redirectUris c)"
          by (auto simp: request_of_client_def split: if_splits)
        then have redirect: "\<forall>uri ps. page = ClientRedirect uri ps \<longrightarrow> (\<exists>c. request_of_client r query c s \<and>
            (matchesRedirectUri uri (client_redirectUris c) \<or> uri \<in> set (client_redirectUris c)))" using sso(1) by blast
        show ?thesis
          by (intro conjI disjI2 exI [of _ c] exI [of _ u] exI [of _ l] exI redirect)
             (use issued(2) sso code(2) bound in \<open>auto simp: Let_def\<close>)
      qed
    qed
  qed (auto simp: page)
qed

text \<open>A browser session at the MFA level, and a request of the client that accepts it.\<close>

definition sso_db :: db where
  "sso_db = sample_db\<lparr>
     clients := [\<lparr> client_id = ''c1'', client_realmId = ''r1'', client_clientId = ''app'', client_name = None,
       client_clientSecret = None, client_clientType = PUBLIC, client_enabled = True,
       client_requireConsent = True, client_redirectUris = [''https://app/*''],
       client_grantTypes = [''authorization_code''], client_requiredAcr = Some ACR_MFA,
       client_serviceAccountUserId = None, client_postLogoutRedirectUris = [], client_backchannelLogoutUri = None,
       client_backchannelLogoutSessionRequired = True,
     client_authFlowId = None \<rparr>],
     loginSessions := [\<lparr> ls_id = ''l1'', ls_userId = ''u1'', ls_realmId = ''r1'', ls_tokenHash = ''cookie'',
       ls_ipAddress = None, ls_userAgent = None, ls_satisfiedAcr = Some ACR_MFA, ls_amr = [''pwd'', ''otp''],
       ls_createdAt = 0, ls_expiresAt = 2000000 \<rparr>],
     userConsents := [\<lparr> uco_userId = ''u1'', uco_clientId = ''c1'', uco_scopes = [''openid'', ''email''] \<rparr>] \<rparr>"

definition sample_login_draws :: login_draws where
  "sample_login_draws = \<lparr> ld_userId = ''u9'', ld_newHash = ''nh'', ld_sessionId = ''l9'', ld_sessionToken = ''sso'',
     ld_challengeId = ''p9'', ld_challengeToken = ''chal'', ld_enrollmentId = ''p8'', ld_enrollmentToken = ''enrol'',
     ld_consentId = ''p7'', ld_consentToken = ''cons'', ld_codeId = ''ac9'', ld_code = ''code9'', ld_changeId = ''v9'',
     ld_changeToken = ''chg'' \<rparr>"

definition sso_query :: "string \<Rightarrow> params" where
  "sso_query scope = [(''response_type'', ''code''), (''client_id'', ''app''), (''redirect_uri'', ''https://app/cb''),
     (''scope'', scope), (''state'', ''xyz''), (''code_challenge'', ''ver''), (''code_challenge_method'', ''S256'')]"

theorem sso_authorization_sound_witness:
  "fst (authorize sample_env sample_login_draws sample_realm (sso_query ''openid'') (Some ''cookie'') sso_db)
     = ClientRedirect ''https://app/cb'' [(''code'', ''code9''), (''state'', ''xyz'')]
   \<and> (\<exists>a. authorizationCodes (snd (authorize sample_env sample_login_draws sample_realm (sso_query ''openid'')
             (Some ''cookie'') sso_db)) = [a] \<and> ac_userId a = ''u1'' \<and> ac_satisfiedAcr a = Some ACR_MFA)
   \<and> fst (authorize sample_env sample_login_draws sample_realm (sso_query ''openid profile'') (Some ''cookie'') sso_db)
     = ConsentPage ''cons''"
proof (intro conjI)
  let ?A = "authorize sample_env sample_login_draws sample_realm (sso_query ''openid'') (Some ''cookie'') sso_db"
  show page: "fst ?A = ClientRedirect ''https://app/cb'' [(''code'', ''code9''), (''state'', ''xyz'')]" by code_simp
  show "fst (authorize sample_env sample_login_draws sample_realm (sso_query ''openid profile'') (Some ''cookie'') sso_db)
     = ConsentPage ''cons''" by code_simp
  have none: "authorizationCodes sso_db = []" by (simp add: sso_db_def sample_db_def empty_db_def)
  have some: "authorizationCodes (snd ?A) \<noteq> []" by code_simp
  have acr: "getLoginSessionAcr sample_env ''l1'' (Some ACR_MFA) sso_db = ACR_MFA" by code_simp
  have "?A = (fst ?A, snd ?A)" by simp
  from sso_authorization_sound [OF this] none some
  obtain u l a where "authorizationCodes (snd ?A) = [a]" "sso_authenticated sample_env sample_realm (Some ''cookie'') l u sso_db"
    "ac_userId a = user_id u" "ac_satisfiedAcr a = Some (getLoginSessionAcr sample_env (ls_id l) (ls_satisfiedAcr l) sso_db)"
    by (auto simp: code_bound_def Let_def)
  moreover have "login_session_by_token sample_env ''cookie'' sso_db = Some (hd (loginSessions sso_db))" by code_simp
  with calculation(2) have "l = hd (loginSessions sso_db)" "user_id u = ls_userId l"
    using user_by_id_in [of "ls_userId l" sso_db u] by (auto simp: sso_authenticated_def)
  ultimately show "\<exists>a. authorizationCodes (snd ?A) = [a] \<and> ac_userId a = ''u1'' \<and> ac_satisfiedAcr a = Some ACR_MFA"
    using acr by (simp add: sso_db_def)
qed

end
