(* ===== verification/Login_Flow.thy ===== *)
theory Login_Flow
  imports OAuth
begin

text \<open>
  The browser's way to a session: \<open>src/src/login/login-flow.service.ts\<close> (what follows the first factor) and
  the form handlers of \<open>src/src/login/login.controller.ts\<close>: the login form, the second factor, enrolment
  at sign-in, the forced password change and the consent page.  A handler answers with the page the browser is
  sent to and the cookies that are set (an empty value clears one), or throws.  The rendering of
  pages is left out.  Two things come from outside as the record \<open>login_platform\<close>: the action that
  the risk assessment of an adaptive realm decides on (with the printed score), and the texts of exceptions and of
  violated password rules, which only appear in error parameters and events.
\<close>

datatype risk_action = ALLOW_LOGIN | STEP_UP_LOGIN | BLOCK_LOGIN

record login_platform =
  lp_risk :: "user_row \<Rightarrow> db \<Rightarrow> (risk_action \<times> string) result"
  lp_message :: "app_error \<Rightarrow> string"
  lp_policyMessage :: "policy_error list \<Rightarrow> string"

record browser_request =
  br_body :: body
  br_cookies :: "string \<rightharpoonup> string"
  br_ip :: "string option"
  br_userAgent :: "string option"

type_synonym browser_response = "browser_page \<times> params"

definition SESSION_COOKIE :: string where "SESSION_COOKIE = ''IDENPLANE_SESSION''"
definition MFA_CHALLENGE_COOKIE :: string where "MFA_CHALLENGE_COOKIE = ''IDENPLANE_MFA_CHALLENGE''"
definition MFA_ENROLLMENT_COOKIE :: string where "MFA_ENROLLMENT_COOKIE = ''IDENPLANE_MFA_ENROLLMENT''"

subsection \<open>Cross-site request forgery\<close>

definition csrf_validate :: "string option \<Rightarrow> string option \<Rightarrow> bool" where
  "csrf_validate bodyToken cookieToken \<longleftrightarrow> \<not> falsy bodyToken \<and> \<not> falsy cookieToken \<and> bodyToken = cookieToken"

definition csrf_cookieName :: "string \<Rightarrow> string" where
  "csrf_cookieName realmName = ''XSRF-TOKEN-'' @ realmName"

definition validateCsrf :: "realm_row \<Rightarrow> browser_request \<Rightarrow> bool" where
  "validateCsrf r q = csrf_validate (br_body q ''_csrf'') (br_cookies q (csrf_cookieName (realm_name r)))"

subsection \<open>After the first factor\<close>

definition completeLogin ::
  "env \<Rightarrow> login_draws \<Rightarrow> realm_row \<Rightarrow> user_row \<Rightarrow> params \<Rightarrow> browser_request \<Rightarrow> auth_context \<Rightarrow> db \<Rightarrow>
   browser_response result \<times> db" where
  "completeLogin e d r u oauthParams q ctx s =
     and_then (if falsy (map_of oauthParams ''client_id'') then (Inr None, s)
               else (map_sum id Some (validateAuthRequest r oauthParams s), s))
       (\<lambda>client s.
          let (sessionToken, s1) = createLoginSession e d r u (br_ip q) (br_userAgent q) (br_cookies q SESSION_COOKIE)
                                     (ctx_acr ctx) (ctx_amr ctx) s;
              cookies = [(SESSION_COOKIE, sessionToken)];
              s2 = recordLoginEvent (login_event (realm_id r) ''LOGIN'' (Some (user_id u)) None
                     (map_of oauthParams ''client_id'') (br_ip q) None) s1
          in case client of
               None \<Rightarrow> (Inr (AccountPage, cookies), s2)
             | Some c \<Rightarrow> and_then (consent_or_code e d r c u oauthParams ctx s2)
                           (\<lambda>page s3. (Inr (page, cookies), s3)))"

definition continueAfterPrimaryAuth ::
  "env \<Rightarrow> login_draws \<Rightarrow> realm_row \<Rightarrow> user_row \<Rightarrow> params \<Rightarrow> string list \<Rightarrow> bool \<Rightarrow> browser_request \<Rightarrow> db \<Rightarrow>
   browser_response result \<times> db" where
  "continueAfterPrimaryAuth e d r u oauthParams primaryAmr rememberMe q s =
     (if isMfaEnabled (user_id u) s
      then and_then (createMfaChallenge e (ld_challengeId d) (ld_challengeToken d) (user_id u) (realm_id r)
                       (Some oauthParams) None (Some primaryAmr) s)
             (\<lambda>token s1. (Inr (TotpPage [], [(MFA_CHALLENGE_COOKIE, token)]), s1))
      else if isMfaRequired r (user_id u) s
      then let (token, s1) = createMfaEnrollment e (ld_enrollmentId d) (ld_enrollmentToken d) (user_id u) (realm_id r)
                               (Some oauthParams) (Some rememberMe) (Some primaryAmr) None s
           in (Inr (EnrolmentPage, [(MFA_ENROLLMENT_COOKIE, token)]), s1)
      else completeLogin e d r u oauthParams q \<lparr> ctx_acr = Some ACR_PASSWORD, ctx_amr = Some primaryAmr \<rparr> s)"

definition amrForFactor :: "string list option \<Rightarrow> string option \<Rightarrow> string list" where
  "amrForFactor primaryAmr factor =
     nullish_else primaryAmr [''pwd''] @ [if factor = Some ''sms'' then ''sms'' else ''otp'']"

subsection \<open>The login form\<close>

definition oauth_params :: "string list \<Rightarrow> body \<Rightarrow> params" where
  "oauth_params keys b = map (\<lambda>k. (k, the (b k))) (filter (\<lambda>k. \<not> falsy (b k)) keys)"

definition LOGIN_PARAMS :: "string list" where
  "LOGIN_PARAMS = [''response_type'', ''client_id'', ''redirect_uri'', ''scope'', ''state'', ''nonce'',
     ''code_challenge'', ''code_challenge_method'']"

definition LOGIN_ERROR_PARAMS :: "string list" where
  "LOGIN_ERROR_PARAMS = [''client_id'', ''redirect_uri'', ''response_type'', ''scope'', ''state'', ''nonce'',
     ''code_challenge'', ''code_challenge_method'']"

definition login_error :: "string \<Rightarrow> body \<Rightarrow> browser_page" where
  "login_error text b = LoginPage ((''error'', text) # oauth_params LOGIN_ERROR_PARAMS b)"

definition sendBlockedLoginEmail :: "env \<Rightarrow> user_row \<Rightarrow> db \<Rightarrow> db" where
  "sendBlockedLoginEmail e u s =
     (if falsy (user_email u) \<or> \<not> emailService e then s
      else s\<lparr> outbox := outbox s @ [(the (user_email u), ''Suspicious Login Attempt Blocked'')] \<rparr>)"

definition BLOCKED_LOGIN_TEXT :: string where
  "BLOCKED_LOGIN_TEXT = ''Login blocked due to suspicious activity. Check your email for details.''"

definition UNVERIFIED_EMAIL_TEXT :: string where
  "UNVERIFIED_EMAIL_TEXT =
     ''Please verify your email address before signing in. Check your inbox for the verification link.''"

text \<open>From the e-mail check of the login form on.\<close>

definition after_risk ::
  "env \<Rightarrow> login_draws \<Rightarrow> realm_row \<Rightarrow> user_row \<Rightarrow> browser_request \<Rightarrow> db \<Rightarrow> browser_response result \<times> db" where
  "after_risk e d r u q s =
     (let b = br_body q; oauthParams = oauth_params LOGIN_PARAMS b in
      if realm_requireEmailVerification r \<and> \<not> falsy (user_email u) \<and> \<not> user_emailVerified u
      then (Inr (login_error UNVERIFIED_EMAIL_TEXT b, []), s)
      else if isExpired e u r
      then (Inr (ChangePasswordPage [(''token'', ld_changeToken d),
              (''info'', ''Your password has expired and must be changed.'')], []),
            createTokenWithHash e (ld_changeId d) (user_id u) ''change_password'' 300 (sha256 e (ld_changeToken d)) s)
      else continueAfterPrimaryAuth e d r u oauthParams [''pwd''] (\<not> falsy (b ''rememberMe'')) q s)"

definition risk_step ::
  "env \<Rightarrow> login_draws \<Rightarrow> login_platform \<Rightarrow> realm_row \<Rightarrow> user_row \<Rightarrow> browser_request \<Rightarrow> db \<Rightarrow>
   browser_response result \<times> db" where
  "risk_step e d p r u q s =
     (let b = br_body q in
      if \<not> realm_adaptiveAuthEnabled r then after_risk e d r u q s
      else and_then (lp_risk p u s, s)
        (\<lambda>(action, score) s. case action of
            BLOCK_LOGIN \<Rightarrow>
              (Inr (login_error BLOCKED_LOGIN_TEXT b, []),
               recordLoginEvent (login_event (realm_id r) ''LOGIN_ERROR'' (Some (user_id u)) None (b ''client_id'') (br_ip q)
                 (Some (''Login blocked by risk assessment (score='' @ score @ '')''))) (sendBlockedLoginEmail e u s))
          | STEP_UP_LOGIN \<Rightarrow>
              if isMfaEnabled (user_id u) s
              then and_then (createMfaChallenge e (ld_challengeId d) (ld_challengeToken d) (user_id u) (realm_id r)
                               (Some (oauth_params LOGIN_PARAMS b)) None None s)
                     (\<lambda>token s1. (Inr (TotpPage [], [(MFA_CHALLENGE_COOKIE, token)]), s1))
              else after_risk e d r u q s
          | ALLOW_LOGIN \<Rightarrow> after_risk e d r u q s))"

definition handleLogin ::
  "env \<Rightarrow> login_draws \<Rightarrow> login_platform \<Rightarrow> realm_row \<Rightarrow> browser_request \<Rightarrow> db \<Rightarrow> browser_response result \<times> db" where
  "handleLogin e d p r q s =
     (if \<not> validateCsrf r q then (Inl ForbiddenException, s)
      else let b = br_body q in
        case and_then (validateCredentials e d r (nullish_else (b ''username'') []) (nullish_else (b ''password'') [])
                         (br_ip q) s)
               (\<lambda>u s1. risk_step e d p r u q s1) of
          (Inr response, s') \<Rightarrow> (Inr response, s')
        | (Inl err, s') \<Rightarrow>
            (Inr (login_error (lp_message p err) b, []),
             recordLoginEvent (login_event (realm_id r) ''LOGIN_ERROR'' None None (b ''client_id'') (br_ip q)
               (Some (lp_message p err))) s'))"

subsection \<open>The second factor\<close>

definition login_again :: "string \<Rightarrow> params \<Rightarrow> browser_response" where
  "login_again text cookies = (LoginPage [(''error'', text)], cookies)"

definition MFA_EXPIRED_TEXT :: string where
  "MFA_EXPIRED_TEXT = ''MFA session expired. Please login again.''"

definition totp_input :: "realm_row \<Rightarrow> string \<Rightarrow> body \<Rightarrow> second_factor_input" where
  "totp_input r challengeToken b =
     (if \<not> falsy (b ''smsCode'') then SmsInput (the (b ''smsCode'')) (realm_id r) ''login'' challengeToken
      else if \<not> falsy (b ''code'') then TotpInput (the (b ''code''))
      else RecoveryInput (nullish_else (b ''recoveryCode'') []))"

definition totp_refused ::
  "env \<Rightarrow> realm_row \<Rightarrow> ident \<Rightarrow> browser_request \<Rightarrow> db \<Rightarrow> browser_response result \<times> db" where
  "totp_refused e r uid q s =
     and_then (recordTotpFailure e r uid (br_ip q) s)
       (\<lambda>_ s1.
          let s2 = recordLoginEvent (login_event (realm_id r) ''MFA_VERIFY_ERROR'' (Some uid) None None (br_ip q)
                     (Some ''Invalid MFA code'')) s1;
              limit = checkTotpRateLimit e r uid s2;
              text = (if blocked limit \<or> remainingAttempts limit \<le> 2
                      then ''Too many failed attempts. Please try again later.''
                      else ''Invalid code. Please try again.'')
          in (Inr (TotpPage ((''error'', text) #
                     (if falsy (br_body q ''smsCode'') then [] else [(''method'', ''sms'')])), []), s2))"

definition totp_accepted ::
  "env \<Rightarrow> login_draws \<Rightarrow> realm_row \<Rightarrow> string \<Rightarrow> ident \<Rightarrow> params \<Rightarrow> string list option \<Rightarrow> string \<Rightarrow> browser_request \<Rightarrow>
   db \<Rightarrow> browser_response result \<times> db" where
  "totp_accepted e d r challengeToken uid oauthParams primaryAmr factor q s =
     (let (claimed, s1) = consumeMfaChallenge e challengeToken s; cleared = [(MFA_CHALLENGE_COOKIE, [])] in
      if \<not> claimed then (Inr (login_again MFA_EXPIRED_TEXT cleared), s1)
      else let s2 = resetTotpFailures (realm_id r) uid s1 in
        case user_by_id uid s2 of
          None \<Rightarrow> (Inr (login_again ''User not found.'' cleared), s2)
        | Some u \<Rightarrow>
            and_then (completeLogin e d r u oauthParams q
                        \<lparr> ctx_acr = Some ACR_MFA, ctx_amr = Some (amrForFactor primaryAmr (Some factor)) \<rparr> s2)
              (\<lambda>(page, cookies) s3. (Inr (page, cleared @ cookies), s3)))"

definition handleTotp ::
  "env \<Rightarrow> login_draws \<Rightarrow> realm_row \<Rightarrow> browser_request \<Rightarrow> db \<Rightarrow> browser_response result \<times> db" where
  "handleTotp e d r q s =
     (let token = br_cookies q MFA_CHALLENGE_COOKIE; cleared = [(MFA_CHALLENGE_COOKIE, [])] in
      if \<not> validateCsrf r q then (Inl ForbiddenException, s)
      else if falsy token then (Inr (login_again MFA_EXPIRED_TEXT []), s)
      else case validateMfaChallengeWithAttemptCheck e (the token) s of
             (Some (MfaChallengeData uid rid cid oauthParams primaryAmr), s1) \<Rightarrow>
               if rid \<noteq> realm_id r then (Inr (login_again MFA_EXPIRED_TEXT cleared), s1)
               else if blocked (checkTotpRateLimit e r uid s1)
               then (Inr (TotpPage [(''error'', ''Too many failed attempts. Please try again later.'')], []), s1)
               else and_then (verifySecondFactor e uid (totp_input r (the token) (br_body q)) s1)
                      (\<lambda>factor s2. case factor of
                          None \<Rightarrow> totp_refused e r uid q s2
                        | Some f \<Rightarrow> totp_accepted e d r (the token) uid (nullish_else oauthParams []) primaryAmr f q s2)
           | (_, s1) \<Rightarrow>
               (Inr (login_again ''MFA session expired or too many failed attempts. Please login again.'' cleared), s1))"

text \<open>The text message with a sign-in code; the notice on the page is left out.\<close>

definition sendTotpSms ::
  "env \<Rightarrow> ident \<Rightarrow> ident \<Rightarrow> nat \<Rightarrow> realm_row \<Rightarrow> browser_request \<Rightarrow> db \<Rightarrow> browser_response result \<times> db" where
  "sendTotpSms e logId rowId n r q s =
     (let token = br_cookies q MFA_CHALLENGE_COOKIE in
      if \<not> validateCsrf r q then (Inl ForbiddenException, s)
      else case (if falsy token then None else getMfaChallenge e (the token) s) of
             Some (MfaChallengeData uid rid cid oauthParams primaryAmr) \<Rightarrow>
               if rid \<noteq> realm_id r then (Inr (login_again MFA_EXPIRED_TEXT []), s)
               else (case sendCode e logId rowId n r uid ''login'' (the token) None (br_ip q) s of
                       (Inr sent, s1) \<Rightarrow>
                         (Inr (TotpPage [(''method'', ''sms'')], []),
                          recordLoginEvent (login_event (realm_id r) ''MFA_CHALLENGE'' (Some uid) None None (br_ip q) None) s1)
                     | (Inl err, s1) \<Rightarrow> (Inr (TotpPage [(''method'', ''sms'')], []), s1))
           | _ \<Rightarrow> (Inr (login_again MFA_EXPIRED_TEXT []), s))"

subsection \<open>Enrolment at sign-in\<close>

definition continueAfterMfaEnrollment ::
  "env \<Rightarrow> login_draws \<Rightarrow> realm_row \<Rightarrow> browser_request \<Rightarrow> db \<Rightarrow> browser_response result \<times> db" where
  "continueAfterMfaEnrollment e d r q s =
     (let token = br_cookies q MFA_ENROLLMENT_COOKIE; cleared = [(MFA_ENROLLMENT_COOKIE, [])] in
      if \<not> validateCsrf r q then (Inl ForbiddenException, s)
      else case (if falsy token then (None, s) else consumeVerifiedMfaEnrollment e (the token) s) of
             (Some (MfaEnrollmentData uid rid oauthParams rememberMe primaryAmr verified factor), s1) \<Rightarrow>
               if rid \<noteq> realm_id r
               then (Inr (login_again ''Your sign-in expired. Please sign in again.'' cleared), s1)
               else (case user_by_id uid s1 of
                       None \<Rightarrow> (Inr (login_again ''Please sign in again.'' cleared), s1)
                     | Some u \<Rightarrow>
                         if \<not> user_enabled u \<or> \<not> isMfaEnabled (user_id u) s1
                         then (Inr (login_again ''Please sign in again.'' cleared), s1)
                         else and_then (completeLogin e d r u (nullish_else oauthParams []) q
                                 \<lparr> ctx_acr = Some ACR_MFA, ctx_amr = Some (amrForFactor primaryAmr factor) \<rparr> s1)
                                (\<lambda>(page, cookies) s2. (Inr (page, cleared @ cookies), s2)))
           | (_, s1) \<Rightarrow> (Inr (login_again ''Your sign-in expired. Please sign in again.'' cleared), s1))"

subsection \<open>The forced password change\<close>

definition change_password_page :: "string option \<Rightarrow> string \<Rightarrow> browser_response" where
  "change_password_page token text = (ChangePasswordPage [(''token'', nullish_else token []), (''error'', text)], [])"

definition store_new_password ::
  "env \<Rightarrow> ident \<Rightarrow> string \<Rightarrow> realm_row \<Rightarrow> user_row \<Rightarrow> string \<Rightarrow> verification_token_row \<Rightarrow> db \<Rightarrow>
   browser_response result \<times> db" where
  "store_new_password e hid newHash r u newPassword t s =
     (if length newPassword > MAX_PASSWORD_LENGTH then (Inl UnprocessableEntityException, s)
      else let s1 = update_user (user_id u) (\<lambda>x. x\<lparr> user_passwordHash := Some newHash,
                       user_passwordChangedAt := Some (now e) \<rparr>) s;
               s2 = recordHistory e hid (user_id u) (realm_id r) newHash (realm_passwordHistoryCount r) s1
           in (Inr (LoginPage [(''info'', ''Password changed successfully. You can now sign in.'')], []),
               delete_token (vt_id t) s2))"

definition handleChangePassword ::
  "env \<Rightarrow> ident \<Rightarrow> string \<Rightarrow> login_platform \<Rightarrow> realm_row \<Rightarrow> browser_request \<Rightarrow> db \<Rightarrow> browser_response result \<times> db" where
  "handleChangePassword e hid newHash p r q s =
     (let b = br_body q; token = b ''token''; newPassword = the (b ''newPassword'') in
      if \<not> validateCsrf r q then (Inl ForbiddenException, s)
      else if falsy token \<or> falsy (b ''currentPassword'') \<or> falsy (b ''newPassword'')
      then (Inr (change_password_page token ''All fields are required.''), s)
      else if b ''newPassword'' \<noteq> b ''confirmPassword''
      then (Inr (change_password_page token ''New passwords do not match.''), s)
      else case token_row (sha256 e (the token)) s of
             None \<Rightarrow> (Inr (login_again ''Change password session expired. Please login again.'' []), s)
           | Some t \<Rightarrow>
               if vt_type t \<noteq> ''change_password'' \<or> vt_expiresAt t < now e
               then (Inr (login_again ''Change password session expired. Please login again.'' []), s)
               else case user_by_id (vt_userId t) s of
                      None \<Rightarrow> (Inr (login_again ''User not found.'' []), s)
                    | Some u \<Rightarrow>
                        if falsy (user_passwordHash u) then (Inr (login_again ''User not found.'' []), s)
                        else if \<not> verifyPassword e (the (user_passwordHash u)) (the (b ''currentPassword''))
                        then (Inr (change_password_page token ''Current password is incorrect.''), s)
                        else if \<not> valid (validate r newPassword)
                        then (Inr (change_password_page token (lp_policyMessage p (errors (validate r newPassword)))), s)
                        else if realm_passwordHistoryCount r > 0 \<and>
                                checkHistory e (user_id u) (realm_id r) newPassword (realm_passwordHistoryCount r) s
                        then (Inr (change_password_page token
                                ''Password was used recently. Choose a different password.''), s)
                        else store_new_password e hid newHash r u newPassword t s)"

subsection \<open>The consent page\<close>

definition showConsentForm ::
  "env \<Rightarrow> login_draws \<Rightarrow> string option \<Rightarrow> db \<Rightarrow> (string \<times> string list) result \<times> db" where
  "showConsentForm e d reqId s =
     (if falsy reqId then (Inl BadRequestException, s)
      else case getConsentRequest e (the reqId) s of
             (Some req, s1) \<Rightarrow>
               (let (newReqId, s2) = storeConsentRequest e (ld_consentId d) (ld_consentToken d) req s1
                in (Inr (newReqId, pd_scopes req), s2))
           | (None, s1) \<Rightarrow> (Inl BadRequestException, s1))"

definition handleConsent ::
  "env \<Rightarrow> login_draws \<Rightarrow> realm_row \<Rightarrow> browser_request \<Rightarrow> db \<Rightarrow> browser_page result \<times> db" where
  "handleConsent e d r q s =
     (let b = br_body q in
      if \<not> validateCsrf r q then (Inl ForbiddenException, s)
      else if falsy (b ''auth_req_id'') then (Inl BadRequestException, s)
      else case getConsentRequest e (the (b ''auth_req_id'')) s of
             (Some (ConsentRequest uid cid clientName realmName scopes oauthParams acr amr), s1) \<Rightarrow>
               if b ''action'' = Some ''deny''
               then redirectWithError e (nullish_else (map_of oauthParams ''redirect_uri'') ''undefined'') oauthParams
                      [(''error'', ''access_denied''), (''error_description'', ''User denied the consent request'')] s1
               else let s2 = grantConsent e (realm_id r) uid cid scopes None None s1 in
                    (case user_by_id uid s2 of
                       None \<Rightarrow> (Inl BadRequestException, s2)
                     | Some u \<Rightarrow> authorizeWithUser e d r u oauthParams \<lparr> ctx_acr = acr, ctx_amr = amr \<rparr> s2)
           | (_, s1) \<Rightarrow> (Inl BadRequestException, s1))"

end
