(* ===== verification/Login_Soundness.thy ===== *)
theory Login_Soundness
  imports Login_Flow Grant_Soundness
begin

text \<open>
  What a browser session proves: how each of the three ways to a session (password, second factor,
  enrolment at sign-in) authenticated its user, and at which level.  The lemmas about the steps reuse the frame
  \<^const>\<open>same_grants\<close> of the token endpoint.
\<close>

subsection \<open>Frames\<close>

lemma same_grants_accept: "same_grants s (snd (accept_credentials r u s))"
  unfolding accept_credentials_def by (rule same_grants_and_then [OF same_grants_resetFailures]) simp

lemma same_grants_refuse: "same_grants s (snd (refuse_credentials e r u ip s))"
  unfolding refuse_credentials_def by (rule same_grants_and_then [OF same_grants_recordFailure]) simp

lemma same_grants_rehash: "same_grants s (snd (rehashToArgon2 uid h pw s))"
  by (simp add: rehashToArgon2_def update_user_def same_grants_tables)

lemma same_grants_validateCredentials: "same_grants s (snd (validateCredentials e d r un pw ip s))"
  unfolding validateCredentials_def
  by (auto split: option.split intro!: same_grants_and_then same_grants_federation same_grants_accept
      same_grants_refuse same_grants_rehash)

lemma same_grants_createMfaEnrollment: "same_grants s (snd (createMfaEnrollment e i t uid rid op rm am f s))"
  by (simp add: createMfaEnrollment_def same_grants_tables)

lemma same_grants_createTokenWithHash: "same_grants s (createTokenWithHash e i uid ty n h s)"
  by (simp add: createTokenWithHash_def same_grants_def)

lemma same_grants_recordTotpFailure: "same_grants s (snd (recordTotpFailure e r uid ip s))"
  by (auto simp: recordTotpFailure_def Let_def update_user_def sendLockoutNotification_def same_grants_def
      split: option.split)

lemma same_grants_resetTotpFailures: "same_grants s (resetTotpFailures rid uid s)"
  by (simp add: resetTotpFailures_def same_grants_def)

lemma same_grants_blocked_mail: "same_grants s (sendBlockedLoginEmail e u s)"
  by (simp add: sendBlockedLoginEmail_def same_grants_tables)

lemma same_grants_totp_refused: "same_grants s (snd (totp_refused e r uid q s))"
  unfolding totp_refused_def
  by (rule same_grants_and_then [OF same_grants_recordTotpFailure]) (simp add: Let_def)

lemma same_grants_enrollment: "same_grants s (snd (consumeVerifiedMfaEnrollment e t s))"
  by (simp add: consumeVerifiedMfaEnrollment_def Let_def same_grants_tables split: option.split)

lemma same_grants_login: "same_grants s s' \<Longrightarrow> loginSessions s' = loginSessions s"
  by (simp add: same_grants_def)

lemma consent_or_code_sessions: "loginSessions (snd (consent_or_code e d r c u query ctx s)) = loginSessions s"
  by (cases "consent_or_code e d r c u query ctx s" rule: prod.exhaust)
     (auto elim!: consent_or_code_cases authorizeWithUser_cases)

subsection \<open>Who is behind a new session\<close>

definition session_started :: "db \<Rightarrow> db \<Rightarrow> login_session_row \<Rightarrow> bool" where
  "session_started s s' l \<longleftrightarrow> l \<in> set (loginSessions s') \<and> l \<notin> set (loginSessions s)"

definition session_of :: "env \<Rightarrow> realm_row \<Rightarrow> ident \<Rightarrow> string \<Rightarrow> string list \<Rightarrow> login_session_row \<Rightarrow> bool" where
  "session_of e r uid acr amr l \<longleftrightarrow> ls_userId l = uid \<and> ls_realmId l = realm_id r \<and>
     ls_satisfiedAcr l = Some acr \<and> ls_amr l = amr \<and> ls_expiresAt l = now e + realm_refreshTokenLifespan r * 1000"

lemma session_started_frame: "same_grants s s1 \<Longrightarrow> session_started s s' l = session_started s1 s' l"
  by (simp add: session_started_def same_grants_def)

lemma not_started: "same_grants s s' \<Longrightarrow> \<not> session_started s s' l"
  by (simp add: session_started_def same_grants_def)

lemma session_started_and_then:
  assumes "session_started s (snd (and_then m k)) l" and "same_grants s (snd m)"
  obtains x s1 where "m = (Inr x, s1)" "session_started s1 (snd (k x s1)) l" "same_grants s s1"
proof (cases "fst m")
  case (Inl err)
  then have "and_then m k = (Inl err, snd m)" by (cases m) simp
  with assms not_started show thesis by simp
next
  case (Inr x)
  then have m: "m = (Inr x, snd m)" by (cases m) simp
  with assms(1) have "session_started s (snd (k x (snd m))) l" by (metis and_then_simps(2))
  with session_started_frame [OF assms(2)] show thesis by (intro that [OF m]) (auto simp: assms(2))
qed

lemma createLoginSession_started:
  assumes "session_started s (snd (createLoginSession e d r u ip ua old acr amr s)) l"
  shows "ls_userId l = user_id u" "ls_realmId l = realm_id r" "ls_satisfiedAcr l = acr" "ls_amr l = nullish_else amr []"
    "ls_expiresAt l = now e + realm_refreshTokenLifespan r * 1000"
  using assms by (auto simp: session_started_def createLoginSession_def evict_login_sessions_def tbl_delete_def Let_def
      split: if_splits)

lemma completeLogin_sessions:
  "loginSessions (snd (completeLogin e d r u params q ctx s)) = loginSessions s \<or>
   loginSessions (snd (completeLogin e d r u params q ctx s))
     = loginSessions (snd (createLoginSession e d r u (br_ip q) (br_userAgent q) (br_cookies q SESSION_COOKIE)
         (ctx_acr ctx) (ctx_amr ctx) s))"
proof -
  have event: "loginSessions (recordLoginEvent ev x) = loginSessions x" for ev x
    by (rule same_grants_login) simp
  have code: "loginSessions (snd (and_then (consent_or_code e d r c u params ctx x) (\<lambda>page s3. (Inr (page, cs), s3))))
      = loginSessions x" for c x and cs :: params
    using consent_or_code_sessions [of e d r c u params ctx x]
    by (cases "consent_or_code e d r c u params ctx x"; cases "fst (consent_or_code e d r c u params ctx x)") auto
  show ?thesis
    by (cases "validateAuthRequest r params s") (simp_all add: completeLogin_def Let_def split_beta event code)
qed

lemma completeLogin_started:
  assumes "session_started s (snd (completeLogin e d r u params q \<lparr> ctx_acr = Some acr, ctx_amr = Some amr \<rparr> s)) l"
  shows "session_of e r (user_id u) acr amr l"
proof -
  have "session_started s (snd (createLoginSession e d r u (br_ip q) (br_userAgent q) (br_cookies q SESSION_COOKIE)
      (Some acr) (Some amr) s)) l"
    using assms completeLogin_sessions [of e d r u params q "\<lparr> ctx_acr = Some acr, ctx_amr = Some amr \<rparr>" s]
    unfolding session_started_def by (metis auth_context.select_convs(1,2))
  from createLoginSession_started [OF this] show ?thesis by (simp add: session_of_def nullish_else_def)
qed

subsection \<open>The password\<close>

text \<open>
  The credentials of the login form are proved: for a local account by the stored hash (or its migrated form), for a
  federated one, or for a name that is not known yet, by an enabled LDAP server of the realm; an existing
  account is enabled and not locked.
\<close>

definition password_proved :: "env \<Rightarrow> realm_row \<Rightarrow> string \<Rightarrow> string \<Rightarrow> user_row \<Rightarrow> db \<Rightarrow> bool" where
  "password_proved e r un pw u s \<longleftrightarrow>
     (case user_by_username (realm_id r) un s of
        None \<Rightarrow> ldap_vouches e (realm_id r) un pw s
      | Some u0 \<Rightarrow> u = u0 \<and> user_enabled u \<and> \<not> locked (checkLocked e r u) \<and>
          (if falsy (user_federationLink u)
           then \<exists>h. user_passwordHash u = Some h \<and>
                  (verifyPassword e h pw \<or> verifyMigratedPassword e pw h (user_passwordAlgorithm u))
           else ldap_vouches e (realm_id r) un pw s))"

lemma accept_credentials_ok: "accept_credentials r u s = (Inr v, s') \<Longrightarrow> v = u"
  by (auto simp: accept_credentials_def elim!: and_then_okE)

lemma refuse_credentials_ok: "refuse_credentials e r u ip s \<noteq> (Inr v, s')"
  by (auto simp: refuse_credentials_def elim!: and_then_okE)

lemma validateCredentials_sound:
  assumes "validateCredentials e d r un pw ip s = (Inr u, s1)"
  shows "password_proved e r un pw u s"
proof (cases "user_by_username (realm_id r) un s")
  case None
  with assms show ?thesis
    by (auto simp: validateCredentials_def password_proved_def falsy_def elim!: and_then_okE dest: federation_sound
        split: if_splits option.splits)
next
  case (Some u0)
  with assms show ?thesis
    by (auto simp: validateCredentials_def password_proved_def needs_migration_def refuse_credentials_ok falsy_def
        elim!: and_then_okE dest!: accept_credentials_ok dest: federation_sound split: if_splits option.splits)
qed

lemma validateCredentials_credentials:
  "userCredentials (snd (validateCredentials e d r un pw ip s)) = userCredentials s"
proof -
  have fed: "userCredentials (snd (authenticateViaFederation e i rid un pw x)) = userCredentials x" for i rid x
  proof -
    have "userCredentials (snd (try_federations e i rid un pw fs x)) = userCredentials x" for fs
      by (induction fs) (auto simp: Let_def split: option.split)
    then show ?thesis by (simp add: authenticateViaFederation_def)
  qed
  have at: "userCredentials (snd (and_then m k)) = userCredentials (snd m)"
    if "\<And>v x. userCredentials (snd (k v x)) = userCredentials x" for m :: "'x result \<times> db" and k :: "'x \<Rightarrow> db \<Rightarrow> 'y result \<times> db"
    using that by (cases m; cases "fst m") auto
  have acc: "userCredentials (snd (accept_credentials r u x)) = userCredentials x" for u x
    by (simp add: accept_credentials_def at resetFailures_credentials)
  have failure: "userCredentials (snd (recordFailure e r uid ip x)) = userCredentials x" for uid x
    by (auto simp: recordFailure_def Let_def update_user_def sendLockoutNotification_def split: option.split)
  have ref: "userCredentials (snd (refuse_credentials e r u ip x)) = userCredentials x" for u x
    by (simp add: refuse_credentials_def at failure)
  have reh: "userCredentials (snd (rehashToArgon2 uid h pw x)) = userCredentials x" for uid h x
    by (simp add: rehashToArgon2_def update_user_def)
  show ?thesis
    by (simp add: validateCredentials_def at fed acc ref reh split: option.split)
qed

lemma after_risk_started:
  assumes "session_started s (snd (after_risk e d r u q s)) l"
  shows "session_of e r (user_id u) ACR_PASSWORD [''pwd''] l \<and> \<not> realm_mfaRequired r \<and> \<not> isMfaEnabled (user_id u) s
       \<and> \<not> isExpired e u r"
proof -
  have exp: "\<not> isExpired e u r"
    using assms not_started [OF same_grants_createTokenWithHash] not_started [of s s l]
    by (auto simp: after_risk_def Let_def split: if_splits)
  with assms have "session_started s (snd (continueAfterPrimaryAuth e d r u (oauth_params LOGIN_PARAMS (br_body q))
      [''pwd''] (\<not> falsy (br_body q ''rememberMe'')) q s)) l"
    using not_started [of s s l] by (auto simp: after_risk_def Let_def split: if_splits)
  moreover have "\<not> session_started s (snd (and_then (createMfaChallenge e i t uid rid op cid am s)
      (\<lambda>token s1. (Inr (f token), s1)))) l" for i t uid rid op cid am and f :: "string \<Rightarrow> browser_response"
    by (intro not_started same_grants_and_then same_grants_createMfaChallenge) simp
  ultimately have mfa: "\<not> isMfaEnabled (user_id u) s" "\<not> isMfaRequired r (user_id u) s"
    and "session_started s (snd (completeLogin e d r u (oauth_params LOGIN_PARAMS (br_body q)) q
        \<lparr> ctx_acr = Some ACR_PASSWORD, ctx_amr = Some [''pwd''] \<rparr> s)) l"
    using not_started [OF same_grants_createMfaEnrollment]
    by (auto simp: continueAfterPrimaryAuth_def split_beta split: if_splits)
  from completeLogin_started [OF this(3)] mfa exp show ?thesis by (simp add: isMfaRequired_def)
qed

lemma risk_step_started:
  assumes "session_started s (snd (risk_step e d p r u q s)) l"
  shows "session_started s (snd (after_risk e d r u q s)) l
       \<and> (realm_adaptiveAuthEnabled r \<longrightarrow> (\<exists>a score. lp_risk p u s = Inr (a, score) \<and> a \<noteq> BLOCK_LOGIN))"
proof (cases "realm_adaptiveAuthEnabled r")
  case False
  with assms show ?thesis by (simp add: risk_step_def)
next
  case True
  have challenge: "\<not> session_started s (snd (and_then (createMfaChallenge e i t uid rid op cid am s)
      (\<lambda>token s1. (Inr (f token), s1)))) l" for i t uid rid op cid am and f :: "string \<Rightarrow> browser_response"
    by (intro not_started same_grants_and_then same_grants_createMfaChallenge) simp
  have mail: "\<not> session_started s (recordLoginEvent ev (sendBlockedLoginEmail e u s)) l" for ev
    by (rule not_started, rule same_grants_trans [OF same_grants_blocked_mail same_grants_event])
  from assms True obtain a score where risk: "lp_risk p u s = Inr (a, score)"
    using not_started [of s s l] by (cases "lp_risk p u s") (auto simp: risk_step_def)
  with assms True challenge mail show ?thesis
    by (cases a) (auto simp: risk_step_def Let_def split: if_splits)
qed

lemma handleLogin_started:
  assumes "session_started s (snd (handleLogin e d p r q s)) l"
  shows "\<exists>u s1. validateCsrf r q \<and>
     password_proved e r (nullish_else (br_body q ''username'') []) (nullish_else (br_body q ''password'') []) u s \<and>
     session_of e r (user_id u) ACR_PASSWORD [''pwd''] l \<and> \<not> realm_mfaRequired r \<and> \<not> isMfaEnabled (user_id u) s \<and>
     \<not> isExpired e u r \<and>
     (realm_adaptiveAuthEnabled r \<longrightarrow> (\<exists>a score. lp_risk p u s1 = Inr (a, score) \<and> a \<noteq> BLOCK_LOGIN))"
proof -
  let ?V = "validateCredentials e d r (nullish_else (br_body q ''username'') []) (nullish_else (br_body q ''password'') [])
     (br_ip q) s"
  let ?M = "and_then ?V (\<lambda>u s1. risk_step e d p r u q s1)"
  have csrf: "validateCsrf r q"
    using assms not_started [of s s l] by (auto simp: handleLogin_def split: if_splits)
  have "loginSessions (snd (handleLogin e d p r q s)) = loginSessions (snd ?M)"
  proof -
    obtain res x where M: "?M = (res, x)" by fastforce
    have event: "loginSessions (recordLoginEvent ev x) = loginSessions x" for ev
      by (rule same_grants_login) simp
    show ?thesis unfolding handleLogin_def Let_def M using csrf by (cases res) (simp_all add: event)
  qed
  with assms have "session_started s (snd ?M) l" by (simp add: session_started_def)
  then obtain u s1 where u: "?V = (Inr u, s1)" and started: "session_started s1 (snd (risk_step e d p r u q s1)) l"
    by (rule session_started_and_then [OF _ same_grants_validateCredentials])
  note risk = risk_step_started [OF started]
  have "isMfaEnabled (user_id u) s1 = isMfaEnabled (user_id u) s"
    using factors_cong [OF validateCredentials_credentials [of e d r "nullish_else (br_body q ''username'') []"
        "nullish_else (br_body q ''password'') []" "br_ip q" s]] u by (simp add: isMfaEnabled_def)
  with risk after_risk_started [OF risk [THEN conjunct1]] validateCredentials_sound [OF u] csrf show ?thesis by blast
qed

subsection \<open>The second factor\<close>

lemma completed_started:
  assumes "session_started s (snd (and_then (completeLogin e d r u params q \<lparr> ctx_acr = Some acr, ctx_amr = Some amr \<rparr> s)
      (\<lambda>(page, cookies) s3. (Inr (page, cleared @ cookies), s3)))) l"
  shows "session_of e r (user_id u) acr amr l"
proof -
  let ?C = "completeLogin e d r u params q \<lparr> ctx_acr = Some acr, ctx_amr = Some amr \<rparr> s"
  obtain res x where c: "?C = (res, x)" by fastforce
  have "snd (and_then ?C (\<lambda>(page, cookies) s3. (Inr (page, cleared @ cookies), s3))) = snd ?C"
    unfolding c by (cases res) auto
  with assms completeLogin_started show ?thesis by metis
qed

lemma totp_accepted_started:
  assumes "session_started s (snd (totp_accepted e d r tok uid params am f q s)) l"
  shows "fst (consumeMfaChallenge e tok s) \<and> session_of e r uid ACR_MFA (amrForFactor am (Some f)) l"
proof -
  let ?s1 = "snd (consumeMfaChallenge e tok s)"
  let ?s2 = "resetTotpFailures (realm_id r) uid ?s1"
  have g: "same_grants s ?s1" "same_grants s ?s2"
    using same_grants_trans [OF same_grants_consume same_grants_resetTotpFailures] same_grants_consume by auto
  have claimed: "fst (consumeMfaChallenge e tok s)"
    using assms not_started [OF g(1)] by (auto simp: totp_accepted_def Let_def split_beta split: if_splits)
  then obtain u where u: "user_by_id uid ?s2 = Some u"
    using assms not_started [OF g(2)] by (cases "user_by_id uid ?s2") (auto simp: totp_accepted_def Let_def split_beta)
  have "user_id u = uid" using user_by_id_in [OF u] by simp
  moreover have "session_started s (snd (and_then (completeLogin e d r u params q
        \<lparr> ctx_acr = Some ACR_MFA, ctx_amr = Some (amrForFactor am (Some f)) \<rparr> ?s2)
      (\<lambda>(page, cookies) s3. (Inr (page, [(MFA_CHALLENGE_COOKIE, [])] @ cookies), s3)))) l"
    using assms claimed u unfolding totp_accepted_def Let_def split_beta by simp
  with session_started_frame [OF g(2)] completed_started have "session_of e r (user_id u) ACR_MFA (amrForFactor am (Some f)) l"
    by metis
  ultimately show ?thesis using claimed by simp
qed

lemma handleTotp_started:
  assumes "session_started s (snd (handleTotp e d r q s)) l"
  shows "\<exists>tok uid cid params am s1 f s2. validateCsrf r q \<and> br_cookies q MFA_CHALLENGE_COOKIE = Some tok \<and>
     validateMfaChallengeWithAttemptCheck e tok s = (Some (MfaChallengeData uid (realm_id r) cid params am), s1) \<and>
     \<not> blocked (checkTotpRateLimit e r uid s1) \<and>
     verifySecondFactor e uid (totp_input r tok (br_body q)) s1 = (Inr (Some f), s2) \<and>
     fst (consumeMfaChallenge e tok s2) \<and> session_of e r uid ACR_MFA (amrForFactor am (Some f)) l"
proof -
  have self: "\<not> session_started s s l" by (rule not_started) simp
  have csrf: "validateCsrf r q" using assms self by (auto simp: handleTotp_def Let_def split: if_splits)
  obtain tok where tok: "br_cookies q MFA_CHALLENGE_COOKIE = Some tok" "tok \<noteq> []"
    using assms self csrf by (cases "br_cookies q MFA_CHALLENGE_COOKIE") (auto simp: handleTotp_def Let_def split: if_splits)
  obtain ch s1 where ch: "validateMfaChallengeWithAttemptCheck e tok s = (ch, s1)" by fastforce
  have g: "same_grants s s1" using same_grants_attempt [of s e tok] ch by simp
  obtain uid cid params am where c: "ch = Some (MfaChallengeData uid (realm_id r) cid params am)"
    and nb: "\<not> blocked (checkTotpRateLimit e r uid s1)"
    using assms csrf tok ch not_started [OF g, of l]
    by (auto simp: handleTotp_def Let_def split: option.splits pending_data.splits if_splits)
  have "session_started s1 (snd (and_then (verifySecondFactor e uid (totp_input r tok (br_body q)) s1)
      (\<lambda>factor s2. case factor of None \<Rightarrow> totp_refused e r uid q s2
         | Some f \<Rightarrow> totp_accepted e d r tok uid (nullish_else params []) am f q s2))) l"
    using assms csrf tok ch c nb session_started_frame [OF g] by (simp add: handleTotp_def Let_def cong: option.case_cong)
  then obtain factor s2 where f: "verifySecondFactor e uid (totp_input r tok (br_body q)) s1 = (Inr factor, s2)"
    and st: "session_started s2 (snd (case factor of None \<Rightarrow> totp_refused e r uid q s2
         | Some f \<Rightarrow> totp_accepted e d r tok uid (nullish_else params []) am f q s2)) l"
    by (rule session_started_and_then [OF _ same_grants_secondFactor])
  then obtain g where g: "factor = Some g" using not_started [OF same_grants_totp_refused] by (cases factor) auto
  from st [unfolded g] totp_accepted_started
  have "fst (consumeMfaChallenge e tok s2) \<and> session_of e r uid ACR_MFA (amrForFactor am (Some g)) l" by fastforce
  with csrf tok ch [unfolded c] nb f [unfolded g] show ?thesis by blast
qed

subsection \<open>Enrolment at sign-in\<close>

lemma enrollment_started:
  assumes "session_started s (snd (continueAfterMfaEnrollment e d r q s)) l"
  shows "\<exists>tok uid params rm am f s1 u. validateCsrf r q \<and> br_cookies q MFA_ENROLLMENT_COOKIE = Some tok \<and>
     consumeVerifiedMfaEnrollment e tok s = (Some (MfaEnrollmentData uid (realm_id r) params rm am True f), s1) \<and>
     user_by_id uid s1 = Some u \<and> user_enabled u \<and> isMfaEnabled uid s1 \<and>
     session_of e r uid ACR_MFA (amrForFactor am f) l"
proof -
  have self: "\<not> session_started s s l" by (rule not_started) simp
  have csrf: "validateCsrf r q" using assms self by (auto simp: continueAfterMfaEnrollment_def Let_def split: if_splits)
  obtain tok where tok: "br_cookies q MFA_ENROLLMENT_COOKIE = Some tok" "tok \<noteq> []"
    using assms self csrf
    by (cases "br_cookies q MFA_ENROLLMENT_COOKIE") (auto simp: continueAfterMfaEnrollment_def Let_def split: if_splits)
  obtain en s1 where en: "consumeVerifiedMfaEnrollment e tok s = (en, s1)" by fastforce
  have g: "same_grants s s1" using same_grants_enrollment [of s e tok] en by simp
  obtain uid params rm am v f where c: "en = Some (MfaEnrollmentData uid (realm_id r) params rm am v f)"
    using assms csrf tok en not_started [OF g, of l]
    by (auto simp: continueAfterMfaEnrollment_def Let_def split: option.splits pending_data.splits if_splits)
  have v: "v = True"
    using en c by (auto simp: consumeVerifiedMfaEnrollment_def Let_def split: option.splits if_splits)
  obtain u where u: "user_by_id uid s1 = Some u"
    using assms csrf tok en c not_started [OF g, of l]
    by (cases "user_by_id uid s1") (auto simp: continueAfterMfaEnrollment_def Let_def)
  have id: "user_id u = uid" using user_by_id_in [OF u] by simp
  have ok: "user_enabled u \<and> isMfaEnabled uid s1"
    using assms csrf tok en c u id not_started [OF g, of l]
    by (auto simp: continueAfterMfaEnrollment_def Let_def split: if_splits)
  have "session_started s1 (snd (and_then (completeLogin e d r u (nullish_else params []) q
        \<lparr> ctx_acr = Some ACR_MFA, ctx_amr = Some (amrForFactor am f) \<rparr> s1)
      (\<lambda>(page, cookies) s2. (Inr (page, [(MFA_ENROLLMENT_COOKIE, [])] @ cookies), s2)))) l"
    using assms csrf tok en c u id ok session_started_frame [OF g] by (simp add: continueAfterMfaEnrollment_def Let_def)
  from completed_started [OF this] csrf tok en [unfolded c v] u ok id show ?thesis by blast
qed

subsection \<open>Properties\<close>


definition sample_login_platform :: login_platform where
  "sample_login_platform = \<lparr> lp_risk = (\<lambda>_ _. Inr (ALLOW_LOGIN, ''0'')), lp_message = (\<lambda>_. ''Invalid credentials''),
     lp_policyMessage = (\<lambda>_. ''Password does not meet the policy'') \<rparr>"

definition login_request :: "string \<Rightarrow> params \<Rightarrow> browser_request" where
  "login_request password params =
     \<lparr> br_body = map_of ([(''_csrf'', ''t''), (''username'', ''alice''), (''password'', password)] @ params),
       br_cookies = [''XSRF-TOKEN-acme'' \<mapsto> ''t''], br_ip = None, br_userAgent = None \<rparr>"


subsection \<open>Observations\<close>

text \<open>
  A client's required level binds single sign-on only: the client of \<^const>\<open>sso_db\<close> requires the MFA level, and a
  fresh login with a password alone receives a code for it, at the password level.
\<close>

lemma fresh_login_ignores_required_acr:
  "map client_requiredAcr (clients sso_db) = [Some ACR_MFA]
   \<and> fst (handleLogin sample_env sample_login_draws sample_login_platform sample_realm
       (login_request ''pw'' (sso_query ''openid'')) sso_db)
     = Inr (ClientRedirect ''https://app/cb'' [(''code'', ''code9''), (''state'', ''xyz'')], [(SESSION_COOKIE, ''sso'')])
   \<and> map ac_satisfiedAcr (authorizationCodes (snd (handleLogin sample_env sample_login_draws sample_login_platform sample_realm
       (login_request ''pw'' (sso_query ''openid'')) sso_db))) = [Some ACR_PASSWORD]"
  by code_simp

text \<open>
  A consent request is not tied to its realm: posted to the consent page of another realm with a client of the same
  identifier and redirect URI, it yields a code of that realm for a user who does not belong to it.
\<close>

definition other_realm :: realm_row where
  "other_realm = default_realm ''r2'' ''other''"

definition two_realms_db :: db where
  "two_realms_db = sso_db\<lparr> realms := [sample_realm, other_realm],
     clients := map (\<lambda>c. c\<lparr> client_id := ''c2'', client_realmId := ''r2'' \<rparr>) (clients sso_db),
     pendingActions := [\<lparr> pa_id = ''p1'', pa_tokenHash = ''req'', pa_type = ''consent_request'',
       pa_data = ConsentRequest ''u1'' ''c1'' ''app'' ''acme'' [''openid''] (sso_query ''openid'') (Some ACR_PASSWORD)
         (Some [''pwd'']), pa_attempts = 0, pa_expiresAt = 2000000, pa_createdAt = 0 \<rparr>] \<rparr>"

lemma consent_request_crosses_realms:
  "map ac_clientId (authorizationCodes (snd (handleConsent sample_env sample_login_draws other_realm
       \<lparr> br_body = [''_csrf'' \<mapsto> ''t'', ''auth_req_id'' \<mapsto> ''req''], br_cookies = [''XSRF-TOKEN-other'' \<mapsto> ''t''],
         br_ip = None, br_userAgent = None \<rparr> two_realms_db))) = [''c2'']
   \<and> map user_realmId (users two_realms_db) = [''r1'']
   \<and> map ac_userId (authorizationCodes (snd (handleConsent sample_env sample_login_draws other_realm
       \<lparr> br_body = [''_csrf'' \<mapsto> ''t'', ''auth_req_id'' \<mapsto> ''req''], br_cookies = [''XSRF-TOKEN-other'' \<mapsto> ''t''],
         br_ip = None, br_userAgent = None \<rparr> two_realms_db))) = [''u1'']"
  by code_simp

text \<open>
  The forced password change applies the rules of the realm in the address, not those of the user's realm: a password
  that the user's realm refuses is accepted through another realm.
\<close>

definition change_request :: "string \<Rightarrow> browser_request" where
  "change_request cookie = \<lparr> br_body = [''_csrf'' \<mapsto> ''t'', ''token'' \<mapsto> ''chg'', ''currentPassword'' \<mapsto> ''pw'',
       ''newPassword'' \<mapsto> ''longenough'', ''confirmPassword'' \<mapsto> ''longenough''],
     br_cookies = [cookie \<mapsto> ''t''], br_ip = None, br_userAgent = None \<rparr>"

definition strict_realm :: realm_row where
  "strict_realm = sample_realm\<lparr> realm_passwordRequireDigits := True \<rparr>"

definition expired_db :: db where
  "expired_db = createTokenWithHash sample_env ''v1'' ''u1'' ''change_password'' 300 ''chg'' sample_db"

lemma change_password_crosses_realms:
  "users (snd (handleChangePassword sample_env ''h1'' ''new'' sample_login_platform strict_realm
       (change_request ''XSRF-TOKEN-acme'') expired_db)) = users expired_db
   \<and> map user_passwordHash (users (snd (handleChangePassword sample_env ''h1'' ''new'' sample_login_platform other_realm
       (change_request ''XSRF-TOKEN-other'') expired_db))) = [Some ''new'']"
  by code_simp

text \<open>With \<open>prompt=none\<close> the endpoint answers a signed-in user with \<open>login_required\<close>, at the first registered URI.\<close>

lemma prompt_none_refuses_signed_in:
  assumes "validateAuthRequest r query s = Inr c" and "validateLoginSession e r tok s = Some u" and "tok \<noteq> []"
    and "map_of query ''prompt'' = Some ''none''" and "valid_url e (hd (client_redirectUris c))"
  shows "\<exists>ps. authorize e d r query (Some tok) s = (ClientRedirect (hd (client_redirectUris c)) ((''error'', ''login_required'') # ps), s)"
  using assms by (auto simp: authorize_def authorizeInternal_def redirectWithError_def with_state_def)

end
