(* ===== verification/Window_Counter.thy ===== *)
theory Window_Counter
  imports Prelude
begin

text \<open>
  The contract of a fixed-window counter, which every backend of the rate limiter keeps for each of its
  counters, and what it promises for an arbitrary stretch of time.
\<close>

text \<open>The times at which a run of requests allowed one of mine, and how many of them lie in a stretch of time.\<close>

fun served ::
  "('q \<Rightarrow> bool) \<Rightarrow> ('q \<Rightarrow> millis) \<Rightarrow> ('q \<Rightarrow> 's \<Rightarrow> bool \<times> 's) \<Rightarrow> 'q list \<Rightarrow> 's \<Rightarrow> millis list" where
  "served mine time req [] s = []"
| "served mine time req (q # qs) s =
     (if mine q \<and> fst (req q s) then [time q] else []) @ served mine time req qs (snd (req q s))"

definition served_in ::
  "millis \<Rightarrow> ('q \<Rightarrow> bool) \<Rightarrow> ('q \<Rightarrow> millis) \<Rightarrow> ('q \<Rightarrow> 's \<Rightarrow> bool \<times> 's) \<Rightarrow> millis \<Rightarrow> 'q list \<Rightarrow> 's \<Rightarrow> int" where
  "served_in W mine time req t qs s = int (length (filter (\<lambda>x. t \<le> x \<and> x < t + W) (served mine time req qs s)))"

lemma served_times: "x \<in> set (served mine time req qs s) \<Longrightarrow> \<exists>q \<in> set qs. mine q \<and> x = time q"
  by (induction qs arbitrary: s) (auto split: if_splits)

lemma served_in_Cons:
  "served_in W mine time req t (q # qs) s
     = (if mine q \<and> fst (req q s) \<and> t \<le> time q \<and> time q < t + W then 1 else 0)
       + served_in W mine time req t qs (snd (req q s))"
  by (simp add: served_in_def)

lemma served_in_late:
  assumes "\<And>q. q \<in> set qs \<Longrightarrow> mine q \<Longrightarrow> t + W \<le> time q"
  shows "served_in W mine time req t qs s = 0"
  using assms served_times [of _ mine time req qs s] by (force simp: served_in_def filter_empty_conv)

text \<open>
  \<open>start s\<close> is the beginning of the window the counter is in, if it has one, and \<open>used s\<close> the number of requests it
  allowed there.  A request inside the window is counted exactly when it is allowed; one after
  its end opens a new window, which begins no earlier than the old one ended and contains the
  request; an allowed request leaves the counter within the limit.  Requests that are not \<open>mine\<close> leave
  the counter alone.
\<close>

locale window_counter =
  fixes W :: millis and limit :: int
    and mine :: "'q \<Rightarrow> bool" and time :: "'q \<Rightarrow> millis"
    and req :: "'q \<Rightarrow> 's \<Rightarrow> bool \<times> 's"
    and start :: "'s \<Rightarrow> millis option" and used :: "'s \<Rightarrow> int"
  assumes W_pos: "0 < W" and limit_nonneg: "0 \<le> limit"
    and foreign: "\<not> mine q \<Longrightarrow> start (snd (req q s)) = start s \<and> used (snd (req q s)) = used s"
    and inside: "mine q \<Longrightarrow> start s = Some w \<Longrightarrow> time q < w + W \<Longrightarrow>
      start (snd (req q s)) = Some w \<and> used (snd (req q s)) = used s + (if fst (req q s) then 1 else 0)"
    and outside: "mine q \<Longrightarrow> (\<And>w. start s = Some w \<Longrightarrow> w + W \<le> time q) \<Longrightarrow>
      \<exists>w'. start (snd (req q s)) = Some w' \<and> w' \<le> time q \<and> time q < w' + W \<and>
           (\<forall>w. start s = Some w \<longrightarrow> w + W \<le> w') \<and> used (snd (req q s)) = (if fst (req q s) then 1 else 0)"
    and within: "mine q \<Longrightarrow> fst (req q s) \<Longrightarrow> used (snd (req q s)) \<le> limit"
begin

text \<open>How many requests can still be allowed in the stretch of length \<open>W\<close> from \<open>t\<close> on.\<close>

definition room :: "millis \<Rightarrow> 's \<Rightarrow> int" where
  "room t s =
     (case start s of
        None \<Rightarrow> 2 * limit
      | Some w \<Rightarrow> if t \<le> w then limit - used s else if t < w + W then 2 * limit - used s else 2 * limit)"

definition counting :: "'s \<Rightarrow> bool" where
  "counting s \<longleftrightarrow> (start s \<noteq> None \<longrightarrow> 0 \<le> used s \<and> used s \<le> limit)"

lemma counting_step: "counting s \<Longrightarrow> counting (snd (req q s))"
proof (cases "mine q")
  case True
  assume c: "counting s"
  show ?thesis
  proof (cases "\<exists>w. start s = Some w \<and> time q < w + W")
    case True
    then obtain w where "start s = Some w" "time q < w + W" by blast
    with inside [OF \<open>mine q\<close> this] within [OF \<open>mine q\<close>, of s] c show ?thesis by (auto simp: counting_def)
  next
    case False
    then have past: "\<And>w. start s = Some w \<Longrightarrow> w + W \<le> time q" by force
    have "used (snd (req q s)) = (if fst (req q s) then 1 else 0)" using outside [OF \<open>mine q\<close> past] by blast
    with within [OF \<open>mine q\<close>, of s] limit_nonneg show ?thesis by (simp add: counting_def split: if_splits)
  qed
next
  case False
  with foreign [OF False, of s] show "counting s \<Longrightarrow> ?thesis" by (simp add: counting_def)
qed

text \<open>In every stretch of the window's length, wherever it begins, at most twice the limit is allowed.\<close>

theorem served_in_le_room:
  assumes "counting s" and "sorted (map time (filter mine qs))"
    and "\<And>w q. start s = Some w \<Longrightarrow> q \<in> set qs \<Longrightarrow> mine q \<Longrightarrow> w \<le> time q"
  shows "served_in W mine time req t qs s \<le> room t s"
  using assms
proof (induction qs arbitrary: s)
  case Nil
  then show ?case using limit_nonneg by (auto simp: served_in_def room_def counting_def split: option.split)
next
  case (Cons q qs)
  let ?s' = "snd (req q s)"
  have c: "counting ?s'" using Cons.prems(1) by (rule counting_step)
  have so: "sorted (map time (filter mine qs))" using Cons.prems(2) by (auto split: if_splits)
  show ?case
  proof (cases "mine q")
    case False
    have "served_in W mine time req t qs ?s' \<le> room t ?s'"
      using Cons.prems(3) foreign [OF False, of s] by (intro Cons.IH [OF c so]) auto
    moreover have "room t ?s' = room t s" using foreign [OF False, of s] by (simp add: room_def split: option.split)
    ultimately show ?thesis using False by (simp add: served_in_Cons)
  next
    case True
    have later: "time q \<le> time q'" if "q' \<in> set qs" "mine q'" for q'
      using Cons.prems(2) that True by auto
    show ?thesis
    proof (cases "\<exists>w. start s = Some w \<and> time q < w + W")
      case True
      then obtain w where w: "start s = Some w" "time q < w + W" by blast
      note i = inside [OF \<open>mine q\<close> w]
      have "served_in W mine time req t qs ?s' \<le> room t ?s'"
        using i Cons.prems(3) [OF w(1)] by (intro Cons.IH [OF c so]) auto
      with w i W_pos show ?thesis by (cases "fst (req q s)") (auto simp: served_in_Cons room_def split: if_splits)
    next
      case False
      then have past: "\<And>w. start s = Some w \<Longrightarrow> w + W \<le> time q" by force
      from outside [OF \<open>mine q\<close> past] obtain w' where w': "start ?s' = Some w'" "w' \<le> time q" "time q < w' + W"
        "\<And>w. start s = Some w \<Longrightarrow> w + W \<le> w'" "used ?s' = (if fst (req q s) then 1 else 0)" by blast
      have ih: "served_in W mine time req t qs ?s' \<le> room t ?s'"
        using w'(1,2) later by (intro Cons.IH [OF c so]) (auto intro: order_trans)
      show ?thesis
      proof (cases "\<exists>w. start s = Some w \<and> t \<le> w")
        case True
        then obtain w where w: "start s = Some w" "t \<le> w" by blast
        have "t + W \<le> time q" using past [OF w(1)] w(2) by simp
        moreover have "served_in W mine time req t qs ?s' = 0"
          using later \<open>t + W \<le> time q\<close> by (intro served_in_late) (auto intro: order_trans)
        ultimately show ?thesis using w Cons.prems(1) by (auto simp: served_in_Cons room_def counting_def)
      next
        case False
        then show ?thesis
          using ih w' Cons.prems(1) limit_nonneg within [OF \<open>mine q\<close>, of s]
          by (auto simp: served_in_Cons room_def counting_def split: option.splits if_splits)
      qed
    qed
  qed
qed

corollary served_in_twice_limit:
  assumes "start s = None" and "sorted (map time (filter mine qs))"
  shows "served_in W mine time req t qs s \<le> 2 * limit"
  using served_in_le_room [of s qs t] assms by (simp add: counting_def room_def)

end

end
