(* ===== verification/Rate_Limit.thy ===== *)
theory Rate_Limit
  imports Redis Js_Value Window_Counter "HOL-Library.AList"
begin

text \<open>
  \<open>src/src/rate-limit/rate-limit.service.ts\<close> and the choice of limiters of \<open>rate-limit.guard.ts\<close>: two
  counters per key, for a minute and for an hour, kept in Redis (windows aligned to the clock) or, when Redis is
  not available or fails, in the database (windows that start with a request).  A rejected request
  takes its increments back.  The keys of clients, users and addresses and the environment
  variables are arguments.
\<close>

subsection \<open>Results\<close>

record rate_limit_result =
  rlr_allowed :: bool
  rlr_limit :: int
  rlr_remaining :: int
  rlr_resetAt :: int
  rlr_retryAfter :: "int option"

definition unlimited :: rate_limit_result where
  "unlimited = \<lparr> rlr_allowed = True, rlr_limit = 0, rlr_remaining = 0, rlr_resetAt = 0, rlr_retryAfter = None \<rparr>"

definition rejected :: "int \<Rightarrow> int \<Rightarrow> int \<Rightarrow> rate_limit_result" where
  "rejected limit resetAt nowSeconds =
     \<lparr> rlr_allowed = False, rlr_limit = limit, rlr_remaining = 0, rlr_resetAt = resetAt,
       rlr_retryAfter = Some (max 1 (resetAt - nowSeconds)) \<rparr>"

definition computeHeaders :: "rate_limit_result \<Rightarrow> (string \<times> int) list" where
  "computeHeaders result =
     (if rlr_limit result = 0 \<and> rlr_resetAt result = 0 then []
      else [(''X-RateLimit-Limit'', rlr_limit result), (''X-RateLimit-Remaining'', max 0 (rlr_remaining result)),
            (''X-RateLimit-Reset'', rlr_resetAt result)] @
           (if \<not> rlr_allowed result then (case rlr_retryAfter result of None \<Rightarrow> [] | Some t \<Rightarrow> [(''Retry-After'', t)])
            else []))"

subsection \<open>Counters in Redis\<close>

text \<open>A counter is its value and the end of its TTL; an expired one is as good as absent.\<close>

definition live_counter :: "millis \<Rightarrow> string \<Rightarrow> db \<Rightarrow> (int \<times> millis option) option" where
  "live_counter t key s =
     (case map_of (redisCounters s) key of
        None \<Rightarrow> None
      | Some (n, None) \<Rightarrow> Some (n, None)
      | Some (n, Some ends) \<Rightarrow> if t < ends then Some (n, Some ends) else None)"

definition set_counter :: "string \<Rightarrow> int \<times> millis option \<Rightarrow> db \<Rightarrow> db" where
  "set_counter key v s = s\<lparr> redisCounters := AList.update key v (redisCounters s) \<rparr>"

definition redis_incr :: "env \<Rightarrow> string \<Rightarrow> int \<Rightarrow> db \<Rightarrow> int \<times> db" where
  "redis_incr e key ttlSeconds s =
     (let (n, ends) = nullish_else (live_counter (now e) key s) (0, None); count = n + 1
      in (count, set_counter key (count, if count = 1 then Some (now e + ttlSeconds * 1000) else ends) s))"

definition redis_decr :: "env \<Rightarrow> string \<Rightarrow> db \<Rightarrow> db" where
  "redis_decr e key s =
     (let (n, ends) = nullish_else (live_counter (now e) key s) (0, None) in set_counter key (n - 1, ends) s)"

definition minuteKey :: "string \<Rightarrow> int \<Rightarrow> string" where
  "minuteKey key window = ''rl:m:'' @ key @ '':'' @ show_nat (nat window)"

definition hourKey :: "string \<Rightarrow> int \<Rightarrow> string" where
  "hourKey key window = ''rl:h:'' @ key @ '':'' @ show_nat (nat window)"

definition checkWithRedis :: "env \<Rightarrow> string \<Rightarrow> int \<Rightarrow> int \<Rightarrow> db \<Rightarrow> rate_limit_result \<times> db" where
  "checkWithRedis e key limitPerMinute limitPerHour s =
     (let t = now e div 1000; minuteWindow = t div 60; hourWindow = t div 3600;
          mKey = minuteKey key minuteWindow; hKey = hourKey key hourWindow;
          (minuteCount, s1) = redis_incr e mKey 120 s;
          (hourCount, s2) = redis_incr e hKey 7200 s1;
          minuteResetAt = (minuteWindow + 1) * 60; hourResetAt = (hourWindow + 1) * 3600;
          s3 = (if minuteCount > limitPerMinute \<or> hourCount > limitPerHour
                then redis_decr e hKey (redis_decr e mKey s2) else s2)
      in if minuteCount > limitPerMinute then (rejected limitPerMinute minuteResetAt t, s3)
         else if hourCount > limitPerHour then (rejected limitPerHour hourResetAt t, s3)
         else (\<lparr> rlr_allowed = True, rlr_limit = limitPerMinute, rlr_remaining = limitPerMinute - minuteCount,
                 rlr_resetAt = minuteResetAt, rlr_retryAfter = None \<rparr>, s3))"

subsection \<open>Counters in the database\<close>

definition rate_row :: "string \<Rightarrow> db \<Rightarrow> rate_limit_row option" where
  "rate_row key s = List.find (\<lambda>x. rl_key x = key) (rateLimitEntries s)"

definition update_rate_row :: "string \<Rightarrow> (rate_limit_row \<Rightarrow> rate_limit_row) \<Rightarrow> db \<Rightarrow> db" where
  "update_rate_row key f s = s\<lparr> rateLimitEntries := tbl_update (\<lambda>x. rl_key x = key) f (rateLimitEntries s) \<rparr>"

definition upsert_rate_row :: "millis \<Rightarrow> string \<Rightarrow> db \<Rightarrow> db" where
  "upsert_rate_row t key s =
     (case rate_row key s of
        None \<Rightarrow> s\<lparr> rateLimitEntries := rateLimitEntries s @
                  [\<lparr> rl_key = key, rl_minuteCount = 1, rl_minuteWindowStart = t, rl_hourCount = 1,
                     rl_hourWindowStart = t \<rparr>] \<rparr>
      | Some _ \<Rightarrow> update_rate_row key (\<lambda>x. x\<lparr> rl_minuteCount := rl_minuteCount x + 1,
                                             rl_hourCount := rl_hourCount x + 1 \<rparr>) s)"

definition minuteWindowMs :: millis where "minuteWindowMs = 60000"
definition hourWindowMs :: millis where "hourWindowMs = 3600000"

definition ceil_to_seconds :: "millis \<Rightarrow> int" where
  "ceil_to_seconds ms = - ((- ms) div 1000)"

definition checkWithDatabase :: "env \<Rightarrow> string \<Rightarrow> int \<Rightarrow> int \<Rightarrow> db \<Rightarrow> rate_limit_result \<times> db" where
  "checkWithDatabase e key limitPerMinute limitPerHour s =
     (let t = now e;
          s1 = upsert_rate_row t key s;
          entry = the (rate_row key s1);
          minuteOver = t - rl_minuteWindowStart entry \<ge> minuteWindowMs;
          hourOver = t - rl_hourWindowStart entry \<ge> hourWindowMs;
          s2 = (if minuteOver
                then update_rate_row key (\<lambda>x. x\<lparr> rl_minuteCount := 1, rl_minuteWindowStart := t \<rparr>) s1 else s1);
          minuteCount = (if minuteOver then 1 else rl_minuteCount entry);
          s3 = (if hourOver
                then update_rate_row key (\<lambda>x. x\<lparr> rl_hourCount := 1, rl_hourWindowStart := t \<rparr>) s2 else s2);
          hourCount = (if hourOver then 1 else rl_hourCount entry);
          minuteResetAt = ceil_to_seconds (max (rl_minuteWindowStart entry) t + minuteWindowMs);
          hourResetAt = ceil_to_seconds (max (rl_hourWindowStart entry) t + hourWindowMs);
          s4 = (if minuteCount > limitPerMinute \<or> hourCount > limitPerHour
                then update_rate_row key (\<lambda>x. x\<lparr> rl_minuteCount := rl_minuteCount x - 1,
                                               rl_hourCount := rl_hourCount x - 1 \<rparr>) s3 else s3)
      in if minuteCount > limitPerMinute then (rejected limitPerMinute minuteResetAt (t div 1000), s4)
         else if hourCount > limitPerHour then (rejected limitPerHour hourResetAt (t div 1000), s4)
         else (\<lparr> rlr_allowed = True, rlr_limit = limitPerMinute, rlr_remaining = max 0 (limitPerMinute - minuteCount),
                 rlr_resetAt = minuteResetAt, rlr_retryAfter = None \<rparr>, s4))"

definition cleanupExpiredDbEntries :: "env \<Rightarrow> db \<Rightarrow> db" where
  "cleanupExpiredDbEntries e s =
     (let hourAgo = now e - 3600000
      in s\<lparr> rateLimitEntries := tbl_delete (\<lambda>x. rl_minuteWindowStart x < hourAgo \<or> rl_hourWindowStart x < hourAgo)
             (rateLimitEntries s) \<rparr>)"

subsection \<open>The limiters\<close>

definition rate_check :: "env \<Rightarrow> string \<Rightarrow> int \<Rightarrow> int \<Rightarrow> db \<Rightarrow> rate_limit_result \<times> db" where
  "rate_check e key limitPerMinute limitPerHour s =
     (if redis e = RedisUp then checkWithRedis e key limitPerMinute limitPerHour s
      else checkWithDatabase e key limitPerMinute limitPerHour s)"

definition realm_by_id :: "ident \<Rightarrow> db \<Rightarrow> realm_row option" where
  "realm_by_id rid s = List.find (\<lambda>r. realm_id r = rid) (realms s)"

definition realm_check ::
  "env \<Rightarrow> string \<Rightarrow> ident \<Rightarrow> string \<Rightarrow> (realm_row \<Rightarrow> int) \<Rightarrow> (realm_row \<Rightarrow> int) \<Rightarrow> db \<Rightarrow> rate_limit_result \<times> db" where
  "realm_check e prefix realmId who perMinute perHour s =
     (case realm_by_id realmId s of
        None \<Rightarrow> (unlimited, s)
      | Some r \<Rightarrow> if \<not> realm_rateLimitEnabled r then (unlimited, s)
                  else rate_check e (prefix @ '':'' @ realmId @ '':'' @ who) (perMinute r) (perHour r) s)"

definition checkClientLimit :: "env \<Rightarrow> string \<Rightarrow> ident \<Rightarrow> db \<Rightarrow> rate_limit_result \<times> db" where
  "checkClientLimit e clientId realmId s =
     realm_check e ''client'' realmId clientId realm_clientRateLimitPerMinute realm_clientRateLimitPerHour s"

definition checkUserLimit :: "env \<Rightarrow> ident \<Rightarrow> ident \<Rightarrow> db \<Rightarrow> rate_limit_result \<times> db" where
  "checkUserLimit e userId realmId s =
     realm_check e ''user'' realmId userId realm_userRateLimitPerMinute realm_userRateLimitPerHour s"

definition checkIpLimit :: "env \<Rightarrow> string \<Rightarrow> ident \<Rightarrow> db \<Rightarrow> rate_limit_result \<times> db" where
  "checkIpLimit e ip realmId s =
     realm_check e ''ip'' realmId ip realm_ipRateLimitPerMinute realm_ipRateLimitPerHour s"

definition envInt :: "string option \<Rightarrow> int \<Rightarrow> int" where
  "envInt raw fallback =
     (case raw of
        None \<Rightarrow> fallback
      | Some x \<Rightarrow> (case parseInt x of None \<Rightarrow> fallback | Some n \<Rightarrow> if n > 0 then n else fallback))"

definition checkAdminIpLimit :: "(string \<Rightarrow> string option) \<Rightarrow> env \<Rightarrow> string \<Rightarrow> db \<Rightarrow> rate_limit_result \<times> db" where
  "checkAdminIpLimit env_var e ip s =
     rate_check e (''admin:ip:'' @ ip) (envInt (env_var ''ADMIN_IP_RL_PER_MINUTE'') 5)
       (envInt (env_var ''ADMIN_IP_RL_PER_HOUR'') 50) s"

definition checkAdminApiKeyLimit :: "(string \<Rightarrow> string option) \<Rightarrow> env \<Rightarrow> string \<Rightarrow> db \<Rightarrow> rate_limit_result \<times> db" where
  "checkAdminApiKeyLimit env_var e ip s =
     rate_check e (''admin:apikey:'' @ ip) (envInt (env_var ''ADMIN_API_KEY_RL_PER_MINUTE'') 60)
       (envInt (env_var ''ADMIN_API_KEY_RL_PER_HOUR'') 1000) s"

datatype limiter = ByClient | ByUser | ByIp

definition runCheck ::
  "env \<Rightarrow> limiter \<Rightarrow> string option \<Rightarrow> ident option \<Rightarrow> string \<Rightarrow> ident \<Rightarrow> db \<Rightarrow> rate_limit_result option \<times> db" where
  "runCheck e kind clientId userId ip realmId s =
     (case kind of
        ByClient \<Rightarrow> if falsy clientId then (None, s)
                    else (let (res, s1) = checkClientLimit e (the clientId) realmId s in (Some res, s1))
      | ByUser \<Rightarrow> if falsy userId then (None, s)
                  else (let (res, s1) = checkUserLimit e (the userId) realmId s in (Some res, s1))
      | ByIp \<Rightarrow> (let (res, s1) = checkIpLimit e ip realmId s in (Some res, s1)))"

text \<open>
  The guard runs its limiters in order; the first rejection ends the request.  The result is the binding
  limit whose headers are sent, or the rejection.
\<close>

fun canActivate ::
  "env \<Rightarrow> limiter list \<Rightarrow> string option \<Rightarrow> ident option \<Rightarrow> string \<Rightarrow> ident \<Rightarrow> rate_limit_result option \<Rightarrow> db \<Rightarrow>
   (rate_limit_result + rate_limit_result option) \<times> db" where
  "canActivate e [] clientId userId ip realmId binding s = (Inr binding, s)"
| "canActivate e (kind # kinds) clientId userId ip realmId binding s =
     (let (res, s1) = runCheck e kind clientId userId ip realmId s in
      case res of
        None \<Rightarrow> canActivate e kinds clientId userId ip realmId binding s1
      | Some x \<Rightarrow>
          if \<not> rlr_allowed x then (Inl x, s1)
          else canActivate e kinds clientId userId ip realmId
                 (case binding of
                    None \<Rightarrow> Some x
                  | Some y \<Rightarrow> if rlr_remaining x < rlr_remaining y then Some x else Some y) s1)"

subsection \<open>The database counters are window counters\<close>

lemma rate_row_update [simp]:
  assumes "\<And>x. rl_key (f x) = rl_key x"
  shows "rate_row k (update_rate_row key f s) = (if k = key then map_option f (rate_row k s) else rate_row k s)"
proof -
  have "List.find (\<lambda>x. rl_key x = k) (tbl_update (\<lambda>x. rl_key x = key) f xs)
      = (if k = key then map_option f (List.find (\<lambda>x. rl_key x = k) xs) else List.find (\<lambda>x. rl_key x = k) xs)" for xs
    using assms by (induction xs) auto
  then show ?thesis by (simp add: rate_row_def update_rate_row_def)
qed

lemma rate_row_upsert:
  "rate_row k (upsert_rate_row t key s) =
     (if k = key
      then Some (case rate_row key s of
             None \<Rightarrow> \<lparr> rl_key = key, rl_minuteCount = 1, rl_minuteWindowStart = t, rl_hourCount = 1, rl_hourWindowStart = t \<rparr>
           | Some x \<Rightarrow> x\<lparr> rl_minuteCount := rl_minuteCount x + 1, rl_hourCount := rl_hourCount x + 1 \<rparr>)
      else rate_row k s)"
proof -
  have "List.find P (xs @ [y]) = (case List.find P xs of None \<Rightarrow> if P y then Some y else None | Some x \<Rightarrow> Some x)"
    for P :: "rate_limit_row \<Rightarrow> bool" and xs y
    by (induction xs) auto
  then show ?thesis
    by (auto simp: upsert_rate_row_def rate_row_def [of _ "s\<lparr>rateLimitEntries := _\<rparr>"] split: option.split)
       (auto simp: rate_row_def)
qed

text \<open>A request of the limiter: its environment and its key; \<open>lims\<close> is the configuration of the limits.\<close>

type_synonym limits = "string \<Rightarrow> int \<times> int"

definition db_request :: "limits \<Rightarrow> env \<times> string \<Rightarrow> db \<Rightarrow> bool \<times> db" where
  "db_request lims q s =
     (let (res, s') = checkWithDatabase (fst q) (snd q) (fst (lims (snd q))) (snd (lims (snd q))) s
      in (rlr_allowed res, s'))"

definition minute_start :: "string \<Rightarrow> db \<Rightarrow> millis option" where
  "minute_start key s = map_option rl_minuteWindowStart (rate_row key s)"

definition minute_used :: "string \<Rightarrow> db \<Rightarrow> int" where
  "minute_used key s = (case rate_row key s of None \<Rightarrow> 0 | Some x \<Rightarrow> rl_minuteCount x)"

definition hour_start :: "string \<Rightarrow> db \<Rightarrow> millis option" where
  "hour_start key s = map_option rl_hourWindowStart (rate_row key s)"

definition hour_used :: "string \<Rightarrow> db \<Rightarrow> int" where
  "hour_used key s = (case rate_row key s of None \<Rightarrow> 0 | Some x \<Rightarrow> rl_hourCount x)"

lemmas counter_views = minute_start_def minute_used_def hour_start_def hour_used_def

text \<open>The row of a key after a request of that key, in one piece.\<close>

lemma db_request_row:
  assumes "lims key = (lm, lh)"
  shows "rate_row k (snd (db_request lims (e, key) s)) =
    (if k = key
     then Some (let m0 = (case rate_row key s of None \<Rightarrow> 0 | Some x \<Rightarrow>
                      if now e - rl_minuteWindowStart x \<ge> minuteWindowMs then 0 else rl_minuteCount x);
                    h0 = (case rate_row key s of None \<Rightarrow> 0 | Some x \<Rightarrow>
                      if now e - rl_hourWindowStart x \<ge> hourWindowMs then 0 else rl_hourCount x);
                    ok = (m0 + 1 \<le> lm \<and> h0 + 1 \<le> lh)
                in \<lparr> rl_key = key, rl_minuteCount = (if ok then m0 + 1 else m0),
                     rl_minuteWindowStart = (case rate_row key s of None \<Rightarrow> now e | Some x \<Rightarrow>
                       if now e - rl_minuteWindowStart x \<ge> minuteWindowMs then now e else rl_minuteWindowStart x),
                     rl_hourCount = (if ok then h0 + 1 else h0),
                     rl_hourWindowStart = (case rate_row key s of None \<Rightarrow> now e | Some x \<Rightarrow>
                       if now e - rl_hourWindowStart x \<ge> hourWindowMs then now e else rl_hourWindowStart x) \<rparr>)
     else rate_row k s)"
proof -
  have key: "rate_row key s = Some x \<Longrightarrow> rl_key x = key" for x
    by (auto simp: rate_row_def dest: find_SomeD)
  show ?thesis
    by (cases "rate_row key s")
       (auto simp: db_request_def checkWithDatabase_def Let_def assms rate_row_upsert key split_beta
          minuteWindowMs_def hourWindowMs_def rejected_def)
qed

lemma db_request_allowed:
  assumes "lims key = (lm, lh)"
  shows "fst (db_request lims (e, key) s) \<longleftrightarrow>
    (case rate_row key s of None \<Rightarrow> 0 | Some x \<Rightarrow>
       if now e - rl_minuteWindowStart x \<ge> minuteWindowMs then 0 else rl_minuteCount x) + 1 \<le> lm \<and>
    (case rate_row key s of None \<Rightarrow> 0 | Some x \<Rightarrow>
       if now e - rl_hourWindowStart x \<ge> hourWindowMs then 0 else rl_hourCount x) + 1 \<le> lh"
  by (cases "rate_row key s")
     (auto simp: db_request_def checkWithDatabase_def Let_def assms rate_row_upsert split_beta
        minuteWindowMs_def hourWindowMs_def rejected_def)

interpretation minute: window_counter minuteWindowMs "max 0 (fst (lims key))" "\<lambda>q. snd q = key" "\<lambda>q. now (fst q)"
  "db_request lims" "minute_start key" "minute_used key" for lims :: limits and key
proof unfold_locales
  fix q :: "env \<times> string" and s
  obtain e k lm lh where q: "q = (e, k)" "lims k = (lm, lh)" by (metis surj_pair)
  note row = db_request_row [of lims k lm lh key e s, OF q(2), folded q(1)]
  note ok = db_request_allowed [of lims k lm lh e s, OF q(2), folded q(1)]
  show "minute_start key (snd (db_request lims q s)) = minute_start key s \<and>
      minute_used key (snd (db_request lims q s)) = minute_used key s" if "snd q \<noteq> key"
    using that row q(1) by (simp add: counter_views)
  show "minute_start key (snd (db_request lims q s)) = Some w \<and>
      minute_used key (snd (db_request lims q s)) = minute_used key s + (if fst (db_request lims q s) then 1 else 0)"
    if "snd q = key" "minute_start key s = Some w" "now (fst q) < w + minuteWindowMs" for w
    using that row ok q(1) by (auto simp: counter_views Let_def)
  show "\<exists>w'. minute_start key (snd (db_request lims q s)) = Some w' \<and> w' \<le> now (fst q) \<and>
      now (fst q) < w' + minuteWindowMs \<and> (\<forall>w. minute_start key s = Some w \<longrightarrow> w + minuteWindowMs \<le> w') \<and>
      minute_used key (snd (db_request lims q s)) = (if fst (db_request lims q s) then 1 else 0)"
    if "snd q = key" "\<And>w. minute_start key s = Some w \<Longrightarrow> w + minuteWindowMs \<le> now (fst q)"
    using that row ok q(1) by (auto simp: counter_views Let_def minuteWindowMs_def split: option.split)
  show "minute_used key (snd (db_request lims q s)) \<le> max 0 (fst (lims key))"
    if "snd q = key" "fst (db_request lims q s)"
    using that row ok q by (auto simp: counter_views Let_def)
qed (simp_all add: minuteWindowMs_def)

interpretation hour: window_counter hourWindowMs "max 0 (snd (lims key))" "\<lambda>q. snd q = key" "\<lambda>q. now (fst q)"
  "db_request lims" "hour_start key" "hour_used key" for lims :: limits and key
proof unfold_locales
  fix q :: "env \<times> string" and s
  obtain e k lm lh where q: "q = (e, k)" "lims k = (lm, lh)" by (metis surj_pair)
  note row = db_request_row [of lims k lm lh key e s, OF q(2), folded q(1)]
  note ok = db_request_allowed [of lims k lm lh e s, OF q(2), folded q(1)]
  show "hour_start key (snd (db_request lims q s)) = hour_start key s \<and>
      hour_used key (snd (db_request lims q s)) = hour_used key s" if "snd q \<noteq> key"
    using that row q(1) by (simp add: counter_views)
  show "hour_start key (snd (db_request lims q s)) = Some w \<and>
      hour_used key (snd (db_request lims q s)) = hour_used key s + (if fst (db_request lims q s) then 1 else 0)"
    if "snd q = key" "hour_start key s = Some w" "now (fst q) < w + hourWindowMs" for w
    using that row ok q(1) by (auto simp: counter_views Let_def)
  show "\<exists>w'. hour_start key (snd (db_request lims q s)) = Some w' \<and> w' \<le> now (fst q) \<and>
      now (fst q) < w' + hourWindowMs \<and> (\<forall>w. hour_start key s = Some w \<longrightarrow> w + hourWindowMs \<le> w') \<and>
      hour_used key (snd (db_request lims q s)) = (if fst (db_request lims q s) then 1 else 0)"
    if "snd q = key" "\<And>w. hour_start key s = Some w \<Longrightarrow> w + hourWindowMs \<le> now (fst q)"
    using that row ok q(1) by (auto simp: counter_views Let_def hourWindowMs_def split: option.split)
  show "hour_used key (snd (db_request lims q s)) \<le> max 0 (snd (lims key))"
    if "snd q = key" "fst (db_request lims q s)"
    using that row ok q by (auto simp: counter_views Let_def)
qed (simp_all add: hourWindowMs_def)

subsection \<open>The counters in Redis\<close>

definition redis_request :: "limits \<Rightarrow> env \<times> string \<Rightarrow> db \<Rightarrow> bool \<times> db" where
  "redis_request lims q s =
     (let (res, s') = checkWithRedis (fst q) (snd q) (fst (lims (snd q))) (snd (lims (snd q))) s
      in (rlr_allowed res, s'))"

definition minute_of :: "env \<Rightarrow> int" where
  "minute_of e = now e div 1000 div 60"

lemma show_nat_inj: "show_nat m = show_nat n \<Longrightarrow> m = n"
  by (metis parseInt_show_nat of_nat_eq_iff option.inject)

lemma show_nat_no_colon: "CHR '':'' \<notin> set (show_nat n)"
proof -
  have "\<not> is_js_digit (CHR '':'')" by code_simp
  with show_nat_all_digits [of n] show ?thesis by (auto simp: list_all_iff)
qed

lemma minuteKey_inj:
  assumes "minuteKey k v = minuteKey k' v'" and "0 \<le> v" "0 \<le> v'"
  shows "k = k'" and "v = v'"
proof -
  have cut: "takeWhile (\<lambda>c. c \<noteq> CHR '':'') (rev (k @ '':'' @ show_nat n)) = rev (show_nat n)" for k n
  proof -
    have "\<forall>c \<in> set (rev (show_nat n)). c \<noteq> CHR '':''" using show_nat_no_colon [of n] by auto
    then show ?thesis by (simp add: takeWhile_append2 del: set_rev)
  qed
  have eq: "k @ '':'' @ show_nat (nat v) = k' @ '':'' @ show_nat (nat v')"
    using assms(1) by (simp add: minuteKey_def)
  then have "rev (show_nat (nat v)) = rev (show_nat (nat v'))" using cut by metis
  then have sn: "show_nat (nat v) = show_nat (nat v')" by simp
  with assms(2,3) show "v = v'" using show_nat_inj by fastforce
  from eq sn show "k = k'" by simp
qed

lemma minuteKey_hourKey: "minuteKey k v \<noteq> hourKey k' v'"
  by (simp add: minuteKey_def hourKey_def)

lemma counter_set [simp]: "map_of (redisCounters (set_counter key v s)) = (map_of (redisCounters s))(key \<mapsto> v)"
  by (simp add: set_counter_def update_conv')

text \<open>The counter of a minute is at least zero and outlives its minute.\<close>

definition minute_counter_ok :: "string \<Rightarrow> int \<Rightarrow> db \<Rightarrow> bool" where
  "minute_counter_ok key w s =
     (case map_of (redisCounters s) (minuteKey key w) of
        None \<Rightarrow> True
      | Some (n, ends) \<Rightarrow> 0 \<le> n \<and> (case ends of None \<Rightarrow> True | Some x \<Rightarrow> (w + 1) * 60000 \<le> x))"

definition minute_counter :: "string \<Rightarrow> int \<Rightarrow> db \<Rightarrow> int" where
  "minute_counter key w s = (case map_of (redisCounters s) (minuteKey key w) of None \<Rightarrow> 0 | Some (n, _) \<Rightarrow> n)"

lemma redis_incr_other: "k \<noteq> key \<Longrightarrow> map_of (redisCounters (snd (redis_incr e key n s))) k = map_of (redisCounters s) k"
  by (simp add: redis_incr_def Let_def split_beta)

lemma redis_decr_other: "k \<noteq> key \<Longrightarrow> map_of (redisCounters (redis_decr e key s)) k = map_of (redisCounters s) k"
  by (simp add: redis_decr_def Let_def split_beta)

lemma redis_request_state:
  "snd (redis_request lims q s) =
     (let mk = minuteKey (snd q) (minute_of (fst q)); hk = hourKey (snd q) (now (fst q) div 1000 div 3600);
          (m, s1) = redis_incr (fst q) mk 120 s; (h, s2) = redis_incr (fst q) hk 7200 s1
      in if m > fst (lims (snd q)) \<or> h > snd (lims (snd q)) then redis_decr (fst q) hk (redis_decr (fst q) mk s2) else s2)"
proof -
  have "snd (if a then (x, u) else if b then (y, u) else (z, u)) = u" for a b and x y z :: rate_limit_result and u :: db
    by simp
  then show ?thesis
    by (simp only: redis_request_def checkWithRedis_def Let_def split_beta fst_conv snd_conv minute_of_def)
qed

lemma redis_request_ok:
  "fst (redis_request lims q s) \<longleftrightarrow>
     fst (redis_incr (fst q) (minuteKey (snd q) (minute_of (fst q))) 120 s) \<le> fst (lims (snd q)) \<and>
     fst (redis_incr (fst q) (hourKey (snd q) (now (fst q) div 1000 div 3600)) 7200
       (snd (redis_incr (fst q) (minuteKey (snd q) (minute_of (fst q))) 120 s))) \<le> snd (lims (snd q))"
  by (simp add: redis_request_def checkWithRedis_def Let_def split_beta minute_of_def rejected_def not_le)

lemma redis_request_foreign:
  assumes "minuteKey (snd q) (minute_of (fst q)) \<noteq> minuteKey key w"
  shows "map_of (redisCounters (snd (redis_request lims q s))) (minuteKey key w)
       = map_of (redisCounters s) (minuteKey key w)"
  unfolding redis_request_state Let_def split_beta
  using assms [symmetric] minuteKey_hourKey [of key w] by (simp add: redis_incr_other redis_decr_other)

lemma live_minute_counter:
  assumes "minute_counter_ok key w s" and "t < (w + 1) * 60000"
  shows "live_counter t (minuteKey key w) s = map_of (redisCounters s) (minuteKey key w)"
  using assms by (auto simp: live_counter_def minute_counter_ok_def split: option.splits)

lemma redis_incr_minute:
  assumes "minute_counter_ok key w s" and "now e < (w + 1) * 60000" and "w * 60000 \<le> now e"
  shows "fst (redis_incr e (minuteKey key w) 120 s) = minute_counter key w s + 1"
    and "minute_counter key w (snd (redis_incr e (minuteKey key w) 120 s)) = minute_counter key w s + 1"
    and "minute_counter_ok key w (snd (redis_incr e (minuteKey key w) 120 s))"
  using assms live_minute_counter [OF assms(1,2)]
  by (auto simp: redis_incr_def minute_counter_def minute_counter_ok_def nullish_else_def Let_def split: option.splits)

lemma redis_decr_minute:
  assumes "minute_counter_ok key w s" and "now e < (w + 1) * 60000" and "1 \<le> minute_counter key w s"
  shows "minute_counter key w (redis_decr e (minuteKey key w) s) = minute_counter key w s - 1"
    and "minute_counter_ok key w (redis_decr e (minuteKey key w) s)"
  using assms live_minute_counter [OF assms(1,2)]
  by (auto simp: redis_decr_def minute_counter_def minute_counter_ok_def nullish_else_def Let_def split: option.splits)

lemma minute_bounds: "minute_of e = w \<Longrightarrow> w * 60000 \<le> now e \<and> now e < (w + 1) * 60000"
proof -
  assume w: "minute_of e = w"
  have "now e div 60000 = now e div 1000 div 60" using zdiv_zmult2_eq [of 60 "now e" 1000] by simp
  with w have "w = now e div 60000" by (simp add: minute_of_def)
  then obtain m where "now e = w * 60000 + m" "0 \<le> m" "m < 60000"
    using div_mult_mod_eq [of "now e" 60000, symmetric] by (intro that [of "now e mod 60000"]) simp_all
  then show ?thesis by (simp add: algebra_simps)
qed

lemma minute_counter_nonneg: "minute_counter_ok key w s \<Longrightarrow> 0 \<le> minute_counter key w s"
  by (auto simp: minute_counter_ok_def minute_counter_def split: option.splits)

lemma redis_request_mine:
  assumes "minute_counter_ok key w s" and "minute_of e = w"
  shows "minute_counter key w (snd (redis_request lims (e, key) s))
       = minute_counter key w s + (if fst (redis_request lims (e, key) s) then 1 else 0)"
    and "minute_counter_ok key w (snd (redis_request lims (e, key) s))"
    and "fst (redis_request lims (e, key) s) \<Longrightarrow> minute_counter key w s + 1 \<le> fst (lims key)"
proof -
  let ?mk = "minuteKey key w" and ?hk = "hourKey key (now e div 1000 div 3600)"
  let ?s1 = "snd (redis_incr e ?mk 120 s)" let ?s2 = "snd (redis_incr e ?hk 7200 ?s1)"
  note t = minute_bounds [OF assms(2)]
  note inc = redis_incr_minute [OF assms(1) t [THEN conjunct2] t [THEN conjunct1]]
  have same2: "minute_counter key w ?s2 = minute_counter key w ?s1" "minute_counter_ok key w ?s2 = minute_counter_ok key w ?s1"
    using redis_incr_other [OF minuteKey_hourKey] by (simp_all add: minute_counter_def minute_counter_ok_def)
  have dec: "minute_counter key w (redis_decr e ?mk ?s2) = minute_counter key w s" "minute_counter_ok key w (redis_decr e ?mk ?s2)"
    using redis_decr_minute [of key w ?s2 e] inc same2 t minute_counter_nonneg [OF assms(1)] by auto
  have h: "minute_counter key w (redis_decr e ?hk x) = minute_counter key w x"
    "minute_counter_ok key w (redis_decr e ?hk x) = minute_counter_ok key w x" for x
    using redis_decr_other [OF minuteKey_hourKey] by (simp_all add: minute_counter_def minute_counter_ok_def)
  note state = redis_request_state [of lims "(e, key)" s, unfolded Let_def split_beta fst_conv snd_conv assms(2)]
  note ok = redis_request_ok [of lims "(e, key)" s, unfolded fst_conv snd_conv assms(2)]
  show "minute_counter key w (snd (redis_request lims (e, key) s))
       = minute_counter key w s + (if fst (redis_request lims (e, key) s) then 1 else 0)"
    unfolding state ok using inc same2 dec h by auto
  show "minute_counter_ok key w (snd (redis_request lims (e, key) s))"
    unfolding state using inc same2 dec h by auto
  show "fst (redis_request lims (e, key) s) \<Longrightarrow> minute_counter key w s + 1 \<le> fst (lims key)"
    unfolding ok using inc by simp
qed

text \<open>The requests of a key that Redis allows in one minute of the clock.\<close>

fun redis_served :: "limits \<Rightarrow> string \<Rightarrow> int \<Rightarrow> (env \<times> string) list \<Rightarrow> db \<Rightarrow> int" where
  "redis_served lims key w [] s = 0"
| "redis_served lims key w (q # qs) s =
     (if snd q = key \<and> minute_of (fst q) = w \<and> fst (redis_request lims q s) then 1 else 0)
     + redis_served lims key w qs (snd (redis_request lims q s))"

lemma redis_served_le:
  assumes "minute_counter_ok key w s" and "0 \<le> w" and "\<And>q. q \<in> set qs \<Longrightarrow> 0 \<le> now (fst q)"
  shows "redis_served lims key w qs s \<le> max 0 (fst (lims key) - minute_counter key w s)"
  using assms(1,3)
proof (induction qs arbitrary: s)
  case (Cons q qs)
  obtain e k where q: "q = (e, k)" by (cases q)
  have pos: "0 \<le> minute_of e" using Cons.prems(2) [of q] q by (simp add: minute_of_def pos_imp_zdiv_nonneg_iff)
  show ?case
  proof (cases "k = key \<and> minute_of e = w")
    case True
    then have [simp]: "k = key" and m: "minute_of e = w" by simp_all
    note r = redis_request_mine [OF Cons.prems(1) m, of lims]
    have "redis_served lims key w qs (snd (redis_request lims q s))
        \<le> max 0 (fst (lims key) - minute_counter key w (snd (redis_request lims q s)))"
      using Cons.IH r(2) Cons.prems(2) q by auto
    with r(1,3) show ?thesis by (auto simp: q m split: if_splits)
  next
    case False
    then have "minuteKey (snd q) (minute_of (fst q)) \<noteq> minuteKey key w"
      using minuteKey_inj [of k "minute_of e" key w] pos assms(2) q by auto
    note f = redis_request_foreign [OF this, of lims s]
    have "minute_counter_ok key w (snd (redis_request lims q s))" using f Cons.prems(1) by (simp add: minute_counter_ok_def)
    then have "redis_served lims key w qs (snd (redis_request lims q s))
        \<le> max 0 (fst (lims key) - minute_counter key w (snd (redis_request lims q s)))"
      using Cons.IH Cons.prems(2) by auto
    with False f q show ?thesis by (auto simp: minute_counter_def)
  qed
qed simp

subsection \<open>Properties\<close>


definition request_at :: "millis \<Rightarrow> env \<times> string" where
  "request_at t = (sample_env\<lparr> now := t \<rparr>, ''k'')"

text \<open>Twice the limit is reached: two requests at the end of one window, two at the start of the next.\<close>

definition sample_run :: "(env \<times> string) list" where
  "sample_run = map request_at [0, 59000, 59500, 60000, 61000, 62000]"


subsection \<open>Observations\<close>

text \<open>
  The clean-up job deletes a row when either of its windows began more than an hour ago, so it forgets a minute
  window that is still running: with a limit of one per minute, two requests two seconds apart are
  allowed when a clean-up falls between them.
\<close>

definition cleanup_run :: "bool list" where
  "cleanup_run =
     (let lims = (\<lambda>_. (1, 100)); (a, s1) = db_request lims (request_at 0) sample_db;
          (b, s2) = db_request lims (request_at 3599000) s1;
          (c, s3) = db_request lims (request_at 3600500) s2;
          s4 = cleanupExpiredDbEntries (sample_env\<lparr> now := 3600600 \<rparr>) s2;
          (d, s5) = db_request lims (request_at 3600700) s4
      in [a, b, c, d])"

lemma cleanup_forgets_running_minute: "cleanup_run = [True, True, False, True]"
  by code_simp

text \<open>
  In the database the time announced for a reset is a full window after the rejected request, not the end of
  the running window.
\<close>

lemma database_reset_is_late:
  "rlr_resetAt (fst (checkWithDatabase (sample_env\<lparr> now := 59000 \<rparr>) ''k'' 1 100
     (snd (checkWithDatabase (sample_env\<lparr> now := 0 \<rparr>) ''k'' 1 100 sample_db)))) = 119"
  by code_simp

end
