(* ===== verification/Magic_Link.thy ===== *)
theory Magic_Link
  imports Rate_Limit Redirect_Uri Contracts
begin

text \<open>
  \<open>src/src/magic-link/magic-link.service.ts\<close>: sign-in links sent by e-mail.  A request stores a row with the
  hash of a random token and mails a link that carries the token; the verification looks the row up by
  the hash and spends it.  Rows are never deleted: they move from \<^const>\<open>PENDING\<close> to one of the other
  statuses.  The rate limiter and the matching of redirect URIs are those of the other endpoints.
\<close>

subsection \<open>Requests\<close>

text \<open>
  \<open>md_subject\<close> is the subject that the theme gives the mail, and \<open>md_mailFails\<close> says that the mail provider
  rejects it, in which case \<open>sendEmail\<close> throws.  A sent mail is the recipient with the link.
\<close>

record magic_draws =
  md_id :: ident
  md_rawToken :: string
  md_subject :: string
  md_mailFails :: bool

record magic_link_request_result =
  mrq_success :: bool
  mrq_message :: string
  mrq_rateLimit :: "rate_limit_result option"

type_synonym magic_mail = "string \<times> string"

definition magic_refused :: "string \<Rightarrow> (magic_link_request_result \<times> magic_mail option) result" where
  "magic_refused m = Inr (\<lparr> mrq_success = False, mrq_message = m, mrq_rateLimit = None \<rparr>, None)"

definition appendToken :: "string \<Rightarrow> string \<Rightarrow> string" where
  "appendToken callback rawToken =
     callback @ (if CHR ''?'' \<in> set callback then ''&'' else ''?'') @ ''token='' @ rawToken"

definition resolve_callback :: "client_row \<Rightarrow> string option \<Rightarrow> string + string" where
  "resolve_callback c magicLinkUrl =
     (if \<not> falsy magicLinkUrl then
        if matchesRedirectUri (the magicLinkUrl) (client_redirectUris c) then Inr (the magicLinkUrl)
        else Inl ''Invalid magic link URL''
      else
        let fallback = List.find (\<lambda>u. \<not> ends_with ''/*'' u) (client_redirectUris c)
        in if falsy fallback then Inl ''Client has no usable redirect URI for the magic link callback''
           else Inr (the fallback))"

definition ip_limit :: "env \<Rightarrow> string option \<Rightarrow> ident \<Rightarrow> db \<Rightarrow> rate_limit_result option \<times> db" where
  "ip_limit e ipAddress realmId s =
     (if falsy ipAddress then (None, s)
      else let (res, s1) = checkIpLimit e (the ipAddress) realmId s
           in (if rlr_allowed res then None else Some res, s1))"

definition cancelPendingRequests :: "ident \<Rightarrow> ident \<Rightarrow> db \<Rightarrow> db" where
  "cancelPendingRequests userId realmId s =
     s\<lparr> magicLinkRequests := tbl_update (\<lambda>m. ml_userId m = userId \<and> ml_realmId m = realmId \<and> ml_status m = PENDING)
                              (\<lambda>m. m\<lparr> ml_status := CANCELLED \<rparr>) (magicLinkRequests s) \<rparr>"

definition recent_requests :: "env \<Rightarrow> ident \<Rightarrow> string \<Rightarrow> db \<Rightarrow> int" where
  "recent_requests e realmId email s =
     tbl_count (\<lambda>m. ml_realmId m = realmId \<and> ml_email m = email \<and> ml_createdAt m \<ge> now e - 900 * 1000)
       (magicLinkRequests s)"

definition new_magic_link ::
  "env \<Rightarrow> magic_draws \<Rightarrow> realm_row \<Rightarrow> user_row \<Rightarrow> string \<Rightarrow> string option \<Rightarrow> string option \<Rightarrow> magic_link_row" where
  "new_magic_link e d r u email ipAddress userAgent =
     \<lparr> ml_id = md_id d, ml_realmId = realm_id r, ml_userId = user_id u, ml_email = email,
       ml_tokenHash = sha256 e (md_rawToken d), ml_status = PENDING,
       ml_expiresAt = now e + realm_magicLinkExpirySeconds r * 1000, ml_completedAt = None,
       ml_ipAddress = ipAddress, ml_userAgent = userAgent, ml_createdAt = now e \<rparr>"

definition send_magic_link ::
  "env \<Rightarrow> magic_draws \<Rightarrow> realm_row \<Rightarrow> user_row \<Rightarrow> string \<Rightarrow> string \<Rightarrow> string option \<Rightarrow> string option \<Rightarrow> db \<Rightarrow>
   (magic_link_request_result \<times> magic_mail option) result \<times> db" where
  "send_magic_link e d r u email callback ipAddress userAgent s =
     (let s1 = cancelPendingRequests (user_id u) (realm_id r) s;
          row = new_magic_link e d r u email ipAddress userAgent
      in if list_ex (\<lambda>m. ml_tokenHash m = ml_tokenHash row) (magicLinkRequests s1) then (Inl PrismaUnique, s1)
         else let s2 = s1\<lparr> magicLinkRequests := magicLinkRequests s1 @ [row] \<rparr>
              in case realm_by_id (realm_id r) s2 of
                   None \<Rightarrow> (magic_refused ''Realm not found'', s2)
                 | Some _ \<Rightarrow>
                     if md_mailFails d then (Inl PlainError, s2)
                     else (Inr (\<lparr> mrq_success = True, mrq_message = ''Magic link sent successfully'',
                                  mrq_rateLimit = None \<rparr>,
                                Some (email, appendToken callback (md_rawToken d))),
                           s2\<lparr> outbox := outbox s2 @ [(email, md_subject d)] \<rparr>))"

definition requestMagicLink ::
  "env \<Rightarrow> magic_draws \<Rightarrow> string \<Rightarrow> ident \<Rightarrow> string \<Rightarrow> string option \<Rightarrow> string option \<Rightarrow> string option \<Rightarrow> db \<Rightarrow>
   (magic_link_request_result \<times> magic_mail option) result \<times> db" where
  "requestMagicLink e d email realmId clientId ipAddress userAgent magicLinkUrl s =
     (case realm_by_id realmId s of
        None \<Rightarrow> (magic_refused ''Realm not found'', s)
      | Some r \<Rightarrow>
          if \<not> realm_magicLinkEnabled r
          then (magic_refused ''Magic link authentication is not enabled for this realm'', s)
          else case List.find (\<lambda>c. client_realmId c = realmId \<and> client_clientId c = clientId) (clients s) of
            None \<Rightarrow> (magic_refused ''Invalid client'', s)
          | Some c \<Rightarrow>
              (case resolve_callback c magicLinkUrl of
                 Inl m \<Rightarrow> (magic_refused m, s)
               | Inr callback \<Rightarrow>
                   (let (limited, s1) = ip_limit e ipAddress realmId s in
                    if limited \<noteq> None
                    then (Inr (\<lparr> mrq_success = False,
                                 mrq_message = ''Too many requests. Please try again later.'',
                                 mrq_rateLimit = limited \<rparr>, None), s1)
                    else
                      let normalizedEmail = to_lower email in
                      case List.find (\<lambda>u. user_realmId u = realmId \<and> user_email u = Some normalizedEmail) (users s1) of
                        None \<Rightarrow>
                          (Inr (\<lparr> mrq_success = True,
                                  mrq_message = ''If an account exists with this email, a magic link has been sent'',
                                  mrq_rateLimit = None \<rparr>, None), s1)
                      | Some u \<Rightarrow>
                          if \<not> user_enabled u then (magic_refused ''User account is disabled'', s1)
                          else if recent_requests e realmId normalizedEmail s1 \<ge> realm_magicLinkRateLimitPerEmail r
                          then (magic_refused ''Too many requests. Please try again later.'', s1)
                          else send_magic_link e d r u normalizedEmail callback ipAddress userAgent s1)))"

subsection \<open>Verification\<close>

datatype magic_link_validate_result =
    MagicInvalid string
  | MagicValid (mv_userId: ident) (mv_email: "string option") (mv_realmId: ident)

definition magic_row :: "string \<Rightarrow> db \<Rightarrow> magic_link_row option" where
  "magic_row h s = List.find (\<lambda>m. ml_tokenHash m = h) (magicLinkRequests s)"

definition set_magic_status :: "ident \<Rightarrow> magic_link_status \<Rightarrow> millis option \<Rightarrow> db \<Rightarrow> db" where
  "set_magic_status i st completedAt s =
     s\<lparr> magicLinkRequests := tbl_update (\<lambda>m. ml_id m = i)
          (\<lambda>m. m\<lparr> ml_status := st,
                  ml_completedAt := (if completedAt = None then ml_completedAt m else completedAt) \<rparr>)
          (magicLinkRequests s) \<rparr>"

text \<open>The realm and the user of a row exist: deleting either deletes the row (foreign keys of the schema).\<close>

definition validateMagicLink ::
  "env \<Rightarrow> string \<Rightarrow> string option \<Rightarrow> db \<Rightarrow> magic_link_validate_result \<times> db" where
  "validateMagicLink e rawToken realmName s =
     (case magic_row (sha256 e rawToken) s of
        None \<Rightarrow> (MagicInvalid ''Invalid or expired token'', s)
      | Some m \<Rightarrow>
          (case (realm_by_id (ml_realmId m) s, user_by_id (ml_userId m) s) of
             (Some r, Some u) \<Rightarrow>
               if \<not> realm_magicLinkEnabled r
               then (MagicInvalid ''Magic link authentication is not enabled'', s)
               else if \<not> falsy realmName \<and> realm_name r \<noteq> the realmName then (MagicInvalid ''Invalid realm'', s)
               else if \<not> user_enabled u then (MagicInvalid ''User account is disabled'', s)
               else if ml_status m = COMPLETED then (MagicInvalid ''This link has already been used'', s)
               else if ml_status m = CANCELLED then (MagicInvalid ''This link has been cancelled'', s)
               else if ml_expiresAt m < now e
               then (MagicInvalid ''This link has expired'',
                     if ml_status m = PENDING then set_magic_status (ml_id m) EXPIRED None s else s)
               else if ml_status m \<noteq> PENDING then (MagicInvalid ''Invalid or expired token'', s)
               else (MagicValid (user_id u) (user_email u) (realm_id r),
                     set_magic_status (ml_id m) COMPLETED (Some (now e)) s)
           | _ \<Rightarrow> (MagicInvalid ''Invalid or expired token'', s)))"

definition cleanupExpiredRequests :: "env \<Rightarrow> db \<Rightarrow> db" where
  "cleanupExpiredRequests e s =
     s\<lparr> magicLinkRequests := tbl_update (\<lambda>m. ml_status m = PENDING \<and> ml_expiresAt m < now e)
                              (\<lambda>m. m\<lparr> ml_status := EXPIRED \<rparr>) (magicLinkRequests s) \<rparr>"

text \<open>The endpoint of \<open>magic-link.controller.ts\<close> passes the token on without the realm of its address.\<close>

definition verifyMagicLink :: "env \<Rightarrow> string \<Rightarrow> db \<Rightarrow> magic_link_validate_result result \<times> db" where
  "verifyMagicLink e token s =
     (if token = [] then (Inl BadRequestException, s)
      else let (res, s1) = validateMagicLink e token None s in (Inr res, s1))"

subsection \<open>What the rate limiter leaves alone\<close>

definition only_counters :: "db \<Rightarrow> db \<Rightarrow> bool" where
  "only_counters s s' \<longleftrightarrow> s' = s\<lparr> rateLimitEntries := rateLimitEntries s', redisCounters := redisCounters s' \<rparr>"

lemma only_counters_refl [simp]: "only_counters s s"
  by (simp add: only_counters_def)

lemma only_counters_steps [simp]:
  "only_counters s (set_counter k v s1) \<longleftrightarrow> only_counters s s1"
  "only_counters s (update_rate_row k f s1) \<longleftrightarrow> only_counters s s1"
  "only_counters s (upsert_rate_row t k s1) \<longleftrightarrow> only_counters s s1"
  by (cases s; cases s1; auto simp: only_counters_def set_counter_def update_rate_row_def upsert_rate_row_def
      split: option.split)+

lemma only_counters_redis [simp]:
  "only_counters s (snd (redis_incr e k t s1)) \<longleftrightarrow> only_counters s s1"
  "only_counters s (redis_decr e k s1) \<longleftrightarrow> only_counters s s1"
  by (simp_all add: redis_incr_def redis_decr_def Let_def split: prod.split)

lemma only_counters_checks [simp]:
  "only_counters s (snd (checkWithRedis e k m h s))" "only_counters s (snd (checkWithDatabase e k m h s))"
  by (simp_all add: checkWithRedis_def checkWithDatabase_def Let_def case_prod_beta)

lemma ip_limit_frame: "only_counters s (snd (ip_limit e ip rid s))"
  by (simp add: ip_limit_def checkIpLimit_def realm_check_def rate_check_def case_prod_beta split: option.split)

lemma only_counters_tables:
  assumes "only_counters s s'"
  shows "users s' = users s" "realms s' = realms s" "clients s' = clients s"
    "magicLinkRequests s' = magicLinkRequests s" "outbox s' = outbox s"
  using assms by (metis only_counters_def db.select_convs db.surjective db.update_convs)+

subsection \<open>A spent link stays spent\<close>

definition spent_row :: "string \<Rightarrow> magic_link_row list \<Rightarrow> bool" where
  "spent_row h rows = (case List.find (\<lambda>m. ml_tokenHash m = h) rows of None \<Rightarrow> False | Some m \<Rightarrow> ml_status m \<noteq> PENDING)"

lemma spent_row_update:
  assumes "spent_row h rows" and "\<And>m. ml_tokenHash (f m) = ml_tokenHash m"
    and "\<And>m. ml_status m \<noteq> PENDING \<Longrightarrow> ml_status (f m) \<noteq> PENDING"
  shows "spent_row h (tbl_update p f rows)"
  using assms(1) by (induction rows) (auto simp: spent_row_def assms(2,3))

lemma spent_row_hit:
  assumes "List.find (\<lambda>m. ml_tokenHash m = h) rows = Some m" and "\<And>x. ml_tokenHash (f x) = ml_tokenHash x"
    and "\<And>x. ml_status (f x) \<noteq> PENDING"
  shows "spent_row h (tbl_update (\<lambda>x. ml_id x = ml_id m) f rows)"
  using assms(1) by (induction rows) (auto simp: spent_row_def assms(2,3) split: if_splits)

lemma spent_row_append: "spent_row h rows \<Longrightarrow> spent_row h (rows @ rows')"
  by (induction rows) (auto simp: spent_row_def)

lemma spent_row_set:
  "spent_row h rows \<Longrightarrow> st \<noteq> PENDING \<Longrightarrow> spent_row h (magicLinkRequests (set_magic_status i st c s))"
  if "magicLinkRequests s = rows"
  unfolding set_magic_status_def that [symmetric] by (simp add: spent_row_update)

lemma spent_row_cancel:
  "spent_row h (magicLinkRequests s) \<Longrightarrow> spent_row h (magicLinkRequests (cancelPendingRequests uid rid s))"
  by (simp add: cancelPendingRequests_def spent_row_update)

lemma spent_row_cleanup:
  "spent_row h (magicLinkRequests s) \<Longrightarrow> spent_row h (magicLinkRequests (cleanupExpiredRequests e s))"
  by (simp add: cleanupExpiredRequests_def spent_row_update)

lemma spent_row_request:
  assumes "spent_row h (magicLinkRequests s)"
  shows "spent_row h (magicLinkRequests (snd (requestMagicLink e d email rid cid ip ua url s)))"
proof -
  obtain limited s1 where l: "ip_limit e ip rid s = (limited, s1)" by fastforce
  then have "magicLinkRequests s1 = magicLinkRequests s"
    using only_counters_tables(4) [OF ip_limit_frame [of s e ip rid]] by simp
  with assms have s1: "spent_row h (magicLinkRequests s1)" by simp
  then have "spent_row h (magicLinkRequests (snd (send_magic_link e d r u em cb ip ua s1)))" for r u em cb
    by (simp add: send_magic_link_def Let_def spent_row_append spent_row_cancel split: option.split)
  with s1 assms l show ?thesis
    by (simp add: requestMagicLink_def Let_def split: option.split sum.split)
qed

lemma spent_row_validate:
  "spent_row h (magicLinkRequests s) \<Longrightarrow> spent_row h (magicLinkRequests (snd (validateMagicLink e token rn s)))"
  by (simp add: validateMagicLink_def spent_row_set [OF refl] split: option.split)

subsection \<open>Each link is accepted once\<close>

definition magic_ok :: "magic_link_validate_result \<Rightarrow> bool" where
  "magic_ok res = (case res of MagicValid _ _ _ \<Rightarrow> True | MagicInvalid _ \<Rightarrow> False)"

definition magic_claim :: "string \<Rightarrow> env \<times> string \<times> string option \<Rightarrow> db \<Rightarrow> bool \<times> db" where
  "magic_claim h a s =
     (case a of (e, token, realmName) \<Rightarrow>
        if sha256 e token = h
        then let (res, s1) = validateMagicLink e token realmName s in (magic_ok res, s1)
        else (False, s))"

definition magic_ops :: "(db \<Rightarrow> db) set" where
  "magic_ops = {f. (\<exists>e d email rid cid ip ua url. f = (\<lambda>s. snd (requestMagicLink e d email rid cid ip ua url s)))
     \<or> (\<exists>e token rn. f = (\<lambda>s. snd (validateMagicLink e token rn s)))
     \<or> (\<exists>e. f = cleanupExpiredRequests e) \<or> (\<exists>uid rid. f = cancelPendingRequests uid rid)}"

lemma validate_accepts:
  assumes "validateMagicLink e token rn s = (MagicValid uid em rid, s')"
  obtains m r u where "magic_row (sha256 e token) s = Some m" "ml_status m = PENDING" "now e \<le> ml_expiresAt m"
    "realm_by_id (ml_realmId m) s = Some r" "realm_magicLinkEnabled r" "falsy rn \<or> realm_name r = the rn"
    "user_by_id (ml_userId m) s = Some u" "user_enabled u" "uid = user_id u" "em = user_email u" "rid = realm_id r"
    "s' = set_magic_status (ml_id m) COMPLETED (Some (now e)) s"
  using assms unfolding validateMagicLink_def
  by (fastforce split: option.splits if_splits)

lemma claim_spends_row:
  assumes "validateMagicLink e token rn s = (MagicValid uid em rid, s')"
  shows "spent_row (sha256 e token) (magicLinkRequests s')"
    "\<not> spent_row (sha256 e token) (magicLinkRequests s)"
proof -
  obtain m where m: "magic_row (sha256 e token) s = Some m" "ml_status m = PENDING"
    "s' = set_magic_status (ml_id m) COMPLETED (Some (now e)) s"
    using assms by (rule validate_accepts)
  then show "spent_row (sha256 e token) (magicLinkRequests s')"
    by (simp add: magic_row_def set_magic_status_def spent_row_hit)
  show "\<not> spent_row (sha256 e token) (magicLinkRequests s)"
    using m(1,2) by (simp add: spent_row_def magic_row_def)
qed

interpretation magic_use: single_use "magic_claim h" "\<lambda>s. \<not> spent_row h (magicLinkRequests s)" magic_ops for h
proof unfold_locales
  fix a s f
  show "\<not> spent_row h (magicLinkRequests s)" if "fst (magic_claim h a s)"
    using that claim_spends_row(2)
    by (auto simp: magic_claim_def magic_ok_def split: prod.splits if_splits magic_link_validate_result.splits)
  show "\<not> \<not> spent_row h (magicLinkRequests (snd (magic_claim h a s)))" if "fst (magic_claim h a s)"
    using that claim_spends_row(1)
    by (auto simp: magic_claim_def magic_ok_def split: prod.splits if_splits magic_link_validate_result.splits)
  show "\<not> \<not> spent_row h (magicLinkRequests (snd (magic_claim h a s)))"
    if "\<not> \<not> spent_row h (magicLinkRequests s)"
    using that spent_row_validate [of h s] by (simp add: magic_claim_def case_prod_beta)
  show "\<not> \<not> spent_row h (magicLinkRequests (f s))"
    if "f \<in> magic_ops" "\<not> \<not> spent_row h (magicLinkRequests s)"
    using that by (auto simp: magic_ops_def spent_row_request spent_row_validate spent_row_cleanup spent_row_cancel)
qed

subsection \<open>What a sent link means\<close>

lemma resolve_callback_registered:
  "resolve_callback c url = Inr callback \<Longrightarrow> matchesRedirectUri callback (client_redirectUris c)"
  by (fastforce simp: resolve_callback_def Let_def matchesRedirectUri_def list_ex_iff matches_pattern_def falsy_def
      dest: find_SomeD split: if_splits option.splits)

lemma requestMagicLink_sent:
  assumes "requestMagicLink e d email rid cid ip ua url s = (Inr (res, Some mail), s')"
  obtains r c callback u s1 where "realm_by_id rid s = Some r" "realm_magicLinkEnabled r"
    "c \<in> set (clients s)" "client_realmId c = rid" "client_clientId c = cid"
    "resolve_callback c url = Inr callback" "only_counters s s1"
    "u \<in> set (users s)" "user_realmId u = rid" "user_email u = Some (to_lower email)" "user_enabled u"
    "recent_requests e rid (to_lower email) s1 < realm_magicLinkRateLimitPerEmail r"
    "send_magic_link e d r u (to_lower email) callback ip ua s1 = (Inr (res, Some mail), s')"
proof -
  obtain limited s1 where l: "ip_limit e ip rid s = (limited, s1)" by fastforce
  then have f: "only_counters s s1" using ip_limit_frame [of s e ip rid] by simp
  note tables = only_counters_tables [OF f]
  from assms l show thesis
    by (auto simp: requestMagicLink_def magic_refused_def Let_def tables split: option.splits sum.splits if_splits
        dest!: find_SomeD intro!: that f)
qed

lemma cancel_hashes:
  "ml_tokenHash ` set (magicLinkRequests (cancelPendingRequests uid rid s)) = ml_tokenHash ` set (magicLinkRequests s)"
  by (simp add: cancelPendingRequests_def map_tbl_update flip: set_map)

lemma list_ex_hash: "list_ex (\<lambda>m. ml_tokenHash m = h) rows \<longleftrightarrow> h \<in> ml_tokenHash ` set rows"
  by (auto simp: list_ex_iff)

lemma send_magic_link_sent:
  assumes "send_magic_link e d r u email callback ip ua s = (Inr (res, Some mail), s')"
  shows "mail = (email, appendToken callback (md_rawToken d))"
    "magicLinkRequests s' = magicLinkRequests (cancelPendingRequests (user_id u) (realm_id r) s)
       @ [new_magic_link e d r u email ip ua]"
    "sha256 e (md_rawToken d) \<notin> ml_tokenHash ` set (magicLinkRequests s)"
    "users s' = users s" "realms s' = realms s"
  using assms cancel_hashes [of "user_id u" "realm_id r" s]
  by (auto simp: send_magic_link_def magic_refused_def Let_def list_ex_hash new_magic_link_def
      split: option.splits if_splits) (simp_all add: cancelPendingRequests_def)

lemma spent_refused:
  assumes "spent_row (sha256 e token) (magicLinkRequests s)"
  shows "\<not> magic_ok (fst (validateMagicLink e token rn s))"
  using assms claim_spends_row(2) [of e token rn s]
  by (cases "validateMagicLink e token rn s") (auto simp: magic_ok_def split: magic_link_validate_result.split)

lemma spent_row_find:
  "List.find (\<lambda>m. ml_tokenHash m = h) rows = Some m \<Longrightarrow> ml_status m \<noteq> PENDING \<Longrightarrow> spent_row h (rows @ rows')"
  by (intro spent_row_append) (simp add: spent_row_def)

lemma fresh_link_accepted:
  assumes "magicLinkRequests s = rows @ [new_magic_link e d r u email ip ua]"
    and "sha256 e (md_rawToken d) \<notin> ml_tokenHash ` set rows"
    and "realm_by_id (realm_id r) s = Some r" "realm_magicLinkEnabled r"
    and "user_by_id (user_id u) s = Some u" "user_enabled u"
    and "t \<le> now e + realm_magicLinkExpirySeconds r * 1000"
  shows "fst (validateMagicLink (e\<lparr> now := t \<rparr>) (md_rawToken d) (Some (realm_name r)) s)
       = MagicValid (user_id u) (user_email u) (realm_id r)"
proof -
  have "List.find (\<lambda>m. ml_tokenHash m = sha256 e (md_rawToken d)) rows = None"
    using assms(2) by (force simp: find_None_iff)
  then have "magic_row (sha256 e (md_rawToken d)) s = Some (new_magic_link e d r u email ip ua)"
    using assms(1) by (simp add: magic_row_def find_append_None new_magic_link_def)
  then show ?thesis
    using assms(3-7) by (simp add: validateMagicLink_def new_magic_link_def)
qed

lemma cancelled_row_spent:
  assumes "distinct (map ml_tokenHash (magicLinkRequests s))" "m \<in> set (magicLinkRequests s)"
    and "ml_userId m = uid" "ml_realmId m = rid"
  shows "spent_row (ml_tokenHash m) (magicLinkRequests (cancelPendingRequests uid rid s) @ rows)"
proof -
  have "List.find (\<lambda>x. ml_tokenHash x = ml_tokenHash m) (magicLinkRequests s) = Some m"
    using assms(1,2) by (simp add: find_unique distinct_id_eq)
  then show ?thesis
    using assms(3,4)
    by (intro spent_row_append) (simp add: spent_row_def cancelPendingRequests_def find_tbl_update_key)
qed

subsection \<open>Properties\<close>


text \<open>
  A link is mailed only in a realm that has links enabled, only to the address of an enabled user of that realm,
  and only with a callback that the named client has registered; the requests for the address in the
  last 15 minutes, this one included, do not exceed the realm's limit.  Until its expiry the mailed token signs
  that user in, and no earlier link of the user is accepted any more.
\<close>

theorem magic_link_sound:
  assumes sent: "requestMagicLink e d email rid cid ip ua url s = (Inr (res, Some (rcpt, link)), s')"
    and users: "distinct (map user_id (users s))" and hashes: "distinct (map ml_tokenHash (magicLinkRequests s))"
  shows "\<exists>r c u callback. realm_by_id rid s = Some r \<and> realm_magicLinkEnabled r \<and>
     c \<in> set (clients s) \<and> client_realmId c = rid \<and> client_clientId c = cid \<and>
     matchesRedirectUri callback (client_redirectUris c) \<and> link = appendToken callback (md_rawToken d) \<and>
     u \<in> set (users s) \<and> user_realmId u = rid \<and> user_enabled u \<and> user_email u = Some rcpt \<and>
     recent_requests e rid rcpt s' \<le> realm_magicLinkRateLimitPerEmail r \<and>
     (\<forall>t \<le> now e + realm_magicLinkExpirySeconds r * 1000.
        fst (validateMagicLink (e\<lparr> now := t \<rparr>) (md_rawToken d) (Some (realm_name r)) s')
          = MagicValid (user_id u) (Some rcpt) rid) \<and>
     (\<forall>m \<in> set (magicLinkRequests s). ml_userId m = user_id u \<and> ml_realmId m = rid \<longrightarrow>
        (\<forall>e' token rn. sha256 e' token = ml_tokenHash m \<longrightarrow> \<not> magic_ok (fst (validateMagicLink e' token rn s'))))"
proof -
  obtain r c callback u s1 where
    r: "realm_by_id rid s = Some r" "realm_magicLinkEnabled r" and
    c: "c \<in> set (clients s)" "client_realmId c = rid" "client_clientId c = cid"
      "resolve_callback c url = Inr callback" and
    f: "only_counters s s1" and
    u: "u \<in> set (users s)" "user_realmId u = rid" "user_email u = Some (to_lower email)" "user_enabled u" and
    n: "recent_requests e rid (to_lower email) s1 < realm_magicLinkRateLimitPerEmail r" and
    send: "send_magic_link e d r u (to_lower email) callback ip ua s1 = (Inr (res, Some (rcpt, link)), s')"
    using sent by (rule requestMagicLink_sent)
  note tables = only_counters_tables [OF f] and sends = send_magic_link_sent [OF send]
  have rid: "realm_id r = rid" using r(1) by (auto simp: realm_by_id_def dest: find_SomeD)
  have rows: "magicLinkRequests s' = magicLinkRequests (cancelPendingRequests (user_id u) rid s)
      @ [new_magic_link e d r u rcpt ip ua]"
    using sends(1,2) tables(4) rid by (simp add: cancelPendingRequests_def)
  have uid: "user_by_id (user_id u) s' = Some u"
    using users u(1) sends(4) tables(1) by (simp add: user_by_id_def find_unique distinct_id_eq)
  have "recent_requests e rid rcpt s' = recent_requests e rid rcpt s1 + 1"
    using rid tables(4)
    by (simp add: recent_requests_def rows cancelPendingRequests_def tbl_count_update_eq new_magic_link_def)
  with n sends(1) have count: "recent_requests e rid rcpt s' \<le> realm_magicLinkRateLimitPerEmail r" by simp
  have fresh: "fst (validateMagicLink (e\<lparr> now := t \<rparr>) (md_rawToken d) (Some (realm_name r)) s')
      = MagicValid (user_id u) (Some rcpt) rid" if "t \<le> now e + realm_magicLinkExpirySeconds r * 1000" for t
    using fresh_link_accepted [OF rows _ _ r(2) uid u(4) that] sends(1,3,5) tables(2,4) r(1) u(3) rid
    by (simp add: cancel_hashes realm_by_id_def)
  have old: "\<not> magic_ok (fst (validateMagicLink e' token rn s'))"
    if "m \<in> set (magicLinkRequests s)" "ml_userId m = user_id u" "ml_realmId m = rid" "sha256 e' token = ml_tokenHash m"
    for m e' token rn
    using cancelled_row_spent [OF hashes that(1,2,3)] that(4) rows by (simp add: spent_refused)
  show ?thesis
    using r c(1-3) resolve_callback_registered [OF c(4)] sends(1) u count fresh old
    by (intro exI [of _ r] exI [of _ c] exI [of _ u] exI [of _ callback]) auto
qed

subsection \<open>Witnesses\<close>

definition sample_magic_realm :: realm_row where
  "sample_magic_realm = (default_realm ''r1'' ''acme'')\<lparr> realm_magicLinkEnabled := True \<rparr>"

definition sample_magic_client :: client_row where
  "sample_magic_client =
     \<lparr> client_id = ''c1'', client_realmId = ''r1'', client_clientId = ''app'', client_name = None,
       client_clientSecret = None, client_clientType = PUBLIC, client_enabled = True, client_requireConsent = False,
       client_redirectUris = [''https://app/*'', ''https://app/cb''], client_grantTypes = [], client_requiredAcr = None,
       client_serviceAccountUserId = None, client_postLogoutRedirectUris = [], client_backchannelLogoutUri = None,
       client_backchannelLogoutSessionRequired = True, client_authFlowId = None \<rparr>"

definition sample_magic_db :: db where
  "sample_magic_db = empty_db\<lparr> realms := [sample_magic_realm], users := [sample_user], clients := [sample_magic_client] \<rparr>"

definition sample_magic_draws :: magic_draws where
  "sample_magic_draws = \<lparr> md_id = ''m1'', md_rawToken = ''tok'', md_subject = ''Sign in'', md_mailFails = False \<rparr>"

definition sample_magic_sent :: db where
  "sample_magic_sent = snd (requestMagicLink sample_env sample_magic_draws ''Alice@example.org'' ''r1'' ''app'' None None
     None sample_magic_db)"

lemmas sample_magic_defs = sample_magic_realm_def sample_magic_client_def sample_magic_db_def sample_magic_draws_def
  sample_defs


theorem magic_link_sound_witness:
  "\<exists>r c u callback. realm_by_id ''r1'' sample_magic_db = Some r \<and> c \<in> set (clients sample_magic_db) \<and>
     ''https://app/cb?token=tok'' = appendToken callback ''tok'' \<and> matchesRedirectUri callback (client_redirectUris c) \<and>
     u \<in> set (users sample_magic_db) \<and> user_email u = Some ''alice@example.org''"
proof -
  have run: "requestMagicLink sample_env sample_magic_draws ''Alice@example.org'' ''r1'' ''app'' None None
     None sample_magic_db = (Inr (\<lparr> mrq_success = True, mrq_message = ''Magic link sent successfully'', mrq_rateLimit = None \<rparr>,
       Some (''alice@example.org'', ''https://app/cb?token=tok'')), sample_magic_sent)"
    unfolding sample_magic_sent_def by code_simp
  have "distinct (map user_id (users sample_magic_db))"
    "distinct (map ml_tokenHash (magicLinkRequests sample_magic_db))"
    by (simp_all add: sample_magic_defs)
  from magic_link_sound [OF run this] show ?thesis
    by (simp add: sample_magic_draws_def) blast
qed

subsection \<open>Observations\<close>

text \<open>
  The answer to a request tells whether an account exists: an unknown address is answered with the neutral
  message, an address with an account with another one, and a disabled account with a third.
\<close>

lemma magic_link_reveals_accounts:
  "\<exists>s. map (\<lambda>email. map_sum id (mrq_message \<circ> fst)
         (fst (requestMagicLink sample_env sample_magic_draws email ''r1'' ''app'' None None None s)))
       [''alice@example.org'', ''nobody@example.org''] =
     [Inr ''Magic link sent successfully'',
      Inr ''If an account exists with this email, a magic link has been sent'']"
  by (rule exI [of _ sample_magic_db]) code_simp

end
