(* ===== verification/Group_Admin.thy ===== *)
theory Group_Admin
  imports Group_Roles
begin

text \<open>
  \<open>src/src/groups/groups.service.ts\<close>: the administration of groups, their members and their role mappings, and
  the walk that lists the roles a user inherits.  The checks of the database are part of the model: the
  unique indexes of \<open>Group\<close>, its foreign key to the parent group, and the cascading deletion of child groups,
  memberships and role mappings.
\<close>

subsection \<open>Groups\<close>

definition group_in_realm :: "realm_row \<Rightarrow> ident \<Rightarrow> db \<Rightarrow> group_row option" where
  "group_in_realm r g s = List.find (\<lambda>x. group_id x = g \<and> group_realmId x = realm_id r) (groups s)"

definition user_in_realm :: "realm_row \<Rightarrow> ident \<Rightarrow> db \<Rightarrow> user_row option" where
  "user_in_realm r u s = List.find (\<lambda>x. user_id x = u \<and> user_realmId x = realm_id r) (users s)"

text \<open>The optional fields of \<open>CreateGroupDto\<close>: absent and \<open>null\<close> both store \<open>null\<close>.\<close>

definition create_group ::
  "ident \<Rightarrow> realm_row \<Rightarrow> string \<Rightarrow> string option \<Rightarrow> ident option \<Rightarrow> db \<Rightarrow> group_row result \<times> db" where
  "create_group newId r name description parentId s =
     (if List.find (\<lambda>x. group_realmId x = realm_id r \<and> group_name x = name) (groups s) \<noteq> None
      then (Inl ConflictException, s)
      else if \<not> falsy parentId \<and> group_in_realm r (the parentId) s = None then (Inl NotFoundException, s)
      else if newId \<in> group_id ` set (groups s) then (Inl PrismaUnique, s)
      else if parentId \<noteq> None \<and> the parentId \<notin> group_id ` set (groups s) then (Inl PrismaForeignKey, s)
      else let row = \<lparr> group_id = newId, group_realmId = realm_id r, group_name = name,
                       group_description = description, group_parentId = parentId \<rparr>
           in (Inr row, s\<lparr> groups := groups s @ [row] \<rparr>))"

text \<open>
  \<open>UpdateGroupDto\<close>: a field is absent (\<^const>\<open>None\<close>, the column stays), \<open>null\<close> or a value.  A null name is rejected
  by the database client before the statement runs.
\<close>

record update_group_dto =
  ug_name :: "string option option"
  ug_description :: "string option option"
  ug_parentId :: "ident option option"

definition apply_group_dto :: "update_group_dto \<Rightarrow> group_row \<Rightarrow> group_row" where
  "apply_group_dto dto x =
     x\<lparr> group_name := (case ug_name dto of Some (Some n) \<Rightarrow> n | _ \<Rightarrow> group_name x),
        group_description := nullish_else (ug_description dto) (group_description x),
        group_parentId := nullish_else (ug_parentId dto) (group_parentId x) \<rparr>"

definition update_group ::
  "realm_row \<Rightarrow> ident \<Rightarrow> update_group_dto \<Rightarrow> db \<Rightarrow> group_row result \<times> db" where
  "update_group r g dto s =
     (case group_in_realm r g s of
        None \<Rightarrow> (Inl NotFoundException, s)
      | Some x \<Rightarrow>
          if ug_parentId dto = Some (Some g) then (Inl ConflictException, s)
          else if ug_name dto = Some None then (Inl PlainError, s)
          else let row = apply_group_dto dto x in
            if list_ex (\<lambda>y. group_id y \<noteq> g \<and> group_realmId y = group_realmId row \<and> group_name y = group_name row) (groups s)
            then (Inl PrismaUnique, s)
            else if group_parentId row \<noteq> None \<and> the (group_parentId row) \<notin> group_id ` set (groups s)
            then (Inl PrismaForeignKey, s)
            else (Inr row, s\<lparr> groups := tbl_update (\<lambda>y. group_id y = g) (apply_group_dto dto) (groups s) \<rparr>))"

text \<open>
  \<open>onDelete: Cascade\<close> on the parent: the rows that refer to a deleted group are deleted in turn.  The work
  list holds the groups whose deletion is due.
\<close>

function cascade :: "ident list \<Rightarrow> group_row list \<Rightarrow> group_row list" where
  "cascade [] gs = gs"
| "cascade (g # ws) gs =
     (if g \<in> group_id ` set gs
      then let rest = tbl_delete (\<lambda>x. group_id x = g) gs
           in cascade (map group_id (filter (\<lambda>x. group_parentId x = Some g) rest) @ ws) rest
      else cascade ws gs)"
  by pat_completeness auto

termination
proof (relation "measures [\<lambda>(ws, gs). length gs, \<lambda>(ws, gs). length ws]")
  fix g ws and gs rest :: "group_row list"
  assume "g \<in> group_id ` set gs" "rest = tbl_delete (\<lambda>x. group_id x = g) gs"
  then have "length rest < length gs"
    by (auto simp: tbl_delete_def intro: length_filter_less)
  then show "((map group_id (filter (\<lambda>x. group_parentId x = Some g) rest) @ ws, rest), g # ws, gs)
      \<in> measures [\<lambda>(ws, gs). length gs, \<lambda>(ws, gs). length ws]"
    by simp
qed auto

declare cascade.simps [simp del]

definition delete_group :: "realm_row \<Rightarrow> ident \<Rightarrow> db \<Rightarrow> unit result \<times> db" where
  "delete_group r g s =
     (case group_in_realm r g s of
        None \<Rightarrow> (Inl NotFoundException, s)
      | Some _ \<Rightarrow>
          let left = cascade [g] (groups s); ids = group_id ` set left
          in (Inr (), s\<lparr> groups := left,
                userGroups := filter (\<lambda>ug. snd ug \<in> ids) (userGroups s),
                groupRoles := filter (\<lambda>gr. fst gr \<in> ids) (groupRoles s) \<rparr>))"

subsection \<open>Members\<close>

definition addUserToGroup :: "realm_row \<Rightarrow> ident \<Rightarrow> ident \<Rightarrow> db \<Rightarrow> unit result \<times> db" where
  "addUserToGroup r u g s =
     (if user_in_realm r u s = None \<or> group_in_realm r g s = None then (Inl NotFoundException, s)
      else (Inr (), if (u, g) \<in> set (userGroups s) then s else s\<lparr> userGroups := userGroups s @ [(u, g)] \<rparr>))"

definition removeUserFromGroup :: "realm_row \<Rightarrow> ident \<Rightarrow> ident \<Rightarrow> db \<Rightarrow> unit result \<times> db" where
  "removeUserFromGroup r u g s = (Inr (), s\<lparr> userGroups := tbl_delete (\<lambda>ug. ug = (u, g)) (userGroups s) \<rparr>)"

subsection \<open>Role mappings\<close>

definition realm_roles_named :: "realm_row \<Rightarrow> string list \<Rightarrow> db \<Rightarrow> role_row list" where
  "realm_roles_named r roleNames s =
     filter (\<lambda>x. role_realmId x = realm_id r \<and> role_clientId x = None \<and> role_name x \<in> set roleNames) (roles s)"

definition createMany_groupRoles :: "ident \<Rightarrow> role_row list \<Rightarrow> db \<Rightarrow> db" where
  "createMany_groupRoles g rs s =
     s\<lparr> groupRoles := fold (\<lambda>x t. if (g, role_id x) \<in> set t then t else t @ [(g, role_id x)]) rs (groupRoles s) \<rparr>"

definition assignRolesToGroup :: "realm_row \<Rightarrow> ident \<Rightarrow> string list \<Rightarrow> db \<Rightarrow> string list result \<times> db" where
  "assignRolesToGroup r g roleNames s =
     (if group_in_realm r g s = None then (Inl NotFoundException, s)
      else let rs = realm_roles_named r roleNames s; foundNames = map role_name rs
           in if filter (\<lambda>n. n \<notin> set foundNames) roleNames \<noteq> [] then (Inl NotFoundException, s)
              else (Inr foundNames, createMany_groupRoles g rs s))"

definition removeRolesFromGroup :: "realm_row \<Rightarrow> ident \<Rightarrow> string list \<Rightarrow> db \<Rightarrow> unit result \<times> db" where
  "removeRolesFromGroup r g roleNames s =
     (let roleIds = map role_id (realm_roles_named r roleNames s)
      in (Inr (), s\<lparr> groupRoles := tbl_delete (\<lambda>gr. fst gr = g \<and> snd gr \<in> set roleIds) (groupRoles s) \<rparr>))"

subsection \<open>Listings\<close>

text \<open>\<open>rank\<close> orders names the way the collation of the database does.\<close>

definition members_count :: "ident \<Rightarrow> db \<Rightarrow> int" where
  "members_count g s = tbl_count (\<lambda>ug. snd ug = g) (userGroups s)"

definition findAll_groups :: "(string \<Rightarrow> nat) \<Rightarrow> realm_row \<Rightarrow> db \<Rightarrow> (group_row \<times> int) list" where
  "findAll_groups rank r s =
     map (\<lambda>x. (x, members_count (group_id x) s))
       (sort_key (rank \<circ> group_name) (filter (\<lambda>x. group_realmId x = realm_id r) (groups s)))"

definition findById_group ::
  "(string \<Rightarrow> nat) \<Rightarrow> realm_row \<Rightarrow> ident \<Rightarrow> db \<Rightarrow> (group_row \<times> group_row list \<times> int \<times> int) result" where
  "findById_group rank r g s =
     (case group_in_realm r g s of
        None \<Rightarrow> Inl NotFoundException
      | Some x \<Rightarrow> Inr (x, sort_key (rank \<circ> group_name) (filter (\<lambda>y. group_parentId y = Some g) (groups s)),
                       members_count g s, tbl_count (\<lambda>gr. fst gr = g) (groupRoles s)))"

definition getMembers :: "(string \<Rightarrow> nat) \<Rightarrow> realm_row \<Rightarrow> ident \<Rightarrow> db \<Rightarrow> user_row list result" where
  "getMembers rank r g s =
     (if group_in_realm r g s = None then Inl NotFoundException
      else Inr (sort_key (rank \<circ> user_username)
             (concat (map (\<lambda>ug. if snd ug = g then filter (\<lambda>u. user_id u = fst ug) (users s) else []) (userGroups s)))))"

definition getUserGroups :: "(string \<Rightarrow> nat) \<Rightarrow> realm_row \<Rightarrow> ident \<Rightarrow> db \<Rightarrow> group_row list result" where
  "getUserGroups rank r u s =
     (if user_in_realm r u s = None then Inl NotFoundException
      else Inr (sort_key (rank \<circ> group_name)
             (concat (map (\<lambda>ug. if fst ug = u then filter (\<lambda>g. group_id g = snd ug) (groups s) else []) (userGroups s)))))"

definition getGroupRoles :: "(string \<Rightarrow> nat) \<Rightarrow> realm_row \<Rightarrow> ident \<Rightarrow> db \<Rightarrow> role_row list result" where
  "getGroupRoles rank r g s =
     (if group_in_realm r g s = None then Inl NotFoundException
      else Inr (sort_key (rank \<circ> role_name) (roles_of_group g s)))"

function collectGroupRoles :: "db \<Rightarrow> ident \<Rightarrow> role_row list \<Rightarrow> ident list \<Rightarrow> role_row list \<times> ident list" where
  "collectGroupRoles s g allRoles visited =
     (if g \<in> set visited then (allRoles, visited)
      else case group_by_id g s of
             None \<Rightarrow> (allRoles, g # visited)
           | Some row \<Rightarrow>
               (let allRoles' = allRoles @ roles_of_group g s
                in if falsy (group_parentId row) then (allRoles', g # visited)
                   else collectGroupRoles s (the (group_parentId row)) allRoles' (g # visited)))"
  by pat_completeness auto

termination
  by (relation "measure (\<lambda>(s, g, _, visited). card (group_id ` set (groups s) - set visited))")
    (simp_all add: unvisited_decreases [simplified])

declare collectGroupRoles.simps [simp del]

definition getUserGroupRoles :: "ident \<Rightarrow> db \<Rightarrow> role_row list" where
  "getUserGroupRoles uid s =
     (let memberships = filter (\<lambda>ug. fst ug = uid) (userGroups s)
      in fst (fold (\<lambda>m (allRoles, visited). collectGroupRoles s (snd m) allRoles visited) memberships ([], [])))"

subsection \<open>The cascade removes exactly the descendants\<close>

definition parent_edges :: "group_row list \<Rightarrow> (ident \<times> ident) set" where
  "parent_edges gs = {(group_id x, p) | x p. x \<in> set gs \<and> group_parentId x = Some p}"

definition dangling_due :: "ident list \<Rightarrow> group_row list \<Rightarrow> bool" where
  "dangling_due ws gs \<longleftrightarrow> (\<forall>x \<in> set gs. \<forall>p. group_parentId x = Some p \<longrightarrow> p \<in> set ws \<longrightarrow>
     p \<in> group_id ` set gs \<or> group_id x \<in> set ws)"

lemma parent_edges_delete:
  "parent_edges (tbl_delete (\<lambda>x. group_id x = g) gs) = {(a, b) \<in> parent_edges gs. a \<noteq> g}"
  by (auto simp: parent_edges_def)

lemma reach_via_children:
  assumes "(a, w) \<in> (parent_edges gs)\<^sup>*" and "a \<noteq> g"
  defines "E \<equiv> {(a, b) \<in> parent_edges gs. a \<noteq> g}"
  shows "(a, w) \<in> E\<^sup>* \<or> (\<exists>c. (a, c) \<in> E\<^sup>* \<and> (c, g) \<in> E)"
  using assms(1)
proof (induction rule: rtrancl_induct)
  case (step y z)
  then show ?case
  proof (cases "y = g")
    case True
    with step.IH assms(2) show ?thesis by (metis rtranclE)
  next
    case False
    with step have "(y, z) \<in> E" by (simp add: E_def)
    with step.IH show ?thesis by (metis rtrancl.rtrancl_into_rtrancl)
  qed
qed simp

lemma cascade_filter: "\<exists>P. cascade ws gs = filter P gs"
proof (induction ws gs rule: cascade.induct)
  case (1 gs)
  show ?case by (rule exI [of _ "\<lambda>_. True"]) (simp add: cascade.simps)
next
  case (2 g ws gs)
  show ?case
  proof (cases "g \<in> group_id ` set gs")
    case True
    from 2(1) [OF this refl] obtain P where
      "cascade (map group_id (filter (\<lambda>x. group_parentId x = Some g) (tbl_delete (\<lambda>x. group_id x = g) gs)) @ ws)
         (tbl_delete (\<lambda>x. group_id x = g) gs) = filter P (tbl_delete (\<lambda>x. group_id x = g) gs)" by blast
    with True have "cascade (g # ws) gs = filter (\<lambda>x. group_id x \<noteq> g \<and> P x) gs"
      by (simp add: cascade.simps(2) Let_def tbl_delete_def conj_commute)
    then show ?thesis by blast
  next
    case False
    with 2(2) show ?thesis by (simp add: cascade.simps(2))
  qed
qed

lemma dangling_due_step:
  assumes "dangling_due (g # ws) gs"
  defines "rest \<equiv> tbl_delete (\<lambda>x. group_id x = g) gs"
  shows "dangling_due (map group_id (filter (\<lambda>x. group_parentId x = Some g) rest) @ ws) rest"
  unfolding dangling_due_def
proof (intro ballI allI impI)
  fix x p
  assume x: "x \<in> set rest" "group_parentId x = Some p"
    and p: "p \<in> set (map group_id (filter (\<lambda>x. group_parentId x = Some g) rest) @ ws)"
  show "p \<in> group_id ` set rest \<or> group_id x \<in> set (map group_id (filter (\<lambda>x. group_parentId x = Some g) rest) @ ws)"
  proof (cases "p = g")
    case False
    then show ?thesis
      using assms(1) x p by (auto simp: dangling_due_def rest_def)
  qed (use x in auto)
qed

lemma cascade_set:
  "dangling_due ws gs \<Longrightarrow>
     set (cascade ws gs) = {x \<in> set gs. \<not> (\<exists>w \<in> set ws. (group_id x, w) \<in> (parent_edges gs)\<^sup>*)}"
proof (induction ws gs rule: cascade.induct)
  case (1 gs)
  then show ?case by (simp add: cascade.simps)
next
  case (2 g ws gs)
  show ?case
  proof (cases "g \<in> group_id ` set gs")
    case True
    define rest where "rest = tbl_delete (\<lambda>x. group_id x = g) gs"
    define E where "E = parent_edges rest"
    have E: "E = {(a, b) \<in> parent_edges gs. a \<noteq> g}" by (simp add: E_def rest_def parent_edges_delete)
    define cs where "cs = map group_id (filter (\<lambda>x. group_parentId x = Some g) rest)"
    have cs: "c \<in> set cs \<longleftrightarrow> (c, g) \<in> E" for c
      by (auto simp: cs_def E_def parent_edges_def)
    have sub: "(a, b) \<in> E\<^sup>* \<Longrightarrow> (a, b) \<in> (parent_edges gs)\<^sup>*" for a b
      by (rule rtrancl_mono [THEN subsetD, of E]) (auto simp: E)
    have "(\<exists>w \<in> set (cs @ ws). (group_id x, w) \<in> E\<^sup>*) \<longleftrightarrow> (\<exists>w \<in> set (g # ws). (group_id x, w) \<in> (parent_edges gs)\<^sup>*)"
      if "x \<in> set rest" for x
    proof -
      have "group_id x \<noteq> g" using that by (simp add: rest_def)
      then have "(\<exists>c \<in> set cs. (group_id x, c) \<in> E\<^sup>*) \<or> (group_id x, w) \<in> E\<^sup>* \<and> w \<noteq> g"
        if "(group_id x, w) \<in> (parent_edges gs)\<^sup>*" for w
        using reach_via_children [OF that, of g, folded E] cs by (metis rtranclE)
      moreover have "(group_id x, g) \<in> (parent_edges gs)\<^sup>*" if "c \<in> set cs" "(group_id x, c) \<in> E\<^sup>*" for c
        using that sub unfolding cs by (metis rtrancl.rtrancl_into_rtrancl)
      ultimately show ?thesis using sub by (metis in_set_conv_decomp list.set_intros(1,2) set_ConsD Un_iff set_append)
    qed
    moreover have "set (cascade (cs @ ws) rest) = {x \<in> set rest. \<not> (\<exists>w \<in> set (cs @ ws). (group_id x, w) \<in> E\<^sup>*)}"
      using 2(1) [OF True refl] dangling_due_step [OF 2(3)] by (simp add: cs_def rest_def E_def)
    moreover have "cascade (g # ws) gs = cascade (cs @ ws) rest"
      using True by (simp add: cascade.simps(2) Let_def cs_def rest_def)
    ultimately show ?thesis by (auto simp: rest_def)
  next
    case False
    have "(\<exists>w \<in> set ws. (group_id x, w) \<in> (parent_edges gs)\<^sup>*)"
      if x: "x \<in> set gs" "(group_id x, g) \<in> (parent_edges gs)\<^sup>*" for x
    proof -
      have "group_id x \<noteq> g" using x(1) False by auto
      then obtain c where c: "(group_id x, c) \<in> (parent_edges gs)\<^sup>*" "(c, g) \<in> parent_edges gs"
        using x(2) by (metis rtranclE)
      then have "c \<in> set ws" using 2(3) False by (force simp: dangling_due_def parent_edges_def)
      with c show ?thesis by blast
    qed
    then have "(\<exists>w \<in> set (g # ws). (group_id x, w) \<in> (parent_edges gs)\<^sup>*) \<longleftrightarrow>
        (\<exists>w \<in> set ws. (group_id x, w) \<in> (parent_edges gs)\<^sup>*)" if "x \<in> set gs" for x
      using that by auto
    moreover have "dangling_due ws gs"
      using 2(3) False by (force simp: dangling_due_def)
    ultimately show ?thesis using 2(2) [OF False] False by (auto simp: cascade.simps(2))
  qed
qed

subsection \<open>Integrity of the tables\<close>

definition groups_ok :: "db \<Rightarrow> bool" where
  "groups_ok s \<longleftrightarrow>
     distinct (map group_id (groups s)) \<and>
     distinct (map (\<lambda>g. (group_realmId g, group_name g)) (groups s)) \<and>
     (\<forall>a p. (a, p) \<in> parent_edges (groups s) \<longrightarrow> p \<in> group_id ` set (groups s) \<and> p \<noteq> a) \<and>
     distinct (userGroups s) \<and> set (userGroups s) \<subseteq> user_id ` set (users s) \<times> group_id ` set (groups s) \<and>
     distinct (groupRoles s) \<and> set (groupRoles s) \<subseteq> group_id ` set (groups s) \<times> role_id ` set (roles s)"

datatype group_op =
    CreateGroup ident realm_row string "string option" "ident option"
  | UpdateGroup realm_row ident update_group_dto
  | DeleteGroup realm_row ident
  | AddUser realm_row ident ident
  | RemoveUser realm_row ident ident
  | AssignRoles realm_row ident "string list"
  | RemoveRoles realm_row ident "string list"

fun group_apply :: "group_op \<Rightarrow> db \<Rightarrow> db" where
  "group_apply (CreateGroup i r n desc p) s = snd (create_group i r n desc p s)"
| "group_apply (UpdateGroup r g dto) s = snd (update_group r g dto s)"
| "group_apply (DeleteGroup r g) s = snd (delete_group r g s)"
| "group_apply (AddUser r u g) s = snd (addUserToGroup r u g s)"
| "group_apply (RemoveUser r u g) s = snd (removeUserFromGroup r u g s)"
| "group_apply (AssignRoles r g ns) s = snd (assignRolesToGroup r g ns s)"
| "group_apply (RemoveRoles r g ns) s = snd (removeRolesFromGroup r g ns s)"

lemma group_in_realm_SomeD:
  "group_in_realm r g s = Some x \<Longrightarrow> x \<in> set (groups s) \<and> group_id x = g \<and> group_realmId x = realm_id r"
  by (auto simp: group_in_realm_def dest: find_SomeD)

lemma parent_edges_append: "parent_edges (gs @ gs') = parent_edges gs \<union> parent_edges gs'"
  by (auto simp: parent_edges_def)

lemma groups_ok_edges: "groups_ok s \<Longrightarrow> (a, p) \<in> parent_edges (groups s) \<Longrightarrow> p \<in> group_id ` set (groups s) \<and> p \<noteq> a"
  unfolding groups_ok_def by blast

lemma groups_ok_append:
  assumes "groups_ok s" and "group_id row \<notin> group_id ` set (groups s)"
    and "(group_realmId row, group_name row) \<notin> (\<lambda>g. (group_realmId g, group_name g)) ` set (groups s)"
    and "group_parentId row = None \<or> the (group_parentId row) \<in> group_id ` set (groups s)"
  shows "groups_ok (s\<lparr> groups := groups s @ [row] \<rparr>)"
proof -
  have "parent_edges [row] \<subseteq> {group_id row} \<times> group_id ` set (groups s)"
    using assms(4) by (auto simp: parent_edges_def)
  then have edges: "p \<in> group_id ` set (groups s @ [row]) \<and> p \<noteq> a" if "(a, p) \<in> parent_edges (groups s @ [row])" for a p
    using that assms(2) groups_ok_edges [OF assms(1)] unfolding parent_edges_append set_append image_Un by blast
  with assms(1-3) show ?thesis unfolding groups_ok_def by simp blast
qed

lemma create_group_ok: "groups_ok s \<Longrightarrow> groups_ok (snd (create_group i r n desc p s))"
  by (auto simp: create_group_def Let_def find_None_iff intro!: groups_ok_append)

lemma restrict_pairs:
  "S \<subseteq> A \<times> B \<Longrightarrow> {x \<in> S. snd x \<in> C} \<subseteq> A \<times> C" "S \<subseteq> A \<times> B \<Longrightarrow> {x \<in> S. fst x \<in> C} \<subseteq> C \<times> B"
  by auto

lemma dangling_none: "groups_ok s \<Longrightarrow> dangling_due ws (groups s)"
  by (auto simp: groups_ok_def dangling_due_def parent_edges_def)

lemma cascade_one:
  "groups_ok s \<Longrightarrow> set (cascade [g] (groups s)) = {x \<in> set (groups s). (group_id x, g) \<notin> (parent_edges (groups s))\<^sup>*}"
  using cascade_set [OF dangling_none, of s "[g]"] by simp

lemma delete_group_ok:
  assumes ok: "groups_ok s"
  shows "groups_ok (snd (delete_group r g s))"
proof (cases "group_in_realm r g s")
  case Some
  obtain P where P: "cascade [g] (groups s) = filter P (groups s)" using cascade_filter by blast
  have "p \<in> group_id ` set (cascade [g] (groups s)) \<and> p \<noteq> a"
    if "(a, p) \<in> parent_edges (cascade [g] (groups s))" for a p
  proof -
    from that obtain x where x: "x \<in> set (cascade [g] (groups s))" "group_id x = a" "group_parentId x = Some p"
      by (auto simp: parent_edges_def)
    then have e: "(a, p) \<in> parent_edges (groups s)" "(a, g) \<notin> (parent_edges (groups s))\<^sup>*"
      using cascade_one [OF ok, of g] by (auto simp: parent_edges_def)
    then have "(p, g) \<notin> (parent_edges (groups s))\<^sup>*" by (meson converse_rtrancl_into_rtrancl)
    with groups_ok_edges [OF ok e(1)] show ?thesis unfolding cascade_one [OF ok] by blast
  qed
  with ok Some show ?thesis
    unfolding delete_group_def groups_ok_def P
    by (simp add: distinct_map_filter Let_def) (blast intro: restrict_pairs [THEN subsetD])
qed (simp add: delete_group_def ok)

lemma map_apply_group_dto:
  "map group_id (tbl_update P (apply_group_dto dto) gs) = map group_id gs"
  "map group_realmId (tbl_update P (apply_group_dto dto) gs) = map group_realmId gs"
  by (simp_all add: map_tbl_update apply_group_dto_def)

lemma apply_group_dto_key [simp]:
  "group_id (apply_group_dto dto x) = group_id x" "group_realmId (apply_group_dto dto x) = group_realmId x"
  by (simp_all add: apply_group_dto_def)

lemma update_group_cases:
  assumes "update_group r g dto s = (Inr row, s')"
  obtains x where "group_in_realm r g s = Some x" "ug_parentId dto \<noteq> Some (Some g)"
    "\<not> list_ex (\<lambda>y. group_id y \<noteq> g \<and> group_realmId y = group_realmId x \<and>
        group_name y = group_name (apply_group_dto dto x)) (groups s)"
    "group_parentId (apply_group_dto dto x) = None \<or>
        the (group_parentId (apply_group_dto dto x)) \<in> group_id ` set (groups s)"
    "s' = s\<lparr> groups := tbl_update (\<lambda>y. group_id y = g) (apply_group_dto dto) (groups s) \<rparr>"
  using assms
  by (cases "group_in_realm r g s") (auto simp: update_group_def Let_def simp del: not_None_eq split: if_splits)

lemma update_group_ok:
  assumes ok: "groups_ok s"
  shows "groups_ok (snd (update_group r g dto s))"
proof (cases "\<exists>row. fst (update_group r g dto s) = Inr row")
  case False
  then show ?thesis
    using ok by (cases "group_in_realm r g s") (simp_all add: update_group_def Let_def split: if_splits)
next
  case True
  define gs where "gs = tbl_update (\<lambda>y. group_id y = g) (apply_group_dto dto) (groups s)"
  from True obtain row where "update_group r g dto s = (Inr row, snd (update_group r g dto s))"
    by (metis prod.collapse)
  then obtain x where x: "group_in_realm r g s = Some x" and new: "ug_parentId dto \<noteq> Some (Some g)"
    and names: "\<not> list_ex (\<lambda>y. group_id y \<noteq> g \<and> group_realmId y = group_realmId x \<and>
        group_name y = group_name (apply_group_dto dto x)) (groups s)"
    and parent: "group_parentId (apply_group_dto dto x) = None \<or>
        the (group_parentId (apply_group_dto dto x)) \<in> group_id ` set (groups s)"
    and s': "snd (update_group r g dto s) = s\<lparr> groups := gs \<rparr>"
    unfolding gs_def by (rule update_group_cases)
  have xg: "x \<in> set (groups s)" "group_id x = g" using group_in_realm_SomeD [OF x] by auto
  have only: "y = x" if "y \<in> set (groups s)" "group_id y = g" for y
    using ok that xg distinct_id_eq [of group_id "groups s" y x] unfolding groups_ok_def by simp
  have set_gs: "set gs = insert (apply_group_dto dto x) {y \<in> set (groups s). group_id y \<noteq> g}"
  proof -
    have "set gs = (\<lambda>y. if group_id y = g then apply_group_dto dto x else y) ` set (groups s)"
      unfolding gs_def set_tbl_update by (rule image_cong [OF refl]) (metis only)
    with xg show ?thesis by auto
  qed
  have ids: "group_id ` set gs = group_id ` set (groups s)"
    unfolding gs_def using map_apply_group_dto(1) [of "\<lambda>y. group_id y = g" dto "groups s"] by (metis set_map)
  have "distinct (map (\<lambda>y. (group_realmId y, group_name y)) gs)"
  proof -
    have "inj_on (\<lambda>y. (group_realmId y, group_name y)) (set gs)"
      unfolding set_gs using ok names
      by (auto simp: groups_ok_def distinct_map list_ex_iff intro!: inj_onI dest: inj_onD)
    moreover have "distinct gs"
      using ok map_apply_group_dto(1) [of "\<lambda>y. group_id y = g" dto "groups s"]
      unfolding gs_def groups_ok_def by (metis distinct_map)
    ultimately show ?thesis by (simp add: distinct_map)
  qed
  moreover have "p \<in> group_id ` set (groups s) \<and> p \<noteq> a" if "(a, p) \<in> parent_edges gs" for a p
  proof -
    from that consider "(a, p) \<in> parent_edges (groups s)" | "a = g" "group_parentId (apply_group_dto dto x) = Some p"
      using xg(2) by (auto simp: parent_edges_def set_gs apply_group_dto_def)
    then show ?thesis
    proof cases
      case 2
      then have "p = g \<Longrightarrow> (g, g) \<in> parent_edges (groups s)"
        using new xg by (cases "ug_parentId dto") (auto simp: apply_group_dto_def parent_edges_def)
      with 2 parent groups_ok_edges [OF ok] show ?thesis by auto
    qed (use groups_ok_edges [OF ok] in blast)
  qed
  ultimately show ?thesis
    using ok unfolding s' groups_ok_def
    by (simp add: ids) (simp add: gs_def map_apply_group_dto)
qed

lemma user_in_realm_SomeD: "user_in_realm r u s = Some x \<Longrightarrow> u \<in> user_id ` set (users s)"
  by (auto simp: user_in_realm_def dest: find_SomeD)

lemma addUserToGroup_ok: "groups_ok s \<Longrightarrow> groups_ok (snd (addUserToGroup r u g s))"
  using user_in_realm_SomeD [of r u s] group_in_realm_SomeD [of r g s]
  by (auto simp: addUserToGroup_def groups_ok_def)

lemma removeUserFromGroup_ok: "groups_ok s \<Longrightarrow> groups_ok (snd (removeUserFromGroup r u g s))"
  unfolding removeUserFromGroup_def groups_ok_def by (simp add: tbl_delete_def) blast

lemma removeRolesFromGroup_ok: "groups_ok s \<Longrightarrow> groups_ok (snd (removeRolesFromGroup r g ns s))"
  unfolding removeRolesFromGroup_def groups_ok_def by (simp add: tbl_delete_def Let_def) blast

lemma fold_insert_pairs:
  "distinct t \<Longrightarrow> distinct (fold (\<lambda>x t. if (g, role_id x) \<in> set t then t else t @ [(g, role_id x)]) rs t)"
  "set (fold (\<lambda>x t. if (g, role_id x) \<in> set t then t else t @ [(g, role_id x)]) rs t) = set t \<union> Pair g ` role_id ` set rs"
  by (induction rs arbitrary: t) auto

lemma assignRolesToGroup_ok:
  assumes "groups_ok s"
  shows "groups_ok (snd (assignRolesToGroup r g ns s))"
proof (cases "group_in_realm r g s")
  case (Some x)
  then have "Pair g ` role_id ` set (realm_roles_named r ns s) \<subseteq> group_id ` set (groups s) \<times> role_id ` set (roles s)"
    using group_in_realm_SomeD [of r g s x] by (auto simp: realm_roles_named_def)
  with assms show ?thesis
    unfolding assignRolesToGroup_def groups_ok_def createMany_groupRoles_def
    by (simp add: Let_def fold_insert_pairs)
qed (simp add: assignRolesToGroup_def assms)

lemma group_apply_ok: "groups_ok s \<Longrightarrow> groups_ok (group_apply op s)"
  by (cases op) (simp_all add: create_group_ok update_group_ok delete_group_ok addUserToGroup_ok removeUserFromGroup_ok
      assignRolesToGroup_ok removeRolesFromGroup_ok)

subsection \<open>Inherited roles after a deletion\<close>

lemma group_by_id_unique: "groups_ok s \<Longrightarrow> group_by_id i s = Some x \<longleftrightarrow> x \<in> set (groups s) \<and> group_id x = i"
  unfolding groups_ok_def group_by_id_def by (auto dest: find_SomeD intro: find_unique)

lemma parent_of_edges: "parent_of s \<subseteq> parent_edges (groups s)"
  by (auto simp: parent_of_def parent_edges_def group_by_id_def dest!: find_SomeD)

lemma roles_of_group_filter:
  "(\<And>r. Q (g, r)) \<Longrightarrow> roles_of_group g (s\<lparr> groups := gs, userGroups := ug, groupRoles := filter Q (groupRoles s) \<rparr>)
     = roles_of_group g s"
proof -
  assume Q: "\<And>r. Q (g, r)"
  have "concat (map (\<lambda>gr. if fst gr = g then f gr else []) (filter Q t)) = concat (map (\<lambda>gr. if fst gr = g then f gr else []) t)"
    for f :: "ident \<times> ident \<Rightarrow> role_row list" and t
    using Q by (induction t) auto
  then show ?thesis by (simp add: roles_of_group_def cong: if_cong)
qed

subsection \<open>Both walks\<close>

lemma collect_walk: "collectGroupRoles s g rs v = prod.swap (walkGroup s g (v, rs))"
proof (induction s g rs v rule: collectGroupRoles.induct)
  case (1 s g rs v)
  then show ?case
    by (auto simp: collectGroupRoles.simps [of s g] walkGroup.simps [of s g] Let_def split: option.split)
qed

lemma user_group_roles_agree: "getUserGroupRoles uid s = resolveGroupRoles uid s"
proof -
  have "fold (\<lambda>m (rs, v). collectGroupRoles s (snd m) rs v) ms (rs, v)
      = prod.swap (fold (walkGroup s) (map snd ms) (v, rs))" for ms :: "(ident \<times> ident) list" and rs v
    by (induction ms arbitrary: rs v) (simp_all add: collect_walk case_prod_beta prod.swap_def)
  then show ?thesis by (simp add: getUserGroupRoles_def resolveGroupRoles_def Let_def)
qed

lemma option_ext: "(\<And>y. a = Some y \<longleftrightarrow> b = Some y) \<Longrightarrow> a = b"
  by (cases a; cases b) auto

lemma delete_group_frame:
  assumes ok: "groups_ok s" and del: "delete_group r g s = (Inr (), s')"
  defines "kept \<equiv> \<lambda>x. (x, g) \<notin> (parent_edges (groups s))\<^sup>*"
  shows "set (groups s') = {x \<in> set (groups s). kept (group_id x)}"
    "set (userGroups s') = {ug \<in> set (userGroups s). kept (snd ug)}"
    "set (groupRoles s') = {gr \<in> set (groupRoles s). kept (fst gr)}"
    "kept x \<Longrightarrow> group_by_id x s' = group_by_id x s"
    "kept x \<Longrightarrow> group_by_id x s \<noteq> None \<Longrightarrow> roles_of_group x s' = roles_of_group x s"
proof -
  define ids where "ids = group_id ` set (cascade [g] (groups s))"
  have s': "s' = s\<lparr> groups := cascade [g] (groups s), userGroups := filter (\<lambda>ug. snd ug \<in> ids) (userGroups s),
      groupRoles := filter (\<lambda>gr. fst gr \<in> ids) (groupRoles s) \<rparr>"
    using del by (simp add: delete_group_def Let_def ids_def split: option.splits)
  have ids: "x \<in> ids \<longleftrightarrow> x \<in> group_id ` set (groups s) \<and> kept x" for x
    by (auto simp: ids_def cascade_one [OF ok] kept_def)
  show gs: "set (groups s') = {x \<in> set (groups s). kept (group_id x)}"
    by (simp add: s' cascade_one [OF ok] kept_def)
  show "set (userGroups s') = {ug \<in> set (userGroups s). kept (snd ug)}"
    "set (groupRoles s') = {gr \<in> set (groupRoles s). kept (fst gr)}"
    using ok by (auto simp: s' ids groups_ok_def)
  have ok': "groups_ok s'" using delete_group_ok [OF ok, of r g] del by simp
  show same: "group_by_id x s' = group_by_id x s" if "kept x"
    using that by (intro option_ext) (auto simp: group_by_id_unique [OF ok] group_by_id_unique [OF ok'] gs)
  show "roles_of_group x s' = roles_of_group x s" if "kept x" "group_by_id x s \<noteq> None"
  proof -
    have "x \<in> ids" using that by (auto simp: ids group_by_id_unique [OF ok])
    then show ?thesis unfolding s' by (simp add: roles_of_group_filter)
  qed
qed

lemma kept_ancestors:
  assumes "(m, x) \<in> (parent_of s)\<^sup>*" and "(m, g) \<notin> (parent_edges (groups s))\<^sup>*"
  shows "(x, g) \<notin> (parent_edges (groups s))\<^sup>*"
  using assms rtrancl_mono [OF parent_of_edges] by (meson rtrancl_trans subsetD)

lemma ancestors_after_delete:
  assumes "groups_ok s" "delete_group r g s = (Inr (), s')" "(m, g) \<notin> (parent_edges (groups s))\<^sup>*"
  shows "(m, x) \<in> (parent_of s')\<^sup>* \<longleftrightarrow> (m, x) \<in> (parent_of s)\<^sup>*"
proof
  assume "(m, x) \<in> (parent_of s)\<^sup>*"
  then show "(m, x) \<in> (parent_of s')\<^sup>*"
  proof (induction rule: rtrancl_induct)
    case (step y z)
    with kept_ancestors [OF step(1) assms(3)] delete_group_frame(4) [OF assms(1,2)]
    have "(y, z) \<in> parent_of s'" by (simp add: parent_of_def)
    with step show ?case by simp
  qed simp
next
  have "parent_of s' \<subseteq> parent_of s"
    using delete_group_frame(1,4) [OF assms(1,2)] delete_group_ok [OF assms(1), of r g] assms(1,2)
    by (auto simp: parent_of_def group_by_id_unique)
  then show "(m, x) \<in> (parent_of s')\<^sup>* \<Longrightarrow> (m, x) \<in> (parent_of s)\<^sup>*"
    by (meson rtrancl_mono subsetD)
qed

subsection \<open>Properties\<close>

text \<open>
  Over any run of administrative operations the group tables keep their integrity: identifiers and the
  names within a realm stay unique, every parent, membership and role mapping refers to existing rows, and no group
  is its own parent.
\<close>

theorem group_tables_integrity:
  assumes "groups_ok s"
  shows "groups_ok (fold group_apply ops s)"
  using assms by (induction ops arbitrary: s) (simp_all add: group_apply_ok)

text \<open>
  C39.  The roles a user inherits, as the tokens carry them and as the group administration lists them, are exactly those of
  the groups the user is a member of and of all their ancestors, for every shape of the parent links: both
  walks end and are complete on cyclic group hierarchies too.
\<close>

theorem group_roles_exact:
  "getUserGroupRoles uid s = resolveGroupRoles uid s \<and>
   set (resolveGroupRoles uid s) =
     {r. \<exists>m g. (uid, m) \<in> set (userGroups s) \<and> (m, g) \<in> (parent_of s)\<^sup>* \<and>
           group_by_id g s \<noteq> None \<and> r \<in> set (roles_of_group g s)}"
  using user_group_roles_agree resolveGroupRoles_set by simp

text \<open>
  Deleting a group removes exactly that group and its descendants, and afterwards a user's tokens carry exactly
  the roles that are inherited through the memberships outside the deleted part, whatever the shape of the
  parent links.
\<close>

theorem group_delete_exact:
  assumes "groups_ok s" and "delete_group r g s = (Inr (), s')"
  shows "set (groups s') = {x \<in> set (groups s). (group_id x, g) \<notin> (parent_edges (groups s))\<^sup>*} \<and>
    set (resolveGroupRoles uid s') =
      {rl. \<exists>m x. (uid, m) \<in> set (userGroups s) \<and> (m, g) \<notin> (parent_edges (groups s))\<^sup>* \<and>
         (m, x) \<in> (parent_of s)\<^sup>* \<and> group_by_id x s \<noteq> None \<and> rl \<in> set (roles_of_group x s)}"
proof -
  note frame = delete_group_frame [OF assms]
  have "((uid, m) \<in> set (userGroups s') \<and> (m, x) \<in> (parent_of s')\<^sup>* \<and> group_by_id x s' \<noteq> None \<and>
        rl \<in> set (roles_of_group x s')) \<longleftrightarrow>
      ((uid, m) \<in> set (userGroups s) \<and> (m, g) \<notin> (parent_edges (groups s))\<^sup>* \<and>
         (m, x) \<in> (parent_of s)\<^sup>* \<and> group_by_id x s \<noteq> None \<and> rl \<in> set (roles_of_group x s))" for m x rl
    using frame(2,4,5) ancestors_after_delete [OF assms, of m x] kept_ancestors [of m x s g] by auto
  with frame(1) show ?thesis by (simp add: resolveGroupRoles_set)
qed

subsection \<open>Witnesses\<close>

definition sample_group :: "ident \<Rightarrow> ident \<Rightarrow> ident option \<Rightarrow> group_row" where
  "sample_group i rid p = \<lparr> group_id = i, group_realmId = rid, group_name = i, group_description = None, group_parentId = p \<rparr>"

definition sample_group_db :: db where
  "sample_group_db = empty_db\<lparr> realms := [sample_realm], users := [sample_user],
     roles := [\<lparr> role_id = ''ro'', role_realmId = ''r1'', role_name = ''admin'', role_clientId = None \<rparr>],
     groups := [sample_group ''g1'' ''r1'' None, sample_group ''g2'' ''r1'' (Some ''g1''), sample_group ''g3'' ''r1'' (Some ''g2'')],
     userGroups := [(''u1'', ''g3''), (''u1'', ''g1'')], groupRoles := [(''g1'', ''ro'')] \<rparr>"

lemma sample_group_db_ok: "groups_ok sample_group_db"
  unfolding groups_ok_def parent_edges_def by (auto simp: sample_group_db_def sample_group_def sample_defs)

theorem group_tables_integrity_witness:
  "groups_ok (fold group_apply [CreateGroup ''g4'' sample_realm ''staff'' None (Some ''g3''), DeleteGroup sample_realm ''g2''] sample_group_db) \<and>
   map group_id (groups (fold group_apply [CreateGroup ''g4'' sample_realm ''staff'' None (Some ''g3''),
      DeleteGroup sample_realm ''g2''] sample_group_db)) = [''g1'']"
proof
  show "groups_ok (fold group_apply [CreateGroup ''g4'' sample_realm ''staff'' None (Some ''g3''), DeleteGroup sample_realm ''g2''] sample_group_db)"
    by (rule group_tables_integrity [OF sample_group_db_ok])
qed code_simp

theorem group_delete_exact_witness:
  "\<exists>s'. delete_group sample_realm ''g2'' sample_group_db = (Inr (), s') \<and>
     set (groups s') = {x \<in> set (groups sample_group_db). (group_id x, ''g2'') \<notin> (parent_edges (groups sample_group_db))\<^sup>*}"
proof -
  have "delete_group sample_realm ''g2'' sample_group_db = (Inr (), snd (delete_group sample_realm ''g2'' sample_group_db))"
    by code_simp
  with group_delete_exact [OF sample_group_db_ok this] show ?thesis by blast
qed

subsection \<open>Observations\<close>

text \<open>
  Only the direct cycle is refused: an update may put a group below its own descendant, and below a group of
  another realm.  The operations that remove a membership or a role mapping do not ask whether the group belongs to
  the realm of the request.
\<close>

lemma update_makes_cycle:
  "\<exists>dto s'. update_group sample_realm ''g1'' dto sample_group_db = (Inr (sample_group ''g1'' ''r1'' (Some ''g3'')), s') \<and>
     map (\<lambda>x. (group_id x, group_parentId x)) (groups s') =
       [(''g1'', Some ''g3''), (''g2'', Some ''g1''), (''g3'', Some ''g2'')]"
proof (intro exI conjI)
  let ?dto = "\<lparr> ug_name = None, ug_description = None, ug_parentId = Some (Some ''g3'') \<rparr>"
  show "update_group sample_realm ''g1'' ?dto sample_group_db =
      (Inr (sample_group ''g1'' ''r1'' (Some ''g3'')), snd (update_group sample_realm ''g1'' ?dto sample_group_db))"
    by code_simp
  show "map (\<lambda>x. (group_id x, group_parentId x)) (groups (snd (update_group sample_realm ''g1'' ?dto sample_group_db))) =
       [(''g1'', Some ''g3''), (''g2'', Some ''g1''), (''g3'', Some ''g2'')]"
    by code_simp
qed

lemma removal_crosses_realms:
  "groupRoles (snd (removeRolesFromGroup sample_realm ''other''  [''admin'']
     (sample_group_db\<lparr> groups := sample_group ''other'' ''r2'' None # groups sample_group_db,
                       groupRoles := [(''other'', ''ro'')] \<rparr>))) = []
   \<and> userGroups (snd (removeUserFromGroup (default_realm ''r2'' ''other'') ''u1'' ''g3'' sample_group_db)) = [(''u1'', ''g1'')]"
  by code_simp

end
