(* ===== verification/Auth_Flow.thy ===== *)
theory Auth_Flow
  imports Login Mfa Js_Value
begin

text \<open>
  \<open>src/src/auth-flow\<close>: the authentication flows a realm can define (\<open>auth-flow.service.ts\<close>: administration, choice of
  the flow of a client, conditions, order of the steps) and the executor that leads a session through the
  steps of a flow (\<open>flow-executor.service.ts\<close>), which hands passwords to the login service and codes to the
  MFA service.
\<close>

subsection \<open>Flows\<close>

record flow_condition =
  fc_field :: string
  fc_operator :: string
  fc_value :: jsv

record flow_step =
  fs_id :: ident
  fs_type :: string
  fs_required :: bool
  fs_order :: int
  fs_condition :: "flow_condition option"
  fs_fallbackStepId :: "ident option"

record flow_row =
  fl_id :: ident
  fl_realmId :: ident
  fl_name :: string
  fl_description :: "string option"
  fl_isDefault :: bool
  fl_steps :: "flow_step list"
  fl_createdAt :: millis

text \<open>The flows and the tables they refer to; a context is an object.\<close>

record flow_store =
  af_flows :: "flow_row list"
  af_core :: db

type_synonym flow_context = "(string \<times> jsv) list"

definition simple_step :: "ident \<Rightarrow> string \<Rightarrow> int \<Rightarrow> flow_step" where
  "simple_step i ty n =
     \<lparr> fs_id = i, fs_type = ty, fs_required = True, fs_order = n, fs_condition = None, fs_fallbackStepId = None \<rparr>"

definition DEFAULT_FLOWS :: "(string \<times> string \<times> flow_step list) list" where
  "DEFAULT_FLOWS =
     [(''Simple Login'', ''Standard username and password authentication'', [simple_step ''step-password'' ''password'' 1]),
      (''MFA Required'', ''Password authentication followed by TOTP one-time code'',
       [simple_step ''step-password'' ''password'' 1, simple_step ''step-totp'' ''totp'' 2]),
      (''Passwordless'', ''WebAuthn / FIDO2 passwordless authentication'', [simple_step ''step-webauthn'' ''webauthn'' 1])]"

definition validateSteps :: "flow_step list \<Rightarrow> bool" where
  "validateSteps steps \<longleftrightarrow>
     steps \<noteq> [] \<and> distinct (map fs_id steps) \<and> distinct (map fs_order steps) \<and>
     list_all (\<lambda>st. falsy (fs_fallbackStepId st) \<or> the (fs_fallbackStepId st) \<in> set (map fs_id steps)) steps"

definition clearDefaultFlag :: "ident \<Rightarrow> ident option \<Rightarrow> flow_store \<Rightarrow> flow_store" where
  "clearDefaultFlag realmId excludeId st =
     st\<lparr> af_flows := tbl_update (\<lambda>f. fl_realmId f = realmId \<and> fl_isDefault f \<and> (falsy excludeId \<or> fl_id f \<noteq> the excludeId))
           (\<lambda>f. f\<lparr> fl_isDefault := False \<rparr>) (af_flows st) \<rparr>"

definition insert_flow :: "flow_row \<Rightarrow> flow_store \<Rightarrow> flow_row result \<times> flow_store" where
  "insert_flow f st =
     (if list_ex (\<lambda>x. fl_id x = fl_id f \<or> fl_realmId x = fl_realmId f \<and> fl_name x = fl_name f) (af_flows st)
      then (Inl PrismaUnique, st)
      else (Inr f, st\<lparr> af_flows := af_flows st @ [f] \<rparr>))"

definition create_flow ::
  "env \<Rightarrow> ident \<Rightarrow> ident \<Rightarrow> string \<Rightarrow> string option \<Rightarrow> bool option \<Rightarrow> flow_step list \<Rightarrow> flow_store \<Rightarrow>
   flow_row result \<times> flow_store" where
  "create_flow e newId realmId name description isDefault steps st =
     (if \<not> validateSteps steps then (Inl BadRequestException, st)
      else if list_ex (\<lambda>f. fl_realmId f = realmId \<and> fl_name f = name) (af_flows st) then (Inl ConflictException, st)
      else insert_flow
             \<lparr> fl_id = newId, fl_realmId = realmId, fl_name = name, fl_description = description,
               fl_isDefault = nullish_else isDefault False, fl_steps = steps, fl_createdAt = now e \<rparr>
             (if isDefault = Some True then clearDefaultFlag realmId None st else st))"

definition findAll_flows :: "ident \<Rightarrow> flow_store \<Rightarrow> flow_row list" where
  "findAll_flows realmId st =
     sort_key (\<lambda>f. if fl_isDefault f then 0 else 1 :: nat)
       (order_asc fl_createdAt (filter (\<lambda>f. fl_realmId f = realmId) (af_flows st)))"

definition findOne_flow :: "ident \<Rightarrow> ident \<Rightarrow> flow_store \<Rightarrow> flow_row result" where
  "findOne_flow realmId i st =
     (case List.find (\<lambda>f. fl_id f = i \<and> fl_realmId f = realmId) (af_flows st) of
        None \<Rightarrow> Inl NotFoundException | Some f \<Rightarrow> Inr f)"

text \<open>
  \<open>UpdateAuthFlowDto\<close>: a field is absent, \<open>null\<close> or a value.  The columns other than the description are not
  nullable, and the database client rejects a \<open>null\<close> for them.
\<close>

record update_flow_dto =
  uf_name :: "string option option"
  uf_description :: "string option option"
  uf_isDefault :: "bool option option"
  uf_steps :: "flow_step list option option"

definition apply_flow_dto :: "update_flow_dto \<Rightarrow> flow_row \<Rightarrow> flow_row" where
  "apply_flow_dto dto f =
     f\<lparr> fl_name := (case uf_name dto of Some (Some n) \<Rightarrow> n | _ \<Rightarrow> fl_name f),
        fl_description := nullish_else (uf_description dto) (fl_description f),
        fl_isDefault := (case uf_isDefault dto of Some (Some b) \<Rightarrow> b | _ \<Rightarrow> fl_isDefault f),
        fl_steps := (case uf_steps dto of Some (Some steps) \<Rightarrow> steps | _ \<Rightarrow> fl_steps f) \<rparr>"

definition update_flow :: "ident \<Rightarrow> ident \<Rightarrow> update_flow_dto \<Rightarrow> flow_store \<Rightarrow> flow_row result \<times> flow_store" where
  "update_flow realmId i dto st =
     (case findOne_flow realmId i st of
        Inl err \<Rightarrow> (Inl err, st)
      | Inr f \<Rightarrow>
          if (case uf_steps dto of Some (Some steps) \<Rightarrow> \<not> validateSteps steps | _ \<Rightarrow> False)
          then (Inl BadRequestException, st)
          else if (case uf_name dto of
                     Some (Some n) \<Rightarrow> n \<noteq> [] \<and> list_ex (\<lambda>x. fl_realmId x = realmId \<and> fl_name x = n \<and> fl_id x \<noteq> i) (af_flows st)
                   | _ \<Rightarrow> False)
          then (Inl ConflictException, st)
          else
            let st1 = (if uf_isDefault dto = Some (Some True) then clearDefaultFlag realmId (Some i) st else st) in
            if uf_name dto = Some None \<or> uf_isDefault dto = Some None \<or> uf_steps dto = Some None
            then (Inl PlainError, st1)
            else if list_ex (\<lambda>x. fl_id x \<noteq> i \<and> fl_realmId x = fl_realmId f \<and> fl_name x = fl_name (apply_flow_dto dto f))
                      (af_flows st1)
            then (Inl PrismaUnique, st1)
            else (Inr (apply_flow_dto dto f),
                  st1\<lparr> af_flows := tbl_update (\<lambda>x. fl_id x = i) (apply_flow_dto dto) (af_flows st1) \<rparr>))"

text \<open>\<open>Client.authFlow\<close> is declared with \<open>onDelete: SetNull\<close>.\<close>

definition remove_flow :: "ident \<Rightarrow> ident \<Rightarrow> flow_store \<Rightarrow> unit result \<times> flow_store" where
  "remove_flow realmId i st =
     (case findOne_flow realmId i st of
        Inl err \<Rightarrow> (Inl err, st)
      | Inr _ \<Rightarrow>
          (Inr (), st\<lparr> af_flows := tbl_delete (\<lambda>f. fl_id f = i) (af_flows st),
                       af_core := (af_core st)\<lparr> clients := tbl_update (\<lambda>c. client_authFlowId c = Some i)
                                    (\<lambda>c. c\<lparr> client_authFlowId := None \<rparr>) (clients (af_core st)) \<rparr> \<rparr>))"

definition assignToClient :: "ident \<Rightarrow> ident \<Rightarrow> ident option \<Rightarrow> flow_store \<Rightarrow> client_row result \<times> flow_store" where
  "assignToClient flowId clientId authFlowId st =
     (case List.find (\<lambda>c. client_id c = clientId) (clients (af_core st)) of
        None \<Rightarrow> (Inl PrismaNotFound, st)
      | Some c \<Rightarrow>
          if authFlowId \<noteq> None \<and> the authFlowId \<notin> set (map fl_id (af_flows st)) then (Inl PrismaForeignKey, st)
          else (Inr (c\<lparr> client_authFlowId := authFlowId \<rparr>),
                st\<lparr> af_core := (af_core st)\<lparr> clients := tbl_update (\<lambda>x. client_id x = clientId)
                     (\<lambda>x. x\<lparr> client_authFlowId := authFlowId \<rparr>) (clients (af_core st)) \<rparr> \<rparr>))"

definition getFlowForClient :: "ident \<Rightarrow> ident \<Rightarrow> flow_store \<Rightarrow> flow_row result" where
  "getFlowForClient clientId realmId st =
     (case List.find (\<lambda>c. client_id c = clientId \<and> client_realmId c = realmId) (clients (af_core st)) of
        None \<Rightarrow> Inl NotFoundException
      | Some c \<Rightarrow>
          let assigned = (if falsy (client_authFlowId c) then None
                          else List.find (\<lambda>f. fl_id f = the (client_authFlowId c) \<and> fl_realmId f = realmId) (af_flows st));
              default = List.find (\<lambda>f. fl_realmId f = realmId \<and> fl_isDefault f) (af_flows st)
          in if assigned \<noteq> None then Inr (the assigned)
             else if default \<noteq> None then Inr (the default)
             else case order_asc fl_createdAt (filter (\<lambda>f. fl_realmId f = realmId) (af_flows st)) of
                    [] \<Rightarrow> Inl NotFoundException
                  | f # _ \<Rightarrow> Inr f)"

text \<open>\<open>ids\<close> are the identifiers drawn for the three flows.\<close>

fun seed_flows ::
  "env \<Rightarrow> ident \<Rightarrow> bool \<Rightarrow> (ident \<times> string \<times> string \<times> flow_step list) list \<Rightarrow> flow_store \<Rightarrow> unit result \<times> flow_store" where
  "seed_flows e realmId first [] st = (Inr (), st)"
| "seed_flows e realmId first ((newId, name, description, steps) # defs) st =
     (if list_ex (\<lambda>f. fl_realmId f = realmId \<and> fl_name f = name) (af_flows st) then seed_flows e realmId False defs st
      else and_then
             (insert_flow \<lparr> fl_id = newId, fl_realmId = realmId, fl_name = name, fl_description = Some description,
                            fl_isDefault = first, fl_steps = steps, fl_createdAt = now e \<rparr> st)
             (\<lambda>_ st1. seed_flows e realmId False defs st1))"

definition seedDefaultFlows :: "env \<Rightarrow> ident list \<Rightarrow> ident \<Rightarrow> flow_store \<Rightarrow> unit result \<times> flow_store" where
  "seedDefaultFlows e ids realmId st = seed_flows e realmId True (zip ids DEFAULT_FLOWS) st"

subsection \<open>Conditions and the order of the steps\<close>

text \<open>Only objects and arrays have \<open>typeof\<close> \<open>object\<close>; a function has not.\<close>

fun js_object :: "jsv \<Rightarrow> bool" where
  "js_object (Obj _) = True"
| "js_object (Arr _) = True"
| "js_object _ = False"

fun flow_resolve_parts :: "js_engine \<Rightarrow> jsv \<Rightarrow> string list \<Rightarrow> jsv" where
  "flow_resolve_parts j current [] = current"
| "flow_resolve_parts j current (part # parts) =
     (if js_object current then flow_resolve_parts j (get_prop j current part) parts else Undefined)"

definition flow_resolveField :: "js_engine \<Rightarrow> string \<Rightarrow> flow_context \<Rightarrow> jsv" where
  "flow_resolveField j field context = flow_resolve_parts j (Obj context) (split_on (CHR ''.'') field)"

definition flow_evaluateCondition :: "js_engine \<Rightarrow> flow_condition \<Rightarrow> flow_context \<Rightarrow> bool" where
  "flow_evaluateCondition j c context =
     (let rawValue = flow_resolveField j (fc_field c) context;
          among = (\<lambda>vs. case rawValue of Arr xs \<Rightarrow> list_ex (js_includes vs) xs | _ \<Rightarrow> js_includes vs rawValue)
      in if fc_operator c = ''exists'' then \<not> nullish rawValue
         else if fc_operator c = ''not_exists'' then nullish rawValue
         else if fc_operator c = ''eq'' then strict_eq rawValue (fc_value c)
         else if fc_operator c = ''neq'' then \<not> strict_eq rawValue (fc_value c)
         else if fc_operator c = ''in'' then (case fc_value c of Arr vs \<Rightarrow> among vs | _ \<Rightarrow> False)
         else if fc_operator c = ''not_in'' then (case fc_value c of Arr vs \<Rightarrow> \<not> among vs | _ \<Rightarrow> True)
         else False)"

definition condition_met :: "js_engine \<Rightarrow> flow_step \<Rightarrow> flow_context \<Rightarrow> bool" where
  "condition_met j st context =
     (case fs_condition st of None \<Rightarrow> True | Some c \<Rightarrow> flow_evaluateCondition j c context)"

definition firstApplicableStep :: "js_engine \<Rightarrow> flow_step list \<Rightarrow> flow_context \<Rightarrow> flow_step option" where
  "firstApplicableStep j steps context = List.find (\<lambda>st. condition_met j st context \<or> fs_required st) steps"

definition flow_by_id :: "ident \<Rightarrow> flow_row list \<Rightarrow> flow_row option" where
  "flow_by_id i fs = List.find (\<lambda>f. fl_id f = i) fs"

definition executeStep ::
  "js_engine \<Rightarrow> flow_row list \<Rightarrow> ident \<Rightarrow> ident \<Rightarrow> flow_context \<Rightarrow> (flow_step \<times> bool \<times> bool) result" where
  "executeStep j fs flowId stepId context =
     (case flow_by_id flowId fs of
        None \<Rightarrow> Inl NotFoundException
      | Some f \<Rightarrow>
          (case List.find (\<lambda>st. fs_id st = stepId) (fl_steps f) of
             None \<Rightarrow> Inl NotFoundException
           | Some st \<Rightarrow>
               let conditionMet = condition_met j st context
               in Inr (st, conditionMet, \<not> conditionMet \<and> \<not> fs_required st)))"

definition getNextStep ::
  "js_engine \<Rightarrow> flow_row list \<Rightarrow> ident \<Rightarrow> ident option \<Rightarrow> flow_context \<Rightarrow> flow_step option result" where
  "getNextStep j fs flowId currentStepId context =
     (case flow_by_id flowId fs of
        None \<Rightarrow> Inl NotFoundException
      | Some f \<Rightarrow>
          let steps = sort_key fs_order (fl_steps f) in
          case currentStepId of
            None \<Rightarrow> Inr (firstApplicableStep j steps context)
          | Some i \<Rightarrow>
              (case dropWhile (\<lambda>st. fs_id st \<noteq> i) steps of
                 [] \<Rightarrow> Inl BadRequestException
               | _ # remaining \<Rightarrow> Inr (firstApplicableStep j remaining context)))"

subsection \<open>The executor\<close>

record flow_session =
  fx_flowId :: ident
  fx_realmId :: ident
  fx_userId :: "ident option"
  fx_completedStepIds :: "ident list"
  fx_currentStepId :: "ident option"
  fx_context :: flow_context
  fx_complete :: bool

record step_result =
  sr_success :: bool
  sr_stepId :: ident
  sr_stepType :: string
  sr_nextStepId :: "ident option"
  sr_flowComplete :: bool
  sr_data :: "(string \<times> jsv) list option"

definition createSession :: "ident \<Rightarrow> ident \<Rightarrow> flow_context \<Rightarrow> flow_session" where
  "createSession flowId realmId context =
     \<lparr> fx_flowId = flowId, fx_realmId = realmId, fx_userId = None, fx_completedStepIds = [],
       fx_currentStepId = None, fx_context = context, fx_complete = False \<rparr>"

definition startFlow :: "js_engine \<Rightarrow> flow_row list \<Rightarrow> flow_session \<Rightarrow> flow_step option result \<times> flow_session" where
  "startFlow j fs x =
     (case getNextStep j fs (fx_flowId x) None (fx_context x) of
        Inl err \<Rightarrow> (Inl err, x)
      | Inr next \<Rightarrow> (Inr next, x\<lparr> fx_currentStepId := map_option fs_id next \<rparr>))"

text \<open>The credentials of a step are the fields the handlers read, each a string when present.\<close>

type_synonym credentials = "string \<Rightarrow> string option"

definition set_context :: "string \<Rightarrow> jsv \<Rightarrow> flow_session \<Rightarrow> flow_session" where
  "set_context k v x = x\<lparr> fx_context := (k, v) # filter (\<lambda>kv. fst kv \<noteq> k) (fx_context x) \<rparr>"

type_synonym dispatch_result = "(bool \<times> (string \<times> jsv) list option) result \<times> flow_session \<times> db"

definition handlePasswordStep ::
  "env \<Rightarrow> login_draws \<Rightarrow> credentials \<Rightarrow> flow_session \<Rightarrow> realm_row \<Rightarrow> db \<Rightarrow> dispatch_result" where
  "handlePasswordStep e d credentials x r s =
     (if falsy (credentials ''username'') \<or> falsy (credentials ''password'') then (Inl BadRequestException, x, s)
      else case validateCredentials e d r (the (credentials ''username'')) (the (credentials ''password'')) None s of
             (Inl err, s1) \<Rightarrow> (Inl err, x, s1)
           | (Inr u, s1) \<Rightarrow>
               (Inr (True, None),
                set_context ''user''
                  (Obj [(''id'', Str (user_id u)), (''username'', Str (user_username u)),
                        (''email'', case user_email u of None \<Rightarrow> Null | Some m \<Rightarrow> Str m), (''enabled'', Bool (user_enabled u))])
                  (x\<lparr> fx_userId := Some (user_id u) \<rparr>), s1))"

definition handleTotpStep :: "env \<Rightarrow> credentials \<Rightarrow> flow_session \<Rightarrow> db \<Rightarrow> dispatch_result" where
  "handleTotpStep e credentials x s =
     (if falsy (fx_userId x) then (Inl BadRequestException, x, s)
      else if falsy (credentials ''code'') then (Inl BadRequestException, x, s)
      else case verifySecondFactor e (the (fx_userId x)) (OtpInput (the (credentials ''code''))) s of
             (Inl err, s1) \<Rightarrow> (Inl err, x, s1)
           | (Inr verified, s1) \<Rightarrow> (Inr (verified \<noteq> None, None), x, s1))"

definition handleWebAuthnStep :: "js_engine \<Rightarrow> credentials \<Rightarrow> flow_session \<Rightarrow> db \<Rightarrow> dispatch_result" where
  "handleWebAuthnStep j credentials x s =
     (if truthy (get_prop j (Obj (fx_context x)) ''webauthnVerified'') \<and> \<not> falsy (credentials ''userId'')
      then (Inr (True, None),
            set_context ''user'' (Obj [(''id'', Str (the (credentials ''userId'')))])
              (x\<lparr> fx_userId := credentials ''userId'' \<rparr>), s)
      else (Inr (False, Some [(''redirect'', Str ''webauthn_challenge'')]), x, s))"

definition dispatchStep ::
  "js_engine \<Rightarrow> env \<Rightarrow> login_draws \<Rightarrow> flow_step \<Rightarrow> credentials \<Rightarrow> flow_session \<Rightarrow> realm_row \<Rightarrow> db \<Rightarrow> dispatch_result" where
  "dispatchStep j e d st credentials x r s =
     (if fs_type st = ''password'' \<or> fs_type st = ''ldap'' then handlePasswordStep e d credentials x r s
      else if fs_type st = ''totp'' then handleTotpStep e credentials x s
      else if fs_type st = ''webauthn'' then handleWebAuthnStep j credentials x s
      else if fs_type st \<in> {''social'', ''email_otp'', ''magic_link'', ''consent''}
      then (Inr (True, Some [(''pending'', Bool True), (''stepType'', Str (fs_type st))]), x, s)
      else (Inr (False, None), x, s))"

definition advanceSession ::
  "js_engine \<Rightarrow> flow_row list \<Rightarrow> flow_step \<Rightarrow> (string \<times> jsv) list option \<Rightarrow> flow_session \<Rightarrow> step_result result \<times> flow_session" where
  "advanceSession j fs st data x =
     (let x1 = x\<lparr> fx_completedStepIds := fx_completedStepIds x @ [fs_id st] \<rparr> in
      case getNextStep j fs (fx_flowId x) (Some (fs_id st)) (fx_context x1) of
        Inl err \<Rightarrow> (Inl err, x1)
      | Inr next \<Rightarrow>
          (Inr \<lparr> sr_success = True, sr_stepId = fs_id st, sr_stepType = fs_type st,
                 sr_nextStepId = map_option fs_id next, sr_flowComplete = (next = None), sr_data = data \<rparr>,
           x1\<lparr> fx_currentStepId := map_option fs_id next, fx_complete := (next = None) \<rparr>))"

definition to_fallback :: "flow_step \<Rightarrow> ident \<Rightarrow> flow_session \<Rightarrow> step_result result \<times> flow_session" where
  "to_fallback st stepId x =
     (Inr \<lparr> sr_success = False, sr_stepId = stepId, sr_stepType = fs_type st, sr_nextStepId = fs_fallbackStepId st,
            sr_flowComplete = False, sr_data = None \<rparr>, x\<lparr> fx_currentStepId := fs_fallbackStepId st \<rparr>)"

definition processStep ::
  "js_engine \<Rightarrow> env \<Rightarrow> login_draws \<Rightarrow> flow_row list \<Rightarrow> ident \<Rightarrow> credentials \<Rightarrow> realm_row \<Rightarrow> flow_session \<Rightarrow> db \<Rightarrow>
   step_result result \<times> flow_session \<times> db" where
  "processStep j e d fs stepId credentials r x s =
     (if fx_complete x then (Inl BadRequestException, x, s)
      else case executeStep j fs (fx_flowId x) stepId (fx_context x) of
        Inl err \<Rightarrow> (Inl err, x, s)
      | Inr (st, _, skipped) \<Rightarrow>
          if skipped then (let (res, x1) = advanceSession j fs st None x in (res, x1, s))
          else case dispatchStep j e d st credentials x r s of
            (Inl err, x1, s1) \<Rightarrow>
              if err = UnauthorizedException \<or> falsy (fs_fallbackStepId st) then (Inl err, x1, s1)
              else (let (res, x2) = to_fallback st stepId x1 in (res, x2, s1))
          | (Inr (success, extraData), x1, s1) \<Rightarrow>
              if \<not> success then
                if \<not> falsy (fs_fallbackStepId st) then (let (res, x2) = to_fallback st stepId x1 in (res, x2, s1))
                else (Inr \<lparr> sr_success = False, sr_stepId = stepId, sr_stepType = fs_type st,
                            sr_nextStepId = Some stepId, sr_flowComplete = False, sr_data = None \<rparr>, x1, s1)
              else (let (res, x2) = advanceSession j fs st extraData x1 in (res, x2, s1)))"

subsection \<open>Runs of a session\<close>

text \<open>
  A caller starts a session and submits credentials for the step the session is at.  Between two submissions the
  database changes in any way, and other controllers may change the context.  The log keeps the circumstances
  of every submission.
\<close>

type_synonym submission = "env \<times> login_draws \<times> credentials \<times> flow_session \<times> db"

inductive flow_runs :: "js_engine \<Rightarrow> realm_row \<Rightarrow> flow_row list \<Rightarrow> flow_session \<Rightarrow> db \<Rightarrow> submission list \<Rightarrow> bool"
  for j :: js_engine and r :: realm_row and fs :: "flow_row list" where
  start: "startFlow j fs (createSession flowId (realm_id r) context) = (Inr next, x) \<Longrightarrow> flow_runs j r fs x s []"
| submit: "flow_runs j r fs x s subs \<Longrightarrow> fx_currentStepId x = Some stepId \<Longrightarrow>
     processStep j e d fs stepId credentials r x s = (res, x', s') \<Longrightarrow>
     flow_runs j r fs x' s' (subs @ [(e, d, credentials, x, s)])"
| database: "flow_runs j r fs x s subs \<Longrightarrow> flow_runs j r fs x s' subs"
| enriched: "flow_runs j r fs x s subs \<Longrightarrow> flow_runs j r fs (x\<lparr> fx_context := c \<rparr>) s subs"

definition step_passed :: "js_engine \<Rightarrow> realm_row \<Rightarrow> flow_step \<Rightarrow> submission \<Rightarrow> bool" where
  "step_passed j r st sub =
     (case sub of (e, d, credentials, x, s) \<Rightarrow> \<exists>data x' s'. dispatchStep j e d st credentials x r s = (Inr (True, data), x', s'))"

definition authenticates :: "js_engine \<Rightarrow> realm_row \<Rightarrow> ident \<Rightarrow> submission \<Rightarrow> bool" where
  "authenticates j r uid sub =
     (case sub of (e, d, credentials, x, s) \<Rightarrow>
        (\<exists>username password u s'. credentials ''username'' = Some username \<and> credentials ''password'' = Some password \<and>
           validateCredentials e d r username password None s = (Inr u, s') \<and> user_id u = uid) \<or>
        truthy (get_prop j (Obj (fx_context x)) ''webauthnVerified'') \<and> credentials ''userId'' = Some uid)"

lemma dispatchStep_cases:
  assumes "dispatchStep j e d st credentials x r s = (res, x', s')"
  shows "fx_flowId x' = fx_flowId x" "fx_currentStepId x' = fx_currentStepId x" "fx_complete x' = fx_complete x"
    "fx_userId x' = fx_userId x \<or> (\<exists>uid. fx_userId x' = Some uid \<and> authenticates j r uid (e, d, credentials, x, s))"
  using assms
  by (auto simp: dispatchStep_def handlePasswordStep_def handleTotpStep_def handleWebAuthnStep_def set_context_def
      authenticates_def falsy_def split: if_splits option.splits prod.splits sum.splits)

lemma getNextStep_after:
  assumes "flow_by_id fid fs = Some f" "sort_key fs_order (fl_steps f) = before @ st # rest"
    and "distinct (map fs_id (fl_steps f))"
  shows "getNextStep j fs fid (Some (fs_id st)) c = Inr (firstApplicableStep j rest c)"
proof -
  have "distinct (map fs_id (before @ st # rest))"
    using assms(2,3) by (metis distinct_map distinct_sort set_sort)
  then have "dropWhile (\<lambda>y. fs_id y \<noteq> fs_id st) (before @ st # rest) = st # rest"
    by (subst dropWhile_append2) (auto simp: image_iff)
  with assms(1,2) show ?thesis by (simp add: getNextStep_def Let_def)
qed

lemma find_split:
  "List.find P xs = Some y \<Longrightarrow> \<exists>before after. xs = before @ y # after \<and> (\<forall>z \<in> set before. \<not> P z)"
proof (induction xs)
  case (Cons a xs)
  show ?case
  proof (cases "P a")
    case True
    with Cons.prems show ?thesis by (intro exI [of _ "[]"] exI [of _ xs]) auto
  next
    case False
    with Cons obtain before after where "xs = before @ y # after" "\<forall>z \<in> set before. \<not> P z" by auto
    with False show ?thesis by (intro exI [of _ "a # before"] exI [of _ after]) auto
  qed
qed simp

lemma firstApplicable_split:
  "firstApplicableStep j rest c = None \<Longrightarrow> \<forall>st \<in> set rest. \<not> fs_required st"
  "firstApplicableStep j rest c = Some st \<Longrightarrow>
     \<exists>before after. rest = before @ st # after \<and> (\<forall>y \<in> set before. \<not> fs_required y)"
  unfolding firstApplicableStep_def by (auto simp: find_None_iff) (blast dest: find_split)

subsection \<open>The position of a session\<close>

text \<open>
  \<open>at_step\<close>: the steps before the current one were passed unless they are optional; in a complete session that
  holds for all steps.
\<close>

definition at_step :: "js_engine \<Rightarrow> realm_row \<Rightarrow> flow_row \<Rightarrow> flow_session \<Rightarrow> submission list \<Rightarrow> bool" where
  "at_step j r f x subs \<longleftrightarrow>
     (\<exists>before rest. sort_key fs_order (fl_steps f) = before @ rest \<and>
        (\<forall>st \<in> set before. fs_required st \<longrightarrow> (\<exists>sub \<in> set subs. step_passed j r st sub)) \<and>
        (fx_complete x \<longrightarrow> (\<forall>st \<in> set rest. \<not> fs_required st)) \<and>
        (\<forall>i. fx_currentStepId x = Some i \<longrightarrow> (\<exists>st after. rest = st # after \<and> fs_id st = i)))"

lemma at_step_next:
  assumes steps: "sort_key fs_order (fl_steps f) = before @ st # rest"
    and passed: "\<forall>y \<in> set (before @ [st]). fs_required y \<longrightarrow> (\<exists>sub \<in> set subs. step_passed j r y sub)"
    and f: "flow_by_id (fx_flowId x) fs = Some f" "distinct (map fs_id (fl_steps f))"
    and adv: "advanceSession j fs st data x = (res, x')"
  shows "at_step j r f x' subs \<and> fx_flowId x' = fx_flowId x \<and> fx_userId x' = fx_userId x"
proof (cases "firstApplicableStep j rest (fx_context x)")
  case None
  with adv getNextStep_after [OF f(1) steps f(2)] have "x' = x\<lparr> fx_completedStepIds := fx_completedStepIds x @ [fs_id st],
      fx_currentStepId := None, fx_complete := True \<rparr>"
    by (auto simp: advanceSession_def Let_def)
  with steps passed firstApplicable_split(1) [OF None] show ?thesis
    unfolding at_step_def by (intro conjI exI [of _ "before @ [st]"] exI [of _ rest]) auto
next
  case (Some next_st)
  then obtain skipped after where r: "rest = skipped @ next_st # after" "\<forall>y \<in> set skipped. \<not> fs_required y"
    using firstApplicable_split(2) by blast
  from Some adv getNextStep_after [OF f(1) steps f(2)] have "x' = x\<lparr> fx_completedStepIds := fx_completedStepIds x @ [fs_id st],
      fx_currentStepId := Some (fs_id next_st), fx_complete := False \<rparr>"
    by (auto simp: advanceSession_def Let_def)
  with steps passed r show ?thesis
    unfolding at_step_def
    by (intro conjI exI [of _ "before @ [st] @ skipped"] exI [of _ "next_st # after"]) auto
qed

lemma at_step_start:
  assumes "startFlow j fs (createSession fid rid c) = (Inr nxt, x)" "flow_by_id (fx_flowId x) fs = Some f"
  shows "at_step j r f x []"
proof -
  have n: "nxt = firstApplicableStep j (sort_key fs_order (fl_steps f)) c" and x: "fx_currentStepId x = map_option fs_id nxt" "\<not> fx_complete x"
    using assms by (auto simp: startFlow_def createSession_def getNextStep_def Let_def split: option.splits sum.splits)
  show ?thesis
  proof (cases nxt)
    case None
    with x show ?thesis unfolding at_step_def by (intro exI [of _ "[]"] exI [of _ "sort_key fs_order (fl_steps f)"]) auto
  next
    case (Some st)
    then obtain skipped after where "sort_key fs_order (fl_steps f) = skipped @ st # after" "\<forall>y \<in> set skipped. \<not> fs_required y"
      using n firstApplicable_split(2) by metis
    with x Some show ?thesis unfolding at_step_def by (intro exI [of _ skipped] exI [of _ "st # after"]) auto
  qed
qed

lemma step_passed_mono:
  "\<forall>y \<in> A. fs_required y \<longrightarrow> (\<exists>sub \<in> set subs. step_passed j r y sub) \<Longrightarrow>
     \<forall>y \<in> A. fs_required y \<longrightarrow> (\<exists>sub \<in> set (subs @ subs'). step_passed j r y sub)"
  by auto

lemma at_step_submit:
  assumes at: "at_step j r f x subs" and cur: "fx_currentStepId x = Some stepId"
    and run: "processStep j e d fs stepId credentials r x s = (res, x', s')"
    and f: "flow_by_id (fx_flowId x) fs = Some f" "distinct (map fs_id (fl_steps f))"
    and nofb: "\<forall>st \<in> set (fl_steps f). falsy (fs_fallbackStepId st)"
  shows "at_step j r f x' (subs @ [(e, d, credentials, x, s)]) \<and> fx_flowId x' = fx_flowId x \<and>
    (fx_userId x' = fx_userId x \<or> (\<exists>uid. fx_userId x' = Some uid \<and> authenticates j r uid (e, d, credentials, x, s)))"
proof -
  let ?subs = "subs @ [(e, d, credentials, x, s)]"
  from at cur obtain before st after where
    steps: "sort_key fs_order (fl_steps f) = before @ st # after" and st: "fs_id st = stepId" and
    passed: "\<forall>y \<in> set before. fs_required y \<longrightarrow> (\<exists>sub \<in> set subs. step_passed j r y sub)"
    unfolding at_step_def by blast
  have mem: "st \<in> set (fl_steps f)" using steps by (metis in_set_conv_decomp set_sort)
  then have found: "List.find (\<lambda>y. fs_id y = stepId) (fl_steps f) = Some st"
    using f(2) st find_unique [of fs_id "fl_steps f" st] by simp
  have stay: "at_step j r f y ?subs" if "fx_currentStepId y = fx_currentStepId x" "fx_complete y = fx_complete x" for y
    using at that unfolding at_step_def by auto
  have fb: "falsy (fs_fallbackStepId st)" using nofb mem by blast
  show ?thesis
  proof (cases "fx_complete x")
    case True
    with run stay show ?thesis by (auto simp: processStep_def)
  next
    case open': False
    have ex: "executeStep j fs (fx_flowId x) stepId (fx_context x) =
        Inr (st, condition_met j st (fx_context x), \<not> condition_met j st (fx_context x) \<and> \<not> fs_required st)"
      using f(1) found by (simp add: executeStep_def Let_def)
    show ?thesis
    proof (cases "condition_met j st (fx_context x) \<or> fs_required st")
      case False
      then obtain res1 where "advanceSession j fs st None x = (res1, x')"
        using run open' ex by (auto simp: processStep_def split: prod.splits)
      moreover have "\<forall>y \<in> set (before @ [st]). fs_required y \<longrightarrow> (\<exists>sub \<in> set ?subs. step_passed j r y sub)"
        using step_passed_mono [OF passed, of "[(e, d, credentials, x, s)]"] False by auto
      ultimately show ?thesis using at_step_next [OF steps _ f] by blast
    next
      case True
      obtain out x1 s1 where dis: "dispatchStep j e d st credentials x r s = (out, x1, s1)" by (cases "dispatchStep j e d st credentials x r s") auto
      note same = dispatchStep_cases [OF dis]
      show ?thesis
      proof (cases "\<exists>data. out = Inr (True, data)")
        case False
        then have "x' = x1" using run open' ex True dis fb by (auto simp: processStep_def split: sum.splits if_splits)
        with same stay show ?thesis by simp
      next
        case ok: True
        then obtain data where out: "out = Inr (True, data)" by blast
        with run open' ex True dis obtain res1 where adv: "advanceSession j fs st data x1 = (res1, x')"
          by (auto simp: processStep_def split: prod.splits)
        have "step_passed j r st (e, d, credentials, x, s)" using dis out by (simp add: step_passed_def)
        with step_passed_mono [OF passed] have "\<forall>y \<in> set (before @ [st]). fs_required y \<longrightarrow> (\<exists>sub \<in> set ?subs. step_passed j r y sub)"
          by auto
        from at_step_next [OF steps this _ f(2) adv] f(1) same show ?thesis by auto
      qed
    qed
  qed
qed

lemma flow_runs_invariant:
  assumes "flow_runs j r fs x s subs" and "flow_by_id (fx_flowId x) fs = Some f" "distinct (map fs_id (fl_steps f))"
    and "\<forall>st \<in> set (fl_steps f). falsy (fs_fallbackStepId st)"
  shows "at_step j r f x subs \<and> (\<forall>uid. fx_userId x = Some uid \<longrightarrow> (\<exists>sub \<in> set subs. authenticates j r uid sub))"
  using assms
proof (induction rule: flow_runs.induct)
  case (start flowId c nxt x s)
  then have "fx_userId x = None"
    by (auto simp: startFlow_def createSession_def split: sum.splits)
  with at_step_start [OF start(1,2)] show ?case by simp
next
  case (submit x s subs stepId e d credentials res x' s')
  have "fx_flowId x' = fx_flowId x"
    using submit(3) dispatchStep_cases(1) [of j e d _ credentials x r s]
    by (fastforce simp: processStep_def advanceSession_def to_fallback_def Let_def
        split: prod.splits sum.splits if_splits option.splits)
  with submit(5) have f: "flow_by_id (fx_flowId x) fs = Some f" by simp
  note IH = submit.IH [OF f submit(6,7)]
  from at_step_submit [OF conjunct1 [OF IH] submit(2,3) f submit(6,7)] IH show ?case by auto
next
  case (enriched x s subs c)
  then show ?case by (simp add: at_step_def)
qed simp

subsection \<open>Property\<close>

text \<open>
  A session that is led through a flow step by step, whatever else changes the database and the context in between, is
  complete only when every required step of the flow was passed at some submission, and its user is one whom a
  submission authenticated (by a password the login service accepted, or by a verified security key).
  The flow is one that the administration accepts, and has no fallback steps.
\<close>

theorem flow_completion_sound:
  assumes run: "flow_runs j r fs x s subs" and f: "flow_by_id (fx_flowId x) fs = Some f"
    and steps: "validateSteps (fl_steps f)" "list_all (\<lambda>st. falsy (fs_fallbackStepId st)) (fl_steps f)"
    and complete: "fx_complete x"
  shows "(\<forall>st \<in> set (fl_steps f). fs_required st \<longrightarrow> (\<exists>sub \<in> set subs. step_passed j r st sub)) \<and>
    (\<forall>uid. fx_userId x = Some uid \<longrightarrow> (\<exists>sub \<in> set subs. authenticates j r uid sub))"
proof -
  have "distinct (map fs_id (fl_steps f))" "\<forall>st \<in> set (fl_steps f). falsy (fs_fallbackStepId st)"
    using steps by (simp_all add: validateSteps_def list_all_iff)
  from flow_runs_invariant [OF run f this] obtain before rest where
    "sort_key fs_order (fl_steps f) = before @ rest" and
    inv: "\<forall>st \<in> set before. fs_required st \<longrightarrow> (\<exists>sub \<in> set subs. step_passed j r st sub)"
      "\<forall>st \<in> set rest. \<not> fs_required st"
      "\<forall>uid. fx_userId x = Some uid \<longrightarrow> (\<exists>sub \<in> set subs. authenticates j r uid sub)"
    using complete unfolding at_step_def by (elim conjE exE) auto
  then have "set (fl_steps f) = set before \<union> set rest" by (metis set_append set_sort)
  with inv show ?thesis by blast
qed

subsection \<open>Witness and observations\<close>

definition sample_flow_draws :: login_draws where
  "sample_flow_draws =
     \<lparr> ld_userId = ''u9'', ld_newHash = ''h'', ld_sessionId = ''s9'', ld_sessionToken = ''t'', ld_challengeId = ''ch'',
       ld_challengeToken = ''ct'', ld_enrollmentId = ''en'', ld_enrollmentToken = ''et'', ld_consentId = ''co'',
       ld_consentToken = ''cot'', ld_codeId = ''cd'', ld_code = ''code'', ld_changeId = ''cg'', ld_changeToken = ''cgt'' \<rparr>"

definition sample_flow :: flow_row where
  "sample_flow = \<lparr> fl_id = ''f1'', fl_realmId = ''r1'', fl_name = ''MFA Required'', fl_description = None, fl_isDefault = True,
     fl_steps = snd (snd (DEFAULT_FLOWS ! 1)), fl_createdAt = 0 \<rparr>"

definition sample_flow_db :: db where
  "sample_flow_db = sample_db\<lparr> userCredentials := [\<lparr> uc_id = ''uc1'', uc_userId = ''u1'', uc_type = ''totp'', uc_secretKey = ''123456'',
     uc_phoneNumber = None, uc_digits = 6, uc_period = 30, uc_verified = True \<rparr>] \<rparr>"

definition sample_flow_credentials :: credentials where
  "sample_flow_credentials = [''username'' \<mapsto> ''alice'', ''password'' \<mapsto> ''pw'', ''code'' \<mapsto> ''123456'']"

primrec sample_session :: "nat \<Rightarrow> flow_session \<times> db" where
  "sample_session 0 = (snd (startFlow sample_engine [sample_flow] (createSession ''f1'' ''r1'' [])), sample_flow_db)"
| "sample_session (Suc n) =
     snd (processStep sample_engine sample_env sample_flow_draws [sample_flow] (the (fx_currentStepId (fst (sample_session n))))
       sample_flow_credentials sample_realm (fst (sample_session n)) (snd (sample_session n)))"

lemma sample_session_steps:
  "startFlow sample_engine [sample_flow] (createSession ''f1'' (realm_id sample_realm) []) =
     (Inr (Some (simple_step ''step-password'' ''password'' 1)), fst (sample_session 0))"
  "fx_currentStepId (fst (sample_session 0)) = Some ''step-password''"
  "fx_currentStepId (fst (sample_session (Suc 0))) = Some ''step-totp''"
  "fx_complete (fst (sample_session (Suc (Suc 0))))" "fx_userId (fst (sample_session (Suc (Suc 0)))) = Some ''u1''"
  "fx_flowId (fst (sample_session (Suc (Suc 0)))) = ''f1''"
  by code_simp+

declare sample_session.simps [simp del]

definition sample_submissions :: "submission list" where
  "sample_submissions = map (\<lambda>n. (sample_env, sample_flow_draws, sample_flow_credentials, sample_session n)) [0, Suc 0]"

lemma sample_flow_runs:
  "flow_runs sample_engine sample_realm [sample_flow] (fst (sample_session (Suc (Suc 0)))) (snd (sample_session (Suc (Suc 0)))) sample_submissions"
proof -
  have start: "flow_runs sample_engine sample_realm [sample_flow] (fst (sample_session 0)) (snd (sample_session 0)) []"
    by (rule flow_runs.start [OF sample_session_steps(1)])
  have next_step: "flow_runs sample_engine sample_realm [sample_flow] (fst (sample_session (Suc n))) (snd (sample_session (Suc n)))
      (subs @ [(sample_env, sample_flow_draws, sample_flow_credentials, fst (sample_session n), snd (sample_session n))])"
    if "flow_runs sample_engine sample_realm [sample_flow] (fst (sample_session n)) (snd (sample_session n)) subs"
      "fx_currentStepId (fst (sample_session n)) = Some i" for n subs i
    by (rule flow_runs.submit [OF that]) (simp add: that(2) prod_eq_iff sample_session.simps(2))
  from next_step [OF next_step [OF start sample_session_steps(2)] sample_session_steps(3)] show ?thesis
    by (simp add: sample_submissions_def)
qed

theorem flow_completion_sound_witness:
  "\<exists>sub \<in> set sample_submissions. authenticates sample_engine sample_realm ''u1'' sub"
proof -
  have f: "flow_by_id (fx_flowId (fst (sample_session (Suc (Suc 0))))) [sample_flow] = Some sample_flow"
    by (simp add: sample_session_steps(6) flow_by_id_def sample_flow_def)
  have steps: "validateSteps (fl_steps sample_flow)" "list_all (\<lambda>st. falsy (fs_fallbackStepId st)) (fl_steps sample_flow)"
    by code_simp+
  from flow_completion_sound [OF sample_flow_runs f steps sample_session_steps(4)] show ?thesis
    using sample_session_steps(5) by blast
qed

text \<open>
  The executor does not compare the submitted step with the step the session is at: the last step of a flow can be
  submitted first, and the session is complete.  With a last step that is only redirected to another
  page (here consent), nobody has been authenticated.
\<close>

definition consent_flow :: flow_row where
  "consent_flow = sample_flow\<lparr> fl_steps := [simple_step ''step-password'' ''password'' 1, simple_step ''step-consent'' ''consent'' 2] \<rparr>"

lemma step_order_not_enforced:
  "validateSteps (fl_steps consent_flow) \<and>
   (let x = snd (startFlow sample_engine [consent_flow] (createSession ''f1'' ''r1'' []));
        x' = fst (snd (processStep sample_engine sample_env sample_flow_draws [consent_flow] ''step-consent'' Map.empty
                         sample_realm x sample_flow_db))
    in fx_currentStepId x = Some ''step-password'' \<and> fx_complete x' \<and> fx_userId x' = None)"
  by code_simp

text \<open>Seeding marks the simple flow as the default without clearing the flag of another flow.\<close>

definition custom_flow :: flow_row where
  "custom_flow = sample_flow\<lparr> fl_name := ''Custom'' \<rparr>"

lemma seeding_adds_second_default:
  "map fl_name (filter fl_isDefault (af_flows (snd (seedDefaultFlows sample_env [''a'', ''b'', ''c''] ''r1''
     \<lparr> af_flows = [custom_flow], af_core = sample_db \<rparr>)))) = [''Custom'', ''Simple Login'']"
  by code_simp

subsection \<open>One default flow per realm\<close>

definition one_default :: "flow_row list \<Rightarrow> bool" where
  "one_default fs \<longleftrightarrow> (\<forall>f \<in> set fs. \<forall>g \<in> set fs. fl_realmId f = fl_realmId g \<longrightarrow> fl_isDefault f \<longrightarrow> fl_isDefault g \<longrightarrow> fl_id f = fl_id g)"

lemma clearDefaultFlag_from:
  assumes "f \<in> set (af_flows (clearDefaultFlag rid ex st))"
  obtains f0 where "f0 \<in> set (af_flows st)" "fl_id f = fl_id f0" "fl_realmId f = fl_realmId f0"
    "fl_isDefault f \<longleftrightarrow> fl_isDefault f0 \<and> \<not> (fl_realmId f0 = rid \<and> (falsy ex \<or> fl_id f0 \<noteq> the ex))"
proof -
  have "f \<in> (\<lambda>f. if fl_realmId f = rid \<and> fl_isDefault f \<and> (falsy ex \<or> fl_id f \<noteq> the ex) then f\<lparr> fl_isDefault := False \<rparr> else f)
      ` set (af_flows st)"
    using assms by (simp add: clearDefaultFlag_def set_tbl_update)
  then obtain f0 where "f0 \<in> set (af_flows st)"
    "f = (if fl_realmId f0 = rid \<and> fl_isDefault f0 \<and> (falsy ex \<or> fl_id f0 \<noteq> the ex) then f0\<lparr> fl_isDefault := False \<rparr> else f0)"
    by blast
  then show thesis by (intro that [of f0]) (auto split: if_splits)
qed

lemma one_default_clear:
  assumes "one_default (af_flows st)"
  shows "one_default (af_flows (clearDefaultFlag rid ex st))"
  unfolding one_default_def
proof (intro ballI impI)
  fix f g
  assume f: "f \<in> set (af_flows (clearDefaultFlag rid ex st))" and g: "g \<in> set (af_flows (clearDefaultFlag rid ex st))"
    and fg: "fl_realmId f = fl_realmId g" "fl_isDefault f" "fl_isDefault g"
  from f obtain f0 where f0: "f0 \<in> set (af_flows st)" "fl_id f = fl_id f0" "fl_realmId f = fl_realmId f0"
    "fl_isDefault f \<longleftrightarrow> fl_isDefault f0 \<and> \<not> (fl_realmId f0 = rid \<and> (falsy ex \<or> fl_id f0 \<noteq> the ex))"
    by (rule clearDefaultFlag_from)
  from g obtain g0 where g0: "g0 \<in> set (af_flows st)" "fl_id g = fl_id g0" "fl_realmId g = fl_realmId g0"
    "fl_isDefault g \<longleftrightarrow> fl_isDefault g0 \<and> \<not> (fl_realmId g0 = rid \<and> (falsy ex \<or> fl_id g0 \<noteq> the ex))"
    by (rule clearDefaultFlag_from)
  show "fl_id f = fl_id g" using assms f0 g0 fg unfolding one_default_def by metis
qed

lemma one_default_snoc:
  assumes "one_default fs" "fl_isDefault f \<Longrightarrow> \<forall>g \<in> set fs. fl_realmId g = fl_realmId f \<longrightarrow> \<not> fl_isDefault g"
  shows "one_default (fs @ [f])"
  using assms unfolding one_default_def by (intro ballI impI) auto

lemma create_flow_one_default:
  assumes "one_default (af_flows st)"
  shows "one_default (af_flows (snd (create_flow e i rid n desc def steps st)))"
proof -
  let ?st = "if def = Some True then clearDefaultFlag rid None st else st"
  have "one_default (af_flows ?st)" using assms one_default_clear by simp
  moreover have "\<not> fl_isDefault g" if "g \<in> set (af_flows ?st)" "fl_realmId g = rid" "def = Some True" for g
    using that by (auto elim: clearDefaultFlag_from)
  ultimately show ?thesis
    using assms by (cases "def")
      (auto simp: create_flow_def insert_flow_def intro!: one_default_snoc)
qed

end
