(* ===== verification/Passkeys.thy ===== *)
theory Passkeys
  imports Login_Soundness Contracts
begin

text \<open>
  \<open>src/src/webauthn\<close>: registration of passkeys and sign-in with them.  The service stores a challenge as a
  pending action, hands the browser's answer with the challenge to the \<open>@simplewebauthn/server\<close> package, and keeps the
  signature counter of each credential; the controller starts the browser session and continues with the
  authorization request.  What the package answers is the record \<open>webauthn_lib\<close>: the two verification
  functions (\<^const>\<open>None\<close> when they throw), and the protocol and port that the URL constructor finds in an
  address.
\<close>

subsection \<open>The environment\<close>

record registration_response =
  rr_id :: string
  rr_body :: string

record authentication_response =
  ar_id :: string
  ar_body :: string

record registration_info =
  ri_credentialId :: string
  ri_publicKey :: string
  ri_counter :: int
  ri_transports :: "string list option"
  ri_deviceType :: string
  ri_backedUp :: bool

record webauthn_lib =
  wl_verifyRegistration :: "registration_response \<Rightarrow> string \<Rightarrow> string \<Rightarrow> string \<Rightarrow> bool \<Rightarrow> (bool \<times> registration_info option) option"
  wl_verifyAuthentication :: "authentication_response \<Rightarrow> string \<Rightarrow> string \<Rightarrow> string \<Rightarrow> webauthn_credential_row \<Rightarrow> bool \<Rightarrow> (bool \<times> int) option"
  wl_url :: "string \<Rightarrow> (string \<times> string) option"

record webauthn_options =
  wo_challenge :: string
  wo_rpId :: string
  wo_rpName :: "string option"
  wo_userName :: "string option"
  wo_userDisplayName :: "string option"
  wo_credentials :: "string list option"
  wo_userVerification :: string

subsection \<open>Helpers\<close>

definition getRpId :: "realm_row \<Rightarrow> string" where
  "getRpId r = nullish_else (realm_webAuthnRpId r) ''localhost''"

definition getRpName :: "realm_row \<Rightarrow> string" where
  "getRpName r = nullish_else (realm_webAuthnRpName r) (nullish_else (realm_displayName r) (realm_name r))"

definition getOrigin :: "env \<Rightarrow> webauthn_lib \<Rightarrow> string \<Rightarrow> string" where
  "getOrigin e w rpId =
     (case wl_url w (base_url e) of
        None \<Rightarrow> ''https://'' @ rpId
      | Some (protocol, port) \<Rightarrow>
          protocol @ ''//'' @ rpId @ (if port \<noteq> [] \<and> port \<noteq> ''80'' \<and> port \<noteq> ''443'' then CHR '':'' # port else []))"

definition verification_level :: "realm_row \<Rightarrow> string" where
  "verification_level r = (if realm_webAuthnUserVerificationRequired r then ''required'' else ''preferred'')"

subsection \<open>Challenges\<close>

definition challenge_type :: "string \<Rightarrow> string" where
  "challenge_type ty = ''webauthn_'' @ ty @ ''_challenge''"

definition challenge_hash :: "env \<Rightarrow> string \<Rightarrow> ident \<Rightarrow> string \<Rightarrow> string" where
  "challenge_hash e key realmId ty = sha256 e (key @ '':'' @ realmId @ '':'' @ challenge_type ty)"

definition storeWebAuthnChallenge :: "env \<Rightarrow> ident \<Rightarrow> string \<Rightarrow> ident \<Rightarrow> string \<Rightarrow> string \<Rightarrow> db \<Rightarrow> db" where
  "storeWebAuthnChallenge e newId key realmId ty challenge s =
     (let tokenHash = challenge_hash e key realmId ty
      in s\<lparr> pendingActions := tbl_delete (\<lambda>a. pa_tokenHash a = tokenHash) (pendingActions s) @
             [\<lparr> pa_id = newId, pa_tokenHash = tokenHash, pa_type = challenge_type ty,
                pa_data = WebAuthnChallengeData key realmId challenge, pa_attempts = 0,
                pa_expiresAt = now e + 5 * 60 * 1000, pa_createdAt = now e \<rparr>] \<rparr>)"

fun json_challenge :: "pending_data \<Rightarrow> string option" where
  "json_challenge (WebAuthnChallengeData _ _ challenge) = Some challenge"
| "json_challenge _ = None"

definition consumeWebAuthnChallenge :: "env \<Rightarrow> string \<Rightarrow> ident \<Rightarrow> string \<Rightarrow> db \<Rightarrow> string option \<times> db" where
  "consumeWebAuthnChallenge e key realmId ty s =
     (case List.find (\<lambda>a. pa_tokenHash a = challenge_hash e key realmId ty) (pendingActions s) of
        None \<Rightarrow> (None, s)
      | Some action \<Rightarrow>
          if pa_type action \<noteq> challenge_type ty then (None, s)
          else let s1 = s\<lparr> pendingActions := tbl_delete (\<lambda>a. pa_id a = pa_id action) (pendingActions s) \<rparr>
               in if pa_expiresAt action < now e then (None, s1) else (json_challenge (pa_data action), s1))"

subsection \<open>Registration\<close>

definition display_name :: "user_row \<Rightarrow> string" where
  "display_name u =
     (let names = map the (filter (\<lambda>n. \<not> falsy n) [user_firstName u, user_lastName u])
      in if names = [] then user_username u else join_with (CHR '' '') names)"

definition generateRegistrationOptions ::
  "env \<Rightarrow> ident \<Rightarrow> string \<Rightarrow> user_row \<Rightarrow> realm_row \<Rightarrow> db \<Rightarrow> webauthn_options result \<times> db" where
  "generateRegistrationOptions e newId challenge u r s =
     (if \<not> realm_webAuthnEnabled r then (Inl ForbiddenException, s)
      else (Inr \<lparr> wo_challenge = challenge, wo_rpId = getRpId r, wo_rpName = Some (getRpName r),
                  wo_userName = Some (user_username u), wo_userDisplayName = Some (display_name u),
                  wo_credentials = Some (map wc_credentialId (filter (\<lambda>c. wc_userId c = user_id u) (webAuthnCredentials s))),
                  wo_userVerification = verification_level r \<rparr>,
            storeWebAuthnChallenge e newId (user_id u) (realm_id r) ''registration'' challenge s))"

definition credential_by_id :: "string \<Rightarrow> db \<Rightarrow> webauthn_credential_row option" where
  "credential_by_id i s = List.find (\<lambda>c. wc_credentialId c = i) (webAuthnCredentials s)"

definition verifyRegistration ::
  "env \<Rightarrow> webauthn_lib \<Rightarrow> ident \<Rightarrow> user_row \<Rightarrow> realm_row \<Rightarrow> registration_response \<Rightarrow> string option \<Rightarrow> db \<Rightarrow>
   webauthn_credential_row result \<times> db" where
  "verifyRegistration e w newId u r response friendlyName s =
     (if \<not> realm_webAuthnEnabled r then (Inl ForbiddenException, s)
      else
        let rpId = getRpId r; (expectedChallenge, s1) = consumeWebAuthnChallenge e (user_id u) (realm_id r) ''registration'' s in
        if falsy expectedChallenge then (Inl BadRequestException, s1)
        else case wl_verifyRegistration w response (the expectedChallenge) (getOrigin e w rpId) rpId
                    (realm_webAuthnUserVerificationRequired r) of
          Some (True, Some info) \<Rightarrow>
            if credential_by_id (ri_credentialId info) s1 \<noteq> None then (Inl BadRequestException, s1)
            else let stored = \<lparr> wc_id = newId, wc_userId = user_id u, wc_realmId = realm_id r,
                       wc_credentialId = ri_credentialId info, wc_publicKey = ri_publicKey info,
                       wc_counter = ri_counter info, wc_transports = nullish_else (ri_transports info) [],
                       wc_deviceType = ri_deviceType info, wc_backedUp = ri_backedUp info,
                       wc_friendlyName = friendlyName, wc_createdAt = now e, wc_lastUsedAt = None \<rparr>
                 in (Inr stored, s1\<lparr> webAuthnCredentials := webAuthnCredentials s1 @ [stored] \<rparr>)
        | _ \<Rightarrow> (Inl BadRequestException, s1))"

subsection \<open>Authentication\<close>

definition passkey_realm_key :: "realm_row \<Rightarrow> string" where
  "passkey_realm_key r = ''realm:'' @ realm_id r"

definition generateAuthenticationOptions ::
  "env \<Rightarrow> ident \<Rightarrow> string \<Rightarrow> realm_row \<Rightarrow> ident option \<Rightarrow> db \<Rightarrow> webauthn_options result \<times> db" where
  "generateAuthenticationOptions e newId challenge r userId s =
     (if \<not> realm_webAuthnEnabled r then (Inl ForbiddenException, s)
      else if \<not> falsy userId \<and> List.find (\<lambda>u. user_id u = the userId \<and> user_realmId u = realm_id r) (users s) = None
      then (Inl NotFoundException, s)
      else
        let credentials = (if falsy userId then []
                           else filter (\<lambda>c. wc_userId c = the userId \<and> wc_realmId c = realm_id r) (webAuthnCredentials s))
        in (Inr \<lparr> wo_challenge = challenge, wo_rpId = getRpId r, wo_rpName = None, wo_userName = None,
                  wo_userDisplayName = None,
                  wo_credentials = (if credentials = [] then None else Some (map wc_credentialId credentials)),
                  wo_userVerification = verification_level r \<rparr>,
            storeWebAuthnChallenge e newId (nullish_else userId (passkey_realm_key r)) (realm_id r) ''authentication'' challenge s))"

definition expected_challenge :: "env \<Rightarrow> realm_row \<Rightarrow> ident \<Rightarrow> db \<Rightarrow> string option \<times> db" where
  "expected_challenge e r userId s =
     (let (challenge, s1) = consumeWebAuthnChallenge e userId (realm_id r) ''authentication'' s
      in if falsy challenge then consumeWebAuthnChallenge e (passkey_realm_key r) (realm_id r) ''authentication'' s1
         else (challenge, s1))"

definition authentication_failed :: "env \<Rightarrow> realm_row \<Rightarrow> ident \<Rightarrow> db \<Rightarrow> 'a result \<times> db" where
  "authentication_failed e r userId s =
     and_then (recordWebAuthnFailure e r userId None s) (\<lambda>_ s1. (Inl BadRequestException, s1))"

definition set_counter_used :: "env \<Rightarrow> ident \<Rightarrow> int \<Rightarrow> db \<Rightarrow> db" where
  "set_counter_used e i newCounter s =
     s\<lparr> webAuthnCredentials := tbl_update (\<lambda>c. wc_id c = i)
          (\<lambda>c. c\<lparr> wc_counter := newCounter, wc_lastUsedAt := Some (now e) \<rparr>) (webAuthnCredentials s) \<rparr>"

text \<open>The user of a credential exists: deleting a user deletes the credentials (a foreign key of the schema).\<close>

definition verifyAuthentication ::
  "env \<Rightarrow> webauthn_lib \<Rightarrow> realm_row \<Rightarrow> authentication_response \<Rightarrow> db \<Rightarrow> (user_row \<times> webauthn_credential_row) result \<times> db" where
  "verifyAuthentication e w r response s =
     (if \<not> realm_webAuthnEnabled r then (Inl ForbiddenException, s)
      else case credential_by_id (ar_id response) s of
        None \<Rightarrow> (Inl NotFoundException, s)
      | Some credential \<Rightarrow>
          if wc_realmId credential \<noteq> realm_id r then (Inl ForbiddenException, s)
          else
            let rpId = getRpId r; (challenge, s1) = expected_challenge e r (wc_userId credential) s in
            if falsy challenge then (Inl BadRequestException, s1)
            else case wl_verifyAuthentication w response (the challenge) (getOrigin e w rpId) rpId credential
                        (realm_webAuthnUserVerificationRequired r) of
              Some (True, newCounter) \<Rightarrow>
                if newCounter \<le> wc_counter credential then (Inl BadRequestException, s1)
                else (case user_by_id (wc_userId credential) s1 of
                        None \<Rightarrow> (Inl PlainError, s1)
                      | Some u \<Rightarrow> (Inr (u, credential), set_counter_used e (wc_id credential) newCounter s1))
            | _ \<Rightarrow> authentication_failed e r (wc_userId credential) s1)"

subsection \<open>Management\<close>

definition getUserCredentials :: "ident \<Rightarrow> db \<Rightarrow> webauthn_credential_row list" where
  "getUserCredentials userId s = order_asc wc_createdAt (filter (\<lambda>c. wc_userId c = userId) (webAuthnCredentials s))"

definition removeCredential :: "ident \<Rightarrow> ident \<Rightarrow> ident \<Rightarrow> db \<Rightarrow> unit result \<times> db" where
  "removeCredential userId realmId credentialId s =
     (if List.find (\<lambda>c. wc_id c = credentialId \<and> wc_userId c = userId \<and> wc_realmId c = realmId) (webAuthnCredentials s) = None
      then (Inl NotFoundException, s)
      else (Inr (), s\<lparr> webAuthnCredentials := tbl_delete (\<lambda>c. wc_id c = credentialId) (webAuthnCredentials s) \<rparr>))"

definition hasCredentials :: "ident \<Rightarrow> ident \<Rightarrow> db \<Rightarrow> bool" where
  "hasCredentials userId realmId s = (tbl_count (\<lambda>c. wc_userId c = userId \<and> wc_realmId c = realmId) (webAuthnCredentials s) > 0)"

subsection \<open>The controller\<close>

definition getSessionUser :: "env \<Rightarrow> realm_row \<Rightarrow> browser_request \<Rightarrow> db \<Rightarrow> user_row option" where
  "getSessionUser e r q s =
     (if falsy (br_cookies q SESSION_COOKIE) then None
      else validateLoginSession e r (the (br_cookies q SESSION_COOKIE)) s)"

definition startRegistration ::
  "env \<Rightarrow> ident \<Rightarrow> string \<Rightarrow> realm_row \<Rightarrow> browser_request \<Rightarrow> db \<Rightarrow> webauthn_options result \<times> db" where
  "startRegistration e newId challenge r q s =
     (case getSessionUser e r q s of
        None \<Rightarrow> (Inl BadRequestException, s)
      | Some u \<Rightarrow> generateRegistrationOptions e newId challenge u r s)"

definition completeRegistration ::
  "env \<Rightarrow> webauthn_lib \<Rightarrow> ident \<Rightarrow> realm_row \<Rightarrow> registration_response \<Rightarrow> browser_request \<Rightarrow> db \<Rightarrow>
   webauthn_credential_row result \<times> db" where
  "completeRegistration e w newId r response q s =
     (case getSessionUser e r q s of
        None \<Rightarrow> (Inl BadRequestException, s)
      | Some u \<Rightarrow> verifyRegistration e w newId u r response (br_body q ''friendlyName'') s)"

definition startAuthentication ::
  "env \<Rightarrow> ident \<Rightarrow> string \<Rightarrow> realm_row \<Rightarrow> string option \<Rightarrow> db \<Rightarrow> webauthn_options result \<times> db" where
  "startAuthentication e newId challenge r username s =
     generateAuthenticationOptions e newId challenge r
       (if falsy username then None else map_option user_id (user_by_username (realm_id r) (the username) s)) s"

definition PASSKEY_PARAMS :: "string list" where
  "PASSKEY_PARAMS =
     [''response_type'', ''client_id'', ''redirect_uri'', ''scope'', ''state'', ''nonce'', ''code_challenge'',
      ''code_challenge_method'']"

definition passkey_context :: auth_context where
  "passkey_context = \<lparr> ctx_acr = Some ACR_WEBAUTHN, ctx_amr = Some [''hwk''] \<rparr>"

definition passkey_answer ::
  "env \<Rightarrow> login_draws \<Rightarrow> login_platform \<Rightarrow> realm_row \<Rightarrow> user_row \<Rightarrow> params \<Rightarrow> params \<Rightarrow> db \<Rightarrow> browser_response result \<times> db" where
  "passkey_answer e d lp r u oauthParams cookies s =
     (case and_then (validateAuthRequest r oauthParams s, s)
             (\<lambda>client s. consent_or_code e d r client u oauthParams passkey_context s) of
        (Inr page, s1) \<Rightarrow> (Inr (page, cookies), s1)
      | (Inl err, s1) \<Rightarrow> (Inr (LoginPage [(''error'', lp_message lp err)], cookies), s1))"

definition completeAuthentication ::
  "env \<Rightarrow> login_draws \<Rightarrow> webauthn_lib \<Rightarrow> login_platform \<Rightarrow> realm_row \<Rightarrow> authentication_response \<Rightarrow> browser_request \<Rightarrow> db \<Rightarrow>
   browser_response result \<times> db" where
  "completeAuthentication e d w lp r response q s =
     and_then (verifyAuthentication e w r response s)
       (\<lambda>(u, _) s1.
          let oauthParams = oauth_params PASSKEY_PARAMS (br_body q);
              (sessionToken, s2) = createLoginSession e d r u (br_ip q) (br_userAgent q) (br_cookies q SESSION_COOKIE)
                                     (ctx_acr passkey_context) (ctx_amr passkey_context) s1;
              cookies = [(SESSION_COOKIE, sessionToken)]
          in if falsy (map_of oauthParams ''client_id'') then (Inr (AccountPage, cookies), s2)
             else passkey_answer e d lp r u oauthParams cookies s2)"

definition listCredentials :: "env \<Rightarrow> realm_row \<Rightarrow> browser_request \<Rightarrow> db \<Rightarrow> browser_page + webauthn_credential_row list" where
  "listCredentials e r q s =
     (case getSessionUser e r q s of
        None \<Rightarrow> Inl (LoginPage [])
      | Some u \<Rightarrow> Inr (getUserCredentials (user_id u) s))"

definition removeOwnCredential :: "env \<Rightarrow> realm_row \<Rightarrow> ident \<Rightarrow> browser_request \<Rightarrow> db \<Rightarrow> unit result \<times> db" where
  "removeOwnCredential e r credentialId q s =
     (case getSessionUser e r q s of
        None \<Rightarrow> (Inl BadRequestException, s)
      | Some u \<Rightarrow> removeCredential (user_id u) (realm_id r) credentialId s)"

subsection \<open>Challenges are consumed\<close>

text \<open>\<open>challenge_of\<close>: the pending action is an unexpired challenge that was stored under the key.\<close>

definition challenge_of :: "env \<Rightarrow> string \<Rightarrow> ident \<Rightarrow> string \<Rightarrow> pending_action_row \<Rightarrow> string \<Rightarrow> bool" where
  "challenge_of e key realmId ty a challenge \<longleftrightarrow>
     pa_tokenHash a = challenge_hash e key realmId ty \<and> pa_type a = challenge_type ty \<and> now e \<le> pa_expiresAt a \<and>
     json_challenge (pa_data a) = Some challenge"

lemma consume_challenge:
  assumes "consumeWebAuthnChallenge e key realmId ty s = (res, s1)"
  shows "\<exists>pas. s1 = s\<lparr> pendingActions := pas \<rparr> \<and> set pas \<subseteq> set (pendingActions s)"
    "res = Some ch \<Longrightarrow> \<exists>a \<in> set (pendingActions s). challenge_of e key realmId ty a ch \<and> a \<notin> set (pendingActions s1)"
  using assms
  by (auto simp: consumeWebAuthnChallenge_def challenge_of_def Let_def dest!: find_SomeD split: option.splits if_splits
      intro: exI [of _ "pendingActions s"])

lemma expected_challenge_consumed:
  assumes "expected_challenge e r uid s = (res, s1)"
  shows "\<exists>pas. s1 = s\<lparr> pendingActions := pas \<rparr> \<and> set pas \<subseteq> set (pendingActions s)"
    "res = Some ch \<Longrightarrow> \<exists>a \<in> set (pendingActions s). \<exists>key \<in> {uid, passkey_realm_key r}.
       challenge_of e key (realm_id r) ''authentication'' a ch \<and> a \<notin> set (pendingActions s1)"
proof -
  obtain res0 s0 where c0: "consumeWebAuthnChallenge e uid (realm_id r) ''authentication'' s = (res0, s0)" by fastforce
  note first = consume_challenge [OF c0]
  have "(\<exists>pas. s1 = s\<lparr> pendingActions := pas \<rparr> \<and> set pas \<subseteq> set (pendingActions s)) \<and>
      (res = Some ch \<longrightarrow> (\<exists>a \<in> set (pendingActions s). \<exists>key \<in> {uid, passkey_realm_key r}.
         challenge_of e key (realm_id r) ''authentication'' a ch \<and> a \<notin> set (pendingActions s1)))"
  proof (cases "falsy res0")
    case True
    with assms c0 have "consumeWebAuthnChallenge e (passkey_realm_key r) (realm_id r) ''authentication'' s0 = (res, s1)"
      by (simp add: expected_challenge_def)
    note second = consume_challenge [OF this]
    obtain pas0 where s0: "s0 = s\<lparr> pendingActions := pas0 \<rparr>" "set pas0 \<subseteq> set (pendingActions s)" using first(1) by blast
    from second(1) s0 show ?thesis using second(2) [of ch] by auto
  next
    case False
    with assms c0 have "res = res0" "s1 = s0" by (simp_all add: expected_challenge_def)
    with first show ?thesis by auto
  qed
  then show "\<exists>pas. s1 = s\<lparr> pendingActions := pas \<rparr> \<and> set pas \<subseteq> set (pendingActions s)"
    "res = Some ch \<Longrightarrow> \<exists>a \<in> set (pendingActions s). \<exists>key \<in> {uid, passkey_realm_key r}.
       challenge_of e key (realm_id r) ''authentication'' a ch \<and> a \<notin> set (pendingActions s1)"
    by blast+
qed

lemma verifyAuthentication_cases:
  assumes "verifyAuthentication e w r resp s = (Inr (u, c), s')"
  obtains a key ch n s1 where "realm_webAuthnEnabled r" "credential_by_id (ar_id resp) s = Some c"
    "wc_realmId c = realm_id r" "user_by_id (wc_userId c) s = Some u"
    "a \<in> set (pendingActions s)" "key \<in> {wc_userId c, passkey_realm_key r}"
    "challenge_of e key (realm_id r) ''authentication'' a ch" "a \<notin> set (pendingActions s1)"
    "wl_verifyAuthentication w resp ch (getOrigin e w (getRpId r)) (getRpId r) c (realm_webAuthnUserVerificationRequired r)
       = Some (True, n)" "wc_counter c < n"
    "\<exists>pas. s1 = s\<lparr> pendingActions := pas \<rparr>" "s' = set_counter_used e (wc_id c) n s1"
proof -
  have en: "realm_webAuthnEnabled r" using assms by (simp add: verifyAuthentication_def split: if_splits)
  obtain c' where c': "credential_by_id (ar_id resp) s = Some c'" "wc_realmId c' = realm_id r"
    using assms en by (auto simp: verifyAuthentication_def split: option.splits if_splits)
  obtain res s1 where ch: "expected_challenge e r (wc_userId c') s = (res, s1)" by fastforce
  obtain k where k: "res = Some k" using assms en c' ch by (cases res) (auto simp: verifyAuthentication_def)
  obtain n where n: "wl_verifyAuthentication w resp k (getOrigin e w (getRpId r)) (getRpId r) c'
      (realm_webAuthnUserVerificationRequired r) = Some (True, n)"
    and rest: "wc_counter c' < n" "user_by_id (wc_userId c') s1 = Some u" "c = c'" "s' = set_counter_used e (wc_id c') n s1"
    using assms en c' ch k
    by (auto simp: verifyAuthentication_def authentication_failed_def Let_def split: option.splits if_splits bool.splits
        elim!: and_then_okE)
  obtain pas where s1: "s1 = s\<lparr> pendingActions := pas \<rparr>" using expected_challenge_consumed(1) [OF ch] by blast
  obtain a key where "a \<in> set (pendingActions s)" "key \<in> {wc_userId c', passkey_realm_key r}"
    "challenge_of e key (realm_id r) ''authentication'' a k" "a \<notin> set (pendingActions s1)"
    using expected_challenge_consumed(2) [OF ch k] by blast
  moreover have "user_by_id (wc_userId c') s = Some u" using rest(2) s1 by (simp add: user_by_id_def)
  ultimately show thesis using that [of a key k s1 n] en c' n rest s1 by blast
qed

subsection \<open>What each operation leaves alone\<close>

lemma set_counter_used_simps [simp]:
  "loginSessions (set_counter_used e i n s) = loginSessions s" "pendingActions (set_counter_used e i n s) = pendingActions s"
  "users (set_counter_used e i n s) = users s"
  by (simp_all add: set_counter_used_def)

lemma createLoginSession_frame:
  "pendingActions (snd (createLoginSession e d r u ip ua old acr amr s)) = pendingActions s"
  "webAuthnCredentials (snd (createLoginSession e d r u ip ua old acr amr s)) = webAuthnCredentials s"
  by (simp_all add: createLoginSession_def evict_login_sessions_def Let_def)

lemma consent_or_code_pending:
  "a \<in> set (pendingActions (snd (consent_or_code e d r c u query ctx s))) \<Longrightarrow>
     a \<in> set (pendingActions s) \<or> pa_type a = ''consent_request''"
  "webAuthnCredentials (snd (consent_or_code e d r c u query ctx s)) = webAuthnCredentials s"
  by (auto simp: consent_or_code_def authorizeWithUser_def storeConsentRequest_def Let_def and_then_def
      split: if_splits sum.splits)

lemma passkey_answer_frame:
  assumes "passkey_answer e d lp r u ps cs s = (res, s')"
  shows "loginSessions s' = loginSessions s" "webAuthnCredentials s' = webAuthnCredentials s"
    "a \<in> set (pendingActions s') \<Longrightarrow> a \<in> set (pendingActions s) \<or> pa_type a = ''consent_request''"
proof -
  have "s' = s \<or> (\<exists>c. s' = snd (consent_or_code e d r c u ps passkey_context s))"
  proof (cases "validateAuthRequest r ps s")
    case (Inr c)
    with assms have "s' = snd (consent_or_code e d r c u ps passkey_context s)"
      by (auto simp: passkey_answer_def split: prod.splits sum.splits)
    then show ?thesis by blast
  qed (use assms in \<open>simp add: passkey_answer_def\<close>)
  then show "loginSessions s' = loginSessions s" "webAuthnCredentials s' = webAuthnCredentials s"
    "a \<in> set (pendingActions s') \<Longrightarrow> a \<in> set (pendingActions s) \<or> pa_type a = ''consent_request''"
    by (auto simp: consent_or_code_sessions consent_or_code_pending(2) dest: consent_or_code_pending(1))
qed

lemma challenge_not_consent: "challenge_of e key rid ''authentication'' a ch \<Longrightarrow> pa_type a \<noteq> ''consent_request''"
  by (simp add: challenge_of_def challenge_type_def)

lemma completeAuthentication_cases:
  assumes "completeAuthentication e d w lp r resp q s = (Inr (page, cookies), s')"
  obtains u c s1 where "verifyAuthentication e w r resp s = (Inr (u, c), s1)"
    "loginSessions s' = loginSessions (snd (createLoginSession e d r u (br_ip q) (br_userAgent q) (br_cookies q SESSION_COOKIE)
        (Some ACR_WEBAUTHN) (Some [''hwk'']) s1))"
    "webAuthnCredentials s' = webAuthnCredentials s1"
    "\<forall>a \<in> set (pendingActions s'). a \<in> set (pendingActions s1) \<or> pa_type a = ''consent_request''"
proof -
  obtain u c s1 where v: "verifyAuthentication e w r resp s = (Inr (u, c), s1)"
    using assms unfolding completeAuthentication_def by (auto elim!: and_then_okE)
  let ?cs = "createLoginSession e d r u (br_ip q) (br_userAgent q) (br_cookies q SESSION_COOKIE) (Some ACR_WEBAUTHN) (Some [''hwk'']) s1"
  show thesis
  proof (cases "falsy (map_of (oauth_params PASSKEY_PARAMS (br_body q)) ''client_id'')")
    case True
    with assms v have "s' = snd ?cs"
      by (simp add: completeAuthentication_def passkey_context_def Let_def case_prod_beta)
    with that [OF v] createLoginSession_frame show thesis by simp
  next
    case False
    with assms v have "passkey_answer e d lp r u (oauth_params PASSKEY_PARAMS (br_body q)) [(SESSION_COOKIE, fst ?cs)] (snd ?cs)
        = (Inr (page, cookies), s')"
      by (simp add: completeAuthentication_def passkey_context_def Let_def case_prod_beta)
    from passkey_answer_frame [OF this] that [OF v] createLoginSession_frame show thesis by metis
  qed
qed

subsection \<open>Sign counters\<close>

definition reached :: "string \<Rightarrow> int \<Rightarrow> db \<Rightarrow> bool" where
  "reached cid n s \<longleftrightarrow> (\<exists>c \<in> set (webAuthnCredentials s). wc_credentialId c = cid \<and> n \<le> wc_counter c)"

text \<open>Identifiers of credentials are unique: the primary key and the unique index of the schema.\<close>

definition credentials_ok :: "db \<Rightarrow> bool" where
  "credentials_ok s \<longleftrightarrow> distinct (map wc_id (webAuthnCredentials s)) \<and> distinct (map wc_credentialId (webAuthnCredentials s))"

text \<open>
  \<open>passkey_claim\<close> submits one fixed answer of an authenticator at any time and to any realm; \<open>passkey_ops\<close> are the other
  operations, except for the removal of a credential.  A registration draws an identifier that is
  not in use.
\<close>

definition passkey_claim :: "webauthn_lib \<Rightarrow> authentication_response \<Rightarrow> env \<times> realm_row \<Rightarrow> db \<Rightarrow> bool \<times> db" where
  "passkey_claim w resp a s =
     (case a of (e, r) \<Rightarrow> let (res, s1) = verifyAuthentication e w r resp s in (is_ok res, s1))"

definition passkey_ops :: "webauthn_lib \<Rightarrow> (db \<Rightarrow> db) set" where
  "passkey_ops w = {f. (\<exists>e i ch u r. f = (\<lambda>s. snd (generateRegistrationOptions e i ch u r s)))
     \<or> (\<exists>e i ch r uid. f = (\<lambda>s. snd (generateAuthenticationOptions e i ch r uid s)))
     \<or> (\<exists>e i u r resp n. f = (\<lambda>s. if i \<in> wc_id ` set (webAuthnCredentials s) then s else snd (verifyRegistration e w i u r resp n s)))
     \<or> (\<exists>e r resp. f = (\<lambda>s. snd (verifyAuthentication e w r resp s)))}"

text \<open>The counter that the package reports is the one in the authenticator's answer.\<close>

definition counter_in_answer :: "webauthn_lib \<Rightarrow> (authentication_response \<Rightarrow> int) \<Rightarrow> bool" where
  "counter_in_answer w ctr \<longleftrightarrow> (\<forall>resp ch origin rpId c uv n.
     wl_verifyAuthentication w resp ch origin rpId c uv = Some (True, n) \<longrightarrow> n = ctr resp)"

lemma recordWebAuthnFailure_credentials:
  "webAuthnCredentials (snd (recordWebAuthnFailure e r uid ip s)) = webAuthnCredentials s"
  by (simp add: recordWebAuthnFailure_def Let_def update_user_def)

lemma verifyAuthentication_rows:
  assumes "verifyAuthentication e w r resp s = (res, s')"
  shows "webAuthnCredentials s' = webAuthnCredentials s \<or>
    (\<exists>u c n. res = Inr (u, c) \<and> credential_by_id (ar_id resp) s = Some c \<and> wc_counter c < n \<and>
       (\<exists>ch origin rpId uv. wl_verifyAuthentication w resp ch origin rpId c uv = Some (True, n)) \<and>
       webAuthnCredentials s' = webAuthnCredentials (set_counter_used e (wc_id c) n s))"
proof (cases res)
  case (Inr uc)
  obtain u c where uc: "uc = (u, c)" by fastforce
  with Inr assms have v: "verifyAuthentication e w r resp s = (Inr (u, c), s')" by simp
  show ?thesis
  proof (rule verifyAuthentication_cases [OF v])
    fix a key ch n s1
    assume "credential_by_id (ar_id resp) s = Some c" "wc_counter c < n" "\<exists>pas. s1 = s\<lparr> pendingActions := pas \<rparr>"
      "wl_verifyAuthentication w resp ch (getOrigin e w (getRpId r)) (getRpId r) c (realm_webAuthnUserVerificationRequired r)
         = Some (True, n)" "s' = set_counter_used e (wc_id c) n s1"
    moreover from this have "webAuthnCredentials s' = webAuthnCredentials (set_counter_used e (wc_id c) n s)"
      by (auto simp: set_counter_used_def)
    ultimately show ?thesis using Inr uc by blast
  qed
next
  case (Inl err)
  show ?thesis
  proof (cases "credential_by_id (ar_id resp) s")
    case (Some c)
    obtain k s1 where ch: "expected_challenge e r (wc_userId c) s = (k, s1)" by fastforce
    then have s1: "webAuthnCredentials s1 = webAuthnCredentials s" using expected_challenge_consumed(1) [OF ch] by auto
    have failed: "webAuthnCredentials sf = webAuthnCredentials s1"
      if "authentication_failed e r (wc_userId c) s1 = (x, sf)" for x :: "(user_row \<times> webauthn_credential_row) result" and sf
      using that recordWebAuthnFailure_credentials [of e r "wc_userId c" None s1]
      by (auto simp: authentication_failed_def and_then_def split: prod.splits sum.splits)
    show ?thesis using assms Inl Some ch s1
      by (auto simp: verifyAuthentication_def Let_def dest: failed split: if_splits option.splits prod.splits bool.splits)
  qed (use assms in \<open>auto simp: verifyAuthentication_def split: if_splits\<close>)
qed

lemma set_counter_ids:
  "map wc_id (webAuthnCredentials (set_counter_used e i n s)) = map wc_id (webAuthnCredentials s)"
  "map wc_credentialId (webAuthnCredentials (set_counter_used e i n s)) = map wc_credentialId (webAuthnCredentials s)"
  by (simp_all add: set_counter_used_def tbl_update_def)

lemma set_counter_reached:
  assumes "credentials_ok s" "credential_by_id cid0 s = Some c" "wc_counter c < n"
  shows "reached cid m (set_counter_used e (wc_id c) n s) \<longleftrightarrow> reached cid m s \<or> (cid = cid0 \<and> m \<le> n)"
proof -
  have c: "c \<in> set (webAuthnCredentials s)" "wc_credentialId c = cid0"
    using assms(2) by (auto simp: credential_by_id_def dest: find_SomeD)
  have uniq: "c' = c" if "c' \<in> set (webAuthnCredentials s)" "wc_id c' = wc_id c" for c'
    using assms(1) that c(1) by (simp add: credentials_ok_def distinct_map inj_on_def)
  have rows: "set (webAuthnCredentials (set_counter_used e (wc_id c) n s)) =
      insert (c\<lparr> wc_counter := n, wc_lastUsedAt := Some (now e) \<rparr>) (set (webAuthnCredentials s) - {c})"
    (is "?L = insert ?c' _")
  proof -
    have "?L = (\<lambda>c'. if wc_id c' = wc_id c then ?c' else c') ` set (webAuthnCredentials s)"
      unfolding set_counter_used_def tbl_update_def by (auto dest: uniq intro!: image_cong)
    also have "\<dots> = insert ?c' (set (webAuthnCredentials s) - {c})" using c(1) uniq by (force simp: image_iff)
    finally show ?thesis .
  qed
  have "reached cid m s \<longleftrightarrow> (\<exists>c' \<in> set (webAuthnCredentials s) - {c}. wc_credentialId c' = cid \<and> m \<le> wc_counter c')
      \<or> (cid = cid0 \<and> m \<le> wc_counter c)"
    using c unfolding reached_def by blast
  moreover have "reached cid m (set_counter_used e (wc_id c) n s) \<longleftrightarrow>
      (\<exists>c' \<in> set (webAuthnCredentials s) - {c}. wc_credentialId c' = cid \<and> m \<le> wc_counter c') \<or> (cid = cid0 \<and> m \<le> n)"
    unfolding reached_def rows using c(2) by simp blast
  ultimately show ?thesis using assms(3) by linarith
qed

subsection \<open>An answer is accepted once\<close>

text \<open>The package, cut down to the answers that carry the counter \<open>ctr\<close> reads from them.\<close>

definition with_counter :: "(authentication_response \<Rightarrow> int) \<Rightarrow> webauthn_lib \<Rightarrow> webauthn_lib" where
  "with_counter ctr w = w\<lparr> wl_verifyAuthentication := (\<lambda>resp ch origin rpId c uv.
     case wl_verifyAuthentication w resp ch origin rpId c uv of
       Some (True, n) \<Rightarrow> if n = ctr resp then Some (True, n) else None
     | other \<Rightarrow> other) \<rparr>"

lemma with_counter_id: "counter_in_answer w ctr \<Longrightarrow> with_counter ctr w = w"
proof -
  assume "counter_in_answer w ctr"
  then have ctr: "n = ctr resp" if "wl_verifyAuthentication w resp ch origin rpId c uv = Some (True, n)" for resp ch origin rpId c uv n
    using that unfolding counter_in_answer_def by blast
  have "wl_verifyAuthentication (with_counter ctr w) = wl_verifyAuthentication w"
    by (intro ext) (simp add: with_counter_def split: option.split prod.split bool.split, use ctr in blast)
  then show ?thesis by (simp add: with_counter_def)
qed

lemma counter_in_with_counter: "counter_in_answer (with_counter ctr w) ctr"
  by (auto simp: counter_in_answer_def with_counter_def split: option.splits bool.splits if_splits)

lemma storeWebAuthnChallenge_credentials: "webAuthnCredentials (storeWebAuthnChallenge e i key rid ty ch s) = webAuthnCredentials s"
  by (simp add: storeWebAuthnChallenge_def Let_def)

lemma verifyRegistration_rows:
  "webAuthnCredentials (snd (verifyRegistration e w i u r resp n s)) = webAuthnCredentials s \<or>
   (\<exists>c. webAuthnCredentials (snd (verifyRegistration e w i u r resp n s)) = webAuthnCredentials s @ [c] \<and> wc_id c = i \<and>
      wc_credentialId c \<notin> wc_credentialId ` set (webAuthnCredentials s))"
proof -
  obtain k s1 where c: "consumeWebAuthnChallenge e (user_id u) (realm_id r) ''registration'' s = (k, s1)" by fastforce
  have rows: "webAuthnCredentials s1 = webAuthnCredentials s" using consume_challenge(1) [OF c] by auto
  have fresh: "credential_by_id cid s1 = None \<Longrightarrow> cid \<notin> wc_credentialId ` set (webAuthnCredentials s)" for cid
    by (auto simp: credential_by_id_def find_None_iff rows)
  show ?thesis
    using rows fresh
    by (auto simp: verifyRegistration_def c Let_def split: option.splits prod.splits bool.splits if_splits)
qed

lemma passkey_step:
  assumes "f \<in> passkey_ops w \<or> f = (\<lambda>s. snd (verifyAuthentication e w r resp s))" and ok: "credentials_ok s"
  shows "credentials_ok (f s)" "reached cid n s \<Longrightarrow> reached cid n (f s)"
proof -
  have auth: "credentials_ok (snd (verifyAuthentication e w r resp s)) \<and>
      (reached cid n s \<longrightarrow> reached cid n (snd (verifyAuthentication e w r resp s)))" for e r resp
  proof -
    obtain res s' where v: "verifyAuthentication e w r resp s = (res, s')" by fastforce
    from verifyAuthentication_rows [OF v] show ?thesis
    proof (elim disjE exE conjE)
      assume "webAuthnCredentials s' = webAuthnCredentials s"
      with ok v show ?thesis by (simp add: credentials_ok_def reached_def)
    next
      fix c m assume c: "credential_by_id (ar_id resp) s = Some c" "wc_counter c < m"
        "webAuthnCredentials s' = webAuthnCredentials (set_counter_used e (wc_id c) m s)"
      have "reached cid n s' = reached cid n (set_counter_used e (wc_id c) m s)" by (simp add: reached_def c(3))
      with set_counter_reached [OF ok c(1,2)] ok v c(3) show ?thesis
        by (simp add: credentials_ok_def set_counter_ids)
    qed
  qed
  have reg: "credentials_ok (snd (verifyRegistration e w i u r resp m s)) \<and>
      (reached cid n s \<longrightarrow> reached cid n (snd (verifyRegistration e w i u r resp m s)))"
    if "i \<notin> wc_id ` set (webAuthnCredentials s)" for e i u r resp m
    using verifyRegistration_rows [of e w i u r resp m s] ok that by (auto simp: credentials_ok_def reached_def)
  have same: "credentials_ok s' \<and> (reached cid n s \<longrightarrow> reached cid n s')" if "webAuthnCredentials s' = webAuthnCredentials s" for s'
    using ok that by (simp add: credentials_ok_def reached_def)
  have "credentials_ok (f s) \<and> (reached cid n s \<longrightarrow> reached cid n (f s))"
    using assms(1) unfolding passkey_ops_def mem_Collect_eq
  proof (elim disjE exE)
    fix e i u r resp m
    assume "f = (\<lambda>s. if i \<in> wc_id ` set (webAuthnCredentials s) then s else snd (verifyRegistration e w i u r resp m s))"
    then show ?thesis using reg [of i e u r resp m] same [of s] by simp
  qed (use auth in simp_all, simp_all add: same generateRegistrationOptions_def generateAuthenticationOptions_def Let_def
        storeWebAuthnChallenge_credentials)
  then show "credentials_ok (f s)" "reached cid n s \<Longrightarrow> reached cid n (f s)" by blast+
qed

lemma passkey_claim_state: "snd (passkey_claim w resp a s) = snd (verifyAuthentication (fst a) w (snd a) resp s)"
  by (simp add: passkey_claim_def case_prod_beta)

lemma passkey_accepted:
  assumes ok: "credentials_ok s" and ctr: "counter_in_answer w ctr" and acc: "fst (passkey_claim w resp a s)"
  shows "\<not> reached (ar_id resp) (ctr resp) s" "reached (ar_id resp) (ctr resp) (snd (passkey_claim w resp a s))"
proof -
  obtain u c s' where v: "verifyAuthentication (fst a) w (snd a) resp s = (Inr (u, c), s')"
    using acc by (cases "fst (verifyAuthentication (fst a) w (snd a) resp s)")
      (auto simp: passkey_claim_def case_prod_beta prod_eq_iff)
  obtain a' key ch n s1 where x: "credential_by_id (ar_id resp) s = Some c" "wc_counter c < n"
    "wl_verifyAuthentication w resp ch (getOrigin (fst a) w (getRpId (snd a))) (getRpId (snd a)) c
       (realm_webAuthnUserVerificationRequired (snd a)) = Some (True, n)"
    "\<exists>pas. s1 = s\<lparr> pendingActions := pas \<rparr>" "s' = set_counter_used (fst a) (wc_id c) n s1"
    by (rule verifyAuthentication_cases [OF v])
  have n: "n = ctr resp" using ctr x(3) unfolding counter_in_answer_def by blast
  have c: "c \<in> set (webAuthnCredentials s)" "wc_credentialId c = ar_id resp"
    using x(1) by (auto simp: credential_by_id_def dest: find_SomeD)
  have "c' = c" if "c' \<in> set (webAuthnCredentials s)" "wc_credentialId c' = ar_id resp" for c'
    using ok that c by (simp add: credentials_ok_def distinct_map inj_on_def)
  with x(2) n show "\<not> reached (ar_id resp) (ctr resp) s" by (auto simp: reached_def)
  have "webAuthnCredentials s' = webAuthnCredentials (set_counter_used (fst a) (wc_id c) n s)"
    using x(4,5) by (auto simp: set_counter_used_def)
  then have "reached (ar_id resp) (ctr resp) s' = reached (ar_id resp) (ctr resp) (set_counter_used (fst a) (wc_id c) n s)"
    by (simp add: reached_def)
  with set_counter_reached [OF ok x(1,2)] n v show "reached (ar_id resp) (ctr resp) (snd (passkey_claim w resp a s))"
    by (simp add: passkey_claim_state)
qed

interpretation passkey_use: guarded_use "passkey_claim (with_counter ctr w) resp"
    "\<lambda>s. \<not> reached (ar_id resp) (ctr resp) s" "passkey_ops (with_counter ctr w)" credentials_ok
  for ctr w resp
proof unfold_locales
  fix s a assume ok: "credentials_ok s"
  note step = passkey_step [OF disjI2 [OF refl] ok]
  show "credentials_ok (snd (passkey_claim (with_counter ctr w) resp a s))" by (simp add: passkey_claim_state step)
  show "fst (passkey_claim (with_counter ctr w) resp a s) \<Longrightarrow> \<not> reached (ar_id resp) (ctr resp) s"
    "fst (passkey_claim (with_counter ctr w) resp a s) \<Longrightarrow>
      \<not> \<not> reached (ar_id resp) (ctr resp) (snd (passkey_claim (with_counter ctr w) resp a s))"
    using passkey_accepted [OF ok counter_in_with_counter] by blast+
  show "\<not> \<not> reached (ar_id resp) (ctr resp) s \<Longrightarrow>
      \<not> \<not> reached (ar_id resp) (ctr resp) (snd (passkey_claim (with_counter ctr w) resp a s))"
    by (simp add: passkey_claim_state step)
next
  fix f s assume f: "f \<in> passkey_ops (with_counter ctr w)" "credentials_ok s"
  note step = passkey_step [OF disjI1 [OF f(1)] f(2)]
  show "credentials_ok (f s)" by (rule step)
  show "\<not> \<not> reached (ar_id resp) (ctr resp) s \<Longrightarrow> \<not> \<not> reached (ar_id resp) (ctr resp) (f s)" by (simp add: step)
qed

text \<open>
  An answer of an authenticator is accepted at most once, in any order of attempts (at any time, to any realm),
  registrations, other sign-ins and new challenges, as long as the credential is not removed and
  registered again: the stored counter has reached the one in the answer.
\<close>

theorem passkey_answer_single_use:
  assumes "counter_in_answer w ctr" "credentials_ok s" "others_in (passkey_ops w) es"
  shows "grants (passkey_claim w resp) es s \<le> 1"
  using passkey_use.granted_once [of ctr w es s resp] assms by (simp add: with_counter_id)

subsection \<open>A session started with a passkey\<close>

lemma verifyAuthentication_sessions: "loginSessions (snd (verifyAuthentication e w r resp s)) = loginSessions s"
proof (cases "credential_by_id (ar_id resp) s")
  case (Some c)
  obtain k s1 where ch: "expected_challenge e r (wc_userId c) s = (k, s1)" by fastforce
  then have s1: "loginSessions s1 = loginSessions s" using expected_challenge_consumed(1) [OF ch] by auto
  have "loginSessions (snd (authentication_failed e r (wc_userId c) s1 :: (user_row \<times> webauthn_credential_row) result \<times> db))
      = loginSessions s1"
    by (simp add: authentication_failed_def and_then_def recordWebAuthnFailure_def update_user_def Let_def
        split: prod.split sum.split)
  with Some ch s1 show ?thesis
    by (simp add: verifyAuthentication_def Let_def split: option.split prod.split bool.split)
qed (simp add: verifyAuthentication_def)

text \<open>
  C12.  A browser session is started by the passkey endpoint only when the realm allows passkeys, the credential belongs
  to the realm and its owner exists, an unexpired challenge was stored for the owner or for the realm, the package accepted
  the answer for that challenge, the realm's origin and relying party, and the counter grew; the challenge is gone
  afterwards, the counter is stored, and the session is the owner's, at the level of a hardware key.
\<close>

theorem passkey_sign_in_sound:
  assumes "session_started s (snd (completeAuthentication e d w lp r resp q s)) l"
  shows "\<exists>u c a key ch n. realm_webAuthnEnabled r \<and> credential_by_id (ar_id resp) s = Some c \<and> wc_realmId c = realm_id r
     \<and> user_by_id (wc_userId c) s = Some u
     \<and> a \<in> set (pendingActions s) \<and> key \<in> {wc_userId c, passkey_realm_key r} \<and> challenge_of e key (realm_id r) ''authentication'' a ch
     \<and> a \<notin> set (pendingActions (snd (completeAuthentication e d w lp r resp q s)))
     \<and> wl_verifyAuthentication w resp ch (getOrigin e w (getRpId r)) (getRpId r) c (realm_webAuthnUserVerificationRequired r)
         = Some (True, n) \<and> wc_counter c < n
     \<and> webAuthnCredentials (snd (completeAuthentication e d w lp r resp q s))
         = webAuthnCredentials (set_counter_used e (wc_id c) n s)
     \<and> session_of e r (user_id u) ACR_WEBAUTHN [''hwk''] l"
proof -
  obtain res s' where run: "completeAuthentication e d w lp r resp q s = (res, s')" by fastforce
  have "\<exists>page cookies. res = Inr (page, cookies)"
  proof (cases "fst (verifyAuthentication e w r resp s)")
    case (Inl err)
    then have "s' = snd (verifyAuthentication e w r resp s)"
      using run by (cases "verifyAuthentication e w r resp s") (simp add: completeAuthentication_def)
    with assms run show ?thesis by (simp add: session_started_def verifyAuthentication_sessions)
  next
    case (Inr uc)
    with run show ?thesis
      by (cases "verifyAuthentication e w r resp s")
        (auto simp: completeAuthentication_def passkey_answer_def case_prod_beta Let_def split: if_splits sum.splits prod.splits)
  qed
  then obtain page cookies where ok: "completeAuthentication e d w lp r resp q s = (Inr (page, cookies), s')" using run by blast
  obtain u c s1 where v: "verifyAuthentication e w r resp s = (Inr (u, c), s1)"
    and ses: "loginSessions s' = loginSessions (snd (createLoginSession e d r u (br_ip q) (br_userAgent q)
        (br_cookies q SESSION_COOKIE) (Some ACR_WEBAUTHN) (Some [''hwk'']) s1))"
    and cred: "webAuthnCredentials s' = webAuthnCredentials s1"
    and pend: "\<forall>a \<in> set (pendingActions s'). a \<in> set (pendingActions s1) \<or> pa_type a = ''consent_request''"
    by (rule completeAuthentication_cases [OF ok])
  have "loginSessions s1 = loginSessions s" using verifyAuthentication_sessions [of e w r resp s] v by simp
  with assms run ses have "session_started s1 (snd (createLoginSession e d r u (br_ip q) (br_userAgent q)
        (br_cookies q SESSION_COOKIE) (Some ACR_WEBAUTHN) (Some [''hwk'']) s1)) l"
    by (simp add: session_started_def)
  from createLoginSession_started [OF this] have l: "session_of e r (user_id u) ACR_WEBAUTHN [''hwk''] l"
    by (simp add: session_of_def nullish_else_def)
  show ?thesis
  proof (rule verifyAuthentication_cases [OF v])
    fix a key ch n s2
    assume a: "realm_webAuthnEnabled r" "credential_by_id (ar_id resp) s = Some c"
      "wc_realmId c = realm_id r" "user_by_id (wc_userId c) s = Some u"
      "a \<in> set (pendingActions s)" "key \<in> {wc_userId c, passkey_realm_key r}"
      "challenge_of e key (realm_id r) ''authentication'' a ch" "a \<notin> set (pendingActions s2)"
      "wl_verifyAuthentication w resp ch (getOrigin e w (getRpId r)) (getRpId r) c (realm_webAuthnUserVerificationRequired r)
         = Some (True, n)" "wc_counter c < n"
      "\<exists>pas. s2 = s\<lparr> pendingActions := pas \<rparr>" "s1 = set_counter_used e (wc_id c) n s2"
    have "a \<notin> set (pendingActions s')" using pend challenge_not_consent [OF a(7)] a(8,12) by auto
    moreover have "webAuthnCredentials s' = webAuthnCredentials (set_counter_used e (wc_id c) n s)"
      using cred a(11,12) by (auto simp: set_counter_used_def)
    ultimately show ?thesis using a(1-7,9,10) l run
      by (intro exI [of _ u] exI [of _ c] exI [of _ a] exI [of _ key] exI [of _ ch] exI [of _ n]) simp
  qed
qed

subsection \<open>Examples\<close>

definition passkey_realm :: realm_row where
  "passkey_realm = sample_realm\<lparr> realm_webAuthnEnabled := True \<rparr>"

definition sample_passkey :: webauthn_credential_row where
  "sample_passkey = \<lparr> wc_id = ''p1'', wc_userId = ''u1'', wc_realmId = ''r1'', wc_credentialId = ''key'', wc_publicKey = ''pk'',
     wc_counter = 3, wc_transports = [], wc_deviceType = ''singleDevice'', wc_backedUp = False, wc_friendlyName = None,
     wc_createdAt = 0, wc_lastUsedAt = None \<rparr>"

definition sample_webauthn :: webauthn_lib where
  "sample_webauthn = \<lparr> wl_verifyRegistration = (\<lambda>_ _ _ _ _. None),
     wl_verifyAuthentication = (\<lambda>resp ch origin rpId c uv. if ar_body resp = ch then Some (True, 4) else Some (False, 0)),
     wl_url = (\<lambda>_. Some (''https:'', [])) \<rparr>"

definition passkey_db :: db where
  "passkey_db = snd (startAuthentication sample_env ''a1'' ''chal'' passkey_realm None
     (sso_db\<lparr> webAuthnCredentials := [sample_passkey] \<rparr>))"

definition passkey_request :: browser_request where
  "passkey_request = \<lparr> br_body = Map.empty, br_cookies = Map.empty, br_ip = None, br_userAgent = None \<rparr>"

definition sample_answer :: authentication_response where
  "sample_answer = \<lparr> ar_id = ''key'', ar_body = ''chal'' \<rparr>"

theorem passkey_answer_single_use_witness:
  "counter_in_answer sample_webauthn (\<lambda>_. 4) \<and> credentials_ok passkey_db \<and>
   fst (passkey_claim sample_webauthn sample_answer (sample_env, passkey_realm) passkey_db) \<and>
   grants (passkey_claim sample_webauthn sample_answer)
     [Attempt (sample_env, passkey_realm), Other (\<lambda>s. snd (generateAuthenticationOptions sample_env ''a2'' ''chal'' passkey_realm None s)),
      Attempt (sample_env, passkey_realm)] passkey_db \<le> 1"
proof (intro conjI)
  show ctr: "counter_in_answer sample_webauthn (\<lambda>_. 4)" by (auto simp: counter_in_answer_def sample_webauthn_def split: if_splits)
  show ok: "credentials_ok passkey_db" by code_simp
  show "fst (passkey_claim sample_webauthn sample_answer (sample_env, passkey_realm) passkey_db)" by code_simp
  show "grants (passkey_claim sample_webauthn sample_answer)
     [Attempt (sample_env, passkey_realm), Other (\<lambda>s. snd (generateAuthenticationOptions sample_env ''a2'' ''chal'' passkey_realm None s)),
      Attempt (sample_env, passkey_realm)] passkey_db \<le> 1"
  proof (rule passkey_answer_single_use [OF ctr ok])
    have "(\<lambda>s. snd (generateAuthenticationOptions sample_env ''a2'' ''chal'' passkey_realm None s)) \<in> passkey_ops sample_webauthn"
      unfolding passkey_ops_def by blast
    then show "others_in (passkey_ops sample_webauthn) [Attempt (sample_env, passkey_realm),
        Other (\<lambda>s. snd (generateAuthenticationOptions sample_env ''a2'' ''chal'' passkey_realm None s)), Attempt (sample_env, passkey_realm)]"
      by (simp add: others_in_def)
  qed
qed

theorem passkey_sign_in_sound_witness:
  "\<exists>l. session_started passkey_db (snd (completeAuthentication sample_env sample_login_draws sample_webauthn sample_login_platform
       passkey_realm sample_answer passkey_request passkey_db)) l \<and>
     ls_userId l = ''u1'' \<and> ls_satisfiedAcr l = Some ACR_WEBAUTHN"
proof -
  let ?s' = "snd (completeAuthentication sample_env sample_login_draws sample_webauthn sample_login_platform
       passkey_realm sample_answer passkey_request passkey_db)"
  let ?l = "last (loginSessions ?s')"
  have "?l \<in> set (loginSessions ?s')" "?l \<notin> set (loginSessions passkey_db)" by code_simp+
  then have st: "session_started passkey_db ?s' ?l" by (simp add: session_started_def)
  have c: "credential_by_id (ar_id sample_answer) passkey_db = Some sample_passkey"
    "map_option user_id (user_by_id ''u1'' passkey_db) = Some ''u1''" by code_simp+
  from passkey_sign_in_sound [OF st] obtain u where
    "user_by_id (wc_userId sample_passkey) passkey_db = Some u" "session_of sample_env passkey_realm (user_id u) ACR_WEBAUTHN [''hwk''] ?l"
    unfolding c(1) by blast
  with c(2) st show ?thesis by (auto simp: session_of_def sample_passkey_def)
qed

text \<open>
  Neither the lock nor the enabled flag of the account is looked at: a disabled, locked user signs in with a passkey and
  gets an authorization code.  An authenticator that does not count (counter 0, as synchronised passkeys report)
  is registered but never accepted.
\<close>

definition locked_passkey_db :: db where
  "locked_passkey_db = passkey_db\<lparr> users := map (\<lambda>u. u\<lparr> user_enabled := False, user_lockedUntil := Some 100000000 \<rparr>) (users passkey_db) \<rparr>"

lemma passkey_ignores_lock:
  "map ls_userId (loginSessions (snd (completeAuthentication sample_env sample_login_draws sample_webauthn sample_login_platform
       passkey_realm sample_answer passkey_request (locked_passkey_db\<lparr> loginSessions := [] \<rparr>)))) = [''u1'']
   \<and> map user_enabled (users locked_passkey_db) = [False]"
  by code_simp

lemma uncounted_passkey_refused:
  assumes "wl_verifyAuthentication w resp = (\<lambda>ch origin rpId c uv. Some (True, 0))"
    and "\<forall>c \<in> set (webAuthnCredentials s). 0 \<le> wc_counter c"
  shows "\<not> is_ok (fst (verifyAuthentication e w r resp s))"
proof
  assume "is_ok (fst (verifyAuthentication e w r resp s))"
  then obtain u c s' where v: "verifyAuthentication e w r resp s = (Inr (u, c), s')"
    by (cases "verifyAuthentication e w r resp s"; cases "fst (verifyAuthentication e w r resp s)") auto
  show False
    by (rule verifyAuthentication_cases [OF v]) (use assms in \<open>auto simp: credential_by_id_def dest!: find_SomeD\<close>)
qed

end
