(* ===== verification/Users.thy ===== *)
theory Users
  imports Tokens Login_Soundness
begin

text \<open>
  \<open>src/src/users/users.service.ts\<close>: the administration of accounts, with the part of \<open>src/src/email/email.service.ts\<close>
  that decides whether a realm can send mail.  The account tables are the ones that every way of signing in reads, so
  the results are about them: names and addresses stay unique in a realm, a password that is set is the one that signs in, and
  nothing of a deleted account is left to sign in with.

  What the mail layer obtains from outside is the record \<open>mail_platform\<close>: the mail settings of a realm by its name (provider
  and SMTP host), the subject that the theme gives a template, and what handing a mail to the provider does: it throws, or the mail
  is accepted, or it is skipped because the provider is not configured.  The hash of a new password and the identifiers of new rows are
  arguments.
\<close>

subsection \<open>Mail\<close>

record mail_platform =
  mp_settings :: "string \<Rightarrow> (string option \<times> string option) option"
  mp_subject :: "realm_row \<Rightarrow> string \<Rightarrow> string"
  mp_send :: "string \<Rightarrow> string \<Rightarrow> string \<Rightarrow> bool result"

definition isConfigured :: "mail_platform \<Rightarrow> string \<Rightarrow> bool" where
  "isConfigured m realmName =
     (case mp_settings m realmName of
        None \<Rightarrow> False
      | Some (emailProvider, smtpHost) \<Rightarrow>
          let provider = nullish_else emailProvider ''smtp''
          in if provider = ''none'' then False else if provider = ''smtp'' then \<not> falsy smtpHost else True)"

definition sendEmail :: "mail_platform \<Rightarrow> string \<Rightarrow> string \<Rightarrow> string \<Rightarrow> db \<Rightarrow> unit result \<times> db" where
  "sendEmail m realmName recipient subject s =
     (case mp_send m realmName recipient subject of
        Inl err \<Rightarrow> (Inl err, s)
      | Inr sent \<Rightarrow> (Inr (), if sent then s\<lparr> outbox := outbox s @ [(recipient, subject)] \<rparr> else s))"

record token_draw =
  td_id :: ident
  td_rawToken :: string

definition sendVerificationEmail ::
  "env \<Rightarrow> mail_platform \<Rightarrow> token_draw \<Rightarrow> realm_row \<Rightarrow> ident \<Rightarrow> string \<Rightarrow> db \<Rightarrow> unit result \<times> db" where
  "sendVerificationEmail e m t r userId email s =
     (if \<not> isConfigured m (realm_name r) then (Inr (), s)
      else let (rawToken, s1) = createToken e (td_id t) (td_rawToken t) userId ''email_verification'' 86400 s
           in sendEmail m (realm_name r) email (mp_subject m r ''verifyEmailSubject'') s1)"

subsection \<open>Accounts\<close>

definition user_by_email :: "ident \<Rightarrow> string \<Rightarrow> db \<Rightarrow> user_row option" where
  "user_by_email rid email s = List.find (\<lambda>u. user_realmId u = rid \<and> user_email u = Some email) (users s)"

definition email_taken :: "ident \<Rightarrow> string option \<Rightarrow> db \<Rightarrow> bool" where
  "email_taken rid email s \<longleftrightarrow> email \<noteq> None \<and> user_by_email rid (the email) s \<noteq> None"

definition hashPassword :: "string \<Rightarrow> string \<Rightarrow> string result" where
  "hashPassword newHash password = (if length password > MAX_PASSWORD_LENGTH then Inl UnprocessableEntityException else Inr newHash)"

record create_user_dto =
  cu_username :: string
  cu_email :: "string option"
  cu_firstName :: "string option"
  cu_lastName :: "string option"
  cu_enabled :: "bool option"
  cu_password :: "string option"

record user_draws =
  ud_userId :: ident
  ud_passwordHash :: string
  ud_historyId :: ident
  ud_token :: token_draw

definition password_to_store :: "realm_row \<Rightarrow> string \<Rightarrow> string option \<Rightarrow> string option result" where
  "password_to_store r newHash password =
     (if falsy password then Inr None
      else if \<not> valid (validate r (the password)) then Inl BadRequestException
      else map_sum id Some (hashPassword newHash (the password)))"

definition new_account :: "env \<Rightarrow> ident \<Rightarrow> realm_row \<Rightarrow> create_user_dto \<Rightarrow> string option \<Rightarrow> user_row" where
  "new_account e newId r dto passwordHash =
     (new_user newId (realm_id r) (cu_username dto))
       \<lparr> user_email := cu_email dto, user_firstName := cu_firstName dto, user_lastName := cu_lastName dto,
         user_enabled := nullish_else (cu_enabled dto) True, user_passwordHash := passwordHash,
         user_passwordChangedAt := (if falsy passwordHash then None else Some (now e)), user_createdAt := now e \<rparr>"

definition add_user :: "user_row \<Rightarrow> db \<Rightarrow> db" where
  "add_user u s = s\<lparr> users := users s @ [u] \<rparr>"

definition create :: "env \<Rightarrow> user_draws \<Rightarrow> mail_platform \<Rightarrow> realm_row \<Rightarrow> create_user_dto \<Rightarrow> db \<Rightarrow> user_row result \<times> db" where
  "create e d m r dto s =
     (if user_by_username (realm_id r) (cu_username dto) s \<noteq> None then (Inl ConflictException, s)
      else if email_taken (realm_id r) (cu_email dto) s then (Inl ConflictException, s)
      else case password_to_store r (ud_passwordHash d) (cu_password dto) of
        Inl err \<Rightarrow> (Inl err, s)
      | Inr passwordHash \<Rightarrow>
          let u = new_account e (ud_userId d) r dto passwordHash;
              s1 = add_user u s;
              s2 = (if \<not> falsy passwordHash \<and> realm_passwordHistoryCount r > 0
                    then recordHistory e (ud_historyId d) (user_id u) (realm_id r) (the passwordHash)
                           (realm_passwordHistoryCount r) s1
                    else s1);
              s3 = (if falsy (user_email u) then s2
                    else snd (sendVerificationEmail e m (ud_token d) r (user_id u) (the (user_email u)) s2))
          in (Inr u, s3))"

fun contains_ci :: "string \<Rightarrow> string option \<Rightarrow> bool" where
  "contains_ci p None = False"
| "contains_ci p (Some x) = is_infix (to_lower p) (to_lower x)"

record user_filters =
  uf_search :: "string option"
  uf_username :: "string option"
  uf_email :: "string option"
  uf_firstName :: "string option"
  uf_lastName :: "string option"

definition field_matches :: "string option \<Rightarrow> string option \<Rightarrow> bool" where
  "field_matches p x \<longleftrightarrow> falsy p \<or> contains_ci (the p) x"

definition user_matches :: "realm_row \<Rightarrow> user_filters \<Rightarrow> user_row \<Rightarrow> bool" where
  "user_matches r f u \<longleftrightarrow> user_realmId u = realm_id r
     \<and> field_matches (uf_username f) (Some (user_username u)) \<and> field_matches (uf_email f) (user_email u)
     \<and> field_matches (uf_firstName f) (user_firstName u) \<and> field_matches (uf_lastName f) (user_lastName u)
     \<and> (falsy (uf_search f) \<or> contains_ci (the (uf_search f)) (Some (user_username u)) \<or> contains_ci (the (uf_search f)) (user_email u)
        \<or> contains_ci (the (uf_search f)) (user_firstName u) \<or> contains_ci (the (uf_search f)) (user_lastName u))"

definition findAll :: "realm_row \<Rightarrow> nat \<Rightarrow> nat \<Rightarrow> user_filters \<Rightarrow> db \<Rightarrow> user_row list \<times> int" where
  "findAll r skip take_n f s =
     (take take_n (drop skip (order_asc user_createdAt (filter (user_matches r f) (users s)))),
      tbl_count (user_matches r f) (users s))"

definition findById :: "realm_row \<Rightarrow> ident \<Rightarrow> db \<Rightarrow> user_row result" where
  "findById r userId s =
     (case List.find (\<lambda>u. user_id u = userId \<and> user_realmId u = realm_id r) (users s) of
        None \<Rightarrow> Inl NotFoundException
      | Some u \<Rightarrow> Inr u)"

record update_user_dto =
  uu_email :: "string option"
  uu_firstName :: "string option"
  uu_lastName :: "string option"
  uu_enabled :: "bool option"
  uu_emailVerified :: "bool option"

definition given :: "'a option \<Rightarrow> 'a option \<Rightarrow> 'a option" where
  "given new old = (if new = None then old else new)"

definition edited_user :: "update_user_dto \<Rightarrow> user_row \<Rightarrow> user_row" where
  "edited_user dto u =
     u\<lparr> user_email := given (uu_email dto) (user_email u), user_firstName := given (uu_firstName dto) (user_firstName u),
        user_lastName := given (uu_lastName dto) (user_lastName u), user_enabled := nullish_else (uu_enabled dto) (user_enabled u),
        user_emailVerified := nullish_else (uu_emailVerified dto) (user_emailVerified u) \<rparr>"

text \<open>An empty address is not looked up; the unique index on realm and address refuses it when it is taken.\<close>

definition update :: "realm_row \<Rightarrow> ident \<Rightarrow> update_user_dto \<Rightarrow> db \<Rightarrow> user_row result \<times> db" where
  "update r userId dto s =
     (case findById r userId s of
        Inl err \<Rightarrow> (Inl err, s)
      | Inr u \<Rightarrow>
          if uu_email dto \<noteq> None \<and> uu_email dto \<noteq> user_email u \<and> email_taken (realm_id r) (uu_email dto) s
          then (Inl (if falsy (uu_email dto) then PrismaUnique else ConflictException), s)
          else (Inr (edited_user dto u), update_user userId (edited_user dto) s))"

text \<open>
  Every table whose rows belong to a user is declared with \<open>onDelete: Cascade\<close>; the refresh tokens go with their
  sessions.
\<close>

definition delete_user :: "ident \<Rightarrow> db \<Rightarrow> db" where
  "delete_user uid s =
     (let sids = map sess_id (filter (\<lambda>x. sess_userId x = uid) (sessions s)) in
      (delete_sessions sids s)
        \<lparr> users := tbl_delete (\<lambda>u. user_id u = uid) (users s),
          userRoles := tbl_delete (\<lambda>x. fst x = uid) (userRoles s),
          userGroups := tbl_delete (\<lambda>x. fst x = uid) (userGroups s),
          loginSessions := tbl_delete (\<lambda>l. ls_userId l = uid) (loginSessions s),
          userConsents := tbl_delete (\<lambda>c. uco_userId c = uid) (userConsents s),
          consentHistory := tbl_delete (\<lambda>h. ch_userId h = uid) (consentHistory s),
          verificationTokens := tbl_delete (\<lambda>t. vt_userId t = uid) (verificationTokens s),
          magicLinkRequests := tbl_delete (\<lambda>m. ml_userId m = uid) (magicLinkRequests s),
          passwordHistories := tbl_delete (\<lambda>h. ph_userId h = uid) (passwordHistories s),
          loginFailures := tbl_delete (\<lambda>f. lf_userId f = Some uid) (loginFailures s),
          userCredentials := tbl_delete (\<lambda>c. uc_userId c = uid) (userCredentials s),
          recoveryCodes := tbl_delete (\<lambda>c. rc_userId c = uid) (recoveryCodes s),
          usedTotpCodes := tbl_delete (\<lambda>c. ut_userId c = uid) (usedTotpCodes s),
          totpFailures := tbl_delete (\<lambda>f. tf_userId f = uid) (totpFailures s),
          webAuthnFailures := tbl_delete (\<lambda>f. wf_userId f = uid) (webAuthnFailures s),
          webAuthnCredentials := tbl_delete (\<lambda>c. wc_userId c = uid) (webAuthnCredentials s),
          userAttributes := tbl_delete (\<lambda>v. ua_userId v = uid) (userAttributes s) \<rparr>)"

definition remove :: "realm_row \<Rightarrow> ident \<Rightarrow> db \<Rightarrow> unit result \<times> db" where
  "remove r userId s =
     (case findById r userId s of Inl err \<Rightarrow> (Inl err, s) | Inr _ \<Rightarrow> (Inr (), delete_user userId s))"

definition put_password :: "env \<Rightarrow> string \<Rightarrow> user_row \<Rightarrow> user_row" where
  "put_password e passwordHash u = u\<lparr> user_passwordHash := Some passwordHash, user_passwordChangedAt := Some (now e) \<rparr>"

definition setPassword :: "env \<Rightarrow> user_draws \<Rightarrow> realm_row \<Rightarrow> ident \<Rightarrow> string \<Rightarrow> db \<Rightarrow> unit result \<times> db" where
  "setPassword e d r userId password s =
     (case findById r userId s of
        Inl err \<Rightarrow> (Inl err, s)
      | Inr _ \<Rightarrow>
          if \<not> valid (validate r password) then (Inl BadRequestException, s)
          else if realm_passwordHistoryCount r > 0
               \<and> checkHistory e userId (realm_id r) password (realm_passwordHistoryCount r) s
          then (Inl BadRequestException, s)
          else case hashPassword (ud_passwordHash d) password of
            Inl err \<Rightarrow> (Inl err, s)
          | Inr passwordHash \<Rightarrow>
              and_then (resetFailures (realm_id r) userId (update_user userId (put_password e passwordHash) s))
                (\<lambda>_ s1. (Inr (), recordHistory e (ud_historyId d) userId (realm_id r) passwordHash
                                   (realm_passwordHistoryCount r) s1)))"

subsection \<open>Offline sessions and consents\<close>

definition session_user :: "ident \<Rightarrow> db \<Rightarrow> ident option" where
  "session_user sid s = map_option sess_userId (List.find (\<lambda>x. sess_id x = sid) (sessions s))"

definition getOfflineSessions :: "realm_row \<Rightarrow> ident \<Rightarrow> db \<Rightarrow> refresh_token_row list result" where
  "getOfflineSessions r userId s =
     map_sum id (\<lambda>_. order_desc rt_createdAt
       (filter (\<lambda>t. session_user (rt_sessionId t) s = Some userId \<and> rt_isOffline t \<and> \<not> rt_revoked t) (refreshTokens s)))
       (findById r userId s)"

definition revokeOfflineSession :: "realm_row \<Rightarrow> ident \<Rightarrow> ident \<Rightarrow> db \<Rightarrow> unit result \<times> db" where
  "revokeOfflineSession r userId tokenId s =
     (case findById r userId s of
        Inl err \<Rightarrow> (Inl err, s)
      | Inr _ \<Rightarrow>
          if \<not> list_ex (\<lambda>t. rt_id t = tokenId \<and> session_user (rt_sessionId t) s = Some userId \<and> rt_isOffline t) (refreshTokens s)
          then (Inl NotFoundException, s)
          else (Inr (), s\<lparr> refreshTokens := tbl_update (\<lambda>t. rt_id t = tokenId) (\<lambda>t. t\<lparr> rt_revoked := True \<rparr>) (refreshTokens s) \<rparr>))"

definition revokeUserConsents :: "env \<Rightarrow> realm_row \<Rightarrow> ident \<Rightarrow> string option \<Rightarrow> db \<Rightarrow> nat result \<times> db" where
  "revokeUserConsents e r userId clientIdOrUuid s =
     (case findById r userId s of
        Inl err \<Rightarrow> (Inl err, s)
      | Inr _ \<Rightarrow>
          if \<not> falsy clientIdOrUuid then
            (case List.find (\<lambda>c. client_realmId c = realm_id r \<and>
                     (client_id c = the clientIdOrUuid \<or> client_clientId c = the clientIdOrUuid)) (clients s) of
               None \<Rightarrow> (Inl NotFoundException, s)
             | Some c \<Rightarrow>
                 if consent_of userId (client_id c) s = None then (Inr 0, s)
                 else (Inr 1, revokeConsent e (realm_id r) userId (client_id c) None s))
          else
            let consented = map uco_clientId (filter (\<lambda>c. uco_userId c = userId) (userConsents s))
            in (Inr (length consented), fold (\<lambda>cid. revokeConsent e (realm_id r) userId cid None) consented s))"

definition getUserConsentHistory ::
  "realm_row \<Rightarrow> ident \<Rightarrow> int option \<Rightarrow> int option \<Rightarrow> db \<Rightarrow> (consent_history_row list \<times> int \<times> int \<times> int) result" where
  "getUserConsentHistory r userId page limit s =
     map_sum id (\<lambda>_.
       let pageSize = min (max (nullish_else limit 20) 1) 100;
           pageNo = max (nullish_else page 1) 1
       in (take (nat pageSize) (drop (nat ((pageNo - 1) * pageSize))
             (order_desc ch_createdAt (filter (\<lambda>h. ch_userId h = userId) (consentHistory s)))),
           tbl_count (\<lambda>h. ch_userId h = userId) (consentHistory s), pageNo, pageSize)) (findById r userId s)"

subsection \<open>Unique accounts\<close>

text \<open>The unique indexes of the user table: the identifier, the name in a realm, and the address in a realm when there is one.\<close>

definition same_address :: "user_row \<Rightarrow> user_row \<Rightarrow> bool" where
  "same_address u v \<longleftrightarrow> user_realmId u = user_realmId v \<and> (\<exists>x. user_email u = Some x \<and> user_email v = Some x)"

definition accounts_ok :: "db \<Rightarrow> bool" where
  "accounts_ok s \<longleftrightarrow> distinct (map user_id (users s)) \<and> distinct (map (\<lambda>u. (user_realmId u, user_username u)) (users s)) \<and>
     (\<forall>u \<in> set (users s). \<forall>v \<in> set (users s). same_address u v \<longrightarrow> user_id u = user_id v)"

lemma same_address_sym: "same_address u v \<Longrightarrow> same_address v u"
  by (auto simp: same_address_def)

lemma free_address: "\<not> email_taken (user_realmId u) (user_email u) s \<Longrightarrow> v \<in> set (users s) \<Longrightarrow> \<not> same_address u v"
  by (auto simp: same_address_def email_taken_def user_by_email_def find_None_iff)

lemma accounts_ok_users: "accounts_ok s \<Longrightarrow> users s' = users s \<Longrightarrow> accounts_ok s'"
  by (simp add: accounts_ok_def)

lemma add_user_ok:
  assumes "accounts_ok s" "user_id u \<notin> user_id ` set (users s)" "user_by_username (user_realmId u) (user_username u) s = None"
    and "\<not> email_taken (user_realmId u) (user_email u) s"
  shows "accounts_ok (add_user u s)"
proof -
  have n: "(user_realmId u, user_username u) \<notin> (\<lambda>u. (user_realmId u, user_username u)) ` set (users s)"
    using assms(3) by (auto simp: user_by_username_def find_None_iff)
  have em: "user_id v = user_id w" if "v \<in> set (users (add_user u s))" "w \<in> set (users (add_user u s))" "same_address v w" for v w
  proof (cases "v = u \<or> w = u")
    case True
    have mem: "v = u \<or> v \<in> set (users s)" "w = u \<or> w \<in> set (users s)" using that(1,2) by (auto simp: add_user_def)
    show ?thesis using True mem free_address [OF assms(4)] that(3) same_address_sym [OF that(3)] by metis
  next
    case False
    with that(1,2) have "v \<in> set (users s)" "w \<in> set (users s)" by (simp_all add: add_user_def)
    with assms(1) that(3) show ?thesis by (simp add: accounts_ok_def)
  qed
  have "distinct (map user_id (users (add_user u s)))" "distinct (map (\<lambda>u. (user_realmId u, user_username u)) (users (add_user u s)))"
    using n assms(1,2) by (simp_all add: accounts_ok_def add_user_def)
  with em show ?thesis unfolding accounts_ok_def by blast
qed

lemma update_user_ok:
  assumes ok: "accounts_ok s" and same: "\<And>u. user_id (f u) = user_id u" "\<And>u. user_realmId (f u) = user_realmId u"
      "\<And>u. user_username (f u) = user_username u"
    and email: "\<And>u. u \<in> set (users s) \<Longrightarrow> user_id u = i \<Longrightarrow>
      user_email (f u) = user_email u \<or> \<not> email_taken (user_realmId u) (user_email (f u)) s"
  shows "accounts_ok (update_user i f s)"
proof -
  let ?f = "\<lambda>u. if user_id u = i then f u else u"
  have us: "users (update_user i f s) = map ?f (users s)" by (simp add: update_user_def tbl_update_def)
  have free: "\<not> same_address (f u) v"
    if "u \<in> set (users s)" "user_id u = i" "v \<in> set (users s)" "user_id v \<noteq> i" for u v
    using email [OF that(1,2)]
  proof
    assume "user_email (f u) = user_email u"
    then have "same_address (f u) v = same_address u v" by (simp add: same_address_def same)
    with ok that show ?thesis by (auto simp: accounts_ok_def)
  qed (use that free_address [of "f u" s v] in \<open>simp add: same\<close>)
  have "user_id (?f u) = user_id (?f v)" if "u \<in> set (users s)" "v \<in> set (users s)" "same_address (?f u) (?f v)" for u v
  proof (cases "user_id u = i"; cases "user_id v = i")
    assume "user_id u = i" "user_id v \<noteq> i"
    then show ?thesis using free [of u v] that by simp
  next
    assume "user_id u \<noteq> i" "user_id v = i"
    then show ?thesis using free [of v u] that same_address_sym [OF that(3)] by simp
  next
    assume "user_id u \<noteq> i" "user_id v \<noteq> i"
    then show ?thesis using that ok by (simp add: accounts_ok_def)
  qed (simp add: same)
  then have "\<forall>v \<in> set (users (update_user i f s)). \<forall>w \<in> set (users (update_user i f s)). same_address v w \<longrightarrow> user_id v = user_id w"
    unfolding us set_map by blast
  moreover have "map user_id (users (update_user i f s)) = map user_id (users s)"
    "map (\<lambda>u. (user_realmId u, user_username u)) (users (update_user i f s)) = map (\<lambda>u. (user_realmId u, user_username u)) (users s)"
    unfolding us by (simp_all add: same)
  ultimately show ?thesis using ok unfolding accounts_ok_def by simp
qed

lemma delete_user_ok: "accounts_ok s \<Longrightarrow> accounts_ok (delete_user uid s)"
  unfolding accounts_ok_def delete_user_def Let_def delete_sessions_def
  by (simp add: distinct_map_tbl_delete)

lemma users_frame [simp]:
  "users (recordHistory e hid uid rid h n s) = users s"
  "users (snd (sendEmail m rn to subj s)) = users s"
  "users (createTokenWithHash e i uid ty n h s) = users s"
  by (simp_all add: recordHistory_def sendEmail_def createTokenWithHash_def Let_def split: sum.split)

lemma users_sendVerificationEmail [simp]: "users (snd (sendVerificationEmail e m t r uid email s)) = users s"
  by (simp add: sendVerificationEmail_def createToken_def)

lemma create_users:
  assumes "create e d m r dto s = (res, s')"
  shows "users s' = users s \<or> (\<exists>h. res = Inr (new_account e (ud_userId d) r dto h) \<and> users s' = users s @ [new_account e (ud_userId d) r dto h]
     \<and> user_by_username (realm_id r) (cu_username dto) s = None \<and> \<not> email_taken (realm_id r) (cu_email dto) s)"
proof (cases "user_by_username (realm_id r) (cu_username dto) s = None \<and> \<not> email_taken (realm_id r) (cu_email dto) s")
  case True
  show ?thesis
  proof (cases "password_to_store r (ud_passwordHash d) (cu_password dto)")
    case (Inr h)
    with True assms have "res = Inr (new_account e (ud_userId d) r dto h)" "users s' = users s @ [new_account e (ud_userId d) r dto h]"
      by (auto simp: create_def Let_def add_user_def)
    with True show ?thesis by blast
  qed (use True assms in \<open>simp add: create_def\<close>)
next
  case False
  with assms have "s' = s" by (auto simp: create_def split: if_splits)
  then show ?thesis by simp
qed

lemma create_accounts_ok:
  assumes "accounts_ok s" "ud_userId d \<notin> user_id ` set (users s)"
  shows "accounts_ok (snd (create e d m r dto s))"
proof -
  obtain res s' where c: "create e d m r dto s = (res, s')" by fastforce
  from create_users [OF c] show ?thesis
  proof (elim disjE exE conjE)
    assume "users s' = users s"
    with assms(1) c show ?thesis by (simp add: accounts_ok_users)
  next
    fix h
    let ?u = "new_account e (ud_userId d) r dto h"
    assume u: "users s' = users s @ [?u]" "user_by_username (realm_id r) (cu_username dto) s = None"
      "\<not> email_taken (realm_id r) (cu_email dto) s"
    then have "accounts_ok (add_user ?u s)"
      using assms by (intro add_user_ok) (simp_all add: new_account_def new_user_def)
    then show ?thesis using u c by (elim accounts_ok_users) (simp add: add_user_def)
  qed
qed

lemma findById_Inr: "findById r uid s = Inr u \<Longrightarrow> u \<in> set (users s) \<and> user_id u = uid \<and> user_realmId u = realm_id r"
  by (auto simp: findById_def dest: find_SomeD split: option.splits)

lemma update_accounts_ok:
  assumes ok: "accounts_ok s"
  shows "accounts_ok (snd (update r uid dto s))"
proof (cases "findById r uid s")
  case (Inr u)
  note u = findById_Inr [OF Inr]
  show ?thesis
  proof (cases "uu_email dto \<noteq> None \<and> uu_email dto \<noteq> user_email u \<and> email_taken (realm_id r) (uu_email dto) s")
    case False
    have "accounts_ok (update_user uid (edited_user dto) s)"
    proof (rule update_user_ok [OF ok])
      fix v assume v: "v \<in> set (users s)" "user_id v = uid"
      then have "v = u" using ok u by (auto simp: accounts_ok_def dest: distinct_id_eq [of user_id])
      with False u show "user_email (edited_user dto v) = user_email v \<or> \<not> email_taken (user_realmId v) (user_email (edited_user dto v)) s"
        by (auto simp: edited_user_def given_def)
    qed (simp_all add: edited_user_def)
    moreover have "snd (update r uid dto s) = update_user uid (edited_user dto) s"
      using Inr False unfolding update_def by (simp only: sum.case if_False snd_conv)
    ultimately show ?thesis by simp
  qed (use Inr ok in \<open>simp add: update_def\<close>)
qed (use ok in \<open>simp add: update_def\<close>)

lemma remove_accounts_ok: "accounts_ok s \<Longrightarrow> accounts_ok (snd (remove r uid s))"
  by (simp add: remove_def delete_user_ok split: sum.split)

lemma resetFailures_ok: "accounts_ok s \<Longrightarrow> accounts_ok (snd (resetFailures rid uid s))"
proof -
  assume ok: "accounts_ok s"
  let ?s = "s\<lparr> loginFailures := tbl_delete (\<lambda>f. lf_realmId f = rid \<and> lf_userId f = Some uid) (loginFailures s) \<rparr>"
  have "accounts_ok ?s" by (rule accounts_ok_users [OF ok]) simp
  moreover from this have "accounts_ok (update_user uid (\<lambda>u. u\<lparr> user_lockedUntil := None \<rparr>) ?s)" by (rule update_user_ok) simp_all
  ultimately show ?thesis by (simp add: resetFailures_def Let_def)
qed

lemma put_password_ok: "accounts_ok s \<Longrightarrow> accounts_ok (update_user uid (put_password e h) s)"
  by (rule update_user_ok) (simp_all add: put_password_def)

lemma accounts_ok_and_then:
  "accounts_ok (snd p) \<Longrightarrow> (\<And>x s1. accounts_ok s1 \<Longrightarrow> accounts_ok (snd (k x s1))) \<Longrightarrow> accounts_ok (snd (and_then p k))"
  by (cases p; cases "fst p") auto

lemma recordHistory_ok: "accounts_ok s \<Longrightarrow> accounts_ok (recordHistory e hid uid rid h n s)"
  by (erule accounts_ok_users) simp

lemma setPassword_ok: "accounts_ok s \<Longrightarrow> accounts_ok (snd (setPassword e d r uid pw s))"
  by (auto simp: setPassword_def resetFailures_ok put_password_ok recordHistory_ok intro!: accounts_ok_and_then
      split: sum.split)

subsection \<open>A password that is set signs in\<close>

lemma account_by_username:
  assumes "accounts_ok s" "u \<in> set (users s)"
  shows "user_by_username (user_realmId u) (user_username u) s = Some u"
  using find_unique [of "\<lambda>u. (user_realmId u, user_username u)" "users s" u] assms
  by (simp add: accounts_ok_def user_by_username_def)

lemma setPassword_cases:
  assumes "setPassword e d r uid pw s = (Inr (), s')" "accounts_ok s" "user_by_id uid s = Some u"
  obtains "user_realmId u = realm_id r" "valid (validate r pw)" "length pw \<le> MAX_PASSWORD_LENGTH"
    "\<not> (realm_passwordHistoryCount r > 0 \<and> checkHistory e uid (realm_id r) pw (realm_passwordHistoryCount r) s)"
    "users s' = users (update_user uid (\<lambda>u. (put_password e (ud_passwordHash d) u)\<lparr> user_lockedUntil := None \<rparr>) s)"
proof -
  obtain u0 where u0: "findById r uid s = Inr u0" using assms(1) by (cases "findById r uid s") (auto simp: setPassword_def)
  have "u0 = u" using findById_Inr [OF u0] user_by_id_in [OF assms(3)] assms(2)
    by (auto simp: accounts_ok_def dest: distinct_id_eq [of user_id])
  then have r: "user_realmId u = realm_id r" using findById_Inr [OF u0] by simp
  have g: "valid (validate r pw)" "length pw \<le> MAX_PASSWORD_LENGTH"
    "\<not> (realm_passwordHistoryCount r > 0 \<and> checkHistory e uid (realm_id r) pw (realm_passwordHistoryCount r) s)"
    using assms(1) u0 by (auto simp: setPassword_def hashPassword_def split: if_splits)
  let ?s = "update_user uid (put_password e (ud_passwordHash d)) s"
  have "user_by_id uid ?s \<noteq> None" using assms(3) user_by_id_update_user [of "put_password e (ud_passwordHash d)"]
    by (simp add: put_password_def)
  then have "fst (resetFailures (realm_id r) uid ?s) = Inr ()"
    "users (snd (resetFailures (realm_id r) uid ?s)) = users (update_user uid (\<lambda>u. u\<lparr> user_lockedUntil := None \<rparr>) ?s)"
    by (auto simp: resetFailures_def Let_def user_by_id_def update_user_def)
  moreover have "s' = recordHistory e (ud_historyId d) uid (realm_id r) (ud_passwordHash d) (realm_passwordHistoryCount r)
      (snd (resetFailures (realm_id r) uid ?s))"
    using assms(1) u0 g calculation(1)
    by (cases "resetFailures (realm_id r) uid ?s") (auto simp: setPassword_def hashPassword_def split: if_splits)
  moreover have "users (update_user uid (\<lambda>u. u\<lparr> user_lockedUntil := None \<rparr>) ?s) =
      users (update_user uid (\<lambda>u. (put_password e (ud_passwordHash d) u)\<lparr> user_lockedUntil := None \<rparr>) s)"
    by (simp add: update_user_def tbl_update_def put_password_def)
  ultimately show thesis using that r g by simp
qed

text \<open>
  When an administrator sets a password, it obeys the realm's policy and is none of the remembered ones, and
  from then on it is the password of the account: with any later environment in which the hash verifies, the
  enabled local account signs in with it, even if it was locked before.  No other account changes.
\<close>

theorem set_password_signs_in:
  assumes "setPassword e d r uid pw s = (Inr (), s')" "accounts_ok s" "user_by_id uid s = Some u"
    and "user_enabled u" "falsy (user_federationLink u)" "ud_passwordHash d \<noteq> []" "argon2_verify e' (ud_passwordHash d) pw"
  shows "(\<exists>u'. fst (validateCredentials e' d' r (user_username u) pw ip s') = Inr u' \<and> user_id u' = uid
            \<and> user_passwordHash u' = Some (ud_passwordHash d))
    \<and> valid (validate r pw)
    \<and> (realm_passwordHistoryCount r > 0 \<longrightarrow> \<not> checkHistory e uid (realm_id r) pw (realm_passwordHistoryCount r) s)
    \<and> (\<forall>v. v \<noteq> uid \<longrightarrow> user_by_id v s' = user_by_id v s)"
proof (rule setPassword_cases [OF assms(1-3)])
  let ?f = "\<lambda>u. (put_password e (ud_passwordHash d) u)\<lparr> user_lockedUntil := None \<rparr>"
  assume g: "user_realmId u = realm_id r" "valid (validate r pw)" "length pw \<le> MAX_PASSWORD_LENGTH"
    "\<not> (realm_passwordHistoryCount r > 0 \<and> checkHistory e uid (realm_id r) pw (realm_passwordHistoryCount r) s)"
    "users s' = users (update_user uid ?f s)"
  have f: "user_id (?f x) = user_id x" for x by (simp add: put_password_def)
  have by_id: "user_by_id v s' = (if v = uid then map_option ?f (user_by_id v s) else user_by_id v s)" for v
    using user_by_id_update_user [of ?f v uid s] f g(5) by (simp add: user_by_id_def)
  have "?f u \<in> set (users s')" using by_id [of uid] assms(3) user_by_id_in [of uid s' "?f u"] by simp
  moreover have "accounts_ok s'" using setPassword_ok [OF assms(2), of e d r uid pw] assms(1) by simp
  ultimately have "user_by_username (realm_id r) (user_username u) s' = Some (?f u)"
    using account_by_username [of s' "?f u"] g(1) by (simp add: put_password_def)
  moreover have "fst (accept_credentials r (?f u) s') = Inr (?f u)"
    using by_id [of uid] assms(3) user_by_id_in [OF assms(3)]
    by (simp add: accept_credentials_def resetFailures_def Let_def user_by_id_def put_password_def)
  ultimately have "fst (validateCredentials e' d' r (user_username u) pw ip s') = Inr (?f u)"
    using assms(4-7) g(3) by (simp add: validateCredentials_def checkLocked_def verifyPassword_def put_password_def)
  then have "\<exists>u'. fst (validateCredentials e' d' r (user_username u) pw ip s') = Inr u' \<and> user_id u' = uid
      \<and> user_passwordHash u' = Some (ud_passwordHash d)"
    using user_by_id_in [OF assms(3)] by (intro exI [of _ "?f u"]) (simp add: put_password_def)
  with g(2,4) by_id show ?thesis by simp
qed

definition sample_user_draws :: user_draws where
  "sample_user_draws = \<lparr> ud_userId = ''u9'', ud_passwordHash = ''brand-new'', ud_historyId = ''h9'',
     ud_token = \<lparr> td_id = ''t9'', td_rawToken = ''tok9'' \<rparr> \<rparr>"

definition locked_db :: db where
  "locked_db = update_user ''u1'' (\<lambda>u. u\<lparr> user_lockedUntil := Some 99999999 \<rparr>) sample_db"

theorem set_password_signs_in_witness:
  "setPassword sample_env sample_user_draws sample_realm ''u1'' ''brand-new'' locked_db
     = (Inr (), snd (setPassword sample_env sample_user_draws sample_realm ''u1'' ''brand-new'' locked_db)) \<and>
   fst (validateCredentials sample_env sample_login_draws sample_realm ''alice'' ''brand-new'' None locked_db) = Inl UnauthorizedException \<and>
   (\<exists>u'. fst (validateCredentials sample_env sample_login_draws sample_realm ''alice'' ''brand-new'' None
      (snd (setPassword sample_env sample_user_draws sample_realm ''u1'' ''brand-new'' locked_db))) = Inr u' \<and> user_id u' = ''u1'')"
proof (intro conjI)
  let ?u = "the (user_by_id ''u1'' locked_db)"
  show run: "setPassword sample_env sample_user_draws sample_realm ''u1'' ''brand-new'' locked_db
     = (Inr (), snd (setPassword sample_env sample_user_draws sample_realm ''u1'' ''brand-new'' locked_db))"
    by (rule prod_eqI) (code_simp, simp)
  show "fst (validateCredentials sample_env sample_login_draws sample_realm ''alice'' ''brand-new'' None locked_db)
      = Inl UnauthorizedException" by code_simp
  have "user_by_id ''u1'' locked_db = Some ?u" "user_enabled ?u" "falsy (user_federationLink ?u)" "ud_passwordHash sample_user_draws \<noteq> []"
    "argon2_verify sample_env (ud_passwordHash sample_user_draws) ''brand-new''" "user_username ?u = ''alice''"
    by code_simp+
  moreover have "accounts_ok locked_db" by (simp add: accounts_ok_def locked_db_def update_user_def sample_db_def)
  ultimately show "\<exists>u'. fst (validateCredentials sample_env sample_login_draws sample_realm ''alice'' ''brand-new'' None
      (snd (setPassword sample_env sample_user_draws sample_realm ''u1'' ''brand-new'' locked_db))) = Inr u' \<and> user_id u' = ''u1''"
    using set_password_signs_in [OF run, of ?u sample_env sample_login_draws None] by auto
qed

subsection \<open>A deleted account\<close>

lemma delete_user_tables:
  "users (delete_user uid s) = tbl_delete (\<lambda>u. user_id u = uid) (users s)"
  "loginSessions (delete_user uid s) = tbl_delete (\<lambda>l. ls_userId l = uid) (loginSessions s)"
  "verificationTokens (delete_user uid s) = tbl_delete (\<lambda>t. vt_userId t = uid) (verificationTokens s)"
  "sessions (delete_user uid s) = tbl_delete (\<lambda>x. sess_id x \<in> sess_id ` {x \<in> set (sessions s). sess_userId x = uid}) (sessions s)"
  "refreshTokens (delete_user uid s) =
     tbl_delete (\<lambda>t. rt_sessionId t \<in> sess_id ` {x \<in> set (sessions s). sess_userId x = uid}) (refreshTokens s)"
  "signingKeys (delete_user uid s) = signingKeys s"
  "magicLinkRequests (delete_user uid s) = tbl_delete (\<lambda>m. ml_userId m = uid) (magicLinkRequests s)"
  "webAuthnCredentials (delete_user uid s) = tbl_delete (\<lambda>c. wc_userId c = uid) (webAuthnCredentials s)"
  by (simp_all add: delete_user_def delete_sessions_def Let_def)

text \<open>
  C28.  After an account is deleted nothing of it is left to sign in or go on with: no browser session, one-time token, sign-in
  link or passkey leads to it, its refresh tokens are gone, and every access token that carries one of its sessions is inactive for
  introspection and refused by the user-info endpoint.  The accounts and browser sessions of other users are untouched.
\<close>

theorem deleted_user_gone:
  assumes "remove r uid s = (Inr (), s')"
  shows "user_by_id uid s' = None
    \<and> (\<forall>e' r' token u. validateLoginSession e' r' token s' = Some u \<longrightarrow> user_id u \<noteq> uid)
    \<and> (\<forall>e' raw ty. fst (validateToken e' raw ty s') \<noteq> Some uid)
    \<and> uid \<notin> ml_userId ` set (magicLinkRequests s') \<and> uid \<notin> wc_userId ` set (webAuthnCredentials s')
    \<and> (\<forall>x \<in> set (sessions s). sess_userId x = uid \<longrightarrow>
         sess_id x \<notin> rt_sessionId ` set (refreshTokens s')
         \<and> (\<forall>v e' dbUp r' token k p. active_key (realm_id r') s' = Some k \<and> v token (sk_publicKey k) = Some p
              \<and> str_claim p ''sid'' = Some (sess_id x) \<and> sess_id x \<noteq> [] \<longrightarrow>
              fst (introspect v e' dbUp r' token s') = None \<and> fst (userinfo v e' dbUp r' token s') = Inl UnauthorizedException))
    \<and> (\<forall>v. v \<noteq> uid \<longrightarrow> user_by_id v s' = user_by_id v s)
    \<and> filter (\<lambda>l. ls_userId l \<noteq> uid) (loginSessions s') = filter (\<lambda>l. ls_userId l \<noteq> uid) (loginSessions s)"
proof -
  have s': "s' = delete_user uid s" using assms by (simp add: remove_def split: sum.splits)
  have no: "user_by_id uid s' = None" by (auto simp: s' user_by_id_def find_None_iff delete_user_tables)
  have sess: "user_id u \<noteq> uid" if "validateLoginSession e' r' token s' = Some u" for e' r' token u
  proof -
    from that obtain i where "user_by_id i s' = Some u" by (auto simp: validateLoginSession_def split: option.splits if_splits)
    then have "u \<in> set (users s')" by (simp add: user_by_id_in)
    then show ?thesis by (simp add: s' delete_user_tables)
  qed
  have tok: "fst (validateToken e' raw ty s') \<noteq> Some uid" for e' raw ty
    by (auto simp: validateToken_def token_row_def s' delete_user_tables dest!: find_SomeD split: option.splits)
  have others: "user_by_id v s' = user_by_id v s" if "v \<noteq> uid" for v
  proof -
    have "List.find (\<lambda>u. user_id u = v) (tbl_delete (\<lambda>u. user_id u = uid) us) = List.find (\<lambda>u. user_id u = v) us" for us
      using that by (induction us) auto
    then show ?thesis by (simp add: user_by_id_def s' delete_user_tables)
  qed
  have gone: "List.find (\<lambda>y. sess_id y = sess_id x) (sessions s') = None" and rt: "sess_id x \<notin> rt_sessionId ` set (refreshTokens s')"
    if "x \<in> set (sessions s)" "sess_userId x = uid" for x
    using that by (auto simp: s' delete_user_tables find_None_iff image_iff)
  have refused: "fst (introspect v e' dbUp r' token s') = None \<and> fst (userinfo v e' dbUp r' token s') = Inl UnauthorizedException"
    if "x \<in> set (sessions s)" "sess_userId x = uid" "active_key (realm_id r') s' = Some k" "v token (sk_publicKey k) = Some p"
      "str_claim p ''sid'' = Some (sess_id x)" "sess_id x \<noteq> []" for x v e' dbUp r' token k p
    using session_gone_refused [where v = v, OF that(3-6) gone [OF that(1,2)]] by simp
  have rest: "uid \<notin> ml_userId ` set (magicLinkRequests s')" "uid \<notin> wc_userId ` set (webAuthnCredentials s')"
    "filter (\<lambda>l. ls_userId l \<noteq> uid) (loginSessions s') = filter (\<lambda>l. ls_userId l \<noteq> uid) (loginSessions s)"
    by (auto simp: s' delete_user_tables tbl_delete_def)
  show ?thesis using no sess tok others rt refused rest by blast
qed

theorem deleted_user_gone_witness:
  "remove sample_realm ''u1'' tokens_db = (Inr (), snd (remove sample_realm ''u1'' tokens_db)) \<and>
   user_by_id ''u1'' tokens_db \<noteq> None \<and> user_by_id ''u1'' (snd (remove sample_realm ''u1'' tokens_db)) = None \<and>
   length (refreshTokens tokens_db) = 1 \<and> refreshTokens (snd (remove sample_realm ''u1'' tokens_db)) = []"
proof (intro conjI)
  show run: "remove sample_realm ''u1'' tokens_db = (Inr (), snd (remove sample_realm ''u1'' tokens_db))"
    by (rule prod_eqI) (code_simp, simp)
  from deleted_user_gone [OF run, THEN conjunct1] show "user_by_id ''u1'' (snd (remove sample_realm ''u1'' tokens_db)) = None" .
qed code_simp+

text \<open>
  The request to set a password may ask for a temporary one, to be changed at the next sign-in; the service has no such
  parameter, and the account it leaves is the same whatever was asked.  Nor does a new password end the
  sessions of the account.
\<close>

lemma set_password_keeps_sessions:
  "loginSessions (snd (setPassword e d r uid pw s)) = loginSessions s"
  "sessions (snd (setPassword e d r uid pw s)) = sessions s"
  "refreshTokens (snd (setPassword e d r uid pw s)) = refreshTokens s"
  by (auto simp: setPassword_def resetFailures_def recordHistory_def update_user_def and_then_def Let_def split: sum.splits)

end
