(* ===== verification/Custom_Attributes.thy ===== *)
theory Custom_Attributes
  imports Js_Value Store
begin

text \<open>
  \<open>src/src/custom-attributes/custom-attributes.service.ts\<close>: the attributes a realm declares for its users and the values of
  the users.  The values that an administrator sets and those that the registration form sends are checked against the
  declared type, and the main results say what that check achieves: every stored value has its attribute's type, as
  long as no definition is narrowed afterwards, and setting values and reading them back agree.

  The values of a request are an association list with distinct keys, a JSON object; \<open>name in object\<close>
  is also true of the properties that every object inherits.
\<close>

subsection \<open>Definitions of attributes\<close>

record attribute_dto =
  ad_name :: "string option"
  ad_displayName :: "string option"
  ad_type :: "string option"
  ad_required :: "bool option"
  ad_showOnRegistration :: "bool option"
  ad_showOnProfile :: "bool option"
  ad_options :: "string list option"
  ad_mapToOidcClaim :: "string option"
  ad_sortOrder :: "int option"

definition choice_type :: "string \<Rightarrow> bool" where
  "choice_type ty \<longleftrightarrow> ty = ''select'' \<or> ty = ''multi-select''"

definition validateOptionsForType :: "string \<Rightarrow> string list option \<Rightarrow> bool" where
  "validateOptionsForType ty options \<longleftrightarrow> \<not> (choice_type ty \<and> (options = None \<or> options = Some []))"

definition new_attribute :: "env \<Rightarrow> ident \<Rightarrow> realm_row \<Rightarrow> attribute_dto \<Rightarrow> custom_attribute_row" where
  "new_attribute e newId r dto =
     \<lparr> ca_id = newId, ca_realmId = realm_id r, ca_name = nullish_else (ad_name dto) [],
       ca_displayName = nullish_else (ad_displayName dto) [], ca_type = nullish_else (ad_type dto) ''text'',
       ca_required = nullish_else (ad_required dto) False,
       ca_showOnRegistration = nullish_else (ad_showOnRegistration dto) False,
       ca_showOnProfile = nullish_else (ad_showOnProfile dto) True,
       ca_options = ad_options dto, ca_mapToOidcClaim = ad_mapToOidcClaim dto,
       ca_sortOrder = nullish_else (ad_sortOrder dto) 0, ca_createdAt = now e \<rparr>"

definition createAttribute :: "env \<Rightarrow> ident \<Rightarrow> realm_row \<Rightarrow> attribute_dto \<Rightarrow> db \<Rightarrow> custom_attribute_row result \<times> db" where
  "createAttribute e newId r dto s =
     (let a = new_attribute e newId r dto in
      if \<not> validateOptionsForType (ca_type a) (ad_options dto) then (Inl BadRequestException, s)
      else if list_ex (\<lambda>b. ca_realmId b = realm_id r \<and> ca_name b = ca_name a) (customAttributes s) then (Inl ConflictException, s)
      else (Inr a, s\<lparr> customAttributes := customAttributes s @ [a] \<rparr>))"

definition findAllAttributes :: "realm_row \<Rightarrow> db \<Rightarrow> custom_attribute_row list" where
  "findAllAttributes r s =
     order_asc ca_sortOrder (order_asc ca_createdAt (filter (\<lambda>a. ca_realmId a = realm_id r) (customAttributes s)))"

definition findAttributeById :: "realm_row \<Rightarrow> ident \<Rightarrow> db \<Rightarrow> custom_attribute_row result" where
  "findAttributeById r attributeId s =
     (case List.find (\<lambda>a. ca_id a = attributeId \<and> ca_realmId a = realm_id r) (customAttributes s) of
        None \<Rightarrow> Inl NotFoundException
      | Some a \<Rightarrow> Inr a)"

definition findAttributeByName :: "ident \<Rightarrow> string \<Rightarrow> db \<Rightarrow> custom_attribute_row option" where
  "findAttributeByName rid name s = List.find (\<lambda>a. ca_realmId a = rid \<and> ca_name a = name) (customAttributes s)"

definition updated_attribute :: "attribute_dto \<Rightarrow> custom_attribute_row \<Rightarrow> custom_attribute_row" where
  "updated_attribute dto a =
     a\<lparr> ca_displayName := nullish_else (ad_displayName dto) (ca_displayName a),
        ca_type := nullish_else (ad_type dto) (ca_type a),
        ca_required := nullish_else (ad_required dto) (ca_required a),
        ca_showOnRegistration := nullish_else (ad_showOnRegistration dto) (ca_showOnRegistration a),
        ca_showOnProfile := nullish_else (ad_showOnProfile dto) (ca_showOnProfile a),
        ca_options := (if ad_options dto = None then ca_options a else ad_options dto),
        ca_mapToOidcClaim := (if ad_mapToOidcClaim dto = None then ca_mapToOidcClaim a else ad_mapToOidcClaim dto),
        ca_sortOrder := nullish_else (ad_sortOrder dto) (ca_sortOrder a) \<rparr>"

definition updateAttribute :: "realm_row \<Rightarrow> ident \<Rightarrow> attribute_dto \<Rightarrow> db \<Rightarrow> custom_attribute_row result \<times> db" where
  "updateAttribute r attributeId dto s =
     (case findAttributeById r attributeId s of
        Inl err \<Rightarrow> (Inl err, s)
      | Inr a \<Rightarrow>
          if (\<not> falsy (ad_type dto) \<or> ad_options dto \<noteq> None)
             \<and> \<not> validateOptionsForType (nullish_else (ad_type dto) (ca_type a)) (ad_options dto)
          then (Inl BadRequestException, s)
          else (Inr (updated_attribute dto a),
                s\<lparr> customAttributes := tbl_update (\<lambda>a. ca_id a = attributeId) (updated_attribute dto) (customAttributes s) \<rparr>))"

text \<open>Deleting a definition deletes its values (a cascade of the schema).\<close>

definition removeAttribute :: "realm_row \<Rightarrow> ident \<Rightarrow> db \<Rightarrow> unit result \<times> db" where
  "removeAttribute r attributeId s =
     (case findAttributeById r attributeId s of
        Inl err \<Rightarrow> (Inl err, s)
      | Inr a \<Rightarrow> (Inr (), s\<lparr> customAttributes := tbl_delete (\<lambda>a. ca_id a = attributeId) (customAttributes s),
                            userAttributes := tbl_delete (\<lambda>v. ua_attributeId v = attributeId) (userAttributes s) \<rparr>))"

subsection \<open>Values\<close>

definition validateAttributeValue :: "js_engine \<Rightarrow> custom_attribute_row \<Rightarrow> string \<Rightarrow> bool" where
  "validateAttributeValue j a value =
     (if ca_type a = ''number'' then number_of_string j value \<noteq> NaN
      else if ca_type a = ''boolean'' then
        to_lower value \<in> set [''true'', ''false'', ''1'', ''0'', ''yes'', ''no'']
      else if ca_type a = ''select'' then
        (case ca_options a of None \<Rightarrow> True | Some options \<Rightarrow> value \<in> set options)
      else if ca_type a = ''multi-select'' then
        (case ca_options a of
           None \<Rightarrow> True
         | Some options \<Rightarrow> list_all (\<lambda>x. x \<in> set options) (map js_trim (split_on (CHR '','') value)))
      else \<not> list_ex (\<lambda>c. c = CHR ''<'' \<or> c = CHR ''>'') value)"

text \<open>
  The names every object inherits; what such a name yields is a function or an object, not a string, and the check of
  a value then fails or throws unless the attribute is an optional text (or has no options).
\<close>

definition OBJECT_PROPERTIES :: "string list" where
  "OBJECT_PROPERTIES = [''constructor'', ''hasOwnProperty'', ''isPrototypeOf'', ''propertyIsEnumerable'', ''toLocaleString'',
     ''toString'', ''valueOf'', ''__proto__'', ''__defineGetter__'', ''__defineSetter__'', ''__lookupGetter__'', ''__lookupSetter__'']"

definition inherited_value_error :: "custom_attribute_row \<Rightarrow> app_error option" where
  "inherited_value_error a =
     (if ca_required a then Some TypeError
      else if ca_type a = ''number'' then Some BadRequestException
      else if ca_type a = ''boolean'' then Some TypeError
      else if ca_type a = ''select'' then (if ca_options a = None then None else Some BadRequestException)
      else if ca_type a = ''multi-select'' then (if ca_options a = None then None else Some TypeError)
      else None)"

definition value_error :: "js_engine \<Rightarrow> (string \<times> string) list \<Rightarrow> custom_attribute_row \<Rightarrow> app_error option" where
  "value_error j attributes a =
     (case map_of attributes (ca_name a) of
        Some value \<Rightarrow>
          if ca_required a \<and> js_trim value = [] then Some BadRequestException
          else if \<not> validateAttributeValue j a value then Some BadRequestException
          else None
      | None \<Rightarrow> if ca_name a \<in> set OBJECT_PROPERTIES then inherited_value_error a else None)"

fun first_error :: "('a \<Rightarrow> app_error option) \<Rightarrow> 'a list \<Rightarrow> app_error option" where
  "first_error f [] = None"
| "first_error f (x # xs) = (case f x of None \<Rightarrow> first_error f xs | Some err \<Rightarrow> Some err)"

definition assertUserInRealm :: "ident \<Rightarrow> ident \<Rightarrow> db \<Rightarrow> bool" where
  "assertUserInRealm rid uid s \<longleftrightarrow> list_ex (\<lambda>u. user_id u = uid \<and> user_realmId u = rid) (users s)"

record attribute_view =
  av_attributeId :: ident
  av_name :: string
  av_displayName :: string
  av_type :: string
  av_value :: string

definition attribute_by_id :: "ident \<Rightarrow> db \<Rightarrow> custom_attribute_row option" where
  "attribute_by_id i s = List.find (\<lambda>a. ca_id a = i) (customAttributes s)"

definition getUserAttributes :: "realm_row \<Rightarrow> ident \<Rightarrow> db \<Rightarrow> attribute_view list result" where
  "getUserAttributes r userId s =
     (if \<not> assertUserInRealm (realm_id r) userId s then Inl NotFoundException
      else Inr (concat (map (\<lambda>v. case attribute_by_id (ua_attributeId v) s of
                               None \<Rightarrow> []
                             | Some a \<Rightarrow> [\<lparr> av_attributeId = ua_attributeId v, av_name = ca_name a,
                                           av_displayName = ca_displayName a, av_type = ca_type a, av_value = ua_value v \<rparr>])
             (order_asc (\<lambda>v. case attribute_by_id (ua_attributeId v) s of None \<Rightarrow> 0 | Some a \<Rightarrow> ca_sortOrder a)
                (filter (\<lambda>v. ua_userId v = userId) (userAttributes s))))))"

definition upsert_value :: "ident \<Rightarrow> ident \<Rightarrow> string \<Rightarrow> user_attribute_row list \<Rightarrow> user_attribute_row list" where
  "upsert_value userId attributeId value vs =
     (if list_ex (\<lambda>v. ua_userId v = userId \<and> ua_attributeId v = attributeId) vs
      then tbl_update (\<lambda>v. ua_userId v = userId \<and> ua_attributeId v = attributeId) (\<lambda>v. v\<lparr> ua_value := value \<rparr>) vs
      else vs @ [\<lparr> ua_userId = userId, ua_attributeId = attributeId, ua_value = value \<rparr>])"

definition write_values ::
  "custom_attribute_row list \<Rightarrow> ident \<Rightarrow> (string \<times> string) list \<Rightarrow> user_attribute_row list \<Rightarrow> user_attribute_row list" where
  "write_values realmAttributes userId attributes =
     fold (\<lambda>(name, value) vs. case List.find (\<lambda>a. ca_name a = name) realmAttributes of
                                None \<Rightarrow> vs
                              | Some a \<Rightarrow> upsert_value userId (ca_id a) value vs) attributes"

definition setUserAttributes ::
  "js_engine \<Rightarrow> realm_row \<Rightarrow> ident \<Rightarrow> (string \<times> string) list \<Rightarrow> db \<Rightarrow> attribute_view list result \<times> db" where
  "setUserAttributes j r userId attributes s =
     (if \<not> assertUserInRealm (realm_id r) userId s then (Inl NotFoundException, s)
      else
        let realmAttributes = findAllAttributes r s in
        if list_ex (\<lambda>name. name \<notin> set (map ca_name realmAttributes)) (map fst attributes) then (Inl BadRequestException, s)
        else case first_error (value_error j attributes) realmAttributes of
          Some err \<Rightarrow> (Inl err, s)
        | None \<Rightarrow>
            let s1 = s\<lparr> userAttributes := write_values realmAttributes userId attributes (userAttributes s) \<rparr>
            in (getUserAttributes r userId s1, s1))"

subsection \<open>Registration\<close>

definition getRegistrationAttributes :: "ident \<Rightarrow> db \<Rightarrow> custom_attribute_row list" where
  "getRegistrationAttributes rid s =
     order_asc ca_sortOrder (order_asc ca_createdAt
       (filter (\<lambda>a. ca_realmId a = rid \<and> ca_showOnRegistration a) (customAttributes s)))"

definition form_value :: "(string \<rightharpoonup> string) \<Rightarrow> custom_attribute_row \<Rightarrow> string" where
  "form_value body a = js_trim (nullish_else (body (''attr_'' @ ca_name a)) [])"

definition form_value_ok :: "js_engine \<Rightarrow> (string \<rightharpoonup> string) \<Rightarrow> custom_attribute_row \<Rightarrow> bool" where
  "form_value_ok j body a \<longleftrightarrow> (if form_value body a = [] then \<not> ca_required a else validateAttributeValue j a (form_value body a))"

definition validateAndSaveRegistrationAttributes ::
  "js_engine \<Rightarrow> realm_row \<Rightarrow> ident \<Rightarrow> (string \<rightharpoonup> string) \<Rightarrow> db \<Rightarrow> unit result \<times> db" where
  "validateAndSaveRegistrationAttributes j r userId body s =
     (let attributes = getRegistrationAttributes (realm_id r) s;
          rows = map (\<lambda>a. \<lparr> ua_userId = userId, ua_attributeId = ca_id a, ua_value = form_value body a \<rparr>)
                   (filter (\<lambda>a. form_value body a \<noteq> []) attributes) in
      if list_ex (\<lambda>a. \<not> form_value_ok j body a) attributes then (Inl BadRequestException, s)
      else if list_ex (\<lambda>v. list_ex (\<lambda>w. ua_userId w = ua_userId v \<and> ua_attributeId w = ua_attributeId v) (userAttributes s)) rows
      then (Inl PrismaUnique, s)
      else (Inr (), s\<lparr> userAttributes := userAttributes s @ rows \<rparr>))"

subsection \<open>Typed values\<close>

text \<open>What it means for a text to be a value of an attribute.\<close>

definition has_type :: "js_engine \<Rightarrow> custom_attribute_row \<Rightarrow> string \<Rightarrow> bool" where
  "has_type j a v \<longleftrightarrow>
     (ca_type a = ''number'' \<longrightarrow> number_of_string j v \<noteq> NaN) \<and>
     (ca_type a = ''boolean'' \<longrightarrow> to_lower v \<in> {''true'', ''false'', ''1'', ''0'', ''yes'', ''no''}) \<and>
     (ca_type a = ''select'' \<longrightarrow> v \<in> set (nullish_else (ca_options a) [])) \<and>
     (ca_type a = ''multi-select'' \<longrightarrow> js_trim ` set (split_on (CHR '','') v) \<subseteq> set (nullish_else (ca_options a) [])) \<and>
     (ca_type a \<notin> {''number'', ''boolean'', ''select'', ''multi-select''} \<longrightarrow> CHR ''<'' \<notin> set v \<and> CHR ''>'' \<notin> set v)"

definition has_options :: "custom_attribute_row \<Rightarrow> bool" where
  "has_options a \<longleftrightarrow> (choice_type (ca_type a) \<longrightarrow> ca_options a \<noteq> None \<and> ca_options a \<noteq> Some [])"

definition value_key :: "user_attribute_row \<Rightarrow> ident \<times> ident" where
  "value_key v = (ua_userId v, ua_attributeId v)"

text \<open>
  The invariant: the keys of the schema are unique, every value belongs to a definition, definitions of choices have
  options, and every value has its type.
\<close>

definition attribute_keys_ok :: "db \<Rightarrow> bool" where
  "attribute_keys_ok s \<longleftrightarrow> distinct (map ca_id (customAttributes s)) \<and>
     distinct (map (\<lambda>a. (ca_realmId a, ca_name a)) (customAttributes s)) \<and> distinct (map value_key (userAttributes s))"

definition values_typed :: "js_engine \<Rightarrow> db \<Rightarrow> bool" where
  "values_typed j s \<longleftrightarrow> (\<forall>a \<in> set (customAttributes s). has_options a) \<and>
     (\<forall>v \<in> set (userAttributes s). \<exists>a \<in> set (customAttributes s). ca_id a = ua_attributeId v \<and> has_type j a (ua_value v))"

definition attributes_ok :: "js_engine \<Rightarrow> db \<Rightarrow> bool" where
  "attributes_ok j s \<longleftrightarrow> attribute_keys_ok s \<and> values_typed j s"

lemma validate_has_type: "has_options a \<Longrightarrow> validateAttributeValue j a v \<longleftrightarrow> has_type j a v"
  by (auto simp: validateAttributeValue_def has_type_def has_options_def choice_type_def list_all_iff list_ex_iff
      split: option.splits)

lemma first_error_None: "first_error f xs = None \<longleftrightarrow> (\<forall>x \<in> set xs. f x = None)"
  by (induction xs) (auto split: option.splits)

lemma set_findAllAttributes: "set (findAllAttributes r s) = {a \<in> set (customAttributes s). ca_realmId a = realm_id r}"
  by (auto simp: findAllAttributes_def)

lemma set_getRegistrationAttributes:
  "set (getRegistrationAttributes rid s) = {a \<in> set (customAttributes s). ca_realmId a = rid \<and> ca_showOnRegistration a}"
  by (auto simp: getRegistrationAttributes_def)

subsection \<open>Writing one value\<close>

lemma set_upsert_value:
  "set (upsert_value u i x vs) =
     insert \<lparr> ua_userId = u, ua_attributeId = i, ua_value = x \<rparr> {v \<in> set vs. value_key v \<noteq> (u, i)}"
proof (cases "list_ex (\<lambda>v. ua_userId v = u \<and> ua_attributeId v = i) vs")
  case True
  then obtain w where "w \<in> set vs" "value_key w = (u, i)" by (auto simp: list_ex_iff value_key_def)
  moreover have "v\<lparr> ua_value := x \<rparr> = \<lparr> ua_userId = u, ua_attributeId = i, ua_value = x \<rparr>" if "value_key v = (u, i)" for v
    using that by (cases v) (simp add: value_key_def)
  ultimately show ?thesis using True
    by (auto simp: upsert_value_def set_tbl_update value_key_def image_iff intro!: bexI [of _ w])
next
  case False
  then have "{v \<in> set vs. value_key v \<noteq> (u, i)} = set vs" by (auto simp: list_ex_iff value_key_def)
  with False show ?thesis by (simp add: upsert_value_def)
qed

lemma distinct_upsert_value: "distinct (map value_key vs) \<Longrightarrow> distinct (map value_key (upsert_value u i x vs))"
proof (cases "list_ex (\<lambda>v. ua_userId v = u \<and> ua_attributeId v = i) vs")
  case True
  assume "distinct (map value_key vs)"
  moreover have "map value_key (upsert_value u i x vs) = map value_key vs"
    using True by (auto simp: upsert_value_def value_key_def intro!: map_tbl_update)
  ultimately show ?thesis by simp
next
  case False
  assume "distinct (map value_key vs)"
  with False show ?thesis by (auto simp: upsert_value_def value_key_def list_ex_iff image_iff)
qed

definition stored_value :: "ident \<Rightarrow> ident \<Rightarrow> user_attribute_row list \<Rightarrow> string option" where
  "stored_value u i vs = map_option ua_value (List.find (\<lambda>v. value_key v = (u, i)) vs)"

lemma stored_value_upsert:
  "stored_value u' i' (upsert_value u i x vs) = (if (u', i') = (u, i) then Some x else stored_value u' i' vs)"
proof (cases "list_ex (\<lambda>v. ua_userId v = u \<and> ua_attributeId v = i) vs")
  case True
  have "List.find (\<lambda>v. value_key v = (u', i')) (upsert_value u i x vs) =
      map_option (\<lambda>v. if value_key v = (u, i) then v\<lparr> ua_value := x \<rparr> else v) (List.find (\<lambda>v. value_key v = (u', i')) vs)"
    using True find_tbl_update_key [of value_key "\<lambda>v. v\<lparr> ua_value := x \<rparr>" "(u', i')" "\<lambda>v. ua_userId v = u \<and> ua_attributeId v = i" vs]
    by (simp add: upsert_value_def value_key_def)
  moreover obtain w where "List.find (\<lambda>v. value_key v = (u, i)) vs = Some w"
    using True by (cases "List.find (\<lambda>v. value_key v = (u, i)) vs") (auto simp: find_None_iff list_ex_iff value_key_def)
  ultimately show ?thesis
    by (cases "List.find (\<lambda>v. value_key v = (u', i')) vs") (auto simp: stored_value_def dest: find_SomeD)
next
  case False
  then have "List.find (\<lambda>v. value_key v = (u, i)) vs = None" by (auto simp: find_None_iff list_ex_iff value_key_def)
  with False show ?thesis
    by (cases "List.find (\<lambda>v. value_key v = (u', i')) vs")
      (auto simp: stored_value_def upsert_value_def find_append_None find_append_Some value_key_def)
qed

lemma write_values_distinct: "distinct (map value_key vs) \<Longrightarrow> distinct (map value_key (write_values as u kvs vs))"
  by (induction kvs arbitrary: vs) (auto simp: write_values_def distinct_upsert_value split: option.splits)

lemma write_values_rows:
  "v \<in> set (write_values as u kvs vs) \<Longrightarrow>
     v \<in> set vs \<or> (\<exists>a \<in> set as. ua_attributeId v = ca_id a \<and> (ca_name a, ua_value v) \<in> set kvs)"
proof (induction kvs arbitrary: vs)
  case (Cons kv kvs)
  obtain k x where kv: "kv = (k, x)" by fastforce
  show ?case
  proof (cases "List.find (\<lambda>a. ca_name a = k) as")
    case None
    with Cons kv show ?thesis by (auto simp: write_values_def)
  next
    case (Some a)
    with Cons.prems kv have "v \<in> set (write_values as u kvs (upsert_value u (ca_id a) x vs))" by (simp add: write_values_def)
    from Cons.IH [OF this] find_SomeD [OF Some] kv show ?thesis by (auto simp: set_upsert_value)
  qed
qed (simp add: write_values_def)

lemma write_values_lookup:
  assumes "distinct (map fst kvs)" "distinct (map ca_id as)" "distinct (map ca_name as)" "a \<in> set as"
  shows "stored_value u (ca_id a) (write_values as u kvs vs) =
    (case map_of kvs (ca_name a) of Some x \<Rightarrow> Some x | None \<Rightarrow> stored_value u (ca_id a) vs)"
  using assms(1)
proof (induction kvs arbitrary: vs)
  case (Cons kv kvs)
  obtain k x where kv: "kv = (k, x)" by fastforce
  with Cons.prems have k: "map_of kvs k = None" "distinct (map fst kvs)" by (auto simp: map_of_eq_None_iff)
  show ?case
  proof (cases "List.find (\<lambda>a. ca_name a = k) as")
    case None
    with assms(4) have "ca_name a \<noteq> k" by (auto simp: find_None_iff)
    with None Cons.IH [OF k(2)] kv show ?thesis by (simp add: write_values_def)
  next
    case (Some b)
    note b = find_SomeD [OF Some]
    have "ca_id a = ca_id b \<longleftrightarrow> ca_name a = k"
      using b assms(2,3,4) by (auto dest: distinct_id_eq [of ca_id] distinct_id_eq [of ca_name])
    moreover have "write_values as u (kv # kvs) vs = write_values as u kvs (upsert_value u (ca_id b) x vs)"
      using Some kv by (simp add: write_values_def)
    ultimately show ?thesis using Cons.IH [OF k(2), of "upsert_value u (ca_id b) x vs"] kv k(1)
      by (auto simp: stored_value_upsert split: option.splits)
  qed
qed (simp add: write_values_def)

lemma write_values_other:
  assumes "u' \<noteq> u \<or> i \<notin> ca_id ` set as"
  shows "stored_value u' i (write_values as u kvs vs) = stored_value u' i vs"
proof (induction kvs arbitrary: vs)
  case (Cons kv kvs)
  obtain k x where kv: "kv = (k, x)" by fastforce
  show ?case
  proof (cases "List.find (\<lambda>a. ca_name a = k) as")
    case (Some b)
    then have "(u', i) \<noteq> (u, ca_id b)" using assms find_SomeD [OF Some] by auto
    then have "stored_value u' i (upsert_value u (ca_id b) x vs) = stored_value u' i vs" by (auto simp: stored_value_upsert)
    with Some kv Cons [of "upsert_value u (ca_id b) x vs"] show ?thesis by (simp add: write_values_def)
  qed (use kv Cons [of vs] in \<open>simp add: write_values_def\<close>)
qed (simp add: write_values_def)

subsection \<open>Runs of the service\<close>

text \<open>
  The operations of the service that change state.  The new definition's identifier is not in use, the values of a
  request are a JSON object, and a definition is not narrowed: an update keeps the type and drops no option.
\<close>

datatype attribute_op =
    CreateAttribute env ident realm_row attribute_dto
  | UpdateAttribute realm_row ident attribute_dto
  | RemoveAttribute realm_row ident
  | SetUserAttributes realm_row ident "(string \<times> string) list"
  | RegisterAttributes realm_row ident "string \<rightharpoonup> string"

fun attribute_step :: "js_engine \<Rightarrow> attribute_op \<Rightarrow> db \<Rightarrow> db" where
  "attribute_step j (CreateAttribute e i r dto) s = snd (createAttribute e i r dto s)"
| "attribute_step j (UpdateAttribute r i dto) s = snd (updateAttribute r i dto s)"
| "attribute_step j (RemoveAttribute r i) s = snd (removeAttribute r i s)"
| "attribute_step j (SetUserAttributes r uid kvs) s = snd (setUserAttributes j r uid kvs s)"
| "attribute_step j (RegisterAttributes r uid body) s = snd (validateAndSaveRegistrationAttributes j r uid body s)"

definition not_narrowed :: "attribute_dto \<Rightarrow> custom_attribute_row \<Rightarrow> bool" where
  "not_narrowed dto a \<longleftrightarrow> nullish_else (ad_type dto) (ca_type a) = ca_type a \<and>
     (ad_options dto = None \<or> set (nullish_else (ca_options a) []) \<subseteq> set (nullish_else (ad_options dto) []))"

fun attribute_op_ok :: "attribute_op \<Rightarrow> db \<Rightarrow> bool" where
  "attribute_op_ok (CreateAttribute e i r dto) s = (i \<notin> ca_id ` set (customAttributes s))"
| "attribute_op_ok (UpdateAttribute r i dto) s = (\<forall>a \<in> set (customAttributes s). ca_id a = i \<longrightarrow> not_narrowed dto a)"
| "attribute_op_ok (SetUserAttributes r uid kvs) s = distinct (map fst kvs)"
| "attribute_op_ok _ s = True"

inductive attribute_run :: "js_engine \<Rightarrow> db \<Rightarrow> db \<Rightarrow> bool" for j :: js_engine where
  run_start: "attribute_run j s s"
| run_step: "attribute_run j s s1 \<Longrightarrow> attribute_op_ok p s1 \<Longrightarrow> attribute_run j s (attribute_step j p s1)"

lemma create_ok:
  assumes "attributes_ok j s" "i \<notin> ca_id ` set (customAttributes s)"
  shows "attributes_ok j (snd (createAttribute e i r dto s))"
proof (cases "validateOptionsForType (ca_type (new_attribute e i r dto)) (ca_options (new_attribute e i r dto)) \<and>
    \<not> list_ex (\<lambda>b. ca_realmId b = ca_realmId (new_attribute e i r dto) \<and> ca_name b = ca_name (new_attribute e i r dto))
        (customAttributes s)")
  case True
  let ?a = "new_attribute e i r dto"
  from True have c: "validateOptionsForType (ca_type ?a) (ca_options ?a)"
    "\<not> list_ex (\<lambda>b. ca_realmId b = ca_realmId ?a \<and> ca_name b = ca_name ?a) (customAttributes s)" by simp_all
  then have "snd (createAttribute e i r dto s) = s\<lparr> customAttributes := customAttributes s @ [?a] \<rparr>"
    by (simp add: createAttribute_def new_attribute_def Let_def)
  moreover have "ca_id ?a = i" by (simp add: new_attribute_def)
  moreover have "has_options ?a" using c(1) by (simp add: has_options_def validateOptionsForType_def)
  moreover have "(ca_realmId ?a, ca_name ?a) \<notin> (\<lambda>a. (ca_realmId a, ca_name a)) ` set (customAttributes s)"
    using c(2) by (auto simp: list_ex_iff)
  ultimately have a: "snd (createAttribute e i r dto s) = s\<lparr> customAttributes := customAttributes s @ [?a] \<rparr>"
    "ca_id ?a = i" "has_options ?a" "(ca_realmId ?a, ca_name ?a) \<notin> (\<lambda>a. (ca_realmId a, ca_name a)) ` set (customAttributes s)"
    by blast+
  have "attribute_keys_ok (s\<lparr> customAttributes := customAttributes s @ [?a] \<rparr>)"
    using assms a(2,4) by (simp add: attributes_ok_def attribute_keys_ok_def)
  moreover have "values_typed j (s\<lparr> customAttributes := customAttributes s @ [?a] \<rparr>)"
    using assms(1) a(3) by (auto simp: attributes_ok_def values_typed_def)
  ultimately show ?thesis unfolding a(1) attributes_ok_def ..
next
  case False
  then have "snd (createAttribute e i r dto s) = s"
    by (cases "validateOptionsForType (ca_type (new_attribute e i r dto)) (ca_options (new_attribute e i r dto))")
      (simp_all add: createAttribute_def new_attribute_def Let_def)
  with assms show ?thesis by simp
qed

lemma widened_has_type: "not_narrowed dto a \<Longrightarrow> has_type j a v \<Longrightarrow> has_type j (updated_attribute dto a) v"
  by (auto simp: not_narrowed_def updated_attribute_def has_type_def split: if_splits)

lemma update_ok:
  assumes ok: "attributes_ok j s" and w: "\<forall>a \<in> set (customAttributes s). ca_id a = i \<longrightarrow> not_narrowed dto a"
  shows "attributes_ok j (snd (updateAttribute r i dto s))"
proof -
  consider "snd (updateAttribute r i dto s) = s"
    | a where "a \<in> set (customAttributes s)" "ca_id a = i"
      "(\<not> falsy (ad_type dto) \<or> ad_options dto \<noteq> None) \<longrightarrow>
        validateOptionsForType (nullish_else (ad_type dto) (ca_type a)) (ad_options dto)"
      "snd (updateAttribute r i dto s) =
        s\<lparr> customAttributes := tbl_update (\<lambda>a. ca_id a = i) (updated_attribute dto) (customAttributes s) \<rparr>"
  proof (cases "List.find (\<lambda>a. ca_id a = i \<and> ca_realmId a = realm_id r) (customAttributes s)")
    case (Some a)
    let ?bad = "(\<not> falsy (ad_type dto) \<or> ad_options dto \<noteq> None) \<and>
      \<not> validateOptionsForType (nullish_else (ad_type dto) (ca_type a)) (ad_options dto)"
    have u: "updateAttribute r i dto s = (if ?bad then (Inl BadRequestException, s) else (Inr (updated_attribute dto a),
        s\<lparr> customAttributes := tbl_update (\<lambda>a. ca_id a = i) (updated_attribute dto) (customAttributes s) \<rparr>))"
      by (simp add: updateAttribute_def findAttributeById_def Some)
    show thesis
    proof (cases ?bad)
      case True
      then show thesis by (intro that(1)) (simp add: u)
    next
      case False
      then have "snd (updateAttribute r i dto s) =
          s\<lparr> customAttributes := tbl_update (\<lambda>a. ca_id a = i) (updated_attribute dto) (customAttributes s) \<rparr>"
        unfolding u by (simp only: if_False snd_conv)
      then show thesis using that(2) [of a] False find_SomeD [OF Some] by blast
    qed
  next
    case None
    then show thesis by (intro that(1)) (simp add: updateAttribute_def findAttributeById_def)
  qed
  then show ?thesis
  proof cases
    case 1
    with ok show ?thesis by simp
  next
    case (2 a)
    note a = 2(1,2) and v = 2(3) and s' = 2(4)
    have same: "ca_id (updated_attribute dto b) = ca_id b" "ca_realmId (updated_attribute dto b) = ca_realmId b"
      "ca_name (updated_attribute dto b) = ca_name b" for b by (simp_all add: updated_attribute_def)
    have uniq: "b = a" if "b \<in> set (customAttributes s)" "ca_id b = i" for b
      using ok that a by (auto simp: attributes_ok_def attribute_keys_ok_def dest: distinct_id_eq [of ca_id])
    have opts: "has_options (updated_attribute dto a)"
      using w a v ok
      by (auto simp: has_options_def updated_attribute_def validateOptionsForType_def not_narrowed_def attributes_ok_def
          values_typed_def split: if_splits)
    show ?thesis
      unfolding attributes_ok_def attribute_keys_ok_def values_typed_def s'
    proof (intro conjI ballI)
      fix b assume "b \<in> set (customAttributes (s\<lparr> customAttributes := tbl_update (\<lambda>a. ca_id a = i) (updated_attribute dto) (customAttributes s) \<rparr>))"
      then show "has_options b" using ok opts uniq
        by (auto simp: set_tbl_update attributes_ok_def values_typed_def split: if_splits)
    next
      fix x assume "x \<in> set (userAttributes (s\<lparr> customAttributes := tbl_update (\<lambda>a. ca_id a = i) (updated_attribute dto) (customAttributes s) \<rparr>))"
      then obtain b where b: "b \<in> set (customAttributes s)" "ca_id b = ua_attributeId x" "has_type j b (ua_value x)"
        using ok by (auto simp: attributes_ok_def values_typed_def)
      let ?b = "if ca_id b = i then updated_attribute dto b else b"
      have "?b \<in> set (tbl_update (\<lambda>a. ca_id a = i) (updated_attribute dto) (customAttributes s))"
        using b(1) unfolding set_tbl_update by (rule imageI)
      moreover have "ca_id ?b = ua_attributeId x" "has_type j ?b (ua_value x)"
        using b w widened_has_type by (simp_all add: same)
      ultimately show "\<exists>a \<in> set (customAttributes (s\<lparr> customAttributes := tbl_update (\<lambda>a. ca_id a = i) (updated_attribute dto) (customAttributes s) \<rparr>)).
          ca_id a = ua_attributeId x \<and> has_type j a (ua_value x)" by auto
    qed (use ok in \<open>simp_all add: attributes_ok_def attribute_keys_ok_def map_tbl_update same\<close>)
  qed
qed

lemma remove_ok: "attributes_ok j s \<Longrightarrow> attributes_ok j (snd (removeAttribute r i s))"
  by (auto simp: removeAttribute_def attributes_ok_def attribute_keys_ok_def values_typed_def distinct_map_tbl_delete
      split: sum.splits) metis

lemma setUserAttributes_cases:
  obtains "snd (setUserAttributes j r uid kvs s) = s" "\<not> is_ok (fst (setUserAttributes j r uid kvs s))"
  | "snd (setUserAttributes j r uid kvs s) =
      s\<lparr> userAttributes := write_values (findAllAttributes r s) uid kvs (userAttributes s) \<rparr>"
    "first_error (value_error j kvs) (findAllAttributes r s) = None" "assertUserInRealm (realm_id r) uid s"
    "fst (setUserAttributes j r uid kvs s) = getUserAttributes r uid (snd (setUserAttributes j r uid kvs s))"
proof (cases "assertUserInRealm (realm_id r) uid s \<and>
    \<not> list_ex (\<lambda>name. name \<notin> set (map ca_name (findAllAttributes r s))) (map fst kvs)")
  case True
  show thesis
  proof (cases "first_error (value_error j kvs) (findAllAttributes r s)")
    case None
    with True show thesis by (intro that(2)) (simp_all add: setUserAttributes_def Let_def)
  next
    case (Some err)
    with True show thesis by (intro that(1)) (simp_all add: setUserAttributes_def Let_def)
  qed
next
  case False
  with that(1) show thesis by (simp add: setUserAttributes_def Let_def split: if_splits)
qed

lemma set_ok:
  assumes ok: "attributes_ok j s" and kvs: "distinct (map fst kvs)"
  shows "attributes_ok j (snd (setUserAttributes j r uid kvs s))"
proof (cases rule: setUserAttributes_cases [where j = j and r = r and uid = uid and kvs = kvs and s = s])
  case 2
  note s' = 2(1) and no = 2(2)
  have typed: "has_type j a x" if "a \<in> set (findAllAttributes r s)" "(ca_name a, x) \<in> set kvs" for a x
  proof -
    have "map_of kvs (ca_name a) = Some x" using kvs that(2) by simp
    with no that(1) have "validateAttributeValue j a x" by (auto simp: first_error_None value_error_def split: if_splits)
    with ok that(1) show ?thesis
      by (simp add: validate_has_type set_findAllAttributes attributes_ok_def values_typed_def)
  qed
  have "\<exists>a \<in> set (customAttributes s). ca_id a = ua_attributeId v \<and> has_type j a (ua_value v)"
    if "v \<in> set (write_values (findAllAttributes r s) uid kvs (userAttributes s))" for v
    using write_values_rows [OF that] typed ok
    by (auto simp: set_findAllAttributes attributes_ok_def values_typed_def)
  with ok s' show ?thesis
    by (simp add: attributes_ok_def attribute_keys_ok_def values_typed_def write_values_distinct)
qed (use ok in simp)

lemma register_ok:
  assumes ok: "attributes_ok j s"
  shows "attributes_ok j (snd (validateAndSaveRegistrationAttributes j r uid body s))"
proof -
  let ?as = "getRegistrationAttributes (realm_id r) s"
  let ?rows = "map (\<lambda>a. \<lparr> ua_userId = uid, ua_attributeId = ca_id a, ua_value = form_value body a \<rparr>)
    (filter (\<lambda>a. form_value body a \<noteq> []) ?as)"
  show ?thesis
  proof (cases "list_ex (\<lambda>a. \<not> form_value_ok j body a) ?as \<or>
      list_ex (\<lambda>v. list_ex (\<lambda>w. ua_userId w = ua_userId v \<and> ua_attributeId w = ua_attributeId v) (userAttributes s)) ?rows")
    case True
    then have "snd (validateAndSaveRegistrationAttributes j r uid body s) = s"
      by (auto simp: validateAndSaveRegistrationAttributes_def Let_def)
    with ok show ?thesis by simp
  next
    case False
    then have s': "snd (validateAndSaveRegistrationAttributes j r uid body s) = s\<lparr> userAttributes := userAttributes s @ ?rows \<rparr>"
      by (simp add: validateAndSaveRegistrationAttributes_def Let_def)
    have typed: "has_type j a (form_value body a)" if "a \<in> set ?as" "form_value body a \<noteq> []" for a
    proof -
      have "validateAttributeValue j a (form_value body a)" using False that by (auto simp: list_ex_iff form_value_ok_def)
      with ok that(1) show ?thesis
        by (simp add: validate_has_type set_getRegistrationAttributes attributes_ok_def values_typed_def)
    qed
    have ids: "distinct (map ca_id ?as)"
    proof -
      have "distinct (map ca_id (customAttributes s))" using ok by (simp add: attributes_ok_def attribute_keys_ok_def)
      then show ?thesis by (simp add: getRegistrationAttributes_def order_asc_def distinct_map inj_on_def)
    qed
    have keys: "map value_key ?rows = map (Pair uid) (map ca_id (filter (\<lambda>a. form_value body a \<noteq> []) ?as))"
      by (simp add: value_key_def)
    have "distinct (map value_key ?rows)"
      unfolding keys using distinct_map_filter [OF ids] by (simp add: distinct_map inj_on_def)
    moreover have "value_key ` set (userAttributes s) \<inter> value_key ` set ?rows = {}"
      using False by (auto simp: list_ex_iff value_key_def)
    ultimately have "attribute_keys_ok (s\<lparr> userAttributes := userAttributes s @ ?rows \<rparr>)"
      using ok unfolding attribute_keys_ok_def attributes_ok_def by (simp add: image_image)
    moreover have "values_typed j (s\<lparr> userAttributes := userAttributes s @ ?rows \<rparr>)"
      using ok typed unfolding values_typed_def attributes_ok_def by (auto simp: set_getRegistrationAttributes)
    ultimately show ?thesis unfolding s' attributes_ok_def ..
  qed
qed

lemma attribute_step_ok: "attributes_ok j s \<Longrightarrow> attribute_op_ok p s \<Longrightarrow> attributes_ok j (attribute_step j p s)"
  by (cases p) (simp_all add: create_ok update_ok remove_ok set_ok register_ok)

lemma attributes_ok_empty: "customAttributes s = [] \<Longrightarrow> userAttributes s = [] \<Longrightarrow> attributes_ok j s"
  by (simp add: attributes_ok_def attribute_keys_ok_def values_typed_def)


subsection \<open>Setting and reading back\<close>

text \<open>
  When setting values succeeds, each attribute of the realm named in the request has the given value, every other stored
  value is what it was, and the answer lists the user's values as they are now.
\<close>

theorem set_attributes_roundtrip:
  assumes "attribute_keys_ok s" "distinct (map fst kvs)" "is_ok (fst (setUserAttributes j r uid kvs s))"
    and "s' = snd (setUserAttributes j r uid kvs s)"
  shows "(\<forall>a \<in> set (customAttributes s). ca_realmId a = realm_id r \<longrightarrow>
            stored_value uid (ca_id a) (userAttributes s') =
              (case map_of kvs (ca_name a) of Some x \<Rightarrow> Some x | None \<Rightarrow> stored_value uid (ca_id a) (userAttributes s)))
    \<and> (\<forall>u i. u \<noteq> uid \<or> (\<forall>a \<in> set (customAttributes s). ca_id a = i \<longrightarrow> ca_realmId a \<noteq> realm_id r) \<longrightarrow>
            stored_value u i (userAttributes s') = stored_value u i (userAttributes s))
    \<and> fst (setUserAttributes j r uid kvs s) = getUserAttributes r uid s'
    \<and> fst ` set kvs \<subseteq> ca_name ` {a \<in> set (customAttributes s). ca_realmId a = realm_id r}"
proof (cases rule: setUserAttributes_cases [where j = j and r = r and uid = uid and kvs = kvs and s = s])
  case 2
  let ?as = "findAllAttributes r s"
  have s': "userAttributes s' = write_values ?as uid kvs (userAttributes s)" using 2(1) assms(4) by simp
  have "distinct (map ca_id ?as)" "distinct (map (\<lambda>a. (ca_realmId a, ca_name a)) ?as)"
    using assms(1) by (simp_all add: findAllAttributes_def order_asc_def attribute_keys_ok_def distinct_map inj_on_def)
  moreover from this(2) have "distinct (map ca_name ?as)"
    by (auto simp: distinct_map inj_on_def set_findAllAttributes)
  ultimately have one: "stored_value uid (ca_id a) (userAttributes s') =
      (case map_of kvs (ca_name a) of Some x \<Rightarrow> Some x | None \<Rightarrow> stored_value uid (ca_id a) (userAttributes s))"
    if "a \<in> set (customAttributes s)" "ca_realmId a = realm_id r" for a
    using that unfolding s' by (intro write_values_lookup assms(2)) (simp_all add: set_findAllAttributes)
  have two: "stored_value u i (userAttributes s') = stored_value u i (userAttributes s)"
    if "u \<noteq> uid \<or> (\<forall>a \<in> set (customAttributes s). ca_id a = i \<longrightarrow> ca_realmId a \<noteq> realm_id r)" for u i
    using that unfolding s' by (intro write_values_other) (auto simp: set_findAllAttributes)
  have "\<not> list_ex (\<lambda>name. name \<notin> set (map ca_name ?as)) (map fst kvs)"
    using assms(3) 2(3) by (auto simp: setUserAttributes_def Let_def)
  then have "fst ` set kvs \<subseteq> ca_name ` {a \<in> set (customAttributes s). ca_realmId a = realm_id r}"
    unfolding set_findAllAttributes [symmetric] list_ex_iff by auto
  with one two 2(4) assms(4) show ?thesis by blast
qed (use assms(3) in simp)

subsection \<open>Examples\<close>

definition sample_dto :: attribute_dto where
  "sample_dto = \<lparr> ad_name = Some ''size'', ad_displayName = Some ''Size'', ad_type = Some ''select'', ad_required = None,
     ad_showOnRegistration = Some True, ad_showOnProfile = None, ad_options = Some [''S'', ''L''], ad_mapToOidcClaim = None,
     ad_sortOrder = None \<rparr>"

definition attribute_db :: db where
  "attribute_db = snd (setUserAttributes sample_engine sample_realm ''u1'' [(''size'', ''L'')]
     (snd (createAttribute sample_env ''a1'' sample_realm sample_dto sample_db)))"


theorem set_attributes_roundtrip_witness:
  "is_ok (fst (setUserAttributes sample_engine sample_realm ''u1'' [(''size'', ''S'')] attribute_db)) \<and>
   stored_value ''u2'' ''a1'' (userAttributes (snd (setUserAttributes sample_engine sample_realm ''u1'' [(''size'', ''S'')] attribute_db)))
     = stored_value ''u2'' ''a1'' (userAttributes attribute_db) \<and>
   stored_value ''u1'' ''a1'' (userAttributes (snd (setUserAttributes sample_engine sample_realm ''u1'' [(''size'', ''S'')] attribute_db)))
     = Some ''S''"
proof (intro conjI)
  show ok: "is_ok (fst (setUserAttributes sample_engine sample_realm ''u1'' [(''size'', ''S'')] attribute_db))" by code_simp
  have keys: "attribute_keys_ok attribute_db" "distinct (map fst [(''size'', ''S'')])" by code_simp+
  note rt = set_attributes_roundtrip [OF keys ok refl]
  from rt [THEN conjunct2, THEN conjunct1] show "stored_value ''u2'' ''a1'' (userAttributes (snd (setUserAttributes sample_engine
      sample_realm ''u1'' [(''size'', ''S'')] attribute_db))) = stored_value ''u2'' ''a1'' (userAttributes attribute_db)" by auto
  have a: "new_attribute sample_env ''a1'' sample_realm sample_dto \<in> set (customAttributes attribute_db)" by code_simp
  from rt [THEN conjunct1, rule_format, OF a] show "stored_value ''u1'' ''a1'' (userAttributes (snd (setUserAttributes sample_engine
      sample_realm ''u1'' [(''size'', ''S'')] attribute_db))) = Some ''S''"
    by (simp add: new_attribute_def sample_dto_def)
qed

text \<open>
  A definition can be narrowed under its values: after the type is changed to a number, the stored text is not one.  And an
  attribute may be called \<open>constructor\<close>: then the check of every request finds the inherited function and no value of any attribute can
  be set.
\<close>

lemma narrowing_leaves_values:
  "\<not> has_type sample_engine (hd (customAttributes (snd (updateAttribute sample_realm ''a1''
        (sample_dto\<lparr> ad_type := Some ''number'' \<rparr>) attribute_db)))) (ua_value (hd (userAttributes attribute_db)))
   \<and> is_ok (fst (updateAttribute sample_realm ''a1'' (sample_dto\<lparr> ad_type := Some ''number'' \<rparr>) attribute_db))"
  by code_simp

lemma inherited_name_blocks_updates:
  "fst (setUserAttributes sample_engine sample_realm ''u1'' [(''size'', ''S'')]
     (snd (createAttribute sample_env ''a2'' sample_realm
        (sample_dto\<lparr> ad_name := Some ''constructor'', ad_type := Some ''boolean'' \<rparr>) attribute_db))) = Inl TypeError"
  by code_simp

end
