(* ===== verification/Registration.thy ===== *)
theory Registration
  imports Users Custom_Attributes
begin

text \<open>
  Self-service accounts: \<open>src/src/registration\<close> (the registration API with its CAPTCHA check, the approval of
  registrations and the registration fields) and the pages of \<open>src/src/login/login.controller.ts\<close> that register an account, verify
  an address and reset a forgotten password.  The password rules, one-time tokens, mail and the account table are those of the theories
  it imports.

  Webhook events are queued in a table of their own that nothing here reads; queueing never fails and is left out.
\<close>

subsection \<open>CAPTCHA\<close>

text \<open>
  The two verification services are reached over the network: \<open>cap_fetch\<close> is their answer to a token, and \<^const>\<open>None\<close> when the request
  or the parsing of the answer throws.
\<close>

record captcha_answer =
  ca_success :: bool
  ca_score :: "rat option"
  ca_action :: "string option"

record captcha_platform =
  cap_recaptchaSecret :: "string option"
  cap_hcaptchaSecret :: "string option"
  cap_threshold :: rat
  cap_fetch :: "string \<Rightarrow> string \<Rightarrow> string \<Rightarrow> captcha_answer option"

definition verifyRecaptcha :: "captcha_platform \<Rightarrow> string \<Rightarrow> string option \<Rightarrow> bool" where
  "verifyRecaptcha c token expectedAction =
     (if falsy (cap_recaptchaSecret c) then True
      else case cap_fetch c ''https://www.google.com/recaptcha/api/siteverify'' (the (cap_recaptchaSecret c)) token of
        None \<Rightarrow> False
      | Some data \<Rightarrow>
          if \<not> ca_success data then False
          else if \<not> falsy expectedAction \<and> ca_action data \<noteq> expectedAction then False
          else case ca_score data of None \<Rightarrow> True | Some score \<Rightarrow> \<not> score < cap_threshold c)"

definition verifyHcaptcha :: "captcha_platform \<Rightarrow> string \<Rightarrow> bool" where
  "verifyHcaptcha c token =
     (if falsy (cap_hcaptchaSecret c) then True
      else case cap_fetch c ''https://hcaptcha.com/siteverify'' (the (cap_hcaptchaSecret c)) token of
        None \<Rightarrow> False
      | Some data \<Rightarrow> ca_success data)"

definition captcha_verify :: "captcha_platform \<Rightarrow> string \<Rightarrow> string \<Rightarrow> string option \<Rightarrow> bool" where
  "captcha_verify c token provider expectedAction =
     (if provider = ''recaptcha'' then verifyRecaptcha c token expectedAction
      else if provider = ''hcaptcha'' then verifyHcaptcha c token
      else True)"

subsection \<open>The registration API\<close>

record register_dto =
  rg_username :: string
  rg_email :: string
  rg_password :: string
  rg_firstName :: "string option"
  rg_lastName :: "string option"
  rg_captchaToken :: "string option"
  rg_acceptTerms :: "bool option"
  rg_attributes :: "(string \<times> string) list option"

record register_result =
  rr_userId :: ident
  rr_requiresApproval :: bool
  rr_emailSent :: bool

definition email_domain :: "string \<Rightarrow> string option" where
  "email_domain email = (case split_on (CHR ''@'') email of _ # d # _ \<Rightarrow> Some (to_lower d) | _ \<Rightarrow> None)"

definition domain_allowed :: "realm_row \<Rightarrow> string \<Rightarrow> bool" where
  "domain_allowed r email \<longleftrightarrow> realm_allowedEmailDomains r = [] \<or>
     (\<not> falsy (email_domain email) \<and> the (email_domain email) \<in> set (map to_lower (realm_allowedEmailDomains r)))"

definition registration_sendVerificationEmail ::
  "env \<Rightarrow> mail_platform \<Rightarrow> token_draw \<Rightarrow> realm_row \<Rightarrow> ident \<Rightarrow> string \<Rightarrow> db \<Rightarrow> unit result \<times> db" where
  "registration_sendVerificationEmail e m t r userId email s =
     (if \<not> isConfigured m (realm_name r) then (Inr (), s)
      else let (rawToken, s1) = createToken e (td_id t) (td_rawToken t) userId ''email_verification'' 86400 s
           in sendEmail m (realm_name r) email (mp_subject m r ''verifyEmailSubject'') s1)"

definition sendWelcomeEmail :: "mail_platform \<Rightarrow> realm_row \<Rightarrow> string \<Rightarrow> db \<Rightarrow> unit result \<times> db" where
  "sendWelcomeEmail m r email s =
     (if \<not> isConfigured m (realm_name r) then (Inr (), s)
      else sendEmail m (realm_name r) email (mp_subject m r ''welcomeSubject'') s)"

definition registered_user :: "env \<Rightarrow> ident \<Rightarrow> string \<Rightarrow> realm_row \<Rightarrow> register_dto \<Rightarrow> user_row" where
  "registered_user e newId passwordHash r dto =
     (new_user newId (realm_id r) (rg_username dto))
       \<lparr> user_email := Some (rg_email dto), user_firstName := rg_firstName dto, user_lastName := rg_lastName dto,
         user_enabled := \<not> realm_registrationApprovalRequired r, user_passwordHash := Some passwordHash,
         user_passwordChangedAt := Some (now e), user_emailVerified := \<not> realm_requireEmailVerification r,
         user_createdAt := now e \<rparr>"

definition attribute_rows :: "realm_row \<Rightarrow> ident \<Rightarrow> (string \<times> string) list \<Rightarrow> db \<Rightarrow> user_attribute_row list" where
  "attribute_rows r userId attributes s =
     concat (map (\<lambda>(name, value).
       case List.find (\<lambda>a. ca_realmId a = realm_id r \<and> ca_name a = name) (customAttributes s) of
         None \<Rightarrow> []
       | Some a \<Rightarrow> if ca_id a = [] then []
                   else [\<lparr> ua_userId = userId, ua_attributeId = ca_id a, ua_value = value \<rparr>]) attributes)"

definition register_refused :: "captcha_platform \<Rightarrow> realm_row \<Rightarrow> register_dto \<Rightarrow> string option \<Rightarrow> db \<Rightarrow> app_error option" where
  "register_refused c r dto captchaProvider s =
     (if \<not> falsy captchaProvider \<and> captchaProvider \<noteq> Some ''none'' \<and> \<not> falsy (rg_captchaToken dto)
         \<and> \<not> captcha_verify c (the (rg_captchaToken dto)) (the captchaProvider) (Some ''register'')
      then Some BadRequestException
      else if \<not> realm_registrationAllowed r then Some ForbiddenException
      else if \<not> domain_allowed r (rg_email dto) then Some BadRequestException
      else if user_by_username (realm_id r) (rg_username dto) s \<noteq> None then Some ConflictException
      else if rg_email dto \<noteq> [] \<and> user_by_email (realm_id r) (rg_email dto) s \<noteq> None then Some ConflictException
      else if \<not> valid (validate r (rg_password dto)) then Some BadRequestException
      else if length (rg_password dto) > MAX_PASSWORD_LENGTH then Some UnprocessableEntityException
      else if user_by_email (realm_id r) (rg_email dto) s \<noteq> None then Some PrismaUnique
      else None)"

definition store_registration :: "env \<Rightarrow> user_draws \<Rightarrow> realm_row \<Rightarrow> register_dto \<Rightarrow> db \<Rightarrow> db" where
  "store_registration e d r dto s =
     (let u = registered_user e (ud_userId d) (ud_passwordHash d) r dto;
          s1 = add_user u s;
          s2 = s1\<lparr> userAttributes := userAttributes s1 @ attribute_rows r (user_id u) (nullish_else (rg_attributes dto) []) s1 \<rparr>
      in if realm_passwordHistoryCount r > 0
         then recordHistory e (ud_historyId d) (user_id u) (realm_id r) (ud_passwordHash d) (realm_passwordHistoryCount r) s2
         else s2)"

definition register_with ::
  "env \<Rightarrow> user_draws \<Rightarrow> mail_platform \<Rightarrow> captcha_platform \<Rightarrow> realm_row \<Rightarrow> register_dto \<Rightarrow> string option \<Rightarrow> db \<Rightarrow>
   register_result result \<times> db" where
  "register_with e d m c r dto captchaProvider s =
     (case register_refused c r dto captchaProvider s of
        Some err \<Rightarrow> (Inl err, s)
      | None \<Rightarrow>
          let s1 = store_registration e d r dto s;
              mailing = (realm_requireEmailVerification r \<and> rg_email dto \<noteq> []) in
          and_then (if mailing then registration_sendVerificationEmail e m (ud_token d) r (ud_userId d) (rg_email dto) s1
                    else (Inr (), s1))
            (\<lambda>_ s2. (Inr \<lparr> rr_userId = ud_userId d, rr_requiresApproval = realm_registrationApprovalRequired r,
                            rr_emailSent = mailing \<rparr>,
                     if \<not> realm_registrationApprovalRequired r \<and> rg_email dto \<noteq> []
                     then snd (sendWelcomeEmail m r (rg_email dto) s2) else s2)))"

definition register_endpoint ::
  "env \<Rightarrow> user_draws \<Rightarrow> mail_platform \<Rightarrow> captcha_platform \<Rightarrow> realm_row \<Rightarrow> register_dto \<Rightarrow> string option \<Rightarrow> db \<Rightarrow>
   register_result result \<times> db" where
  "register_endpoint e d m c r dto captchaProvider s =
     (if \<not> falsy (realm_termsOfServiceUrl r) \<and> rg_acceptTerms dto \<noteq> Some True then (Inl BadRequestException, s)
      else register_with e d m c r dto captchaProvider s)"

definition registration_verifyEmail :: "env \<Rightarrow> realm_row \<Rightarrow> string \<Rightarrow> db \<Rightarrow> ident option \<times> db" where
  "registration_verifyEmail e r token s =
     (case validateToken e token ''email_verification'' s of
        (None, s1) \<Rightarrow> (None, s1)
      | (Some userId, s1) \<Rightarrow>
          (case findById r userId s1 of
             Inl _ \<Rightarrow> (None, s1)
           | Inr u \<Rightarrow>
               let s2 = update_user userId (\<lambda>u. u\<lparr> user_emailVerified := True \<rparr>) s1
               in (Some userId,
                   if \<not> user_enabled u \<and> realm_registrationApprovalRequired r
                   then update_user userId (\<lambda>u. u\<lparr> user_enabled := True \<rparr>) s2 else s2)))"

definition resendVerificationEmail ::
  "env \<Rightarrow> mail_platform \<Rightarrow> token_draw \<Rightarrow> realm_row \<Rightarrow> string \<Rightarrow> db \<Rightarrow> bool result \<times> db" where
  "resendVerificationEmail e m t r email s =
     (case user_by_email (realm_id r) email s of
        None \<Rightarrow> (Inr False, s)
      | Some u \<Rightarrow>
          if user_emailVerified u then (Inr False, s)
          else and_then (registration_sendVerificationEmail e m t r (user_id u) email s) (\<lambda>_ s1. (Inr True, s1)))"

definition pending_registration :: "realm_row \<Rightarrow> user_row \<Rightarrow> bool" where
  "pending_registration r u \<longleftrightarrow> user_realmId u = realm_id r \<and> \<not> user_enabled u"

definition named_values :: "ident \<Rightarrow> db \<Rightarrow> (string \<rightharpoonup> string)" where
  "named_values userId s =
     fold (\<lambda>v acc. case attribute_by_id (ua_attributeId v) s of None \<Rightarrow> acc | Some a \<Rightarrow> acc(ca_name a \<mapsto> ua_value v))
       (filter (\<lambda>v. ua_userId v = userId) (userAttributes s)) Map.empty"

definition getPendingRegistrations ::
  "realm_row \<Rightarrow> nat \<Rightarrow> nat \<Rightarrow> db \<Rightarrow> (user_row \<times> (string \<rightharpoonup> string)) list \<times> int" where
  "getPendingRegistrations r skip take_n s =
     (map (\<lambda>u. (u, named_values (user_id u) s))
        (take take_n (drop skip (order_desc user_createdAt (filter (pending_registration r) (users s))))),
      tbl_count (pending_registration r) (users s))"

definition pending_by_id :: "realm_row \<Rightarrow> ident \<Rightarrow> db \<Rightarrow> user_row option" where
  "pending_by_id r userId s = List.find (\<lambda>u. user_id u = userId \<and> pending_registration r u) (users s)"

definition approveRegistration ::
  "env \<Rightarrow> mail_platform \<Rightarrow> token_draw \<Rightarrow> realm_row \<Rightarrow> ident \<Rightarrow> db \<Rightarrow> unit result \<times> db" where
  "approveRegistration e m t r userId s =
     (case pending_by_id r userId s of
        None \<Rightarrow> (Inl NotFoundException, s)
      | Some u \<Rightarrow>
          let s1 = update_user userId (\<lambda>u. u\<lparr> user_enabled := True \<rparr>) s in
          if realm_requireEmailVerification r \<and> \<not> user_emailVerified u \<and> \<not> falsy (user_email u)
          then registration_sendVerificationEmail e m t r (user_id u) (the (user_email u)) s1
          else if (\<not> realm_requireEmailVerification r \<or> user_emailVerified u) \<and> \<not> falsy (user_email u)
          then sendWelcomeEmail m r (the (user_email u)) s1
          else (Inr (), s1))"

definition rejectRegistration :: "realm_row \<Rightarrow> ident \<Rightarrow> db \<Rightarrow> unit result \<times> db" where
  "rejectRegistration r userId s =
     (case pending_by_id r userId s of
        None \<Rightarrow> (Inl NotFoundException, s)
      | Some _ \<Rightarrow> (Inr (), delete_user userId s))"

subsection \<open>Registration fields\<close>

record registration_field_row =
  rf_id :: ident
  rf_realmId :: ident
  rf_name :: string
  rf_displayName :: string
  rf_type :: string
  rf_required :: bool
  rf_placeholder :: "string option"
  rf_helpText :: "string option"
  rf_options :: "string list"
  rf_validationPattern :: "string option"
  rf_defaultValue :: "string option"
  rf_sortOrder :: int
  rf_enabled :: bool

record registration_field_dto =
  fd_name :: string
  fd_displayName :: "string option"
  fd_type :: "string option"
  fd_required :: "bool option"
  fd_placeholder :: "string option"
  fd_helpText :: "string option"
  fd_options :: "string list option"
  fd_validationPattern :: "string option"
  fd_defaultValue :: "string option"
  fd_sortOrder :: "int option"
  fd_enabled :: "bool option"

definition createRegistrationField ::
  "ident \<Rightarrow> realm_row \<Rightarrow> registration_field_dto \<Rightarrow> registration_field_row list \<Rightarrow> registration_field_row result \<times> registration_field_row list" where
  "createRegistrationField newId r dto fs =
     (let f = \<lparr> rf_id = newId, rf_realmId = realm_id r, rf_name = fd_name dto, rf_displayName = nullish_else (fd_displayName dto) [],
                rf_type = nullish_else (fd_type dto) ''text'', rf_required = nullish_else (fd_required dto) False,
                rf_placeholder = fd_placeholder dto, rf_helpText = fd_helpText dto, rf_options = nullish_else (fd_options dto) [],
                rf_validationPattern = fd_validationPattern dto, rf_defaultValue = fd_defaultValue dto,
                rf_sortOrder = nullish_else (fd_sortOrder dto) 0, rf_enabled = nullish_else (fd_enabled dto) True \<rparr>
      in if list_ex (\<lambda>g. rf_realmId g = realm_id r \<and> rf_name g = fd_name dto) fs then (Inl PrismaUnique, fs)
         else (Inr f, fs @ [f]))"

definition getRegistrationFields :: "realm_row \<Rightarrow> registration_field_row list \<Rightarrow> registration_field_row list" where
  "getRegistrationFields r fs = order_asc rf_sortOrder (filter (\<lambda>f. rf_realmId f = realm_id r) fs)"

definition getEnabledRegistrationFields :: "realm_row \<Rightarrow> registration_field_row list \<Rightarrow> registration_field_row list" where
  "getEnabledRegistrationFields r fs = order_asc rf_sortOrder (filter (\<lambda>f. rf_realmId f = realm_id r \<and> rf_enabled f) fs)"

definition edited_field :: "registration_field_dto \<Rightarrow> registration_field_row \<Rightarrow> registration_field_row" where
  "edited_field dto f =
     f\<lparr> rf_displayName := nullish_else (fd_displayName dto) (rf_displayName f), rf_type := nullish_else (fd_type dto) (rf_type f),
        rf_required := nullish_else (fd_required dto) (rf_required f), rf_placeholder := given (fd_placeholder dto) (rf_placeholder f),
        rf_helpText := given (fd_helpText dto) (rf_helpText f), rf_options := nullish_else (fd_options dto) (rf_options f),
        rf_validationPattern := given (fd_validationPattern dto) (rf_validationPattern f),
        rf_defaultValue := given (fd_defaultValue dto) (rf_defaultValue f),
        rf_sortOrder := nullish_else (fd_sortOrder dto) (rf_sortOrder f), rf_enabled := nullish_else (fd_enabled dto) (rf_enabled f) \<rparr>"

definition field_by_id :: "realm_row \<Rightarrow> ident \<Rightarrow> registration_field_row list \<Rightarrow> registration_field_row option" where
  "field_by_id r fieldId fs = List.find (\<lambda>f. rf_id f = fieldId \<and> rf_realmId f = realm_id r) fs"

definition updateRegistrationField ::
  "realm_row \<Rightarrow> ident \<Rightarrow> registration_field_dto \<Rightarrow> registration_field_row list \<Rightarrow> registration_field_row result \<times> registration_field_row list" where
  "updateRegistrationField r fieldId dto fs =
     (case field_by_id r fieldId fs of
        None \<Rightarrow> (Inl NotFoundException, fs)
      | Some f \<Rightarrow> (Inr (edited_field dto f), tbl_update (\<lambda>f. rf_id f = fieldId) (edited_field dto) fs))"

definition deleteRegistrationField ::
  "realm_row \<Rightarrow> ident \<Rightarrow> registration_field_row list \<Rightarrow> unit result \<times> registration_field_row list" where
  "deleteRegistrationField r fieldId fs =
     (case field_by_id r fieldId fs of
        None \<Rightarrow> (Inl NotFoundException, fs)
      | Some _ \<Rightarrow> (Inr (), tbl_delete (\<lambda>f. rf_id f = fieldId) fs))"

subsection \<open>The pages of the login controller\<close>

text \<open>What the pages answer: the form again with an error, or the login page with a message.\<close>

datatype account_page =
    RegisterPage string
  | LoginInfo string
  | LoginError string
  | VerifyEmailPage bool
  | ForgotPasswordPage string
  | ResetPasswordPage string string

definition registration_form_user :: "env \<Rightarrow> ident \<Rightarrow> string \<Rightarrow> realm_row \<Rightarrow> (string \<rightharpoonup> string) \<Rightarrow> user_row" where
  "registration_form_user e newId passwordHash r body =
     (let field = (\<lambda>k. js_trim (nullish_else (body k) [])); opt = (\<lambda>x. if x = [] then None else Some x) in
      (new_user newId (realm_id r) (field ''username''))
        \<lparr> user_email := Some (field ''email''), user_firstName := opt (field ''firstName''), user_lastName := opt (field ''lastName''),
          user_enabled := \<not> realm_registrationApprovalRequired r, user_passwordHash := Some passwordHash,
          user_passwordChangedAt := Some (now e), user_createdAt := now e \<rparr>)"

definition has_angle :: "string \<Rightarrow> bool" where
  "has_angle x \<longleftrightarrow> list_ex (\<lambda>c. c = CHR ''<'' \<or> c = CHR ''>'') x"

definition registration_form_error :: "login_platform \<Rightarrow> realm_row \<Rightarrow> (string \<rightharpoonup> string) \<Rightarrow> db \<Rightarrow> string option" where
  "registration_form_error p r body s =
     (let username = js_trim (nullish_else (body ''username'') []); email = js_trim (nullish_else (body ''email'') []);
          password = nullish_else (body ''password'') []
      in if length username < 2 then Some ''Username must be at least 2 characters.''
         else if has_angle username \<or> has_angle (js_trim (nullish_else (body ''firstName'') []))
              \<or> has_angle (js_trim (nullish_else (body ''lastName'') []))
         then Some ''Fields must not contain HTML tags or angle brackets.''
         else if email = [] then Some ''Email is required.''
         else if realm_allowedEmailDomains r \<noteq> []
              \<and> nullish_else (email_domain email) [] \<notin> set (map to_lower (realm_allowedEmailDomains r))
         then Some ''Registration is only allowed for email domains''
         else if \<not> falsy (realm_termsOfServiceUrl r) \<and> falsy (body ''terms_accepted'')
         then Some ''You must accept the terms of service to register.''
         else if password = [] then Some ''Password is required.''
         else if password \<noteq> nullish_else (body ''confirmPassword'') [] then Some ''Passwords do not match.''
         else if \<not> valid (validate r password) then Some (lp_policyMessage p (errors (validate r password)))
         else if list_ex (\<lambda>a. ca_required a \<and> form_value body a = []) (getRegistrationAttributes (realm_id r) s)
         then Some ''is required.''
         else if user_by_username (realm_id r) username s \<noteq> None \<or> user_by_email (realm_id r) email s \<noteq> None
         then Some ''An account with that username or email already exists.''
         else None)"

definition registration_message :: "realm_row \<Rightarrow> string" where
  "registration_message r =
     (if realm_registrationApprovalRequired r
      then ''Account created successfully! Your account is pending approval by an administrator.''
      else if realm_requireEmailVerification r
      then ''Account created successfully! Please check your email to verify your account, then sign in.''
      else ''Account created successfully! You can now sign in.'')"

text \<open>The mail of the pages: nothing is sent unless the realm is found by its name; an error of the mailer is swallowed.\<close>

definition send_account_mail ::
  "env \<Rightarrow> mail_platform \<Rightarrow> token_draw \<Rightarrow> realm_row \<Rightarrow> ident \<Rightarrow> string \<Rightarrow> string \<Rightarrow> int \<Rightarrow> string \<Rightarrow> db \<Rightarrow> db" where
  "send_account_mail e m t r userId email tokenType lifetime subjectKey s =
     (if \<not> isConfigured m (realm_name r) then s
      else let (rawToken, s1) = createToken e (td_id t) (td_rawToken t) userId tokenType lifetime s
           in case List.find (\<lambda>x. realm_name x = realm_name r) (realms s1) of
                None \<Rightarrow> s1
              | Some fullRealm \<Rightarrow> snd (sendEmail m (realm_name r) email (mp_subject m fullRealm subjectKey) s1))"

definition handleRegistration ::
  "js_engine \<Rightarrow> env \<Rightarrow> user_draws \<Rightarrow> mail_platform \<Rightarrow> login_platform \<Rightarrow> realm_row \<Rightarrow> browser_request \<Rightarrow> db \<Rightarrow> account_page result \<times> db" where
  "handleRegistration j e d m p r q s =
     (let body = br_body q in
      if \<not> validateCsrf r q then (Inl ForbiddenException, s)
      else if \<not> realm_registrationAllowed r then (Inr (LoginError ''Registration is not allowed for this realm.''), s)
      else case registration_form_error p r body s of
        Some err \<Rightarrow> (Inr (RegisterPage err), s)
      | None \<Rightarrow>
          if length (nullish_else (body ''password'') []) > MAX_PASSWORD_LENGTH then (Inl UnprocessableEntityException, s)
          else
            let u = registration_form_user e (ud_userId d) (ud_passwordHash d) r body;
                s1 = add_user u s;
                s2 = (if realm_passwordHistoryCount r > 0
                      then recordHistory e (ud_historyId d) (user_id u) (realm_id r) (ud_passwordHash d)
                             (realm_passwordHistoryCount r) s1
                      else s1)
            in case validateAndSaveRegistrationAttributes j r (user_id u) body s2 of
                 (Inl _, s3) \<Rightarrow>
                   (Inr (RegisterPage ''Failed to save custom attribute values. Please try again.''), delete_user (user_id u) s3)
               | (Inr _, s3) \<Rightarrow>
                   let s4 = recordLoginEvent (login_event (realm_id r) ''REGISTER'' (Some (user_id u)) None None None None) s3
                   in (Inr (LoginInfo (registration_message r)),
                       send_account_mail e m (ud_token d) r (user_id u) (the (user_email u)) ''email_verification'' 86400
                         ''verifyEmailSubject'' s4))"

definition verifyEmail_page :: "env \<Rightarrow> string option \<Rightarrow> db \<Rightarrow> account_page result \<times> db" where
  "verifyEmail_page e token s =
     (if falsy token then (Inr (VerifyEmailPage False), s)
      else case validateToken e (the token) ''email_verification'' s of
             (None, s1) \<Rightarrow> (Inr (VerifyEmailPage False), s1)
           | (Some userId, s1) \<Rightarrow>
               if user_by_id userId s1 = None then (Inl PrismaNotFound, s1)
               else (Inr (VerifyEmailPage True), update_user userId (\<lambda>u. u\<lparr> user_emailVerified := True \<rparr>) s1))"

definition handleForgotPassword ::
  "env \<Rightarrow> mail_platform \<Rightarrow> token_draw \<Rightarrow> realm_row \<Rightarrow> browser_request \<Rightarrow> db \<Rightarrow> account_page result \<times> db" where
  "handleForgotPassword e m t r q s =
     (if \<not> validateCsrf r q then (Inl ForbiddenException, s)
      else (Inr (ForgotPasswordPage ''If an account with that email exists, we sent a password reset link.''),
            if falsy (br_body q ''email'') then s
            else case user_by_email (realm_id r) (the (br_body q ''email'')) s of
                   None \<Rightarrow> s
                 | Some u \<Rightarrow> send_account_mail e m t r (user_id u) (the (br_body q ''email'')) ''password_reset'' 3600
                              ''resetPasswordSubject'' s))"

definition showResetPasswordForm :: "env \<Rightarrow> string option \<Rightarrow> string option \<Rightarrow> db \<Rightarrow> account_page" where
  "showResetPasswordForm e token error s =
     (if falsy token then ResetPasswordPage [] ''Missing reset token.''
      else case token_row (sha256 e (the token)) s of
             None \<Rightarrow> ResetPasswordPage [] ''This reset link is invalid or has expired.''
           | Some t \<Rightarrow>
               if vt_type t \<noteq> ''password_reset'' \<or> vt_expiresAt t < now e
               then ResetPasswordPage [] ''This reset link is invalid or has expired.''
               else ResetPasswordPage (the token) (nullish_else error []))"

definition handleResetPassword ::
  "env \<Rightarrow> user_draws \<Rightarrow> login_platform \<Rightarrow> realm_row \<Rightarrow> browser_request \<Rightarrow> db \<Rightarrow> account_page result \<times> db" where
  "handleResetPassword e d p r q s =
     (let b = br_body q; token = nullish_else (b ''token'') []; password = nullish_else (b ''password'') [] in
      if \<not> validateCsrf r q then (Inl ForbiddenException, s)
      else if token = [] \<or> password = [] then (Inr (ResetPasswordPage token ''Missing required fields.''), s)
      else if b ''password'' \<noteq> b ''confirmPassword'' then (Inr (ResetPasswordPage token ''Passwords do not match.''), s)
      else if \<not> valid (validate r password)
      then (Inr (ResetPasswordPage token (lp_policyMessage p (errors (validate r password)))), s)
      else case validateToken e token ''password_reset'' s of
        (None, s1) \<Rightarrow> (Inr (ResetPasswordPage [] ''This reset link is invalid or has expired.''), s1)
      | (Some userId, s1) \<Rightarrow>
          if length password > MAX_PASSWORD_LENGTH then (Inl UnprocessableEntityException, s1)
          else if user_by_id userId s1 = None then (Inl PrismaNotFound, s1)
          else let s2 = update_user userId (put_password e (ud_passwordHash d)) s1;
                   s3 = recordHistory e (ud_historyId d) userId (realm_id r) (ud_passwordHash d)
                          (realm_passwordHistoryCount r) s2
               in (Inr (LoginInfo ''Your password has been reset. You can now sign in.''),
                   recordLoginEvent (login_event (realm_id r) ''PASSWORD_RESET'' (Some userId) None None None None) s3))"

subsection \<open>Which tables change\<close>

lemma recordLoginEvent_frame [simp]:
  "users (recordLoginEvent ev s) = users s" "verificationTokens (recordLoginEvent ev s) = verificationTokens s"
  "loginSessions (recordLoginEvent ev s) = loginSessions s" "sessions (recordLoginEvent ev s) = sessions s"
  "refreshTokens (recordLoginEvent ev s) = refreshTokens s"
  by (simp_all add: recordLoginEvent_def split: option.split)

lemma registration_mail_users [simp]:
  "users (snd (registration_sendVerificationEmail e m t r uid email s)) = users s"
  "users (snd (sendWelcomeEmail m r email s)) = users s"
  "users (send_account_mail e m t r uid email ty life key s) = users s"
  by (simp_all add: registration_sendVerificationEmail_def sendWelcomeEmail_def send_account_mail_def createToken_def
      split: option.split)

lemma verificationTokens_frame [simp]:
  "verificationTokens (recordHistory e hid uid rid h n s) = verificationTokens s"
  "verificationTokens (snd (sendEmail m rn to subj s)) = verificationTokens s"
  "verificationTokens (update_user i f s) = verificationTokens s"
  by (simp_all add: recordHistory_def sendEmail_def update_user_def Let_def split: sum.split)

lemma saved_attributes_users [simp]: "users (snd (validateAndSaveRegistrationAttributes j r uid body s)) = users s"
  by (simp add: validateAndSaveRegistrationAttributes_def Let_def)

lemma validateToken_users [simp]: "users (snd (validateToken e raw ty s)) = users s"
  by (simp add: validateToken_def delete_token_def split: option.split)

lemma users_and_then: "(\<And>x s1. users (snd (k x s1)) = users s1) \<Longrightarrow> users (snd (and_then a k)) = users (snd a)"
  by (cases a; cases "fst a") auto

lemma store_registration_users:
  "users (store_registration e d r dto s) = users s @ [registered_user e (ud_userId d) (ud_passwordHash d) r dto]"
  by (simp add: store_registration_def Let_def add_user_def)

lemma register_with_users:
  "users (snd (register_with e d m c r dto cp s)) =
     (if register_refused c r dto cp s = None
      then users s @ [registered_user e (ud_userId d) (ud_passwordHash d) r dto] else users s)"
proof (cases "register_refused c r dto cp s")
  case None
  then show ?thesis by (simp add: register_with_def Let_def users_and_then store_registration_users)
qed (simp add: register_with_def)

text \<open>The form either adds the account described by it or leaves the accounts alone, up to a clean-up of the fresh identifier.\<close>

lemma handleRegistration_users:
  assumes "ud_userId d \<notin> user_id ` set (users s)"
  shows "users (snd (handleRegistration j e d m p r q s)) = users s \<or>
    (validateCsrf r q \<and> realm_registrationAllowed r \<and> registration_form_error p r (br_body q) s = None \<and>
     users (snd (handleRegistration j e d m p r q s)) =
       users s @ [registration_form_user e (ud_userId d) (ud_passwordHash d) r (br_body q)])"
proof (cases "validateCsrf r q \<and> realm_registrationAllowed r \<and> registration_form_error p r (br_body q) s = None
    \<and> \<not> length (nullish_else (br_body q ''password'') []) > MAX_PASSWORD_LENGTH")
  case False
  then have "snd (handleRegistration j e d m p r q s) = s"
    by (auto simp: handleRegistration_def Let_def split: option.splits)
  then show ?thesis by simp
next
  case True
  let ?u = "registration_form_user e (ud_userId d) (ud_passwordHash d) r (br_body q)"
  let ?s1 = "add_user ?u s"
  let ?s2 = "if realm_passwordHistoryCount r > 0
    then recordHistory e (ud_historyId d) (user_id ?u) (realm_id r) (ud_passwordHash d) (realm_passwordHistoryCount r) ?s1 else ?s1"
  obtain res s3 where v: "validateAndSaveRegistrationAttributes j r (user_id ?u) (br_body q) ?s2 = (res, s3)" by fastforce
  have id: "user_id ?u = ud_userId d" by (simp add: registration_form_user_def Let_def new_user_def)
  have u3: "users s3 = users s @ [?u]"
    using saved_attributes_users [of j r "user_id ?u" "br_body q" ?s2] v by (simp add: add_user_def)
  have clean: "tbl_delete (\<lambda>x. user_id x = ud_userId d) (users s) = users s"
    using assms unfolding tbl_delete_def by (intro filter_True) (metis imageI)
  show ?thesis
  proof (cases res)
    case (Inl err)
    with True v have "snd (handleRegistration j e d m p r q s) = delete_user (user_id ?u) s3"
      by (simp add: handleRegistration_def Let_def)
    then have "users (snd (handleRegistration j e d m p r q s)) = users s"
      by (simp add: delete_user_tables u3 id tbl_delete_def) (use clean in \<open>simp add: tbl_delete_def\<close>)
    then show ?thesis by simp
  next
    case (Inr x)
    with True v have "users (snd (handleRegistration j e d m p r q s)) = users s3"
      by (simp add: handleRegistration_def Let_def)
    with True u3 show ?thesis by simp
  qed
qed

subsection \<open>Registration is guarded\<close>

lemma form_domain:
  assumes "registration_form_error p r body s = None" "[] \<notin> set (map to_lower (realm_allowedEmailDomains r))"
  shows "domain_allowed r (js_trim (nullish_else (body ''email'') []))"
proof -
  let ?d = "email_domain (js_trim (nullish_else (body ''email'') []))"
  have "realm_allowedEmailDomains r = [] \<or> nullish_else ?d [] \<in> set (map to_lower (realm_allowedEmailDomains r))"
    using assms(1) by (auto simp: registration_form_error_def Let_def split: if_splits)
  moreover have "\<not> falsy ?d \<and> nullish_else ?d [] = the ?d" if "nullish_else ?d [] \<in> set (map to_lower (realm_allowedEmailDomains r))"
    using assms(2) that by (cases ?d) (auto simp del: set_map)
  ultimately show ?thesis unfolding domain_allowed_def by metis
qed

text \<open>
  An account appears through the registration form or the registration API only when the realm allows self-registration, the
  address is in an allowed domain, the terms (when there are any) were accepted, and the password obeys the policy; its name and address
  are new in the realm, it has the hash of that password, and it is enabled only where no approval is required.
\<close>

theorem registration_guarded:
  assumes fresh: "ud_userId d \<notin> user_id ` set (users s)" and new: "u \<notin> set (users s)"
    and domains: "[] \<notin> set (realm_allowedEmailDomains r)"
  shows "(u \<in> set (users (snd (handleRegistration j e d m p r q s))) \<longrightarrow>
      validateCsrf r q \<and> realm_registrationAllowed r \<and> domain_allowed r (the (user_email u))
      \<and> (falsy (realm_termsOfServiceUrl r) \<or> \<not> falsy (br_body q ''terms_accepted''))
      \<and> valid (validate r (nullish_else (br_body q ''password'') [])) \<and> user_passwordHash u = Some (ud_passwordHash d)
      \<and> user_by_username (realm_id r) (user_username u) s = None \<and> user_by_email (realm_id r) (the (user_email u)) s = None
      \<and> user_realmId u = realm_id r \<and> (user_enabled u \<longleftrightarrow> \<not> realm_registrationApprovalRequired r) \<and> \<not> user_emailVerified u
      \<and> \<not> has_angle (user_username u))
   \<and> (u \<in> set (users (snd (register_endpoint e d m c r dto cp s))) \<longrightarrow>
      realm_registrationAllowed r \<and> domain_allowed r (the (user_email u))
      \<and> (falsy (realm_termsOfServiceUrl r) \<or> rg_acceptTerms dto = Some True)
      \<and> valid (validate r (rg_password dto)) \<and> user_passwordHash u = Some (ud_passwordHash d)
      \<and> user_by_username (realm_id r) (user_username u) s = None \<and> user_by_email (realm_id r) (the (user_email u)) s = None
      \<and> user_realmId u = realm_id r \<and> (user_enabled u \<longleftrightarrow> \<not> realm_registrationApprovalRequired r)
      \<and> (user_emailVerified u \<longleftrightarrow> \<not> realm_requireEmailVerification r))"
proof (intro conjI impI)
  assume "u \<in> set (users (snd (handleRegistration j e d m p r q s)))"
  with handleRegistration_users [OF fresh, of j e m p r q] new
  have g: "validateCsrf r q" "realm_registrationAllowed r" "registration_form_error p r (br_body q) s = None"
    and u: "u = registration_form_user e (ud_userId d) (ud_passwordHash d) r (br_body q)" by auto
  show "validateCsrf r q" "realm_registrationAllowed r" by fact+
  have dom: "[] \<notin> set (map to_lower (realm_allowedEmailDomains r))" using domains by (auto simp: to_lower_def)
  show "domain_allowed r (the (user_email u))" using form_domain [OF g(3) dom] by (simp add: u registration_form_user_def Let_def)
  show "falsy (realm_termsOfServiceUrl r) \<or> \<not> falsy (br_body q ''terms_accepted'')"
    "valid (validate r (nullish_else (br_body q ''password'') []))"
    using g(3) by (auto simp: registration_form_error_def Let_def split: if_splits)
  show "user_by_username (realm_id r) (user_username u) s = None" "user_by_email (realm_id r) (the (user_email u)) s = None"
    "\<not> has_angle (user_username u)"
    using g(3) by (auto simp: registration_form_error_def u registration_form_user_def new_user_def Let_def split: if_splits)
  show "user_passwordHash u = Some (ud_passwordHash d)" "user_realmId u = realm_id r"
    "user_enabled u \<longleftrightarrow> \<not> realm_registrationApprovalRequired r" "\<not> user_emailVerified u"
    by (simp_all add: u registration_form_user_def new_user_def Let_def)
next
  assume a: "u \<in> set (users (snd (register_endpoint e d m c r dto cp s)))"
  with new have t: "falsy (realm_termsOfServiceUrl r) \<or> rg_acceptTerms dto = Some True"
    and b: "u \<in> set (users (snd (register_with e d m c r dto cp s)))" by (auto simp: register_endpoint_def split: if_splits)
  have g: "register_refused c r dto cp s = None" and u: "u = registered_user e (ud_userId d) (ud_passwordHash d) r dto"
    using b new by (auto simp: register_with_users split: if_splits)
  show "falsy (realm_termsOfServiceUrl r) \<or> rg_acceptTerms dto = Some True" by fact
  show "realm_registrationAllowed r" "domain_allowed r (the (user_email u))" "valid (validate r (rg_password dto))"
    "user_by_username (realm_id r) (user_username u) s = None" "user_by_email (realm_id r) (the (user_email u)) s = None"
    using g by (auto simp: register_refused_def u registered_user_def new_user_def split: if_splits)
  show "user_passwordHash u = Some (ud_passwordHash d)" "user_realmId u = realm_id r"
    "user_enabled u \<longleftrightarrow> \<not> realm_registrationApprovalRequired r"
    "user_emailVerified u \<longleftrightarrow> \<not> realm_requireEmailVerification r"
    by (simp_all add: u registered_user_def new_user_def)
qed

subsection \<open>Accounts stay unique\<close>

text \<open>Every operation on accounts of this development's services; operations that create an account draw an unused identifier.\<close>

datatype account_op =
    AdminCreate env user_draws mail_platform realm_row create_user_dto
  | AdminUpdate realm_row ident update_user_dto
  | AdminRemove realm_row ident
  | AdminPassword env user_draws realm_row ident string
  | ApiRegister env user_draws mail_platform captcha_platform realm_row register_dto "string option"
  | ApiVerifyEmail env realm_row string
  | Approve env mail_platform token_draw realm_row ident
  | Reject realm_row ident
  | FormRegister js_engine env user_draws mail_platform login_platform realm_row browser_request
  | PageVerifyEmail env "string option"
  | ForgotPassword env mail_platform token_draw realm_row browser_request
  | ResetPassword env user_draws login_platform realm_row browser_request

fun account_step :: "account_op \<Rightarrow> db \<Rightarrow> db" where
  "account_step (AdminCreate e d m r dto) s = snd (create e d m r dto s)"
| "account_step (AdminUpdate r i dto) s = snd (update r i dto s)"
| "account_step (AdminRemove r i) s = snd (remove r i s)"
| "account_step (AdminPassword e d r i pw) s = snd (setPassword e d r i pw s)"
| "account_step (ApiRegister e d m c r dto cp) s = snd (register_endpoint e d m c r dto cp s)"
| "account_step (ApiVerifyEmail e r token) s = snd (registration_verifyEmail e r token s)"
| "account_step (Approve e m t r i) s = snd (approveRegistration e m t r i s)"
| "account_step (Reject r i) s = snd (rejectRegistration r i s)"
| "account_step (FormRegister j e d m p r q) s = snd (handleRegistration j e d m p r q s)"
| "account_step (PageVerifyEmail e token) s = snd (verifyEmail_page e token s)"
| "account_step (ForgotPassword e m t r q) s = snd (handleForgotPassword e m t r q s)"
| "account_step (ResetPassword e d p r q) s = snd (handleResetPassword e d p r q s)"

fun account_op_ok :: "account_op \<Rightarrow> db \<Rightarrow> bool" where
  "account_op_ok (AdminCreate e d m r dto) s = (ud_userId d \<notin> user_id ` set (users s))"
| "account_op_ok (ApiRegister e d m c r dto cp) s = (ud_userId d \<notin> user_id ` set (users s))"
| "account_op_ok (FormRegister j e d m p r q) s = (ud_userId d \<notin> user_id ` set (users s))"
| "account_op_ok _ s = True"

inductive account_run :: "db \<Rightarrow> db \<Rightarrow> bool" where
  account_start: "account_run s s"
| account_next: "account_run s s1 \<Longrightarrow> account_op_ok a s1 \<Longrightarrow> account_run s (account_step a s1)"

lemma appended_account_ok:
  assumes "accounts_ok s" "users s' = users s @ [u]" "user_id u \<notin> user_id ` set (users s)"
    and "user_by_username (user_realmId u) (user_username u) s = None" "user_by_email (user_realmId u) (the (user_email u)) s = None"
  shows "accounts_ok s'"
  using add_user_ok [OF assms(1,3,4)] assms(2,5) accounts_ok_users [of "add_user u s" s']
  by (simp add: email_taken_def add_user_def)

lemma register_accounts_ok:
  assumes ok: "accounts_ok s" and "ud_userId d \<notin> user_id ` set (users s)"
  shows "accounts_ok (snd (register_endpoint e d m c r dto cp s))"
proof (cases "register_refused c r dto cp s")
  case None
  have "accounts_ok (snd (register_with e d m c r dto cp s))"
  proof (rule appended_account_ok [OF ok])
    show "users (snd (register_with e d m c r dto cp s)) = users s @ [registered_user e (ud_userId d) (ud_passwordHash d) r dto]"
      using None by (simp add: register_with_users)
  qed (use None assms(2) in \<open>auto simp: register_refused_def registered_user_def new_user_def split: if_splits\<close>)
  with ok show ?thesis by (simp add: register_endpoint_def)
qed (use ok in \<open>simp add: register_endpoint_def register_with_def\<close>)

lemma handleRegistration_ok:
  assumes ok: "accounts_ok s" and fresh: "ud_userId d \<notin> user_id ` set (users s)"
  shows "accounts_ok (snd (handleRegistration j e d m p r q s))"
  using handleRegistration_users [OF fresh, of j e m p r q]
proof (elim disjE conjE)
  assume "users (snd (handleRegistration j e d m p r q s)) = users s"
  with ok show ?thesis by (rule accounts_ok_users)
next
  assume g: "registration_form_error p r (br_body q) s = None"
    and u: "users (snd (handleRegistration j e d m p r q s)) = users s @ [registration_form_user e (ud_userId d) (ud_passwordHash d) r (br_body q)]"
  show ?thesis
    by (rule appended_account_ok [OF ok u])
      (use g fresh in \<open>auto simp: registration_form_error_def registration_form_user_def new_user_def Let_def split: if_splits\<close>)
qed

lemma flag_update_ok:
  "accounts_ok s \<Longrightarrow> accounts_ok (update_user i (\<lambda>u. u\<lparr> user_enabled := b \<rparr>) s)"
  "accounts_ok s \<Longrightarrow> accounts_ok (update_user i (\<lambda>u. u\<lparr> user_emailVerified := b \<rparr>) s)"
  by (rule update_user_ok; simp)+

lemma validateToken_ok: "accounts_ok s \<Longrightarrow> validateToken e raw ty s = (x, s1) \<Longrightarrow> accounts_ok s1"
  using validateToken_users [of e raw ty s] accounts_ok_users [of s s1] by simp

lemma verifyEmail_ok:
  assumes "accounts_ok s"
  shows "accounts_ok (snd (registration_verifyEmail e r token s))" "accounts_ok (snd (verifyEmail_page e t s))"
  using assms
  by (auto simp: registration_verifyEmail_def verifyEmail_page_def Let_def flag_update_ok dest: validateToken_ok
      split: prod.splits option.splits sum.splits)

lemma approve_reject_ok:
  assumes ok: "accounts_ok s"
  shows "accounts_ok (snd (approveRegistration e m t r i s))" "accounts_ok (snd (rejectRegistration r i s))"
proof -
  have "accounts_ok s'" if "users s' = users (update_user i (\<lambda>u. u\<lparr> user_enabled := True \<rparr>) s)" for s'
    using flag_update_ok(1) [OF ok] that by (rule accounts_ok_users)
  with ok show "accounts_ok (snd (approveRegistration e m t r i s))"
    by (simp add: approveRegistration_def Let_def split: option.split)
  from ok show "accounts_ok (snd (rejectRegistration r i s))"
    by (simp add: rejectRegistration_def delete_user_ok split: option.split)
qed

lemma forgot_users: "users (snd (handleForgotPassword e m t r q s)) = users s"
  by (simp add: handleForgotPassword_def split: option.split)

lemma reset_ok:
  assumes "accounts_ok s"
  shows "accounts_ok (snd (handleResetPassword e d p r q s))"
proof -
  obtain res s1 where v: "validateToken e (nullish_else (br_body q ''token'') []) ''password_reset'' s = (res, s1)" by fastforce
  note ok1 = validateToken_ok [OF assms v]
  have "accounts_ok s'" if "users s' = users (update_user i (put_password e h) s1)" for i h s'
    using put_password_ok [OF ok1] that by (rule accounts_ok_users)
  with assms ok1 v show ?thesis by (simp add: handleResetPassword_def Let_def split: option.split)
qed

lemma account_step_ok: "accounts_ok s \<Longrightarrow> account_op_ok a s \<Longrightarrow> accounts_ok (account_step a s)"
  by (cases a) (simp_all add: create_accounts_ok update_accounts_ok remove_accounts_ok setPassword_ok register_accounts_ok verifyEmail_ok approve_reject_ok
      handleRegistration_ok reset_ok accounts_ok_users [OF _ forgot_users])

text \<open>
  C27.  Whatever the order of administrative changes, registrations (by form or API), approvals, rejections, address verifications and
  password resets, accounts stay unique: no two have the same identifier, the same name in a realm, or the same address in a realm; so
  looking an account up by its name in its realm finds it.
\<close>

theorem accounts_stay_unique:
  assumes "account_run s0 s" "accounts_ok s0"
  shows "distinct (map user_id (users s))
    \<and> (\<forall>u \<in> set (users s). user_by_id (user_id u) s = Some u \<and> user_by_username (user_realmId u) (user_username u) s = Some u
         \<and> (user_email u \<noteq> None \<longrightarrow> user_by_email (user_realmId u) (the (user_email u)) s = Some u))"
proof -
  have ok: "accounts_ok s"
    using assms by (induction rule: account_run.induct) (simp_all add: account_step_ok)
  then have d: "distinct (map user_id (users s))" by (simp add: accounts_ok_def)
  have "user_by_email (user_realmId u) x s = Some u" if u: "u \<in> set (users s)" "user_email u = Some x" for u x
  proof -
    obtain v where v: "user_by_email (user_realmId u) x s = Some v"
      using u by (cases "user_by_email (user_realmId u) x s") (auto simp: user_by_email_def find_None_iff)
    then have "v \<in> set (users s)" "same_address u v" using u by (auto simp: user_by_email_def same_address_def dest!: find_SomeD)
    with ok u(1) have "user_id u = user_id v" by (simp add: accounts_ok_def)
    with d u(1) \<open>v \<in> set (users s)\<close> have "u = v" by (auto dest: distinct_id_eq [of user_id])
    with v show ?thesis by simp
  qed
  moreover have "user_by_id (user_id u) s = Some u" if "u \<in> set (users s)" for u
    using find_unique [OF d that] by (simp add: user_by_id_def)
  ultimately show ?thesis using d account_by_username [OF ok] by auto
qed

subsection \<open>Resetting a forgotten password\<close>

lemma reset_cases:
  assumes "handleResetPassword e d p r q s = (res, s')"
  obtains "users s' = users s" "\<And>x. res \<noteq> Inr (LoginInfo x)"
  | t where "t \<in> set (verificationTokens s)" "vt_tokenHash t = sha256 e (nullish_else (br_body q ''token'') [])"
      "vt_type t = ''password_reset''" "now e \<le> vt_expiresAt t" "validateCsrf r q"
      "br_body q ''password'' = br_body q ''confirmPassword''" "valid (validate r (nullish_else (br_body q ''password'') []))"
      "user_by_id (vt_userId t) s \<noteq> None" "verificationTokens s' = tbl_delete (\<lambda>x. vt_id x = vt_id t) (verificationTokens s)"
      "users s' = users (update_user (vt_userId t) (put_password e (ud_passwordHash d)) s)"
proof -
  let ?pw = "nullish_else (br_body q ''password'') []" and ?tok = "nullish_else (br_body q ''token'') []"
  let ?guards = "validateCsrf r q \<and> ?tok \<noteq> [] \<and> ?pw \<noteq> [] \<and> br_body q ''password'' = br_body q ''confirmPassword'' \<and> valid (validate r ?pw)"
  obtain v s1 where v: "validateToken e ?tok ''password_reset'' s = (v, s1)" by fastforce
  have u1: "users s1 = users s" using validateToken_users [of e ?tok "''password_reset''" s] v by simp
  show thesis
  proof (cases "?guards \<and> v \<noteq> None \<and> length ?pw \<le> MAX_PASSWORD_LENGTH \<and> user_by_id (the v) s1 \<noteq> None")
    case True
    then obtain uid where uid: "v = Some uid" by blast
    obtain t where t: "token_row (sha256 e ?tok) s = Some t" "vt_type t = ''password_reset''" "now e \<le> vt_expiresAt t"
        "vt_userId t = uid" "s1 = delete_token (vt_id t) s"
      using v uid by (auto simp: validateToken_def split: option.splits if_splits)
    have "users s' = users (update_user uid (put_password e (ud_passwordHash d)) s1)" "verificationTokens s' = verificationTokens s1"
      using assms True v uid by (auto simp: handleResetPassword_def Let_def)
    with t True u1 find_SomeD [OF t(1) [unfolded token_row_def]] show thesis
      by (intro that(2) [of t]) (auto simp: delete_token_def user_by_id_def update_user_def uid)
  next
    case False
    with assms v u1 show thesis
      by (intro that(1)) (auto simp: handleResetPassword_def Let_def split: if_splits option.splits)
  qed
qed

text \<open>
  C13.  Nobody's password is reset without the link: when the page changes an account, the submitted token is an unexpired reset token of
  that very account, the form was the realm's own, the two passwords agreed and obey the policy; exactly the password and its date
  change, no other account does, and the token is gone.
\<close>

theorem password_reset_sound:
  assumes "handleResetPassword e d p r q s = (res, s')" "user_by_id uid s' \<noteq> user_by_id uid s"
  shows "\<exists>t \<in> set (verificationTokens s).
     vt_tokenHash t = sha256 e (nullish_else (br_body q ''token'') []) \<and> vt_type t = ''password_reset'' \<and> now e \<le> vt_expiresAt t
     \<and> vt_userId t = uid \<and> validateCsrf r q \<and> br_body q ''password'' = br_body q ''confirmPassword''
     \<and> valid (validate r (nullish_else (br_body q ''password'') []))
     \<and> user_by_id uid s' = map_option (put_password e (ud_passwordHash d)) (user_by_id uid s)
     \<and> (\<forall>v. v \<noteq> uid \<longrightarrow> user_by_id v s' = user_by_id v s) \<and> t \<notin> set (verificationTokens s')"
proof (rule reset_cases [OF assms(1)])
  assume "users s' = users s"
  with assms(2) show ?thesis by (simp add: user_by_id_def)
next
  fix t
  assume t: "t \<in> set (verificationTokens s)" "vt_tokenHash t = sha256 e (nullish_else (br_body q ''token'') [])"
      "vt_type t = ''password_reset''" "now e \<le> vt_expiresAt t" "validateCsrf r q"
      "br_body q ''password'' = br_body q ''confirmPassword''" "valid (validate r (nullish_else (br_body q ''password'') []))"
      "verificationTokens s' = tbl_delete (\<lambda>x. vt_id x = vt_id t) (verificationTokens s)"
      "users s' = users (update_user (vt_userId t) (put_password e (ud_passwordHash d)) s)"
  have by_id: "user_by_id v s' = (if v = vt_userId t then map_option (put_password e (ud_passwordHash d)) (user_by_id v s) else user_by_id v s)" for v
    using user_by_id_update_user [of "put_password e (ud_passwordHash d)" v "vt_userId t" s] t(9)
    by (simp add: put_password_def user_by_id_def)
  with assms(2) have "vt_userId t = uid" by (auto split: if_splits)
  with t by_id show ?thesis by (intro bexI [of _ t]) auto
qed

text \<open>
  The way back into an account: a reset link requested for its address and followed within the hour sets the password of the form, whatever
  happened to the clock in between; the account, if it is enabled, local and not locked, then signs in with that password, and
  following the link a second time is refused.
\<close>

theorem forgot_password_roundtrip:
  assumes ok: "accounts_ok s" and u: "user_by_email (realm_id r) email s = Some u" "r \<in> set (realms s)"
    and ask: "isConfigured m (realm_name r)" "validateCsrf r q1" "br_body q1 ''email'' = Some email" "email \<noteq> []"
    and tok: "td_rawToken t \<noteq> []" "sha256 e1 (td_rawToken t) \<notin> vt_tokenHash ` set (verificationTokens s)"
      "sha256 e2 = sha256 e1" "sha256 e3 = sha256 e1"
    and form: "validateCsrf r q2" "br_body q2 ''token'' = Some (td_rawToken t)" "br_body q2 ''password'' = Some pw"
      "br_body q2 ''confirmPassword'' = Some pw" "pw \<noteq> []" "valid (validate r pw)" "length pw \<le> MAX_PASSWORD_LENGTH"
    and time: "now e2 \<le> now e1 + 3600 * 1000"
    and acct: "user_enabled u" "falsy (user_federationLink u)" "\<not> locked (checkLocked e4 r u)" "ud_passwordHash d \<noteq> []"
      "argon2_verify e4 (ud_passwordHash d) pw"
    and run: "s1 = snd (handleForgotPassword e1 m t r q1 s)" "s2 = snd (handleResetPassword e2 d p r q2 s1)"
  shows "fst (handleResetPassword e2 d p r q2 s1) = Inr (LoginInfo ''Your password has been reset. You can now sign in.'')
    \<and> (\<exists>u'. fst (validateCredentials e4 d4 r (user_username u) pw ip s2) = Inr u' \<and> user_id u' = user_id u)
    \<and> fst (handleResetPassword e3 d3 p r q2 s2) = Inr (ResetPasswordPage [] ''This reset link is invalid or has expired.'')"
proof -
  let ?h = "sha256 e1 (td_rawToken t)"
  let ?row = "\<lparr> vt_id = td_id t, vt_tokenHash = ?h, vt_userId = user_id u, vt_type = ''password_reset'',
    vt_expiresAt = now e1 + 3600 * 1000 \<rparr>"
  let ?old = "tbl_delete (\<lambda>x. vt_userId x = user_id u \<and> vt_type x = ''password_reset'') (verificationTokens s)"
  have fresh: "vt_tokenHash x \<noteq> ?h" if "x \<in> set (verificationTokens s)" for x using tok(2) that by (metis imageI)
  have u': "u \<in> set (users s)" "user_realmId u = realm_id r" using u(1) by (auto simp: user_by_email_def dest: find_SomeD)
  have s1: "verificationTokens s1 = ?old @ [?row]" "users s1 = users s"
    using ask u(1) run(1) forgot_users [of e1 m t r q1 s]
    by (auto simp: handleForgotPassword_def send_account_mail_def createToken_def createTokenWithHash_def split: option.splits)
  have ok1: "accounts_ok s1" using ok s1(2) by (rule accounts_ok_users)
  have row: "token_row ?h s1 = Some ?row"
  proof -
    have "List.find (\<lambda>x. vt_tokenHash x = ?h) ?old = None" by (auto simp: find_None_iff fresh)
    then show ?thesis unfolding token_row_def s1(1) by (simp add: find_append_None)
  qed
  have v: "validateToken e2 (td_rawToken t) ''password_reset'' s1 = (Some (user_id u), delete_token (td_id t) s1)"
    using row time by (simp add: validateToken_def tok(3))
  have id1: "user_by_id (user_id u) s1 = Some u"
    using find_unique [of user_id "users s" u] ok u'(1) by (simp add: accounts_ok_def user_by_id_def s1)
  have id1': "user_by_id (user_id u) (delete_token (td_id t) s1) = Some u" using id1 by (simp add: user_by_id_def delete_token_def)
  have r2: "fst (handleResetPassword e2 d p r q2 s1) = Inr (LoginInfo ''Your password has been reset. You can now sign in.'')"
    "users s2 = users (update_user (user_id u) (put_password e2 (ud_passwordHash d)) s1)"
    "verificationTokens s2 = tbl_delete (\<lambda>x. vt_id x = td_id t) (verificationTokens s1)"
    using form tok(1) v id1' unfolding run(2)
    by (simp_all add: handleResetPassword_def Let_def delete_token_def update_user_def)
  let ?u = "put_password e2 (ud_passwordHash d) u"
  have id2: "user_by_id (user_id u) s2 = Some ?u"
    using user_by_id_update_user [of "put_password e2 (ud_passwordHash d)" "user_id u" "user_id u" s1] id1 r2(2)
    by (simp add: put_password_def user_by_id_def)
  have ok2: "accounts_ok s2" unfolding run(2) by (rule reset_ok [OF ok1])
  have "user_by_username (realm_id r) (user_username u) s2 = Some ?u"
    using account_by_username [OF ok2, of ?u] user_by_id_in [OF id2] u'(2) by (simp add: put_password_def)
  moreover have "fst (accept_credentials r ?u s2) = Inr ?u"
    using id2 by (simp add: accept_credentials_def resetFailures_def Let_def user_by_id_def put_password_def)
  moreover have "checkLocked e4 r ?u = checkLocked e4 r u" by (simp add: checkLocked_def put_password_def)
  ultimately have "fst (validateCredentials e4 d4 r (user_username u) pw ip s2) = Inr ?u"
    using acct form(7) by (simp add: validateCredentials_def verifyPassword_def put_password_def)
  moreover have "token_row ?h s2 = None"
    unfolding token_row_def r2(3) s1(1) by (auto simp: find_None_iff fresh)
  then have "validateToken e3 (td_rawToken t) ''password_reset'' s2 = (None, s2)" by (simp add: validateToken_def tok(4))
  then have "fst (handleResetPassword e3 d3 p r q2 s2) = Inr (ResetPasswordPage [] ''This reset link is invalid or has expired.'')"
    using form tok(1) by (simp add: handleResetPassword_def Let_def)
  ultimately show ?thesis using r2(1) by (auto simp: put_password_def)
qed

subsection \<open>Examples\<close>

definition sample_mail :: mail_platform where
  "sample_mail = \<lparr> mp_settings = (\<lambda>_. Some (None, Some ''smtp.example.org'')), mp_subject = (\<lambda>_ k. k), mp_send = (\<lambda>_ _ _. Inr True) \<rparr>"

definition no_captcha :: captcha_platform where
  "no_captcha = \<lparr> cap_recaptchaSecret = Some ''secret'', cap_hcaptchaSecret = None, cap_threshold = 1 / 2, cap_fetch = (\<lambda>_ _ _. None) \<rparr>"

definition csrf_request :: "(string \<times> string) list \<Rightarrow> browser_request" where
  "csrf_request kvs = \<lparr> br_body = map_of ((''_csrf'', ''t'') # kvs), br_cookies = [''XSRF-TOKEN-acme'' \<mapsto> ''t''],
     br_ip = None, br_userAgent = None \<rparr>"

definition register_request :: browser_request where
  "register_request = csrf_request [(''username'', '' bob ''), (''email'', ''bob@example.org''), (''password'', ''brand-new''),
     (''confirmPassword'', ''brand-new'')]"

definition registered_db :: db where
  "registered_db = snd (handleRegistration sample_engine sample_env sample_user_draws sample_mail sample_login_platform sample_realm
     register_request sample_db)"

theorem registration_guarded_witness:
  "\<exists>u \<in> set (users registered_db). u \<notin> set (users sample_db) \<and> user_username u = ''bob'' \<and>
     user_passwordHash u = Some ''brand-new'' \<and> user_by_username (realm_id sample_realm) (user_username u) sample_db = None"
proof -
  let ?u = "last (users registered_db)"
  have mem: "?u \<in> set (users registered_db)" and new: "?u \<notin> set (users sample_db)" and name: "user_username ?u = ''bob''"
    and fresh: "ud_userId sample_user_draws \<notin> user_id ` set (users sample_db)" and dom: "[] \<notin> set (realm_allowedEmailDomains sample_realm)"
    by code_simp+
  from registration_guarded [OF fresh new dom, of sample_engine sample_env sample_mail sample_login_platform register_request] mem
  have "user_passwordHash ?u = Some (ud_passwordHash sample_user_draws)"
    "user_by_username (realm_id sample_realm) (user_username ?u) sample_db = None"
    unfolding registered_db_def by blast+
  with mem new name show ?thesis by (intro bexI [of _ ?u]) (simp_all add: sample_user_draws_def)
qed

theorem accounts_stay_unique_witness:
  "account_run sample_db registered_db \<and> accounts_ok sample_db \<and> length (users registered_db) = 2 \<and>
   distinct (map user_id (users registered_db))"
proof (intro conjI)
  have "account_op_ok (FormRegister sample_engine sample_env sample_user_draws sample_mail sample_login_platform sample_realm
      register_request) sample_db" by code_simp
  from account_next [OF account_start this] show run: "account_run sample_db registered_db" by (simp add: registered_db_def)
  show ok: "accounts_ok sample_db" by (simp add: accounts_ok_def sample_db_def)
  show "length (users registered_db) = 2" by code_simp
  from accounts_stay_unique [OF run ok] show "distinct (map user_id (users registered_db))" by blast
qed

definition reset_draw :: token_draw where
  "reset_draw = \<lparr> td_id = ''v1'', td_rawToken = ''mailed'' \<rparr>"

definition forgot_request :: browser_request where
  "forgot_request = csrf_request [(''email'', ''alice@example.org'')]"

definition reset_request :: browser_request where
  "reset_request = csrf_request [(''token'', ''mailed''), (''password'', ''brand-new''), (''confirmPassword'', ''brand-new'')]"

definition asked_db :: db where
  "asked_db = snd (handleForgotPassword sample_env sample_mail reset_draw sample_realm forgot_request sample_db)"

theorem forgot_password_roundtrip_witness:
  "fst (handleResetPassword sample_env sample_user_draws sample_login_platform sample_realm reset_request asked_db)
     = Inr (LoginInfo ''Your password has been reset. You can now sign in.'') \<and> outbox asked_db = [(''alice@example.org'', ''resetPasswordSubject'')]"
proof
  have f: "user_by_email (realm_id sample_realm) ''alice@example.org'' sample_db = Some sample_user"
    "sample_realm \<in> set (realms sample_db)" "isConfigured sample_mail (realm_name sample_realm)" "validateCsrf sample_realm forgot_request"
    "br_body forgot_request ''email'' = Some ''alice@example.org''" "''alice@example.org'' \<noteq> []" "td_rawToken reset_draw \<noteq> []"
    "sha256 sample_env (td_rawToken reset_draw) \<notin> vt_tokenHash ` set (verificationTokens sample_db)"
    by code_simp+
  have g: "validateCsrf sample_realm reset_request" "br_body reset_request ''token'' = Some (td_rawToken reset_draw)"
    "br_body reset_request ''password'' = Some ''brand-new''" "br_body reset_request ''confirmPassword'' = Some ''brand-new''"
    "''brand-new'' \<noteq> []" "valid (validate sample_realm ''brand-new'')" "length ''brand-new'' \<le> MAX_PASSWORD_LENGTH"
    "now sample_env \<le> now sample_env + 3600 * 1000"
    "user_enabled sample_user" "falsy (user_federationLink sample_user)" "\<not> locked (checkLocked sample_env sample_realm sample_user)"
    "ud_passwordHash sample_user_draws \<noteq> []" "argon2_verify sample_env (ud_passwordHash sample_user_draws) ''brand-new''"
    by code_simp+
  have "accounts_ok sample_db" by (simp add: accounts_ok_def sample_db_def)
  from forgot_password_roundtrip [OF this f refl refl g refl refl, THEN conjunct1]
  show "fst (handleResetPassword sample_env sample_user_draws sample_login_platform sample_realm reset_request asked_db)
      = Inr (LoginInfo ''Your password has been reset. You can now sign in.'')" by (simp add: asked_db_def)
qed code_simp

definition reset_db :: db where
  "reset_db = snd (handleResetPassword sample_env sample_user_draws sample_login_platform sample_realm reset_request asked_db)"

theorem password_reset_sound_witness:
  "user_by_id ''u1'' reset_db \<noteq> user_by_id ''u1'' asked_db \<and>
   (\<exists>t \<in> set (verificationTokens asked_db). vt_tokenHash t = ''mailed'' \<and> vt_userId t = ''u1'' \<and> t \<notin> set (verificationTokens reset_db))"
proof
  show ne: "user_by_id ''u1'' reset_db \<noteq> user_by_id ''u1'' asked_db" by code_simp
  have run: "handleResetPassword sample_env sample_user_draws sample_login_platform sample_realm reset_request asked_db
      = (fst (handleResetPassword sample_env sample_user_draws sample_login_platform sample_realm reset_request asked_db), reset_db)"
    by (simp add: reset_db_def)
  have "sha256 sample_env (nullish_else (br_body reset_request ''token'') []) = ''mailed''" by code_simp
  with password_reset_sound [OF run ne] show "\<exists>t \<in> set (verificationTokens asked_db). vt_tokenHash t = ''mailed'' \<and> vt_userId t = ''u1''
      \<and> t \<notin> set (verificationTokens reset_db)" by auto
qed

text \<open>
  What registration does not guarantee.  A registration that awaits approval is enabled by its own verification mail; the CAPTCHA
  is skipped when the request brings no token, and its provider is chosen by the request; the attribute values of the API are not
  checked against their definitions; and a reset accepts a remembered password, checks the policy of the realm in the address
  rather than that of the account, and leaves every session of the account alive.
\<close>

definition approval_realm :: realm_row where
  "approval_realm = sample_realm\<lparr> realm_registrationApprovalRequired := True, realm_requireEmailVerification := True \<rparr>"

definition api_request :: register_dto where
  "api_request = \<lparr> rg_username = ''bob'', rg_email = ''bob@example.org'', rg_password = ''brand-new'', rg_firstName = None, rg_lastName = None,
     rg_captchaToken = None, rg_acceptTerms = None, rg_attributes = Some [(''size'', ''none of the options'')] \<rparr>"

definition pending_db :: db where
  "pending_db = snd (register_endpoint sample_env sample_user_draws sample_mail no_captcha approval_realm api_request (Some ''recaptcha'')
     (sample_db\<lparr> realms := [approval_realm] \<rparr>))"

lemma verification_mail_approves:
  "map user_enabled (users pending_db) = [True, False]
   \<and> map user_enabled (users (snd (registration_verifyEmail sample_env approval_realm ''tok9'' pending_db))) = [True, True]"
  by code_simp

lemma captcha_skipped_without_token:
  "rg_captchaToken dto = None \<Longrightarrow> register_refused c r dto captchaProvider s = register_refused c' r dto None s"
  by (simp add: register_refused_def)

lemma api_attributes_unchecked:
  "map ua_value (userAttributes (snd (register_endpoint sample_env sample_user_draws sample_mail no_captcha sample_realm api_request None
     attribute_db))) = [''L'', ''none of the options'']"
  by code_simp

lemma email_sent_without_mailer:
  "isConfigured m (realm_name r) = False \<Longrightarrow> register_refused c r dto cp s = None \<Longrightarrow>
   realm_requireEmailVerification r \<Longrightarrow> rg_email dto \<noteq> [] \<Longrightarrow>
   map_sum id rr_emailSent (fst (register_with e d m c r dto cp s)) = Inr True"
  by (simp add: register_with_def Let_def registration_sendVerificationEmail_def)

lemma reset_keeps_sessions:
  "loginSessions (snd (handleResetPassword e d p r q s)) = loginSessions s"
  "sessions (snd (handleResetPassword e d p r q s)) = sessions s"
  "refreshTokens (snd (handleResetPassword e d p r q s)) = refreshTokens s"
  by (auto simp: handleResetPassword_def Let_def validateToken_def delete_token_def update_user_def recordHistory_def
      split: option.splits prod.splits)

lemma reset_accepts_remembered_password:
  "fst (handleResetPassword sample_env sample_user_draws sample_login_platform (sample_realm\<lparr> realm_passwordHistoryCount := 3 \<rparr>) reset_request
     (recordHistory sample_env ''h1'' ''u1'' ''r1'' ''brand-new'' 3 asked_db))
   = Inr (LoginInfo ''Your password has been reset. You can now sign in.'')
   \<and> checkHistory sample_env ''u1'' ''r1'' ''brand-new'' 3 (recordHistory sample_env ''h1'' ''u1'' ''r1'' ''brand-new'' 3 asked_db)"
  by code_simp

end
