(* ===== verification/Session_Admin.thy ===== *)
theory Session_Admin
  imports Users
begin

text \<open>
  \<open>src/src/sessions\<close> and \<open>src/src/impersonation\<close>: listing and revoking sessions, the hourly clean-up, and sessions that an
  administrator opens in the name of a user.  The results say that revoking everything of a user leaves nothing usable, that an
  impersonation is confined to what the realm allows and ends for good, and what the clean-up removes.

  The forward-auth sessions that the clean-up also prunes belong to a component that is not modelled, and so do the records of
  administrative events.
\<close>

subsection \<open>Listing\<close>

record session_info =
  si_id :: ident
  si_type :: string
  si_userId :: ident
  si_username :: string
  si_ipAddress :: "string option"
  si_userAgent :: "string option"
  si_createdAt :: millis
  si_expiresAt :: millis

definition username_of :: "ident \<Rightarrow> db \<Rightarrow> string" where
  "username_of uid s = (case user_by_id uid s of None \<Rightarrow> [] | Some u \<Rightarrow> user_username u)"

definition user_realm :: "ident \<Rightarrow> db \<Rightarrow> ident option" where
  "user_realm uid s = map_option user_realmId (user_by_id uid s)"

definition session_infos :: "env \<Rightarrow> realm_row \<Rightarrow> (ident \<Rightarrow> bool) \<Rightarrow> db \<Rightarrow> session_info list" where
  "session_infos e r mine s =
     order_desc si_createdAt
       (map (\<lambda>x. \<lparr> si_id = sess_id x, si_type = ''oauth'', si_userId = sess_userId x, si_username = username_of (sess_userId x) s,
                    si_ipAddress = sess_ipAddress x, si_userAgent = sess_userAgent x, si_createdAt = sess_createdAt x,
                    si_expiresAt = sess_expiresAt x \<rparr>)
          (order_desc sess_createdAt
             (filter (\<lambda>x. mine (sess_userId x) \<and> user_realm (sess_userId x) s = Some (realm_id r) \<and> sess_expiresAt x > now e) (sessions s)))
        @ map (\<lambda>l. \<lparr> si_id = ls_id l, si_type = ''sso'', si_userId = ls_userId l, si_username = username_of (ls_userId l) s,
                    si_ipAddress = ls_ipAddress l, si_userAgent = ls_userAgent l, si_createdAt = ls_createdAt l,
                    si_expiresAt = ls_expiresAt l \<rparr>)
            (order_desc ls_createdAt
               (filter (\<lambda>l. mine (ls_userId l) \<and> ls_realmId l = realm_id r \<and> ls_expiresAt l > now e) (loginSessions s))))"

definition getRealmSessions :: "env \<Rightarrow> realm_row \<Rightarrow> db \<Rightarrow> session_info list" where
  "getRealmSessions e r s = session_infos e r (\<lambda>_. True) s"

definition getUserSessions :: "env \<Rightarrow> realm_row \<Rightarrow> ident \<Rightarrow> db \<Rightarrow> session_info list" where
  "getUserSessions e r userId s = session_infos e r (\<lambda>uid. uid = userId) s"

subsection \<open>Revoking\<close>

definition revoke_every_token_of :: "ident list \<Rightarrow> db \<Rightarrow> db" where
  "revoke_every_token_of sids s =
     s\<lparr> refreshTokens := tbl_update (\<lambda>t. rt_sessionId t \<in> set sids) (\<lambda>t. t\<lparr> rt_revoked := True \<rparr>) (refreshTokens s) \<rparr>"

definition revokeSession :: "realm_row option \<Rightarrow> ident \<Rightarrow> string option \<Rightarrow> db \<Rightarrow> unit result \<times> db" where
  "revokeSession realm sessionId ty s =
     (let tryOauth = (falsy ty \<or> ty = Some ''oauth''); trySso = (falsy ty \<or> ty = Some ''sso'');
          session = (if tryOauth then List.find (\<lambda>x. sess_id x = sessionId) (sessions s) else None);
          loginSession = (if trySso then List.find (\<lambda>l. ls_id l = sessionId) (loginSessions s) else None)
      in case session of
           Some x \<Rightarrow>
             if realm \<noteq> None \<and> user_realm (sess_userId x) s \<noteq> Some (realm_id (the realm)) then (Inl NotFoundException, s)
             else (Inr (), delete_sessions [sessionId] (revoke_every_token_of [sessionId] s))
         | None \<Rightarrow>
             if ty = Some ''oauth'' then (Inl NotFoundException, s)
             else case loginSession of
               None \<Rightarrow> (Inl NotFoundException, s)
             | Some l \<Rightarrow>
                 if realm \<noteq> None \<and> ls_realmId l \<noteq> realm_id (the realm) then (Inl NotFoundException, s)
                 else (Inr (), s\<lparr> loginSessions := tbl_delete (\<lambda>l. ls_id l = sessionId) (loginSessions s) \<rparr>))"

definition revokeAllUserSessions :: "realm_row \<Rightarrow> ident \<Rightarrow> db \<Rightarrow> db" where
  "revokeAllUserSessions r userId s =
     (let sessionIds = map sess_id (filter (\<lambda>x. sess_userId x = userId \<and> user_realm userId s = Some (realm_id r)) (sessions s));
          s1 = (if sessionIds = [] then s else delete_sessions sessionIds (revoke_every_token_of sessionIds s))
      in s1\<lparr> loginSessions := tbl_delete (\<lambda>l. ls_userId l = userId \<and> ls_realmId l = realm_id r) (loginSessions s1) \<rparr>)"

subsection \<open>The hourly clean-up\<close>

definition cleanupExpiredSessions :: "env \<Rightarrow> db \<Rightarrow> db" where
  "cleanupExpiredSessions e s =
     (let s1 = delete_sessions (map sess_id (filter (\<lambda>x. sess_expiresAt x < now e) (sessions s))) s
      in s1\<lparr> loginSessions := tbl_delete (\<lambda>l. ls_expiresAt l < now e) (loginSessions s1),
              refreshTokens := tbl_delete (\<lambda>t. rt_expiresAt t < now e) (refreshTokens s1),
              authorizationCodes := tbl_delete (\<lambda>c. ac_expiresAt c < now e) (authorizationCodes s1),
              impersonationSessions := tbl_delete (\<lambda>i. is_expiresAt i < now e) (impersonationSessions s1) \<rparr>)"

subsection \<open>Impersonation\<close>

record impersonation_draws =
  im_sessionId :: ident
  im_impersonationId :: ident
  im_refreshId :: ident
  im_refreshToken :: string
  im_jti :: string

record impersonation_response =
  ir_access_token :: jwt
  ir_expires_in :: int
  ir_refresh_token :: string
  ir_impersonation_session_id :: ident

definition impersonation_refused :: "realm_row \<Rightarrow> ident \<Rightarrow> ident \<Rightarrow> db \<Rightarrow> app_error option" where
  "impersonation_refused r adminUserId targetUserId s =
     (if \<not> realm_impersonationEnabled r then Some ForbiddenException
      else case user_by_id targetUserId s of
        None \<Rightarrow> Some NotFoundException
      | Some target \<Rightarrow>
          if user_realmId target \<noteq> realm_id r then Some NotFoundException
          else if \<not> user_enabled target then Some BadRequestException
          else if starts_with ''api-key:'' adminUserId then Some ForbiddenException
          else if user_by_id adminUserId s = None then Some NotFoundException
          else if adminUserId = targetUserId then Some BadRequestException
          else None)"

definition impersonation_payload :: "env \<Rightarrow> realm_row \<Rightarrow> ident \<Rightarrow> ident \<Rightarrow> ident \<Rightarrow> claims" where
  "impersonation_payload e r adminUserId targetUserId sessionId =
     [''iss'' \<mapsto> VStr (getIssuer e r), ''sub'' \<mapsto> VStr targetUserId, ''aud'' \<mapsto> VStr (realm_name r), ''typ'' \<mapsto> VStr ''Bearer'',
      ''sid'' \<mapsto> VStr sessionId, ''act.sub'' \<mapsto> VStr adminUserId, ''impersonated'' \<mapsto> VBool True]"

text \<open>The nested claim \<open>act: { sub }\<close> is written \<open>act.sub\<close>.  Without an active signing key the rows of both sessions stay behind.\<close>

definition startImpersonation ::
  "env \<Rightarrow> impersonation_draws \<Rightarrow> realm_row \<Rightarrow> ident \<Rightarrow> ident \<Rightarrow> string option \<Rightarrow> db \<Rightarrow> impersonation_response result \<times> db" where
  "startImpersonation e d r adminUserId targetUserId ip s =
     (case impersonation_refused r adminUserId targetUserId s of
        Some err \<Rightarrow> (Inl err, s)
      | None \<Rightarrow>
          let maxDuration = realm_impersonationMaxDuration r; expiresAt = now e + maxDuration * 1000;
              s1 = s\<lparr> sessions := sessions s @
                     [\<lparr> sess_id = im_sessionId d, sess_userId = targetUserId, sess_ipAddress = ip, sess_userAgent = None,
                        sess_satisfiedAcr = None, sess_amr = [], sess_createdAt = now e, sess_expiresAt = expiresAt \<rparr>],
                     impersonationSessions := impersonationSessions s @
                     [\<lparr> is_id = im_impersonationId d, is_realmId = realm_id r, is_adminUserId = adminUserId,
                        is_targetUserId = targetUserId, is_sessionId = im_sessionId d, is_active = True, is_expiresAt = expiresAt,
                        is_endedAt = None \<rparr>] \<rparr>
          in case getActiveSigningKey (realm_id r) s1 of
               Inl err \<Rightarrow> (Inl err, s1)
             | Inr key \<Rightarrow>
                 let s2 = s1\<lparr> refreshTokens := refreshTokens s1 @
                       [\<lparr> rt_id = im_refreshId d, rt_sessionId = im_sessionId d, rt_tokenHash = sha256 e (im_refreshToken d),
                          rt_scope = Some ''openid'', rt_revoked = False, rt_isOffline = False, rt_clientId = None,
                          rt_createdAt = now e, rt_expiresAt = expiresAt \<rparr>] \<rparr>
                 in (Inr \<lparr> ir_access_token = signJwt e (im_jti d)
                             (impersonation_payload e r adminUserId targetUserId (im_sessionId d)) (sk_kid key) maxDuration,
                           ir_expires_in = maxDuration, ir_refresh_token = im_refreshToken d,
                           ir_impersonation_session_id = im_impersonationId d \<rparr>,
                     recordLoginEvent (login_event (realm_id r) ''IMPERSONATION_START'' (Some targetUserId)
                       (Some (im_sessionId d)) None ip None) s2))"

definition endImpersonation :: "env \<Rightarrow> realm_row \<Rightarrow> ident \<Rightarrow> ident \<Rightarrow> string option \<Rightarrow> db \<Rightarrow> unit result \<times> db" where
  "endImpersonation e r impersonationSessionId adminUserId ip s =
     (case List.find (\<lambda>i. is_id i = impersonationSessionId) (impersonationSessions s) of
        None \<Rightarrow> (Inl NotFoundException, s)
      | Some imp \<Rightarrow>
          if is_realmId imp \<noteq> realm_id r then (Inl NotFoundException, s)
          else if is_adminUserId imp \<noteq> adminUserId then (Inl ForbiddenException, s)
          else if \<not> impersonation_session_row.is_active imp then (Inr (), s)
          else
            let s1 = delete_sessions [is_sessionId imp] (revoke_every_token_of [is_sessionId imp] s);
                s2 = s1\<lparr> impersonationSessions := tbl_update (\<lambda>i. is_id i = impersonationSessionId)
                        (\<lambda>i. i\<lparr> is_active := False, is_endedAt := Some (now e) \<rparr>) (impersonationSessions s1) \<rparr>
            in (Inr (), recordLoginEvent (login_event (realm_id r) ''IMPERSONATION_END'' (Some (is_targetUserId imp))
                          (Some (is_sessionId imp)) None ip None) s2))"

subsection \<open>Revoking everything of a user\<close>

lemma session_infos_set:
  "x \<in> set (session_infos e r mine s) \<Longrightarrow>
     (\<exists>y \<in> set (sessions s). si_userId x = sess_userId y \<and> mine (sess_userId y) \<and> user_realm (sess_userId y) s = Some (realm_id r))
   \<or> (\<exists>l \<in> set (loginSessions s). si_userId x = ls_userId l \<and> mine (ls_userId l) \<and> ls_realmId l = realm_id r)"
  by (auto simp: session_infos_def)

lemma end_sessions_tables:
  fixes s :: db and ids :: "ident list"
  defines "s' \<equiv> delete_sessions ids (revoke_every_token_of ids s)"
  shows "sessions s' = filter (\<lambda>x. sess_id x \<notin> set ids) (sessions s)"
    and "refreshTokens s' = filter (\<lambda>t. rt_sessionId t \<notin> set ids) (refreshTokens s)"
    and "loginSessions s' = loginSessions s" "users s' = users s" "signingKeys s' = signingKeys s"
    and "impersonationSessions s' = impersonationSessions s"
proof -
  have "filter (\<lambda>t. rt_sessionId t \<notin> set ids) (tbl_update (\<lambda>t. rt_sessionId t \<in> set ids) (\<lambda>t. t\<lparr> rt_revoked := True \<rparr>) ts)
      = filter (\<lambda>t. rt_sessionId t \<notin> set ids) ts" for ts
    by (induction ts) auto
  then show "refreshTokens s' = filter (\<lambda>t. rt_sessionId t \<notin> set ids) (refreshTokens s)"
    by (simp add: s'_def delete_sessions_def revoke_every_token_of_def tbl_delete_def)
qed (simp_all add: s'_def delete_sessions_def revoke_every_token_of_def tbl_delete_def)

lemma revokeAll_tables:
  fixes s :: db and uid :: ident and r :: realm_row
  defines "ids \<equiv> map sess_id (filter (\<lambda>x. sess_userId x = uid \<and> user_realm uid s = Some (realm_id r)) (sessions s))"
    and "s' \<equiv> revokeAllUserSessions r uid s"
  shows "sessions s' = filter (\<lambda>x. sess_id x \<notin> set ids) (sessions s)"
    and "refreshTokens s' = filter (\<lambda>t. rt_sessionId t \<notin> set ids) (refreshTokens s)"
    and "loginSessions s' = filter (\<lambda>l. \<not> (ls_userId l = uid \<and> ls_realmId l = realm_id r)) (loginSessions s)"
    and "users s' = users s" "signingKeys s' = signingKeys s"
  unfolding s'_def revokeAllUserSessions_def Let_def ids_def [symmetric]
  by (simp_all add: end_sessions_tables tbl_delete_def)

text \<open>
  After every session of a user is revoked, the user has none in the realm: no browser session of the realm leads to the
  account, the list of its sessions is empty, its refresh tokens are gone, and every access token that carries one of its
  sessions is inactive for introspection and refused by the user-info endpoint.  The sessions of other users stay.
\<close>

theorem revoke_all_ends_sessions:
  assumes "user_realm uid s = Some (realm_id r)" and "distinct (map sess_id (sessions s))"
  shows "(\<forall>e' token l. login_session_by_token e' token (revokeAllUserSessions r uid s) = Some l \<and> ls_realmId l = realm_id r
            \<longrightarrow> ls_userId l \<noteq> uid)
    \<and> getUserSessions e r uid (revokeAllUserSessions r uid s) = []
    \<and> (\<forall>x \<in> set (sessions s). sess_userId x = uid \<longrightarrow>
         sess_id x \<notin> rt_sessionId ` set (refreshTokens (revokeAllUserSessions r uid s))
         \<and> (\<forall>v e' dbUp r' token k p. active_key (realm_id r') s = Some k \<and> v token (sk_publicKey k) = Some p
              \<and> str_claim p ''sid'' = Some (sess_id x) \<and> sess_id x \<noteq> [] \<longrightarrow>
              fst (introspect v e' dbUp r' token (revokeAllUserSessions r uid s)) = None
              \<and> fst (userinfo v e' dbUp r' token (revokeAllUserSessions r uid s)) = Inl UnauthorizedException))
    \<and> sessions (revokeAllUserSessions r uid s) = filter (\<lambda>x. sess_userId x \<noteq> uid) (sessions s)
    \<and> filter (\<lambda>l. ls_userId l \<noteq> uid) (loginSessions (revokeAllUserSessions r uid s)) = filter (\<lambda>l. ls_userId l \<noteq> uid) (loginSessions s)"
proof -
  let ?s = "revokeAllUserSessions r uid s"
  have ids: "set (map sess_id (filter (\<lambda>x. sess_userId x = uid \<and> user_realm uid s = Some (realm_id r)) (sessions s)))
      = sess_id ` {x \<in> set (sessions s). sess_userId x = uid}" using assms(1) by auto
  note tables = revokeAll_tables [where uid = uid and r = r and s = s, unfolded ids]
  have sess: "sessions ?s = filter (\<lambda>x. sess_userId x \<noteq> uid) (sessions s)"
    unfolding tables(1) by (rule filter_cong) (auto dest: inj_onD [OF distinct_map [THEN iffD1, OF assms(2), THEN conjunct2]])
  have browser: "ls_userId l \<noteq> uid" if "login_session_by_token e' token ?s = Some l" "ls_realmId l = realm_id r" for e' token l
    using that by (auto simp: login_session_by_token_def tables(3) dest: find_SomeD)
  have none: "getUserSessions e r uid ?s = []"
    using session_infos_set [of "hd (getUserSessions e r uid ?s)" e r "\<lambda>i. i = uid" ?s]
    by (auto simp: getUserSessions_def sess tables(3) dest: hd_in_set)
  have gone: "List.find (\<lambda>y. sess_id y = sess_id x) (sessions ?s) = None"
    and rt: "sess_id x \<notin> rt_sessionId ` set (refreshTokens ?s)" if "x \<in> set (sessions s)" "sess_userId x = uid" for x
    using that by (auto simp: tables find_None_iff image_iff)
  have refused: "fst (introspect v e' dbUp r' token ?s) = None \<and> fst (userinfo v e' dbUp r' token ?s) = Inl UnauthorizedException"
    if "x \<in> set (sessions s)" "sess_userId x = uid" "active_key (realm_id r') s = Some k" "v token (sk_publicKey k) = Some p"
      "str_claim p ''sid'' = Some (sess_id x)" "sess_id x \<noteq> []" for x v e' dbUp r' token k p
  proof -
    have "active_key (realm_id r') ?s = Some k" using that(3) by (simp add: active_key_def getActiveSigningKey_def tables(5))
    from session_gone_refused [where v = v, OF this that(4-6) gone [OF that(1,2)]] show ?thesis by simp
  qed
  have rest: "filter (\<lambda>l. ls_userId l \<noteq> uid) (loginSessions ?s) = filter (\<lambda>l. ls_userId l \<noteq> uid) (loginSessions s)"
    by (auto simp: tables(3) intro: filter_cong)
  show ?thesis
    by (intro conjI allI ballI impI; (elim conjE)?) (assumption | rule none browser rt refused [THEN conjunct1] refused [THEN conjunct2] sess rest)+
qed

theorem revoke_all_ends_sessions_witness:
  "getUserSessions sample_env sample_realm ''u1'' tokens_db \<noteq> []
   \<and> getUserSessions sample_env sample_realm ''u1'' (revokeAllUserSessions sample_realm ''u1'' tokens_db) = []
   \<and> refreshTokens (revokeAllUserSessions sample_realm ''u1'' tokens_db) = []"
proof (intro conjI)
  have "user_realm ''u1'' tokens_db = Some (realm_id sample_realm)" by code_simp
  moreover have "distinct (map sess_id (sessions tokens_db))" by (simp add: tokens_db_def)
  ultimately show "getUserSessions sample_env sample_realm ''u1'' (revokeAllUserSessions sample_realm ''u1'' tokens_db) = []"
    using revoke_all_ends_sessions [of "''u1''" tokens_db sample_realm sample_env] by blast
qed code_simp+

subsection \<open>What an impersonation can do\<close>

lemma recordLoginEvent_rows:
  "impersonationSessions (recordLoginEvent ev s) = impersonationSessions s" "signingKeys (recordLoginEvent ev s) = signingKeys s"
  "sessions (recordLoginEvent ev s) = sessions s" "refreshTokens (recordLoginEvent ev s) = refreshTokens s"
  by (simp_all add: recordLoginEvent_def split: option.split)

lemma startImpersonation_cases:
  assumes "startImpersonation e d r admin target ip s = (Inr resp, s')"
  obtains (ok) u a and key :: signing_key_row where "realm_impersonationEnabled r" "user_by_id target s = Some u" "user_realmId u = realm_id r" "user_enabled u"
    "\<not> starts_with ''api-key:'' admin" "user_by_id admin s = Some a" "admin \<noteq> target"
    "resp = \<lparr> ir_access_token = signJwt e (im_jti d) (impersonation_payload e r admin target (im_sessionId d)) (sk_kid key)
                (realm_impersonationMaxDuration r),
              ir_expires_in = realm_impersonationMaxDuration r, ir_refresh_token = im_refreshToken d,
              ir_impersonation_session_id = im_impersonationId d \<rparr>"
    "impersonationSessions s' = impersonationSessions s @
       [\<lparr> is_id = im_impersonationId d, is_realmId = realm_id r, is_adminUserId = admin, is_targetUserId = target,
          is_sessionId = im_sessionId d, is_active = True, is_expiresAt = now e + realm_impersonationMaxDuration r * 1000,
          is_endedAt = None \<rparr>]"
    "signingKeys s' = signingKeys s"
proof -
  from assms obtain u where g: "realm_impersonationEnabled r" "user_by_id target s = Some u" "user_realmId u = realm_id r" "user_enabled u"
    "\<not> starts_with ''api-key:'' admin" "user_by_id admin s \<noteq> None" "admin \<noteq> target"
    and none: "impersonation_refused r admin target s = None"
    by (auto simp: startImpersonation_def impersonation_refused_def split: option.splits if_splits)
  have keys: "getActiveSigningKey rid (s\<lparr> sessions := x, impersonationSessions := y \<rparr>) = getActiveSigningKey rid s" for rid x y
    by (simp add: getActiveSigningKey_def)
  obtain key where key: "getActiveSigningKey (realm_id r) s = Inr key"
    using assms by (auto simp: startImpersonation_def none keys Let_def split: sum.splits)
  show thesis
    using assms g by (intro ok [of u "the (user_by_id admin s)" key])
      (auto simp: startImpersonation_def none key keys Let_def recordLoginEvent_rows)
qed

lemma endImpersonation_cases:
  assumes "List.find (\<lambda>i. is_id i = i0) (impersonationSessions s) = Some imp"
    and "is_realmId imp = realm_id r" "impersonation_session_row.is_active imp"
  shows "admin \<noteq> is_adminUserId imp \<Longrightarrow> endImpersonation e r i0 admin ip s = (Inl ForbiddenException, s)"
    and "admin = is_adminUserId imp \<Longrightarrow> \<exists>s'. endImpersonation e r i0 admin ip s = (Inr (), s')
           \<and> sessions s' = filter (\<lambda>x. sess_id x \<noteq> is_sessionId imp) (sessions s)
           \<and> refreshTokens s' = filter (\<lambda>t. rt_sessionId t \<noteq> is_sessionId imp) (refreshTokens s)
           \<and> signingKeys s' = signingKeys s
           \<and> List.find (\<lambda>i. is_id i = i0) (impersonationSessions s') = Some (imp\<lparr> is_active := False, is_endedAt := Some (now e) \<rparr>)"
proof -
  show "admin \<noteq> is_adminUserId imp \<Longrightarrow> endImpersonation e r i0 admin ip s = (Inl ForbiddenException, s)"
    using assms by (auto simp: endImpersonation_def)
  show "\<exists>s'. endImpersonation e r i0 admin ip s = (Inr (), s')
      \<and> sessions s' = filter (\<lambda>x. sess_id x \<noteq> is_sessionId imp) (sessions s)
      \<and> refreshTokens s' = filter (\<lambda>t. rt_sessionId t \<noteq> is_sessionId imp) (refreshTokens s)
      \<and> signingKeys s' = signingKeys s
      \<and> List.find (\<lambda>i. is_id i = i0) (impersonationSessions s') = Some (imp\<lparr> is_active := False, is_endedAt := Some (now e) \<rparr>)"
    if "admin = is_adminUserId imp"
    using that assms by (simp add: endImpersonation_def Let_def end_sessions_tables recordLoginEvent_rows find_tbl_update_hit)
qed

text \<open>
  C19.  An impersonation is confined.  It starts only where the realm allows it, for an enabled account of the realm other than the
  administrator's own, and never for a caller known only by an API key; its token names the account as subject and the
  administrator as actor and lives no longer than the realm's limit.  Only that administrator can end it, and once it is
  ended its session and refresh token are gone, and its access token is inactive for introspection and refused by the user-info endpoint.
\<close>

theorem impersonation_confined:
  assumes "startImpersonation e d r admin target ip s = (Inr resp, s1)"
    and "im_impersonationId d \<notin> is_id ` set (impersonationSessions s)" and "im_sessionId d \<noteq> []"
  shows "realm_impersonationEnabled r \<and> (\<exists>u. user_by_id target s = Some u \<and> user_realmId u = realm_id r \<and> user_enabled u)
    \<and> user_by_id admin s \<noteq> None \<and> admin \<noteq> target \<and> \<not> starts_with ''api-key:'' admin
    \<and> (let p = jwt_payload (ir_access_token resp) in p ''sub'' = Some (VStr target) \<and> p ''act.sub'' = Some (VStr admin)
         \<and> p ''sid'' = Some (VStr (im_sessionId d)) \<and> p ''exp'' = Some (VInt (now e div 1000 + realm_impersonationMaxDuration r)))
    \<and> (other \<noteq> admin \<longrightarrow>
         endImpersonation e' r (ir_impersonation_session_id resp) other ip' s1 = (Inl ForbiddenException, s1))
    \<and> (\<exists>s2. endImpersonation e' r (ir_impersonation_session_id resp) admin ip' s1 = (Inr (), s2)
         \<and> im_sessionId d \<notin> sess_id ` set (sessions s2) \<and> im_sessionId d \<notin> rt_sessionId ` set (refreshTokens s2)
         \<and> (\<forall>v e' dbUp token k p. active_key (realm_id r) s1 = Some k \<and> v token (sk_publicKey k) = Some p
              \<and> str_claim p ''sid'' = Some (im_sessionId d) \<longrightarrow>
              fst (introspect v e' dbUp r token s2) = None \<and> fst (userinfo v e' dbUp r token s2) = Inl UnauthorizedException))"
  using assms(1)
proof (cases rule: startImpersonation_cases)
  case (ok u a key)
  let ?i = "im_impersonationId d"
  define imp where "imp = last (impersonationSessions s1)"
  have "List.find (\<lambda>i. is_id i = ?i) (xs @ [y]) = Some y" if "?i \<notin> is_id ` set xs" "is_id y = ?i" for xs and y :: impersonation_session_row
    using that by (induction xs) auto
  then have find: "List.find (\<lambda>i. is_id i = ?i) (impersonationSessions s1) = Some imp"
    using assms(2) by (simp add: ok(9) imp_def)
  have imp: "is_realmId imp = realm_id r" "impersonation_session_row.is_active imp" "is_adminUserId imp = admin" "is_sessionId imp = im_sessionId d"
    by (simp_all add: imp_def ok(9))
  have resp: "ir_impersonation_session_id resp = ?i" by (simp add: ok(8))
  have claims: "let p = jwt_payload (ir_access_token resp) in p ''sub'' = Some (VStr target) \<and> p ''act.sub'' = Some (VStr admin)
      \<and> p ''sid'' = Some (VStr (im_sessionId d)) \<and> p ''exp'' = Some (VInt (now e div 1000 + realm_impersonationMaxDuration r))"
    by (simp add: ok(8) signJwt_def impersonation_payload_def Let_def)
  from endImpersonation_cases(2) [OF find imp(1,2), of admin e' ip'] obtain s2 where s2:
    "endImpersonation e' r ?i admin ip' s1 = (Inr (), s2)" "sessions s2 = filter (\<lambda>x. sess_id x \<noteq> im_sessionId d) (sessions s1)"
    "refreshTokens s2 = filter (\<lambda>t. rt_sessionId t \<noteq> im_sessionId d) (refreshTokens s1)" "signingKeys s2 = signingKeys s1"
    using imp(3,4) by auto
  have gone: "im_sessionId d \<notin> sess_id ` set (sessions s2)" "im_sessionId d \<notin> rt_sessionId ` set (refreshTokens s2)"
    using s2(2,3) by auto
  have refused: "fst (introspect v e' dbUp r token s2) = None \<and> fst (userinfo v e' dbUp r token s2) = Inl UnauthorizedException"
    if "active_key (realm_id r) s1 = Some k" "v token (sk_publicKey k) = Some p" "str_claim p ''sid'' = Some (im_sessionId d)"
    for v e' dbUp token k p
  proof -
    have "active_key (realm_id r) s2 = Some k" using that(1) by (simp add: active_key_def getActiveSigningKey_def s2(4))
    moreover have "List.find (\<lambda>x. sess_id x = im_sessionId d) (sessions s2) = None" using gone(1) by (force simp: find_None_iff)
    ultimately show ?thesis using session_gone_refused [where v = v and p = p] that(2,3) assms(3) by blast
  qed
  have ended: "\<exists>s2. endImpersonation e' r (ir_impersonation_session_id resp) admin ip' s1 = (Inr (), s2)
         \<and> im_sessionId d \<notin> sess_id ` set (sessions s2) \<and> im_sessionId d \<notin> rt_sessionId ` set (refreshTokens s2)
         \<and> (\<forall>v e' dbUp token k p. active_key (realm_id r) s1 = Some k \<and> v token (sk_publicKey k) = Some p
              \<and> str_claim p ''sid'' = Some (im_sessionId d) \<longrightarrow>
              fst (introspect v e' dbUp r token s2) = None \<and> fst (userinfo v e' dbUp r token s2) = Inl UnauthorizedException)"
    unfolding resp using s2(1) gone refused by (intro exI [of _ s2]) blast
  show ?thesis using ok(1-7) claims ended endImpersonation_cases(1) [OF find imp(1,2)] unfolding resp imp(3) by auto
qed

definition impersonating_realm :: realm_row where
  "impersonating_realm = sample_realm\<lparr> realm_impersonationEnabled := True, realm_impersonationMaxDuration := 1800 \<rparr>"

definition sample_impersonation_draws :: impersonation_draws where
  "sample_impersonation_draws = \<lparr> im_sessionId = ''s9'', im_impersonationId = ''i9'', im_refreshId = ''t9'',
     im_refreshToken = ''imp-refresh'', im_jti = ''j9'' \<rparr>"

definition admin_db :: db where
  "admin_db = tokens_db\<lparr> users := users tokens_db @ [sample_user\<lparr> user_id := ''boss'', user_username := ''boss'' \<rparr>] \<rparr>"

definition impersonated_db :: db where
  "impersonated_db = snd (startImpersonation sample_env sample_impersonation_draws impersonating_realm ''boss'' ''u1'' None admin_db)"

theorem impersonation_confined_witness:
  "map sess_id (sessions impersonated_db) = [''s0'', ''s9'']
   \<and> endImpersonation sample_env impersonating_realm ''i9'' ''u1'' None impersonated_db = (Inl ForbiddenException, impersonated_db)
   \<and> (\<exists>s2. endImpersonation sample_env impersonating_realm ''i9'' ''boss'' None impersonated_db = (Inr (), s2)
        \<and> ''s9'' \<notin> sess_id ` set (sessions s2))"
proof -
  let ?S = "startImpersonation sample_env sample_impersonation_draws impersonating_realm ''boss'' ''u1'' None admin_db"
  have run: "?S = (Inr (projr (fst ?S)), impersonated_db)"
  proof (rule prod_eqI)
    have "isl (fst ?S) = False" by code_simp
    then show "fst ?S = fst (Inr (projr (fst ?S)), impersonated_db)" by (cases "fst ?S") simp_all
  qed (simp add: impersonated_db_def)
  have "im_impersonationId sample_impersonation_draws \<notin> is_id ` set (impersonationSessions admin_db)"
    "im_sessionId sample_impersonation_draws \<noteq> []" "ir_impersonation_session_id (projr (fst ?S)) = ''i9''"
    "map sess_id (sessions impersonated_db) = [''s0'', ''s9'']" "im_sessionId sample_impersonation_draws = ''s9''" by code_simp+
  with impersonation_confined [OF run, of "''u1''" sample_env None] show ?thesis by auto
qed

subsection \<open>What the clean-up removes\<close>

lemma find_filter_irrelevant:
  assumes "\<And>x. x \<in> set xs \<Longrightarrow> p x \<Longrightarrow> q x"
  shows "List.find p (filter q xs) = List.find p xs"
  using assms by (induction xs) auto

lemma find_unique_filter:
  assumes "distinct (map k xs)"
  shows "List.find (\<lambda>x. k x = y) (filter q xs) = (case List.find (\<lambda>x. k x = y) xs of None \<Rightarrow> None | Some x \<Rightarrow> if q x then Some x else None)"
  using assms
proof (induction xs)
  case (Cons x xs)
  have "List.find (\<lambda>z. k z = y) xs = None" if "k x = y"
    using Cons.prems that by (simp add: find_None_iff image_iff) metis
  with Cons show ?case by (auto split: option.splits)
qed simp

lemma cleanup_tables:
  "loginSessions (cleanupExpiredSessions e s) = filter (\<lambda>l. \<not> ls_expiresAt l < now e) (loginSessions s)"
  "authorizationCodes (cleanupExpiredSessions e s) = filter (\<lambda>c. \<not> ac_expiresAt c < now e) (authorizationCodes s)"
  "users (cleanupExpiredSessions e s) = users s"
  by (simp_all add: cleanupExpiredSessions_def Let_def delete_sessions_def tbl_delete_def)

text \<open>
  The hourly clean-up is invisible to the sign-in pages and to the authorization-code grant: from the moment it runs,
  a browser session is valid exactly if it would have been valid without it, and the same codes can be redeemed.
\<close>

theorem cleanup_invisible:
  assumes "now e \<le> now e'" and "distinct (map ls_tokenHash (loginSessions s))"
  shows "validateLoginSession e' r token (cleanupExpiredSessions e s) = validateLoginSession e' r token s
    \<and> fst (use_code code (now e') (cleanupExpiredSessions e s)) = fst (use_code code (now e') s)"
proof
  let ?s = "cleanupExpiredSessions e s"
  have "List.find (code_live code (now e')) (authorizationCodes ?s) = List.find (code_live code (now e')) (authorizationCodes s)"
    using assms(1) unfolding cleanup_tables by (intro find_filter_irrelevant) (auto simp: code_live_def)
  then show "fst (use_code code (now e') ?s) = fst (use_code code (now e') s)" by (simp add: use_code_def split: option.split)
  have login: "login_session_by_token e' token ?s = (case login_session_by_token e' token s of None \<Rightarrow> None
      | Some l \<Rightarrow> if \<not> ls_expiresAt l < now e then Some l else None)"
    unfolding login_session_by_token_def cleanup_tables by (rule find_unique_filter [OF assms(2)])
  have "stepUpRecords ?s = stepUpRecords s" by (simp add: cleanupExpiredSessions_def Let_def delete_sessions_def)
  then have "sessionSatisfiesMfa e' l ?s = sessionSatisfiesMfa e' l s" for l by (simp add: sessionSatisfiesMfa_def)
  with assms(1) show "validateLoginSession e' r token ?s = validateLoginSession e' r token s"
    by (simp add: validateLoginSession_def login user_by_id_def cleanup_tables split: option.split)
qed

definition browser_session :: "ident \<Rightarrow> string \<Rightarrow> millis \<Rightarrow> login_session_row" where
  "browser_session i h t = \<lparr> ls_id = i, ls_userId = ''u1'', ls_realmId = ''r1'', ls_tokenHash = h, ls_ipAddress = None,
     ls_userAgent = None, ls_satisfiedAcr = None, ls_amr = [''pwd''], ls_createdAt = 0, ls_expiresAt = t \<rparr>"

definition browsing_db :: db where
  "browsing_db = tokens_db\<lparr> loginSessions := [browser_session ''l1'' ''live'' 99999999, browser_session ''l2'' ''stale'' 5] \<rparr>"

theorem cleanup_invisible_witness:
  "map ls_id (loginSessions (cleanupExpiredSessions sample_env browsing_db)) = [''l1'']
   \<and> validateLoginSession sample_env sample_realm ''live'' (cleanupExpiredSessions sample_env browsing_db) = Some sample_user
   \<and> validateLoginSession sample_env sample_realm ''stale'' (cleanupExpiredSessions sample_env browsing_db) = None"
proof -
  have "distinct (map ls_tokenHash (loginSessions browsing_db))" by (simp add: browsing_db_def browser_session_def)
  note same = cleanup_invisible [OF order.refl this, THEN conjunct1]
  have "map ls_id (loginSessions (cleanupExpiredSessions sample_env browsing_db)) = [''l1'']"
    "validateLoginSession sample_env sample_realm ''live'' browsing_db = Some sample_user"
    "validateLoginSession sample_env sample_realm ''stale'' browsing_db = None" by code_simp+
  with same show ?thesis by simp
qed

text \<open>
  The clean-up deletes a session at the end of its own life, and with it every refresh token of the session, offline tokens and
  tokens still valid included.
\<close>

lemma cleanup_drops_live_tokens:
  assumes "x \<in> set (sessions s)" "sess_expiresAt x < now e" "rt_sessionId t = sess_id x"
  shows "t \<notin> set (refreshTokens (cleanupExpiredSessions e s))"
  using assms by (auto simp: cleanupExpiredSessions_def Let_def delete_sessions_def)

text \<open>The refresh token of an impersonation names no client, and the token endpoint refuses it from every client.\<close>

lemma impersonation_refresh_refused:
  assumes "startImpersonation e d r admin target ip s = (Inr resp, s1)" and "body ''refresh_token'' = Some (ir_refresh_token resp)"
    and "sha256 e (im_refreshToken d) \<notin> rt_tokenHash ` set (refreshTokens s)" "sha256 e' = sha256 e"
  shows "\<exists>err. fst (handleRefreshTokenGrant e' d' r' body ip' s1) = Inl err"
proof -
  from assms(1) obtain t where t: "refreshTokens s1 = refreshTokens s @ [t]" "rt_tokenHash t = sha256 e (im_refreshToken d)" "rt_clientId t = None"
    and resp: "ir_refresh_token resp = im_refreshToken d"
    by (auto simp: startImpersonation_def Let_def recordLoginEvent_rows split: option.splits sum.splits)
  have "List.find (\<lambda>t. rt_tokenHash t = sha256 e (im_refreshToken d)) (refreshTokens s) = None"
    using assms(3) by (force simp: find_None_iff)
  then have "token_by_hash (sha256 e' (ir_refresh_token resp)) s1 = Some t"
    using assms(4) resp t by (simp add: token_by_hash_def find_append_None)
  with assms(2) t(3) show ?thesis
    by (auto simp: handleRefreshTokenGrant_def and_then_def Let_def split: sum.split)
qed

text \<open>Without an active signing key the call fails, and the session rows it had written stay.\<close>

lemma impersonation_without_key:
  assumes "impersonation_refused r admin target s = None" "getActiveSigningKey (realm_id r) s = Inl err"
  shows "\<exists>s'. startImpersonation e d r admin target ip s = (Inl err, s') \<and> length (sessions s') = length (sessions s) + 1"
  using assms by (auto simp: startImpersonation_def getActiveSigningKey_def Let_def)

end
