(* ===== verification/Proxy_Ip.thy ===== *)
theory Proxy_Ip
  imports Ip_Guard
begin

unbundle bit_operations_syntax

text \<open>
  \<open>src/src/common/utils/proxy-ip.util.ts\<close>: which address counts as the client's.  The bitwise operators of JavaScript work on
  32 bits, a \<open>32 word\<close> here; the signed reading of an intermediate result is immaterial, since both sides of the one comparison are
  read the same way.  The parsed configuration is cached for the life of the process and depends on the environment variable
  only, so it is the argument \<open>raw\<close>.
\<close>

subsection \<open>Address blocks\<close>

fun cidr_fold :: "string list \<Rightarrow> 32 word \<Rightarrow> 32 word option" where
  "cidr_fold [] base = Some base"
| "cidr_fold (part # parts) base =
     (case parseInt part of
        None \<Rightarrow> None
      | Some octet \<Rightarrow> if octet < 0 \<or> octet > 255 then None else cidr_fold parts (push_bit 8 base OR word_of_int octet))"

definition parseCidr :: "string \<Rightarrow> (32 word \<times> 32 word) option" where
  "parseCidr cidr =
     (let pieces = split_on (CHR ''/'') cidr; addr = hd pieces; parts = split_on (CHR ''.'') addr
      in if length parts \<noteq> 4 then None
         else case cidr_fold parts 0 of
                None \<Rightarrow> None
              | Some base \<Rightarrow>
                  (case (if length pieces > 1 then parseInt (pieces ! 1) else Some 32) of
                     None \<Rightarrow> None
                   | Some prefixLen \<Rightarrow>
                       if prefixLen < 0 \<or> prefixLen > 32 then None
                       else let msk = (if prefixLen = 0 then 0 else push_bit (32 - nat prefixLen) (NOT 0)) :: 32 word
                            in Some (base AND msk, msk)))"

definition peerInCidr :: "string \<Rightarrow> string \<Rightarrow> bool" where
  "peerInCidr ip cidr =
     (case (parseCidr cidr, parseCidr ip) of
        (Some (base, msk), Some (host, _)) \<Rightarrow> host AND msk = base
      | _ \<Rightarrow> False)"

subsection \<open>Trusted proxies\<close>

datatype trusted_proxies = NoProxy | AllProxies | ProxyList "string list"

definition parseTrustedProxies :: "string option \<Rightarrow> trusted_proxies" where
  "parseTrustedProxies raw =
     (if falsy raw \<or> js_trim (the raw) = [] then NoProxy
      else if js_trim (the raw) = ''*'' then AllProxies
      else ProxyList (filter (\<lambda>x. x \<noteq> []) (map js_trim (split_on (CHR '','') (the raw)))))"

text \<open>The socket's address and the header \<open>X-Forwarded-For\<close> of the request are the arguments \<open>remote\<close> and \<open>xff\<close>.\<close>

definition resolveClientIp :: "string option \<Rightarrow> string option \<Rightarrow> string option \<Rightarrow> string" where
  "resolveClientIp raw remote xff =
     (let socketIp = nullish_else remote ''unknown''; config = parseTrustedProxies raw
      in if config = NoProxy \<or> falsy xff then socketIp
         else if (case config of AllProxies \<Rightarrow> True | ProxyList entries \<Rightarrow> list_ex (\<lambda>cidr. peerInCidr socketIp cidr) entries | NoProxy \<Rightarrow> False)
         then let clientIp = js_trim (hd (split_on (CHR '','') (the xff))) in if clientIp \<noteq> [] then clientIp else socketIp
         else socketIp)"

subsection \<open>Blocks are prefixes\<close>

definition cidr_text :: "nat list \<times> nat \<Rightarrow> string" where
  "cidr_text n = dotted (fst n) @ ''/'' @ show_nat (snd n)"

definition in_block :: "nat list \<Rightarrow> nat list \<times> nat \<Rightarrow> bool" where
  "in_block os n \<longleftrightarrow> address os div 2 ^ (32 - snd n) = address (fst n) div 2 ^ (32 - snd n)"

lemma digits_only [simp]: "\<not> is_js_digit (CHR ''/'')" "\<not> is_js_digit (CHR '','')" "\<not> js_space (CHR ''/'')" "\<not> js_space (CHR ''.'')"
  "\<not> is_js_digit (CHR ''*'')"
  by code_simp+

lemma dotted_text: "CHR ''/'' \<notin> set (dotted os)" "CHR '','' \<notin> set (dotted os)"
  using dotted_chars [of "CHR ''/''" os] dotted_chars [of "CHR '',''" os] by auto

lemma cidr_fold_octets:
  assumes "octets os"
  shows "cidr_fold (map show_nat os) 0 = Some (word_of_nat (address os))"
proof -
  obtain a b c d where os: "os = [a, b, c, d]" and lt: "a < 256" "b < 256" "c < 256" "d < 256"
    using assms by (rule octetsE)
  have one: "cidr_fold (show_nat n # ps) (word_of_nat v) = cidr_fold ps (word_of_nat (v * 256 + n))"
    if "n < 256" "v < 2 ^ 24" for n v ps
    using that by (simp add: parseInt_show_nat octet_step)
  have "cidr_fold (map show_nat os) (word_of_nat 0) = Some (word_of_nat (address os))"
    using lt one [of a 0] one [of b a] one [of c "a * 256 + b"] one [of d "(a * 256 + b) * 256 + c"]
    by (simp add: os address_def del: of_nat_add of_nat_mult cidr_fold.simps(2))
  then show ?thesis by simp
qed

definition prefix_mask :: "nat \<Rightarrow> 32 word" where
  "prefix_mask l = (if l = 0 then 0 else push_bit (32 - l) (NOT 0))"

lemma parseCidr_block:
  assumes "octets ns" "l \<le> 32"
  shows "parseCidr (cidr_text (ns, l)) = Some (word_of_nat (address ns) AND prefix_mask l, prefix_mask l)"
proof -
  have ne: "ns \<noteq> []" "length ns = 4" using assms(1) by (auto elim: octetsE)
  have "split_on (CHR ''/'') (cidr_text (ns, l)) = [dotted ns, show_nat l]"
    using dotted_text(1) [of ns] show_nat_is_digit [of _ l]
    by (simp add: cidr_text_def split_on_append split_on_free) (metis digits_only(1) split_on_free)
  with ne assms show ?thesis
    by (simp add: parseCidr_def split_dotted cidr_fold_octets parseInt_show_nat prefix_mask_def Let_def)
qed

lemma parseCidr_host:
  assumes "octets os"
  shows "parseCidr (dotted os) = Some (word_of_nat (address os), NOT 0)"
proof -
  have ne: "os \<noteq> []" "length os = 4" using assms by (auto elim: octetsE)
  with assms show ?thesis
    by (simp add: parseCidr_def split_on_free dotted_text split_dotted cidr_fold_octets)
qed

lemma prefix_mask_block:
  assumes "octets os" "octets ns" "l \<le> 32"
  shows "word_of_nat (address os) AND prefix_mask l = word_of_nat (address ns) AND prefix_mask l \<longleftrightarrow> in_block os (ns, l)"
proof (cases "l = 0")
  case True
  then show ?thesis using address_less [OF assms(1)] address_less [OF assms(2)] by (simp add: prefix_mask_def in_block_def)
next
  case False
  have "unat (word_of_nat (address xs) :: 32 word) = address xs" if "octets xs" for xs
    using address_less [OF that] by (simp add: unat_of_nat)
  with False show ?thesis
    using mask_eq_iff [of "32 - l" "word_of_nat (address os)" "word_of_nat (address ns)"] assms
    by (simp add: prefix_mask_def in_block_def)
qed

lemma peerInCidr_iff:
  assumes "octets os" "octets ns" "l \<le> 32"
  shows "peerInCidr (dotted os) (cidr_text (ns, l)) \<longleftrightarrow> in_block os (ns, l)"
  using prefix_mask_block [OF assms] by (simp add: peerInCidr_def parseCidr_block parseCidr_host assms)

lemma cidr_text_plain: "c \<in> set (cidr_text n) \<Longrightarrow> \<not> js_space c \<and> c \<noteq> CHR ''*'' \<and> c \<noteq> CHR '',''" "cidr_text n \<noteq> []"
  using dotted_chars [of c "fst n"] show_nat_is_digit [of c "snd n"] is_digit_not [of c]
  by (auto simp: cidr_text_def)

lemma parse_proxy_list:
  assumes "nets \<noteq> []"
  shows "parseTrustedProxies (Some (join_with (CHR '','') (map cidr_text nets))) = ProxyList (map cidr_text nets)"
proof -
  let ?raw = "join_with (CHR '','') (map cidr_text nets)"
  have chars: "\<not> js_space c \<and> c \<noteq> CHR ''*''" if "c \<in> set ?raw" for c
    using join_with_chars [OF that] cidr_text_plain(1) by (auto simp: js_space_def)
  have trim: "js_trim ?raw = ?raw" using chars by (intro js_trim_no_space) auto
  have "?raw \<noteq> []" using hd_join [of "map cidr_text nets" "CHR '',''"] cidr_text_plain(2) assms by (cases nets) auto
  then have "hd ?raw \<in> set ?raw \<and> ?raw \<noteq> []" by simp
  moreover have "split_on (CHR '','') ?raw = map cidr_text nets"
    using assms cidr_text_plain(1) by (intro split_on_join) auto
  moreover have "map js_trim (map cidr_text nets) = map cidr_text nets"
    using cidr_text_plain(1) by (auto intro: js_trim_no_space)
  moreover have "?raw \<noteq> ''*''" using chars [of "hd ?raw"] calculation(1) by auto
  ultimately show ?thesis using trim cidr_text_plain(2) by (simp add: parseTrustedProxies_def falsy_def filter_id_conv)
qed

text \<open>
  The address of the client cannot be forged past the configured proxies.  With a list of address blocks in
  \<open>TRUSTED_PROXIES\<close> the forwarding header is used exactly if the address of the peer agrees with one of the blocks in its leading
  bits; for any other peer, and with no list at all, the answer is the peer's own address whatever the header says.
\<close>

theorem client_ip_from_trusted_peer:
  assumes "octets os" and "nets \<noteq> []" and "\<forall>(ns, l) \<in> set nets. octets ns \<and> l \<le> 32"
  shows "resolveClientIp (Some (join_with (CHR '','') (map cidr_text nets))) (Some (dotted os)) xff =
      (if falsy xff \<or> \<not> (\<exists>n \<in> set nets. in_block os n) \<or> js_trim (hd (split_on (CHR '','') (the xff))) = [] then dotted os
       else js_trim (hd (split_on (CHR '','') (the xff))))
    \<and> resolveClientIp None (Some (dotted os)) xff = dotted os"
proof
  have "list_ex (\<lambda>cidr. peerInCidr (dotted os) cidr) (map cidr_text nets) \<longleftrightarrow> (\<exists>n \<in> set nets. in_block os n)"
    using assms peerInCidr_iff [OF assms(1)] by (fastforce simp: list_ex_iff)
  then show "resolveClientIp (Some (join_with (CHR '','') (map cidr_text nets))) (Some (dotted os)) xff =
      (if falsy xff \<or> \<not> (\<exists>n \<in> set nets. in_block os n) \<or> js_trim (hd (split_on (CHR '','') (the xff))) = [] then dotted os
       else js_trim (hd (split_on (CHR '','') (the xff))))"
    by (simp add: resolveClientIp_def parse_proxy_list [OF assms(2)] Let_def)
  show "resolveClientIp None (Some (dotted os)) xff = dotted os" by (simp add: resolveClientIp_def parseTrustedProxies_def)
qed

definition sample_blocks :: "(nat list \<times> nat) list" where
  "sample_blocks = [([10, 0, 0, 1], 32), ([172, 16, 0, 0], 12)]"

theorem client_ip_from_trusted_peer_witness:
  "resolveClientIp (Some ''10.0.0.1/32,172.16.0.0/12'') (Some ''172.31.9.9'') (Some ''203.0.113.7, 172.16.0.1'') = ''203.0.113.7''
   \<and> resolveClientIp (Some ''10.0.0.1/32,172.16.0.0/12'') (Some ''172.32.0.1'') (Some ''203.0.113.7'') = ''172.32.0.1''"
proof -
  have raw: "join_with (CHR '','') (map cidr_text sample_blocks) = ''10.0.0.1/32,172.16.0.0/12''"
    "dotted [172, 31, 9, 9] = ''172.31.9.9''" "dotted [172, 32, 0, 1] = ''172.32.0.1''" by code_simp+
  have ok: "octets [172, 31, 9, 9]" "octets [172, 32, 0, 1]" "sample_blocks \<noteq> []" "\<forall>(ns, l) \<in> set sample_blocks. octets ns \<and> l \<le> 32"
    "in_block [172, 31, 9, 9] ([172, 16, 0, 0], 12)" "\<not> (\<exists>n \<in> set sample_blocks. in_block [172, 32, 0, 1] n)"
    by (simp_all add: octets_def sample_blocks_def in_block_def address_def)
  have first: "js_trim (hd (split_on (CHR '','') ''203.0.113.7, 172.16.0.1'')) = ''203.0.113.7''"
    "\<not> falsy (Some ''203.0.113.7, 172.16.0.1'')" by code_simp+
  have "\<exists>n \<in> set sample_blocks. in_block [172, 31, 9, 9] n" using ok(5) by (auto simp: sample_blocks_def)
  with client_ip_from_trusted_peer [OF ok(1,3,4), of "Some ''203.0.113.7, 172.16.0.1''", unfolded raw]
    client_ip_from_trusted_peer [OF ok(2-4), of "Some ''203.0.113.7''", unfolded raw] ok(6) first
  show ?thesis by simp
qed

text \<open>
  A server that listens on both families reports an IPv4 peer as an IPv6 address.  That text is no IPv4 address for
  \<open>parseCidr\<close>, so a listed proxy is not recognised.
\<close>

lemma mapped_peer_not_recognised:
  "resolveClientIp (Some ''10.0.0.1'') (Some ''::ffff:10.0.0.1'') (Some ''203.0.113.7'') = ''::ffff:10.0.0.1''"
  by code_simp

text \<open>
  A proxy appends the address of its peer to the header, so the leftmost entry is whatever the client sent; behind a
  trusted proxy a client still chooses its own address.
\<close>

lemma leftmost_entry_is_forgeable:
  "resolveClientIp (Some ''10.0.0.1'') (Some ''10.0.0.1'') (Some ''1.2.3.4, 203.0.113.7'') = ''1.2.3.4''"
  by code_simp

end
