(* ===== verification/Admin_Auth.thy ===== *)
theory Admin_Auth
  imports Tokens Rate_Limit Proxy_Ip
begin

text \<open>
  \<open>src/src/admin-auth\<close> and the guards \<open>AdminApiKeyGuard\<close> and \<open>AdminRolesGuard\<close> of \<open>src/src/common/guards\<close>: how an
  administrator signs in, what the guards let through, how a logout lasts, and the account that the first start creates.

  \<open>v\<close> verifies a JWT against a public key and \<open>decode\<close> decodes the middle part of one without verifying it (both belong to
  the library and the platform).  \<open>dbUp\<close> says whether the table of revoked administrator tokens answers; the code catches
  its failures.  Strings are Latin-1, which is what Node makes of header values; their UTF-8 length decides when
  \<open>timingSafeEqual\<close> raises.
\<close>

subsection \<open>State\<close>

record admin_state =
  as_db :: db
  as_revokedTokens :: "string \<rightharpoonup> int"
  as_revokedRows :: "(string \<times> millis) list"

record admin_user =
  au_userId :: "ident option"
  au_roles :: "string list"

definition now_seconds :: "env \<Rightarrow> int" where
  "now_seconds e = now e div 1000"

definition master_realm :: "db \<Rightarrow> realm_row option" where
  "master_realm s = List.find (\<lambda>r. realm_name r = ''master'') (realms s)"

definition admin_cleanup :: "env \<Rightarrow> bool \<Rightarrow> admin_state \<Rightarrow> admin_state" where
  "admin_cleanup e dbUp st =
     st\<lparr> as_revokedTokens := (\<lambda>jti. case as_revokedTokens st jti of
                                None \<Rightarrow> None | Some x \<Rightarrow> if x < now_seconds e then None else Some x),
         as_revokedRows := (if dbUp then tbl_delete (\<lambda>row. snd row < now e) (as_revokedRows st) else as_revokedRows st) \<rparr>"

subsection \<open>Signing in\<close>

definition admin_roles_of :: "ident \<Rightarrow> db \<Rightarrow> string list" where
  "admin_roles_of uid s =
     map role_name (List.map_filter (\<lambda>(u, rid). if u = uid then List.find (\<lambda>x. role_id x = rid) (roles s) else None) (userRoles s))"

definition ADMIN_ROLES :: "string list" where
  "ADMIN_ROLES = [''super-admin'', ''realm-admin'', ''view-only'']"

definition admin_payload :: "env \<Rightarrow> ident \<Rightarrow> string list \<Rightarrow> string \<Rightarrow> claims" where
  "admin_payload e userId rs username =
     [''iss'' \<mapsto> VStr (base_url e @ ''/realms/master''), ''sub'' \<mapsto> VStr userId, ''typ'' \<mapsto> VStr ''admin'',
      ''realm_access'' \<mapsto> VRoles rs, ''preferred_username'' \<mapsto> VStr username]"

definition admin_login ::
  "(string \<Rightarrow> string option) \<Rightarrow> env \<Rightarrow> string \<Rightarrow> string \<Rightarrow> string \<Rightarrow> string \<Rightarrow> db \<Rightarrow> (jwt \<times> (string \<times> int) list) result \<times> db" where
  "admin_login env_var e jti username password ip s =
     (let (rl, s1) = checkAdminIpLimit env_var e ip s; rateLimitHeaders = computeHeaders rl
      in if \<not> rlr_allowed rl then (Inl TooManyRequests, s1)
         else case master_realm s1 of
           None \<Rightarrow> (Inl UnauthorizedException, s1)
         | Some masterRealm \<Rightarrow>
             (case user_by_username (realm_id masterRealm) username s1 of
                None \<Rightarrow> (Inl UnauthorizedException, s1)
              | Some u \<Rightarrow>
                  if \<not> user_enabled u \<or> falsy (user_passwordHash u) then (Inl UnauthorizedException, s1)
                  else if locked (checkLocked e masterRealm u) then (Inl TooManyRequests, s1)
                  else if \<not> verifyPassword e (the (user_passwordHash u)) password
                  then and_then (recordFailure e masterRealm (user_id u) (Some ip) s1) (\<lambda>_ s2. (Inl UnauthorizedException, s2))
                  else let rs = admin_roles_of (user_id u) s1
                       in if \<not> list_ex (\<lambda>x. x \<in> set ADMIN_ROLES) rs then (Inl UnauthorizedException, s1)
                          else and_then (resetFailures (realm_id masterRealm) (user_id u) s1)
                            (\<lambda>_ s2. case active_key (realm_id masterRealm) s2 of
                                None \<Rightarrow> (Inl PlainError, s2)
                              | Some key \<Rightarrow>
                                  (Inr (signJwt e jti (admin_payload e (user_id u) rs (user_username u)) (sk_kid key) 3600,
                                        rateLimitHeaders), s2))))"

definition createAdminSession :: "(string \<Rightarrow> string option) \<Rightarrow> env \<Rightarrow> string \<Rightarrow> string \<Rightarrow> db \<Rightarrow> jwt result" where
  "createAdminSession env_var e jti apiKey s =
     (if falsy (env_var ''ADMIN_API_KEY'') then Inl UnauthorizedException
      else if apiKey \<noteq> the (env_var ''ADMIN_API_KEY'') then Inl UnauthorizedException
      else case master_realm s of
        None \<Rightarrow> Inl UnauthorizedException
      | Some masterRealm \<Rightarrow>
          (case active_key (realm_id masterRealm) s of
             None \<Rightarrow> Inl PlainError
           | Some key \<Rightarrow> Inr (signJwt e jti (admin_payload e ''api-key:admin'' [''super-admin''] ''api-key'') (sk_kid key) 3600)))"

subsection \<open>Tokens\<close>

definition extractJti :: "(string \<Rightarrow> claims option) \<Rightarrow> string \<Rightarrow> string option" where
  "extractJti decode token =
     (let parts = split_on (CHR ''.'') token
      in if length parts \<noteq> 3 then None
         else case decode (parts ! 1) of None \<Rightarrow> None | Some p \<Rightarrow> str_claim p ''jti'')"

definition revokeToken :: "(string \<Rightarrow> claims option) \<Rightarrow> env \<Rightarrow> bool \<Rightarrow> string \<Rightarrow> admin_state \<Rightarrow> admin_state" where
  "revokeToken decode e dbUp token st =
     (let jti = extractJti decode token
      in if falsy jti then st
         else let expiresAt = now_seconds e + 3600
              in st\<lparr> as_revokedTokens := (as_revokedTokens st)(the jti \<mapsto> expiresAt),
                     as_revokedRows := (if dbUp \<and> map_of (as_revokedRows st) (the jti) = None
                                        then as_revokedRows st @ [(the jti, expiresAt * 1000)] else as_revokedRows st) \<rparr>)"

definition admin_token_revoked :: "env \<Rightarrow> bool \<Rightarrow> string option \<Rightarrow> admin_state \<Rightarrow> bool" where
  "admin_token_revoked e dbUp jti st \<longleftrightarrow>
     \<not> falsy jti \<and>
     ((case as_revokedTokens st (the jti) of Some x \<Rightarrow> x > now_seconds e | None \<Rightarrow> False)
      \<or> (dbUp \<and> (case map_of (as_revokedRows st) (the jti) of Some t \<Rightarrow> t div 1000 > now_seconds e | None \<Rightarrow> False)))"

definition validateAdminToken ::
  "(string \<Rightarrow> string \<Rightarrow> claims option) \<Rightarrow> env \<Rightarrow> bool \<Rightarrow> string \<Rightarrow> admin_state \<Rightarrow> admin_user result" where
  "validateAdminToken v e dbUp token st =
     (case master_realm (as_db st) of
        None \<Rightarrow> Inl UnauthorizedException
      | Some masterRealm \<Rightarrow>
          (case active_key (realm_id masterRealm) (as_db st) of
             None \<Rightarrow> Inl UnauthorizedException
           | Some key \<Rightarrow>
               (case v token (sk_publicKey key) of
                  None \<Rightarrow> Inl UnauthorizedException
                | Some p \<Rightarrow>
                    if p ''typ'' \<noteq> Some (VStr ''admin'') then Inl UnauthorizedException
                    else if admin_token_revoked e dbUp (str_claim p ''jti'') st then Inl UnauthorizedException
                    else Inr \<lparr> au_userId = str_claim p ''sub'',
                               au_roles = (case p ''realm_access'' of Some (VRoles rs) \<Rightarrow> rs | _ \<Rightarrow> []) \<rparr>)))"

definition hasRole :: "string list \<Rightarrow> string \<Rightarrow> bool" where
  "hasRole rs required \<longleftrightarrow> ''super-admin'' \<in> set rs \<or> required \<in> set rs"

subsection \<open>The guards\<close>

record admin_request =
  rq_public :: bool
  rq_path :: string
  rq_authorization :: "string option"
  rq_apiKey :: "string option"
  rq_remote :: "string option"
  rq_xff :: "string option"
  rq_adminUser :: "admin_user option"
  rq_rateLimit :: "rate_limit_result option"

definition is_admin_route :: "string \<Rightarrow> bool" where
  "is_admin_route path \<longleftrightarrow> path = ''/admin'' \<or> starts_with ''/admin/'' path"

definition utf8_length :: "string \<Rightarrow> nat" where
  "utf8_length x = sum_list (map (\<lambda>c. if of_char c < (128 :: nat) then 1 else 2) x)"

definition bearer :: "string option \<Rightarrow> string option" where
  "bearer authHeader =
     (case authHeader of Some h \<Rightarrow> if starts_with ''Bearer '' h then Some (drop 7 h) else None | None \<Rightarrow> None)"

definition with_db :: "(db \<Rightarrow> 'a \<times> db) \<Rightarrow> admin_state \<Rightarrow> 'a \<times> admin_state" where
  "with_db f st = (let (x, s) = f (as_db st) in (x, st\<lparr> as_db := s \<rparr>))"

definition api_key_check ::
  "(string \<Rightarrow> string option) \<Rightarrow> env \<Rightarrow> admin_request \<Rightarrow> admin_state \<Rightarrow> unit result \<times> admin_request \<times> admin_state" where
  "api_key_check env_var e rq st =
     (let expectedKey = env_var ''ADMIN_API_KEY''
      in case rq_apiKey rq of
           None \<Rightarrow> (Inl UnauthorizedException, rq, st)
         | Some provided \<Rightarrow>
             if falsy expectedKey then (Inl UnauthorizedException, rq, st)
             else
               let ip = resolveClientIp (env_var ''TRUSTED_PROXIES'') (rq_remote rq) (rq_xff rq);
                   (rl, st1) = (case rq_rateLimit rq of
                                  Some rl \<Rightarrow> (rl, st) | None \<Rightarrow> with_db (checkAdminApiKeyLimit env_var e ip) st);
                   rq1 = rq\<lparr> rq_rateLimit := Some rl \<rparr>
               in if \<not> rlr_allowed rl then (Inl TooManyRequests, rq1, st1)
                  else if length provided = length (the expectedKey) \<and> utf8_length provided \<noteq> utf8_length (the expectedKey)
                  then (Inl PlainError, rq1, st1)
                  else if provided = the expectedKey
                  then (Inr (), rq1\<lparr> rq_adminUser := Some \<lparr> au_userId = Some ''api-key:admin'', au_roles = [''super-admin''] \<rparr> \<rparr>, st1)
                  else (Inl UnauthorizedException, rq1, st1))"

definition apiKeyGuard_canActivate ::
  "(string \<Rightarrow> string \<Rightarrow> claims option) \<Rightarrow> (string \<Rightarrow> string option) \<Rightarrow> env \<Rightarrow> bool \<Rightarrow> admin_request \<Rightarrow> admin_state \<Rightarrow>
   unit result \<times> admin_request \<times> admin_state" where
  "apiKeyGuard_canActivate v env_var e dbUp rq st =
     (if rq_public rq \<or> \<not> is_admin_route (rq_path rq) then (Inr (), rq, st)
      else case map_option (\<lambda>token. validateAdminToken v e dbUp token st) (bearer (rq_authorization rq)) of
             Some (Inr u) \<Rightarrow> (Inr (), rq\<lparr> rq_adminUser := Some u \<rparr>, st)
           | _ \<Rightarrow> api_key_check env_var e rq st)"

definition rolesGuard_canActivate :: "(string list \<times> bool) option \<Rightarrow> admin_request \<Rightarrow> unit result" where
  "rolesGuard_canActivate options rq =
     (case options of
        None \<Rightarrow> Inr ()
      | Some (required, requireAll) \<Rightarrow>
          if required = [] then Inr ()
          else case rq_adminUser rq of
            None \<Rightarrow> Inl ForbiddenException
          | Some u \<Rightarrow>
              if requireAll then if list_all (hasRole (au_roles u)) required then Inr () else Inl ForbiddenException
              else if list_ex (hasRole (au_roles u)) required then Inr () else Inl ForbiddenException)"

subsection \<open>The controller\<close>

definition admin_refresh :: "(string \<Rightarrow> string \<Rightarrow> claims option) \<Rightarrow> env \<Rightarrow> bool \<Rightarrow> string option \<Rightarrow> admin_state \<Rightarrow> string result" where
  "admin_refresh v e dbUp cookie st =
     (if falsy cookie then Inl UnauthorizedException
      else case validateAdminToken v e dbUp (the cookie) st of Inl _ \<Rightarrow> Inl UnauthorizedException | Inr _ \<Rightarrow> Inr (the cookie))"

definition admin_logout :: "(string \<Rightarrow> claims option) \<Rightarrow> env \<Rightarrow> bool \<Rightarrow> string option \<Rightarrow> string option \<Rightarrow> admin_state \<Rightarrow> admin_state" where
  "admin_logout decode e dbUp authHeader cookie st =
     (let st1 = (case bearer authHeader of Some token \<Rightarrow> revokeToken decode e dbUp token st | None \<Rightarrow> st)
      in if falsy cookie then st1 else revokeToken decode e dbUp (the cookie) st1)"

definition getMe :: "admin_request \<Rightarrow> admin_user result" where
  "getMe rq = (case rq_adminUser rq of None \<Rightarrow> Inl UnauthorizedException | Some u \<Rightarrow> Inr u)"

definition getDemoInfo :: "(string \<Rightarrow> string option) \<Rightarrow> (string \<times> string) option" where
  "getDemoInfo env_var =
     (if env_var ''DEMO_MODE'' \<noteq> Some ''true'' then None
      else Some (nullish_else (env_var ''ADMIN_USER'') ''admin'', nullish_else (env_var ''ADMIN_PASSWORD'') ''admin''))"

subsection \<open>The first start\<close>

type_synonym scope_def = "string \<times> (string \<times> (string \<times> string) list) list"

definition DEFAULT_SCOPES :: "scope_def list" where
  "DEFAULT_SCOPES =
     [(''openid'', [(''oidc-usermodel-attribute-mapper'', [(''user.attribute'', ''id''), (''claim.name'', ''sub'')])]),
      (''profile'',
        [(''oidc-usermodel-attribute-mapper'', [(''user.attribute'', ''username''), (''claim.name'', ''preferred_username'')]),
         (''oidc-full-name-mapper'', []),
         (''oidc-usermodel-attribute-mapper'', [(''user.attribute'', ''firstName''), (''claim.name'', ''given_name'')]),
         (''oidc-usermodel-attribute-mapper'', [(''user.attribute'', ''lastName''), (''claim.name'', ''family_name'')])]),
      (''email'',
        [(''oidc-usermodel-attribute-mapper'', [(''user.attribute'', ''email''), (''claim.name'', ''email'')]),
         (''oidc-usermodel-attribute-mapper'', [(''user.attribute'', ''emailVerified''), (''claim.name'', ''email_verified'')])]),
      (''roles'', [(''oidc-role-list-mapper'', [(''claim.name'', ''realm_access'')])])]"

definition OPTIONAL_SCOPES :: "scope_def list" where
  "OPTIONAL_SCOPES = [(''web-origins'', []), (''offline_access'', [])]"

text \<open>The identifier that the database draws for a scope is a function of its name here.\<close>

fun seed_scopes :: "(string \<Rightarrow> ident) \<Rightarrow> ident \<Rightarrow> scope_def list \<Rightarrow> db \<Rightarrow> db" where
  "seed_scopes ids rid [] s = s"
| "seed_scopes ids rid ((n, mappers) # defs) s =
     seed_scopes ids rid defs
       (if list_ex (\<lambda>c. cs_realmId c = rid \<and> cs_name c = n) (clientScopes s) then s
        else s\<lparr> clientScopes := clientScopes s @
                [\<lparr> cs_id = ids n, cs_realmId = rid, cs_name = n,
                   cs_protocolMappers = map (\<lambda>(ty, cfg). \<lparr> pm_mapperType = ty, pm_config = cfg \<rparr>) mappers \<rparr>] \<rparr>)"

definition seedDefaultScopes :: "(string \<Rightarrow> ident) \<Rightarrow> ident \<Rightarrow> db \<Rightarrow> db" where
  "seedDefaultScopes ids realmId s = seed_scopes ids realmId (DEFAULT_SCOPES @ OPTIONAL_SCOPES) s"

record seed_draws =
  sd_realmId :: ident
  sd_kid :: string
  sd_publicKey :: string
  sd_privateKey :: string
  sd_roleId :: "string \<Rightarrow> ident"
  sd_userId :: ident
  sd_passwordHash :: string
  sd_scopeId :: "string \<Rightarrow> ident"

definition ensureMasterRealm :: "(string \<Rightarrow> string option) \<Rightarrow> env \<Rightarrow> seed_draws \<Rightarrow> db \<Rightarrow> db" where
  "ensureMasterRealm env_var e d s =
     (if master_realm s \<noteq> None then s
      else
        let rid = sd_realmId d; adminUsername = nullish_else (env_var ''ADMIN_USER'') ''admin'';
            s1 = s\<lparr> realms := realms s @ [(default_realm rid ''master'')\<lparr> realm_displayName := Some ''Master'' \<rparr>],
                    signingKeys := signingKeys s @
                      [\<lparr> sk_realmId = rid, sk_kid = sd_kid d, sk_publicKey = sd_publicKey d, sk_privateKey = sd_privateKey d,
                         sk_active = True, sk_createdAt = now e \<rparr>],
                    roles := roles s @ map (\<lambda>n. \<lparr> role_id = sd_roleId d n, role_realmId = rid, role_name = n, role_clientId = None \<rparr>) ADMIN_ROLES,
                    users := users s @ [(new_user (sd_userId d) rid adminUsername)
                      \<lparr> user_passwordHash := Some (sd_passwordHash d), user_passwordChangedAt := Some (now e), user_createdAt := now e \<rparr>],
                    userRoles := userRoles s @ [(sd_userId d, sd_roleId d ''super-admin'')] \<rparr>
        in seedDefaultScopes (sd_scopeId d) rid s1)"

subsection \<open>What the guards let through\<close>

lemma validateAdminToken_cases:
  assumes "validateAdminToken v e dbUp token st = Inr u"
  obtains (ok) r k p where "master_realm (as_db st) = Some r" "active_key (realm_id r) (as_db st) = Some k"
    "v token (sk_publicKey k) = Some p" "p ''typ'' = Some (VStr ''admin'')" "\<not> admin_token_revoked e dbUp (str_claim p ''jti'') st"
    "u = \<lparr> au_userId = str_claim p ''sub'', au_roles = (case p ''realm_access'' of Some (VRoles rs) \<Rightarrow> rs | _ \<Rightarrow> []) \<rparr>"
  using assms by (auto simp: validateAdminToken_def split: option.splits if_splits)

lemma api_key_check_cases:
  assumes "api_key_check env_var e rq st = (Inr (), rq', st')"
  obtains (ok) key where "env_var ''ADMIN_API_KEY'' = Some key" "key \<noteq> []" "rq_apiKey rq = Some key"
    "rq_adminUser rq' = Some \<lparr> au_userId = Some ''api-key:admin'', au_roles = [''super-admin''] \<rparr>"
  using assms by (auto simp: api_key_check_def Let_def split_beta falsy_def split: option.splits if_splits)

text \<open>
  C6.  A protected administrator endpoint is reached only with proof of identity.  Where both guards let a request through to an
  endpoint under \<open>/admin\<close> that is not public and names required roles, the caller either presented a token that verifies under the
  active key of the master realm, is an administrator token and is not revoked, or the configured API key; and the roles it
  carries include \<open>super-admin\<close> or one of the required ones, every one of them where all are required.  Nothing reaches an
  endpoint that names roles without an identity, whatever its path.
\<close>

theorem admin_access_sound:
  assumes "apiKeyGuard_canActivate v env_var e dbUp rq st = (Inr (), rq', st')"
    and "rolesGuard_canActivate (Some (required, requireAll)) rq' = Inr ()"
    and "required \<noteq> []" "rq_adminUser rq = None"
  shows "\<not> rq_public rq \<and> is_admin_route (rq_path rq)
    \<and> (\<exists>u. rq_adminUser rq' = Some u
        \<and> ((\<exists>token r k p. bearer (rq_authorization rq) = Some token \<and> master_realm (as_db st) = Some r
              \<and> active_key (realm_id r) (as_db st) = Some k \<and> v token (sk_publicKey k) = Some p
              \<and> p ''typ'' = Some (VStr ''admin'') \<and> \<not> admin_token_revoked e dbUp (str_claim p ''jti'') st
              \<and> au_userId u = str_claim p ''sub'' \<and> (au_roles u = [] \<or> p ''realm_access'' = Some (VRoles (au_roles u))))
            \<or> (\<exists>key. env_var ''ADMIN_API_KEY'' = Some key \<and> key \<noteq> [] \<and> rq_apiKey rq = Some key \<and> au_roles u = [''super-admin'']))
        \<and> (''super-admin'' \<in> set (au_roles u)
            \<or> (if requireAll then set required \<subseteq> set (au_roles u) else set required \<inter> set (au_roles u) \<noteq> {})))"
proof -
  have named: "rq_adminUser rq' \<noteq> None" using assms(2,3) by (auto simp: rolesGuard_canActivate_def split: option.splits)
  then have guarded: "\<not> rq_public rq \<and> is_admin_route (rq_path rq)"
    using assms(1,4) by (auto simp: apiKeyGuard_canActivate_def split: if_splits)
  obtain u where u: "rq_adminUser rq' = Some u" using named by auto
  have who: "(\<exists>token r k p. bearer (rq_authorization rq) = Some token \<and> master_realm (as_db st) = Some r
              \<and> active_key (realm_id r) (as_db st) = Some k \<and> v token (sk_publicKey k) = Some p
              \<and> p ''typ'' = Some (VStr ''admin'') \<and> \<not> admin_token_revoked e dbUp (str_claim p ''jti'') st
              \<and> au_userId u = str_claim p ''sub'' \<and> (au_roles u = [] \<or> p ''realm_access'' = Some (VRoles (au_roles u))))
            \<or> (\<exists>key. env_var ''ADMIN_API_KEY'' = Some key \<and> key \<noteq> [] \<and> rq_apiKey rq = Some key \<and> au_roles u = [''super-admin''])"
  proof (cases "\<exists>token x. bearer (rq_authorization rq) = Some token \<and> validateAdminToken v e dbUp token st = Inr x")
    case True
    then obtain token x where t: "bearer (rq_authorization rq) = Some token" "validateAdminToken v e dbUp token st = Inr x" by auto
    with guarded assms(1) u have "x = u" by (auto simp: apiKeyGuard_canActivate_def)
    from t(2) show ?thesis
    proof (cases rule: validateAdminToken_cases)
      case (ok r k p)
      then have "au_roles u = [] \<or> p ''realm_access'' = Some (VRoles (au_roles u))"
        unfolding \<open>x = u\<close> by (auto split: option.splits claim_value.splits)
      with ok t(1) \<open>x = u\<close> show ?thesis by auto
    qed
  next
    case False
    with guarded assms(1) have "api_key_check env_var e rq st = (Inr (), rq', st')"
      by (auto simp: apiKeyGuard_canActivate_def split: option.splits sum.splits)
    then show ?thesis by (rule api_key_check_cases) (use u in auto)
  qed
  moreover have "''super-admin'' \<in> set (au_roles u)
      \<or> (if requireAll then set required \<subseteq> set (au_roles u) else set required \<inter> set (au_roles u) \<noteq> {})"
    using assms(2,3) u by (auto simp: rolesGuard_canActivate_def hasRole_def list_all_iff list_ex_iff split: if_splits)
  ultimately show ?thesis using guarded u by blast
qed

subsection \<open>Signing in\<close>

definition same_accounts :: "db \<Rightarrow> db \<Rightarrow> bool" where
  "same_accounts s s' \<longleftrightarrow> realms s' = realms s \<and> users s' = users s \<and> roles s' = roles s \<and> userRoles s' = userRoles s
     \<and> signingKeys s' = signingKeys s"

lemma same_accounts_counters:
  "same_accounts s (set_counter key x s0) \<longleftrightarrow> same_accounts s s0" "same_accounts s (update_rate_row key f s0) \<longleftrightarrow> same_accounts s s0"
  "same_accounts s (upsert_rate_row t key s0) \<longleftrightarrow> same_accounts s s0"
  "same_accounts s (snd (redis_incr e key n s0)) \<longleftrightarrow> same_accounts s s0" "same_accounts s (redis_decr e key s0) \<longleftrightarrow> same_accounts s s0"
  "same_accounts s s"
  by (simp_all add: same_accounts_def set_counter_def update_rate_row_def upsert_rate_row_def redis_incr_def redis_decr_def
      Let_def split_beta split: option.split)

lemma rate_check_accounts: "same_accounts s (snd (rate_check e key m h s))"
  by (simp add: rate_check_def checkWithRedis_def checkWithDatabase_def Let_def split_beta same_accounts_counters)

lemma admin_ip_accounts:
  assumes "checkAdminIpLimit env_var e ip s = (rl, s1)"
  shows "same_accounts s s1"
  using assms rate_check_accounts [of s e "''admin:ip:'' @ ip"] by (metis checkAdminIpLimit_def snd_conv)

lemma admin_login_cases:
  assumes "admin_login env_var e jti username password ip s = (Inr (token, headers), s')"
  obtains (ok) r u h key where "rlr_allowed (fst (checkAdminIpLimit env_var e ip s))" "master_realm s = Some r"
    "user_by_username (realm_id r) username s = Some u" "user_enabled u" "\<not> locked (checkLocked e r u)"
    "user_passwordHash u = Some h" "verifyPassword e h password" "set (admin_roles_of (user_id u) s) \<inter> set ADMIN_ROLES \<noteq> {}"
    "active_key (realm_id r) s = Some key" "realms s' = realms s" "signingKeys s' = signingKeys s"
    "token = signJwt e jti (admin_payload e (user_id u) (admin_roles_of (user_id u) s) (user_username u)) (sk_kid key) 3600"
proof -
  obtain rl s1 where rl: "checkAdminIpLimit env_var e ip s = (rl, s1)" by (cases "checkAdminIpLimit env_var e ip s")
  have same: "realms s1 = realms s" "users s1 = users s" "roles s1 = roles s" "userRoles s1 = userRoles s" "signingKeys s1 = signingKeys s"
    using admin_ip_accounts [OF rl] by (simp_all add: same_accounts_def)
  have views: "master_realm s1 = master_realm s" "user_by_username rid n s1 = user_by_username rid n s"
    "admin_roles_of uid s1 = admin_roles_of uid s" "active_key rid s1 = active_key rid s" for rid n uid
    unfolding master_realm_def user_by_username_def admin_roles_of_def active_key_def getActiveSigningKey_def same by (rule refl)+
  have reset: "realms (snd (resetFailures rid uid s1)) = realms s" "signingKeys (snd (resetFailures rid uid s1)) = signingKeys s"
    "active_key x (snd (resetFailures rid uid s1)) = active_key x s" for rid uid x
    by (simp_all add: resetFailures_def Let_def update_user_def active_key_def getActiveSigningKey_def same)
  from assms obtain r u where g: "rlr_allowed rl" "master_realm s = Some r" "user_by_username (realm_id r) username s = Some u"
    "user_enabled u" "\<not> falsy (user_passwordHash u)" "\<not> locked (checkLocked e r u)" "verifyPassword e (the (user_passwordHash u)) password"
    "list_ex (\<lambda>x. x \<in> set ADMIN_ROLES) (admin_roles_of (user_id u) s)"
    by (auto simp: admin_login_def rl views and_then_def Let_def split: option.splits if_splits prod.splits sum.splits)
  have run: "and_then (resetFailures (realm_id r) (user_id u) s1)
      (\<lambda>_ s2. case active_key (realm_id r) s2 of None \<Rightarrow> (Inl PlainError, s2)
        | Some key \<Rightarrow> (Inr (signJwt e jti (admin_payload e (user_id u) (admin_roles_of (user_id u) s) (user_username u)) (sk_kid key) 3600,
            computeHeaders rl), s2)) = (Inr (token, headers), s')"
    using assms g by (simp add: admin_login_def rl views Let_def)
  then obtain s2 key where "resetFailures (realm_id r) (user_id u) s1 = (Inr (), s2)" "active_key (realm_id r) s2 = Some key" "s' = s2"
    "token = signJwt e jti (admin_payload e (user_id u) (admin_roles_of (user_id u) s) (user_username u)) (sk_kid key) 3600"
    by (auto simp: and_then_def split: prod.splits sum.splits option.splits)
  with g reset [where rid = "realm_id r" and uid = "user_id u"] show thesis
    by (intro ok [of r u "the (user_passwordHash u)" key]) (auto simp: rl falsy_def list_ex_iff split: option.splits)
qed

text \<open>
  Signing in as an administrator.  A token is issued only within the limit for the caller's address, to an enabled account of
  the master realm that is not locked, with its password, and holding an administrator role.  Verified under the master
  realm's key it is accepted as that account with exactly those roles, unless it was revoked.
\<close>

theorem admin_login_sound:
  assumes "admin_login env_var e jti username password ip s = (Inr (token, headers), s')"
  shows "rlr_allowed (fst (checkAdminIpLimit env_var e ip s))
    \<and> (\<exists>r u h. master_realm s = Some r \<and> user_by_username (realm_id r) username s = Some u \<and> user_enabled u
        \<and> \<not> locked (checkLocked e r u) \<and> user_passwordHash u = Some h \<and> verifyPassword e h password
        \<and> set (admin_roles_of (user_id u) s) \<inter> {''super-admin'', ''realm-admin'', ''view-only''} \<noteq> {}
        \<and> jwt_payload token ''exp'' = Some (VInt (now e div 1000 + 3600))
        \<and> (\<forall>v raw e' dbUp st. as_db st = s' \<and> \<not> admin_token_revoked e' dbUp (Some jti) st
              \<and> (\<forall>k. active_key (realm_id r) s' = Some k \<longrightarrow> v raw (sk_publicKey k) = Some (jwt_payload token)) \<longrightarrow>
              validateAdminToken v e' dbUp raw st = Inr \<lparr> au_userId = Some (user_id u), au_roles = admin_roles_of (user_id u) s \<rparr>))"
  using assms
proof (cases rule: admin_login_cases)
  case (ok r u h key)
  have key: "master_realm s' = Some r" "active_key (realm_id r) s' = Some key"
    using ok(2,9-11) by (simp_all add: master_realm_def active_key_def getActiveSigningKey_def)
  have p: "jwt_payload token ''typ'' = Some (VStr ''admin'')" "str_claim (jwt_payload token) ''jti'' = Some jti"
    "str_claim (jwt_payload token) ''sub'' = Some (user_id u)"
    "jwt_payload token ''realm_access'' = Some (VRoles (admin_roles_of (user_id u) s))"
    "jwt_payload token ''exp'' = Some (VInt (now e div 1000 + 3600))"
    by (simp_all add: ok(12) signJwt_def admin_payload_def str_claim_def)
  have "validateAdminToken v e' dbUp raw st = Inr \<lparr> au_userId = Some (user_id u), au_roles = admin_roles_of (user_id u) s \<rparr>"
    if "as_db st = s'" "\<not> admin_token_revoked e' dbUp (Some jti) st"
      "\<forall>k. active_key (realm_id r) s' = Some k \<longrightarrow> v raw (sk_publicKey k) = Some (jwt_payload token)" for v raw e' dbUp st
    using that key p by (simp add: validateAdminToken_def)
  with ok p(5) show ?thesis unfolding ADMIN_ROLES_def by (intro conjI exI [of _ r] exI [of _ u] exI [of _ h]) auto
qed

subsection \<open>A logout lasts\<close>

text \<open>
  What may happen to the service between two requests: other logouts, the clean-up every minute, a restart that
  loses the memory, and any change to the rest of the database.  Time does not run backwards.
\<close>

inductive admin_run :: "(string \<Rightarrow> claims option) \<Rightarrow> millis \<Rightarrow> admin_state \<Rightarrow> millis \<Rightarrow> admin_state \<Rightarrow> bool"
  for decode :: "string \<Rightarrow> claims option" and t0 :: millis and st0 :: admin_state where
  run_start: "admin_run decode t0 st0 t0 st0"
| run_logout: "admin_run decode t0 st0 t st \<Longrightarrow> t \<le> now e \<Longrightarrow>
    admin_run decode t0 st0 (now e) (admin_logout decode e dbUp authHeader cookie st)"
| run_cleanup: "admin_run decode t0 st0 t st \<Longrightarrow> t \<le> now e \<Longrightarrow> admin_run decode t0 st0 (now e) (admin_cleanup e dbUp st)"
| run_restart: "admin_run decode t0 st0 t st \<Longrightarrow> admin_run decode t0 st0 t (st\<lparr> as_revokedTokens := Map.empty \<rparr>)"
| run_database: "admin_run decode t0 st0 t st \<Longrightarrow> admin_run decode t0 st0 t (st\<lparr> as_db := s \<rparr>)"

definition revoked_until :: "string \<Rightarrow> millis \<Rightarrow> admin_state \<Rightarrow> bool" where
  "revoked_until jti t st \<longleftrightarrow> (\<exists>x. map_of (as_revokedRows st) jti = Some x \<and> t \<le> x)"

lemma revokeToken_keeps: "revoked_until jti t st \<Longrightarrow> revoked_until jti t (revokeToken decode e dbUp token st)"
  by (auto simp: revoked_until_def revokeToken_def Let_def map_add_def)

lemma admin_logout_keeps: "revoked_until jti t st \<Longrightarrow> revoked_until jti t (admin_logout decode e dbUp authHeader cookie st)"
  by (simp add: admin_logout_def Let_def revokeToken_keeps split: option.split)

lemma map_of_filter_kept:
  assumes "map_of xs k = Some x" "P (k, x)"
  shows "map_of (filter P xs) k = Some x"
  using assms by (induction xs) (auto split: if_splits)

lemma admin_run_time: "admin_run decode t0 st0 t st \<Longrightarrow> t0 \<le> t"
  by (induction rule: admin_run.induct) auto

lemma admin_run_keeps:
  assumes "admin_run decode t0 st0 t st" "revoked_until jti x st0" "t \<le> x"
  shows "revoked_until jti x st"
  using assms
proof (induction rule: admin_run.induct)
  case (run_cleanup t st e dbUp)
  then obtain y where "map_of (as_revokedRows st) jti = Some y" "x \<le> y" by (auto simp: revoked_until_def)
  with run_cleanup.prems show ?case
    by (auto simp: revoked_until_def admin_cleanup_def tbl_delete_def map_of_filter_kept)
qed (auto simp: admin_logout_keeps, simp_all add: revoked_until_def)

lemma logout_revokes:
  assumes "bearer authHeader = Some token \<or> cookie = Some token \<and> token \<noteq> []" "extractJti decode token = Some jti" "jti \<noteq> []"
    and "\<And>x. map_of (as_revokedRows st) jti = Some x \<Longrightarrow> (now_seconds e + 3600) * 1000 \<le> x"
  shows "revoked_until jti ((now_seconds e + 3600) * 1000) (admin_logout decode e True authHeader cookie st)"
proof -
  let ?t = "(now_seconds e + 3600) * 1000"
  have revoke: "revoked_until jti ?t (revokeToken decode e True token st1)"
    if "\<And>x. map_of (as_revokedRows st1) jti = Some x \<Longrightarrow> ?t \<le> x" for st1
    using that assms(2,3) by (cases "map_of (as_revokedRows st1) jti") (auto simp: revoked_until_def revokeToken_def Let_def map_add_def)
  have rows: "?t \<le> x" if "map_of (as_revokedRows (revokeToken decode e True token' st)) jti = Some x" for x token'
    using that assms(4) by (auto simp: revokeToken_def Let_def map_add_def split: if_splits option.splits)
  from assms(1) show ?thesis
  proof
    assume "bearer authHeader = Some token"
    with revoke [OF assms(4)] show ?thesis by (simp add: admin_logout_def Let_def revokeToken_keeps)
  next
    assume "cookie = Some token \<and> token \<noteq> []"
    with revoke [of st, OF assms(4)] revoke rows show ?thesis
      by (auto simp: admin_logout_def Let_def split: option.split)
  qed
qed

text \<open>
  C16.  An administrator's logout lasts for the rest of the token's life.  For an hour after a logout that reached the database, which
  is the life of every administrator token, the token that was logged out is refused wherever it is presented: as a bearer
  token, to the guard, and in the session cookie; other logouts, the clean-up, restarts and any change to the rest of
  the database do not bring it back.
\<close>

theorem admin_logout_lasts:
  assumes "bearer authHeader = Some token \<or> cookie = Some token \<and> token \<noteq> []"
    and "extractJti decode token = Some jti" "jti \<noteq> []"
    and "\<And>x. map_of (as_revokedRows st) jti = Some x \<Longrightarrow> (now_seconds e + 3600) * 1000 \<le> x"
    and "admin_run decode (now e) (admin_logout decode e True authHeader cookie st) (now e') st'"
    and "now_seconds e' < now_seconds e + 3600"
    and "\<And>key p. v token key = Some p \<Longrightarrow> str_claim p ''jti'' = Some jti"
  shows "validateAdminToken v e' True token st' = Inl UnauthorizedException
    \<and> admin_refresh v e' True (Some token) st' = Inl UnauthorizedException
    \<and> (bearer (rq_authorization rq) = Some token \<and> rq_apiKey rq = None \<and> \<not> rq_public rq \<and> is_admin_route (rq_path rq) \<longrightarrow>
        fst (apiKeyGuard_canActivate v env_var e' True rq st') = Inl UnauthorizedException)"
proof -
  have "now e' \<le> (now_seconds e + 3600) * 1000" using assms(6) by (simp add: now_seconds_def)
  from admin_run_keeps [OF assms(5) logout_revokes [OF assms(1-3) assms(4)] this]
  have "admin_token_revoked e' True (Some jti) st'"
    using assms(3,6) by (auto simp: revoked_until_def admin_token_revoked_def falsy_def)
  then have "validateAdminToken v e' True token st' = Inl UnauthorizedException"
    using assms(7) by (auto simp: validateAdminToken_def split: option.split)
  then show ?thesis
    by (auto simp: admin_refresh_def apiKeyGuard_canActivate_def api_key_check_def Let_def falsy_def)
qed

subsection \<open>The first administrator\<close>

lemma seed_scopes_accounts: "same_accounts s0 (seed_scopes ids rid defs s) \<longleftrightarrow> same_accounts s0 s"
  by (induction ids rid defs s rule: seed_scopes.induct) (auto simp: same_accounts_def)

lemma ensureMasterRealm_tables:
  fixes s :: db
  defines "admin \<equiv> \<lambda>env_var e d. (new_user (sd_userId d) (sd_realmId d) (nullish_else (env_var ''ADMIN_USER'') ''admin''))
      \<lparr> user_passwordHash := Some (sd_passwordHash d), user_passwordChangedAt := Some (now e), user_createdAt := now e \<rparr>"
  assumes "master_realm s = None"
  shows "realms (ensureMasterRealm env_var e d s) = realms s @ [(default_realm (sd_realmId d) ''master'')\<lparr> realm_displayName := Some ''Master'' \<rparr>]"
    and "users (ensureMasterRealm env_var e d s) = users s @ [admin env_var e d]"
    and "signingKeys (ensureMasterRealm env_var e d s) = signingKeys s @ [\<lparr> sk_realmId = sd_realmId d, sk_kid = sd_kid d,
           sk_publicKey = sd_publicKey d, sk_privateKey = sd_privateKey d, sk_active = True, sk_createdAt = now e \<rparr>]"
    and "roles (ensureMasterRealm env_var e d s) = roles s @
           map (\<lambda>n. \<lparr> role_id = sd_roleId d n, role_realmId = sd_realmId d, role_name = n, role_clientId = None \<rparr>) ADMIN_ROLES"
    and "userRoles (ensureMasterRealm env_var e d s) = userRoles s @ [(sd_userId d, sd_roleId d ''super-admin'')]"
  using seed_scopes_accounts [of _ "sd_scopeId d" "sd_realmId d" "DEFAULT_SCOPES @ OPTIONAL_SCOPES", THEN iffD2, OF same_accounts_counters(6)] assms
  by (simp_all add: ensureMasterRealm_def seedDefaultScopes_def same_accounts_def Let_def)

lemma admin_login_intro:
  assumes "rlr_allowed (fst (checkAdminIpLimit env_var e ip s))" "master_realm s = Some r"
    and "user_by_username (realm_id r) username s = Some u" "user_enabled u" "\<not> locked (checkLocked e r u)"
    and "user_passwordHash u = Some h" "h \<noteq> []" "verifyPassword e h password" "list_ex (\<lambda>x. x \<in> set ADMIN_ROLES) (admin_roles_of (user_id u) s)"
    and "user_by_id (user_id u) s \<noteq> None" "active_key (realm_id r) s = Some key"
  shows "\<exists>headers s'. admin_login env_var e jti username password ip s =
    (Inr (signJwt e jti (admin_payload e (user_id u) (admin_roles_of (user_id u) s) (user_username u)) (sk_kid key) 3600, headers), s')"
proof -
  obtain rl s1 where rl: "checkAdminIpLimit env_var e ip s = (rl, s1)" by (cases "checkAdminIpLimit env_var e ip s")
  have same: "realms s1 = realms s" "users s1 = users s" "roles s1 = roles s" "userRoles s1 = userRoles s" "signingKeys s1 = signingKeys s"
    using admin_ip_accounts [OF rl] by (simp_all add: same_accounts_def)
  have views: "master_realm s1 = master_realm s" "user_by_username rid n s1 = user_by_username rid n s"
    "admin_roles_of uid s1 = admin_roles_of uid s" "active_key rid s1 = active_key rid s" "user_by_id uid s1 = user_by_id uid s" for rid n uid
    unfolding master_realm_def user_by_username_def admin_roles_of_def active_key_def getActiveSigningKey_def user_by_id_def same by (rule refl)+
  have "\<exists>s2. resetFailures (realm_id r) (user_id u) s1 = (Inr (), s2) \<and> active_key (realm_id r) s2 = Some key"
    using assms(10,11) views(5) [of "user_id u"]
    by (simp add: resetFailures_def Let_def update_user_def active_key_def getActiveSigningKey_def same user_by_id_def)
  then obtain s2 where "resetFailures (realm_id r) (user_id u) s1 = (Inr (), s2)" "active_key (realm_id r) s2 = Some key" by blast
  with assms show ?thesis by (simp add: admin_login_def rl views falsy_def Let_def)
qed

text \<open>
  A new installation can be entered.  Started on a database without a master realm, the service creates one with a signing key
  and an account, and the configured name and password of that account sign in as \<open>super-admin\<close>, as long as the limit for the
  caller's address allows it.  A second start changes nothing.
\<close>

theorem first_administrator_signs_in:
  assumes s1: "s1 = ensureMasterRealm env_var e d s" and username: "username = nullish_else (env_var ''ADMIN_USER'') ''admin''"
    and "master_realm s = None"
    and "sd_realmId d \<notin> user_realmId ` set (users s)" "sd_userId d \<notin> user_id ` set (users s)" "sd_userId d \<notin> fst ` set (userRoles s)"
    and "sd_realmId d \<notin> sk_realmId ` set (signingKeys s)" "sd_roleId d ''super-admin'' \<notin> role_id ` set (roles s)"
    and "sd_passwordHash d \<noteq> []" "verifyPassword e' (sd_passwordHash d) password" "rlr_allowed (fst (checkAdminIpLimit env_var e' ip s1))"
  shows "(\<exists>token headers s2. admin_login env_var e' jti username password ip s1 = (Inr (token, headers), s2)
      \<and> jwt_payload token ''sub'' = Some (VStr (sd_userId d)) \<and> jwt_payload token ''realm_access'' = Some (VRoles [''super-admin'']))
    \<and> ensureMasterRealm env_var e'' d' s1 = s1"
proof -
  note tables = ensureMasterRealm_tables [OF assms(3), of env_var e d, folded s1]
  let ?r = "(default_realm (sd_realmId d) ''master'')\<lparr> realm_displayName := Some ''Master'' \<rparr>"
  let ?u = "(new_user (sd_userId d) (sd_realmId d) username)
      \<lparr> user_passwordHash := Some (sd_passwordHash d), user_passwordChangedAt := Some (now e), user_createdAt := now e \<rparr>"
  have r: "master_realm s1 = Some ?r"
    using assms(3) by (simp add: master_realm_def tables find_append_None default_realm_def)
  have none: "List.find (\<lambda>u. user_realmId u = sd_realmId d \<and> user_username u = username) (users s) = None"
    "List.find (\<lambda>u. user_id u = sd_userId d) (users s) = None" "List.find (\<lambda>x. role_id x = sd_roleId d ''super-admin'') (roles s) = None"
    using assms(4,5,8) by (force simp: find_None_iff)+
  have u: "user_by_username (realm_id ?r) username s1 = Some ?u" "user_by_id (user_id ?u) s1 = Some ?u"
    using none by (simp_all add: user_by_username_def user_by_id_def tables find_append_None default_realm_def new_user_def username)
  have "List.map_filter (\<lambda>(x, rid). if x = sd_userId d then f rid else None) (userRoles s) = []" for f :: "ident \<Rightarrow> role_row option"
    using assms(6) by (force simp: List.map_filter_def filter_empty_conv)
  then have rs: "admin_roles_of (user_id ?u) s1 = [''super-admin'']"
    using none(3) by (simp add: admin_roles_of_def tables new_user_def List.map_filter_def find_append_None ADMIN_ROLES_def)
  have "filter (\<lambda>k. sk_realmId k = sd_realmId d \<and> sk_active k) (signingKeys s) = []"
    using assms(7) by (force simp: filter_empty_conv)
  then obtain key where key: "active_key (realm_id ?r) s1 = Some key"
    by (simp add: active_key_def getActiveSigningKey_def tables default_realm_def order_desc_def)
  have "\<not> locked (checkLocked e' ?r ?u)" by (simp add: checkLocked_def default_realm_def)
  then obtain headers s2 where "admin_login env_var e' jti username password ip s1 =
      (Inr (signJwt e' jti (admin_payload e' (user_id ?u) (admin_roles_of (user_id ?u) s1) (user_username ?u)) (sk_kid key) 3600, headers), s2)"
    using admin_login_intro [OF assms(11) r u(1) _ _ _ assms(9,10), of key jti] u(2) key rs by (auto simp: new_user_def ADMIN_ROLES_def)
  then show ?thesis using r rs by (auto simp: ensureMasterRealm_def signJwt_def admin_payload_def new_user_def)
qed

subsection \<open>Examples\<close>

definition seed_env :: "string \<Rightarrow> string option" where
  "seed_env n = (if n = ''ADMIN_PASSWORD'' then Some ''s3cret'' else if n = ''ADMIN_API_KEY'' then Some ''key'' else None)"

definition sample_seed :: seed_draws where
  "sample_seed = \<lparr> sd_realmId = ''m1'', sd_kid = ''mk'', sd_publicKey = ''mpub'', sd_privateKey = ''mpem'', sd_roleId = (\<lambda>n. n),
     sd_userId = ''root'', sd_passwordHash = ''s3cret'', sd_scopeId = (\<lambda>n. n) \<rparr>"

definition installed_db :: db where
  "installed_db = ensureMasterRealm seed_env sample_env sample_seed tokens_db"

definition installed :: admin_state where
  "installed = \<lparr> as_db = installed_db, as_revokedTokens = Map.empty, as_revokedRows = [] \<rparr>"

definition root_claims :: claims where
  "root_claims = (admin_payload sample_env ''root'' [''super-admin''] ''admin'')(''jti'' \<mapsto> VStr ''j1'')"

definition sample_decode :: "string \<Rightarrow> claims option" where
  "sample_decode part = (if part = ''root'' then Some root_claims else None)"

definition sample_verify :: "string \<Rightarrow> string \<Rightarrow> claims option" where
  "sample_verify token key = (if token = ''h.root.s'' \<and> key = ''mpub'' then Some root_claims else None)"

definition admin_call :: "string \<Rightarrow> string option \<Rightarrow> string option \<Rightarrow> admin_request" where
  "admin_call path auth key = \<lparr> rq_public = False, rq_path = path, rq_authorization = auth, rq_apiKey = key, rq_remote = Some ''10.0.0.9'',
     rq_xff = None, rq_adminUser = None, rq_rateLimit = None \<rparr>"

theorem first_administrator_signs_in_witness:
  "\<exists>token headers s2. admin_login seed_env sample_env ''j1'' ''admin'' ''s3cret'' ''10.0.0.9'' installed_db = (Inr (token, headers), s2)
      \<and> jwt_payload token ''realm_access'' = Some (VRoles [''super-admin''])"
proof -
  have "installed_db = ensureMasterRealm seed_env sample_env sample_seed tokens_db" "''admin'' = nullish_else (seed_env ''ADMIN_USER'') ''admin''"
    by (simp_all add: installed_db_def seed_env_def)
  moreover have "master_realm tokens_db = None" "sd_passwordHash sample_seed \<noteq> []" "verifyPassword sample_env (sd_passwordHash sample_seed) ''s3cret''"
    "rlr_allowed (fst (checkAdminIpLimit seed_env sample_env ''10.0.0.9'' installed_db))" by code_simp+
  moreover have "sd_realmId sample_seed \<notin> user_realmId ` set (users tokens_db)" "sd_userId sample_seed \<notin> user_id ` set (users tokens_db)"
    "sd_userId sample_seed \<notin> fst ` set (userRoles tokens_db)" "sd_realmId sample_seed \<notin> sk_realmId ` set (signingKeys tokens_db)"
    "sd_roleId sample_seed ''super-admin'' \<notin> role_id ` set (roles tokens_db)" by code_simp+
  ultimately show ?thesis
    using first_administrator_signs_in [of installed_db seed_env sample_env sample_seed tokens_db "''admin''" sample_env "''s3cret''" "''10.0.0.9''" "''j1''"]
    by blast
qed

theorem admin_access_sound_witness:
  "apiKeyGuard_canActivate sample_verify seed_env sample_env True (admin_call ''/admin/realms'' (Some ''Bearer h.root.s'') None) installed
     = (Inr (), (admin_call ''/admin/realms'' (Some ''Bearer h.root.s'') None)
         \<lparr> rq_adminUser := Some \<lparr> au_userId = Some ''root'', au_roles = [''super-admin''] \<rparr> \<rparr>, installed)
   \<and> is_admin_route (rq_path (admin_call ''/admin/realms'' (Some ''Bearer h.root.s'') None))"
proof -
  let ?rq = "admin_call ''/admin/realms'' (Some ''Bearer h.root.s'') None"
  let ?rq' = "?rq\<lparr> rq_adminUser := Some \<lparr> au_userId = Some ''root'', au_roles = [''super-admin''] \<rparr> \<rparr>"
  have "bearer (rq_authorization ?rq) = Some ''h.root.s''" "\<not> rq_public ?rq" "is_admin_route (rq_path ?rq)"
    "validateAdminToken sample_verify sample_env True ''h.root.s'' installed = Inr \<lparr> au_userId = Some ''root'', au_roles = [''super-admin''] \<rparr>"
    by code_simp+
  then have run: "apiKeyGuard_canActivate sample_verify seed_env sample_env True ?rq installed = (Inr (), ?rq', installed)"
    by (simp add: apiKeyGuard_canActivate_def)
  have "rolesGuard_canActivate (Some ([''admin''], False)) ?rq' = Inr ()" "rq_adminUser ?rq = None" by code_simp+
  with admin_access_sound [OF run, of "[''admin'']" False] run show ?thesis by simp
qed

theorem admin_login_sound_witness:
  "\<exists>token headers s'. admin_login seed_env sample_env ''j1'' ''admin'' ''s3cret'' ''10.0.0.9'' installed_db = (Inr (token, headers), s')
     \<and> jwt_payload token ''exp'' = Some (VInt 4600)"
proof -
  let ?L = "admin_login seed_env sample_env ''j1'' ''admin'' ''s3cret'' ''10.0.0.9'' installed_db"
  have "isl (fst ?L) = False" by code_simp
  then obtain token headers where "fst ?L = Inr (token, headers)" by (cases "fst ?L") auto
  then have run: "?L = (Inr (token, headers), snd ?L)" by (simp add: prod_eq_iff)
  from admin_login_sound [OF run] have "jwt_payload token ''exp'' = Some (VInt (now sample_env div 1000 + 3600))" by blast
  moreover have "now sample_env div 1000 + 3600 = 4600" by code_simp
  ultimately show ?thesis using run by metis
qed

theorem admin_logout_lasts_witness:
  "validateAdminToken sample_verify sample_env True ''h.root.s'' installed = Inr \<lparr> au_userId = Some ''root'', au_roles = [''super-admin''] \<rparr>
   \<and> validateAdminToken sample_verify sample_env True ''h.root.s''
       ((admin_logout sample_decode sample_env True (Some ''Bearer h.root.s'') None installed)\<lparr> as_revokedTokens := Map.empty \<rparr>)
     = Inl UnauthorizedException"
proof
  show "validateAdminToken sample_verify sample_env True ''h.root.s'' installed = Inr \<lparr> au_userId = Some ''root'', au_roles = [''super-admin''] \<rparr>"
    by code_simp
  let ?st = "admin_logout sample_decode sample_env True (Some ''Bearer h.root.s'') None installed"
  have "bearer (Some ''Bearer h.root.s'') = Some ''h.root.s''" "extractJti sample_decode ''h.root.s'' = Some ''j1''"
    "as_revokedRows installed = []" by code_simp+
  moreover have "admin_run sample_decode (now sample_env) ?st (now sample_env) (?st\<lparr> as_revokedTokens := Map.empty \<rparr>)"
    by (intro run_restart run_start)
  moreover have "str_claim p ''jti'' = Some ''j1''" if "sample_verify ''h.root.s'' key = Some p" for key p
    using that by (auto simp: sample_verify_def root_claims_def str_claim_def split: if_splits)
  ultimately show "validateAdminToken sample_verify sample_env True ''h.root.s'' (?st\<lparr> as_revokedTokens := Map.empty \<rparr>) = Inl UnauthorizedException"
    using admin_logout_lasts [of "Some ''Bearer h.root.s''" "''h.root.s''" None sample_decode "''j1''" installed sample_env sample_env
        "?st\<lparr> as_revokedTokens := Map.empty \<rparr>" sample_verify] by simp
qed

subsection \<open>Limits of the guards\<close>

text \<open>
  The endpoint that tells an administrator who they are is public, so the guard never sets the identity it reads:
  it answers 401 whatever token the caller sends.
\<close>

lemma admin_me_always_unauthorized:
  assumes "rq_public rq" "rq_adminUser rq = None" "apiKeyGuard_canActivate v env_var e dbUp rq st = (Inr (), rq', st')"
  shows "getMe rq' = Inl UnauthorizedException"
  using assms by (simp add: apiKeyGuard_canActivate_def getMe_def)

text \<open>
  Outside \<open>/admin\<close> the guard lets everything through.  The administrator endpoints for registrations live under
  \<open>/realms\<close> and name no roles, so they ask for no identity at all.
\<close>

lemma realm_paths_unguarded:
  assumes "rq_path rq = ''/realms/'' @ rest"
  shows "apiKeyGuard_canActivate v env_var e dbUp rq st = (Inr (), rq, st)" and "rolesGuard_canActivate None rq = Inr ()"
  using assms by (simp_all add: apiKeyGuard_canActivate_def is_admin_route_def starts_with_def rolesGuard_canActivate_def)

text \<open>A token stays good for its hour: neither the account nor its roles are read again.\<close>

lemma admin_token_outlives_account:
  assumes "validateAdminToken v e dbUp token st = Inr u" "realms s = realms (as_db st)" "signingKeys s = signingKeys (as_db st)"
  shows "validateAdminToken v e dbUp token (st\<lparr> as_db := s\<lparr> users := [], userRoles := [] \<rparr> \<rparr>) = Inr u"
proof -
  have "master_realm (s\<lparr> users := [], userRoles := [] \<rparr>) = master_realm (as_db st)"
    "active_key rid (s\<lparr> users := [], userRoles := [] \<rparr>) = active_key rid (as_db st)" for rid
    using assms(2,3) by (simp_all add: master_realm_def active_key_def getActiveSigningKey_def)
  with assms(1) show ?thesis
    by (elim validateAdminToken_cases) (simp add: validateAdminToken_def admin_token_revoked_def)
qed

text \<open>The logout of a token nobody verified: whoever knows the identifier of a token can end it.\<close>

lemma logout_needs_no_signature:
  assumes "extractJti decode forged = Some jti" "jti \<noteq> []" "bearer authHeader = Some forged" "as_revokedRows st = []"
  shows "revoked_until jti ((now_seconds e + 3600) * 1000) (admin_logout decode e True authHeader cookie st)"
  using assms by (intro logout_revokes [of authHeader forged]) auto

end
