(* ===== verification/Service_Accounts.thy ===== *)
theory Service_Accounts
  imports Rate_Limit Proxy_Ip Password_Policy
begin

unbundle bit_operations_syntax

text \<open>
  \<open>src/src/service-accounts\<close>: service accounts, their API keys and the guard that accepts a key.  The database rows, the sorted
  sets in which Redis keeps the recent requests of a key and the store with the other Redis counters make up the state.  The
  expiry that \<open>checkRateLimit\<close> puts on a sorted set removes only entries that have left the window and is not modelled.  The name of a
  daily counter contains the date, here the number of the day.
\<close>

subsection \<open>State\<close>

record service_account_row =
  sa_id :: ident
  sa_realmId :: ident
  sa_name :: string
  sa_description :: "string option"
  sa_enabled :: bool
  sa_createdAt :: millis

record api_key_row =
  ak_id :: ident
  ak_serviceAccountId :: ident
  ak_keyPrefix :: string
  ak_keyHash :: string
  ak_name :: "string option"
  ak_scopes :: "string list"
  ak_expiresAt :: "millis option"
  ak_lastUsedAt :: "millis option"
  ak_requestCount :: int
  ak_revoked :: bool
  ak_revokedAt :: "millis option"
  ak_rateLimitPerMinute :: "int option"
  ak_maxRequestsPerDay :: "int option"
  ak_maxRequestsPerMonth :: "int option"
  ak_requireIpRestriction :: bool
  ak_allowedIpRanges :: "string list"
  ak_createdAt :: millis

record svc =
  sv_accounts :: "service_account_row list"
  sv_keys :: "api_key_row list"
  sv_windows :: "ident \<Rightarrow> millis list"
  sv_db :: db

record service_account_dto =
  sad_name :: string
  sad_description :: "string option"
  sad_enabled :: "bool option"

record service_account_patch =
  sap_name :: "string option"
  sap_description :: "string option"
  sap_enabled :: "bool option"

record api_key_dto =
  akd_name :: "string option"
  akd_scopes :: "string list option"
  akd_expiresAt :: "millis option"
  akd_maxRequestsPerDay :: "int option"
  akd_maxRequestsPerMonth :: "int option"
  akd_rateLimitPerMinute :: "int option"
  akd_requireIpRestriction :: "bool option"
  akd_allowedIpRanges :: "string list option"

text \<open>What a new key draws: its identifier, its text and the salted hash.\<close>

record key_draws =
  kd_id :: ident
  kd_rawKey :: string
  kd_hash :: string

definition ROTATION_GRACE_SECONDS :: int where
  "ROTATION_GRACE_SECONDS = 3600"

subsection \<open>Accounts\<close>

definition account_named :: "ident \<Rightarrow> string \<Rightarrow> svc \<Rightarrow> service_account_row option" where
  "account_named rid n st = List.find (\<lambda>a. sa_realmId a = rid \<and> sa_name a = n) (sv_accounts st)"

definition sa_create :: "env \<Rightarrow> ident \<Rightarrow> realm_row \<Rightarrow> service_account_dto \<Rightarrow> svc \<Rightarrow> service_account_row result \<times> svc" where
  "sa_create e i r dto st =
     (if account_named (realm_id r) (sad_name dto) st \<noteq> None then (Inl ConflictException, st)
      else let a = \<lparr> sa_id = i, sa_realmId = realm_id r, sa_name = sad_name dto, sa_description = sad_description dto,
                     sa_enabled = nullish_else (sad_enabled dto) True, sa_createdAt = now e \<rparr>
           in (Inr a, st\<lparr> sv_accounts := sv_accounts st @ [a] \<rparr>))"

definition sa_findAll :: "realm_row \<Rightarrow> svc \<Rightarrow> service_account_row list" where
  "sa_findAll r st = order_asc sa_createdAt (filter (\<lambda>a. sa_realmId a = realm_id r) (sv_accounts st))"

definition sa_findById :: "realm_row \<Rightarrow> ident \<Rightarrow> svc \<Rightarrow> service_account_row result" where
  "sa_findById r i st =
     (case List.find (\<lambda>a. sa_id a = i \<and> sa_realmId a = realm_id r) (sv_accounts st) of
        None \<Rightarrow> Inl NotFoundException | Some a \<Rightarrow> Inr a)"

definition patched_account :: "service_account_patch \<Rightarrow> service_account_row \<Rightarrow> service_account_row" where
  "patched_account dto a =
     a\<lparr> sa_name := nullish_else (sap_name dto) (sa_name a),
        sa_description := (if sap_description dto = None then sa_description a else sap_description dto),
        sa_enabled := nullish_else (sap_enabled dto) (sa_enabled a) \<rparr>"

definition sa_update :: "realm_row \<Rightarrow> ident \<Rightarrow> service_account_patch \<Rightarrow> svc \<Rightarrow> unit result \<times> svc" where
  "sa_update r i dto st =
     (case sa_findById r i st of
        Inl err \<Rightarrow> (Inl err, st)
      | Inr a \<Rightarrow>
          let clash = (\<lambda>n. case account_named (realm_id r) n st of None \<Rightarrow> False | Some b \<Rightarrow> sa_id b \<noteq> i)
          in if \<not> falsy (sap_name dto) \<and> clash (the (sap_name dto)) then (Inl ConflictException, st)
             else if sap_name dto = Some [] \<and> clash [] then (Inl PrismaUnique, st)
             else (Inr (), st\<lparr> sv_accounts := tbl_update (\<lambda>a. sa_id a = i) (patched_account dto) (sv_accounts st) \<rparr>))"

text \<open>Deleting an account deletes its keys, by a foreign key of the schema.\<close>

definition sa_remove :: "realm_row \<Rightarrow> ident \<Rightarrow> svc \<Rightarrow> unit result \<times> svc" where
  "sa_remove r i st =
     (case sa_findById r i st of
        Inl err \<Rightarrow> (Inl err, st)
      | Inr a \<Rightarrow> (Inr (), st\<lparr> sv_accounts := tbl_delete (\<lambda>a. sa_id a = i) (sv_accounts st),
                              sv_keys := tbl_delete (\<lambda>k. ak_serviceAccountId k = i) (sv_keys st) \<rparr>))"

subsection \<open>Keys\<close>

definition createApiKey :: "env \<Rightarrow> key_draws \<Rightarrow> realm_row \<Rightarrow> ident \<Rightarrow> api_key_dto \<Rightarrow> svc \<Rightarrow> (api_key_row \<times> string) result \<times> svc" where
  "createApiKey e d r serviceAccountId dto st =
     (case sa_findById r serviceAccountId st of
        Inl err \<Rightarrow> (Inl err, st)
      | Inr _ \<Rightarrow>
          let k = \<lparr> ak_id = kd_id d, ak_serviceAccountId = serviceAccountId, ak_keyPrefix = take 8 (kd_rawKey d), ak_keyHash = kd_hash d,
                    ak_name = akd_name dto, ak_scopes = nullish_else (akd_scopes dto) [], ak_expiresAt = akd_expiresAt dto,
                    ak_lastUsedAt = None, ak_requestCount = 0, ak_revoked = False, ak_revokedAt = None,
                    ak_rateLimitPerMinute = akd_rateLimitPerMinute dto, ak_maxRequestsPerDay = akd_maxRequestsPerDay dto,
                    ak_maxRequestsPerMonth = akd_maxRequestsPerMonth dto,
                    ak_requireIpRestriction = nullish_else (akd_requireIpRestriction dto) False,
                    ak_allowedIpRanges = nullish_else (akd_allowedIpRanges dto) [], ak_createdAt = now e \<rparr>
          in (Inr (k, kd_rawKey d), st\<lparr> sv_keys := sv_keys st @ [k] \<rparr>))"

definition listApiKeys :: "realm_row \<Rightarrow> ident \<Rightarrow> svc \<Rightarrow> api_key_row list result" where
  "listApiKeys r serviceAccountId st =
     (case sa_findById r serviceAccountId st of
        Inl err \<Rightarrow> Inl err
      | Inr _ \<Rightarrow> Inr (order_asc ak_createdAt (filter (\<lambda>k. ak_serviceAccountId k = serviceAccountId) (sv_keys st))))"

definition key_of_account :: "ident \<Rightarrow> ident \<Rightarrow> svc \<Rightarrow> api_key_row option" where
  "key_of_account i serviceAccountId st = List.find (\<lambda>k. ak_id k = i \<and> ak_serviceAccountId k = serviceAccountId) (sv_keys st)"

definition update_key :: "ident \<Rightarrow> (api_key_row \<Rightarrow> api_key_row) \<Rightarrow> svc \<Rightarrow> svc" where
  "update_key i f st = st\<lparr> sv_keys := tbl_update (\<lambda>k. ak_id k = i) f (sv_keys st) \<rparr>"

definition revokeApiKey :: "env \<Rightarrow> realm_row \<Rightarrow> ident \<Rightarrow> ident \<Rightarrow> svc \<Rightarrow> unit result \<times> svc" where
  "revokeApiKey e r serviceAccountId apiKeyId st =
     (case sa_findById r serviceAccountId st of
        Inl err \<Rightarrow> (Inl err, st)
      | Inr _ \<Rightarrow>
          (case key_of_account apiKeyId serviceAccountId st of
             None \<Rightarrow> (Inl NotFoundException, st)
           | Some k \<Rightarrow>
               if ak_revoked k then (Inr (), st)
               else (Inr (), update_key apiKeyId (\<lambda>k. k\<lparr> ak_revoked := True, ak_revokedAt := Some (now e) \<rparr>) st)))"

definition rotateApiKey :: "env \<Rightarrow> key_draws \<Rightarrow> realm_row \<Rightarrow> ident \<Rightarrow> ident \<Rightarrow> svc \<Rightarrow> (api_key_row \<times> string \<times> millis) result \<times> svc" where
  "rotateApiKey e d r serviceAccountId apiKeyId st =
     (case sa_findById r serviceAccountId st of
        Inl err \<Rightarrow> (Inl err, st)
      | Inr _ \<Rightarrow>
          (case key_of_account apiKeyId serviceAccountId st of
             None \<Rightarrow> (Inl NotFoundException, st)
           | Some old \<Rightarrow>
               let k = \<lparr> ak_id = kd_id d, ak_serviceAccountId = serviceAccountId, ak_keyPrefix = take 8 (kd_rawKey d),
                         ak_keyHash = kd_hash d,
                         ak_name = (if falsy (ak_name old) then None else Some (the (ak_name old) @ '' (rotated)'')),
                         ak_scopes = ak_scopes old, ak_expiresAt = ak_expiresAt old, ak_lastUsedAt = None, ak_requestCount = 0,
                         ak_revoked = False, ak_revokedAt = None, ak_rateLimitPerMinute = None, ak_maxRequestsPerDay = None,
                         ak_maxRequestsPerMonth = None, ak_requireIpRestriction = False, ak_allowedIpRanges = [],
                         ak_createdAt = now e \<rparr>;
                   graceExpiry = now e + ROTATION_GRACE_SECONDS * 1000
               in (Inr (k, kd_rawKey d, graceExpiry),
                   update_key apiKeyId (\<lambda>k. k\<lparr> ak_expiresAt := Some graceExpiry \<rparr>) (st\<lparr> sv_keys := sv_keys st @ [k] \<rparr>))))"

definition account_enabled :: "ident \<Rightarrow> svc \<Rightarrow> bool" where
  "account_enabled i st = (case List.find (\<lambda>a. sa_id a = i) (sv_accounts st) of None \<Rightarrow> False | Some a \<Rightarrow> sa_enabled a)"

definition key_accepts :: "env \<Rightarrow> string \<Rightarrow> string \<Rightarrow> svc \<Rightarrow> api_key_row \<Rightarrow> bool" where
  "key_accepts e keyPrefix plainKey st k \<longleftrightarrow>
     ak_keyPrefix k = keyPrefix \<and> \<not> ak_revoked k \<and> (case ak_expiresAt k of None \<Rightarrow> True | Some t \<Rightarrow> \<not> t < now e)
     \<and> account_enabled (ak_serviceAccountId k) st \<and> verifyPassword e (ak_keyHash k) plainKey"

definition validateApiKey :: "env \<Rightarrow> string \<Rightarrow> string \<Rightarrow> svc \<Rightarrow> api_key_row result \<times> svc" where
  "validateApiKey e keyPrefix plainKey st =
     (case List.find (key_accepts e keyPrefix plainKey st) (sv_keys st) of
        None \<Rightarrow> (Inl UnauthorizedException, st)
      | Some k \<Rightarrow> (Inr k, update_key (ak_id k) (\<lambda>k. k\<lparr> ak_lastUsedAt := Some (now e), ak_requestCount := ak_requestCount k + 1 \<rparr>) st))"

definition checkQuotas :: "api_key_row \<Rightarrow> bool" where
  "checkQuotas k \<longleftrightarrow> (case ak_maxRequestsPerMonth k of None \<Rightarrow> False | Some m \<Rightarrow> ak_requestCount k \<ge> m)"

definition checkRateLimit :: "env \<Rightarrow> ident \<Rightarrow> int \<Rightarrow> svc \<Rightarrow> bool \<times> svc" where
  "checkRateLimit e apiKeyId rateLimitPerMinute st =
     (if rateLimitPerMinute \<le> 0 \<or> redis e \<noteq> RedisUp then (False, st)
      else
        let windowStart = now e - 60000;
            recent = filter (\<lambda>t. \<not> (0 \<le> t \<and> t \<le> windowStart)) (sv_windows st apiKeyId)
        in if int (length recent) \<ge> rateLimitPerMinute then (True, st\<lparr> sv_windows := (sv_windows st)(apiKeyId := recent) \<rparr>)
           else (False, st\<lparr> sv_windows := (sv_windows st)(apiKeyId := recent @ [now e]) \<rparr>))"

definition daily_key :: "env \<Rightarrow> ident \<Rightarrow> string" where
  "daily_key e apiKeyId = ''dailyquota:apikey:'' @ apiKeyId @ '':'' @ show_nat (nat (now e div 86400000))"

definition checkAndIncrementDailyQuota :: "env \<Rightarrow> ident \<Rightarrow> int \<Rightarrow> svc \<Rightarrow> bool \<times> svc" where
  "checkAndIncrementDailyQuota e apiKeyId maxRequestsPerDay st =
     (if maxRequestsPerDay \<le> 0 \<or> redis e \<noteq> RedisUp then (False, st)
      else let (currentCount, s) = redis_incr e (daily_key e apiKeyId) 90000 (sv_db st)
           in (currentCount > maxRequestsPerDay, st\<lparr> sv_db := s \<rparr>))"

record usage_metrics =
  um_totalRequests :: int
  um_lastUsedAt :: "millis option"
  um_keys :: "api_key_row list"

definition getUsageMetrics :: "realm_row \<Rightarrow> ident \<Rightarrow> svc \<Rightarrow> usage_metrics result" where
  "getUsageMetrics r serviceAccountId st =
     (case listApiKeys r serviceAccountId st of
        Inl err \<Rightarrow> Inl err
      | Inr keys \<Rightarrow>
          Inr \<lparr> um_totalRequests = foldl (\<lambda>n k. n + ak_requestCount k) 0 keys,
                um_lastUsedAt = (case order_desc (\<lambda>t. t) (List.map_filter ak_lastUsedAt keys) of [] \<Rightarrow> None | t # _ \<Rightarrow> Some t),
                um_keys = keys \<rparr>)"

subsection \<open>The guard\<close>

definition range_part_ok :: "int option \<Rightarrow> bool" where
  "range_part_ok p = (case p of None \<Rightarrow> False | Some n \<Rightarrow> 0 \<le> n \<and> n \<le> 255)"

definition ip_number :: "int option list \<Rightarrow> 32 word" where
  "ip_number ps = push_bit 24 (word_of_int (the (ps ! 0))) OR push_bit 16 (word_of_int (the (ps ! 1)))
     OR push_bit 8 (word_of_int (the (ps ! 2))) OR word_of_int (the (ps ! 3))"

definition ipMatchesRange :: "string \<Rightarrow> string \<Rightarrow> bool" where
  "ipMatchesRange ip rng =
     (if CHR ''/'' \<notin> set rng then ip = rng
      else let pieces = split_on (CHR ''/'') rng; addr = pieces ! 0
           in case parseInt (pieces ! 1) of
                None \<Rightarrow> False
              | Some prefixLen \<Rightarrow>
                  if addr = [] \<or> prefixLen < 0 \<or> prefixLen > 32 then False
                  else let ipParts = map parseInt (split_on (CHR ''.'') ip); rangeParts = map parseInt (split_on (CHR ''.'') addr)
                       in if length ipParts \<noteq> 4 \<or> length rangeParts \<noteq> 4 then False
                          else if \<not> list_all range_part_ok (ipParts @ rangeParts) then False
                          else let msk = (if prefixLen = 0 then 0 else push_bit (nat (32 - prefixLen)) (NOT 0)) :: 32 word
                               in ip_number ipParts AND msk = ip_number rangeParts AND msk)"

definition positive :: "int option \<Rightarrow> bool" where
  "positive n = (case n of None \<Rightarrow> False | Some m \<Rightarrow> m > 0)"

definition apiKey_canActivate :: "env \<Rightarrow> string option \<Rightarrow> string \<Rightarrow> svc \<Rightarrow> api_key_row result \<times> svc" where
  "apiKey_canActivate e header clientIp st =
     (if falsy header \<or> length (the header) < 8 then (Inl UnauthorizedException, st)
      else and_then (validateApiKey e (take 8 (the header)) (the header) st)
     (\<lambda>k st1.
        if ak_requireIpRestriction k \<and> ak_allowedIpRanges k \<noteq> [] \<and> \<not> list_ex (ipMatchesRange clientIp) (ak_allowedIpRanges k)
        then (Inl ForbiddenException, st1)
        else
          let (limited, st2) = (if positive (ak_rateLimitPerMinute k) then checkRateLimit e (ak_id k) (the (ak_rateLimitPerMinute k)) st1
                                else (False, st1))
          in if limited then (Inl TooManyRequests, st2)
             else
               let (exhausted, st3) = (if positive (ak_maxRequestsPerDay k)
                                       then checkAndIncrementDailyQuota e (ak_id k) (the (ak_maxRequestsPerDay k)) st2 else (False, st2))
               in if exhausted then (Inl TooManyRequests, st3)
                  else if positive (ak_maxRequestsPerMonth k) \<and> checkQuotas k then (Inl TooManyRequests, st3)
                  else (Inr k, st3)))"

subsection \<open>Address ranges\<close>

lemma ip_number_octets:
  assumes "octets os"
  shows "ip_number (map parseInt (map show_nat os)) = word_of_nat (address os)" and "list_all range_part_ok (map parseInt (map show_nat os))"
proof -
  obtain a b c d where os: "os = [a, b, c, d]" and lt: "a < 256" "b < 256" "c < 256" "d < 256"
    using assms by (rule octetsE)
  have "ip_number (map parseInt (map show_nat os)) = word_of_int (((int a * 256 + int b) * 256 + int c) * 256 + int d)"
    using quad_word [of "int a" "int b" "int c" "int d"] lt by (simp add: ip_number_def os parseInt_show_nat)
  also have "((int a * 256 + int b) * 256 + int c) * 256 + int d = int (address os)" by (simp add: os address_def)
  finally show "ip_number (map parseInt (map show_nat os)) = word_of_nat (address os)" by simp
  show "list_all range_part_ok (map parseInt (map show_nat os))" using lt by (simp add: os parseInt_show_nat range_part_ok_def)
qed

lemma ipMatchesRange_iff:
  assumes "octets os" "octets ns" "l \<le> 32"
  shows "ipMatchesRange (dotted os) (cidr_text (ns, l)) \<longleftrightarrow> in_block os (ns, l)"
proof -
  have ne: "ns \<noteq> []" "length ns = 4" "os \<noteq> []" "length os = 4" "dotted ns \<noteq> []"
    using assms(1,2) has_dot [OF assms(2)] by (auto elim: octetsE)
  have split: "split_on (CHR ''/'') (cidr_text (ns, l)) = [dotted ns, show_nat l]"
    using dotted_text(1) [of ns] show_nat_is_digit [of _ l]
    by (simp add: cidr_text_def split_on_append split_on_free) (metis digits_only(1) split_on_free)
  have "CHR ''/'' \<in> set (cidr_text (ns, l))" by (simp add: cidr_text_def)
  then have "ipMatchesRange (dotted os) (cidr_text (ns, l)) \<longleftrightarrow>
      word_of_nat (address os) AND prefix_mask l = word_of_nat (address ns) AND prefix_mask l"
    using assms ne ip_number_octets [OF assms(1)] ip_number_octets [OF assms(2)]
    by (simp add: ipMatchesRange_def split split_dotted parseInt_show_nat prefix_mask_def nat_diff_distrib Let_def)
  then show ?thesis using prefix_mask_block [OF assms] by simp
qed

subsection \<open>What a key opens\<close>

lemma validateApiKey_cases:
  assumes "validateApiKey e p plain st = (Inr k, st')"
  obtains (ok) "k \<in> set (sv_keys st)" "key_accepts e p plain st k"
    "st' = update_key (ak_id k) (\<lambda>k. k\<lparr> ak_lastUsedAt := Some (now e), ak_requestCount := ak_requestCount k + 1 \<rparr>) st"
  using assms by (auto simp: validateApiKey_def dest: find_SomeD split: option.splits)

definition window_entries :: "env \<Rightarrow> ident \<Rightarrow> svc \<Rightarrow> millis list" where
  "window_entries e i st = filter (\<lambda>t. \<not> (0 \<le> t \<and> t \<le> now e - 60000)) (sv_windows st i)"

lemma guard_cases:
  assumes "apiKey_canActivate e header ip st = (Inr k, st')"
  obtains (ok) plain st1 where "header = Some plain" "8 \<le> length plain" "validateApiKey e (take 8 plain) plain st = (Inr k, st1)"
    "ak_requireIpRestriction k \<Longrightarrow> ak_allowedIpRanges k \<noteq> [] \<Longrightarrow> list_ex (ipMatchesRange ip) (ak_allowedIpRanges k)"
    "positive (ak_rateLimitPerMinute k) \<Longrightarrow> \<not> fst (checkRateLimit e (ak_id k) (the (ak_rateLimitPerMinute k)) st1)"
    "positive (ak_maxRequestsPerMonth k) \<Longrightarrow> \<not> checkQuotas k"
proof -
  from assms obtain st1 where h: "\<not> falsy header" "8 \<le> length (the header)"
    "validateApiKey e (take 8 (the header)) (the header) st = (Inr k, st1)"
    "\<not> (ak_requireIpRestriction k \<and> ak_allowedIpRanges k \<noteq> [] \<and> \<not> list_ex (ipMatchesRange ip) (ak_allowedIpRanges k))"
    "positive (ak_rateLimitPerMinute k) \<Longrightarrow> \<not> fst (checkRateLimit e (ak_id k) (the (ak_rateLimitPerMinute k)) st1)"
    "positive (ak_maxRequestsPerMonth k) \<Longrightarrow> \<not> checkQuotas k"
    by (cases "validateApiKey e (take 8 (the header)) (the header) st")
      (auto simp: apiKey_canActivate_def and_then_def Let_def split: if_splits sum.splits prod.splits)
  then show thesis by (intro ok [of "the header" st1]) (auto elim: not_falsyE)
qed

lemma guard_accepts:
  assumes "apiKey_canActivate e header ip st = (Inr k, st')"
  shows "k \<in> set (sv_keys st)" and "\<exists>p plain. key_accepts e p plain st k"
proof -
  from assms obtain plain st1 where "validateApiKey e (take 8 plain) plain st = (Inr k, st1)" by (rule guard_cases)
  then show "k \<in> set (sv_keys st)" "\<exists>p plain. key_accepts e p plain st k" by (rule validateApiKey_cases, blast)+
qed


subsection \<open>A revoked key stays revoked\<close>

text \<open>
  Any history of the component: administration of accounts and keys, and requests that present keys.  A new key never has the
  identifier \<open>i\<close> of one that existed.
\<close>

inductive svc_run :: "ident \<Rightarrow> svc \<Rightarrow> svc \<Rightarrow> bool" for i :: ident and st0 :: svc where
  svc_start: "svc_run i st0 st0"
| svc_create: "svc_run i st0 st \<Longrightarrow> svc_run i st0 (snd (sa_create e a r dto st))"
| svc_update: "svc_run i st0 st \<Longrightarrow> svc_run i st0 (snd (sa_update r a patch st))"
| svc_remove: "svc_run i st0 st \<Longrightarrow> svc_run i st0 (snd (sa_remove r a st))"
| svc_new_key: "svc_run i st0 st \<Longrightarrow> kd_id d \<noteq> i \<Longrightarrow> svc_run i st0 (snd (createApiKey e d r a kdto st))"
| svc_revoke: "svc_run i st0 st \<Longrightarrow> svc_run i st0 (snd (revokeApiKey e r a x st))"
| svc_rotate: "svc_run i st0 st \<Longrightarrow> kd_id d \<noteq> i \<Longrightarrow> svc_run i st0 (snd (rotateApiKey e d r a x st))"
| svc_request: "svc_run i st0 st \<Longrightarrow> svc_run i st0 (snd (apiKey_canActivate e header ip st))"

lemma ball_tbl_update: "(\<forall>x \<in> set (tbl_update p f t). Q x) \<longleftrightarrow> (\<forall>x \<in> set t. Q (if p x then f x else x))"
  by (induction t) auto

definition dead_key :: "ident \<Rightarrow> svc \<Rightarrow> bool" where
  "dead_key i st \<longleftrightarrow> (\<forall>k \<in> set (sv_keys st). ak_id k = i \<longrightarrow> ak_revoked k)"

lemma dead_key_cong: "sv_keys st' = sv_keys st \<Longrightarrow> dead_key i st \<Longrightarrow> dead_key i st'"
  by (simp add: dead_key_def)

lemma dead_key_update:
  "dead_key i st \<Longrightarrow> (\<And>k. ak_id (f k) = ak_id k \<and> (ak_revoked k \<longrightarrow> ak_revoked (f k))) \<Longrightarrow> dead_key i (update_key x f st)"
  by (auto simp: dead_key_def update_key_def set_tbl_update)

lemma dead_key_append: "dead_key i st \<Longrightarrow> ak_id k \<noteq> i \<Longrightarrow> dead_key i (st\<lparr> sv_keys := sv_keys st @ [k] \<rparr>)"
  by (auto simp: dead_key_def)

lemma limits_keys:
  "sv_keys (snd (checkRateLimit e x n st)) = sv_keys st" "sv_keys (snd (checkAndIncrementDailyQuota e x n st)) = sv_keys st"
  by (simp_all add: checkRateLimit_def checkAndIncrementDailyQuota_def Let_def split_beta)

lemma guard_keys: "sv_keys (snd (apiKey_canActivate e header ip st)) = sv_keys st
    \<or> sv_keys (snd (apiKey_canActivate e header ip st)) = sv_keys (snd (validateApiKey e (take 8 (the header)) (the header) st))"
  by (cases "validateApiKey e (take 8 (the header)) (the header) st")
    (auto simp: apiKey_canActivate_def and_then_def Let_def split_beta limits_keys split: sum.splits)

lemma dead_key_validate: "dead_key i st \<Longrightarrow> dead_key i (snd (validateApiKey e p plain st))"
  by (auto simp: validateApiKey_def intro: dead_key_update split: option.split)

lemma dead_key_guard: "dead_key i st \<Longrightarrow> dead_key i (snd (apiKey_canActivate e header ip st))"
  using guard_keys [of e header ip st]
  by (elim disjE; intro dead_key_cong [of "snd (apiKey_canActivate e header ip st)"]) (assumption | erule dead_key_validate)+

lemma svc_run_dead: "svc_run i st0 st \<Longrightarrow> dead_key i st0 \<Longrightarrow> dead_key i st"
proof (induction rule: svc_run.induct)
  case (svc_new_key st d e r a kdto)
  then show ?case by (auto simp: createApiKey_def Let_def intro!: dead_key_append split: sum.split)
next
  case (svc_revoke st e r a x)
  then show ?case by (auto simp: revokeApiKey_def intro!: dead_key_update split: sum.split option.split)
next
  case (svc_rotate st d e r a x)
  then show ?case by (auto simp: rotateApiKey_def Let_def intro!: dead_key_update dead_key_append split: sum.split option.split)
next
  case (svc_remove st r a)
  then show ?case by (auto simp: sa_remove_def dead_key_def split: sum.split)
qed (auto simp: sa_create_def sa_update_def Let_def dead_key_guard intro: dead_key_cong split: sum.split)

text \<open>
  Revoking a key is final.  After it, over any history of further administration, rotation of this key included, and of
  requests, the guard never accepts that key again.
\<close>

theorem revoked_key_stays_out:
  assumes "revokeApiKey e r a i st = (Inr (), st1)" and "distinct (map ak_id (sv_keys st))" and "svc_run i st1 st2"
    and "apiKey_canActivate e' header ip st2 = (Inr k, st3)"
  shows "ak_id k \<noteq> i"
proof -
  obtain acc old where acc: "sa_findById r a st = Inr acc" and key: "key_of_account i a st = Some old"
    using assms(1) by (cases "sa_findById r a st"; cases "key_of_account i a st") (simp_all add: revokeApiKey_def)
  have st1: "st1 = (if ak_revoked old then st else update_key i (\<lambda>k. k\<lparr> ak_revoked := True, ak_revokedAt := Some (now e) \<rparr>) st)"
    using assms(1) by (cases "ak_revoked old") (simp_all add: revokeApiKey_def acc key)
  note old = key [unfolded key_of_account_def]
  have same: "k = old" if "k \<in> set (sv_keys st)" "ak_id k = i" for k
    using find_SomeD [OF old] that distinct_id_eq [OF assms(2)] by metis
  then have "\<forall>k \<in> set (sv_keys st). ak_id k = i \<longrightarrow> ak_revoked k = ak_revoked old" by blast
  then have "dead_key i st1" by (cases "ak_revoked old") (simp_all add: st1 dead_key_def update_key_def ball_tbl_update)
  from svc_run_dead [OF assms(3) this] have "dead_key i st2" .
  moreover have "k \<in> set (sv_keys st2)" "\<not> ak_revoked k" using guard_accepts [OF assms(4)] by (auto simp: key_accepts_def)
  ultimately show ?thesis by (auto simp: dead_key_def)
qed

subsection \<open>Rotation\<close>

text \<open>
  Rotation hands over.  The new key works at once with the scopes and the expiry of the old one, and the old key
  is accepted for at most an hour longer.
\<close>

theorem key_rotation_hands_over:
  assumes "rotateApiKey e d r a i st = (Inr (k', plain, until), st')"
    and "kd_id d \<noteq> i" and "kd_rawKey d \<noteq> []" and "\<forall>k \<in> set (sv_keys st). ak_keyPrefix k \<noteq> take 8 (kd_rawKey d)"
  shows "(\<exists>old \<in> set (sv_keys st). ak_id old = i \<and> ak_serviceAccountId old = a \<and> ak_scopes k' = ak_scopes old
        \<and> ak_expiresAt k' = ak_expiresAt old
        \<and> (account_enabled a st \<and> verifyPassword e' (ak_keyHash k') plain
             \<and> (\<forall>t. ak_expiresAt old = Some t \<longrightarrow> now e' \<le> t) \<longrightarrow> fst (validateApiKey e' (take 8 plain) plain st') = Inr k'))
    \<and> until = now e + 3600000
    \<and> (\<forall>e'' header ip k st''. apiKey_canActivate e'' header ip st' = (Inr k, st'') \<and> ak_id k = i \<longrightarrow> now e'' \<le> until)"
proof -
  let ?f = "\<lambda>k. k\<lparr> ak_expiresAt := Some until \<rparr>"
  obtain acc old where acc: "sa_findById r a st = Inr acc" and key: "key_of_account i a st = Some old"
    using assms(1) by (cases "sa_findById r a st"; cases "key_of_account i a st") (simp_all add: rotateApiKey_def)
  have k': "ak_id k' = kd_id d" "ak_serviceAccountId k' = a" "ak_keyPrefix k' = take 8 (kd_rawKey d)" "\<not> ak_revoked k'"
      "ak_scopes k' = ak_scopes old" "ak_expiresAt k' = ak_expiresAt old"
    and out: "plain = kd_rawKey d" "until = now e + 3600000" "st' = update_key i ?f (st\<lparr> sv_keys := sv_keys st @ [k'] \<rparr>)"
    using assms(1) by (auto simp: rotateApiKey_def acc key Let_def ROTATION_GRACE_SECONDS_def)
  note old = key [unfolded key_of_account_def]
  have keys: "sv_keys st' = tbl_update (\<lambda>k. ak_id k = i) ?f (sv_keys st) @ [k']"
    using k'(1) assms(2) by (simp add: out(3) update_key_def tbl_update_def)
  have enabled: "account_enabled x st' = account_enabled x st" for x by (simp add: account_enabled_def out(3) update_key_def)
  have "fst (validateApiKey e' (take 8 plain) plain st') = Inr k'"
    if "account_enabled a st" "verifyPassword e' (ak_keyHash k') plain" "\<forall>t. ak_expiresAt old = Some t \<longrightarrow> now e' \<le> t"
  proof -
    have "List.find (key_accepts e' (take 8 plain) plain st') (tbl_update (\<lambda>k. ak_id k = i) ?f (sv_keys st)) = None"
      using assms(4) by (auto simp: find_None_iff set_tbl_update key_accepts_def out(1) split: if_splits)
    moreover have "key_accepts e' (take 8 plain) plain st' k'"
      using that k' by (auto simp: key_accepts_def enabled out(1) split: option.split)
    ultimately show ?thesis by (simp add: validateApiKey_def keys find_append_None)
  qed
  moreover have "now e'' \<le> until" if "apiKey_canActivate e'' header ip st' = (Inr k, st'')" "ak_id k = i" for e'' header ip k st''
  proof -
    have "k \<in> set (sv_keys st')" "\<forall>t. ak_expiresAt k = Some t \<longrightarrow> now e'' \<le> t"
      using guard_accepts [OF that(1)] by (auto simp: key_accepts_def)
    moreover have "\<forall>k \<in> set (sv_keys st'). ak_id k = i \<longrightarrow> ak_expiresAt k = Some until"
      unfolding keys using k'(1) assms(2) by (simp add: ball_tbl_update ball_Un)
    ultimately show ?thesis using that(2) by blast
  qed
  ultimately show ?thesis using find_SomeD [OF old] k' out(2) by blast
qed

subsection \<open>At most so many requests in a minute\<close>

fun served_times :: "ident \<Rightarrow> int \<Rightarrow> env list \<Rightarrow> svc \<Rightarrow> millis list" where
  "served_times i n [] st = []"
| "served_times i n (e # es) st =
     (let (limited, st') = checkRateLimit e i n st in (if limited then [] else [now e]) @ served_times i n es st')"

definition in_minute :: "millis \<Rightarrow> millis list \<Rightarrow> millis list" where
  "in_minute w ts = filter (\<lambda>t. w < t \<and> t \<le> w + 60000) ts"

lemma window_step:
  assumes "redis e = RedisUp" "0 < n" "\<forall>t \<in> set A. 0 \<le> t \<and> t \<le> T" "T \<le> now e" "0 \<le> now e"
    and "filter (\<lambda>t. T - 60000 < t) (sv_windows st i) = filter (\<lambda>t. T - 60000 < t) A" "set (sv_windows st i) \<subseteq> set A"
    and "\<forall>w. int (length (in_minute w A)) \<le> n" "checkRateLimit e i n st = (limited, st')"
  defines "A' \<equiv> A @ (if limited then [] else [now e])"
  shows "filter (\<lambda>t. now e - 60000 < t) (sv_windows st' i) = filter (\<lambda>t. now e - 60000 < t) A'"
    and "set (sv_windows st' i) \<subseteq> set A'" and "\<forall>w. int (length (in_minute w A')) \<le> n"
proof -
  let ?recent = "filter (\<lambda>t. \<not> (0 \<le> t \<and> t \<le> now e - 60000)) (sv_windows st i)"
  have recent: "?recent = filter (\<lambda>t. now e - 60000 < t) (sv_windows st i)"
    using assms(3,7) by (intro filter_cong) auto
  have narrow: "filter (\<lambda>t. now e - 60000 < t) xs = filter (\<lambda>t. now e - 60000 < t) (filter (\<lambda>t. T - 60000 < t) xs)" for xs
    using assms(4) by (auto intro!: filter_cong)
  have same: "filter (\<lambda>t. now e - 60000 < t) (sv_windows st i) = filter (\<lambda>t. now e - 60000 < t) A"
    by (subst narrow, subst (2) narrow, subst assms(6), rule refl)
  have run: "limited \<longleftrightarrow> n \<le> int (length ?recent)" "sv_windows st' i = (if limited then ?recent else ?recent @ [now e])"
    using assms(1,2,9) by (auto simp: checkRateLimit_def Let_def split: if_splits)
  note run = run [unfolded recent same]
  show "filter (\<lambda>t. now e - 60000 < t) (sv_windows st' i) = filter (\<lambda>t. now e - 60000 < t) A'"
    by (simp add: run(2) A'_def)
  show "set (sv_windows st' i) \<subseteq> set A'" by (auto simp: run(2) A'_def)
  have "int (length (in_minute w A')) \<le> n" if "\<not> limited" "w < now e" "now e \<le> w + 60000" for w
  proof -
    have "length (in_minute w A) \<le> length (filter (\<lambda>t. now e - 60000 < t) A)"
      using that(3) unfolding in_minute_def by (induction A) auto
    then show ?thesis using run(1) that by (simp add: A'_def in_minute_def)
  qed
  then show "\<forall>w. int (length (in_minute w A')) \<le> n" using assms(8) by (fastforce simp: A'_def in_minute_def)
qed

lemma served_bounded:
  assumes "\<forall>e \<in> set es. redis e = RedisUp \<and> 0 \<le> now e" "0 < n" "sorted (map now es)" "\<forall>e \<in> set es. T \<le> now e"
    and "\<forall>t \<in> set A. 0 \<le> t \<and> t \<le> T"
    and "filter (\<lambda>t. T - 60000 < t) (sv_windows st i) = filter (\<lambda>t. T - 60000 < t) A" "set (sv_windows st i) \<subseteq> set A"
    and "\<forall>w. int (length (in_minute w A)) \<le> n"
  shows "int (length (in_minute w (A @ served_times i n es st))) \<le> n"
  using assms
proof (induction es arbitrary: st A T)
  case (Cons e es)
  obtain limited st' where run: "checkRateLimit e i n st = (limited, st')" by fastforce
  let ?A = "A @ (if limited then [] else [now e])"
  have e: "redis e = RedisUp" "0 \<le> now e" "T \<le> now e" using Cons.prems(1,4) by auto
  note step = window_step [OF e(1) Cons.prems(2,5) e(3,2) Cons.prems(6-8) run]
  have "\<forall>t \<in> set ?A. 0 \<le> t \<and> t \<le> now e" using Cons.prems(5) e(2,3) by auto
  moreover have "\<forall>e' \<in> set es. redis e' = RedisUp \<and> 0 \<le> now e'" "sorted (map now es)" "\<forall>e' \<in> set es. now e \<le> now e'"
    using Cons.prems(1,3) by simp_all
  ultimately have "int (length (in_minute w (?A @ served_times i n es st'))) \<le> n"
    using Cons.IH [OF _ Cons.prems(2) _ _ _ step] by blast
  then show ?case by (simp add: run)
qed simp

text \<open>
  The limit per minute holds over every window.  While Redis answers, however the requests of a key fall, at most the
  configured number of them is let through in any sixty seconds.
\<close>

theorem key_rate_bounded:
  assumes "\<forall>e \<in> set es. redis e = RedisUp \<and> 0 \<le> now e" and "sorted (map now es)" and "0 < n" and "sv_windows st i = []"
  shows "int (length (in_minute w (served_times i n es st))) \<le> n"
proof (cases es)
  case (Cons e rest)
  with assms served_bounded [of es n "now e" "[]" st i w] show ?thesis by (auto simp: in_minute_def)
qed (use assms in \<open>simp add: in_minute_def\<close>)

subsection \<open>Examples\<close>

definition sample_key_draws :: key_draws where
  "sample_key_draws = \<lparr> kd_id = ''k1'', kd_rawKey = ''0123456789abcdef'', kd_hash = ''0123456789abcdef'' \<rparr>"

definition next_key_draws :: key_draws where
  "next_key_draws = \<lparr> kd_id = ''k2'', kd_rawKey = ''fedcba9876543210'', kd_hash = ''fedcba9876543210'' \<rparr>"

definition sample_key_dto :: api_key_dto where
  "sample_key_dto = \<lparr> akd_name = Some ''ci'', akd_scopes = Some [''read''], akd_expiresAt = None, akd_maxRequestsPerDay = None,
     akd_maxRequestsPerMonth = Some 100, akd_rateLimitPerMinute = Some 2, akd_requireIpRestriction = Some True,
     akd_allowedIpRanges = Some [''10.0.0.0/8''] \<rparr>"

definition bare_svc :: svc where
  "bare_svc = \<lparr> sv_accounts = [\<lparr> sa_id = ''a1'', sa_realmId = ''r1'', sa_name = ''ci'', sa_description = None, sa_enabled = True,
     sa_createdAt = 0 \<rparr>], sv_keys = [], sv_windows = (\<lambda>_. []), sv_db = sample_db \<rparr>"

definition keyed_svc :: svc where
  "keyed_svc = snd (createApiKey sample_env sample_key_draws sample_realm ''a1'' sample_key_dto bare_svc)"

definition sample_key :: api_key_row where
  "sample_key = hd (sv_keys keyed_svc)"

lemma ok_pair: "isl (fst p) = False \<Longrightarrow> projr (fst p) = x \<Longrightarrow> p = (Inr x, snd p)"
  by (cases p; cases "fst p") auto


theorem revoked_key_stays_out_witness:
  "fst (revokeApiKey sample_env sample_realm ''a1'' ''k1'' keyed_svc) = Inr ()
   \<and> fst (apiKey_canActivate sample_env (Some ''0123456789abcdef'') ''10.1.2.3'' (snd (revokeApiKey sample_env sample_realm ''a1'' ''k1'' keyed_svc)))
     = Inl UnauthorizedException
   \<and> ak_id (projr (fst (apiKey_canActivate sample_env (Some ''fedcba9876543210'') ''10.1.2.3''
        (snd (rotateApiKey sample_env next_key_draws sample_realm ''a1'' ''k1'' (snd (revokeApiKey sample_env sample_realm ''a1'' ''k1'' keyed_svc))))))) \<noteq> ''k1''"
proof (intro conjI)
  let ?R = "revokeApiKey sample_env sample_realm ''a1'' ''k1'' keyed_svc"
  let ?T = "snd (rotateApiKey sample_env next_key_draws sample_realm ''a1'' ''k1'' (snd ?R))"
  let ?G = "apiKey_canActivate sample_env (Some ''fedcba9876543210'') ''10.1.2.3'' ?T"
  show "fst (apiKey_canActivate sample_env (Some ''0123456789abcdef'') ''10.1.2.3'' (snd ?R)) = Inl UnauthorizedException" by code_simp
  show ok: "fst ?R = Inr ()" by code_simp
  have "?R = (Inr (), snd ?R)" using ok by (simp add: prod_eq_iff)
  moreover have "distinct (map ak_id (sv_keys keyed_svc))" by code_simp
  moreover have "kd_id next_key_draws \<noteq> ''k1''" by code_simp
  then have "svc_run ''k1'' (snd ?R) ?T" by (intro svc_rotate svc_start)
  moreover have "isl (fst ?G) = False" by code_simp
  then have "?G = (Inr (projr (fst ?G)), snd ?G)" by (rule ok_pair) simp
  ultimately show "ak_id (projr (fst ?G)) \<noteq> ''k1''"
    using revoked_key_stays_out [of sample_env sample_realm "''a1''" "''k1''" keyed_svc "snd ?R" ?T] by blast
qed

theorem key_rotation_hands_over_witness:
  "\<exists>k'. fst (rotateApiKey sample_env next_key_draws sample_realm ''a1'' ''k1'' keyed_svc) = Inr (k', ''fedcba9876543210'', 4600000)
    \<and> ak_scopes k' = [''read'']
    \<and> fst (validateApiKey sample_env ''fedcba98'' ''fedcba9876543210'' (snd (rotateApiKey sample_env next_key_draws sample_realm ''a1'' ''k1'' keyed_svc))) = Inr k'"
proof -
  let ?R = "rotateApiKey sample_env next_key_draws sample_realm ''a1'' ''k1'' keyed_svc"
  have "isl (fst ?R) = False" "snd (projr (fst ?R)) = (''fedcba9876543210'', 4600000)" by code_simp+
  then obtain k' where run: "?R = (Inr (k', ''fedcba9876543210'', 4600000), snd ?R)"
    by (cases ?R; cases "fst ?R") auto
  have keys: "sv_keys keyed_svc = [sample_key]" "ak_keyPrefix sample_key = ''01234567''" "ak_scopes sample_key = [''read'']"
    "ak_expiresAt sample_key = None" "account_enabled ''a1'' keyed_svc" "kd_id next_key_draws \<noteq> ''k1''" "kd_rawKey next_key_draws \<noteq> []"
    "take 8 (kd_rawKey next_key_draws) = ''fedcba98''" "verifyPassword sample_env (ak_keyHash (fst (projr (fst ?R)))) ''fedcba9876543210''" by code_simp+
  then have "\<forall>k \<in> set (sv_keys keyed_svc). ak_keyPrefix k \<noteq> take 8 (kd_rawKey next_key_draws)" by simp
  from key_rotation_hands_over [OF run keys(6,7) this, where e' = sample_env] keys run show ?thesis by (auto simp: prod_eq_iff)
qed

definition moment :: "millis \<Rightarrow> env" where
  "moment t = sample_env\<lparr> now := t \<rparr>"

theorem key_rate_bounded_witness:
  "served_times ''k1'' 2 [moment 1000, moment 2000, moment 3000, moment 62000] keyed_svc = [1000, 2000, 62000]
   \<and> int (length (in_minute 0 (served_times ''k1'' 2 [moment 1000, moment 2000, moment 3000, moment 62000] keyed_svc))) \<le> 2"
proof
  show "served_times ''k1'' 2 [moment 1000, moment 2000, moment 3000, moment 62000] keyed_svc = [1000, 2000, 62000]" by code_simp
  have "redis sample_env = RedisUp" "sv_windows keyed_svc ''k1'' = []" by code_simp+
  then show "int (length (in_minute 0 (served_times ''k1'' 2 [moment 1000, moment 2000, moment 3000, moment 62000] keyed_svc))) \<le> 2"
    by (intro key_rate_bounded) (simp_all add: moment_def)
qed

subsection \<open>Limits of the component\<close>

text \<open>
  A rotated key keeps scopes and expiry only: its address ranges, its limit per minute and its quotas are gone.
\<close>

lemma rotation_drops_restrictions:
  assumes "rotateApiKey e d r a i st = (Inr (k', plain, until), st')"
  shows "\<not> ak_requireIpRestriction k' \<and> ak_rateLimitPerMinute k' = None \<and> ak_maxRequestsPerDay k' = None \<and> ak_maxRequestsPerMonth k' = None"
  using assms by (auto simp: rotateApiKey_def Let_def split: sum.splits option.splits)

text \<open>An expired key that is rotated is accepted again for the grace period.\<close>

definition expired_svc :: svc where
  "expired_svc = update_key ''k1'' (\<lambda>k. k\<lparr> ak_expiresAt := Some 5 \<rparr>) keyed_svc"

lemma rotation_revives_expired_key:
  "isl (fst (validateApiKey sample_env ''01234567'' ''0123456789abcdef'' expired_svc)) = True
   \<and> isl (fst (validateApiKey sample_env ''01234567'' ''0123456789abcdef''
        (snd (rotateApiKey sample_env next_key_draws sample_realm ''a1'' ''k1'' expired_svc)))) = False"
  by code_simp

text \<open>The monthly quota is compared with a counter that nothing ever resets: it bounds the requests of the whole life of a key.\<close>

lemma monthly_quota_is_for_life:
  assumes "ak_maxRequestsPerMonth k = Some m" "m \<le> ak_requestCount k" "0 < m"
  shows "apiKey_canActivate e header ip st \<noteq> (Inr k, st')"
  using assms by (auto elim!: guard_cases simp: checkQuotas_def positive_def)

end
