(* ===== verification/Scim_Filter.thy ===== *)
theory Scim_Filter
  imports Users Js_Value "HOL-Library.AList"
begin

text \<open>
  \<open>src/src/scim/filter-parser.service.ts\<close> and the listing of users it serves: SCIM filter expressions, the query they become
  and what the query selects.  The regular expression of the parser leaves no choice to backtracking: attribute characters,
  white space, two letters, white space and the rest are disjoint, so it is read from left to right.  A query object is an
  association list in which a later key replaces an earlier one.

  \<open>prisma_platform\<close> stands for the database: the order of texts, a rank for sorting, and conditions on columns that the model of a user
  does not have (dates, the phone number, relations), where \<open>other_valid\<close> says whether the client library accepts the condition;
  \<open>text_filter\<close> is what the library makes of a value that is not a text where it expects a condition on a text, if it accepts it.
\<close>

subsection \<open>Parsing\<close>

record scim_filter =
  sf_attribute :: string
  sf_operator :: string
  sf_value :: jsv

definition attr_char :: "char \<Rightarrow> bool" where
  "attr_char c \<longleftrightarrow> (let n = of_char c :: nat in 65 \<le> n \<and> n \<le> 90 \<or> 97 \<le> n \<and> n \<le> 122 \<or> 48 \<le> n \<and> n \<le> 57 \<or> n = 95 \<or> n = 46)"

definition line_end :: "char \<Rightarrow> bool" where
  "line_end c \<longleftrightarrow> of_char c \<in> {10, 13 :: nat}"

definition FILTER_OPERATORS :: "string list" where
  "FILTER_OPERATORS = [''eq'', ''ne'', ''co'', ''sw'', ''ew'', ''gt'', ''ge'', ''lt'', ''le'']"

definition numeric_text :: "string \<Rightarrow> bool" where
  "numeric_text raw \<longleftrightarrow>
     (let s = (if take 1 raw = ''-'' then drop 1 raw else raw); frac = dropWhile is_js_digit s
      in takeWhile is_js_digit s \<noteq> [] \<and>
         (frac = [] \<or> take 1 frac = ''.'' \<and> drop 1 frac \<noteq> [] \<and> list_all is_js_digit (drop 1 frac)))"

definition quoted_by :: "char \<Rightarrow> string \<Rightarrow> bool" where
  "quoted_by q raw \<longleftrightarrow> raw \<noteq> [] \<and> hd raw = q \<and> last raw = q"

definition parseFilterValue :: "js_engine \<Rightarrow> string \<Rightarrow> jsv" where
  "parseFilterValue j raw =
     (if raw = ''true'' then Bool True
      else if raw = ''false'' then Bool False
      else if numeric_text raw then Num (number_of_string j raw)
      else if quoted_by (CHR 0x22) raw \<or> quoted_by (CHR 0x27) raw then Str (butlast (tl raw))
      else Str raw)"

definition parseScimFilter :: "js_engine \<Rightarrow> string \<Rightarrow> scim_filter result" where
  "parseScimFilter j filter_text =
     (let trimmed = js_trim filter_text;
          attribute = takeWhile attr_char trimmed; r1 = dropWhile attr_char trimmed; r2 = dropWhile js_space r1;
          operator = to_lower (take 2 r2); r3 = drop 2 r2; rawValue = dropWhile js_space r3
      in if filter_text \<noteq> [] \<and> attribute \<noteq> [] \<and> r1 \<noteq> r2 \<and> operator \<in> set FILTER_OPERATORS \<and> r3 \<noteq> rawValue \<and> rawValue \<noteq> []
            \<and> \<not> list_ex line_end rawValue
         then Inr \<lparr> sf_attribute = attribute, sf_operator = operator, sf_value = parseFilterValue j (js_trim rawValue) \<rparr>
         else Inl BadRequestException)"

subsection \<open>Queries\<close>

datatype prisma_cond =
    IsEq jsv | IsNot jsv | Contains string | StartsWith string | EndsWith string
  | Greater jsv | GreaterEq jsv | Less jsv | LessEq jsv

type_synonym prisma_where = "(string \<times> prisma_cond) list"

definition ATTR_TO_FIELD :: "(string \<times> jsv) list" where
  "ATTR_TO_FIELD =
     [(''userName'', Str ''username''), (''name.givenName'', Str ''firstName''), (''name.familyName'', Str ''lastName''),
      (''displayName'', Str ''displayName''), (''emails.value'', Str ''email''), (''active'', Str ''enabled''),
      (''title'', Str ''title''), (''externalId'', Str ''federationLink'')]"

definition attr_field :: "js_engine \<Rightarrow> string \<Rightarrow> string" where
  "attr_field j attribute =
     (let v = get_prop j (Obj ATTR_TO_FIELD) attribute
      in if truthy v then nullish_else (js_String j v) [] else attribute)"

definition value_text :: "js_engine \<Rightarrow> jsv \<Rightarrow> string" where
  "value_text j v = nullish_else (js_String j v) []"

definition filter_cond :: "js_engine \<Rightarrow> string \<Rightarrow> jsv \<Rightarrow> prisma_cond option" where
  "filter_cond j operator v =
     (if operator = ''eq'' then Some (IsEq v)
      else if operator = ''ne'' then Some (IsNot v)
      else if operator = ''co'' then Some (Contains (value_text j v))
      else if operator = ''sw'' then Some (StartsWith (value_text j v))
      else if operator = ''ew'' then Some (EndsWith (value_text j v))
      else if operator = ''gt'' then Some (Greater v)
      else if operator = ''ge'' then Some (GreaterEq v)
      else if operator = ''lt'' then Some (Less v)
      else if operator = ''le'' then Some (LessEq v)
      else None)"

definition in_realm_clause :: "ident \<Rightarrow> prisma_where" where
  "in_realm_clause realmId = [(''realmId'', IsEq (Str realmId))]"

definition scimFilterToPrismaWhereUser :: "js_engine \<Rightarrow> string \<Rightarrow> ident \<Rightarrow> prisma_where result" where
  "scimFilterToPrismaWhereUser j filter_text realmId =
     (case parseScimFilter j filter_text of
        Inl err \<Rightarrow> Inl err
      | Inr f \<Rightarrow>
          (case filter_cond j (sf_operator f) (sf_value f) of
             None \<Rightarrow> Inl BadRequestException
           | Some c \<Rightarrow> Inr (AList.update (attr_field j (sf_attribute f)) c (in_realm_clause realmId))))"

definition scimFilterToPrismaWhereGroup :: "js_engine \<Rightarrow> string \<Rightarrow> ident \<Rightarrow> prisma_where result" where
  "scimFilterToPrismaWhereGroup j filter_text realmId =
     (case parseScimFilter j filter_text of
        Inl err \<Rightarrow> Inl err
      | Inr f \<Rightarrow>
          if sf_attribute f = ''displayName'' then
            if sf_operator f \<in> {''eq'', ''ne'', ''co'', ''sw'', ''ew''}
            then Inr (AList.update ''name'' (the (filter_cond j (sf_operator f) (sf_value f))) (in_realm_clause realmId))
            else Inl BadRequestException
          else if sf_attribute f = ''externalId'' then
            if sf_operator f = ''eq'' then Inr (AList.update ''id'' (IsEq (sf_value f)) (in_realm_clause realmId))
            else Inl BadRequestException
          else Inl BadRequestException)"

subsection \<open>What a query selects\<close>

record prisma_platform =
  text_less :: "string \<Rightarrow> string \<Rightarrow> bool"
  text_rank :: "string \<Rightarrow> nat"
  other_valid :: "string \<Rightarrow> prisma_cond \<Rightarrow> bool"
  other_match :: "string \<Rightarrow> prisma_cond \<Rightarrow> user_row \<Rightarrow> bool"
  text_filter :: "jsv \<Rightarrow> (string \<Rightarrow> bool) option"

text \<open>Comparisons with an absent value hold for no row, \<open>not\<close> included.\<close>

definition is_text :: "jsv \<Rightarrow> bool" where
  "is_text v = (case v of Str _ \<Rightarrow> True | _ \<Rightarrow> False)"

fun text_valid :: "prisma_cond \<Rightarrow> bool" where
  "text_valid (IsEq v) = is_text v"
| "text_valid (IsNot v) = is_text v"
| "text_valid (Greater v) = is_text v"
| "text_valid (GreaterEq v) = is_text v"
| "text_valid (Less v) = is_text v"
| "text_valid (LessEq v) = is_text v"
| "text_valid _ = True"

fun text_holds :: "prisma_platform \<Rightarrow> prisma_cond \<Rightarrow> string \<Rightarrow> bool" where
  "text_holds p (IsEq v) y = (v = Str y)"
| "text_holds p (IsNot v) y = (v \<noteq> Str y)"
| "text_holds p (Contains x) y = is_infix x y"
| "text_holds p (StartsWith x) y = starts_with x y"
| "text_holds p (EndsWith x) y = ends_with x y"
| "text_holds p (Greater (Str x)) y = text_less p x y"
| "text_holds p (GreaterEq (Str x)) y = (\<not> text_less p y x)"
| "text_holds p (Less (Str x)) y = text_less p y x"
| "text_holds p (LessEq (Str x)) y = (\<not> text_less p x y)"
| "text_holds p _ y = False"

fun bool_valid :: "prisma_cond \<Rightarrow> bool" where
  "bool_valid (IsEq (Bool b)) = True"
| "bool_valid (IsNot (Bool b)) = True"
| "bool_valid _ = False"

fun bool_holds :: "prisma_cond \<Rightarrow> bool \<Rightarrow> bool" where
  "bool_holds (IsEq v) b = (v = Bool b)"
| "bool_holds (IsNot v) b = (v \<noteq> Bool b)"
| "bool_holds _ b = False"

definition text_columns :: "(string \<times> (user_row \<Rightarrow> string option)) list" where
  "text_columns =
     [(''id'', \<lambda>u. Some (user_id u)), (''realmId'', \<lambda>u. Some (user_realmId u)), (''username'', \<lambda>u. Some (user_username u)),
      (''email'', user_email), (''firstName'', user_firstName), (''lastName'', user_lastName), (''passwordHash'', user_passwordHash),
      (''passwordAlgorithm'', \<lambda>u. Some (user_passwordAlgorithm u)), (''federationLink'', user_federationLink)]"

definition bool_columns :: "(string \<times> (user_row \<Rightarrow> bool)) list" where
  "bool_columns = [(''enabled'', user_enabled), (''emailVerified'', user_emailVerified)]"

definition cond_valid :: "prisma_platform \<Rightarrow> string \<times> prisma_cond \<Rightarrow> bool" where
  "cond_valid p fc =
     (case fc of (f, c) \<Rightarrow>
        if map_of text_columns f \<noteq> None then text_valid c
        else if map_of bool_columns f \<noteq> None then bool_valid c else other_valid p f c)"

definition cond_holds :: "prisma_platform \<Rightarrow> user_row \<Rightarrow> string \<times> prisma_cond \<Rightarrow> bool" where
  "cond_holds p u fc =
     (case fc of (f, c) \<Rightarrow>
        case map_of text_columns f of
          Some col \<Rightarrow> (case col u of None \<Rightarrow> False | Some y \<Rightarrow> text_holds p c y)
        | None \<Rightarrow> (case map_of bool_columns f of Some col \<Rightarrow> bool_holds c (col u) | None \<Rightarrow> other_match p f c u))"

definition select_users :: "prisma_platform \<Rightarrow> prisma_where \<Rightarrow> db \<Rightarrow> user_row list result" where
  "select_users p w s =
     (if list_all (cond_valid p) w then Inr (filter (\<lambda>u. list_all (cond_holds p u) w) (users s)) else Inl PlainError)"

text \<open>A negative \<open>take\<close> counts from the end.\<close>

definition prisma_page :: "int \<Rightarrow> int \<Rightarrow> 'a list \<Rightarrow> 'a list" where
  "prisma_page skip n xs =
     (if 0 \<le> n then take (nat n) (drop (nat skip) xs) else rev (take (nat (- n)) (drop (nat skip) (rev xs))))"

definition scim_findAll_users ::
  "js_engine \<Rightarrow> prisma_platform \<Rightarrow> ident \<Rightarrow> int option \<Rightarrow> int option \<Rightarrow> string option \<Rightarrow> db \<Rightarrow> (int \<times> user_row list) result" where
  "scim_findAll_users j p realmId startIndex count filter_text s =
     (let start = nullish_else startIndex 1; n = nullish_else count 100;
          w = (if falsy filter_text then Inr (in_realm_clause realmId) else scimFilterToPrismaWhereUser j (the filter_text) realmId)
      in case w of
           Inl _ \<Rightarrow> Inr (0, [])
         | Inr w \<Rightarrow>
             (case select_users p w s of
                Inl err \<Rightarrow> Inl err
              | Inr rows \<Rightarrow>
                  Inr (int (length rows), prisma_page (max 0 (start - 1)) (min n 100) (sort_key (\<lambda>u. text_rank p (user_username u)) rows))))"

subsection \<open>Writing and reading a filter\<close>

lemma js_trim_ends:
  assumes "s \<noteq> []" "\<not> js_space (hd s)" "\<not> js_space (last s)"
  shows "js_trim s = s"
proof -
  have "dropWhile js_space s = s" using assms(1,2) by (cases s) auto
  moreover have "dropWhile js_space (rev s) = rev s"
    using assms(1,3) by (cases "rev s") (auto simp: hd_rev [symmetric])
  ultimately show ?thesis by (simp add: js_trim_def)
qed

lemma attr_char_facts: "attr_char c \<Longrightarrow> \<not> js_space c" "\<not> attr_char (CHR '' '')" "js_space (CHR '' '')" "\<not> js_space (CHR 0x22)"
  by (auto simp: attr_char_def js_space_def Let_def)

lemma operator_shape:
  assumes "operator \<in> set FILTER_OPERATORS"
  shows "length operator = 2" "to_lower operator = operator" "\<not> js_space (hd operator)"
proof -
  have "list_all (\<lambda>operator. length operator = 2 \<and> to_lower operator = operator \<and> \<not> js_space (hd operator)) FILTER_OPERATORS"
    by code_simp
  with assms show "length operator = 2" "to_lower operator = operator" "\<not> js_space (hd operator)"
    by (auto simp: list_all_iff)
qed

lemma quoted_value: "parseFilterValue j (CHR 0x22 # v @ [CHR 0x22]) = Str v"
proof -
  have "\<not> is_js_digit (CHR 0x22)" by code_simp
  then have "\<not> numeric_text (CHR 0x22 # v @ [CHR 0x22])" by (simp add: numeric_text_def Let_def)
  then show ?thesis by (simp add: parseFilterValue_def quoted_by_def)
qed

definition filter_text :: "string \<Rightarrow> string \<Rightarrow> string \<Rightarrow> string" where
  "filter_text attribute operator v = attribute @ '' '' @ operator @ '' '' @ CHR 0x22 # v @ [CHR 0x22]"

text \<open>
  A filter that compares an attribute with a quoted text is read back exactly: attribute, operator and every character of the
  text, quotes and white space included, as long as it has no line break.
\<close>

theorem scim_filter_roundtrip:
  assumes "attribute \<noteq> []" "list_all attr_char attribute" "operator \<in> set FILTER_OPERATORS" "\<not> list_ex line_end v"
  shows "parseScimFilter j (filter_text attribute operator v) =
    Inr \<lparr> sf_attribute = attribute, sf_operator = operator, sf_value = Str v \<rparr>"
proof -
  let ?raw = "CHR 0x22 # v @ [CHR 0x22]"
  note op = operator_shape [OF assms(3)]
  have trim: "js_trim (filter_text attribute operator v) = filter_text attribute operator v"
    using assms(1,2) attr_char_facts by (intro js_trim_ends) (auto simp: filter_text_def list_all_iff)
  have a: "takeWhile attr_char (filter_text attribute operator v) = attribute"
    "dropWhile attr_char (filter_text attribute operator v) = '' '' @ operator @ '' '' @ ?raw"
    using assms(2) attr_char_facts(2)
    by (auto simp: filter_text_def list_all_iff takeWhile_append2 dropWhile_append2)
  have ops: "dropWhile js_space ('' '' @ operator @ '' '' @ ?raw) = operator @ '' '' @ ?raw"
    using op(1,3) attr_char_facts(3) by (cases operator) auto
  have r: "drop 2 (operator @ '' '' @ ?raw) = '' '' @ ?raw" "take 2 (operator @ '' '' @ ?raw) = operator"
    "dropWhile js_space ('' '' @ ?raw) = ?raw"
    using op(1) attr_char_facts(3,4) by simp_all
  have "js_trim ?raw = ?raw" using attr_char_facts(4) by (intro js_trim_ends) auto
  moreover have "\<not> list_ex line_end ?raw" using assms(4) by (simp add: line_end_def)
  moreover have "filter_text attribute operator v \<noteq> []" by (simp add: filter_text_def)
  ultimately show ?thesis
    unfolding parseScimFilter_def Let_def trim a ops r using assms(1,3) op(2)
    by (simp add: quoted_value)
qed

theorem scim_filter_roundtrip_witness:
  "parseScimFilter sample_engine (filter_text ''name.givenName'' ''co'' ''An na'')
     = Inr \<lparr> sf_attribute = ''name.givenName'', sf_operator = ''co'', sf_value = Str ''An na'' \<rparr>"
  by (rule scim_filter_roundtrip) code_simp+

subsection \<open>What the list contains\<close>

lemma prisma_page_subset: "set (prisma_page k n xs) \<subseteq> set xs"
proof -
  have part: "set (take m (drop i ys)) \<subseteq> set ys" for m i and ys :: "'a list"
    using set_take_subset set_drop_subset by fastforce
  show ?thesis using part [of "nat n" "nat k" xs] part [of "nat (- n)" "nat k" "rev xs"] by (simp add: prisma_page_def)
qed

lemma findAll_cases:
  assumes "scim_findAll_users j p realmId startIndex count ft s = Inr (n, page)" "page \<noteq> []"
  obtains (plain) rows where "falsy ft" "select_users p (in_realm_clause realmId) s = Inr rows" "set page \<subseteq> set rows"
  | (filtered) f c rows where "\<not> falsy ft" "parseScimFilter j (the ft) = Inr f" "filter_cond j (sf_operator f) (sf_value f) = Some c"
      "select_users p (AList.update (attr_field j (sf_attribute f)) c (in_realm_clause realmId)) s = Inr rows" "set page \<subseteq> set rows"
proof (cases "falsy ft")
  case True
  with assms obtain rows where "select_users p (in_realm_clause realmId) s = Inr rows"
    "page = prisma_page (max 0 (nullish_else startIndex 1 - 1)) (min (nullish_else count 100) 100) (sort_key (\<lambda>u. text_rank p (user_username u)) rows)"
    by (auto simp: scim_findAll_users_def split: sum.splits)
  with True prisma_page_subset [of _ _ "sort_key (\<lambda>u. text_rank p (user_username u)) rows"] show thesis
    by (intro plain [of rows]) simp_all
next
  case False
  with assms obtain w where w: "scimFilterToPrismaWhereUser j (the ft) realmId = Inr w"
    by (cases "scimFilterToPrismaWhereUser j (the ft) realmId") (auto simp: scim_findAll_users_def)
  from w False assms obtain rows where rows: "select_users p w s = Inr rows"
    "page = prisma_page (max 0 (nullish_else startIndex 1 - 1)) (min (nullish_else count 100) 100) (sort_key (\<lambda>u. text_rank p (user_username u)) rows)"
    by (cases "select_users p w s") (auto simp: scim_findAll_users_def)
  from w obtain f c where "parseScimFilter j (the ft) = Inr f" "filter_cond j (sf_operator f) (sf_value f) = Some c"
    "w = AList.update (attr_field j (sf_attribute f)) c (in_realm_clause realmId)"
    by (auto simp: scimFilterToPrismaWhereUser_def split: sum.splits option.splits)
  with False rows prisma_page_subset [of _ _ "sort_key (\<lambda>u. text_rank p (user_username u)) rows"] show thesis
    by (intro filtered [of f c rows]) simp_all
qed

lemma realm_column: "cond_holds p u (''realmId'', IsEq (Str x)) \<longleftrightarrow> user_realmId u = x"
  by (auto simp: cond_holds_def text_columns_def)

text \<open>
  A listing shows the users of the realm it is asked for that satisfy the filter, and no others, unless the filter names the
  column of the realm itself: then the clause that keeps a listing inside its realm is replaced, and the listing shows the users of
  whatever realm the filter names.
\<close>

theorem scim_list_scope:
  assumes "scim_findAll_users j p realmId startIndex count ft s = Inr (n, page)" and "u \<in> set page"
  shows "u \<in> set (users s)
    \<and> (falsy ft \<longrightarrow> user_realmId u = realmId)
    \<and> (\<not> falsy ft \<longrightarrow> (\<exists>f c. parseScimFilter j (the ft) = Inr f \<and> filter_cond j (sf_operator f) (sf_value f) = Some c
         \<and> cond_holds p u (attr_field j (sf_attribute f), c)
         \<and> (attr_field j (sf_attribute f) \<noteq> ''realmId'' \<longrightarrow> user_realmId u = realmId)))"
proof -
  have "page \<noteq> []" using assms(2) by auto
  with assms(1) show ?thesis
  proof (cases rule: findAll_cases)
    case (plain rows)
    then show ?thesis using assms(2)
      by (auto simp: select_users_def in_realm_clause_def realm_column list_all_iff split: if_splits)
  next
    case (filtered f c rows)
    let ?w = "AList.update (attr_field j (sf_attribute f)) c (in_realm_clause realmId)"
    have u: "u \<in> set (users s)" "list_all (cond_holds p u) ?w"
      using filtered(4,5) assms(2) by (auto simp: select_users_def split: if_splits)
    then show ?thesis using filtered(1-3)
      by (intro conjI impI exI [of _ f] exI [of _ c]) (auto simp: in_realm_clause_def realm_column split: if_splits)
  qed
qed

definition sample_prisma :: prisma_platform where
  "sample_prisma = \<lparr> text_less = (\<lambda>x y. length x < length y), text_rank = length, other_valid = (\<lambda>f c. False), other_match = (\<lambda>f c u. False), text_filter = (\<lambda>v. None) \<rparr>"

definition two_realm_db :: db where
  "two_realm_db = sample_db\<lparr> realms := [sample_realm, default_realm ''r2'' ''umbrella''],
     users := [sample_user, (new_user ''u2'' ''r2'' ''bob'')\<lparr> user_passwordHash := Some ''secret'' \<rparr>] \<rparr>"

theorem scim_list_scope_witness:
  "\<exists>n page. scim_findAll_users sample_engine sample_prisma ''r1'' None None (Some ''userName sw al'') two_realm_db = Inr (n, page)
     \<and> page = [sample_user] \<and> user_realmId (hd page) = ''r1''"
proof -
  have listed: "scim_findAll_users sample_engine sample_prisma ''r1'' None None (Some ''userName sw al'') two_realm_db = Inr (1, [sample_user])"
    by code_simp
  obtain f where f: "parseScimFilter sample_engine ''userName sw al'' = Inr f" "attr_field sample_engine (sf_attribute f) \<noteq> ''realmId''"
    by (rule that [of "\<lparr> sf_attribute = ''userName'', sf_operator = ''sw'', sf_value = Str ''al'' \<rparr>"]) code_simp+
  have "\<not> falsy (Some ''userName sw al'')" by code_simp
  with f scim_list_scope [OF listed, of sample_user] have "user_realmId sample_user = ''r1''" by auto
  with listed show ?thesis by simp
qed

text \<open>
  A filter on the column of the realm lists another tenant's users to whoever may list users at all, and a filter on the column of the
  password hash answers whether a guessed prefix is right.
\<close>

lemma filter_crosses_tenants:
  "scim_findAll_users sample_engine sample_prisma ''r1'' None None (Some ''realmId eq r2'') two_realm_db
     = Inr (1, [(new_user ''u2'' ''r2'' ''bob'')\<lparr> user_passwordHash := Some ''secret'' \<rparr>])"
  by code_simp

lemma filter_reads_hashes:
  "scim_findAll_users sample_engine sample_prisma ''r1'' None None (Some ''passwordHash sw p'') two_realm_db = Inr (1, [sample_user])"
  "scim_findAll_users sample_engine sample_prisma ''r1'' None None (Some ''passwordHash sw q'') two_realm_db = Inr (0, [])"
  by code_simp+

text \<open>Attributes that the parser maps to columns the table of users does not have make the listing fail.\<close>

lemma filter_unknown_columns:
  "scim_findAll_users sample_engine sample_prisma ''r1'' None None (Some ''displayName eq x'') two_realm_db = Inl PlainError"
  "scim_findAll_users sample_engine sample_prisma ''r1'' None None (Some ''title eq x'') two_realm_db = Inl PlainError"
  by code_simp+

end
