(* ===== verification/Scim_Tokens.thy ===== *)
theory Scim_Tokens
  imports Store
begin

text \<open>
  The bearer tokens of SCIM provisioning: their administration (\<open>src/src/scim/scim-tokens.service.ts\<close>), and the guard in front of every
  provisioning request (\<open>src/src/scim/guards/scim-auth.guard.ts\<close>), which also decides for which realm a request speaks.  The state is the
  database, the table of tokens and the realms whose column \<open>scimEnabled\<close> is set.  The counter of requests is a 32-bit column:
  at its limit the statement that increments it fails.
\<close>

subsection \<open>State\<close>

record scim_token_row =
  st_id :: ident
  st_realmId :: ident
  st_name :: string
  st_description :: "string option"
  st_enabled :: bool
  st_scopes :: "string list"
  st_createdAt :: millis
  st_expiresAt :: "millis option"
  st_lastUsedAt :: "millis option"
  st_requestCount :: int
  st_revoked :: bool
  st_revokedAt :: "millis option"
  st_tokenHash :: string

record scim_state =
  sc_db :: db
  sc_tokens :: "scim_token_row list"
  sc_enabled :: "ident list"

subsection \<open>The text of a token\<close>

text \<open>
  \<open>generateToken\<close> draws buffers of random bytes, discards the bytes from \<open>token_byte_limit\<close> on, and stops at 32 characters.  The buffers are an argument;
  the result is \<^const>\<open>None\<close> when they do not suffice.
\<close>

definition token_chars :: string where
  "token_chars = ''ABCDEFGHIJKLMNOPQRSTUVWXYZabcdefghijklmnopqrstuvwxyz0123456789-_.~''"

definition token_byte_limit :: nat where
  "token_byte_limit = (256 div length token_chars) * length token_chars"

fun token_buffer :: "nat list \<Rightarrow> string \<Rightarrow> string" where
  "token_buffer [] token = token"
| "token_buffer (b # bs) token =
     (if length token < 32
      then token_buffer bs (if b < token_byte_limit then token @ [token_chars ! (b mod length token_chars)] else token)
      else token)"

fun generateToken_loop :: "nat list list \<Rightarrow> string \<Rightarrow> string option" where
  "generateToken_loop buffers token =
     (if length token < 32
      then (case buffers of [] \<Rightarrow> None | buffer # rest \<Rightarrow> generateToken_loop rest (token_buffer buffer token))
      else Some token)"

declare generateToken_loop.simps [simp del]

definition generateToken :: "nat list list \<Rightarrow> string option" where
  "generateToken buffers = generateToken_loop buffers []"

subsection \<open>Administration\<close>

record scim_token_dto =
  std_name :: string
  std_description :: "string option"
  std_scopes :: "string list option"
  std_expiresAt :: "millis option"

definition default_scim_scopes :: "string list" where
  "default_scim_scopes = [''urn:scim:schemas:core:1.0:Users'', ''urn:scim:schemas:core:1.0:Groups'']"

definition scim_createToken ::
  "env \<Rightarrow> ident \<Rightarrow> string \<Rightarrow> ident \<Rightarrow> scim_token_dto \<Rightarrow> scim_state \<Rightarrow> (scim_token_row \<times> string) result \<times> scim_state" where
  "scim_createToken e newId plainToken realmId dto s =
     (if list_ex (\<lambda>t. st_realmId t = realmId \<and> st_name t = std_name dto) (sc_tokens s) then (Inl ConflictException, s)
      else let row = \<lparr> st_id = newId, st_realmId = realmId, st_name = std_name dto, st_description = std_description dto,
                       st_enabled = True, st_scopes = nullish_else (std_scopes dto) default_scim_scopes, st_createdAt = now e,
                       st_expiresAt = std_expiresAt dto, st_lastUsedAt = None, st_requestCount = 0, st_revoked = False,
                       st_revokedAt = None, st_tokenHash = sha256 e plainToken \<rparr>
           in if list_ex (\<lambda>t. st_id t = newId \<or> st_tokenHash t = st_tokenHash row) (sc_tokens s) then (Inl PrismaUnique, s)
              else if realmId \<notin> realm_id ` set (realms (sc_db s)) then (Inl PrismaForeignKey, s)
              else (Inr (row, plainToken), s\<lparr> sc_tokens := sc_tokens s @ [row] \<rparr>))"

definition getTokens :: "ident \<Rightarrow> scim_state \<Rightarrow> scim_token_row list" where
  "getTokens realmId s = order_desc st_createdAt (filter (\<lambda>t. st_realmId t = realmId) (sc_tokens s))"

definition scim_token_in :: "ident \<Rightarrow> ident \<Rightarrow> scim_state \<Rightarrow> scim_token_row option" where
  "scim_token_in realmId tokenId s = List.find (\<lambda>t. st_id t = tokenId \<and> st_realmId t = realmId) (sc_tokens s)"

definition getTokenById :: "ident \<Rightarrow> ident \<Rightarrow> scim_state \<Rightarrow> scim_token_row result" where
  "getTokenById realmId tokenId s =
     (case scim_token_in realmId tokenId s of None \<Rightarrow> Inl NotFoundException | Some t \<Rightarrow> Inr t)"

definition scim_revokeToken :: "env \<Rightarrow> ident \<Rightarrow> ident \<Rightarrow> scim_state \<Rightarrow> unit result \<times> scim_state" where
  "scim_revokeToken e realmId tokenId s =
     (case scim_token_in realmId tokenId s of
        None \<Rightarrow> (Inl NotFoundException, s)
      | Some _ \<Rightarrow> (Inr (), s\<lparr> sc_tokens := tbl_update (\<lambda>t. st_id t = tokenId)
                                (\<lambda>t. t\<lparr> st_revoked := True, st_revokedAt := Some (now e) \<rparr>) (sc_tokens s) \<rparr>))"

definition setTokenEnabled :: "ident \<Rightarrow> ident \<Rightarrow> bool \<Rightarrow> scim_state \<Rightarrow> unit result \<times> scim_state" where
  "setTokenEnabled realmId tokenId b s =
     (case scim_token_in realmId tokenId s of
        None \<Rightarrow> (Inl NotFoundException, s)
      | Some _ \<Rightarrow> (Inr (), s\<lparr> sc_tokens := tbl_update (\<lambda>t. st_id t = tokenId) (\<lambda>t. t\<lparr> st_enabled := b \<rparr>) (sc_tokens s) \<rparr>))"

definition deleteToken :: "ident \<Rightarrow> ident \<Rightarrow> scim_state \<Rightarrow> unit result \<times> scim_state" where
  "deleteToken realmId tokenId s =
     (case scim_token_in realmId tokenId s of
        None \<Rightarrow> (Inl NotFoundException, s)
      | Some _ \<Rightarrow> (Inr (), s\<lparr> sc_tokens := tbl_delete (\<lambda>t. st_id t = tokenId) (sc_tokens s) \<rparr>))"

definition note_use :: "env \<Rightarrow> scim_token_row \<Rightarrow> scim_state \<Rightarrow> unit result \<times> scim_state" where
  "note_use e t s =
     (if st_requestCount t \<ge> 2147483647 then (Inl PlainError, s)
      else (Inr (), s\<lparr> sc_tokens := tbl_update (\<lambda>x. st_id x = st_id t)
                         (\<lambda>x. x\<lparr> st_lastUsedAt := Some (now e), st_requestCount := st_requestCount x + 1 \<rparr>) (sc_tokens s) \<rparr>))"

definition scim_token_by_hash :: "string \<Rightarrow> scim_state \<Rightarrow> scim_token_row option" where
  "scim_token_by_hash h s = List.find (\<lambda>t. st_tokenHash t = h) (sc_tokens s)"

definition scim_token_expired :: "env \<Rightarrow> scim_token_row \<Rightarrow> bool" where
  "scim_token_expired e t = (case st_expiresAt t of None \<Rightarrow> False | Some x \<Rightarrow> x < now e)"

definition scim_validateToken :: "env \<Rightarrow> ident \<Rightarrow> string \<Rightarrow> scim_state \<Rightarrow> scim_token_row option result \<times> scim_state" where
  "scim_validateToken e realmId plainToken s =
     (case scim_token_by_hash (sha256 e plainToken) s of
        None \<Rightarrow> (Inr None, s)
      | Some t \<Rightarrow>
          if st_realmId t \<noteq> realmId then (Inr None, s)
          else if st_revoked t then (Inr None, s)
          else if \<not> st_enabled t then (Inr None, s)
          else if scim_token_expired e t then (Inr None, s)
          else and_then (note_use e t s) (\<lambda>_ s. (Inr (Some t), s)))"

subsection \<open>The guard\<close>

text \<open>\<open>findIndex\<close> is -1 when no segment matches, so the realm is then taken from the second segment.\<close>

definition path_realm :: "string \<Rightarrow> string" where
  "path_realm path =
     (let parts = split_on (CHR ''/'') path; k = length (takeWhile (\<lambda>p. p \<noteq> ''scim'') parts);
          i = (if k < length parts then k + 2 else 1)
      in if i < length parts \<and> parts ! i \<noteq> [] then parts ! i else ''master'')"

definition scim_guard :: "env \<Rightarrow> string \<Rightarrow> string option \<Rightarrow> scim_state \<Rightarrow> (realm_row \<times> scim_token_row) result \<times> scim_state" where
  "scim_guard e path authHeader s =
     (case List.find (\<lambda>r. realm_name r = path_realm path) (realms (sc_db s)) of
        None \<Rightarrow> (Inl UnauthorizedException, s)
      | Some r \<Rightarrow>
          if realm_id r \<notin> set (sc_enabled s) then (Inl UnauthorizedException, s)
          else if falsy authHeader \<or> \<not> starts_with ''Bearer '' (the authHeader) then (Inl UnauthorizedException, s)
          else let token = drop 7 (the authHeader) in
            if length token < 8 then (Inl UnauthorizedException, s)
            else (case scim_token_by_hash (sha256 e token) s of
                    None \<Rightarrow> (Inl UnauthorizedException, s)
                  | Some t \<Rightarrow>
                      if st_revoked t then (Inl UnauthorizedException, s)
                      else if st_realmId t \<noteq> realm_id r then (Inl UnauthorizedException, s)
                      else if scim_token_expired e t then (Inl UnauthorizedException, s)
                      else if \<not> st_enabled t then (Inl UnauthorizedException, s)
                      else and_then (note_use e t s) (\<lambda>_ s. (Inr (r, t), s))))"

subsection \<open>Token texts\<close>

lemma token_chars_facts: "length token_chars = 66" "distinct token_chars" "token_byte_limit = 198"
  by code_simp+

definition good_bytes :: "nat list \<Rightarrow> string" where
  "good_bytes bs = map (\<lambda>b. token_chars ! (b mod length token_chars)) (filter (\<lambda>b. b < token_byte_limit) bs)"

lemma good_bytes_simps [simp]:
  "good_bytes [] = []"
  "good_bytes (b # bs) = (if b < token_byte_limit then [token_chars ! (b mod length token_chars)] else []) @ good_bytes bs"
  "good_bytes (xs @ ys) = good_bytes xs @ good_bytes ys"
  by (simp_all add: good_bytes_def)

lemma token_buffer_eq: "length token \<le> 32 \<Longrightarrow> token_buffer bs token = take 32 (token @ good_bytes bs)"
  by (induction bs token rule: token_buffer.induct) (auto simp: take_Cons')

lemma generateToken_loop_eq:
  "length token \<le> 32 \<Longrightarrow> generateToken_loop buffers token =
     (if 32 \<le> length (token @ good_bytes (concat buffers)) then Some (take 32 (token @ good_bytes (concat buffers))) else None)"
proof (induction buffers arbitrary: token)
  case Nil
  then show ?case by (subst generateToken_loop.simps) auto
next
  case (Cons buffer rest)
  show ?case
  proof (cases "length token < 32")
    case True
    have len: "length (token_buffer buffer token) \<le> 32" using Cons.prems by (simp add: token_buffer_eq)
    have "take 32 (token_buffer buffer token @ zs) = take 32 (token @ good_bytes buffer @ zs)" for zs
      using Cons.prems by (simp add: token_buffer_eq min_def)
    then show ?thesis
      using True Cons.IH [OF len] Cons.prems
      by (subst generateToken_loop.simps) (auto simp: token_buffer_eq)
  next
    case False
    with Cons.prems show ?thesis by (subst generateToken_loop.simps) auto
  qed
qed

text \<open>
  The text of a provisioning token is unbiased: the bytes that are not discarded map to the 66 characters with each character hit
  by exactly three byte values; and the loop ends with 32 such characters exactly when the buffers contain 32 bytes
  that are not discarded.
\<close>

theorem token_text_unbiased:
  "(\<forall>c. c \<in> set token_chars \<longrightarrow> card {b. b < token_byte_limit \<and> token_chars ! (b mod length token_chars) = c} = 3)
   \<and> (\<forall>buffers. generateToken buffers =
        (if 32 \<le> length (good_bytes (concat buffers)) then Some (take 32 (good_bytes (concat buffers))) else None))
   \<and> (\<forall>buffers token. generateToken buffers = Some token \<longrightarrow> length token = 32 \<and> set token \<subseteq> set token_chars)"
proof (intro conjI allI impI)
  fix c assume "c \<in> set token_chars"
  then obtain i where i: "i < 66" "c = token_chars ! i" by (metis in_set_conv_nth token_chars_facts(1))
  have "token_chars ! (b mod 66) = c \<longleftrightarrow> b mod 66 = i" for b
    using i nth_eq_iff_index_eq [OF token_chars_facts(2), of "b mod 66" i] token_chars_facts(1) by auto
  moreover have twice: "(i + 132) mod 66 = i" using i(1) mod_mult_self2 [of i 66 2] by simp
  moreover have "b < 198 \<and> b mod 66 = i \<longleftrightarrow> b \<in> {i, i + 66, i + 132}" for b
  proof
    assume b: "b < 198 \<and> b mod 66 = i"
    then have "b = 66 * (b div 66) + i" "b div 66 < 3" by (auto simp: less_mult_imp_div_less)
    moreover from this(2) have "b div 66 = 0 \<or> b div 66 = 1 \<or> b div 66 = 2" by arith
    ultimately show "b \<in> {i, i + 66, i + 132}" by auto
  qed (use i(1) twice in auto)
  ultimately have "{b. b < token_byte_limit \<and> token_chars ! (b mod length token_chars) = c} = {i, i + 66, i + 132}"
    by (simp only: token_chars_facts) blast
  then show "card {b. b < token_byte_limit \<and> token_chars ! (b mod length token_chars) = c} = 3" by simp
next
  fix buffers
  show eq: "generateToken buffers =
    (if 32 \<le> length (good_bytes (concat buffers)) then Some (take 32 (good_bytes (concat buffers))) else None)"
    by (simp add: generateToken_def generateToken_loop_eq)
  fix token assume "generateToken buffers = Some token"
  then have t: "32 \<le> length (good_bytes (concat buffers))" "token = take 32 (good_bytes (concat buffers))"
    by (auto simp: eq split: if_splits)
  then show "length token = 32" by simp
  have "set (good_bytes bs) \<subseteq> set token_chars" for bs
    by (auto simp: good_bytes_def token_chars_facts intro!: nth_mem)
  with t(2) show "set token \<subseteq> set token_chars" using set_take_subset by fastforce
qed

subsection \<open>What the guard proves\<close>

lemma note_use_ok:
  assumes "note_use e t s = (Inr u, s')"
  shows "s' = s\<lparr> sc_tokens := tbl_update (\<lambda>x. st_id x = st_id t)
    (\<lambda>x. x\<lparr> st_lastUsedAt := Some (now e), st_requestCount := st_requestCount x + 1 \<rparr>) (sc_tokens s) \<rparr>"
  using assms by (simp add: note_use_def split: if_splits)

lemma scim_guard_cases:
  assumes "scim_guard e path authHeader s = (Inr (r, t), s')"
  obtains token where "authHeader = Some (''Bearer '' @ token)" "8 \<le> length token"
    "List.find (\<lambda>r. realm_name r = path_realm path) (realms (sc_db s)) = Some r" "realm_id r \<in> set (sc_enabled s)"
    "scim_token_by_hash (sha256 e token) s = Some t" "\<not> st_revoked t" "st_realmId t = realm_id r" "\<not> scim_token_expired e t"
    "st_enabled t" "note_use e t s = (Inr (), s')"
proof -
  obtain h where h: "authHeader = Some h" "starts_with ''Bearer '' h"
    using assms by (auto simp: scim_guard_def falsy_def split: option.splits if_splits)
  have "take 7 h = ''Bearer ''" using h(2) by (simp add: starts_with_def eval_nat_numeral)
  then have hh: "h = ''Bearer '' @ drop 7 h" by (metis append_take_drop_id)
  let ?t = "drop 7 h"
  have hdr: "authHeader = Some (''Bearer '' @ ?t)" unfolding h(1) by (rule arg_cong [OF hh])
  from assms obtain r' where r': "List.find (\<lambda>r. realm_name r = path_realm path) (realms (sc_db s)) = Some r'"
    by (cases "List.find (\<lambda>r. realm_name r = path_realm path) (realms (sc_db s))") (auto simp: scim_guard_def)
  from assms r' obtain t' where t': "scim_token_by_hash (sha256 e ?t) s = Some t'"
    by (cases "scim_token_by_hash (sha256 e ?t) s") (auto simp: scim_guard_def h(1) Let_def split: if_splits)
  have g: "realm_id r' \<in> set (sc_enabled s)" "8 \<le> length ?t" "\<not> st_revoked t'" "st_realmId t' = realm_id r'"
    "\<not> scim_token_expired e t'" "st_enabled t'" "and_then (note_use e t' s) (\<lambda>_ s. (Inr (r', t'), s)) = (Inr (r, t), s')"
    using assms by (simp_all add: scim_guard_def r' t' h(1) Let_def split: if_splits)
  from g(7) have "note_use e t' s = (Inr (), s')" "r = r'" "t = t'" by (auto elim!: and_then_okE)
  with hdr r' t' g show thesis by (intro that [of ?t]) simp_all
qed

lemma path_realm_v2:
  assumes "CHR ''/'' \<notin> set name" "name \<noteq> []"
  shows "path_realm (''/scim/v2/'' @ name @ ''/'' @ rest) = name"
proof -
  have "split_on (CHR ''/'') (''/scim/v2/'' @ name @ ''/'' @ rest) = [] # ''scim'' # ''v2'' # name # split_on (CHR ''/'') rest"
    using assms split_on_append [of "CHR ''/''" name rest] by simp
  then show ?thesis using assms(2) by (simp add: path_realm_def Let_def)
qed

subsection \<open>Revocation\<close>

definition tokens_ok :: "scim_state \<Rightarrow> bool" where
  "tokens_ok s \<longleftrightarrow> distinct (map st_id (sc_tokens s)) \<and> distinct (map st_tokenHash (sc_tokens s))"

definition token_dead :: "string \<Rightarrow> scim_state \<Rightarrow> bool" where
  "token_dead h s \<longleftrightarrow> list_all (\<lambda>t. st_tokenHash t = h \<longrightarrow> st_revoked t) (sc_tokens s)"

text \<open>
  A run of the system seen from the table of tokens: administration, guarded requests, and anything that happens to the rest of the
  state.  \<open>H\<close> is the hash function, which is the same in every request; no new token gets the text whose hash is \<open>h\<close>.
\<close>

inductive scim_token_run :: "(string \<Rightarrow> string) \<Rightarrow> string \<Rightarrow> scim_state \<Rightarrow> scim_state \<Rightarrow> bool"
  for H :: "string \<Rightarrow> string" and h :: string where
  run_start: "scim_token_run H h s s"
| run_create: "scim_token_run H h s s1 \<Longrightarrow> sha256 e = H \<Longrightarrow> H plain \<noteq> h \<Longrightarrow>
    scim_token_run H h s (snd (scim_createToken e i plain realmId dto s1))"
| run_revoke: "scim_token_run H h s s1 \<Longrightarrow> scim_token_run H h s (snd (scim_revokeToken e realmId i s1))"
| run_enable: "scim_token_run H h s s1 \<Longrightarrow> scim_token_run H h s (snd (setTokenEnabled realmId i b s1))"
| run_delete: "scim_token_run H h s s1 \<Longrightarrow> scim_token_run H h s (snd (deleteToken realmId i s1))"
| run_validate: "scim_token_run H h s s1 \<Longrightarrow> scim_token_run H h s (snd (scim_validateToken e realmId plain s1))"
| run_guard: "scim_token_run H h s s1 \<Longrightarrow> scim_token_run H h s (snd (scim_guard e path hdr s1))"
| run_rest: "scim_token_run H h s s1 \<Longrightarrow> scim_token_run H h s (s1\<lparr> sc_db := d, sc_enabled := rs \<rparr>)"

lemma token_dead_update:
  "token_dead h s \<Longrightarrow> (\<And>t. st_tokenHash (f t) = st_tokenHash t) \<Longrightarrow> (\<And>t. st_revoked t \<Longrightarrow> st_revoked (f t)) \<Longrightarrow>
     token_dead h (s\<lparr> sc_tokens := tbl_update p f (sc_tokens s) \<rparr>)"
  by (auto simp: token_dead_def list_all_iff tbl_update_def)

lemma token_dead_use: "token_dead h s \<Longrightarrow> token_dead h (snd (note_use e t s))"
  by (simp add: note_use_def token_dead_update)

lemma token_dead_and_then:
  "token_dead h (snd m) \<Longrightarrow> token_dead h (snd (and_then m (\<lambda>_ s. (r, s))))"
  by (cases m; cases "fst m") auto

lemma token_dead_steps:
  assumes "token_dead h s"
  shows "token_dead h (snd (scim_revokeToken e realmId i s))" "token_dead h (snd (setTokenEnabled realmId i b s))"
    "token_dead h (snd (deleteToken realmId i s))" "token_dead h (snd (scim_validateToken e realmId plain s))"
    "token_dead h (snd (scim_guard e path hdr s))"
proof -
  note used = token_dead_and_then [OF token_dead_use [OF assms]]
  show "token_dead h (snd (scim_revokeToken e realmId i s))" "token_dead h (snd (setTokenEnabled realmId i b s))"
    using assms by (auto simp: scim_revokeToken_def setTokenEnabled_def token_dead_update split: option.split)
  show "token_dead h (snd (deleteToken realmId i s))"
    using assms by (auto simp: deleteToken_def token_dead_def list_all_iff tbl_delete_def split: option.split)
  show "token_dead h (snd (scim_validateToken e realmId plain s))" "token_dead h (snd (scim_guard e path hdr s))"
    using assms used by (auto simp: scim_validateToken_def scim_guard_def Let_def split: option.split)
qed

lemma token_dead_create:
  "token_dead h s \<Longrightarrow> sha256 e plain \<noteq> h \<Longrightarrow> token_dead h (snd (scim_createToken e i plain realmId dto s))"
  by (auto simp: scim_createToken_def Let_def token_dead_def)

lemma token_dead_run: "scim_token_run H h s s' \<Longrightarrow> token_dead h s \<Longrightarrow> token_dead h s'"
proof (induction rule: scim_token_run.induct)
  case (run_create s s1 e plain i realmId dto)
  then show ?case by (auto intro: token_dead_create)
next
  case (run_rest s s1 d rs)
  then show ?case by (simp add: token_dead_def)
qed (simp_all add: token_dead_steps)

lemma ended_tokens:
  "is_ok (fst (scim_revokeToken e realmId i s)) \<Longrightarrow> sc_tokens (snd (scim_revokeToken e realmId i s)) =
     tbl_update (\<lambda>x. st_id x = i) (\<lambda>x. x\<lparr> st_revoked := True, st_revokedAt := Some (now e) \<rparr>) (sc_tokens s)"
  "is_ok (fst (deleteToken realmId i s)) \<Longrightarrow> sc_tokens (snd (deleteToken realmId i s)) = tbl_delete (\<lambda>x. st_id x = i) (sc_tokens s)"
  by (cases "scim_token_in realmId i s"; simp add: scim_revokeToken_def deleteToken_def)+

lemma token_dead_start:
  assumes ok: "tokens_ok s" and t: "scim_token_by_hash h s = Some t"
    and ended: "scim_revokeToken e (st_realmId t) (st_id t) s = (Inr (), s1) \<or> deleteToken (st_realmId t) (st_id t) s = (Inr (), s1)"
  shows "token_dead h s1"
proof -
  have only: "x = t" if "x \<in> set (sc_tokens s)" "st_tokenHash x = h" for x
  proof (rule distinct_id_eq [of st_tokenHash "sc_tokens s"])
    show "distinct (map st_tokenHash (sc_tokens s))" using ok by (simp add: tokens_ok_def)
    show "t \<in> set (sc_tokens s)" "st_tokenHash x = st_tokenHash t"
      using find_SomeD [OF t [unfolded scim_token_by_hash_def]] that(2) by simp_all
  qed (rule that)
  then have only_id: "st_tokenHash x = h \<longrightarrow> st_id x = st_id t" if "x \<in> set (sc_tokens s)" for x using that by blast
  from ended show ?thesis
  proof
    assume "scim_revokeToken e (st_realmId t) (st_id t) s = (Inr (), s1)"
    then have "sc_tokens s1 = tbl_update (\<lambda>x. st_id x = st_id t)
        (\<lambda>x. x\<lparr> st_revoked := True, st_revokedAt := Some (now e) \<rparr>) (sc_tokens s)"
      using ended_tokens(1) [of e "st_realmId t" "st_id t" s] by simp
    then show ?thesis using only_id by (auto simp: token_dead_def list_all_iff tbl_update_def)
  next
    assume "deleteToken (st_realmId t) (st_id t) s = (Inr (), s1)"
    then have "sc_tokens s1 = tbl_delete (\<lambda>x. st_id x = st_id t) (sc_tokens s)"
      using ended_tokens(2) [of "st_realmId t" "st_id t" s] by simp
    then show ?thesis using only_id by (auto simp: token_dead_def list_all_iff tbl_delete_def)
  qed
qed

lemma token_dead_refused:
  assumes "token_dead h s" "sha256 e plain = h"
  shows "\<not> is_ok (fst (scim_guard e path (Some (''Bearer '' @ plain)) s))"
    "scim_validateToken e realmId plain s = (Inr None, s)"
proof -
  have rev: "scim_token_by_hash h s = Some t \<Longrightarrow> st_revoked t" for t
    using assms(1) by (auto simp: scim_token_by_hash_def token_dead_def list_all_iff dest: find_SomeD)
  then show "scim_validateToken e realmId plain s = (Inr None, s)"
    by (auto simp: scim_validateToken_def assms(2) split: option.split)
  show "\<not> is_ok (fst (scim_guard e path (Some (''Bearer '' @ plain)) s))"
    using rev by (auto simp: scim_guard_def Let_def assms(2) split: option.split)
qed

text \<open>
  C24.  A request passes the provisioning guard only with the text of a stored token that is enabled, not revoked and not expired,
  and only for the realm named in its path, which has provisioning switched on and is the realm the token was made for; the use
  is counted and nothing else of the state changes.
\<close>

theorem scim_access_sound:
  assumes "scim_guard e path hdr s = (Inr (r, u), s')"
  shows "\<exists>token. hdr = Some (''Bearer '' @ token) \<and> 8 \<le> length token \<and> u \<in> set (sc_tokens s) \<and> st_tokenHash u = sha256 e token
      \<and> st_enabled u \<and> \<not> st_revoked u \<and> (st_expiresAt u = None \<or> now e \<le> the (st_expiresAt u))
      \<and> r \<in> set (realms (sc_db s)) \<and> realm_name r = path_realm path \<and> realm_id r \<in> set (sc_enabled s) \<and> st_realmId u = realm_id r
      \<and> sc_db s' = sc_db s \<and> sc_enabled s' = sc_enabled s
      \<and> u\<lparr> st_lastUsedAt := Some (now e), st_requestCount := st_requestCount u + 1 \<rparr> \<in> set (sc_tokens s')"
  using assms
proof (cases rule: scim_guard_cases)
  case (1 token)
  then have u: "u \<in> set (sc_tokens s)" "st_tokenHash u = sha256 e token" "r \<in> set (realms (sc_db s))" "realm_name r = path_realm path"
    by (auto simp: scim_token_by_hash_def dest!: find_SomeD)
  from 1 have s': "s' = s\<lparr> sc_tokens := tbl_update (\<lambda>x. st_id x = st_id u)
    (\<lambda>x. x\<lparr> st_lastUsedAt := Some (now e), st_requestCount := st_requestCount x + 1 \<rparr>) (sc_tokens s) \<rparr>"
    by (auto dest: note_use_ok)
  then have "u\<lparr> st_lastUsedAt := Some (now e), st_requestCount := st_requestCount u + 1 \<rparr> \<in> set (sc_tokens s')"
    using u(1) by (auto simp: tbl_update_def image_iff intro!: bexI [of _ u])
  with u 1 s' show ?thesis
    by (intro exI [of _ token]) (auto simp: scim_token_expired_def split: option.splits)
qed

definition sample_scim_token :: scim_token_row where
  "sample_scim_token =
     \<lparr> st_id = ''t1'', st_realmId = ''r1'', st_name = ''hr'', st_description = None, st_enabled = True, st_scopes = default_scim_scopes,
       st_createdAt = 0, st_expiresAt = Some 2000000, st_lastUsedAt = None, st_requestCount = 0, st_revoked = False, st_revokedAt = None,
       st_tokenHash = ''0123456789'' \<rparr>"

definition sample_scim_state :: scim_state where
  "sample_scim_state = \<lparr> sc_db = sample_db, sc_tokens = [sample_scim_token], sc_enabled = [''r1''] \<rparr>"

theorem scim_access_sound_witness:
  "\<exists>r u s'. scim_guard sample_env ''/scim/v2/acme/Users'' (Some ''Bearer 0123456789'') sample_scim_state = (Inr (r, u), s')
     \<and> st_realmId u = realm_id r \<and> sc_db s' = sc_db sample_scim_state"
proof -
  have "\<not> isl (fst (scim_guard sample_env ''/scim/v2/acme/Users'' (Some ''Bearer 0123456789'') sample_scim_state))" by code_simp
  then obtain r u s' where g: "scim_guard sample_env ''/scim/v2/acme/Users'' (Some ''Bearer 0123456789'') sample_scim_state = (Inr (r, u), s')"
    by (metis isl_def obj_sumE prod.collapse)
  with scim_access_sound [OF g] show ?thesis by blast
qed

text \<open>
  A provisioning token that was revoked or deleted opens no path again, whatever is done to the tokens and the rest of the
  state afterwards, switching the token on again included, as long as no new token has the same text.
\<close>

theorem scim_revocation_final:
  assumes "tokens_ok s" "scim_token_by_hash h s = Some t"
    and "scim_revokeToken e (st_realmId t) (st_id t) s = (Inr (), s1) \<or> deleteToken (st_realmId t) (st_id t) s = (Inr (), s1)"
    and "scim_token_run H h s1 s2" "sha256 e2 = H" "H plain = h"
  shows "\<not> is_ok (fst (scim_guard e2 path (Some (''Bearer '' @ plain)) s2)) \<and> scim_validateToken e2 realmId plain s2 = (Inr None, s2)"
  using token_dead_refused [OF token_dead_run [OF assms(4) token_dead_start [OF assms(1-3)]], of e2 plain] assms(5,6) by simp

theorem scim_revocation_final_witness:
  "let s1 = snd (scim_revokeToken sample_env ''r1'' ''t1'' sample_scim_state); s2 = snd (setTokenEnabled ''r1'' ''t1'' True s1)
   in \<not> is_ok (fst (scim_guard sample_env ''/scim/v2/acme/Users'' (Some (''Bearer '' @ ''0123456789'')) s2))"
proof -
  let ?s1 = "snd (scim_revokeToken sample_env ''r1'' ''t1'' sample_scim_state)"
  have "tokens_ok sample_scim_state" by code_simp
  moreover have "scim_token_by_hash ''0123456789'' sample_scim_state = Some sample_scim_token" by code_simp
  moreover have "scim_revokeToken sample_env (st_realmId sample_scim_token) (st_id sample_scim_token) sample_scim_state = (Inr (), ?s1)"
    by (simp add: prod_eq_iff) code_simp
  moreover have "scim_token_run (sha256 sample_env) ''0123456789'' ?s1 (snd (setTokenEnabled ''r1'' ''t1'' True ?s1))"
    by (intro run_enable run_start)
  moreover have "sha256 sample_env ''0123456789'' = ''0123456789''" by code_simp
  ultimately show ?thesis
    using scim_revocation_final [of sample_scim_state "''0123456789''" sample_scim_token sample_env ?s1 "sha256 sample_env"
        "snd (setTokenEnabled ''r1'' ''t1'' True ?s1)" sample_env "''0123456789''" "''/scim/v2/acme/Users''" "''r1''"]
    unfolding Let_def by blast
qed

end
