(* ===== verification/Confinement.thy ===== *)
theory Confinement
  imports Prelude
begin

text \<open>
  The contract of a system in which the requests of some parties leave the data of another party alone: \<open>view\<close> is what belongs to
  that party, \<open>allowed\<close> says which requests are meant, and \<open>inv\<close> is the well-formedness of the tables that the steps rely on
  and keep.
\<close>

locale confined_steps =
  fixes step :: "'r \<Rightarrow> 's \<Rightarrow> 's"
    and allowed :: "'r \<Rightarrow> bool"
    and inv :: "'s \<Rightarrow> bool"
    and view :: "'s \<Rightarrow> 'v"
  assumes step_inv: "inv s \<Longrightarrow> allowed x \<Longrightarrow> inv (step x s)"
    and step_view: "inv s \<Longrightarrow> allowed x \<Longrightarrow> view (step x s) = view s"
begin

theorem run_confined: "inv s \<Longrightarrow> list_all allowed xs \<Longrightarrow> view (fold step xs s) = view s \<and> inv (fold step xs s)"
proof (induction xs arbitrary: s)
  case (Cons x xs)
  then have "inv (step x s)" "view (step x s) = view s" using step_inv step_view by simp_all
  with Cons.IH [of "step x s"] Cons.prems show ?case by simp
qed simp

end

end
