(* ===== verification/Scim.thy ===== *)
theory Scim
  imports Scim_Filter Scim_Tokens Group_Admin Confinement
begin

text \<open>
  SCIM provisioning (\<open>src/src/scim\<close>): users (\<open>scim-users.service.ts\<close>), groups (\<open>scim-groups.service.ts\<close>), bulk requests
  (\<open>scim-bulk.service.ts\<close>), and the endpoints that run them behind the guard of \<^theory_text>\<open>Scim_Tokens\<close> (\<open>scim.controller.ts\<close>).

  A request body has the properties its TypeScript interface declares; an absent property is \<^const>\<open>None\<close>.  The database client leaves an
  \<open>undefined\<close> out of a condition and out of an update, refuses to update or upsert a row whose unique key is \<open>undefined\<close>, and
  deletes every row when a condition is left without parts.  The values of a PATCH operation and of member lists are not declared and are JavaScript values.
  Statements are separate: what was written before an error stays.  Administrator events and time stamps of changes are left out, as is the selection of
  attributes in a response.
\<close>

subsection \<open>Request bodies\<close>

record patch_op =
  po_op :: string
  po_path :: "string option"
  po_value :: jsv

record scim_email =
  em_value :: "string option"
  em_primary :: bool

record scim_body =
  b_userName :: "string option"
  b_displayName :: "string option"
  b_givenName :: "string option"
  b_familyName :: "string option"
  b_emails :: "scim_email list option"
  b_active :: "bool option"
  b_externalId :: "string option"
  b_members :: "jsv list option"
  b_operations :: "patch_op list option"

definition or_null :: "string option \<Rightarrow> string option" where
  "or_null x = (if falsy x then None else x)"

definition body_email :: "scim_body \<Rightarrow> string option" where
  "body_email b =
     (let es = nullish_else (b_emails b) [];
          primary = (case List.find em_primary es of Some m \<Rightarrow> em_value m | None \<Rightarrow> None)
      in if falsy primary then (case es of [] \<Rightarrow> None | m # _ \<Rightarrow> em_value m) else primary)"

text \<open>A condition \<open>column: value\<close> where the value may be \<open>undefined\<close>.\<close>

definition when_given :: "'a option \<Rightarrow> 'a \<Rightarrow> bool" where
  "when_given x y \<longleftrightarrow> x = None \<or> x = Some y"

subsection \<open>Responses\<close>

record scim_view =
  v_id :: ident
  v_body :: scim_body
  v_formatted :: string
  v_groups :: "(ident \<times> string) list"

definition formatted_name :: "user_row \<Rightarrow> string" where
  "formatted_name u = join_with (CHR '' '') (map the (filter (\<lambda>x. \<not> falsy x) [user_firstName u, user_lastName u]))"

definition toScimUser :: "(ident \<times> string) list \<Rightarrow> user_row \<Rightarrow> scim_view" where
  "toScimUser gs u =
     \<lparr> v_id = user_id u,
       v_body =
         \<lparr> b_userName = Some (user_username u), b_displayName = Some (formatted_name u), b_givenName = user_firstName u,
           b_familyName = user_lastName u,
           b_emails = Some (if falsy (user_email u) then [] else [\<lparr> em_value = user_email u, em_primary = True \<rparr>]),
           b_active = Some (user_enabled u), b_externalId = user_federationLink u, b_members = None, b_operations = None \<rparr>,
       v_formatted = formatted_name u, v_groups = gs \<rparr>"

definition groups_of :: "ident \<Rightarrow> db \<Rightarrow> (ident \<times> string) list" where
  "groups_of uid s =
     concat (map (\<lambda>ug. if fst ug = uid then map (\<lambda>g. (group_id g, group_name g)) (filter (\<lambda>g. group_id g = snd ug) (groups s)) else [])
       (userGroups s))"

subsection \<open>Users\<close>

definition scim_user :: "ident \<Rightarrow> ident option \<Rightarrow> db \<Rightarrow> user_row option" where
  "scim_user realmId i s = List.find (\<lambda>u. when_given i (user_id u) \<and> user_realmId u = realmId) (users s)"

definition scim_create_user :: "env \<Rightarrow> ident \<Rightarrow> ident \<Rightarrow> scim_body \<Rightarrow> db \<Rightarrow> scim_view result \<times> db" where
  "scim_create_user e newId realmId b s =
     (let email = body_email b in
      if list_ex (\<lambda>u. user_realmId u = realmId \<and> when_given (b_userName b) (user_username u)) (users s) then (Inl ConflictException, s)
      else if \<not> falsy email \<and> list_ex (\<lambda>u. user_realmId u = realmId \<and> user_email u = email) (users s) then (Inl ConflictException, s)
      else if b_userName b = None then (Inl PlainError, s)
      else if newId \<in> user_id ` set (users s) then (Inl PrismaUnique, s)
      else if realmId \<notin> realm_id ` set (realms s) then (Inl PrismaForeignKey, s)
      else let u = (new_user newId realmId (the (b_userName b)))
                     \<lparr> user_email := or_null email, user_firstName := or_null (b_givenName b), user_lastName := or_null (b_familyName b),
                       user_federationLink := or_null (b_externalId b), user_createdAt := now e \<rparr>
           in (Inr (toScimUser [] u), s\<lparr> users := users s @ [u] \<rparr>))"

definition scim_findById_user :: "ident \<Rightarrow> ident option \<Rightarrow> db \<Rightarrow> scim_view result" where
  "scim_findById_user realmId i s =
     (case scim_user realmId i s of None \<Rightarrow> Inl NotFoundException | Some u \<Rightarrow> Inr (toScimUser (groups_of (user_id u) s) u))"

text \<open>An update by identifier, with the unique indexes on name and address.\<close>

definition write_user :: "ident option \<Rightarrow> (user_row \<Rightarrow> user_row) \<Rightarrow> user_row \<Rightarrow> db \<Rightarrow> unit result \<times> db" where
  "write_user i f u s =
     (case i of
        None \<Rightarrow> (Inl PlainError, s)
      | Some uid \<Rightarrow>
          if list_ex (\<lambda>y. user_id y \<noteq> uid \<and> user_realmId y = user_realmId u
               \<and> (user_username y = user_username (f u) \<or> user_email y \<noteq> None \<and> user_email y = user_email (f u))) (users s)
          then (Inl PrismaUnique, s)
          else (Inr (), update_user uid f s))"

definition put_user :: "scim_body \<Rightarrow> user_row \<Rightarrow> user_row" where
  "put_user b u =
     u\<lparr> user_username := nullish_else (b_userName b) (user_username u),
        user_email := (if falsy (body_email b) then user_email u else body_email b),
        user_firstName := (if b_givenName b = None then user_firstName u else b_givenName b),
        user_lastName := (if b_familyName b = None then user_lastName u else b_familyName b),
        user_enabled := nullish_else (b_active b) (user_enabled u),
        user_federationLink := (if b_externalId b = None then user_federationLink u else b_externalId b) \<rparr>"

definition scim_update_user :: "ident \<Rightarrow> ident option \<Rightarrow> scim_body \<Rightarrow> db \<Rightarrow> scim_view result \<times> db" where
  "scim_update_user realmId i b s =
     (case scim_user realmId i s of
        None \<Rightarrow> (Inl NotFoundException, s)
      | Some existing \<Rightarrow>
          let email = body_email b in
          if b_userName b \<noteq> Some (user_username existing)
             \<and> list_ex (\<lambda>u. user_realmId u = realmId \<and> when_given (b_userName b) (user_username u) \<and> i \<noteq> Some (user_id u)) (users s)
          then (Inl ConflictException, s)
          else if \<not> falsy email \<and> email \<noteq> user_email existing
             \<and> list_ex (\<lambda>u. user_realmId u = realmId \<and> user_email u = email \<and> i \<noteq> Some (user_id u)) (users s)
          then (Inl ConflictException, s)
          else and_then (write_user i (put_user b) existing s)
            (\<lambda>_ s. (Inr (toScimUser (groups_of (user_id existing) s) (put_user b existing)), s)))"

text \<open>
  PATCH collects the columns to change, then runs one update.  \<open>applyPatchValue\<close> also prints the user name for a log line, which throws
  for an object with a \<open>toString\<close> of its own.
\<close>

fun primary_email :: "js_engine \<Rightarrow> jsv list \<Rightarrow> jsv option result" where
  "primary_email j [] = Inr None"
| "primary_email j (m # ms) =
     (if nullish m then Inl TypeError else if truthy (get_prop j m ''primary'') then Inr (Some m) else primary_email j ms)"

definition patch_entry :: "js_engine \<Rightarrow> string \<times> jsv \<Rightarrow> (string \<times> jsv) list result" where
  "patch_entry j kv =
     (case kv of (key, val) \<Rightarrow>
        if key = ''userName'' then (if js_String j val = None then Inl TypeError else Inr [(''username'', val)])
        else if key = ''name.givenName'' then Inr [(''firstName'', val)]
        else if key = ''name.familyName'' then Inr [(''lastName'', val)]
        else if key = ''displayName'' then Inr [(''displayName'', val)]
        else if key = ''emails'' then
          (case val of
             Arr (m # ms) \<Rightarrow>
               (case primary_email j (m # ms) of
                  Inl err \<Rightarrow> Inl err
                | Inr p \<Rightarrow> Inr [(''email'', get_prop j (nullish_else p m) ''value'')])
           | _ \<Rightarrow> Inr [])
        else if key = ''active'' then Inr [(''enabled'', val)]
        else if key = ''title'' then Inr [(''title'', val)]
        else if key = ''preferredLanguage'' then Inr [(''preferredLanguage'', val)]
        else if key = ''locale'' then Inr [(''locale'', val)]
        else if key = ''timezone'' then Inr [(''timezone'', val)]
        else Inr [])"

fun applyPatchValue :: "js_engine \<Rightarrow> (string \<times> jsv) list \<Rightarrow> (string \<times> jsv) list result" where
  "applyPatchValue j [] = Inr []"
| "applyPatchValue j (kv # kvs) =
     (case patch_entry j kv of
        Inl err \<Rightarrow> Inl err
      | Inr new \<Rightarrow> (case applyPatchValue j kvs of Inl err \<Rightarrow> Inl err | Inr rest \<Rightarrow> Inr (new @ rest)))"

fun patch_columns :: "js_engine \<Rightarrow> patch_op list \<Rightarrow> (string \<times> jsv) list \<Rightarrow> (string \<times> jsv) list result" where
  "patch_columns j [] updateData = Inr updateData"
| "patch_columns j (x # xs) updateData =
     (case po_value x of
        Obj kvs \<Rightarrow>
          if po_op x \<in> {''add'', ''replace''} then
            (case applyPatchValue j kvs of
               Inl err \<Rightarrow> Inl err
             | Inr new \<Rightarrow> patch_columns j xs (fold (\<lambda>(k, v). AList.update k v) new updateData))
          else patch_columns j xs updateData
      | _ \<Rightarrow> patch_columns j xs updateData)"

text \<open>
  What the database client makes of one column of the update: \<open>undefined\<close> leaves it, an object \<open>{ set: v }\<close> stands for \<open>v\<close>, a value of
  another type and a column that does not exist are refused.
\<close>

definition set_value :: "jsv \<Rightarrow> jsv" where
  "set_value v = (case v of Obj [(k, x)] \<Rightarrow> (if k = ''set'' then x else v) | _ \<Rightarrow> v)"

definition nullable_text :: "jsv \<Rightarrow> string option option" where
  "nullable_text v = (case v of Str x \<Rightarrow> Some (Some x) | Null \<Rightarrow> Some None | _ \<Rightarrow> None)"

definition patch_column :: "string \<times> jsv \<Rightarrow> user_row \<Rightarrow> user_row option" where
  "patch_column kv u =
     (case kv of (k, v) \<Rightarrow>
        if v = Undefined then Some u
        else if k = ''username'' then (case set_value v of Str x \<Rightarrow> Some (u\<lparr> user_username := x \<rparr>) | _ \<Rightarrow> None)
        else if k = ''email'' then map_option (\<lambda>x. u\<lparr> user_email := x \<rparr>) (nullable_text (set_value v))
        else if k = ''firstName'' then map_option (\<lambda>x. u\<lparr> user_firstName := x \<rparr>) (nullable_text (set_value v))
        else if k = ''lastName'' then map_option (\<lambda>x. u\<lparr> user_lastName := x \<rparr>) (nullable_text (set_value v))
        else if k = ''enabled'' then (case set_value v of Bool x \<Rightarrow> Some (u\<lparr> user_enabled := x \<rparr>) | _ \<Rightarrow> None)
        else None)"

fun patch_row :: "(string \<times> jsv) list \<Rightarrow> user_row \<Rightarrow> user_row option" where
  "patch_row [] u = Some u"
| "patch_row (kv # kvs) u = (case patch_column kv u of None \<Rightarrow> None | Some u \<Rightarrow> patch_row kvs u)"

definition scim_patch_user :: "js_engine \<Rightarrow> ident \<Rightarrow> ident option \<Rightarrow> patch_op list option \<Rightarrow> db \<Rightarrow> scim_view result \<times> db" where
  "scim_patch_user j realmId i operations s =
     (case scim_user realmId i s of
        None \<Rightarrow> (Inl NotFoundException, s)
      | Some u \<Rightarrow>
          (case operations of
             None \<Rightarrow> (Inl TypeError, s)
           | Some ops \<Rightarrow>
               (case patch_columns j ops [] of
                  Inl err \<Rightarrow> (Inl err, s)
                | Inr updateData \<Rightarrow>
                    and_then
                      (if updateData = [] then (Inr (), s)
                       else case patch_row updateData u of
                              None \<Rightarrow> (Inl PlainError, s)
                            | Some u' \<Rightarrow> write_user i (\<lambda>_. u') u s)
                      (\<lambda>_ s. (scim_findById_user realmId i s, s)))))"

definition scim_delete_user :: "ident \<Rightarrow> ident option \<Rightarrow> db \<Rightarrow> unit result \<times> db" where
  "scim_delete_user realmId i s =
     (case scim_user realmId i s of
        None \<Rightarrow> (Inl NotFoundException, s)
      | Some _ \<Rightarrow> (case i of None \<Rightarrow> (Inl PlainError, s) | Some uid \<Rightarrow> (Inr (), update_user uid (\<lambda>u. u\<lparr> user_enabled := False \<rparr>) s)))"

subsection \<open>Groups\<close>

record scim_group_view =
  gv_id :: ident
  gv_displayName :: string
  gv_members :: "(ident \<times> string) list"

definition toScimGroup :: "(ident \<times> string) list \<Rightarrow> group_row \<Rightarrow> scim_group_view" where
  "toScimGroup ms g = \<lparr> gv_id = group_id g, gv_displayName = group_name g, gv_members = ms \<rparr>"

definition members_of :: "ident \<Rightarrow> db \<Rightarrow> (ident \<times> string) list" where
  "members_of gid s =
     concat (map (\<lambda>ug. if snd ug = gid then map (\<lambda>u. (user_id u, user_username u)) (filter (\<lambda>u. user_id u = fst ug) (users s)) else [])
       (userGroups s))"

definition scim_group :: "ident \<Rightarrow> ident option \<Rightarrow> db \<Rightarrow> group_row option" where
  "scim_group realmId i s = List.find (\<lambda>g. when_given i (group_id g) \<and> group_realmId g = realmId) (groups s)"

definition text_condition :: "prisma_platform \<Rightarrow> jsv \<Rightarrow> (string \<Rightarrow> bool) option" where
  "text_condition p v = (case v of Str x \<Rightarrow> Some (\<lambda>y. y = x) | _ \<Rightarrow> text_filter p v)"

fun addMembers :: "js_engine \<Rightarrow> prisma_platform \<Rightarrow> ident \<Rightarrow> ident option \<Rightarrow> jsv list \<Rightarrow> db \<Rightarrow> unit result \<times> db" where
  "addMembers j p realmId i [] s = (Inr (), s)"
| "addMembers j p realmId i (m # ms) s =
     (if nullish m then (Inl TypeError, s)
      else if \<not> truthy (get_prop j m ''value'') then addMembers j p realmId i ms s
      else case text_condition p (get_prop j m ''value'') of
             None \<Rightarrow> (Inl PlainError, s)
           | Some P \<Rightarrow>
               (case List.find (\<lambda>u. P (user_id u) \<and> user_realmId u = realmId) (users s) of
                  None \<Rightarrow> addMembers j p realmId i ms s
                | Some u \<Rightarrow>
                    (case i of
                       None \<Rightarrow> (Inl PlainError, s)
                     | Some gid \<Rightarrow>
                         addMembers j p realmId i ms
                           (if (user_id u, gid) \<in> set (userGroups s) then s
                            else s\<lparr> userGroups := userGroups s @ [(user_id u, gid)] \<rparr>))))"

definition removeMember :: "ident option \<Rightarrow> ident \<Rightarrow> db \<Rightarrow> db" where
  "removeMember i memberValue s =
     s\<lparr> userGroups := tbl_delete (\<lambda>ug. when_given i (snd ug) \<and> fst ug = memberValue) (userGroups s) \<rparr>"

text \<open>
  \<open>/members\[value eq '([^']+)'\]$/\<close>: the value has no quote, so it is what follows the last quote before the closing one.
\<close>

definition extractMemberValueFromPath :: "string \<Rightarrow> string option" where
  "extractMemberValueFromPath path =
     (let front = take (length path - 2) path; v = rev (takeWhile (\<lambda>c. c \<noteq> CHR 0x27) (rev front));
          lead = take (length front - length v) front
      in if ends_with [CHR 0x27, CHR '']''] path \<and> v \<noteq> [] \<and> ends_with (''members[value eq '' @ [CHR 0x27]) lead then Some v else None)"

definition scim_create_group ::
  "js_engine \<Rightarrow> prisma_platform \<Rightarrow> ident \<Rightarrow> ident \<Rightarrow> scim_body \<Rightarrow> db \<Rightarrow> scim_group_view result \<times> db" where
  "scim_create_group j p newId realmId b s =
     (if list_ex (\<lambda>g. group_realmId g = realmId \<and> when_given (b_displayName b) (group_name g)) (groups s) then (Inl ConflictException, s)
      else if b_displayName b = None then (Inl PlainError, s)
      else if newId \<in> group_id ` set (groups s) then (Inl PrismaUnique, s)
      else if realmId \<notin> realm_id ` set (realms s) then (Inl PrismaForeignKey, s)
      else let g = \<lparr> group_id = newId, group_realmId = realmId, group_name = the (b_displayName b),
                     group_description = b_displayName b, group_parentId = None \<rparr>
           in and_then (addMembers j p realmId (Some newId) (nullish_else (b_members b) []) (s\<lparr> groups := groups s @ [g] \<rparr>))
                (\<lambda>_ s. (Inr (toScimGroup [] g), s)))"

definition scim_findById_group :: "ident \<Rightarrow> ident option \<Rightarrow> db \<Rightarrow> scim_group_view result" where
  "scim_findById_group realmId i s =
     (case scim_group realmId i s of None \<Rightarrow> Inl NotFoundException | Some g \<Rightarrow> Inr (toScimGroup (members_of (group_id g) s) g))"

definition scim_update_group ::
  "js_engine \<Rightarrow> prisma_platform \<Rightarrow> ident \<Rightarrow> ident option \<Rightarrow> scim_body \<Rightarrow> db \<Rightarrow> scim_group_view result \<times> db" where
  "scim_update_group j p realmId i b s =
     (case scim_group realmId i s of
        None \<Rightarrow> (Inl NotFoundException, s)
      | Some existing \<Rightarrow>
          if b_displayName b \<noteq> Some (group_name existing)
             \<and> list_ex (\<lambda>g. group_realmId g = realmId \<and> when_given (b_displayName b) (group_name g) \<and> i \<noteq> Some (group_id g)) (groups s)
          then (Inl ConflictException, s)
          else (case i of
                  None \<Rightarrow> (Inl PlainError, s)
                | Some gid \<Rightarrow>
                    let s1 = s\<lparr> groups := tbl_update (\<lambda>g. group_id g = gid)
                                 (\<lambda>g. g\<lparr> group_name := nullish_else (b_displayName b) (group_name g),
                                         group_description := (if b_displayName b = None then group_description g else b_displayName b) \<rparr>)
                                 (groups s) \<rparr>
                    in and_then
                         (case b_members b of
                            None \<Rightarrow> (Inr (), s1)
                          | Some ms \<Rightarrow>
                              addMembers j p realmId i ms (s1\<lparr> userGroups := tbl_delete (\<lambda>ug. snd ug = gid) (userGroups s1) \<rparr>))
                         (\<lambda>_ s. (scim_findById_group realmId i s, s))))"

definition patch_group_op ::
  "js_engine \<Rightarrow> prisma_platform \<Rightarrow> ident \<Rightarrow> ident option \<Rightarrow> patch_op \<Rightarrow> db \<Rightarrow> unit result \<times> db" where
  "patch_group_op j p realmId i x s =
     (if po_op x \<in> {''add'', ''replace''} then
        (case (po_path x = Some ''members'', po_value x) of
           (True, Arr ms) \<Rightarrow> addMembers j p realmId i ms s
         | _ \<Rightarrow> (Inr (), s))
      else if po_op x = ''remove'' \<and> \<not> falsy (po_path x) then
        (case extractMemberValueFromPath (the (po_path x)) of
           None \<Rightarrow> (Inr (), s)
         | Some v \<Rightarrow> (Inr (), removeMember i v s))
      else (Inr (), s))"

fun patch_group_ops ::
  "js_engine \<Rightarrow> prisma_platform \<Rightarrow> ident \<Rightarrow> ident option \<Rightarrow> patch_op list \<Rightarrow> db \<Rightarrow> unit result \<times> db" where
  "patch_group_ops j p realmId i [] s = (Inr (), s)"
| "patch_group_ops j p realmId i (x # xs) s =
     and_then (patch_group_op j p realmId i x s) (\<lambda>_ s. patch_group_ops j p realmId i xs s)"

definition scim_patch_group ::
  "js_engine \<Rightarrow> prisma_platform \<Rightarrow> ident \<Rightarrow> ident option \<Rightarrow> patch_op list option \<Rightarrow> db \<Rightarrow> scim_group_view result \<times> db" where
  "scim_patch_group j p realmId i operations s =
     (if scim_group realmId i s = None then (Inl NotFoundException, s)
      else case operations of
             None \<Rightarrow> (Inl TypeError, s)
           | Some xs \<Rightarrow> and_then (patch_group_ops j p realmId i xs s) (\<lambda>_ s. (scim_findById_group realmId i s, s)))"

definition scim_delete_group :: "ident \<Rightarrow> ident option \<Rightarrow> db \<Rightarrow> unit result \<times> db" where
  "scim_delete_group realmId i s =
     (if scim_group realmId i s = None then (Inl NotFoundException, s)
      else case i of
             None \<Rightarrow> (Inl PlainError, s)
           | Some gid \<Rightarrow>
               let left = cascade [gid] (groups s); ids = group_id ` set left
               in (Inr (), s\<lparr> groups := left, userGroups := filter (\<lambda>ug. snd ug \<in> ids) (userGroups s),
                              groupRoles := filter (\<lambda>gr. fst gr \<in> ids) (groupRoles s) \<rparr>))"

definition group_columns :: "(string \<times> (group_row \<Rightarrow> string)) list" where
  "group_columns = [(''id'', group_id), (''realmId'', group_realmId), (''name'', group_name)]"

definition group_cond_holds :: "prisma_platform \<Rightarrow> group_row \<Rightarrow> string \<times> prisma_cond \<Rightarrow> bool" where
  "group_cond_holds p g fc =
     (case fc of (f, c) \<Rightarrow> (case map_of group_columns f of Some col \<Rightarrow> text_holds p c (col g) | None \<Rightarrow> False))"

definition scim_findAll_groups ::
  "js_engine \<Rightarrow> prisma_platform \<Rightarrow> ident \<Rightarrow> int option \<Rightarrow> int option \<Rightarrow> string option \<Rightarrow> db \<Rightarrow> (int \<times> scim_group_view list) result" where
  "scim_findAll_groups j p realmId startIndex count ft s =
     (let start = nullish_else startIndex 1; n = nullish_else count 100;
          w = (if falsy ft then Inr (in_realm_clause realmId) else scimFilterToPrismaWhereGroup j (the ft) realmId)
      in case w of
           Inl _ \<Rightarrow> Inr (0, [])
         | Inr w \<Rightarrow>
             if \<not> list_all (\<lambda>fc. text_valid (snd fc)) w then Inl PlainError
             else let rows = filter (\<lambda>g. list_all (group_cond_holds p g) w) (groups s)
                  in Inr (int (length rows),
                       map (\<lambda>g. toScimGroup (members_of (group_id g) s) g)
                         (prisma_page (max 0 (start - 1)) (min n 100) (sort_key (\<lambda>g. text_rank p (group_name g)) rows))))"

subsection \<open>Bulk requests\<close>

record bulk_operation =
  bo_method :: string
  bo_path :: string
  bo_data :: "scim_body option"
  bo_bulkId :: "string option"

record bulk_result =
  br_bulkId :: string
  br_status :: string
  br_operationType :: string
  br_location :: "string option"

text \<open>\<open>/^\/(Users|Groups)(?:\/(.+))?$/\<close>, where the dot matches no line break.\<close>

definition bulk_path_of :: "string \<Rightarrow> string \<Rightarrow> ident option option" where
  "bulk_path_of resource path =
     (let pre = CHR ''/'' # resource; rest = drop (length pre) path
      in if \<not> starts_with pre path then None
         else if rest = [] then Some None
         else if hd rest = CHR ''/'' \<and> tl rest \<noteq> [] \<and> \<not> list_ex line_end (tl rest) then Some (Some (tl rest))
         else None)"

definition bulk_target :: "string \<Rightarrow> (string \<times> ident option) option" where
  "bulk_target path =
     (case bulk_path_of ''Users'' path of
        Some i \<Rightarrow> Some (''Users'', i)
      | None \<Rightarrow> (case bulk_path_of ''Groups'' path of Some i \<Rightarrow> Some (''Groups'', i) | None \<Rightarrow> None))"

definition bulk_location :: "string \<Rightarrow> ident \<Rightarrow> string" where
  "bulk_location resource i = ''/scim/v2/'' @ resource @ ''/'' @ i"

text \<open>The body of an operation is read before anything is written, so an absent one is an error that writes nothing.\<close>

definition handlePost ::
  "env \<Rightarrow> js_engine \<Rightarrow> prisma_platform \<Rightarrow> ident \<Rightarrow> ident \<Rightarrow> string \<Rightarrow> scim_body option \<Rightarrow> string \<Rightarrow> db \<Rightarrow> bulk_result result \<times> db" where
  "handlePost e j p newId realmId resourceType data bulkId s =
     (case data of
        None \<Rightarrow> (Inl TypeError, s)
      | Some b \<Rightarrow>
          and_then
            (if resourceType = ''Users''
             then and_then (scim_create_user e newId realmId b s) (\<lambda>v s. (Inr (bulk_location resourceType (v_id v)), s))
             else and_then (scim_create_group j p newId realmId b s) (\<lambda>v s. (Inr (bulk_location resourceType (gv_id v)), s)))
            (\<lambda>loc s. (Inr \<lparr> br_bulkId = bulkId, br_status = ''201'', br_operationType = ''POST'', br_location = Some loc \<rparr>, s)))"

definition handlePut ::
  "js_engine \<Rightarrow> prisma_platform \<Rightarrow> ident \<Rightarrow> string \<Rightarrow> ident option \<Rightarrow> scim_body option \<Rightarrow> string \<Rightarrow> db \<Rightarrow> bulk_result result \<times> db" where
  "handlePut j p realmId resourceType resourceId data bulkId s =
     (case data of
        None \<Rightarrow> (Inl TypeError, s)
      | Some b \<Rightarrow>
          and_then
            (if resourceType = ''Users''
             then and_then (scim_update_user realmId resourceId b s) (\<lambda>v s. (Inr (bulk_location resourceType (v_id v)), s))
             else and_then (scim_update_group j p realmId resourceId b s) (\<lambda>v s. (Inr (bulk_location resourceType (gv_id v)), s)))
            (\<lambda>loc s. (Inr \<lparr> br_bulkId = bulkId, br_status = ''200'', br_operationType = ''PUT'', br_location = Some loc \<rparr>, s)))"

definition handlePatch ::
  "js_engine \<Rightarrow> prisma_platform \<Rightarrow> ident \<Rightarrow> string \<Rightarrow> ident option \<Rightarrow> scim_body option \<Rightarrow> string \<Rightarrow> db \<Rightarrow> bulk_result result \<times> db" where
  "handlePatch j p realmId resourceType resourceId data bulkId s =
     (case data of
        None \<Rightarrow> (Inl TypeError, s)
      | Some b \<Rightarrow>
          and_then
            (if resourceType = ''Users''
             then and_then (scim_patch_user j realmId resourceId (b_operations b) s) (\<lambda>v s. (Inr (bulk_location resourceType (v_id v)), s))
             else and_then (scim_patch_group j p realmId resourceId (b_operations b) s) (\<lambda>v s. (Inr (bulk_location resourceType (gv_id v)), s)))
            (\<lambda>loc s. (Inr \<lparr> br_bulkId = bulkId, br_status = ''200'', br_operationType = ''PATCH'', br_location = Some loc \<rparr>, s)))"

definition handleDelete :: "ident \<Rightarrow> string \<Rightarrow> ident option \<Rightarrow> string \<Rightarrow> db \<Rightarrow> bulk_result result \<times> db" where
  "handleDelete realmId resourceType resourceId bulkId s =
     and_then (if resourceType = ''Users'' then scim_delete_user realmId resourceId s else scim_delete_group realmId resourceId s)
       (\<lambda>_ s. (Inr \<lparr> br_bulkId = bulkId, br_status = ''204'', br_operationType = ''DELETE'', br_location = None \<rparr>, s))"

definition processOperation ::
  "env \<Rightarrow> js_engine \<Rightarrow> prisma_platform \<Rightarrow> ident \<Rightarrow> ident \<Rightarrow> bulk_operation \<Rightarrow> db \<Rightarrow> bulk_result result \<times> db" where
  "processOperation e j p newId realmId x s =
     (let bulkId = nullish_else (bo_bulkId x) [] in
      case bulk_target (bo_path x) of
        None \<Rightarrow> (Inl BadRequestException, s)
      | Some (resourceType, resourceId) \<Rightarrow>
          if bo_method x = ''POST'' then handlePost e j p newId realmId resourceType (bo_data x) bulkId s
          else if bo_method x = ''PUT'' then handlePut j p realmId resourceType resourceId (bo_data x) bulkId s
          else if bo_method x = ''PATCH'' then handlePatch j p realmId resourceType resourceId (bo_data x) bulkId s
          else if bo_method x = ''DELETE'' then handleDelete realmId resourceType resourceId bulkId s
          else (Inl BadRequestException, s))"

text \<open>Each operation draws its own identifier; an error becomes a result of its own and the next operation runs.\<close>

fun processBulk ::
  "env \<Rightarrow> js_engine \<Rightarrow> prisma_platform \<Rightarrow> (nat \<Rightarrow> ident) \<Rightarrow> ident \<Rightarrow> bulk_operation list \<Rightarrow> db \<Rightarrow> bulk_result list \<times> db" where
  "processBulk e j p ids realmId [] s = ([], s)"
| "processBulk e j p ids realmId (x # xs) s =
     (let (res, s1) = processOperation e j p (ids 0) realmId x s;
          br = (case res of
                  Inr y \<Rightarrow> y
                | Inl _ \<Rightarrow> \<lparr> br_bulkId = nullish_else (bo_bulkId x) [], br_status = ''400'', br_operationType = bo_method x, br_location = None \<rparr>);
          (brs, s2) = processBulk e j p (\<lambda>k. ids (Suc k)) realmId xs s1
      in (br # brs, s2))"

subsection \<open>Endpoints\<close>

datatype scim_call =
    ListUsers "int option" "int option" "string option"
  | PostUser scim_body
  | GetUser ident
  | PutUser ident scim_body
  | PatchUser ident "patch_op list option"
  | DropUser ident
  | ListGroups "int option" "int option" "string option"
  | PostGroup scim_body
  | GetGroup ident
  | PutGroup ident scim_body
  | PatchGroup ident "patch_op list option"
  | DropGroup ident
  | BulkCall "bulk_operation list"

datatype scim_reply =
    UsersReply int "scim_view list"
  | UserReply scim_view
  | GroupsReply int "scim_group_view list"
  | GroupReply scim_group_view
  | BulkReply "bulk_result list"
  | NoContent

definition reply :: "('a \<Rightarrow> scim_reply) \<Rightarrow> 'a result \<times> db \<Rightarrow> scim_reply result \<times> db" where
  "reply f m = and_then m (\<lambda>x s. (Inr (f x), s))"

definition scim_dispatch ::
  "env \<Rightarrow> js_engine \<Rightarrow> prisma_platform \<Rightarrow> (nat \<Rightarrow> ident) \<Rightarrow> ident \<Rightarrow> scim_call \<Rightarrow> db \<Rightarrow> scim_reply result \<times> db" where
  "scim_dispatch e j p ids realmId c s =
     (case c of
        ListUsers start n f \<Rightarrow>
          reply (\<lambda>(k, us). UsersReply k (map (\<lambda>u. toScimUser (groups_of (user_id u) s) u) us)) (scim_findAll_users j p realmId start n f s, s)
      | PostUser b \<Rightarrow> reply UserReply (scim_create_user e (ids 0) realmId b s)
      | GetUser i \<Rightarrow> reply UserReply (scim_findById_user realmId (Some i) s, s)
      | PutUser i b \<Rightarrow> reply UserReply (scim_update_user realmId (Some i) b s)
      | PatchUser i ops \<Rightarrow> reply UserReply (scim_patch_user j realmId (Some i) ops s)
      | DropUser i \<Rightarrow> reply (\<lambda>_. NoContent) (scim_delete_user realmId (Some i) s)
      | ListGroups start n f \<Rightarrow> reply (\<lambda>(k, gs). GroupsReply k gs) (scim_findAll_groups j p realmId start n f s, s)
      | PostGroup b \<Rightarrow> reply GroupReply (scim_create_group j p (ids 0) realmId b s)
      | GetGroup i \<Rightarrow> reply GroupReply (scim_findById_group realmId (Some i) s, s)
      | PutGroup i b \<Rightarrow> reply GroupReply (scim_update_group j p realmId (Some i) b s)
      | PatchGroup i ops \<Rightarrow> reply GroupReply (scim_patch_group j p realmId (Some i) ops s)
      | DropGroup i \<Rightarrow> reply (\<lambda>_. NoContent) (scim_delete_group realmId (Some i) s)
      | BulkCall xs \<Rightarrow> reply BulkReply (case processBulk e j p ids realmId xs s of (brs, s) \<Rightarrow> (Inr brs, s)))"

record scim_request =
  rq_env :: env
  rq_ids :: "nat \<Rightarrow> ident"
  rq_path :: string
  rq_authorization :: "string option"
  rq_call :: scim_call

definition scim_endpoint :: "js_engine \<Rightarrow> prisma_platform \<Rightarrow> scim_request \<Rightarrow> scim_state \<Rightarrow> scim_reply result \<times> scim_state" where
  "scim_endpoint j p q s =
     and_then (scim_guard (rq_env q) (rq_path q) (rq_authorization q) s)
       (\<lambda>(r, t) s. case scim_dispatch (rq_env q) j p (rq_ids q) (realm_id r) (rq_call q) (sc_db s) of
                     (res, d) \<Rightarrow> (res, s\<lparr> sc_db := d \<rparr>))"


subsection \<open>The data of another tenant\<close>

definition tenant_view :: "ident \<Rightarrow> db \<Rightarrow> user_row list \<times> group_row list" where
  "tenant_view T s = (filter (\<lambda>u. user_realmId u = T) (users s), filter (\<lambda>g. group_realmId g = T) (groups s))"

definition tenant_links :: "ident \<Rightarrow> db \<Rightarrow> (ident \<times> ident) list \<times> (ident \<times> ident) list" where
  "tenant_links T s =
     (let ids = group_id ` set (filter (\<lambda>g. group_realmId g = T) (groups s))
      in (filter (\<lambda>ug. snd ug \<in> ids) (userGroups s), filter (\<lambda>gr. fst gr \<in> ids) (groupRoles s)))"

text \<open>Primary keys are unique, and the parent of a group exists and lies in the realm of the group.\<close>

definition tables_ok :: "db \<Rightarrow> bool" where
  "tables_ok s \<longleftrightarrow> distinct (map user_id (users s)) \<and> distinct (map group_id (groups s))
     \<and> list_all (\<lambda>x. case group_parentId x of
                        None \<Rightarrow> True
                      | Some p \<Rightarrow> list_ex (\<lambda>y. group_id y = p \<and> group_realmId y = group_realmId x) (groups s)) (groups s)"

text \<open>\<open>links\<close> says whether memberships and role mappings are part of what stays.\<close>

definition confined :: "bool \<Rightarrow> ident \<Rightarrow> db \<Rightarrow> db \<Rightarrow> bool" where
  "confined links T s s' \<longleftrightarrow> tables_ok s' \<and> realms s' = realms s \<and> tenant_view T s' = tenant_view T s
     \<and> (links \<longrightarrow> tenant_links T s' = tenant_links T s)"

lemma tables_okI:
  assumes "distinct (map user_id (users s))" "distinct (map group_id (groups s))"
    and "\<And>x p. x \<in> set (groups s) \<Longrightarrow> group_parentId x = Some p \<Longrightarrow>
      \<exists>y \<in> set (groups s). group_id y = p \<and> group_realmId y = group_realmId x"
  shows "tables_ok s"
  using assms by (auto simp: tables_ok_def list_all_iff list_ex_iff split: option.split)

lemma tables_ok_parent:
  "tables_ok s \<Longrightarrow> x \<in> set (groups s) \<Longrightarrow> group_parentId x = Some p \<Longrightarrow>
     \<exists>y \<in> set (groups s). group_id y = p \<and> group_realmId y = group_realmId x"
  by (auto simp: tables_ok_def list_all_iff list_ex_iff split: option.splits)

lemma tables_ok_cong:
  assumes ok: "tables_ok s" and "distinct (map user_id (users s'))" "groups s' = groups s"
  shows "tables_ok s'"
  by (rule tables_okI) (use assms tables_ok_parent [OF ok] in \<open>auto simp: tables_ok_def\<close>)

lemma confined_refl: "tables_ok s \<Longrightarrow> confined b T s s"
  by (simp add: confined_def)

lemma confined_trans: "confined b T s s1 \<Longrightarrow> confined b T s1 s2 \<Longrightarrow> confined b T s s2"
  by (auto simp: confined_def)

lemma confined_and_then:
  assumes "confined b T s (snd m)" and "\<And>x s1. m = (Inr x, s1) \<Longrightarrow> confined b T s1 (snd (k x s1))"
  shows "confined b T s (snd (and_then m k))"
proof (cases m)
  case (Pair res s1)
  then show ?thesis using assms by (cases res) (auto intro: confined_trans)
qed

lemma confined_reply: "confined b T s (snd m) \<Longrightarrow> confined b T s (snd (reply f m))"
  unfolding reply_def by (rule confined_and_then) (auto intro: confined_refl simp: confined_def)

lemma filter_map_same:
  "(\<And>x. x \<in> set xs \<Longrightarrow> P (g x) = P x \<and> (P x \<longrightarrow> g x = x)) \<Longrightarrow> filter P (map g xs) = filter P xs"
  by (induction xs) auto

lemma confined_update_user:
  assumes ok: "tables_ok s" and u: "u \<in> set (users s)" "user_id u = uid" "user_realmId u \<noteq> T"
    and f: "user_id (f u) = user_id u" "user_realmId (f u) = user_realmId u"
  shows "confined b T s (update_user uid f s)"
proof -
  let ?g = "\<lambda>x. if user_id x = uid then f x else x"
  have us: "users (update_user uid f s) = map ?g (users s)" by (simp add: update_user_def tbl_update_def)
  have one: "x = u" if "x \<in> set (users s)" "user_id x = uid" for x
    using distinct_id_eq [of user_id "users s" x u] ok u that by (simp add: tables_ok_def)
  have same: "user_id (?g x) = user_id x" "user_realmId (?g x) = T \<longleftrightarrow> user_realmId x = T" "user_realmId x = T \<longrightarrow> ?g x = x"
    if "x \<in> set (users s)" for x
    using one [OF that] f u by auto
  have "map user_id (map ?g (users s)) = map user_id (users s)" using same(1) by (simp cong: map_cong)
  then have "distinct (map user_id (users (update_user uid f s)))" using ok unfolding us tables_ok_def by metis
  then have "tables_ok (update_user uid f s)" by (rule tables_ok_cong [OF ok]) (simp add: update_user_def)
  moreover have "filter (\<lambda>u. user_realmId u = T) (map ?g (users s)) = filter (\<lambda>u. user_realmId u = T) (users s)"
    using same(2,3) by (intro filter_map_same) blast
  ultimately show ?thesis using us by (simp add: confined_def tenant_view_def tenant_links_def Let_def update_user_def)
qed

lemma confined_add_user:
  assumes "tables_ok s" "user_id u \<notin> user_id ` set (users s)" "user_realmId u \<noteq> T"
  shows "confined b T s (s\<lparr> users := users s @ [u] \<rparr>)"
proof -
  have "tables_ok (s\<lparr> users := users s @ [u] \<rparr>)"
    by (rule tables_ok_cong [OF assms(1)]) (use assms(1,2) in \<open>auto simp: tables_ok_def\<close>)
  with assms(3) show ?thesis by (simp add: confined_def tenant_view_def tenant_links_def Let_def)
qed

lemma parent_in_realm:
  assumes "tables_ok s" "x \<in> set (groups s)" "group_parentId x = Some p" "y \<in> set (groups s)" "group_id y = p"
  shows "group_realmId x = group_realmId y"
proof -
  have "list_ex (\<lambda>y. group_id y = p \<and> group_realmId y = group_realmId x) (groups s)"
    using assms(1-3) by (auto simp: tables_ok_def list_all_iff split: option.splits)
  then obtain z where z: "z \<in> set (groups s)" "group_id z = p" "group_realmId z = group_realmId x" by (auto simp: list_ex_iff)
  with assms(1,4,5) distinct_id_eq [of group_id "groups s" z y] show ?thesis by (simp add: tables_ok_def)
qed

lemma parent_exists: "tables_ok s \<Longrightarrow> x \<in> set (groups s) \<Longrightarrow> group_parentId x = Some p \<Longrightarrow> p \<in> group_id ` set (groups s)"
  by (auto simp: tables_ok_def list_all_iff list_ex_iff split: option.splits)

lemma confined_add_group:
  assumes ok: "tables_ok s" and g: "group_id g \<notin> group_id ` set (groups s)" "group_realmId g \<noteq> T" "group_parentId g = None"
  shows "confined b T s (s\<lparr> groups := groups s @ [g] \<rparr>)"
proof -
  have "tables_ok (s\<lparr> groups := groups s @ [g] \<rparr>)"
    by (rule tables_okI) (use ok g tables_ok_parent [OF ok] in \<open>auto simp: tables_ok_def\<close>)
  with g(2) show ?thesis by (simp add: confined_def tenant_view_def tenant_links_def Let_def)
qed

lemma confined_update_group:
  assumes ok: "tables_ok s" and g: "g \<in> set (groups s)" "group_id g = gid" "group_realmId g \<noteq> T"
    and f: "\<And>x. group_id (f x) = group_id x" "\<And>x. group_realmId (f x) = group_realmId x" "\<And>x. group_parentId (f x) = group_parentId x"
  shows "confined b T s (s\<lparr> groups := tbl_update (\<lambda>x. group_id x = gid) f (groups s) \<rparr>)"
proof -
  let ?h = "\<lambda>x. if group_id x = gid then f x else x"
  let ?s = "s\<lparr> groups := map ?h (groups s) \<rparr>"
  have h: "group_id (?h x) = group_id x" "group_realmId (?h x) = group_realmId x" "group_parentId (?h x) = group_parentId x" for x
    by (simp_all add: f)
  have other: "?h x = x" if "x \<in> set (groups s)" "group_realmId x = T" for x
    using distinct_id_eq [of group_id "groups s" x g] ok g that by (auto simp: tables_ok_def)
  have "tables_ok ?s"
  proof (rule tables_okI)
    show "distinct (map user_id (users ?s))" "distinct (map group_id (groups ?s))"
      using ok by (simp_all add: tables_ok_def o_def h)
  next
    fix x p assume "x \<in> set (groups ?s)" and p: "group_parentId x = Some p"
    then have "x \<in> ?h ` set (groups s)" by simp
    then obtain z where z: "z \<in> set (groups s)" "x = ?h z" by blast
    from p have zp: "group_parentId z = Some p" unfolding z(2) h(3) .
    from tables_ok_parent [OF ok z(1) zp] obtain y where "y \<in> set (groups s)" "group_id y = p" "group_realmId y = group_realmId z" by blast
    with z(2) f show "\<exists>y \<in> set (groups ?s). group_id y = p \<and> group_realmId y = group_realmId x"
      by (intro bexI [of _ "?h y"]) auto
  qed
  moreover have "filter (\<lambda>x. group_realmId x = T) (map ?h (groups s)) = filter (\<lambda>x. group_realmId x = T) (groups s)"
    by (rule filter_map_same) (use other h(2) in auto)
  ultimately show ?thesis by (simp add: confined_def tenant_view_def tenant_links_def Let_def tbl_update_def)
qed

lemma cascade_stays_in_realm:
  assumes ok: "tables_ok s" and g: "g \<in> set (groups s)" "group_id g = gid" and x: "x \<in> set (groups s)"
    and reach: "(group_id x, gid) \<in> (parent_edges (groups s))\<^sup>*"
  shows "group_realmId x = group_realmId g"
  using reach x
proof (induction "group_id x" arbitrary: x rule: converse_rtrancl_induct)
  case base
  then show ?case using distinct_id_eq [of group_id "groups s" x g] ok g by (simp add: tables_ok_def)
next
  case (step q)
  from step(1) obtain x' where x': "x' \<in> set (groups s)" "group_id x' = group_id x" "group_parentId x' = Some q" by (auto simp: parent_edges_def)
  then have "x' = x" using distinct_id_eq [of group_id "groups s" x' x] ok step(4) by (simp add: tables_ok_def)
  with x' tables_ok_parent [OF ok] obtain y where "y \<in> set (groups s)" "group_id y = q" "group_realmId y = group_realmId x" by blast
  with step(3) [of y] show ?case by simp
qed

lemma confined_delete_group:
  assumes ok: "tables_ok s" and g: "g \<in> set (groups s)" "group_id g = gid" "group_realmId g \<noteq> T"
  defines "left \<equiv> cascade [gid] (groups s)"
  shows "confined b T s (s\<lparr> groups := left, userGroups := filter (\<lambda>ug. snd ug \<in> group_id ` set left) (userGroups s),
    groupRoles := filter (\<lambda>gr. fst gr \<in> group_id ` set left) (groupRoles s) \<rparr>)" (is "confined b T s ?s")
proof -
  have "dangling_due [gid] (groups s)" using parent_exists [OF ok] by (auto simp: dangling_due_def)
  from cascade_set [OF this] have set_left: "set left = {x \<in> set (groups s). (group_id x, gid) \<notin> (parent_edges (groups s))\<^sup>*}"
    by (simp add: left_def)
  obtain P where P: "left = filter P (groups s)" using cascade_filter left_def by blast
  have keep: "P x" if "x \<in> set (groups s)" "group_realmId x = T" for x
    using cascade_stays_in_realm [OF ok g(1,2) that(1)] that g(3) set_left unfolding P by auto
  then have "filter (\<lambda>g. group_realmId g = T) left = filter (\<lambda>g. group_realmId g = T) (groups s)"
    unfolding P filter_filter by (intro filter_cong) auto
  moreover have "tables_ok ?s"
  proof (rule tables_okI)
    show "distinct (map user_id (users ?s))" "distinct (map group_id (groups ?s))"
      using ok by (simp_all add: tables_ok_def P distinct_map_filter)
  next
    fix x p assume "x \<in> set (groups ?s)" and p: "group_parentId x = Some p"
    then have x: "x \<in> set (groups s)" "(group_id x, gid) \<notin> (parent_edges (groups s))\<^sup>*" using set_left by simp_all
    from tables_ok_parent [OF ok x(1) p] obtain y where y: "y \<in> set (groups s)" "group_id y = p" "group_realmId y = group_realmId x" by blast
    have "(group_id x, p) \<in> parent_edges (groups s)" using x(1) p by (auto simp: parent_edges_def)
    with x(2) y(2) have "(group_id y, gid) \<notin> (parent_edges (groups s))\<^sup>*" by (meson converse_rtrancl_into_rtrancl)
    with y set_left show "\<exists>y \<in> set (groups ?s). group_id y = p \<and> group_realmId y = group_realmId x" by auto
  qed
  moreover have "group_id ` set (filter (\<lambda>g. group_realmId g = T) (groups s)) \<subseteq> group_id ` set left"
    using keep unfolding P by auto
  ultimately show ?thesis
    by (auto simp: confined_def tenant_view_def tenant_links_def Let_def intro!: filter_cong)
qed

lemma confined_members:
  assumes ok: "tables_ok s" and "b \<Longrightarrow> filter (\<lambda>ug. snd ug \<in> group_id ` set (filter (\<lambda>g. group_realmId g = T) (groups s))) m
      = filter (\<lambda>ug. snd ug \<in> group_id ` set (filter (\<lambda>g. group_realmId g = T) (groups s))) (userGroups s)"
  shows "confined b T s (s\<lparr> userGroups := m \<rparr>)"
proof -
  have "tables_ok (s\<lparr> userGroups := m \<rparr>)" by (rule tables_ok_cong [OF ok]) (use ok in \<open>simp_all add: tables_ok_def\<close>)
  then show ?thesis using assms(2) by (simp add: confined_def tenant_view_def tenant_links_def Let_def)
qed

subsection \<open>Every operation stays in its realm\<close>

lemma scim_user_in: "scim_user realmId i s = Some u \<Longrightarrow> u \<in> set (users s) \<and> when_given i (user_id u) \<and> user_realmId u = realmId"
  by (auto simp: scim_user_def dest: find_SomeD)

lemma scim_group_in: "scim_group realmId i s = Some g \<Longrightarrow> g \<in> set (groups s) \<and> when_given i (group_id g) \<and> group_realmId g = realmId"
  by (auto simp: scim_group_def dest: find_SomeD)

lemma confined_write_user:
  assumes "tables_ok s" "u \<in> set (users s)" "when_given i (user_id u)" "user_realmId u \<noteq> T"
    and "user_id (f u) = user_id u" "user_realmId (f u) = user_realmId u"
  shows "confined b T s (snd (write_user i f u s))"
  using assms confined_update_user [of s u _ T f b]
  by (cases i) (auto simp: write_user_def when_given_def confined_refl)

lemma patch_row_keeps: "patch_row kvs u = Some u' \<Longrightarrow> user_id u' = user_id u \<and> user_realmId u' = user_realmId u"
proof (induction kvs arbitrary: u)
  case (Cons kv kvs)
  then obtain u1 where u1: "patch_column kv u = Some u1" "patch_row kvs u1 = Some u'" by (auto split: option.splits)
  then have "user_id u1 = user_id u \<and> user_realmId u1 = user_realmId u"
    by (cases kv) (auto simp: patch_column_def split: if_splits jsv.splits)
  with Cons.IH [OF u1(2)] show ?case by simp
qed simp

lemma put_user_keeps: "user_id (put_user b u) = user_id u" "user_realmId (put_user b u) = user_realmId u"
  by (simp_all add: put_user_def)

lemma create_user_confined:
  assumes "tables_ok s" "realmId \<noteq> T"
  shows "confined b T s (snd (scim_create_user e i realmId bd s))"
  using assms by (auto simp: scim_create_user_def Let_def confined_refl new_user_def intro!: confined_add_user)

lemma update_user_confined:
  assumes "tables_ok s" "realmId \<noteq> T"
  shows "confined b T s (snd (scim_update_user realmId i bd s))"
proof (cases "scim_user realmId i s")
  case (Some u)
  then have w: "confined b T s (snd (write_user i (put_user bd) u s))"
    using assms scim_user_in [OF Some] by (intro confined_write_user) (auto simp: put_user_keeps)
  then have "confined b T s (snd (and_then (write_user i (put_user bd) u s)
    (\<lambda>_ s. (Inr (toScimUser (groups_of (user_id u) s) (put_user bd u)), s))))"
    by (rule confined_and_then) (use w in \<open>auto intro: confined_refl simp: confined_def\<close>)
  with Some assms(1) show ?thesis by (simp add: scim_update_user_def Let_def confined_refl)
qed (simp add: scim_update_user_def confined_refl assms)

lemma confined_ok: "confined b T s s' \<Longrightarrow> tables_ok s'"
  by (simp add: confined_def)

lemma confined_answer: "confined b T s (snd m) \<Longrightarrow> confined b T s (snd (and_then m (\<lambda>x s. (r x s, s))))"
  by (rule confined_and_then) (auto intro: confined_refl dest: confined_ok)

lemma patch_user_confined:
  assumes "tables_ok s" "realmId \<noteq> T"
  shows "confined b T s (snd (scim_patch_user j realmId i operations s))"
proof -
  have "confined b T s (snd (if updateData = [] then (Inr (), s)
      else case patch_row updateData u of None \<Rightarrow> (Inl PlainError, s) | Some u' \<Rightarrow> write_user i (\<lambda>_. u') u s))"
    if u: "scim_user realmId i s = Some u" for updateData u
  proof (cases "patch_row updateData u")
    case (Some u')
    with assms scim_user_in [OF u] patch_row_keeps [OF Some] have "confined b T s (snd (write_user i (\<lambda>_. u') u s))"
      by (intro confined_write_user) auto
    with Some assms(1) show ?thesis by (simp add: confined_refl)
  qed (simp add: confined_refl assms(1))
  note written = confined_answer [OF this]
  show ?thesis
  proof (cases "scim_user realmId i s")
    case (Some u)
    note w = written [OF Some, where r = "\<lambda>_. scim_findById_user realmId i"]
    show ?thesis
    proof (cases operations)
      case ops: (Some xs)
      show ?thesis unfolding scim_patch_user_def Some ops option.case
        by (cases "patch_columns j xs []") (simp_all only: sum.case snd_conv confined_refl [OF assms(1)] w)
    qed (simp add: scim_patch_user_def Some confined_refl assms(1))
  qed (simp add: scim_patch_user_def confined_refl assms(1))
qed

lemma delete_user_confined:
  assumes "tables_ok s" "realmId \<noteq> T"
  shows "confined b T s (snd (scim_delete_user realmId i s))"
proof (cases "scim_user realmId i s")
  case (Some u)
  then show ?thesis
    using assms scim_user_in [OF Some] confined_update_user [OF assms(1), of u _ T]
    by (cases i) (auto simp: scim_delete_user_def confined_refl when_given_def)
qed (simp add: scim_delete_user_def confined_refl assms)

lemma not_tenant_group:
  assumes "tables_ok s" "g \<in> set (groups s)" "group_realmId g \<noteq> T"
  shows "group_id g \<notin> group_id ` set (filter (\<lambda>g. group_realmId g = T) (groups s))"
  using assms distinct_id_eq [of group_id "groups s" g] by (auto simp: tables_ok_def)

lemma confined_group_members:
  assumes ok: "tables_ok s" and g: "g \<in> set (groups s)" "group_realmId g \<noteq> T"
    and m: "filter (\<lambda>ug. snd ug \<noteq> group_id g) m = filter (\<lambda>ug. snd ug \<noteq> group_id g) (userGroups s)"
  shows "confined b T s (s\<lparr> userGroups := m \<rparr>)"
proof (rule confined_members [OF ok])
  define ids where "ids = group_id ` set (filter (\<lambda>g. group_realmId g = T) (groups s))"
  have n: "group_id g \<notin> ids" using not_tenant_group [OF ok g] unfolding ids_def .
  have sub: "filter (\<lambda>ug. snd ug \<in> ids) xs = filter (\<lambda>ug. snd ug \<in> ids) (filter (\<lambda>ug. snd ug \<noteq> group_id g) xs)" for xs :: "(ident \<times> ident) list"
    using n unfolding filter_filter by (intro filter_cong) auto
  show "filter (\<lambda>ug. snd ug \<in> group_id ` set (filter (\<lambda>g. group_realmId g = T) (groups s))) m
      = filter (\<lambda>ug. snd ug \<in> group_id ` set (filter (\<lambda>g. group_realmId g = T) (groups s))) (userGroups s)"
    unfolding ids_def [symmetric] sub [of m] sub [of "userGroups s"] m ..
qed

lemma addMembers_confined:
  assumes "tables_ok s" "g \<in> set (groups s)" "group_realmId g \<noteq> T" "when_given i (group_id g)"
  shows "confined b T s (snd (addMembers j p realmId i ms s))"
  using assms(1,2)
proof (induction ms arbitrary: s)
  case (Cons m ms)
  note IH = Cons.IH [OF Cons.prems]
  show ?case
  proof (cases i)
    case (Some gid)
    let ?add = "\<lambda>u. if (u, gid) \<in> set (userGroups s) then s else s\<lparr> userGroups := userGroups s @ [(u, gid)] \<rparr>"
    have step: "confined b T s (?add u)" for u
      using confined_group_members [of s g T "userGroups s @ [(u, gid)]" b] Cons.prems assms(3,4) Some
      by (auto simp: confined_refl when_given_def)
    have "confined b T s (snd (addMembers j p realmId i ms (?add u)))" for u
      using Cons.prems(2) by (intro confined_trans [OF step Cons.IH [OF confined_ok [OF step]]]) simp
    with IH Some Cons.prems(1) show ?thesis by (auto simp: confined_refl split: option.split)
  qed (use IH Cons.prems(1) in \<open>auto simp: confined_refl split: option.split\<close>)
qed (simp add: confined_refl)

lemma create_group_confined:
  assumes "tables_ok s" "realmId \<noteq> T"
  shows "confined b T s (snd (scim_create_group j p i realmId bd s))"
proof -
  let ?g = "\<lparr> group_id = i, group_realmId = realmId, group_name = the (b_displayName bd),
    group_description = b_displayName bd, group_parentId = None \<rparr>"
  have "confined b T s (snd (addMembers j p realmId (Some i) ms (s\<lparr> groups := groups s @ [?g] \<rparr>)))"
    if "i \<notin> group_id ` set (groups s)" for ms
  proof (rule confined_trans)
    show first: "confined b T s (s\<lparr> groups := groups s @ [?g] \<rparr>)" using assms that by (intro confined_add_group) auto
    show "confined b T (s\<lparr> groups := groups s @ [?g] \<rparr>) (snd (addMembers j p realmId (Some i) ms (s\<lparr> groups := groups s @ [?g] \<rparr>)))"
      using assms(2) by (intro addMembers_confined [OF confined_ok [OF first], of ?g]) (simp_all add: when_given_def)
  qed
  with assms(1) show ?thesis
    by (auto simp: scim_create_group_def Let_def confined_refl intro!: confined_answer)
qed

lemma update_group_confined:
  assumes "tables_ok s" "realmId \<noteq> T"
  shows "confined b T s (snd (scim_update_group j p realmId i bd s))"
proof (cases "scim_group realmId i s")
  case (Some g)
  note g = scim_group_in [OF Some]
  show ?thesis
  proof (cases i)
    case gid: (Some gid)
    let ?f = "\<lambda>g. g\<lparr> group_name := nullish_else (b_displayName bd) (group_name g),
      group_description := (if b_displayName bd = None then group_description g else b_displayName bd) \<rparr>"
    let ?s1 = "s\<lparr> groups := tbl_update (\<lambda>g. group_id g = gid) ?f (groups s) \<rparr>"
    have id: "group_id g = gid" using g gid by (simp add: when_given_def)
    have s1: "confined b T s ?s1" using g id assms by (intro confined_update_group [of s g]) auto
    have fg: "?f g \<in> set (groups ?s1)" using g id by (auto simp: tbl_update_def image_iff intro!: bexI [of _ g])
    let ?s2 = "?s1\<lparr> userGroups := tbl_delete (\<lambda>ug. snd ug = gid) (userGroups ?s1) \<rparr>"
    have s2: "confined b T ?s1 ?s2"
      by (rule confined_group_members [OF confined_ok [OF s1] fg]) (use g id assms in \<open>simp_all add: tbl_delete_def\<close>)
    have "confined b T ?s2 (snd (addMembers j p realmId i ms ?s2))" for ms
      by (rule addMembers_confined [OF confined_ok [OF s2], of "?f g"]) (use fg g id gid assms in \<open>simp_all add: when_given_def\<close>)
    note all = confined_trans [OF confined_trans [OF s1 s2] this]
    have "confined b T s (snd (case b_members bd of None \<Rightarrow> (Inr (), ?s1) | Some ms \<Rightarrow> addMembers j p realmId i ms ?s2))"
      using s1 all by (cases "b_members bd") simp_all
    note res = confined_answer [OF this, where r = "\<lambda>_. scim_findById_group realmId i"]
    show ?thesis unfolding scim_update_group_def gid Some [unfolded gid] option.case Let_def
      by (split if_split, intro conjI impI) (simp_all only: snd_conv confined_refl [OF assms(1)] res [unfolded gid])
  qed (use assms Some in \<open>simp add: scim_update_group_def confined_refl\<close>)
qed (simp add: scim_update_group_def confined_refl assms)

lemma patch_group_op_confined:
  assumes "tables_ok s" "g \<in> set (groups s)" "group_realmId g \<noteq> T" "when_given i (group_id g)" "b \<Longrightarrow> i \<noteq> None"
  shows "confined b T s (snd (patch_group_op j p realmId i x s))"
proof -
  have "confined b T s (removeMember i v s)" for v
  proof (cases i)
    case None
    with assms(1,5) show ?thesis unfolding removeMember_def by (intro confined_members) auto
  next
    case (Some gid)
    with assms(1-4) show ?thesis unfolding removeMember_def
      by (intro confined_group_members [of s g]) (auto simp: when_given_def tbl_delete_def intro: filter_cong)
  qed
  with assms(1) addMembers_confined [OF assms(1-4)] show ?thesis
    by (auto simp: patch_group_op_def confined_refl split: option.split jsv.split bool.split)
qed

lemma patch_group_op_groups: "groups (snd (patch_group_op j p realmId i x s)) = groups s"
proof -
  have "groups (snd (addMembers j p realmId i ms s)) = groups s" for ms
  proof (induction ms arbitrary: s)
    case (Cons m ms)
    then show ?case by (cases i) (auto split: option.split)
  qed simp
  then show ?thesis by (auto simp: patch_group_op_def removeMember_def split: option.split jsv.split bool.split)
qed

lemma patch_group_ops_confined:
  assumes "tables_ok s" "g \<in> set (groups s)" "group_realmId g \<noteq> T" "when_given i (group_id g)" "b \<Longrightarrow> i \<noteq> None"
  shows "confined b T s (snd (patch_group_ops j p realmId i xs s))"
  using assms(1,2)
proof (induction xs arbitrary: s)
  case (Cons x xs)
  have one: "confined b T s (snd (patch_group_op j p realmId i x s))"
    by (rule patch_group_op_confined [OF Cons.prems assms(3-5)])
  have "confined b T s1 (snd (patch_group_ops j p realmId i xs s1))" if "patch_group_op j p realmId i x s = (Inr y, s1)" for y s1
    using Cons.IH [of s1] Cons.prems(2) confined_ok [OF one] patch_group_op_groups [of j p realmId i x s] that by simp
  with one show ?case by (auto intro: confined_and_then)
qed (simp add: confined_refl)

lemma patch_group_confined:
  assumes "tables_ok s" "realmId \<noteq> T" "b \<Longrightarrow> i \<noteq> None"
  shows "confined b T s (snd (scim_patch_group j p realmId i operations s))"
proof (cases "scim_group realmId i s")
  case (Some g)
  have "confined b T s (snd (patch_group_ops j p realmId i xs s))" for xs
    using assms scim_group_in [OF Some] by (intro patch_group_ops_confined [of s g]) auto
  from confined_answer [OF this, where r = "\<lambda>_. scim_findById_group realmId i"] Some assms(1) show ?thesis
    by (cases operations) (simp_all add: scim_patch_group_def confined_refl)
qed (simp add: scim_patch_group_def confined_refl assms(1))

lemma delete_group_confined:
  assumes "tables_ok s" "realmId \<noteq> T"
  shows "confined b T s (snd (scim_delete_group realmId i s))"
proof (cases "scim_group realmId i s")
  case (Some g)
  then show ?thesis
    using assms scim_group_in [OF Some] confined_delete_group [OF assms(1), of g _ T b]
    by (cases i) (auto simp: scim_delete_group_def confined_refl when_given_def Let_def)
qed (simp add: scim_delete_group_def confined_refl assms(1))

lemmas scim_ops_confined = create_user_confined update_user_confined patch_user_confined delete_user_confined
  create_group_confined update_group_confined patch_group_confined delete_group_confined

text \<open>The one bulk operation that reaches beyond the realm: PATCH on groups with no identifier.\<close>

definition idless_group_patch :: "bulk_operation \<Rightarrow> bool" where
  "idless_group_patch x \<longleftrightarrow> bo_method x = ''PATCH'' \<and> bulk_target (bo_path x) = Some (''Groups'', None)"

lemma bulk_target_resource: "bulk_target path = Some (rt, i) \<Longrightarrow> rt = ''Users'' \<or> rt = ''Groups''"
  by (auto simp: bulk_target_def split: option.splits)

lemma processOperation_confined:
  assumes "tables_ok s" "realmId \<noteq> T" "b \<Longrightarrow> \<not> idless_group_patch x"
  shows "confined b T s (snd (processOperation e j p newId realmId x s))"
proof (cases "bulk_target (bo_path x)")
  case (Some ri)
  obtain rt i where ri: "ri = (rt, i)" by (cases ri)
  note ops = scim_ops_confined [OF assms(1,2)]
  have post: "confined b T s (snd (handlePost e j p newId realmId rt d k s))"
    and put: "confined b T s (snd (handlePut j p realmId rt i d k s))"
    and del: "confined b T s (snd (handleDelete realmId rt i k s))" for d k
    using assms(1) ops by (auto simp: handlePost_def handlePut_def handleDelete_def confined_refl split: option.split intro!: confined_answer)
  have patch: "confined b T s (snd (handlePatch j p realmId rt i d k s))" if "bo_method x = ''PATCH''" for d k
  proof -
    have "rt = ''Users'' \<or> (b \<longrightarrow> i \<noteq> None)"
      using assms(3) that Some ri bulk_target_resource [of "bo_path x" rt i] by (auto simp: idless_group_patch_def)
    then show ?thesis
      using assms(1) ops by (auto simp: handlePatch_def confined_refl split: option.split intro!: confined_answer)
  qed
  show ?thesis unfolding processOperation_def Some ri Let_def option.case prod.case
    using post put del patch assms(1) by (auto simp: confined_refl)
qed (simp add: processOperation_def confined_refl assms(1))

lemma processBulk_confined:
  assumes "realmId \<noteq> T"
  shows "tables_ok s \<Longrightarrow> (b \<Longrightarrow> \<not> list_ex idless_group_patch xs) \<Longrightarrow> confined b T s (snd (processBulk e j p ids realmId xs s))"
proof (induction xs arbitrary: s ids)
  case (Cons x xs)
  have one: "confined b T s (snd (processOperation e j p (ids 0) realmId x s))"
    by (rule processOperation_confined) (use Cons.prems assms in auto)
  have "confined b T (snd (processOperation e j p (ids 0) realmId x s))
    (snd (processBulk e j p (\<lambda>k. ids (Suc k)) realmId xs (snd (processOperation e j p (ids 0) realmId x s))))"
    by (rule Cons.IH [OF confined_ok [OF one]]) (use Cons.prems(2) in auto)
  from confined_trans [OF one this] show ?case by (simp add: Let_def case_prod_beta)
qed (simp add: confined_refl)

definition idless_call :: "scim_call \<Rightarrow> bool" where
  "idless_call c = (case c of BulkCall xs \<Rightarrow> list_ex idless_group_patch xs | _ \<Rightarrow> False)"

lemma scim_dispatch_confined:
  assumes "tables_ok s" "realmId \<noteq> T" "b \<Longrightarrow> \<not> idless_call c"
  shows "confined b T s (snd (scim_dispatch e j p ids realmId c s))"
proof (cases c)
  case (BulkCall xs)
  obtain brs s1 where bulk: "processBulk e j p ids realmId xs s = (brs, s1)" by fastforce
  have "confined b T s (snd (processBulk e j p ids realmId xs s))"
    by (rule processBulk_confined [OF assms(2,1)]) (use assms(3) BulkCall in \<open>simp add: idless_call_def\<close>)
  with BulkCall bulk show ?thesis by (auto simp: scim_dispatch_def intro!: confined_reply)
qed (use assms scim_ops_confined [OF assms(1,2)] in \<open>auto simp: scim_dispatch_def confined_refl intro!: confined_reply\<close>)

subsection \<open>Tenants\<close>

text \<open>
  \<open>elsewhere\<close>: the request is addressed to another realm than the tenant named \<open>n\<close>, whatever token it carries; with \<open>links\<close>, it has no PATCH on
  groups without an identifier either.
\<close>

definition elsewhere :: "bool \<Rightarrow> string \<Rightarrow> scim_request \<Rightarrow> bool" where
  "elsewhere links n q \<longleftrightarrow> path_realm (rq_path q) \<noteq> n \<and> (links \<longrightarrow> \<not> idless_call (rq_call q))"

definition tenants_ok :: "ident \<Rightarrow> string \<Rightarrow> scim_state \<Rightarrow> bool" where
  "tenants_ok T n s \<longleftrightarrow> tables_ok (sc_db s) \<and> list_all (\<lambda>r. realm_id r = T \<longrightarrow> realm_name r = n) (realms (sc_db s))"

definition tenant_data ::
  "bool \<Rightarrow> ident \<Rightarrow> scim_state \<Rightarrow> (user_row list \<times> group_row list) \<times> ((ident \<times> ident) list \<times> (ident \<times> ident) list) option" where
  "tenant_data links T s = (tenant_view T (sc_db s), if links then Some (tenant_links T (sc_db s)) else None)"

lemma scim_endpoint_confined:
  assumes "tenants_ok T n s" "elsewhere b n q"
  shows "confined b T (sc_db s) (sc_db (snd (scim_endpoint j p q s)))"
proof (cases "scim_guard (rq_env q) (rq_path q) (rq_authorization q) s")
  case (Pair res s1)
  have ok: "tables_ok (sc_db s)" using assms(1) by (simp add: tenants_ok_def)
  show ?thesis
  proof (cases res)
    case (Inl err)
    have "sc_db (snd (scim_guard e path hdr s)) = sc_db s" for e path hdr
      by (auto simp: scim_guard_def Let_def note_use_def split: option.split)
    from this [of "rq_env q" "rq_path q" "rq_authorization q"] Inl Pair ok show ?thesis
      by (simp add: scim_endpoint_def confined_refl)
  next
    case (Inr rt)
    obtain r t where rt: "rt = (r, t)" by (cases rt)
    from Pair [unfolded Inr rt] have g: "r \<in> set (realms (sc_db s))" "realm_name r = path_realm (rq_path q)" "sc_db s1 = sc_db s"
      by (auto elim!: scim_guard_cases dest!: find_SomeD note_use_ok)
    with assms have "realm_id r \<noteq> T" by (auto simp: tenants_ok_def elsewhere_def list_all_iff)
    with assms(2) ok have "confined b T (sc_db s) (snd (scim_dispatch (rq_env q) j p (rq_ids q) (realm_id r) (rq_call q) (sc_db s)))"
      by (intro scim_dispatch_confined) (auto simp: elsewhere_def)
    with Pair Inr rt g(3) show ?thesis by (simp add: scim_endpoint_def case_prod_beta)
  qed
qed

interpretation tenant: confined_steps "\<lambda>q s. snd (scim_endpoint j p q s)" "elsewhere b n" "tenants_ok T n" "tenant_data b T"
  for j :: js_engine and p :: prisma_platform and b :: bool and n :: string and T :: ident
  using scim_endpoint_confined
  by unfold_locales (auto simp: tenants_ok_def tenant_data_def confined_def)


subsection \<open>Accounts stay unique\<close>

definition user_clash :: "user_row \<Rightarrow> user_row \<Rightarrow> bool" where
  "user_clash x y \<longleftrightarrow> user_realmId x = user_realmId y \<and> (user_username x = user_username y \<or> user_email x \<noteq> None \<and> user_email x = user_email y)"

lemma user_clash_sym: "user_clash x y \<Longrightarrow> user_clash y x"
  unfolding user_clash_def by metis

lemma accounts_ok_pairs:
  "accounts_ok s \<longleftrightarrow> distinct (map user_id (users s)) \<and> (\<forall>x \<in> set (users s). \<forall>y \<in> set (users s). user_clash x y \<longrightarrow> user_id x = user_id y)"
proof -
  have "distinct (map (\<lambda>u. (user_realmId u, user_username u)) us) \<longleftrightarrow>
      (\<forall>x \<in> set us. \<forall>y \<in> set us. user_realmId x = user_realmId y \<longrightarrow> user_username x = user_username y \<longrightarrow> user_id x = user_id y)"
    if "distinct (map user_id us)" for us
    using that by (auto simp: distinct_map inj_on_def)
  then show ?thesis unfolding accounts_ok_def user_clash_def same_address_def by (smt (verit) not_None_eq)
qed

lemma write_user_accounts_ok:
  assumes ok: "accounts_ok s" and u: "u \<in> set (users s)" "when_given i (user_id u)"
    and f: "user_id (f u) = user_id u" "user_realmId (f u) = user_realmId u"
  shows "accounts_ok (snd (write_user i f u s))"
proof (cases "is_ok (fst (write_user i f u s))")
  case True
  then obtain uid where i: "i = Some uid" by (cases i) (simp_all add: write_user_def)
  let ?g = "\<lambda>x. if user_id x = uid then f x else x"
  have ids: "distinct (map user_id (users s))" using ok by (simp add: accounts_ok_def)
  have one: "x = u" if "x \<in> set (users s)" "user_id x = uid" for x
    using distinct_id_eq [OF ids that(1) u(1)] that u(2) i by (simp add: when_given_def)
  have free: "\<not> user_clash (?g x) y" if "x \<in> set (users s)" "user_id x = uid" "y \<in> set (users s)" "user_id y \<noteq> uid" for x y
    using True that one [OF that(1,2)] i f by (auto simp: write_user_def list_ex_iff user_clash_def split: if_splits)
  have s': "users (snd (write_user i f u s)) = map ?g (users s)"
    using True i by (auto simp: write_user_def update_user_def tbl_update_def split: if_splits)
  have same: "user_id (?g x) = user_id x" if "x \<in> set (users s)" for x using one [OF that] f by auto
  have "user_id (?g x) = user_id (?g y)" if x: "x \<in> set (users s)" and y: "y \<in> set (users s)" and c: "user_clash (?g x) (?g y)" for x y
  proof (cases "user_id x = uid"; cases "user_id y = uid")
    assume "user_id x \<noteq> uid" "user_id y \<noteq> uid"
    then show ?thesis using c ok x y by (auto simp: accounts_ok_pairs)
  next
    assume "user_id x = uid" "user_id y = uid"
    then show ?thesis using one [OF x] one [OF y] by simp
  qed (use free [of x y] free [of y x] user_clash_sym [OF c] c x y same in auto)
  moreover have "distinct (map user_id (map ?g (users s)))" using ids same by (simp add: o_def cong: map_cong)
  ultimately show ?thesis unfolding accounts_ok_pairs s' set_map by blast
next
  case False
  then have "snd (write_user i f u s) = s" by (cases i) (auto simp: write_user_def split: if_splits)
  with ok show ?thesis by simp
qed

lemma scim_create_user_ok:
  assumes ok: "accounts_ok s"
  shows "accounts_ok (snd (scim_create_user e i realmId bd s))"
proof (cases "is_ok (fst (scim_create_user e i realmId bd s))")
  case True
  let ?u = "(new_user i realmId (the (b_userName bd)))
    \<lparr> user_email := or_null (body_email bd), user_firstName := or_null (b_givenName bd), user_lastName := or_null (b_familyName bd),
      user_federationLink := or_null (b_externalId bd), user_createdAt := now e \<rparr>"
  have free: "\<not> user_clash ?u y" if "y \<in> set (users s)" for y
    using True that by (auto simp: scim_create_user_def Let_def list_ex_iff user_clash_def when_given_def or_null_def new_user_def split: if_splits)
  have new: "i \<notin> user_id ` set (users s)" using True by (auto simp: scim_create_user_def Let_def split: if_splits)
  have s': "users (snd (scim_create_user e i realmId bd s)) = users s @ [?u]"
    using True by (auto simp: scim_create_user_def Let_def split: if_splits)
  have "distinct (map user_id (users s @ [?u]))" using ok new by (simp add: accounts_ok_def new_user_def)
  moreover have "user_id x = user_id y" if "x \<in> set (users s @ [?u])" "y \<in> set (users s @ [?u])" "user_clash x y" for x y
  proof -
    from that(1,2) have "x = ?u \<or> x \<in> set (users s)" "y = ?u \<or> y \<in> set (users s)" by (simp_all only: set_append Un_iff list.set insert_iff empty_iff) blast+
    with ok [unfolded accounts_ok_pairs] that(3) free user_clash_sym show ?thesis by metis
  qed
  ultimately show ?thesis unfolding accounts_ok_pairs s' by blast
next
  case False
  then have "snd (scim_create_user e i realmId bd s) = s" by (auto simp: scim_create_user_def Let_def split: if_splits)
  with ok show ?thesis by simp
qed

lemma accounts_ok_answer: "accounts_ok (snd m) \<Longrightarrow> accounts_ok (snd (and_then m (\<lambda>x s. (r x s, s))))"
  by (cases m; cases "fst m") auto

lemma scim_update_user_ok:
  assumes "accounts_ok s"
  shows "accounts_ok (snd (scim_update_user realmId i bd s))"
proof (cases "scim_user realmId i s")
  case (Some u)
  then have "accounts_ok (snd (write_user i (put_user bd) u s))"
    using assms scim_user_in [OF Some] by (intro write_user_accounts_ok) (auto simp: put_user_keeps)
  from accounts_ok_answer [OF this, where r = "\<lambda>_ s. Inr (toScimUser (groups_of (user_id u) s) (put_user bd u))"] assms show ?thesis
    by (simp add: scim_update_user_def Some Let_def)
qed (simp add: scim_update_user_def assms)

lemma scim_patch_user_ok:
  assumes "accounts_ok s"
  shows "accounts_ok (snd (scim_patch_user j realmId i operations s))"
proof (cases "scim_user realmId i s")
  case (Some u)
  have "accounts_ok (snd (if d = [] then (Inr (), s)
      else case patch_row d u of None \<Rightarrow> (Inl PlainError, s) | Some u' \<Rightarrow> write_user i (\<lambda>_. u') u s))" for d
  proof (cases "patch_row d u")
    case row: (Some u')
    have "accounts_ok (snd (write_user i (\<lambda>_. u') u s))"
      using scim_user_in [OF Some] patch_row_keeps [OF row] by (intro write_user_accounts_ok [OF assms]) auto
    with row assms show ?thesis by simp
  qed (simp add: assms)
  note w = accounts_ok_answer [OF this, where r = "\<lambda>_. scim_findById_user realmId i"]
  show ?thesis
  proof (cases operations)
    case ops: (Some xs)
    show ?thesis unfolding scim_patch_user_def Some ops option.case
      by (cases "patch_columns j xs []") (simp_all only: sum.case snd_conv assms w)
  qed (simp add: scim_patch_user_def Some assms)
qed (simp add: scim_patch_user_def assms)

lemma scim_delete_user_ok:
  assumes "accounts_ok s"
  shows "accounts_ok (snd (scim_delete_user realmId i s))"
  using assms update_user_ok [OF assms, of "\<lambda>u. u\<lparr> user_enabled := False \<rparr>"]
  by (auto simp: scim_delete_user_def split: option.split)

lemma addMembers_users: "users (snd (addMembers j p realmId i ms s)) = users s"
proof (induction ms arbitrary: s)
  case (Cons m ms)
  then show ?case by (cases i) (auto split: option.split)
qed simp

lemma keeps_users_and_then: "users (snd m) = users s \<Longrightarrow> (\<And>x s1. users (snd (k x s1)) = users s1) \<Longrightarrow> users (snd (and_then m k)) = users s"
  by (cases m; cases "fst m") auto

lemma patch_group_ops_users: "users (snd (patch_group_ops j p realmId i xs s)) = users s"
proof (induction xs arbitrary: s)
  case (Cons x xs)
  have "users (snd (patch_group_op j p realmId i x s)) = users s"
    by (auto simp: patch_group_op_def removeMember_def addMembers_users split: option.split jsv.split bool.split)
  with Cons.IH show ?case by (simp add: keeps_users_and_then)
qed simp

lemma group_ops_users:
  "users (snd (scim_create_group j p newId realmId bd s)) = users s"
  "users (snd (scim_update_group j p realmId i bd s)) = users s"
  "users (snd (scim_patch_group j p realmId i operations s)) = users s"
  "users (snd (scim_delete_group realmId i s)) = users s"
proof -
  show "users (snd (scim_create_group j p newId realmId bd s)) = users s"
    by (auto simp: scim_create_group_def Let_def addMembers_users intro!: keeps_users_and_then)
  show "users (snd (scim_update_group j p realmId i bd s)) = users s"
    by (auto simp: scim_update_group_def Let_def addMembers_users split: option.split intro!: keeps_users_and_then)
  show "users (snd (scim_patch_group j p realmId i operations s)) = users s"
    by (auto simp: scim_patch_group_def patch_group_ops_users split: option.split intro!: keeps_users_and_then)
  show "users (snd (scim_delete_group realmId i s)) = users s"
    by (auto simp: scim_delete_group_def Let_def split: option.split)
qed

lemmas scim_ops_accounts_ok = scim_create_user_ok scim_update_user_ok scim_patch_user_ok scim_delete_user_ok
  accounts_ok_users [OF _ group_ops_users(1)] accounts_ok_users [OF _ group_ops_users(2)]
  accounts_ok_users [OF _ group_ops_users(3)] accounts_ok_users [OF _ group_ops_users(4)]

lemma processOperation_accounts_ok:
  assumes "accounts_ok s"
  shows "accounts_ok (snd (processOperation e j p newId realmId x s))"
proof -
  note ops = scim_ops_accounts_ok [OF assms]
  have "accounts_ok (snd (handlePost e j p newId realmId rt d k s))" "accounts_ok (snd (handlePut j p realmId rt i d k s))"
    "accounts_ok (snd (handlePatch j p realmId rt i d k s))" "accounts_ok (snd (handleDelete realmId rt i k s))" for rt i d k
    using assms ops
    by (auto simp: handlePost_def handlePut_def handlePatch_def handleDelete_def split: option.split intro!: accounts_ok_answer)
  with assms show ?thesis by (auto simp: processOperation_def Let_def split: option.split prod.split)
qed

lemma processBulk_accounts_ok: "accounts_ok s \<Longrightarrow> accounts_ok (snd (processBulk e j p ids realmId xs s))"
proof (induction xs arbitrary: s ids)
  case (Cons x xs)
  from Cons.IH [OF processOperation_accounts_ok [OF Cons.prems]] show ?case by (simp add: Let_def case_prod_beta)
qed simp

lemma scim_endpoint_accounts_ok:
  assumes "accounts_ok (sc_db s)"
  shows "accounts_ok (sc_db (snd (scim_endpoint j p q s)))"
proof -
  have d: "accounts_ok (snd (scim_dispatch e j p ids realmId c (sc_db s)))" for e ids realmId c
    using assms processBulk_accounts_ok [OF assms] scim_ops_accounts_ok [OF assms]
    by (cases c) (auto simp: scim_dispatch_def reply_def case_prod_beta intro!: accounts_ok_answer)
  have "sc_db (snd (scim_guard e path hdr s)) = sc_db s" for e path hdr
    by (auto simp: scim_guard_def Let_def note_use_def split: option.split)
  then have g: "sc_db (snd (scim_guard (rq_env q) (rq_path q) (rq_authorization q) s)) = sc_db s" .
  obtain res s1 where eq: "scim_guard (rq_env q) (rq_path q) (rq_authorization q) s = (res, s1)" by fastforce
  with g d assms show ?thesis by (cases res) (auto simp: scim_endpoint_def case_prod_beta)
qed


subsection \<open>Two tenants\<close>

definition two_tenants :: scim_state where
  "two_tenants = sample_scim_state\<lparr> sc_db := two_realm_db\<lparr>
     groups := [\<lparr> group_id = ''g1'', group_realmId = ''r1'', group_name = ''staff'', group_description = None, group_parentId = None \<rparr>,
                \<lparr> group_id = ''g2'', group_realmId = ''r2'', group_name = ''staff'', group_description = None, group_parentId = None \<rparr>],
     userGroups := [(''u1'', ''g1''), (''u2'', ''g2'')] \<rparr> \<rparr>"

definition empty_body :: scim_body where
  "empty_body = \<lparr> b_userName = None, b_displayName = None, b_givenName = None, b_familyName = None, b_emails = None, b_active = None,
     b_externalId = None, b_members = None, b_operations = None \<rparr>"

definition sample_scim_request :: "scim_call \<Rightarrow> scim_request" where
  "sample_scim_request c = \<lparr> rq_env = sample_env, rq_ids = (\<lambda>k. ''n'' @ show_nat k), rq_path = ''/scim/v2/acme/Bulk'',
     rq_authorization = Some ''Bearer 0123456789'', rq_call = c \<rparr>"

definition sample_deletions :: "scim_request list" where
  "sample_deletions = [sample_scim_request (DropUser ''u1''), sample_scim_request (DropGroup ''g1''), sample_scim_request (DropUser ''u2'')]"



subsection \<open>Departures from the protocol and from the other services\<close>

text \<open>
  A bulk PATCH on \<open>/Groups\<close> with no identifier takes a user of another tenant out of that tenant's groups, by identifier alone; it answers 200.
\<close>

definition idless_removal :: scim_call where
  "idless_removal = BulkCall [\<lparr> bo_method = ''PATCH'', bo_path = ''/Groups'',
     bo_data = Some (empty_body\<lparr> b_operations := Some [\<lparr> po_op = ''remove'',
       po_path = Some (''members[value eq '' @ [CHR 0x27] @ ''u2'' @ [CHR 0x27] @ '']''), po_value = Undefined \<rparr>] \<rparr>),
     bo_bulkId = None \<rparr>]"

lemma bulk_patch_crosses_tenants:
  "fst (scim_endpoint sample_engine sample_prisma (sample_scim_request idless_removal) two_tenants)
     = Inr (BulkReply [\<lparr> br_bulkId = [], br_status = ''200'', br_operationType = ''PATCH'', br_location = Some ''/scim/v2/Groups/g1'' \<rparr>])"
  "userGroups (sc_db (snd (scim_endpoint sample_engine sample_prisma (sample_scim_request idless_removal) two_tenants))) = [(''u1'', ''g1'')]"
  by code_simp+

text \<open>A user is created enabled even when the request says that it is not active, and an external identifier marks it as federated.\<close>

lemma create_ignores_active:
  assumes "scim_create_user e i realmId bd s = (Inr v, s')"
  shows "last (users s') = (new_user i realmId (the (b_userName bd)))
    \<lparr> user_email := or_null (body_email bd), user_firstName := or_null (b_givenName bd), user_lastName := or_null (b_familyName bd),
      user_federationLink := or_null (b_externalId bd), user_createdAt := now e \<rparr>"
    "user_enabled (last (users s'))" "user_federationLink (last (users s')) = or_null (b_externalId bd)"
  using assms by (auto simp: scim_create_user_def Let_def new_user_def split: if_splits)

text \<open>
  The operations \<open>replace\<close> with a path, which is how clients deactivate a user, and with a nested name change nothing and
  succeed; a display name or a title fails.
\<close>

lemma patch_with_path_ignored:
  assumes "scim_user realmId (Some i) s = Some u"
  shows "snd (scim_patch_user j realmId (Some i) (Some [\<lparr> po_op = ''replace'', po_path = Some ''active'', po_value = Bool False \<rparr>]) s) = s"
    "is_ok (fst (scim_patch_user j realmId (Some i) (Some [\<lparr> po_op = ''replace'', po_path = Some ''active'', po_value = Bool False \<rparr>]) s))"
  using assms by (simp_all add: scim_patch_user_def scim_findById_user_def)

lemma patch_display_name_fails:
  "scim_user realmId i s = Some u \<Longrightarrow>
     scim_patch_user j realmId i (Some [\<lparr> po_op = ''replace'', po_path = None, po_value = Obj [(''displayName'', Str x)] \<rparr>]) s = (Inl PlainError, s)"
  by (simp add: scim_patch_user_def patch_entry_def patch_column_def)

text \<open>A new address keeps the mark of a verified address, and a deleted user keeps sessions and refresh tokens.\<close>

lemma put_keeps_verified: "user_emailVerified (put_user bd u) = user_emailVerified u"
  by (simp add: put_user_def)

lemma delete_keeps_sessions:
  "sessions (snd (scim_delete_user realmId i s)) = sessions s" "refreshTokens (snd (scim_delete_user realmId i s)) = refreshTokens s"
  by (auto simp: scim_delete_user_def update_user_def split: option.split)

text \<open>
  Replacing the members of a group by PATCH only adds, and removing one with the quotes of the protocol is ignored.
\<close>

lemma patch_replace_adds:
  "po_op x \<in> {''add'', ''replace''} \<Longrightarrow> set (userGroups s) \<subseteq> set (userGroups (snd (patch_group_op j p realmId i x s)))"
proof -
  have "set (userGroups s) \<subseteq> set (userGroups (snd (addMembers j p realmId i ms s)))" for ms
  proof (induction ms arbitrary: s)
    case (Cons m ms)
    show ?case
      using Cons.IH [of s] Cons.IH [of "s\<lparr> userGroups := userGroups s @ [x] \<rparr>" for x]
      by (cases i) (auto split: option.split)
  qed simp
  then show "po_op x \<in> {''add'', ''replace''} \<Longrightarrow> ?thesis" by (auto simp: patch_group_op_def split: jsv.split bool.split)
qed

lemma remove_path_quotes:
  "extractMemberValueFromPath (''members[value eq '' @ [CHR 0x22] @ ''u1'' @ [CHR 0x22] @ '']'') = None"
  "extractMemberValueFromPath (''members[value eq '' @ [CHR 0x27] @ ''u1'' @ [CHR 0x27] @ '']'') = Some ''u1''"
  by code_simp+

text \<open>A token that was made for users only manages groups all the same.\<close>

lemma scopes_not_checked:
  "scim_guard e path hdr (s\<lparr> sc_tokens := [t\<lparr> st_scopes := [] \<rparr>] \<rparr>) = (Inr (r, t'), s') \<Longrightarrow> st_scopes t' = []"
  by (auto elim!: scim_guard_cases simp: scim_token_by_hash_def split: if_splits)

end
