(* ===== verification/Proxy_Auth.thy ===== *)
theory Proxy_Auth
  imports Tokens Grant_Soundness Redirect_Uri Js_Value "HOL-Library.AList"
begin

text \<open>
  Forward authentication for reverse proxies (\<open>src/src/proxy-auth\<close>): the sessions of proxied applications and the handshake that starts them
  (\<open>proxy-auth.service.ts\<close>), the endpoints \<open>verify\<close>, \<open>start\<close>, \<open>callback\<close> and \<open>sign-out\<close> (\<open>proxy-auth.controller.ts\<close>), and the
  administration of the applications (\<open>proxy-applications.service.ts\<close> with the validation of its DTOs).  The callback redeems a code through the
  token endpoint of \<^theory_text>\<open>Auth\<close> and asks the introspection of \<^theory_text>\<open>Tokens\<close> for the user.

  \<open>proxy_platform\<close> is the JavaScript platform: the protocol and host name of an absolute URL (\<^const>\<open>None\<close> where the constructor throws), JSON
  texts, and the compact form of a signed token.
\<close>

subsection \<open>State\<close>

record proxy_app_row =
  pa_id :: ident
  pa_realmId :: ident
  pa_slug :: string
  pa_name :: string
  pa_enabled :: bool
  pa_clientId :: ident
  pa_allowedRedirectUris :: "string list"
  pa_cookieDomain :: string
  pa_cookieTtl :: int
  pa_userHeader :: string
  pa_emailHeader :: string
  pa_nameHeader :: string
  pa_groupsHeader :: string

record proxy_session_row =
  ps_applicationId :: ident
  ps_userId :: ident
  ps_tokenHash :: string
  ps_ipAddress :: "string option"
  ps_userAgent :: "string option"
  ps_expiresAt :: millis

record proxy_state =
  px_db :: db
  px_apps :: "proxy_app_row list"
  px_sessions :: "proxy_session_row list"

record proxy_platform =
  url_parts :: "string \<Rightarrow> (string \<times> string) option"
  json_stringify :: "jsv \<Rightarrow> string"
  json_parse :: "string \<Rightarrow> jsv option"
  compact :: "jwt \<Rightarrow> string"

subsection \<open>URLs\<close>

definition findBySlug :: "realm_row \<Rightarrow> string \<Rightarrow> proxy_state \<Rightarrow> proxy_app_row option" where
  "findBySlug r slug s = List.find (\<lambda>a. pa_realmId a = realm_id r \<and> pa_slug a = slug) (px_apps s)"

definition header_value :: "(string \<Rightarrow> string option) \<Rightarrow> string \<Rightarrow> string option" where
  "header_value headers name = (if falsy (headers name) then None else headers name)"

definition reconstructOriginalUrl :: "(string \<Rightarrow> string option) \<Rightarrow> string option" where
  "reconstructOriginalUrl headers =
     (case header_value headers ''x-original-url'' of
        Some original \<Rightarrow> Some original
      | None \<Rightarrow>
          (case (header_value headers ''x-forwarded-proto'', header_value headers ''x-forwarded-host'') of
             (Some proto, Some host) \<Rightarrow>
               (let uri = nullish_else (header_value headers ''x-forwarded-uri'') ''/''
                in Some (proto @ ''://'' @ host @ (if starts_with ''/'' uri then uri else ''/'' @ uri)))
           | _ \<Rightarrow> None))"

definition http_url :: "proxy_platform \<Rightarrow> string \<Rightarrow> bool" where
  "http_url p u = (case url_parts p u of None \<Rightarrow> False | Some (protocol, _) \<Rightarrow> protocol = ''http:'' \<or> protocol = ''https:'')"

definition resolveReturnUrl :: "proxy_platform \<Rightarrow> proxy_app_row \<Rightarrow> string option \<Rightarrow> string option" where
  "resolveReturnUrl p app candidate =
     (if falsy candidate then None
      else if \<not> http_url p (the candidate) then None
      else if matchesRedirectUri (the candidate) (pa_allowedRedirectUris app) then candidate else None)"

definition callbackUrl :: "env \<Rightarrow> string \<Rightarrow> string \<Rightarrow> string" where
  "callbackUrl e realmName slug =
     rev (dropWhile (\<lambda>c. c = CHR ''/'') (rev (base_url e))) @ ''/realms/'' @ realmName @ ''/proxy/'' @ slug @ ''/callback''"

definition signOutDestination :: "realm_row \<Rightarrow> proxy_app_row \<Rightarrow> string" where
  "signOutDestination r app =
     (case List.find (\<lambda>u. \<not> ends_with ''/*'' u) (pa_allowedRedirectUris app) of
        Some u \<Rightarrow> if u \<noteq> [] then u else ''/realms/'' @ realm_name r @ ''/account''
      | None \<Rightarrow>
          (case pa_allowedRedirectUris app of
             w # _ \<Rightarrow> if ends_with ''/*'' w then butlast w else ''/realms/'' @ realm_name r @ ''/account''
           | [] \<Rightarrow> ''/realms/'' @ realm_name r @ ''/account''))"

subsection \<open>The state of a handshake\<close>

definition STATE_TTL_MS :: millis where
  "STATE_TTL_MS = 10 * 60 * 1000"

definition handshake :: "ident \<Rightarrow> string \<Rightarrow> millis \<Rightarrow> jsv" where
  "handshake app url expiry = Obj [(''a'', Str app), (''r'', Str url), (''e'', Num (Fin (of_int expiry)))]"

definition encodeState :: "proxy_platform \<Rightarrow> env \<Rightarrow> proxy_app_row \<Rightarrow> string \<Rightarrow> string" where
  "encodeState p e app returnUrl = encrypt e (json_stringify p (handshake (pa_id app) returnUrl (now e + STATE_TTL_MS)))"

text \<open>
  A return address that is not a text is turned into one by the URL constructor, but not by the comparison with the patterns, which throws at the
  first pattern that ends in a wildcard.
\<close>

definition resolve_return_value :: "js_engine \<Rightarrow> proxy_platform \<Rightarrow> proxy_app_row \<Rightarrow> jsv \<Rightarrow> string option result" where
  "resolve_return_value j p app v =
     (case v of
        Str u \<Rightarrow> Inr (resolveReturnUrl p app (Some u))
      | _ \<Rightarrow>
          if truthy v \<and> js_String j v \<noteq> None \<and> http_url p (the (js_String j v)) \<and> list_ex (ends_with ''/*'') (pa_allowedRedirectUris app)
          then Inl TypeError else Inr None)"

definition decodeState :: "js_engine \<Rightarrow> proxy_platform \<Rightarrow> env \<Rightarrow> proxy_app_row \<Rightarrow> string option \<Rightarrow> string option result" where
  "decodeState j p e app raw =
     (if falsy raw then Inr None
      else case decrypt e (the raw) of
             None \<Rightarrow> Inr None
           | Some t \<Rightarrow>
               (case json_parse p t of
                  None \<Rightarrow> Inr None
                | Some st \<Rightarrow>
                    if nullish st then Inl TypeError
                    else if get_prop j st ''a'' \<noteq> Str (pa_id app) then Inr None
                    else (case get_prop j st ''e'' of
                            Num (Fin x) \<Rightarrow> if x < of_int (now e) then Inr None else resolve_return_value j p app (get_prop j st ''r'')
                          | Num (Infinity True) \<Rightarrow> resolve_return_value j p app (get_prop j st ''r'')
                          | Num NaN \<Rightarrow> resolve_return_value j p app (get_prop j st ''r'')
                          | _ \<Rightarrow> Inr None)))"

subsection \<open>Sessions\<close>

definition proxy_createSession ::
  "env \<Rightarrow> string \<Rightarrow> proxy_app_row \<Rightarrow> user_row \<Rightarrow> string option \<Rightarrow> string option \<Rightarrow> proxy_state \<Rightarrow> string result \<times> proxy_state" where
  "proxy_createSession e token app user ip userAgent s =
     (let row = \<lparr> ps_applicationId = pa_id app, ps_userId = user_id user, ps_tokenHash = sha256 e token, ps_ipAddress = ip,
                  ps_userAgent = userAgent, ps_expiresAt = now e + pa_cookieTtl app * 1000 \<rparr>
      in if list_ex (\<lambda>x. ps_tokenHash x = ps_tokenHash row) (px_sessions s) then (Inl PrismaUnique, s)
         else (Inr token, s\<lparr> px_sessions := px_sessions s @ [row] \<rparr>))"

definition proxy_session :: "env \<Rightarrow> string \<Rightarrow> proxy_state \<Rightarrow> proxy_session_row option" where
  "proxy_session e token s = List.find (\<lambda>x. ps_tokenHash x = sha256 e token) (px_sessions s)"

definition validateSession :: "env \<Rightarrow> proxy_app_row \<Rightarrow> string option \<Rightarrow> proxy_state \<Rightarrow> user_row option" where
  "validateSession e app token s =
     (if falsy token then None
      else case proxy_session e (the token) s of
             None \<Rightarrow> None
           | Some x \<Rightarrow>
               if ps_applicationId x \<noteq> pa_id app then None
               else if ps_expiresAt x < now e then None
               else (case user_by_id (ps_userId x) (px_db s) of
                       None \<Rightarrow> None
                     | Some u \<Rightarrow> if user_enabled u then Some u else None))"

definition proxy_revokeSession :: "env \<Rightarrow> string option \<Rightarrow> proxy_state \<Rightarrow> proxy_state" where
  "proxy_revokeSession e token s =
     (if falsy token then s
      else s\<lparr> px_sessions := tbl_delete (\<lambda>x. ps_tokenHash x = sha256 e (the token)) (px_sessions s) \<rparr>)"

definition deleteExpiredSessions :: "env \<Rightarrow> proxy_state \<Rightarrow> int \<times> proxy_state" where
  "deleteExpiredSessions e s =
     (tbl_count (\<lambda>x. ps_expiresAt x < now e) (px_sessions s),
      s\<lparr> px_sessions := tbl_delete (\<lambda>x. ps_expiresAt x < now e) (px_sessions s) \<rparr>)"

subsection \<open>Identity headers\<close>

definition control_char :: "char \<Rightarrow> bool" where
  "control_char c \<longleftrightarrow> (let n = of_char c :: nat in n < 32 \<or> n = 127 \<or> 128 \<le> n \<and> n \<le> 159)"

definition sanitize :: "string \<Rightarrow> string" where
  "sanitize v = js_trim (filter (\<lambda>c. \<not> control_char c) v)"

definition group_names :: "ident \<Rightarrow> db \<Rightarrow> string list" where
  "group_names uid s =
     concat (map (\<lambda>ug. if fst ug = uid then map group_name (filter (\<lambda>g. group_id g = snd ug) (groups s)) else []) (userGroups s))"

definition proxy_full_name :: "user_row \<Rightarrow> string" where
  "proxy_full_name u =
     (let n = join_with (CHR '' '') (map the (filter (\<lambda>x. \<not> falsy x) [user_firstName u, user_lastName u]))
      in if n = [] then user_username u else n)"

definition buildIdentityHeaders :: "proxy_app_row \<Rightarrow> user_row \<Rightarrow> db \<Rightarrow> (string \<times> string) list" where
  "buildIdentityHeaders app u s =
     fold (\<lambda>(k, v). AList.update k v)
       [(pa_userHeader app, sanitize (user_username u)), (pa_emailHeader app, sanitize (nullish_else (user_email u) [])),
        (pa_nameHeader app, sanitize (proxy_full_name u)), (pa_groupsHeader app, sanitize (join_with (CHR '','') (group_names (user_id u) s)))] []"

subsection \<open>Endpoints\<close>

record proxy_request =
  pq_headers :: "string \<Rightarrow> string option"
  pq_cookie :: "string option"
  pq_ip :: string

datatype proxy_answer =
    Allowed "(string \<times> string) list"
  | Unauthorized
  | ToStart string "string option"

record authorize_params =
  az_client_id :: string
  az_redirect_uri :: string
  az_response_type :: string
  az_scope :: string
  az_state :: string

definition requireApp :: "realm_row \<Rightarrow> string \<Rightarrow> proxy_state \<Rightarrow> proxy_app_row result" where
  "requireApp r slug s =
     (case findBySlug r slug s of
        None \<Rightarrow> Inl NotFoundException
      | Some app \<Rightarrow> if pa_enabled app then Inr app else Inl NotFoundException)"

definition wantsHtml :: "proxy_request \<Rightarrow> bool" where
  "wantsHtml q = (case pq_headers q ''accept'' of None \<Rightarrow> False | Some a \<Rightarrow> is_infix ''text/html'' a)"

definition verify :: "env \<Rightarrow> realm_row \<Rightarrow> string \<Rightarrow> proxy_request \<Rightarrow> proxy_state \<Rightarrow> proxy_answer result" where
  "verify e r slug q s =
     (case requireApp r slug s of
        Inl err \<Rightarrow> Inl err
      | Inr app \<Rightarrow>
          (case validateSession e app (pq_cookie q) s of
             Some u \<Rightarrow> Inr (Allowed (buildIdentityHeaders app u (px_db s)))
           | None \<Rightarrow>
               if \<not> wantsHtml q then Inr Unauthorized
               else Inr (ToStart (''/realms/'' @ realm_name r @ ''/proxy/'' @ pa_slug app @ ''/start'') (reconstructOriginalUrl (pq_headers q)))))"

definition app_client :: "proxy_app_row \<Rightarrow> proxy_state \<Rightarrow> client_row option" where
  "app_client app s = List.find (\<lambda>c. client_id c = pa_clientId app) (clients (px_db s))"

text \<open>The client of an application exists, because of the foreign key.\<close>

definition start :: "proxy_platform \<Rightarrow> env \<Rightarrow> realm_row \<Rightarrow> string \<Rightarrow> string option \<Rightarrow> proxy_request \<Rightarrow> proxy_state \<Rightarrow> authorize_params result" where
  "start p e r slug rd q s =
     (case requireApp r slug s of
        Inl err \<Rightarrow> Inl err
      | Inr app \<Rightarrow>
          (case resolveReturnUrl p app (if rd = None then reconstructOriginalUrl (pq_headers q) else rd) of
             None \<Rightarrow> Inl BadRequestException
           | Some returnUrl \<Rightarrow>
               (case app_client app s of
                  None \<Rightarrow> Inl TypeError
                | Some c \<Rightarrow>
                    Inr \<lparr> az_client_id = client_clientId c, az_redirect_uri = callbackUrl e (realm_name r) (pa_slug app),
                          az_response_type = ''code'', az_scope = ''openid profile email'', az_state = encodeState p e app returnUrl \<rparr>)))"

definition resolveUserFromAccessToken ::
  "verifier \<Rightarrow> env \<Rightarrow> bool \<Rightarrow> realm_row \<Rightarrow> string \<Rightarrow> db \<Rightarrow> user_row option \<times> db" where
  "resolveUserFromAccessToken v e dbUp r accessToken s =
     (let (info, s1) = introspect v e dbUp r accessToken s;
          sub = (case info of None \<Rightarrow> None | Some x \<Rightarrow> in_sub x)
      in (if falsy sub then None else List.find (\<lambda>u. user_id u = the sub \<and> user_realmId u = realm_id r) (users s1), s1))"

definition callback_body :: "env \<Rightarrow> realm_row \<Rightarrow> proxy_app_row \<Rightarrow> client_row \<Rightarrow> string \<Rightarrow> body" where
  "callback_body e r app c code =
     [''grant_type'' \<mapsto> ''authorization_code'', ''code'' \<mapsto> code, ''client_id'' \<mapsto> client_clientId c,
      ''redirect_uri'' \<mapsto> callbackUrl e (realm_name r) (pa_slug app)]
       (''client_secret'' := (if falsy (client_clientSecret c) then None else client_clientSecret c))"

record callback_reply =
  cb_cookie :: string
  cb_domain :: string
  cb_maxAge :: int
  cb_location :: string

definition callback ::
  "js_engine \<Rightarrow> proxy_platform \<Rightarrow> verifier \<Rightarrow> env \<Rightarrow> bool \<Rightarrow> token_draws \<Rightarrow> string \<Rightarrow> realm_row \<Rightarrow> string \<Rightarrow> string option \<Rightarrow> string option \<Rightarrow>
   proxy_request \<Rightarrow> proxy_state \<Rightarrow> callback_reply result \<times> proxy_state" where
  "callback j p v e dbUp d token r slug code state q s =
     (case requireApp r slug s of
        Inl err \<Rightarrow> (Inl err, s)
      | Inr app \<Rightarrow>
          (case decodeState j p e app state of
             Inl err \<Rightarrow> (Inl err, s)
           | Inr None \<Rightarrow> (Inl BadRequestException, s)
           | Inr (Some returnUrl) \<Rightarrow>
               if falsy code then (Inl BadRequestException, s)
               else case app_client app s of
                 None \<Rightarrow> (Inl TypeError, s)
               | Some c \<Rightarrow>
                   (case handleTokenRequest e d r (callback_body e r app c (the code)) (Some (pq_ip q)) (pq_headers q ''user-agent'') (px_db s) of
                      (Inl err, s1) \<Rightarrow> (Inl err, s\<lparr> px_db := s1 \<rparr>)
                    | (Inr tokens, s1) \<Rightarrow>
                        (case resolveUserFromAccessToken v e dbUp r (compact p (tr_access_token tokens)) s1 of
                           (None, s2) \<Rightarrow> (Inl BadRequestException, s\<lparr> px_db := s2 \<rparr>)
                         | (Some user, s2) \<Rightarrow>
                             and_then (proxy_createSession e token app user (Some (pq_ip q)) (pq_headers q ''user-agent'') (s\<lparr> px_db := s2 \<rparr>))
                               (\<lambda>t s. (Inr \<lparr> cb_cookie = t, cb_domain = pa_cookieDomain app, cb_maxAge = pa_cookieTtl app * 1000,
                                             cb_location = returnUrl \<rparr>, s))))))"

definition signOut :: "env \<Rightarrow> realm_row \<Rightarrow> string \<Rightarrow> proxy_request \<Rightarrow> proxy_state \<Rightarrow> string result \<times> proxy_state" where
  "signOut e r slug q s =
     (case requireApp r slug s of
        Inl err \<Rightarrow> (Inl err, s)
      | Inr app \<Rightarrow> (Inr (signOutDestination r app), proxy_revokeSession e (pq_cookie q) s))"

subsection \<open>Administration of applications\<close>

definition MAX_COOKIE_TTL_SECONDS :: int where
  "MAX_COOKIE_TTL_SECONDS = 86400"

record proxy_app_dto =
  pd_slug :: string
  pd_name :: string
  pd_clientId :: string
  pd_allowedRedirectUris :: "string list"
  pd_cookieDomain :: string
  pd_cookieTtl :: "int option"
  pd_enabled :: "bool option"
  pd_userHeader :: "string option"
  pd_emailHeader :: "string option"
  pd_nameHeader :: "string option"
  pd_groupsHeader :: "string option"

record proxy_app_patch =
  pp_name :: "string option"
  pp_clientId :: "string option"
  pp_allowedRedirectUris :: "string list option"
  pp_cookieDomain :: "string option"
  pp_cookieTtl :: "int option"
  pp_enabled :: "bool option"
  pp_userHeader :: "string option"
  pp_emailHeader :: "string option"
  pp_nameHeader :: "string option"
  pp_groupsHeader :: "string option"

definition lower_or_digit :: "char \<Rightarrow> bool" where
  "lower_or_digit c \<longleftrightarrow> (let n = of_char c :: nat in 97 \<le> n \<and> n \<le> 122 \<or> 48 \<le> n \<and> n \<le> 57)"

definition header_char :: "char \<Rightarrow> bool" where
  "header_char c \<longleftrightarrow> lower_or_digit c \<or> (let n = of_char c :: nat in 65 \<le> n \<and> n \<le> 90) \<or> c = CHR ''-''"

definition header_name_ok :: "string option \<Rightarrow> bool" where
  "header_name_ok h = (case h of None \<Rightarrow> True | Some n \<Rightarrow> n \<noteq> [] \<and> list_all header_char n)"

definition slug_ok :: "string \<Rightarrow> bool" where
  "slug_ok slug \<longleftrightarrow> slug \<noteq> [] \<and> lower_or_digit (hd slug) \<and> list_all (\<lambda>c. lower_or_digit c \<or> c = CHR ''-'') slug"

definition ttl_ok :: "int option \<Rightarrow> bool" where
  "ttl_ok t = (case t of None \<Rightarrow> True | Some x \<Rightarrow> 60 \<le> x \<and> x \<le> MAX_COOKIE_TTL_SECONDS)"

definition valid_create_dto :: "proxy_app_dto \<Rightarrow> bool" where
  "valid_create_dto dto \<longleftrightarrow> slug_ok (pd_slug dto) \<and> pd_name dto \<noteq> [] \<and> pd_clientId dto \<noteq> [] \<and> pd_cookieDomain dto \<noteq> []
     \<and> ttl_ok (pd_cookieTtl dto) \<and> header_name_ok (pd_userHeader dto) \<and> header_name_ok (pd_emailHeader dto)
     \<and> header_name_ok (pd_nameHeader dto) \<and> header_name_ok (pd_groupsHeader dto)"

definition valid_update_dto :: "proxy_app_patch \<Rightarrow> bool" where
  "valid_update_dto dto \<longleftrightarrow> pp_name dto \<noteq> Some [] \<and> pp_clientId dto \<noteq> Some [] \<and> pp_cookieDomain dto \<noteq> Some []
     \<and> ttl_ok (pp_cookieTtl dto) \<and> header_name_ok (pp_userHeader dto) \<and> header_name_ok (pp_emailHeader dto)
     \<and> header_name_ok (pp_nameHeader dto) \<and> header_name_ok (pp_groupsHeader dto)"

definition uri_host :: "proxy_platform \<Rightarrow> string \<Rightarrow> string option" where
  "uri_host p uri = map_option snd (url_parts p (if ends_with ''/*'' uri then butlast uri else uri))"

definition assertCookieDomainCovers :: "proxy_platform \<Rightarrow> string \<Rightarrow> string list \<Rightarrow> unit result" where
  "assertCookieDomainCovers p cookieDomain uris =
     (let domain = (if starts_with ''.'' cookieDomain then drop 1 cookieDomain else cookieDomain)
      in if list_all (\<lambda>uri. case uri_host p uri of
                              None \<Rightarrow> False
                            | Some host \<Rightarrow> host = domain \<or> ends_with (''.'' @ domain) host) uris
         then Inr () else Inl BadRequestException)"

record proxy_app_view =
  pv_application :: proxy_app_row
  pv_callbackUrl :: string
  pv_callbackRegistered :: bool

definition toView :: "env \<Rightarrow> realm_row \<Rightarrow> proxy_app_row \<Rightarrow> string list \<Rightarrow> proxy_app_view" where
  "toView e r app redirectUris =
     (let u = callbackUrl e (realm_name r) (pa_slug app)
      in \<lparr> pv_application = app, pv_callbackUrl = u, pv_callbackRegistered = (u \<in> set redirectUris) \<rparr>)"

definition create_proxy_app ::
  "proxy_platform \<Rightarrow> env \<Rightarrow> ident \<Rightarrow> realm_row \<Rightarrow> proxy_app_dto \<Rightarrow> proxy_state \<Rightarrow> proxy_app_view result \<times> proxy_state" where
  "create_proxy_app p e newId r dto s =
     (if \<not> valid_create_dto dto then (Inl BadRequestException, s)
      else case client_by_clientId (realm_id r) (pd_clientId dto) (px_db s) of
             None \<Rightarrow> (Inl NotFoundException, s)
           | Some c \<Rightarrow>
               (case assertCookieDomainCovers p (pd_cookieDomain dto) (pd_allowedRedirectUris dto) of
                  Inl err \<Rightarrow> (Inl err, s)
                | Inr _ \<Rightarrow>
                    if list_ex (\<lambda>a. pa_id a = newId \<or> pa_realmId a = realm_id r \<and> pa_slug a = pd_slug dto) (px_apps s)
                    then (Inl ConflictException, s)
                    else let app = \<lparr> pa_id = newId, pa_realmId = realm_id r, pa_slug = pd_slug dto, pa_name = pd_name dto,
                                     pa_enabled = nullish_else (pd_enabled dto) True, pa_clientId = client_id c,
                                     pa_allowedRedirectUris = pd_allowedRedirectUris dto, pa_cookieDomain = pd_cookieDomain dto,
                                     pa_cookieTtl = nullish_else (pd_cookieTtl dto) 28800,
                                     pa_userHeader = nullish_else (pd_userHeader dto) ''X-Forwarded-User'',
                                     pa_emailHeader = nullish_else (pd_emailHeader dto) ''X-Forwarded-Email'',
                                     pa_nameHeader = nullish_else (pd_nameHeader dto) ''X-Forwarded-Preferred-Username'',
                                     pa_groupsHeader = nullish_else (pd_groupsHeader dto) ''X-Forwarded-Groups'' \<rparr>
                         in (Inr (toView e r app (client_redirectUris c)), s\<lparr> px_apps := px_apps s @ [app] \<rparr>)))"

definition findAll_proxy_apps :: "(string \<Rightarrow> nat) \<Rightarrow> env \<Rightarrow> realm_row \<Rightarrow> proxy_state \<Rightarrow> proxy_app_view list" where
  "findAll_proxy_apps rank e r s =
     map (\<lambda>a. toView e r a (case app_client a s of None \<Rightarrow> [] | Some c \<Rightarrow> client_redirectUris c))
       (sort_key (\<lambda>a. rank (pa_slug a)) (filter (\<lambda>a. pa_realmId a = realm_id r) (px_apps s)))"

definition findOne_proxy_app :: "env \<Rightarrow> realm_row \<Rightarrow> string \<Rightarrow> proxy_state \<Rightarrow> proxy_app_view result" where
  "findOne_proxy_app e r slug s =
     (case findBySlug r slug s of
        None \<Rightarrow> Inl NotFoundException
      | Some a \<Rightarrow> Inr (toView e r a (case app_client a s of None \<Rightarrow> [] | Some c \<Rightarrow> client_redirectUris c)))"

definition patched_app :: "proxy_app_patch \<Rightarrow> ident option \<Rightarrow> proxy_app_row \<Rightarrow> proxy_app_row" where
  "patched_app dto clientDbId a =
     a\<lparr> pa_clientId := (if falsy clientDbId then pa_clientId a else the clientDbId), pa_name := nullish_else (pp_name dto) (pa_name a),
        pa_enabled := nullish_else (pp_enabled dto) (pa_enabled a), pa_cookieTtl := nullish_else (pp_cookieTtl dto) (pa_cookieTtl a),
        pa_cookieDomain := nullish_else (pp_cookieDomain dto) (pa_cookieDomain a),
        pa_allowedRedirectUris := nullish_else (pp_allowedRedirectUris dto) (pa_allowedRedirectUris a),
        pa_userHeader := nullish_else (pp_userHeader dto) (pa_userHeader a),
        pa_emailHeader := nullish_else (pp_emailHeader dto) (pa_emailHeader a),
        pa_nameHeader := nullish_else (pp_nameHeader dto) (pa_nameHeader a),
        pa_groupsHeader := nullish_else (pp_groupsHeader dto) (pa_groupsHeader a) \<rparr>"

definition update_proxy_app ::
  "proxy_platform \<Rightarrow> env \<Rightarrow> realm_row \<Rightarrow> string \<Rightarrow> proxy_app_patch \<Rightarrow> proxy_state \<Rightarrow> proxy_app_view result \<times> proxy_state" where
  "update_proxy_app p e r slug dto s =
     (if \<not> valid_update_dto dto then (Inl BadRequestException, s)
      else case findBySlug r slug s of
             None \<Rightarrow> (Inl NotFoundException, s)
           | Some existing \<Rightarrow>
               (case assertCookieDomainCovers p (nullish_else (pp_cookieDomain dto) (pa_cookieDomain existing))
                       (nullish_else (pp_allowedRedirectUris dto) (pa_allowedRedirectUris existing)) of
                  Inl err \<Rightarrow> (Inl err, s)
                | Inr _ \<Rightarrow>
                    let write = (\<lambda>cid uris.
                          (Inr (toView e r (patched_app dto cid existing) uris),
                           s\<lparr> px_apps := tbl_update (\<lambda>a. pa_id a = pa_id existing) (patched_app dto cid) (px_apps s) \<rparr>))
                    in if \<not> falsy (pp_clientId dto)
                       then (case client_by_clientId (realm_id r) (the (pp_clientId dto)) (px_db s) of
                               None \<Rightarrow> (Inl NotFoundException, s)
                             | Some c \<Rightarrow> write (Some (client_id c)) (client_redirectUris c))
                       else write None (case app_client existing s of None \<Rightarrow> [] | Some c \<Rightarrow> client_redirectUris c)))"

text \<open>The sessions of an application go with it, by the foreign key.\<close>

definition remove_proxy_app :: "realm_row \<Rightarrow> string \<Rightarrow> proxy_state \<Rightarrow> unit result \<times> proxy_state" where
  "remove_proxy_app r slug s =
     (case findBySlug r slug s of
        None \<Rightarrow> (Inl NotFoundException, s)
      | Some a \<Rightarrow> (Inr (), s\<lparr> px_apps := tbl_delete (\<lambda>x. pa_id x = pa_id a) (px_apps s),
                                px_sessions := tbl_delete (\<lambda>x. ps_applicationId x = pa_id a) (px_sessions s) \<rparr>))"

definition revoke_proxy_sessions :: "realm_row \<Rightarrow> string \<Rightarrow> proxy_state \<Rightarrow> int result \<times> proxy_state" where
  "revoke_proxy_sessions r slug s =
     (case findBySlug r slug s of
        None \<Rightarrow> (Inl NotFoundException, s)
      | Some a \<Rightarrow> (Inr (tbl_count (\<lambda>x. ps_applicationId x = pa_id a) (px_sessions s)),
                      s\<lparr> px_sessions := tbl_delete (\<lambda>x. ps_applicationId x = pa_id a) (px_sessions s) \<rparr>))"

subsection \<open>Identity headers are safe\<close>

lemma js_trim_set: "set (js_trim v) \<subseteq> set v"
  by (auto simp: js_trim_def dest!: set_dropWhileD)

lemma sanitize_clean: "c \<in> set (sanitize v) \<Longrightarrow> \<not> control_char c"
  using js_trim_set [of "filter (\<lambda>c. \<not> control_char c) v"] by (auto simp: sanitize_def)

lemma update_values: "snd ` set (AList.update k v xs) \<subseteq> insert v (snd ` set xs)"
  by (induction xs) auto

lemma fold_update_keys:
  "fst ` set (fold (\<lambda>(k, v). AList.update k v) new old) = fst ` set old \<union> fst ` set new"
proof (induction new arbitrary: old)
  case (Cons kv new)
  then show ?case by (cases kv) (simp add: dom_update Un_commute)
qed simp

lemma fold_update_values:
  "snd ` set (fold (\<lambda>(k, v). AList.update k v) new old) \<subseteq> snd ` set old \<union> snd ` set new"
proof (induction new arbitrary: old)
  case (Cons kv new)
  obtain k v where kv: "kv = (k, v)" by (cases kv)
  have "snd ` set (fold (\<lambda>(k, v). AList.update k v) (kv # new) old) \<subseteq> snd ` set (AList.update k v old) \<union> snd ` set new"
    using Cons.IH [of "AList.update k v old"] by (simp add: kv)
  also have "\<dots> \<subseteq> insert v (snd ` set old) \<union> snd ` set new" using update_values [of k v old] by blast
  finally show ?case by (simp add: kv)
qed simp

text \<open>
  Every configured header is set, so that no value a client sent under that name survives, and no value has a
  control character that would end the header.
\<close>

theorem identity_headers_safe:
  "fst ` set (buildIdentityHeaders app u s) = {pa_userHeader app, pa_emailHeader app, pa_nameHeader app, pa_groupsHeader app}
   \<and> (\<forall>k v. (k, v) \<in> set (buildIdentityHeaders app u s) \<longrightarrow> list_all (\<lambda>c. \<not> control_char c) v)"
proof (intro conjI allI impI)
  show "fst ` set (buildIdentityHeaders app u s) = {pa_userHeader app, pa_emailHeader app, pa_nameHeader app, pa_groupsHeader app}"
    unfolding buildIdentityHeaders_def fold_update_keys by auto
  fix k v assume "(k, v) \<in> set (buildIdentityHeaders app u s)"
  then have "v \<in> snd ` set (buildIdentityHeaders app u s)" by force
  then obtain w where "v = sanitize w"
    using fold_update_values [of "[(pa_userHeader app, sanitize (user_username u)), (pa_emailHeader app, sanitize (nullish_else (user_email u) [])),
        (pa_nameHeader app, sanitize (proxy_full_name u)), (pa_groupsHeader app, sanitize (join_with (CHR '','') (group_names (user_id u) s)))]" "[]"]
    unfolding buildIdentityHeaders_def by auto
  then show "list_all (\<lambda>c. \<not> control_char c) v" using sanitize_clean by (auto simp: list_all_iff)
qed

subsection \<open>What a finished handshake proves\<close>

lemma requireApp_ok:
  "requireApp r slug s = Inr app \<Longrightarrow> app \<in> set (px_apps s) \<and> pa_enabled app \<and> pa_realmId app = realm_id r \<and> pa_slug app = slug"
  by (auto simp: requireApp_def findBySlug_def split: option.splits if_splits dest: find_SomeD)

lemma resolveReturnUrl_ok:
  "resolveReturnUrl p app c = Some u \<Longrightarrow> c = Some u \<and> u \<noteq> [] \<and> http_url p u \<and> matchesRedirectUri u (pa_allowedRedirectUris app)"
  by (cases c) (auto simp: resolveReturnUrl_def falsy_def split: if_splits)

lemma resolve_return_value_ok:
  "resolve_return_value j p app v = Inr (Some u) \<Longrightarrow>
     v = Str u \<and> u \<noteq> [] \<and> http_url p u \<and> matchesRedirectUri u (pa_allowedRedirectUris app)"
  by (cases v) (auto simp: resolve_return_value_def dest: resolveReturnUrl_ok split: if_splits)

lemma decodeState_ok:
  assumes "decodeState j p e app raw = Inr (Some u)"
  shows "u \<noteq> [] \<and> http_url p u \<and> matchesRedirectUri u (pa_allowedRedirectUris app)"
    "\<exists>c t st. raw = Some c \<and> decrypt e c = Some t \<and> json_parse p t = Some st \<and> get_prop j st ''a'' = Str (pa_id app) \<and> get_prop j st ''r'' = Str u"
  using assms
  by (auto simp: decodeState_def falsy_def dest!: resolve_return_value_ok
      split: if_splits option.splits jsv.splits jsnum.splits bool.splits)

lemma callback_cases:
  assumes "callback j p v e dbUp d token r slug code state q s = (Inr reply, s')"
  obtains app returnUrl c tokens s1 user s2 cd where "requireApp r slug s = Inr app" "decodeState j p e app state = Inr (Some returnUrl)"
    "code = Some cd" "app_client app s = Some c"
    "handleTokenRequest e d r (callback_body e r app c cd) (Some (pq_ip q)) (pq_headers q ''user-agent'') (px_db s) = (Inr tokens, s1)"
    "resolveUserFromAccessToken v e dbUp r (compact p (tr_access_token tokens)) s1 = (Some user, s2)"
    "px_db s' = s2" "px_apps s' = px_apps s"
    "px_sessions s' = px_sessions s @ [\<lparr> ps_applicationId = pa_id app, ps_userId = user_id user, ps_tokenHash = sha256 e token,
       ps_ipAddress = Some (pq_ip q), ps_userAgent = pq_headers q ''user-agent'', ps_expiresAt = now e + pa_cookieTtl app * 1000 \<rparr>]"
    "reply = \<lparr> cb_cookie = token, cb_domain = pa_cookieDomain app, cb_maxAge = pa_cookieTtl app * 1000, cb_location = returnUrl \<rparr>"
proof -
  from assms obtain app where app: "requireApp r slug s = Inr app" by (cases "requireApp r slug s") (auto simp: callback_def)
  from assms app obtain u where u: "decodeState j p e app state = Inr (Some u)"
    by (auto simp: callback_def split: sum.splits option.splits)
  from assms app u obtain cd where cd: "code = Some cd" by (cases code) (auto simp: callback_def falsy_def)
  from assms app u cd obtain c where c: "app_client app s = Some c"
    by (cases "app_client app s") (auto simp: callback_def split: if_splits)
  obtain res s1 where h: "handleTokenRequest e d r (callback_body e r app c cd) (Some (pq_ip q)) (pq_headers q ''user-agent'') (px_db s) = (res, s1)"
    by fastforce
  from assms app u cd c h obtain tokens where res: "res = Inr tokens" by (cases res) (auto simp: callback_def split: if_splits)
  obtain ou s2 where ru: "resolveUserFromAccessToken v e dbUp r (compact p (tr_access_token tokens)) s1 = (ou, s2)" by fastforce
  from assms app u cd c h res ru obtain user where ou: "ou = Some user" by (cases ou) (auto simp: callback_def split: if_splits)
  have last: "and_then (proxy_createSession e token app user (Some (pq_ip q)) (pq_headers q ''user-agent'') (s\<lparr> px_db := s2 \<rparr>))
      (\<lambda>t s. (Inr \<lparr> cb_cookie = t, cb_domain = pa_cookieDomain app, cb_maxAge = pa_cookieTtl app * 1000, cb_location = u \<rparr>, s)) = (Inr reply, s')"
    using assms app u cd c h res ru ou by (simp add: callback_def split: if_splits)
  then show thesis
    using app u cd c h res ru ou
    by (intro that [of app u cd c tokens s1 user s2])
      (auto simp: proxy_createSession_def Let_def elim!: and_then_okE split: if_splits)
qed

lemma resolve_user_ok:
  assumes "resolveUserFromAccessToken v e dbUp r token s = (Some u, s')"
  shows "u \<in> set (users s') \<and> user_realmId u = realm_id r"
  using assms by (auto simp: resolveUserFromAccessToken_def Let_def case_prod_beta split: if_splits dest!: find_SomeD)

subsection \<open>Runs\<close>

record callback_args =
  ca_verifier :: verifier
  ca_env :: env
  ca_dbUp :: bool
  ca_draws :: token_draws
  ca_token :: string
  ca_realm :: realm_row
  ca_slug :: string
  ca_code :: "string option"
  ca_state :: "string option"
  ca_request :: proxy_request

definition run_callback :: "js_engine \<Rightarrow> proxy_platform \<Rightarrow> callback_args \<Rightarrow> proxy_state \<Rightarrow> callback_reply result \<times> proxy_state" where
  "run_callback j p a s =
     callback j p (ca_verifier a) (ca_env a) (ca_dbUp a) (ca_draws a) (ca_token a) (ca_realm a) (ca_slug a) (ca_code a) (ca_state a) (ca_request a) s"

text \<open>\<open>Elsewhere\<close> is whatever the rest of the server does to the database.\<close>

datatype proxy_event =
    Callback callback_args
  | SignOut env realm_row string proxy_request
  | Sweep env
  | CreateApp env ident realm_row proxy_app_dto
  | UpdateApp env realm_row string proxy_app_patch
  | RemoveApp realm_row string
  | RevokeSessions realm_row string
  | Elsewhere "db \<Rightarrow> db"

fun proxy_step :: "js_engine \<Rightarrow> proxy_platform \<Rightarrow> proxy_event \<Rightarrow> proxy_state \<Rightarrow> proxy_state" where
  "proxy_step j p (Callback a) s = snd (run_callback j p a s)"
| "proxy_step j p (SignOut e r slug q) s = snd (signOut e r slug q s)"
| "proxy_step j p (Sweep e) s = snd (deleteExpiredSessions e s)"
| "proxy_step j p (CreateApp e i r dto) s = snd (create_proxy_app p e i r dto s)"
| "proxy_step j p (UpdateApp e r slug dto) s = snd (update_proxy_app p e r slug dto s)"
| "proxy_step j p (RemoveApp r slug) s = snd (remove_proxy_app r slug s)"
| "proxy_step j p (RevokeSessions r slug) s = snd (revoke_proxy_sessions r slug s)"
| "proxy_step j p (Elsewhere f) s = s\<lparr> px_db := f (px_db s) \<rparr>"

lemma callback_error_sessions:
  "fst (run_callback j p a s) = Inl err \<Longrightarrow> px_sessions (snd (run_callback j p a s)) = px_sessions s \<and> px_apps (snd (run_callback j p a s)) = px_apps s"
  by (auto simp: run_callback_def callback_def proxy_createSession_def Let_def and_then_def
      split: sum.splits option.splits prod.splits if_splits)

lemma step_sessions:
  assumes "x \<in> set (px_sessions (proxy_step j p ev s))"
  shows "x \<in> set (px_sessions s) \<or>
    (\<exists>a reply s'. ev = Callback a \<and> run_callback j p a s = (Inr reply, s') \<and> px_sessions s' = px_sessions s @ [x])"
proof (cases ev)
  case (Callback a)
  obtain res s' where run: "run_callback j p a s = (res, s')" by fastforce
  show ?thesis
  proof (cases res)
    case (Inl err)
    with assms Callback run callback_error_sessions [of j p a s err] show ?thesis by simp
  next
    case (Inr reply)
    with run have "callback j p (ca_verifier a) (ca_env a) (ca_dbUp a) (ca_draws a) (ca_token a) (ca_realm a) (ca_slug a) (ca_code a)
        (ca_state a) (ca_request a) s = (Inr reply, s')" by (simp add: run_callback_def)
    then obtain y where "px_sessions s' = px_sessions s @ [y]" by (elim callback_cases) blast
    with assms Callback run Inr show ?thesis by auto
  qed
qed (use assms in \<open>auto simp: signOut_def proxy_revokeSession_def deleteExpiredSessions_def create_proxy_app_def update_proxy_app_def
      remove_proxy_app_def revoke_proxy_sessions_def Let_def split: sum.splits option.splits if_splits\<close>)

definition app_ttl_ok :: "proxy_app_row \<Rightarrow> bool" where
  "app_ttl_ok a \<longleftrightarrow> 60 \<le> pa_cookieTtl a \<and> pa_cookieTtl a \<le> MAX_COOKIE_TTL_SECONDS"

lemma step_apps_ok:
  assumes "list_all app_ttl_ok (px_apps s)"
  shows "list_all app_ttl_ok (px_apps (proxy_step j p ev s))"
proof (cases ev)
  case (Callback a)
  obtain res s' where run: "run_callback j p a s = (res, s')" by fastforce
  have "px_apps s' = px_apps s"
  proof (cases res)
    case (Inl err)
    with run callback_error_sessions [of j p a s err] show ?thesis by simp
  next
    case (Inr reply)
    with run show ?thesis unfolding run_callback_def by (auto elim!: callback_cases)
  qed
  with assms Callback run show ?thesis by simp
next
  case (CreateApp e i r dto)
  then show ?thesis using assms
    by (auto simp: create_proxy_app_def Let_def valid_create_dto_def ttl_ok_def app_ttl_ok_def nullish_else_def MAX_COOKIE_TTL_SECONDS_def
        split: sum.splits option.splits)
next
  case (UpdateApp e r slug dto)
  have "app_ttl_ok a \<Longrightarrow> valid_update_dto dto \<Longrightarrow> app_ttl_ok (patched_app dto cid a)" for cid a
    by (auto simp: valid_update_dto_def ttl_ok_def app_ttl_ok_def patched_app_def nullish_else_def split: option.splits)
  with UpdateApp assms show ?thesis
    by (auto simp: update_proxy_app_def Let_def list_all_iff tbl_update_def split: sum.splits option.splits)
qed (use assms in \<open>auto simp: signOut_def proxy_revokeSession_def deleteExpiredSessions_def remove_proxy_app_def revoke_proxy_sessions_def
      list_all_iff tbl_delete_def split: sum.splits option.splits\<close>)

lemma run_apps_ok: "list_all app_ttl_ok (px_apps s) \<Longrightarrow> list_all app_ttl_ok (px_apps (fold (proxy_step j p) es s))"
  by (induction es arbitrary: s) (simp_all add: step_apps_ok)

lemma session_origin:
  assumes "x \<in> set (px_sessions (fold (proxy_step j p) es s0))" "px_sessions s0 = []"
  obtains pre a post reply s' where "es = pre @ Callback a # post" "run_callback j p a (fold (proxy_step j p) pre s0) = (Inr reply, s')"
    "px_sessions s' = px_sessions (fold (proxy_step j p) pre s0) @ [x]"
  using assms(1)
proof (induction es arbitrary: thesis rule: rev_induct)
  case Nil
  then show ?case using assms(2) by simp
next
  case (snoc ev es)
  let ?s = "fold (proxy_step j p) es s0"
  have "x \<in> set (px_sessions (proxy_step j p ev ?s))" using snoc.prems(2) by simp
  from step_sessions [OF this] show ?case
  proof
    assume "x \<in> set (px_sessions ?s)"
    then show ?thesis using snoc.IH snoc.prems(1) by (metis append_Cons append_assoc)
  next
    assume "\<exists>a reply s'. ev = Callback a \<and> run_callback j p a ?s = (Inr reply, s') \<and> px_sessions s' = px_sessions ?s @ [x]"
    then show ?thesis using snoc.prems(1) [of es _ "[]"] by auto
  qed
qed

text \<open>
  C17.  A reverse proxy is told to let a request through only for a cookie whose session was started, at most a day before, by a finished
  handshake of the same application: the return address it redirects to is one of the application's, the code was redeemed at the token
  endpoint with the client of the application, and the session is for the user of the token it issued, who is in
  the realm and still enabled.  Sessions of other applications, revoked and removed ones do not count.
\<close>

theorem proxy_access_sound:
  assumes "px_sessions s0 = []" "px_apps s0 = []" "s = fold (proxy_step j p) es s0"
    and "verify e r slug q s = Inr (Allowed hs)"
  shows "\<exists>app u pre a post reply s1 app1 c cd tokens d1 d2 user.
    requireApp r slug s = Inr app \<and> pq_cookie q \<noteq> None \<and> u \<in> set (users (px_db s)) \<and> user_enabled u
    \<and> hs = buildIdentityHeaders app u (px_db s)
    \<and> es = pre @ Callback a # post \<and> run_callback j p a (fold (proxy_step j p) pre s0) = (Inr reply, s1)
    \<and> sha256 (ca_env a) (cb_cookie reply) = sha256 e (the (pq_cookie q)) \<and> now e \<le> now (ca_env a) + 86400000
    \<and> requireApp (ca_realm a) (ca_slug a) (fold (proxy_step j p) pre s0) = Inr app1 \<and> pa_id app1 = pa_id app
    \<and> http_url p (cb_location reply) \<and> matchesRedirectUri (cb_location reply) (pa_allowedRedirectUris app1)
    \<and> app_client app1 (fold (proxy_step j p) pre s0) = Some c \<and> ca_code a = Some cd
    \<and> handleTokenRequest (ca_env a) (ca_draws a) (ca_realm a) (callback_body (ca_env a) (ca_realm a) app1 c cd) (Some (pq_ip (ca_request a)))
        (pq_headers (ca_request a) ''user-agent'') (px_db (fold (proxy_step j p) pre s0)) = (Inr tokens, d1)
    \<and> resolveUserFromAccessToken (ca_verifier a) (ca_env a) (ca_dbUp a) (ca_realm a) (compact p (tr_access_token tokens)) d1 = (Some user, d2)
    \<and> user_realmId user = realm_id (ca_realm a) \<and> user_id u = user_id user"
proof -
  from assms(4) obtain app u where app: "requireApp r slug s = Inr app" "validateSession e app (pq_cookie q) s = Some u"
    "hs = buildIdentityHeaders app u (px_db s)"
    by (auto simp: verify_def split: sum.splits option.splits if_splits)
  from app(2) obtain x token where x: "pq_cookie q = Some token" "proxy_session e token s = Some x" "ps_applicationId x = pa_id app"
    "now e \<le> ps_expiresAt x" "user_by_id (ps_userId x) (px_db s) = Some u" "user_enabled u"
    by (cases "pq_cookie q") (auto simp: validateSession_def falsy_def split: option.splits if_splits)
  from x(2) have xs: "x \<in> set (px_sessions s)" "ps_tokenHash x = sha256 e token" by (auto simp: proxy_session_def dest: find_SomeD)
  from session_origin [OF xs(1) [unfolded assms(3)] assms(1)] obtain pre a post reply s1 where
    o: "es = pre @ Callback a # post" "run_callback j p a (fold (proxy_step j p) pre s0) = (Inr reply, s1)"
      "px_sessions s1 = px_sessions (fold (proxy_step j p) pre s0) @ [x]" .
  let ?s = "fold (proxy_step j p) pre s0"
  have ttl: "list_all app_ttl_ok (px_apps ?s)" by (rule run_apps_ok) (simp add: assms(2))
  from o(2) [unfolded run_callback_def] show ?thesis
  proof (cases rule: callback_cases)
    case (1 app1 returnUrl c tokens d1 user d2 cd)
    then have row: "ps_applicationId x = pa_id app1" "ps_userId x = user_id user" "ps_tokenHash x = sha256 (ca_env a) (ca_token a)"
      "ps_expiresAt x = now (ca_env a) + pa_cookieTtl app1 * 1000" using o(3) by auto
    have "pa_cookieTtl app1 \<le> MAX_COOKIE_TTL_SECONDS" using ttl requireApp_ok [OF 1(1)] by (auto simp: list_all_iff app_ttl_ok_def)
    then have "now e \<le> now (ca_env a) + 86400000" using x(4) row(4) by (simp add: MAX_COOKIE_TTL_SECONDS_def)
    moreover have "u \<in> set (users (px_db s))" "user_id u = user_id user" using user_by_id_in [OF x(5)] row(2) by auto
    moreover have "sha256 (ca_env a) (cb_cookie reply) = sha256 e (the (pq_cookie q))" "cb_location reply = returnUrl"
      using 1(10) row(3) xs(2) x(1) by auto
    ultimately show ?thesis
      using app x(1,3,6) o(1,2) row(1) 1(1,3,4,5,6) decodeState_ok(1) [OF 1(2)] resolve_user_ok [OF 1(6)]
      by (intro exI [of _ app] exI [of _ u] exI [of _ pre] exI [of _ a] exI [of _ post] exI [of _ reply] exI [of _ s1] exI [of _ app1]
          exI [of _ c] exI [of _ cd] exI [of _ tokens] exI [of _ d1] exI [of _ d2] exI [of _ user]) auto
  qed
qed

text \<open>
  The state that \<open>start\<close> hands to the browser leads the callback back to the address it was made for, within ten minutes and for the
  same application; later, or at another application, it is refused.  The encryption must decrypt what it encrypted, and JSON parse what it
  printed.
\<close>

theorem proxy_state_roundtrip:
  assumes "start p e r slug rd q s = Inr az" "requireApp r slug s = Inr app"
    and "\<And>i u x. encrypt e (json_stringify p (handshake i u x)) \<noteq> []
      \<and> decrypt e' (encrypt e (json_stringify p (handshake i u x))) = Some (json_stringify p (handshake i u x))"
    and "\<And>i u x. json_parse p (json_stringify p (handshake i u x)) = Some (handshake i u x)"
  shows "\<exists>u. resolveReturnUrl p app (if rd = None then reconstructOriginalUrl (pq_headers q) else rd) = Some u
    \<and> decodeState j p e' app (Some (az_state az)) = Inr (if now e' \<le> now e + 600000 then Some u else None)
    \<and> (\<forall>other. pa_id other \<noteq> pa_id app \<longrightarrow> decodeState j p e' other (Some (az_state az)) = Inr None)"
proof -
  from assms(1,2) obtain u where u: "resolveReturnUrl p app (if rd = None then reconstructOriginalUrl (pq_headers q) else rd) = Some u"
    "az_state az = encodeState p e app u"
    by (auto simp: start_def split: option.splits)
  have "resolveReturnUrl p app (Some u) = Some u" using resolveReturnUrl_ok [OF u(1)] by (simp add: resolveReturnUrl_def falsy_def)
  moreover have "(of_int (now e + STATE_TTL_MS) :: rat) < of_int (now e') \<longleftrightarrow> now e + 600000 < now e'"
    unfolding of_int_less_iff by (simp add: STATE_TTL_MS_def)
  ultimately have "decodeState j p e' app (Some (az_state az)) = Inr (if now e' \<le> now e + 600000 then Some u else None)"
    by (auto simp: u(2) encodeState_def decodeState_def assms(3,4) falsy_def resolve_return_value_def)
      (simp_all add: handshake_def nullish_def resolve_return_value_def)
  moreover have "decodeState j p e' other (Some (az_state az)) = Inr None" if "pa_id other \<noteq> pa_id app" for other
    using that by (simp add: u(2) encodeState_def decodeState_def assms(3,4) falsy_def) (simp add: handshake_def nullish_def)
  ultimately show ?thesis using u(1) by blast
qed

subsection \<open>The handshake cannot finish with hashed secrets\<close>

lemma code_grant_checks:
  assumes "handleAuthorizationCodeGrant e d r b ip ua s = (Inr res, s')"
  obtains c a where "validateClient e r (b ''client_id'') (b ''client_secret'') ''authorization_code'' s = Inr c"
    "pkce_error e c a (b ''code_verifier'') = None"
proof -
  from assms obtain c where c: "validateClient e r (b ''client_id'') (b ''client_secret'') ''authorization_code'' s = Inr c"
    by (auto simp: handleAuthorizationCodeGrant_def elim!: and_then_okE split: if_splits)
  obtain oa s1 where u: "use_code (the (b ''code'')) (now e) s = (oa, s1)" by fastforce
  from assms c u obtain a where "oa = Some a" "pkce_error e c a (b ''code_verifier'') = None"
    by (auto simp: handleAuthorizationCodeGrant_def split: if_splits option.splits)
  with c show thesis by (intro that [of c a])
qed

definition own_clients :: "proxy_state \<Rightarrow> bool" where
  "own_clients s \<longleftrightarrow> distinct (map (\<lambda>c. (client_realmId c, client_clientId c)) (clients (px_db s)))
     \<and> list_all (\<lambda>a. case app_client a s of None \<Rightarrow> True | Some c \<Rightarrow> client_realmId c = pa_realmId a) (px_apps s)"

text \<open>
  The callback sends the stored secret of the client, which is a hash, as if it were the secret; and it sends no PKCE verifier, without which a
  public client gets no tokens.  So no handshake ever finishes, except for a hash that matches itself as a password.
\<close>

theorem proxy_handshake_stuck:
  assumes "own_clients s"
    and "list_all (\<lambda>c. case client_clientSecret c of None \<Rightarrow> True | Some h \<Rightarrow> \<not> verifyPassword e h h) (clients (px_db s))"
  shows "\<not> is_ok (fst (callback j p v e dbUp d token r slug code state q s))"
proof
  assume "is_ok (fst (callback j p v e dbUp d token r slug code state q s))"
  then obtain reply s' where "callback j p v e dbUp d token r slug code state q s = (Inr reply, s')"
    by (metis is_ok_simps(1) obj_sumE prod.collapse)
  then show False
  proof (cases rule: callback_cases)
    case (1 app returnUrl c tokens s1 user s2 cd)
    let ?b = "callback_body e r app c cd"
    from 1(5) have "handleAuthorizationCodeGrant e d r ?b (Some (pq_ip q)) (pq_headers q ''user-agent'') (px_db s) = (Inr tokens, s1)"
      by (simp add: handleTokenRequest_def callback_body_def falsy_def)
    then obtain c' a where c': "validateClient e r (?b ''client_id'') (?b ''client_secret'') ''authorization_code'' (px_db s) = Inr c'"
      "pkce_error e c' a (?b ''code_verifier'') = None" by (rule code_grant_checks)
    have auth: "client_authenticated e r ?b ''authorization_code'' c' (px_db s)" using validateClient_sound [OF c'(1)] by simp
    then have "client_by_clientId (realm_id r) (client_clientId c) (px_db s) = Some c'"
      by (auto simp: client_authenticated_def callback_body_def)
    then have c's: "c' \<in> set (clients (px_db s))" "client_realmId c' = realm_id r" "client_clientId c' = client_clientId c"
      by (auto simp: client_by_clientId_def dest: find_SomeD)
    have cs: "c \<in> set (clients (px_db s))" using 1(4) by (auto simp: app_client_def dest: find_SomeD)
    have "client_realmId c = realm_id r"
      using assms(1) 1(4) requireApp_ok [OF 1(1)] by (auto simp: own_clients_def list_all_iff split: option.splits)
    with c's cs assms(1) have same: "c' = c"
      using distinct_id_eq [of "\<lambda>c. (client_realmId c, client_clientId c)" "clients (px_db s)" c' c] by (simp add: own_clients_def)
    show False
    proof (cases "client_clientType c")
      case CONFIDENTIAL
      with auth same obtain h where "client_clientSecret c = Some h" "?b ''client_secret'' = Some h" "verifyPassword e h h"
        by (auto simp: client_authenticated_def callback_body_def split: if_splits)
      with assms(2) cs show False by (auto simp: list_all_iff split: option.splits)
    next
      case PUBLIC
      with c'(2) same show False by (auto simp: pkce_error_def callback_body_def falsy_def split: if_splits)
    qed
  qed
qed

subsection \<open>A sample application\<close>

function bits :: "int \<Rightarrow> string" where
  "bits n = (if n \<le> 0 then [] else (if n mod 2 = 1 then CHR ''1'' else CHR ''0'') # bits (n div 2))"
  by pat_completeness auto

termination by (relation "measure nat") auto

declare bits.simps [simp del]

fun unbits :: "string \<Rightarrow> int" where
  "unbits [] = 0"
| "unbits (c # cs) = (if c = CHR ''1'' then 1 else 0) + 2 * unbits cs"

lemma unbits_bits: "unbits (bits n) = max 0 n"
proof (induction n rule: bits.induct)
  case (1 n)
  then show ?case by (subst bits.simps) (auto simp: minus_mod_eq_mult_div [symmetric] max_def; presburger)
qed

lemma bits_chars: "c \<in> set (bits n) \<Longrightarrow> c = CHR ''0'' \<or> c = CHR ''1''"
proof (induction n rule: bits.induct)
  case (1 n)
  then show ?case by (subst (asm) (2) bits.simps) (auto split: if_splits)
qed

definition sample_stringify :: "jsv \<Rightarrow> string" where
  "sample_stringify v =
     (case v of
        Obj [(_, Str i), (_, Str u), (_, Num (Fin x))] \<Rightarrow>
          (if x < 0 then CHR ''-'' else CHR ''+'') # bits \<bar>\<lfloor>x\<rfloor>\<bar> @ CHR ''|'' # replicate (length i) (CHR ''x'') @ CHR ''|'' # i @ u
      | _ \<Rightarrow> [])"

definition sample_parse :: "string \<Rightarrow> jsv option" where
  "sample_parse t =
     (if t = [] then None
      else let n = unbits (takeWhile (\<lambda>c. c \<noteq> CHR ''|'') (tl t)); rest = tl (dropWhile (\<lambda>c. c \<noteq> CHR ''|'') (tl t));
               k = length (takeWhile (\<lambda>c. c = CHR ''x'') rest); iu = tl (drop k rest)
           in Some (handshake (take k iu) (drop k iu) (if hd t = CHR ''-'' then - n else n)))"

definition sample_proxy_platform :: proxy_platform where
  "sample_proxy_platform =
     \<lparr> url_parts = (\<lambda>u. if starts_with ''https://'' u then Some (''https:'', takeWhile (\<lambda>c. c \<noteq> CHR ''/'') (drop 8 u)) else None),
       json_stringify = sample_stringify, json_parse = sample_parse, compact = (\<lambda>_. ''at'') \<rparr>"

lemma takeWhile_replicate_sep: "takeWhile (\<lambda>c. c = a) (replicate n a @ b # xs) = (if a = b then replicate n a @ b # takeWhile (\<lambda>c. c = a) xs else replicate n a)"
  by (induction n) auto

lemma sample_json_law: "sample_parse (sample_stringify (handshake i u x)) = Some (handshake i u x)"
proof -
  let ?b = "bits \<bar>x\<bar>"
  let ?rest = "replicate (length i) (CHR ''x'') @ CHR ''|'' # i @ u"
  have nb: "c \<noteq> CHR ''|''" if "c \<in> set ?b" for c using bits_chars [OF that] by auto
  then have split: "takeWhile (\<lambda>c. c \<noteq> CHR ''|'') (?b @ CHR ''|'' # ?rest) = ?b" "dropWhile (\<lambda>c. c \<noteq> CHR ''|'') (?b @ CHR ''|'' # ?rest) = CHR ''|'' # ?rest"
    by (simp_all add: takeWhile_append2 dropWhile_append2)
  have k: "takeWhile (\<lambda>c. c = CHR ''x'') ?rest = replicate (length i) (CHR ''x'')" by (simp add: takeWhile_replicate_sep)
  have str: "sample_stringify (handshake i u x) = (if x < 0 then CHR ''-'' else CHR ''+'') # ?b @ CHR ''|'' # ?rest"
    by (simp add: sample_stringify_def handshake_def)
  show ?thesis unfolding str sample_parse_def Let_def
    by (simp add: split k unbits_bits)
qed

definition sample_proxy_state :: proxy_state where
  "sample_proxy_state =
     \<lparr> px_db = endpoint_db\<lparr> clients := [sample_client\<lparr> client_clientType := CONFIDENTIAL, client_clientSecret := Some ''sec'' \<rparr>],
         authorizationCodes := [sample_code\<lparr> ac_codeChallenge := None, ac_redirectUri := callbackUrl sample_env ''acme'' ''wiki'' \<rparr>] \<rparr>,
       px_apps = [], px_sessions = [] \<rparr>"

definition sample_proxy_dto :: proxy_app_dto where
  "sample_proxy_dto =
     \<lparr> pd_slug = ''wiki'', pd_name = ''Wiki'', pd_clientId = ''app'', pd_allowedRedirectUris = [''https://wiki.example.org/*''],
       pd_cookieDomain = ''.example.org'', pd_cookieTtl = Some 3600, pd_enabled = None, pd_userHeader = None, pd_emailHeader = None,
       pd_nameHeader = None, pd_groupsHeader = None \<rparr>"

definition sample_proxy_app :: proxy_app_row where
  "sample_proxy_app = last (px_apps (snd (create_proxy_app sample_proxy_platform sample_env ''a1'' sample_realm sample_proxy_dto sample_proxy_state)))"

definition sample_proxy_request :: proxy_request where
  "sample_proxy_request = \<lparr> pq_headers = (\<lambda>_. None), pq_cookie = Some ''tok'', pq_ip = ''10.0.0.1'' \<rparr>"

definition sample_callback :: callback_args where
  "sample_callback =
     \<lparr> ca_verifier = sample_verifier, ca_env = sample_env, ca_dbUp = True, ca_draws = sample_draws, ca_token = ''tok'', ca_realm = sample_realm,
       ca_slug = ''wiki'', ca_code = Some ''xyz'',
       ca_state = Some (encodeState sample_proxy_platform sample_env sample_proxy_app ''https://wiki.example.org/page''),
       ca_request = sample_proxy_request \<rparr>"

definition sample_proxy_run :: "proxy_event list" where
  "sample_proxy_run = [CreateApp sample_env ''a1'' sample_realm sample_proxy_dto, Callback sample_callback]"

theorem proxy_access_sound_witness:
  "\<exists>hs pre a post. verify sample_env sample_realm ''wiki'' sample_proxy_request
       (fold (proxy_step sample_engine sample_proxy_platform) sample_proxy_run sample_proxy_state) = Inr (Allowed hs)
     \<and> (''X-Forwarded-User'', ''alice'') \<in> set hs \<and> sample_proxy_run = pre @ Callback a # post \<and> now sample_env \<le> now (ca_env a) + 86400000"
proof -
  let ?s = "fold (proxy_step sample_engine sample_proxy_platform) sample_proxy_run sample_proxy_state"
  have "(case verify sample_env sample_realm ''wiki'' sample_proxy_request ?s of
      Inr (Allowed hs) \<Rightarrow> (''X-Forwarded-User'', ''alice'') \<in> set hs | _ \<Rightarrow> False)" by code_simp
  then obtain hs where hs: "verify sample_env sample_realm ''wiki'' sample_proxy_request ?s = Inr (Allowed hs)"
    "(''X-Forwarded-User'', ''alice'') \<in> set hs" by (auto split: sum.splits proxy_answer.splits)
  have "px_sessions sample_proxy_state = []" "px_apps sample_proxy_state = []" by (simp_all add: sample_proxy_state_def)
  from proxy_access_sound [OF this refl hs(1)] have "\<exists>pre a post. sample_proxy_run = pre @ Callback a # post \<and> now sample_env \<le> now (ca_env a) + 86400000"
    by (elim exE conjE) (intro exI conjI)
  with hs show ?thesis by blast
qed

theorem proxy_state_roundtrip_witness:
  "\<exists>az. start sample_proxy_platform sample_env sample_realm ''wiki'' (Some ''https://wiki.example.org/page'') sample_proxy_request
       (sample_proxy_state\<lparr> px_apps := [sample_proxy_app] \<rparr>) = Inr az
     \<and> decodeState sample_engine sample_proxy_platform sample_env sample_proxy_app (Some (az_state az)) = Inr (Some ''https://wiki.example.org/page'')"
proof -
  let ?s = "sample_proxy_state\<lparr> px_apps := [sample_proxy_app] \<rparr>"
  let ?u = "''https://wiki.example.org/page''"
  let ?m = "start sample_proxy_platform sample_env sample_realm ''wiki'' (Some ?u) sample_proxy_request ?s"
  have "\<not> isl ?m" by code_simp
  then obtain az where az: "?m = Inr az" by (metis isl_def obj_sumE)
  have app: "requireApp sample_realm ''wiki'' ?s = Inr sample_proxy_app" by code_simp
  have enc: "encrypt sample_env (json_stringify sample_proxy_platform (handshake i u x)) \<noteq> []
      \<and> decrypt sample_env (encrypt sample_env (json_stringify sample_proxy_platform (handshake i u x)))
        = Some (json_stringify sample_proxy_platform (handshake i u x))" for i u x
    by (simp add: sample_env_def sample_proxy_platform_def sample_stringify_def handshake_def)
  have json: "json_parse sample_proxy_platform (json_stringify sample_proxy_platform (handshake i u x)) = Some (handshake i u x)" for i u x
    by (simp add: sample_proxy_platform_def sample_json_law)
  have "resolveReturnUrl sample_proxy_platform sample_proxy_app (Some ?u) = Some ?u" by code_simp
  with proxy_state_roundtrip [OF az app enc json, of sample_engine] az show ?thesis by auto
qed

theorem proxy_handshake_stuck_witness:
  "\<not> is_ok (fst (callback sample_engine sample_proxy_platform sample_verifier (sample_env\<lparr> argon2_verify := \<lambda>h pw. h = CHR ''#'' # pw \<rparr>) True sample_draws
     ''tok'' sample_realm ''wiki'' (Some ''xyz'') (ca_state sample_callback) sample_proxy_request
     (sample_proxy_state\<lparr> px_apps := [sample_proxy_app] \<rparr>)))"
  by (rule proxy_handshake_stuck) code_simp+

end
