(* ===== verification/Webhooks.thy ===== *)
theory Webhooks
  imports Safe_Http Store
begin

text \<open>
  Webhooks (\<open>src/src/webhooks\<close>): subscriptions and their test delivery (\<open>webhooks.service.ts\<close>), and the queue of events with its scheduler
  (\<open>webhook-scheduler.service.ts\<close>).  Requests go through the HTTP client of \<^theory_text>\<open>Safe_Http\<close>; \<open>wk_sent\<close> records each connection with the body
  and the signature it carries.

  A tick of the scheduler reads the events that are due, marks them, and then works on each.  The work of the events is concurrent in the source and
  touches one event row and new delivery rows each, so it is run one event after the other; ticks, new events and crashes are
  interleaved with it by the relation \<open>queue_step\<close>.  A payload is its JSON text.
\<close>

subsection \<open>State\<close>

record webhook_row =
  wh_id :: ident
  wh_realmId :: ident
  wh_url :: string
  wh_secret :: string
  wh_enabled :: bool
  wh_eventTypes :: "string list"
  wh_description :: "string option"
  wh_createdAt :: millis

datatype event_status = PENDING | PROCESSING | DELIVERED | FAILED

record webhook_event_row =
  we_id :: ident
  we_realmId :: ident
  we_eventType :: string
  we_payload :: string
  we_status :: event_status
  we_attempts :: int
  we_maxAttempts :: int
  we_nextRetryAt :: millis
  we_lastError :: "string option"

record delivery_row =
  dl_id :: ident
  dl_webhookId :: ident
  dl_eventType :: string
  dl_statusCode :: "nat option"
  dl_response :: "string option"
  dl_success :: bool
  dl_attempts :: int
  dl_lastAttempt :: "millis option"
  dl_createdAt :: millis

record webhook_state =
  wk_hooks :: "webhook_row list"
  wk_events :: "webhook_event_row list"
  wk_deliveries :: "delivery_row list"
  wk_sent :: "(safe_target \<times> string \<times> string) list"

text \<open>
  Why a delivery failed, and the message of the error object.  \<open>dns\<close> and \<open>servers\<close> answer per webhook and hop.
\<close>

datatype delivery_failure = BadSecret | Transport delivery_error | HttpStatus nat

record webhook_world =
  ww_net :: net_platform
  ww_message :: "delivery_failure \<Rightarrow> string"
  ww_dns :: "ident \<Rightarrow> nat \<Rightarrow> dns"
  ww_servers :: "ident \<Rightarrow> servers"

subsection \<open>Subscriptions\<close>

record webhook_dto =
  wd_url :: string
  wd_secret :: string
  wd_eventTypes :: "string list option"
  wd_events :: "string list option"
  wd_description :: "string option"
  wd_enabled :: "bool option"

record webhook_patch =
  wp_url :: "string option"
  wp_secret :: "string option"
  wp_eventTypes :: "string list option"
  wp_description :: "string option"
  wp_enabled :: "bool option"

text \<open>
  The validation of the bodies; \<open>isUrl\<close> is the URL check of the validation library, which comes before the check of the address.
\<close>

definition valid_webhook_dto :: "net_platform \<Rightarrow> (string \<Rightarrow> bool) \<Rightarrow> webhook_dto \<Rightarrow> bool" where
  "valid_webhook_dto p isUrl dto \<longleftrightarrow> isUrl (wd_url dto) \<and> isSafeWebhookUrl p (Str (wd_url dto)) \<and> 8 \<le> length (wd_secret dto)
     \<and> (case wd_eventTypes dto of None \<Rightarrow> False | Some ts \<Rightarrow> ts \<noteq> [])"

definition valid_webhook_patch :: "net_platform \<Rightarrow> (string \<Rightarrow> bool) \<Rightarrow> webhook_patch \<Rightarrow> bool" where
  "valid_webhook_patch p isUrl dto \<longleftrightarrow>
     (case wp_url dto of None \<Rightarrow> True | Some u \<Rightarrow> isUrl u \<and> isSafeWebhookUrl p (Str u))
     \<and> (case wp_secret dto of None \<Rightarrow> True | Some x \<Rightarrow> 8 \<le> length x) \<and> wp_eventTypes dto \<noteq> Some []"

definition create_webhook ::
  "net_platform \<Rightarrow> (string \<Rightarrow> bool) \<Rightarrow> env \<Rightarrow> ident \<Rightarrow> realm_row \<Rightarrow> webhook_dto \<Rightarrow> webhook_state \<Rightarrow> (webhook_row \<times> string) result \<times> webhook_state" where
  "create_webhook p isUrl e newId r dto s =
     (if \<not> valid_webhook_dto p isUrl dto then (Inl BadRequestException, s)
      else let row = \<lparr> wh_id = newId, wh_realmId = realm_id r, wh_url = wd_url dto, wh_secret = encrypt e (wd_secret dto),
                       wh_enabled = nullish_else (wd_enabled dto) True,
                       wh_eventTypes = nullish_else (wd_eventTypes dto) (nullish_else (wd_events dto) []),
                       wh_description = wd_description dto, wh_createdAt = now e \<rparr>
           in if newId \<in> wh_id ` set (wk_hooks s) then (Inl PrismaUnique, s)
              else (Inr (row, wd_secret dto), s\<lparr> wk_hooks := wk_hooks s @ [row] \<rparr>))"

definition findAll_webhooks :: "realm_row \<Rightarrow> webhook_state \<Rightarrow> webhook_row list" where
  "findAll_webhooks r s = order_asc wh_createdAt (filter (\<lambda>w. wh_realmId w = realm_id r) (wk_hooks s))"

definition findOne_webhook :: "realm_row \<Rightarrow> ident \<Rightarrow> webhook_state \<Rightarrow> webhook_row result" where
  "findOne_webhook r i s =
     (case List.find (\<lambda>w. wh_id w = i \<and> wh_realmId w = realm_id r) (wk_hooks s) of None \<Rightarrow> Inl NotFoundException | Some w \<Rightarrow> Inr w)"

definition patched_webhook :: "env \<Rightarrow> webhook_patch \<Rightarrow> webhook_row \<Rightarrow> webhook_row" where
  "patched_webhook e dto w =
     w\<lparr> wh_url := nullish_else (wp_url dto) (wh_url w), wh_enabled := nullish_else (wp_enabled dto) (wh_enabled w),
        wh_eventTypes := nullish_else (wp_eventTypes dto) (wh_eventTypes w),
        wh_description := (if wp_description dto = None then wh_description w else wp_description dto),
        wh_secret := (case wp_secret dto of None \<Rightarrow> wh_secret w | Some x \<Rightarrow> encrypt e x) \<rparr>"

definition update_webhook ::
  "net_platform \<Rightarrow> (string \<Rightarrow> bool) \<Rightarrow> env \<Rightarrow> realm_row \<Rightarrow> ident \<Rightarrow> webhook_patch \<Rightarrow> webhook_state \<Rightarrow> webhook_row result \<times> webhook_state" where
  "update_webhook p isUrl e r i dto s =
     (if \<not> valid_webhook_patch p isUrl dto then (Inl BadRequestException, s)
      else case findOne_webhook r i s of
             Inl err \<Rightarrow> (Inl err, s)
           | Inr w \<Rightarrow> (Inr (patched_webhook e dto w),
                         s\<lparr> wk_hooks := tbl_update (\<lambda>x. wh_id x = i) (patched_webhook e dto) (wk_hooks s) \<rparr>))"

text \<open>Deliveries go with their webhook, by the foreign key.\<close>

definition remove_webhook :: "realm_row \<Rightarrow> ident \<Rightarrow> webhook_state \<Rightarrow> unit result \<times> webhook_state" where
  "remove_webhook r i s =
     (case findOne_webhook r i s of
        Inl err \<Rightarrow> (Inl err, s)
      | Inr _ \<Rightarrow> (Inr (), s\<lparr> wk_hooks := tbl_delete (\<lambda>x. wh_id x = i) (wk_hooks s),
                                wk_deliveries := tbl_delete (\<lambda>d. dl_webhookId d = i) (wk_deliveries s) \<rparr>))"

definition findDeliveries :: "realm_row \<Rightarrow> ident \<Rightarrow> webhook_state \<Rightarrow> delivery_row list result" where
  "findDeliveries r i s =
     (case findOne_webhook r i s of
        Inl err \<Rightarrow> Inl err
      | Inr _ \<Rightarrow> Inr (take 100 (order_desc dl_createdAt (filter (\<lambda>d. dl_webhookId d = i) (wk_deliveries s)))))"

subsection \<open>One request\<close>

definition signPayload :: "env \<Rightarrow> string \<Rightarrow> string \<Rightarrow> string" where
  "signPayload e secret body = ''sha256='' @ hmac e secret body"

definition doHttpPost ::
  "webhook_world \<Rightarrow> webhook_row \<Rightarrow> string \<Rightarrow> string \<Rightarrow> webhook_state \<Rightarrow> (delivery_error + nat \<times> string) \<times> webhook_state" where
  "doHttpPost w hook body signature s =
     (case safePost (ww_net w) (ww_dns w (wh_id hook)) (ww_servers w (wh_id hook)) (wh_url hook) body of
        (res, targets) \<Rightarrow> (res, s\<lparr> wk_sent := wk_sent s @ map (\<lambda>t. (t, body, signature)) targets \<rparr>))"

definition new_delivery :: "env \<Rightarrow> ident \<Rightarrow> webhook_row \<Rightarrow> string \<Rightarrow> delivery_row" where
  "new_delivery e i hook eventType =
     \<lparr> dl_id = i, dl_webhookId = wh_id hook, dl_eventType = eventType, dl_statusCode = None, dl_response = None, dl_success = False,
       dl_attempts = 0, dl_lastAttempt = None, dl_createdAt = now e \<rparr>"

definition update_delivery :: "ident \<Rightarrow> (delivery_row \<Rightarrow> delivery_row) \<Rightarrow> webhook_state \<Rightarrow> webhook_state" where
  "update_delivery i f s = s\<lparr> wk_deliveries := tbl_update (\<lambda>d. dl_id d = i) f (wk_deliveries s) \<rparr>"

definition http_ok :: "nat \<Rightarrow> bool" where
  "http_ok code \<longleftrightarrow> 200 \<le> code \<and> code < 300"

definition note_response :: "env \<Rightarrow> nat \<Rightarrow> string \<Rightarrow> int \<Rightarrow> delivery_row \<Rightarrow> delivery_row" where
  "note_response e code text n d =
     d\<lparr> dl_statusCode := Some code, dl_response := Some (take 2000 text), dl_success := http_ok code, dl_attempts := n,
        dl_lastAttempt := Some (now e) \<rparr>"

definition note_failure :: "env \<Rightarrow> string \<Rightarrow> int \<Rightarrow> delivery_row \<Rightarrow> delivery_row" where
  "note_failure e message n d =
     d\<lparr> dl_success := False, dl_attempts := n, dl_lastAttempt := Some (now e), dl_response := Some (take 2000 message) \<rparr>"

subsection \<open>The scheduler\<close>

definition RETRY_DELAYS_MS :: "int list" where
  "RETRY_DELAYS_MS = [1000, 10000, 60000, 600000]"

definition MAX_ATTEMPTS :: int where
  "MAX_ATTEMPTS = int (length RETRY_DELAYS_MS) + 1"

definition BATCH_SIZE :: nat where
  "BATCH_SIZE = 50"

definition deliverToWebhook ::
  "webhook_world \<Rightarrow> env \<Rightarrow> ident \<Rightarrow> webhook_row \<Rightarrow> string \<Rightarrow> string \<Rightarrow> webhook_state \<Rightarrow> (delivery_failure + unit) \<times> webhook_state" where
  "deliverToWebhook w e newId hook eventType body s =
     (case decrypt e (wh_secret hook) of
        None \<Rightarrow> (Inl BadSecret, s)
      | Some secret \<Rightarrow>
          let s0 = s\<lparr> wk_deliveries := wk_deliveries s @ [new_delivery e newId hook eventType] \<rparr>
          in case doHttpPost w hook body (signPayload e secret body) s0 of
               (Inl err, s1) \<Rightarrow> (Inl (Transport err), update_delivery newId (note_failure e (ww_message w (Transport err)) 1) s1)
             | (Inr (code, text), s1) \<Rightarrow>
                 let s2 = update_delivery newId (note_response e code text 1) s1
                 in if http_ok code then (Inr (), s2)
                    else (Inl (HttpStatus code), update_delivery newId (note_failure e (ww_message w (HttpStatus code)) 1) s2))"

fun deliver_all ::
  "webhook_world \<Rightarrow> env \<Rightarrow> (nat \<Rightarrow> ident) \<Rightarrow> webhook_row list \<Rightarrow> string \<Rightarrow> string \<Rightarrow> webhook_state \<Rightarrow> delivery_failure list \<times> webhook_state" where
  "deliver_all w e ids [] eventType body s = ([], s)"
| "deliver_all w e ids (hook # hooks) eventType body s =
     (case deliverToWebhook w e (ids 0) hook eventType body s of
        (res, s1) \<Rightarrow>
          (case deliver_all w e (\<lambda>k. ids (Suc k)) hooks eventType body s1 of
             (fs, s2) \<Rightarrow> ((case res of Inl f \<Rightarrow> f # fs | Inr _ \<Rightarrow> fs), s2)))"

definition update_event :: "ident \<Rightarrow> (webhook_event_row \<Rightarrow> webhook_event_row) \<Rightarrow> webhook_state \<Rightarrow> webhook_state" where
  "update_event i f s = s\<lparr> wk_events := tbl_update (\<lambda>x. we_id x = i) f (wk_events s) \<rparr>"

definition subscribers :: "webhook_event_row \<Rightarrow> webhook_state \<Rightarrow> webhook_row list" where
  "subscribers ev s = filter (\<lambda>h. wh_realmId h = we_realmId ev \<and> wh_enabled h \<and> we_eventType ev \<in> set (wh_eventTypes h)) (wk_hooks s)"

text \<open>\<open>ev\<close> is the row as the tick read it.\<close>

definition settle :: "webhook_world \<Rightarrow> env \<Rightarrow> webhook_event_row \<Rightarrow> delivery_failure list \<Rightarrow> webhook_event_row \<Rightarrow> webhook_event_row" where
  "settle w e ev fs x =
     (let n = we_attempts ev + 1; firstError = take 2000 (join_sep ''; '' (map (ww_message w) fs)) in
      if fs = [] then x\<lparr> we_status := DELIVERED, we_attempts := n \<rparr>
      else if we_maxAttempts ev - n > 0 \<and> n \<le> int (length RETRY_DELAYS_MS)
      then x\<lparr> we_status := FAILED, we_attempts := n, we_nextRetryAt := now e + RETRY_DELAYS_MS ! nat (n - 1), we_lastError := Some firstError \<rparr>
      else x\<lparr> we_status := FAILED, we_attempts := n, we_lastError := Some firstError \<rparr>)"

definition processEvent :: "webhook_world \<Rightarrow> env \<Rightarrow> (nat \<Rightarrow> ident) \<Rightarrow> webhook_event_row \<Rightarrow> webhook_state \<Rightarrow> webhook_state" where
  "processEvent w e ids ev s =
     (if subscribers ev s = [] then update_event (we_id ev) (\<lambda>x. x\<lparr> we_status := DELIVERED \<rparr>) s
      else case deliver_all w e ids (subscribers ev s) (we_eventType ev) (we_payload ev) s of
             (fs, s1) \<Rightarrow> update_event (we_id ev) (settle w e ev fs) s1)"

definition event_due :: "millis \<Rightarrow> webhook_event_row \<Rightarrow> bool" where
  "event_due t x \<longleftrightarrow> we_status x \<in> {PENDING, FAILED} \<and> we_nextRetryAt x \<le> t \<and> we_attempts x < MAX_ATTEMPTS"

definition find_due :: "millis \<Rightarrow> webhook_state \<Rightarrow> webhook_event_row list" where
  "find_due t s = take BATCH_SIZE (order_asc we_nextRetryAt (filter (event_due t) (wk_events s)))"

definition mark_processing :: "webhook_event_row list \<Rightarrow> webhook_state \<Rightarrow> webhook_state" where
  "mark_processing evs s =
     s\<lparr> wk_events := tbl_update (\<lambda>x. we_id x \<in> we_id ` set evs \<and> we_status x \<in> {PENDING, FAILED}) (\<lambda>x. x\<lparr> we_status := PROCESSING \<rparr>) (wk_events s) \<rparr>"

text \<open>A tick that is not interrupted: \<open>clock\<close> gives the environment in which each event is processed.\<close>

fun process_events :: "webhook_world \<Rightarrow> (nat \<Rightarrow> env) \<Rightarrow> (nat \<Rightarrow> nat \<Rightarrow> ident) \<Rightarrow> webhook_event_row list \<Rightarrow> webhook_state \<Rightarrow> webhook_state" where
  "process_events w clock ids [] s = s"
| "process_events w clock ids (ev # evs) s =
     process_events w (\<lambda>k. clock (Suc k)) (\<lambda>k. ids (Suc k)) evs (processEvent w (clock 0) (ids 0) ev s)"

definition processQueue :: "webhook_world \<Rightarrow> env \<Rightarrow> (nat \<Rightarrow> env) \<Rightarrow> (nat \<Rightarrow> nat \<Rightarrow> ident) \<Rightarrow> webhook_state \<Rightarrow> webhook_state" where
  "processQueue w e clock ids s =
     (let evs = find_due (now e) s
      in if evs = [] then s else process_events w clock ids evs (mark_processing evs s))"

subsection \<open>Events\<close>

text \<open>\<open>payload\<close> is the JSON text of the full payload.  A failing statement is logged and swallowed.\<close>

definition dispatchEvent :: "env \<Rightarrow> ident \<Rightarrow> ident \<Rightarrow> string \<Rightarrow> string \<Rightarrow> webhook_state \<Rightarrow> webhook_state" where
  "dispatchEvent e newId realmId eventType payload s =
     (if newId \<in> we_id ` set (wk_events s) then s
      else s\<lparr> wk_events := wk_events s @
             [\<lparr> we_id = newId, we_realmId = realmId, we_eventType = eventType, we_payload = payload, we_status = PENDING, we_attempts = 0,
                we_maxAttempts = 4, we_nextRetryAt = now e, we_lastError = None \<rparr>] \<rparr>)"

subsection \<open>The test delivery\<close>

definition TEST_DELAYS_MS :: "int list" where
  "TEST_DELAYS_MS = [1000, 10000, 60000]"

text \<open>
  The loop over the attempts; \<open>delays\<close> is the configured list, \<open>world k\<close> and \<open>clock k\<close> are the conditions at attempt \<open>k\<close>.  The result is the
  number of attempts, and the last failure if there was no success.
\<close>

fun attempt_loop ::
  "(nat \<Rightarrow> webhook_world) \<Rightarrow> (nat \<Rightarrow> env) \<Rightarrow> ident \<Rightarrow> webhook_row \<Rightarrow> string \<Rightarrow> string \<Rightarrow> nat \<Rightarrow> nat \<Rightarrow>
   webhook_state \<Rightarrow> (nat \<times> delivery_failure option) \<times> webhook_state" where
  "attempt_loop world clock i hook body signature left attempt s =
     (case doHttpPost (world attempt) hook body signature s of
        (Inr (code, text), s1) \<Rightarrow>
          let s2 = update_delivery i (note_response (clock attempt) code text (int attempt + 1)) s1
          in if http_ok code then ((attempt + 1, None), s2)
             else (case left of
                     0 \<Rightarrow> ((attempt + 1, Some (HttpStatus code)), s2)
                   | Suc n \<Rightarrow> attempt_loop world clock i hook body signature n (attempt + 1) s2)
      | (Inl err, s1) \<Rightarrow>
          (case err of
             SsrfBlockedError _ \<Rightarrow> ((attempt + 1, Some (Transport err)), s1)
           | _ \<Rightarrow> (case left of
                     0 \<Rightarrow> ((attempt + 1, Some (Transport err)), s1)
                   | Suc n \<Rightarrow> attempt_loop world clock i hook body signature n (attempt + 1) s1)))"

declare attempt_loop.simps [simp del]

definition deliverWebhook ::
  "(nat \<Rightarrow> webhook_world) \<Rightarrow> (nat \<Rightarrow> env) \<Rightarrow> int list \<Rightarrow> ident \<Rightarrow> webhook_row \<Rightarrow> string \<Rightarrow> string \<Rightarrow> webhook_state \<Rightarrow> bool result \<times> webhook_state" where
  "deliverWebhook world clock delays newId hook eventType body s =
     (case decrypt (clock 0) (wh_secret hook) of
        None \<Rightarrow> (Inl PlainError, s)
      | Some secret \<Rightarrow>
          let s0 = s\<lparr> wk_deliveries := wk_deliveries s @ [new_delivery (clock 0) newId hook eventType] \<rparr>
          in case attempt_loop world clock newId hook body (signPayload (clock 0) secret body) (length delays) 0 s0 of
               ((_, None), s1) \<Rightarrow> (Inr True, s1)
             | ((n, Some f), s1) \<Rightarrow>
                 (Inr False, update_delivery newId (note_failure (clock n) (ww_message (world (n - 1)) f) (int n)) s1))"

definition testWebhook ::
  "(nat \<Rightarrow> webhook_world) \<Rightarrow> (nat \<Rightarrow> env) \<Rightarrow> int list \<Rightarrow> ident \<Rightarrow> realm_row \<Rightarrow> ident \<Rightarrow> string \<Rightarrow> webhook_state \<Rightarrow> unit result \<times> webhook_state" where
  "testWebhook world clock delays newId r i body s =
     (case findOne_webhook r i s of
        Inl err \<Rightarrow> (Inl err, s)
      | Inr hook \<Rightarrow> (Inr (), snd (deliverWebhook world clock delays newId hook ''webhook.test'' body s)))"

subsection \<open>Requests are checked and signed\<close>

lemma safePost_safe: "platform_laws p \<Longrightarrow> list_all (target_safe p) (snd (safePost p dns http url body))"
  using safePost_loop_safe resolveSafeTarget_safe
  by (auto simp: safePost_def split: sum.split)

definition proper_send :: "webhook_world \<Rightarrow> env \<Rightarrow> string \<Rightarrow> webhook_row list \<Rightarrow> safe_target \<times> string \<times> string \<Rightarrow> bool" where
  "proper_send w e body hooks x \<longleftrightarrow> target_safe (ww_net w) (fst x) \<and> fst (snd x) = body
     \<and> (\<exists>hook \<in> set hooks. \<exists>secret. decrypt e (wh_secret hook) = Some secret \<and> snd (snd x) = signPayload e secret body)"

lemma update_delivery_other [simp]:
  "wk_sent (update_delivery i f s) = wk_sent s" "wk_events (update_delivery i f s) = wk_events s" "wk_hooks (update_delivery i f s) = wk_hooks s"
  by (simp_all add: update_delivery_def)

lemma doHttpPost_other:
  assumes "doHttpPost w hook body sig s = (res, s1)"
  shows "wk_events s1 = wk_events s" "wk_hooks s1 = wk_hooks s"
    "platform_laws (ww_net w) \<Longrightarrow> \<exists>ts. list_all (target_safe (ww_net w)) ts \<and> wk_sent s1 = wk_sent s @ map (\<lambda>t. (t, body, sig)) ts"
  using assms safePost_safe [of "ww_net w" "ww_dns w (wh_id hook)" "ww_servers w (wh_id hook)" "wh_url hook" body]
  by (auto simp: doHttpPost_def split: prod.splits intro!: exI [of _ "snd (safePost (ww_net w) (ww_dns w (wh_id hook)) (ww_servers w (wh_id hook)) (wh_url hook) body)"])

lemma deliverToWebhook_other:
  assumes "deliverToWebhook w e i hook ty body s = (res, s1)"
  shows "wk_events s1 = wk_events s" "wk_hooks s1 = wk_hooks s"
    "platform_laws (ww_net w) \<Longrightarrow> \<exists>xs. list_all (proper_send w e body [hook]) xs \<and> wk_sent s1 = wk_sent s @ xs"
proof -
  let ?s0 = "s\<lparr> wk_deliveries := wk_deliveries s @ [new_delivery e i hook ty] \<rparr>"
  have "wk_events s1 = wk_events s \<and> wk_hooks s1 = wk_hooks s \<and>
    (platform_laws (ww_net w) \<longrightarrow> (\<exists>xs. list_all (proper_send w e body [hook]) xs \<and> wk_sent s1 = wk_sent s @ xs))"
  proof (cases "decrypt e (wh_secret hook)")
    case None
    with assms show ?thesis by (auto simp: deliverToWebhook_def intro: exI [of _ "[]"])
  next
    case (Some secret)
    obtain r2 s2 where post: "doHttpPost w hook body (signPayload e secret body) ?s0 = (r2, s2)" by fastforce
    from assms Some post have s1: "wk_events s1 = wk_events s2" "wk_hooks s1 = wk_hooks s2" "wk_sent s1 = wk_sent s2"
      by (auto simp: deliverToWebhook_def Let_def split: sum.splits if_splits)
    have "\<exists>xs. list_all (proper_send w e body [hook]) xs \<and> wk_sent s1 = wk_sent s @ xs" if "platform_laws (ww_net w)"
    proof -
      from doHttpPost_other(3) [OF post that] obtain ts where ts: "list_all (target_safe (ww_net w)) ts"
        "wk_sent s2 = wk_sent s @ map (\<lambda>t. (t, body, signPayload e secret body)) ts" by auto
      with s1(3) Some show ?thesis
        by (intro exI [of _ "map (\<lambda>t. (t, body, signPayload e secret body)) ts"]) (auto simp: list_all_iff proper_send_def)
    qed
    with doHttpPost_other(1,2) [OF post] s1 show ?thesis by auto
  qed
  then show "wk_events s1 = wk_events s" "wk_hooks s1 = wk_hooks s"
    "platform_laws (ww_net w) \<Longrightarrow> \<exists>xs. list_all (proper_send w e body [hook]) xs \<and> wk_sent s1 = wk_sent s @ xs" by auto
qed

lemma deliver_all_other:
  assumes "deliver_all w e ids hooks ty body s = (fs, s1)"
  shows "wk_events s1 = wk_events s \<and> wk_hooks s1 = wk_hooks s
    \<and> (platform_laws (ww_net w) \<longrightarrow> (\<exists>xs. list_all (proper_send w e body hooks) xs \<and> wk_sent s1 = wk_sent s @ xs))"
  using assms
proof (induction hooks arbitrary: ids s fs s1)
  case (Cons hook hooks)
  obtain res s2 where one: "deliverToWebhook w e (ids 0) hook ty body s = (res, s2)" by fastforce
  obtain fs' s3 where rest: "deliver_all w e (\<lambda>k. ids (Suc k)) hooks ty body s2 = (fs', s3)" by fastforce
  have s1: "s1 = s3" using Cons.prems one rest by simp
  have "\<exists>xs. list_all (proper_send w e body (hook # hooks)) xs \<and> wk_sent s1 = wk_sent s @ xs" if laws: "platform_laws (ww_net w)"
  proof -
    from deliverToWebhook_other(3) [OF one laws] Cons.IH [OF rest] laws obtain xs ys where
      "list_all (proper_send w e body [hook]) xs" "wk_sent s2 = wk_sent s @ xs" "list_all (proper_send w e body hooks) ys" "wk_sent s3 = wk_sent s2 @ ys"
      by blast
    then show ?thesis using s1 by (intro exI [of _ "xs @ ys"]) (auto simp: list_all_iff proper_send_def)
  qed
  with Cons.IH [OF rest] deliverToWebhook_other(1,2) [OF one] s1 show ?case by simp
qed (auto intro: exI [of _ "[]"])

lemma processEvent_other:
  "wk_hooks (processEvent w e ids ev s) = wk_hooks s"
  "\<exists>f. wk_events (processEvent w e ids ev s) = tbl_update (\<lambda>x. we_id x = we_id ev) f (wk_events s)
     \<and> (f = (\<lambda>x. x\<lparr> we_status := DELIVERED \<rparr>) \<and> subscribers ev s = [] \<or> (\<exists>fs. f = settle w e ev fs))"
proof -
  obtain fs s1 where d: "deliver_all w e ids (subscribers ev s) (we_eventType ev) (we_payload ev) s = (fs, s1)" by fastforce
  show "wk_hooks (processEvent w e ids ev s) = wk_hooks s"
    using deliver_all_other [OF d] d by (simp add: processEvent_def update_event_def)
  show "\<exists>f. wk_events (processEvent w e ids ev s) = tbl_update (\<lambda>x. we_id x = we_id ev) f (wk_events s)
     \<and> (f = (\<lambda>x. x\<lparr> we_status := DELIVERED \<rparr>) \<and> subscribers ev s = [] \<or> (\<exists>fs. f = settle w e ev fs))"
  proof (cases "subscribers ev s = []")
    case True
    then show ?thesis by (intro exI [of _ "\<lambda>x. x\<lparr> we_status := DELIVERED \<rparr>"]) (simp add: processEvent_def update_event_def)
  next
    case False
    with d deliver_all_other [OF d] show ?thesis
      by (intro exI [of _ "settle w e ev fs"]) (auto simp: processEvent_def update_event_def)
  qed
qed

text \<open>
  Every connection that delivering an event opens goes to an address the guard allows, carries the payload of the event, and is
  signed with the secret of a webhook of the event's realm that is enabled and subscribed to its type.
\<close>

theorem webhook_sends_checked:
  assumes "platform_laws (ww_net w)"
  shows "\<exists>xs. wk_sent (processEvent w e ids ev s) = wk_sent s @ xs \<and> list_all (proper_send w e (we_payload ev) (subscribers ev s)) xs
    \<and> list_all (\<lambda>h. wh_realmId h = we_realmId ev \<and> wh_enabled h \<and> we_eventType ev \<in> set (wh_eventTypes h)) (subscribers ev s)"
proof -
  obtain fs s1 where d: "deliver_all w e ids (subscribers ev s) (we_eventType ev) (we_payload ev) s = (fs, s1)" by fastforce
  with deliver_all_other [OF d] assms obtain xs where "list_all (proper_send w e (we_payload ev) (subscribers ev s)) xs" "wk_sent s1 = wk_sent s @ xs" by blast
  moreover have "list_all (\<lambda>h. wh_realmId h = we_realmId ev \<and> wh_enabled h \<and> we_eventType ev \<in> set (wh_eventTypes h)) (subscribers ev s)"
    by (auto simp: list_all_iff subscribers_def)
  ultimately show ?thesis
    by (cases "subscribers ev s = []") (auto simp: processEvent_def update_event_def d intro: exI [of _ "[]"])
qed

subsection \<open>The queue\<close>

text \<open>
  What happens to the queue: events are added, ticks claim the events that are due, the work on a claimed event ends, the process
  dies with the work it had claimed, and subscriptions are administered.  A claim (the query and the update that follows it) is one step
  here, as with one scheduler; \<open>flight\<close> holds the rows as the claiming tick read them.
\<close>

datatype queue_label = Dispatched ident | Ticked | Worked ident | Crashed | Administered

inductive queue_step ::
  "webhook_world \<Rightarrow> webhook_state \<times> webhook_event_row list \<Rightarrow> queue_label \<Rightarrow> webhook_state \<times> webhook_event_row list \<Rightarrow> bool" for w where
  dispatched: "queue_step w (s, flight) (Dispatched i) (dispatchEvent e i realmId eventType payload s, flight)"
| ticked: "queue_step w (s, flight) Ticked (mark_processing (find_due t s) s, flight @ find_due t s)"
| worked: "ev \<in> set flight \<Longrightarrow> queue_step w (s, flight) (Worked (we_id ev)) (processEvent w e ids ev s, remove1 ev flight)"
| crashed: "queue_step w (s, flight) Crashed (s, [])"
| administered: "queue_step w (s, flight) Administered (s\<lparr> wk_hooks := hooks, wk_deliveries := ds, wk_sent := xs \<rparr>, flight)"

inductive_cases DispatchedE: "queue_step w c (Dispatched i) c'"
inductive_cases TickedE: "queue_step w c Ticked c'"
inductive_cases WorkedE: "queue_step w c (Worked i) c'"
inductive_simps Crashed_iff: "queue_step w c Crashed c'"

inductive queue_run ::
  "webhook_world \<Rightarrow> webhook_state \<times> webhook_event_row list \<Rightarrow> queue_label list \<Rightarrow> webhook_state \<times> webhook_event_row list \<Rightarrow> bool" for w where
  queue_done: "queue_run w c [] c"
| queue_more: "queue_step w c l c' \<Longrightarrow> queue_run w c' ls c'' \<Longrightarrow> queue_run w c (l # ls) c''"

definition event_of :: "ident \<Rightarrow> webhook_state \<Rightarrow> webhook_event_row option" where
  "event_of i s = List.find (\<lambda>x. we_id x = i) (wk_events s)"

definition in_flight :: "webhook_state \<Rightarrow> webhook_event_row \<Rightarrow> bool" where
  "in_flight s ev \<longleftrightarrow> 0 \<le> we_attempts ev \<and> we_attempts ev < MAX_ATTEMPTS
     \<and> (\<exists>x. event_of (we_id ev) s = Some x \<and> we_status x = PROCESSING \<and> we_attempts x = we_attempts ev)"

fun queue_ok :: "webhook_state \<times> webhook_event_row list \<Rightarrow> bool" where
  "queue_ok (s, flight) \<longleftrightarrow> distinct (map we_id (wk_events s)) \<and> distinct (map we_id flight) \<and> list_all (in_flight s) flight
     \<and> list_all (\<lambda>x. 0 \<le> we_attempts x) (wk_events s)"

text \<open>How many more times an event can be worked on.\<close>

definition rounds_left :: "ident \<Rightarrow> webhook_state \<Rightarrow> int" where
  "rounds_left i s =
     (case event_of i s of None \<Rightarrow> MAX_ATTEMPTS | Some x \<Rightarrow> if we_status x = DELIVERED then 0 else max 0 (MAX_ATTEMPTS - we_attempts x))"

lemma settle_id [simp]: "we_id (settle w e ev fs x) = we_id x"
  by (simp add: settle_def Let_def)

lemma settle_outcome:
  "we_attempts (settle w e ev fs x) = we_attempts ev + 1" "we_status (settle w e ev fs x) = (if fs = [] then DELIVERED else FAILED)"
  by (simp_all add: settle_def Let_def)

lemma event_of_update:
  assumes "\<And>x. we_id (f x) = we_id x" and "wk_events s' = tbl_update p f (wk_events s)"
  shows "event_of i s' = map_option (\<lambda>x. if p x then f x else x) (event_of i s)"
  using assms by (simp add: event_of_def find_tbl_update_key)

lemma event_of_in: "event_of i s = Some x \<Longrightarrow> x \<in> set (wk_events s) \<and> we_id x = i"
  by (auto simp: event_of_def find_Some_iff)

lemma event_of_mem: "distinct (map we_id (wk_events s)) \<Longrightarrow> x \<in> set (wk_events s) \<Longrightarrow> event_of (we_id x) s = Some x"
  by (metis (mono_tags, lifting) event_of_def event_of_in distinct_id_eq find_None_iff option.exhaust)

lemma event_of_other_tables [simp]: "event_of i (s\<lparr> wk_hooks := hooks, wk_deliveries := ds, wk_sent := xs \<rparr>) = event_of i s"
  by (simp add: event_of_def)

lemma find_append_row: "List.find p (xs @ [x]) = (case List.find p xs of None \<Rightarrow> if p x then Some x else None | Some y \<Rightarrow> Some y)"
  by (induction xs) auto

lemma event_of_dispatch:
  "event_of i (dispatchEvent e j r ty p s) =
     (case event_of i s of Some x \<Rightarrow> Some x
      | None \<Rightarrow> if i = j then Some \<lparr> we_id = j, we_realmId = r, we_eventType = ty, we_payload = p, we_status = PENDING, we_attempts = 0,
                                       we_maxAttempts = 4, we_nextRetryAt = now e, we_lastError = None \<rparr> else None)"
  by (auto simp: dispatchEvent_def event_of_def find_append_row find_None_iff image_iff split: option.split)

lemma event_of_mark:
  "event_of i (mark_processing evs s) =
     map_option (\<lambda>x. if we_id x \<in> we_id ` set evs \<and> we_status x \<in> {PENDING, FAILED} then x\<lparr> we_status := PROCESSING \<rparr> else x) (event_of i s)"
  by (rule event_of_update) (simp_all add: mark_processing_def)

text \<open>What the work on an event does to its row.\<close>

definition worked_row :: "webhook_event_row \<Rightarrow> (webhook_event_row \<Rightarrow> webhook_event_row) \<Rightarrow> bool" where
  "worked_row ev f \<longleftrightarrow> (\<forall>x. we_id (f x) = we_id x \<and>
     (we_status (f x) = DELIVERED \<and> we_attempts (f x) \<in> {we_attempts x, we_attempts ev + 1}
      \<or> we_status (f x) = FAILED \<and> we_attempts (f x) = we_attempts ev + 1))"

lemma worked_row_id: "worked_row ev f \<Longrightarrow> we_id (f x) = we_id x"
  by (simp add: worked_row_def)

lemma worked_row_cases:
  assumes "worked_row ev f"
  obtains "we_status (f x) = DELIVERED" "we_attempts (f x) = we_attempts x \<or> we_attempts (f x) = we_attempts ev + 1"
  | "we_status (f x) = FAILED" "we_attempts (f x) = we_attempts ev + 1"
  using assms unfolding worked_row_def by blast

lemma processEvent_row:
  obtains f where "worked_row ev f" "wk_events (processEvent w e ids ev s) = tbl_update (\<lambda>x. we_id x = we_id ev) f (wk_events s)"
    "\<forall>i. event_of i (processEvent w e ids ev s) = map_option (\<lambda>x. if we_id x = we_id ev then f x else x) (event_of i s)"
proof -
  from processEvent_other(2) obtain f where f: "wk_events (processEvent w e ids ev s) = tbl_update (\<lambda>x. we_id x = we_id ev) f (wk_events s)"
    "f = (\<lambda>x. x\<lparr> we_status := DELIVERED \<rparr>) \<or> (\<exists>fs. f = settle w e ev fs)" by blast
  from f(2) have row: "worked_row ev f" by (auto simp: worked_row_def settle_outcome split: if_splits)
  from that [OF row f(1)] event_of_update [OF worked_row_id [OF row] f(1)] show ?thesis by blast
qed

lemma set_find_due: "ev \<in> set (find_due t s) \<Longrightarrow> ev \<in> set (wk_events s) \<and> event_due t ev"
  by (auto simp: find_due_def dest: in_set_takeD)

lemma distinct_map_remove1: "distinct (map g xs) \<Longrightarrow> distinct (map g (remove1 x xs))"
  using set_remove1_subset by (auto simp: distinct_map intro: inj_on_subset)

lemma distinct_map_order_asc: "distinct (map g (order_asc k xs)) \<longleftrightarrow> distinct (map g xs)"
  by (simp add: distinct_map order_asc_def)

lemma distinct_find_due: "distinct (map we_id (wk_events s)) \<Longrightarrow> distinct (map we_id (find_due t s))"
  unfolding find_due_def take_map [symmetric] by (intro distinct_take) (simp add: distinct_map_order_asc distinct_map_filter)

subsection \<open>Rounds are bounded\<close>

lemma queue_step_ok:
  assumes "queue_step w c l c'" and "queue_ok c"
  shows "queue_ok c'"
  using assms
proof (cases rule: queue_step.cases)
  case (dispatched s flight i e r ty p)
  then show ?thesis using assms(2)
    by (auto simp: list_all_iff in_flight_def event_of_dispatch) (auto simp: dispatchEvent_def split: if_splits)
next
  case (ticked s flight t)
  have dist: "distinct (map we_id (wk_events s))" and flight: "list_all (in_flight s) flight" using ticked assms(2) by auto
  have due: "event_of (we_id ev) s = Some ev \<and> event_due t ev" if "ev \<in> set (find_due t s)" for ev
    using event_of_mem [OF dist] set_find_due [OF that] by blast
  have new: "in_flight (mark_processing (find_due t s) s) ev" if "ev \<in> set (find_due t s)" for ev
    using due [OF that] that set_find_due [OF that] ticked assms(2)
    by (auto simp: in_flight_def event_of_mark event_due_def list_all_iff)
  have old: "in_flight (mark_processing (find_due t s) s) ev \<and> we_id ev \<notin> we_id ` set (find_due t s)" if "ev \<in> set flight" for ev
    using flight that due by (fastforce simp: in_flight_def event_of_mark event_due_def list_all_iff)
  have "distinct (map we_id (flight @ find_due t s))"
    using ticked assms(2) distinct_find_due [OF dist] old by (auto simp: distinct_map)
  moreover have "list_all (\<lambda>x. 0 \<le> we_attempts x) (wk_events c1) \<and> distinct (map we_id (wk_events c1))" if "c1 = mark_processing (find_due t s) s" for c1
    using ticked assms(2) that by (auto simp: mark_processing_def list_all_iff set_tbl_update map_tbl_update)
  ultimately show ?thesis using ticked new old by (auto simp: list_all_iff)
next
  case (worked ev flight s e ids)
  obtain f where f: "worked_row ev f" "wk_events (processEvent w e ids ev s) = tbl_update (\<lambda>x. we_id x = we_id ev) f (wk_events s)"
    "\<forall>i. event_of i (processEvent w e ids ev s) = map_option (\<lambda>x. if we_id x = we_id ev then f x else x) (event_of i s)"
    using processEvent_row [of ev w e ids s] by blast
  have ids: "distinct (map we_id flight)" and flight: "list_all (in_flight s) flight" using worked assms(2) by auto
  have others: "we_id x \<noteq> we_id ev \<and> x \<in> set flight" if "x \<in> set (remove1 ev flight)" for x
    using ids that worked(4) by (auto simp: distinct_map inj_on_def set_remove1_eq)
  have "in_flight (processEvent w e ids ev s) x" if "x \<in> set (remove1 ev flight)" for x
    using others [OF that] flight event_of_in by (fastforce simp: in_flight_def f(3) list_all_iff)
  moreover have "0 \<le> we_attempts (f x)" if "x \<in> set (wk_events s)" for x
    by (rule worked_row_cases [OF f(1), of x]) (use that worked assms(2) flight in \<open>auto simp: list_all_iff in_flight_def\<close>)
  ultimately show ?thesis using worked assms(2) f(2) worked_row_id [OF f(1)]
    by (auto simp: list_all_iff set_tbl_update map_tbl_update distinct_map_remove1)
qed (use assms in \<open>auto simp: in_flight_def list_all_iff event_of_def\<close>)

lemma queue_step_budget:
  assumes "queue_step w (s, flight) l (s', flight')" and "queue_ok (s, flight)"
  shows "0 \<le> rounds_left i s'" and "rounds_left i s' + (if l = Worked i then 1 else 0) \<le> rounds_left i s"
proof -
  show "0 \<le> rounds_left i s'" by (simp add: rounds_left_def MAX_ATTEMPTS_def split: option.split)
  show "rounds_left i s' + (if l = Worked i then 1 else 0) \<le> rounds_left i s"
    using assms(1)
  proof (cases rule: queue_step.cases)
    case (dispatched i e r ty p)
    then show ?thesis by (auto simp: rounds_left_def event_of_dispatch MAX_ATTEMPTS_def split: option.split)
  next
    case (ticked t)
    then show ?thesis by (auto simp: rounds_left_def event_of_mark split: option.split)
  next
    case (worked ev e ids)
    obtain f where f: "worked_row ev f"
      "\<forall>i. event_of i (processEvent w e ids ev s) = map_option (\<lambda>x. if we_id x = we_id ev then f x else x) (event_of i s)"
      using processEvent_row [of ev w e ids s] by blast
    from worked assms(2) have "in_flight s ev" by (auto simp: list_all_iff)
    then obtain x where x: "event_of (we_id ev) s = Some x" "we_status x = PROCESSING" "we_attempts x = we_attempts ev" "we_attempts ev < MAX_ATTEMPTS"
      by (auto simp: in_flight_def)
    show ?thesis
    proof (cases "i = we_id ev")
      case True
      show ?thesis
        by (rule worked_row_cases [OF f(1), of x]) (use True x worked event_of_in [OF x(1)] in \<open>auto simp: rounds_left_def f(2)\<close>)
    next
      case False
      with worked show ?thesis using event_of_in [of i s] by (auto simp: rounds_left_def f(2) split: option.split)
    qed
  qed (simp_all add: rounds_left_def)
qed

lemma queue_run_budget:
  assumes "queue_run w c tr c'" and "queue_ok c"
  shows "queue_ok c' \<and> rounds_left i (fst c') + int (count_list tr (Worked i)) \<le> rounds_left i (fst c)"
  using assms
proof (induction rule: queue_run.induct)
  case (queue_more c l c' ls c'')
  have "queue_ok c'" using queue_step_ok queue_more by blast
  with queue_more queue_step_budget(2) [of w "fst c" "snd c" l "fst c'" "snd c'" i] show ?case by auto
qed simp

text \<open>An event nobody will work on again: it is delivered, or it was claimed by a process that died.\<close>

fun event_idle :: "ident \<Rightarrow> webhook_state \<times> webhook_event_row list \<Rightarrow> bool" where
  "event_idle i (s, flight) \<longleftrightarrow> i \<notin> we_id ` set flight \<and> (\<exists>x. event_of i s = Some x \<and> we_status x \<in> {PROCESSING, DELIVERED})"

lemma queue_step_idle:
  assumes "queue_step w c l c'" and "queue_ok c" and "event_idle i c"
  shows "event_idle i c' \<and> l \<noteq> Worked i \<and> event_of i (fst c') = event_of i (fst c)"
  using assms(1)
proof (cases rule: queue_step.cases)
  case (dispatched s flight j e r ty p)
  with assms(3) show ?thesis by (auto simp: event_of_dispatch)
next
  case (ticked s flight t)
  with assms(3) obtain x where x: "event_of i s = Some x" "we_status x \<in> {PROCESSING, DELIVERED}" by auto
  have "i \<notin> we_id ` set (find_due t s)"
    using x event_of_mem [of s] assms(2) ticked set_find_due [of _ t s] by (fastforce simp: event_due_def)
  with ticked assms(3) x show ?thesis by (auto simp: event_of_mark)
next
  case (worked ev flight s e ids)
  obtain f where f: "\<forall>i. event_of i (processEvent w e ids ev s) = map_option (\<lambda>x. if we_id x = we_id ev then f x else x) (event_of i s)"
    using processEvent_row [of ev w e ids s] by blast
  from worked assms(3) obtain x where "event_of i s = Some x" "we_id x = i" "i \<noteq> we_id ev" using event_of_in by auto
  with worked assms(3) set_remove1_subset [of ev flight] show ?thesis by (auto simp: f)
qed (use assms(3) in auto)

lemma queue_run_idle:
  "queue_run w c tr c' \<Longrightarrow> queue_ok c \<Longrightarrow> event_idle i c \<Longrightarrow> Worked i \<notin> set tr \<and> event_of i (fst c') = event_of i (fst c)"
proof (induction rule: queue_run.induct)
  case (queue_more c l c' ls c'')
  then show ?case using queue_step_ok [OF queue_more(1)] queue_step_idle [OF queue_more(1)] by auto
qed simp

lemma delivered_not_in_flight: "queue_ok (s, flight) \<Longrightarrow> event_of i s = Some x \<Longrightarrow> we_status x = DELIVERED \<Longrightarrow> event_idle i (s, flight)"
  by (fastforce simp: list_all_iff in_flight_def)

lemma queue_ok_empty: "wk_events s = [] \<Longrightarrow> queue_ok (s, [])"
  by simp


text \<open>
  An event that was claimed by a process that died before it had worked on it is never worked on again: no tick picks up a row in state
  \<open>PROCESSING\<close>.
\<close>

theorem webhook_crash_loses_event:
  assumes "wk_events s0 = []" and "queue_run w (s0, []) tr (s1, ev # flight)" and "queue_step w (s1, ev # flight) Crashed c"
    and "queue_run w c tr' (s2, flight2)"
  shows "count_list tr' (Worked (we_id ev)) = 0 \<and> map_option we_status (event_of (we_id ev) s2) = Some PROCESSING"
proof -
  have ok: "queue_ok (s1, ev # flight)" using queue_run_budget [OF assms(2) queue_ok_empty [OF assms(1)]] by blast
  from assms(3) have c: "c = (s1, [])" by (simp add: Crashed_iff)
  from ok obtain x where x: "event_of (we_id ev) s1 = Some x" "we_status x = PROCESSING" by (auto simp: in_flight_def)
  then have "event_idle (we_id ev) c" by (simp add: c)
  from queue_run_idle [OF assms(4) queue_step_ok [OF assms(3) ok] this] show ?thesis by (simp add: c x count_list_0_iff)
qed

lemma process_events_other: "i \<notin> we_id ` set evs \<Longrightarrow> event_of i (process_events w clock ids evs s) = event_of i s"
proof (induction evs arbitrary: clock ids s)
  case (Cons a evs)
  have "event_of i (processEvent w (clock 0) (ids 0) a s) = event_of i s"
    by (rule processEvent_row [of a w "clock 0" "ids 0" s]) (use Cons.prems event_of_in [of i s] in \<open>cases "event_of i s"; simp; blast\<close>)
  with Cons show ?case by simp
qed simp

lemma process_events_settled:
  assumes "distinct (map we_id evs)" and "ev \<in> set evs" and "event_of (we_id ev) s \<noteq> None"
  shows "\<exists>y. event_of (we_id ev) (process_events w clock ids evs s) = Some y
    \<and> (we_status y = DELIVERED \<or> we_status y = FAILED \<and> we_attempts y = we_attempts ev + 1)"
  using assms
proof (induction evs arbitrary: clock ids s)
  case (Cons a evs)
  obtain f where f: "worked_row a f"
      "\<forall>i. event_of i (processEvent w (clock 0) (ids 0) a s) = map_option (\<lambda>x. if we_id x = we_id a then f x else x) (event_of i s)"
    using processEvent_row [of a w "clock 0" "ids 0" s] by blast
  show ?case
  proof (cases "ev = a")
    case True
    then have fresh: "we_id ev \<notin> we_id ` set evs" using Cons.prems(1) by simp
    from Cons.prems(3) obtain x where x: "event_of (we_id ev) s = Some x" by blast
    have "event_of (we_id ev) (processEvent w (clock 0) (ids 0) a s) = Some (f x)" using x event_of_in [OF x] True by (simp add: f(2))
    moreover have "we_status (f x) = DELIVERED \<or> we_status (f x) = FAILED \<and> we_attempts (f x) = we_attempts ev + 1"
      by (rule worked_row_cases [OF f(1), of x]) (use True in simp_all)
    moreover note process_events_other [OF fresh, of w "\<lambda>k. clock (Suc k)" "\<lambda>k. ids (Suc k)" "processEvent w (clock 0) (ids 0) a s"]
    ultimately show ?thesis by simp
  next
    case False
    with Cons.prems Cons.IH [of "processEvent w (clock 0) (ids 0) a s" "\<lambda>k. clock (Suc k)" "\<lambda>k. ids (Suc k)"] show ?thesis by (simp add: f(2))
  qed
qed simp

text \<open>
  A tick that is not interrupted settles every event it claims: the event is delivered, or failed with one attempt more.
\<close>

theorem webhook_tick_settles:
  assumes "distinct (map we_id (wk_events s))" and "ev \<in> set (find_due (now e) s)"
  shows "\<exists>y. event_of (we_id ev) (processQueue w e clock ids s) = Some y
    \<and> (we_status y = DELIVERED \<or> we_status y = FAILED \<and> we_attempts y = we_attempts ev + 1)"
proof -
  have "event_of (we_id ev) (mark_processing (find_due (now e) s) s) \<noteq> None"
    using event_of_mem [OF assms(1)] set_find_due [OF assms(2)] by (auto simp: event_of_mark)
  from process_events_settled [OF distinct_find_due [OF assms(1)] assms(2) this] assms(2) show ?thesis
    by (auto simp: processQueue_def Let_def)
qed

text \<open>
  A new event allows four attempts, the query five.  After the fourth failure, which is logged as permanent, the row keeps
  the time it was due, so that the next tick tries it again with no delay; the delay of ten minutes is never used.
\<close>

lemma last_retry_without_delay:
  "event_due t ev \<Longrightarrow> we_attempts ev = 3 \<Longrightarrow> we_maxAttempts ev = 4 \<Longrightarrow> fs \<noteq> [] \<Longrightarrow> event_due t (settle w e ev fs ev)"
  by (simp add: event_due_def settle_def MAX_ATTEMPTS_def RETRY_DELAYS_MS_def)

lemma long_delay_unused:
  assumes "we_maxAttempts ev = 4" and "0 \<le> we_attempts ev"
  shows "we_nextRetryAt (settle w e ev fs x) \<in> {we_nextRetryAt x, now e + 1000, now e + 10000, now e + 60000}"
proof -
  have "we_attempts ev \<in> {0, 1, 2} \<or> 3 \<le> we_attempts ev" using assms(2) by auto
  with assms(1) show ?thesis by (auto simp: settle_def Let_def RETRY_DELAYS_MS_def)
qed

text \<open>Two schedulers that both query before either updates claim the same event, and the second update does not tell.\<close>

lemma overlapping_claims:
  assumes "ev \<in> set (find_due t s)" and "distinct (map we_id (wk_events s))"
  shows "map_option we_status (event_of (we_id ev) (mark_processing (find_due t s) (mark_processing (find_due t s) s))) = Some PROCESSING"
  using assms event_of_mem [OF assms(2)] set_find_due [OF assms(1)] by (auto simp: event_of_mark event_due_def)

subsection \<open>Samples\<close>

definition sample_hook :: webhook_row where
  "sample_hook = \<lparr> wh_id = ''h1'', wh_realmId = ''r1'', wh_url = ''http://example.org/hook'', wh_secret = ''k'', wh_enabled = True,
     wh_eventTypes = [''user.created''], wh_description = None, wh_createdAt = 0 \<rparr>"

definition sample_webhook_world :: webhook_world where
  "sample_webhook_world = \<lparr> ww_net = sample_platform, ww_message = (\<lambda>f. ''failed''),
     ww_dns = (\<lambda>i k h. Some [(''93.184.216.34'', 4)]),
     ww_servers = (\<lambda>i hop target body. Some \<lparr> ans_statusCode = 200, ans_body = ''ok'', ans_location = None \<rparr>) \<rparr>"

definition sample_queue :: webhook_state where
  "sample_queue = \<lparr> wk_hooks = [sample_hook], wk_events = [], wk_deliveries = [], wk_sent = [] \<rparr>"

definition queued :: webhook_state where
  "queued = dispatchEvent sample_env ''e1'' ''r1'' ''user.created'' ''{}'' sample_queue"

definition queued_event :: webhook_event_row where
  "queued_event = hd (wk_events queued)"

definition claimed_queue :: webhook_state where
  "claimed_queue = mark_processing (find_due 1000000 queued) queued"

definition sample_ids :: "nat \<Rightarrow> ident" where
  "sample_ids k = ''d1''"

definition delivered :: webhook_state where
  "delivered = processEvent sample_webhook_world sample_env sample_ids queued_event claimed_queue"

lemma sample_queue_runs:
  "queue_run sample_webhook_world (sample_queue, []) [Dispatched ''e1'', Ticked] (claimed_queue, [queued_event])"
  "queue_run sample_webhook_world (claimed_queue, [queued_event]) [Worked ''e1''] (delivered, [])"
  "queue_step sample_webhook_world (claimed_queue, [queued_event]) Crashed (claimed_queue, [])"
  "queue_run sample_webhook_world (claimed_queue, []) [Ticked] (claimed_queue, [])"
  "queue_run sample_webhook_world (delivered, []) [Ticked] (delivered, [])"
proof -
  have due: "find_due 1000000 queued = [queued_event]" "find_due 2000000 claimed_queue = []" "find_due 2000000 delivered = []" by code_simp+
  have same: "mark_processing [] claimed_queue = claimed_queue" "mark_processing [] delivered = delivered" by code_simp+
  have i: "we_id queued_event = ''e1''" by code_simp
  have "queue_step sample_webhook_world (sample_queue, []) (Dispatched ''e1'') (queued, [])"
    unfolding queued_def by (rule queue_step.dispatched)
  moreover have "queue_step sample_webhook_world (queued, []) Ticked (claimed_queue, [queued_event])"
    using queue_step.ticked [of _ queued "[]" 1000000] by (simp add: due claimed_queue_def)
  ultimately show "queue_run sample_webhook_world (sample_queue, []) [Dispatched ''e1'', Ticked] (claimed_queue, [queued_event])"
    by (auto intro: queue_run.intros)
  have "queue_step sample_webhook_world (claimed_queue, [queued_event]) (Worked ''e1'') (delivered, [])"
    using queue_step.worked [of queued_event "[queued_event]" sample_webhook_world claimed_queue sample_env sample_ids] by (simp add: i delivered_def)
  then show "queue_run sample_webhook_world (claimed_queue, [queued_event]) [Worked ''e1''] (delivered, [])" by (auto intro: queue_run.intros)
  show "queue_step sample_webhook_world (claimed_queue, [queued_event]) Crashed (claimed_queue, [])" by (rule queue_step.crashed)
  have "queue_step sample_webhook_world (c, []) Ticked (c, [])" if "c = claimed_queue \<or> c = delivered" for c
    using queue_step.ticked [of _ c "[]" 2000000] that by (auto simp: due same)
  then show "queue_run sample_webhook_world (claimed_queue, []) [Ticked] (claimed_queue, [])" "queue_run sample_webhook_world (delivered, []) [Ticked] (delivered, [])"
    by (auto intro: queue_run.intros)
qed

theorem webhook_sends_checked_witness:
  "(\<exists>xs. wk_sent delivered = wk_sent claimed_queue @ xs
      \<and> list_all (proper_send sample_webhook_world sample_env ''{}'' (subscribers queued_event claimed_queue)) xs)
   \<and> map (\<lambda>x. (st_pinnedAddress (fst x), snd x)) (wk_sent delivered) = [(''93.184.216.34'', ''{}'', ''sha256=k{}'')]"
proof -
  have "ww_net sample_webhook_world = sample_platform" by (simp add: sample_webhook_world_def)
  moreover have "we_payload queued_event = ''{}''" by code_simp
  ultimately have "\<exists>xs. wk_sent delivered = wk_sent claimed_queue @ xs
      \<and> list_all (proper_send sample_webhook_world sample_env ''{}'' (subscribers queued_event claimed_queue)) xs"
    using webhook_sends_checked [of sample_webhook_world sample_env sample_ids queued_event claimed_queue] sample_platform_laws
    unfolding delivered_def by auto
  moreover have "map (\<lambda>x. (st_pinnedAddress (fst x), snd x)) (wk_sent delivered) = [(''93.184.216.34'', ''{}'', ''sha256=k{}'')]" by code_simp
  ultimately show ?thesis by blast
qed


theorem webhook_crash_loses_event_witness:
  "count_list [Ticked] (Worked (we_id queued_event)) = 0 \<and> map_option we_status (event_of (we_id queued_event) claimed_queue) = Some PROCESSING"
proof -
  have "wk_events sample_queue = []" by code_simp
  then show ?thesis using webhook_crash_loses_event [OF _ sample_queue_runs(1,3,4)] by blast
qed

theorem webhook_tick_settles_witness:
  "\<exists>y. event_of (we_id queued_event) (processQueue sample_webhook_world sample_env (\<lambda>_. sample_env) (\<lambda>_. sample_ids) queued) = Some y
    \<and> (we_status y = DELIVERED \<or> we_status y = FAILED \<and> we_attempts y = we_attempts queued_event + 1)"
proof -
  have "distinct (map we_id (wk_events queued))" "find_due (now sample_env) queued = [queued_event]" by code_simp+
  then show ?thesis using webhook_tick_settles [of queued queued_event sample_env] by simp
qed

end
