(* ===== verification/Clients.thy ===== *)
theory Clients
  imports Users Token_Issue Js_Value
begin

text \<open>
  Administration of clients (\<open>src/src/clients/clients.service.ts\<close>), the cache of their configurations (\<open>cache.service.ts\<close>), the scopes a client starts with
  (\<open>scope-seed.service.ts\<close>) and the check of cross-origin requests against their web origins (\<open>src/src/cors/cors-origin.service.ts\<close>).

  The columns of \<open>Client\<close> that the rest of the model does not read are the rows of \<open>cl_extra\<close>, one for each client with the same key.
  \<open>cl_cache\<close> and \<open>cl_corsRedis\<close> are entries of Redis, \<open>cl_corsLocal\<close> is the memory of the process.
\<close>

subsection \<open>State\<close>

record client_extra =
  cx_id :: ident
  cx_description :: "string option"
  cx_webOrigins :: "string list"
  cx_stepUpCacheDuration :: int
  cx_createdAt :: millis

text \<open>The selected columns: neither the hash of the secret nor the flow is among them.\<close>

record client_view =
  cv_row :: client_row
  cv_extra :: client_extra

record clients_state =
  cl_db :: db
  cl_extra :: "client_extra list"
  cl_cache :: "(string \<times> client_view \<times> millis) list"
  cl_corsRedis :: "(string list \<times> millis) option"
  cl_corsLocal :: "(string list \<times> millis) option"

type_synonym 'a clients_op = "clients_state \<Rightarrow> 'a result \<times> clients_state"

definition CLIENT_SELECT :: "client_row \<Rightarrow> client_extra \<Rightarrow> client_view" where
  "CLIENT_SELECT c x = \<lparr> cv_row = c\<lparr> client_clientSecret := None, client_authFlowId := None \<rparr>, cv_extra = x \<rparr>"

definition extra_of :: "ident \<Rightarrow> clients_state \<Rightarrow> client_extra" where
  "extra_of i s =
     (case List.find (\<lambda>x. cx_id x = i) (cl_extra s) of
        Some x \<Rightarrow> x
      | None \<Rightarrow> \<lparr> cx_id = i, cx_description = None, cx_webOrigins = [], cx_stepUpCacheDuration = 900, cx_createdAt = 0 \<rparr>)"

definition selected :: "clients_state \<Rightarrow> client_row \<Rightarrow> client_view" where
  "selected s c = CLIENT_SELECT c (extra_of (client_id c) s)"

subsection \<open>Caches\<close>

definition client_key :: "string \<Rightarrow> string" where
  "client_key k = ''client:config:'' @ k"

definition cacheClientConfig :: "env \<Rightarrow> string \<Rightarrow> client_view \<Rightarrow> int \<Rightarrow> unit clients_op" where
  "cacheClientConfig e k config ttl s =
     (case redis e of
        RedisDown \<Rightarrow> (Inr (), s)
      | RedisFailing \<Rightarrow> (Inl PlainError, s)
      | RedisUp \<Rightarrow> (Inr (), s\<lparr> cl_cache := (client_key k, config, now e + ttl * 1000) # filter (\<lambda>c. fst c \<noteq> client_key k) (cl_cache s) \<rparr>))"

definition getCachedClientConfig :: "env \<Rightarrow> string \<Rightarrow> clients_state \<Rightarrow> client_view option result" where
  "getCachedClientConfig e k s =
     (case redis e of
        RedisDown \<Rightarrow> Inr None
      | RedisFailing \<Rightarrow> Inl PlainError
      | RedisUp \<Rightarrow> Inr (map_option (fst \<circ> snd) (List.find (\<lambda>c. fst c = client_key k \<and> now e < snd (snd c)) (cl_cache s))))"

definition invalidateClientCache :: "env \<Rightarrow> string \<Rightarrow> unit clients_op" where
  "invalidateClientCache e k s =
     (case redis e of
        RedisDown \<Rightarrow> (Inr (), s)
      | RedisFailing \<Rightarrow> (Inl PlainError, s)
      | RedisUp \<Rightarrow> (Inr (), s\<lparr> cl_cache := filter (\<lambda>c. fst c \<noteq> client_key k) (cl_cache s) \<rparr>))"

definition cacheCorsOrigins :: "env \<Rightarrow> string list \<Rightarrow> int \<Rightarrow> unit clients_op" where
  "cacheCorsOrigins e origins ttl s =
     (case redis e of
        RedisDown \<Rightarrow> (Inr (), s)
      | RedisFailing \<Rightarrow> (Inl PlainError, s)
      | RedisUp \<Rightarrow> (Inr (), s\<lparr> cl_corsRedis := Some (origins, now e + ttl * 1000) \<rparr>))"

definition getCachedCorsOrigins :: "env \<Rightarrow> clients_state \<Rightarrow> string list option result" where
  "getCachedCorsOrigins e s =
     (case redis e of
        RedisDown \<Rightarrow> Inr None
      | RedisFailing \<Rightarrow> Inl PlainError
      | RedisUp \<Rightarrow> Inr (case cl_corsRedis s of None \<Rightarrow> None | Some (origins, expiry) \<Rightarrow> if now e < expiry then Some origins else None))"

definition invalidateCorsOrigins :: "env \<Rightarrow> unit clients_op" where
  "invalidateCorsOrigins e s =
     (case redis e of
        RedisDown \<Rightarrow> (Inr (), s)
      | RedisFailing \<Rightarrow> (Inl PlainError, s)
      | RedisUp \<Rightarrow> (Inr (), s\<lparr> cl_corsRedis := None \<rparr>))"

subsection \<open>Cross-origin requests\<close>

text \<open>\<open>co_baseOrigin\<close> is the origin of \<open>BASE_URL\<close> if that is set and a URL.\<close>

record cors_config =
  co_baseOrigin :: "string option"
  co_production :: bool
  co_port :: "string option"

definition LOCAL_TTL_MS :: int where
  "LOCAL_TTL_MS = 5 * 60 * 1000"

definition invalidateLocalCache :: "clients_state \<Rightarrow> clients_state" where
  "invalidateLocalCache s = s\<lparr> cl_corsLocal := None \<rparr>"

definition getCachedOrigins :: "env \<Rightarrow> clients_state \<Rightarrow> string list option" where
  "getCachedOrigins e s = (case cl_corsLocal s of None \<Rightarrow> None | Some (origins, expiry) \<Rightarrow> if now e < expiry then Some origins else None)"

definition own_origins :: "cors_config \<Rightarrow> string list" where
  "own_origins cfg =
     (case co_baseOrigin cfg of None \<Rightarrow> [] | Some x \<Rightarrow> [x])
     @ (if co_production cfg then [] else [''http://localhost:'' @ nullish_else (co_port cfg) ''3000'', ''http://127.0.0.1:'' @ nullish_else (co_port cfg) ''3000''])"

definition client_origins :: "clients_state \<Rightarrow> string list" where
  "client_origins s = concat (map (\<lambda>c. cx_webOrigins (extra_of (client_id c) s)) (filter client_enabled (clients (cl_db s))))"

definition loadFromDatabase :: "cors_config \<Rightarrow> env \<Rightarrow> clients_state \<Rightarrow> string list \<times> clients_state" where
  "loadFromDatabase cfg e s =
     (let origins = own_origins cfg @ filter (\<lambda>x. x \<noteq> ''*'') (client_origins s)
      in case cacheCorsOrigins e origins 300 s of
           (Inl _, s1) \<Rightarrow> ([], s1)
         | (Inr _, s1) \<Rightarrow> (origins, s1\<lparr> cl_corsLocal := Some (origins, now e + LOCAL_TTL_MS) \<rparr>))"

definition getAllowedOrigins :: "cors_config \<Rightarrow> env \<Rightarrow> string list clients_op" where
  "getAllowedOrigins cfg e s =
     (case getCachedOrigins e s of
        Some origins \<Rightarrow> (Inr origins, s)
      | None \<Rightarrow>
          (case getCachedCorsOrigins e s of
             Inl err \<Rightarrow> (Inl err, s)
           | Inr (Some origins) \<Rightarrow> (Inr origins, s\<lparr> cl_corsLocal := Some (origins, now e + LOCAL_TTL_MS) \<rparr>)
           | Inr None \<Rightarrow> (case loadFromDatabase cfg e s of (origins, s1) \<Rightarrow> (Inr origins, s1))))"

definition isOriginAllowed :: "cors_config \<Rightarrow> env \<Rightarrow> string \<Rightarrow> bool clients_op" where
  "isOriginAllowed cfg e x s = and_then (getAllowedOrigins cfg e s) (\<lambda>origins s1. (Inr (x \<in> set origins), s1))"

definition preloadCache :: "cors_config \<Rightarrow> env \<Rightarrow> clients_state \<Rightarrow> clients_state" where
  "preloadCache cfg e s = snd (loadFromDatabase cfg e s)"

subsection \<open>Clients\<close>

record client_dto =
  cd_clientId :: string
  cd_name :: "string option"
  cd_description :: "string option"
  cd_clientType :: "client_type option"
  cd_publicClient :: "bool option"
  cd_enabled :: "bool option"
  cd_redirectUris :: "string list option"
  cd_postLogoutRedirectUris :: "string list option"
  cd_webOrigins :: "string list option"
  cd_grantTypes :: "string list option"
  cd_requireConsent :: "bool option"
  cd_backchannelLogoutUri :: "string option"
  cd_backchannelLogoutSessionRequired :: "bool option"
  cd_requiredAcr :: "string option"
  cd_stepUpCacheDuration :: "int option"

text \<open>In the body of an update \<open>requiredAcr\<close> may be null.\<close>

record client_patch =
  ct_name :: "string option"
  ct_description :: "string option"
  ct_clientType :: "client_type option"
  ct_enabled :: "bool option"
  ct_redirectUris :: "string list option"
  ct_postLogoutRedirectUris :: "string list option"
  ct_webOrigins :: "string list option"
  ct_grantTypes :: "string list option"
  ct_requireConsent :: "bool option"
  ct_backchannelLogoutUri :: "string option"
  ct_backchannelLogoutSessionRequired :: "bool option"
  ct_requiredAcr :: "string option option"
  ct_stepUpCacheDuration :: "int option"

text \<open>The identifiers, and the secret with its hash, that a request draws.\<close>

record client_draws =
  dr_id :: ident
  dr_userId :: ident
  dr_secret :: string
  dr_hash :: string

definition rejectWildcardOrigins :: "string list option \<Rightarrow> bool" where
  "rejectWildcardOrigins origins = (case origins of None \<Rightarrow> False | Some xs \<Rightarrow> ''*'' \<in> set xs)"

definition getDefaultScopeNames :: "string list" where
  "getDefaultScopeNames = [''openid'', ''profile'', ''email'', ''roles'']"

definition getOptionalScopeNames :: "string list" where
  "getOptionalScopeNames = [''web-origins'', ''offline_access'']"

definition assignBuiltInScopes :: "ident \<Rightarrow> ident \<Rightarrow> db \<Rightarrow> db" where
  "assignBuiltInScopes realmId i s =
     (let allScopes = filter (\<lambda>x. cs_realmId x = realmId \<and> cs_name x \<in> set (getDefaultScopeNames @ getOptionalScopeNames)) (clientScopes s)
      in s\<lparr> clientDefaultScopes := clientDefaultScopes s @
              map (\<lambda>x. (i, cs_id x)) (filter (\<lambda>x. cs_name x \<in> set getDefaultScopeNames) allScopes),
            clientOptionalScopes := clientOptionalScopes s @
              map (\<lambda>x. (i, cs_id x)) (filter (\<lambda>x. cs_name x \<in> set getOptionalScopeNames) allScopes) \<rparr>)"

definition dto_clientType :: "client_dto \<Rightarrow> client_type" where
  "dto_clientType dto = nullish_else (cd_clientType dto) (if cd_publicClient dto = Some True then PUBLIC else CONFIDENTIAL)"

text \<open>The user of a service account is there before the client, and stays when the client cannot be created.\<close>

definition service_account_user :: "env \<Rightarrow> client_draws \<Rightarrow> realm_row \<Rightarrow> client_dto \<Rightarrow> db \<Rightarrow> ident option result \<times> db" where
  "service_account_user e d r dto s =
     (if ''client_credentials'' \<in> set (nullish_else (cd_grantTypes dto) [''authorization_code'']) \<and> dto_clientType dto = CONFIDENTIAL
      then let saUsername = ''service-account-'' @ cd_clientId dto
           in if user_by_username (realm_id r) saUsername s \<noteq> None \<or> user_by_id (dr_userId d) s \<noteq> None then (Inl PrismaUnique, s)
              else (Inr (Some (dr_userId d)), add_user ((new_user (dr_userId d) (realm_id r) saUsername)\<lparr> user_createdAt := now e \<rparr>) s)
      else (Inr None, s))"

definition new_client :: "client_draws \<Rightarrow> realm_row \<Rightarrow> client_dto \<Rightarrow> ident option \<Rightarrow> client_row" where
  "new_client d r dto serviceAccountUserId =
     \<lparr> client_id = dr_id d, client_realmId = realm_id r, client_clientId = cd_clientId dto, client_name = cd_name dto,
       client_clientSecret = (if dto_clientType dto = CONFIDENTIAL then Some (dr_hash d) else None),
       client_clientType = dto_clientType dto, client_enabled = nullish_else (cd_enabled dto) True,
       client_requireConsent = nullish_else (cd_requireConsent dto) False, client_redirectUris = nullish_else (cd_redirectUris dto) [],
       client_grantTypes = nullish_else (cd_grantTypes dto) [''authorization_code''], client_requiredAcr = cd_requiredAcr dto,
       client_serviceAccountUserId = serviceAccountUserId, client_postLogoutRedirectUris = nullish_else (cd_postLogoutRedirectUris dto) [],
       client_backchannelLogoutUri = cd_backchannelLogoutUri dto,
       client_backchannelLogoutSessionRequired = nullish_else (cd_backchannelLogoutSessionRequired dto) True, client_authFlowId = None \<rparr>"

definition new_extra :: "env \<Rightarrow> client_draws \<Rightarrow> client_dto \<Rightarrow> client_extra" where
  "new_extra e d dto =
     \<lparr> cx_id = dr_id d, cx_description = cd_description dto, cx_webOrigins = nullish_else (cd_webOrigins dto) [],
       cx_stepUpCacheDuration = nullish_else (cd_stepUpCacheDuration dto) 900, cx_createdAt = now e \<rparr>"

definition forget_origins :: "env \<Rightarrow> unit clients_op" where
  "forget_origins e s = and_then (invalidateCorsOrigins e s) (\<lambda>_ s1. (Inr (), invalidateLocalCache s1))"

definition create_client :: "env \<Rightarrow> client_draws \<Rightarrow> realm_row \<Rightarrow> client_dto \<Rightarrow> (client_view \<times> string option) clients_op" where
  "create_client e d r dto s =
     (if rejectWildcardOrigins (cd_webOrigins dto) then (Inl BadRequestException, s)
      else if client_by_clientId (realm_id r) (cd_clientId dto) (cl_db s) \<noteq> None then (Inl ConflictException, s)
      else case service_account_user e d r dto (cl_db s) of
             (Inl err, s1) \<Rightarrow> (Inl err, s\<lparr> cl_db := s1 \<rparr>)
           | (Inr serviceAccountUserId, s1) \<Rightarrow>
               if dr_id d \<in> client_id ` set (clients s1) then (Inl PrismaUnique, s\<lparr> cl_db := s1 \<rparr>)
               else let c = new_client d r dto serviceAccountUserId; x = new_extra e d dto;
                        s2 = assignBuiltInScopes (realm_id r) (dr_id d) (s1\<lparr> clients := clients s1 @ [c] \<rparr>)
                    in and_then (forget_origins e (s\<lparr> cl_db := s2, cl_extra := cl_extra s @ [x] \<rparr>))
                         (\<lambda>_ s3. (Inr (CLIENT_SELECT c x, if client_clientType c = CONFIDENTIAL then Some (dr_secret d) else None), s3)))"

definition findAll_clients :: "realm_row \<Rightarrow> clients_state \<Rightarrow> client_view list" where
  "findAll_clients r s =
     order_asc (\<lambda>v. cx_createdAt (cv_extra v)) (map (selected s) (filter (\<lambda>c. client_realmId c = realm_id r) (clients (cl_db s))))"

fun hex_run :: "nat \<Rightarrow> string \<Rightarrow> bool" where
  "hex_run n x \<longleftrightarrow> length x = n \<and> list_all (\<lambda>c. digit_in 16 c \<noteq> None) x"

definition is_uuid :: "string \<Rightarrow> bool" where
  "is_uuid x = (case split_on CHR ''-'' x of [a, b, c, d, e] \<Rightarrow> hex_run 8 a \<and> hex_run 4 b \<and> hex_run 4 c \<and> hex_run 4 d \<and> hex_run 12 e | _ \<Rightarrow> False)"

definition client_row_for :: "realm_row \<Rightarrow> string \<Rightarrow> db \<Rightarrow> client_row option" where
  "client_row_for r clientId s =
     (case client_by_clientId (realm_id r) clientId s of
        Some c \<Rightarrow> Some c
      | None \<Rightarrow>
          if is_uuid clientId
          then (case List.find (\<lambda>c. client_id c = clientId) (clients s) of
                  None \<Rightarrow> None | Some c \<Rightarrow> if client_realmId c \<noteq> realm_id r then None else Some c)
          else None)"

definition config_key :: "realm_row \<Rightarrow> string \<Rightarrow> string" where
  "config_key r clientId = realm_id r @ '':'' @ clientId"

definition findByClientId :: "env \<Rightarrow> realm_row \<Rightarrow> string \<Rightarrow> client_view clients_op" where
  "findByClientId e r clientId s =
     (case getCachedClientConfig e (config_key r clientId) s of
        Inl err \<Rightarrow> (Inl err, s)
      | Inr (Some v) \<Rightarrow> (Inr v, s)
      | Inr None \<Rightarrow>
          (case client_row_for r clientId (cl_db s) of
             None \<Rightarrow> (Inl NotFoundException, s)
           | Some c \<Rightarrow> and_then (cacheClientConfig e (config_key r clientId) (selected s c) 300 s) (\<lambda>_ s1. (Inr (selected s c), s1))))"

definition patched_client :: "client_patch \<Rightarrow> client_row \<Rightarrow> client_row" where
  "patched_client dto c =
     c\<lparr> client_name := given (ct_name dto) (client_name c), client_clientType := nullish_else (ct_clientType dto) (client_clientType c),
        client_enabled := nullish_else (ct_enabled dto) (client_enabled c),
        client_redirectUris := nullish_else (ct_redirectUris dto) (client_redirectUris c),
        client_postLogoutRedirectUris := nullish_else (ct_postLogoutRedirectUris dto) (client_postLogoutRedirectUris c),
        client_grantTypes := nullish_else (ct_grantTypes dto) (client_grantTypes c),
        client_requireConsent := nullish_else (ct_requireConsent dto) (client_requireConsent c),
        client_backchannelLogoutUri := given (ct_backchannelLogoutUri dto) (client_backchannelLogoutUri c),
        client_backchannelLogoutSessionRequired :=
          nullish_else (ct_backchannelLogoutSessionRequired dto) (client_backchannelLogoutSessionRequired c),
        client_requiredAcr := nullish_else (ct_requiredAcr dto) (client_requiredAcr c) \<rparr>"

definition patched_extra :: "client_patch \<Rightarrow> client_extra \<Rightarrow> client_extra" where
  "patched_extra dto x =
     x\<lparr> cx_description := given (ct_description dto) (cx_description x), cx_webOrigins := nullish_else (ct_webOrigins dto) (cx_webOrigins x),
        cx_stepUpCacheDuration := nullish_else (ct_stepUpCacheDuration dto) (cx_stepUpCacheDuration x) \<rparr>"

definition update_client :: "env \<Rightarrow> realm_row \<Rightarrow> string \<Rightarrow> client_patch \<Rightarrow> client_view clients_op" where
  "update_client e r clientIdOrUuid dto s =
     (if rejectWildcardOrigins (ct_webOrigins dto) then (Inl BadRequestException, s)
      else and_then (findByClientId e r clientIdOrUuid s) (\<lambda>existing s1.
        let resolved = client_clientId (cv_row existing)
        in case client_by_clientId (realm_id r) resolved (cl_db s1) of
             None \<Rightarrow> (Inl PrismaNotFound, s1)
           | Some c \<Rightarrow>
               let s2 = s1\<lparr> cl_db := (cl_db s1)\<lparr> clients := tbl_update (\<lambda>x. client_id x = client_id c) (patched_client dto) (clients (cl_db s1)) \<rparr>,
                            cl_extra := tbl_update (\<lambda>x. cx_id x = client_id c) (patched_extra dto) (cl_extra s1) \<rparr>
               in and_then (invalidateClientCache e (config_key r resolved) s2) (\<lambda>_ s3.
                    and_then (forget_origins e s3) (\<lambda>_ s4. (Inr (selected s2 (patched_client dto c)), s4)))))"

text \<open>The rows that refer to a client go with it, and the assignments go with its roles.\<close>

definition delete_client :: "ident \<Rightarrow> db \<Rightarrow> db" where
  "delete_client i s =
     (let gone = role_id ` set (filter (\<lambda>x. role_clientId x = Some i) (roles s))
      in s\<lparr> clients := tbl_delete (\<lambda>c. client_id c = i) (clients s),
            roles := tbl_delete (\<lambda>x. role_clientId x = Some i) (roles s),
            userRoles := tbl_delete (\<lambda>x. snd x \<in> gone) (userRoles s),
            groupRoles := tbl_delete (\<lambda>x. snd x \<in> gone) (groupRoles s),
            authorizationCodes := tbl_delete (\<lambda>a. ac_clientId a = i) (authorizationCodes s),
            userConsents := tbl_delete (\<lambda>x. uco_clientId x = i) (userConsents s),
            consentHistory := tbl_delete (\<lambda>h. ch_clientId h = i) (consentHistory s),
            clientDefaultScopes := tbl_delete (\<lambda>x. fst x = i) (clientDefaultScopes s),
            clientOptionalScopes := tbl_delete (\<lambda>x. fst x = i) (clientOptionalScopes s) \<rparr>)"

definition remove_client :: "env \<Rightarrow> realm_row \<Rightarrow> string \<Rightarrow> unit clients_op" where
  "remove_client e r clientIdOrUuid s =
     and_then (findByClientId e r clientIdOrUuid s) (\<lambda>existing s1.
       let resolved = client_clientId (cv_row existing);
           s2 = (case client_serviceAccountUserId (cv_row existing) of None \<Rightarrow> s1 | Some u \<Rightarrow> s1\<lparr> cl_db := delete_user u (cl_db s1) \<rparr>)
       in case client_by_clientId (realm_id r) resolved (cl_db s2) of
            None \<Rightarrow> (Inl PrismaNotFound, s2)
          | Some c \<Rightarrow>
              and_then (invalidateClientCache e (config_key r resolved)
                          (s2\<lparr> cl_db := delete_client (client_id c) (cl_db s2), cl_extra := tbl_delete (\<lambda>x. cx_id x = client_id c) (cl_extra s2) \<rparr>))
                (\<lambda>_ s3. forget_origins e s3))"

definition getServiceAccount :: "env \<Rightarrow> realm_row \<Rightarrow> string \<Rightarrow> (user_row \<times> role_row list) option clients_op" where
  "getServiceAccount e r clientId s =
     and_then (findByClientId e r clientId s) (\<lambda>v s1.
       case client_serviceAccountUserId (cv_row v) of
         None \<Rightarrow> (Inl NotFoundException, s1)
       | Some i \<Rightarrow>
           (Inr (map_option (\<lambda>u. (u, filter (\<lambda>x. (i, role_id x) \<in> set (userRoles (cl_db s1))) (roles (cl_db s1)))) (user_by_id i (cl_db s1))), s1))"

definition regenerateSecret :: "env \<Rightarrow> client_draws \<Rightarrow> realm_row \<Rightarrow> string \<Rightarrow> (string \<times> string) clients_op" where
  "regenerateSecret e d r clientIdOrUuid s =
     and_then (findByClientId e r clientIdOrUuid s) (\<lambda>v s1.
       let c = cv_row v
       in if client_clientType c \<noteq> CONFIDENTIAL then (Inl ConflictException, s1)
          else if client_id c \<notin> client_id ` set (clients (cl_db s1)) then (Inl PrismaNotFound, s1)
          else and_then (invalidateClientCache e (config_key r (client_clientId c))
                   (s1\<lparr> cl_db := (cl_db s1)\<lparr> clients :=
                          tbl_update (\<lambda>x. client_id x = client_id c) (\<lambda>x. x\<lparr> client_clientSecret := Some (dr_hash d) \<rparr>) (clients (cl_db s1)) \<rparr> \<rparr>))
                 (\<lambda>_ s2. (Inr (client_clientId c, dr_secret d), s2)))"

subsection \<open>Requests and what they keep\<close>

datatype client_request =
    CreateClient env client_draws realm_row client_dto
  | UpdateClient env realm_row string client_patch
  | RemoveClient env realm_row string
  | LookupClient env realm_row string
  | ServiceAccountOf env realm_row string
  | RegenerateSecret env client_draws realm_row string
  | CheckOrigin env string
  | Preload env

fun client_apply :: "cors_config \<Rightarrow> client_request \<Rightarrow> clients_state \<Rightarrow> clients_state" where
  "client_apply cfg (CreateClient e d r dto) s = snd (create_client e d r dto s)"
| "client_apply cfg (UpdateClient e r i dto) s = snd (update_client e r i dto s)"
| "client_apply cfg (RemoveClient e r i) s = snd (remove_client e r i s)"
| "client_apply cfg (LookupClient e r i) s = snd (findByClientId e r i s)"
| "client_apply cfg (ServiceAccountOf e r i) s = snd (getServiceAccount e r i s)"
| "client_apply cfg (RegenerateSecret e d r i) s = snd (regenerateSecret e d r i s)"
| "client_apply cfg (CheckOrigin e x) s = snd (isOriginAllowed cfg e x s)"
| "client_apply cfg (Preload e) s = preloadCache cfg e s"

text \<open>Redis answers throughout, and realm identifiers have no colon.\<close>

definition key_realm :: "realm_row \<Rightarrow> bool" where
  "key_realm r \<longleftrightarrow> CHR '':'' \<notin> set (realm_id r)"

fun steady :: "client_request \<Rightarrow> bool" where
  "steady (CreateClient e d r dto) \<longleftrightarrow> redis e = RedisUp \<and> key_realm r"
| "steady (UpdateClient e r i dto) \<longleftrightarrow> redis e = RedisUp \<and> key_realm r"
| "steady (RemoveClient e r i) \<longleftrightarrow> redis e = RedisUp \<and> key_realm r"
| "steady (LookupClient e r i) \<longleftrightarrow> redis e = RedisUp \<and> key_realm r"
| "steady (ServiceAccountOf e r i) \<longleftrightarrow> redis e = RedisUp \<and> key_realm r"
| "steady (RegenerateSecret e d r i) \<longleftrightarrow> redis e = RedisUp \<and> key_realm r"
| "steady (CheckOrigin e x) \<longleftrightarrow> redis e = RedisUp"
| "steady (Preload e) \<longleftrightarrow> redis e = RedisUp"

definition client_tables_ok :: "clients_state \<Rightarrow> bool" where
  "client_tables_ok s \<longleftrightarrow> distinct (map client_id (clients (cl_db s))) \<and> map cx_id (cl_extra s) = map client_id (clients (cl_db s))
     \<and> distinct (map (\<lambda>c. (client_realmId c, client_clientId c)) (clients (cl_db s)))"

definition view_at :: "ident \<Rightarrow> string \<Rightarrow> clients_state \<Rightarrow> client_view option" where
  "view_at rid cid s = map_option (selected s) (client_by_clientId rid cid (cl_db s))"

definition entry_of :: "ident \<Rightarrow> string \<Rightarrow> string \<Rightarrow> bool" where
  "entry_of rid cid k \<longleftrightarrow> CHR '':'' \<notin> set rid \<and> \<not> is_uuid cid \<and> k = client_key (rid @ '':'' @ cid)"

definition cache_ok :: "clients_state \<Rightarrow> bool" where
  "cache_ok s \<longleftrightarrow> (\<forall>k v t rid cid. (k, v, t) \<in> set (cl_cache s) \<longrightarrow> entry_of rid cid k \<longrightarrow> view_at rid cid s = Some v)"

definition allowed_origins :: "cors_config \<Rightarrow> clients_state \<Rightarrow> string set" where
  "allowed_origins cfg s = set (own_origins cfg) \<union> (set (client_origins s) - {''*''})"

definition cors_ok :: "cors_config \<Rightarrow> clients_state \<Rightarrow> bool" where
  "cors_ok cfg s \<longleftrightarrow> (\<forall>xs t. cl_corsRedis s = Some (xs, t) \<or> cl_corsLocal s = Some (xs, t) \<longrightarrow> set xs = allowed_origins cfg s)"

definition caches_ok :: "cors_config \<Rightarrow> clients_state \<Rightarrow> bool" where
  "caches_ok cfg s \<longleftrightarrow> client_tables_ok s \<and> cache_ok s \<and> cors_ok cfg s"

lemma same_tables:
  assumes "cl_db s' = cl_db s" and "cl_extra s' = cl_extra s"
  shows "view_at rid cid s' = view_at rid cid s" and "allowed_origins cfg s' = allowed_origins cfg s" and "client_tables_ok s' \<longleftrightarrow> client_tables_ok s"
proof -
  have "extra_of i s' = extra_of i s" for i using assms by (simp add: extra_of_def)
  then have "selected s' = selected s" "client_origins s' = client_origins s" using assms by (auto simp: selected_def client_origins_def)
  then show "view_at rid cid s' = view_at rid cid s" "allowed_origins cfg s' = allowed_origins cfg s" "client_tables_ok s' \<longleftrightarrow> client_tables_ok s"
    using assms by (simp_all add: view_at_def allowed_origins_def client_tables_ok_def)
qed

lemma entry_of_key: "entry_of rid cid (client_key (config_key r x)) \<Longrightarrow> key_realm r \<Longrightarrow> rid = realm_id r \<and> cid = x"
  by (auto simp: entry_of_def client_key_def config_key_def key_realm_def append_eq_append_conv2 append_eq_Cons_conv Cons_eq_append_conv)

text \<open>A lookup that answers: from the cache, or from the tables with a new entry.\<close>

lemma findByClientId_cases:
  assumes "findByClientId e r i s = (res, s')" and "redis e = RedisUp"
  obtains v t where "res = Inr v" "s' = s" "(client_key (config_key r i), v, t) \<in> set (cl_cache s)"
  | "res = Inl NotFoundException" "s' = s" "client_row_for r i (cl_db s) = None"
  | c where "client_row_for r i (cl_db s) = Some c" "res = Inr (selected s c)"
      "s' = s\<lparr> cl_cache := (client_key (config_key r i), selected s c, now e + 300000) # filter (\<lambda>x. fst x \<noteq> client_key (config_key r i)) (cl_cache s) \<rparr>"
proof (cases "List.find (\<lambda>c. fst c = client_key (config_key r i) \<and> now e < snd (snd c)) (cl_cache s)")
  case (Some entry)
  obtain k v t where entry: "entry = (k, v, t)" by (cases entry)
  with find_SomeD [OF Some] have "(client_key (config_key r i), v, t) \<in> set (cl_cache s)" by auto
  moreover have "res = Inr v" "s' = s" using assms Some entry by (auto simp: findByClientId_def getCachedClientConfig_def)
  ultimately show thesis using that(1) by blast
next
  case None
  then show thesis
  proof (cases "client_row_for r i (cl_db s)")
    case no_row: None
    have "findByClientId e r i s = (Inl NotFoundException, s)" using None no_row assms(2) by (simp add: findByClientId_def getCachedClientConfig_def)
    with assms(1) no_row show ?thesis using that(2) by simp
  next
    case (Some c)
    have "findByClientId e r i s = (Inr (selected s c), s\<lparr> cl_cache := (client_key (config_key r i), selected s c, now e + 300000) #
        filter (\<lambda>x. fst x \<noteq> client_key (config_key r i)) (cl_cache s) \<rparr>)"
      using None Some assms(2) by (simp add: findByClientId_def getCachedClientConfig_def cacheClientConfig_def)
    with assms(1) Some show ?thesis using that(3) by simp
  qed
qed

lemma client_row_for_name: "\<not> is_uuid i \<Longrightarrow> client_row_for r i s = client_by_clientId (realm_id r) i s"
  by (simp add: client_row_for_def split: option.split)

lemma findByClientId_keeps:
  assumes "redis e = RedisUp" and "key_realm r" and "caches_ok cfg s" and "findByClientId e r i s = (res, s')"
  shows "caches_ok cfg s'" and "cl_db s' = cl_db s" and "cl_extra s' = cl_extra s"
proof -
  have "caches_ok cfg s' \<and> cl_db s' = cl_db s \<and> cl_extra s' = cl_extra s"
  proof (rule findByClientId_cases [OF assms(4,1)])
    fix c
    assume row: "client_row_for r i (cl_db s) = Some c" and s': "s' = s\<lparr> cl_cache := (client_key (config_key r i), selected s c, now e + 300000) # filter (\<lambda>x. fst x \<noteq> client_key (config_key r i)) (cl_cache s) \<rparr>"
    have db: "cl_db s' = cl_db s" "cl_extra s' = cl_extra s" "cl_corsRedis s' = cl_corsRedis s" "cl_corsLocal s' = cl_corsLocal s"
      and cache: "cl_cache s' = (client_key (config_key r i), selected s c, now e + 300000) # filter (\<lambda>x. fst x \<noteq> client_key (config_key r i)) (cl_cache s)"
      by (simp_all add: s')
    note same = same_tables [OF db(1,2)]
    have "view_at rid cid s = Some (selected s c)" if "entry_of rid cid (client_key (config_key r i))" for rid cid
      using entry_of_key [OF that assms(2)] row client_row_for_name [of i r] that by (auto simp: view_at_def entry_of_def)
    then have "cache_ok s'" using assms(3) by (auto simp: cache_ok_def caches_ok_def same cache) blast
    then show ?thesis using assms(3) by (simp add: caches_ok_def cors_ok_def same db)
  qed (use assms(3) in auto)
  then show "caches_ok cfg s'" "cl_db s' = cl_db s" "cl_extra s' = cl_extra s" by auto
qed

lemma isOriginAllowed_keeps:
  assumes "redis e = RedisUp" and "caches_ok cfg s"
  shows "caches_ok cfg (snd (isOriginAllowed cfg e x s))" and "fst (isOriginAllowed cfg e x s) = Inr (x \<in> allowed_origins cfg s)"
proof -
  have load: "loadFromDatabase cfg e s = (own_origins cfg @ filter (\<lambda>x. x \<noteq> ''*'') (client_origins s),
      s\<lparr> cl_corsRedis := Some (own_origins cfg @ filter (\<lambda>x. x \<noteq> ''*'') (client_origins s), now e + 300000),
         cl_corsLocal := Some (own_origins cfg @ filter (\<lambda>x. x \<noteq> ''*'') (client_origins s), now e + LOCAL_TTL_MS) \<rparr>)"
    using assms(1) by (simp add: loadFromDatabase_def cacheCorsOrigins_def Let_def)
  let ?good = "\<lambda>xs s'. set xs = allowed_origins cfg s \<and> cl_db s' = cl_db s \<and> cl_extra s' = cl_extra s \<and> cl_cache s' = cl_cache s
     \<and> (cl_corsRedis s' = cl_corsRedis s \<or> (\<exists>t. cl_corsRedis s' = Some (xs, t)))
     \<and> (cl_corsLocal s' = cl_corsLocal s \<or> (\<exists>t. cl_corsLocal s' = Some (xs, t)))"
  obtain xs s' where run: "getAllowedOrigins cfg e s = (Inr xs, s')" and out: "?good xs s'"
  proof (cases "getCachedOrigins e s")
    case (Some xs)
    then have "set xs = allowed_origins cfg s"
      using assms(2) by (auto simp: getCachedOrigins_def caches_ok_def cors_ok_def split: option.splits if_splits)
    with Some show ?thesis using that [of xs s] by (simp add: getAllowedOrigins_def)
  next
    case local: None
    show ?thesis
    proof (cases "getCachedCorsOrigins e s = Inr None")
      case True
      with local load show ?thesis using that by (simp add: getAllowedOrigins_def allowed_origins_def set_diff_eq Collect_conj_eq)
    next
      case False
      then obtain xs where "getCachedCorsOrigins e s = Inr (Some xs)" "set xs = allowed_origins cfg s"
        using assms by (auto simp: getCachedCorsOrigins_def caches_ok_def cors_ok_def split: option.splits if_splits)
      with local show ?thesis using that [of xs] by (simp add: getAllowedOrigins_def)
    qed
  qed
  from out have db: "cl_db s' = cl_db s" "cl_extra s' = cl_extra s" "cl_cache s' = cl_cache s" by blast+
  note same = same_tables [OF db(1,2)]
  have "set ys = allowed_origins cfg s" if "cl_corsRedis s' = Some (ys, t) \<or> cl_corsLocal s' = Some (ys, t)" for ys t
  proof -
    from that out consider "ys = xs" | "cl_corsRedis s = Some (ys, t) \<or> cl_corsLocal s = Some (ys, t)" by auto
    then show ?thesis using out assms(2) unfolding caches_ok_def cors_ok_def by cases blast+
  qed
  then have "cors_ok cfg s'" by (auto simp: cors_ok_def same)
  with assms(2) have "caches_ok cfg s'" by (simp add: caches_ok_def cache_ok_def same db)
  then show "caches_ok cfg (snd (isOriginAllowed cfg e x s))" "fst (isOriginAllowed cfg e x s) = Inr (x \<in> allowed_origins cfg s)"
    using run out by (simp_all add: isOriginAllowed_def)
qed

subsection \<open>Changes of a client\<close>

lemma forget_origins_up: "redis e = RedisUp \<Longrightarrow> forget_origins e s = (Inr (), s\<lparr> cl_corsRedis := None, cl_corsLocal := None \<rparr>)"
  by (simp add: forget_origins_def invalidateCorsOrigins_def invalidateLocalCache_def)

lemma invalidateClientCache_up:
  "redis e = RedisUp \<Longrightarrow> invalidateClientCache e k s = (Inr (), s\<lparr> cl_cache := filter (\<lambda>c. fst c \<noteq> client_key k) (cl_cache s) \<rparr>)"
  by (simp add: invalidateClientCache_def)

text \<open>
  The caches after a change: one entry was dropped, only the client of that entry differs in the tables, and either the origins were
  dropped too or they are the same.
\<close>

lemma caches_ok_changed:
  assumes "caches_ok cfg s" and "client_tables_ok s'" and "set (cl_cache s') \<subseteq> set (cl_cache s)"
    and others: "\<And>rid cid. view_at rid cid s' \<noteq> view_at rid cid s \<Longrightarrow> entry_of rid cid k \<Longrightarrow> k \<notin> fst ` set (cl_cache s')"
    and named: "\<And>rid cid. view_at rid cid s' \<noteq> view_at rid cid s \<Longrightarrow> k = client_key (rid @ '':'' @ cid)"
    and cors: "cl_corsRedis s' = None \<and> cl_corsLocal s' = None
      \<or> cl_corsRedis s' = cl_corsRedis s \<and> cl_corsLocal s' = cl_corsLocal s \<and> allowed_origins cfg s' = allowed_origins cfg s"
  shows "caches_ok cfg s'"
proof -
  have "view_at rid cid s' = Some v" if "(j, v, t) \<in> set (cl_cache s')" "entry_of rid cid j" for j v t rid cid
  proof -
    have "view_at rid cid s = Some v" using that assms(1,3) unfolding caches_ok_def cache_ok_def by blast
    moreover have "view_at rid cid s' = view_at rid cid s"
    proof (rule ccontr)
      assume differs: "view_at rid cid s' \<noteq> view_at rid cid s"
      with named have "j = k" using that(2) by (simp add: entry_of_def)
      with others [OF differs] that show False by force
    qed
    ultimately show ?thesis by simp
  qed
  then have "cache_ok s'" by (auto simp: cache_ok_def)
  moreover have "cors_ok cfg s'" using cors assms(1) by (elim disjE) (simp_all add: cors_ok_def caches_ok_def)
  ultimately show ?thesis using assms(2) by (simp add: caches_ok_def)
qed

lemma find_snoc_miss: "\<not> p x \<Longrightarrow> List.find p (xs @ [x]) = List.find p xs"
  by (induction xs) auto

lemma find_filter_same: "(\<And>x. x \<in> set xs \<Longrightarrow> p x \<Longrightarrow> q x) \<Longrightarrow> List.find p (filter q xs) = List.find p xs"
  by (induction xs) auto

lemma find_tbl_update_miss:
  "(\<And>x. p (f x) = p x) \<Longrightarrow> (\<And>x. p x \<Longrightarrow> \<not> q x) \<Longrightarrow> List.find p (tbl_update q f xs) = List.find p xs"
  by (induction xs) auto

lemma client_by_clientId_row:
  "client_by_clientId rid cid s = Some c \<Longrightarrow> c \<in> set (clients s) \<and> client_realmId c = rid \<and> client_clientId c = cid"
  by (auto simp: client_by_clientId_def dest: find_SomeD)

lemma view_at_update:
  assumes "client_tables_ok s" and "c \<in> set (clients (cl_db s))"
    and "clients (cl_db s') = tbl_update (\<lambda>x. client_id x = client_id c) f (clients (cl_db s))"
    and "cl_extra s' = tbl_update (\<lambda>x. cx_id x = client_id c) g (cl_extra s)"
    and f: "\<And>x. client_id (f x) = client_id x \<and> client_realmId (f x) = client_realmId x \<and> client_clientId (f x) = client_clientId x"
    and g: "\<And>x. cx_id (g x) = cx_id x"
  shows "client_tables_ok s'" and "view_at rid cid s' \<noteq> view_at rid cid s \<Longrightarrow> rid = client_realmId c \<and> cid = client_clientId c"
proof -
  show "client_tables_ok s'" using assms(1,3,4) f g by (simp add: client_tables_ok_def map_tbl_update)
  assume differs: "view_at rid cid s' \<noteq> view_at rid cid s"
  have by_id: "client_by_clientId rid cid (cl_db s') = map_option (\<lambda>x. if client_id x = client_id c then f x else x) (client_by_clientId rid cid (cl_db s))"
    unfolding client_by_clientId_def assms(3) by (rule find_tbl_update_inv) (simp add: f)
  show "rid = client_realmId c \<and> cid = client_clientId c"
  proof (cases "client_by_clientId rid cid (cl_db s)")
    case None
    with differs by_id show ?thesis by (simp add: view_at_def)
  next
    case (Some d)
    note row = client_by_clientId_row [OF Some]
    show ?thesis
    proof (cases "client_id d = client_id c")
      case True
      with row assms(1,2) have "d = c" by (auto simp: client_tables_ok_def intro: distinct_id_eq)
      with row show ?thesis by simp
    next
      case False
      then have "extra_of (client_id d) s' = extra_of (client_id d) s"
        using find_tbl_update_miss [of "\<lambda>x. cx_id x = client_id d" g "\<lambda>x. cx_id x = client_id c" "cl_extra s"] by (simp add: extra_of_def assms(4) g)
      with differs by_id Some False show ?thesis by (simp add: view_at_def selected_def)
    qed
  qed
qed

lemma view_at_delete:
  assumes "client_tables_ok s" and "c \<in> set (clients (cl_db s))"
    and "clients (cl_db s') = tbl_delete (\<lambda>x. client_id x = client_id c) (clients (cl_db s))"
    and "cl_extra s' = tbl_delete (\<lambda>x. cx_id x = client_id c) (cl_extra s)"
  shows "client_tables_ok s'" and "view_at rid cid s' \<noteq> view_at rid cid s \<Longrightarrow> rid = client_realmId c \<and> cid = client_clientId c"
proof -
  have keys: "map g (filter (\<lambda>x. g x \<noteq> i) xs) = filter (\<lambda>y. y \<noteq> i) (map g xs)" for g :: "'b \<Rightarrow> ident" and i xs
    by (simp add: filter_map comp_def)
  show "client_tables_ok s'" using assms(1,3,4)
    by (simp add: client_tables_ok_def tbl_delete_def keys) (simp add: distinct_map_filter)
  assume differs: "view_at rid cid s' \<noteq> view_at rid cid s"
  show "rid = client_realmId c \<and> cid = client_clientId c"
  proof (rule ccontr)
    assume other: "\<not> (rid = client_realmId c \<and> cid = client_clientId c)"
    have "x = c" if "x \<in> set (clients (cl_db s))" "client_id x = client_id c" for x
      using that assms(1,2) by (auto simp: client_tables_ok_def intro: distinct_id_eq)
    then have find: "client_by_clientId rid cid (cl_db s') = client_by_clientId rid cid (cl_db s)"
      using other unfolding client_by_clientId_def assms(3) tbl_delete_def
      by (intro find_filter_same) auto
    moreover have "extra_of (client_id d) s' = extra_of (client_id d) s" if "client_id d \<noteq> client_id c" for d :: client_row
      using that find_filter_same [of "cl_extra s" "\<lambda>x. cx_id x = client_id d" "\<lambda>x. cx_id x \<noteq> client_id c"]
      by (simp add: extra_of_def assms(4) tbl_delete_def)
    moreover have "client_id d \<noteq> client_id c" if "client_by_clientId rid cid (cl_db s) = Some d" for d
      using client_by_clientId_row [OF that] other assms(1,2) distinct_id_eq [of client_id "clients (cl_db s)" d c] by (auto simp: client_tables_ok_def)
    ultimately show False using differs by (cases "client_by_clientId rid cid (cl_db s)") (simp_all add: view_at_def selected_def)
  qed
qed

lemma service_account_user_other:
  "service_account_user e d r dto s = (res, s1) \<Longrightarrow> clients s1 = clients s \<and> clientScopes s1 = clientScopes s"
  by (auto simp: service_account_user_def Let_def add_user_def split: if_splits)

lemma assignBuiltInScopes_clients [simp]: "clients (assignBuiltInScopes rid i s) = clients s"
  by (simp add: assignBuiltInScopes_def Let_def)

lemma create_client_keeps:
  assumes "redis e = RedisUp" and "key_realm r" and "caches_ok cfg s"
  shows "caches_ok cfg (snd (create_client e d r dto s))"
proof (cases "rejectWildcardOrigins (cd_webOrigins dto) \<or> client_by_clientId (realm_id r) (cd_clientId dto) (cl_db s) \<noteq> None")
  case True
  with assms(3) show ?thesis by (auto simp: create_client_def)
next
  case False
  obtain res s1 where sa: "service_account_user e d r dto (cl_db s) = (res, s1)" by fastforce
  note c1 = service_account_user_other [OF sa]
  let ?a = "s\<lparr> cl_db := s1 \<rparr>"
  have "view_at rid cid ?a = view_at rid cid s" "allowed_origins cfg ?a = allowed_origins cfg s" for rid cid
  proof -
    have "extra_of i ?a = extra_of i s" for i by (simp add: extra_of_def)
    then have "selected ?a = selected s" "client_origins ?a = client_origins s" using c1 by (auto simp: selected_def client_origins_def)
    then show "view_at rid cid ?a = view_at rid cid s" "allowed_origins cfg ?a = allowed_origins cfg s"
      using c1 by (simp_all add: view_at_def allowed_origins_def client_by_clientId_def)
  qed
  then have a_ok: "caches_ok cfg ?a" using assms(3) c1 by (simp add: caches_ok_def cache_ok_def cors_ok_def client_tables_ok_def)
  show ?thesis
  proof (cases res)
    case (Inl err)
    with False sa a_ok show ?thesis by (simp add: create_client_def)
  next
    case (Inr sau)
    show ?thesis
    proof (cases "dr_id d \<in> client_id ` set (clients s1)")
      case True
      with False sa Inr a_ok show ?thesis by (simp add: create_client_def)
    next
      case fresh: False
      define c where "c = new_client d r dto sau"
      define x where "x = new_extra e d dto"
      define s' where "s' = ?a\<lparr> cl_db := assignBuiltInScopes (realm_id r) (dr_id d) (s1\<lparr> clients := clients s1 @ [c] \<rparr>), cl_extra := cl_extra s @ [x],
          cl_corsRedis := None, cl_corsLocal := None \<rparr>"
      have run: "snd (create_client e d r dto s) = s'"
        using False sa Inr fresh assms(1) by (simp add: create_client_def Let_def forget_origins_up s'_def c_def x_def)
      have ids: "client_id c = dr_id d" "cx_id x = dr_id d" "client_realmId c = realm_id r" "client_clientId c = cd_clientId dto"
        by (simp_all add: c_def x_def new_client_def new_extra_def)
      have tab: "clients (cl_db s') = clients (cl_db s) @ [c]" "cl_extra s' = cl_extra s @ [x]" using c1 by (simp_all add: s'_def)
      have none: "view_at (realm_id r) (cd_clientId dto) s = None" using False by (simp add: view_at_def)
      have differs: "rid = realm_id r \<and> cid = cd_clientId dto" if "view_at rid cid s' \<noteq> view_at rid cid s" for rid cid
      proof (rule ccontr)
        assume other: "\<not> (rid = realm_id r \<and> cid = cd_clientId dto)"
        then have "client_by_clientId rid cid (cl_db s') = client_by_clientId rid cid (cl_db s)"
          unfolding client_by_clientId_def tab by (intro find_snoc_miss) (auto simp: ids)
        moreover have "extra_of (client_id y) s' = extra_of (client_id y) s" if "client_by_clientId rid cid (cl_db s) = Some y" for y
        proof -
          have "dr_id d \<noteq> client_id y" using client_by_clientId_row [OF that] fresh c1 by auto
          then show ?thesis using find_snoc_miss [of "\<lambda>z. cx_id z = client_id y" x "cl_extra s"] by (simp add: extra_of_def tab ids)
        qed
        ultimately show False using that by (cases "client_by_clientId rid cid (cl_db s)") (simp_all add: view_at_def selected_def)
      qed
      have "client_tables_ok s'"
        using assms(3) fresh c1 False unfolding caches_ok_def client_tables_ok_def tab
        by (auto simp: ids client_by_clientId_def find_None_iff)
      moreover have keep: "cl_cache s' = cl_cache s" "cl_corsRedis s' = None" "cl_corsLocal s' = None" by (simp_all add: s'_def)
      moreover have "k \<notin> fst ` set (cl_cache s')" if "view_at rid cid s' \<noteq> view_at rid cid s" "entry_of rid cid k" for rid cid k
        using differs [OF that(1)] none that(2) assms(3) unfolding caches_ok_def cache_ok_def keep by fastforce
      moreover have "client_key (config_key r (cd_clientId dto)) = client_key (rid @ '':'' @ cid)" if "view_at rid cid s' \<noteq> view_at rid cid s" for rid cid
        using differs [OF that] by (simp add: config_key_def)
      ultimately have "caches_ok cfg s'"
        by (intro caches_ok_changed [OF assms(3), of s' "client_key (config_key r (cd_clientId dto))"]) simp_all
      with run show ?thesis by simp
    qed
  qed
qed

lemma update_client_keeps:
  assumes "redis e = RedisUp" and "key_realm r" and "caches_ok cfg s"
  shows "caches_ok cfg (snd (update_client e r i dto s))"
proof -
  obtain res s1 where look: "findByClientId e r i s = (res, s1)" by fastforce
  note ok1 = findByClientId_keeps [OF assms look]
  show ?thesis
  proof (cases "rejectWildcardOrigins (ct_webOrigins dto) \<or> (\<exists>err. res = Inl err)")
    case True
    with look ok1 assms(3) show ?thesis by (auto simp: update_client_def)
  next
    case False
    then obtain v where v: "res = Inr v" "\<not> rejectWildcardOrigins (ct_webOrigins dto)" by (cases res) auto
    define n where "n = client_clientId (cv_row v)"
    show ?thesis
    proof (cases "client_by_clientId (realm_id r) n (cl_db s1)")
      case None
      with v look ok1 show ?thesis by (simp add: update_client_def n_def)
    next
      case (Some c)
      note row = client_by_clientId_row [OF Some]
      define s2 where "s2 = s1\<lparr> cl_db := (cl_db s1)\<lparr> clients := tbl_update (\<lambda>x. client_id x = client_id c) (patched_client dto) (clients (cl_db s1)) \<rparr>,
        cl_extra := tbl_update (\<lambda>x. cx_id x = client_id c) (patched_extra dto) (cl_extra s1),
        cl_cache := filter (\<lambda>x. fst x \<noteq> client_key (config_key r n)) (cl_cache s1), cl_corsRedis := None, cl_corsLocal := None \<rparr>"
      have run: "snd (update_client e r i dto s) = s2"
        using look v Some assms(1) by (simp add: update_client_def Let_def n_def invalidateClientCache_up forget_origins_up s2_def)
      have "client_tables_ok s2" and differs: "view_at rid cid s2 \<noteq> view_at rid cid s1 \<Longrightarrow> rid = client_realmId c \<and> cid = client_clientId c" for rid cid
        using view_at_update [where s = s1 and c = c and s' = s2 and f = "patched_client dto" and g = "patched_extra dto"] row ok1(1)
        by (simp_all add: s2_def caches_ok_def patched_client_def patched_extra_def)
      then have "caches_ok cfg s2"
        using row by (intro caches_ok_changed [OF ok1(1), of s2 "client_key (config_key r n)"]) (auto simp: s2_def config_key_def)
      with run show ?thesis by simp
    qed
  qed
qed

lemma delete_user_clients [simp]: "clients (delete_user u s) = clients s"
  by (simp add: delete_user_def delete_sessions_def Let_def)

lemma remove_client_keeps:
  assumes "redis e = RedisUp" and "key_realm r" and "caches_ok cfg s"
  shows "caches_ok cfg (snd (remove_client e r i s))"
proof -
  obtain res s1 where look: "findByClientId e r i s = (res, s1)" by fastforce
  note ok1 = findByClientId_keeps(1) [OF assms look]
  show ?thesis
  proof (cases res)
    case (Inl err)
    with look ok1 show ?thesis by (simp add: remove_client_def)
  next
    case (Inr v)
    define n where "n = client_clientId (cv_row v)"
    define s2 where "s2 = (case client_serviceAccountUserId (cv_row v) of None \<Rightarrow> s1 | Some u \<Rightarrow> s1\<lparr> cl_db := delete_user u (cl_db s1) \<rparr>)"
    have tab2: "clients (cl_db s2) = clients (cl_db s1)" "cl_extra s2 = cl_extra s1" "cl_cache s2 = cl_cache s1" "cl_corsRedis s2 = cl_corsRedis s1"
      "cl_corsLocal s2 = cl_corsLocal s1" by (simp_all add: s2_def split: option.split)
    have "extra_of j s2 = extra_of j s1" for j by (simp add: extra_of_def tab2)
    then have "selected s2 = selected s1" "client_origins s2 = client_origins s1" by (auto simp: selected_def client_origins_def tab2)
    then have same: "view_at rid cid s2 = view_at rid cid s1" "allowed_origins cfg s2 = allowed_origins cfg s1" for rid cid
      by (simp_all add: view_at_def allowed_origins_def client_by_clientId_def tab2)
    have ok2: "caches_ok cfg s2" using ok1 by (simp add: caches_ok_def cache_ok_def cors_ok_def client_tables_ok_def same tab2)
    show ?thesis
    proof (cases "client_by_clientId (realm_id r) n (cl_db s2)")
      case None
      with Inr look ok2 show ?thesis by (simp add: remove_client_def n_def s2_def Let_def)
    next
      case (Some c)
      note row = client_by_clientId_row [OF Some]
      define s3 where "s3 = s2\<lparr> cl_db := delete_client (client_id c) (cl_db s2), cl_extra := tbl_delete (\<lambda>x. cx_id x = client_id c) (cl_extra s2),
        cl_cache := filter (\<lambda>x. fst x \<noteq> client_key (config_key r n)) (cl_cache s2), cl_corsRedis := None, cl_corsLocal := None \<rparr>"
      have run: "snd (remove_client e r i s) = s3"
        using look Inr Some assms(1)
        by (simp add: remove_client_def Let_def n_def [symmetric] s2_def [symmetric] invalidateClientCache_up forget_origins_up s3_def)
      have "client_tables_ok s3" and differs: "view_at rid cid s3 \<noteq> view_at rid cid s2 \<Longrightarrow> rid = client_realmId c \<and> cid = client_clientId c" for rid cid
        using view_at_delete [where s = s2 and c = c and s' = s3] row ok2 by (simp_all add: s3_def caches_ok_def delete_client_def Let_def)
      then have "caches_ok cfg s3"
        using row by (intro caches_ok_changed [OF ok2, of s3 "client_key (config_key r n)"]) (auto simp: s3_def config_key_def)
      with run show ?thesis by simp
    qed
  qed
qed

lemma regenerateSecret_keeps:
  assumes "redis e = RedisUp" and "key_realm r" and "caches_ok cfg s"
  shows "caches_ok cfg (snd (regenerateSecret e d r i s))"
proof -
  obtain res s1 where look: "findByClientId e r i s = (res, s1)" by fastforce
  note ok1 = findByClientId_keeps(1) [OF assms look]
  show ?thesis
  proof (cases "\<exists>v. res = Inr v \<and> client_clientType (cv_row v) = CONFIDENTIAL \<and> client_id (cv_row v) \<in> client_id ` set (clients (cl_db s1))")
    case False
    with look ok1 show ?thesis by (cases res) (auto simp: regenerateSecret_def Let_def)
  next
    case True
    then obtain v where v: "res = Inr v" "client_clientType (cv_row v) = CONFIDENTIAL" "client_id (cv_row v) \<in> client_id ` set (clients (cl_db s1))" by blast
    define f :: "client_row \<Rightarrow> client_row" where "f = (\<lambda>x. x\<lparr> client_clientSecret := Some (dr_hash d) \<rparr>)"
    define s2 where "s2 = s1\<lparr> cl_db := (cl_db s1)\<lparr> clients := tbl_update (\<lambda>x. client_id x = client_id (cv_row v)) f (clients (cl_db s1)) \<rparr>,
      cl_cache := filter (\<lambda>x. fst x \<noteq> client_key (config_key r (client_clientId (cv_row v)))) (cl_cache s1) \<rparr>"
    have run: "snd (regenerateSecret e d r i s) = s2"
      using look v assms(1) by (simp add: regenerateSecret_def Let_def invalidateClientCache_up s2_def f_def)
    have tab: "clients (cl_db s2) = tbl_update (\<lambda>x. client_id x = client_id (cv_row v)) f (clients (cl_db s1))" "cl_extra s2 = cl_extra s1"
      by (simp_all add: s2_def)
    have extra: "extra_of j s2 = extra_of j s1" for j by (simp add: extra_of_def tab)
    have sel: "selected s2 (if client_id x = j then f x else x) = selected s1 x" for x j by (simp add: selected_def extra f_def CLIENT_SELECT_def)
    have "view_at rid cid s2 = view_at rid cid s1" for rid cid
    proof -
      have "client_by_clientId rid cid (cl_db s2) = map_option (\<lambda>x. if client_id x = client_id (cv_row v) then f x else x) (client_by_clientId rid cid (cl_db s1))"
        unfolding client_by_clientId_def tab by (rule find_tbl_update_inv) (simp add: f_def)
      then show ?thesis unfolding view_at_def by (simp add: option.map_comp comp_def sel)
    qed
    moreover have "client_tables_ok s2" using ok1 by (simp add: caches_ok_def client_tables_ok_def tab f_def map_tbl_update)
    moreover have "client_origins s2 = client_origins s1"
    proof -
      have "concat (map (\<lambda>c. cx_webOrigins (extra_of (client_id c) s1)) (filter client_enabled (tbl_update p f xs)))
        = concat (map (\<lambda>c. cx_webOrigins (extra_of (client_id c) s1)) (filter client_enabled xs))" for p xs
        by (induction xs) (simp_all add: f_def)
      then show ?thesis by (simp add: client_origins_def extra tab)
    qed
    ultimately have "caches_ok cfg s2"
      by (intro caches_ok_changed [OF ok1, of s2 "[]"]) (auto simp: s2_def allowed_origins_def)
    with run show ?thesis by simp
  qed
qed

lemma preloadCache_keeps:
  assumes "redis e = RedisUp" and "caches_ok cfg s"
  shows "caches_ok cfg (preloadCache cfg e s)"
proof -
  define s' where "s' = preloadCache cfg e s"
  have s': "s' = s\<lparr> cl_corsRedis := Some (own_origins cfg @ filter (\<lambda>x. x \<noteq> ''*'') (client_origins s), now e + 300000),
         cl_corsLocal := Some (own_origins cfg @ filter (\<lambda>x. x \<noteq> ''*'') (client_origins s), now e + LOCAL_TTL_MS) \<rparr>"
    using assms(1) by (simp add: s'_def preloadCache_def loadFromDatabase_def cacheCorsOrigins_def Let_def)
  have "cl_db s' = cl_db s" "cl_extra s' = cl_extra s" "cl_cache s' = cl_cache s" by (simp_all add: s')
  note same = same_tables [OF this(1,2)] this
  have "cors_ok cfg s'" unfolding cors_ok_def same(2) by (auto simp: s' allowed_origins_def)
  then have "caches_ok cfg s'" using assms(2) by (simp add: caches_ok_def cache_ok_def same)
  then show ?thesis by (simp add: s'_def)
qed

lemma client_apply_keeps:
  assumes "steady x" and "caches_ok cfg s"
  shows "caches_ok cfg (client_apply cfg x s)"
proof (cases x)
  case (ServiceAccountOf e r i)
  obtain res s1 where look: "findByClientId e r i s = (res, s1)" by fastforce
  then have "snd (getServiceAccount e r i s) = s1" by (cases res) (auto simp: getServiceAccount_def split: option.split)
  with ServiceAccountOf assms findByClientId_keeps(1) [OF _ _ assms(2) look] show ?thesis by simp
next
  case (LookupClient e r i)
  with assms findByClientId_keeps(1) [OF _ _ assms(2), of e r i "fst (findByClientId e r i s)" "snd (findByClientId e r i s)"] show ?thesis by simp
qed (use assms create_client_keeps update_client_keeps remove_client_keeps regenerateSecret_keeps isOriginAllowed_keeps(1) preloadCache_keeps in auto)

lemma client_run_keeps: "list_all steady xs \<Longrightarrow> caches_ok cfg s \<Longrightarrow> caches_ok cfg (fold (client_apply cfg) xs s)"
  by (induction xs arbitrary: s) (auto simp: client_apply_keeps)


subsection \<open>Secrets\<close>

lemma secret_decides:
  assumes "client_by_clientId (realm_id r) cid s = Some c" and "cid \<noteq> []" and "client_clientType c = CONFIDENTIAL" and "client_clientSecret c = Some h"
    and "h \<noteq> []" and "secret \<noteq> []" and "\<forall>x. verifyPassword e h x \<longleftrightarrow> x = secret"
  shows "is_ok (validateClient e r (Some cid) (Some x) [] s) \<longleftrightarrow> x = secret \<and> client_enabled c"
  using assms by (auto simp: validateClient_def falsy_def)

lemma create_client_row:
  assumes "create_client e d r dto s = (Inr (v, secret), s1)" and "redis e = RedisUp"
  obtains sau where "client_by_clientId (realm_id r) (cd_clientId dto) (cl_db s1) = Some (new_client d r dto sau)"
    "secret = (if dto_clientType dto = CONFIDENTIAL then Some (dr_secret d) else None)"
proof -
  from assms have ok: "client_by_clientId (realm_id r) (cd_clientId dto) (cl_db s) = None"
    by (auto simp: create_client_def split: if_splits)
  obtain res db where sa: "service_account_user e d r dto (cl_db s) = (res, db)" by fastforce
  with assms obtain sau where sau: "res = Inr sau" by (cases res) (auto simp: create_client_def split: if_splits)
  have none: "client_by_clientId (realm_id r) (cd_clientId dto) db = None"
    using ok service_account_user_other [OF sa] by (simp add: client_by_clientId_def)
  define c where "c = new_client d r dto sau"
  have ids: "client_realmId c = realm_id r" "client_clientId c = cd_clientId dto" by (simp_all add: c_def new_client_def)
  from assms sa sau have "clients (cl_db s1) = clients db @ [c]" "secret = (if client_clientType c = CONFIDENTIAL then Some (dr_secret d) else None)"
    by (auto simp: create_client_def Let_def forget_origins_up c_def split: if_splits)
  moreover from this(1) none ids have "client_by_clientId (realm_id r) (cd_clientId dto) (cl_db s1) = Some c"
    by (simp add: client_by_clientId_def find_append_None)
  ultimately show thesis using that [of sau] by (simp add: c_def new_client_def)
qed

lemma regenerateSecret_row:
  assumes "regenerateSecret e d r i s = (Inr (cid, secret), s1)" and "redis e = RedisUp" and "key_realm r" and "\<not> is_uuid i" and "caches_ok cfg s"
  obtains c where "client_by_clientId (realm_id r) i (cl_db s) = Some c" "cid = i" "secret = dr_secret d" "client_clientType c = CONFIDENTIAL"
    "client_by_clientId (realm_id r) i (cl_db s1) = Some (c\<lparr> client_clientSecret := Some (dr_hash d) \<rparr>)"
proof -
  obtain res s' where look: "findByClientId e r i s = (res, s')" by fastforce
  note keeps = findByClientId_keeps [OF assms(2,3,5) look]
  from assms(1) look obtain v where v: "res = Inr v" by (cases res) (auto simp: regenerateSecret_def)
  have "view_at (realm_id r) i s = Some v"
  proof (rule findByClientId_cases [OF look assms(2)])
    fix w t
    assume "res = Inr w" "(client_key (config_key r i), w, t) \<in> set (cl_cache s)"
    moreover have "entry_of (realm_id r) i (client_key (config_key r i))" using assms(3,4) by (simp add: entry_of_def key_realm_def config_key_def)
    ultimately show ?thesis using assms(5) v unfolding caches_ok_def cache_ok_def by fastforce
  qed (use v assms(4) client_row_for_name in \<open>auto simp: view_at_def\<close>)
  then obtain c where c: "client_by_clientId (realm_id r) i (cl_db s) = Some c" "v = selected s c" by (auto simp: view_at_def)
  note row = client_by_clientId_row [OF c(1)]
  have cv: "client_id (cv_row v) = client_id c" "client_clientId (cv_row v) = i" "client_clientType (cv_row v) = client_clientType c"
    using row by (simp_all add: c(2) selected_def CLIENT_SELECT_def)
  from assms(1) look v cv have type: "client_clientType c = CONFIDENTIAL" and result: "cid = i" "secret = dr_secret d"
    and db: "clients (cl_db s1) = tbl_update (\<lambda>x. client_id x = client_id c) (\<lambda>x. x\<lparr> client_clientSecret := Some (dr_hash d) \<rparr>) (clients (cl_db s'))"
    using assms(2) by (auto simp: regenerateSecret_def Let_def invalidateClientCache_up split: if_splits)
  have "client_by_clientId (realm_id r) i (cl_db s1) = Some (c\<lparr> client_clientSecret := Some (dr_hash d) \<rparr>)"
    using c(1) unfolding client_by_clientId_def db keeps(2) by (subst find_tbl_update_inv) simp_all
  with c(1) type result show thesis using that by blast
qed


subsection \<open>Samples\<close>

definition sample_clients :: clients_state where
  "sample_clients = \<lparr> cl_db = empty_db, cl_extra = [], cl_cache = [], cl_corsRedis = None, cl_corsLocal = None \<rparr>"

definition sample_client_dto :: client_dto where
  "sample_client_dto = \<lparr> cd_clientId = ''shop'', cd_name = None, cd_description = None, cd_clientType = None, cd_publicClient = None, cd_enabled = None,
     cd_redirectUris = None, cd_postLogoutRedirectUris = None, cd_webOrigins = Some [''https://shop.example''], cd_grantTypes = None,
     cd_requireConsent = None, cd_backchannelLogoutUri = None, cd_backchannelLogoutSessionRequired = None, cd_requiredAcr = None,
     cd_stepUpCacheDuration = None \<rparr>"

definition sample_client_patch :: client_patch where
  "sample_client_patch = \<lparr> ct_name = None, ct_description = None, ct_clientType = None, ct_enabled = Some False, ct_redirectUris = None,
     ct_postLogoutRedirectUris = None, ct_webOrigins = None, ct_grantTypes = None, ct_requireConsent = None, ct_backchannelLogoutUri = None,
     ct_backchannelLogoutSessionRequired = None, ct_requiredAcr = None, ct_stepUpCacheDuration = None \<rparr>"

definition sample_client_draws :: "string \<Rightarrow> client_draws" where
  "sample_client_draws x = \<lparr> dr_id = ''0a1b2c3d-0000-4000-8000-0123456789ab'', dr_userId = ''u9'', dr_secret = x, dr_hash = x \<rparr>"

definition sample_cors :: cors_config where
  "sample_cors = \<lparr> co_baseOrigin = Some ''https://id.example'', co_production = True, co_port = None \<rparr>"

definition client_created :: clients_state where
  "client_created = snd (create_client sample_env (sample_client_draws ''first'') sample_realm sample_client_dto sample_clients)"

text \<open>
  An update drops the entry under the name only: a client that was looked up by its identifier is answered as it was before the change
  until the entry expires.
\<close>

lemma stale_client_by_uuid:
  "let i = ''0a1b2c3d-0000-4000-8000-0123456789ab'';
       s1 = snd (findByClientId sample_env sample_realm i client_created);
       s2 = snd (update_client sample_env sample_realm ''shop'' sample_client_patch s1)
   in map (map_option (client_enabled \<circ> cv_row) \<circ> (\<lambda>x. case x of Inl _ \<Rightarrow> None | Inr v \<Rightarrow> Some v))
        [fst (findByClientId sample_env sample_realm i s2), fst (findByClientId sample_env sample_realm ''shop'' s2)] = [Some True, Some False]"
  by code_simp



end
