(* ===== verification/Roles.thy ===== *)
theory Roles
  imports Clients Group_Admin Scopes
begin

text \<open>
  Administration of roles and of their assignment to users (\<open>src/src/roles/roles.service.ts\<close>), on the tables that the token endpoint reads.
  Clients are looked up through \<open>findByClientId\<close> with its cache.  The text of a description is not kept; \<open>collate\<close> is the order of names
  in the database.
\<close>

subsection \<open>Realm roles\<close>

definition realm_role_named :: "realm_row \<Rightarrow> string \<Rightarrow> db \<Rightarrow> role_row option" where
  "realm_role_named r name s = List.find (\<lambda>x. role_realmId x = realm_id r \<and> role_clientId x = None \<and> role_name x = name) (roles s)"

text \<open>The unique index on realm, client and name does not apply to a role whose client is null.\<close>

definition createRealmRole :: "ident \<Rightarrow> realm_row \<Rightarrow> string \<Rightarrow> db \<Rightarrow> role_row result \<times> db" where
  "createRealmRole newId r name s =
     (if realm_role_named r name s \<noteq> None then (Inl ConflictException, s)
      else if newId \<in> role_id ` set (roles s) then (Inl PrismaUnique, s)
      else let role = \<lparr> role_id = newId, role_realmId = realm_id r, role_name = name, role_clientId = None \<rparr>
           in (Inr role, s\<lparr> roles := roles s @ [role] \<rparr>))"

definition findRealmRoles :: "(string \<Rightarrow> nat) \<Rightarrow> realm_row \<Rightarrow> db \<Rightarrow> role_row list" where
  "findRealmRoles collate r s = sort_key (\<lambda>x. collate (role_name x)) (filter (\<lambda>x. role_realmId x = realm_id r \<and> role_clientId x = None) (roles s))"

definition findByName :: "realm_row \<Rightarrow> string \<Rightarrow> db \<Rightarrow> role_row result" where
  "findByName r roleName s = (case realm_role_named r roleName s of None \<Rightarrow> Inl NotFoundException | Some x \<Rightarrow> Inr x)"

definition updateRealmRole :: "realm_row \<Rightarrow> string \<Rightarrow> string option \<Rightarrow> db \<Rightarrow> role_row result \<times> db" where
  "updateRealmRole r roleName newName s =
     (case realm_role_named r roleName s of
        None \<Rightarrow> (Inl NotFoundException, s)
      | Some role \<Rightarrow>
          if \<not> falsy newName \<and> the newName \<noteq> roleName \<and> realm_role_named r (the newName) s \<noteq> None then (Inl ConflictException, s)
          else let edit = (\<lambda>x. x\<lparr> role_name := nullish_else newName (role_name x) \<rparr>)
               in (Inr (edit role), s\<lparr> roles := tbl_update (\<lambda>x. role_id x = role_id role) edit (roles s) \<rparr>))"

text \<open>The assignments go with the role.\<close>

definition delete_role :: "ident \<Rightarrow> db \<Rightarrow> db" where
  "delete_role i s =
     s\<lparr> roles := tbl_delete (\<lambda>x. role_id x = i) (roles s), userRoles := tbl_delete (\<lambda>x. snd x = i) (userRoles s),
        groupRoles := tbl_delete (\<lambda>x. snd x = i) (groupRoles s) \<rparr>"

definition deleteRealmRole :: "realm_row \<Rightarrow> string \<Rightarrow> db \<Rightarrow> unit result \<times> db" where
  "deleteRealmRole r roleName s =
     (case realm_role_named r roleName s of None \<Rightarrow> (Inl NotFoundException, s) | Some role \<Rightarrow> (Inr (), delete_role (role_id role) s))"

subsection \<open>Client roles\<close>

definition createClientRole :: "env \<Rightarrow> ident \<Rightarrow> realm_row \<Rightarrow> string \<Rightarrow> string \<Rightarrow> role_row clients_op" where
  "createClientRole e newId r clientIdOrUuid name s =
     and_then (findByClientId e r clientIdOrUuid s) (\<lambda>client s1.
       let i = client_id (cv_row client); role = \<lparr> role_id = newId, role_realmId = realm_id r, role_name = name, role_clientId = Some i \<rparr>
       in if newId \<in> role_id ` set (roles (cl_db s1))
             \<or> list_ex (\<lambda>x. role_realmId x = realm_id r \<and> role_clientId x = Some i \<and> role_name x = name) (roles (cl_db s1))
          then (Inl PrismaUnique, s1)
          else if i \<notin> client_id ` set (clients (cl_db s1)) then (Inl PrismaForeignKey, s1)
          else (Inr role, s1\<lparr> cl_db := (cl_db s1)\<lparr> roles := roles (cl_db s1) @ [role] \<rparr> \<rparr>))"

definition findClientRoles :: "(string \<Rightarrow> nat) \<Rightarrow> env \<Rightarrow> realm_row \<Rightarrow> string \<Rightarrow> role_row list clients_op" where
  "findClientRoles collate e r clientIdOrUuid s =
     and_then (findByClientId e r clientIdOrUuid s) (\<lambda>client s1.
       (Inr (sort_key (\<lambda>x. collate (role_name x))
               (filter (\<lambda>x. role_realmId x = realm_id r \<and> role_clientId x = Some (client_id (cv_row client))) (roles (cl_db s1)))), s1))"

subsection \<open>Assignments\<close>

text \<open>The names of a body, in either of its two forms.\<close>

definition effectiveNames :: "string list option \<Rightarrow> string list option \<Rightarrow> string list" where
  "effectiveNames roleNames roleEntries =
     (case roleNames of
        Some (n # ns) \<Rightarrow> n # ns
      | _ \<Rightarrow> (case roleEntries of Some es \<Rightarrow> filter (\<lambda>n. n \<noteq> []) es | None \<Rightarrow> []))"

definition createMany_userRoles :: "ident \<Rightarrow> role_row list \<Rightarrow> db \<Rightarrow> db" where
  "createMany_userRoles u rs s =
     s\<lparr> userRoles := fold (\<lambda>x t. if (u, role_id x) \<in> set t then t else t @ [(u, role_id x)]) rs (userRoles s) \<rparr>"

definition deleteMany_userRoles :: "ident \<Rightarrow> role_row list \<Rightarrow> db \<Rightarrow> db" where
  "deleteMany_userRoles u rs s = s\<lparr> userRoles := tbl_delete (\<lambda>x. fst x = u \<and> snd x \<in> role_id ` set rs) (userRoles s) \<rparr>"

definition client_roles_named :: "realm_row \<Rightarrow> ident \<Rightarrow> string list \<Rightarrow> db \<Rightarrow> role_row list" where
  "client_roles_named r i names s = filter (\<lambda>x. role_realmId x = realm_id r \<and> role_clientId x = Some i \<and> role_name x \<in> set names) (roles s)"

definition assignRealmRoles :: "realm_row \<Rightarrow> ident \<Rightarrow> string list \<Rightarrow> db \<Rightarrow> string list result \<times> db" where
  "assignRealmRoles r u names s =
     (if names = [] then (Inl BadRequestException, s)
      else if user_in_realm r u s = None then (Inl NotFoundException, s)
      else let rs = realm_roles_named r names s; foundNames = map role_name rs
           in if filter (\<lambda>n. n \<notin> set foundNames) names \<noteq> [] then (Inl NotFoundException, s)
              else (Inr foundNames, createMany_userRoles u rs s))"

definition getUserRealmRoles :: "(string \<Rightarrow> nat) \<Rightarrow> realm_row \<Rightarrow> ident \<Rightarrow> db \<Rightarrow> role_row list" where
  "getUserRealmRoles collate r u s =
     sort_key (\<lambda>x. collate (role_name x))
       (filter (\<lambda>x. role_realmId x = realm_id r \<and> role_clientId x = None \<and> (u, role_id x) \<in> set (userRoles s)) (roles s))"

definition removeUserRealmRoles :: "realm_row \<Rightarrow> ident \<Rightarrow> string list \<Rightarrow> db \<Rightarrow> string list result \<times> db" where
  "removeUserRealmRoles r u names s =
     (if names = [] then (Inl BadRequestException, s)
      else if user_in_realm r u s = None then (Inl NotFoundException, s)
      else (Inr names, deleteMany_userRoles u (realm_roles_named r names s) s))"

text \<open>Names that no role of the client has are passed over.\<close>

definition assignClientRoles :: "env \<Rightarrow> realm_row \<Rightarrow> ident \<Rightarrow> string \<Rightarrow> string list \<Rightarrow> string list clients_op" where
  "assignClientRoles e r u clientIdOrUuid names s =
     (if names = [] then (Inl BadRequestException, s)
      else if user_in_realm r u (cl_db s) = None then (Inl NotFoundException, s)
      else and_then (findByClientId e r clientIdOrUuid s) (\<lambda>client s1.
        let rs = client_roles_named r (client_id (cv_row client)) names (cl_db s1)
        in (Inr (map role_name rs), s1\<lparr> cl_db := createMany_userRoles u rs (cl_db s1) \<rparr>)))"

definition removeUserClientRoles :: "env \<Rightarrow> realm_row \<Rightarrow> ident \<Rightarrow> string \<Rightarrow> string list \<Rightarrow> string list clients_op" where
  "removeUserClientRoles e r u clientIdOrUuid names s =
     (if names = [] then (Inl BadRequestException, s)
      else and_then (findByClientId e r clientIdOrUuid s) (\<lambda>client s1.
        if user_in_realm r u (cl_db s1) = None then (Inl NotFoundException, s1)
        else (Inr names, s1\<lparr> cl_db := deleteMany_userRoles u (client_roles_named r (client_id (cv_row client)) names (cl_db s1)) (cl_db s1) \<rparr>)))"

definition getUserClientRoles :: "(string \<Rightarrow> nat) \<Rightarrow> env \<Rightarrow> realm_row \<Rightarrow> ident \<Rightarrow> string \<Rightarrow> role_row list clients_op" where
  "getUserClientRoles collate e r u clientIdOrUuid s =
     (if user_in_realm r u (cl_db s) = None then (Inl NotFoundException, s)
      else and_then (findByClientId e r clientIdOrUuid s) (\<lambda>client s1.
        (Inr (sort_key (\<lambda>x. collate (role_name x))
                (filter (\<lambda>x. role_realmId x = realm_id r \<and> role_clientId x = Some (client_id (cv_row client)) \<and> (u, role_id x) \<in> set (userRoles (cl_db s1)))
                   (roles (cl_db s1)))), s1)))"

subsection \<open>Roles in tokens\<close>

lemma fold_add_pairs: "set (fold (\<lambda>x t. if (u, role_id x) \<in> set t then t else t @ [(u, role_id x)]) rs t) = set t \<union> {u} \<times> role_id ` set rs"
  by (induction rs arbitrary: t) auto

lemma set_createMany [simp]: "set (userRoles (createMany_userRoles u rs s)) = set (userRoles s) \<union> {u} \<times> role_id ` set rs"
  by (simp add: createMany_userRoles_def fold_add_pairs)

lemma set_deleteMany [simp]: "set (userRoles (deleteMany_userRoles u rs s)) = set (userRoles s) - {u} \<times> role_id ` set rs"
  by (auto simp: deleteMany_userRoles_def tbl_delete_def)

lemma set_direct_roles: "set (direct_roles u s) = {x \<in> set (roles s). (u, role_id x) \<in> set (userRoles s)}"
  by (auto simp: direct_roles_def)

lemma set_dedup_roles:
  "inj_on role_id (set rs) \<Longrightarrow> set (dedup_roles seen rs) = {x \<in> set rs. role_id x \<notin> set seen}"
proof (induction rs arbitrary: seen)
  case (Cons x rs)
  then have "inj_on role_id (set rs)" by (simp add: inj_on_def)
  with Cons.IH Cons.prems show ?case by (auto simp: inj_on_def)
qed simp

lemma resolveGroupRoles_same:
  assumes "groups s' = groups s" and "userGroups s' = userGroups s" and "groupRoles s' = groupRoles s" and "roles s' = roles s"
  shows "set (resolveGroupRoles u s') = set (resolveGroupRoles u s)"
  using assms by (simp add: resolveGroupRoles_set parent_of_def group_by_id_def roles_in_def roles_of_group_def)

lemma resolveGroupRoles_rows: "set (resolveGroupRoles u s) \<subseteq> set (roles s)"
  by (auto simp: resolveGroupRoles_set roles_in_def roles_of_group_def split: if_splits)

lemma user_role_list_set:
  assumes "distinct (map role_id (roles s))"
  shows "set (user_role_list u s) = {x \<in> set (roles s). (u, role_id x) \<in> set (userRoles s)} \<union> set (resolveGroupRoles u s)"
proof -
  have "inj_on role_id (set (direct_roles u s @ resolveGroupRoles u s))"
    using assms resolveGroupRoles_rows by (auto simp: distinct_map set_direct_roles intro: inj_on_subset)
  then show ?thesis using set_dedup_roles [of "direct_roles u s @ resolveGroupRoles u s" "[]"] by (auto simp: user_role_list_def set_direct_roles)
qed

text \<open>
  Assigned realm roles are in the user's next access token, and the roles of other users stay as they are; roles that are removed again are in the token only
  if a group passes them on.
\<close>

theorem role_assignment_in_token:
  assumes "distinct (map role_id (roles s))" and "assignRealmRoles r u names s = (Inr found, s1)" and "removeUserRealmRoles r u names s1 = (Inr gone, s2)"
  shows "set names \<subseteq> set (realm_role_names (user_role_list u s1))
    \<and> set (user_role_list u s1) = set (user_role_list u s) \<union> set (realm_roles_named r names s)
    \<and> set (user_role_list u s2) = set (user_role_list u s) - set (realm_roles_named r names s) \<union> set (resolveGroupRoles u s)
    \<and> (v \<noteq> u \<longrightarrow> set (user_role_list v s1) = set (user_role_list v s) \<and> set (user_role_list v s2) = set (user_role_list v s))"
proof -
  from assms(2) have s1: "s1 = createMany_userRoles u (realm_roles_named r names s) s" and found: "set names \<subseteq> role_name ` set (realm_roles_named r names s)"
    by (auto simp: assignRealmRoles_def Let_def filter_empty_conv split: if_splits)
  have tab1: "roles s1 = roles s" "groups s1 = groups s" "userGroups s1 = userGroups s" "groupRoles s1 = groupRoles s" by (simp_all add: s1 createMany_userRoles_def)
  from assms(3) have s2: "s2 = deleteMany_userRoles u (realm_roles_named r names s) s1"
    by (auto simp: removeUserRealmRoles_def realm_roles_named_def tab1 split: if_splits)
  have tab2: "roles s2 = roles s" "groups s2 = groups s" "userGroups s2 = userGroups s" "groupRoles s2 = groupRoles s"
    by (simp_all add: s2 deleteMany_userRoles_def tab1)
  have ur: "set (userRoles s1) = set (userRoles s) \<union> {u} \<times> role_id ` set (realm_roles_named r names s)"
    "set (userRoles s2) = set (userRoles s) - {u} \<times> role_id ` set (realm_roles_named r names s)" by (auto simp: s1 s2)
  note grp = resolveGroupRoles_same [OF tab1(2-4,1)] resolveGroupRoles_same [OF tab2(2-4,1)]
  have named_sub: "set (realm_roles_named r names s) \<subseteq> set (roles s)" by (auto simp: realm_roles_named_def)
  have named: "role_id x \<in> role_id ` set (realm_roles_named r names s) \<longleftrightarrow> x \<in> set (realm_roles_named r names s)" if "x \<in> set (roles s)" for x
    using that named_sub distinct_id_eq [OF assms(1) that] by blast
  have lists: "set (user_role_list w s1) = {x \<in> set (roles s). (w, role_id x) \<in> set (userRoles s1)} \<union> set (resolveGroupRoles w s)"
    "set (user_role_list w s2) = {x \<in> set (roles s). (w, role_id x) \<in> set (userRoles s2)} \<union> set (resolveGroupRoles w s)"
    "set (user_role_list w s) = {x \<in> set (roles s). (w, role_id x) \<in> set (userRoles s)} \<union> set (resolveGroupRoles w s)" for w
    using assms(1) by (simp_all add: user_role_list_set tab1 tab2 grp)
  have one: "set (user_role_list u s1) = set (user_role_list u s) \<union> set (realm_roles_named r names s)"
    unfolding lists ur using named named_sub by auto
  moreover have "set (user_role_list u s2) = set (user_role_list u s) - set (realm_roles_named r names s) \<union> set (resolveGroupRoles u s)"
    unfolding lists ur using named by auto
  moreover have "set (user_role_list v s1) = set (user_role_list v s)" "set (user_role_list v s2) = set (user_role_list v s)" if "v \<noteq> u"
    unfolding lists ur using that by auto
  moreover have "set names \<subseteq> set (realm_role_names (user_role_list u s1))"
  proof -
    have "role_clientId x = None" if "x \<in> set (realm_roles_named r names s)" for x using that by (simp add: realm_roles_named_def)
    with found one show ?thesis by (fastforce simp: realm_role_names_def falsy_def)
  qed
  ultimately show ?thesis by blast
qed

subsection \<open>Assignments stay inside a realm\<close>

definition assigned_ok :: "db \<Rightarrow> ident \<times> ident \<Rightarrow> bool" where
  "assigned_ok s a \<longleftrightarrow> (\<exists>u x. u \<in> set (users s) \<and> x \<in> set (roles s) \<and> user_id u = fst a \<and> role_id x = snd a \<and> user_realmId u = role_realmId x)"

definition roles_ok :: "db \<Rightarrow> bool" where
  "roles_ok s \<longleftrightarrow> distinct (map role_id (roles s)) \<and> (\<forall>a \<in> set (userRoles s). assigned_ok s a)
     \<and> (\<forall>x i. x \<in> set (roles s) \<and> role_clientId x = Some i \<longrightarrow> i \<in> client_id ` set (clients s))"

datatype role_request =
    CreateRealmRole ident realm_row string
  | UpdateRealmRole realm_row string "string option"
  | DeleteRealmRole realm_row string
  | AssignRealmRoles realm_row ident "string list"
  | RemoveUserRealmRoles realm_row ident "string list"
  | CreateClientRole env ident realm_row string string
  | AssignClientRoles env realm_row ident string "string list"
  | RemoveUserClientRoles env realm_row ident string "string list"
  | ChangeClient cors_config client_request

definition on_db :: "(db \<Rightarrow> 'a \<times> db) \<Rightarrow> clients_state \<Rightarrow> clients_state" where
  "on_db f s = s\<lparr> cl_db := snd (f (cl_db s)) \<rparr>"

fun role_apply :: "role_request \<Rightarrow> clients_state \<Rightarrow> clients_state" where
  "role_apply (CreateRealmRole i r n) s = on_db (createRealmRole i r n) s"
| "role_apply (UpdateRealmRole r n new) s = on_db (updateRealmRole r n new) s"
| "role_apply (DeleteRealmRole r n) s = on_db (deleteRealmRole r n) s"
| "role_apply (AssignRealmRoles r u ns) s = on_db (assignRealmRoles r u ns) s"
| "role_apply (RemoveUserRealmRoles r u ns) s = on_db (removeUserRealmRoles r u ns) s"
| "role_apply (CreateClientRole e i r c n) s = snd (createClientRole e i r c n s)"
| "role_apply (AssignClientRoles e r u c ns) s = snd (assignClientRoles e r u c ns s)"
| "role_apply (RemoveUserClientRoles e r u c ns) s = snd (removeUserClientRoles e r u c ns s)"
| "role_apply (ChangeClient cfg x) s = client_apply cfg x s"

lemma findByClientId_db: "findByClientId e r i s = (res, s') \<Longrightarrow> cl_db s' = cl_db s"
  by (auto simp: findByClientId_def cacheClientConfig_def and_then_def split: sum.splits option.splits redis_mode.splits prod.splits)

lemma image_tbl_update: "(\<And>x. k (f x) = k x) \<Longrightarrow> k ` set (tbl_update p f xs) = k ` set xs"
  using map_tbl_update [of p k f xs] by (metis list.set_map)

lemma roles_ok_more:
  assumes "roles_ok s" and "set (users s) \<subseteq> set (users s')" and "client_id ` set (clients s) \<subseteq> client_id ` set (clients s')"
    and "roles s' = roles s" and "set (userRoles s') \<subseteq> set (userRoles s)"
  shows "roles_ok s'"
proof -
  have "assigned_ok s' a" if "a \<in> set (userRoles s')" for a
  proof -
    have "assigned_ok s a" using that assms(1,5) by (auto simp: roles_ok_def)
    then show ?thesis using assms(2,4) unfolding assigned_ok_def by auto
  qed
  moreover have "i \<in> client_id ` set (clients s')" if "x \<in> set (roles s')" "role_clientId x = Some i" for x i
    using that assms(1,3,4) unfolding roles_ok_def by (simp add: subset_iff)
  ultimately show ?thesis using assms(1) unfolding roles_ok_def assms(4) by blast
qed

lemma roles_ok_assign:
  assumes "roles_ok s" and "user_in_realm r u s \<noteq> None" and "\<And>x. x \<in> set rs \<Longrightarrow> x \<in> set (roles s) \<and> role_realmId x = realm_id r"
  shows "roles_ok (createMany_userRoles u rs s)"
proof -
  from assms(2) obtain usr where usr: "usr \<in> set (users s)" "user_id usr = u" "user_realmId usr = realm_id r"
    by (auto simp: user_in_realm_def dest!: find_SomeD)
  have same: "users (createMany_userRoles u rs s) = users s" "roles (createMany_userRoles u rs s) = roles s" "clients (createMany_userRoles u rs s) = clients s"
    by (simp_all add: createMany_userRoles_def)
  have "assigned_ok s a" if "a \<in> set (userRoles s) \<union> {u} \<times> role_id ` set rs" for a
  proof (cases "a \<in> set (userRoles s)")
    case True
    with assms(1) show ?thesis by (simp add: roles_ok_def)
  next
    case False
    with that obtain x where "x \<in> set rs" "a = (u, role_id x)" by auto
    with assms(3) usr show ?thesis unfolding assigned_ok_def by fastforce
  qed
  then show ?thesis using assms(1) unfolding roles_ok_def set_createMany assigned_ok_def same by blast
qed

lemma roles_ok_delete:
  assumes "roles_ok s" and "roles s' = filter p (roles s)" and "users s' = users s" 
    and "\<And>a x. a \<in> set (userRoles s') \<Longrightarrow> a \<in> set (userRoles s) \<and> (x \<in> set (roles s) \<and> role_id x = snd a \<longrightarrow> p x)"
    and "\<And>x i. x \<in> set (roles s') \<Longrightarrow> role_clientId x = Some i \<Longrightarrow> i \<in> client_id ` set (clients s) \<Longrightarrow> i \<in> client_id ` set (clients s')"
  shows "roles_ok s'"
proof -
  have "assigned_ok s' a" if "a \<in> set (userRoles s')" for a
    using assms(1,2,3) assms(4) [OF that] unfolding roles_ok_def assigned_ok_def by fastforce
  moreover have "distinct (map role_id (roles s'))" using assms(1,2) by (simp add: roles_ok_def distinct_map_filter)
  moreover have "i \<in> client_id ` set (clients s')" if "x \<in> set (roles s')" "role_clientId x = Some i" for x i
    using assms(1,2) assms(5) [OF that] that by (auto simp: roles_ok_def)
  ultimately show ?thesis unfolding roles_ok_def by blast
qed

lemma roles_ok_delete_user:
  assumes "roles_ok s"
  shows "roles_ok (delete_user u s)"
proof -
  have same: "users (delete_user u s) = filter (\<lambda>x. user_id x \<noteq> u) (users s)" "roles (delete_user u s) = roles s" "clients (delete_user u s) = clients s"
    "userRoles (delete_user u s) = filter (\<lambda>a. fst a \<noteq> u) (userRoles s)"
    by (simp_all add: delete_user_def delete_sessions_def tbl_delete_def Let_def)
  have "assigned_ok (delete_user u s) a" if "a \<in> set (userRoles s)" "fst a \<noteq> u" for a
    using assms that unfolding roles_ok_def assigned_ok_def same by fastforce
  then show ?thesis using assms unfolding roles_ok_def same by auto
qed

lemma roles_ok_delete_client:
  assumes "roles_ok s"
  shows "roles_ok (delete_client i s)"
  by (rule roles_ok_delete [OF assms, where p = "\<lambda>x. role_clientId x \<noteq> Some i"])
     (auto simp: delete_client_def tbl_delete_def Let_def)

lemma forget_origins_db: "forget_origins e s = (res, s') \<Longrightarrow> cl_db s' = cl_db s"
  by (auto simp: forget_origins_def invalidateCorsOrigins_def invalidateLocalCache_def split: redis_mode.splits)

lemma invalidateClientCache_db: "invalidateClientCache e k s = (res, s') \<Longrightarrow> cl_db s' = cl_db s"
  by (auto simp: invalidateClientCache_def split: redis_mode.splits)

lemma isOriginAllowed_db: "cl_db (snd (isOriginAllowed cfg e x s)) = cl_db s" "cl_db (preloadCache cfg e s) = cl_db s"
proof -
  have load: "cl_db (snd (loadFromDatabase cfg e s)) = cl_db s" for s
    by (simp add: loadFromDatabase_def cacheCorsOrigins_def Let_def split: redis_mode.split)
  then show "cl_db (preloadCache cfg e s) = cl_db s" by (simp add: preloadCache_def)
  obtain res s' where run: "getAllowedOrigins cfg e s = (res, s')" by fastforce
  then have "cl_db s' = cl_db s"
    using load [of s] by (auto simp: getAllowedOrigins_def split: option.splits sum.splits prod.splits)
  with run show "cl_db (snd (isOriginAllowed cfg e x s)) = cl_db s" by (cases res) (auto simp: isOriginAllowed_def)
qed

lemma create_client_roles:
  assumes "roles_ok (cl_db s)"
  shows "roles_ok (cl_db (snd (create_client e d r dto s)))"
proof -
  obtain res s1 where sa: "service_account_user e d r dto (cl_db s) = (res, s1)" by fastforce
  then have tab: "set (users (cl_db s)) \<subseteq> set (users s1)" "clients s1 = clients (cl_db s)" "roles s1 = roles (cl_db s)" "userRoles s1 = userRoles (cl_db s)"
    by (auto simp: service_account_user_def add_user_def Let_def split: if_splits)
  have ok1: "roles_ok s1" using roles_ok_more [OF assms] tab by simp
  show ?thesis
  proof (cases "rejectWildcardOrigins (cd_webOrigins dto) \<or> client_by_clientId (realm_id r) (cd_clientId dto) (cl_db s) \<noteq> None")
    case True
    with assms show ?thesis by (auto simp: create_client_def)
  next
    case False
    show ?thesis
    proof (cases "res")
      case (Inl err)
      with False sa ok1 show ?thesis by (simp add: create_client_def)
    next
      case (Inr sau)
      define s2 where "s2 = s\<lparr> cl_db := assignBuiltInScopes (realm_id r) (dr_id d) (s1\<lparr> clients := clients s1 @ [new_client d r dto sau] \<rparr>), cl_extra := cl_extra s @ [new_extra e d dto] \<rparr>"
      obtain res3 s3 where fo: "forget_origins e s2 = (res3, s3)" by fastforce
      have "roles_ok (cl_db s2)"
        by (rule roles_ok_more [OF ok1]) (auto simp: s2_def assignBuiltInScopes_def Let_def)
      with forget_origins_db [OF fo] have "roles_ok (cl_db s3)" by simp
      with False sa Inr fo ok1 show ?thesis by (cases res3) (auto simp: create_client_def Let_def s2_def)
    qed
  qed
qed

lemma update_client_roles:
  assumes "roles_ok (cl_db s)"
  shows "roles_ok (cl_db (snd (update_client e r i dto s)))"
proof -
  obtain res s1 where look: "findByClientId e r i s = (res, s1)" by fastforce
  have ok1: "roles_ok (cl_db s1)" using findByClientId_db [OF look] assms by simp
  show ?thesis
  proof (cases "\<exists>v c. res = Inr v \<and> \<not> rejectWildcardOrigins (ct_webOrigins dto) \<and> client_by_clientId (realm_id r) (client_clientId (cv_row v)) (cl_db s1) = Some c")
    case False
    with look ok1 assms show ?thesis by (cases res) (auto simp: update_client_def Let_def split: option.splits)
  next
    case True
    then obtain v c where v: "res = Inr v" "\<not> rejectWildcardOrigins (ct_webOrigins dto)"
      "client_by_clientId (realm_id r) (client_clientId (cv_row v)) (cl_db s1) = Some c" by blast
    define s2 where "s2 = s1\<lparr> cl_db := (cl_db s1)\<lparr> clients := tbl_update (\<lambda>x. client_id x = client_id c) (patched_client dto) (clients (cl_db s1)) \<rparr>,
        cl_extra := tbl_update (\<lambda>x. cx_id x = client_id c) (patched_extra dto) (cl_extra s1) \<rparr>"
    obtain res3 s3 where inv: "invalidateClientCache e (config_key r (client_clientId (cv_row v))) s2 = (res3, s3)" by fastforce
    obtain res4 s4 where fo: "forget_origins e s3 = (res4, s4)" by fastforce
    have "roles_ok (cl_db s2)"
      by (rule roles_ok_more [OF ok1]) (simp_all add: s2_def image_tbl_update patched_client_def)
    with invalidateClientCache_db [OF inv] forget_origins_db [OF fo] have "roles_ok (cl_db s3)" "roles_ok (cl_db s4)" by simp_all
    with look v inv fo show ?thesis by (cases res3; cases res4) (simp_all add: update_client_def Let_def s2_def)
  qed
qed

lemma remove_client_roles:
  assumes "roles_ok (cl_db s)"
  shows "roles_ok (cl_db (snd (remove_client e r i s)))"
proof -
  obtain res s1 where look: "findByClientId e r i s = (res, s1)" by fastforce
  have ok1: "roles_ok (cl_db s1)" using findByClientId_db [OF look] assms by simp
  show ?thesis
  proof (cases res)
    case (Inl err)
    with look ok1 show ?thesis by (simp add: remove_client_def)
  next
    case (Inr v)
    define s2 where "s2 = (case client_serviceAccountUserId (cv_row v) of None \<Rightarrow> s1 | Some u \<Rightarrow> s1\<lparr> cl_db := delete_user u (cl_db s1) \<rparr>)"
    have ok2: "roles_ok (cl_db s2)" using ok1 roles_ok_delete_user by (simp add: s2_def split: option.split)
    show ?thesis
    proof (cases "client_by_clientId (realm_id r) (client_clientId (cv_row v)) (cl_db s2)")
      case None
      with look Inr ok2 show ?thesis by (simp add: remove_client_def Let_def s2_def)
    next
      case (Some c)
      define s3 where "s3 = s2\<lparr> cl_db := delete_client (client_id c) (cl_db s2), cl_extra := tbl_delete (\<lambda>x. cx_id x = client_id c) (cl_extra s2) \<rparr>"
      obtain res4 s4 where inv: "invalidateClientCache e (config_key r (client_clientId (cv_row v))) s3 = (res4, s4)" by fastforce
      obtain res5 s5 where fo: "forget_origins e s4 = (res5, s5)" by fastforce
      have "roles_ok (cl_db s3)" using roles_ok_delete_client [OF ok2] by (simp add: s3_def)
      with invalidateClientCache_db [OF inv] forget_origins_db [OF fo] have "roles_ok (cl_db s4)" "roles_ok (cl_db s5)" by simp_all
      with look Inr Some inv fo show ?thesis
        by (cases res4) (simp_all add: remove_client_def Let_def s2_def [symmetric] s3_def)
    qed
  qed
qed

lemma client_apply_roles:
  assumes "roles_ok (cl_db s)"
  shows "roles_ok (cl_db (client_apply cfg x s))"
proof (cases x)
  case (RegenerateSecret e d r i)
  obtain res s1 where look: "findByClientId e r i s = (res, s1)" by fastforce
  have ok1: "roles_ok (cl_db s1)" using findByClientId_db [OF look] assms by simp
  show ?thesis
  proof (cases res)
    case (Inl err)
    with look ok1 RegenerateSecret show ?thesis by (simp add: regenerateSecret_def)
  next
    case (Inr v)
    define s2 where "s2 = s1\<lparr> cl_db := (cl_db s1)\<lparr> clients := tbl_update (\<lambda>x. client_id x = client_id (cv_row v)) (\<lambda>x. x\<lparr> client_clientSecret := Some (dr_hash d) \<rparr>) (clients (cl_db s1)) \<rparr> \<rparr>"
    obtain res3 s3 where inv: "invalidateClientCache e (config_key r (client_clientId (cv_row v))) s2 = (res3, s3)" by fastforce
    have "roles_ok (cl_db s2)" by (rule roles_ok_more [OF ok1]) (simp_all add: s2_def image_tbl_update)
    with invalidateClientCache_db [OF inv] have "roles_ok (cl_db s3)" by simp
    with look Inr inv ok1 RegenerateSecret show ?thesis by (cases res3) (simp_all add: regenerateSecret_def Let_def s2_def)
  qed
next
  case (LookupClient e r i)
  with assms findByClientId_db [of e r i s "fst (findByClientId e r i s)"] show ?thesis by simp
next
  case (ServiceAccountOf e r i)
  obtain res s1 where look: "findByClientId e r i s = (res, s1)" by fastforce
  then have "snd (getServiceAccount e r i s) = s1" by (cases res) (auto simp: getServiceAccount_def split: option.split)
  with ServiceAccountOf assms findByClientId_db [OF look] show ?thesis by simp
qed (use assms create_client_roles update_client_roles remove_client_roles isOriginAllowed_db in auto)

lemma realm_role_named_row: "realm_role_named r n s = Some x \<Longrightarrow> x \<in> set (roles s)"
  by (auto simp: realm_role_named_def dest: find_SomeD)

lemma roles_ok_add:
  assumes "roles_ok s" and "role_id x \<notin> role_id ` set (roles s)" and "\<And>i. role_clientId x = Some i \<Longrightarrow> i \<in> client_id ` set (clients s)"
  shows "roles_ok (s\<lparr> roles := roles s @ [x] \<rparr>)"
proof -
  have "assigned_ok (s\<lparr> roles := roles s @ [x] \<rparr>) a" if "a \<in> set (userRoles s)" for a
  proof -
    from that assms(1) have "assigned_ok s a" by (simp add: roles_ok_def)
    then obtain u y where "u \<in> set (users s)" "y \<in> set (roles s)" "user_id u = fst a" "role_id y = snd a" "user_realmId u = role_realmId y"
      by (auto simp: assigned_ok_def)
    then show ?thesis unfolding assigned_ok_def by (intro exI [of _ u] exI [of _ y]) simp
  qed
  then show ?thesis using assms by (auto simp: roles_ok_def)
qed

lemma roles_ok_rename:
  assumes "roles_ok s"
  shows "roles_ok (s\<lparr> roles := tbl_update p (\<lambda>x. x\<lparr> role_name := g x \<rparr>) (roles s) \<rparr>)"
proof -
  let ?f = "\<lambda>x. if p x then x\<lparr> role_name := g x \<rparr> else x"
  have f: "role_id (?f x) = role_id x" "role_realmId (?f x) = role_realmId x" "role_clientId (?f x) = role_clientId x" for x by simp_all
  have "assigned_ok (s\<lparr> roles := map ?f (roles s) \<rparr>) a" if "assigned_ok s a" for a
  proof -
    from that obtain u y where "u \<in> set (users s)" "y \<in> set (roles s)" "user_id u = fst a" "role_id y = snd a" "user_realmId u = role_realmId y"
      by (auto simp: assigned_ok_def)
    then show ?thesis unfolding assigned_ok_def by (intro exI [of _ u] exI [of _ "?f y"]) simp
  qed
  moreover have "distinct (map role_id (map ?f (roles s)))" using assms f(1) by (simp add: roles_ok_def comp_def)
  ultimately show ?thesis using assms unfolding roles_ok_def tbl_update_def by (auto simp del: map_map split: if_splits)
qed

lemma roles_ok_delete_role: "roles_ok s \<Longrightarrow> roles_ok (delete_role i s)"
  by (rule roles_ok_delete [where p = "\<lambda>x. role_id x \<noteq> i"]) (auto simp: delete_role_def tbl_delete_def)

lemma roles_ok_unassign: "roles_ok s \<Longrightarrow> roles_ok (deleteMany_userRoles u rs s)"
  by (erule roles_ok_more) (auto simp: deleteMany_userRoles_def tbl_delete_def)

lemma role_apply_keeps:
  assumes "roles_ok (cl_db s)"
  shows "roles_ok (cl_db (role_apply x s))"
proof (cases x)
  case (CreateRealmRole i r n)
  with assms show ?thesis by (auto simp: on_db_def createRealmRole_def Let_def intro!: roles_ok_add)
next
  case (UpdateRealmRole r n new)
  with assms show ?thesis by (auto simp: on_db_def updateRealmRole_def Let_def roles_ok_rename split: option.split)
next
  case (DeleteRealmRole r n)
  with assms show ?thesis by (auto simp: on_db_def deleteRealmRole_def roles_ok_delete_role split: option.split)
next
  case (AssignRealmRoles r u ns)
  have "roles_ok (createMany_userRoles u (realm_roles_named r ns (cl_db s)) (cl_db s))" if "user_in_realm r u (cl_db s) \<noteq> None"
    using that by (intro roles_ok_assign [OF assms]) (auto simp: realm_roles_named_def)
  with assms AssignRealmRoles show ?thesis by (auto simp: on_db_def assignRealmRoles_def Let_def)
next
  case (RemoveUserRealmRoles r u ns)
  with assms show ?thesis by (auto simp: on_db_def removeUserRealmRoles_def roles_ok_unassign)
next
  case (CreateClientRole e i r c n)
  obtain res s1 where look: "findByClientId e r c s = (res, s1)" by fastforce
  have ok: "roles_ok (cl_db s1)" using findByClientId_db [OF look] assms by simp
  show ?thesis
  proof (cases res)
    case (Inl err)
    with look ok CreateClientRole show ?thesis by (simp add: createClientRole_def)
  next
    case (Inr v)
    have "roles_ok ((cl_db s1)\<lparr> roles := roles (cl_db s1) @ [\<lparr> role_id = i, role_realmId = realm_id r, role_name = n, role_clientId = Some (client_id (cv_row v)) \<rparr>] \<rparr>)"
      if "i \<notin> role_id ` set (roles (cl_db s1))" "client_id (cv_row v) \<in> client_id ` set (clients (cl_db s1))"
      by (rule roles_ok_add [OF ok]) (use that in simp_all)
    with look ok Inr CreateClientRole show ?thesis by (simp add: createClientRole_def Let_def)
  qed
next
  case (AssignClientRoles e r u c ns)
  obtain res s1 where look: "findByClientId e r c s = (res, s1)" by fastforce
  have db: "cl_db s1 = cl_db s" using findByClientId_db [OF look] .
  have "roles_ok (createMany_userRoles u (client_roles_named r j ns (cl_db s)) (cl_db s))" if "user_in_realm r u (cl_db s) \<noteq> None" for j
    using that by (intro roles_ok_assign [OF assms]) (auto simp: client_roles_named_def)
  with look db assms AssignClientRoles show ?thesis by (cases res) (auto simp: assignClientRoles_def Let_def)
next
  case (RemoveUserClientRoles e r u c ns)
  obtain res s1 where look: "findByClientId e r c s = (res, s1)" by fastforce
  have db: "cl_db s1 = cl_db s" using findByClientId_db [OF look] .
  with look assms RemoveUserClientRoles show ?thesis by (cases res) (auto simp: removeUserClientRoles_def roles_ok_unassign)
qed (use assms client_apply_roles in auto)

text \<open>
  C31.  Over any run of the administration of roles and clients, every assignment is of a role to a user of the same realm, both of which exist, and every
  client role belongs to a client that exists.
\<close>

theorem roles_stay_in_realm:
  assumes "roles_ok (cl_db s0)" and "s = fold role_apply xs s0"
  shows "list_all (assigned_ok (cl_db s)) (userRoles (cl_db s))
    \<and> list_all (\<lambda>x. case role_clientId x of None \<Rightarrow> True | Some i \<Rightarrow> i \<in> client_id ` set (clients (cl_db s))) (roles (cl_db s))"
proof -
  have "roles_ok (cl_db (fold role_apply xs s0))" using assms(1) by (induction xs arbitrary: s0) (auto simp: role_apply_keeps)
  with assms(2) show ?thesis by (auto simp: roles_ok_def list_all_iff split: option.split)
qed

subsection \<open>Samples\<close>

definition sample_role_requests :: "role_request list" where
  "sample_role_requests =
     [ChangeClient sample_cors (CreateClient sample_env (sample_client_draws ''first'') sample_realm sample_client_dto),
      CreateRealmRole ''ro1'' sample_realm ''editor'', CreateClientRole sample_env ''ro2'' sample_realm ''shop'' ''buyer'',
      AssignRealmRoles sample_realm (user_id sample_user) [''editor''], AssignClientRoles sample_env sample_realm (user_id sample_user) ''shop'' [''buyer''],
      ChangeClient sample_cors (RemoveClient sample_env sample_realm ''shop'')]"

definition sample_role_state :: clients_state where
  "sample_role_state = sample_clients\<lparr> cl_db := empty_db\<lparr> users := [sample_user] \<rparr> \<rparr>"

theorem roles_stay_in_realm_witness:
  "let s = fold role_apply sample_role_requests sample_role_state
   in list_all (assigned_ok (cl_db s)) (userRoles (cl_db s)) \<and> userRoles (cl_db s) = [(user_id sample_user, ''ro1'')]"
proof -
  have "roles_ok (cl_db sample_role_state)" by (simp add: roles_ok_def sample_role_state_def empty_db_def)
  moreover have "userRoles (cl_db (fold role_apply sample_role_requests sample_role_state)) = [(user_id sample_user, ''ro1'')]" by code_simp
  ultimately show ?thesis using roles_stay_in_realm [of sample_role_state _ sample_role_requests] unfolding Let_def by blast
qed

definition role_db :: db where
  "role_db = empty_db\<lparr> users := [sample_user],
     roles := [\<lparr> role_id = ''ro1'', role_realmId = realm_id sample_realm, role_name = ''editor'', role_clientId = None \<rparr>] \<rparr>"

theorem role_assignment_in_token_witness:
  "let s1 = snd (assignRealmRoles sample_realm (user_id sample_user) [''editor''] role_db);
       s2 = snd (removeUserRealmRoles sample_realm (user_id sample_user) [''editor''] s1)
   in set [''editor''] \<subseteq> set (realm_role_names (user_role_list (user_id sample_user) s1))
    \<and> set (user_role_list (user_id sample_user) s2)
      = set (user_role_list (user_id sample_user) role_db) - set (realm_roles_named sample_realm [''editor''] role_db) \<union> set (resolveGroupRoles (user_id sample_user) role_db)"
proof -
  let ?s1 = "snd (assignRealmRoles sample_realm (user_id sample_user) [''editor''] role_db)"
  have "distinct (map role_id (roles role_db))" by code_simp
  moreover have "fst (assignRealmRoles sample_realm (user_id sample_user) [''editor''] role_db) = Inr [''editor'']" by code_simp
  then have "assignRealmRoles sample_realm (user_id sample_user) [''editor''] role_db = (Inr [''editor''], ?s1)" by (simp add: prod_eq_iff)
  moreover have "fst (removeUserRealmRoles sample_realm (user_id sample_user) [''editor''] ?s1) = Inr [''editor'']" by code_simp
  then have "removeUserRealmRoles sample_realm (user_id sample_user) [''editor''] ?s1
      = (Inr [''editor''], snd (removeUserRealmRoles sample_realm (user_id sample_user) [''editor''] ?s1))" by (simp add: prod_eq_iff)
  ultimately show ?thesis unfolding Let_def using role_assignment_in_token by blast
qed

end
