(* ===== verification/Client_Scopes.thy ===== *)
theory Client_Scopes
  imports Clients Admin_Auth Confinement
begin

text \<open>
  Administration of client scopes, their protocol mappers and their assignment to clients (\<open>src/src/client-scopes/client-scopes.service.ts\<close>).

  The tables \<open>ClientScope\<close> and \<open>ProtocolMapper\<close> are kept with all their columns; \<open>sync_scopes\<close> writes the join that the token endpoint reads after each change.
\<close>

subsection \<open>State\<close>

record scope_row =
  sc_id :: ident
  sc_realmId :: ident
  sc_name :: string
  sc_description :: "string option"
  sc_protocol :: string
  sc_builtIn :: bool

record mapper_row =
  mp_id :: ident
  mp_clientScopeId :: ident
  mp_name :: string
  mp_protocol :: string
  mp_mapperType :: string
  mp_config :: "(string \<times> string) list"

record scopes_state =
  ss_clients :: clients_state
  ss_scopes :: "scope_row list"
  ss_mappers :: "mapper_row list"

type_synonym 'a scopes_op = "scopes_state \<Rightarrow> 'a result \<times> scopes_state"

definition joined_scope :: "mapper_row list \<Rightarrow> scope_row \<Rightarrow> client_scope_row" where
  "joined_scope ms sc =
     \<lparr> cs_id = sc_id sc, cs_realmId = sc_realmId sc, cs_name = sc_name sc,
       cs_protocolMappers = map (\<lambda>m. \<lparr> pm_mapperType = mp_mapperType m, pm_config = mp_config m \<rparr>) (filter (\<lambda>m. mp_clientScopeId m = sc_id sc) ms) \<rparr>"

definition sync_scopes :: "scopes_state \<Rightarrow> scopes_state" where
  "sync_scopes s =
     s\<lparr> ss_clients := (ss_clients s)\<lparr> cl_db := (cl_db (ss_clients s))\<lparr> clientScopes := map (joined_scope (ss_mappers s)) (ss_scopes s) \<rparr> \<rparr> \<rparr>"

subsection \<open>Scopes\<close>

definition findAll_scopes :: "(string \<Rightarrow> nat) \<Rightarrow> realm_row \<Rightarrow> scopes_state \<Rightarrow> scope_row list" where
  "findAll_scopes collate r s = sort_key (\<lambda>x. collate (sc_name x)) (filter (\<lambda>x. sc_realmId x = realm_id r) (ss_scopes s))"

definition findById_scope :: "realm_row \<Rightarrow> ident \<Rightarrow> scopes_state \<Rightarrow> scope_row result" where
  "findById_scope r i s =
     (case List.find (\<lambda>x. sc_id x = i \<and> sc_realmId x = realm_id r) (ss_scopes s) of None \<Rightarrow> Inl NotFoundException | Some x \<Rightarrow> Inr x)"

definition create_scope :: "ident \<Rightarrow> realm_row \<Rightarrow> string \<Rightarrow> string option \<Rightarrow> string option \<Rightarrow> scope_row scopes_op" where
  "create_scope newId r name description protocol s =
     (if list_ex (\<lambda>x. sc_realmId x = realm_id r \<and> sc_name x = name) (ss_scopes s) then (Inl ConflictException, s)
      else if newId \<in> sc_id ` set (ss_scopes s) then (Inl PrismaUnique, s)
      else let x = \<lparr> sc_id = newId, sc_realmId = realm_id r, sc_name = name, sc_description = description,
                     sc_protocol = nullish_else protocol ''openid-connect'', sc_builtIn = False \<rparr>
           in (Inr x, sync_scopes (s\<lparr> ss_scopes := ss_scopes s @ [x] \<rparr>)))"

definition update_scope :: "realm_row \<Rightarrow> ident \<Rightarrow> string option \<Rightarrow> string option \<Rightarrow> scope_row scopes_op" where
  "update_scope r i description protocol s =
     (case findById_scope r i s of
        Inl err \<Rightarrow> (Inl err, s)
      | Inr x \<Rightarrow>
          let edit = (\<lambda>x. x\<lparr> sc_description := given description (sc_description x), sc_protocol := nullish_else protocol (sc_protocol x) \<rparr>)
          in (Inr (edit x), sync_scopes (s\<lparr> ss_scopes := tbl_update (\<lambda>x. sc_id x = i) edit (ss_scopes s) \<rparr>)))"

text \<open>Mappers and assignments go with the scope.\<close>

definition drop_scope_assignments :: "ident \<Rightarrow> scopes_state \<Rightarrow> scopes_state" where
  "drop_scope_assignments i s =
     (let d = cl_db (ss_clients s)
      in s\<lparr> ss_clients := (ss_clients s)\<lparr> cl_db := d\<lparr> clientDefaultScopes := tbl_delete (\<lambda>x. snd x = i) (clientDefaultScopes d),
                                                       clientOptionalScopes := tbl_delete (\<lambda>x. snd x = i) (clientOptionalScopes d) \<rparr> \<rparr> \<rparr>)"

definition remove_scope :: "realm_row \<Rightarrow> ident \<Rightarrow> unit scopes_op" where
  "remove_scope r i s =
     (case findById_scope r i s of
        Inl err \<Rightarrow> (Inl err, s)
      | Inr x \<Rightarrow>
          if sc_builtIn x then (Inl ConflictException, s)
          else (Inr (), sync_scopes (drop_scope_assignments i
                  (s\<lparr> ss_scopes := tbl_delete (\<lambda>x. sc_id x = i) (ss_scopes s), ss_mappers := tbl_delete (\<lambda>m. mp_clientScopeId m = i) (ss_mappers s) \<rparr>))))"

subsection \<open>Mappers\<close>

definition getMappers :: "(string \<Rightarrow> nat) \<Rightarrow> realm_row \<Rightarrow> ident \<Rightarrow> scopes_state \<Rightarrow> mapper_row list result" where
  "getMappers collate r i s =
     (case findById_scope r i s of
        Inl err \<Rightarrow> Inl err
      | Inr _ \<Rightarrow> Inr (sort_key (\<lambda>m. collate (mp_name m)) (filter (\<lambda>m. mp_clientScopeId m = i) (ss_mappers s))))"

record mapper_body =
  mb_name :: string
  mb_mapperType :: "string option"
  mb_protocolMapper :: "string option"
  mb_protocol :: "string option"
  mb_config :: "(string \<times> string) list option"

definition addMapper :: "ident \<Rightarrow> realm_row \<Rightarrow> ident \<Rightarrow> mapper_body \<Rightarrow> mapper_row scopes_op" where
  "addMapper newId r i body s =
     (let resolvedMapperType = (if mb_mapperType body = None then mb_protocolMapper body else mb_mapperType body)
      in if falsy resolvedMapperType then (Inl PlainError, s)
         else case findById_scope r i s of
                Inl err \<Rightarrow> (Inl err, s)
              | Inr _ \<Rightarrow>
                  if newId \<in> mp_id ` set (ss_mappers s) \<or> list_ex (\<lambda>m. mp_clientScopeId m = i \<and> mp_name m = mb_name body) (ss_mappers s)
                  then (Inl PrismaUnique, s)
                  else let m = \<lparr> mp_id = newId, mp_clientScopeId = i, mp_name = mb_name body, mp_protocol = nullish_else (mb_protocol body) ''openid-connect'',
                                 mp_mapperType = the resolvedMapperType, mp_config = nullish_else (mb_config body) [] \<rparr>
                       in (Inr m, sync_scopes (s\<lparr> ss_mappers := ss_mappers s @ [m] \<rparr>)))"

text \<open>The scope of the path is checked; that the mapper is one of that scope is not.\<close>

definition updateMapper :: "realm_row \<Rightarrow> ident \<Rightarrow> ident \<Rightarrow> string option \<Rightarrow> (string \<times> string) list option \<Rightarrow> mapper_row scopes_op" where
  "updateMapper r i mapperId name config s =
     (case findById_scope r i s of
        Inl err \<Rightarrow> (Inl err, s)
      | Inr _ \<Rightarrow>
          (case List.find (\<lambda>m. mp_id m = mapperId) (ss_mappers s) of
             None \<Rightarrow> (Inl PrismaNotFound, s)
           | Some m \<Rightarrow>
               let edit = (\<lambda>m. m\<lparr> mp_name := nullish_else name (mp_name m), mp_config := nullish_else config (mp_config m) \<rparr>)
               in if list_ex (\<lambda>o2. mp_id o2 \<noteq> mapperId \<and> mp_clientScopeId o2 = mp_clientScopeId m \<and> mp_name o2 = mp_name (edit m)) (ss_mappers s)
                  then (Inl PrismaUnique, s)
                  else (Inr (edit m), sync_scopes (s\<lparr> ss_mappers := tbl_update (\<lambda>m. mp_id m = mapperId) edit (ss_mappers s) \<rparr>))))"

definition removeMapper :: "realm_row \<Rightarrow> ident \<Rightarrow> ident \<Rightarrow> unit scopes_op" where
  "removeMapper r i mapperId s =
     (case findById_scope r i s of
        Inl err \<Rightarrow> (Inl err, s)
      | Inr _ \<Rightarrow>
          if mapperId \<notin> mp_id ` set (ss_mappers s) then (Inl PrismaNotFound, s)
          else (Inr (), sync_scopes (s\<lparr> ss_mappers := tbl_delete (\<lambda>m. mp_id m = mapperId) (ss_mappers s) \<rparr>)))"

subsection \<open>Scopes of a client\<close>

definition resolved_client :: "env \<Rightarrow> realm_row \<Rightarrow> string \<Rightarrow> ident scopes_op" where
  "resolved_client e r clientIdOrUuid s =
     (case findByClientId e r clientIdOrUuid (ss_clients s) of
        (Inl err, c) \<Rightarrow> (Inl err, s\<lparr> ss_clients := c \<rparr>)
      | (Inr v, c) \<Rightarrow> (Inr (client_id (cv_row v)), s\<lparr> ss_clients := c \<rparr>))"

definition included_scopes :: "(ident \<times> ident) list \<Rightarrow> ident \<Rightarrow> scopes_state \<Rightarrow> scope_row list" where
  "included_scopes joins i s = concat (map (\<lambda>x. if fst x = i then filter (\<lambda>sc. sc_id sc = snd x) (ss_scopes s) else []) joins)"

definition getDefaultScopes :: "env \<Rightarrow> realm_row \<Rightarrow> string \<Rightarrow> scope_row list scopes_op" where
  "getDefaultScopes e r clientIdOrUuid s =
     and_then (resolved_client e r clientIdOrUuid s) (\<lambda>i s1. (Inr (included_scopes (clientDefaultScopes (cl_db (ss_clients s1))) i s1), s1))"

definition assignDefaultScope :: "env \<Rightarrow> realm_row \<Rightarrow> string \<Rightarrow> ident \<Rightarrow> unit scopes_op" where
  "assignDefaultScope e r clientIdOrUuid clientScopeId s =
     and_then (resolved_client e r clientIdOrUuid s) (\<lambda>i s1.
       case findById_scope r clientScopeId s1 of
         Inl err \<Rightarrow> (Inl err, s1)
       | Inr _ \<Rightarrow>
           let d = cl_db (ss_clients s1)
           in if (i, clientScopeId) \<in> set (clientDefaultScopes d) then (Inl PrismaUnique, s1)
              else if i \<notin> client_id ` set (clients d) then (Inl PrismaForeignKey, s1)
              else (Inr (), s1\<lparr> ss_clients := (ss_clients s1)\<lparr> cl_db := d\<lparr> clientDefaultScopes := clientDefaultScopes d @ [(i, clientScopeId)] \<rparr> \<rparr> \<rparr>))"

definition removeDefaultScope :: "env \<Rightarrow> realm_row \<Rightarrow> string \<Rightarrow> ident \<Rightarrow> unit scopes_op" where
  "removeDefaultScope e r clientIdOrUuid clientScopeId s =
     and_then (resolved_client e r clientIdOrUuid s) (\<lambda>i s1.
       let d = cl_db (ss_clients s1)
       in (Inr (), s1\<lparr> ss_clients := (ss_clients s1)\<lparr> cl_db := d\<lparr> clientDefaultScopes := tbl_delete (\<lambda>x. x = (i, clientScopeId)) (clientDefaultScopes d) \<rparr> \<rparr> \<rparr>))"

definition getOptionalScopes :: "env \<Rightarrow> realm_row \<Rightarrow> string \<Rightarrow> scope_row list scopes_op" where
  "getOptionalScopes e r clientIdOrUuid s =
     and_then (resolved_client e r clientIdOrUuid s) (\<lambda>i s1. (Inr (included_scopes (clientOptionalScopes (cl_db (ss_clients s1))) i s1), s1))"

definition assignOptionalScope :: "env \<Rightarrow> realm_row \<Rightarrow> string \<Rightarrow> ident \<Rightarrow> unit scopes_op" where
  "assignOptionalScope e r clientIdOrUuid clientScopeId s =
     and_then (resolved_client e r clientIdOrUuid s) (\<lambda>i s1.
       case findById_scope r clientScopeId s1 of
         Inl err \<Rightarrow> (Inl err, s1)
       | Inr _ \<Rightarrow>
           let d = cl_db (ss_clients s1)
           in if (i, clientScopeId) \<in> set (clientOptionalScopes d) then (Inl PrismaUnique, s1)
              else if i \<notin> client_id ` set (clients d) then (Inl PrismaForeignKey, s1)
              else (Inr (), s1\<lparr> ss_clients := (ss_clients s1)\<lparr> cl_db := d\<lparr> clientOptionalScopes := clientOptionalScopes d @ [(i, clientScopeId)] \<rparr> \<rparr> \<rparr>))"

definition removeOptionalScope :: "env \<Rightarrow> realm_row \<Rightarrow> string \<Rightarrow> ident \<Rightarrow> unit scopes_op" where
  "removeOptionalScope e r clientIdOrUuid clientScopeId s =
     and_then (resolved_client e r clientIdOrUuid s) (\<lambda>i s1.
       let d = cl_db (ss_clients s1)
       in (Inr (), s1\<lparr> ss_clients := (ss_clients s1)\<lparr> cl_db := d\<lparr> clientOptionalScopes := tbl_delete (\<lambda>x. x = (i, clientScopeId)) (clientOptionalScopes d) \<rparr> \<rparr> \<rparr>))"

subsection \<open>Requests of other realms\<close>

datatype scope_request =
    CreateScope ident realm_row string "string option" "string option"
  | UpdateScope realm_row ident "string option" "string option"
  | RemoveScope realm_row ident
  | AddMapper ident realm_row ident mapper_body
  | UpdateMapper realm_row ident ident "string option" "(string \<times> string) list option"
  | RemoveMapper realm_row ident ident
  | AssignDefault env realm_row string ident
  | RemoveDefault env realm_row string ident
  | AssignOptional env realm_row string ident
  | RemoveOptional env realm_row string ident

fun scope_apply :: "scope_request \<Rightarrow> scopes_state \<Rightarrow> scopes_state" where
  "scope_apply (CreateScope i r n d p) s = snd (create_scope i r n d p s)"
| "scope_apply (UpdateScope r i d p) s = snd (update_scope r i d p s)"
| "scope_apply (RemoveScope r i) s = snd (remove_scope r i s)"
| "scope_apply (AddMapper j r i b) s = snd (addMapper j r i b s)"
| "scope_apply (UpdateMapper r i j n c) s = snd (updateMapper r i j n c s)"
| "scope_apply (RemoveMapper r i j) s = snd (removeMapper r i j s)"
| "scope_apply (AssignDefault e r c i) s = snd (assignDefaultScope e r c i s)"
| "scope_apply (RemoveDefault e r c i) s = snd (removeDefaultScope e r c i s)"
| "scope_apply (AssignOptional e r c i) s = snd (assignOptionalScope e r c i s)"
| "scope_apply (RemoveOptional e r c i) s = snd (removeOptionalScope e r c i s)"

text \<open>The requests for other realms than \<open>rid\<close>, without those that change or remove a mapper.\<close>

fun scope_elsewhere :: "ident \<Rightarrow> scope_request \<Rightarrow> bool" where
  "scope_elsewhere rid (CreateScope i r n d p) \<longleftrightarrow> realm_id r \<noteq> rid"
| "scope_elsewhere rid (UpdateScope r i d p) \<longleftrightarrow> realm_id r \<noteq> rid"
| "scope_elsewhere rid (RemoveScope r i) \<longleftrightarrow> realm_id r \<noteq> rid"
| "scope_elsewhere rid (AddMapper j r i b) \<longleftrightarrow> realm_id r \<noteq> rid"
| "scope_elsewhere rid (UpdateMapper r i j n c) \<longleftrightarrow> False"
| "scope_elsewhere rid (RemoveMapper r i j) \<longleftrightarrow> False"
| "scope_elsewhere rid (AssignDefault e r c i) \<longleftrightarrow> realm_id r \<noteq> rid"
| "scope_elsewhere rid (RemoveDefault e r c i) \<longleftrightarrow> realm_id r \<noteq> rid"
| "scope_elsewhere rid (AssignOptional e r c i) \<longleftrightarrow> realm_id r \<noteq> rid"
| "scope_elsewhere rid (RemoveOptional e r c i) \<longleftrightarrow> realm_id r \<noteq> rid"

definition scopes_ok :: "scopes_state \<Rightarrow> bool" where
  "scopes_ok s \<longleftrightarrow> distinct (map sc_id (ss_scopes s)) \<and> clientScopes (cl_db (ss_clients s)) = map (joined_scope (ss_mappers s)) (ss_scopes s)"

text \<open>What the token endpoint reads of the scopes of a realm.\<close>

definition realm_scopes :: "ident \<Rightarrow> scopes_state \<Rightarrow> client_scope_row list" where
  "realm_scopes rid s = filter (\<lambda>c. cs_realmId c = rid) (clientScopes (cl_db (ss_clients s)))"

lemma sync_scopes_tables [simp]: "ss_scopes (sync_scopes s) = ss_scopes s" "ss_mappers (sync_scopes s) = ss_mappers s"
  "clientScopes (cl_db (ss_clients (sync_scopes s))) = map (joined_scope (ss_mappers s)) (ss_scopes s)"
  by (simp_all add: sync_scopes_def)

lemma realm_scopes_joined:
  assumes "scopes_ok s"
  shows "realm_scopes rid s = map (joined_scope (ss_mappers s)) (filter (\<lambda>x. sc_realmId x = rid) (ss_scopes s))"
proof -
  have "cs_realmId (joined_scope ms x) = sc_realmId x" for ms x by (simp add: joined_scope_def)
  with assms show ?thesis by (simp add: scopes_ok_def realm_scopes_def filter_map comp_def)
qed

lemma joined_same: "filter (\<lambda>m. mp_clientScopeId m = sc_id x) ms' = filter (\<lambda>m. mp_clientScopeId m = sc_id x) ms \<Longrightarrow> joined_scope ms' x = joined_scope ms x"
  by (simp add: joined_scope_def)

lemma scopes_changed:
  assumes "scopes_ok s" and "scopes_ok s'"
    and "filter (\<lambda>x. sc_realmId x = rid) (ss_scopes s') = filter (\<lambda>x. sc_realmId x = rid) (ss_scopes s)"
    and "\<And>x. x \<in> set (ss_scopes s) \<Longrightarrow> sc_realmId x = rid \<Longrightarrow>
      filter (\<lambda>m. mp_clientScopeId m = sc_id x) (ss_mappers s') = filter (\<lambda>m. mp_clientScopeId m = sc_id x) (ss_mappers s)"
  shows "realm_scopes rid s' = realm_scopes rid s"
  using assms by (auto simp: realm_scopes_joined intro!: joined_same)

lemma findById_scope_row: "findById_scope r i s = Inr x \<Longrightarrow> x \<in> set (ss_scopes s) \<and> sc_id x = i \<and> sc_realmId x = realm_id r"
  by (auto simp: findById_scope_def dest: find_SomeD split: option.splits)

lemma resolved_client_other:
  assumes "resolved_client e r c s = (res, s1)"
  shows "ss_scopes s1 = ss_scopes s" "ss_mappers s1 = ss_mappers s" "clientScopes (cl_db (ss_clients s1)) = clientScopes (cl_db (ss_clients s))"
proof -
  obtain res' c' where look: "findByClientId e r c (ss_clients s) = (res', c')" by fastforce
  have "cl_db c' = cl_db (ss_clients s)"
    using look by (auto simp: findByClientId_def cacheClientConfig_def and_then_def split: sum.splits option.splits redis_mode.splits prod.splits)
  with assms look show "ss_scopes s1 = ss_scopes s" "ss_mappers s1 = ss_mappers s" "clientScopes (cl_db (ss_clients s1)) = clientScopes (cl_db (ss_clients s))"
    by (auto simp: resolved_client_def split: sum.splits)
qed

text \<open>Assignments to clients do not touch the scopes.\<close>

definition same_scopes :: "scopes_state \<Rightarrow> scopes_state \<Rightarrow> bool" where
  "same_scopes s s' \<longleftrightarrow> ss_scopes s' = ss_scopes s \<and> ss_mappers s' = ss_mappers s \<and> clientScopes (cl_db (ss_clients s')) = clientScopes (cl_db (ss_clients s))"

lemma same_scopes_keeps: "same_scopes s s' \<Longrightarrow> scopes_ok s \<Longrightarrow> scopes_ok s' \<and> realm_scopes rid s' = realm_scopes rid s"
  by (simp add: same_scopes_def scopes_ok_def realm_scopes_def)

lemma assignments_same:
  "same_scopes s (snd (assignDefaultScope e r c i s))" "same_scopes s (snd (removeDefaultScope e r c i s))"
  "same_scopes s (snd (assignOptionalScope e r c i s))" "same_scopes s (snd (removeOptionalScope e r c i s))"
proof -
  obtain res s1 where look: "resolved_client e r c s = (res, s1)" by fastforce
  note other = resolved_client_other [OF look]
  show "same_scopes s (snd (assignDefaultScope e r c i s))" "same_scopes s (snd (removeDefaultScope e r c i s))"
    "same_scopes s (snd (assignOptionalScope e r c i s))" "same_scopes s (snd (removeOptionalScope e r c i s))"
    using look other
    by (cases res; auto simp: same_scopes_def assignDefaultScope_def removeDefaultScope_def assignOptionalScope_def removeOptionalScope_def Let_def split: sum.split)+
qed

text \<open>A change that is synchronised: new scopes are of another realm, changed mappers belong to scopes of another realm.\<close>

lemma synced_keeps:
  assumes "scopes_ok s" and "s' = sync_scopes s1" and "distinct (map sc_id (ss_scopes s1))"
    and "filter (\<lambda>x. sc_realmId x = rid) (ss_scopes s1) = filter (\<lambda>x. sc_realmId x = rid) (ss_scopes s)"
    and "\<And>x. x \<in> set (ss_scopes s) \<Longrightarrow> sc_realmId x = rid \<Longrightarrow>
      filter (\<lambda>m. mp_clientScopeId m = sc_id x) (ss_mappers s1) = filter (\<lambda>m. mp_clientScopeId m = sc_id x) (ss_mappers s)"
  shows "scopes_ok s' \<and> realm_scopes rid s' = realm_scopes rid s"
proof -
  have ok: "scopes_ok s'" using assms(2,3) by (simp add: scopes_ok_def)
  moreover have "realm_scopes rid s' = realm_scopes rid s" using assms(2,4,5) by (intro scopes_changed [OF assms(1) ok]) simp_all
  ultimately show ?thesis ..
qed

lemma other_scope:
  assumes "scopes_ok s" and "findById_scope r i s = Inr y" and "realm_id r \<noteq> rid" and "x \<in> set (ss_scopes s)" and "sc_realmId x = rid"
  shows "sc_id x \<noteq> i"
  using assms findById_scope_row [OF assms(2)] distinct_id_eq [of sc_id "ss_scopes s" x y] by (auto simp: scopes_ok_def)

lemma filter_tbl_update_miss: "(\<And>x. x \<in> set xs \<Longrightarrow> p x \<Longrightarrow> \<not> q x) \<Longrightarrow> (\<And>x. q x \<Longrightarrow> p (f x) = p x) \<Longrightarrow> filter p (tbl_update q f xs) = filter p xs"
  by (induction xs) auto

lemma filter_tbl_delete_miss: "(\<And>x. x \<in> set xs \<Longrightarrow> p x \<Longrightarrow> \<not> q x) \<Longrightarrow> filter p (tbl_delete q xs) = filter p xs"
  by (induction xs) (auto simp: tbl_delete_def)

lemma create_scope_keeps:
  assumes "scopes_ok s" and "realm_id r \<noteq> rid"
  shows "scopes_ok (snd (create_scope i r n d p s)) \<and> realm_scopes rid (snd (create_scope i r n d p s)) = realm_scopes rid s"
proof (cases "list_ex (\<lambda>x. sc_realmId x = realm_id r \<and> sc_name x = n) (ss_scopes s) \<or> i \<in> sc_id ` set (ss_scopes s)")
  case True
  then have "snd (create_scope i r n d p s) = s" by (auto simp: create_scope_def)
  with assms show ?thesis by simp
next
  case False
  let ?x = "\<lparr> sc_id = i, sc_realmId = realm_id r, sc_name = n, sc_description = d, sc_protocol = nullish_else p ''openid-connect'', sc_builtIn = False \<rparr>"
  have "snd (create_scope i r n d p s) = sync_scopes (s\<lparr> ss_scopes := ss_scopes s @ [?x] \<rparr>)" using False by (simp add: create_scope_def Let_def)
  from synced_keeps [OF assms(1) this] False assms show ?thesis by (simp add: scopes_ok_def)
qed

lemma update_scope_keeps:
  assumes "scopes_ok s" and "realm_id r \<noteq> rid"
  shows "scopes_ok (snd (update_scope r i d p s)) \<and> realm_scopes rid (snd (update_scope r i d p s)) = realm_scopes rid s"
proof (cases "findById_scope r i s")
  case (Inl err)
  with assms show ?thesis by (simp add: update_scope_def)
next
  case (Inr y)
  define f :: "scope_row \<Rightarrow> scope_row" where "f = (\<lambda>x. x\<lparr> sc_description := given d (sc_description x), sc_protocol := nullish_else p (sc_protocol x) \<rparr>)"
  have f: "sc_id (f x) = sc_id x" "sc_realmId (f x) = sc_realmId x" for x by (simp_all add: f_def)
  have run: "snd (update_scope r i d p s) = sync_scopes (s\<lparr> ss_scopes := tbl_update (\<lambda>x. sc_id x = i) f (ss_scopes s) \<rparr>)"
    using Inr by (simp add: update_scope_def f_def Let_def)
  have "filter (\<lambda>x. sc_realmId x = rid) (tbl_update (\<lambda>x. sc_id x = i) f (ss_scopes s)) = filter (\<lambda>x. sc_realmId x = rid) (ss_scopes s)"
    using other_scope [OF assms(1) Inr assms(2)] by (intro filter_tbl_update_miss) (auto simp: f)
  with synced_keeps [OF assms(1) run, of rid] assms(1) show ?thesis by (simp add: scopes_ok_def map_tbl_update f)
qed

lemma remove_scope_keeps:
  assumes "scopes_ok s" and "realm_id r \<noteq> rid"
  shows "scopes_ok (snd (remove_scope r i s)) \<and> realm_scopes rid (snd (remove_scope r i s)) = realm_scopes rid s"
proof (cases "\<exists>y. findById_scope r i s = Inr y \<and> \<not> sc_builtIn y")
  case False
  then have "snd (remove_scope r i s) = s" by (auto simp: remove_scope_def split: sum.split)
  with assms show ?thesis by simp
next
  case True
  then obtain y where y: "findById_scope r i s = Inr y" "\<not> sc_builtIn y" by blast
  define s1 where "s1 = drop_scope_assignments i (s\<lparr> ss_scopes := tbl_delete (\<lambda>x. sc_id x = i) (ss_scopes s),
    ss_mappers := tbl_delete (\<lambda>m. mp_clientScopeId m = i) (ss_mappers s) \<rparr>)"
  have run: "snd (remove_scope r i s) = sync_scopes s1" using y by (simp add: remove_scope_def s1_def)
  have tab: "ss_scopes s1 = tbl_delete (\<lambda>x. sc_id x = i) (ss_scopes s)" "ss_mappers s1 = tbl_delete (\<lambda>m. mp_clientScopeId m = i) (ss_mappers s)"
    by (simp_all add: s1_def drop_scope_assignments_def Let_def)
  note other = other_scope [OF assms(1) y(1) assms(2)]
  show ?thesis
  proof (rule synced_keeps [OF assms(1) run])
    show "distinct (map sc_id (ss_scopes s1))" using assms(1) by (simp add: tab scopes_ok_def tbl_delete_def distinct_map_filter)
    show "filter (\<lambda>x. sc_realmId x = rid) (ss_scopes s1) = filter (\<lambda>x. sc_realmId x = rid) (ss_scopes s)"
      unfolding tab by (rule filter_tbl_delete_miss) (use other in auto)
    show "filter (\<lambda>m. mp_clientScopeId m = sc_id x) (ss_mappers s1) = filter (\<lambda>m. mp_clientScopeId m = sc_id x) (ss_mappers s)"
      if "x \<in> set (ss_scopes s)" "sc_realmId x = rid" for x
      unfolding tab by (rule filter_tbl_delete_miss) (use other [OF that] in auto)
  qed
qed

lemma addMapper_keeps:
  assumes "scopes_ok s" and "realm_id r \<noteq> rid"
  shows "scopes_ok (snd (addMapper j r i b s)) \<and> realm_scopes rid (snd (addMapper j r i b s)) = realm_scopes rid s"
proof (cases "snd (addMapper j r i b s) = s")
  case False
  then obtain y m where y: "findById_scope r i s = Inr y" and run: "snd (addMapper j r i b s) = sync_scopes (s\<lparr> ss_mappers := ss_mappers s @ [m] \<rparr>)"
    and m: "mp_clientScopeId m = i"
    by (auto simp: addMapper_def Let_def split: if_splits sum.splits)
  show ?thesis
  proof (rule synced_keeps [OF assms(1) run])
    show "filter (\<lambda>m. mp_clientScopeId m = sc_id x) (ss_mappers (s\<lparr> ss_mappers := ss_mappers s @ [m] \<rparr>)) = filter (\<lambda>m. mp_clientScopeId m = sc_id x) (ss_mappers s)"
      if "x \<in> set (ss_scopes s)" "sc_realmId x = rid" for x
      using other_scope [OF assms(1) y assms(2) that] m by simp
  qed (use assms(1) in \<open>simp_all add: scopes_ok_def\<close>)
qed (use assms in simp)

lemma scope_apply_keeps:
  assumes "scopes_ok s" and "scope_elsewhere rid x"
  shows "scopes_ok (scope_apply x s) \<and> realm_scopes rid (scope_apply x s) = realm_scopes rid s"
  by (cases x) (use assms create_scope_keeps update_scope_keeps remove_scope_keeps addMapper_keeps same_scopes_keeps [OF assignments_same(1)] same_scopes_keeps [OF assignments_same(2)]
      same_scopes_keeps [OF assignments_same(3)] same_scopes_keeps [OF assignments_same(4)] in auto)

interpretation scopes_of: confined_steps scope_apply "scope_elsewhere rid" scopes_ok "realm_scopes rid" for rid
  by unfold_locales (use scope_apply_keeps in blast)+

lemma getScopeMappers_realm: "getScopeMappers names rid (cl_db (ss_clients s)) = (if names = [] then [] else
    concat (map cs_protocolMappers (filter (\<lambda>c. cs_name c \<in> set names) (realm_scopes rid s))))"
  by (simp add: getScopeMappers_def realm_scopes_def conj_commute)

text \<open>
  C32.  Whatever is requested for other realms, as long as no mapper is changed or removed: the mappers that put claims into the tokens of a realm stay as they are.
\<close>

theorem scope_mappers_confined:
  assumes "scopes_ok s" and "list_all (scope_elsewhere rid) xs"
  shows "getScopeMappers names rid (cl_db (ss_clients (fold scope_apply xs s))) = getScopeMappers names rid (cl_db (ss_clients s))"
  using scopes_of.run_confined [OF assms] by (simp add: getScopeMappers_realm)

text \<open>
  A mapper is changed for whoever names it together with any scope of any realm of theirs: the scope the mapper belongs to, and its realm, do not matter.
\<close>

lemma mapper_of_any_realm:
  assumes "findById_scope r i s = Inr y" and "List.find (\<lambda>m. mp_id m = j) (ss_mappers s) = Some m"
    and "\<not> list_ex (\<lambda>x. mp_id x \<noteq> j \<and> mp_clientScopeId x = mp_clientScopeId m \<and> mp_name x = mp_name m) (ss_mappers s)"
  shows "fst (updateMapper r i j None (Some config) s) = Inr (m\<lparr> mp_config := config \<rparr>)" and "fst (removeMapper r i j s) = Inr ()"
  using assms find_SomeD [OF assms(2)] by (auto simp: updateMapper_def removeMapper_def nullish_else_def Let_def)

subsection \<open>The scopes of a new realm\<close>

text \<open>Seeding is modelled with the administrator's realm; its scopes are what a new client is given.\<close>

lemma seeded_names:
  "getDefaultScopeNames = map fst DEFAULT_SCOPES" "getOptionalScopeNames = map fst OPTIONAL_SCOPES"
  by (simp_all add: getDefaultScopeNames_def getOptionalScopeNames_def DEFAULT_SCOPES_def OPTIONAL_SCOPES_def)

definition has_scope :: "ident \<Rightarrow> string \<Rightarrow> db \<Rightarrow> bool" where
  "has_scope rid name s \<longleftrightarrow> list_ex (\<lambda>c. cs_realmId c = rid \<and> cs_name c = name) (clientScopes s)"

lemma seed_scopes_has: "(\<forall>d \<in> set defs. has_scope rid (fst d) (seed_scopes ids rid defs s)) \<and> (\<forall>n. has_scope rid n s \<longrightarrow> has_scope rid n (seed_scopes ids rid defs s))"
proof (induction ids rid defs s rule: seed_scopes.induct)
  case (2 ids rid n mappers defs s)
  let ?s = "if list_ex (\<lambda>c. cs_realmId c = rid \<and> cs_name c = n) (clientScopes s) then s
        else s\<lparr> clientScopes := clientScopes s @
                [\<lparr> cs_id = ids n, cs_realmId = rid, cs_name = n,
                   cs_protocolMappers = map (\<lambda>(ty, cfg). \<lparr> pm_mapperType = ty, pm_config = cfg \<rparr>) mappers \<rparr>] \<rparr>"
  have "has_scope rid n ?s" "has_scope rid k s \<Longrightarrow> has_scope rid k ?s" for k by (auto simp: has_scope_def)
  with 2 show ?case by (simp del: if_split)
qed simp

lemma seed_scopes_again: "\<forall>d \<in> set defs. has_scope rid (fst d) s \<Longrightarrow> seed_scopes ids rid defs s = s"
  by (induction ids rid defs s rule: seed_scopes.induct) (simp_all add: has_scope_def)

definition default_scope_of :: "ident \<Rightarrow> ident \<Rightarrow> db \<Rightarrow> string \<Rightarrow> bool" where
  "default_scope_of rid i d n \<longleftrightarrow> list_ex (\<lambda>c. cs_realmId c = rid \<and> cs_name c = n \<and> (i, cs_id c) \<in> set (clientDefaultScopes d)) (clientScopes d)"

definition optional_scope_of :: "ident \<Rightarrow> ident \<Rightarrow> db \<Rightarrow> string \<Rightarrow> bool" where
  "optional_scope_of rid i d n \<longleftrightarrow> list_ex (\<lambda>c. cs_realmId c = rid \<and> cs_name c = n \<and> (i, cs_id c) \<in> set (clientOptionalScopes d)) (clientScopes d)"

lemma assignBuiltInScopes_named:
  assumes "c \<in> set (clientScopes d)" and "cs_realmId c = rid"
  shows "cs_name c \<in> set getDefaultScopeNames \<Longrightarrow> default_scope_of rid i (assignBuiltInScopes rid i d) (cs_name c)"
    and "cs_name c \<in> set getOptionalScopeNames \<Longrightarrow> optional_scope_of rid i (assignBuiltInScopes rid i d) (cs_name c)"
  using assms unfolding default_scope_of_def optional_scope_of_def list_ex_iff by (auto simp: assignBuiltInScopes_def Let_def)

text \<open>
  After a realm was seeded, a new client of it starts with a default scope of every default name and an optional scope of every optional name, and
  seeding again changes nothing.
\<close>

theorem seeded_realm_scopes:
  assumes "s1 = seedDefaultScopes ids rid s"
  shows "seedDefaultScopes ids' rid s1 = s1
    \<and> list_all (default_scope_of rid i (assignBuiltInScopes rid i s1)) getDefaultScopeNames
    \<and> list_all (optional_scope_of rid i (assignBuiltInScopes rid i s1)) getOptionalScopeNames"
proof -
  have all: "\<forall>d \<in> set (DEFAULT_SCOPES @ OPTIONAL_SCOPES). has_scope rid (fst d) s1"
    using seed_scopes_has unfolding assms seedDefaultScopes_def by blast
  then have again: "seedDefaultScopes ids' rid s1 = s1" unfolding seedDefaultScopes_def by (rule seed_scopes_again)
  have row: "\<exists>c \<in> set (clientScopes s1). cs_realmId c = rid \<and> cs_name c = n" if "has_scope rid n s1" for n
    using that by (auto simp: has_scope_def list_ex_iff)
  have "has_scope rid n s1" if "n \<in> set getDefaultScopeNames \<union> set getOptionalScopeNames" for n
    using all that by (auto simp: seeded_names)
  with row have named: "\<exists>c \<in> set (clientScopes s1). cs_realmId c = rid \<and> cs_name c = n"
    if "n \<in> set getDefaultScopeNames \<union> set getOptionalScopeNames" for n using that by blast
  show ?thesis using again named assignBuiltInScopes_named unfolding list_all_iff by blast
qed

subsection \<open>Samples\<close>

definition globex_realm :: realm_row where
  "globex_realm = default_realm ''r2'' ''globex''"

definition sample_scopes :: scopes_state where
  "sample_scopes = sync_scopes
     \<lparr> ss_clients = sample_clients,
       ss_scopes = [\<lparr> sc_id = ''s1'', sc_realmId = ''r1'', sc_name = ''profile'', sc_description = None, sc_protocol = ''openid-connect'', sc_builtIn = False \<rparr>,
                    \<lparr> sc_id = ''s2'', sc_realmId = ''r2'', sc_name = ''profile'', sc_description = None, sc_protocol = ''openid-connect'', sc_builtIn = False \<rparr>],
       ss_mappers = [\<lparr> mp_id = ''m1'', mp_clientScopeId = ''s1'', mp_name = ''n'', mp_protocol = ''openid-connect'', mp_mapperType = ''oidc-hardcoded-claim-mapper'',
                       mp_config = [(''claim.name'', ''tier''), (''claim.value'', ''basic'')] \<rparr>] \<rparr>"

definition sample_mapper_body :: mapper_body where
  "sample_mapper_body = \<lparr> mb_name = ''tier'', mb_mapperType = None, mb_protocolMapper = Some ''oidc-hardcoded-claim-mapper'', mb_protocol = None, mb_config = None \<rparr>"

text \<open>A request for a scope of realm \<open>r2\<close> changes the claims in the tokens of realm \<open>r1\<close>.\<close>

lemma foreign_mapper_change:
  "map pm_config (getScopeMappers [''profile''] ''r1'' (cl_db (ss_clients
     (snd (updateMapper globex_realm ''s2'' ''m1'' None (Some [(''claim.name'', ''tier''), (''claim.value'', ''gold'')]) sample_scopes)))))
   = [[(''claim.name'', ''tier''), (''claim.value'', ''gold'')]]"
  by code_simp

theorem scope_mappers_confined_witness:
  "getScopeMappers [''profile''] ''r1'' (cl_db (ss_clients (fold scope_apply [AddMapper ''m2'' globex_realm ''s2'' sample_mapper_body, RemoveScope globex_realm ''s2''] sample_scopes)))
    = getScopeMappers [''profile''] ''r1'' (cl_db (ss_clients sample_scopes))
   \<and> map sc_id (ss_scopes (fold scope_apply [AddMapper ''m2'' globex_realm ''s2'' sample_mapper_body, RemoveScope globex_realm ''s2''] sample_scopes)) = [''s1'']"
proof
  have "scopes_ok sample_scopes" by (simp add: scopes_ok_def sample_scopes_def)
  moreover have "realm_id globex_realm \<noteq> ''r1''" by code_simp
  ultimately show "getScopeMappers [''profile''] ''r1'' (cl_db (ss_clients (fold scope_apply [AddMapper ''m2'' globex_realm ''s2'' sample_mapper_body, RemoveScope globex_realm ''s2''] sample_scopes)))
    = getScopeMappers [''profile''] ''r1'' (cl_db (ss_clients sample_scopes))"
    by (intro scope_mappers_confined) simp_all
qed code_simp

end
