(* ===== verification/Spec2Isabelle.thy ===== *)
theory Spec2Isabelle
  imports Brute_Force Password_Policy Step_Up Scopes Sms_Otp Mfa Group_Roles Grant_Soundness Authorization Safe_Http Tokens Login_Soundness Rate_Limit Magic_Link Group_Admin Auth_Flow Passkeys Registration Session_Admin Admin_Auth Service_Accounts Scim Proxy_Auth Webhooks Roles Client_Scopes
begin

text \<open>
  A model of the server of Idenplane (\<open>src/src\<close>, TypeScript on NestJS with a Prisma database and an optional Redis), an identity
  provider: OAuth 2.0 and OpenID Connect, browser sign-in, second factors, administration and the guards in front of them.

  \<^bold>\<open>The program and its parts.\<close>  All services share one database.  A request reaches a controller through guards
  (rate limit, administrator token, API key), the controller calls services, a service reads and writes tables and calls other services.
  The sign-in path is: brute-force protection, password check with rehash and policy, second factor or passkey, browser session,
  authorization code, consent, token endpoint, and then introspection, refresh, revocation and logout.  The administration path creates and
  deletes the accounts, groups, policies, keys and sessions that the sign-in path reads.

  \<^bold>\<open>Modelling conventions.\<close>  A Prisma model is a \<open>record\<close> with the columns that modelled code touches, a table is a list of rows in
  insertion order, and the database \<open>db\<close> is the record of the tables (theory \<open>Store\<close>).  A service method is one
  function from its arguments and the state to a result \<open>app_error + 'a\<close> and the new state; each \<open>throw\<close> of the source is an \<open>Inl\<close>, each
  early return a branch.  Statements that the source runs in a transaction or as one conditional \<open>updateMany\<close> are one step; where
  the source reads and writes separately and the difference matters (\<open>Sms_Otp\<close>), the steps are interleaved by an inductive
  relation.  Times are integers in milliseconds.  JavaScript truthiness, \<open>??\<close>, string methods and property access are functions of
  \<open>Prelude\<close> and \<open>Js_Value\<close>; 32-bit arithmetic of the IP code is on \<open>32 word\<close>.

  What is not source of this repository is an argument: \<open>env\<close> (hash functions, TOTP, clock, settings), \<open>draws\<close> (random values
  and generated identifiers of one request), \<open>js_engine\<close> (number and date formatting, regular expressions), \<open>net_platform\<close> (DNS and HTTP answers),
  \<open>login_platform\<close> (LDAP answers and legacy hashes), \<open>webauthn_lib\<close>, \<open>mail_platform\<close>, \<open>captcha_platform\<close>, \<open>prisma_platform\<close>
  (order of texts, columns outside the model), \<open>proxy_platform\<close> (URL and JSON texts), the verifier and decoder of JSON Web Tokens, and the
  state of the Redis connection at each call.  A theorem that needs a law of such an argument states it as a premise, and its witness
  instantiates the argument by a concrete function.

  \<^bold>\<open>Theories.\<close>
  \<^item> \<open>Prelude\<close>, \<open>Js_Value\<close>, \<open>Ipv4_Text\<close>, \<open>Store\<close>, \<open>Redis\<close>: shared types, JavaScript values, tables and their
    update lemmas (\<open>prisma/schema.prisma\<close>), the commands of \<open>redis/redis.service.ts\<close>.
  \<^item> \<open>Contracts\<close>, \<open>Window_Counter\<close>, \<open>Confinement\<close>: the interfaces, see below.
  \<^item> \<open>Brute_Force\<close> (\<open>brute-force/\<close>), \<open>Password_Policy\<close> (\<open>password-policy/\<close>), \<open>Step_Up\<close>, \<open>Scopes\<close> (\<open>scopes/\<close>, mappers
    and claims), \<open>Sms_Otp\<close> (\<open>sms/\<close>), \<open>Mfa\<close> (\<open>mfa/\<close>), \<open>Group_Roles\<close> and \<open>Group_Admin\<close> (\<open>groups/\<close>).
  \<^item> \<open>Token_Issue\<close>, \<open>Auth\<close>, \<open>Device_Flow\<close>: \<open>auth/auth.service.ts\<close> and \<open>device/device.service.ts\<close>.  \<open>Auth_Frames\<close> shows what their steps
    leave alone, \<open>Token_Endpoint\<close> that codes and refresh tokens are redeemed once, \<open>Grant_Soundness\<close> what each successful grant proves.
  \<^item> \<open>Redirect_Uri\<close>, \<open>Consent\<close>, \<open>OAuth\<close>: the authorization endpoint.  \<open>Login\<close>, \<open>Login_Flow\<close>, \<open>Login_Soundness\<close>: \<open>login/\<close>, the
    way of a browser to a session.  \<open>Auth_Flow\<close>: the flow designer \<open>auth-flow/\<close>.  \<open>Magic_Link\<close>, \<open>Passkeys\<close>: \<open>magic-link/\<close>, \<open>webauthn/\<close>.
  \<^item> \<open>Token_Blacklist\<close>, \<open>Tokens\<close>: \<open>tokens/\<close>, introspection, revocation, logout, user info.
  \<^item> \<open>Users\<close>, \<open>Custom_Attributes\<close>, \<open>Registration\<close>, \<open>Session_Admin\<close> (\<open>sessions/\<close>, \<open>impersonation/\<close>), \<open>Admin_Auth\<close> (\<open>admin-auth/\<close> and the
    guards of \<open>common/guards/\<close>), \<open>Service_Accounts\<close>: administration and self-service.
  \<^item> \<open>Scim_Filter\<close>, \<open>Scim_Tokens\<close>, \<open>Scim\<close>: provisioning (\<open>scim/\<close>): filters, bearer tokens and their guard, users, groups and bulk requests.
  \<^item> \<open>Proxy_Auth\<close>: forward authentication for reverse proxies (\<open>proxy-auth/\<close>), composed of the token endpoint and introspection.
  \<^item> \<open>Webhooks\<close>: subscriptions, the queue of events and its scheduler, the test delivery (\<open>webhooks/\<close>); the runs of the queue are \<open>queue_run\<close>.
  \<^item> \<open>Clients\<close>: administration of clients with the cache of their configurations, and the check of cross-origin requests (\<open>clients/\<close>, \<open>cors/\<close>); \<open>Roles\<close>: administration of roles and their assignment (\<open>roles/\<close>);
    \<open>Client_Scopes\<close>: administration of client scopes and their mappers (\<open>client-scopes/\<close>).
  \<^item> \<open>Policy_Engine\<close>, \<open>Authorization\<close>: \<open>authorization/\<close>, attribute-based policies and the cache in front of them.
  \<^item> \<open>Rate_Limit\<close>, \<open>Proxy_Ip\<close>, \<open>Ip_Guard\<close>, \<open>Safe_Http\<close>: \<open>rate-limit/\<close>, the client address, the guard against
    server-side request forgery and the HTTP client that uses it.

  \<^bold>\<open>Interfaces.\<close>  \<open>bounded_use\<close> (a resource is claimed at most as often as its budget says, over any run), its special case
  \<open>single_use\<close>, and \<open>guarded_use\<close> are interpreted by MFA challenges, TOTP codes, recovery codes, authorization codes, refresh
  tokens, device codes, sign-in links and passkey challenges.  \<open>failure_tracker\<close> is interpreted by the password, TOTP and
  WebAuthn counters of \<open>Brute_Force\<close>.  \<open>window_counter\<close> is interpreted by the minute and hour counters of \<open>Rate_Limit\<close>.
  \<open>confined_steps\<close> (every step of a system leaves alone what belongs to others) is interpreted by provisioning.

  \<^bold>\<open>What the lemmas show.\<close>  Soundness theorems (\<open>*_sound\<close>) list everything a success proves: grants, browser sessions, passkeys,
  resets, administrator access, API keys.  At-most-once theorems range over arbitrary runs of the component.  Invariants are
  over inductive runs (\<open>attribute_run\<close>, \<open>account_run\<close>, \<open>admin_run\<close>, \<open>svc_run\<close>, \<open>flow_runs\<close>, \<open>verify_step\<close>, \<open>scim_token_run\<close>) by rule induction.
  Exactness theorems (\<open>*_exact\<close>) compare code with a declarative
  definition: policy decisions, IP ranges, inherited roles.  Round trips cover password reset and the first administrator, SCIM filters and the reading and writing back of a provisioned user.

  \<^bold>\<open>Termination.\<close>  No function has fuel.  The walks over the group tree and the cascades that delete subtrees end because the set of groups not yet
  visited shrinks (\<open>walkGroup\<close>, \<open>collectGroupRoles\<close>, \<open>cascade\<close>), and redirects are followed up to the limit of the source (\<open>safePost_loop\<close>).  Every other loop is a recursion on a list.

  \<^bold>\<open>Not modelled.\<close>  The admin console and the client libraries (user interface); the account pages; brokering and SAML, whose core
  is XML and provider libraries; administration of realms and organizations, plain record
  keeping around the tables; non-human identities, continuous verification and risk assessment, which score requests and do not take part in issuing tokens
  in the modelled paths; plugins (their hooks are identity functions when none is loaded), migration importers
  except for password migration, e-mail templates, events administration, statistics, metrics, health, upgrade: input and output.
\<close>

end
